(* ===== verification/JsPrelude.thy ===== *)
theory JsPrelude
  imports Main "HOL-Library.AList" "HOL-Library.Sublist"
begin

text \<open>
  Shared infrastructure of the development: the theorem collections the component proofs use, a few
  generic list lemmas, and the locales for machines (an initial state, a step function over events
  and an invariant) from which every component derives what holds after any run of its operations.
\<close>

named_theorems js_defs \<open>definitions of the JavaScript value operations, for unfolding\<close>
named_theorems dict_simps \<open>rewrite rules for ordered dictionaries\<close>

section \<open>Lists\<close>

lemma map_idI: "(\<And>x. x \<in> set xs \<Longrightarrow> f x = x) \<Longrightarrow> map f xs = xs"
  by (induction xs) auto

lemma find_Some_mem: "List.find P xs = Some x \<Longrightarrow> x \<in> set xs \<and> P x"
  by (induction xs) (auto split: if_splits)

lemma find_None_iff': "List.find P xs = None \<longleftrightarrow> (\<forall>x \<in> set xs. \<not> P x)"
  by (induction xs) auto

lemma filter_map_comm:
  "(\<And>x. x \<in> set xs \<Longrightarrow> P (f x) = P x) \<Longrightarrow> filter P (map f xs) = map f (filter P xs)"
  by (induction xs) auto

lemma distinct_snoc [simp]: "distinct (xs @ [x]) \<longleftrightarrow> distinct xs \<and> x \<notin> set xs"
  by auto

lemma nth_upd: "xs[i := x] ! j = (if i = j \<and> i < length xs then x else xs ! j)"
  by (cases "i < length xs") (auto simp: nth_list_update list_update_beyond)

section \<open>First index with a property\<close>

text \<open>\<^verbatim>\<open>Array.prototype.findIndex\<close>: \<open>None\<close> where JavaScript returns \<open>-1\<close>.\<close>

fun find_index :: "('a \<Rightarrow> bool) \<Rightarrow> 'a list \<Rightarrow> nat option" where
  "find_index P [] = None"
| "find_index P (x # xs) = (if P x then Some 0 else map_option Suc (find_index P xs))"

lemma find_index_Some:
  "find_index P xs = Some i \<Longrightarrow> i < length xs \<and> P (xs ! i) \<and> (\<forall>j < i. \<not> P (xs ! j))"
proof (induction xs arbitrary: i)
  case Nil
  then show ?case by simp
next
  case (Cons x xs)
  show ?case
  proof (cases "P x")
    case True
    with Cons.prems show ?thesis by auto
  next
    case False
    with Cons.prems obtain j where j: "find_index P xs = Some j" "i = Suc j" by auto
    from Cons.IH [OF j(1)] j(2) False show ?thesis by (auto simp: less_Suc_eq_0_disj)
  qed
qed

lemma find_index_None: "find_index P xs = None \<longleftrightarrow> (\<forall>x \<in> set xs. \<not> P x)"
  by (induction xs) auto

text \<open>The last index with a property: the downward \<^verbatim>\<open>for\<close> loops of the source.\<close>

definition find_last_index :: "('a \<Rightarrow> bool) \<Rightarrow> 'a list \<Rightarrow> nat option" where
  "find_last_index P xs = map_option (\<lambda>i. length xs - Suc i) (find_index P (rev xs))"

lemma find_last_index_Some:
  assumes "find_last_index P xs = Some i"
  shows "i < length xs \<and> P (xs ! i) \<and> (\<forall>j < length xs. i < j \<longrightarrow> \<not> P (xs ! j))"
proof -
  from assms obtain k where k: "find_index P (rev xs) = Some k" and i: "i = length xs - Suc k"
    by (auto simp: find_last_index_def)
  from find_index_Some [OF k] have k_len: "k < length xs" and pk: "P (rev xs ! k)"
    and before: "\<forall>j < k. \<not> P (rev xs ! j)" by auto
  have "\<not> P (xs ! j)" if "j < length xs" "i < j" for j
  proof -
    from that i k_len have "length xs - Suc j < k" by arith
    with before that have "\<not> P (rev xs ! (length xs - Suc j))" by blast
    with that show ?thesis by (simp add: rev_nth)
  qed
  with i k_len pk show ?thesis by (simp add: rev_nth)
qed

lemma find_last_index_None: "find_last_index P xs = None \<longleftrightarrow> (\<forall>x \<in> set xs. \<not> P x)"
  by (simp add: find_last_index_def find_index_None)

section \<open>Machines\<close>

text \<open>
  A component with state is a machine: an initial state, a total step function over the events its
  callers can send, and a side condition \<open>ok\<close> on events. The locale's lemmas lift one-step facts to
  all runs.
\<close>

locale machine =
  fixes init :: 's
    and step :: "'s \<Rightarrow> 'e \<Rightarrow> 's"
    and ok :: "'s \<Rightarrow> 'e \<Rightarrow> bool"
    and inv :: "'s \<Rightarrow> bool"
  assumes inv_init: "inv init"
    and inv_step: "inv s \<Longrightarrow> ok s e \<Longrightarrow> inv (step s e)"
begin

fun run :: "'s \<Rightarrow> 'e list \<Rightarrow> 's" where
  "run s [] = s"
| "run s (e # es) = run (step s e) es"

fun ok_run :: "'s \<Rightarrow> 'e list \<Rightarrow> bool" where
  "ok_run s [] = True"
| "ok_run s (e # es) = (ok s e \<and> ok_run (step s e) es)"

lemma run_foldl: "run s es = foldl step s es"
  by (induction es arbitrary: s) auto

lemma run_append: "run s (es @ es') = run (run s es) es'"
  by (induction es arbitrary: s) auto

lemma run_inv_from: "inv s \<Longrightarrow> ok_run s es \<Longrightarrow> inv (run s es)"
  by (induction es arbitrary: s) (auto intro: inv_step)

lemma run_inv: "ok_run init es \<Longrightarrow> inv (run init es)"
  by (rule run_inv_from [OF inv_init])

lemma all_ok_run: "(\<And>s e. e \<in> set es \<Longrightarrow> ok s e) \<Longrightarrow> ok_run s es"
  by (induction es arbitrary: s) auto

end

text \<open>A machine some of whose states are terminal: no event leaves them.\<close>

locale terminal_machine = machine init step ok inv
  for init :: 's and step :: "'s \<Rightarrow> 'e \<Rightarrow> 's" and ok :: "'s \<Rightarrow> 'e \<Rightarrow> bool" and inv :: "'s \<Rightarrow> bool" +
  fixes terminal :: "'s \<Rightarrow> bool"
  assumes terminal_step: "inv s \<Longrightarrow> ok s e \<Longrightarrow> terminal s \<Longrightarrow> terminal (step s e)"
begin

lemma terminal_run: "inv s \<Longrightarrow> terminal s \<Longrightarrow> ok_run s es \<Longrightarrow> terminal (run s es)"
  by (induction es arbitrary: s) (auto intro: terminal_step inv_step)

end

text \<open>A machine with a quantity that no event decreases.\<close>

locale monotone_machine = machine init step ok inv
  for init :: 's and step :: "'s \<Rightarrow> 'e \<Rightarrow> 's" and ok :: "'s \<Rightarrow> 'e \<Rightarrow> bool" and inv :: "'s \<Rightarrow> bool" +
  fixes rank :: "'s \<Rightarrow> 'n::preorder"
  assumes rank_step: "inv s \<Longrightarrow> ok s e \<Longrightarrow> rank s \<le> rank (step s e)"
begin

lemma rank_run: "inv s \<Longrightarrow> ok_run s es \<Longrightarrow> rank s \<le> rank (run s es)"
proof (induction es arbitrary: s)
  case Nil
  then show ?case by simp
next
  case (Cons e es)
  then have "rank s \<le> rank (step s e)" and "rank (step s e) \<le> rank (run (step s e) es)"
    by (auto intro: rank_step inv_step)
  then show ?case by (auto intro: order_trans)
qed

end

end
