(* ===== verification/JsValue.thy ===== *)
theory JsValue
  imports JsPrelude
begin

text \<open>
  JavaScript values and the operations of the language and its standard library that the modelled
  code uses: truthiness, the operators \<^verbatim>\<open>||\<close>, \<^verbatim>\<open>&&\<close> and \<^verbatim>\<open>??\<close>, optional property access, object
  spread, conversion to strings, and the string methods.

  Bounds of the model. A number is an integer or NaN (\<open>JNaN\<close> stands for every non-finite number):
  the code's numbers are indexes, counts, sequence numbers and millisecond timestamps. A string is a
  list of characters, one character per UTF-16 code unit; code units above 255 have no character.
  Of the literals the model emits two contain such units, written with their Windows-1252 codes: the
  ellipsis \<open>CHR 0x85\<close> and the dash \<open>CHR 0x97\<close>. A property read on
  \<^verbatim>\<open>null\<close> or \<^verbatim>\<open>undefined\<close> gives \<open>JUndef\<close>: the source either writes it with \<^verbatim>\<open>?.\<close> or applies it to
  values that the invariants of its component show to be objects. Objects keep the insertion order
  of their keys; a function value is an opaque reference \<open>JFun\<close>.
\<close>

section \<open>Values\<close>

datatype jsval =
    JUndef
  | JNull
  | JBool bool
  | JNum int
  | JNaN
  | JStr string
  | JArr "jsval list"
  | JObj "(string \<times> jsval) list"
  | JFun nat

type_synonym jsobj = "(string \<times> jsval) list"

fun truthy :: "jsval \<Rightarrow> bool" where
  "truthy JUndef = False"
| "truthy JNull = False"
| "truthy (JBool b) = b"
| "truthy (JNum n) = (n \<noteq> 0)"
| "truthy JNaN = False"
| "truthy (JStr s) = (s \<noteq> [])"
| "truthy (JArr _) = True"
| "truthy (JObj _) = True"
| "truthy (JFun _) = True"

fun nullish :: "jsval \<Rightarrow> bool" where
  "nullish JUndef = True"
| "nullish JNull = True"
| "nullish _ = False"

text \<open>\<^verbatim>\<open>a || b\<close>, \<^verbatim>\<open>a && b\<close> and \<^verbatim>\<open>a ?? b\<close> as values.\<close>

definition jor :: "jsval \<Rightarrow> jsval \<Rightarrow> jsval" where
  "jor a b = (if truthy a then a else b)"

definition jand :: "jsval \<Rightarrow> jsval \<Rightarrow> jsval" where
  "jand a b = (if truthy a then b else a)"

definition jcoal :: "jsval \<Rightarrow> jsval \<Rightarrow> jsval" where
  "jcoal a b = (if nullish a then b else a)"

fun is_str :: "jsval \<Rightarrow> bool" where
  "is_str (JStr _) = True"
| "is_str _ = False"

fun is_arr :: "jsval \<Rightarrow> bool" where
  "is_arr (JArr _) = True"
| "is_arr _ = False"

fun is_num :: "jsval \<Rightarrow> bool" where
  "is_num (JNum _) = True"
| "is_num _ = False"

text \<open>\<^verbatim>\<open>typeof v === 'object'\<close>, which holds of \<^verbatim>\<open>null\<close> and of arrays too.\<close>

fun is_object :: "jsval \<Rightarrow> bool" where
  "is_object JNull = True"
| "is_object (JArr _) = True"
| "is_object (JObj _) = True"
| "is_object _ = False"

fun arr_of :: "jsval \<Rightarrow> jsval list" where
  "arr_of (JArr xs) = xs"
| "arr_of _ = []"

fun str_of :: "jsval \<Rightarrow> string" where
  "str_of (JStr s) = s"
| "str_of _ = []"

text \<open>Strict equality. Objects are compared by value; the modelled code compares primitives.\<close>

definition jeq :: "jsval \<Rightarrow> jsval \<Rightarrow> bool" where
  "jeq a b \<longleftrightarrow> a = b \<and> a \<noteq> JNaN"

section \<open>Objects\<close>

fun jget :: "jsval \<Rightarrow> string \<Rightarrow> jsval" where
  "jget (JObj kvs) k = (case map_of kvs k of Some v \<Rightarrow> v | None \<Rightarrow> JUndef)"
| "jget _ k = JUndef"

fun has_own :: "jsval \<Rightarrow> string \<Rightarrow> bool" where
  "has_own (JObj kvs) k = (map_of kvs k \<noteq> None)"
| "has_own _ k = False"

text \<open>\<^verbatim>\<open>{ ...o, k: v }\<close>: an existing key keeps its place, a new one is appended.\<close>

fun jset :: "string \<Rightarrow> jsval \<Rightarrow> jsval \<Rightarrow> jsval" where
  "jset k v (JObj kvs) = JObj (AList.update k v kvs)"
| "jset k v _ = JObj [(k, v)]"

definition jdel :: "string \<Rightarrow> jsval \<Rightarrow> jsval" where
  "jdel k o' = (case o' of JObj kvs \<Rightarrow> JObj (AList.delete k kvs) | _ \<Rightarrow> o')"

fun obj_of :: "jsval \<Rightarrow> jsobj" where
  "obj_of (JObj kvs) = kvs"
| "obj_of _ = []"

text \<open>\<^verbatim>\<open>{ ...o, k1: v1, ... }\<close> and \<^verbatim>\<open>{ ...a, ...b }\<close>.\<close>

definition jput :: "jsval \<Rightarrow> jsobj \<Rightarrow> jsval" where
  "jput o' kvs = foldl (\<lambda>acc (k, v). jset k v acc) (JObj (obj_of o')) kvs"

definition jspread :: "jsval \<Rightarrow> jsval \<Rightarrow> jsval" where
  "jspread a b = jput a (obj_of b)"

text \<open>\<^verbatim>\<open>if (b) o.k = v\<close>\<close>

definition set_if :: "bool \<Rightarrow> string \<Rightarrow> jsval \<Rightarrow> jsval \<Rightarrow> jsval" where
  "set_if b k v o' = (if b then jset k v o' else o')"

lemmas js_op_defs [js_defs] = jor_def jand_def jcoal_def jeq_def

lemma jget_jset [simp]: "jget (jset k v o') k' = (if k = k' then v else jget o' k')"
  by (cases o') (auto simp: update_conv')

lemma has_own_jset [simp]: "has_own (jset k v o') k' \<longleftrightarrow> k = k' \<or> has_own o' k'"
  by (cases o') (auto simp: update_conv')

lemma jset_is_obj [simp]: "\<exists>kvs. jset k v o' = JObj kvs"
  by (cases o') auto

lemma truthy_jset [simp]: "truthy (jset k v o')"
  by (cases o') auto

lemma jget_set_if [simp]: "jget (set_if b k v o') k' = (if b \<and> k = k' then v else jget o' k')"
  by (simp add: set_if_def)

lemma nullish_not_truthy: "nullish v \<Longrightarrow> \<not> truthy v"
  by (cases v) auto

lemma truthy_jor [simp]: "truthy (jor a b) \<longleftrightarrow> truthy a \<or> truthy b"
  by (simp add: jor_def)

lemma jor_truthy: "truthy a \<Longrightarrow> jor a b = a"
  by (simp add: jor_def)

lemma jor_falsy: "\<not> truthy a \<Longrightarrow> jor a b = b"
  by (simp add: jor_def)

lemma jget_obj_of: "jget (JObj (obj_of o')) k = jget o' k"
  by (cases o') auto

lemma jput_Nil [simp]: "jput (JObj kvs) [] = JObj kvs"
  by (simp add: jput_def)

lemma jput_snoc: "jput o' (kvs @ [(k, v)]) = jset k v (jput o' kvs)"
  by (simp add: jput_def)

lemma jput_is_obj: "\<exists>kvs'. jput o' kvs = JObj kvs'"
proof (induction kvs rule: rev_induct)
  case Nil
  then show ?case by (simp add: jput_def)
next
  case (snoc p kvs)
  then show ?case by (cases p) (simp add: jput_snoc)
qed

lemma truthy_jput [simp]: "truthy (jput o' kvs)"
  using jput_is_obj [of o' kvs] by auto

lemma jget_jput:
  "jget (jput o' kvs) k = (case map_of (rev kvs) k of Some v \<Rightarrow> v | None \<Rightarrow> jget o' k)"
proof (induction kvs rule: rev_induct)
  case Nil
  then show ?case by (cases o') (simp_all add: jput_def)
next
  case (snoc p kvs)
  then show ?case by (cases p) (simp add: jput_snoc)
qed

lemma jget_jput_other: "k \<notin> fst ` set kvs \<Longrightarrow> jget (jput o' kvs) k = jget o' k"
proof -
  assume "k \<notin> fst ` set kvs"
  then have "map_of (rev kvs) k = None" by (simp add: map_of_eq_None_iff)
  then show ?thesis by (simp add: jget_jput)
qed

lemma map_of_rev_distinct: "distinct (map fst kvs) \<Longrightarrow> map_of (rev kvs) = map_of kvs"
  by (subst map_of_inject_set) (simp_all add: rev_map [symmetric])

lemma jget_jspread:
  "distinct (map fst (obj_of b)) \<Longrightarrow> jget (jspread a b) k = (if has_own b k then jget b k else jget a k)"
proof (cases b)
  case (JObj kvs)
  assume "distinct (map fst (obj_of b))"
  with JObj have "map_of (rev kvs) = map_of kvs" by (simp add: map_of_rev_distinct)
  then have "jget (jspread a b) k = (case map_of kvs k of Some v \<Rightarrow> v | None \<Rightarrow> jget a k)"
    by (simp add: JObj jspread_def jget_jput)
  then show ?thesis by (cases "map_of kvs k") (simp_all only: JObj jget.simps has_own.simps option.case option.distinct simp_thms if_True if_False)
qed (simp_all add: jspread_def jget_jput)

section \<open>Strings\<close>

text \<open>The white space of \<^verbatim>\<open>\s\<close> and \<^verbatim>\<open>trim\<close> in the first 256 code units.\<close>

definition is_ws :: "char \<Rightarrow> bool" where
  "is_ws c \<longleftrightarrow> c \<in> set [CHR 0x20, CHR 0x09, CHR 0x0A, CHR 0x0B, CHR 0x0C, CHR 0x0D, CHR 0xA0]"

abbreviation newline :: char where
  "newline \<equiv> CHR 0x0A"

definition trim_start :: "string \<Rightarrow> string" where
  "trim_start s = dropWhile is_ws s"

definition trim :: "string \<Rightarrow> string" where
  "trim s = rev (dropWhile is_ws (rev (trim_start s)))"

definition lower_char :: "char \<Rightarrow> char" where
  "lower_char c =
     (let n = (of_char c :: nat)
      in if (65 \<le> n \<and> n \<le> 90) \<or> (192 \<le> n \<and> n \<le> 222 \<and> n \<noteq> 215) then char_of (n + 32) else c)"

definition lower :: "string \<Rightarrow> string" where
  "lower s = map lower_char s"

fun str_includes :: "string \<Rightarrow> string \<Rightarrow> bool" where
  "str_includes [] p = (p = [])"
| "str_includes (c # s) p = (prefix p (c # s) \<or> str_includes s p)"

fun join :: "string \<Rightarrow> string list \<Rightarrow> string" where
  "join sep [] = []"
| "join sep [x] = x"
| "join sep (x # y # ys) = x @ sep @ join sep (y # ys)"

text \<open>\<^verbatim>\<open>s.split(c)\<close> for separators that are single characters satisfying \<open>P\<close>.\<close>

fun split_on :: "(char \<Rightarrow> bool) \<Rightarrow> string \<Rightarrow> string list" where
  "split_on P [] = [[]]"
| "split_on P (c # s) =
     (if P c then [] # split_on P s
      else (case split_on P s of [] \<Rightarrow> [[c]] | w # ws \<Rightarrow> (c # w) # ws))"

fun show_nat :: "nat \<Rightarrow> string" where
  "show_nat n =
     (if n < 10 then [char_of (n + 48)] else show_nat (n div 10) @ [char_of (n mod 10 + 48)])"

declare show_nat.simps [simp del]

definition show_int :: "int \<Rightarrow> string" where
  "show_int n = (if n < 0 then CHR ''-'' # show_nat (nat (- n)) else show_nat (nat n))"

text \<open>\<^verbatim>\<open>String(v)\<close>, and the join of an array's elements that it uses.\<close>

fun to_str :: "jsval \<Rightarrow> string" where
  "to_str JUndef = ''undefined''"
| "to_str JNull = ''null''"
| "to_str (JBool b) = (if b then ''true'' else ''false'')"
| "to_str (JNum n) = show_int n"
| "to_str JNaN = ''NaN''"
| "to_str (JStr s) = s"
| "to_str (JArr xs) = join '','' (map (\<lambda>x. if nullish x then [] else to_str x) xs)"
| "to_str (JObj _) = ''[object Object]''"
| "to_str (JFun _) = ''function''"

lemma dropWhile_idem: "dropWhile P (dropWhile P xs) = dropWhile P xs"
  by (induction xs) auto

lemma hd_dropWhile_not: "dropWhile P xs \<noteq> [] \<Longrightarrow> \<not> P (hd (dropWhile P xs))"
  by (rule hd_dropWhile)

lemma trim_start_Nil: "trim_start s = [] \<longleftrightarrow> (\<forall>c \<in> set s. is_ws c)"
  by (simp add: trim_start_def)

lemma trim_Nil [simp]: "trim [] = []"
  by (simp add: trim_def trim_start_def)

lemma trim_eq_Nil: "trim s = [] \<longleftrightarrow> (\<forall>c \<in> set s. is_ws c)"
proof -
  have "trim s = [] \<longleftrightarrow> (\<forall>c \<in> set (trim_start s). is_ws c)" by (simp add: trim_def)
  also have "\<dots> \<longleftrightarrow> trim_start s = []"
    unfolding trim_start_def
    by (metis dropWhile_eq_Nil_conv empty_iff empty_set hd_dropWhile hd_in_set)
  finally show ?thesis by (simp add: trim_start_Nil)
qed

lemma dropWhile_id: "xs = [] \<or> \<not> P (hd xs) \<Longrightarrow> dropWhile P xs = xs"
  by (cases xs) auto

lemma trim_idem [simp]: "trim (trim s) = trim s"
proof (cases "trim s = []")
  case True
  then show ?thesis by simp
next
  case False
  define t where "t = trim_start s"
  define u where "u = dropWhile is_ws (rev t)"
  have trim_u: "trim s = rev u" by (simp add: trim_def t_def u_def)
  obtain ws where "rev t = ws @ u" unfolding u_def by (metis takeWhile_dropWhile_id)
  then have t_eq: "t = rev u @ rev ws" by (metis rev_append rev_rev_ident)
  from False trim_u have ne: "u \<noteq> []" by auto
  from t_eq ne have "t \<noteq> []" and "hd t = hd (rev u)" by auto
  then have "\<not> is_ws (hd (trim s))"
    using hd_dropWhile [of is_ws s] by (simp add: trim_u t_def trim_start_def)
  then have 1: "trim_start (trim s) = trim s"
    unfolding trim_start_def by (intro dropWhile_id) simp
  have "dropWhile is_ws (rev (trim s)) = u" by (simp add: trim_u u_def dropWhile_idem)
  with 1 show ?thesis by (simp add: trim_u trim_def [of "rev u"])
qed

lemma str_includes_iff: "str_includes s p \<longleftrightarrow> (\<exists>a b. s = a @ p @ b)"
proof (induction s)
  case Nil
  then show ?case by auto
next
  case (Cons c s)
  show ?case
  proof
    assume "str_includes (c # s) p"
    then consider "prefix p (c # s)" | "str_includes s p" by auto
    then show "\<exists>a b. c # s = a @ p @ b"
    proof cases
      case 1
      then obtain b where "c # s = [] @ p @ b" by (auto simp: prefix_def)
      then show ?thesis by blast
    next
      case 2
      with Cons.IH obtain a b where "c # s = (c # a) @ p @ b" by auto
      then show ?thesis by blast
    qed
  next
    assume "\<exists>a b. c # s = a @ p @ b"
    then obtain a b where ab: "c # s = a @ p @ b" by blast
    show "str_includes (c # s) p"
    proof (cases a)
      case Nil
      with ab have "prefix p (c # s)" by (simp add: prefix_def)
      then show ?thesis by simp
    next
      case (Cons d a')
      with ab have "s = a' @ p @ b" by simp
      with Cons.IH show ?thesis by auto
    qed
  qed
qed

lemma length_show_nat_pos: "show_nat n \<noteq> []"
  by (subst show_nat.simps) simp

lemma show_int_Nil [simp]: "show_int n \<noteq> []"
  by (simp add: show_int_def length_show_nat_pos)

text \<open>Decimal numerals are read back, so they are injective.\<close>

definition read_nat :: "string \<Rightarrow> nat" where
  "read_nat s = foldl (\<lambda>a c. a * 10 + (of_char c - 48)) 0 s"

lemma read_show_nat: "read_nat (show_nat n) = n"
proof (induction n rule: show_nat.induct)
  case (1 n)
  show ?case
  proof (cases "n < 10")
    case True
    then show ?thesis by (simp add: show_nat.simps [of n] read_nat_def)
  next
    case False
    then have "read_nat (show_nat (n div 10)) = n div 10" using 1 by simp
    then show ?thesis using False by (simp add: show_nat.simps [of n] read_nat_def)
  qed
qed

lemma show_nat_inject [simp]: "show_nat m = show_nat n \<longleftrightarrow> m = n"
  by (metis read_show_nat)

text \<open>Subtraction of a value from a number, \<^verbatim>\<open>n - v\<close>.\<close>

fun jminus :: "int \<Rightarrow> jsval \<Rightarrow> jsval" where
  "jminus n (JNum m) = JNum (n - m)"
| "jminus n _ = JNaN"

section \<open>The environment\<close>

text \<open>
  What the code reads from its surroundings: the clock, \<^verbatim>\<open>JSON.parse\<close> (\<open>None\<close> when it throws),
  \<^verbatim>\<open>JSON.stringify\<close>, \<^verbatim>\<open>Date.parse\<close> (\<open>None\<close> for NaN) and the conversion of strings to numbers. Every
  theorem holds for all environments. An operation reads the clock once.
\<close>

record js_env =
  env_now :: int
  env_parse_json :: "string \<Rightarrow> jsval option"
  env_stringify :: "jsval \<Rightarrow> string"
  env_date_parse :: "string \<Rightarrow> int option"
  env_str_num :: "string \<Rightarrow> int option"

definition demo_env :: "int \<Rightarrow> js_env" where
  "demo_env t = \<lparr>env_now = t, env_parse_json = (\<lambda>_. None), env_stringify = to_str, env_date_parse = (\<lambda>_. None),
     env_str_num = (\<lambda>_. None)\<rparr>"

end
