(* ===== verification/JsRegex.thy ===== *)
theory JsRegex
  imports JsValue
begin

text \<open>
  Regular expressions with the backtracking semantics of ECMAScript, so that the pattern literals of
  the source are data of the model. A matcher takes a continuation and tries alternatives in order;
  a quantifier is greedy or lazy and stops when an iteration consumes nothing. Captures are recorded
  innermost last; no pattern of the source captures inside a repetition.
\<close>

section \<open>Patterns and the matcher\<close>

datatype rx =
    RChr "char \<Rightarrow> bool"
  | REmpty
  | RSeq rx rx
  | RAlt rx rx
  | RStar bool rx
  | RGrp nat rx
  | RBegin
  | REnd
  | RWordB
  | RBack nat

text \<open>A position: the characters already consumed (reversed), those that remain, the captures.\<close>

type_synonym rxst = "string \<times> string \<times> (nat \<times> string) list"

type_synonym rxcont = "rxst \<Rightarrow> rxst option"

definition is_word_char :: "char \<Rightarrow> bool" where
  "is_word_char c \<longleftrightarrow>
     (let n = (of_char c :: nat)
      in (48 \<le> n \<and> n \<le> 57) \<or> (65 \<le> n \<and> n \<le> 90) \<or> (97 \<le> n \<and> n \<le> 122) \<or> n = 95)"

fun word_at :: "string \<Rightarrow> bool" where
  "word_at [] = False"
| "word_at (c # _) = is_word_char c"

fun orelse :: "'a option \<Rightarrow> 'a option \<Rightarrow> 'a option" where
  "orelse (Some x) _ = Some x"
| "orelse None y = y"

text \<open>
  The repetition of a matcher \<open>f\<close>: at most \<open>n\<close> iterations, each of which must consume something.
\<close>

fun star_loop :: "bool \<Rightarrow> (rxcont \<Rightarrow> rxcont) \<Rightarrow> rxcont \<Rightarrow> nat \<Rightarrow> rxcont" where
  "star_loop g f k 0 st = k st"
| "star_loop g f k (Suc n) st =
     (let more = f (\<lambda>st'. if length (fst (snd st')) < length (fst (snd st))
                          then star_loop g f k n st' else None) st
      in if g then orelse more (k st) else orelse (k st) more)"

primrec rmatch :: "rx \<Rightarrow> rxcont \<Rightarrow> rxcont" where
  "rmatch (RChr p) k st =
     (case st of (pre, rest, caps) \<Rightarrow>
        (case rest of [] \<Rightarrow> None | c # cs \<Rightarrow> if p c then k (c # pre, cs, caps) else None))"
| "rmatch REmpty k st = k st"
| "rmatch (RSeq a b) k st = rmatch a (rmatch b k) st"
| "rmatch (RAlt a b) k st = orelse (rmatch a k st) (rmatch b k st)"
| "rmatch (RStar g r) k st = star_loop g (rmatch r) k (length (fst (snd st))) st"
| "rmatch (RGrp i r) k st =
     rmatch r (\<lambda>(pre', rest', caps').
       k (pre', rest', (i, rev (take (length pre' - length (fst st)) pre')) # caps')) st"
| "rmatch RBegin k st = (if fst st = [] then k st else None)"
| "rmatch REnd k st = (if fst (snd st) = [] then k st else None)"
| "rmatch RWordB k st = (if word_at (fst st) \<noteq> word_at (fst (snd st)) then k st else None)"
| "rmatch (RBack i) k st =
     (case st of (pre, rest, caps) \<Rightarrow>
        (let w = (case map_of caps i of None \<Rightarrow> [] | Some w \<Rightarrow> w)
         in if lower w = lower (take (length w) rest)
            then k (rev (take (length w) rest) @ pre, drop (length w) rest, caps) else None))"

section \<open>Searching and replacing\<close>

text \<open>The leftmost match at or after a position: the start (consumed prefix) and the end position.\<close>

fun rsearch :: "rx \<Rightarrow> string \<Rightarrow> string \<Rightarrow> (string \<times> rxst) option" where
  "rsearch r pre [] = map_option (Pair pre) (rmatch r Some (pre, [], []))"
| "rsearch r pre (c # cs) =
     (case rmatch r Some (pre, c # cs, []) of
        Some st \<Rightarrow> Some (pre, st)
      | None \<Rightarrow> rsearch r (c # pre) cs)"

definition rtest :: "rx \<Rightarrow> string \<Rightarrow> bool" where
  "rtest r s \<longleftrightarrow> rsearch r [] s \<noteq> None"

text \<open>\<^verbatim>\<open>s.match(r)?.[i]\<close>: the capture \<open>i\<close> of the first match.\<close>

definition rgroup :: "rx \<Rightarrow> nat \<Rightarrow> string \<Rightarrow> string option" where
  "rgroup r i s = (case rsearch r [] s of None \<Rightarrow> None | Some (_, (_, _, caps)) \<Rightarrow> map_of caps i)"

text \<open>
  \<^verbatim>\<open>s.replace(r, t)\<close> with the global flag. Every round consumes a character, so fuel above the
  length of the text is enough (\<open>rreplace_fuel_enough\<close>).
\<close>

fun rreplace_fuel :: "nat \<Rightarrow> rx \<Rightarrow> string \<Rightarrow> string \<Rightarrow> string \<Rightarrow> string" where
  "rreplace_fuel 0 r t pre rest = rest"
| "rreplace_fuel (Suc n) r t pre rest =
     (case rsearch r pre rest of
        None \<Rightarrow> rest
      | Some (pre0, (pre1, rest1, _)) \<Rightarrow>
          rev (take (length pre0 - length pre) pre0) @ t @
          (if length pre1 = length pre0
           then (case rest1 of [] \<Rightarrow> [] | c # cs \<Rightarrow> c # rreplace_fuel n r t (c # pre1) cs)
           else rreplace_fuel n r t pre1 rest1))"

definition rreplace :: "rx \<Rightarrow> string \<Rightarrow> string \<Rightarrow> string" where
  "rreplace r t s = rreplace_fuel (Suc (length s)) r t [] s"

text \<open>The captures of all successive matches: a \<^verbatim>\<open>while ((m = re.exec(s)) !== null)\<close> loop.\<close>

fun rmatches_fuel :: "nat \<Rightarrow> rx \<Rightarrow> string \<Rightarrow> string \<Rightarrow> (nat \<times> string) list list" where
  "rmatches_fuel 0 r pre rest = []"
| "rmatches_fuel (Suc n) r pre rest =
     (case rsearch r pre rest of
        None \<Rightarrow> []
      | Some (pre0, (pre1, rest1, caps)) \<Rightarrow>
          caps #
          (if length pre1 = length pre0
           then (case rest1 of [] \<Rightarrow> [] | c # cs \<Rightarrow> rmatches_fuel n r (c # pre1) cs)
           else rmatches_fuel n r pre1 rest1))"

definition rmatches :: "rx \<Rightarrow> string \<Rightarrow> (nat \<times> string) list list" where
  "rmatches r s = rmatches_fuel (Suc (length s)) r [] s"

section \<open>Building patterns\<close>

fun rlit :: "string \<Rightarrow> rx" where
  "rlit [] = REmpty"
| "rlit (c # s) = RSeq (RChr (\<lambda>x. x = c)) (rlit s)"

fun rlit_ci :: "string \<Rightarrow> rx" where
  "rlit_ci [] = REmpty"
| "rlit_ci (c # s) = RSeq (RChr (\<lambda>x. lower_char x = lower_char c)) (rlit_ci s)"

definition rany :: rx where
  "rany = RChr (\<lambda>_. True)"

definition rws :: rx where
  "rws = RChr is_ws"

definition rplus :: "rx \<Rightarrow> rx" where
  "rplus r = RSeq r (RStar True r)"

definition ropt :: "rx \<Rightarrow> rx" where
  "ropt r = RAlt r REmpty"

fun rseq :: "rx list \<Rightarrow> rx" where
  "rseq [] = REmpty"
| "rseq [r] = r"
| "rseq (r # q # rs) = RSeq r (rseq (q # rs))"

fun ralt :: "rx list \<Rightarrow> rx" where
  "ralt [] = RChr (\<lambda>_. False)"
| "ralt [r] = r"
| "ralt (r # q # rs) = RAlt r (ralt (q # rs))"

lemmas rx_defs = rany_def rws_def rplus_def ropt_def

section \<open>A match only consumes\<close>

text \<open>
  A position extends another when it was reached by consuming a prefix of what remained. Every
  matcher calls its continuation on extensions only.
\<close>

definition extends :: "rxst \<Rightarrow> rxst \<Rightarrow> bool" where
  "extends st' st \<longleftrightarrow> (\<exists>w. fst st' = rev w @ fst st \<and> fst (snd st) = w @ fst (snd st'))"

lemma extends_refl [simp]: "extends st st"
  by (auto simp: extends_def)

lemma extends_trans: "extends c b \<Longrightarrow> extends b a \<Longrightarrow> extends c a"
  unfolding extends_def by (metis append.assoc rev_append)

lemma extends_length: "extends st' st \<Longrightarrow> length (fst (snd st')) \<le> length (fst (snd st))"
  by (auto simp: extends_def)

lemma orelse_Some: "orelse a b = Some x \<longleftrightarrow> a = Some x \<or> (a = None \<and> b = Some x)"
  by (cases a) auto

lemma orelse_None: "orelse a b = None \<longleftrightarrow> a = None \<and> b = None"
  by (cases a) auto

definition consuming :: "(rxcont \<Rightarrow> rxcont) \<Rightarrow> bool" where
  "consuming f \<longleftrightarrow> (\<forall>k st r. f k st = Some r \<longrightarrow> (\<exists>st'. extends st' st \<and> k st' = Some r))"

lemma consumingD: "consuming f \<Longrightarrow> f k st = Some r \<Longrightarrow> \<exists>st'. extends st' st \<and> k st' = Some r"
  unfolding consuming_def by blast

lemma star_loop_consuming:
  assumes "consuming f" and "star_loop g f k n st = Some r"
  shows "\<exists>st'. extends st' st \<and> k st' = Some r"
  using assms(2)
proof (induction n arbitrary: st)
  case 0
  then have "k st = Some r" by simp
  then show ?case using extends_refl by blast
next
  case (Suc n)
  let ?k = "\<lambda>st'. if length (fst (snd st')) < length (fst (snd st)) then star_loop g f k n st' else None"
  from Suc.prems have "f ?k st = Some r \<or> k st = Some r"
    by (auto simp: Let_def orelse_Some split: if_splits)
  then show ?case
  proof
    assume "f ?k st = Some r"
    with assms(1) obtain st1 where e: "extends st1 st" and "?k st1 = Some r"
      using consumingD [of f ?k st r] by blast
    then have "star_loop g f k n st1 = Some r" by (simp split: if_splits)
    from Suc.IH [OF this] obtain st2 where "extends st2 st1" "k st2 = Some r" by blast
    with e show ?case by (blast intro: extends_trans)
  next
    assume "k st = Some r"
    then show ?case using extends_refl by blast
  qed
qed

lemma rmatch_consuming: "consuming (rmatch r)"
proof (induction r)
  case (RChr p)
  show ?case
    unfolding consuming_def
  proof (intro allI impI)
    fix k st res
    assume "rmatch (RChr p) k st = Some res"
    then obtain pre c cs caps where st: "st = (pre, c # cs, caps)" and "k (c # pre, cs, caps) = Some res"
      by (cases st) (auto split: list.splits if_splits)
    moreover have "extends (c # pre, cs, caps) st"
      unfolding extends_def st by (intro exI [of _ "[c]"]) simp
    ultimately show "\<exists>st'. extends st' st \<and> k st' = Some res" by blast
  qed
next
  case (RSeq a b)
  show ?case
    unfolding consuming_def
  proof (intro allI impI)
    fix k st res
    assume "rmatch (RSeq a b) k st = Some res"
    then have "rmatch a (rmatch b k) st = Some res" by simp
    then obtain st1 where "extends st1 st" "rmatch b k st1 = Some res"
      using consumingD [OF RSeq.IH(1)] by blast
    then show "\<exists>st'. extends st' st \<and> k st' = Some res"
      using consumingD [OF RSeq.IH(2)] by (blast intro: extends_trans)
  qed
next
  case (RAlt a b)
  then show ?case by (auto simp: consuming_def orelse_Some)
next
  case (RStar g r)
  show ?case
    unfolding consuming_def
  proof (intro allI impI)
    fix k st res
    assume "rmatch (RStar g r) k st = Some res"
    then have "star_loop g (rmatch r) k (length (fst (snd st))) st = Some res" by simp
    with RStar.IH show "\<exists>st'. extends st' st \<and> k st' = Some res" by (rule star_loop_consuming)
  qed
next
  case (RGrp i r)
  show ?case
    unfolding consuming_def
  proof (intro allI impI)
    fix k :: rxcont and st res :: rxst
    let ?k = "\<lambda>(pre', rest', caps'). k (pre', rest', (i, rev (take (length pre' - length (fst st)) pre')) # caps')"
    assume "rmatch (RGrp i r) k st = Some res"
    then have "rmatch r ?k st = Some res" by simp
    then obtain st1 where e: "extends st1 st" and k: "?k st1 = Some res"
      using consumingD [OF RGrp.IH] by blast
    obtain pre' rest' caps' where st1: "st1 = (pre', rest', caps')" by (cases st1)
    from e have "extends (pre', rest', (i, rev (take (length pre' - length (fst st)) pre')) # caps') st"
      by (simp add: extends_def st1)
    with k st1 show "\<exists>st'. extends st' st \<and> k st' = Some res" by auto
  qed
next
  case (RBack i)
  show ?case
    unfolding consuming_def
  proof (intro allI impI)
    fix k st res
    assume a: "rmatch (RBack i) k st = Some res"
    obtain pre rest caps where st: "st = (pre, rest, caps)" by (cases st)
    define w where "w = (case map_of caps i of None \<Rightarrow> [] | Some w \<Rightarrow> w)"
    from a have "k (rev (take (length w) rest) @ pre, drop (length w) rest, caps) = Some res"
      by (auto simp: st w_def Let_def split: if_splits)
    moreover have "extends (rev (take (length w) rest) @ pre, drop (length w) rest, caps) st"
      unfolding extends_def st by (intro exI [of _ "take (length w) rest"]) simp
    ultimately show "\<exists>st'. extends st' st \<and> k st' = Some res" by blast
  qed
qed (simp_all add: consuming_def, (blast intro: extends_refl)+)

lemma rsearch_extends:
  assumes "rsearch r pre rest = Some (pre0, (pre1, rest1, caps))"
  shows "\<exists>a b. rest = a @ b @ rest1 \<and> pre0 = rev a @ pre \<and> pre1 = rev b @ pre0"
  using assms
proof (induction rest arbitrary: pre)
  case Nil
  then have "rmatch r Some (pre0, [], []) = Some (pre1, rest1, caps)" and "pre0 = pre" by auto
  from consumingD [OF rmatch_consuming this(1)] \<open>pre0 = pre\<close> show ?case
    by (auto simp: extends_def)
next
  case (Cons c cs)
  show ?case
  proof (cases "rmatch r Some (pre, c # cs, [])")
    case None
    with Cons.prems have "rsearch r (c # pre) cs = Some (pre0, (pre1, rest1, caps))" by simp
    from Cons.IH [OF this] obtain a b where "cs = a @ b @ rest1" "pre0 = rev a @ (c # pre)"
      "pre1 = rev b @ pre0" by blast
    then have "c # cs = (c # a) @ b @ rest1 \<and> pre0 = rev (c # a) @ pre \<and> pre1 = rev b @ pre0" by simp
    then show ?thesis by blast
  next
    case (Some st)
    with Cons.prems have st: "st = (pre1, rest1, caps)" and "pre0 = pre" by auto
    from consumingD [OF rmatch_consuming Some] obtain w where
      "pre1 = rev w @ pre" "c # cs = w @ rest1" by (auto simp: extends_def st)
    with \<open>pre0 = pre\<close> have "c # cs = [] @ w @ rest1 \<and> pre0 = rev [] @ pre \<and> pre1 = rev w @ pre0" by simp
    then show ?thesis by blast
  qed
qed

lemma rreplace_fuel_enough:
  "length rest < n \<Longrightarrow> length rest < m \<Longrightarrow> rreplace_fuel n r t pre rest = rreplace_fuel m r t pre rest"
proof (induction n arbitrary: m pre rest)
  case 0
  then show ?case by simp
next
  case (Suc n)
  then obtain m' where m: "m = Suc m'" by (cases m) auto
  show ?case
  proof (cases "rsearch r pre rest")
    case None
    then show ?thesis by (simp add: m)
  next
    case (Some x)
    obtain pre0 pre1 rest1 caps where x: "x = (pre0, (pre1, rest1, caps))" by (cases x) auto
    from rsearch_extends [OF Some [unfolded x]]
    obtain a b where ab: "rest = a @ b @ rest1" "pre1 = rev b @ pre0" by (elim exE conjE)
    show ?thesis
    proof (cases "b = []")
      case True
      show ?thesis
      proof (cases rest1)
        case Nil
        with True ab(2) show ?thesis by (simp add: m Some x)
      next
        case (Cons c cs)
        with ab Suc.prems m have "length cs < n" "length cs < m'" by auto
        then have "rreplace_fuel n r t (c # pre1) cs = rreplace_fuel m' r t (c # pre1) cs" by (rule Suc.IH)
        moreover have "length pre1 = length pre0" using True ab(2) by simp
        ultimately show ?thesis by (simp add: m Some x Cons)
      qed
    next
      case False
      then have "0 < length b" by simp
      moreover have "length rest = length a + length b + length rest1" using ab(1) by simp
      ultimately have "length rest1 < n" "length rest1 < m'" using Suc.prems m by linarith+
      then have "rreplace_fuel n r t pre1 rest1 = rreplace_fuel m' r t pre1 rest1" by (rule Suc.IH)
      moreover have "length pre1 \<noteq> length pre0" using False ab(2) by simp
      ultimately show ?thesis by (simp add: m Some x)
    qed
  qed
qed

section \<open>Literals and lazy scanning\<close>

lemma rmatch_rlit:
  "rmatch (rlit w) k (pre, rest, caps) =
     (if prefix w rest then k (rev w @ pre, drop (length w) rest, caps) else None)"
proof (induction w arbitrary: pre rest)
  case Nil
  then show ?case by simp
next
  case (Cons c w)
  then show ?case by (cases rest) auto
qed

text \<open>\<^verbatim>\<open>[\s\S]*?\<close> followed by a continuation: the continuation at the first position it accepts.\<close>

fun lazy_scan :: "rxcont \<Rightarrow> string \<Rightarrow> string \<Rightarrow> (nat \<times> string) list \<Rightarrow> rxst option" where
  "lazy_scan k pre [] caps = k (pre, [], caps)"
| "lazy_scan k pre (c # cs) caps = orelse (k (pre, c # cs, caps)) (lazy_scan k (c # pre) cs caps)"

lemma star_lazy_any:
  "star_loop False (rmatch rany) k (length rest) (pre, rest, caps) = lazy_scan k pre rest caps"
  by (induction rest arbitrary: pre) (simp_all add: rany_def Let_def)

lemma rmatch_lazy_any: "rmatch (RStar False rany) k (pre, rest, caps) = lazy_scan k pre rest caps"
  using star_lazy_any [of k rest pre caps] by simp

end
