(* ===== verification/AgentLifecycle.thy ===== *)
theory AgentLifecycle
  imports JsRegex
begin

text \<open>
  The lifecycle of Agent tool calls (\<^verbatim>\<open>web/user/src/utils/agentToolLifecycle.js\<close>) and the parser of
  the notifications the CLI injects when a background task ends
  (\<^verbatim>\<open>web/user/src/utils/taskNotification.js\<close>).
\<close>

section \<open>Statuses\<close>

datatype lifecycle = LC_completed | LC_terminated | LC_failed | LC_running

fun lifecycle_str :: "lifecycle \<Rightarrow> string" where
  "lifecycle_str LC_completed = ''completed''"
| "lifecycle_str LC_terminated = ''terminated''"
| "lifecycle_str LC_failed = ''failed''"
| "lifecycle_str LC_running = ''running''"

definition AGENT_TOOL_NAMES :: "string list" where
  "AGENT_TOOL_NAMES = [''Agent'', ''Task'']"

definition ASYNC_LAUNCH_STATUSES :: "string list" where
  "ASYNC_LAUNCH_STATUSES = [''async_launched'', ''remote_launched'', ''teammate_spawned'']"

definition RUNNING_STATUSES :: "string list" where
  "RUNNING_STATUSES = [''running'', ''pending'', ''queued'', ''in_progress''] @ ASYNC_LAUNCH_STATUSES"

definition TERMINATED_STATUSES :: "string list" where
  "TERMINATED_STATUSES = [''killed'', ''stopped'', ''cancelled'', ''canceled'', ''aborted'']"

definition FAILED_STATUSES :: "string list" where
  "FAILED_STATUSES = [''failed'', ''error'']"

definition normalizedStatus :: "jsval \<Rightarrow> string" where
  "normalizedStatus v = lower (trim (to_str (jor v (JStr []))))"

definition agent_item_text :: "jsval \<Rightarrow> string" where
  "agent_item_text item =
     (if is_str item then str_of item
      else if is_str (jget item ''text'') then str_of (jget item ''text'')
      else if is_str (jget item ''content'') then str_of (jget item ''content'')
      else [])"

definition agent_resultText :: "jsval \<Rightarrow> string" where
  "agent_resultText result =
     (let content = jget result ''content''
      in if is_str content then str_of content
         else if \<not> is_arr content then []
         else join [newline] (filter (\<lambda>s. s \<noteq> []) (map agent_item_text (arr_of content))))"

definition structuredResults :: "jsval \<Rightarrow> jsval \<Rightarrow> jsval list" where
  "structuredResults result toolUseResult =
     filter (\<lambda>v. truthy v \<and> is_object v)
       [toolUseResult, jget result ''tool_use_result'', jget result ''toolUseResult'']"

definition isAgentToolName :: "jsval \<Rightarrow> bool" where
  "isAgentToolName name \<longleftrightarrow> is_str name \<and> str_of name \<in> set AGENT_TOOL_NAMES"

definition lifecycle_of_normalized :: "string \<Rightarrow> lifecycle option" where
  "lifecycle_of_normalized n =
     (if n \<in> {''completed'', ''complete'', ''success'', ''done''} then Some LC_completed
      else if n \<in> set TERMINATED_STATUSES then Some LC_terminated
      else if n \<in> set FAILED_STATUSES then Some LC_failed
      else if n \<in> set RUNNING_STATUSES then Some LC_running
      else None)"

definition agentLifecycleFromStatus :: "jsval \<Rightarrow> lifecycle option" where
  "agentLifecycleFromStatus status = lifecycle_of_normalized (normalizedStatus status)"

record agent_notif =
  an_toolUseId :: jsval
  an_taskId :: jsval
  an_status :: string
  an_summary :: jsval
  an_timestamp :: jsval

definition normalizeAgentTaskNotification :: "jsval \<Rightarrow> agent_notif option" where
  "normalizeAgentTaskNotification n =
     (if \<not> truthy n \<or> \<not> is_object n then None
      else Some \<lparr>
        an_toolUseId = jor (jor (jget n ''toolUseId'') (jget n ''tool_use_id'')) JNull,
        an_taskId = jor (jor (jget n ''taskId'') (jget n ''task_id'')) JNull,
        an_status = (let s = normalizedStatus (jget n ''status'') in if s = [] then ''completed'' else s),
        an_summary = jor (jget n ''summary'') (JStr []),
        an_timestamp =
          jor (jor (jor (jget n ''timestamp'') (jget n ''endTime'')) (jget n ''end_time'')) JNull\<rparr>)"

section \<open>What a tool result says about the agent\<close>

record agent_result_info =
  ri_agentId :: string
  ri_launchStatus :: string
  ri_isAsync :: bool
  ri_isError :: bool

text \<open>\<^verbatim>\<open>/\b(?:agentId|agent_id)\s*:\s*([A-Za-z0-9_-]+)/i\<close>\<close>

definition agent_id_rx :: rx where
  "agent_id_rx =
     rseq [RWordB, RAlt (rlit_ci ''agentId'') (rlit_ci ''agent_id''), RStar True rws, rlit '':'',
       RStar True rws, RGrp 1 (rplus (RChr (\<lambda>c. is_word_char c \<or> c = CHR ''-'')))]"

text \<open>\<^verbatim>\<open>/async agent launched successfully|agent is working in the background/i\<close>\<close>

definition async_launch_rx :: rx where
  "async_launch_rx =
     RAlt (rlit_ci ''async agent launched successfully'') (rlit_ci ''agent is working in the background'')"

definition find_or :: "('a \<Rightarrow> bool) \<Rightarrow> 'a \<Rightarrow> 'a list \<Rightarrow> 'a" where
  "find_or P d xs = (case List.find P xs of Some x \<Rightarrow> x | None \<Rightarrow> d)"

definition getAgentResultInfo :: "jsval \<Rightarrow> jsval \<Rightarrow> agent_result_info" where
  "getAgentResultInfo result toolUseResult =
     (let structured = structuredResults result toolUseResult;
          text = agent_resultText result;
          structuredStatus = find_or (\<lambda>s. s \<noteq> []) []
            (map (\<lambda>v. normalizedStatus
               (jor (jor (jget v ''status'') (jget v ''taskStatus'')) (jget v ''task_status''))) structured);
          parsedAgentId = (case rgroup agent_id_rx 1 text of Some s \<Rightarrow> s | None \<Rightarrow> []);
          agentId = jor (jor (find_or (\<lambda>v. is_str v \<and> trim (str_of v) \<noteq> []) JUndef
            (map (\<lambda>v. jor (jor (jor (jget v ''agentId'') (jget v ''agent_id'')) (jget v ''taskId''))
               (jget v ''task_id'')) structured)) (JStr parsedAgentId)) (JStr []);
          isAsync = ((\<exists>v \<in> set structured. jget v ''isAsync'' = JBool True \<or> jget v ''is_async'' = JBool True)
            \<or> structuredStatus \<in> set ASYNC_LAUNCH_STATUSES
            \<or> rtest async_launch_rx text);
          isError = (jget result ''is_error'' = JBool True
            \<or> (\<exists>v \<in> set structured. jget v ''is_error'' = JBool True \<or> jget v ''isError'' = JBool True)
            \<or> structuredStatus \<in> set FAILED_STATUSES)
      in \<lparr>ri_agentId = trim (to_str (jor agentId (JStr []))), ri_launchStatus = structuredStatus,
          ri_isAsync = isAsync, ri_isError = isError\<rparr>)"

definition getAgentLifecycle :: "jsval \<Rightarrow> lifecycle" where
  "getAgentLifecycle block =
     (case agentLifecycleFromStatus (jget block ''agentTaskStatus'') of
        Some l \<Rightarrow> l
      | None \<Rightarrow>
          (let info = getAgentResultInfo (jget block ''result'') (jget block ''toolUseResult'')
           in if ri_isError info \<or> jget (jget block ''result'') ''is_error'' = JBool True then LC_failed
              else if ri_isAsync info then LC_running
              else (case agentLifecycleFromStatus (jget block ''status'') of
                      Some l \<Rightarrow> l
                    | None \<Rightarrow> if truthy (jget block ''result'') then LC_completed else LC_running)))"

definition getAgentDisplayId :: "jsval \<Rightarrow> string" where
  "getAgentDisplayId block =
     (if is_str (jget block ''agentId'') \<and> trim (str_of (jget block ''agentId'')) \<noteq> []
      then trim (str_of (jget block ''agentId''))
      else ri_agentId (getAgentResultInfo (jget block ''result'') (jget block ''toolUseResult'')))"

definition getAgentDisplayName :: "jsval \<Rightarrow> jsval" where
  "getAgentDisplayName block =
     (let input = jor (jget block ''input'') (JObj [])
      in jor (jor (jor (jor (jget input ''name'') (jget input ''description'')) (jget input ''subagent_type''))
           (jget input ''agent_type'')) (JStr ''Agent''))"

fun agentLifecycleToBlockStatus :: "lifecycle \<Rightarrow> string" where
  "agentLifecycleToBlockStatus LC_running = ''running''"
| "agentLifecycleToBlockStatus LC_failed = ''error''"
| "agentLifecycleToBlockStatus LC_terminated = ''stopped''"
| "agentLifecycleToBlockStatus LC_completed = ''success''"

section \<open>Task notifications\<close>

definition ERROR_STATUSES :: "string list" where
  "ERROR_STATUSES = [''failed'', ''stopped'', ''killed'', ''aborted'', ''cancelled'', ''error'']"

definition KNOWN_STATUSES :: "string list" where
  "KNOWN_STATUSES = [''completed'', ''failed'', ''stopped'', ''killed'', ''aborted'', ''cancelled'']"

record task_notif =
  tn_taskId :: "string option"
  tn_toolUseId :: "string option"
  tn_status :: string
  tn_summary :: string
  tn_outputFile :: "string option"

text \<open>\<^verbatim>\<open>/<task-notification>[\s\S]*<\/task-notification>/\<close>\<close>

definition envelope_rx :: rx where
  "envelope_rx = rseq [rlit ''<task-notification>'', RStar True rany, rlit ''</task-notification>'']"

definition open_tag :: "string \<Rightarrow> string" where
  "open_tag tag = ''<'' @ tag @ ''>''"

definition close_tag :: "string \<Rightarrow> string" where
  "close_tag tag = ''</'' @ tag @ ''>''"

text \<open>\<^verbatim>\<open><tag>([\s\S]*?)</tag>\<close>\<close>

definition tag_rx :: "string \<Rightarrow> rx" where
  "tag_rx tag = rseq [rlit (open_tag tag), RGrp 1 (RStar False rany), rlit (close_tag tag)]"

text \<open>The local function \<^verbatim>\<open>pick\<close>.\<close>

definition pick :: "string \<Rightarrow> string \<Rightarrow> string option" where
  "pick text tag = map_option trim (rgroup (tag_rx tag) 1 text)"

definition nonempty :: "string option \<Rightarrow> string option" where
  "nonempty s = (case s of Some [] \<Rightarrow> None | _ \<Rightarrow> s)"

definition str_or :: "string option \<Rightarrow> string \<Rightarrow> string" where
  "str_or s d = (case nonempty s of Some x \<Rightarrow> x | None \<Rightarrow> d)"

definition parseTaskNotification :: "jsval \<Rightarrow> task_notif option" where
  "parseTaskNotification v =
     (case v of
        JStr text \<Rightarrow>
          if \<not> rtest envelope_rx text then None
          else Some \<lparr>
            tn_taskId = nonempty (pick text ''task-id''),
            tn_toolUseId = nonempty (pick text ''tool-use-id''),
            tn_status = lower (str_or (pick text ''status'') ''completed''),
            tn_summary = str_or (pick text ''summary'') [],
            tn_outputFile = nonempty (pick text ''output-file'')\<rparr>
      | _ \<Rightarrow> None)"

definition taskNotificationIsError :: "jsval \<Rightarrow> bool" where
  "taskNotificationIsError status \<longleftrightarrow> lower (to_str (jor status (JStr []))) \<in> set ERROR_STATUSES"

definition taskNotificationStatusKey :: "jsval \<Rightarrow> string" where
  "taskNotificationStatusKey status =
     (let s = lower (to_str (jor status (JStr [])))
      in if s \<in> set KNOWN_STATUSES then s
         else if taskNotificationIsError (JStr s) then ''failed'' else ''completed'')"

section \<open>Lifecycle lemmas\<close>

lemma lifecycle_names:
  "agentLifecycleFromStatus (JStr ''completed'') = Some LC_completed"
  "agentLifecycleFromStatus (JStr ''failed'') = Some LC_failed"
  "agentLifecycleFromStatus (JStr ''running'') = Some LC_running"
  "agentLifecycleFromStatus (JStr ''aborted'') = Some LC_terminated"
  by code_simp+

lemma lifecycle_of_own_name:
  "l \<noteq> LC_terminated \<Longrightarrow> agentLifecycleFromStatus (JStr (lifecycle_str l)) = Some l"
  by (cases l) (simp_all add: lifecycle_names)

lemma getAgentLifecycle_explicit:
  "agentLifecycleFromStatus (jget block ''agentTaskStatus'') = Some l \<Longrightarrow> getAgentLifecycle block = l"
  by (simp add: getAgentLifecycle_def)

lemma blockStatus_running_iff: "agentLifecycleToBlockStatus l = ''running'' \<longleftrightarrow> l = LC_running"
  by (cases l) auto

lemma blockStatus_inj: "agentLifecycleToBlockStatus l = agentLifecycleToBlockStatus l' \<Longrightarrow> l = l'"
  by (cases l; cases l') auto

section \<open>Reading a rendered notification back\<close>

text \<open>
  The envelope as the comment at the head of \<^verbatim>\<open>taskNotification.js\<close> shows it: one element per
  field, each on its own line, the output file optional.
\<close>

definition elem :: "string \<Rightarrow> string \<Rightarrow> string" where
  "elem tag body = open_tag tag @ body @ close_tag tag"

definition render_notification :: "task_notif \<Rightarrow> string" where
  "render_notification n =
     open_tag ''task-notification'' @ [newline] @
     (case tn_taskId n of Some x \<Rightarrow> elem ''task-id'' x @ [newline] | None \<Rightarrow> []) @
     (case tn_toolUseId n of Some x \<Rightarrow> elem ''tool-use-id'' x @ [newline] | None \<Rightarrow> []) @
     (case tn_outputFile n of Some x \<Rightarrow> elem ''output-file'' x @ [newline] | None \<Rightarrow> []) @
     elem ''status'' (tn_status n) @ [newline] @
     elem ''summary'' (tn_summary n) @ [newline] @
     close_tag ''task-notification''"

text \<open>A field value that survives: no markup, no outer white space; ids and paths are not empty.\<close>

definition plain_text :: "string \<Rightarrow> bool" where
  "plain_text s \<longleftrightarrow> CHR ''<'' \<notin> set s \<and> trim s = s"

definition plain_id :: "string option \<Rightarrow> bool" where
  "plain_id s \<longleftrightarrow> (case s of None \<Rightarrow> True | Some x \<Rightarrow> plain_text x \<and> x \<noteq> [])"

definition plain_notif :: "task_notif \<Rightarrow> bool" where
  "plain_notif n \<longleftrightarrow> plain_id (tn_taskId n) \<and> plain_id (tn_toolUseId n) \<and> plain_id (tn_outputFile n)
     \<and> plain_text (tn_status n) \<and> tn_status n \<noteq> [] \<and> lower (tn_status n) = tn_status n
     \<and> plain_text (tn_summary n)"

definition tag_name :: "string \<Rightarrow> bool" where
  "tag_name t \<longleftrightarrow> CHR ''<'' \<notin> set t \<and> CHR ''>'' \<notin> set t \<and> t \<noteq> [] \<and> hd t \<noteq> CHR ''/''"

lemma rmatch_tag:
  "rmatch (tag_rx t) Some (pre, rest, []) =
     (if prefix (open_tag t) rest
      then rmatch (RSeq (RGrp 1 (RStar False rany)) (rlit (close_tag t))) Some
             (rev (open_tag t) @ pre, drop (length (open_tag t)) rest, [])
      else None)"
  by (simp add: tag_rx_def rmatch_rlit)

lemma rsearch_tag_miss:
  "\<not> prefix (open_tag t) (c # s) \<Longrightarrow> rsearch (tag_rx t) pre (c # s) = rsearch (tag_rx t) (c # pre) s"
  by (simp add: rmatch_tag del: rmatch.simps)

lemma rsearch_tag_skip:
  "CHR ''<'' \<notin> set w \<Longrightarrow> rsearch (tag_rx t) pre (w @ rest) = rsearch (tag_rx t) (rev w @ pre) rest"
proof (induction w arbitrary: pre)
  case Nil
  then show ?case by simp
next
  case (Cons c w)
  then have "\<not> prefix (open_tag t) (c # w @ rest)" by (auto simp: open_tag_def)
  from rsearch_tag_miss [OF this] Cons show ?case by simp
qed

lemma prefix_tag_eq:
  assumes "prefix (t @ [CHR ''>'']) (u @ CHR ''>'' # r)" and "CHR ''>'' \<notin> set t" and "CHR ''>'' \<notin> set u"
  shows "t = u"
  using assms
proof (induction t arbitrary: u)
  case Nil
  then show ?case by (cases u) auto
next
  case (Cons c t)
  then show ?case by (cases u) auto
qed

lemma rsearch_tag_skip_open:
  assumes "t \<noteq> u" and "tag_name t" and "tag_name u"
  shows "rsearch (tag_rx t) pre (open_tag u @ rest) = rsearch (tag_rx t) (rev (open_tag u) @ pre) rest"
proof -
  have "\<not> prefix (open_tag t) (CHR ''<'' # u @ CHR ''>'' # rest)"
    using assms prefix_tag_eq [of t u rest] by (auto simp: open_tag_def tag_name_def)
  from rsearch_tag_miss [OF this, of pre]
  show ?thesis using assms(3) rsearch_tag_skip [of "u @ ''>''" t "CHR ''<'' # pre" rest]
    by (simp add: open_tag_def tag_name_def)
qed

lemma rsearch_tag_skip_close:
  assumes "tag_name t" and "tag_name u"
  shows "rsearch (tag_rx t) pre (close_tag u @ rest) = rsearch (tag_rx t) (rev (close_tag u) @ pre) rest"
proof -
  have "\<not> prefix (open_tag t) (CHR ''<'' # CHR ''/'' # u @ CHR ''>'' # rest)"
    using assms(1) by (cases t) (auto simp: open_tag_def tag_name_def)
  from rsearch_tag_miss [OF this, of pre]
  show ?thesis using assms(2) rsearch_tag_skip [of "''/'' @ u @ ''>''" t "CHR ''<'' # pre" rest]
    by (simp add: close_tag_def tag_name_def)
qed

lemma rsearch_tag_skip_elem:
  assumes "t \<noteq> u" and "tag_name t" and "tag_name u" and "CHR ''<'' \<notin> set body"
  shows "rsearch (tag_rx t) pre (elem u body @ rest) = rsearch (tag_rx t) (rev (elem u body) @ pre) rest"
  using assms by (simp add: elem_def rsearch_tag_skip_open rsearch_tag_skip rsearch_tag_skip_close)

lemma lazy_scan_to_close:
  assumes "CHR ''<'' \<notin> set body"
  shows "lazy_scan (\<lambda>(pre', rest', caps'). rmatch (rlit (close_tag t)) Some (pre', rest', f pre' # caps'))
           pre (body @ close_tag t @ rest) [] =
         Some (rev (close_tag t) @ rev body @ pre, rest, [f (rev body @ pre)])"
  using assms
proof (induction body arbitrary: pre)
  case Nil
  then show ?case by (simp add: close_tag_def rmatch_rlit)
next
  case (Cons c body)
  then have "\<not> prefix (close_tag t) (c # body @ close_tag t @ rest)" by (auto simp: close_tag_def)
  with Cons show ?case by (simp add: rmatch_rlit)
qed

lemma rsearch_tag_hit:
  assumes "CHR ''<'' \<notin> set body"
  shows "rsearch (tag_rx t) pre (elem t body @ rest) =
           Some (pre, (rev (elem t body) @ pre, rest, [(1, body)]))"
proof -
  let ?o = "open_tag t"
  have "rmatch (tag_rx t) Some (pre, elem t body @ rest, []) =
      Some (rev (elem t body) @ pre, rest, [(1, body)])"
    using lazy_scan_to_close [OF assms, of t "\<lambda>pre'. (1, rev (take (length pre' - length (rev ?o @ pre)) pre'))"
        "rev ?o @ pre" rest]
    by (simp add: rmatch_tag elem_def rmatch_lazy_any del: rmatch.simps(5))
  then show ?thesis by (cases "elem t body @ rest") (simp_all add: elem_def open_tag_def)
qed

lemma rsearch_tag_end: "rsearch (tag_rx t) pre [] = None"
  by (simp add: rmatch_tag open_tag_def)

lemma rsearch_tag_close_end:
  "tag_name t \<Longrightarrow> tag_name u \<Longrightarrow> rsearch (tag_rx t) pre (close_tag u) = None"
  using rsearch_tag_skip_close [of t u pre "[]"] rsearch_tag_end by simp

lemma star_any_step:
  "star_loop True (rmatch rany) k (Suc n) (pre, c # cs, caps) =
     orelse (star_loop True (rmatch rany) k n (c # pre, cs, caps)) (k (pre, c # cs, caps))"
  by (simp add: rany_def Let_def)

lemma star_any_finds:
  "k (rev w @ pre, rest, caps) \<noteq> None \<Longrightarrow>
     star_loop True (rmatch rany) k (length (w @ rest)) (pre, w @ rest, caps) \<noteq> None"
proof (induction w arbitrary: pre)
  case Nil
  then show ?case by (cases rest) (simp_all add: star_any_step orelse_None del: star_loop.simps(2))
next
  case (Cons c w)
  then have "star_loop True (rmatch rany) k (length (w @ rest)) (c # pre, w @ rest, caps) \<noteq> None" by simp
  then show ?case by (simp add: star_any_step orelse_None del: star_loop.simps(2))
qed

lemma rtest_envelope:
  "rtest envelope_rx (open_tag ''task-notification'' @ mid @ close_tag ''task-notification'')"
proof -
  let ?o = "open_tag ''task-notification''" and ?c = "close_tag ''task-notification''"
  have "rmatch (RStar True rany) (rmatch (rlit ?c) Some) (rev ?o, mid @ ?c, []) \<noteq> None"
    using star_any_finds [of "rmatch (rlit ?c) Some" mid "rev ?o" ?c "[]"] by (simp add: rmatch_rlit)
  then have "rmatch envelope_rx Some ([], ?o @ mid @ ?c, []) \<noteq> None"
    by (simp add: envelope_rx_def rmatch_rlit open_tag_def close_tag_def del: rmatch.simps(5))
  then show ?thesis
    by (cases "?o @ mid @ ?c") (auto simp: rtest_def open_tag_def)
qed

lemma tag_names [simp]:
  "tag_name ''task-id''" "tag_name ''tool-use-id''" "tag_name ''output-file''"
  "tag_name ''status''" "tag_name ''summary''" "tag_name ''task-notification''"
  by (simp_all add: tag_name_def)

lemmas tag_search = rsearch_tag_skip_open rsearch_tag_skip_elem rsearch_tag_skip_close rsearch_tag_hit
  rsearch_tag_end

lemma rsearch_tag_newline:
  "rsearch (tag_rx t) pre (newline # rest) = rsearch (tag_rx t) (newline # pre) rest"
  using rsearch_tag_skip [of "[newline]" t pre rest] by simp

lemma nonempty_plain: "plain_id s \<Longrightarrow> nonempty (map_option trim s) = s"
  by (cases s) (auto simp: plain_id_def plain_text_def nonempty_def split: list.splits)

lemma str_or_Some: "str_or (Some s) d = (if s = [] then d else s)"
  by (simp add: str_or_def nonempty_def split: list.split)

lemma pick_rendered:
  assumes "plain_notif n"
  shows "pick (render_notification n) ''task-id'' = map_option trim (tn_taskId n)"
    and "pick (render_notification n) ''tool-use-id'' = map_option trim (tn_toolUseId n)"
    and "pick (render_notification n) ''output-file'' = map_option trim (tn_outputFile n)"
    and "pick (render_notification n) ''status'' = Some (trim (tn_status n))"
    and "pick (render_notification n) ''summary'' = Some (trim (tn_summary n))"
  using assms
  by (cases "tn_taskId n"; cases "tn_toolUseId n"; cases "tn_outputFile n";
      simp add: pick_def rgroup_def render_notification_def plain_notif_def plain_id_def plain_text_def
        tag_search rsearch_tag_newline rsearch_tag_close_end
        del: rsearch.simps rmatch.simps)+

lemma rtest_rendered: "rtest envelope_rx (render_notification n)"
  unfolding render_notification_def
  using rtest_envelope by (metis append.assoc)

text \<open>
  C21. The parser of task notifications reads back what the CLI writes: rendering a notification whose
  fields are plain text and parsing the result gives the same notification, with or without the
  optional fields.
\<close>

theorem parseTaskNotification_roundtrip:
  assumes "plain_notif n"
  shows "parseTaskNotification (JStr (render_notification n)) = Some n"
proof -
  from assms have "lower (tn_status n) = tn_status n" "tn_status n \<noteq> []" "trim (tn_status n) = tn_status n"
    "trim (tn_summary n) = tn_summary n" "plain_id (tn_taskId n)" "plain_id (tn_toolUseId n)"
    "plain_id (tn_outputFile n)"
    by (auto simp: plain_notif_def plain_text_def)
  with pick_rendered [OF assms] show ?thesis
    by (simp add: parseTaskNotification_def rtest_rendered nonempty_plain str_or_Some)
qed

theorem parseTaskNotification_roundtrip_witness:
  "parseTaskNotification (JStr (render_notification
     \<lparr>tn_taskId = Some ''b1'', tn_toolUseId = Some ''call_1'', tn_status = ''completed'',
      tn_summary = ''done (exit 0)'', tn_outputFile = None\<rparr>)) =
   Some \<lparr>tn_taskId = Some ''b1'', tn_toolUseId = Some ''call_1'', tn_status = ''completed'',
      tn_summary = ''done (exit 0)'', tn_outputFile = None\<rparr>"
  by (rule parseTaskNotification_roundtrip) code_simp

end
