(* ===== verification/JsDict.thy ===== *)
theory JsDict
  imports JsPrelude
begin

text \<open>
  Ordered dictionaries: plain objects used as maps and \<^verbatim>\<open>Map\<close> instances. Both keep the insertion
  order of their keys, replace the value of an existing key in place, and append a new key. The
  locale \<open>keyed_store\<close> states what the stores rely on; \<open>indexed_store\<close> adds the order list that
  several stores keep beside a dictionary (\<^verbatim>\<open>tasks\<close>/\<^verbatim>\<open>taskOrder\<close>, \<^verbatim>\<open>workflows\<close>/\<^verbatim>\<open>workflowOrder\<close>).
\<close>

section \<open>The interface\<close>

locale keyed_store =
  fixes empty :: 'm
    and get :: "'m \<Rightarrow> 'k \<Rightarrow> 'v option"
    and put :: "'k \<Rightarrow> 'v \<Rightarrow> 'm \<Rightarrow> 'm"
    and del :: "'k \<Rightarrow> 'm \<Rightarrow> 'm"
    and keys :: "'m \<Rightarrow> 'k list"
    and wf :: "'m \<Rightarrow> bool"
  assumes get_empty: "get empty k = None"
    and wf_empty: "wf empty"
    and get_put: "get (put k v m) k' = (if k' = k then Some v else get m k')"
    and wf_put: "wf m \<Longrightarrow> wf (put k v m)"
    and get_del: "get (del k m) k' = (if k' = k then None else get m k')"
    and wf_del: "wf m \<Longrightarrow> wf (del k m)"
    and keys_get: "k \<in> set (keys m) \<longleftrightarrow> get m k \<noteq> None"
    and keys_distinct: "wf m \<Longrightarrow> distinct (keys m)"
begin

lemma keys_put_set: "set (keys (put k v m)) = insert k (set (keys m))"
  by (auto simp: keys_get get_put split: if_splits)

lemma keys_del_set: "set (keys (del k m)) = set (keys m) - {k}"
  by (auto simp: keys_get get_del split: if_splits)

text \<open>Bulk insertion: the last value given for a key is the one found.\<close>

lemma get_foldl_put:
  "get (foldl (\<lambda>m (k, v). put k v m) m kvs) k =
     (case map_of (rev kvs) k of Some v \<Rightarrow> Some v | None \<Rightarrow> get m k)"
proof (induction kvs rule: rev_induct)
  case Nil
  then show ?case by simp
next
  case (snoc p kvs)
  then show ?case by (cases p) (simp add: get_put)
qed

lemma wf_foldl_put: "wf m \<Longrightarrow> wf (foldl (\<lambda>m (k, v). put k v m) m kvs)"
  by (induction kvs arbitrary: m) (auto simp: wf_put)

text \<open>Moving the value of one key to another, as the rekey operations do.\<close>

lemma get_rekey:
  "get m k = Some v \<Longrightarrow> k \<noteq> k' \<Longrightarrow>
     get (del k (put k' v m)) x = (if x = k' then Some v else if x = k then None else get m x)"
  by (auto simp: get_put get_del)

end

section \<open>Association lists implement it\<close>

type_synonym ('k, 'v) dict = "('k \<times> 'v) list"

definition dempty :: "('k, 'v) dict" where
  "dempty = []"

definition dget :: "('k, 'v) dict \<Rightarrow> 'k \<Rightarrow> 'v option" where
  "dget m k = map_of m k"

definition dset :: "'k \<Rightarrow> 'v \<Rightarrow> ('k, 'v) dict \<Rightarrow> ('k, 'v) dict" where
  "dset k v m = AList.update k v m"

definition ddel :: "'k \<Rightarrow> ('k, 'v) dict \<Rightarrow> ('k, 'v) dict" where
  "ddel k m = AList.delete k m"

definition dkeys :: "('k, 'v) dict \<Rightarrow> 'k list" where
  "dkeys m = map fst m"

definition dvals :: "('k, 'v) dict \<Rightarrow> 'v list" where
  "dvals m = map snd m"

definition dwf :: "('k, 'v) dict \<Rightarrow> bool" where
  "dwf m \<longleftrightarrow> distinct (map fst m)"

text \<open>\<open>Object.fromEntries(entries.map(f))\<close> with unchanged keys.\<close>

definition dmap :: "('k \<Rightarrow> 'v \<Rightarrow> 'w) \<Rightarrow> ('k, 'v) dict \<Rightarrow> ('k, 'w) dict" where
  "dmap f m = map (\<lambda>(k, v). (k, f k v)) m"

interpretation dict: keyed_store dempty dget dset ddel dkeys dwf
proof unfold_locales
  fix k k' :: 'a and v :: 'b and m :: "('a, 'b) dict"
  show "dget dempty k = (None :: 'b option)" by (simp add: dget_def dempty_def)
  show "dwf (dempty :: ('a, 'b) dict)" by (simp add: dwf_def dempty_def)
  show "dget (dset k v m) k' = (if k' = k then Some v else dget m k')"
    by (simp add: dget_def dset_def update_conv')
  show "dwf m \<Longrightarrow> dwf (dset k v m)" by (simp add: dwf_def dset_def distinct_update)
  show "dget (ddel k m) k' = (if k' = k then None else dget m k')"
    by (simp add: dget_def ddel_def delete_conv')
  show "dwf m \<Longrightarrow> dwf (ddel k m)" by (simp add: dwf_def ddel_def distinct_delete)
  show "k \<in> set (dkeys m) \<longleftrightarrow> dget m k \<noteq> None"
    by (simp add: dkeys_def dget_def map_of_eq_None_iff)
  show "dwf m \<Longrightarrow> distinct (dkeys m)" by (simp add: dwf_def dkeys_def)
qed

lemmas dict_rules [simp, dict_simps] =
  dict.get_empty dict.wf_empty dict.get_put dict.get_del dict.keys_put_set dict.keys_del_set

lemmas dict_wf [intro, simp] = dict.wf_put dict.wf_del

lemma dget_Nil [simp]: "dget [] k = None"
  by (simp add: dget_def)

lemma dget_Cons [simp]: "dget ((k, v) # m) k' = (if k' = k then Some v else dget m k')"
  by (simp add: dget_def)

lemma dkeys_iff: "k \<in> set (dkeys m) \<longleftrightarrow> (\<exists>v. dget m k = Some v)"
  by (simp add: dict.keys_get)

lemma dkeys_empty [simp]: "dkeys dempty = []"
  by (simp add: dkeys_def dempty_def)

lemma dget_mem: "dget m k = Some v \<Longrightarrow> (k, v) \<in> set m"
  by (simp add: dget_def map_of_SomeD)

lemma dget_dvals: "dget m k = Some v \<Longrightarrow> v \<in> set (dvals m)"
  by (force simp: dvals_def dest: dget_mem)

lemma dwf_dget: "dwf m \<Longrightarrow> (k, v) \<in> set m \<Longrightarrow> dget m k = Some v"
  by (simp add: dwf_def dget_def)

lemma dget_dmap [simp]: "dget (dmap f m) k = map_option (f k) (dget m k)"
  by (induction m) (auto simp: dget_def dmap_def)

lemma dkeys_dmap [simp]: "dkeys (dmap f m) = dkeys m"
  by (induction m) (auto simp: dkeys_def dmap_def)

lemma dwf_dmap [simp]: "dwf (dmap f m) = dwf m"
proof -
  have "map fst (dmap f m) = map fst m" using dkeys_dmap [of f m] by (simp add: dkeys_def)
  then show ?thesis by (simp add: dwf_def)
qed

lemma dvals_dset: "set (dvals (dset k v m)) \<subseteq> insert v (set (dvals m))"
  by (induction m) (auto simp: dvals_def dset_def)

lemma dvals_ddel: "set (dvals (ddel k m)) \<subseteq> set (dvals m)"
  by (induction m) (auto simp: dvals_def ddel_def)

lemma dkeys_dset_new: "dget m k = None \<Longrightarrow> dkeys (dset k v m) = dkeys m @ [k]"
  by (induction m) (auto simp: dkeys_def dset_def dget_def split: if_splits)

lemma dkeys_dset_old: "dget m k = Some w \<Longrightarrow> dkeys (dset k v m) = dkeys m"
  by (induction m) (auto simp: dkeys_def dset_def dget_def split: if_splits)

lemma dkeys_ddel: "dkeys (ddel k m) = filter (\<lambda>x. x \<noteq> k) (dkeys m)"
  by (induction m) (auto simp: dkeys_def ddel_def)

lemma dget_filter_keys:
  "dget (filter (\<lambda>(k, v). P k) m) k = (if P k then dget m k else None)"
  by (induction m) (auto simp: dget_def)

lemma dwf_filter: "dwf m \<Longrightarrow> dwf (filter P m)"
  by (simp add: dwf_def distinct_map_filter)

section \<open>A dictionary with an order list\<close>

text \<open>
  \<open>upsert\<close> stores an entry and appends its key to the order unless it is there; \<open>drop\<close> removes both.
  \<open>index_ok\<close> says that the order lists exactly the stored keys, each once.
\<close>

definition index_ok :: "('k, 'v) dict \<Rightarrow> 'k list \<Rightarrow> bool" where
  "index_ok m ord \<longleftrightarrow> dwf m \<and> distinct ord \<and> set ord = set (dkeys m)"

definition push_new :: "'k \<Rightarrow> 'k list \<Rightarrow> 'k list" where
  "push_new k ord = (if k \<in> set ord then ord else ord @ [k])"

lemma set_push_new [simp]: "set (push_new k ord) = insert k (set ord)"
  by (auto simp: push_new_def)

lemma distinct_push_new [simp]: "distinct (push_new k ord) = distinct ord"
  by (auto simp: push_new_def)

lemma index_ok_empty [simp]: "index_ok dempty []"
  by (simp add: index_ok_def)

lemma index_ok_dmap [simp]: "index_ok (dmap f m) ord = index_ok m ord"
  by (simp add: index_ok_def)

locale indexed_store =
  fixes entries :: "'s \<Rightarrow> ('k, 'v) dict"
    and order :: "'s \<Rightarrow> 'k list"
    and upsert :: "'k \<Rightarrow> 'v \<Rightarrow> 's \<Rightarrow> 's"
    and remove :: "'k \<Rightarrow> 's \<Rightarrow> 's"
  assumes entries_upsert: "entries (upsert k v s) = dset k v (entries s)"
    and order_upsert: "order (upsert k v s) = push_new k (order s)"
    and entries_remove: "entries (remove k s) = ddel k (entries s)"
    and order_remove: "order (remove k s) = filter (\<lambda>x. x \<noteq> k) (order s)"
begin

lemma upsert_ok: "index_ok (entries s) (order s) \<Longrightarrow> index_ok (entries (upsert k v s)) (order (upsert k v s))"
  by (auto simp: index_ok_def entries_upsert order_upsert)

lemma remove_ok: "index_ok (entries s) (order s) \<Longrightarrow> index_ok (entries (remove k s)) (order (remove k s))"
  by (auto simp: index_ok_def entries_remove order_remove)

lemma lookup_upsert: "dget (entries (upsert k v s)) k' = (if k' = k then Some v else dget (entries s) k')"
  by (simp add: entries_upsert)

lemma lookup_remove: "dget (entries (remove k s)) k' = (if k' = k then None else dget (entries s) k')"
  by (simp add: entries_remove)

lemma upsert_keeps_position: "k \<in> set (order s) \<Longrightarrow> order (upsert k v s) = order s"
  by (simp add: order_upsert push_new_def)

lemma upsert_upsert: "order (upsert k w (upsert k v s)) = order (upsert k v s)"
  by (simp add: order_upsert push_new_def)

lemma fold_upsert_ok:
  "index_ok (entries s) (order s) \<Longrightarrow>
     (let s' = foldl (\<lambda>s (k, v). upsert k v s) s kvs in index_ok (entries s') (order s'))"
  by (induction kvs arbitrary: s) (auto simp: upsert_ok Let_def)

lemma set_order_fold_upsert:
  "set (order (foldl (\<lambda>s (k, v). upsert k v s) s kvs)) = set (order s) \<union> fst ` set kvs"
  by (induction kvs arbitrary: s) (auto simp: order_upsert)

end

end
