(* ===== verification/StreamingBlocks.thy ===== *)
theory StreamingBlocks
  imports JsRegex JsDict
begin

text \<open>
  The streaming block assembler (\<^verbatim>\<open>web/user/src/utils/streamingBlocks.js\<close>). The state objects that the
  maps \<^verbatim>\<open>blocks\<close> and \<^verbatim>\<open>dirty\<close> share are kept in a heap and the maps hold references to it, because a
  repeated start of a block replaces the object in one map and not in the other. The calls of
  \<^verbatim>\<open>onFlush\<close> are recorded in order; the timer is a flag and its callback the event \<open>TimerFire\<close>.
\<close>

section \<open>Keys and comparisons\<close>

definition arr_join :: "string \<Rightarrow> jsval list \<Rightarrow> string" where
  "arr_join sep xs = join sep (map (\<lambda>x. if nullish x then [] else to_str x) xs)"

definition MAIN_LANE :: jsval where
  "MAIN_LANE = JStr ''__main__''"

definition laneKey :: "jsval \<Rightarrow> jsval" where
  "laneKey parentToolUseId = jor parentToolUseId MAIN_LANE"

definition blockKey :: "jsval \<Rightarrow> jsval \<Rightarrow> jsval \<Rightarrow> jsval \<Rightarrow> string" where
  "blockKey sessionId parentToolUseId messageId index =
     arr_join '':'' [jor sessionId (JStr ''session''), laneKey parentToolUseId, messageId, index]"

definition isVisibleText :: "jsval \<Rightarrow> bool" where
  "isVisibleText block =
     (if jget block ''type'' = JStr ''text'' then truthy (jget block ''text'')
      else if jget block ''type'' = JStr ''thinking'' then truthy (jget block ''thinking'')
      else jget block ''type'' = JStr ''tool_use'')"

text \<open>\<^verbatim>\<open>/\r\n?/g\<close> and \<^verbatim>\<open>/[ \t]+\n/g\<close>\<close>

definition crlf_rx :: rx where
  "crlf_rx = RSeq (rlit [CHR 0x0D]) (ropt (rlit [newline]))"

definition trailing_blanks_rx :: rx where
  "trailing_blanks_rx =
     RSeq (rplus (RChr (\<lambda>c. c = CHR '' '' \<or> c = CHR 0x09))) (rlit [newline])"

definition normalizedNarrativeValue :: "jsval \<Rightarrow> string" where
  "normalizedNarrativeValue block =
     (let value = (if jget block ''type'' = JStr ''text'' then jget block ''text''
                   else if jget block ''type'' = JStr ''thinking'' then jget block ''thinking''
                   else JStr [])
      in trim (rreplace trailing_blanks_rx [newline]
           (rreplace crlf_rx [newline] (to_str (jor value (JStr []))))))"

definition areStreamBlocksCompatible :: "jsval \<Rightarrow> jsval \<Rightarrow> bool" where
  "areStreamBlocksCompatible candidate authoritative =
     (if \<not> truthy candidate \<or> \<not> truthy authoritative
         \<or> \<not> jeq (jget candidate ''type'') (jget authoritative ''type'') then False
      else if jget authoritative ''type'' = JStr ''tool_use''
        then truthy (jget candidate ''id'') \<and> truthy (jget authoritative ''id'')
             \<and> jeq (jget candidate ''id'') (jget authoritative ''id'')
      else if jget authoritative ''type'' \<noteq> JStr ''text'' \<and> jget authoritative ''type'' \<noteq> JStr ''thinking''
        then False
      else (let c = normalizedNarrativeValue candidate; a = normalizedNarrativeValue authoritative
            in c = a \<or> prefix a c \<or> prefix c a))"

section \<open>State\<close>

record sb_state =
  bs_key :: string
  bs_parent :: jsval
  bs_sessionId :: jsval
  bs_messageId :: jsval
  bs_index :: int
  bs_block :: jsval
  bs_rawJson :: string
  bs_materialized :: bool
  bs_authoritative :: bool
  bs_logText :: string
  bs_logTextEvents :: nat
  bs_logThinking :: string
  bs_logThinkingEvents :: nat

record sb_lane =
  ln_messageId :: jsval
  ln_sessionId :: jsval
  ln_open :: bool

record sb_patch =
  pt_parent :: jsval
  pt_messageId :: jsval
  pt_index :: int
  pt_streamKey :: string
  pt_block :: jsval

record sb_log =
  lg_parent :: jsval
  lg_messageId :: jsval
  lg_index :: int
  lg_deltaType :: string
  lg_content :: string
  lg_eventCount :: nat

record sb_flush =
  fl_patches :: "sb_patch list"
  fl_logs :: "sb_log list"

record assembler =
  sb_immediate :: bool
  sb_lanes :: "(jsval, sb_lane) dict"
  sb_heap :: "sb_state list"
  sb_blocks :: "(string, nat) dict"
  sb_dirty :: "(string, nat) dict"
  sb_timer :: bool
  sb_disposed :: bool
  sb_flushed :: "sb_flush list"

definition createStreamingBlockAssembler :: "bool \<Rightarrow> assembler" where
  "createStreamingBlockAssembler immediatePatches =
     \<lparr>sb_immediate = immediatePatches, sb_lanes = dempty, sb_heap = [], sb_blocks = dempty,
      sb_dirty = dempty, sb_timer = False, sb_disposed = False, sb_flushed = []\<rparr>"

section \<open>Batching\<close>

definition candidateMatchesType :: "sb_state \<Rightarrow> jsval \<Rightarrow> bool" where
  "candidateMatchesType candidate authoritative =
     (if \<not> truthy authoritative \<or> \<not> jeq (jget (bs_block candidate) ''type'') (jget authoritative ''type'')
      then False
      else if jget authoritative ''type'' \<noteq> JStr ''tool_use'' then True
      else truthy (jget authoritative ''id'')
           \<and> jeq (jget (bs_block candidate) ''id'') (jget authoritative ''id''))"

definition patch_of :: "sb_state \<Rightarrow> sb_patch" where
  "patch_of st =
     \<lparr>pt_parent = bs_parent st, pt_messageId = bs_messageId st, pt_index = bs_index st,
      pt_streamKey = bs_key st, pt_block = jset ''_streamKey'' (JStr (bs_key st)) (bs_block st)\<rparr>"

definition emit :: "sb_flush \<Rightarrow> assembler \<Rightarrow> assembler" where
  "emit f a = a\<lparr>sb_flushed := sb_flushed a @ [f]\<rparr>"

definition scheduleFlush :: "assembler \<Rightarrow> assembler" where
  "scheduleFlush a = (if sb_timer a \<or> sb_disposed a then a else a\<lparr>sb_timer := True\<rparr>)"

definition put_state :: "nat \<Rightarrow> sb_state \<Rightarrow> assembler \<Rightarrow> assembler" where
  "put_state r st a = a\<lparr>sb_heap := (sb_heap a)[r := st]\<rparr>"

text \<open>The delta that \<^verbatim>\<open>markDirty\<close> adds to a state's pending log.\<close>

definition log_delta :: "string \<Rightarrow> string \<Rightarrow> sb_state \<Rightarrow> sb_state \<times> bool" where
  "log_delta deltaType deltaText st =
     (if deltaType = ''text_delta'' \<and> deltaText \<noteq> []
      then (st\<lparr>bs_logText := bs_logText st @ deltaText, bs_logTextEvents := Suc (bs_logTextEvents st)\<rparr>, True)
      else if deltaType = ''thinking_delta'' \<and> deltaText \<noteq> []
      then (st\<lparr>bs_logThinking := bs_logThinking st @ deltaText,
               bs_logThinkingEvents := Suc (bs_logThinkingEvents st)\<rparr>, True)
      else (st, False))"

definition mark_in_dirty :: "nat \<Rightarrow> sb_state \<Rightarrow> assembler \<Rightarrow> assembler" where
  "mark_in_dirty r st a = scheduleFlush (a\<lparr>sb_dirty := dset (bs_key st) r (sb_dirty a)\<rparr>)"

definition markDirty :: "nat \<Rightarrow> string \<Rightarrow> string \<Rightarrow> assembler \<Rightarrow> assembler" where
  "markDirty r deltaType deltaText a =
     (let st0 = sb_heap a ! r
      in if bs_authoritative st0 \<or> \<not> bs_materialized st0 then a
         else (let (st, hasLogDelta) = log_delta deltaType deltaText st0;
                   a1 = put_state r st a
               in if sb_immediate a
                  then (let a2 = emit \<lparr>fl_patches = [patch_of st], fl_logs = []\<rparr> a1
                        in if hasLogDelta then mark_in_dirty r st a2 else a2)
                  else mark_in_dirty r st a1))"

definition clear_logs :: "sb_state \<Rightarrow> sb_state" where
  "clear_logs st = st\<lparr>bs_logText := [], bs_logTextEvents := 0, bs_logThinking := [], bs_logThinkingEvents := 0\<rparr>"

definition flush_patches :: "bool \<Rightarrow> sb_state \<Rightarrow> sb_patch list" where
  "flush_patches immediate st =
     (if \<not> immediate \<and> \<not> bs_authoritative st \<and> bs_materialized st then [patch_of st] else [])"

definition flush_logs :: "sb_state \<Rightarrow> sb_log list" where
  "flush_logs st =
     (if bs_logText st \<noteq> []
      then [\<lparr>lg_parent = bs_parent st, lg_messageId = bs_messageId st, lg_index = bs_index st,
             lg_deltaType = ''text_delta'', lg_content = bs_logText st, lg_eventCount = bs_logTextEvents st\<rparr>]
      else []) @
     (if bs_logThinking st \<noteq> []
      then [\<lparr>lg_parent = bs_parent st, lg_messageId = bs_messageId st, lg_index = bs_index st,
             lg_deltaType = ''thinking_delta'', lg_content = bs_logThinking st,
             lg_eventCount = bs_logThinkingEvents st\<rparr>]
      else [])"

text \<open>The body of the loop over \<^verbatim>\<open>dirty.values()\<close>.\<close>

definition flush_one :: "bool \<Rightarrow> sb_flush \<times> sb_state list \<Rightarrow> nat \<Rightarrow> sb_flush \<times> sb_state list" where
  "flush_one immediate acc r =
     (let (out, heap) = acc; st = heap ! r
      in (\<lparr>fl_patches = fl_patches out @ flush_patches immediate st,
           fl_logs = fl_logs out @ flush_logs st\<rparr>, heap[r := clear_logs st]))"

definition flush :: "assembler \<Rightarrow> sb_flush \<times> assembler" where
  "flush a0 =
     (let a = a0\<lparr>sb_timer := False\<rparr>
      in if sb_dirty a = dempty then (\<lparr>fl_patches = [], fl_logs = []\<rparr>, a)
         else (let (out, heap) = foldl (flush_one (sb_immediate a)) (\<lparr>fl_patches = [], fl_logs = []\<rparr>, sb_heap a)
                     (dvals (sb_dirty a));
                   a1 = a\<lparr>sb_heap := heap, sb_dirty := dempty\<rparr>
               in (out, if fl_patches out \<noteq> [] \<or> fl_logs out \<noteq> [] then emit out a1 else a1)))"

definition stateForEvent :: "assembler \<Rightarrow> jsval \<Rightarrow> jsval \<Rightarrow> nat option" where
  "stateForEvent a payload index =
     (case dget (sb_lanes a) (laneKey (jget payload ''parent_tool_use_id'')) of
        None \<Rightarrow> None
      | Some lane \<Rightarrow>
          dget (sb_blocks a) (blockKey (jor (jget payload ''session_id'') (ln_sessionId lane))
            (jget payload ''parent_tool_use_id'') (ln_messageId lane) index))"

section \<open>Accepting stream events\<close>

definition accept_message_start :: "jsval \<Rightarrow> jsval \<Rightarrow> assembler \<Rightarrow> bool \<times> assembler" where
  "accept_message_start payload event a =
     (let lane = laneKey (jor (jget payload ''parent_tool_use_id'') JNull);
          messageId = jget (jget event ''message'') ''id''
      in if \<not> truthy messageId then (False, a)
         else (True, a\<lparr>sb_lanes := dset lane
                \<lparr>ln_messageId = messageId, ln_sessionId = jor (jget payload ''session_id'') JNull, ln_open = True\<rparr>
                (sb_lanes a)\<rparr>))"

definition accept_message_stop :: "jsval \<Rightarrow> assembler \<Rightarrow> bool \<times> assembler" where
  "accept_message_stop payload a =
     (let lane = laneKey (jor (jget payload ''parent_tool_use_id'') JNull)
      in case dget (sb_lanes a) lane of
           None \<Rightarrow> (True, a)
         | Some active \<Rightarrow> (True, a\<lparr>sb_lanes := dset lane (active\<lparr>ln_open := False\<rparr>) (sb_lanes a)\<rparr>))"

definition initial_block :: "int \<Rightarrow> jsval \<Rightarrow> jsval" where
  "initial_block startedAt source =
     (if jget source ''type'' = JStr ''text''
      then JObj [(''type'', JStr ''text''), (''text'', jor (jget source ''text'') (JStr [])),
             (''startTime'', JNum startedAt), (''_streamState'', JStr ''streaming'')]
      else if jget source ''type'' = JStr ''thinking''
      then JObj [(''type'', JStr ''thinking''), (''thinking'', jor (jget source ''thinking'') (JStr [])),
             (''startTime'', JNum startedAt), (''_streamState'', JStr ''streaming'')]
      else JObj [(''type'', JStr ''tool_use''), (''id'', jget source ''id''), (''name'', jget source ''name''),
             (''input'', if truthy (jget source ''input'') \<and> is_object (jget source ''input'')
                         then jget source ''input'' else JObj []),
             (''status'', JStr ''running''), (''startTime'', JNum startedAt),
             (''_streamState'', JStr ''streaming-input'')])"

definition accept_block_start :: "int \<Rightarrow> jsval \<Rightarrow> jsval \<Rightarrow> assembler \<Rightarrow> bool \<times> assembler" where
  "accept_block_start now payload event a =
     (let parentToolUseId = jor (jget payload ''parent_tool_use_id'') JNull;
          source = jget event ''content_block''
      in case dget (sb_lanes a) (laneKey parentToolUseId) of
           None \<Rightarrow> (False, a)
         | Some active \<Rightarrow>
             if \<not> truthy source then (False, a)
             else (case jget event ''index'' of
                JNum i \<Rightarrow>
                  if jget source ''type'' \<notin> {JStr ''text'', JStr ''thinking'', JStr ''tool_use''} then (False, a)
                  else
                    (let sessionId = jor (jget payload ''session_id'') (ln_sessionId active);
                         key = blockKey sessionId parentToolUseId (ln_messageId active) (JNum i);
                         block = initial_block now source;
                         st = \<lparr>bs_key = key, bs_parent = parentToolUseId, bs_sessionId = sessionId,
                               bs_messageId = ln_messageId active, bs_index = i, bs_block = block,
                               bs_rawJson = [], bs_materialized = isVisibleText block,
                               bs_authoritative = False, bs_logText = [], bs_logTextEvents = 0,
                               bs_logThinking = [], bs_logThinkingEvents = 0\<rparr>;
                         r = length (sb_heap a);
                         a1 = a\<lparr>sb_heap := sb_heap a @ [st], sb_blocks := dset key r (sb_blocks a)\<rparr>
                     in (True, if bs_materialized st then markDirty r [] [] a1 else a1))
              | _ \<Rightarrow> (False, a)))"

text \<open>A text or thinking delta: the field grows, the block becomes visible and is marked dirty.\<close>

definition append_field :: "string \<Rightarrow> string \<Rightarrow> sb_state \<Rightarrow> sb_state" where
  "append_field field t st =
     st\<lparr>bs_block := jset field (JStr (to_str (jget (bs_block st) field) @ t)) (bs_block st),
        bs_materialized := True\<rparr>"

definition accept_narrative_delta :: "nat \<Rightarrow> string \<Rightarrow> string \<Rightarrow> jsval \<Rightarrow> assembler \<Rightarrow> bool \<times> assembler" where
  "accept_narrative_delta r deltaType field value a =
     (let t = (if is_str value then str_of value else [])
      in if t = [] then (True, a)
         else (True, markDirty r deltaType t (put_state r (append_field field t (sb_heap a ! r)) a)))"

definition accept_block_delta :: "jsval \<Rightarrow> jsval \<Rightarrow> assembler \<Rightarrow> bool \<times> assembler" where
  "accept_block_delta payload event a =
     (let delta = jget event ''delta''
      in case stateForEvent a payload (jget event ''index'') of
           None \<Rightarrow> (False, a)
         | Some r \<Rightarrow>
             (let st = sb_heap a ! r; btype = jget (bs_block st) ''type'' in
              if bs_authoritative st \<or> \<not> truthy delta then (False, a)
              else if jget delta ''type'' = JStr ''text_delta'' \<and> btype = JStr ''text''
                then accept_narrative_delta r ''text_delta'' ''text'' (jget delta ''text'') a
              else if jget delta ''type'' = JStr ''thinking_delta'' \<and> btype = JStr ''thinking''
                then accept_narrative_delta r ''thinking_delta'' ''thinking'' (jget delta ''thinking'') a
              else if jget delta ''type'' = JStr ''input_json_delta'' \<and> btype = JStr ''tool_use''
                then (True, if is_str (jget delta ''partial_json'')
                            then put_state r (st\<lparr>bs_rawJson := bs_rawJson st @ str_of (jget delta ''partial_json'')\<rparr>) a
                            else a)
              else (True, a)))"

definition parse_tool_input :: "(string \<Rightarrow> jsval option) \<Rightarrow> sb_state \<Rightarrow> sb_state" where
  "parse_tool_input parseJson st =
     (if jget (bs_block st) ''type'' = JStr ''tool_use'' \<and> bs_rawJson st \<noteq> []
      then (case parseJson (bs_rawJson st) of
              None \<Rightarrow> st
            | Some input \<Rightarrow> if truthy input \<and> is_object input \<and> \<not> is_arr input
                            then st\<lparr>bs_block := jset ''input'' input (bs_block st)\<rparr> else st)
      else st)"

definition accept_block_stop :: "int \<Rightarrow> (string \<Rightarrow> jsval option) \<Rightarrow> jsval \<Rightarrow> jsval \<Rightarrow> assembler \<Rightarrow> bool \<times> assembler" where
  "accept_block_stop now parseJson payload event a =
     (case stateForEvent a payload (jget event ''index'') of
        None \<Rightarrow> (False, a)
      | Some r \<Rightarrow>
          if bs_authoritative (sb_heap a ! r) then (False, a)
          else (let st = parse_tool_input parseJson (sb_heap a ! r)
                in (True,
                    if bs_materialized st
                    then markDirty r [] [] (put_state r
                           (st\<lparr>bs_block := jput (bs_block st)
                             [(''endTime'', JNum now), (''_streamState'', JStr ''awaiting-authoritative'')]\<rparr>) a)
                    else put_state r st a)))"

definition accept :: "int \<Rightarrow> (string \<Rightarrow> jsval option) \<Rightarrow> jsval \<Rightarrow> assembler \<Rightarrow> bool \<times> assembler" where
  "accept now parseJson payload a =
     (if sb_disposed a \<or> \<not> truthy payload \<or> jget payload ''type'' \<noteq> JStr ''stream_event'' then (False, a)
      else
        (let event = jget payload ''event''; etype = jget event ''type''
         in if \<not> truthy event \<or> \<not> is_str etype then (False, a)
            else if etype = JStr ''message_start'' then accept_message_start payload event a
            else if etype = JStr ''message_stop'' then accept_message_stop payload a
            else if etype = JStr ''content_block_start'' then accept_block_start now payload event a
            else if etype = JStr ''content_block_delta'' then accept_block_delta payload event a
            else if etype = JStr ''content_block_stop'' then accept_block_stop now parseJson payload event a
            else (True, a)))"

section \<open>Reconciling with the authoritative message\<close>

record sb_reconciled =
  rc_block :: jsval
  rc_parent :: jsval
  rc_messageId :: jsval
  rc_index :: "int option"
  rc_streamKey :: "string option"
  rc_allowCompatibleFallback :: bool
  rc_startTime :: jsval
  rc_endTime :: int

definition firstMatchingCandidate :: "sb_state list \<Rightarrow> nat list \<Rightarrow> jsval \<Rightarrow> nat option" where
  "firstMatchingCandidate heap candidates authoritative =
     List.find (\<lambda>r. \<not> bs_authoritative (heap ! r) \<and> candidateMatchesType (heap ! r) authoritative) candidates"

definition uniqueCompatibleCandidate :: "sb_state list \<Rightarrow> nat list \<Rightarrow> jsval \<Rightarrow> nat option" where
  "uniqueCompatibleCandidate heap candidates authoritative =
     (case filter (\<lambda>r. \<not> bs_authoritative (heap ! r) \<and> candidateMatchesType (heap ! r) authoritative
                     \<and> areStreamBlocksCompatible (bs_block (heap ! r)) authoritative) candidates of
        [r] \<Rightarrow> Some r
      | _ \<Rightarrow> None)"

text \<open>The references the map over the content may claim, fixed before it starts.\<close>

definition available_blocks :: "jsval \<Rightarrow> assembler \<Rightarrow> nat list" where
  "available_blocks parentToolUseId a =
     sort_key (\<lambda>r. bs_index (sb_heap a ! r))
       (filter (\<lambda>r. \<not> bs_authoritative (sb_heap a ! r) \<and> jeq (bs_parent (sb_heap a ! r)) parentToolUseId)
         (dvals (sb_blocks a)))"

definition reconcile_pick :: "bool \<Rightarrow> nat list \<Rightarrow> nat list \<Rightarrow> assembler \<Rightarrow> jsval \<Rightarrow> nat option" where
  "reconcile_pick lane_open exact laneCandidates a block =
     (case firstMatchingCandidate (sb_heap a) exact block of
        Some r \<Rightarrow> Some r
      | None \<Rightarrow> if lane_open then uniqueCompatibleCandidate (sb_heap a) laneCandidates block else None)"

definition claim :: "nat \<Rightarrow> assembler \<Rightarrow> assembler" where
  "claim r a =
     (put_state r ((sb_heap a ! r)\<lparr>bs_authoritative := True\<rparr>) a)
       \<lparr>sb_dirty := ddel (bs_key (sb_heap a ! r)) (sb_dirty a)\<rparr>"

definition reconcile_entry ::
  "int \<Rightarrow> jsval \<Rightarrow> jsval \<Rightarrow> sb_lane option \<Rightarrow> jsval \<Rightarrow> sb_state option \<Rightarrow> sb_reconciled" where
  "reconcile_entry now parentToolUseId authoritativeMessageId active block st =
     (let activeId = (case active of None \<Rightarrow> JUndef | Some l \<Rightarrow> ln_messageId l)
      in \<lparr>rc_block = block, rc_parent = parentToolUseId,
          rc_messageId = jor (jor (jor (case st of None \<Rightarrow> JUndef | Some s \<Rightarrow> bs_messageId s)
            authoritativeMessageId) activeId) JNull,
          rc_index = map_option bs_index st, rc_streamKey = map_option bs_key st,
          rc_allowCompatibleFallback =
            (\<not> truthy authoritativeMessageId \<and> (case active of None \<Rightarrow> False | Some l \<Rightarrow> ln_open l)),
          rc_startTime = jor (case st of None \<Rightarrow> JUndef | Some s \<Rightarrow> jget (bs_block s) ''startTime'') (JNum now),
          rc_endTime = now\<rparr>)"

fun reconcile_blocks ::
  "int \<Rightarrow> jsval \<Rightarrow> jsval \<Rightarrow> sb_lane option \<Rightarrow> nat list \<Rightarrow> nat list \<Rightarrow> jsval list \<Rightarrow> assembler
     \<Rightarrow> sb_reconciled list \<times> assembler" where
  "reconcile_blocks now parent authId active exact laneCandidates [] a = ([], a)"
| "reconcile_blocks now parent authId active exact laneCandidates (block # bs) a =
     (let lane_open = (case active of None \<Rightarrow> False | Some l \<Rightarrow> ln_open l);
          picked = reconcile_pick lane_open exact laneCandidates a block;
          a1 = (case picked of None \<Rightarrow> a | Some r \<Rightarrow> claim r a);
          out = reconcile_entry now parent authId active block (map_option ((!) (sb_heap a)) picked);
          (outs, a2) = reconcile_blocks now parent authId active exact laneCandidates bs a1
      in (out # outs, a2))"

definition exact_candidates :: "jsval \<Rightarrow> nat list \<Rightarrow> assembler \<Rightarrow> nat list" where
  "exact_candidates messageId available a =
     (if truthy messageId then filter (\<lambda>r. jeq (bs_messageId (sb_heap a ! r)) messageId) available else [])"

definition reconcileAssistant :: "int \<Rightarrow> jsval \<Rightarrow> assembler \<Rightarrow> sb_reconciled list \<times> assembler" where
  "reconcileAssistant now message a0 =
     (let a = snd (flush a0);
          parentToolUseId = jor (jget message ''parent_tool_use_id'') JNull;
          active = dget (sb_lanes a) (laneKey parentToolUseId);
          authoritativeMessageId = jor (jget message ''message_id'') JNull;
          content = (if is_arr (jget message ''content'') then arr_of (jget message ''content'') else []);
          available = available_blocks parentToolUseId a;
          exact = exact_candidates authoritativeMessageId available a;
          laneCandidates = exact_candidates (case active of None \<Rightarrow> JUndef | Some l \<Rightarrow> ln_messageId l) available a
      in reconcile_blocks now parentToolUseId authoritativeMessageId active exact laneCandidates content a)"

definition resetForReplayGap :: "assembler \<Rightarrow> assembler" where
  "resetForReplayGap a = a\<lparr>sb_timer := False, sb_dirty := dempty, sb_blocks := dempty, sb_lanes := dempty\<rparr>"

definition dispose :: "bool \<Rightarrow> assembler \<Rightarrow> assembler" where
  "dispose flushPending a =
     (if flushPending then snd (flush a) else a)\<lparr>sb_timer := False, sb_dirty := dempty, sb_disposed := True\<rparr>"

definition timer_fire :: "assembler \<Rightarrow> assembler" where
  "timer_fire a = (if sb_timer a then snd (flush (a\<lparr>sb_timer := False\<rparr>)) else a)"

section \<open>The machine\<close>

datatype sb_event =
    Accept int "string \<Rightarrow> jsval option" jsval
  | TimerFire
  | Flush
  | Reconcile int jsval
  | ResetGap
  | Dispose bool

fun sb_step :: "assembler \<Rightarrow> sb_event \<Rightarrow> assembler" where
  "sb_step a (Accept now parseJson payload) = snd (accept now parseJson payload a)"
| "sb_step a TimerFire = timer_fire a"
| "sb_step a Flush = snd (flush a)"
| "sb_step a (Reconcile now message) = snd (reconcileAssistant now message a)"
| "sb_step a ResetGap = resetForReplayGap a"
| "sb_step a (Dispose flushPending) = dispose flushPending a"

section \<open>The invariant\<close>

text \<open>
  References point into the heap and are filed under their own key; a dirty block is visible and not
  yet authoritative; a flush is scheduled exactly while something is dirty; a disposed assembler has
  nothing pending.
\<close>

definition refs_ok :: "sb_state list \<Rightarrow> (string, nat) dict \<Rightarrow> bool" where
  "refs_ok heap m \<longleftrightarrow> dwf m \<and> (\<forall>k r. dget m k = Some r \<longrightarrow> r < length heap \<and> bs_key (heap ! r) = k)"

definition pending_ok :: "sb_state list \<Rightarrow> (string, nat) dict \<Rightarrow> bool" where
  "pending_ok heap m \<longleftrightarrow>
     (\<forall>k r. dget m k = Some r \<longrightarrow> bs_materialized (heap ! r) \<and> \<not> bs_authoritative (heap ! r))"

definition sb_inv :: "assembler \<Rightarrow> bool" where
  "sb_inv a \<longleftrightarrow> dwf (sb_lanes a) \<and> refs_ok (sb_heap a) (sb_blocks a) \<and> refs_ok (sb_heap a) (sb_dirty a)
     \<and> pending_ok (sb_heap a) (sb_dirty a)
     \<and> (sb_timer a \<longleftrightarrow> sb_dirty a \<noteq> dempty)
     \<and> (sb_disposed a \<longrightarrow> sb_dirty a = dempty)"

lemma sb_inv_create: "sb_inv (createStreamingBlockAssembler imm)"
  by (simp add: sb_inv_def createStreamingBlockAssembler_def refs_ok_def pending_ok_def)

lemma refs_ok_empty [simp]: "refs_ok heap dempty"
  by (simp add: refs_ok_def)

lemma pending_ok_empty [simp]: "pending_ok heap dempty"
  by (simp add: pending_ok_def)

lemma dset_neq_empty [simp]: "dset k v m \<noteq> dempty"
  by (cases m) (auto simp: dset_def dempty_def)

lemma refs_ok_update:
  "refs_ok heap m \<Longrightarrow> bs_key st = bs_key (heap ! r) \<Longrightarrow> refs_ok (heap[r := st]) m"
  by (simp add: refs_ok_def nth_upd)

lemma refs_ok_append: "refs_ok heap m \<Longrightarrow> refs_ok (heap @ [st]) m"
  by (fastforce simp: refs_ok_def nth_append)

lemma refs_ok_dset:
  "refs_ok heap m \<Longrightarrow> r < length heap \<Longrightarrow> bs_key (heap ! r) = k \<Longrightarrow> refs_ok heap (dset k r m)"
  by (auto simp: refs_ok_def)

lemma pending_ok_update:
  "pending_ok heap m \<Longrightarrow> bs_materialized st \<Longrightarrow> \<not> bs_authoritative st \<Longrightarrow> pending_ok (heap[r := st]) m"
  by (auto simp: pending_ok_def nth_upd)

lemma pending_ok_append: "pending_ok heap m \<Longrightarrow> refs_ok heap m \<Longrightarrow> pending_ok (heap @ [st]) m"
  by (auto simp: pending_ok_def refs_ok_def nth_append)

lemma log_delta_keeps [simp]:
  "bs_key (fst (log_delta t d st)) = bs_key st"
  "bs_materialized (fst (log_delta t d st)) = bs_materialized st"
  "bs_authoritative (fst (log_delta t d st)) = bs_authoritative st"
  "bs_block (fst (log_delta t d st)) = bs_block st"
  by (simp_all add: log_delta_def)

lemma mark_in_dirty_fields [simp]:
  "sb_heap (mark_in_dirty r st a) = sb_heap a" "sb_blocks (mark_in_dirty r st a) = sb_blocks a"
  "sb_lanes (mark_in_dirty r st a) = sb_lanes a" "sb_disposed (mark_in_dirty r st a) = sb_disposed a"
  "sb_dirty (mark_in_dirty r st a) = dset (bs_key st) r (sb_dirty a)"
  "sb_immediate (mark_in_dirty r st a) = sb_immediate a"
  "sb_flushed (mark_in_dirty r st a) = sb_flushed a"
  "\<not> sb_disposed a \<Longrightarrow> sb_timer (mark_in_dirty r st a)"
  by (simp_all add: mark_in_dirty_def scheduleFlush_def)

lemma emit_fields [simp]:
  "sb_heap (emit f a) = sb_heap a" "sb_blocks (emit f a) = sb_blocks a" "sb_lanes (emit f a) = sb_lanes a"
  "sb_disposed (emit f a) = sb_disposed a" "sb_dirty (emit f a) = sb_dirty a"
  "sb_timer (emit f a) = sb_timer a" "sb_immediate (emit f a) = sb_immediate a"
  "sb_flushed (emit f a) = sb_flushed a @ [f]"
  by (simp_all add: emit_def)

lemma put_state_fields [simp]:
  "sb_heap (put_state r st a) = (sb_heap a)[r := st]" "sb_blocks (put_state r st a) = sb_blocks a"
  "sb_lanes (put_state r st a) = sb_lanes a" "sb_disposed (put_state r st a) = sb_disposed a"
  "sb_dirty (put_state r st a) = sb_dirty a" "sb_timer (put_state r st a) = sb_timer a"
  "sb_immediate (put_state r st a) = sb_immediate a" "sb_flushed (put_state r st a) = sb_flushed a"
  by (simp_all add: put_state_def)

lemma sb_inv_emit [simp]: "sb_inv (emit f a) = sb_inv a"
  by (simp add: sb_inv_def)

text \<open>Writing a state back keeps the invariant when its key stays and it may remain dirty.\<close>

lemma sb_inv_put:
  assumes "sb_inv a" and "bs_key st = bs_key (sb_heap a ! r)"
    and "(bs_materialized st \<and> \<not> bs_authoritative st) \<or> sb_dirty a = dempty"
  shows "sb_inv (put_state r st a)"
  using assms by (auto simp: sb_inv_def refs_ok_update pending_ok_update)

lemma sb_inv_mark:
  assumes "sb_inv a" and "\<not> sb_disposed a" and "r < length (sb_heap a)"
    and "st = sb_heap a ! r" and "bs_materialized st" and "\<not> bs_authoritative st"
  shows "sb_inv (mark_in_dirty r st a)"
  using assms by (auto simp: sb_inv_def refs_ok_dset pending_ok_def)

lemma markDirty_cases:
  fixes t d :: string
  assumes "bs_materialized (sb_heap a ! r)" and "\<not> bs_authoritative (sb_heap a ! r)"
  defines "st \<equiv> fst (log_delta t d (sb_heap a ! r))"
  shows "markDirty r t d a =
     (if sb_immediate a
      then (let a2 = emit \<lparr>fl_patches = [patch_of st], fl_logs = []\<rparr> (put_state r st a)
            in if snd (log_delta t d (sb_heap a ! r)) then mark_in_dirty r st a2 else a2)
      else mark_in_dirty r st (put_state r st a))"
  using assms by (simp add: markDirty_def Let_def case_prod_unfold)

lemma markDirty_inv:
  assumes "sb_inv a" and "\<not> sb_disposed a" and "r < length (sb_heap a)"
  shows "sb_inv (markDirty r t d a)"
proof (cases "bs_materialized (sb_heap a ! r) \<and> \<not> bs_authoritative (sb_heap a ! r)")
  case False
  then show ?thesis using assms by (auto simp: markDirty_def Let_def)
next
  case True
  let ?st = "fst (log_delta t d (sb_heap a ! r))"
  have put: "sb_inv (put_state r ?st a)" using assms True by (intro sb_inv_put) auto
  then have "sb_inv (mark_in_dirty r ?st (put_state r ?st a))"
    using assms True by (intro sb_inv_mark) auto
  moreover have "sb_inv (mark_in_dirty r ?st (emit f (put_state r ?st a)))" for f
    using put assms True by (intro sb_inv_mark) auto
  ultimately show ?thesis using True put by (simp add: markDirty_cases Let_def)
qed

section \<open>Every operation keeps the invariant\<close>

lemma flush_one_heap:
  "snd (flush_one imm acc r) = (snd acc)[r := clear_logs (snd acc ! r)]"
  by (simp add: flush_one_def Let_def case_prod_unfold)

lemma flush_fold_heap:
  fixes acc :: "sb_flush \<times> sb_state list" and imm :: bool
  defines "heap' \<equiv> \<lambda>rs. snd (foldl (flush_one imm) acc rs)"
  shows "length (heap' rs) = length (snd acc) \<and>
     (\<forall>r. heap' rs ! r = snd acc ! r \<or> heap' rs ! r = clear_logs (snd acc ! r))"
  unfolding heap'_def
proof (induction rs rule: rev_induct)
  case Nil
  then show ?case by simp
next
  case (snoc r rs)
  let ?h = "snd (foldl (flush_one imm) acc rs)"
  have idem: "clear_logs (clear_logs st) = clear_logs st" for st by (simp add: clear_logs_def)
  have "?h[r := clear_logs (?h ! r)] ! q = snd acc ! q \<or> ?h[r := clear_logs (?h ! r)] ! q = clear_logs (snd acc ! q)" for q
    using snoc idem by (cases "q = r") (simp add: nth_upd, metis, simp add: nth_upd)
  with snoc show ?case by (simp add: flush_one_heap)
qed

lemma clear_logs_keeps [simp]:
  "bs_key (clear_logs st) = bs_key st" "bs_materialized (clear_logs st) = bs_materialized st"
  "bs_authoritative (clear_logs st) = bs_authoritative st" "bs_block (clear_logs st) = bs_block st"
  "bs_messageId (clear_logs st) = bs_messageId st" "bs_parent (clear_logs st) = bs_parent st"
  "bs_index (clear_logs st) = bs_index st"
  by (simp_all add: clear_logs_def)

text \<open>A flush only empties the logs of the heap's states, and leaves nothing dirty.\<close>

lemma flush_effect:
  "length (sb_heap (snd (flush a))) = length (sb_heap a)"
  "sb_heap (snd (flush a)) ! r = sb_heap a ! r \<or> sb_heap (snd (flush a)) ! r = clear_logs (sb_heap a ! r)"
  "sb_dirty (snd (flush a)) = dempty" "\<not> sb_timer (snd (flush a))"
  "sb_blocks (snd (flush a)) = sb_blocks a" "sb_lanes (snd (flush a)) = sb_lanes a"
  "sb_disposed (snd (flush a)) = sb_disposed a"
  using flush_fold_heap [of "sb_immediate a" "(\<lparr>fl_patches = [], fl_logs = []\<rparr>, sb_heap a)" "dvals (sb_dirty a)"]
  by (simp_all add: flush_def Let_def case_prod_unfold)

lemma flush_keeps [simp]:
  "bs_key (sb_heap (snd (flush a)) ! r) = bs_key (sb_heap a ! r)"
  "bs_authoritative (sb_heap (snd (flush a)) ! r) = bs_authoritative (sb_heap a ! r)"
  "bs_block (sb_heap (snd (flush a)) ! r) = bs_block (sb_heap a ! r)"
  "bs_messageId (sb_heap (snd (flush a)) ! r) = bs_messageId (sb_heap a ! r)"
  "bs_parent (sb_heap (snd (flush a)) ! r) = bs_parent (sb_heap a ! r)"
  "bs_index (sb_heap (snd (flush a)) ! r) = bs_index (sb_heap a ! r)"
  using flush_effect(2) [of a r] by auto

lemma flush_inv: "sb_inv a \<Longrightarrow> sb_inv (snd (flush a))"
  by (simp add: sb_inv_def flush_effect refs_ok_def)

lemma timer_fire_inv: "sb_inv a \<Longrightarrow> sb_inv (timer_fire a)"
proof -
  assume inv: "sb_inv a"
  have "flush (a\<lparr>sb_timer := False\<rparr>) = flush a" by (simp add: flush_def)
  with flush_inv [OF inv] inv show ?thesis by (simp add: timer_fire_def)
qed

lemma stateForEvent_ok:
  "sb_inv a \<Longrightarrow> stateForEvent a payload i = Some r \<Longrightarrow> r < length (sb_heap a)"
  by (auto simp: sb_inv_def refs_ok_def stateForEvent_def split: option.splits)

lemma lanes_inv: "sb_inv a \<Longrightarrow> sb_inv (a\<lparr>sb_lanes := dset k l (sb_lanes a)\<rparr>)"
  by (simp add: sb_inv_def)

lemma accept_message_start_inv: "sb_inv a \<Longrightarrow> sb_inv (snd (accept_message_start p e a))"
  by (simp add: accept_message_start_def Let_def lanes_inv)

lemma accept_message_stop_inv: "sb_inv a \<Longrightarrow> sb_inv (snd (accept_message_stop p a))"
  by (simp add: accept_message_stop_def Let_def lanes_inv split: option.split)

lemma alloc_inv:
  assumes "sb_inv a" and "bs_key st = key"
  shows "sb_inv (a\<lparr>sb_heap := sb_heap a @ [st], sb_blocks := dset key (length (sb_heap a)) (sb_blocks a)\<rparr>)"
proof -
  from assms have "refs_ok (sb_heap a @ [st]) (sb_blocks a)" "refs_ok (sb_heap a @ [st]) (sb_dirty a)"
    "pending_ok (sb_heap a @ [st]) (sb_dirty a)"
    by (auto simp: sb_inv_def intro: refs_ok_append pending_ok_append)
  with assms show ?thesis by (auto simp: sb_inv_def intro: refs_ok_dset)
qed

lemma accept_block_start_inv:
  assumes "sb_inv a" and "\<not> sb_disposed a"
  shows "sb_inv (snd (accept_block_start now p e a))"
  using assms
  by (auto simp: accept_block_start_def Let_def intro!: alloc_inv markDirty_inv
      split: option.split jsval.split)

lemma narrative_inv:
  assumes "sb_inv a" and "\<not> sb_disposed a" and "r < length (sb_heap a)"
    and "\<not> bs_authoritative (sb_heap a ! r)"
  shows "sb_inv (snd (accept_narrative_delta r t f v a))"
proof -
  have "sb_inv (put_state r (append_field f d (sb_heap a ! r)) a)" for d
    using assms by (intro sb_inv_put) (auto simp: append_field_def)
  then have "sb_inv (markDirty r t d (put_state r (append_field f d (sb_heap a ! r)) a))" for d
    using assms by (intro markDirty_inv) auto
  with assms(1) show ?thesis by (simp add: accept_narrative_delta_def Let_def)
qed

text \<open>A block that is not visible is not dirty, so it may be written back freely.\<close>

lemma sb_inv_put_flags:
  assumes "sb_inv a" and "r < length (sb_heap a)" and "bs_key st = bs_key (sb_heap a ! r)"
    and "bs_materialized st = bs_materialized (sb_heap a ! r)"
    and "bs_authoritative st = bs_authoritative (sb_heap a ! r)"
  shows "sb_inv (put_state r st a)"
  using assms by (auto simp: sb_inv_def refs_ok_update pending_ok_def nth_upd)

lemma accept_block_delta_inv:
  assumes "sb_inv a" and "\<not> sb_disposed a"
  shows "sb_inv (snd (accept_block_delta p e a))"
proof (cases "stateForEvent a p (jget e ''index'')")
  case None
  then show ?thesis using assms by (simp add: accept_block_delta_def)
next
  case (Some r)
  from stateForEvent_ok [OF assms(1) Some] have r: "r < length (sb_heap a)" .
  then have "sb_inv (put_state r ((sb_heap a ! r)\<lparr>bs_rawJson := j\<rparr>) a)" for j
    using assms(1) by (intro sb_inv_put_flags) auto
  then show ?thesis
    using assms Some r narrative_inv [OF assms r] by (simp add: accept_block_delta_def Let_def)
qed

lemma parse_tool_input_keeps [simp]:
  "bs_key (parse_tool_input pj st) = bs_key st"
  "bs_materialized (parse_tool_input pj st) = bs_materialized st"
  "bs_authoritative (parse_tool_input pj st) = bs_authoritative st"
  by (simp_all add: parse_tool_input_def split: option.split)

lemma accept_block_stop_inv:
  assumes "sb_inv a" and "\<not> sb_disposed a"
  shows "sb_inv (snd (accept_block_stop now pj p e a))"
proof (cases "stateForEvent a p (jget e ''index'')")
  case None
  then show ?thesis using assms by (simp add: accept_block_stop_def)
next
  case (Some r)
  from stateForEvent_ok [OF assms(1) Some] have r: "r < length (sb_heap a)" .
  have "sb_inv (put_state r (parse_tool_input pj (sb_heap a ! r)) a)"
    using assms(1) r by (intro sb_inv_put_flags) auto
  moreover have "sb_inv (markDirty r [] [] (put_state r ((parse_tool_input pj (sb_heap a ! r))\<lparr>bs_block := b\<rparr>) a))" for b
    using assms r by (intro markDirty_inv sb_inv_put_flags) auto
  ultimately show ?thesis using assms(1) Some by (simp add: accept_block_stop_def Let_def)
qed

lemma accept_inv: "sb_inv a \<Longrightarrow> sb_inv (snd (accept now pj p a))"
  by (simp add: accept_def Let_def accept_message_start_inv accept_message_stop_inv
      accept_block_start_inv accept_block_delta_inv accept_block_stop_inv)

lemma claim_fields [simp]:
  "sb_heap (claim r a) = (sb_heap a)[r := (sb_heap a ! r)\<lparr>bs_authoritative := True\<rparr>]"
  "sb_blocks (claim r a) = sb_blocks a" "sb_lanes (claim r a) = sb_lanes a"
  "sb_timer (claim r a) = sb_timer a" "sb_disposed (claim r a) = sb_disposed a"
  "sb_dirty (claim r a) = ddel (bs_key (sb_heap a ! r)) (sb_dirty a)"
  "sb_flushed (claim r a) = sb_flushed a"
  by (simp_all add: claim_def)

lemma ddel_empty [simp]: "ddel k dempty = dempty"
  by (simp add: ddel_def dempty_def)

lemma claim_inv: "sb_inv a \<Longrightarrow> sb_dirty a = dempty \<Longrightarrow> sb_inv (claim r a)"
  by (simp add: sb_inv_def refs_ok_update)

lemma reconcile_blocks_inv:
  "sb_inv a \<Longrightarrow> sb_dirty a = dempty \<Longrightarrow>
     sb_inv (snd (reconcile_blocks now p i act ex lc bs a)) \<and>
     sb_dirty (snd (reconcile_blocks now p i act ex lc bs a)) = dempty"
proof (induction bs arbitrary: a)
  case Nil
  then show ?case by simp
next
  case (Cons b bs)
  then show ?case
    by (simp add: Let_def case_prod_unfold claim_inv split: option.split)
qed

lemma reconcileAssistant_inv: "sb_inv a \<Longrightarrow> sb_inv (snd (reconcileAssistant now m a))"
  by (simp add: reconcileAssistant_def Let_def reconcile_blocks_inv flush_inv flush_effect)

lemma sb_step_inv: "sb_inv a \<Longrightarrow> sb_inv (sb_step a e)"
proof (cases e)
  case ResetGap
  then show "sb_inv a \<Longrightarrow> ?thesis" by (simp add: sb_inv_def resetForReplayGap_def)
next
  case (Dispose fp)
  assume "sb_inv a"
  with flush_inv [of a] have "sb_inv (if fp then snd (flush a) else a)" by simp
  with Dispose show ?thesis by (simp add: dispose_def sb_inv_def)
qed (simp_all add: accept_inv timer_fire_inv flush_inv reconcileAssistant_inv)

lemma reconcile_blocks_frame:
  "sb_disposed (snd (reconcile_blocks now p i act ex lc bs a)) = sb_disposed a \<and>
   sb_flushed (snd (reconcile_blocks now p i act ex lc bs a)) = sb_flushed a \<and>
   sb_timer (snd (reconcile_blocks now p i act ex lc bs a)) = sb_timer a"
  by (induction bs arbitrary: a) (simp_all add: Let_def case_prod_unfold split: option.split)

lemma sb_step_disposed: "sb_disposed a \<Longrightarrow> sb_disposed (sb_step a e)"
  by (cases e) (simp_all add: accept_def timer_fire_def flush_effect reconcileAssistant_def Let_def
      reconcile_blocks_frame resetForReplayGap_def dispose_def)

interpretation sb: terminal_machine "createStreamingBlockAssembler imm" sb_step "\<lambda>_ _. True" sb_inv sb_disposed
  for imm
  by unfold_locales (auto intro: sb_inv_create sb_step_inv sb_step_disposed)

section \<open>Text accumulates in order\<close>

text \<open>The payload of a text delta for the block \<open>i\<close> of a lane.\<close>

definition text_delta_event :: "jsval \<Rightarrow> jsval \<Rightarrow> string \<Rightarrow> jsval" where
  "text_delta_event parent i d =
     JObj [(''type'', JStr ''stream_event''), (''parent_tool_use_id'', parent),
       (''event'', JObj [(''type'', JStr ''content_block_delta''), (''index'', i),
          (''delta'', JObj [(''type'', JStr ''text_delta''), (''text'', JStr d)])])]"

definition text_stream :: "assembler \<Rightarrow> jsval \<Rightarrow> jsval \<Rightarrow> nat \<Rightarrow> string \<Rightarrow> bool" where
  "text_stream a parent i r t \<longleftrightarrow>
     stateForEvent a (text_delta_event parent i []) i = Some r \<and> r < length (sb_heap a)
     \<and> \<not> sb_disposed a \<and> \<not> bs_authoritative (sb_heap a ! r)
     \<and> jget (bs_block (sb_heap a ! r)) ''type'' = JStr ''text''
     \<and> jget (bs_block (sb_heap a ! r)) ''text'' = JStr t"

lemma text_delta_event_fields [simp]:
  "truthy (text_delta_event parent i d)"
  "jget (text_delta_event parent i d) ''type'' = JStr ''stream_event''"
  "jget (text_delta_event parent i d) ''session_id'' = JUndef"
  "jget (text_delta_event parent i d) ''parent_tool_use_id'' = parent"
  "jget (text_delta_event parent i d) ''event'' = JObj [(''type'', JStr ''content_block_delta''), (''index'', i),
          (''delta'', JObj [(''type'', JStr ''text_delta''), (''text'', JStr d)])]"
  by (simp_all add: text_delta_event_def)

lemma text_stream_state:
  "text_stream a parent i r t \<Longrightarrow> stateForEvent a (text_delta_event parent i d) i = Some r"
  by (simp add: text_stream_def stateForEvent_def cong: option.case_cong)

lemma stateForEvent_frame:
  "sb_lanes a' = sb_lanes a \<Longrightarrow> sb_blocks a' = sb_blocks a \<Longrightarrow> stateForEvent a' p i = stateForEvent a p i"
  by (simp add: stateForEvent_def cong: option.case_cong)

lemma markDirty_frame [simp]:
  "sb_lanes (markDirty r t d a) = sb_lanes a" "sb_blocks (markDirty r t d a) = sb_blocks a"
  "sb_disposed (markDirty r t d a) = sb_disposed a" "length (sb_heap (markDirty r t d a)) = length (sb_heap a)"
  "bs_block (sb_heap (markDirty r t d a) ! q) = bs_block (sb_heap a ! q)"
  "bs_authoritative (sb_heap (markDirty r t d a) ! q) = bs_authoritative (sb_heap a ! q)"
  by (simp_all add: markDirty_def Let_def case_prod_unfold nth_upd)

lemma accept_text_delta:
  assumes "text_stream a parent i r t"
  shows "accept now pj (text_delta_event parent i d) a =
     (if d = [] then (True, a)
      else (True, markDirty r ''text_delta'' d (put_state r (append_field ''text'' d (sb_heap a ! r)) a)))"
proof -
  have "accept now pj (text_delta_event parent i d) a =
      accept_block_delta (text_delta_event parent i d) (jget (text_delta_event parent i d) ''event'') a"
    using assms by (simp add: accept_def text_stream_def)
  also have "\<dots> = accept_narrative_delta r ''text_delta'' ''text'' (JStr d) a"
    using assms text_stream_state [OF assms, of d] by (simp add: accept_block_delta_def Let_def text_stream_def)
  finally show ?thesis by (simp add: accept_narrative_delta_def)
qed

lemma text_stream_step:
  assumes "text_stream a parent i r t"
  shows "text_stream (snd (accept now pj (text_delta_event parent i d) a)) parent i r (t @ d)"
proof (cases "d = []")
  case True
  then show ?thesis using assms by (simp add: accept_text_delta [OF assms])
next
  case False
  let ?a' = "markDirty r ''text_delta'' d (put_state r (append_field ''text'' d (sb_heap a ! r)) a)"
  have "stateForEvent ?a' p i = stateForEvent a p i" for p by (rule stateForEvent_frame) simp_all
  then show ?thesis using False assms
    by (simp add: accept_text_delta [OF assms] text_stream_def append_field_def)
qed

lemma text_stream_run:
  "text_stream a parent i r t \<Longrightarrow>
     text_stream (foldl (\<lambda>a d. snd (accept now pj (text_delta_event parent i d) a)) a ds) parent i r (t @ concat ds)"
proof (induction ds arbitrary: a t)
  case Nil
  then show ?case by simp
next
  case (Cons d ds)
  from Cons.IH [OF text_stream_step [OF Cons.prems]] show ?case by simp
qed

section \<open>What a flush emits\<close>

lemma dirty_refs_distinct: "refs_ok heap m \<Longrightarrow> distinct (dvals m) \<and> set (dvals m) \<subseteq> {..<length heap}"
proof -
  assume ok: "refs_ok heap m"
  then have wf: "dwf m" by (simp add: refs_ok_def)
  have mem: "r < length heap \<and> bs_key (heap ! r) = k" if "(k, r) \<in> set m" for k r
    using ok dwf_dget [OF wf that] by (auto simp: refs_ok_def)
  have "inj_on snd (set m)"
  proof (rule inj_onI)
    fix x y assume "x \<in> set m" "y \<in> set m" "snd x = snd y"
    then show "x = y" by (metis mem prod.collapse)
  qed
  moreover have "distinct m" using wf by (auto simp: dwf_def distinct_map)
  ultimately show ?thesis using mem by (auto simp: dvals_def distinct_map)
qed

lemma flush_one_apply:
  "flush_one imm (out, heap) r =
     (\<lparr>fl_patches = fl_patches out @ flush_patches imm (heap ! r), fl_logs = fl_logs out @ flush_logs (heap ! r)\<rparr>,
      heap[r := clear_logs (heap ! r)])"
  by (simp add: flush_one_def Let_def)

lemma flush_fold_out:
  "distinct rs \<Longrightarrow>
   fst (foldl (flush_one imm) (out, heap) rs) =
     \<lparr>fl_patches = fl_patches out @ concat (map (\<lambda>r. flush_patches imm (heap ! r)) rs),
      fl_logs = fl_logs out @ concat (map (\<lambda>r. flush_logs (heap ! r)) rs)\<rparr>"
proof (induction rs arbitrary: out heap)
  case Nil
  then show ?case by simp
next
  case (Cons r rs)
  then have "r \<notin> set rs" "distinct rs" by auto
  then have same: "map (\<lambda>q. f (heap[r := x] ! q)) rs = map (\<lambda>q. f (heap ! q)) rs" for f :: "sb_state \<Rightarrow> 'z" and x
    by (auto simp: nth_upd)
  show ?case using Cons.IH [OF \<open>distinct rs\<close>] by (simp add: flush_one_apply same)
qed

lemma flush_out:
  assumes "sb_inv a"
  shows "fst (flush a) =
     \<lparr>fl_patches = concat (map (\<lambda>r. flush_patches (sb_immediate a) (sb_heap a ! r)) (dvals (sb_dirty a))),
      fl_logs = concat (map (\<lambda>r. flush_logs (sb_heap a ! r)) (dvals (sb_dirty a)))\<rparr>"
proof -
  from assms have "distinct (dvals (sb_dirty a))" by (auto simp: sb_inv_def dest: dirty_refs_distinct)
  from flush_fold_out [OF this] show ?thesis
    by (simp add: flush_def Let_def case_prod_unfold dvals_def dempty_def)
qed

lemma dirty_visible:
  assumes "sb_inv a" and "r \<in> set (dvals (sb_dirty a))"
  shows "bs_materialized (sb_heap a ! r) \<and> \<not> bs_authoritative (sb_heap a ! r)"
proof -
  from assms(2) obtain k where "(k, r) \<in> set (sb_dirty a)" by (auto simp: dvals_def)
  with assms(1) have "dget (sb_dirty a) k = Some r" by (simp add: sb_inv_def refs_ok_def dwf_dget)
  with assms(1) show ?thesis by (simp add: sb_inv_def pending_ok_def)
qed

lemma flush_patches_dirty:
  assumes "sb_inv a" and "\<not> sb_immediate a"
  shows "concat (map (\<lambda>r. flush_patches (sb_immediate a) (sb_heap a ! r)) (dvals (sb_dirty a))) =
     map (\<lambda>r. patch_of (sb_heap a ! r)) (dvals (sb_dirty a))"
proof -
  have "flush_patches (sb_immediate a) (sb_heap a ! r) = [patch_of (sb_heap a ! r)]"
    if "r \<in> set (dvals (sb_dirty a))" for r
    using dirty_visible [OF assms(1) that] assms(2) by (simp add: flush_patches_def)
  then have "map (\<lambda>r. flush_patches (sb_immediate a) (sb_heap a ! r)) (dvals (sb_dirty a)) =
      map (\<lambda>r. [patch_of (sb_heap a ! r)]) (dvals (sb_dirty a))" by auto
  then show ?thesis by (simp only: concat_map_singleton)
qed

section \<open>Claims of authoritative blocks\<close>

lemma reconcile_pick_free:
  "reconcile_pick lo ex lc a b = Some r \<Longrightarrow> r \<in> set ex \<union> set lc \<and> \<not> bs_authoritative (sb_heap a ! r)"
proof -
  assume p: "reconcile_pick lo ex lc a b = Some r"
  show ?thesis
  proof (cases "firstMatchingCandidate (sb_heap a) ex b")
    case (Some q)
    with p show ?thesis by (auto simp: reconcile_pick_def firstMatchingCandidate_def dest: find_Some_mem)
  next
    case None
    with p have "uniqueCompatibleCandidate (sb_heap a) lc b = Some r"
      by (auto simp: reconcile_pick_def split: if_splits)
    then have "filter (\<lambda>r. \<not> bs_authoritative (sb_heap a ! r) \<and> candidateMatchesType (sb_heap a ! r) b
        \<and> areStreamBlocksCompatible (bs_block (sb_heap a ! r)) b) lc = [r]"
      by (auto simp: uniqueCompatibleCandidate_def split: list.splits)
    then have "r \<in> set (filter (\<lambda>r. \<not> bs_authoritative (sb_heap a ! r) \<and> candidateMatchesType (sb_heap a ! r) b
        \<and> areStreamBlocksCompatible (bs_block (sb_heap a ! r)) b) lc)" by simp
    then show ?thesis by simp
  qed
qed

lemma reconcile_keeps:
  "bs_key (sb_heap (snd (reconcile_blocks now p i act ex lc bs a)) ! q) = bs_key (sb_heap a ! q) \<and>
   (bs_authoritative (sb_heap a ! q) \<longrightarrow>
      bs_authoritative (sb_heap (snd (reconcile_blocks now p i act ex lc bs a)) ! q)) \<and>
   sb_blocks (snd (reconcile_blocks now p i act ex lc bs a)) = sb_blocks a"
  by (induction bs arbitrary: a) (simp_all add: Let_def case_prod_unfold nth_upd split: option.split)

definition claimed_keys :: "sb_reconciled list \<Rightarrow> string list" where
  "claimed_keys outs = List.map_filter rc_streamKey outs"

lemma claimed_keys_simps [simp]:
  "claimed_keys [] = []"
  "claimed_keys (e # es) = (case rc_streamKey e of None \<Rightarrow> [] | Some k \<Rightarrow> [k]) @ claimed_keys es"
  by (simp_all add: claimed_keys_def map_filter_simps split: option.split)

lemma reconcile_entry_key [simp]:
  "rc_streamKey (reconcile_entry now p i act b st) = map_option bs_key st"
  by (simp add: reconcile_entry_def Let_def)

lemma reconcile_claims:
  assumes "set ex \<union> set lc \<subseteq> {..<length (sb_heap a)}"
    and "inj_on (\<lambda>r. bs_key (sb_heap a ! r)) (set ex \<union> set lc)"
  shows "distinct (claimed_keys (fst (reconcile_blocks now p i act ex lc bs a))) \<and>
     (\<forall>k \<in> set (claimed_keys (fst (reconcile_blocks now p i act ex lc bs a))).
        \<exists>r \<in> set ex \<union> set lc. bs_key (sb_heap a ! r) = k \<and> \<not> bs_authoritative (sb_heap a ! r)
          \<and> bs_authoritative (sb_heap (snd (reconcile_blocks now p i act ex lc bs a)) ! r))"
  using assms
proof (induction bs arbitrary: a)
  case Nil
  then show ?case by simp
next
  case (Cons b bs)
  define lo where "lo = (case act of None \<Rightarrow> False | Some l \<Rightarrow> ln_open l)"
  show ?case
  proof (cases "reconcile_pick lo ex lc a b")
    case None
    with Cons show ?thesis by (simp add: Let_def case_prod_unfold lo_def)
  next
    case (Some r)
    let ?a1 = "claim r a"
    from reconcile_pick_free [OF Some] have r: "r \<in> set ex \<union> set lc" "\<not> bs_authoritative (sb_heap a ! r)" by auto
    with Cons.prems(1) have len: "r < length (sb_heap a)" by auto
    have keys: "bs_key (sb_heap ?a1 ! q) = bs_key (sb_heap a ! q)" for q by (simp add: nth_upd)
    have IH: "distinct (claimed_keys (fst (reconcile_blocks now p i act ex lc bs ?a1))) \<and>
       (\<forall>k \<in> set (claimed_keys (fst (reconcile_blocks now p i act ex lc bs ?a1))).
        \<exists>q \<in> set ex \<union> set lc. bs_key (sb_heap ?a1 ! q) = k \<and> \<not> bs_authoritative (sb_heap ?a1 ! q)
          \<and> bs_authoritative (sb_heap (snd (reconcile_blocks now p i act ex lc bs ?a1)) ! q))"
      using Cons.prems by (intro Cons.IH) (simp_all add: keys del: claim_fields(1), simp)
    have auth_r: "bs_authoritative (sb_heap ?a1 ! r)" using len by simp
    have "bs_key (sb_heap a ! r) \<notin> set (claimed_keys (fst (reconcile_blocks now p i act ex lc bs ?a1)))"
    proof
      assume "bs_key (sb_heap a ! r) \<in> set (claimed_keys (fst (reconcile_blocks now p i act ex lc bs ?a1)))"
      with IH obtain q where q: "q \<in> set ex \<union> set lc" "bs_key (sb_heap ?a1 ! q) = bs_key (sb_heap a ! r)"
        "\<not> bs_authoritative (sb_heap ?a1 ! q)" by blast
      with keys Cons.prems(2) r(1) have "q = r" by (auto simp: inj_on_def)
      with q(3) auth_r show False by simp
    qed
    moreover have "bs_authoritative (sb_heap (snd (reconcile_blocks now p i act ex lc bs ?a1)) ! r)"
      using reconcile_keeps auth_r by blast
    moreover have "\<not> bs_authoritative (sb_heap a ! q)" if "\<not> bs_authoritative (sb_heap ?a1 ! q)" for q
      using that len by (auto simp: nth_upd split: if_splits)
    moreover have "claimed_keys (fst (reconcile_blocks now p i act ex lc (b # bs) a)) =
        bs_key (sb_heap a ! r) # claimed_keys (fst (reconcile_blocks now p i act ex lc bs ?a1))"
      and "snd (reconcile_blocks now p i act ex lc (b # bs) a) = snd (reconcile_blocks now p i act ex lc bs ?a1)"
      using Some by (simp_all add: Let_def case_prod_unfold lo_def)
    ultimately show ?thesis using IH r keys by (simp del: claim_fields(1)) blast
  qed
qed

lemma available_sub: "set (available_blocks p a) \<subseteq> set (dvals (sb_blocks a))"
  by (auto simp: available_blocks_def)

lemma exact_sub: "set (exact_candidates m av a) \<subseteq> set av"
  by (auto simp: exact_candidates_def)

lemma blocks_key_inj:
  assumes "sb_inv a"
  shows "set (dvals (sb_blocks a)) \<subseteq> {..<length (sb_heap a)} \<and>
     inj_on (\<lambda>r. bs_key (sb_heap a ! r)) (set (dvals (sb_blocks a)))"
proof -
  have ok: "refs_ok (sb_heap a) (sb_blocks a)" using assms by (simp add: sb_inv_def)
  have "dget (sb_blocks a) (bs_key (sb_heap a ! r)) = Some r" if r: "r \<in> set (dvals (sb_blocks a))" for r
  proof -
    from r obtain k where "(k, r) \<in> set (sb_blocks a)" by (auto simp: dvals_def)
    with ok have "dget (sb_blocks a) k = Some r" by (auto simp: refs_ok_def intro: dwf_dget)
    with ok show ?thesis by (auto simp: refs_ok_def)
  qed
  then have "inj_on (\<lambda>r. bs_key (sb_heap a ! r)) (set (dvals (sb_blocks a)))"
    by (metis (no_types, lifting) inj_onI option.inject)
  with dirty_refs_distinct [OF ok] show ?thesis by simp
qed

lemma flush_keeps_keys:
  "bs_key (sb_heap (snd (flush a)) ! r) = bs_key (sb_heap a ! r)"
  "bs_authoritative (sb_heap (snd (flush a)) ! r) = bs_authoritative (sb_heap a ! r)"
  using flush_effect(2) [of a r] by auto

text \<open>A disposed assembler with its invariant emits nothing whatever it is sent.\<close>

lemma disposed_flush: "sb_inv a \<Longrightarrow> sb_disposed a \<Longrightarrow> sb_flushed (snd (flush a)) = sb_flushed a"
  by (simp add: sb_inv_def flush_def)

lemma disposed_step_quiet: "sb_inv a \<Longrightarrow> sb_disposed a \<Longrightarrow> sb_flushed (sb_step a e) = sb_flushed a"
proof (cases e)
  case (Dispose fp)
  then show "sb_inv a \<Longrightarrow> sb_disposed a \<Longrightarrow> ?thesis" by (simp add: dispose_def disposed_flush)
qed (auto simp: accept_def timer_fire_def sb_inv_def reconcileAssistant_def Let_def
    reconcile_blocks_frame resetForReplayGap_def flush_def)

lemma disposed_run_quiet:
  "sb_inv a \<Longrightarrow> sb_disposed a \<Longrightarrow> sb_flushed (foldl sb_step a es) = sb_flushed a"
  by (induction es arbitrary: a) (simp_all add: sb_step_inv sb_step_disposed disposed_step_quiet)

section \<open>Properties\<close>

text \<open>
  C8. Whatever sequence of operations an assembler receives, its invariant holds: every reference of
  the block and dirty maps is filed under its own key, a dirty block is visible and not yet
  authoritative, the batch timer runs exactly while something is dirty, and a disposed assembler has
  nothing pending.
\<close>

theorem assembler_invariant: "sb_inv (foldl sb_step (createStreamingBlockAssembler imm) es)"
  using sb.run_inv [of imm es] sb.all_ok_run [of es] by (simp add: sb.run_foldl)

text \<open>
  Deltas of one text block accumulate in arrival order and nothing else changes them: after any
  list of text deltas the block's text is the initial text followed by the deltas, whether or not
  patches were flushed in between.
\<close>

theorem text_deltas_accumulate:
  assumes "text_stream a parent i r t"
  shows "jget (bs_block (sb_heap (foldl (\<lambda>a d. snd (accept now pj (text_delta_event parent i d) a)) a ds) ! r)) ''text''
     = JStr (t @ concat ds)"
  using text_stream_run [OF assms, of now pj ds] by (simp add: text_stream_def)

definition demo_stream :: assembler where
  "demo_stream =
     foldl (\<lambda>a p. snd (accept 5 (\<lambda>_. None) p a)) (createStreamingBlockAssembler False)
       [JObj [(''type'', JStr ''stream_event''), (''event'', JObj [(''type'', JStr ''message_start''),
          (''message'', JObj [(''id'', JStr ''m1'')])])],
        JObj [(''type'', JStr ''stream_event''), (''event'', JObj [(''type'', JStr ''content_block_start''),
          (''index'', JNum 0), (''content_block'', JObj [(''type'', JStr ''text''), (''text'', JStr ''a'')])])]]"

theorem text_deltas_accumulate_witness:
  "jget (bs_block (sb_heap (foldl (\<lambda>a d. snd (accept 9 (\<lambda>_. None) (text_delta_event JNull (JNum 0) d) a))
     demo_stream [''bc'', ''d'']) ! 0)) ''text'' = JStr (''a'' @ concat [''bc'', ''d''])"
  by (rule text_deltas_accumulate) code_simp

text \<open>
  In batching mode a flush emits exactly one patch per dirty block, carrying the block as it is
  now, together with the pending debug logs of those blocks, and leaves nothing dirty and no timer.
\<close>

theorem flush_emits_dirty:
  assumes "sb_inv a" and "\<not> sb_immediate a"
  shows "fl_patches (fst (flush a)) = map (\<lambda>r. patch_of (sb_heap a ! r)) (dvals (sb_dirty a))
    \<and> fl_logs (fst (flush a)) = concat (map (\<lambda>r. flush_logs (sb_heap a ! r)) (dvals (sb_dirty a)))
    \<and> sb_dirty (snd (flush a)) = dempty \<and> \<not> sb_timer (snd (flush a))"
  using flush_patches_dirty [OF assms] by (simp only: flush_out [OF assms(1)] flush_effect sb_flush.simps simp_thms)

lemma sb_inv_demo_stream: "sb_inv demo_stream"
  unfolding demo_stream_def by (simp add: accept_inv sb_inv_create)

theorem flush_emits_dirty_witness:
  "fl_patches (fst (flush demo_stream)) = map (\<lambda>r. patch_of (sb_heap demo_stream ! r)) (dvals (sb_dirty demo_stream))
    \<and> fl_logs (fst (flush demo_stream)) = concat (map (\<lambda>r. flush_logs (sb_heap demo_stream ! r)) (dvals (sb_dirty demo_stream)))
    \<and> sb_dirty (snd (flush demo_stream)) = dempty \<and> \<not> sb_timer (snd (flush demo_stream))"
  by (rule flush_emits_dirty [OF sb_inv_demo_stream]) code_simp

text \<open>
  Reconciling an authoritative message claims each streamed block at most once: the stream keys it
  reports are distinct, and each is the key of a block that was still provisional and is
  authoritative afterwards.
\<close>

theorem reconcile_claims_once:
  assumes "sb_inv a"
  shows "distinct (claimed_keys (fst (reconcileAssistant now message a))) \<and>
    (\<forall>k \<in> set (claimed_keys (fst (reconcileAssistant now message a))).
       \<exists>r \<in> set (dvals (sb_blocks a)). bs_key (sb_heap a ! r) = k \<and> \<not> bs_authoritative (sb_heap a ! r)
         \<and> bs_authoritative (sb_heap (snd (reconcileAssistant now message a)) ! r))"
proof -
  let ?a = "snd (flush a)"
  define p where "p = jor (jget message ''parent_tool_use_id'') JNull"
  define av where "av = available_blocks p ?a"
  have sub: "set (exact_candidates m av ?a) \<subseteq> set (dvals (sb_blocks a))" for m
    using exact_sub [of m av ?a] available_sub [of p ?a] by (auto simp: av_def flush_effect)
  have "set (dvals (sb_blocks a)) \<subseteq> {..<length (sb_heap ?a)} \<and>
     inj_on (\<lambda>r. bs_key (sb_heap ?a ! r)) (set (dvals (sb_blocks a)))"
    using blocks_key_inj [OF flush_inv [OF assms]] by (simp add: flush_effect)
  then have "set (exact_candidates m av ?a) \<union> set (exact_candidates m' av ?a) \<subseteq> {..<length (sb_heap ?a)}"
    and "inj_on (\<lambda>r. bs_key (sb_heap ?a ! r)) (set (exact_candidates m av ?a) \<union> set (exact_candidates m' av ?a))" for m m'
    using sub [of m] sub [of m'] by (blast intro: inj_on_subset)+
  note claims = reconcile_claims [OF this]
  show ?thesis using claims sub unfolding reconcileAssistant_def Let_def p_def [symmetric] av_def [symmetric]
    by (simp add: flush_keeps_keys) blast
qed

definition demo_message :: jsval where
  "demo_message = JObj [(''message_id'', JStr ''m1''),
     (''content'', JArr [JObj [(''type'', JStr ''text''), (''text'', JStr ''abc'')]])]"

theorem reconcile_claims_once_witness:
  "\<exists>r. bs_key (sb_heap demo_stream ! r) = ''session:__main__:m1:0''
     \<and> bs_authoritative (sb_heap (snd (reconcileAssistant 9 demo_message demo_stream)) ! r)"
proof -
  have "''session:__main__:m1:0'' \<in> set (claimed_keys (fst (reconcileAssistant 9 demo_message demo_stream)))"
    by code_simp
  with reconcile_claims_once [OF sb_inv_demo_stream, of 9 demo_message] show ?thesis by blast
qed

text \<open>
  After \<^verbatim>\<open>dispose\<close> no sequence of events makes the assembler call \<^verbatim>\<open>onFlush\<close> again.
\<close>

theorem disposed_is_silent:
  assumes "sb_inv a"
  shows "sb_flushed (foldl sb_step (dispose flushPending a) es) = sb_flushed (dispose flushPending a)"
  using disposed_run_quiet [of "dispose flushPending a" es] sb_step_inv [OF assms, of "Dispose flushPending"]
  by (simp add: dispose_def)

theorem disposed_is_silent_witness:
  "sb_flushed (foldl sb_step (dispose False demo_stream) [Flush, TimerFire]) = sb_flushed (dispose False demo_stream)"
  by (rule disposed_is_silent [OF sb_inv_demo_stream])

end
