(* ===== verification/Registry.thy ===== *)
theory Registry
  imports JsValue JsDict
begin

text \<open>
  The session runtime registry (\<^verbatim>\<open>web/user/src/stores/runtime/registry.js\<close>). Runtime objects are shared
  by reference (a slice's \<^verbatim>\<open>getSibling\<close> keeps its runtime object across a rekey), so they live in a list
  \<open>rg_objs\<close> and the map \<^verbatim>\<open>runtimes\<close> holds references to it. A slice is an opaque reference; what the
  eviction reads of a chat slice is a parameter, the function from references to \<open>chat_view\<close>.
\<close>

section \<open>State\<close>

record runtime =
  rt_key :: string
  rt_sessionId :: "string option"
  rt_slices :: "(string, nat) dict"
  rt_ui :: jsval
  rt_sidebarRowId :: jsval
  rt_lastActiveAt :: int

record registry =
  rg_factories :: "string list"
  rg_objs :: "runtime list"
  rg_runtimes :: "(string, nat) dict"
  rg_aliases :: "(string, string) dict"
  rg_drafts :: nat
  rg_slices :: nat
  rg_activeKey :: string

text \<open>What \<^verbatim>\<open>evictIfNeeded\<close> reads of \<^verbatim>\<open>rt.slices.chat.getState()\<close>.\<close>

record chat_view =
  cv_isStreaming :: bool
  cv_pendingPermission :: bool
  cv_pendingAskUser :: bool
  cv_pendingPlanApproval :: bool
  cv_permissionQueue :: nat

datatype registry_error = NoSliceFactory string

definition draft_key :: "nat \<Rightarrow> string" where
  "draft_key n = ''draft-'' @ show_nat n"

definition createRuntimeObject :: "int \<Rightarrow> string \<Rightarrow> runtime" where
  "createRuntimeObject now key =
     \<lparr>rt_key = key, rt_sessionId = (if prefix ''draft-'' key then None else Some key), rt_slices = dempty,
      rt_ui = JNull, rt_sidebarRowId = JNull, rt_lastActiveAt = now\<rparr>"

definition init_registry :: "int \<Rightarrow> registry" where
  "init_registry now =
     \<lparr>rg_factories = [], rg_objs = [createRuntimeObject now (draft_key 1)],
      rg_runtimes = dset (draft_key 1) 0 dempty, rg_aliases = dempty, rg_drafts = 1, rg_slices = 0,
      rg_activeKey = draft_key 1\<rparr>"

section \<open>Operations\<close>

definition registerSliceFactory :: "string \<Rightarrow> registry \<Rightarrow> registry" where
  "registerSliceFactory name g = g\<lparr>rg_factories := push_new name (rg_factories g)\<rparr>"

fun resolve_hops :: "nat \<Rightarrow> (string, string) dict \<Rightarrow> string \<Rightarrow> string" where
  "resolve_hops 0 aliases current = current"
| "resolve_hops (Suc n) aliases current =
     (case dget aliases current of
        None \<Rightarrow> current
      | Some nxt \<Rightarrow> if nxt = current then current else resolve_hops n aliases nxt)"

definition resolveKey :: "registry \<Rightarrow> string \<Rightarrow> string" where
  "resolveKey g key = resolve_hops 8 (rg_aliases g) key"

definition hasRuntime :: "registry \<Rightarrow> string \<Rightarrow> bool" where
  "hasRuntime g key \<longleftrightarrow> dget (rg_runtimes g) (resolveKey g key) \<noteq> None"

definition getRuntime :: "registry \<Rightarrow> string \<Rightarrow> nat option" where
  "getRuntime g key = dget (rg_runtimes g) (resolveKey g key)"

definition listRuntimes :: "registry \<Rightarrow> nat list" where
  "listRuntimes g = dvals (rg_runtimes g)"

definition add_runtime :: "int \<Rightarrow> string \<Rightarrow> registry \<Rightarrow> registry" where
  "add_runtime now key g =
     g\<lparr>rg_objs := rg_objs g @ [createRuntimeObject now key],
       rg_runtimes := dset key (length (rg_objs g)) (rg_runtimes g)\<rparr>"

definition ensureRuntime :: "int \<Rightarrow> string \<Rightarrow> registry \<Rightarrow> nat \<times> registry" where
  "ensureRuntime now key g =
     (let canonical = resolveKey g key
      in case dget (rg_runtimes g) canonical of
           Some r \<Rightarrow> (r, g)
         | None \<Rightarrow> (length (rg_objs g), add_runtime now canonical g))"

definition put_obj :: "nat \<Rightarrow> runtime \<Rightarrow> registry \<Rightarrow> registry" where
  "put_obj r rt g = g\<lparr>rg_objs := (rg_objs g)[r := rt]\<rparr>"

definition getSlice :: "int \<Rightarrow> string \<Rightarrow> string \<Rightarrow> registry \<Rightarrow> (registry_error + nat) \<times> registry" where
  "getSlice now key name g0 =
     (let (r, g) = ensureRuntime now key g0; rt = rg_objs g ! r
      in case dget (rt_slices rt) name of
           Some slice \<Rightarrow> (Inr slice, g)
         | None \<Rightarrow>
             if name \<notin> set (rg_factories g) then (Inl (NoSliceFactory name), g)
             else (Inr (rg_slices g),
                   (put_obj r (rt\<lparr>rt_slices := dset name (rg_slices g) (rt_slices rt)\<rparr>) g)
                     \<lparr>rg_slices := Suc (rg_slices g)\<rparr>))"

text \<open>The closure a slice gets: it looks its sibling up under the present key of its runtime object.\<close>

definition getSibling :: "int \<Rightarrow> nat \<Rightarrow> string \<Rightarrow> registry \<Rightarrow> (registry_error + nat) \<times> registry" where
  "getSibling now r siblingName g = getSlice now (rt_key (rg_objs g ! r)) siblingName g"

definition setActiveKey :: "int \<Rightarrow> string \<Rightarrow> registry \<Rightarrow> registry" where
  "setActiveKey now key g0 =
     (let (r, g) = ensureRuntime now key g0
      in (put_obj r ((rg_objs g ! r)\<lparr>rt_lastActiveAt := now\<rparr>) g)\<lparr>rg_activeKey := rt_key (rg_objs g ! r)\<rparr>)"

definition newDraftRuntime :: "int \<Rightarrow> registry \<Rightarrow> string \<times> registry" where
  "newDraftRuntime now g =
     (let n = Suc (rg_drafts g); key = draft_key n
      in (key, setActiveKey now key (add_runtime now key (g\<lparr>rg_drafts := n\<rparr>))))"

definition repoint :: "string \<Rightarrow> string \<Rightarrow> (string, string) dict \<Rightarrow> (string, string) dict" where
  "repoint from to aliases = dmap (\<lambda>alias target. if target = from then to else target) aliases"

definition rekeyRuntime :: "string \<Rightarrow> string \<Rightarrow> registry \<Rightarrow> nat option \<times> registry" where
  "rekeyRuntime oldKey sessionId g =
     (case dget (rg_runtimes g) (resolveKey g oldKey) of
        None \<Rightarrow> (None, g)
      | Some r \<Rightarrow>
          (let rt = rg_objs g ! r; fromKey = rt_key rt
           in if sessionId = [] \<or> fromKey = sessionId then (Some r, g)
              else (Some r,
                (put_obj r (rt\<lparr>rt_key := sessionId, rt_sessionId := Some sessionId\<rparr>) g)
                  \<lparr>rg_runtimes := dset sessionId r (ddel fromKey (ddel sessionId (rg_runtimes g))),
                   rg_aliases := ddel sessionId (dset fromKey sessionId (repoint fromKey sessionId (rg_aliases g))),
                   rg_activeKey := (if rg_activeKey g = fromKey then sessionId else rg_activeKey g)\<rparr>)))"

definition drop_aliases_to :: "string \<Rightarrow> (string, string) dict \<Rightarrow> (string, string) dict" where
  "drop_aliases_to key aliases = filter (\<lambda>(alias, target). target \<noteq> key) aliases"

definition forget_runtime :: "string \<Rightarrow> registry \<Rightarrow> registry" where
  "forget_runtime key g =
     g\<lparr>rg_runtimes := ddel key (rg_runtimes g), rg_aliases := drop_aliases_to key (rg_aliases g)\<rparr>"

definition removeRuntime :: "int \<Rightarrow> string \<Rightarrow> registry \<Rightarrow> registry" where
  "removeRuntime now key g =
     (let canonical = resolveKey g key
      in if dget (rg_runtimes g) canonical = None then g
         else (let g1 = forget_runtime canonical g
               in if rg_activeKey g1 = canonical then snd (newDraftRuntime now g1) else g1))"

definition RETAINED_RUNTIME_CAP :: nat where
  "RETAINED_RUNTIME_CAP = 8"

definition evictable :: "(nat \<Rightarrow> chat_view) \<Rightarrow> runtime \<Rightarrow> bool" where
  "evictable chat rt =
     (case dget (rt_slices rt) ''chat'' of
        None \<Rightarrow> True
      | Some slice \<Rightarrow>
          (let c = chat slice
           in if cv_isStreaming c then False
              else \<not> (cv_pendingPermission c \<or> cv_pendingAskUser c \<or> cv_pendingPlanApproval c
                      \<or> cv_permissionQueue c > 0)))"

definition evict_candidates :: "(nat \<Rightarrow> chat_view) \<Rightarrow> registry \<Rightarrow> runtime list" where
  "evict_candidates chat g =
     sort_key rt_lastActiveAt
       (filter (evictable chat)
         (filter (\<lambda>rt. rt_key rt \<noteq> rg_activeKey g) (map ((!) (rg_objs g)) (dvals (rg_runtimes g)))))"

fun evict_loop :: "nat \<Rightarrow> runtime list \<Rightarrow> registry \<Rightarrow> registry" where
  "evict_loop cap [] g = g"
| "evict_loop cap (rt # rts) g =
     (if length (rg_runtimes g) \<le> cap then g else evict_loop cap rts (forget_runtime (rt_key rt) g))"

definition evictIfNeeded :: "nat \<Rightarrow> (nat \<Rightarrow> chat_view) \<Rightarrow> registry \<Rightarrow> registry" where
  "evictIfNeeded cap chat g =
     (if length (rg_runtimes g) \<le> cap then g else evict_loop cap (evict_candidates chat g) g)"

text \<open>The chat slices whose \<^verbatim>\<open>streamAbort\<close> a logout calls, and the registry it leaves.\<close>

definition resetAllRuntimes :: "int \<Rightarrow> registry \<Rightarrow> nat list \<times> registry" where
  "resetAllRuntimes now g =
     (List.map_filter (\<lambda>r. dget (rt_slices (rg_objs g ! r)) ''chat'') (dvals (rg_runtimes g)),
      snd (newDraftRuntime now (g\<lparr>rg_runtimes := dempty, rg_aliases := dempty\<rparr>)))"

section \<open>The machine\<close>

datatype rg_event =
    RegisterFactory string
  | Ensure int string
  | GetSlice int string string
  | SetActive int string
  | NewDraft int
  | Rekey string string
  | Remove int string
  | Evict nat "nat \<Rightarrow> chat_view"
  | ResetAll int

fun rg_step :: "registry \<Rightarrow> rg_event \<Rightarrow> registry" where
  "rg_step g (RegisterFactory name) = registerSliceFactory name g"
| "rg_step g (Ensure now key) = snd (ensureRuntime now key g)"
| "rg_step g (GetSlice now key name) = snd (getSlice now key name g)"
| "rg_step g (SetActive now key) = setActiveKey now key g"
| "rg_step g (NewDraft now) = snd (newDraftRuntime now g)"
| "rg_step g (Rekey oldKey sessionId) = snd (rekeyRuntime oldKey sessionId g)"
| "rg_step g (Remove now key) = removeRuntime now key g"
| "rg_step g (Evict cap chat) = evictIfNeeded cap chat g"
| "rg_step g (ResetAll now) = snd (resetAllRuntimes now g)"

text \<open>
  The discipline of the callers: a key of the form \<^verbatim>\<open>draft-<n>\<close> is one the registry has minted, and a
  session id is never of that form.
\<close>

definition known_key :: "nat \<Rightarrow> string \<Rightarrow> bool" where
  "known_key n key \<longleftrightarrow> \<not> prefix ''draft-'' key \<or> key \<in> set (map draft_key [0..<Suc n])"

fun rg_ok :: "registry \<Rightarrow> rg_event \<Rightarrow> bool" where
  "rg_ok g (Ensure now key) = known_key (rg_drafts g) key"
| "rg_ok g (GetSlice now key name) = known_key (rg_drafts g) key"
| "rg_ok g (SetActive now key) = known_key (rg_drafts g) key"
| "rg_ok g (Rekey oldKey sessionId) = (\<not> prefix ''draft-'' sessionId)"
| "rg_ok g _ = True"

section \<open>The invariant\<close>

text \<open>
  Every live runtime is filed under its own key; the active key is live; an alias points to a live key
  and is not itself live; every draft key in use has been minted.
\<close>

definition rt_session_ok :: "runtime \<Rightarrow> bool" where
  "rt_session_ok rt \<longleftrightarrow> rt_sessionId rt = (if prefix ''draft-'' (rt_key rt) then None else Some (rt_key rt))"

definition runtimes_ok :: "runtime list \<Rightarrow> (string, nat) dict \<Rightarrow> bool" where
  "runtimes_ok objs m \<longleftrightarrow>
     (\<forall>k r. dget m k = Some r \<longrightarrow> r < length objs \<and> rt_key (objs ! r) = k \<and> rt_session_ok (objs ! r))"

definition rg_inv :: "registry \<Rightarrow> bool" where
  "rg_inv g \<longleftrightarrow> dwf (rg_runtimes g) \<and> dwf (rg_aliases g)
     \<and> runtimes_ok (rg_objs g) (rg_runtimes g)
     \<and> dget (rg_runtimes g) (rg_activeKey g) \<noteq> None
     \<and> (\<forall>k t. dget (rg_aliases g) k = Some t \<longrightarrow> dget (rg_runtimes g) t \<noteq> None \<and> dget (rg_runtimes g) k = None)
     \<and> (\<forall>k. dget (rg_runtimes g) k \<noteq> None \<or> dget (rg_aliases g) k \<noteq> None \<longrightarrow> known_key (rg_drafts g) k)"

text \<open>The invariant without the active key, which holds between the two halves of a removal.\<close>

definition rg_inv0 :: "registry \<Rightarrow> bool" where
  "rg_inv0 g \<longleftrightarrow> dwf (rg_runtimes g) \<and> dwf (rg_aliases g)
     \<and> runtimes_ok (rg_objs g) (rg_runtimes g)
     \<and> (\<forall>k t. dget (rg_aliases g) k = Some t \<longrightarrow> dget (rg_runtimes g) t \<noteq> None \<and> dget (rg_runtimes g) k = None)
     \<and> (\<forall>k. dget (rg_runtimes g) k \<noteq> None \<or> dget (rg_aliases g) k \<noteq> None \<longrightarrow> known_key (rg_drafts g) k)"

lemma rg_inv_iff: "rg_inv g \<longleftrightarrow> rg_inv0 g \<and> dget (rg_runtimes g) (rg_activeKey g) \<noteq> None"
  by (auto simp: rg_inv_def rg_inv0_def)

lemma draft_key_inject [simp]: "draft_key m = draft_key n \<longleftrightarrow> m = n"
  by (simp add: draft_key_def)

lemma draft_key_prefix [simp]: "prefix ''draft-'' (draft_key n)"
  by (simp add: draft_key_def)

lemma known_key_draft [simp]: "known_key n (draft_key m) \<longleftrightarrow> m \<le> n"
  by (auto simp: known_key_def less_Suc_eq_le)

lemma known_key_mono: "known_key n k \<Longrightarrow> n \<le> m \<Longrightarrow> known_key m k"
  by (auto simp: known_key_def)

lemma createRuntimeObject_ok [simp]:
  "rt_key (createRuntimeObject now k) = k" "rt_session_ok (createRuntimeObject now k)"
  by (simp_all add: createRuntimeObject_def rt_session_ok_def)

lemma rg_inv_init: "rg_inv (init_registry now)"
  by (auto simp: rg_inv_def init_registry_def runtimes_ok_def)

lemma runtimes_ok_dempty [simp]: "runtimes_ok objs dempty"
  by (simp add: runtimes_ok_def)

lemma runtimes_ok_append: "runtimes_ok objs m \<Longrightarrow> runtimes_ok (objs @ [rt]) m"
  by (simp add: runtimes_ok_def nth_append less_SucI)

lemma runtimes_ok_dset:
  "runtimes_ok objs m \<Longrightarrow> r < length objs \<Longrightarrow> rt_key (objs ! r) = k \<Longrightarrow> rt_session_ok (objs ! r) \<Longrightarrow>
     runtimes_ok objs (dset k r m)"
  by (simp add: runtimes_ok_def)

lemma runtimes_ok_ddel: "runtimes_ok objs m \<Longrightarrow> runtimes_ok objs (ddel k m)"
  by (simp add: runtimes_ok_def)

lemma runtimes_ok_update:
  "runtimes_ok objs m \<Longrightarrow> rt_key rt = rt_key (objs ! r) \<Longrightarrow> rt_sessionId rt = rt_sessionId (objs ! r) \<Longrightarrow>
     runtimes_ok (objs[r := rt]) m"
proof -
  assume ok: "runtimes_ok objs m" and same: "rt_key rt = rt_key (objs ! r)" "rt_sessionId rt = rt_sessionId (objs ! r)"
  have "rt_key (objs[r := rt] ! q) = rt_key (objs ! q) \<and> rt_session_ok (objs[r := rt] ! q) = rt_session_ok (objs ! q)" for q
    using same by (simp add: nth_upd rt_session_ok_def)
  with ok show ?thesis by (simp add: runtimes_ok_def)
qed

lemma alias_target:
  "rg_inv0 g \<Longrightarrow> dget (rg_aliases g) k = Some t \<Longrightarrow> dget (rg_runtimes g) t \<noteq> None"
  by (simp add: rg_inv0_def)

lemma alias_dead: "rg_inv0 g \<Longrightarrow> dget (rg_runtimes g) k \<noteq> None \<Longrightarrow> dget (rg_aliases g) k = None"
  by (metis rg_inv0_def not_None_eq)

lemma live_runtime:
  "rg_inv0 g \<Longrightarrow> dget (rg_runtimes g) k = Some r \<Longrightarrow>
     r < length (rg_objs g) \<and> rt_key (rg_objs g ! r) = k \<and> rt_session_ok (rg_objs g ! r)"
  by (simp add: rg_inv0_def runtimes_ok_def)

lemma used_known:
  "rg_inv0 g \<Longrightarrow> dget (rg_runtimes g) k \<noteq> None \<or> dget (rg_aliases g) k \<noteq> None \<Longrightarrow> known_key (rg_drafts g) k"
  unfolding rg_inv0_def by blast

text \<open>Aliases resolve in one hop.\<close>

lemma resolve_one_hop:
  assumes "rg_inv0 g"
  shows "resolveKey g k = (case dget (rg_aliases g) k of None \<Rightarrow> k | Some t \<Rightarrow> t)"
proof (cases "dget (rg_aliases g) k")
  case None
  then show ?thesis by (simp add: resolveKey_def numeral_nat)
next
  case (Some t)
  from alias_dead [OF assms alias_target [OF assms Some]] have "dget (rg_aliases g) t = None" .
  with Some show ?thesis by (simp add: resolveKey_def numeral_nat)
qed

lemma resolve_known: "rg_inv0 g \<Longrightarrow> known_key (rg_drafts g) k \<Longrightarrow> known_key (rg_drafts g) (resolveKey g k)"
  using alias_target used_known by (auto simp: resolve_one_hop split: option.split)

lemma resolve_not_alias: "rg_inv0 g \<Longrightarrow> dget (rg_aliases g) (resolveKey g k) = None"
  using alias_target alias_dead by (auto simp: resolve_one_hop split: option.split)

section \<open>Every operation keeps the invariant\<close>

lemma add_runtime_fields [simp]:
  "rg_runtimes (add_runtime now k g) = dset k (length (rg_objs g)) (rg_runtimes g)"
  "rg_objs (add_runtime now k g) = rg_objs g @ [createRuntimeObject now k]"
  "rg_aliases (add_runtime now k g) = rg_aliases g" "rg_drafts (add_runtime now k g) = rg_drafts g"
  "rg_activeKey (add_runtime now k g) = rg_activeKey g" "rg_factories (add_runtime now k g) = rg_factories g"
  "rg_slices (add_runtime now k g) = rg_slices g"
  by (simp_all add: add_runtime_def)

lemma put_obj_fields [simp]:
  "rg_runtimes (put_obj r rt g) = rg_runtimes g" "rg_objs (put_obj r rt g) = (rg_objs g)[r := rt]"
  "rg_aliases (put_obj r rt g) = rg_aliases g" "rg_drafts (put_obj r rt g) = rg_drafts g"
  "rg_activeKey (put_obj r rt g) = rg_activeKey g" "rg_factories (put_obj r rt g) = rg_factories g"
  by (simp_all add: put_obj_def)

lemma add_runtime_inv0:
  assumes inv: "rg_inv0 g" and known: "known_key (rg_drafts g) k" and free: "dget (rg_aliases g) k = None"
  shows "rg_inv0 (add_runtime now k g)"
proof -
  have "runtimes_ok (rg_objs g @ [createRuntimeObject now k]) (dset k (length (rg_objs g)) (rg_runtimes g))"
    using inv by (intro runtimes_ok_dset runtimes_ok_append) (simp_all add: rg_inv0_def)
  with inv known free show ?thesis by (auto simp: rg_inv0_def)
qed

lemma put_obj_inv0:
  assumes inv: "rg_inv0 g" and "rt_key rt = rt_key (rg_objs g ! r)" and "rt_sessionId rt = rt_sessionId (rg_objs g ! r)"
  shows "rg_inv0 (put_obj r rt g)"
  using assms by (simp add: rg_inv0_def runtimes_ok_update)

lemma forget_fields [simp]:
  "rg_runtimes (forget_runtime k g) = ddel k (rg_runtimes g)" "rg_objs (forget_runtime k g) = rg_objs g"
  "rg_drafts (forget_runtime k g) = rg_drafts g" "rg_activeKey (forget_runtime k g) = rg_activeKey g"
  "rg_aliases (forget_runtime k g) = drop_aliases_to k (rg_aliases g)"
  "rg_factories (forget_runtime k g) = rg_factories g"
  by (simp_all add: forget_runtime_def)

lemma dget_drop_aliases:
  "dwf m \<Longrightarrow> dget (drop_aliases_to key m) k = (case dget m k of None \<Rightarrow> None | Some t \<Rightarrow> if t = key then None else Some t)"
  by (induction m) (auto simp: drop_aliases_to_def dwf_def dget_def map_of_eq_None_iff image_iff split: option.split)

lemma forget_inv0:
  assumes inv: "rg_inv0 g"
  shows "rg_inv0 (forget_runtime k g)"
proof -
  have wf: "dwf (rg_aliases g)" using inv by (simp add: rg_inv0_def)
  have "dget (drop_aliases_to k (rg_aliases g)) a = Some t \<longleftrightarrow> dget (rg_aliases g) a = Some t \<and> t \<noteq> k" for a t
    using wf by (auto simp: dget_drop_aliases split: option.splits)
  moreover have "dwf (drop_aliases_to k (rg_aliases g))" using wf by (simp add: drop_aliases_to_def dwf_filter)
  ultimately show ?thesis using inv unfolding rg_inv0_def by (simp add: runtimes_ok_ddel) blast
qed

text \<open>\<open>ensureRuntime\<close> gives the reference of the runtime filed under the canonical key.\<close>

lemma ensureRuntime_spec:
  fixes now :: int
  assumes inv: "rg_inv0 g" and known: "known_key (rg_drafts g) key"
  defines "g' \<equiv> snd (ensureRuntime now key g)" and "r \<equiv> fst (ensureRuntime now key g)"
  shows "rg_inv0 g'" and "dget (rg_runtimes g') (resolveKey g key) = Some r"
    and "rg_activeKey g' = rg_activeKey g" and "rg_aliases g' = rg_aliases g"
    and "rg_drafts g' = rg_drafts g" and "rg_factories g' = rg_factories g" and "rg_slices g' = rg_slices g"
    and "dget (rg_runtimes g) k = Some q \<Longrightarrow> dget (rg_runtimes g') k = Some q"
  using add_runtime_inv0 [OF inv resolve_known [OF inv known] resolve_not_alias [OF inv]] inv
  by (simp_all add: g'_def r_def ensureRuntime_def Let_def split: option.split) auto

lemma setActiveKey_inv:
  assumes inv: "rg_inv0 g" and known: "known_key (rg_drafts g) key"
  shows "rg_inv (setActiveKey now key g) \<and> rg_activeKey (setActiveKey now key g) = resolveKey g key"
proof -
  let ?g = "snd (ensureRuntime now key g)" and ?r = "fst (ensureRuntime now key g)"
  note spec = ensureRuntime_spec [OF inv known]
  have key: "rt_key (rg_objs ?g ! ?r) = resolveKey g key" using live_runtime [OF spec(1,2)] by simp
  have "rg_inv0 (put_obj ?r ((rg_objs ?g ! ?r)\<lparr>rt_lastActiveAt := now\<rparr>) ?g)"
    using spec(1) by (rule put_obj_inv0) simp_all
  then have "rg_inv0 (setActiveKey now key g)"
    by (simp add: setActiveKey_def Let_def case_prod_unfold rg_inv0_def)
  then show ?thesis using spec(2) key
    by (simp add: rg_inv_iff setActiveKey_def Let_def case_prod_unfold)
qed

lemma rg_inv0_mono_drafts: "rg_inv0 g \<Longrightarrow> rg_drafts g \<le> n \<Longrightarrow> rg_inv0 (g\<lparr>rg_drafts := n\<rparr>)"
  using known_key_mono unfolding rg_inv0_def by simp blast

lemma newDraft_inv:
  assumes inv: "rg_inv0 g"
  shows "rg_inv (snd (newDraftRuntime now g))"
    and "rg_activeKey (snd (newDraftRuntime now g)) = fst (newDraftRuntime now g)"
    and "dget (rg_runtimes g) (fst (newDraftRuntime now g)) = None"
proof -
  let ?k = "draft_key (Suc (rg_drafts g))" and ?g = "g\<lparr>rg_drafts := Suc (rg_drafts g)\<rparr>"
  have fresh: "dget (rg_runtimes g) ?k = None" "dget (rg_aliases g) ?k = None"
    using used_known [OF inv, of ?k] by (metis known_key_draft not_less_eq_eq order_refl)+
  have inv1: "rg_inv0 (add_runtime now ?k ?g)"
    using rg_inv0_mono_drafts [OF inv, of "Suc (rg_drafts g)"] fresh by (intro add_runtime_inv0) simp_all
  note act = setActiveKey_inv [OF inv1, of ?k now]
  have "resolveKey (add_runtime now ?k ?g) ?k = ?k" using fresh by (simp add: resolve_one_hop [OF inv1])
  with act fresh show "rg_inv (snd (newDraftRuntime now g))"
    and "rg_activeKey (snd (newDraftRuntime now g)) = fst (newDraftRuntime now g)"
    and "dget (rg_runtimes g) (fst (newDraftRuntime now g)) = None"
    by (simp_all add: newDraftRuntime_def Let_def)
qed

lemma repoint_get:
  "dget (repoint from to m) k = map_option (\<lambda>t. if t = from then to else t) (dget m k)"
  by (simp add: repoint_def)

lemma rekey_inv:
  assumes inv: "rg_inv g" and sid: "\<not> prefix ''draft-'' sid"
  shows "rg_inv (snd (rekeyRuntime oldKey sid g))"
proof (cases "dget (rg_runtimes g) (resolveKey g oldKey)")
  case None
  then show ?thesis using inv by (simp add: rekeyRuntime_def)
next
  case (Some r)
  let ?rt = "rg_objs g ! r"
  let ?rt' = "?rt\<lparr>rt_key := sid, rt_sessionId := Some sid\<rparr>"
  let ?m = "ddel (rt_key ?rt) (ddel sid (rg_runtimes g))"
  from inv have inv0: "rg_inv0 g" and act: "dget (rg_runtimes g) (rg_activeKey g) \<noteq> None"
    by (auto simp: rg_inv_iff)
  from live_runtime [OF inv0 Some] have r: "r < length (rg_objs g)" "rt_key ?rt = resolveKey g oldKey" by auto
  show ?thesis
  proof (cases "sid = [] \<or> rt_key ?rt = sid")
    case True
    then show ?thesis using Some inv by (simp add: rekeyRuntime_def Let_def)
  next
    case False
    let ?g = "snd (rekeyRuntime oldKey sid g)"
    have objs: "rg_objs ?g = (rg_objs g)[r := ?rt']" and
      rts: "rg_runtimes ?g = dset sid r ?m" and
      als: "rg_aliases ?g = ddel sid (dset (rt_key ?rt) sid (repoint (rt_key ?rt) sid (rg_aliases g)))" and
      actv: "rg_activeKey ?g = (if rg_activeKey g = rt_key ?rt then sid else rg_activeKey g)" and
      drafts: "rg_drafts ?g = rg_drafts g"
      using Some False by (simp_all add: rekeyRuntime_def Let_def)
    have others: "q \<noteq> r" if "dget ?m k = Some q" for k q
      using that live_runtime [OF inv0, of k q] by (auto split: if_splits)
    have "runtimes_ok ((rg_objs g)[r := ?rt']) ?m"
      using others inv0 by (auto simp: runtimes_ok_def nth_upd rg_inv0_def)
    then have "runtimes_ok (rg_objs ?g) (rg_runtimes ?g)"
      unfolding objs rts using r sid by (intro runtimes_ok_dset) (simp_all add: rt_session_ok_def)
    moreover have "dget (rg_runtimes ?g) t \<noteq> None \<and> dget (rg_runtimes ?g) k = None"
      if k: "dget (rg_aliases ?g) k = Some t" for k t
    proof (cases "k = rt_key ?rt")
      case True
      with k False have "t = sid" by (simp add: als)
      with True False show ?thesis unfolding rts by simp
    next
      case other: False
      have "k \<noteq> sid" using k by (auto simp: als)
      with other k have m: "map_option (\<lambda>t. if t = rt_key ?rt then sid else t) (dget (rg_aliases g) k) = Some t"
        by (simp add: als repoint_get)
      then obtain t0 where t0: "dget (rg_aliases g) k = Some t0" and t: "t = (if t0 = rt_key ?rt then sid else t0)"
        by (cases "dget (rg_aliases g) k") simp_all
      have "dget (rg_runtimes g) k = None" using alias_dead [OF inv0, of k] t0 by (cases "dget (rg_runtimes g) k") auto
      with alias_target [OF inv0 t0] t \<open>k \<noteq> sid\<close> show ?thesis by (auto simp: rts)
    qed
    moreover have "known_key (rg_drafts g) k"
      if "dget (rg_runtimes ?g) k \<noteq> None \<or> dget (rg_aliases ?g) k \<noteq> None" for k
    proof (cases "k = sid \<or> k = rt_key ?rt")
      case True
      then show ?thesis using sid used_known [OF inv0, of "rt_key ?rt"] Some r by (auto simp: known_key_def)
    next
      case other: False
      with that show ?thesis by (intro used_known [OF inv0]) (auto simp: rts als repoint_get)
    qed
    moreover have "dwf (rg_runtimes ?g) \<and> dwf (rg_aliases ?g)"
      using inv0 by (simp add: rts als repoint_def rg_inv0_def)
    moreover have "dget (rg_runtimes ?g) (rg_activeKey ?g) \<noteq> None" using act by (simp add: rts actv)
    ultimately show ?thesis unfolding rg_inv_def drafts by blast
  qed
qed

lemma remove_inv:
  assumes inv: "rg_inv g"
  shows "rg_inv (removeRuntime now key g)"
proof -
  from inv have inv0: "rg_inv0 g" and act: "dget (rg_runtimes g) (rg_activeKey g) \<noteq> None"
    by (auto simp: rg_inv_iff)
  note newDraft_inv(1) [OF forget_inv0 [OF inv0, of "resolveKey g key"], of now]
  moreover have "rg_inv (forget_runtime (resolveKey g key) g)" if "rg_activeKey g \<noteq> resolveKey g key"
    using that act forget_inv0 [OF inv0] by (simp add: rg_inv_iff)
  ultimately show ?thesis using inv by (simp add: removeRuntime_def Let_def)
qed

lemma evict_loop_inv:
  "rg_inv g \<Longrightarrow> (\<And>rt. rt \<in> set rts \<Longrightarrow> rt_key rt \<noteq> rg_activeKey g) \<Longrightarrow> rg_inv (evict_loop cap rts g)"
proof (induction rts arbitrary: g)
  case Nil
  then show ?case by simp
next
  case (Cons rt rts)
  from Cons.prems have "rg_inv (forget_runtime (rt_key rt) g)"
    using forget_inv0 [of g] by (simp add: rg_inv_iff) metis
  then show ?case using Cons by simp
qed

lemma evict_candidates_mem:
  "rt \<in> set (evict_candidates chat g) \<longleftrightarrow>
     (\<exists>r \<in> set (dvals (rg_runtimes g)). rt = rg_objs g ! r) \<and> rt_key rt \<noteq> rg_activeKey g \<and> evictable chat rt"
  by (auto simp: evict_candidates_def)

lemma evict_inv: "rg_inv g \<Longrightarrow> rg_inv (evictIfNeeded cap chat g)"
  unfolding evictIfNeeded_def by (auto simp: evict_candidates_mem intro: evict_loop_inv)

lemma getSlice_inv:
  assumes inv: "rg_inv g" and known: "known_key (rg_drafts g) key"
  shows "rg_inv (snd (getSlice now key name g))"
proof -
  from inv have inv0: "rg_inv0 g" by (simp add: rg_inv_iff)
  let ?g = "snd (ensureRuntime now key g)"
  note spec = ensureRuntime_spec [OF inv0 known, where now = now]
  have "rg_inv ?g" using spec inv by (auto simp: rg_inv_iff)
  moreover have "rg_inv0 (put_obj r ((rg_objs ?g ! r)\<lparr>rt_slices := d\<rparr>) ?g)" for r d
    using spec(1) by (rule put_obj_inv0) simp_all
  ultimately show ?thesis
    by (simp add: getSlice_def Let_def case_prod_unfold rg_inv_iff rg_inv0_def split: option.split)
qed

lemma resetAll_inv: "rg_inv g \<Longrightarrow> rg_inv (snd (resetAllRuntimes now g))"
  by (simp add: resetAllRuntimes_def newDraft_inv rg_inv0_def)

lemma rg_step_inv: "rg_inv g \<Longrightarrow> rg_ok g e \<Longrightarrow> rg_inv (rg_step g e)"
proof (cases e)
  case (Ensure now key)
  assume "rg_inv g" "rg_ok g e"
  then show ?thesis using Ensure ensureRuntime_spec [of g key, where now = now] by (auto simp: rg_inv_iff)
next
  case (RegisterFactory name)
  then show "rg_inv g \<Longrightarrow> rg_ok g e \<Longrightarrow> ?thesis" by (simp add: registerSliceFactory_def rg_inv_def)
qed (simp_all add: getSlice_inv setActiveKey_inv rg_inv_iff [THEN iffD1] newDraft_inv rekey_inv remove_inv
    evict_inv resetAll_inv)

interpretation rg: monotone_machine "init_registry now" rg_step rg_ok rg_inv rg_drafts for now
proof unfold_locales
  show "rg_inv (init_registry now)" for now by (rule rg_inv_init)
  show "rg_inv g \<Longrightarrow> rg_ok g e \<Longrightarrow> rg_inv (rg_step g e)" for g e by (rule rg_step_inv)
  have ens: "rg_drafts (snd (ensureRuntime now k g)) = rg_drafts g" for now k g
    by (simp add: ensureRuntime_def Let_def split: option.split)
  then have act: "rg_drafts (setActiveKey now k g) = rg_drafts g" for now k g
    by (simp add: setActiveKey_def Let_def case_prod_unfold)
  have loop: "rg_drafts (evict_loop cap rts g) = rg_drafts g" for cap rts g
    by (induction rts arbitrary: g) simp_all
  show "rg_inv g \<Longrightarrow> rg_ok g e \<Longrightarrow> rg_drafts g \<le> rg_drafts (rg_step g e)" for g e
    by (cases e) (simp_all add: ens act loop getSlice_def rekeyRuntime_def removeRuntime_def evictIfNeeded_def
        registerSliceFactory_def newDraftRuntime_def resetAllRuntimes_def Let_def case_prod_unfold split: option.split)
qed

section \<open>Facades\<close>

text \<open>
  \<^verbatim>\<open>makeFacade(name)\<close>: reads and writes go to the slice of the active runtime. A subscription holds the
  slice it is bound to; the registry's listener runs after a change and rebinds it, with one synthetic
  call of the subscriber (recorded as the slice it was called for).
\<close>

definition facade_slice :: "int \<Rightarrow> string \<Rightarrow> registry \<Rightarrow> (registry_error + nat) \<times> registry" where
  "facade_slice now name g = getSlice now (rg_activeKey g) name g"

record facade_sub =
  fs_current :: nat
  fs_fired :: "nat list"

definition facade_subscribe :: "int \<Rightarrow> string \<Rightarrow> registry \<Rightarrow> facade_sub option \<times> registry" where
  "facade_subscribe now name g =
     (case facade_slice now name g of
        (Inl _, g') \<Rightarrow> (None, g')
      | (Inr slice, g') \<Rightarrow> (Some \<lparr>fs_current = slice, fs_fired = []\<rparr>, g'))"

definition facade_listener :: "int \<Rightarrow> string \<Rightarrow> string \<Rightarrow> facade_sub \<times> registry \<Rightarrow> facade_sub \<times> registry" where
  "facade_listener now name prevActiveKey sg =
     (let (sub, g) = sg
      in if rg_activeKey g = prevActiveKey then (sub, g)
         else (case facade_slice now name g of
                 (Inl _, g') \<Rightarrow> (sub, g')
               | (Inr nxt, g') \<Rightarrow>
                   if nxt = fs_current sub then (sub, g')
                   else (\<lparr>fs_current = nxt, fs_fired = fs_fired sub @ [nxt]\<rparr>, g')))"

definition sub_step :: "int \<Rightarrow> string \<Rightarrow> facade_sub \<times> registry \<Rightarrow> rg_event \<Rightarrow> facade_sub \<times> registry" where
  "sub_step now name sg e = facade_listener now name (rg_activeKey (snd sg)) (fst sg, rg_step (snd sg) e)"

definition bound_to_active :: "string \<Rightarrow> facade_sub \<times> registry \<Rightarrow> bool" where
  "bound_to_active name sg \<longleftrightarrow>
     (case dget (rg_runtimes (snd sg)) (rg_activeKey (snd sg)) of
        None \<Rightarrow> False
      | Some r \<Rightarrow> dget (rt_slices (rg_objs (snd sg) ! r)) name = Some (fs_current (fst sg)))"

text \<open>A rekey that puts another runtime under the active key replaces the active slice in place.\<close>

definition replaces_active :: "registry \<Rightarrow> rg_event \<Rightarrow> bool" where
  "replaces_active g e =
     (case e of
        Rekey oldKey sessionId \<Rightarrow>
          sessionId = rg_activeKey g \<and> resolveKey g oldKey \<noteq> sessionId \<and> hasRuntime g oldKey
      | _ \<Rightarrow> False)"

text \<open>What the slices of the active runtime are, as a partial function of the name.\<close>

definition active_slice :: "registry \<Rightarrow> string \<Rightarrow> nat option" where
  "active_slice g name =
     (case dget (rg_runtimes g) (rg_activeKey g) of None \<Rightarrow> None | Some r \<Rightarrow> dget (rt_slices (rg_objs g ! r)) name)"

lemma bound_iff: "bound_to_active name sg \<longleftrightarrow> active_slice (snd sg) name = Some (fs_current (fst sg))"
  by (simp add: bound_to_active_def active_slice_def split: option.split)

lemma slices_update:
  assumes "rg_inv0 g" and "dget (rg_runtimes g) k = Some q"
  shows "q < length (rg_objs g)"
  using live_runtime [OF assms] by simp

lemma ensure_slices:
  assumes inv: "rg_inv0 g" and q: "dget (rg_runtimes g) k = Some q"
  shows "dget (rg_runtimes (snd (ensureRuntime now key g))) k = Some q
     \<and> rg_objs (snd (ensureRuntime now key g)) ! q = rg_objs g ! q"
  using slices_update [OF inv q] q
  by (auto simp: ensureRuntime_def Let_def nth_append split: option.split)

lemma getSlice_slices:
  assumes inv: "rg_inv0 g" and q: "dget (rg_runtimes g) k = Some q"
    and old: "dget (rt_slices (rg_objs g ! q)) n = Some x"
  shows "dget (rg_runtimes (snd (getSlice now key name g))) k = Some q
     \<and> dget (rt_slices (rg_objs (snd (getSlice now key name g)) ! q)) n = Some x"
  using ensure_slices [OF inv q, of now key] old
  by (auto simp: getSlice_def Let_def case_prod_unfold nth_upd put_obj_def split: option.split)

lemma getSlice_result:
  assumes inv: "rg_inv g" and live: "dget (rg_runtimes g) key = Some q" and "name \<in> set (rg_factories g)"
  shows "\<exists>x. fst (getSlice now key name g) = Inr x
     \<and> dget (rg_runtimes (snd (getSlice now key name g))) key = Some q
     \<and> dget (rt_slices (rg_objs (snd (getSlice now key name g)) ! q)) name = Some x
     \<and> rg_activeKey (snd (getSlice now key name g)) = rg_activeKey g"
proof -
  from inv have inv0: "rg_inv0 g" by (simp add: rg_inv_iff)
  have "dget (rg_aliases g) key = None" by (rule alias_dead [OF inv0]) (simp add: live)
  then have "ensureRuntime now key g = (q, g)" using live by (simp add: ensureRuntime_def resolve_one_hop [OF inv0])
  then show ?thesis using assms(3) live slices_update [OF inv0 live]
    by (cases "dget (rt_slices (rg_objs g ! q)) name") (simp_all add: getSlice_def Let_def nth_upd put_obj_def)
qed

lemma setActive_slices:
  assumes inv: "rg_inv0 g" and q: "dget (rg_runtimes g) k = Some q"
  shows "dget (rg_runtimes (setActiveKey now key g)) k = Some q
     \<and> rt_slices (rg_objs (setActiveKey now key g) ! q) = rt_slices (rg_objs g ! q)"
  using ensure_slices [OF inv q, of now key]
  by (auto simp: setActiveKey_def Let_def case_prod_unfold nth_upd)

lemma evict_loop_frame:
  "(\<And>rt. rt \<in> set rts \<Longrightarrow> rt_key rt \<noteq> k) \<Longrightarrow>
     dget (rg_runtimes (evict_loop cap rts g)) k = dget (rg_runtimes g) k"
  by (induction rts arbitrary: g) auto

lemma evict_loop_objs [simp]:
  "rg_objs (evict_loop cap rts g) = rg_objs g" "rg_activeKey (evict_loop cap rts g) = rg_activeKey g"
  by (induction rts arbitrary: g) simp_all

text \<open>An event that leaves the active key and does not replace the runtime under it keeps its slices.\<close>

lemma active_slice_stable:
  assumes inv: "rg_inv g" and ok: "rg_ok g e" and same: "rg_activeKey (rg_step g e) = rg_activeKey g"
    and keep: "\<not> replaces_active g e" and x: "active_slice g name = Some x"
  shows "active_slice (rg_step g e) name = Some x"
proof -
  from inv have inv0: "rg_inv0 g" by (simp add: rg_inv_iff)
  from x obtain q where q: "dget (rg_runtimes g) (rg_activeKey g) = Some q"
    and xs: "dget (rt_slices (rg_objs g ! q)) name = Some x" by (auto simp: active_slice_def split: option.splits)
  have fresh: "rg_activeKey (snd (newDraftRuntime now g')) \<noteq> rg_activeKey g"
    if "rg_inv0 g'" "rg_drafts g' = rg_drafts g" for now g'
  proof
    assume "rg_activeKey (snd (newDraftRuntime now g')) = rg_activeKey g"
    then have "draft_key (Suc (rg_drafts g)) = rg_activeKey g"
      using newDraft_inv(2) [OF that(1), of now] that(2) by (simp add: newDraftRuntime_def Let_def)
    moreover have "known_key (rg_drafts g) (rg_activeKey g)" using used_known [OF inv0] q by auto
    ultimately have "known_key (rg_drafts g) (draft_key (Suc (rg_drafts g)))" by simp
    then show False by simp
  qed
  have "\<exists>q'. dget (rg_runtimes (rg_step g e)) (rg_activeKey g) = Some q'
      \<and> dget (rt_slices (rg_objs (rg_step g e) ! q')) name = Some x"
  proof (cases e)
    case (RegisterFactory n)
    then show ?thesis using q xs by (simp add: registerSliceFactory_def)
  next
    case (Ensure now key)
    then show ?thesis using ensure_slices [OF inv0 q, of now key] xs by simp
  next
    case (GetSlice now key n)
    then show ?thesis using getSlice_slices [OF inv0 q xs, of now key n] by simp
  next
    case (SetActive now key)
    then show ?thesis using setActive_slices [OF inv0 q, of now key] xs by simp
  next
    case (NewDraft now)
    then show ?thesis using same fresh [OF inv0] by simp
  next
    case (Rekey old sid)
    show ?thesis
    proof (cases "getRuntime g old")
      case None
      then show ?thesis using Rekey q xs by (simp add: rekeyRuntime_def getRuntime_def)
    next
      case (Some r)
      then have r: "dget (rg_runtimes g) (resolveKey g old) = Some r" by (simp add: getRuntime_def)
      have rk: "rt_key (rg_objs g ! r) = resolveKey g old" using live_runtime [OF inv0 r] by simp
      have ract: "q = r" if "resolveKey g old = rg_activeKey g" using that r q by simp
      have nrep: "sid \<noteq> rg_activeKey g \<or> resolveKey g old = sid"
        using keep Rekey Some by (auto simp: replaces_active_def hasRuntime_def getRuntime_def)
      show ?thesis
      proof (cases "sid = [] \<or> resolveKey g old = sid")
        case True
        then show ?thesis using Rekey r rk q xs by (simp add: rekeyRuntime_def Let_def)
      next
        case False
        then have step: "rg_step g e = snd (rekeyRuntime old sid g)"
          "rg_activeKey (snd (rekeyRuntime old sid g)) = (if rg_activeKey g = resolveKey g old then sid else rg_activeKey g)"
          "rg_runtimes (snd (rekeyRuntime old sid g)) = dset sid r (ddel (resolveKey g old) (ddel sid (rg_runtimes g)))"
          "rg_objs (snd (rekeyRuntime old sid g)) =
             (rg_objs g)[r := (rg_objs g ! r)\<lparr>rt_key := sid, rt_sessionId := Some sid\<rparr>]"
          using Rekey r rk by (simp_all add: rekeyRuntime_def Let_def)
        from False nrep have "sid \<noteq> rg_activeKey g" by blast
        moreover from this same step(1,2) have "rg_activeKey g \<noteq> resolveKey g old" by auto
        ultimately show ?thesis unfolding step using q xs by (simp add: nth_upd)
      qed
    qed
  next
    case (Remove now key)
    then show ?thesis using same fresh [OF forget_inv0 [OF inv0], of "resolveKey g key" now] q xs
      by (auto simp: removeRuntime_def Let_def split: if_splits)
  next
    case (Evict cap chat)
    have "dget (rg_runtimes (evict_loop cap (evict_candidates chat g) g)) (rg_activeKey g) = Some q"
      using q by (subst evict_loop_frame) (auto simp: evict_candidates_mem)
    then show ?thesis using Evict q xs by (simp add: evictIfNeeded_def)
  next
    case (ResetAll now)
    have "rg_inv0 (g\<lparr>rg_runtimes := dempty, rg_aliases := dempty\<rparr>)" by (simp add: rg_inv0_def)
    from fresh [OF this] show ?thesis using same ResetAll by (simp add: resetAllRuntimes_def)
  qed
  then show ?thesis using same by (auto simp: active_slice_def)
qed

lemma rg_step_factories: "name \<in> set (rg_factories g) \<Longrightarrow> name \<in> set (rg_factories (rg_step g e))"
proof -
  have ens: "rg_factories (snd (ensureRuntime now k g)) = rg_factories g" for now k g
    by (simp add: ensureRuntime_def Let_def split: option.split)
  then have act: "rg_factories (setActiveKey now k g) = rg_factories g" for now k g
    by (simp add: setActiveKey_def Let_def case_prod_unfold)
  have loop: "rg_factories (evict_loop cap rts g) = rg_factories g" for cap rts g
    by (induction rts arbitrary: g) simp_all
  show "name \<in> set (rg_factories g) \<Longrightarrow> ?thesis"
    by (cases e) (simp_all add: ens act loop getSlice_def rekeyRuntime_def removeRuntime_def evictIfNeeded_def
        registerSliceFactory_def newDraftRuntime_def resetAllRuntimes_def Let_def case_prod_unfold split: option.split)
qed

section \<open>Properties\<close>

text \<open>A sequence of events that respects the callers' discipline.\<close>

fun rg_ok_run :: "registry \<Rightarrow> rg_event list \<Rightarrow> bool" where
  "rg_ok_run g [] = True"
| "rg_ok_run g (e # es) = (rg_ok g e \<and> rg_ok_run (rg_step g e) es)"

lemma rg_ok_run_eq: "rg_ok_run g es = rg.ok_run g es"
  by (induction es arbitrary: g) auto

text \<open>
  C6. After every sequence of registry operations that uses only minted draft keys, each runtime is filed
  under its own key, the active key has a live runtime, every alias points to a live runtime and no
  live key is aliased away.
\<close>

theorem registry_invariant:
  assumes "rg_ok_run (init_registry now) es"
  shows "rg_inv (foldl rg_step (init_registry now) es)"
  using rg.run_inv [of now es] assms by (simp add: rg.run_foldl rg_ok_run_eq)

definition demo_registry_events :: "rg_event list" where
  "demo_registry_events =
     [RegisterFactory ''chat'', GetSlice 1 (draft_key 1) ''chat'', Rekey (draft_key 1) ''s1'', NewDraft 2,
      SetActive 3 ''s1'', Remove 4 ''s1'']"

theorem registry_invariant_witness:
  "rg_inv (foldl rg_step (init_registry 0) demo_registry_events)"
  by (rule registry_invariant) code_simp

text \<open>
  C15. Promoting a runtime to a session id keeps its identity: every key that resolved to it, and the
  session id itself, afterwards give the same runtime object; other keys, unless they named the
  stale runtime parked under that id, keep theirs; and the active key follows.
\<close>

theorem rekey_keeps_identity:
  assumes inv: "rg_inv g" and r: "getRuntime g old = Some r"
    and sid: "sid \<noteq> []" "\<not> prefix ''draft-'' sid" "resolveKey g old \<noteq> sid"
  defines "g' \<equiv> snd (rekeyRuntime old sid g)"
  shows "getRuntime g' sid = Some r
    \<and> (\<forall>k. resolveKey g k = resolveKey g old \<longrightarrow> getRuntime g' k = Some r)
    \<and> (\<forall>k. resolveKey g k \<noteq> resolveKey g old \<and> resolveKey g k \<noteq> sid \<and> k \<noteq> sid \<longrightarrow> getRuntime g' k = getRuntime g k)
    \<and> (rg_activeKey g = resolveKey g old \<longrightarrow> rg_activeKey g' = sid)"
proof -
  from inv have inv0: "rg_inv0 g" by (simp add: rg_inv_iff)
  have inv0': "rg_inv0 g'" using rekey_inv [OF inv sid(2)] by (simp add: rg_inv_iff g'_def)
  from r have live: "dget (rg_runtimes g) (resolveKey g old) = Some r" by (simp add: getRuntime_def)
  have rk: "rt_key (rg_objs g ! r) = resolveKey g old" using live_runtime [OF inv0 live] by simp
  have rts: "rg_runtimes g' = dset sid r (ddel (resolveKey g old) (ddel sid (rg_runtimes g)))"
    and als: "rg_aliases g' = ddel sid (dset (resolveKey g old) sid (repoint (resolveKey g old) sid (rg_aliases g)))"
    and act: "rg_activeKey g' = (if rg_activeKey g = resolveKey g old then sid else rg_activeKey g)"
    using live rk sid by (simp_all add: g'_def rekeyRuntime_def Let_def)
  have res': "resolveKey g' k = (if k = sid then sid else if k = resolveKey g old then sid
      else if resolveKey g k = resolveKey g old then sid else resolveKey g k)" for k
    by (simp add: resolve_one_hop [OF inv0'] resolve_one_hop [OF inv0, of k] als repoint_get split: option.split)
  have self: "resolveKey g (resolveKey g old) = resolveKey g old"
    using resolve_not_alias [OF inv0, of old] by (simp add: resolve_one_hop [OF inv0, of "resolveKey g old"])
  show ?thesis using self sid by (auto simp: getRuntime_def res' rts act)
qed

definition demo_registry :: registry where
  "demo_registry = init_registry 0"

lemma demo_registry_inv: "rg_inv demo_registry"
  by (simp add: demo_registry_def rg_inv_init)

theorem rekey_keeps_identity_witness:
  "getRuntime (snd (rekeyRuntime (draft_key 1) ''s1'' demo_registry)) ''s1'' = Some 0
   \<and> rg_activeKey (snd (rekeyRuntime (draft_key 1) ''s1'' demo_registry)) = ''s1''"
proof -
  have "getRuntime demo_registry (draft_key 1) = Some 0" "''s1'' \<noteq> []" "\<not> prefix ''draft-'' ''s1''"
    "resolveKey demo_registry (draft_key 1) \<noteq> ''s1''"
    "rg_activeKey demo_registry = resolveKey demo_registry (draft_key 1)" by code_simp+
  with rekey_keeps_identity [OF demo_registry_inv this(1-4)] show ?thesis by blast
qed



text \<open>
  A facade subscription follows the active session: if it is bound to the active runtime's slice, it is
  still bound to the then-active runtime's slice after any registry event, except a rekey that puts
  another runtime under the key that is active.
\<close>

theorem facade_follows_active:
  assumes inv: "rg_inv g" and ok: "rg_ok g e" and fac: "name \<in> set (rg_factories g)"
    and bound: "bound_to_active name (sub, g)" and keep: "\<not> replaces_active g e"
  shows "bound_to_active name (sub_step now name (sub, g) e)"
proof (cases "rg_activeKey (rg_step g e) = rg_activeKey g")
  case True
  then show ?thesis using active_slice_stable [OF inv ok True keep, of name] bound
    by (simp add: bound_iff sub_step_def facade_listener_def)
next
  case False
  have inv': "rg_inv (rg_step g e)" by (rule rg_step_inv [OF inv ok])
  then obtain q where q: "dget (rg_runtimes (rg_step g e)) (rg_activeKey (rg_step g e)) = Some q"
    by (auto simp: rg_inv_iff)
  from getSlice_result [OF inv' q rg_step_factories [OF fac, of e], of now]
  obtain x where "fst (facade_slice now name (rg_step g e)) = Inr x"
    "active_slice (snd (facade_slice now name (rg_step g e))) name = Some x"
    by (auto simp: facade_slice_def active_slice_def)
  then show ?thesis using False
    by (cases "facade_slice now name (rg_step g e)") (auto simp: bound_iff sub_step_def facade_listener_def)
qed

definition demo_registry2 :: registry where
  "demo_registry2 = foldl rg_step (init_registry 0)
     [RegisterFactory ''chat'', GetSlice 1 (draft_key 1) ''chat'']"

lemma demo_registry2_inv: "rg_inv demo_registry2"
proof -
  have "rg_ok_run (init_registry 0) [RegisterFactory ''chat'', GetSlice 1 (draft_key 1) ''chat'']" by code_simp
  from rg.run_inv [OF this [unfolded rg_ok_run_eq]] show ?thesis by (simp add: demo_registry2_def rg.run_foldl)
qed

theorem facade_follows_active_witness:
  "bound_to_active ''chat'' (sub_step 2 ''chat'' (\<lparr>fs_current = 0, fs_fired = []\<rparr>, demo_registry2) (NewDraft 2))"
  by (rule facade_follows_active [OF demo_registry2_inv]) code_simp+

text \<open>
  The exception is real: a session \<^verbatim>\<open>s1\<close> is active when a draft is promoted to the same id. The active key
  does not change, so the listener does nothing, and the subscription stays on the slice of the
  runtime that was replaced.
\<close>

definition demo_replace_state :: registry where
  "demo_replace_state = foldl rg_step (init_registry 0)
     [RegisterFactory ''chat'', GetSlice 1 (draft_key 1) ''chat'', GetSlice 2 ''s1'' ''chat'', SetActive 3 ''s1'']"

lemma facade_stale_after_replacing_rekey:
  "bound_to_active ''chat'' (\<lparr>fs_current = 1, fs_fired = []\<rparr>, demo_replace_state)
   \<and> replaces_active demo_replace_state (Rekey (draft_key 1) ''s1'')
   \<and> \<not> bound_to_active ''chat''
       (sub_step 4 ''chat'' (\<lparr>fs_current = 1, fs_fired = []\<rparr>, demo_replace_state) (Rekey (draft_key 1) ''s1''))"
  by code_simp

end
