(* ===== verification/SafeStorage.thy ===== *)
theory SafeStorage
  imports JsValue JsDict
begin

text \<open>
  The guarded wrapper of \<^verbatim>\<open>localStorage\<close> (\<^verbatim>\<open>web/shared/utils/safeStorage.js\<close>). Storage may refuse every
  access (Safari private mode) or only writes (quota); no call then throws.
\<close>

record storage =
  st_blocked :: bool
  st_full :: bool
  st_items :: "(string, string) dict"

definition getItem :: "storage \<Rightarrow> string \<Rightarrow> string option" where
  "getItem st key = (if st_blocked st then None else dget (st_items st) key)"

definition setItem :: "string \<Rightarrow> string \<Rightarrow> storage \<Rightarrow> bool \<times> storage" where
  "setItem key val st =
     (if st_blocked st \<or> st_full st then (False, st)
      else (True, st\<lparr>st_items := dset key val (st_items st)\<rparr>))"

definition removeItem :: "string \<Rightarrow> storage \<Rightarrow> bool \<times> storage" where
  "removeItem key st =
     (if st_blocked st then (False, st) else (True, st\<lparr>st_items := ddel key (st_items st)\<rparr>))"

definition getNumber :: "js_env \<Rightarrow> storage \<Rightarrow> string \<Rightarrow> int \<Rightarrow> int option \<Rightarrow> int option \<Rightarrow> int" where
  "getNumber env st key fallback lo hi =
     (case getItem st key of
        None \<Rightarrow> fallback
      | Some raw \<Rightarrow>
          if raw = [] then fallback
          else (case env_str_num env raw of
                  None \<Rightarrow> fallback
                | Some v \<Rightarrow>
                    (let v1 = (case lo of None \<Rightarrow> v | Some l \<Rightarrow> max l v)
                     in case hi of None \<Rightarrow> v1 | Some h \<Rightarrow> min h v1)))"

definition getJSON :: "js_env \<Rightarrow> storage \<Rightarrow> string \<Rightarrow> jsval \<Rightarrow> jsval" where
  "getJSON env st key fallback =
     (case getItem st key of
        None \<Rightarrow> fallback
      | Some raw \<Rightarrow> (case env_parse_json env raw of Some v \<Rightarrow> v | None \<Rightarrow> fallback))"

definition getBoolean :: "storage \<Rightarrow> string \<Rightarrow> bool \<Rightarrow> bool" where
  "getBoolean st key fallback = (case getItem st key of None \<Rightarrow> fallback | Some raw \<Rightarrow> raw = ''true'')"

lemma getItem_setItem:
  "fst (setItem k v st) \<Longrightarrow> getItem (snd (setItem k v st)) k' = (if k' = k then Some v else getItem st k')"
  by (auto simp: setItem_def getItem_def split: if_splits)

lemma setItem_refused: "\<not> fst (setItem k v st) \<Longrightarrow> snd (setItem k v st) = st"
  by (auto simp: setItem_def split: if_splits)

lemma getItem_removeItem:
  "fst (removeItem k st) \<Longrightarrow> getItem (snd (removeItem k st)) k' = (if k' = k then None else getItem st k')"
  by (auto simp: removeItem_def getItem_def split: if_splits)

lemma getNumber_bounds:
  assumes "l \<le> fallback" and "fallback \<le> h" and "l \<le> h"
  shows "l \<le> getNumber env st key fallback (Some l) (Some h) \<and> getNumber env st key fallback (Some l) (Some h) \<le> h"
  using assms by (auto simp: getNumber_def Let_def split: option.split)

lemma getJSON_roundtrip:
  assumes "fst (setItem k (env_stringify env v) st)" and "env_parse_json env (env_stringify env v) = Some v"
  shows "getJSON env (snd (setItem k (env_stringify env v) st)) k fallback = v"
  using assms by (simp add: getJSON_def getItem_setItem)

end
