(* ===== verification/ChatStore.thy ===== *)
theory ChatStore
  imports AgentLifecycle StreamingBlocks SafeStorage Registry
begin

text \<open>
  The chat slice of a session runtime (\<^verbatim>\<open>web/user/src/stores/chatStore.js\<close>). Messages and blocks are
  JavaScript values; \<^verbatim>\<open>subagentContent\<close> maps a parent tool id to its blocks. Updates that the source
  skips to keep object identity (for React) leave the value unchanged and are not distinguished
  here. The content of an assistant message is an array, as every producer of messages makes it;
  where the source would throw on another content the model leaves the message alone. Revoking
  preview URLs has no effect on the state and is not modelled.
\<close>

section \<open>Blocks\<close>

definition CKPT_STORAGE_PREFIX :: string where
  "CKPT_STORAGE_PREFIX = ''priva-ckpt:''"

definition REWIND_STORAGE_PREFIX :: string where
  "REWIND_STORAGE_PREFIX = ''priva-rewind:''"

definition withCid :: "nat \<Rightarrow> jsval \<Rightarrow> jsval \<times> nat" where
  "withCid cidCounter message =
     (if truthy message \<and> \<not> truthy (jget message ''_cid'')
      then (jput message [(''_cid'', JStr (''c-'' @ show_nat (Suc cidCounter)))], Suc cidCounter)
      else (message, cidCounter))"

definition isUnfinishedStreamBlock :: "jsval \<Rightarrow> bool" where
  "isUnfinishedStreamBlock block \<longleftrightarrow>
     is_str (jget block ''_streamState'') \<and> jget block ''_streamState'' \<noteq> JStr ''complete''"

fun applyBlockPatches :: "jsval list \<Rightarrow> sb_patch list \<Rightarrow> jsval list" where
  "applyBlockPatches blocks [] = blocks"
| "applyBlockPatches blocks (patch # patches) =
     (case find_index (\<lambda>block. jget block ''_streamKey'' = JStr (pt_streamKey patch)) blocks of
        Some index \<Rightarrow> applyBlockPatches (blocks[index := jspread (blocks ! index) (pt_block patch)]) patches
      | None \<Rightarrow> applyBlockPatches (blocks @ [pt_block patch]) patches)"

definition mapStreamBlocks :: "(jsval \<Rightarrow> jsval) \<Rightarrow> jsval list \<Rightarrow> jsval list" where
  "mapStreamBlocks mapper blocks =
     filter (\<lambda>block. block \<noteq> JNull)
       (map (\<lambda>block. if isUnfinishedStreamBlock block then mapper block else block) blocks)"

definition timestampToMillis :: "js_env \<Rightarrow> jsval \<Rightarrow> int" where
  "timestampToMillis env v =
     (case v of
        JNum n \<Rightarrow> if n < 1000000000000 then n * 1000 else n
      | _ \<Rightarrow> (case env_date_parse env (to_str (jor v (JStr []))) of Some p \<Rightarrow> p | None \<Rightarrow> env_now env))"


text \<open>The result a running agent row gets: it ends the row unless the agent was only launched.\<close>

definition fresh_agent_result :: "js_env \<Rightarrow> jsval \<Rightarrow> jsval \<Rightarrow> jsval \<Rightarrow> agent_result_info \<Rightarrow> jsval" where
  "fresh_agent_result env block enrichedResult toolUseResult resultInfo =
     (let lifecycle = (if ri_isError resultInfo then LC_failed
            else if ri_isAsync resultInfo then LC_running else LC_completed);
          endTime = env_now env
      in jput block
           ([(''result'', enrichedResult), (''toolUseResult'', jor toolUseResult JUndef),
             (''agentId'', jor (JStr (ri_agentId resultInfo)) (jget block ''agentId'')),
             (''agentTaskStatus'', JStr (lifecycle_str lifecycle)),
             (''status'', JStr (agentLifecycleToBlockStatus lifecycle))] @
            (if lifecycle \<noteq> LC_running
             then [(''endTime'', JNum endTime),
                   (''duration'', if truthy (jget block ''startTime'') then jminus endTime (jget block ''startTime'')
                                  else JNull)]
             else [])))"

definition withAgentToolResult :: "js_env \<Rightarrow> jsval \<Rightarrow> jsval \<Rightarrow> jsval \<Rightarrow> jsval" where
  "withAgentToolResult env block result toolUseResult =
     (let enrichedResult = (if truthy toolUseResult \<and> \<not> truthy (jget result ''tool_use_result'')
            then jput result [(''tool_use_result'', toolUseResult)] else result);
          resultInfo = getAgentResultInfo enrichedResult toolUseResult;
          existing = agentLifecycleFromStatus (jget block ''agentTaskStatus'')
      in if existing \<noteq> None \<and> existing \<noteq> Some LC_running
         then jput block [(''result'', enrichedResult),
                (''toolUseResult'', jor toolUseResult (jget block ''toolUseResult'')),
                (''agentId'', jor (JStr (ri_agentId resultInfo)) (jget block ''agentId''))]
         else fresh_agent_result env block enrichedResult toolUseResult resultInfo)"

text \<open>\<^verbatim>\<open>Math.max(0, endTime - block.startTime)\<close>\<close>

fun nonneg :: "jsval \<Rightarrow> jsval" where
  "nonneg (JNum n) = JNum (max 0 n)"
| "nonneg v = v"

definition notification_matches :: "jsval \<Rightarrow> agent_notif \<Rightarrow> bool" where
  "notification_matches block n \<longleftrightarrow>
     (truthy (an_toolUseId n) \<and> jeq (an_toolUseId n) (jget block ''id''))
     \<or> (truthy (an_taskId n) \<and> getAgentDisplayId block \<noteq> [] \<and> an_taskId n = JStr (getAgentDisplayId block))"

definition notified_block :: "js_env \<Rightarrow> jsval \<Rightarrow> agent_notif \<Rightarrow> lifecycle \<Rightarrow> jsval" where
  "notified_block env block n lifecycle =
     (let endTime = timestampToMillis env (an_timestamp n)
      in jput block
           ([(''agentId'', jor (jor (an_taskId n) (JStr (getAgentDisplayId block))) (jget block ''agentId'')),
             (''agentTaskStatus'', JStr (an_status n)),
             (''agentTaskSummary'', jor (an_summary n) (jget block ''agentTaskSummary'')),
             (''status'', JStr (agentLifecycleToBlockStatus lifecycle))] @
            (if lifecycle \<noteq> LC_running
             then [(''endTime'', JNum endTime),
                   (''duration'', if truthy (jget block ''startTime'')
                                  then nonneg (jminus endTime (jget block ''startTime'')) else jget block ''duration'')]
             else [])))"

definition applyAgentNotificationToBlock :: "js_env \<Rightarrow> jsval \<Rightarrow> jsval \<Rightarrow> jsval" where
  "applyAgentNotificationToBlock env block rawNotification =
     (if jget block ''type'' \<noteq> JStr ''tool_use'' \<or> \<not> isAgentToolName (jget block ''name'') then block
      else case normalizeAgentTaskNotification rawNotification of
             None \<Rightarrow> block
           | Some n \<Rightarrow>
               if \<not> notification_matches block n then block
               else (case agentLifecycleFromStatus (JStr (an_status n)) of
                       None \<Rightarrow> block
                     | Some lifecycle \<Rightarrow> notified_block env block n lifecycle))"

definition tool_running :: "jsval \<Rightarrow> bool" where
  "tool_running block \<longleftrightarrow> jget block ''type'' = JStr ''tool_use''
     \<and> (\<not> truthy (jget block ''status'') \<or> jget block ''status'' = JStr ''running'')"

definition elapsed :: "js_env \<Rightarrow> jsval \<Rightarrow> jsval" where
  "elapsed env block =
     (if truthy (jget block ''startTime'') then jminus (env_now env) (jget block ''startTime'') else JNull)"

definition error_result :: "string \<Rightarrow> jsval" where
  "error_result content = JObj [(''is_error'', JBool True), (''content'', JStr content)]"

definition abortRunningBlock :: "js_env \<Rightarrow> jsval \<Rightarrow> jsval \<Rightarrow> jsval" where
  "abortRunningBlock env agentTaskStatus block =
     (if \<not> tool_running block then block
      else if isAgentToolName (jget block ''name'')
      then (let lifecycle = (case agentLifecycleFromStatus agentTaskStatus of Some l \<Rightarrow> l | None \<Rightarrow> LC_terminated)
            in jput block
                 [(''status'', JStr (agentLifecycleToBlockStatus lifecycle)), (''agentTaskStatus'', agentTaskStatus),
                  (''result'', error_result (if agentTaskStatus = JStr ''failed'' then ''Failed'' else ''Aborted'')),
                  (''duration'', elapsed env block)])
      else jput block [(''status'', JStr ''error''), (''result'', error_result ''Aborted''),
             (''duration'', elapsed env block)])"

section \<open>State\<close>

record chat =
  c_messages :: "jsval list"
  c_subagentContent :: "(string, jsval list) dict"
  c_sessionId :: jsval
  c_runMode :: jsval
  c_runModeLocked :: bool
  c_promptSuggestion :: jsval
  c_recap :: jsval
  c_recapTurns :: int
  c_recapDismissed :: bool
  c_inputText :: jsval
  c_isStreaming :: jsval
  c_isCompacting :: jsval
  c_streamAbort :: jsval
  c_pendingAskUser :: jsval
  c_streamId :: jsval
  c_pendingPermission :: jsval
  c_permissionQueue :: "jsval list"
  c_permissionMode :: jsval
  c_mcpServers :: jsval
  c_cwdDraft :: jsval
  c_addDirs :: "jsval list"
  c_pendingPlanApproval :: jsval
  c_wsSendPermission :: jsval
  c_queuedUserMessages :: "jsval list"
  c_queueSender :: jsval
  c_attachments :: "jsval list"
  c_quotedText :: jsval
  c_fileReference :: jsval
  c_fileReferenceTemplate :: jsval
  c_selectedXlsxReference :: jsval
  c_selectedFileReference :: jsval
  c_enableFileCheckpointing :: jsval
  c_checkpoints :: "jsval list"
  c_forkParentId :: jsval
  c_rewindMarker :: jsval
  c_retryState :: jsval
  c_lastUserPrompt :: jsval
  c_streamGeneration :: nat
  c_quickActionVariableMode :: jsval
  c_pendingOptimize :: jsval
  c_pendingComposerSend :: jsval

definition createChatStore :: chat where
  "createChatStore = \<lparr>
     c_messages = [], c_subagentContent = dempty, c_sessionId = JNull, c_runMode = JNull, c_runModeLocked = False,
     c_promptSuggestion = JNull, c_recap = JNull, c_recapTurns = 0, c_recapDismissed = False,
     c_inputText = JStr [], c_isStreaming = JBool False, c_isCompacting = JBool False, c_streamAbort = JNull,
     c_pendingAskUser = JNull, c_streamId = JNull, c_pendingPermission = JNull, c_permissionQueue = [],
     c_permissionMode = JStr ''bypassPermissions'', c_mcpServers = JStr ''auto'', c_cwdDraft = JNull, c_addDirs = [],
     c_pendingPlanApproval = JNull, c_wsSendPermission = JNull, c_queuedUserMessages = [], c_queueSender = JNull,
     c_attachments = [], c_quotedText = JNull, c_fileReference = JNull, c_fileReferenceTemplate = JNull,
     c_selectedXlsxReference = JNull, c_selectedFileReference = JNull, c_enableFileCheckpointing = JBool False,
     c_checkpoints = [], c_forkParentId = JNull, c_rewindMarker = JNull, c_retryState = JNull,
     c_lastUserPrompt = JNull, c_streamGeneration = 0, c_quickActionVariableMode = JBool False,
     c_pendingOptimize = JNull, c_pendingComposerSend = JNull\<rparr>"

section \<open>Setters\<close>

text \<open>The fields that have a plain setter, and its effect.\<close>

datatype chat_field =
    F_retryState | F_lastUserPrompt | F_quickActionVariableMode | F_quotedText | F_fileReference
  | F_fileReferenceTemplate | F_selectedXlsxReference | F_selectedFileReference | F_pendingOptimize
  | F_pendingComposerSend | F_inputText | F_isCompacting | F_permissionMode | F_mcpServers | F_isStreaming
  | F_streamAbort | F_pendingAskUser | F_streamId | F_pendingPermission | F_wsSendPermission | F_queueSender
  | F_pendingPlanApproval

primrec set_field :: "chat_field \<Rightarrow> jsval \<Rightarrow> chat \<Rightarrow> chat" where
  "set_field F_retryState v c = c\<lparr>c_retryState := v\<rparr>"
| "set_field F_lastUserPrompt v c = c\<lparr>c_lastUserPrompt := v\<rparr>"
| "set_field F_quickActionVariableMode v c = c\<lparr>c_quickActionVariableMode := v\<rparr>"
| "set_field F_quotedText v c = c\<lparr>c_quotedText := v\<rparr>"
| "set_field F_fileReference v c = c\<lparr>c_fileReference := v\<rparr>"
| "set_field F_fileReferenceTemplate v c = c\<lparr>c_fileReferenceTemplate := v\<rparr>"
| "set_field F_selectedXlsxReference v c = c\<lparr>c_selectedXlsxReference := v\<rparr>"
| "set_field F_selectedFileReference v c = c\<lparr>c_selectedFileReference := v\<rparr>"
| "set_field F_pendingOptimize v c = c\<lparr>c_pendingOptimize := v\<rparr>"
| "set_field F_pendingComposerSend v c = c\<lparr>c_pendingComposerSend := v\<rparr>"
| "set_field F_inputText v c = c\<lparr>c_inputText := v\<rparr>"
| "set_field F_isCompacting v c = c\<lparr>c_isCompacting := v\<rparr>"
| "set_field F_permissionMode v c = c\<lparr>c_permissionMode := v\<rparr>"
| "set_field F_mcpServers v c = c\<lparr>c_mcpServers := v\<rparr>"
| "set_field F_isStreaming v c = c\<lparr>c_isStreaming := v\<rparr>"
| "set_field F_streamAbort v c = c\<lparr>c_streamAbort := v\<rparr>"
| "set_field F_pendingAskUser v c = c\<lparr>c_pendingAskUser := v\<rparr>"
| "set_field F_streamId v c = c\<lparr>c_streamId := v\<rparr>"
| "set_field F_pendingPermission v c = c\<lparr>c_pendingPermission := v\<rparr>"
| "set_field F_wsSendPermission v c = c\<lparr>c_wsSendPermission := v\<rparr>"
| "set_field F_queueSender v c = c\<lparr>c_queueSender := v\<rparr>"
| "set_field F_pendingPlanApproval v c = c\<lparr>c_pendingPlanApproval := v\<rparr>"

definition markRetrySucceeded :: "chat \<Rightarrow> chat" where
  "markRetrySucceeded c =
     (if truthy (c_retryState c)
      then c\<lparr>c_retryState := jput (c_retryState c) [(''succeeded'', JBool True), (''delaySeconds'', JNum 0)]\<rparr>
      else c)"

definition tickRetryDelay :: "chat \<Rightarrow> chat" where
  "tickRetryDelay c =
     (case jget (c_retryState c) ''delaySeconds'' of
        JNum n \<Rightarrow> if n > 0 then c\<lparr>c_retryState := jput (c_retryState c) [(''delaySeconds'', JNum (n - 1))]\<rparr> else c
      | _ \<Rightarrow> c)"

definition bumpStreamGeneration :: "chat \<Rightarrow> chat" where
  "bumpStreamGeneration c = c\<lparr>c_streamGeneration := c_streamGeneration c + 1\<rparr>"

definition run_mode_of :: "jsval \<Rightarrow> jsval" where
  "run_mode_of mode = (if mode = JStr ''code'' then JStr ''code'' else JStr ''agent'')"

definition setRunMode :: "jsval \<Rightarrow> chat \<Rightarrow> chat" where
  "setRunMode mode c =
     (if c_runModeLocked c \<or> truthy (c_sessionId c) then c else c\<lparr>c_runMode := run_mode_of mode\<rparr>)"

definition lockRunMode :: "jsval \<Rightarrow> chat \<Rightarrow> chat" where
  "lockRunMode mode c = c\<lparr>c_runMode := run_mode_of mode, c_runModeLocked := True\<rparr>"

definition unlockUnclaimedRunMode :: "chat \<Rightarrow> chat" where
  "unlockUnclaimedRunMode c =
     (if truthy (c_sessionId c) then c else c\<lparr>c_runMode := JNull, c_runModeLocked := False\<rparr>)"

definition setPromptSuggestion :: "jsval \<Rightarrow> chat \<Rightarrow> chat" where
  "setPromptSuggestion v c =
     c\<lparr>c_promptSuggestion := (if is_str v \<and> trim (str_of v) \<noteq> [] then v else JNull)\<rparr>"

definition clearPromptSuggestion :: "chat \<Rightarrow> chat" where
  "clearPromptSuggestion c = c\<lparr>c_promptSuggestion := JNull\<rparr>"

definition addAttachment :: "jsval \<Rightarrow> chat \<Rightarrow> chat" where
  "addAttachment attachment c = c\<lparr>c_attachments := c_attachments c @ [attachment]\<rparr>"

definition updateAttachment :: "jsval \<Rightarrow> jsval \<Rightarrow> chat \<Rightarrow> chat" where
  "updateAttachment i data c =
     c\<lparr>c_attachments := map (\<lambda>a. if jeq (jget a ''id'') i then jspread a data else a) (c_attachments c)\<rparr>"

definition removeAttachment :: "jsval \<Rightarrow> chat \<Rightarrow> chat" where
  "removeAttachment i c = c\<lparr>c_attachments := filter (\<lambda>a. \<not> jeq (jget a ''id'') i) (c_attachments c)\<rparr>"

definition clearAttachments :: "bool \<Rightarrow> chat \<Rightarrow> chat" where
  "clearAttachments keepErrors c =
     c\<lparr>c_attachments := (if keepErrors then filter (\<lambda>a. jget a ''status'' = JStr ''error'') (c_attachments c) else [])\<rparr>"

definition setCwdDraft :: "jsval \<Rightarrow> chat \<Rightarrow> chat" where
  "setCwdDraft path c = c\<lparr>c_cwdDraft := jor path JNull\<rparr>"

definition setAddDirs :: "jsval \<Rightarrow> chat \<Rightarrow> chat" where
  "setAddDirs dirs c = c\<lparr>c_addDirs := arr_of dirs\<rparr>"

definition recordCheckpoint :: "js_env \<Rightarrow> jsval \<Rightarrow> jsval \<Rightarrow> jsval \<Rightarrow> chat \<Rightarrow> chat" where
  "recordCheckpoint env uuid afterMessageIndex preview c =
     (if \<not> truthy uuid then c
      else if \<exists>k \<in> set (c_checkpoints c). jeq (jget k ''uuid'') uuid then c
      else c\<lparr>c_checkpoints := c_checkpoints c @
             [JObj [(''uuid'', uuid), (''afterMessageIndex'', afterMessageIndex), (''preview'', preview),
                (''timestamp'', JNum (env_now env))]]\<rparr>)"

definition msg_role :: "jsval \<Rightarrow> jsval" where
  "msg_role m = jget m ''role''"

definition findCheckpointForAssistant :: "nat \<Rightarrow> chat \<Rightarrow> jsval" where
  "findCheckpointForAssistant assistantIdx c =
     (case find_last_index (\<lambda>m. msg_role m = JStr ''user'' \<and> truthy (jget m ''uuid''))
             (take assistantIdx (c_messages c)) of
        Some i \<Rightarrow> jget (c_messages c ! i) ''uuid''
      | None \<Rightarrow> JNull)"

definition truncateMessagesTo :: "nat \<Rightarrow> chat \<Rightarrow> chat" where
  "truncateMessagesTo assistantIdx c = c\<lparr>c_messages := take (assistantIdx + 1) (c_messages c)\<rparr>"

definition setSessionId :: "jsval \<Rightarrow> chat \<Rightarrow> chat" where
  "setSessionId i c =
     c\<lparr>c_sessionId := i,
       c_runModeLocked := (if truthy i then True else c_runModeLocked c),
       c_runMode := (if truthy i \<and> \<not> truthy (c_runMode c) then JStr ''code'' else c_runMode c)\<rparr>"

definition setRecap :: "jsval \<Rightarrow> int \<Rightarrow> chat \<Rightarrow> chat" where
  "setRecap text turns c =
     (if turns > c_recapTurns c
      then c\<lparr>c_recap := jor text JNull, c_recapTurns := turns, c_recapDismissed := False\<rparr> else c)"

definition dismissRecap :: "chat \<Rightarrow> chat" where
  "dismissRecap c = c\<lparr>c_recapDismissed := True\<rparr>"

section \<open>Permissions and the queue of user messages\<close>

definition queuePermission :: "jsval \<Rightarrow> chat \<Rightarrow> chat" where
  "queuePermission data c = c\<lparr>c_permissionQueue := c_permissionQueue c @ [data]\<rparr>"

definition resolvePermission :: "chat \<Rightarrow> chat" where
  "resolvePermission c =
     (case c_permissionQueue c of
        [] \<Rightarrow> c\<lparr>c_pendingPermission := JNull, c_permissionQueue := []\<rparr>
      | nxt # rest \<Rightarrow> c\<lparr>c_pendingPermission := jor nxt JNull, c_permissionQueue := rest\<rparr>)"

definition clearPermissions :: "chat \<Rightarrow> chat" where
  "clearPermissions c =
     c\<lparr>c_pendingPermission := JNull, c_permissionQueue := [], c_streamId := JNull, c_wsSendPermission := JNull\<rparr>"

definition enqueueUserMessage :: "jsval \<Rightarrow> chat \<Rightarrow> chat" where
  "enqueueUserMessage msg c =
     c\<lparr>c_queuedUserMessages := c_queuedUserMessages c @ [jput msg [(''status'', JStr ''pending'')]]\<rparr>"

definition markQueuedFlushing :: "jsval \<Rightarrow> chat \<Rightarrow> chat" where
  "markQueuedFlushing i c =
     c\<lparr>c_queuedUserMessages :=
       map (\<lambda>m. if jeq (jget m ''id'') i then jput m [(''status'', JStr ''flushing'')] else m) (c_queuedUserMessages c)\<rparr>"

definition removeQueuedMessage :: "jsval \<Rightarrow> chat \<Rightarrow> chat" where
  "removeQueuedMessage i c =
     c\<lparr>c_queuedUserMessages := filter (\<lambda>m. \<not> jeq (jget m ''id'') i) (c_queuedUserMessages c)\<rparr>"

definition clearQueuedMessages :: "chat \<Rightarrow> chat" where
  "clearQueuedMessages c = c\<lparr>c_queuedUserMessages := []\<rparr>"

section \<open>Messages\<close>

definition is_assistant :: "jsval \<Rightarrow> bool" where
  "is_assistant m \<longleftrightarrow> msg_role m = JStr ''assistant''"

definition content_of :: "jsval \<Rightarrow> jsval list" where
  "content_of m = arr_of (jget m ''content'')"

definition set_content :: "jsval list \<Rightarrow> jsval \<Rightarrow> jsval" where
  "set_content blocks m = jput m [(''content'', JArr blocks)]"

text \<open>The last message, when it is an assistant's, gets a new content.\<close>

definition update_last_assistant :: "(jsval list \<Rightarrow> jsval list) \<Rightarrow> chat \<Rightarrow> chat" where
  "update_last_assistant f c =
     (if c_messages c \<noteq> [] \<and> is_assistant (last (c_messages c))
      then c\<lparr>c_messages := butlast (c_messages c) @
             [set_content (f (content_of (last (c_messages c)))) (last (c_messages c))]\<rparr>
      else c)"

definition appendToLastAssistant :: "jsval \<Rightarrow> chat \<Rightarrow> chat" where
  "appendToLastAssistant text =
     update_last_assistant (\<lambda>bs. bs @ [JObj [(''type'', JStr ''text''), (''text'', text)]])"

definition updateLastAssistantContent :: "jsval list \<Rightarrow> chat \<Rightarrow> chat" where
  "updateLastAssistantContent content = update_last_assistant (\<lambda>_. content)"

definition addToolUse :: "jsval \<Rightarrow> chat \<Rightarrow> chat" where
  "addToolUse block = update_last_assistant (\<lambda>bs. bs @ [jput block [(''status'', JStr ''running'')]])"

section \<open>Stream patches\<close>

text \<open>\<^verbatim>\<open>grouped\<close>: the patches of each subagent, in the order of their first patch.\<close>

definition group_patches :: "sb_patch list \<Rightarrow> (jsval, sb_patch list) dict" where
  "group_patches patches =
     foldl (\<lambda>g p. dset (pt_parent p) ((case dget g (pt_parent p) of Some ps \<Rightarrow> ps | None \<Rightarrow> []) @ [p]) g)
       dempty patches"

definition sub_blocks :: "(string, jsval list) dict \<Rightarrow> string \<Rightarrow> jsval list" where
  "sub_blocks sub parentId = (case dget sub parentId of Some bs \<Rightarrow> bs | None \<Rightarrow> [])"

definition apply_main_patches :: "sb_patch list \<Rightarrow> jsval list \<Rightarrow> jsval list" where
  "apply_main_patches mainPatches msgs =
     (if mainPatches = [] then msgs
      else case find_last_index is_assistant msgs of
             None \<Rightarrow> msgs
           | Some i \<Rightarrow> msgs[i := set_content (applyBlockPatches (content_of (msgs ! i)) mainPatches) (msgs ! i)])"

definition apply_sub_patches :: "sb_patch list \<Rightarrow> (string, jsval list) dict \<Rightarrow> (string, jsval list) dict" where
  "apply_sub_patches subPatches sub =
     foldl (\<lambda>s (parentId, ps). dset (to_str parentId) (applyBlockPatches (sub_blocks s (to_str parentId)) ps) s)
       sub (group_patches subPatches)"

definition applyStreamBlockPatches :: "sb_patch list \<Rightarrow> chat \<Rightarrow> chat" where
  "applyStreamBlockPatches patches c =
     c\<lparr>c_messages := apply_main_patches (filter (\<lambda>p. \<not> truthy (pt_parent p)) patches) (c_messages c),
       c_subagentContent := apply_sub_patches (filter (\<lambda>p. truthy (pt_parent p)) patches) (c_subagentContent c)\<rparr>"

text \<open>A change of every assistant content and every subagent bucket.\<close>

definition on_assistant :: "(jsval list \<Rightarrow> jsval list) \<Rightarrow> jsval \<Rightarrow> jsval" where
  "on_assistant f m =
     (if is_assistant m \<and> is_arr (jget m ''content'') then set_content (f (content_of m)) m else m)"

definition map_all_blocks :: "(jsval list \<Rightarrow> jsval list) \<Rightarrow> chat \<Rightarrow> chat" where
  "map_all_blocks f c =
     c\<lparr>c_messages := map (on_assistant f) (c_messages c),
       c_subagentContent := dmap (\<lambda>_. f) (c_subagentContent c)\<rparr>"

definition clearUnfinishedStreamBlocks :: "chat \<Rightarrow> chat" where
  "clearUnfinishedStreamBlocks = map_all_blocks (mapStreamBlocks (\<lambda>_. JNull))"

definition finish_block :: "js_env \<Rightarrow> jsval \<Rightarrow> jsval" where
  "finish_block env block =
     jput block [(''_streamState'', JStr ''complete''), (''endTime'', jor (jget block ''endTime'') (JNum (env_now env)))]"

definition finalizeStreamBlocks :: "js_env \<Rightarrow> chat \<Rightarrow> chat" where
  "finalizeStreamBlocks env = map_all_blocks (mapStreamBlocks (finish_block env))"

section \<open>Tool results\<close>

definition appendToSubagentContent :: "string \<Rightarrow> jsval list \<Rightarrow> chat \<Rightarrow> chat" where
  "appendToSubagentContent parentId blocks c =
     (if parentId = [] \<or> blocks = [] then c
      else c\<lparr>c_subagentContent :=
             dset parentId (sub_blocks (c_subagentContent c) parentId @ blocks) (c_subagentContent c)\<rparr>)"

definition is_tool :: "jsval \<Rightarrow> jsval \<Rightarrow> bool" where
  "is_tool toolUseId b \<longleftrightarrow> jget b ''type'' = JStr ''tool_use'' \<and> jeq (jget b ''id'') toolUseId"

definition plain_tool_result :: "js_env \<Rightarrow> jsval \<Rightarrow> jsval \<Rightarrow> jsval" where
  "plain_tool_result env result b =
     jput b [(''result'', result),
       (''status'', if truthy (jget result ''is_error'') then JStr ''error'' else JStr ''success''),
       (''duration'', elapsed env b)]"

definition updateSubagentToolResult :: "js_env \<Rightarrow> string \<Rightarrow> jsval \<Rightarrow> jsval \<Rightarrow> chat \<Rightarrow> chat" where
  "updateSubagentToolResult env parentId toolUseId result c =
     (if parentId = [] then c
      else case dget (c_subagentContent c) parentId of
             None \<Rightarrow> c
           | Some existing \<Rightarrow>
               c\<lparr>c_subagentContent := dset parentId
                   (map (\<lambda>b. if is_tool toolUseId b then plain_tool_result env result b else b) existing)
                   (c_subagentContent c)\<rparr>)"

definition abortRunningSubagentTools :: "js_env \<Rightarrow> chat \<Rightarrow> chat" where
  "abortRunningSubagentTools env c =
     c\<lparr>c_subagentContent := dmap (\<lambda>_ blocks. map (\<lambda>b. if tool_running b
         then jput b [(''status'', JStr ''error''), (''result'', error_result ''Aborted''), (''duration'', elapsed env b)]
         else b) blocks) (c_subagentContent c)\<rparr>"

definition setSubagentContent :: "(string, jsval list) dict \<Rightarrow> chat \<Rightarrow> chat" where
  "setSubagentContent m c = c\<lparr>c_subagentContent := m\<rparr>"

definition tool_result_block :: "js_env \<Rightarrow> jsval \<Rightarrow> jsval \<Rightarrow> jsval \<Rightarrow> jsval \<Rightarrow> jsval" where
  "tool_result_block env toolUseId result toolUseResult b =
     (if is_tool toolUseId b
      then if isAgentToolName (jget b ''name'') then withAgentToolResult env b result toolUseResult
           else plain_tool_result env result b
      else b)"

definition updateToolResult :: "js_env \<Rightarrow> jsval \<Rightarrow> jsval \<Rightarrow> jsval \<Rightarrow> chat \<Rightarrow> chat" where
  "updateToolResult env toolUseId result toolUseResult =
     map_all_blocks (map (tool_result_block env toolUseId result toolUseResult))"

definition applyAgentTaskNotification :: "js_env \<Rightarrow> jsval \<Rightarrow> chat \<Rightarrow> chat" where
  "applyAgentTaskNotification env notification =
     map_all_blocks (map (\<lambda>block. applyAgentNotificationToBlock env block notification))"

definition abortRunningTools :: "js_env \<Rightarrow> jsval \<Rightarrow> chat \<Rightarrow> chat" where
  "abortRunningTools env agentTaskStatus = map_all_blocks (map (abortRunningBlock env agentTaskStatus))"

section \<open>Session changes\<close>

definition setResult :: "jsval \<Rightarrow> chat \<Rightarrow> chat" where
  "setResult data c =
     c\<lparr>c_sessionId := jget data ''session_id'',
       c_runMode := (if jget data ''run_mode'' \<in> {JStr ''agent'', JStr ''code''} then jget data ''run_mode'' else c_runMode c),
       c_runModeLocked := truthy (jget data ''session_id''),
       c_isStreaming := JBool False, c_isCompacting := JBool False, c_streamAbort := JNull,
       c_wsSendPermission := JNull\<rparr>"

definition clearMessages :: "chat \<Rightarrow> chat" where
  "clearMessages c =
     c\<lparr>c_messages := [], c_subagentContent := dempty, c_sessionId := JNull, c_streamId := JNull,
       c_pendingPermission := JNull, c_permissionQueue := [], c_pendingPlanApproval := JNull,
       c_wsSendPermission := JNull, c_attachments := [], c_quotedText := JNull, c_fileReference := JNull,
       c_fileReferenceTemplate := JNull, c_selectedXlsxReference := JNull, c_selectedFileReference := JNull,
       c_isCompacting := JBool False, c_checkpoints := [], c_forkParentId := JNull,
       c_enableFileCheckpointing := JBool False, c_rewindMarker := JNull, c_queuedUserMessages := [],
       c_retryState := JNull, c_lastUserPrompt := JNull, c_cwdDraft := JNull, c_addDirs := [],
       c_pendingComposerSend := JNull, c_runMode := JNull, c_runModeLocked := False, c_promptSuggestion := JNull\<rparr>"

definition chat_reset :: "chat \<Rightarrow> chat" where
  "chat_reset c =
     c\<lparr>c_messages := [], c_subagentContent := dempty, c_sessionId := JNull, c_inputText := JStr [],
       c_isStreaming := JBool False, c_isCompacting := JBool False, c_streamAbort := JNull,
       c_pendingAskUser := JNull, c_streamId := JNull, c_pendingPermission := JNull, c_permissionQueue := [],
       c_permissionMode := JStr ''bypassPermissions'', c_pendingPlanApproval := JNull, c_wsSendPermission := JNull,
       c_attachments := [], c_quickActionVariableMode := JBool False, c_mcpServers := JStr ''auto'',
       c_pendingOptimize := JNull, c_quotedText := JNull, c_fileReference := JNull,
       c_fileReferenceTemplate := JNull, c_selectedXlsxReference := JNull, c_selectedFileReference := JNull,
       c_enableFileCheckpointing := JBool False, c_checkpoints := [], c_forkParentId := JNull,
       c_rewindMarker := JNull, c_queuedUserMessages := [], c_queueSender := JNull, c_retryState := JNull,
       c_lastUserPrompt := JNull, c_cwdDraft := JNull, c_addDirs := [], c_pendingComposerSend := JNull,
       c_runMode := JNull, c_runModeLocked := False, c_promptSuggestion := JNull\<rparr>"

section \<open>Operations that touch the browser's storage\<close>

record chat_world =
  w_chat :: chat
  w_storage :: storage
  w_cid :: nat

definition setCheckpointingEnabled :: "jsval \<Rightarrow> chat_world \<Rightarrow> chat_world" where
  "setCheckpointingEnabled v w =
     (let sessionId = c_sessionId (w_chat w);
          w1 = w\<lparr>w_chat := (w_chat w)\<lparr>c_enableFileCheckpointing := v\<rparr>\<rparr>
      in if truthy sessionId
         then w1\<lparr>w_storage := snd (setItem (CKPT_STORAGE_PREFIX @ to_str sessionId) (to_str v) (w_storage w))\<rparr>
         else w1)"

definition setRewindMarker :: "js_env \<Rightarrow> jsval \<Rightarrow> chat_world \<Rightarrow> chat_world" where
  "setRewindMarker env marker w =
     (let sessionId = c_sessionId (w_chat w);
          w1 = w\<lparr>w_chat := (w_chat w)\<lparr>c_rewindMarker := marker\<rparr>\<rparr>
      in if truthy sessionId
         then w1\<lparr>w_storage := snd (setItem (REWIND_STORAGE_PREFIX @ to_str sessionId) (env_stringify env marker)
                (w_storage w))\<rparr>
         else w1)"

definition clearRewindMarker :: "chat_world \<Rightarrow> chat_world" where
  "clearRewindMarker w =
     (let sessionId = c_sessionId (w_chat w);
          w1 = w\<lparr>w_chat := (w_chat w)\<lparr>c_rewindMarker := JNull\<rparr>\<rparr>
      in if truthy sessionId
         then w1\<lparr>w_storage := snd (removeItem (REWIND_STORAGE_PREFIX @ to_str sessionId) (w_storage w))\<rparr>
         else w1)"

definition addMessage :: "jsval \<Rightarrow> chat_world \<Rightarrow> chat_world" where
  "addMessage message w =
     (let (m, cid) = withCid (w_cid w) message; c = w_chat w;
          w1 = w\<lparr>w_cid := cid, w_chat := c\<lparr>c_messages := c_messages c @ [m]\<rparr>\<rparr>
      in if msg_role message = JStr ''user'' \<and> truthy (c_rewindMarker c)
         then (let w2 = w1\<lparr>w_chat := (w_chat w1)\<lparr>c_rewindMarker := JNull\<rparr>\<rparr>
               in if truthy (c_sessionId c)
                  then w2\<lparr>w_storage := snd (removeItem (REWIND_STORAGE_PREFIX @ to_str (c_sessionId c)) (w_storage w))\<rparr>
                  else w2)
         else w1)"

text \<open>The rest of \<^verbatim>\<open>loadSession\<close>, the clearing of the sibling workflow slice, is part of the session runtime.\<close>

definition loadSession ::
  "js_env \<Rightarrow> jsval \<Rightarrow> jsval list \<Rightarrow> jsval \<Rightarrow> (string, jsval list) dict \<Rightarrow> jsval \<Rightarrow> jsval \<Rightarrow> chat_world \<Rightarrow> chat_world" where
  "loadSession env sessionId messages parentId subagentContent addDirs runMode w =
     (let restored = getBoolean (w_storage w) (CKPT_STORAGE_PREFIX @ to_str sessionId) False;
          parsed = getJSON env (w_storage w) (REWIND_STORAGE_PREFIX @ to_str sessionId) JNull;
          rewindMarker = (if truthy parsed \<and> is_object parsed \<and> is_arr (jget parsed ''revertedToolUseIds'')
                          then parsed else JNull);
          c = w_chat w
      in w\<lparr>w_chat := c\<lparr>
           c_sessionId := sessionId,
           c_runMode := (if runMode = JStr ''agent'' then JStr ''agent'' else JStr ''code''),
           c_runModeLocked := True, c_promptSuggestion := JNull, c_messages := messages,
           c_subagentContent := subagentContent, c_isStreaming := JBool False,
           c_recap := JNull, c_recapTurns := 0, c_recapDismissed := False, c_inputText := JStr [],
           c_checkpoints := [], c_forkParentId := parentId, c_enableFileCheckpointing := JBool restored,
           c_rewindMarker := rewindMarker, c_streamGeneration := c_streamGeneration c + 1,
           c_cwdDraft := JNull, c_addDirs := arr_of addDirs\<rparr>\<rparr>)"

section \<open>The machine\<close>

datatype composer_event =
    EvSet chat_field jsval
  | EvRetrySucceeded
  | EvTickRetry
  | EvPromptSuggestion jsval
  | EvClearSuggestion
  | EvAddAttachment jsval
  | EvUpdateAttachment jsval jsval
  | EvRemoveAttachment jsval
  | EvClearAttachments bool
  | EvCwdDraft jsval
  | EvAddDirs jsval
  | EvRecap jsval int
  | EvDismissRecap

datatype queue_event =
    EvQueuePermission jsval
  | EvResolvePermission
  | EvClearPermissions
  | EvEnqueue jsval
  | EvFlushing jsval
  | EvRemoveQueued jsval
  | EvClearQueued

datatype block_event =
    EvAppendLast jsval
  | EvUpdateLast "jsval list"
  | EvPatches "sb_patch list"
  | EvClearUnfinished
  | EvFinalize js_env
  | EvAppendSub string "jsval list"
  | EvUpdateSub js_env string jsval jsval
  | EvAbortSub js_env
  | EvSetSub "(string, jsval list) dict"
  | EvAddTool jsval
  | EvToolResult js_env jsval jsval jsval
  | EvNotification js_env jsval
  | EvAbortTools js_env jsval
  | EvTruncate nat

datatype session_event =
    EvBumpGeneration
  | EvSetRunMode jsval
  | EvLockRunMode jsval
  | EvUnlockRunMode
  | EvRecordCheckpoint js_env jsval jsval jsval
  | EvSetSessionId jsval
  | EvSetResult jsval
  | EvClearMessages
  | EvReset

datatype stored_event =
    EvCheckpointing jsval
  | EvSetRewind js_env jsval
  | EvClearRewind
  | EvAddMessage jsval
  | EvLoad js_env jsval "jsval list" jsval "(string, jsval list) dict" jsval jsval

datatype chat_event =
    EvComposer composer_event
  | EvQueue queue_event
  | EvBlock block_event
  | EvSession session_event
  | EvStored stored_event

definition on_chat :: "(chat \<Rightarrow> chat) \<Rightarrow> chat_world \<Rightarrow> chat_world" where
  "on_chat f w = w\<lparr>w_chat := f (w_chat w)\<rparr>"

primrec composer_step :: "composer_event \<Rightarrow> chat \<Rightarrow> chat" where
  "composer_step (EvSet f v) = set_field f v"
| "composer_step EvRetrySucceeded = markRetrySucceeded"
| "composer_step EvTickRetry = tickRetryDelay"
| "composer_step (EvPromptSuggestion v) = setPromptSuggestion v"
| "composer_step EvClearSuggestion = clearPromptSuggestion"
| "composer_step (EvAddAttachment a) = addAttachment a"
| "composer_step (EvUpdateAttachment i d) = updateAttachment i d"
| "composer_step (EvRemoveAttachment i) = removeAttachment i"
| "composer_step (EvClearAttachments k) = clearAttachments k"
| "composer_step (EvCwdDraft p) = setCwdDraft p"
| "composer_step (EvAddDirs d) = setAddDirs d"
| "composer_step (EvRecap t n) = setRecap t n"
| "composer_step EvDismissRecap = dismissRecap"

primrec queue_step :: "queue_event \<Rightarrow> chat \<Rightarrow> chat" where
  "queue_step (EvQueuePermission p) = queuePermission p"
| "queue_step EvResolvePermission = resolvePermission"
| "queue_step EvClearPermissions = clearPermissions"
| "queue_step (EvEnqueue m) = enqueueUserMessage m"
| "queue_step (EvFlushing i) = markQueuedFlushing i"
| "queue_step (EvRemoveQueued i) = removeQueuedMessage i"
| "queue_step EvClearQueued = clearQueuedMessages"

primrec block_step :: "block_event \<Rightarrow> chat \<Rightarrow> chat" where
  "block_step (EvAppendLast t) = appendToLastAssistant t"
| "block_step (EvUpdateLast bs) = updateLastAssistantContent bs"
| "block_step (EvPatches ps) = applyStreamBlockPatches ps"
| "block_step EvClearUnfinished = clearUnfinishedStreamBlocks"
| "block_step (EvFinalize env) = finalizeStreamBlocks env"
| "block_step (EvAppendSub p bs) = appendToSubagentContent p bs"
| "block_step (EvUpdateSub env p i r) = updateSubagentToolResult env p i r"
| "block_step (EvAbortSub env) = abortRunningSubagentTools env"
| "block_step (EvSetSub m) = setSubagentContent m"
| "block_step (EvAddTool b) = addToolUse b"
| "block_step (EvToolResult env i r t) = updateToolResult env i r t"
| "block_step (EvNotification env n) = applyAgentTaskNotification env n"
| "block_step (EvAbortTools env s) = abortRunningTools env s"
| "block_step (EvTruncate i) = truncateMessagesTo i"

primrec session_step :: "session_event \<Rightarrow> chat \<Rightarrow> chat" where
  "session_step EvBumpGeneration = bumpStreamGeneration"
| "session_step (EvSetRunMode v) = setRunMode v"
| "session_step (EvLockRunMode v) = lockRunMode v"
| "session_step EvUnlockRunMode = unlockUnclaimedRunMode"
| "session_step (EvRecordCheckpoint env u i p) = recordCheckpoint env u i p"
| "session_step (EvSetSessionId i) = setSessionId i"
| "session_step (EvSetResult d) = setResult d"
| "session_step EvClearMessages = clearMessages"
| "session_step EvReset = chat_reset"

primrec stored_step :: "chat_world \<Rightarrow> stored_event \<Rightarrow> chat_world" where
  "stored_step w (EvCheckpointing v) = setCheckpointingEnabled v w"
| "stored_step w (EvSetRewind env m) = setRewindMarker env m w"
| "stored_step w EvClearRewind = clearRewindMarker w"
| "stored_step w (EvAddMessage m) = addMessage m w"
| "stored_step w (EvLoad env i ms p sub dirs mode) = loadSession env i ms p sub dirs mode w"

primrec chat_step :: "chat_world \<Rightarrow> chat_event \<Rightarrow> chat_world" where
  "chat_step w (EvComposer e) = on_chat (composer_step e) w"
| "chat_step w (EvQueue e) = on_chat (queue_step e) w"
| "chat_step w (EvBlock e) = on_chat (block_step e) w"
| "chat_step w (EvSession e) = on_chat (session_step e) w"
| "chat_step w (EvStored e) = stored_step w e"

definition init_chat_world :: "storage \<Rightarrow> chat_world" where
  "init_chat_world st = \<lparr>w_chat = createChatStore, w_storage = st, w_cid = 0\<rparr>"

section \<open>The invariant\<close>

text \<open>
  A durable session has its run mode locked; checkpoints have distinct ids; the list keys \<^verbatim>\<open>_cid\<close> are
  distinct and those minted here do not exceed the counter.
\<close>

definition msg_cid :: "jsval \<Rightarrow> jsval" where
  "msg_cid m = jget m ''_cid''"

definition live_cid :: "nat \<Rightarrow> string" where
  "live_cid n = ''c-'' @ show_nat n"

definition cid_known :: "nat \<Rightarrow> jsval \<Rightarrow> bool" where
  "cid_known n v \<longleftrightarrow> \<not> prefix ''c-'' (str_of v) \<or> str_of v \<in> set (map live_cid [1..<Suc n])"

definition cids_ok :: "nat \<Rightarrow> jsval list \<Rightarrow> bool" where
  "cids_ok n ms \<longleftrightarrow> distinct (map msg_cid ms) \<and> (\<forall>m \<in> set ms. cid_known n (msg_cid m))"

definition chat_inv :: "chat_world \<Rightarrow> bool" where
  "chat_inv w \<longleftrightarrow> (truthy (c_sessionId (w_chat w)) \<longrightarrow> c_runModeLocked (w_chat w))
     \<and> distinct (map (\<lambda>k. jget k ''uuid'') (c_checkpoints (w_chat w)))
     \<and> (\<forall>k \<in> set (c_checkpoints (w_chat w)). jget k ''uuid'' \<noteq> JNaN)
     \<and> cids_ok (w_cid w) (c_messages (w_chat w))"

text \<open>Messages added live have no list key yet, and loaded ones have distinct keys of another form.\<close>

definition chat_ok :: "chat_world \<Rightarrow> chat_event \<Rightarrow> bool" where
  "chat_ok w e =
     (case e of
        EvStored (EvAddMessage m) \<Rightarrow> truthy m \<and> \<not> truthy (msg_cid m)
      | EvStored (EvLoad env i ms p sub dirs mode) \<Rightarrow> cids_ok 0 ms
      | _ \<Rightarrow> True)"

lemma set_content_fields [simp]:
  "msg_cid (set_content bs m) = msg_cid m" "msg_role (set_content bs m) = msg_role m"
  "content_of (set_content bs m) = bs" "is_assistant (set_content bs m) = is_assistant m"
  "jget (set_content bs m) ''content'' = JArr bs"
  by (simp_all add: set_content_def msg_cid_def msg_role_def content_of_def is_assistant_def jget_jput)

lemma on_assistant_cid [simp]: "msg_cid (on_assistant f m) = msg_cid m"
  by (simp add: on_assistant_def)

lemma cids_ok_same: "map msg_cid ms' = map msg_cid ms \<Longrightarrow> cids_ok n ms' = cids_ok n ms"
proof -
  assume same: "map msg_cid ms' = map msg_cid ms"
  then have "msg_cid ` set ms' = msg_cid ` set ms" by (metis set_map)
  then have "(\<forall>v \<in> msg_cid ` set ms'. cid_known n v) \<longleftrightarrow> (\<forall>v \<in> msg_cid ` set ms. cid_known n v)" by simp
  then show ?thesis using same by (simp add: cids_ok_def)
qed

lemma update_last_cids: "map msg_cid (c_messages (update_last_assistant f c)) = map msg_cid (c_messages c)"
  by (cases "c_messages c" rule: rev_cases) (simp_all add: update_last_assistant_def)

lemma map_all_cids: "map msg_cid (c_messages (map_all_blocks f c)) = map msg_cid (c_messages c)"
  by (simp add: map_all_blocks_def)

lemma main_patches_cids: "map msg_cid (apply_main_patches ps ms) = map msg_cid ms"
proof (cases "find_last_index is_assistant ms")
  case (Some i)
  then show ?thesis by (auto simp: apply_main_patches_def map_update intro!: nth_equalityI simp: nth_upd)
qed (simp add: apply_main_patches_def)

lemma cids_ok_take: "cids_ok n ms \<Longrightarrow> cids_ok n (take i ms)"
  by (auto simp: cids_ok_def take_map [symmetric] dest: in_set_takeD)

lemma live_cid_inject [simp]: "live_cid m = live_cid n \<longleftrightarrow> m = n"
  by (simp add: live_cid_def)

lemma cids_ok_mono: "cids_ok n ms \<Longrightarrow> n \<le> k \<Longrightarrow> cids_ok k ms"
  unfolding cids_ok_def cid_known_def by fastforce

lemma cids_ok_add:
  assumes "cids_ok n ms" and "msg_cid m = JStr (live_cid (Suc n))"
  shows "cids_ok (Suc n) (ms @ [m])"
proof -
  have "msg_cid m' \<noteq> msg_cid m" if "m' \<in> set ms" for m'
  proof
    assume same: "msg_cid m' = msg_cid m"
    have "cid_known n (JStr (live_cid (Suc n)))" using assms that same by (metis cids_ok_def)
    then show False by (auto simp: cid_known_def live_cid_def)
  qed
  moreover have "cid_known (Suc n) (msg_cid m)" using assms(2) by (simp add: cid_known_def)
  ultimately show ?thesis using cids_ok_mono [OF assms(1), of "Suc n"] assms(1)
    by (simp add: cids_ok_def image_iff) metis
qed

lemma withCid_minted:
  "truthy m \<Longrightarrow> \<not> truthy (msg_cid m) \<Longrightarrow>
     msg_cid (fst (withCid n m)) = JStr (live_cid (Suc n)) \<and> snd (withCid n m) = Suc n"
  by (simp add: withCid_def msg_cid_def live_cid_def jget_jput)

lemma set_field_frame [simp]:
  "c_sessionId (set_field f v c) = c_sessionId c" "c_runModeLocked (set_field f v c) = c_runModeLocked c"
  "c_runMode (set_field f v c) = c_runMode c" "c_messages (set_field f v c) = c_messages c"
  "c_checkpoints (set_field f v c) = c_checkpoints c" "c_streamGeneration (set_field f v c) = c_streamGeneration c"
  "c_subagentContent (set_field f v c) = c_subagentContent c"
  by (cases f; simp)+

lemma composer_frame:
  "c_sessionId (composer_step e c) = c_sessionId c" "c_runModeLocked (composer_step e c) = c_runModeLocked c"
  "c_runMode (composer_step e c) = c_runMode c" "c_messages (composer_step e c) = c_messages c"
  "c_checkpoints (composer_step e c) = c_checkpoints c"
  "c_streamGeneration (composer_step e c) = c_streamGeneration c"
  by (cases e; simp add: markRetrySucceeded_def tickRetryDelay_def setPromptSuggestion_def clearPromptSuggestion_def
      addAttachment_def updateAttachment_def removeAttachment_def clearAttachments_def setCwdDraft_def setAddDirs_def
      setRecap_def dismissRecap_def split: jsval.split)+

lemma queue_frame:
  "c_sessionId (queue_step e c) = c_sessionId c" "c_runModeLocked (queue_step e c) = c_runModeLocked c"
  "c_runMode (queue_step e c) = c_runMode c" "c_messages (queue_step e c) = c_messages c"
  "c_checkpoints (queue_step e c) = c_checkpoints c"
  "c_streamGeneration (queue_step e c) = c_streamGeneration c"
  by (cases e; simp add: queuePermission_def resolvePermission_def clearPermissions_def enqueueUserMessage_def
      markQueuedFlushing_def removeQueuedMessage_def clearQueuedMessages_def split: list.split)+

lemmas block_op_defs = appendToLastAssistant_def updateLastAssistantContent_def applyStreamBlockPatches_def
  clearUnfinishedStreamBlocks_def finalizeStreamBlocks_def appendToSubagentContent_def updateSubagentToolResult_def
  abortRunningSubagentTools_def setSubagentContent_def addToolUse_def updateToolResult_def
  applyAgentTaskNotification_def abortRunningTools_def truncateMessagesTo_def

lemma block_frame:
  "c_sessionId (block_step e c) = c_sessionId c" "c_runModeLocked (block_step e c) = c_runModeLocked c"
  "c_runMode (block_step e c) = c_runMode c" "c_checkpoints (block_step e c) = c_checkpoints c"
  "c_streamGeneration (block_step e c) = c_streamGeneration c"
  by (cases e; simp add: block_op_defs update_last_assistant_def map_all_blocks_def split: option.split)+

lemma cids_ok_kept:
  "cids_ok n (c_messages (update_last_assistant f c)) = cids_ok n (c_messages c)"
  "cids_ok n (c_messages (map_all_blocks g c)) = cids_ok n (c_messages c)"
  "cids_ok n (apply_main_patches ps ms) = cids_ok n ms"
  by (rule cids_ok_same, rule update_last_cids map_all_cids main_patches_cids)+

lemma block_cids: "cids_ok n (c_messages c) \<Longrightarrow> cids_ok n (c_messages (block_step e c))"
proof (cases e)
  case (EvTruncate i)
  then show "cids_ok n (c_messages c) \<Longrightarrow> ?thesis" by (simp add: truncateMessagesTo_def cids_ok_take)
qed (simp_all add: block_op_defs cids_ok_kept split: option.split)

lemma session_step_inv: "chat_inv w \<Longrightarrow> chat_inv (on_chat (session_step e) w)"
proof (cases e)
  case (EvRecordCheckpoint env u i p)
  assume inv: "chat_inv w"
  show ?thesis
  proof (cases "truthy u \<and> (\<forall>k \<in> set (c_checkpoints (w_chat w)). \<not> jeq (jget k ''uuid'') u)")
    case True
    then have "u \<noteq> JNaN" by auto
    with True inv have "u \<notin> (\<lambda>k. jget k ''uuid'') ` set (c_checkpoints (w_chat w))" by (auto simp: chat_inv_def jeq_def)
    with True inv \<open>u \<noteq> JNaN\<close> show ?thesis
      by (auto simp: EvRecordCheckpoint on_chat_def recordCheckpoint_def chat_inv_def)
  next
    case False
    with inv show ?thesis by (auto simp: EvRecordCheckpoint on_chat_def recordCheckpoint_def)
  qed
qed (simp_all add: on_chat_def chat_inv_def bumpStreamGeneration_def setRunMode_def lockRunMode_def
    unlockUnclaimedRunMode_def setSessionId_def setResult_def clearMessages_def chat_reset_def cids_ok_def)

lemma addMessage_fields:
  "c_messages (w_chat (addMessage m w)) = c_messages (w_chat w) @ [fst (withCid (w_cid w) m)]"
  "w_cid (addMessage m w) = snd (withCid (w_cid w) m)"
  "c_sessionId (w_chat (addMessage m w)) = c_sessionId (w_chat w)"
  "c_runModeLocked (w_chat (addMessage m w)) = c_runModeLocked (w_chat w)"
  "c_runMode (w_chat (addMessage m w)) = c_runMode (w_chat w)"
  "c_checkpoints (w_chat (addMessage m w)) = c_checkpoints (w_chat w)"
  "c_streamGeneration (w_chat (addMessage m w)) = c_streamGeneration (w_chat w)"
  by (simp_all add: addMessage_def Let_def case_prod_unfold)

lemma stored_step_inv: "chat_inv w \<Longrightarrow> chat_ok w (EvStored e) \<Longrightarrow> chat_inv (stored_step w e)"
proof (cases e)
  case (EvAddMessage m)
  assume "chat_inv w" "chat_ok w (EvStored e)"
  then show ?thesis using EvAddMessage withCid_minted [of m "w_cid w"]
    by (simp add: chat_inv_def chat_ok_def addMessage_fields cids_ok_add)
next
  case (EvLoad env i ms p sub dirs mode)
  assume "chat_inv w" "chat_ok w (EvStored e)"
  then show ?thesis using EvLoad cids_ok_mono [of 0 ms "w_cid w"]
    by (simp add: loadSession_def Let_def chat_inv_def chat_ok_def)
qed (simp_all add: setCheckpointingEnabled_def setRewindMarker_def clearRewindMarker_def Let_def chat_inv_def)

lemma chat_step_inv: "chat_inv w \<Longrightarrow> chat_ok w e \<Longrightarrow> chat_inv (chat_step w e)"
proof (cases e)
  case (EvSession ev)
  then show "chat_inv w \<Longrightarrow> chat_ok w e \<Longrightarrow> ?thesis" by (simp add: session_step_inv)
qed (simp_all add: stored_step_inv, simp_all add: chat_inv_def on_chat_def composer_frame queue_frame block_frame block_cids)

lemma chat_step_generation: "c_streamGeneration (w_chat w) \<le> c_streamGeneration (w_chat (chat_step w e))"
proof (cases e)
  case (EvSession ev)
  then show ?thesis
    by (cases ev) (simp_all add: on_chat_def bumpStreamGeneration_def setRunMode_def lockRunMode_def
        unlockUnclaimedRunMode_def recordCheckpoint_def setSessionId_def setResult_def clearMessages_def chat_reset_def)
next
  case (EvStored ev)
  then show ?thesis
    by (cases ev) (simp_all add: addMessage_fields setCheckpointingEnabled_def setRewindMarker_def
        clearRewindMarker_def loadSession_def Let_def)
qed (simp_all add: on_chat_def composer_frame queue_frame block_frame)

interpretation chat: monotone_machine "init_chat_world st" chat_step chat_ok chat_inv "\<lambda>w. c_streamGeneration (w_chat w)" for st
  by unfold_locales (simp_all add: chat_step_inv chat_step_generation,
      simp add: chat_inv_def init_chat_world_def createChatStore_def cids_ok_def)

section \<open>All visible blocks\<close>

definition block_lists :: "chat \<Rightarrow> jsval list list" where
  "block_lists c =
     map content_of (filter (\<lambda>m. is_assistant m \<and> is_arr (jget m ''content'')) (c_messages c)) @
     dvals (c_subagentContent c)"

definition visible_blocks :: "chat \<Rightarrow> jsval list" where
  "visible_blocks c = concat (block_lists c)"

lemma on_assistant_simps [simp]:
  "is_assistant (on_assistant f m) = is_assistant m"
  "is_arr (jget (on_assistant f m) ''content'') = is_arr (jget m ''content'')"
  "is_assistant m \<Longrightarrow> is_arr (jget m ''content'') \<Longrightarrow> content_of (on_assistant f m) = f (content_of m)"
  by (auto simp: on_assistant_def)

lemma block_lists_map: "block_lists (map_all_blocks f c) = map f (block_lists c)"
proof -
  let ?P = "\<lambda>m. is_assistant m \<and> is_arr (jget m ''content'')"
  have "filter ?P (map (on_assistant f) ms) = map (on_assistant f) (filter ?P ms)" for ms
    by (rule filter_map_comm) simp
  moreover have "map content_of (map (on_assistant f) (filter ?P ms)) = map f (map content_of (filter ?P ms))" for ms
    by simp
  moreover have "dvals (dmap (\<lambda>_. f) m) = map f (dvals m)" for m :: "(string, jsval list) dict"
    by (induction m) (auto simp: dvals_def dmap_def)
  ultimately show ?thesis by (simp add: block_lists_def map_all_blocks_def)
qed

lemma visible_map: "visible_blocks (map_all_blocks (map g) c) = map g (visible_blocks c)"
  by (simp add: visible_blocks_def block_lists_map map_concat)

lemma visible_stream: "visible_blocks (map_all_blocks (mapStreamBlocks m) c) = mapStreamBlocks m (visible_blocks c)"
proof -
  have "concat (map (mapStreamBlocks m) bss) = mapStreamBlocks m (concat bss)" for bss
    by (induction bss) (simp_all add: mapStreamBlocks_def)
  then show ?thesis by (simp add: visible_blocks_def block_lists_map)
qed

section \<open>Agent rows\<close>

definition is_agent_row :: "jsval \<Rightarrow> bool" where
  "is_agent_row b \<longleftrightarrow> jget b ''type'' = JStr ''tool_use'' \<and> isAgentToolName (jget b ''name'')"

definition agent_ended :: "lifecycle \<Rightarrow> jsval \<Rightarrow> bool" where
  "agent_ended l b \<longleftrightarrow> is_agent_row b \<and> l \<noteq> LC_running
     \<and> agentLifecycleFromStatus (jget b ''agentTaskStatus'') = Some l
     \<and> jget b ''status'' = JStr (agentLifecycleToBlockStatus l)"

lemma tool_result_keeps_ended: "agent_ended l b \<Longrightarrow> agent_ended l (tool_result_block env i r t b)"
  by (simp add: agent_ended_def is_agent_row_def tool_result_block_def withAgentToolResult_def Let_def jget_jput)

lemma notified_ended:
  assumes "is_agent_row b" and "normalizeAgentTaskNotification n = Some m" and "notification_matches b m"
    and "agentLifecycleFromStatus (JStr (an_status m)) = Some l" and "l \<noteq> LC_running"
  shows "agent_ended l (applyAgentNotificationToBlock env b n)"
  using assms
  by (simp add: agent_ended_def is_agent_row_def applyAgentNotificationToBlock_def notified_block_def Let_def jget_jput)

lemma late_results_map:
  "visible_blocks (foldl (\<lambda>c (env, i, r, t). updateToolResult env i r t c) c rs) =
     map (\<lambda>b. foldl (\<lambda>b (env, i, r, t). tool_result_block env i r t b) b rs) (visible_blocks c)"
proof (induction rs arbitrary: c)
  case Nil
  then show ?case by simp
next
  case (Cons x rs)
  obtain env i r t where x: "x = (env, i, r, t)" by (cases x)
  have "visible_blocks (updateToolResult env i r t c) = map (tool_result_block env i r t) (visible_blocks c)"
    by (simp add: updateToolResult_def visible_map)
  then show ?case unfolding x by (simp add: Cons.IH)
qed

lemma late_results_keep_ended:
  "agent_ended l b \<Longrightarrow> agent_ended l (foldl (\<lambda>b (env, i, r, t). tool_result_block env i r t b) b rs)"
  by (induction rs arbitrary: b) (auto intro: tool_result_keeps_ended)

lemma abort_not_running:
  assumes "agentLifecycleFromStatus s \<noteq> Some LC_running"
  shows "\<not> tool_running (abortRunningBlock env s b)"
proof (cases "tool_running b \<and> isAgentToolName (jget b ''name'')")
  case True
  define l where "l = (case agentLifecycleFromStatus s of Some l \<Rightarrow> l | None \<Rightarrow> LC_terminated)"
  have "l \<noteq> LC_running" using assms by (auto simp: l_def split: option.split)
  then show ?thesis using True
    by (cases l) (simp_all add: abortRunningBlock_def tool_running_def Let_def l_def [symmetric] jget_jput)
next
  case False
  then show ?thesis by (auto simp: abortRunningBlock_def tool_running_def jget_jput)
qed

lemma abort_other: "\<not> tool_running b \<Longrightarrow> abortRunningBlock env s b = b"
  by (simp add: abortRunningBlock_def)

lemma finish_not_unfinished: "\<not> isUnfinishedStreamBlock (finish_block env b)"
  by (simp add: isUnfinishedStreamBlock_def finish_block_def jget_jput)

lemma finish_not_null: "finish_block env b \<noteq> JNull"
proof -
  obtain kvs where "finish_block env b = JObj kvs" unfolding finish_block_def using jput_is_obj by blast
  then show ?thesis by simp
qed

section \<open>Stream keys\<close>

definition has_key :: "string \<Rightarrow> jsval \<Rightarrow> bool" where
  "has_key k b \<longleftrightarrow> jget b ''_streamKey'' = JStr k"

definition patch_ok :: "sb_patch \<Rightarrow> bool" where
  "patch_ok p \<longleftrightarrow> jget (pt_block p) ''_streamKey'' = JStr (pt_streamKey p) \<and> distinct (map fst (obj_of (pt_block p)))"

lemma applyBlockPatches_append:
  "applyBlockPatches bs (ps @ qs) = applyBlockPatches (applyBlockPatches bs ps) qs"
  by (induction ps arbitrary: bs) (simp_all split: option.split)

lemma patch_block_own: "patch_ok p \<Longrightarrow> has_own (pt_block p) ''_streamKey''"
  by (cases "pt_block p") (auto simp: patch_ok_def split: option.splits)

lemma jspread_key: "patch_ok p \<Longrightarrow> jget (jspread b (pt_block p)) ''_streamKey'' = JStr (pt_streamKey p)"
  using patch_block_own [of p] by (simp add: jget_jspread patch_ok_def)

text \<open>The number of blocks filed under a stream key: a patch creates the first one and never a second.\<close>

definition key_count :: "string \<Rightarrow> jsval list \<Rightarrow> nat" where
  "key_count k bs = length (filter (has_key k) bs)"

lemma key_count_update:
  "i < length bs \<Longrightarrow> has_key k (bs ! i) = has_key k b \<Longrightarrow> key_count k (bs[i := b]) = key_count k bs"
proof (induction bs arbitrary: i)
  case (Cons x bs)
  then show ?case by (cases i) (simp_all add: key_count_def)
qed simp

lemma one_patch:
  fixes bs :: "jsval list"
  assumes ok: "patch_ok p"
  defines "bs' \<equiv> applyBlockPatches bs [p]"
  shows "k \<noteq> pt_streamKey p \<Longrightarrow> key_count k bs' = key_count k bs"
    and "key_count (pt_streamKey p) bs' = max 1 (key_count (pt_streamKey p) bs)"
    and "\<exists>b \<in> set bs'. has_key (pt_streamKey p) b \<and> (\<forall>f. has_own (pt_block p) f \<longrightarrow> jget b f = jget (pt_block p) f)"
proof -
  let ?K = "pt_streamKey p" and ?find = "find_index (\<lambda>b. jget b ''_streamKey'' = JStr (pt_streamKey p)) bs"
  have blk: "has_key j (pt_block p) \<longleftrightarrow> j = ?K" for j using ok by (auto simp: patch_ok_def has_key_def)
  have spr: "has_key j (jspread b (pt_block p)) \<longleftrightarrow> j = ?K" for j b using jspread_key [OF ok] by (auto simp: has_key_def)
  have "(k \<noteq> ?K \<longrightarrow> key_count k bs' = key_count k bs) \<and> key_count ?K bs' = max 1 (key_count ?K bs) \<and>
      (\<exists>b \<in> set bs'. has_key ?K b \<and> (\<forall>f. has_own (pt_block p) f \<longrightarrow> jget b f = jget (pt_block p) f))"
  proof (cases ?find)
    case None
    then have none: "key_count ?K bs = 0" by (auto simp: key_count_def has_key_def find_index_None filter_empty_conv)
    with None blk show ?thesis by (auto simp: bs'_def key_count_def)
  next
    case (Some i)
    from find_index_Some [OF Some] have i: "i < length bs" "has_key ?K (bs ! i)" by (auto simp: has_key_def)
    have bs': "bs' = bs[i := jspread (bs ! i) (pt_block p)]" using Some by (simp add: bs'_def)
    have same: "has_key j (bs ! i) = has_key j (jspread (bs ! i) (pt_block p))" for j
      using i(2) spr by (auto simp: has_key_def)
    have "bs ! i \<in> set (filter (has_key ?K) bs)" using i by simp
    then have "1 \<le> key_count ?K bs" by (cases "filter (has_key ?K) bs") (auto simp: key_count_def)
    moreover have "jspread (bs ! i) (pt_block p) \<in> set bs'" using i by (simp add: bs' set_update_memI)
    moreover have "\<forall>f. has_own (pt_block p) f \<longrightarrow> jget (jspread (bs ! i) (pt_block p)) f = jget (pt_block p) f"
      using ok by (simp add: patch_ok_def jget_jspread)
    ultimately show ?thesis using key_count_update [OF i(1) same] spr unfolding bs' by (metis max.absorb2)
  qed
  then show "k \<noteq> ?K \<Longrightarrow> key_count k bs' = key_count k bs" "key_count ?K bs' = max 1 (key_count ?K bs)"
    "\<exists>b \<in> set bs'. has_key ?K b \<and> (\<forall>f. has_own (pt_block p) f \<longrightarrow> jget b f = jget (pt_block p) f)" by auto
qed

lemma key_count_patches:
  "list_all patch_ok ps \<Longrightarrow> key_count k bs \<le> 1 \<Longrightarrow> key_count k (applyBlockPatches bs ps) \<le> 1"
proof (induction ps arbitrary: bs)
  case Nil
  then show ?case by simp
next
  case (Cons p ps)
  have "key_count k (applyBlockPatches bs [p]) \<le> 1"
    using one_patch(1) [of p k bs] one_patch(2) [of p bs] Cons.prems by (cases "k = pt_streamKey p") auto
  then show ?case using Cons.IH Cons.prems applyBlockPatches_append [of bs "[p]" ps] by simp
qed

section \<open>Properties\<close>

fun chat_ok_run :: "chat_world \<Rightarrow> chat_event list \<Rightarrow> bool" where
  "chat_ok_run w [] = True"
| "chat_ok_run w (e # es) = (chat_ok w e \<and> chat_ok_run (chat_step w e) es)"

lemma chat_ok_run_eq: "chat_ok_run w es = chat.ok_run w es"
  by (induction es arbitrary: w) auto

text \<open>
  C11. After every sequence of chat operations a durable session has its run mode locked, checkpoints have
  distinct ids, the list keys of the messages are distinct, and the stream generation is at least
  what it was at any earlier point.
\<close>

theorem chat_invariant:
  assumes "chat_ok_run (init_chat_world st) (es @ es')"
  shows "chat_inv (foldl chat_step (init_chat_world st) (es @ es'))
    \<and> c_streamGeneration (w_chat (foldl chat_step (init_chat_world st) es))
        \<le> c_streamGeneration (w_chat (foldl chat_step (init_chat_world st) (es @ es')))"
proof -
  let ?w = "init_chat_world st"
  have split_run: "chat_ok_run w (xs @ ys) \<longleftrightarrow> chat_ok_run w xs \<and> chat_ok_run (foldl chat_step w xs) ys" for w xs ys
    by (induction xs arbitrary: w) auto
  have "chat_inv (foldl chat_step ?w es)"
    using assms split_run chat.run_inv [of st es] by (simp add: chat_ok_run_eq chat.run_foldl)
  then show ?thesis using assms split_run chat.run_inv [of st "es @ es'"] chat.rank_run [of "foldl chat_step ?w es" es']
    by (simp add: chat_ok_run_eq chat.run_foldl)
qed

definition demo_storage :: storage where
  "demo_storage = \<lparr>st_blocked = False, st_full = False, st_items = dempty\<rparr>"

definition demo_chat_events :: "chat_event list" where
  "demo_chat_events =
     [EvStored (EvAddMessage (JObj [(''role'', JStr ''user''), (''content'', JArr [])])),
      EvStored (EvAddMessage (JObj [(''role'', JStr ''assistant''), (''content'', JArr [])])),
      EvBlock (EvAddTool (JObj [(''type'', JStr ''tool_use''), (''id'', JStr ''t1''), (''name'', JStr ''Agent'')])),
      EvSession (EvSetSessionId (JStr ''s1''))]"

theorem chat_invariant_witness:
  "chat_inv (foldl chat_step (init_chat_world demo_storage) (demo_chat_events @ [EvSession EvBumpGeneration]))"
proof -
  have "chat_ok_run (init_chat_world demo_storage) (demo_chat_events @ [EvSession EvBumpGeneration])" by code_simp
  from chat_invariant [OF this] show ?thesis by blast
qed

text \<open>Events that do not move the chat to another session or explicitly lock a mode.\<close>

definition same_session_event :: "chat_event \<Rightarrow> bool" where
  "same_session_event e =
     (case e of
        EvSession ev \<Rightarrow> (case ev of EvBumpGeneration \<Rightarrow> True | EvSetRunMode _ \<Rightarrow> True | EvUnlockRunMode \<Rightarrow> True
                         | EvRecordCheckpoint _ _ _ _ \<Rightarrow> True | _ \<Rightarrow> False)
      | EvStored ev \<Rightarrow> (case ev of EvLoad _ _ _ _ _ _ _ \<Rightarrow> False | _ \<Rightarrow> True)
      | _ \<Rightarrow> True)"

lemma same_session_step:
  assumes "truthy (c_sessionId (w_chat w))" and "same_session_event e"
  shows "c_sessionId (w_chat (chat_step w e)) = c_sessionId (w_chat w)
    \<and> c_runMode (w_chat (chat_step w e)) = c_runMode (w_chat w)"
proof (cases e)
  case (EvSession ev)
  then show ?thesis using assms
    by (cases ev) (simp_all add: same_session_event_def on_chat_def bumpStreamGeneration_def setRunMode_def
        unlockUnclaimedRunMode_def recordCheckpoint_def)
next
  case (EvStored ev)
  then show ?thesis using assms
    by (cases ev) (simp_all add: same_session_event_def addMessage_fields setCheckpointingEnabled_def
        setRewindMarker_def clearRewindMarker_def Let_def)
qed (simp_all add: on_chat_def composer_frame queue_frame block_frame)

text \<open>
  The run mode of a durable session is immutable: no sequence of operations on the same session,
  whatever run modes it asks for, changes it.
\<close>

theorem run_mode_immutable:
  assumes "truthy (c_sessionId (w_chat w))" and "list_all same_session_event es"
  shows "c_runMode (w_chat (foldl chat_step w es)) = c_runMode (w_chat w)"
proof -
  have "truthy (c_sessionId (w_chat w)) \<Longrightarrow> list_all same_session_event es \<Longrightarrow>
      c_sessionId (w_chat (foldl chat_step w es)) = c_sessionId (w_chat w)
      \<and> c_runMode (w_chat (foldl chat_step w es)) = c_runMode (w_chat w)" for w
    by (induction es arbitrary: w) (simp_all add: same_session_step)
  with assms show ?thesis by blast
qed

definition demo_chat :: chat_world where
  "demo_chat = foldl chat_step (init_chat_world demo_storage) demo_chat_events"

theorem run_mode_immutable_witness:
  "c_runMode (w_chat (foldl chat_step demo_chat [EvSession (EvSetRunMode (JStr ''agent'')), EvSession EvUnlockRunMode]))
     = c_runMode (w_chat demo_chat)"
  by (rule run_mode_immutable) code_simp+

text \<open>
  A terminal task notification is authoritative. If a notification ends the agent row at some position,
  then after any number of tool results delivered later (attach replays the asynchronous launch
  result) the row at that position still shows that end.
\<close>

theorem agent_end_is_final:
  assumes "j < length (visible_blocks c)" and "is_agent_row (visible_blocks c ! j)"
    and "normalizeAgentTaskNotification n = Some m" and "notification_matches (visible_blocks c ! j) m"
    and "agentLifecycleFromStatus (JStr (an_status m)) = Some l" and "l \<noteq> LC_running"
  shows "getAgentLifecycle (visible_blocks (foldl (\<lambda>c (env, i, r, t). updateToolResult env i r t c)
      (applyAgentTaskNotification env n c) rs) ! j) = l"
proof -
  let ?b = "applyAgentNotificationToBlock env (visible_blocks c ! j) n"
  have "visible_blocks (applyAgentTaskNotification env n c) ! j = ?b"
    using assms(1) by (simp add: applyAgentTaskNotification_def visible_map)
  moreover have "agent_ended l (foldl (\<lambda>b (env, i, r, t). tool_result_block env i r t b) ?b rs)"
    using notified_ended [OF assms(2-6)] late_results_keep_ended by blast
  ultimately show ?thesis using assms(1)
    by (simp add: late_results_map applyAgentTaskNotification_def visible_map agent_ended_def getAgentLifecycle_def)
qed

definition demo_notification :: jsval where
  "demo_notification = JObj [(''tool_use_id'', JStr ''t1''), (''status'', JStr ''Failed'')]"

theorem agent_end_is_final_witness:
  "getAgentLifecycle (visible_blocks (foldl (\<lambda>c (env, i, r, t). updateToolResult env i r t c)
      (applyAgentTaskNotification (demo_env 5) demo_notification (w_chat demo_chat))
      [(demo_env 7, JStr ''t1'', JObj [(''content'', JStr ''Async agent launched successfully'')], JNull)]) ! 0) = LC_failed"
proof -
  have "normalizeAgentTaskNotification demo_notification = Some \<lparr>an_toolUseId = JStr ''t1'', an_taskId = JNull,
     an_status = ''failed'', an_summary = JStr [], an_timestamp = JNull\<rparr>" by code_simp
  then show ?thesis by (rule agent_end_is_final [rotated 2]) code_simp+
qed

text \<open>
  Aborting leaves nothing running: after \<^verbatim>\<open>abortRunningTools\<close> with a status that is not itself a running
  one, no tool block of any assistant message or subagent is in progress, and the others are
  untouched.
\<close>

theorem abort_leaves_none_running:
  assumes "agentLifecycleFromStatus s \<noteq> Some LC_running"
  shows "list_all (\<lambda>b. \<not> tool_running b) (visible_blocks (abortRunningTools env s c))
    \<and> filter (\<lambda>b. \<not> tool_running b) (visible_blocks c)
        = map snd (filter (\<lambda>(b, b'). \<not> tool_running b)
            (zip (visible_blocks c) (visible_blocks (abortRunningTools env s c))))"
proof -
  have vis: "visible_blocks (abortRunningTools env s c) = map (abortRunningBlock env s) (visible_blocks c)"
    by (simp add: abortRunningTools_def visible_map)
  have "filter (\<lambda>b. \<not> tool_running b) bs = map snd (filter (\<lambda>(b, b'). \<not> tool_running b)
      (zip bs (map (abortRunningBlock env s) bs)))" for bs
    by (induction bs) (simp_all add: abort_other)
  then show ?thesis using abort_not_running [OF assms] by (simp add: vis list_all_iff)
qed

theorem abort_leaves_none_running_witness:
  "list_all (\<lambda>b. \<not> tool_running b) (visible_blocks (abortRunningTools (demo_env 9) (JStr ''aborted'') (w_chat demo_chat)))"
proof -
  have "agentLifecycleFromStatus (JStr ''aborted'') \<noteq> Some LC_running" by code_simp
  from abort_leaves_none_running [OF this] show ?thesis by blast
qed

text \<open>
  After a replay gap exactly the unfinished stream blocks are gone, the others being kept in order;
  after a normal end all blocks are kept and none is unfinished.
\<close>

theorem stream_blocks_settle:
  "visible_blocks (clearUnfinishedStreamBlocks c)
     = filter (\<lambda>b. \<not> isUnfinishedStreamBlock b \<and> b \<noteq> JNull) (visible_blocks c)
   \<and> visible_blocks (finalizeStreamBlocks env c)
     = map (\<lambda>b. if isUnfinishedStreamBlock b then finish_block env b else b) (filter (\<lambda>b. b \<noteq> JNull) (visible_blocks c))
   \<and> list_all (\<lambda>b. \<not> isUnfinishedStreamBlock b) (visible_blocks (finalizeStreamBlocks env c))"
proof -
  have nn: "\<not> isUnfinishedStreamBlock JNull" by (simp add: isUnfinishedStreamBlock_def)
  have clear: "mapStreamBlocks (\<lambda>_. JNull) bs = filter (\<lambda>b. \<not> isUnfinishedStreamBlock b \<and> b \<noteq> JNull) bs" for bs
    by (induction bs) (auto simp: mapStreamBlocks_def)
  have fin: "mapStreamBlocks (finish_block env) bs
      = map (\<lambda>b. if isUnfinishedStreamBlock b then finish_block env b else b) (filter (\<lambda>b. b \<noteq> JNull) bs)" for bs
    using nn finish_not_null by (induction bs) (auto simp: mapStreamBlocks_def)
  have "list_all (\<lambda>b. \<not> isUnfinishedStreamBlock b) (map (\<lambda>b. if isUnfinishedStreamBlock b then finish_block env b else b) bs)" for bs
    by (induction bs) (simp_all add: finish_not_unfinished)
  then show ?thesis
    by (simp add: clearUnfinishedStreamBlocks_def finalizeStreamBlocks_def visible_stream clear fin)
qed

text \<open>
  A batch of assembler patches keeps stream keys unique in a content that has them unique, and the last
  patch for a key decides: its block is present with every field the patch carries.
\<close>

theorem last_patch_wins:
  assumes "list_all patch_ok (ps @ [p])" and "key_count k bs \<le> 1"
  shows "key_count k (applyBlockPatches bs (ps @ [p])) \<le> 1
    \<and> (\<exists>b \<in> set (applyBlockPatches bs (ps @ [p])). has_key (pt_streamKey p) b
         \<and> (\<forall>f. has_own (pt_block p) f \<longrightarrow> jget b f = jget (pt_block p) f))"
  using key_count_patches [OF assms] one_patch(3) [of p "applyBlockPatches bs ps"] assms(1)
  by (simp add: applyBlockPatches_append)

definition demo_patch :: sb_patch where
  "demo_patch = \<lparr>pt_parent = JNull, pt_messageId = JStr ''m1'', pt_index = 0, pt_streamKey = ''k'',
     pt_block = JObj [(''type'', JStr ''text''), (''_streamKey'', JStr ''k'')]\<rparr>"

theorem last_patch_wins_witness: "key_count ''k'' (applyBlockPatches [] ([demo_patch] @ [demo_patch])) \<le> 1"
proof -
  have "list_all patch_ok ([demo_patch] @ [demo_patch])" "key_count ''k'' [] \<le> 1" by code_simp+
  from last_patch_wins [OF this] show ?thesis by blast
qed

text \<open>The permission requests that wait, the pending one first; the pending one is empty only if all are.\<close>

definition perm_abs :: "chat \<Rightarrow> jsval list" where
  "perm_abs c = (if truthy (c_pendingPermission c) then c_pendingPermission c # c_permissionQueue c else [])"

definition perm_ok :: "chat \<Rightarrow> bool" where
  "perm_ok c \<longleftrightarrow> list_all truthy (c_permissionQueue c) \<and> (c_permissionQueue c \<noteq> [] \<longrightarrow> truthy (c_pendingPermission c))"

end
