(* ===== verification/WorkflowScript.thy ===== *)
theory WorkflowScript
  imports JsRegex
begin

text \<open>
  The reader of a workflow script's \<^verbatim>\<open>meta\<close> literal (\<^verbatim>\<open>web/user/src/utils/workflowScript.js\<close>): a scan for
  balanced brackets, two pattern matches per field, and a tokenizer that counts \<^verbatim>\<open>agent(\<close> calls per
  \<^verbatim>\<open>phase('...')\<close> marker. Positions are suffixes of the script; the tokenizer also carries the number
  \<open>n - i\<close> of characters left before its limit, because it may look one character past it.
\<close>

section \<open>Balanced slices\<close>

definition MAX_SCAN :: nat where
  "MAX_SCAN = 40000"

definition is_quote :: "char \<Rightarrow> bool" where
  "is_quote c \<longleftrightarrow> c = CHR 0x27 \<or> c = CHR 0x22 \<or> c = CHR 0x60"

abbreviation backslash :: char where
  "backslash \<equiv> CHR 0x5C"

function balanced_scan :: "char \<Rightarrow> char \<Rightarrow> char option \<Rightarrow> int \<Rightarrow> string \<Rightarrow> string \<Rightarrow> string option" where
  "balanced_scan opn cls q depth acc [] = None"
| "balanced_scan opn cls (Some q) depth acc (ch # rest) =
     (if ch = backslash
      then (case rest of [] \<Rightarrow> None | e # rest' \<Rightarrow> balanced_scan opn cls (Some q) depth (e # ch # acc) rest')
      else balanced_scan opn cls (if ch = q then None else Some q) depth (ch # acc) rest)"
| "balanced_scan opn cls None depth acc (ch # rest) =
     (if is_quote ch then balanced_scan opn cls (Some ch) depth (ch # acc) rest
      else if ch = opn then balanced_scan opn cls None (depth + 1) (ch # acc) rest
      else if ch = cls
      then (if depth - 1 = 0 then Some (rev (ch # acc)) else balanced_scan opn cls None (depth - 1) (ch # acc) rest)
      else balanced_scan opn cls None depth (ch # acc) rest)"
  by pat_completeness auto
termination by (relation "measure (\<lambda>(_, _, _, _, _, s). length s)") auto

text \<open>The slice that starts at the head of \<open>str\<close>.\<close>

definition sliceBalanced :: "string \<Rightarrow> char \<Rightarrow> char \<Rightarrow> string option" where
  "sliceBalanced str opn cls =
     (if str = [] \<or> hd str \<noteq> opn then None else balanced_scan opn cls None 0 [] (take MAX_SCAN str))"

section \<open>Fields\<close>

text \<open>\<^verbatim>\<open>key\s*:\s*(['"`])([\s\S]*?)\1\<close> and \<^verbatim>\<open>key\s*:\s*(\d+)\<close>\<close>

definition string_field_rx :: "string \<Rightarrow> rx" where
  "string_field_rx key =
     rseq [rlit key, RStar True rws, rlit '':'', RStar True rws, RGrp 1 (RChr is_quote), RGrp 2 (RStar False rany), RBack 1]"

definition is_digit :: "char \<Rightarrow> bool" where
  "is_digit c \<longleftrightarrow> (let n = (of_char c :: nat) in 48 \<le> n \<and> n \<le> 57)"

definition number_field_rx :: "string \<Rightarrow> rx" where
  "number_field_rx key = rseq [rlit key, RStar True rws, rlit '':'', RStar True rws, RGrp 1 (rplus (RChr is_digit))]"

definition matchString :: "string \<Rightarrow> string \<Rightarrow> string option" where
  "matchString block key = map_option trim (rgroup (string_field_rx key) 2 block)"

definition matchNumber :: "string \<Rightarrow> string \<Rightarrow> nat option" where
  "matchNumber block key = map_option read_nat (rgroup (number_field_rx key) 1 block)"

section \<open>Counting agents\<close>

record phase_count =
  pc_name :: "string option"
  pc_count :: nat

definition isIdStart :: "char \<Rightarrow> bool" where
  "isIdStart c \<longleftrightarrow> (let n = (of_char c :: nat)
     in (97 \<le> n \<and> n \<le> 122) \<or> (65 \<le> n \<and> n \<le> 90) \<or> c = CHR ''_'' \<or> c = CHR ''$'')"

definition isIdPart :: "char \<Rightarrow> bool" where
  "isIdPart c \<longleftrightarrow> isIdStart c \<or> is_digit c"

text \<open>A scan position: characters left before the limit, and the rest of the script.\<close>

type_synonym scan_pos = "nat \<times> string"

definition advance :: "nat \<Rightarrow> scan_pos \<Rightarrow> scan_pos" where
  "advance k p = (fst p - k, drop k (snd p))"

fun skip_while :: "(char \<Rightarrow> bool) \<Rightarrow> nat \<Rightarrow> string \<Rightarrow> scan_pos" where
  "skip_while P 0 s = (0, s)"
| "skip_while P n [] = (n, [])"
| "skip_while P (Suc n) (c # s) = (if P c then skip_while P n s else (Suc n, c # s))"

fun skip_block_comment :: "nat \<Rightarrow> string \<Rightarrow> scan_pos" where
  "skip_block_comment 0 s = (0, s)"
| "skip_block_comment n [] = (n, [])"
| "skip_block_comment (Suc n) (c # s) =
     (if c = CHR ''*'' \<and> s \<noteq> [] \<and> hd s = CHR ''/'' then (Suc n, c # s) else skip_block_comment n s)"

text \<open>The contents of a literal up to and including its closing quote.\<close>

fun skip_string :: "char \<Rightarrow> nat \<Rightarrow> string \<Rightarrow> scan_pos" where
  "skip_string q 0 s = (0, s)"
| "skip_string q n [] = (n, [])"
| "skip_string q (Suc 0) (c # s) = (0, s)"
| "skip_string q (Suc (Suc n)) [c] = (Suc n, [])"
| "skip_string q (Suc (Suc n)) (c # d # s) =
     (if c = backslash then skip_string q n s
      else if c = q then (Suc n, d # s)
      else skip_string q (Suc n) (d # s))"

text \<open>The text of a literal, with escapes dropped.\<close>

fun read_string :: "char \<Rightarrow> nat \<Rightarrow> string \<Rightarrow> string" where
  "read_string q 0 s = []"
| "read_string q n [] = []"
| "read_string q (Suc 0) (c # s) =
     (if c = backslash then (case s of [] \<Rightarrow> [] | d # _ \<Rightarrow> [d]) else if c = q then [] else [c])"
| "read_string q (Suc (Suc n)) [c] = (if c = backslash \<or> c = q then [] else [c])"
| "read_string q (Suc (Suc n)) (c # d # s) =
     (if c = backslash then d # read_string q n s
      else if c = q then [] else c # read_string q (Suc n) (d # s))"

definition bump_last :: "phase_count list \<Rightarrow> phase_count list" where
  "bump_last order =
     (if order = [] then [] else butlast order @ [(last order)\<lparr>pc_count := Suc (pc_count (last order))\<rparr>])"

text \<open>What the identifier \<open>word\<close> followed by the position \<open>p\<close> adds to the tally.\<close>

definition count_word :: "string \<Rightarrow> scan_pos \<Rightarrow> phase_count list \<Rightarrow> phase_count list" where
  "count_word word p order =
     (if word \<noteq> ''phase'' \<and> word \<noteq> ''agent'' then order
      else
        (let k = skip_while is_ws (fst p) (snd p)
         in if snd k = [] \<or> hd (snd k) \<noteq> CHR ''('' then order
            else if word = ''agent'' then bump_last order
            else
              (let m = (let k1 = advance 1 k in skip_while is_ws (fst k1) (snd k1));
                   name = (case snd m of
                             qc # s \<Rightarrow> if is_quote qc then Some (read_string qc (fst m - 1) s) else None
                           | [] \<Rightarrow> None)
               in order @ [\<lparr>pc_name = name, pc_count = 0\<rparr>])))"

lemma skip_while_le: "fst (skip_while P n s) \<le> n"
  by (induction P n s rule: skip_while.induct) auto

lemma skip_block_comment_le: "fst (skip_block_comment n s) \<le> n"
  by (induction n s rule: skip_block_comment.induct) auto

lemma skip_string_le: "fst (skip_string q n s) \<le> n"
  by (induction q n s rule: skip_string.induct) auto

function count_loop :: "scan_pos \<Rightarrow> phase_count list \<Rightarrow> phase_count list" where
  "count_loop p order =
     (case snd p of
        [] \<Rightarrow> order
      | ch # s \<Rightarrow>
          if fst p = 0 then order
          else if ch = CHR ''/'' \<and> s \<noteq> [] \<and> hd s = CHR ''/''
            then (let p2 = advance 2 p in count_loop (skip_while (\<lambda>c. c \<noteq> newline) (fst p2) (snd p2)) order)
          else if ch = CHR ''/'' \<and> s \<noteq> [] \<and> hd s = CHR ''*''
            then (let p2 = advance 2 p in count_loop (advance 2 (skip_block_comment (fst p2) (snd p2))) order)
          else if is_quote ch then count_loop (skip_string ch (fst p - 1) s) order
          else if isIdStart ch
            then (let j = skip_while isIdPart (fst p - 1) s;
                      word = take (fst p - fst j) (snd p)
                  in count_loop j (count_word word j order))
          else count_loop (advance 1 p) order)"
  by auto

termination
proof (relation "measure (\<lambda>(p, _). fst p)", goal_cases)
  case 1
  then show ?case by simp
next
  case (2 p order ch s p2)
  then show ?case using skip_while_le [of "\<lambda>c. c \<noteq> newline" "fst p2" "snd p2"] by (auto simp: advance_def)
next
  case (3 p order ch s p2)
  then show ?case using skip_block_comment_le [of "fst p2" "snd p2"] by (auto simp: advance_def)
next
  case (4 p order ch s)
  then show ?case using skip_string_le [of ch "fst p - 1" s] by auto
next
  case (5 p order ch s j word)
  then show ?case using skip_while_le [of isIdPart "fst p - 1" s] by auto
next
  case (6 p order ch s)
  then show ?case by (auto simp: advance_def)
qed

declare count_loop.simps [simp del]

definition countAgentsByPhase :: "string \<Rightarrow> phase_count list" where
  "countAgentsByPhase script = count_loop (min (length script) 200000, script) []"

text \<open>For evaluation, the limits are compared as integers.\<close>

lemma sliceBalanced_code [code]:
  "sliceBalanced str opn cls =
     (if str = [] \<or> hd str \<noteq> opn then None
      else balanced_scan opn cls None 0 [] (if int (length str) \<le> 40000 then str else take MAX_SCAN str))"
  by (simp add: sliceBalanced_def MAX_SCAN_def)

lemma countAgentsByPhase_code [code]:
  "countAgentsByPhase script =
     count_loop (if int (length script) \<le> 200000 then length script else 200000, script) []"
  by (simp add: countAgentsByPhase_def min_def)

section \<open>The meta literal\<close>

record meta_phase =
  mp_index :: nat
  mp_title :: "string option"
  mp_detail :: "string option"
  mp_agents :: "nat option"

record wf_meta =
  wm_name :: "string option"
  wm_description :: "string option"
  wm_phases :: "meta_phase list"

text \<open>\<^verbatim>\<open>export\s+const\s+meta\s*=\s*\{\<close>, \<^verbatim>\<open>phases\s*:\s*\[\<close> and \<^verbatim>\<open>\{[\s\S]*?\}\<close>\<close>

definition meta_rx :: rx where
  "meta_rx = rseq [rlit ''export'', rplus rws, rlit ''const'', rplus rws, rlit ''meta'', RStar True rws, rlit ''='',
     RStar True rws, rlit ''{'']"

definition phases_rx :: rx where
  "phases_rx = rseq [rlit ''phases'', RStar True rws, rlit '':'', RStar True rws, rlit ''['']"

definition phase_obj_rx :: rx where
  "phase_obj_rx = RGrp 0 (rseq [rlit ''{'', RStar False rany, rlit ''}''])"

definition present :: "string option \<Rightarrow> string option" where
  "present s = (case s of Some [] \<Rightarrow> None | _ \<Rightarrow> s)"

text \<open>The text from the first \<open>c\<close> at or after the start of the first match of \<open>r\<close>.\<close>

definition from_match :: "rx \<Rightarrow> char \<Rightarrow> string \<Rightarrow> string option" where
  "from_match r c s =
     (case rsearch r [] s of
        None \<Rightarrow> None
      | Some (pre, _) \<Rightarrow> (case dropWhile (\<lambda>x. x \<noteq> c) (drop (length pre) s) of [] \<Rightarrow> None | t \<Rightarrow> Some t))"

definition phase_of_object :: "string \<Rightarrow> meta_phase list \<Rightarrow> meta_phase list" where
  "phase_of_object objText phases =
     (let title = present (matchString objText ''title'');
          detail = present (matchString objText ''detail'');
          agents = matchNumber objText ''agents''
      in if title \<noteq> None \<or> detail \<noteq> None \<or> agents \<noteq> None
         then phases @ [\<lparr>mp_index = length phases + 1, mp_title = title, mp_detail = detail, mp_agents = agents\<rparr>]
         else phases)"

definition parse_phases :: "string \<Rightarrow> meta_phase list" where
  "parse_phases block =
     (case from_match phases_rx (CHR ''['') block of
        None \<Rightarrow> []
      | Some t \<Rightarrow>
          (case sliceBalanced t (CHR ''['') (CHR '']'') of
             None \<Rightarrow> []
           | Some arr \<Rightarrow>
               foldl (\<lambda>phases caps. case map_of caps 0 of None \<Rightarrow> phases | Some objText \<Rightarrow> phase_of_object objText phases)
                 [] (rmatches phase_obj_rx arr)))"

definition fill_agents :: "phase_count list \<Rightarrow> nat \<Rightarrow> meta_phase \<Rightarrow> meta_phase" where
  "fill_agents counted idx p =
     (if mp_agents p \<noteq> None then p
      else
        (let byName = (case mp_title p of None \<Rightarrow> None | Some t \<Rightarrow> List.find (\<lambda>c. pc_name c = Some t) counted);
             c = (case byName of Some c \<Rightarrow> Some c | None \<Rightarrow> if idx < length counted then Some (counted ! idx) else None)
         in case c of
              Some c \<Rightarrow> if pc_count c > 0 then p\<lparr>mp_agents := Some (pc_count c)\<rparr> else p
            | None \<Rightarrow> p))"

definition fill_all_agents :: "string \<Rightarrow> meta_phase list \<Rightarrow> meta_phase list" where
  "fill_all_agents script phases = map (\<lambda>(i, p). fill_agents (countAgentsByPhase script) i p) (enumerate 0 phases)"

definition parseWorkflowMeta :: "jsval \<Rightarrow> wf_meta option" where
  "parseWorkflowMeta script =
     (case script of
        JStr s \<Rightarrow>
          (case from_match meta_rx (CHR ''{'') s of
             None \<Rightarrow> None
           | Some t \<Rightarrow>
               (case sliceBalanced t (CHR ''{'') (CHR ''}'') of
                  None \<Rightarrow> None
                | Some block \<Rightarrow>
                    (let name = present (matchString block ''name'');
                         description = present (matchString block ''description'');
                         phases = fill_all_agents s (parse_phases block)
                     in if name = None \<and> description = None \<and> phases = [] then None
                        else Some \<lparr>wm_name = name, wm_description = description, wm_phases = phases\<rparr>)))
      | _ \<Rightarrow> None)"

section \<open>What the slices are\<close>

lemma balanced_scan_prefix:
  "balanced_scan opn cls q d acc s = Some w \<Longrightarrow> \<exists>u. w = rev acc @ u @ [cls] \<and> prefix (u @ [cls]) s"
proof (induction opn cls q d acc s rule: balanced_scan.induct)
  case (1 opn cls q depth acc)
  then show ?case by simp
next
  case (2 opn cls q depth acc ch rest)
  then show ?case by (force split: if_splits list.splits)
next
  case (3 opn cls depth acc ch rest)
  show ?case
  proof (cases "\<not> is_quote ch \<and> ch \<noteq> opn \<and> ch = cls \<and> depth - 1 = 0")
    case True
    with "3.prems" have "w = rev acc @ [] @ [cls]" by auto
    with True show ?thesis by (intro exI [of _ "[]"]) simp
  next
    case False
    with 3 show ?thesis by (force split: if_splits)
  qed
qed

lemma sliceBalanced_slice:
  assumes "sliceBalanced s opn cls = Some w"
  shows "prefix w s \<and> hd w = opn \<and> last w = cls \<and> length w \<le> MAX_SCAN"
proof -
  from assms have s: "s \<noteq> []" "hd s = opn" and scan: "balanced_scan opn cls None 0 [] (take MAX_SCAN s) = Some w"
    by (auto simp: sliceBalanced_def split: if_splits)
  from balanced_scan_prefix [OF scan] have "last w = cls" "prefix w (take MAX_SCAN s)" by auto
  moreover from this(2) have "prefix w s" using prefix_order.trans take_is_prefix by blast
  moreover have "w \<noteq> []" using balanced_scan_prefix [OF scan] by auto
  moreover have "hd w = hd s" using \<open>prefix w s\<close> \<open>w \<noteq> []\<close> by (auto simp: prefix_def)
  moreover have "length w \<le> MAX_SCAN" using prefix_length_le [OF \<open>prefix w (take MAX_SCAN s)\<close>] by simp
  ultimately show ?thesis using s by simp
qed

text \<open>
  The scan and the grammar of balanced text: \<open>nested\<close> text has every bracket closed and brackets inside
  string literals ignored. A bracketed nested text is sliced exactly.
\<close>

inductive quoted :: "char \<Rightarrow> string \<Rightarrow> bool" for q :: char where
  quoted_end: "quoted q [q]"
| quoted_esc: "quoted q s \<Longrightarrow> quoted q (backslash # e # s)"
| quoted_chr: "c \<noteq> backslash \<Longrightarrow> c \<noteq> q \<Longrightarrow> quoted q s \<Longrightarrow> quoted q (c # s)"

inductive nested :: "char \<Rightarrow> char \<Rightarrow> string \<Rightarrow> bool" for opn cls :: char where
  nested_nil: "nested opn cls []"
| nested_chr: "\<not> is_quote c \<Longrightarrow> c \<noteq> opn \<Longrightarrow> c \<noteq> cls \<Longrightarrow> nested opn cls s \<Longrightarrow> nested opn cls (c # s)"
| nested_str: "is_quote q \<Longrightarrow> quoted q l \<Longrightarrow> nested opn cls s \<Longrightarrow> nested opn cls (q # l @ s)"
| nested_brk: "nested opn cls t \<Longrightarrow> nested opn cls s \<Longrightarrow> nested opn cls (opn # t @ cls # s)"

inductive_cases quoted_NilE: "quoted q []"
inductive_cases nested_ConsE: "nested opn cls (c # s)"

lemma scan_quoted:
  "quoted q l \<Longrightarrow> q \<noteq> backslash \<Longrightarrow>
     balanced_scan opn cls (Some q) d acc (l @ s) = balanced_scan opn cls None d (rev l @ acc) s"
  by (induction l arbitrary: acc rule: quoted.induct) auto

lemma scan_nested:
  assumes "nested opn cls t" and "\<not> is_quote opn" "\<not> is_quote cls" "opn \<noteq> cls" "d \<ge> 1"
  shows "balanced_scan opn cls None d acc (t @ s) = balanced_scan opn cls None d (rev t @ acc) s"
  using assms(1,5)
proof (induction t arbitrary: acc d s rule: nested.induct)
  case nested_nil
  then show ?case by simp
next
  case (nested_chr c t)
  then show ?case by simp
next
  case (nested_str q l t)
  then have "q \<noteq> backslash" by (auto simp: is_quote_def)
  with nested_str show ?case by (simp add: scan_quoted)
next
  case (nested_brk t u)
  have inner: "balanced_scan opn cls None (d + 1) (opn # acc) (t @ cls # u @ s) =
      balanced_scan opn cls None (d + 1) (rev t @ opn # acc) (cls # u @ s)" using nested_brk by simp
  from nested_brk assms show ?case by (simp add: inner)
qed

lemma sliceBalanced_exact:
  assumes "nested opn cls t" and "\<not> is_quote opn" "\<not> is_quote cls" "opn \<noteq> cls" and "length t + 2 \<le> MAX_SCAN"
  shows "sliceBalanced (opn # t @ cls # rest) opn cls = Some (opn # t @ [cls])"
proof -
  have "take MAX_SCAN (opn # t @ cls # rest) = opn # t @ cls # take (MAX_SCAN - (length t + 2)) rest"
    using assms(5) by (cases MAX_SCAN) (auto simp: take_Cons' take_append)
  then show ?thesis using assms by (simp add: sliceBalanced_def scan_nested [where d = 1])
qed

section \<open>Phases are numbered consecutively\<close>

definition numbered :: "meta_phase list \<Rightarrow> bool" where
  "numbered ps \<longleftrightarrow> map mp_index ps = map Suc [0..<length ps]"

lemma phase_of_object_numbered: "numbered ps \<Longrightarrow> numbered (phase_of_object t ps)"
  by (simp add: phase_of_object_def numbered_def Let_def)

lemma parse_phases_numbered: "numbered (parse_phases b)"
proof -
  have "numbered ps \<Longrightarrow>
      numbered (foldl (\<lambda>phases caps. case map_of caps 0 of None \<Rightarrow> phases | Some t \<Rightarrow> phase_of_object t phases) ps css)"
    for ps and css :: "(nat \<times> string) list list"
    by (induction css arbitrary: ps) (simp_all add: phase_of_object_numbered split: option.split)
  from this [of "[]"] show ?thesis by (simp add: parse_phases_def numbered_def split: option.split)
qed

lemma fill_agents_index [simp]: "mp_index (fill_agents counted i p) = mp_index p"
  by (simp add: fill_agents_def Let_def split: option.split)

lemma fill_all_index: "map mp_index (fill_all_agents s ps) = map mp_index ps"
  by (auto simp: fill_all_agents_def enumerate_eq_zip intro!: nth_equalityI)

section \<open>Properties\<close>

text \<open>
  The bracket scan is exact: a bracketed text whose inner brackets are balanced outside string literals,
  shorter than the scan limit, is sliced from its opening bracket to the matching one whatever
  follows it.
\<close>

theorem sliceBalanced_matches:
  assumes "nested opn cls t" and "\<not> is_quote opn" "\<not> is_quote cls" "opn \<noteq> cls" and "length t + 2 \<le> MAX_SCAN"
  shows "sliceBalanced (opn # t @ cls # rest) opn cls = Some (opn # t @ [cls])"
  by (rule sliceBalanced_exact [OF assms])

theorem sliceBalanced_matches_witness:
  "sliceBalanced (CHR ''{'' # ''a{b}'' @ CHR ''}'' # '';x}'') (CHR ''{'') (CHR ''}'') = Some (CHR ''{'' # ''a{b}'' @ ''}'')"
proof -
  have "nested (CHR ''{'') (CHR ''}'') (CHR ''a'' # CHR ''{'' # ''b'' @ CHR ''}'' # [])"
    by (intro nested.intros) (simp_all add: is_quote_def)
  then show ?thesis
    using sliceBalanced_matches [of "CHR ''{''" "CHR ''}''" "''a{b}''" "'';x}''"] by (simp add: is_quote_def MAX_SCAN_def)
qed

text \<open>
  A parsed meta literal is never empty and numbers its phases 1, 2, ... in order, the indexes that the
  live phase deltas use.
\<close>

theorem parseWorkflowMeta_phases:
  assumes "parseWorkflowMeta script = Some meta"
  shows "numbered (wm_phases meta)
    \<and> (wm_name meta \<noteq> None \<or> wm_description meta \<noteq> None \<or> wm_phases meta \<noteq> [])"
proof -
  from assms obtain s block where meta: "wm_phases meta = fill_all_agents s (parse_phases block)"
    and ne: "wm_name meta \<noteq> None \<or> wm_description meta \<noteq> None \<or> wm_phases meta \<noteq> []"
    by (auto simp: parseWorkflowMeta_def Let_def split: jsval.splits option.splits if_splits)
  have "length (fill_all_agents s (parse_phases block)) = length (parse_phases block)"
    by (simp add: fill_all_agents_def)
  with meta ne show ?thesis using parse_phases_numbered by (simp add: numbered_def fill_all_index)
qed

definition demo_script :: string where
  "demo_script = ''export const meta = { name: 'n', phases: [{ title: 'A' }, { title: 'B', agents: 3 }] }
     phase('A'); agent(1); // agent(2)
     agent(3)''"

theorem parseWorkflowMeta_phases_witness:
  "numbered (wm_phases (the (parseWorkflowMeta (JStr demo_script))))"
proof -
  have "parseWorkflowMeta (JStr demo_script) \<noteq> None" by code_simp
  then have "parseWorkflowMeta (JStr demo_script) = Some (the (parseWorkflowMeta (JStr demo_script)))" by simp
  from parseWorkflowMeta_phases [OF this] show ?thesis by blast
qed

lemma demo_script_phases:
  "map mp_agents (wm_phases (the (parseWorkflowMeta (JStr demo_script)))) = [Some 2, Some 3]"
  by code_simp

end
