(* ===== verification/WorkflowStore.thy ===== *)
theory WorkflowStore
  imports WorkflowScript JsDict "HOL-Library.Multiset"
begin

text \<open>
  The workflow slice (\<^verbatim>\<open>web/user/src/stores/workflowStore.js\<close>). A workflow is a JavaScript object, because
  seeds and deltas are spread into it; \<^verbatim>\<open>agents\<close> is an object keyed by the agent's index and
  \<^verbatim>\<open>agentOrder\<close> the list of indexes. Phase indexes are integers; the comparison function of
  \<^verbatim>\<open>sort\<close> treats another value as 0.
\<close>

section \<open>Statuses\<close>

definition strip :: "jsval \<Rightarrow> jsval" where
  "strip o' = JObj (filter (\<lambda>(k, v). v \<noteq> JUndef) (obj_of o'))"

definition isTerminal :: "jsval \<Rightarrow> bool" where
  "isTerminal s \<longleftrightarrow> s \<in> {JStr ''completed'', JStr ''failed'', JStr ''stopped''}"

definition TERMINAL_RAW_STATUSES :: "string list" where
  "TERMINAL_RAW_STATUSES = [''completed'', ''failed'', ''stopped'', ''killed'', ''aborted'', ''cancelled'']"

definition isTerminalRawStatus :: "jsval \<Rightarrow> bool" where
  "isTerminalRawStatus raw \<longleftrightarrow> is_str raw \<and> str_of raw \<in> set TERMINAL_RAW_STATUSES"

definition rawToTaskStatus :: "jsval \<Rightarrow> string" where
  "rawToTaskStatus raw =
     (if raw = JStr ''completed'' then ''success'' else if raw = JStr ''failed'' then ''failed'' else ''stopped'')"

definition normalizeStatus :: "jsval \<Rightarrow> jsval" where
  "normalizeStatus rawStatus =
     (if rawStatus = JStr ''failed'' then JStr ''failed''
      else if rawStatus \<in> {JStr ''stopped'', JStr ''killed'', JStr ''aborted'', JStr ''cancelled''} then JStr ''stopped''
      else JStr ''completed'')"

section \<open>Workflows\<close>

definition emptyWorkflow :: "string \<Rightarrow> jsval" where
  "emptyWorkflow toolUseId = JObj [
     (''toolUseId'', JStr toolUseId), (''taskId'', JNull), (''workflowName'', JNull), (''description'', JNull),
     (''script'', JNull), (''status'', JStr ''pending''), (''startedAt'', JNull), (''endedAt'', JNull),
     (''summary'', JNull), (''lastToolName'', JNull),
     (''totals'', JObj [(''tokens'', JNum 0), (''toolCalls'', JNum 0), (''durationMs'', JNum 0)]),
     (''phases'', JArr []), (''agents'', JObj []), (''agentOrder'', JArr []), (''completionSource'', JNull)]"

definition wf_status :: "jsval \<Rightarrow> jsval" where
  "wf_status wfl = jget wfl ''status''"

definition wf_phases :: "jsval \<Rightarrow> jsval list" where
  "wf_phases wfl = arr_of (jget wfl ''phases'')"

definition wf_order :: "jsval \<Rightarrow> jsval list" where
  "wf_order wfl = arr_of (jget wfl ''agentOrder'')"

definition agent_at :: "jsval \<Rightarrow> jsval \<Rightarrow> jsval" where
  "agent_at agents i = jget agents (to_str i)"

definition wf_agent :: "jsval \<Rightarrow> jsval \<Rightarrow> jsval" where
  "wf_agent wfl i = agent_at (jget wfl ''agents'') i"

definition is_done :: "jsval \<Rightarrow> bool" where
  "is_done agent \<longleftrightarrow> jget agent ''state'' = JStr ''done''"

definition is_failed :: "jsval \<Rightarrow> bool" where
  "is_failed agent \<longleftrightarrow> jget agent ''state'' \<in> {JStr ''error'', JStr ''failed''}"

text \<open>\<^verbatim>\<open>agentTally\<close>: total, done and failed.\<close>

definition agentTally :: "jsval \<Rightarrow> nat \<times> nat \<times> nat" where
  "agentTally wfl =
     (length (wf_order wfl), length (filter (\<lambda>i. is_done (wf_agent wfl i)) (wf_order wfl)),
      length (filter (\<lambda>i. \<not> is_done (wf_agent wfl i) \<and> is_failed (wf_agent wfl i)) (wf_order wfl)))"

record phase_rollup =
  pr_total :: nat
  pr_done :: nat
  pr_running :: nat
  pr_failed :: nat
  pr_status :: string
  pr_agentIndices :: "jsval list"

definition phaseRollup :: "jsval \<Rightarrow> jsval \<Rightarrow> phase_rollup" where
  "phaseRollup wfl phaseIndex =
     (let agentIndices = filter (\<lambda>i. jeq (jget (wf_agent wfl i) ''phaseIndex'') phaseIndex) (wf_order wfl);
          done' = length (filter (\<lambda>i. is_done (wf_agent wfl i)) agentIndices);
          failed = length (filter (\<lambda>i. \<not> is_done (wf_agent wfl i) \<and> is_failed (wf_agent wfl i)) agentIndices);
          running = length (filter (\<lambda>i. \<not> is_done (wf_agent wfl i) \<and> \<not> is_failed (wf_agent wfl i)) agentIndices);
          total = length agentIndices
      in \<lparr>pr_total = total, pr_done = done', pr_running = running, pr_failed = failed,
          pr_status = (if failed > 0 then ''error'' else if total > 0 \<and> done' = total then ''success''
                       else if total > 0 \<and> (done' > 0 \<or> running > 0) then ''running'' else ''pending''),
          pr_agentIndices = agentIndices\<rparr>)"

fun num_of :: "jsval \<Rightarrow> int" where
  "num_of (JNum n) = n"
| "num_of _ = 0"

definition workflowAgentTotals :: "jsval \<Rightarrow> int \<times> int" where
  "workflowAgentTotals wfl =
     (int (length (filter (\<lambda>i. is_done (wf_agent wfl i)) (wf_order wfl))),
      max (int (length (wf_order wfl)))
        (sum_list (map (\<lambda>p. num_of (jor (jget p ''declaredAgents'') (JNum 0))) (wf_phases wfl))))"

section \<open>Seeding from the script\<close>

definition opt_str :: "string option \<Rightarrow> jsval" where
  "opt_str s = (case s of Some x \<Rightarrow> JStr x | None \<Rightarrow> JUndef)"

definition opt_num :: "nat option \<Rightarrow> jsval" where
  "opt_num n = (case n of Some x \<Rightarrow> JNum (int x) | None \<Rightarrow> JUndef)"

definition sort_phases :: "jsval list \<Rightarrow> jsval list" where
  "sort_phases ps = sort_key (\<lambda>p. num_of (jget p ''index'')) ps"

definition same_index :: "jsval \<Rightarrow> jsval \<Rightarrow> bool" where
  "same_index i p \<longleftrightarrow> jeq (jget p ''index'') i"

text \<open>One phase of the meta literal: a new row, or the gaps of the row it has.\<close>

definition fill_field :: "string \<Rightarrow> jsval \<Rightarrow> jsval \<times> bool \<Rightarrow> jsval \<times> bool" where
  "fill_field f v mc = (if \<not> truthy (jget (fst mc) f) \<and> truthy v then (jset f v (fst mc), True) else mc)"

definition fill_declared :: "jsval \<Rightarrow> jsval \<times> bool \<Rightarrow> jsval \<times> bool" where
  "fill_declared v mc =
     (if nullish (jget (fst mc) ''declaredAgents'') \<and> \<not> nullish v then (jset ''declaredAgents'' v (fst mc), True) else mc)"

definition seed_phase :: "jsval list \<times> bool \<Rightarrow> meta_phase \<Rightarrow> jsval list \<times> bool" where
  "seed_phase pc mp =
     (let (phases, changed) = pc; i = JNum (int (mp_index mp))
      in case find_index (same_index i) phases of
           None \<Rightarrow> (phases @ [JObj [(''index'', i), (''title'', opt_str (mp_title mp)), (''detail'', opt_str (mp_detail mp)),
                     (''declaredAgents'', opt_num (mp_agents mp))]], True)
         | Some at' \<Rightarrow>
             (let (merged, rowChanged) = fill_declared (opt_num (mp_agents mp))
                    (fill_field ''detail'' (opt_str (mp_detail mp))
                      (fill_field ''title'' (opt_str (mp_title mp)) (phases ! at', False)))
              in if rowChanged then (phases[at' := merged], True) else (phases, changed)))"

definition seed_name :: "string \<Rightarrow> string option \<Rightarrow> jsval \<times> bool \<Rightarrow> jsval \<times> bool" where
  "seed_name f v wc = fill_field f (opt_str v) wc"

definition seedFromScript :: "jsval \<Rightarrow> jsval" where
  "seedFromScript wfl =
     (if \<not> truthy (jget wfl ''script'') then wfl
      else case parseWorkflowMeta (jget wfl ''script'') of
             None \<Rightarrow> wfl
           | Some meta \<Rightarrow>
               (let (next1, changed1) = seed_name ''description'' (wm_description meta)
                      (seed_name ''workflowName'' (wm_name meta) (wfl, False))
                in if wm_phases meta = [] then next1
                   else (let (phases, changed) = foldl seed_phase (wf_phases next1, changed1) (wm_phases meta)
                         in if changed then jset ''phases'' (JArr (sort_phases phases)) next1 else wfl)))"

section \<open>The store\<close>

record workflow_store =
  ws_workflows :: "(string, jsval) dict"
  ws_order :: "string list"
  ws_taskIdIndex :: "(string, string) dict"
  ws_activeWorkflowId :: jsval
  ws_activeAgentIndex :: jsval
  ws_focusTarget :: jsval
  ws_focusRevision :: nat

definition createWorkflowStore :: workflow_store where
  "createWorkflowStore =
     \<lparr>ws_workflows = dempty, ws_order = [], ws_taskIdIndex = dempty, ws_activeWorkflowId = JNull,
      ws_activeAgentIndex = JNull, ws_focusTarget = JNull, ws_focusRevision = 0\<rparr>"

definition resolveId :: "workflow_store \<Rightarrow> string \<Rightarrow> string \<Rightarrow> string option" where
  "resolveId s toolUseId taskId =
     (if toolUseId \<noteq> [] \<and> dget (ws_workflows s) toolUseId \<noteq> None then Some toolUseId
      else if taskId \<noteq> [] then (case dget (ws_taskIdIndex s) taskId of Some [] \<Rightarrow> None | r \<Rightarrow> r)
      else None)"

definition ws_upsert :: "string \<Rightarrow> jsval \<Rightarrow> workflow_store \<Rightarrow> workflow_store" where
  "ws_upsert k wfl s = s\<lparr>ws_workflows := dset k wfl (ws_workflows s), ws_order := push_new k (ws_order s)\<rparr>"

definition ws_remove :: "string \<Rightarrow> workflow_store \<Rightarrow> workflow_store" where
  "ws_remove k s = s\<lparr>ws_workflows := ddel k (ws_workflows s), ws_order := filter (\<lambda>x. x \<noteq> k) (ws_order s)\<rparr>"

interpretation ws: indexed_store ws_workflows ws_order ws_upsert ws_remove
  by unfold_locales (simp_all add: ws_upsert_def ws_remove_def)

definition merged_seed :: "jsval \<Rightarrow> jsval \<Rightarrow> jsval" where
  "merged_seed existing cleanSeed =
     (let nxt = jspread existing cleanSeed
      in if wf_status cleanSeed = JStr ''pending'' \<and> wf_status existing \<noteq> JStr ''pending''
         then jset ''status'' (wf_status existing) nxt else nxt)"

definition ensureWorkflow :: "string \<Rightarrow> jsval \<Rightarrow> workflow_store \<Rightarrow> workflow_store" where
  "ensureWorkflow toolUseId seed s =
     (if toolUseId = [] then s
      else case dget (ws_workflows s) toolUseId of
             Some existing \<Rightarrow>
               s\<lparr>ws_workflows := dset toolUseId (seedFromScript (merged_seed existing (strip seed))) (ws_workflows s)\<rparr>
           | None \<Rightarrow> ws_upsert toolUseId (seedFromScript (jspread (emptyWorkflow toolUseId) (strip seed))) s)"

definition running_seed :: jsval where
  "running_seed = JObj [(''status'', JStr ''running'')]"

definition keep_terminal :: "jsval \<Rightarrow> jsval" where
  "keep_terminal base = (if isTerminal (wf_status base) then wf_status base else JStr ''running'')"

definition started_workflow :: "int \<Rightarrow> jsval \<Rightarrow> jsval \<Rightarrow> jsval" where
  "started_workflow now base flds =
     (let clean = strip flds
      in seedFromScript (jput (jspread base clean)
           [(''startedAt'', jcoal (jget base ''startedAt'') (jcoal (jget clean ''startedAt'') (JNum now))),
            (''status'', keep_terminal base)]))"

definition applyStart :: "int \<Rightarrow> string \<Rightarrow> jsval \<Rightarrow> workflow_store \<Rightarrow> workflow_store" where
  "applyStart now toolUseId flds s0 =
     (let s = ensureWorkflow toolUseId running_seed s0
      in case dget (ws_workflows s) toolUseId of
           None \<Rightarrow> s
         | Some base \<Rightarrow>
             (let wfl = started_workflow now base flds
              in s\<lparr>ws_workflows := dset toolUseId wfl (ws_workflows s),
                   ws_taskIdIndex := (if truthy (jget wfl ''taskId'')
                     then dset (to_str (jget wfl ''taskId'')) toolUseId (ws_taskIdIndex s) else ws_taskIdIndex s)\<rparr>))"

text \<open>One item of \<^verbatim>\<open>workflowProgress\<close>: the phases, whether they changed, the agents and their order.\<close>

record progress_acc =
  pa_phases :: "jsval list"
  pa_changed :: bool
  pa_agents :: jsval
  pa_order :: "jsval list"

definition progress_item :: "progress_acc \<Rightarrow> jsval \<Rightarrow> progress_acc" where
  "progress_item a item =
     (if jget item ''type'' = JStr ''workflow_phase''
      then a\<lparr>pa_phases := (case find_index (same_index (jget item ''index'')) (pa_phases a) of
                Some at' \<Rightarrow> (pa_phases a)[at' := jspread (pa_phases a ! at') (strip item)]
              | None \<Rightarrow> pa_phases a @ [JObj (obj_of item)]), pa_changed := True\<rparr>
      else if jget item ''type'' = JStr ''workflow_agent''
      then (let i = jget item ''index''; prev = agent_at (pa_agents a) i;
                a1 = a\<lparr>pa_agents := jset (to_str i)
                         (if truthy prev then jspread prev (strip item) else JObj (obj_of item)) (pa_agents a),
                       pa_order := push_new i (pa_order a)\<rparr>;
                ph = jget item ''phaseIndex''
            in if \<not> nullish ph \<and> \<not> (\<exists>p \<in> set (pa_phases a1). same_index ph p)
               then a1\<lparr>pa_phases := pa_phases a1 @ [JObj [(''index'', ph)]], pa_changed := True\<rparr> else a1)
      else a)"

definition progress_items :: "jsval \<Rightarrow> jsval \<Rightarrow> progress_acc" where
  "progress_items base items =
     foldl progress_item
       \<lparr>pa_phases = wf_phases base, pa_changed = False, pa_agents = JObj (obj_of (jget base ''agents'')),
        pa_order = wf_order base\<rparr> (arr_of items)"

definition tool_call_sum :: "jsval \<Rightarrow> jsval list \<Rightarrow> int" where
  "tool_call_sum agents order =
     sum_list (map (\<lambda>i. num_of (jor (jget (agent_at agents i) ''toolCalls'') (JNum 0))) order)"

definition progressed_workflow :: "jsval \<Rightarrow> jsval \<Rightarrow> jsval" where
  "progressed_workflow base flds =
     (let a = progress_items base (jget flds ''workflowProgress'');
          totals = jget base ''totals''; usage = jget flds ''usage'';
          toolCallSum = tool_call_sum (pa_agents a) (pa_order a)
      in jput base
           [(''taskId'', jcoal (jcoal (jget base ''taskId'') (jget flds ''taskId'')) JNull),
            (''phases'', JArr (if pa_changed a then sort_phases (pa_phases a) else wf_phases base)),
            (''agents'', pa_agents a), (''agentOrder'', JArr (pa_order a)),
            (''totals'', JObj [
               (''tokens'', jcoal (jget usage ''total_tokens'') (jget totals ''tokens'')),
               (''toolCalls'', if toolCallSum \<noteq> 0 then JNum toolCallSum else jget totals ''toolCalls''),
               (''durationMs'', jcoal (jget usage ''duration_ms'') (jget totals ''durationMs''))]),
            (''summary'', jcoal (jget flds ''summary'') (jget base ''summary'')),
            (''lastToolName'', jcoal (jget flds ''lastToolName'') (jget base ''lastToolName'')),
            (''status'', keep_terminal base)])"

text \<open>The task id index entry that a workflow gets unless it has one.\<close>

definition index_task :: "jsval \<Rightarrow> string \<Rightarrow> (string, string) dict \<Rightarrow> (string, string) dict" where
  "index_task taskId toolUseId idx =
     (if truthy taskId \<and> (case dget idx (to_str taskId) of None \<Rightarrow> True | Some x \<Rightarrow> x = [])
      then dset (to_str taskId) toolUseId idx else idx)"

definition applyProgress :: "string \<Rightarrow> jsval \<Rightarrow> workflow_store \<Rightarrow> workflow_store" where
  "applyProgress toolUseId flds s0 =
     (if toolUseId = [] then s0
      else (let s = ensureWorkflow toolUseId running_seed s0
            in case dget (ws_workflows s) toolUseId of
                 None \<Rightarrow> s
               | Some base \<Rightarrow>
                   (let wfl = progressed_workflow base flds
                    in s\<lparr>ws_workflows := dset toolUseId wfl (ws_workflows s),
                         ws_taskIdIndex := index_task (jget wfl ''taskId'') toolUseId (ws_taskIdIndex s)\<rparr>)))"



definition hydrated_workflow :: "int \<Rightarrow> jsval \<Rightarrow> jsval \<Rightarrow> jsval" where
  "hydrated_workflow now base snap =
     (let a = progress_items base (jget snap ''workflowProgress'');
          raw = jget snap ''status''; terminal = isTerminalRawStatus raw; totals = jget base ''totals''
      in jput base
           [(''taskId'', jcoal (jcoal (jget base ''taskId'') (jget snap ''taskId'')) JNull),
            (''workflowName'', jcoal (jcoal (jget base ''workflowName'') (jget snap ''workflowName'')) JNull),
            (''summary'', jcoal (jcoal (jget base ''summary'') (jget snap ''summary'')) JNull),
            (''phases'', JArr (sort_phases (pa_phases a))), (''agents'', pa_agents a), (''agentOrder'', JArr (pa_order a)),
            (''startedAt'', jcoal (jcoal (jget base ''startedAt'') (jget snap ''startTime'')) JNull),
            (''endedAt'', jcoal (jget base ''endedAt'')
               (if terminal
                then (if truthy (jget snap ''startTime'') \<and> truthy (jget snap ''durationMs'')
                      then JNum (num_of (jget snap ''startTime'') + num_of (jget snap ''durationMs'')) else JNum now)
                else JNull)),
            (''totals'', JObj [
               (''tokens'', jcoal (jget snap ''totalTokens'') (jget totals ''tokens'')),
               (''toolCalls'', jcoal (jget snap ''totalToolCalls'') (jget totals ''toolCalls'')),
               (''durationMs'', jcoal (jget snap ''durationMs'') (jget totals ''durationMs''))]),
            (''status'', if terminal then normalizeStatus raw else wf_status base),
            (''completionSource'', jcoal (jget base ''completionSource'') (if terminal then JStr ''reload'' else JNull))])"

definition hydrateFromSnapshot :: "int \<Rightarrow> string \<Rightarrow> jsval \<Rightarrow> workflow_store \<Rightarrow> workflow_store" where
  "hydrateFromSnapshot now toolUseId snap s =
     (case dget (ws_workflows s) toolUseId of
        None \<Rightarrow> s
      | Some base \<Rightarrow>
          if wf_status base = JStr ''running'' \<and> wf_order base \<noteq> [] then s
          else (let wfl = hydrated_workflow now base snap
                in s\<lparr>ws_workflows := dset toolUseId wfl (ws_workflows s),
                     ws_taskIdIndex := index_task (jget wfl ''taskId'') toolUseId (ws_taskIdIndex s)\<rparr>))"

definition markCompletion :: "int \<Rightarrow> string \<Rightarrow> jsval \<Rightarrow> workflow_store \<Rightarrow> bool \<times> workflow_store" where
  "markCompletion now idOrTaskId flds s =
     (if \<not> isTerminalRawStatus (jget flds ''rawStatus'') then (False, s)
      else case resolveId s idOrTaskId idOrTaskId of
             None \<Rightarrow> (False, s)
           | Some i \<Rightarrow>
               (True,
                case dget (ws_workflows s) i of
                  None \<Rightarrow> s
                | Some base \<Rightarrow>
                    s\<lparr>ws_workflows := dset i (jput base
                       [(''status'', normalizeStatus (jget flds ''rawStatus'')),
                        (''endedAt'', jcoal (jcoal (jget flds ''endedAt'') (jget base ''endedAt'')) (JNum now)),
                        (''summary'', jcoal (jget flds ''summary'') (jget base ''summary'')),
                        (''completionSource'', jcoal (jget flds ''source'') (jget base ''completionSource''))])
                       (ws_workflows s)\<rparr>))"

definition end_workflow :: "int \<Rightarrow> string \<Rightarrow> string \<Rightarrow> jsval \<Rightarrow> jsval" where
  "end_workflow now status source wfl =
     jput wfl [(''status'', JStr status), (''endedAt'', jcoal (jget wfl ''endedAt'') (JNum now)),
       (''completionSource'', jcoal (jget wfl ''completionSource'') (JStr source))]"

definition final_status :: "jsval \<Rightarrow> string" where
  "final_status wfl =
     (let (total, done', failed) = agentTally wfl
      in if failed > 0 then ''failed'' else if total > 0 \<and> done' = total then ''completed'' else ''stopped'')"

definition finalizeRunning :: "int \<Rightarrow> workflow_store \<Rightarrow> workflow_store" where
  "finalizeRunning now s =
     s\<lparr>ws_workflows := dmap (\<lambda>_ wfl. if wf_status wfl \<noteq> JStr ''running'' then wfl
         else end_workflow now (final_status wfl) ''stream_end'' wfl) (ws_workflows s)\<rparr>"

definition ws_abortRunning :: "int \<Rightarrow> workflow_store \<Rightarrow> workflow_store" where
  "ws_abortRunning now s =
     s\<lparr>ws_workflows := dmap (\<lambda>_ wfl. if wf_status wfl = JStr ''running'' \<or> wf_status wfl = JStr ''pending''
         then end_workflow now ''stopped'' ''abort'' wfl else wfl) (ws_workflows s)\<rparr>"

definition focusWorkflowAgent :: "jsval \<Rightarrow> jsval \<Rightarrow> workflow_store \<Rightarrow> workflow_store" where
  "focusWorkflowAgent workflowId agentIndex s =
     s\<lparr>ws_activeWorkflowId := workflowId, ws_activeAgentIndex := agentIndex,
       ws_focusTarget := JObj [(''type'', JStr ''workflow-agent''), (''workflowId'', workflowId), (''agentIndex'', agentIndex)],
       ws_focusRevision := ws_focusRevision s + 1\<rparr>"

definition setActiveWorkflowAgent :: "jsval \<Rightarrow> jsval \<Rightarrow> workflow_store \<Rightarrow> workflow_store" where
  "setActiveWorkflowAgent workflowId agentIndex s =
     s\<lparr>ws_activeWorkflowId := workflowId, ws_activeAgentIndex := agentIndex\<rparr>"

definition ws_clear :: "workflow_store \<Rightarrow> workflow_store" where
  "ws_clear s = createWorkflowStore"

section \<open>The machine\<close>

datatype ws_event =
    WsEnsure string jsval
  | WsStart int string jsval
  | WsProgress string jsval
  | WsHydrate int string jsval
  | WsComplete int string jsval
  | WsFinalize int
  | WsAbort int
  | WsFocus jsval jsval
  | WsSetActive jsval jsval
  | WsClear

primrec ws_step :: "workflow_store \<Rightarrow> ws_event \<Rightarrow> workflow_store" where
  "ws_step s (WsEnsure i seed) = ensureWorkflow i seed s"
| "ws_step s (WsStart now i flds) = applyStart now i flds s"
| "ws_step s (WsProgress i flds) = applyProgress i flds s"
| "ws_step s (WsHydrate now i snap) = hydrateFromSnapshot now i snap s"
| "ws_step s (WsComplete now i flds) = snd (markCompletion now i flds s)"
| "ws_step s (WsFinalize now) = finalizeRunning now s"
| "ws_step s (WsAbort now) = ws_abortRunning now s"
| "ws_step s (WsFocus w i) = focusWorkflowAgent w i s"
| "ws_step s (WsSetActive w i) = setActiveWorkflowAgent w i s"
| "ws_step s WsClear = ws_clear s"

text \<open>
  What the callers send: objects (with distinct keys); a seed does not carry the accumulated fields;
  progress items have an index and a phase index that are not NaN.
\<close>

definition obj_wf :: "jsval \<Rightarrow> bool" where
  "obj_wf o' \<longleftrightarrow> distinct (map fst (obj_of o'))"

definition seed_ok :: "jsval \<Rightarrow> bool" where
  "seed_ok seed \<longleftrightarrow> obj_wf seed \<and> \<not> has_own seed ''phases'' \<and> \<not> has_own seed ''agents'' \<and> \<not> has_own seed ''agentOrder''"

definition item_ok :: "jsval \<Rightarrow> bool" where
  "item_ok item \<longleftrightarrow> obj_wf item \<and> jget item ''index'' \<noteq> JNaN \<and> jget item ''phaseIndex'' \<noteq> JNaN"

definition items_ok :: "jsval \<Rightarrow> bool" where
  "items_ok flds \<longleftrightarrow> list_all item_ok (arr_of (jget flds ''workflowProgress''))"

primrec ws_ok :: "ws_event \<Rightarrow> bool" where
  "ws_ok (WsEnsure i seed) = seed_ok seed"
| "ws_ok (WsStart now i flds) = seed_ok flds"
| "ws_ok (WsProgress i flds) = items_ok flds"
| "ws_ok (WsHydrate now i snap) = items_ok snap"
| "ws_ok (WsComplete now i flds) = True"
| "ws_ok (WsFinalize now) = True"
| "ws_ok (WsAbort now) = True"
| "ws_ok (WsFocus w i) = True"
| "ws_ok (WsSetActive w i) = True"
| "ws_ok WsClear = True"

section \<open>The invariant of a workflow\<close>

text \<open>
  Phase rows have distinct indexes, agents are listed once, and every agent that names a phase has its
  row, so that the phase rail hides no agent.
\<close>

definition row_index :: "jsval \<Rightarrow> jsval" where
  "row_index p = jget p ''index''"

definition rows_ok :: "jsval list \<Rightarrow> bool" where
  "rows_ok ps \<longleftrightarrow> distinct (map row_index ps) \<and> JNaN \<notin> row_index ` set ps"

definition covered :: "jsval list \<Rightarrow> jsval \<Rightarrow> bool" where
  "covered ps agent \<longleftrightarrow> nullish (jget agent ''phaseIndex'') \<or> jget agent ''phaseIndex'' \<in> row_index ` set ps"

definition agents_covered :: "jsval list \<Rightarrow> jsval \<Rightarrow> bool" where
  "agents_covered ps agents \<longleftrightarrow> (\<forall>k. covered ps (jget agents k))"

definition wf_ok :: "jsval \<Rightarrow> bool" where
  "wf_ok w \<longleftrightarrow> rows_ok (wf_phases w) \<and> distinct (wf_order w) \<and> agents_covered (wf_phases w) (jget w ''agents'')"

lemma wf_ok_cong:
  "wf_phases w' = wf_phases w \<Longrightarrow> wf_order w' = wf_order w \<Longrightarrow> jget w' ''agents'' = jget w ''agents'' \<Longrightarrow> wf_ok w' = wf_ok w"
  by (simp add: wf_ok_def)

lemma sort_phases_rows: "row_index ` set (sort_phases ps) = row_index ` set ps" "rows_ok (sort_phases ps) = rows_ok ps"
proof -
  show "row_index ` set (sort_phases ps) = row_index ` set ps" by (simp add: sort_phases_def)
  have "mset (map row_index (sort_phases ps)) = mset (map row_index ps)" by (simp add: sort_phases_def)
  then show "rows_ok (sort_phases ps) = rows_ok ps"
    unfolding rows_ok_def using mset_eq_imp_distinct_iff by (metis (no_types, lifting) set_map mset_eq_setD)
qed

lemma covered_mono: "covered ps a \<Longrightarrow> row_index ` set ps \<subseteq> row_index ` set qs \<Longrightarrow> covered qs a"
  by (auto simp: covered_def)

lemma agents_covered_mono:
  "agents_covered ps ags \<Longrightarrow> row_index ` set ps \<subseteq> row_index ` set qs \<Longrightarrow> agents_covered qs ags"
  by (auto simp: agents_covered_def intro: covered_mono)

lemma rows_ok_update:
  "rows_ok ps \<Longrightarrow> i < length ps \<Longrightarrow> row_index p = row_index (ps ! i) \<Longrightarrow>
     rows_ok (ps[i := p]) \<and> row_index ` set (ps[i := p]) = row_index ` set ps"
proof -
  assume ok: "rows_ok ps" and i: "i < length ps" and same: "row_index p = row_index (ps ! i)"
  have "map row_index (ps[i := p]) = map row_index ps"
    using i same by (intro nth_equalityI) (auto simp: nth_upd)
  then show ?thesis using ok unfolding rows_ok_def by (metis set_map)
qed

lemma rows_ok_snoc:
  "rows_ok ps \<Longrightarrow> row_index p \<noteq> JNaN \<Longrightarrow> row_index p \<notin> row_index ` set ps \<Longrightarrow> rows_ok (ps @ [p])"
  by (auto simp: rows_ok_def)

lemma find_row_None:
  "find_index (same_index i) ps = None \<Longrightarrow> i \<noteq> JNaN \<Longrightarrow> i \<notin> row_index ` set ps"
  by (auto simp: find_index_None same_index_def row_index_def jeq_def)

lemma find_row_Some:
  "find_index (same_index i) ps = Some n \<Longrightarrow> n < length ps \<and> row_index (ps ! n) = i"
  by (auto simp: same_index_def row_index_def jeq_def dest: find_index_Some)

lemma map_of_defined:
  "distinct (map fst kvs) \<Longrightarrow> map_of (filter (\<lambda>(k, v). v \<noteq> JUndef) kvs) k =
     (case map_of kvs k of None \<Rightarrow> None | Some v \<Rightarrow> if v = JUndef then None else Some v)"
  by (induction kvs) (auto simp: map_of_eq_None_iff image_iff split: option.splits)

lemma strip_get: "obj_wf o' \<Longrightarrow> jget (strip o') k = jget o' k"
proof (cases o')
  case (JObj kvs)
  assume "obj_wf o'"
  then have "jget (strip o') k = (case (case map_of kvs k of None \<Rightarrow> None | Some v \<Rightarrow> if v = JUndef then None else Some v)
      of None \<Rightarrow> JUndef | Some v \<Rightarrow> v)"
    by (simp only: JObj strip_def obj_wf_def obj_of.simps jget.simps map_of_defined)
  also have "\<dots> = jget o' k" by (cases "map_of kvs k") (simp_all only: JObj jget.simps option.case split: if_split, simp)
  finally show ?thesis .
qed (simp_all add: strip_def)

lemma own_strip: "obj_wf o' \<Longrightarrow> has_own (strip o') k \<longleftrightarrow> jget o' k \<noteq> JUndef"
proof (cases o')
  case (JObj kvs)
  then show "obj_wf o' \<Longrightarrow> ?thesis" by (simp add: strip_def obj_wf_def map_of_defined split: option.split)
qed (simp_all add: strip_def)

lemma strip_own: "has_own (strip o') k \<Longrightarrow> has_own o' k"
proof (cases o')
  case (JObj kvs)
  have "map_of (filter P kvs) k \<noteq> None \<Longrightarrow> map_of kvs k \<noteq> None" for P
    by (induction kvs) (auto split: if_splits)
  then show "has_own (strip o') k \<Longrightarrow> ?thesis" unfolding JObj strip_def has_own.simps obj_of.simps by blast
qed (simp_all add: strip_def)

lemma strip_wf: "obj_wf o' \<Longrightarrow> obj_wf (strip o')"
  by (simp add: obj_wf_def strip_def distinct_map_filter)

text \<open>A merged delta has the delta's defined fields and the old value elsewhere.\<close>

lemma jget_merge:
  "obj_wf item \<Longrightarrow> jget (jspread prev (strip item)) k = (if jget item k = JUndef then jget prev k else jget item k)"
  using strip_wf [of item] own_strip [of item k] strip_get [of item k]
  by (simp add: jget_jspread obj_wf_def [symmetric, of "strip item"])

lemma case_obj_of: "(case map_of (obj_of o') k of None \<Rightarrow> JUndef | Some v \<Rightarrow> v) = jget o' k"
  by (cases o') simp_all

section \<open>Seeds and deltas keep it\<close>

lemma fill_field_other: "g \<noteq> f \<Longrightarrow> jget (fst (fill_field f v mc)) g = jget (fst mc) g"
  by (auto simp: fill_field_def)

lemma fill_declared_other: "g \<noteq> ''declaredAgents'' \<Longrightarrow> jget (fst (fill_declared v mc)) g = jget (fst mc) g"
  by (simp add: fill_declared_def)

lemma seed_phase_rows:
  assumes "rows_ok (fst pc)"
  shows "rows_ok (fst (seed_phase pc mp)) \<and> row_index ` set (fst pc) \<subseteq> row_index ` set (fst (seed_phase pc mp))"
proof (cases "find_index (same_index (JNum (int (mp_index mp)))) (fst pc)")
  case None
  from find_row_None [OF None] assms show ?thesis
    using None by (auto simp: seed_phase_def Let_def case_prod_unfold row_index_def intro!: rows_ok_snoc)
next
  case (Some n)
  let ?m = "fill_declared (opt_num (mp_agents mp)) (fill_field ''detail'' (opt_str (mp_detail mp))
     (fill_field ''title'' (opt_str (mp_title mp)) (fst pc ! n, False)))"
  from find_row_Some [OF Some] have n: "n < length (fst pc)" by simp
  have "row_index (fst ?m) = row_index (fst pc ! n)"
    by (simp add: row_index_def fill_field_other fill_declared_other)
  from rows_ok_update [OF assms n this] show ?thesis
    using Some assms by (auto simp: seed_phase_def Let_def case_prod_unfold)
qed

lemma seed_phases_rows:
  "rows_ok (fst pc) \<Longrightarrow> rows_ok (fst (foldl seed_phase pc mps)) \<and>
     row_index ` set (fst pc) \<subseteq> row_index ` set (fst (foldl seed_phase pc mps))"
proof (induction mps arbitrary: pc)
  case Nil
  then show ?case by simp
next
  case (Cons mp mps)
  from seed_phase_rows [OF Cons.prems, of mp] Cons.IH [of "seed_phase pc mp"] show ?case by auto
qed

lemma seed_names_keep:
  fixes meta :: wf_meta and w :: jsval
  defines "n \<equiv> fst (seed_name ''description'' (wm_description meta) (seed_name ''workflowName'' (wm_name meta) (w, False)))"
  shows "f \<notin> {''description'', ''workflowName''} \<Longrightarrow> jget n f = jget w f"
  by (simp add: n_def seed_name_def fill_field_other)

lemma seedFromScript_keeps:
  "f \<notin> {''description'', ''workflowName'', ''phases''} \<Longrightarrow> jget (seedFromScript w) f = jget w f"
proof -
  assume f: "f \<notin> {''description'', ''workflowName'', ''phases''}"
  then have "''phases'' \<noteq> f" by auto
  with f seed_names_keep [of f _ w] show ?thesis
    by (simp add: seedFromScript_def Let_def case_prod_unfold split: option.split)
qed

lemma seedFromScript_ok:
  assumes "wf_ok w"
  shows "wf_ok (seedFromScript w)"
proof -
  have ags: "jget (seedFromScript w) ''agents'' = jget w ''agents''" "wf_order (seedFromScript w) = wf_order w"
    by (simp_all add: wf_order_def seedFromScript_keeps)
  have "rows_ok (wf_phases (seedFromScript w)) \<and> row_index ` set (wf_phases w) \<subseteq> row_index ` set (wf_phases (seedFromScript w))"
  proof (cases "parseWorkflowMeta (jget w ''script'')")
    case None
    then show ?thesis using assms by (simp add: seedFromScript_def wf_ok_def)
  next
    case (Some meta)
    let ?n = "seed_name ''description'' (wm_description meta) (seed_name ''workflowName'' (wm_name meta) (w, False))"
    have ph: "wf_phases (fst ?n) = wf_phases w" using seed_names_keep [of "''phases''" meta w] by (simp add: wf_phases_def)
    have "rows_ok (fst (wf_phases (fst ?n), snd ?n))" using assms by (simp add: ph wf_ok_def)
    from seed_phases_rows [OF this, of "wm_phases meta"] show ?thesis
      using Some assms ph by (auto simp: seedFromScript_def Let_def case_prod_unfold wf_ok_def sort_phases_rows
          wf_phases_def [of "jset _ _ _"])
  qed
  then show ?thesis using assms ags unfolding wf_ok_def by (auto intro: agents_covered_mono)
qed

lemma jspread_seed:
  "seed_ok seed \<Longrightarrow> f \<in> {''phases'', ''agents'', ''agentOrder''} \<Longrightarrow> jget (jspread w (strip seed)) f = jget w f"
  using strip_own [of seed f] strip_wf [of seed]
  by (auto simp: seed_ok_def jget_jspread obj_wf_def)

lemma seed_ok_spread: "wf_ok w \<Longrightarrow> seed_ok seed \<Longrightarrow> wf_ok (jspread w (strip seed))"
  by (subst wf_ok_cong [of _ w]) (simp_all add: wf_phases_def wf_order_def jspread_seed)

lemma wf_ok_jset: "f \<notin> {''phases'', ''agents'', ''agentOrder''} \<Longrightarrow> wf_ok (jset f v w) = wf_ok w"
  by (rule wf_ok_cong) (simp_all add: wf_phases_def wf_order_def)

lemma wf_ok_jput:
  "fst ` set kvs \<inter> {''phases'', ''agents'', ''agentOrder''} = {} \<Longrightarrow> wf_ok (jput w kvs) = wf_ok w"
proof -
  assume "fst ` set kvs \<inter> {''phases'', ''agents'', ''agentOrder''} = {}"
  then have "''phases'' \<notin> fst ` set kvs" "''agents'' \<notin> fst ` set kvs" "''agentOrder'' \<notin> fst ` set kvs" by blast+
  then show ?thesis by (intro wf_ok_cong) (simp_all only: wf_phases_def wf_order_def jget_jput_other simp_thms)
qed

lemma empty_wf_ok: "wf_ok (emptyWorkflow i)"
  by (simp add: wf_ok_def emptyWorkflow_def wf_phases_def wf_order_def rows_ok_def agents_covered_def covered_def)

text \<open>The accumulation of progress items.\<close>

definition acc_ok :: "progress_acc \<Rightarrow> bool" where
  "acc_ok a \<longleftrightarrow> rows_ok (pa_phases a) \<and> distinct (pa_order a) \<and> agents_covered (pa_phases a) (pa_agents a)"

lemma phase_item_ok:
  assumes a: "acc_ok a" and item: "item_ok item" and ty: "jget item ''type'' = JStr ''workflow_phase''"
  shows "acc_ok (progress_item a item) \<and> row_index ` set (pa_phases a) \<subseteq> row_index ` set (pa_phases (progress_item a item))"
proof (cases "find_index (same_index (jget item ''index'')) (pa_phases a)")
  case None
  have "rows_ok (pa_phases a @ [JObj (obj_of item)])"
    using find_row_None [OF None] item a by (intro rows_ok_snoc) (simp_all add: acc_ok_def item_ok_def row_index_def case_obj_of)
  then show ?thesis using None a ty
    by (auto simp: progress_item_def acc_ok_def intro: agents_covered_mono)
next
  case (Some n)
  from find_row_Some [OF Some] have n: "n < length (pa_phases a)" "row_index (pa_phases a ! n) = jget item ''index''" by auto
  have "row_index (jspread (pa_phases a ! n) (strip item)) = row_index (pa_phases a ! n)"
    using n(2) item by (simp add: row_index_def jget_merge item_ok_def)
  from rows_ok_update [OF _ n(1) this] show ?thesis using Some a ty
    by (auto simp: progress_item_def acc_ok_def intro: agents_covered_mono)
qed

lemma agent_item_covered:
  assumes "item_ok item" and "covered ps prev" and "nullish (jget item ''phaseIndex'') \<or> jget item ''phaseIndex'' \<in> row_index ` set ps"
  shows "covered ps (if truthy prev then jspread prev (strip item) else JObj (obj_of item))"
  using assms by (auto simp: covered_def jget_merge item_ok_def case_obj_of)

lemma covered_jset: "agents_covered ps ags \<Longrightarrow> covered ps ag \<Longrightarrow> agents_covered ps (jset k ag ags)"
  by (simp add: agents_covered_def)

lemma agent_item_ok:
  assumes a: "acc_ok a" and item: "item_ok item" and ty: "jget item ''type'' = JStr ''workflow_agent''"
  shows "acc_ok (progress_item a item)"
proof -
  let ?ph = "jget item ''phaseIndex''" and ?i = "jget item ''index''"
  let ?need = "\<not> nullish ?ph \<and> \<not> (\<exists>p \<in> set (pa_phases a). same_index ?ph p)"
  let ?ps = "if ?need then pa_phases a @ [JObj [(''index'', ?ph)]] else pa_phases a"
  let ?new = "if truthy (agent_at (pa_agents a) ?i) then jspread (agent_at (pa_agents a) ?i) (strip item) else JObj (obj_of item)"
  have eq: "pa_phases (progress_item a item) = ?ps" "pa_order (progress_item a item) = push_new ?i (pa_order a)"
    "pa_agents (progress_item a item) = jset (to_str ?i) ?new (pa_agents a)"
    using ty by (simp_all add: progress_item_def Let_def)
  have row: "nullish ?ph \<or> ?ph \<in> row_index ` set ?ps"
    using item by (auto simp: same_index_def jeq_def item_ok_def row_index_def image_iff) metis
  have rows: "rows_ok ?ps"
    using a item by (auto simp: acc_ok_def item_ok_def row_index_def same_index_def jeq_def intro!: rows_ok_snoc)
  have cov: "agents_covered ?ps (pa_agents a)"
    using a by (auto simp: acc_ok_def intro: agents_covered_mono)
  have "covered ?ps ?new"
    using cov by (intro agent_item_covered [OF item _ row]) (simp add: agents_covered_def agent_at_def)
  then have "agents_covered ?ps (jset (to_str ?i) ?new (pa_agents a))" by (rule covered_jset [OF cov])
  moreover have "distinct (push_new ?i (pa_order a))" using a by (simp add: acc_ok_def)
  ultimately show ?thesis unfolding acc_ok_def eq using rows by blast
qed

lemma progress_item_ok: "acc_ok a \<Longrightarrow> item_ok item \<Longrightarrow> acc_ok (progress_item a item)"
  using phase_item_ok agent_item_ok
  by (cases "jget item ''type'' = JStr ''workflow_phase''"; cases "jget item ''type'' = JStr ''workflow_agent''")
    (simp_all add: progress_item_def)

lemma progress_fold_ok: "acc_ok a \<Longrightarrow> list_all item_ok items \<Longrightarrow> acc_ok (foldl progress_item a items)"
  by (induction items arbitrary: a) (simp_all add: progress_item_ok)

lemma progress_items_ok: "wf_ok w \<Longrightarrow> list_all item_ok (arr_of items) \<Longrightarrow> acc_ok (progress_items w items)"
  unfolding progress_items_def
  by (rule progress_fold_ok) (simp_all add: acc_ok_def wf_ok_def agents_covered_def case_obj_of)

lemma progressed_ok: "wf_ok w \<Longrightarrow> items_ok flds \<Longrightarrow> wf_ok (progressed_workflow w flds)"
proof -
  assume w: "wf_ok w" and items: "items_ok flds"
  define a where "a = progress_items w (jget flds ''workflowProgress'')"
  have a: "acc_ok a" using progress_items_ok [OF w] items by (simp add: a_def items_ok_def)
  have unchanged: "pa_phases a = wf_phases w" if "\<not> pa_changed a"
  proof -
    have "\<not> pa_changed (foldl progress_item b is) \<Longrightarrow> pa_phases (foldl progress_item b is) = pa_phases b \<and> \<not> pa_changed b" for b "is"
    proof (induction "is" arbitrary: b)
      case (Cons i "is")
      from Cons.IH [of "progress_item b i"] Cons.prems show ?case
        by (auto simp: progress_item_def Let_def split: if_splits)
    qed simp
    from this [of _ "arr_of (jget flds ''workflowProgress'')"] that show ?thesis by (force simp: a_def progress_items_def)
  qed
  have "wf_phases (progressed_workflow w flds) = (if pa_changed a then sort_phases (pa_phases a) else wf_phases w)"
    "wf_order (progressed_workflow w flds) = pa_order a" "jget (progressed_workflow w flds) ''agents'' = pa_agents a"
    by (simp_all add: progressed_workflow_def Let_def wf_phases_def wf_order_def jget_jput a_def)
  then show ?thesis using a w unchanged
    by (auto simp: wf_ok_def acc_ok_def sort_phases_rows intro: agents_covered_mono)
qed

lemma hydrated_ok: "wf_ok w \<Longrightarrow> items_ok snap \<Longrightarrow> wf_ok (hydrated_workflow now w snap)"
proof -
  assume w: "wf_ok w" and items: "items_ok snap"
  define a where "a = progress_items w (jget snap ''workflowProgress'')"
  have a: "acc_ok a" using progress_items_ok [OF w] items by (simp add: a_def items_ok_def)
  have "wf_phases (hydrated_workflow now w snap) = sort_phases (pa_phases a)"
    "wf_order (hydrated_workflow now w snap) = pa_order a" "jget (hydrated_workflow now w snap) ''agents'' = pa_agents a"
    by (simp_all add: hydrated_workflow_def Let_def wf_phases_def wf_order_def jget_jput a_def)
  then show ?thesis using a by (auto simp: wf_ok_def acc_ok_def sort_phases_rows intro: agents_covered_mono)
qed

lemma end_workflow_ok: "wf_ok (end_workflow now st src w) = wf_ok w"
  unfolding end_workflow_def by (rule wf_ok_jput) auto

section \<open>The invariant of the store\<close>

definition ws_inv :: "workflow_store \<Rightarrow> bool" where
  "ws_inv s \<longleftrightarrow> index_ok (ws_workflows s) (ws_order s)
     \<and> (\<forall>t i. dget (ws_taskIdIndex s) t = Some i \<longrightarrow> dget (ws_workflows s) i \<noteq> None)
     \<and> (\<forall>k w. dget (ws_workflows s) k = Some w \<longrightarrow> wf_ok w)"

lemma ws_inv_replace:
  assumes "ws_inv s" and "dget (ws_workflows s) k = Some w0" and "wf_ok w"
  shows "ws_inv (s\<lparr>ws_workflows := dset k w (ws_workflows s)\<rparr>)"
  using assms by (auto simp: ws_inv_def index_ok_def dkeys_iff)

lemma ws_inv_index:
  "ws_inv s \<Longrightarrow> dget (ws_workflows s) i \<noteq> None \<Longrightarrow> ws_inv (s\<lparr>ws_taskIdIndex := dset t i (ws_taskIdIndex s)\<rparr>)"
  by (auto simp: ws_inv_def)

lemma ws_inv_wf: "ws_inv s \<Longrightarrow> dget (ws_workflows s) k = Some w \<Longrightarrow> wf_ok w"
  by (simp add: ws_inv_def)

lemma ensure_inv:
  assumes inv: "ws_inv s" and seed: "seed_ok seed"
  shows "ws_inv (ensureWorkflow i seed s)"
proof (cases "dget (ws_workflows s) i")
  case None
  have "wf_ok (seedFromScript (jspread (emptyWorkflow i) (strip seed)))"
    by (intro seedFromScript_ok seed_ok_spread empty_wf_ok seed)
  then show ?thesis using None inv ws.upsert_ok [of s i]
    by (auto simp: ensureWorkflow_def ws_inv_def ws_upsert_def)
next
  case (Some w)
  have "wf_ok (merged_seed w (strip seed))"
    using seed_ok_spread [OF ws_inv_wf [OF inv Some] seed] by (simp add: merged_seed_def Let_def wf_ok_jset)
  from ws_inv_replace [OF inv Some seedFromScript_ok [OF this]] show ?thesis
    using Some inv by (simp add: ensureWorkflow_def)
qed

lemma running_seed_ok: "seed_ok running_seed"
  by (simp add: seed_ok_def running_seed_def obj_wf_def)

lemma started_ok: "wf_ok w \<Longrightarrow> seed_ok flds \<Longrightarrow> wf_ok (started_workflow now w flds)"
  unfolding started_workflow_def Let_def
  by (intro seedFromScript_ok) (simp add: wf_ok_jput seed_ok_spread)

lemma replace_and_index:
  assumes "ws_inv s" and "dget (ws_workflows s) k = Some w0" and "wf_ok w"
  shows "ws_inv (s\<lparr>ws_workflows := dset k w (ws_workflows s), ws_taskIdIndex := dset t k (ws_taskIdIndex s)\<rparr>)"
    and "ws_inv (s\<lparr>ws_workflows := dset k w (ws_workflows s), ws_taskIdIndex := index_task v k (ws_taskIdIndex s)\<rparr>)"
    and "ws_inv (s\<lparr>ws_workflows := dset k w (ws_workflows s), ws_taskIdIndex := ws_taskIdIndex s\<rparr>)"
  using ws_inv_replace [OF assms] by (auto simp: ws_inv_def index_task_def)

lemma ws_step_inv: "ws_inv s \<Longrightarrow> ws_ok e \<Longrightarrow> ws_inv (ws_step s e)"
proof (cases e)
  case (WsEnsure i seed)
  then show "ws_inv s \<Longrightarrow> ws_ok e \<Longrightarrow> ?thesis" by (simp add: ensure_inv)
next
  case (WsStart now i flds)
  assume inv: "ws_inv s" and ok: "ws_ok e"
  let ?s = "ensureWorkflow i running_seed s"
  have inv': "ws_inv ?s" by (rule ensure_inv [OF inv running_seed_ok])
  show ?thesis
  proof (cases "dget (ws_workflows ?s) i")
    case (Some w)
    have "wf_ok (started_workflow now w flds)" using ok WsStart by (intro started_ok ws_inv_wf [OF inv' Some]) simp
    from replace_and_index [OF inv' Some this] show ?thesis using Some WsStart by (simp add: applyStart_def Let_def)
  qed (simp add: WsStart applyStart_def inv')
next
  case (WsProgress i flds)
  assume inv: "ws_inv s" and ok: "ws_ok e"
  let ?s = "ensureWorkflow i running_seed s"
  have inv': "ws_inv ?s" by (rule ensure_inv [OF inv running_seed_ok])
  show ?thesis
  proof (cases "dget (ws_workflows ?s) i")
    case (Some w)
    have "wf_ok (progressed_workflow w flds)" using ok WsProgress by (intro progressed_ok ws_inv_wf [OF inv' Some]) simp
    from replace_and_index [OF inv' Some this] show ?thesis using Some WsProgress inv by (simp add: applyProgress_def Let_def)
  qed (simp add: WsProgress applyProgress_def inv inv')
next
  case (WsHydrate now i snap)
  assume inv: "ws_inv s" and ok: "ws_ok e"
  show ?thesis
  proof (cases "dget (ws_workflows s) i")
    case (Some w)
    have "wf_ok (hydrated_workflow now w snap)" using ok WsHydrate by (intro hydrated_ok ws_inv_wf [OF inv Some]) simp
    from replace_and_index [OF inv Some this] show ?thesis using Some WsHydrate inv by (simp add: hydrateFromSnapshot_def Let_def)
  qed (simp add: WsHydrate hydrateFromSnapshot_def inv)
next
  case (WsComplete now i flds)
  assume inv: "ws_inv s"
  have "wf_ok (jput w [(''status'', a), (''endedAt'', b), (''summary'', c), (''completionSource'', d)]) = wf_ok w" for w a b c d
    by (rule wf_ok_jput) auto
  then show ?thesis using inv ws_inv_wf [OF inv] ws_inv_replace [OF inv]
    by (auto simp: WsComplete markCompletion_def split: option.split)
qed (auto simp: finalizeRunning_def ws_abortRunning_def focusWorkflowAgent_def setActiveWorkflowAgent_def
    ws_clear_def createWorkflowStore_def ws_inv_def end_workflow_ok)

interpretation workflows: machine createWorkflowStore ws_step "\<lambda>_ e. ws_ok e" ws_inv
  by unfold_locales (simp_all add: ws_step_inv, simp add: ws_inv_def createWorkflowStore_def)

section \<open>Properties\<close>

text \<open>
  C16. After every sequence of events the order lists exactly the stored workflows, the task index points to
  stored workflows, and in every workflow phase rows have distinct indexes, agents are listed once
  and every agent that names a phase has its row.
\<close>

theorem workflow_invariant:
  assumes "list_all ws_ok es"
  shows "ws_inv (foldl ws_step createWorkflowStore es)"
proof -
  have "workflows.ok_run createWorkflowStore es"
    using assms by (intro workflows.all_ok_run) (simp add: list_all_iff)
  then show ?thesis using workflows.run_inv [of es] by (simp add: workflows.run_foldl)
qed

definition demo_progress :: jsval where
  "demo_progress = JObj [(''taskId'', JStr ''k1''), (''workflowProgress'', JArr
     [JObj [(''type'', JStr ''workflow_agent''), (''index'', JNum 1), (''phaseIndex'', JNum 2), (''state'', JStr ''done'')],
      JObj [(''type'', JStr ''workflow_phase''), (''index'', JNum 1), (''title'', JStr ''plan'')]])]"

definition demo_workflows :: workflow_store where
  "demo_workflows = foldl ws_step createWorkflowStore [WsStart 5 ''w1'' (JObj []), WsProgress ''w1'' demo_progress]"

lemma demo_workflows_ok: "list_all ws_ok [WsStart 5 ''w1'' (JObj []), WsProgress ''w1'' demo_progress]"
  by code_simp

theorem workflow_invariant_witness: "ws_inv demo_workflows"
  unfolding demo_workflows_def by (rule workflow_invariant [OF demo_workflows_ok])

lemma demo_workflows_inv: "ws_inv demo_workflows"
  using workflows.run_inv_from [OF workflows.inv_init, of "[WsStart 5 ''w1'' (JObj []), WsProgress ''w1'' demo_progress]"]
    demo_workflows_ok by (simp add: workflows.run_foldl demo_workflows_def)

lemma rollup_sum:
  assumes "distinct (map row_index ps)" and "JNaN \<notin> row_index ` set ps"
  shows "sum_list (map (\<lambda>p. length (filter (\<lambda>i. jeq (f i) (row_index p)) order)) ps)
     = length (filter (\<lambda>i. f i \<in> row_index ` set ps) order)"
  using assms
proof (induction ps)
  case Nil
  then show ?case by simp
next
  case (Cons p ps)
  then have notin: "row_index p \<notin> row_index ` set ps" and nan: "row_index p \<noteq> JNaN" by auto
  have "length (filter (\<lambda>i. jeq (f i) (row_index p)) order) + length (filter (\<lambda>i. f i \<in> row_index ` set ps) order)
      = length (filter (\<lambda>i. f i \<in> row_index ` set (p # ps)) order)"
    using notin nan by (induction order) (auto simp: jeq_def)
  with Cons show ?case by simp
qed

lemma rollup_parts: "pr_done (phaseRollup w i) + pr_running (phaseRollup w i) + pr_failed (phaseRollup w i) = pr_total (phaseRollup w i)"
proof -
  have "length (filter P xs) + length (filter (\<lambda>i. \<not> P i \<and> \<not> Q i) xs) + length (filter (\<lambda>i. \<not> P i \<and> Q i) xs) = length xs"
    for P Q :: "jsval \<Rightarrow> bool" and xs by (induction xs) auto
  then show ?thesis by (simp add: phaseRollup_def Let_def del: filter_filter)
qed

lemma rollups_cover:
  assumes "wf_ok w"
  shows "sum_list (map (\<lambda>p. pr_total (phaseRollup w (row_index p))) (wf_phases w))
     = length (filter (\<lambda>i. jget (wf_agent w i) ''phaseIndex'' \<in> row_index ` set (wf_phases w)) (wf_order w))"
  using rollup_sum [of "wf_phases w" "\<lambda>i. jget (wf_agent w i) ''phaseIndex''" "wf_order w"] assms
  by (simp add: phaseRollup_def Let_def wf_ok_def rows_ok_def)

text \<open>
  The phase rail hides no agent: in every stored workflow the totals of the phase rows add up to at least
  the number of agents that name a phase, and each rollup splits its total into done, running and
  failed.
\<close>

theorem phase_rail_complete:
  assumes "ws_inv s" and "dget (ws_workflows s) k = Some w"
  shows "length (filter (\<lambda>i. \<not> nullish (jget (wf_agent w i) ''phaseIndex'')) (wf_order w))
      \<le> sum_list (map (\<lambda>p. pr_total (phaseRollup w (row_index p))) (wf_phases w))
    \<and> pr_done (phaseRollup w j) + pr_running (phaseRollup w j) + pr_failed (phaseRollup w j) = pr_total (phaseRollup w j)"
proof -
  have ok: "wf_ok w" by (rule ws_inv_wf [OF assms])
  have "jget (wf_agent w i) ''phaseIndex'' \<in> row_index ` set (wf_phases w)"
    if "\<not> nullish (jget (wf_agent w i) ''phaseIndex'')" for i
    using ok that by (auto simp: wf_ok_def agents_covered_def covered_def wf_agent_def agent_at_def)
  then have "length (filter (\<lambda>i. \<not> nullish (jget (wf_agent w i) ''phaseIndex'')) xs)
      \<le> length (filter (\<lambda>i. jget (wf_agent w i) ''phaseIndex'' \<in> row_index ` set (wf_phases w)) xs)" for xs
    by (induction xs) auto
  with rollups_cover [OF ok] rollup_parts show ?thesis by simp
qed

theorem phase_rail_complete_witness:
  "length (filter (\<lambda>i. \<not> nullish (jget (wf_agent (the (dget (ws_workflows demo_workflows) ''w1'')) i) ''phaseIndex''))
       (wf_order (the (dget (ws_workflows demo_workflows) ''w1''))))
     \<le> sum_list (map (\<lambda>p. pr_total (phaseRollup (the (dget (ws_workflows demo_workflows) ''w1'')) (row_index p)))
         (wf_phases (the (dget (ws_workflows demo_workflows) ''w1''))))"
proof -
  have "dget (ws_workflows demo_workflows) ''w1'' \<noteq> None" by code_simp
  then have "dget (ws_workflows demo_workflows) ''w1'' = Some (the (dget (ws_workflows demo_workflows) ''w1''))" by simp
  from phase_rail_complete [OF demo_workflows_inv this] show ?thesis by blast
qed

text \<open>
  Completion is authoritative and gated: a status that is not terminal changes nothing and reports
  false; a terminal one, for a workflow found by its tool id or its task id, sets the bucket of that
  status and touches no other workflow.
\<close>

theorem completion_gated:
  assumes "resolveId s i i = Some k" and "dget (ws_workflows s) k = Some w"
  shows "(if isTerminalRawStatus (jget flds ''rawStatus'')
          then fst (markCompletion now i flds s)
             \<and> wf_status (the (dget (ws_workflows (snd (markCompletion now i flds s))) k)) = normalizeStatus (jget flds ''rawStatus'')
             \<and> (\<forall>k'. k' \<noteq> k \<longrightarrow> dget (ws_workflows (snd (markCompletion now i flds s))) k' = dget (ws_workflows s) k')
          else markCompletion now i flds s = (False, s))"
  using assms by (simp add: markCompletion_def wf_status_def jget_jput)

theorem completion_gated_witness:
  "fst (markCompletion 9 ''k1'' (JObj [(''rawStatus'', JStr ''killed'')]) demo_workflows)
   \<and> wf_status (the (dget (ws_workflows (snd (markCompletion 9 ''k1'' (JObj [(''rawStatus'', JStr ''killed'')]) demo_workflows))) ''w1'')) = JStr ''stopped''"
proof -
  have "resolveId demo_workflows ''k1'' ''k1'' = Some ''w1''" "dget (ws_workflows demo_workflows) ''w1'' \<noteq> None"
    "isTerminalRawStatus (jget (JObj [(''rawStatus'', JStr ''killed'')]) ''rawStatus'')"
    "normalizeStatus (jget (JObj [(''rawStatus'', JStr ''killed'')]) ''rawStatus'') = JStr ''stopped''" by code_simp+
  moreover from this(2) have "dget (ws_workflows demo_workflows) ''w1'' = Some (the (dget (ws_workflows demo_workflows) ''w1''))" by simp
  ultimately show ?thesis
    using completion_gated [of demo_workflows "''k1''" "''w1''" _ "JObj [(''rawStatus'', JStr ''killed'')]" 9] by auto
qed

text \<open>
  The end of a stream is reported honestly: afterwards no workflow is running, one that was running is
  completed only if it has agents and all of them are done, one with a failed agent is failed, and
  workflows that were not running are unchanged.
\<close>

theorem finalize_honest:
  assumes "dget (ws_workflows s) k = Some w"
  shows "\<exists>w'. dget (ws_workflows (finalizeRunning now s)) k = Some w' \<and> wf_status w' \<noteq> JStr ''running''
    \<and> (wf_status w \<noteq> JStr ''running'' \<longrightarrow> w' = w)
    \<and> (wf_status w = JStr ''running'' \<longrightarrow>
         (wf_status w' = JStr ''completed'' \<longleftrightarrow> wf_order w \<noteq> [] \<and> (\<forall>i \<in> set (wf_order w). is_done (wf_agent w i)))
         \<and> (wf_status w' = JStr ''failed'' \<longleftrightarrow> (\<exists>i \<in> set (wf_order w). is_failed (wf_agent w i))))"
proof -
  define w' where "w' = (if wf_status w \<noteq> JStr ''running'' then w else end_workflow now (final_status w) ''stream_end'' w)"
  have get: "dget (ws_workflows (finalizeRunning now s)) k = Some w'"
    using assms by (simp add: finalizeRunning_def w'_def)
  have st: "wf_status (end_workflow now st src w) = JStr st" for st src
    by (simp add: end_workflow_def wf_status_def jget_jput)
  have excl: "is_done a \<Longrightarrow> \<not> is_failed a" for a by (auto simp: is_done_def is_failed_def)
  have fin: "final_status w = (if \<exists>i \<in> set (wf_order w). is_failed (wf_agent w i) then ''failed''
      else if wf_order w \<noteq> [] \<and> (\<forall>i \<in> set (wf_order w). is_done (wf_agent w i)) then ''completed'' else ''stopped'')"
  proof -
    have "length (filter P xs) = length xs \<longleftrightarrow> (\<forall>x \<in> set xs. P x)" for P :: "jsval \<Rightarrow> bool" and xs
      by (metis filter_True filter_id_conv length_filter_less less_irrefl)
    moreover have "(\<exists>x \<in> set xs. \<not> is_done (f x) \<and> is_failed (f x)) \<longleftrightarrow> (\<exists>x \<in> set xs. is_failed (f x))"
      for xs and f :: "jsval \<Rightarrow> jsval" using excl by blast
    ultimately show ?thesis by (simp add: final_status_def agentTally_def filter_empty_conv)
  qed
  have "wf_status w' \<noteq> JStr ''running'' \<and> (wf_status w \<noteq> JStr ''running'' \<longrightarrow> w' = w)
    \<and> (wf_status w = JStr ''running'' \<longrightarrow>
         (wf_status w' = JStr ''completed'' \<longleftrightarrow> wf_order w \<noteq> [] \<and> (\<forall>i \<in> set (wf_order w). is_done (wf_agent w i)))
         \<and> (wf_status w' = JStr ''failed'' \<longleftrightarrow> (\<exists>i \<in> set (wf_order w). is_failed (wf_agent w i))))"
    using excl by (auto simp: w'_def st fin)
  with get show ?thesis by blast
qed

theorem finalize_honest_witness:
  "\<exists>w'. dget (ws_workflows (finalizeRunning 9 demo_workflows)) ''w1'' = Some w' \<and> wf_status w' \<noteq> JStr ''running''"
proof -
  have "dget (ws_workflows demo_workflows) ''w1'' \<noteq> None" by code_simp
  then have "dget (ws_workflows demo_workflows) ''w1'' = Some (the (dget (ws_workflows demo_workflows) ''w1''))" by simp
  from finalize_honest [OF this, of 9] show ?thesis by blast
qed

lemma ensure_running_status:
  assumes "i \<noteq> []"
  shows "\<exists>w. dget (ws_workflows (ensureWorkflow i running_seed s)) i = Some w \<and> wf_status w = JStr ''running''"
proof -
  have seed: "strip running_seed = running_seed" by (simp add: strip_def running_seed_def)
  have "wf_status (jspread w running_seed) = JStr ''running''" for w
    by (simp add: wf_status_def running_seed_def jspread_def jget_jput)
  moreover have "wf_status running_seed \<noteq> JStr ''pending''" by (simp add: running_seed_def wf_status_def)
  moreover have "wf_status (seedFromScript w) = wf_status w" for w by (simp add: wf_status_def seedFromScript_keeps)
  ultimately show ?thesis using assms
    by (auto simp: ensureWorkflow_def seed merged_seed_def Let_def ws_upsert_def split: option.split)
qed

text \<open>
  A start or progress event always leaves its workflow running, also one that had already reached a terminal
  status: \<^verbatim>\<open>ensureWorkflow(id, {status: 'running'})\<close> overwrites the status before the guard
  \<^verbatim>\<open>isTerminal(base.status)\<close> reads it.
\<close>

theorem late_events_revive:
  assumes "i \<noteq> []"
  shows "wf_status (the (dget (ws_workflows (applyProgress i flds s)) i)) = JStr ''running''
    \<and> wf_status (the (dget (ws_workflows (applyStart now i flds s)) i)) = JStr ''running''"
proof -
  obtain w where w: "dget (ws_workflows (ensureWorkflow i running_seed s)) i = Some w" "wf_status w = JStr ''running''"
    using ensure_running_status [OF assms] by blast
  have "wf_status (started_workflow now w flds) = JStr ''running''"
    unfolding wf_status_def started_workflow_def Let_def
    by (subst seedFromScript_keeps) (simp_all add: jget_jput keep_terminal_def w(2) isTerminal_def)
  moreover have "wf_status (progressed_workflow w flds) = keep_terminal w"
    by (simp add: wf_status_def progressed_workflow_def Let_def jget_jput)
  moreover have "keep_terminal w = JStr ''running''" by (simp add: keep_terminal_def w(2))
  ultimately show ?thesis using assms w by (simp add: applyProgress_def applyStart_def Let_def)
qed

definition demo_completed :: workflow_store where
  "demo_completed = snd (markCompletion 9 ''w1'' (JObj [(''rawStatus'', JStr ''completed'')]) demo_workflows)"

theorem late_events_revive_witness:
  "wf_status (the (dget (ws_workflows demo_completed) ''w1'')) = JStr ''completed''
   \<and> wf_status (the (dget (ws_workflows (applyProgress ''w1'' demo_progress demo_completed)) ''w1'')) = JStr ''running''"
proof -
  have "wf_status (the (dget (ws_workflows demo_completed) ''w1'')) = JStr ''completed''" by code_simp
  with late_events_revive [of "''w1''" demo_progress demo_completed] show ?thesis by simp
qed

end
