(* ===== verification/SdkTaskTracker.thy ===== *)
theory SdkTaskTracker
  imports JsRegex JsDict
begin

text \<open>
  The tracker of the agent's task list (\<^verbatim>\<open>web/user/src/utils/sdkTaskTracker.js\<close>): rounds with their task
  snapshots, the canonical tasks, and the tool calls whose results are awaited. A task is a
  JavaScript object; a round, a pending tool call and the tracker are records. The full-width colon
  and the dashes in the pattern of \<^verbatim>\<open>taskSubjectOrdinal\<close> are code units above 255 and have no
  character in the model.
\<close>

section \<open>Values\<close>

definition SDK_TASK_TOOL_NAMES :: "string list" where
  "SDK_TASK_TOOL_NAMES = [''TaskCreate'', ''TaskUpdate'', ''TaskGet'', ''TaskList'']"

definition TERMINAL_STATUSES :: "string list" where
  "TERMINAL_STATUSES = [''completed'', ''deleted'']"

definition asId :: "jsval \<Rightarrow> string option" where
  "asId v = (if nullish v \<or> v = JStr [] then None else Some (to_str v))"

definition asList :: "jsval \<Rightarrow> string list" where
  "asList v =
     (if is_arr v then filter (\<lambda>s. s \<noteq> []) (List.map_filter asId (arr_of v))
      else if nullish v \<or> v = JStr [] then [] else [to_str v])"

definition mergeUnique :: "jsval \<Rightarrow> jsval \<Rightarrow> string list" where
  "mergeUnique current added = foldl (\<lambda>acc s. push_new s acc) [] (asList current @ asList added)"

definition str_arr :: "string list \<Rightarrow> jsval" where
  "str_arr xs = JArr (map JStr xs)"

definition sdk_item_text :: "jsval \<Rightarrow> jsval" where
  "sdk_item_text item =
     (if is_str item then item else jor (jor (jget item ''text'') (jget item ''content'')) (JStr []))"

definition sdk_resultText :: "jsval \<Rightarrow> string" where
  "sdk_resultText resultBlock =
     (let content = jget resultBlock ''content''
      in if is_str content then str_of content
         else if \<not> is_arr content then []
         else join [newline] (map to_str (filter truthy (map sdk_item_text (arr_of content)))))"

definition structuredResult :: "jsval \<Rightarrow> jsval \<Rightarrow> jsval" where
  "structuredResult resultBlock toolUseResult =
     (if truthy toolUseResult \<and> is_object toolUseResult then toolUseResult
      else (let inline = jor (jget resultBlock ''tool_use_result'') (jget resultBlock ''toolUseResult'')
            in if truthy inline \<and> is_object inline then inline else JObj []))"

definition parseJsonResult :: "js_env \<Rightarrow> string \<Rightarrow> jsval" where
  "parseJsonResult env text =
     (let trimmed = trim text
      in if trimmed = [] \<or> (\<not> prefix ''{'' trimmed \<and> \<not> prefix ''['' trimmed) then JNull
         else (case env_parse_json env trimmed of Some v \<Rightarrow> v | None \<Rightarrow> JNull))"

text \<open>\<^verbatim>\<open>/[\s-]+/g\<close>\<close>

definition blank_run_rx :: rx where
  "blank_run_rx = rplus (RChr (\<lambda>c. is_ws c \<or> c = CHR ''-''))"

definition sdk_status_bucket :: "string \<Rightarrow> string" where
  "sdk_status_bucket status =
     (if status = ''running'' \<or> status = ''active'' then ''in_progress''
      else if status = ''done'' \<or> status = ''success'' then ''completed''
      else if status = ''waiting'' then ''pending''
      else if status = ''blocked'' then ''blocked''
      else if status = ''deleted'' then ''deleted''
      else if status \<in> {''in_progress'', ''completed'', ''pending''} then status
      else ''pending'')"

definition sdk_normalizeStatus :: "jsval \<Rightarrow> string" where
  "sdk_normalizeStatus v = sdk_status_bucket (rreplace blank_run_rx ''_'' (lower (to_str (jor v (JStr ''pending'')))))"

section \<open>Tasks\<close>

definition normalizeTask :: "jsval \<Rightarrow> jsval \<Rightarrow> jsval option" where
  "normalizeTask raw fallback =
     (let source = (if truthy raw \<and> is_object raw then raw else JObj [])
      in case asId (jcoal (jcoal (jcoal (jget source ''id'') (jget source ''taskId'')) (jget source ''task_id''))
                 (jget fallback ''id'')) of
           None \<Rightarrow> None
         | Some i \<Rightarrow>
             if i = [] then None
             else Some (jput fallback
               [(''id'', JStr i),
                (''subject'', jcoal (jcoal (jget source ''subject'') (jget fallback ''subject'')) (JStr (''Task #'' @ i))),
                (''description'', jcoal (jcoal (jget source ''description'') (jget fallback ''description'')) (JStr [])),
                (''activeForm'', jcoal (jcoal (jcoal (jget source ''activeForm'') (jget source ''active_form''))
                    (jget fallback ''activeForm'')) (JStr [])),
                (''owner'', jcoal (jcoal (jget source ''owner'') (jget fallback ''owner'')) (JStr [])),
                (''metadata'', jcoal (jcoal (jget source ''metadata'') (jget fallback ''metadata'')) JNull),
                (''status'', JStr (sdk_normalizeStatus (jcoal (jget source ''status'') (jget fallback ''status'')))),
                (''blocks'', str_arr (asList (jcoal (jget source ''blocks'') (jget fallback ''blocks'')))),
                (''blockedBy'', str_arr (asList (jcoal (jcoal (jget source ''blockedBy'') (jget source ''blocked_by''))
                    (jget fallback ''blockedBy'')))),
                (''provisional'', JBool (truthy (jcoal (jget source ''provisional'') (jget fallback ''provisional''))))]))"

definition patchTaskFromUpdate :: "jsval \<Rightarrow> jsval \<Rightarrow> jsval option" where
  "patchTaskFromUpdate task input =
     (let n1 = set_if (has_own input ''subject'') ''subject'' (jor (jget input ''subject'') (jget task ''subject'')) task;
          n2 = set_if (has_own input ''description'') ''description'' (jor (jget input ''description'') (JStr [])) n1;
          n3 = set_if (has_own input ''activeForm'') ''activeForm'' (jor (jget input ''activeForm'') (JStr [])) n2;
          n4 = set_if (has_own input ''owner'') ''owner'' (jor (jget input ''owner'') (JStr [])) n3;
          n5 = set_if (has_own input ''metadata'') ''metadata'' (jcoal (jget input ''metadata'') JNull) n4;
          n6 = set_if (has_own input ''status'') ''status'' (JStr (sdk_normalizeStatus (jget input ''status''))) n5;
          n7 = set_if (has_own input ''addBlocks'') ''blocks'' (str_arr (mergeUnique (jget n6 ''blocks'') (jget input ''addBlocks''))) n6;
          n8 = set_if (has_own input ''addBlockedBy'') ''blockedBy''
                 (str_arr (mergeUnique (jget n7 ''blockedBy'') (jget input ''addBlockedBy''))) n7
      in normalizeTask n8 (JObj []))"

definition isSdkTaskDone :: "jsval \<Rightarrow> bool" where
  "isSdkTaskDone task \<longleftrightarrow> sdk_normalizeStatus (jget task ''status'') \<in> set TERMINAL_STATUSES"

section \<open>State\<close>

record task_round =
  rd_id :: string
  rd_number :: int
  rd_title :: string
  rd_startedAt :: jsval
  rd_hasTaskEvents :: bool
  rd_tasks :: "(string, jsval) dict"
  rd_taskOrder :: "string list"

record tool_entry =
  te_name :: string
  te_input :: jsval
  te_roundId :: string
  te_previousTask :: "jsval option"
  te_provisionalKey :: "string option"

record tracker =
  tr_rounds :: "(string, task_round) dict"
  tr_roundOrder :: "string list"
  tr_currentRoundId :: "string option"
  tr_nextRoundNumber :: int
  tr_composerRoundIds :: "string list"
  tr_canonicalTasks :: "(string, jsval) dict"
  tr_canonicalTaskOrder :: "string list"
  tr_toolUses :: "(string, tool_entry) dict"

definition createSdkTaskTrackerState :: tracker where
  "createSdkTaskTrackerState =
     \<lparr>tr_rounds = dempty, tr_roundOrder = [], tr_currentRoundId = None, tr_nextRoundNumber = 1,
      tr_composerRoundIds = [], tr_canonicalTasks = dempty, tr_canonicalTaskOrder = [], tr_toolUses = dempty\<rparr>"

definition task_id :: "jsval \<Rightarrow> string" where
  "task_id task = to_str (jget task ''id'')"

definition task_key :: "jsval \<Rightarrow> string" where
  "task_key task = to_str (jor (jget task ''_key'') (jget task ''id''))"

definition round_upsert :: "string \<Rightarrow> jsval \<Rightarrow> task_round \<Rightarrow> task_round" where
  "round_upsert k t r = r\<lparr>rd_tasks := dset k t (rd_tasks r), rd_taskOrder := push_new k (rd_taskOrder r)\<rparr>"

definition round_drop :: "string \<Rightarrow> task_round \<Rightarrow> task_round" where
  "round_drop k r = r\<lparr>rd_tasks := ddel k (rd_tasks r), rd_taskOrder := filter (\<lambda>i. i \<noteq> k) (rd_taskOrder r)\<rparr>"

interpretation round_tasks: indexed_store rd_tasks rd_taskOrder round_upsert round_drop
  by unfold_locales (simp_all add: round_upsert_def round_drop_def)

definition put_round_task :: "string \<Rightarrow> jsval \<Rightarrow> task_round \<Rightarrow> task_round" where
  "put_round_task k task r = round_upsert k (jset ''_key'' (JStr k) task) r"

definition upsertRoundTask :: "task_round \<Rightarrow> jsval \<Rightarrow> string option \<Rightarrow> task_round" where
  "upsertRoundTask r task replaceKey =
     (let taskKey = task_key task;
          r1 = (case replaceKey of
                  Some old \<Rightarrow> if old \<noteq> [] \<and> old \<noteq> taskKey
                    then r\<lparr>rd_tasks := ddel old (rd_tasks r),
                           rd_taskOrder := map (\<lambda>i. if i = old then taskKey else i) (rd_taskOrder r)\<rparr>
                    else r
                | None \<Rightarrow> r)
      in put_round_task taskKey task r1)"

definition upsert_opt :: "task_round \<Rightarrow> jsval option \<Rightarrow> task_round" where
  "upsert_opt r task = (case task of None \<Rightarrow> r | Some t \<Rightarrow> upsertRoundTask r t None)"

definition removeRoundTask :: "task_round \<Rightarrow> string \<Rightarrow> task_round" where
  "removeRoundTask r taskKey =
     (if dget (rd_tasks r) taskKey = None then r
      else round_drop taskKey r)"

definition canonical_upsert :: "string \<Rightarrow> jsval \<Rightarrow> tracker \<Rightarrow> tracker" where
  "canonical_upsert k t s =
     s\<lparr>tr_canonicalTasks := dset k t (tr_canonicalTasks s), tr_canonicalTaskOrder := push_new k (tr_canonicalTaskOrder s)\<rparr>"

definition canonical_drop :: "string \<Rightarrow> tracker \<Rightarrow> tracker" where
  "canonical_drop k s =
     s\<lparr>tr_canonicalTasks := ddel k (tr_canonicalTasks s),
       tr_canonicalTaskOrder := filter (\<lambda>i. i \<noteq> k) (tr_canonicalTaskOrder s)\<rparr>"

interpretation canonical: indexed_store tr_canonicalTasks tr_canonicalTaskOrder canonical_upsert canonical_drop
  by unfold_locales (simp_all add: canonical_upsert_def canonical_drop_def)

definition put_canonical :: "string \<Rightarrow> jsval \<Rightarrow> tracker \<Rightarrow> tracker" where
  "put_canonical k task s = canonical_upsert k (jset ''_key'' (JStr k) task) s"

definition upsertCanonicalTask :: "tracker \<Rightarrow> jsval option \<Rightarrow> tracker" where
  "upsertCanonicalTask s task = (case task of None \<Rightarrow> s | Some t \<Rightarrow> put_canonical (task_id t) t s)"

definition removeCanonicalTask :: "tracker \<Rightarrow> string \<Rightarrow> tracker" where
  "removeCanonicalTask s taskId =
     (if dget (tr_canonicalTasks s) taskId = None then s
      else canonical_drop taskId s)"

definition round_task :: "tracker \<Rightarrow> string \<Rightarrow> string \<Rightarrow> jsval option" where
  "round_task s taskId roundId =
     (case dget (tr_rounds s) roundId of None \<Rightarrow> None | Some r \<Rightarrow> dget (rd_tasks r) taskId)"

definition findLatestSnapshot :: "tracker \<Rightarrow> string \<Rightarrow> jsval option" where
  "findLatestSnapshot s taskId =
     (case List.find (\<lambda>roundId. round_task s taskId roundId \<noteq> None) (rev (tr_roundOrder s)) of
        None \<Rightarrow> None
      | Some roundId \<Rightarrow> round_task s taskId roundId)"

definition current_task :: "tracker \<Rightarrow> string \<Rightarrow> jsval option" where
  "current_task s taskId =
     (case dget (tr_canonicalTasks s) taskId of Some t \<Rightarrow> Some t | None \<Rightarrow> findLatestSnapshot s taskId)"

definition open_snapshot :: "tracker \<Rightarrow> task_round \<Rightarrow> string \<Rightarrow> bool" where
  "open_snapshot s r taskKey =
     (case dget (rd_tasks r) taskKey of
        None \<Rightarrow> False
      | Some snapshot \<Rightarrow>
          if truthy (jget snapshot ''provisional'') then True
          else (let current = (case dget (tr_canonicalTasks s) (task_id snapshot) of Some t \<Rightarrow> t | None \<Rightarrow> snapshot)
                in \<not> isSdkTaskDone current))"

definition roundHasOpenCanonicalTask :: "tracker \<Rightarrow> string \<Rightarrow> bool" where
  "roundHasOpenCanonicalTask s roundId =
     (case dget (tr_rounds s) roundId of
        None \<Rightarrow> False
      | Some r \<Rightarrow> \<exists>taskKey \<in> set (rd_taskOrder r). open_snapshot s r taskKey)"

section \<open>Rounds\<close>

text \<open>
  The patterns of \<^verbatim>\<open>summarizeSdkTaskRoundTitle\<close>: embedded file blocks closed by their own tag, the list of
  attached files, any tag, and white space.
\<close>

definition not_gt :: "char \<Rightarrow> bool" where
  "not_gt c \<longleftrightarrow> c \<noteq> CHR ''>''"

definition file_block_rx :: rx where
  "file_block_rx =
     rseq [rlit ''<'', RGrp 1 (ralt [rlit_ci ''uploaded-files'', rlit_ci ''selected-file'', rlit_ci ''selected-xlsx'',
         rlit_ci ''file-reference'', rlit_ci ''quote-content'']),
       RWordB, RStar True (RChr not_gt), rlit ''>'', RStar False rany, rlit ''</'', RBack 1, rlit ''>'']"

definition attached_rx :: rx where
  "attached_rx =
     rseq [rlit_ci ''[Attached files'', RStar True (RChr (\<lambda>c. c \<noteq> CHR '']'')), rlit '']'', RStar True rws,
       rlit [newline], rlit ''```'', RStar False rany, rlit ''```'']"

definition tag_any_rx :: rx where
  "tag_any_rx = rseq [rlit ''<'', rplus (RChr not_gt), rlit ''>'']"

definition ellipsis :: char where
  "ellipsis = CHR 0x85"

definition summarizeSdkTaskRoundTitle :: "jsval \<Rightarrow> string" where
  "summarizeSdkTaskRoundTitle v =
     (let text = trim (rreplace (rplus rws) '' '' (rreplace tag_any_rx '' '' (rreplace attached_rx '' ''
                   (rreplace file_block_rx '' '' (to_str (jor v (JStr [])))))))
      in if text = [] then ''Agent task update''
         else if length text > 72 then take 71 text @ [ellipsis] else text)"

definition begun_round :: "int \<Rightarrow> jsval \<Rightarrow> tracker \<Rightarrow> string \<Rightarrow> int \<Rightarrow> task_round" where
  "begun_round now options base i number =
     (case dget (tr_rounds base) i of
        Some existing \<Rightarrow> existing\<lparr>rd_title := (if truthy (jget options ''title'')
            then summarizeSdkTaskRoundTitle (jget options ''title'') else rd_title existing)\<rparr>
      | None \<Rightarrow> \<lparr>rd_id = i, rd_number = number, rd_title = summarizeSdkTaskRoundTitle (jget options ''title''),
            rd_startedAt = jor (jget options ''startedAt'') (JNum now), rd_hasTaskEvents = False,
            rd_tasks = dempty, rd_taskOrder = []\<rparr>)"

definition beginSdkTaskRound :: "int \<Rightarrow> jsval \<Rightarrow> tracker \<Rightarrow> tracker" where
  "beginSdkTaskRound now options base =
     (let number = (case jget options ''number'' of JNum n \<Rightarrow> n | _ \<Rightarrow> tr_nextRoundNumber base);
          i = to_str (jor (jget options ''id'') (JStr (''round-'' @ show_int number)));
          seeded = base\<lparr>tr_rounds := dset i (begun_round now options base i number) (tr_rounds base)\<rparr>
      in seeded\<lparr>tr_roundOrder := push_new i (tr_roundOrder base), tr_currentRoundId := Some i,
           tr_nextRoundNumber := max (tr_nextRoundNumber base) (number + 1),
           tr_composerRoundIds := filter (roundHasOpenCanonicalTask seeded) (tr_composerRoundIds base)\<rparr>)"

definition has_round :: "tracker \<Rightarrow> string option \<Rightarrow> bool" where
  "has_round s roundId = (case roundId of None \<Rightarrow> False | Some i \<Rightarrow> i \<noteq> [] \<and> dget (tr_rounds s) i \<noteq> None)"

definition ensureRound :: "int \<Rightarrow> string option \<Rightarrow> tracker \<Rightarrow> tracker \<times> string" where
  "ensureRound now requested s =
     (if has_round s requested then (s, the requested)
      else if has_round s (tr_currentRoundId s) then (s, the (tr_currentRoundId s))
      else (let nxt = beginSdkTaskRound now (JObj [(''title'', JStr ''Agent task update'')]) s
            in (nxt, case tr_currentRoundId nxt of Some i \<Rightarrow> i | None \<Rightarrow> [])))"

section \<open>Results\<close>

text \<open>\<^verbatim>\<open>/Task\s+#([^\s:]+)\s+created/i\<close> and \<^verbatim>\<open>/^\s*No tasks found\s*$/i\<close>\<close>

definition created_rx :: rx where
  "created_rx = rseq [rlit_ci ''Task'', rplus rws, rlit ''#'', RGrp 1 (rplus (RChr (\<lambda>c. \<not> is_ws c \<and> c \<noteq> CHR '':''))),
     rplus rws, rlit_ci ''created'']"

definition no_tasks_rx :: rx where
  "no_tasks_rx = rseq [RBegin, RStar True rws, rlit_ci ''No tasks found'', RStar True rws, REnd]"

definition nonempty_id :: "string option \<Rightarrow> string option" where
  "nonempty_id i = (case i of Some [] \<Rightarrow> None | _ \<Rightarrow> i)"

definition parseCreatedTask :: "js_env \<Rightarrow> jsval \<Rightarrow> jsval \<Rightarrow> jsval \<Rightarrow> jsval option" where
  "parseCreatedTask env input resultBlock toolUseResult =
     (let structured = structuredResult resultBlock toolUseResult;
          parsed = parseJsonResult env (sdk_resultText resultBlock);
          resultTask = jor (jor (jget structured ''task'') (jget parsed ''task'')) JNull;
          i = (case nonempty_id (asId (jget resultTask ''id'')) of
                 Some x \<Rightarrow> Some x
               | None \<Rightarrow> rgroup created_rx 1 (sdk_resultText resultBlock))
      in case nonempty_id i of
           None \<Rightarrow> None
         | Some x \<Rightarrow> normalizeTask
             (jput (jspread (JObj (obj_of input)) (jor resultTask (JObj [])))
               [(''id'', JStr x), (''status'', jor (jget resultTask ''status'') (JStr ''pending''))]) (JObj []))"

definition opt_id :: "string option \<Rightarrow> jsval" where
  "opt_id i = (case i of Some x \<Rightarrow> JStr x | None \<Rightarrow> JNull)"

definition parseTaskGet :: "js_env \<Rightarrow> jsval \<Rightarrow> jsval \<Rightarrow> jsval \<Rightarrow> jsval option" where
  "parseTaskGet env input resultBlock toolUseResult =
     (let structured = structuredResult resultBlock toolUseResult;
          parsed = parseJsonResult env (sdk_resultText resultBlock);
          task = jor (jor (jget structured ''task'') (jget parsed ''task''))
                   (if truthy parsed \<and> \<not> is_arr parsed then parsed else JNull)
      in if \<not> truthy task then None
         else normalizeTask task (JObj [(''id'', opt_id (asId (jget input ''taskId'')))]))"

definition parseTaskList :: "js_env \<Rightarrow> jsval \<Rightarrow> jsval \<Rightarrow> jsval list option" where
  "parseTaskList env resultBlock toolUseResult =
     (let structured = structuredResult resultBlock toolUseResult;
          parsed = parseJsonResult env (sdk_resultText resultBlock);
          tasks = (if is_arr (jget structured ''tasks'') then jget structured ''tasks''
                   else if is_arr (jget parsed ''tasks'') then jget parsed ''tasks''
                   else if is_arr parsed then parsed else JNull)
      in if truthy tasks then Some (List.map_filter (\<lambda>t. normalizeTask t (JObj [])) (arr_of tasks))
         else if rtest no_tasks_rx (sdk_resultText resultBlock) then Some []
         else None)"

definition isSdkTaskToolName :: "jsval \<Rightarrow> bool" where
  "isSdkTaskToolName name \<longleftrightarrow> is_str name \<and> str_of name \<in> set SDK_TASK_TOOL_NAMES"

section \<open>Recording tool calls and results\<close>

definition provisional_task :: "string \<Rightarrow> jsval \<Rightarrow> jsval option" where
  "provisional_task provisionalKey input =
     normalizeTask (JObj
       [(''id'', JStr provisionalKey), (''subject'', jor (jget input ''subject'') (JStr (''Creating task'' @ [ellipsis]))),
        (''description'', jor (jget input ''description'') (JStr [])),
        (''activeForm'', jor (jget input ''activeForm'') (JStr [])),
        (''owner'', jor (jget input ''owner'') (JStr [])), (''metadata'', jor (jget input ''metadata'') JNull),
        (''status'', JStr ''pending''), (''provisional'', JBool True), (''_key'', JStr provisionalKey)]) (JObj [])"

definition updated_task :: "jsval option \<Rightarrow> string \<Rightarrow> jsval \<Rightarrow> jsval option" where
  "updated_task previous taskId input =
     (case (case previous of Some t \<Rightarrow> Some t | None \<Rightarrow> normalizeTask (JObj [(''id'', JStr taskId)]) (JObj [])) of
        None \<Rightarrow> None
      | Some t \<Rightarrow> patchTaskFromUpdate t input)"

text \<open>The effect of a call on the tracker and its round, with what the pending entry remembers.\<close>

definition use_effect ::
  "string \<Rightarrow> string \<Rightarrow> jsval \<Rightarrow> tracker \<Rightarrow> task_round \<Rightarrow> tracker \<times> task_round \<times> jsval option \<times> string option" where
  "use_effect name blockId input s r =
     (if name = ''TaskCreate''
      then (let k = ''pending:'' @ blockId in (s, upsert_opt r (provisional_task k input), None, Some k))
      else if name = ''TaskUpdate''
      then (case nonempty_id (asId (jget input ''taskId'')) of
              None \<Rightarrow> (s, r, None, None)
            | Some taskId \<Rightarrow>
                (let previous = current_task s taskId; updated = updated_task previous taskId input
                 in (upsertCanonicalTask s updated, upsert_opt r updated, previous, None)))
      else if name = ''TaskGet''
      then (case nonempty_id (asId (jget input ''taskId'')) of
              None \<Rightarrow> (s, r, None, None)
            | Some taskId \<Rightarrow> (s, upsert_opt r (current_task s taskId), None, None))
      else if name = ''TaskList''
      then (s, foldl (\<lambda>r taskId. upsert_opt r (dget (tr_canonicalTasks s) taskId)) r (tr_canonicalTaskOrder s), None, None)
      else (s, r, None, None))"

definition recordSdkTaskToolUse :: "int \<Rightarrow> jsval \<Rightarrow> string option \<Rightarrow> tracker \<Rightarrow> tracker" where
  "recordSdkTaskToolUse now block requested s0 =
     (if \<not> truthy (jget block ''id'') \<or> \<not> isSdkTaskToolName (jget block ''name'') then s0
      else
        (let (s, roundId) = ensureRound now requested s0;
             name = str_of (jget block ''name''); blockId = to_str (jget block ''id'');
             input = jor (jget block ''input'') (JObj [])
         in case dget (tr_rounds s) roundId of
              None \<Rightarrow> s
            | Some r0 \<Rightarrow>
                (let (s1, r, previous, provisionalKey) = use_effect name blockId input s (r0\<lparr>rd_hasTaskEvents := True\<rparr>)
                 in s1\<lparr>tr_rounds := dset roundId r (tr_rounds s1),
                       tr_composerRoundIds := push_new roundId (tr_composerRoundIds s1),
                       tr_toolUses := dset blockId \<lparr>te_name = name, te_input = input, te_roundId = roundId,
                         te_previousTask = previous, te_provisionalKey = provisionalKey\<rparr> (tr_toolUses s1)\<rparr>)))"

definition drop_provisional :: "tool_entry \<Rightarrow> task_round \<Rightarrow> task_round" where
  "drop_provisional e r = (case te_provisionalKey e of Some k \<Rightarrow> if k = [] then r else removeRoundTask r k | None \<Rightarrow> r)"

definition failed_effect :: "tool_entry \<Rightarrow> tracker \<Rightarrow> task_round \<Rightarrow> tracker \<times> task_round" where
  "failed_effect e s r0 =
     (let r = drop_provisional e r0
      in if te_name e = ''TaskUpdate''
         then (case nonempty_id (asId (jget (te_input e) ''taskId'')) of
                 None \<Rightarrow> (s, r)
               | Some taskId \<Rightarrow>
                   (case te_previousTask e of
                      Some t \<Rightarrow> (upsertCanonicalTask s (Some t), upsertRoundTask r t None)
                    | None \<Rightarrow> (removeCanonicalTask s taskId, removeRoundTask r taskId)))
         else (s, r))"

definition list_task :: "tracker \<times> task_round \<Rightarrow> jsval \<Rightarrow> tracker \<times> task_round" where
  "list_task sr task =
     (let (s, r) = sr;
          current = (case dget (tr_canonicalTasks s) (task_id task) of Some t \<Rightarrow> t | None \<Rightarrow> JObj []);
          merged = normalizeTask task current
      in (upsertCanonicalTask s merged, upsert_opt r merged))"

definition ok_effect ::
  "js_env \<Rightarrow> tool_entry \<Rightarrow> jsval \<Rightarrow> jsval \<Rightarrow> tracker \<Rightarrow> task_round \<Rightarrow> tracker \<times> task_round" where
  "ok_effect env e resultBlock toolUseResult s r =
     (if te_name e = ''TaskCreate''
      then (let r1 = drop_provisional e r
            in case parseCreatedTask env (te_input e) resultBlock toolUseResult of
                 None \<Rightarrow> (s, r1)
               | Some t \<Rightarrow> (upsertCanonicalTask s (Some t), upsertRoundTask r1 t (te_provisionalKey e)))
      else if te_name e = ''TaskUpdate''
      then (let structured = structuredResult resultBlock toolUseResult
            in case nonempty_id (asId (jcoal (jcoal (jget structured ''taskId'') (jget structured ''task_id''))
                   (jget (te_input e) ''taskId''))) of
                 None \<Rightarrow> (s, r)
               | Some taskId \<Rightarrow>
                   (let t = updated_task (dget (tr_canonicalTasks s) taskId) taskId (te_input e)
                    in (upsertCanonicalTask s t, upsert_opt r t)))
      else if te_name e = ''TaskGet''
      then (let t = parseTaskGet env (te_input e) resultBlock toolUseResult in (upsertCanonicalTask s t, upsert_opt r t))
      else if te_name e = ''TaskList''
      then (case parseTaskList env resultBlock toolUseResult of
              None \<Rightarrow> (s, r)
            | Some tasks \<Rightarrow> foldl list_task (s, r\<lparr>rd_tasks := dempty, rd_taskOrder := []\<rparr>) tasks)
      else (s, r))"

definition recordSdkTaskToolResult :: "js_env \<Rightarrow> string \<Rightarrow> jsval \<Rightarrow> jsval \<Rightarrow> tracker \<Rightarrow> tracker" where
  "recordSdkTaskToolResult env toolUseId resultBlock toolUseResult s0 =
     (case dget (tr_toolUses s0) toolUseId of
        None \<Rightarrow> s0
      | Some e \<Rightarrow>
          (let s = s0\<lparr>tr_toolUses := ddel toolUseId (tr_toolUses s0)\<rparr>
           in case dget (tr_rounds s) (te_roundId e) of
                None \<Rightarrow> s
              | Some r0 \<Rightarrow>
                  (let structured = structuredResult resultBlock toolUseResult;
                       failed = (truthy (jget resultBlock ''is_error'') \<or> jget structured ''success'' = JBool False
                         \<or> truthy (jget structured ''error''));
                       (s1, r) = (if failed then failed_effect e s r0 else ok_effect env e resultBlock toolUseResult s r0)
                   in s1\<lparr>tr_rounds := dset (te_roundId e) r (tr_rounds s1)\<rparr>)))"

section \<open>Selectors\<close>

definition getSdkTaskDisplayStatus :: "jsval \<Rightarrow> string" where
  "getSdkTaskDisplayStatus task =
     (let status = sdk_normalizeStatus (jget task ''status'')
      in if status \<notin> set TERMINAL_STATUSES \<and> asList (jget task ''blockedBy'') \<noteq> [] then ''blocked'' else status)"

definition getSdkTaskRoundTasks :: "task_round option \<Rightarrow> jsval list" where
  "getSdkTaskRoundTasks r =
     (case r of None \<Rightarrow> [] | Some r \<Rightarrow> List.map_filter (dget (rd_tasks r)) (rd_taskOrder r))"

text \<open>\<^verbatim>\<open>/^Task\s*#?(\d+)(?:\s*[:\-]|\s|$)/i\<close>\<close>

definition sdk_digit :: "char \<Rightarrow> bool" where
  "sdk_digit c \<longleftrightarrow> (let n = (of_char c :: nat) in 48 \<le> n \<and> n \<le> 57)"

definition ordinal_rx :: rx where
  "ordinal_rx =
     rseq [RBegin, rlit_ci ''Task'', RStar True rws, ropt (rlit ''#''), RGrp 1 (rplus (RChr sdk_digit)),
       ralt [RSeq (RStar True rws) (RChr (\<lambda>c. c = CHR '':'' \<or> c = CHR ''-'')), rws, REnd]]"

definition subject_text :: "jsval \<Rightarrow> string" where
  "subject_text task = trim (to_str (jor (jget task ''subject'') (JStr [])))"

definition taskSubjectOrdinal :: "jsval \<Rightarrow> string option" where
  "taskSubjectOrdinal task = rgroup ordinal_rx 1 (subject_text task)"

definition isGeneratedTaskPlaceholder :: "jsval \<Rightarrow> bool" where
  "isGeneratedTaskPlaceholder task =
     (case nonempty_id (asId (jget task ''id'')) of None \<Rightarrow> False | Some i \<Rightarrow> subject_text task = ''Task #'' @ i)"

definition mergeDisplayTask :: "jsval \<Rightarrow> jsval \<Rightarrow> jsval" where
  "mergeDisplayTask primary update =
     jput primary
       [(''status'', if isSdkTaskDone update
            \<or> \<not> isSdkTaskDone primary \<and> sdk_normalizeStatus (jget update ''status'') \<noteq> ''pending''
          then jget update ''status'' else jget primary ''status''),
        (''blocks'', str_arr (mergeUnique (jget primary ''blocks'') (jget update ''blocks''))),
        (''blockedBy'', str_arr (mergeUnique (jget primary ''blockedBy'') (jget update ''blockedBy'')))]"

text \<open>The downward loop of \<^verbatim>\<open>coalesceComposerTaskPlaceholders\<close>: \<open>n\<close> positions are left to visit.\<close>

definition richer_row :: "string \<Rightarrow> nat \<Rightarrow> jsval list \<Rightarrow> nat option" where
  "richer_row ordinal index result =
     find_index (\<lambda>(i, t). i \<noteq> index \<and> \<not> isGeneratedTaskPlaceholder t \<and> taskSubjectOrdinal t = Some ordinal)
       (enumerate 0 result)"

definition remove_at :: "nat \<Rightarrow> 'a list \<Rightarrow> 'a list" where
  "remove_at i xs = take i xs @ drop (Suc i) xs"

fun coalesce_loop :: "nat \<Rightarrow> jsval list \<Rightarrow> jsval list" where
  "coalesce_loop 0 result = result"
| "coalesce_loop (Suc index) result =
     (let placeholder = result ! index
      in if \<not> isGeneratedTaskPlaceholder placeholder then coalesce_loop index result
         else (case richer_row (task_id placeholder) index result of
                 None \<Rightarrow> coalesce_loop index result
               | Some p \<Rightarrow> coalesce_loop index
                   (remove_at index (result[p := mergeDisplayTask (result ! p) placeholder]))))"

definition coalesceComposerTaskPlaceholders :: "jsval list \<Rightarrow> jsval list" where
  "coalesceComposerTaskPlaceholders tasks = coalesce_loop (length tasks) tasks"

definition getSdkTaskComposerRoundIds :: "tracker \<Rightarrow> string list" where
  "getSdkTaskComposerRoundIds s =
     filter (\<lambda>roundId. case dget (tr_rounds s) roundId of
               None \<Rightarrow> False
             | Some r \<Rightarrow> if \<not> rd_hasTaskEvents r then False
                         else if Some roundId = tr_currentRoundId s then True
                         else roundHasOpenCanonicalTask s roundId) (tr_roundOrder s)"

definition composer_entry :: "tracker \<Rightarrow> (string, jsval) dict \<Rightarrow> jsval \<Rightarrow> (string, jsval) dict" where
  "composer_entry s byTaskId snapshot =
     (let key = (if truthy (jget snapshot ''provisional'') then to_str (jget snapshot ''_key'') else task_id snapshot);
          task = (if truthy (jget snapshot ''provisional'') then snapshot
                  else (case dget (tr_canonicalTasks s) (task_id snapshot) of Some t \<Rightarrow> t | None \<Rightarrow> snapshot))
      in dset key task (ddel key byTaskId))"

definition composer_map :: "tracker \<Rightarrow> (string, jsval) dict" where
  "composer_map s =
     foldl (\<lambda>m roundId. foldl (composer_entry s) m (getSdkTaskRoundTasks (dget (tr_rounds s) roundId)))
       dempty (getSdkTaskComposerRoundIds s)"

definition getSdkTaskComposerTasks :: "tracker \<Rightarrow> jsval list" where
  "getSdkTaskComposerTasks s = coalesceComposerTaskPlaceholders (dvals (composer_map s))"

definition getSdkTaskProgress :: "jsval list \<Rightarrow> nat \<times> nat" where
  "getSdkTaskProgress tasks = (length (filter isSdkTaskDone tasks), length tasks)"

definition hasSdkTaskTrackerRounds :: "tracker \<Rightarrow> bool" where
  "hasSdkTaskTrackerRounds s \<longleftrightarrow>
     (\<exists>i \<in> set (tr_roundOrder s). case dget (tr_rounds s) i of None \<Rightarrow> False | Some r \<Rightarrow> rd_hasTaskEvents r)"

section \<open>The machine\<close>

datatype tr_event =
    TrBegin int jsval
  | TrUse int jsval "string option"
  | TrResult js_env string jsval jsval

primrec tr_step :: "tracker \<Rightarrow> tr_event \<Rightarrow> tracker" where
  "tr_step s (TrBegin now options) = beginSdkTaskRound now options s"
| "tr_step s (TrUse now block requested) = recordSdkTaskToolUse now block requested s"
| "tr_step s (TrResult env i resultBlock toolUseResult) = recordSdkTaskToolResult env i resultBlock toolUseResult s"

section \<open>The invariant\<close>

text \<open>
  Every stored task is filed under its own id; each order list names exactly the stored keys; the current
  round, the composer's rounds and the rounds of pending calls exist.
\<close>

definition keyed_task :: "string \<Rightarrow> jsval \<Rightarrow> bool" where
  "keyed_task k t \<longleftrightarrow> k \<noteq> [] \<and> jget t ''id'' = JStr k \<and> jget t ''_key'' = JStr k"

definition fresh_task :: "jsval \<Rightarrow> bool" where
  "fresh_task t \<longleftrightarrow> (\<exists>k. k \<noteq> [] \<and> jget t ''id'' = JStr k \<and> (jget t ''_key'' = JUndef \<or> jget t ''_key'' = JStr k))"

definition rd_ok :: "task_round \<Rightarrow> bool" where
  "rd_ok r \<longleftrightarrow> index_ok (rd_tasks r) (rd_taskOrder r) \<and> (\<forall>k t. dget (rd_tasks r) k = Some t \<longrightarrow> keyed_task k t)"

definition canon_ok :: "tracker \<Rightarrow> bool" where
  "canon_ok s \<longleftrightarrow> index_ok (tr_canonicalTasks s) (tr_canonicalTaskOrder s)
     \<and> (\<forall>k t. dget (tr_canonicalTasks s) k = Some t \<longrightarrow> keyed_task k t)"

definition rounds_ok :: "tracker \<Rightarrow> bool" where
  "rounds_ok s \<longleftrightarrow> index_ok (tr_rounds s) (tr_roundOrder s)
     \<and> (\<forall>k r. dget (tr_rounds s) k = Some r \<longrightarrow> rd_id r = k \<and> rd_ok r)
     \<and> (\<forall>i. tr_currentRoundId s = Some i \<longrightarrow> dget (tr_rounds s) i \<noteq> None)
     \<and> distinct (tr_composerRoundIds s) \<and> set (tr_composerRoundIds s) \<subseteq> set (dkeys (tr_rounds s))
     \<and> (\<forall>u e. dget (tr_toolUses s) u = Some e \<longrightarrow> dget (tr_rounds s) (te_roundId e) \<noteq> None)"

definition pending_tasks_ok :: "tracker \<Rightarrow> bool" where
  "pending_tasks_ok s \<longleftrightarrow>
     (\<forall>u e t. dget (tr_toolUses s) u = Some e \<longrightarrow> te_previousTask e = Some t \<longrightarrow> fresh_task t)"

definition tr_inv :: "tracker \<Rightarrow> bool" where
  "tr_inv s \<longleftrightarrow> rounds_ok s \<and> canon_ok s \<and> pending_tasks_ok s"

lemma keyed_fresh: "keyed_task k t \<Longrightarrow> fresh_task t"
  by (auto simp: keyed_task_def fresh_task_def)

lemma keyed_jset: "fresh_task t \<Longrightarrow> keyed_task (task_key t) (jset ''_key'' (JStr (task_key t)) t)"
  by (auto simp: fresh_task_def keyed_task_def task_key_def jor_def)

lemma fresh_key_id: "fresh_task t \<Longrightarrow> task_key t = task_id t"
  by (auto simp: fresh_task_def task_key_def task_id_def jor_def)

lemma rd_ok_upsert: "rd_ok r \<Longrightarrow> keyed_task k t \<Longrightarrow> rd_ok (round_upsert k t r)"
  using round_tasks.upsert_ok [of r k t] by (auto simp: rd_ok_def round_tasks.lookup_upsert)

lemma rd_ok_drop: "rd_ok r \<Longrightarrow> rd_ok (round_drop k r)"
  using round_tasks.remove_ok [of r k] by (auto simp: rd_ok_def round_tasks.lookup_remove)

lemma canon_ok_upsert: "canon_ok s \<Longrightarrow> keyed_task k t \<Longrightarrow> canon_ok (canonical_upsert k t s)"
  using canonical.upsert_ok [of s k t] by (auto simp: canon_ok_def canonical.lookup_upsert)

lemma canon_ok_drop: "canon_ok s \<Longrightarrow> canon_ok (canonical_drop k s)"
  using canonical.remove_ok [of s k] by (auto simp: canon_ok_def canonical.lookup_remove)

lemma rd_ok_remove: "rd_ok r \<Longrightarrow> rd_ok (removeRoundTask r k)"
  by (simp add: removeRoundTask_def rd_ok_drop)

text \<open>The replaced key of a creation has been removed from the round before, so nothing is renamed.\<close>

lemma upsertRoundTask_plain:
  "(case old of None \<Rightarrow> True | Some k \<Rightarrow> k \<notin> set (rd_taskOrder r)) \<Longrightarrow>
     rd_ok r \<Longrightarrow> upsertRoundTask r t old = put_round_task (task_key t) t r"
proof (cases old)
  case (Some k)
  assume free: "case old of None \<Rightarrow> True | Some k \<Rightarrow> k \<notin> set (rd_taskOrder r)" and r: "rd_ok r"
  from free Some have k: "k \<notin> set (rd_taskOrder r)" by simp
  with r have "k \<notin> fst ` set (rd_tasks r)" by (simp add: rd_ok_def index_ok_def dkeys_def)
  then have "ddel k (rd_tasks r) = rd_tasks r" by (simp add: ddel_def delete_idem)
  moreover have "map (\<lambda>i. if i = k then j else i) (rd_taskOrder r) = rd_taskOrder r" for j
    using k by (intro map_idI) auto
  ultimately show ?thesis by (simp add: upsertRoundTask_def Some Let_def)
qed (simp add: upsertRoundTask_def Let_def)

lemma put_round_task_ok: "rd_ok r \<Longrightarrow> fresh_task t \<Longrightarrow> rd_ok (put_round_task (task_key t) t r)"
  by (simp add: put_round_task_def rd_ok_upsert keyed_jset)

lemma upsert_opt_ok: "rd_ok r \<Longrightarrow> (\<And>t. task = Some t \<Longrightarrow> fresh_task t) \<Longrightarrow> rd_ok (upsert_opt r task)"
  by (cases task) (simp_all add: upsert_opt_def upsertRoundTask_plain put_round_task_ok)

lemma put_canonical_ok: "canon_ok s \<Longrightarrow> fresh_task t \<Longrightarrow> canon_ok (put_canonical (task_id t) t s)"
  using keyed_jset [of t] fresh_key_id [of t] by (simp add: put_canonical_def canon_ok_upsert)

lemma upsertCanonical_ok: "canon_ok s \<Longrightarrow> (\<And>t. task = Some t \<Longrightarrow> fresh_task t) \<Longrightarrow> canon_ok (upsertCanonicalTask s task)"
  by (cases task) (simp_all add: upsertCanonicalTask_def put_canonical_ok)

lemma upsertCanonical_Some_ok: "canon_ok s \<Longrightarrow> fresh_task t \<Longrightarrow> canon_ok (upsertCanonicalTask s (Some t))"
  by (simp add: upsertCanonicalTask_def put_canonical_ok)

lemma put_round_task_id [simp]: "rd_id (put_round_task k t r) = rd_id r"
  by (simp add: put_round_task_def round_upsert_def)

lemma upsertCanonical_frame [simp]:
  "tr_rounds (upsertCanonicalTask s t) = tr_rounds s" "tr_roundOrder (upsertCanonicalTask s t) = tr_roundOrder s"
  "tr_currentRoundId (upsertCanonicalTask s t) = tr_currentRoundId s"
  "tr_composerRoundIds (upsertCanonicalTask s t) = tr_composerRoundIds s"
  "tr_toolUses (upsertCanonicalTask s t) = tr_toolUses s"
  by (simp_all add: upsertCanonicalTask_def put_canonical_def canonical_upsert_def split: option.split)

lemma removeCanonical_frame [simp]:
  "tr_rounds (removeCanonicalTask s k) = tr_rounds s" "tr_roundOrder (removeCanonicalTask s k) = tr_roundOrder s"
  "tr_currentRoundId (removeCanonicalTask s k) = tr_currentRoundId s"
  "tr_composerRoundIds (removeCanonicalTask s k) = tr_composerRoundIds s"
  "tr_toolUses (removeCanonicalTask s k) = tr_toolUses s"
  by (simp_all add: removeCanonicalTask_def canonical_drop_def)

lemma removeCanonical_ok: "canon_ok s \<Longrightarrow> canon_ok (removeCanonicalTask s k)"
  by (simp add: removeCanonicalTask_def canon_ok_drop)

section \<open>Tasks the tracker builds\<close>

lemma normalizeTask_fields:
  assumes "normalizeTask raw fb = Some t"
  shows "\<exists>i. i \<noteq> [] \<and> jget t ''id'' = JStr i" and "jget t ''_key'' = jget fb ''_key''"
    and "\<exists>s. jget t ''status'' = JStr (sdk_normalizeStatus s)"
  using assms by (auto simp: normalizeTask_def Let_def jget_jput split: option.splits if_splits)

lemma normalizeTask_with_id:
  assumes "jget raw ''id'' = JStr k" and "k \<noteq> []"
  shows "\<exists>t. normalizeTask raw fb = Some t \<and> jget t ''id'' = JStr k"
proof -
  obtain kvs where raw: "raw = JObj kvs" using assms(1) by (cases raw) auto
  have src: "(if truthy raw \<and> is_object raw then raw else JObj []) = raw" by (simp add: raw)
  have "asId (jcoal (jcoal (jcoal (jget raw ''id'') a) b) c) = Some k" for a b c
    using assms by (simp add: jcoal_def asId_def)
  then show ?thesis using assms(2) unfolding normalizeTask_def Let_def src
    by (simp add: jget_jput del: jget.simps)
qed

lemma normalizeTask_fresh: "normalizeTask raw fb = Some t \<Longrightarrow> jget fb ''_key'' = JUndef \<Longrightarrow> fresh_task t"
  using normalizeTask_fields [of raw fb t] by (auto simp: fresh_task_def)

lemma normalizeTask_new: "normalizeTask raw (JObj []) = Some t \<Longrightarrow> fresh_task t"
  by (erule normalizeTask_fresh) simp

lemma patch_fresh: "patchTaskFromUpdate t input = Some t' \<Longrightarrow> fresh_task t'"
  unfolding patchTaskFromUpdate_def Let_def by (erule normalizeTask_fresh) simp

lemma updated_fresh: "updated_task p i input = Some t \<Longrightarrow> fresh_task t"
  by (auto simp: updated_task_def intro: patch_fresh split: option.splits)

lemma provisional_fresh: "provisional_task k input = Some t \<Longrightarrow> fresh_task t"
  unfolding provisional_task_def by (erule normalizeTask_fresh) simp

lemma created_fresh: "parseCreatedTask env input rb tur = Some t \<Longrightarrow> fresh_task t"
  unfolding parseCreatedTask_def Let_def by (auto split: option.splits intro: normalizeTask_fresh)

lemma get_fresh: "parseTaskGet env input rb tur = Some t \<Longrightarrow> fresh_task t"
  unfolding parseTaskGet_def Let_def by (auto split: if_splits intro: normalizeTask_fresh)

lemma list_fresh: "parseTaskList env rb tur = Some ts \<Longrightarrow> t \<in> set ts \<Longrightarrow> fresh_task t"
proof -
  assume ts: "parseTaskList env rb tur = Some ts" and t: "t \<in> set ts"
  have all: "fresh_task u" if "u \<in> set (List.map_filter (\<lambda>t. normalizeTask t (JObj [])) xs)" for u xs
  proof -
    from that obtain x where "normalizeTask x (JObj []) = Some u" by (auto simp: List.map_filter_def)
    then show ?thesis by (rule normalizeTask_new)
  qed
  from ts have "ts = [] \<or> (\<exists>xs. ts = List.map_filter (\<lambda>t. normalizeTask t (JObj [])) xs)"
    unfolding parseTaskList_def Let_def by (auto split: if_splits)
  with t all show ?thesis by auto
qed

lemma canon_fresh: "canon_ok s \<Longrightarrow> dget (tr_canonicalTasks s) k = Some t \<Longrightarrow> fresh_task t"
  by (auto simp: canon_ok_def intro: keyed_fresh)

lemma snapshot_keyed: "rounds_ok s \<Longrightarrow> findLatestSnapshot s k = Some t \<Longrightarrow> keyed_task k t"
  by (auto simp: findLatestSnapshot_def round_task_def rounds_ok_def rd_ok_def split: option.splits)

lemma current_keyed: "rounds_ok s \<Longrightarrow> canon_ok s \<Longrightarrow> current_task s k = Some t \<Longrightarrow> keyed_task k t"
  by (auto simp: current_task_def canon_ok_def snapshot_keyed split: option.splits)

section \<open>Every operation keeps the invariant\<close>

lemma put_round_ok:
  assumes "rounds_ok s" and "dget (tr_rounds s) k = Some r0" and "rd_ok r" and "rd_id r = k"
  shows "rounds_ok (s\<lparr>tr_rounds := dset k r (tr_rounds s)\<rparr>)"
  using assms by (auto simp: rounds_ok_def index_ok_def dkeys_iff)

lemma begin_fields:
  fixes now :: int and options :: jsval and base :: tracker
  defines "s \<equiv> beginSdkTaskRound now options base"
  shows "\<exists>i n. tr_rounds s = dset i (begun_round now options base i n) (tr_rounds base)
     \<and> tr_roundOrder s = push_new i (tr_roundOrder base) \<and> tr_currentRoundId s = Some i"
    and "set (tr_composerRoundIds s) \<subseteq> set (tr_composerRoundIds base)"
    and "distinct (tr_composerRoundIds base) \<Longrightarrow> distinct (tr_composerRoundIds s)"
    and "tr_canonicalTasks s = tr_canonicalTasks base" "tr_canonicalTaskOrder s = tr_canonicalTaskOrder base"
    and "tr_toolUses s = tr_toolUses base"
  by (auto simp: s_def beginSdkTaskRound_def Let_def)

lemma begin_inv:
  assumes "tr_inv s"
  shows "tr_inv (beginSdkTaskRound now options s)"
proof -
  let ?s = "beginSdkTaskRound now options s"
  from begin_fields(1) [of now options s] obtain i n where f: "tr_rounds ?s = dset i (begun_round now options s i n) (tr_rounds s)"
    "tr_roundOrder ?s = push_new i (tr_roundOrder s)" "tr_currentRoundId ?s = Some i" by blast
  have new: "rd_id (begun_round now options s i n) = i \<and> rd_ok (begun_round now options s i n)"
    using assms by (auto simp: begun_round_def tr_inv_def rounds_ok_def rd_ok_def split: option.split)
  have ix: "index_ok (tr_rounds ?s) (tr_roundOrder ?s)"
    using assms by (auto simp: f tr_inv_def rounds_ok_def index_ok_def)
  have rnd: "rd_id r = k \<and> rd_ok r" if "dget (tr_rounds ?s) k = Some r" for k r
    using that new assms by (auto simp: f tr_inv_def rounds_ok_def split: if_splits)
  have comp: "distinct (tr_composerRoundIds ?s)" "set (tr_composerRoundIds ?s) \<subseteq> set (dkeys (tr_rounds ?s))"
    using begin_fields(2,3) [where now = now and options = options and base = s] assms by (auto simp: f tr_inv_def rounds_ok_def)
  have uses: "dget (tr_rounds ?s) (te_roundId e) \<noteq> None" if "dget (tr_toolUses ?s) u = Some e" for u e
    using that assms begin_fields(6) [where now = now and options = options and base = s] by (auto simp: f tr_inv_def rounds_ok_def)
  have "rounds_ok ?s" unfolding rounds_ok_def using ix rnd comp uses f(3) by (auto simp: f(1))
  moreover have "canon_ok ?s \<and> pending_tasks_ok ?s"
    using assms begin_fields(4-6) [where now = now and options = options and base = s] by (simp add: tr_inv_def canon_ok_def pending_tasks_ok_def)
  ultimately show ?thesis by (simp add: tr_inv_def)
qed

lemma ensureRound_inv:
  assumes "tr_inv s"
  shows "tr_inv (fst (ensureRound now req s)) \<and> dget (tr_rounds (fst (ensureRound now req s))) (snd (ensureRound now req s)) \<noteq> None"
proof -
  have "tr_inv (beginSdkTaskRound now o' s)" for o' by (rule begin_inv [OF assms])
  moreover have "\<exists>i. tr_currentRoundId (beginSdkTaskRound now o' s) = Some i \<and> dget (tr_rounds (beginSdkTaskRound now o' s)) i \<noteq> None" for o'
    using begin_fields(1) [of now o' s] by (auto simp: )
  ultimately show ?thesis using assms
    by (auto simp: ensureRound_def has_round_def Let_def split: option.splits) (metis option.distinct(1) option.inject)+
qed

text \<open>What an effect on a tracker and one of its rounds may do.\<close>

definition effect_ok :: "tracker \<Rightarrow> task_round \<Rightarrow> tracker \<Rightarrow> task_round \<Rightarrow> bool" where
  "effect_ok s r s' r' \<longleftrightarrow> canon_ok s' \<and> rd_ok r' \<and> rd_id r' = rd_id r
     \<and> tr_rounds s' = tr_rounds s \<and> tr_roundOrder s' = tr_roundOrder s \<and> tr_currentRoundId s' = tr_currentRoundId s
     \<and> tr_composerRoundIds s' = tr_composerRoundIds s \<and> tr_toolUses s' = tr_toolUses s"

lemma round_id_kept [simp]:
  "rd_id (upsert_opt r t) = rd_id r" "rd_id (removeRoundTask r k) = rd_id r" "rd_id (upsertRoundTask r t' old) = rd_id r"
  "rd_id (drop_provisional e r) = rd_id r"
  by (auto simp: upsert_opt_def upsertRoundTask_def put_round_task_def round_upsert_def removeRoundTask_def round_drop_def
      drop_provisional_def Let_def split: option.split)

lemma effect_same: "canon_ok s \<Longrightarrow> rd_ok r \<Longrightarrow> effect_ok s r s r"
  by (simp add: effect_ok_def)

lemma effect_upsert:
  "canon_ok s \<Longrightarrow> rd_ok r \<Longrightarrow> (\<And>t. task = Some t \<Longrightarrow> fresh_task t) \<Longrightarrow>
     effect_ok s r (upsertCanonicalTask s task) (upsert_opt r task)"
  by (simp add: effect_ok_def upsertCanonical_ok upsert_opt_ok)

lemma effect_round: "canon_ok s \<Longrightarrow> rd_ok r \<Longrightarrow> (\<And>t. task = Some t \<Longrightarrow> fresh_task t) \<Longrightarrow> effect_ok s r s (upsert_opt r task)"
  by (simp add: effect_ok_def upsert_opt_ok)

lemma fold_upsert_rounds:
  "rd_ok r \<Longrightarrow> (\<And>k t. f k = Some t \<Longrightarrow> fresh_task t) \<Longrightarrow>
     rd_ok (foldl (\<lambda>r k. upsert_opt r (f k)) r ks) \<and> rd_id (foldl (\<lambda>r k. upsert_opt r (f k)) r ks) = rd_id r"
  by (induction ks arbitrary: r) (simp_all add: upsert_opt_ok)

lemma use_effect_ok:
  fixes name b :: string and input :: jsval
  assumes s: "rounds_ok s" "canon_ok s" and r: "rd_ok r"
  defines "x \<equiv> use_effect name b input s r"
  shows "effect_ok s r (fst x) (fst (snd x))" and "fst (snd (snd x)) = Some t \<Longrightarrow> fresh_task t"
proof -
  note cur = current_keyed [OF s, THEN keyed_fresh]
  have "effect_ok s r (fst x) (fst (snd x)) \<and> (fst (snd (snd x)) = Some t \<longrightarrow> fresh_task t)"
  proof -
    consider "name = ''TaskCreate''" | "name = ''TaskUpdate''" | "name = ''TaskGet''" | "name = ''TaskList''"
      | "name \<notin> {''TaskCreate'', ''TaskUpdate'', ''TaskGet'', ''TaskList''}" by blast
    then show ?thesis
    proof cases
      case 1
      then show ?thesis using s r by (simp add: x_def use_effect_def Let_def effect_round provisional_fresh)
    next
      case 2
      then show ?thesis using s r cur
        by (simp add: x_def use_effect_def Let_def effect_upsert updated_fresh effect_same split: option.split)
    next
      case 3
      then show ?thesis using s r cur
        by (simp add: x_def use_effect_def effect_round effect_same split: option.split)
    next
      case 4
      then show ?thesis using s r fold_upsert_rounds [OF r, of "dget (tr_canonicalTasks s)"] canon_fresh [OF s(2)]
        by (simp add: x_def use_effect_def effect_ok_def)
    next
      case 5
      then show ?thesis using s r by (simp add: x_def use_effect_def effect_same)
    qed
  qed
  then show "effect_ok s r (fst x) (fst (snd x))" "fst (snd (snd x)) = Some t \<Longrightarrow> fresh_task t" by auto
qed

lemma drop_provisional_ok: "rd_ok r \<Longrightarrow> rd_ok (drop_provisional e r)"
  by (simp add: drop_provisional_def rd_ok_remove split: option.split)

lemma failed_effect_ok:
  assumes "canon_ok s" and "rd_ok r" and "\<And>t. te_previousTask e = Some t \<Longrightarrow> fresh_task t"
  shows "effect_ok s r (fst (failed_effect e s r)) (snd (failed_effect e s r))"
proof -
  note dp = drop_provisional_ok [OF assms(2), of e]
  have "effect_ok s r s (drop_provisional e r)" using assms dp by (simp add: effect_ok_def)
  moreover have "effect_ok s r (removeCanonicalTask s k) (removeRoundTask (drop_provisional e r) k)" for k
    using assms dp by (simp add: effect_ok_def removeCanonical_ok rd_ok_remove)
  moreover have "effect_ok s r (upsertCanonicalTask s (Some t)) (upsertRoundTask (drop_provisional e r) t None)"
    if "te_previousTask e = Some t" for t
    using assms(1) assms(3) [OF that] dp by (simp add: effect_ok_def upsertCanonical_Some_ok upsertRoundTask_plain put_round_task_ok)
  ultimately show ?thesis by (simp add: failed_effect_def Let_def split: option.split)
qed

lemma list_task_ok:
  assumes "canon_ok (fst sr)" and "rd_ok (snd sr)" and t: "fresh_task t"
  shows "effect_ok (fst sr) (snd sr) (fst (list_task sr t)) (snd (list_task sr t))"
proof -
  let ?cur = "case dget (tr_canonicalTasks (fst sr)) (task_id t) of Some t \<Rightarrow> t | None \<Rightarrow> JObj []"
  have "fresh_task m" if m: "normalizeTask t ?cur = Some m" for m
  proof -
    from t obtain k where k: "k \<noteq> []" "jget t ''id'' = JStr k" by (auto simp: fresh_task_def)
    then have id: "task_id t = k" by (simp add: task_id_def)
    have "jget m ''id'' = JStr k" using m normalizeTask_with_id [OF k(2,1), of ?cur] by auto
    moreover have "jget ?cur ''_key'' = JUndef \<or> jget ?cur ''_key'' = JStr k"
      using assms(1) id by (auto simp: canon_ok_def keyed_task_def split: option.split)
    ultimately show ?thesis using normalizeTask_fields(2) [OF m] k(1) by (auto simp: fresh_task_def)
  qed
  then show ?thesis using assms by (cases sr) (simp add: list_task_def Let_def effect_upsert)
qed

lemma list_tasks_ok:
  "canon_ok (fst sr) \<Longrightarrow> rd_ok (snd sr) \<Longrightarrow> list_all fresh_task ts \<Longrightarrow>
     effect_ok (fst sr) (snd sr) (fst (foldl list_task sr ts)) (snd (foldl list_task sr ts))"
proof (induction ts arbitrary: sr)
  case Nil
  then show ?case by (simp add: effect_same)
next
  case (Cons t ts)
  then have "effect_ok (fst sr) (snd sr) (fst (list_task sr t)) (snd (list_task sr t))" by (simp add: list_task_ok)
  with Cons.IH [of "list_task sr t"] Cons.prems show ?case by (simp add: effect_ok_def)
qed

lemma removed_not_in_order: "rd_ok r \<Longrightarrow> k \<notin> set (rd_taskOrder (removeRoundTask r k))"
  by (auto simp: removeRoundTask_def round_drop_def rd_ok_def index_ok_def dkeys_iff)

lemma ok_effect_ok:
  assumes s: "canon_ok s" and r: "rd_ok r" and prov: "te_provisionalKey e \<noteq> Some []"
  shows "effect_ok s r (fst (ok_effect env e rb tur s r)) (snd (ok_effect env e rb tur s r))"
proof -
  note dp = drop_provisional_ok [OF r, of e]
  have free: "case te_provisionalKey e of None \<Rightarrow> True | Some k \<Rightarrow> k \<notin> set (rd_taskOrder (drop_provisional e r))"
    using prov removed_not_in_order [OF r] by (simp add: drop_provisional_def split: option.split)
  have "effect_ok s r (upsertCanonicalTask s (Some t)) (upsertRoundTask (drop_provisional e r) t (te_provisionalKey e))"
    if "fresh_task t" for t
    using that s dp upsertRoundTask_plain [OF free dp, of t] by (simp add: effect_ok_def upsertCanonical_Some_ok put_round_task_ok)
  moreover have "effect_ok s r s (drop_provisional e r)" using s dp by (simp add: effect_ok_def)
  moreover have "effect_ok s r (fst (foldl list_task (s, r\<lparr>rd_tasks := dempty, rd_taskOrder := []\<rparr>) ts))
      (snd (foldl list_task (s, r\<lparr>rd_tasks := dempty, rd_taskOrder := []\<rparr>) ts))" if "list_all fresh_task ts" for ts
    using list_tasks_ok [of "(s, r\<lparr>rd_tasks := dempty, rd_taskOrder := []\<rparr>)" ts] s that
    by (simp add: effect_ok_def rd_ok_def)
  ultimately show ?thesis using s r effect_same [OF s r] effect_upsert [OF s r] created_fresh updated_fresh get_fresh list_fresh
    by (simp add: ok_effect_def Let_def list_all_iff split: option.split)
qed

text \<open>The pending entry's provisional key is never empty.\<close>

definition entries_ok :: "tracker \<Rightarrow> bool" where
  "entries_ok s \<longleftrightarrow> (\<forall>u e. dget (tr_toolUses s) u = Some e \<longrightarrow> te_provisionalKey e \<noteq> Some [])"

definition tracker_inv :: "tracker \<Rightarrow> bool" where
  "tracker_inv s \<longleftrightarrow> tr_inv s \<and> entries_ok s"

lemma ensureRound_toolUses: "tr_toolUses (fst (ensureRound now req s)) = tr_toolUses s"
  by (simp add: ensureRound_def Let_def beginSdkTaskRound_def)

lemma provisional_key_nonempty: "snd (snd (snd (use_effect name b input s r))) \<noteq> Some []"
  by (simp add: use_effect_def Let_def split: option.split)

lemma use_rounds_ok:
  assumes "rounds_ok s1"
    and "tr_rounds s2 = tr_rounds s1" "tr_roundOrder s2 = tr_roundOrder s1" "tr_currentRoundId s2 = tr_currentRoundId s1"
    and "tr_composerRoundIds s2 = push_new k (tr_composerRoundIds s1)" "tr_toolUses s2 = dset b e (tr_toolUses s1)"
    and "te_roundId e = k" and "dget (tr_rounds s1) k \<noteq> None"
  shows "rounds_ok s2"
proof -
  have k: "k \<in> set (dkeys (tr_rounds s1))" using assms(8) by (simp add: dkeys_iff)
  have "dget (tr_rounds s2) (te_roundId e') \<noteq> None" if "dget (tr_toolUses s2) u = Some e'" for u e'
    using that assms(1,7,8) unfolding assms(2,6) rounds_ok_def by (cases "u = b") auto
  moreover have "distinct (tr_composerRoundIds s2)" "set (tr_composerRoundIds s2) \<subseteq> set (dkeys (tr_rounds s2))"
    using assms(1) k unfolding assms(2,5) rounds_ok_def by auto
  ultimately show ?thesis using assms(1) unfolding rounds_ok_def assms(2-4) by blast
qed

lemma use_inv:
  assumes inv: "tracker_inv s0"
  shows "tracker_inv (recordSdkTaskToolUse now block req s0)"
proof (cases "truthy (jget block ''id'') \<and> isSdkTaskToolName (jget block ''name'')")
  case False
  then show ?thesis using inv by (auto simp: recordSdkTaskToolUse_def)
next
  case True
  define s where "s = fst (ensureRound now req s0)"
  define k where "k = snd (ensureRound now req s0)"
  from inv ensureRound_inv [of s0 now req] have sinv: "tr_inv s" and live: "dget (tr_rounds s) k \<noteq> None"
    by (auto simp: tracker_inv_def s_def k_def)
  from inv have ent: "entries_ok s" by (simp add: tracker_inv_def entries_ok_def s_def ensureRound_toolUses)
  from live obtain r0 where r0: "dget (tr_rounds s) k = Some r0" by auto
  define name where "name = str_of (jget block ''name'')"
  define b where "b = to_str (jget block ''id'')"
  define input where "input = jor (jget block ''input'') (JObj [])"
  define x where "x = use_effect name b input s (r0\<lparr>rd_hasTaskEvents := True\<rparr>)"
  have rd: "rd_ok (r0\<lparr>rd_hasTaskEvents := True\<rparr>)" "rd_id r0 = k"
    using sinv r0 by (auto simp: tr_inv_def rounds_ok_def rd_ok_def)
  have s2: "rounds_ok s" "canon_ok s" "pending_tasks_ok s" using sinv by (auto simp: tr_inv_def)
  note eff = use_effect_ok [OF s2(1,2) rd(1), of name b input, folded x_def]
  have eq: "recordSdkTaskToolUse now block req s0 =
      (fst x)\<lparr>tr_rounds := dset k (fst (snd x)) (tr_rounds (fst x)),
        tr_composerRoundIds := push_new k (tr_composerRoundIds (fst x)),
        tr_toolUses := dset b \<lparr>te_name = name, te_input = input, te_roundId = k,
          te_previousTask = fst (snd (snd x)), te_provisionalKey = snd (snd (snd x))\<rparr> (tr_toolUses (fst x))\<rparr>"
    using True r0 by (simp add: recordSdkTaskToolUse_def Let_def case_prod_unfold s_def k_def name_def b_def input_def x_def)
  from eff(1) have fr: "canon_ok (fst x)" "rd_ok (fst (snd x))" "rd_id (fst (snd x)) = k"
    "tr_rounds (fst x) = tr_rounds s" "tr_roundOrder (fst x) = tr_roundOrder s" "tr_currentRoundId (fst x) = tr_currentRoundId s"
    "tr_composerRoundIds (fst x) = tr_composerRoundIds s" "tr_toolUses (fst x) = tr_toolUses s"
    using rd(2) by (auto simp: effect_ok_def)
  have "rounds_ok (recordSdkTaskToolUse now block req s0)" unfolding eq
    by (rule use_rounds_ok [where k = k, OF put_round_ok [OF s2(1) r0 fr(2,3)]]) (simp add: fr(4-8) r0)+
  moreover have "canon_ok (recordSdkTaskToolUse now block req s0)" using fr(1) unfolding eq by (simp add: canon_ok_def)
  moreover have "pending_tasks_ok (recordSdkTaskToolUse now block req s0)"
    using s2(3) eff(2) unfolding eq by (simp add: pending_tasks_ok_def fr(8))
  moreover have "entries_ok (recordSdkTaskToolUse now block req s0)"
    using ent provisional_key_nonempty [of name b input s "r0\<lparr>rd_hasTaskEvents := True\<rparr>"] unfolding eq x_def [symmetric]
    by (simp add: entries_ok_def fr(8))
  ultimately show ?thesis by (simp add: tracker_inv_def tr_inv_def)
qed

lemma result_inv:
  assumes inv: "tracker_inv s0"
  shows "tracker_inv (recordSdkTaskToolResult env u rb tur s0)"
proof (cases "dget (tr_toolUses s0) u")
  case None
  then show ?thesis using inv by (simp add: recordSdkTaskToolResult_def)
next
  case (Some e)
  define s where "s = s0\<lparr>tr_toolUses := ddel u (tr_toolUses s0)\<rparr>"
  from inv have sinv: "rounds_ok s" "canon_ok s" "pending_tasks_ok s" "entries_ok s"
    by (auto simp: tracker_inv_def tr_inv_def s_def rounds_ok_def canon_ok_def pending_tasks_ok_def entries_ok_def split: if_splits)
  from inv Some obtain r0 where r0: "dget (tr_rounds s) (te_roundId e) = Some r0"
    by (force simp: tracker_inv_def tr_inv_def rounds_ok_def s_def)
  have rd: "rd_ok r0" "rd_id r0 = te_roundId e" using sinv(1) r0 by (auto simp: rounds_ok_def)
  have prev: "te_previousTask e = Some t \<Longrightarrow> fresh_task t" for t
    using inv Some by (auto simp: tracker_inv_def tr_inv_def pending_tasks_ok_def)
  have prov: "te_provisionalKey e \<noteq> Some []" using inv Some by (auto simp: tracker_inv_def entries_ok_def)
  define failed where "failed = (truthy (jget rb ''is_error'') \<or> jget (structuredResult rb tur) ''success'' = JBool False
    \<or> truthy (jget (structuredResult rb tur) ''error''))"
  have eq: "recordSdkTaskToolResult env u rb tur s0 =
      (let (s1, r) = (if failed then failed_effect e s r0 else ok_effect env e rb tur s r0)
       in s1\<lparr>tr_rounds := dset (te_roundId e) r (tr_rounds s1)\<rparr>)"
    using Some r0 by (simp add: recordSdkTaskToolResult_def s_def Let_def failed_def)
  define x where "x = (if failed then failed_effect e s r0 else ok_effect env e rb tur s r0)"
  have "effect_ok s r0 (fst x) (snd x)"
    using failed_effect_ok [OF sinv(2) rd(1) prev] ok_effect_ok [OF sinv(2) rd(1) prov] by (simp add: x_def)
  then have fr: "canon_ok (fst x)" "rd_ok (snd x)" "rd_id (snd x) = te_roundId e"
    "tr_rounds (fst x) = tr_rounds s" "tr_roundOrder (fst x) = tr_roundOrder s" "tr_currentRoundId (fst x) = tr_currentRoundId s"
    "tr_composerRoundIds (fst x) = tr_composerRoundIds s" "tr_toolUses (fst x) = tr_toolUses s"
    using rd(2) by (auto simp: effect_ok_def)
  have eq': "recordSdkTaskToolResult env u rb tur s0 = (fst x)\<lparr>tr_rounds := dset (te_roundId e) (snd x) (tr_rounds (fst x))\<rparr>"
    unfolding eq x_def [symmetric] by (simp add: case_prod_unfold Let_def)
  have "rounds_ok (recordSdkTaskToolResult env u rb tur s0)"
    using put_round_ok [OF sinv(1) r0 fr(2,3)] unfolding eq' by (simp add: rounds_ok_def fr(4-8))
  then show ?thesis using fr(1) sinv(3,4) unfolding eq'
    by (simp add: tracker_inv_def tr_inv_def canon_ok_def pending_tasks_ok_def entries_ok_def fr(8))
qed

lemma tr_step_inv: "tracker_inv s \<Longrightarrow> tracker_inv (tr_step s e)"
proof (cases e)
  case (TrBegin now options)
  assume "tracker_inv s"
  then show ?thesis using TrBegin begin_inv [of s now options] begin_fields(6) [where now = now and options = options and base = s]
    by (simp add: tracker_inv_def entries_ok_def)
qed (simp_all add: use_inv result_inv)

interpretation tracker: machine createSdkTaskTrackerState tr_step "\<lambda>_ _. True" tracker_inv
  by unfold_locales (simp_all add: tr_step_inv, simp add: tracker_inv_def tr_inv_def rounds_ok_def canon_ok_def
      pending_tasks_ok_def entries_ok_def createSdkTaskTrackerState_def)

lemma tracker_runs: "tracker_inv (foldl tr_step createSdkTaskTrackerState es)"
proof -
  have "tracker.ok_run createSdkTaskTrackerState es" by (rule tracker.all_ok_run) simp
  then show ?thesis using tracker.run_inv [of es] by (simp add: tracker.run_foldl)
qed

section \<open>Properties\<close>

text \<open>
  C17. After every sequence of rounds, calls and results the round list and the canonical list each name exactly
  the stored entries, every task of a round or of the canonical list is stored under its own id,
  the current round, the composer's rounds and the round of each awaited call exist, and an awaited
  call keeps a well-formed earlier task and never an empty provisional key.
\<close>

theorem tracker_invariant: "tracker_inv (foldl tr_step createSdkTaskTrackerState es)"
  by (rule tracker_runs)

lemma begun_round_tasks:
  "rd_tasks (begun_round now options base i n) = (case dget (tr_rounds base) i of Some r \<Rightarrow> rd_tasks r | None \<Rightarrow> dempty)"
  by (simp add: begun_round_def split: option.split)

lemma round_task_begin: "round_task (beginSdkTaskRound now options s) t i = round_task s t i"
proof -
  obtain j n where "tr_rounds (beginSdkTaskRound now options s) = dset j (begun_round now options s j n) (tr_rounds s)"
    using begin_fields(1) [of now options s] by blast
  then show ?thesis by (simp add: round_task_def begun_round_tasks split: option.split)
qed

lemma snapshot_begin:
  assumes "rounds_ok s"
  shows "findLatestSnapshot (beginSdkTaskRound now options s) t = findLatestSnapshot s t"
proof -
  obtain j where order: "tr_roundOrder (beginSdkTaskRound now options s) = push_new j (tr_roundOrder s)"
    using begin_fields(1) [of now options s] by blast
  have "round_task s t j = None" if "j \<notin> set (tr_roundOrder s)"
    using that assms by (auto simp: round_task_def rounds_ok_def index_ok_def dkeys_iff split: option.split)
  then have "List.find (\<lambda>i. round_task s t i \<noteq> None) (rev (push_new j (tr_roundOrder s)))
      = List.find (\<lambda>i. round_task s t i \<noteq> None) (rev (tr_roundOrder s))" by (simp add: push_new_def)
  then show ?thesis by (simp add: findLatestSnapshot_def round_task_begin order cong: option.case_cong)
qed

lemma ensureRound_cases: "fst (ensureRound now req s) = s \<or> (\<exists>o'. fst (ensureRound now req s) = beginSdkTaskRound now o' s)"
  by (auto simp: ensureRound_def Let_def)

lemma current_task_ensure:
  assumes "rounds_ok s"
  shows "current_task (fst (ensureRound now req s)) t = current_task s t"
    and "tr_canonicalTasks (fst (ensureRound now req s)) = tr_canonicalTasks s"
  using ensureRound_cases [of now req s] snapshot_begin [OF assms] begin_fields(4) [where base = s]
  by (auto simp: current_task_def cong: option.case_cong)

lemma jset_same: "jget t k = v \<Longrightarrow> v \<noteq> JUndef \<Longrightarrow> jset k v t = t"
  by (cases t) (auto simp: update_triv split: option.splits)

lemma keyed_put: "keyed_task k t \<Longrightarrow> put_canonical (task_id t) t s = canonical_upsert k t s"
  by (simp add: keyed_task_def put_canonical_def task_id_def jset_same)


lemma use_eq:
  assumes inv: "tracker_inv s0" and name: "jget block ''name'' = JStr nm" "nm \<in> set SDK_TASK_TOOL_NAMES"
    and u: "jget block ''id'' = JStr u" "u \<noteq> []" and input: "jget block ''input'' = input" "truthy input"
  obtains s k r0 where "s = fst (ensureRound now req s0)" "k = snd (ensureRound now req s0)" "dget (tr_rounds s) k = Some r0"
    "rd_ok (r0\<lparr>rd_hasTaskEvents := True\<rparr>)" "rounds_ok s" "canon_ok s"
    "recordSdkTaskToolUse now block req s0 =
       (let x = use_effect nm u input s (r0\<lparr>rd_hasTaskEvents := True\<rparr>)
        in (fst x)\<lparr>tr_rounds := dset k (fst (snd x)) (tr_rounds (fst x)),
          tr_composerRoundIds := push_new k (tr_composerRoundIds (fst x)),
          tr_toolUses := dset u \<lparr>te_name = nm, te_input = input, te_roundId = k,
            te_previousTask = fst (snd (snd x)), te_provisionalKey = snd (snd (snd x))\<rparr> (tr_toolUses (fst x))\<rparr>)"
proof -
  define s where "s = fst (ensureRound now req s0)"
  define k where "k = snd (ensureRound now req s0)"
  from inv ensureRound_inv [of s0 now req] have sinv: "tr_inv s" and live: "dget (tr_rounds s) k \<noteq> None"
    by (auto simp: tracker_inv_def s_def k_def)
  from live obtain r0 where r0: "dget (tr_rounds s) k = Some r0" by auto
  have "rd_ok (r0\<lparr>rd_hasTaskEvents := True\<rparr>)" using sinv r0 by (auto simp: tr_inv_def rounds_ok_def rd_ok_def)
  moreover have "rounds_ok s" "canon_ok s" using sinv by (auto simp: tr_inv_def)
  moreover have "isSdkTaskToolName (jget block ''name'')" using name by (simp add: isSdkTaskToolName_def)
  ultimately show thesis using that [OF s_def k_def r0] name u input r0
    by (simp add: recordSdkTaskToolUse_def Let_def case_prod_unfold s_def k_def jor_def)
qed

lemma updated_id:
  assumes "\<And>t. previous = Some t \<Longrightarrow> keyed_task i t" and "i \<noteq> []" and "updated_task previous i input = Some t'"
  shows "jget t' ''id'' = JStr i"
proof -
  have patched: "jget t' ''id'' = JStr i" if "jget t ''id'' = JStr i" "patchTaskFromUpdate t input = Some t'" for t
  proof -
    have keep: "jget (set_if b k v o') ''id'' = jget o' ''id''" if "k \<noteq> ''id''" for b k v o' using that by (simp add: set_if_def)
    have "\<exists>raw. patchTaskFromUpdate t input = normalizeTask raw (JObj []) \<and> jget raw ''id'' = jget t ''id''"
      unfolding patchTaskFromUpdate_def Let_def by (intro exI conjI, rule refl) (simp add: keep)
    with that normalizeTask_with_id [OF _ assms(2), of _ "JObj []"] show ?thesis by (metis option.inject)
  qed
  show ?thesis
  proof (cases previous)
    case (Some t)
    then show ?thesis using assms patched [of t] by (simp add: updated_task_def keyed_task_def)
  next
    case None
    from normalizeTask_with_id [of "JObj [(''id'', JStr i)]" i "JObj []"] assms(2) obtain t0
      where t0: "normalizeTask (JObj [(''id'', JStr i)]) (JObj []) = Some t0" "jget t0 ''id'' = JStr i" by auto
    with assms(3) patched [of t0] None show ?thesis by (simp add: updated_task_def)
  qed
qed

lemma nonempty_asId: "i \<noteq> [] \<Longrightarrow> nonempty_id (asId (JStr i)) = Some i"
  by (cases i) (simp_all add: nonempty_id_def asId_def)

lemma get_upsertCanonical:
  "(\<And>t. task = Some t \<Longrightarrow> jget t ''id'' = JStr i) \<Longrightarrow> k \<noteq> i \<Longrightarrow>
     dget (tr_canonicalTasks (upsertCanonicalTask s task)) k = dget (tr_canonicalTasks s) k"
  by (cases task) (simp_all add: upsertCanonicalTask_def put_canonical_def canonical.lookup_upsert task_id_def)

lemma get_removeCanonical:
  "dget (tr_canonicalTasks (removeCanonicalTask s i)) k = (if k = i then None else dget (tr_canonicalTasks s) k)"
  by (simp add: removeCanonicalTask_def canonical.lookup_remove)

lemma result_eq:
  assumes "dget (tr_toolUses s0) u = Some e" and "dget (tr_rounds s0) (te_roundId e) = Some r0"
    and "failed = (truthy (jget rb ''is_error'') \<or> jget (structuredResult rb tur) ''success'' = JBool False
      \<or> truthy (jget (structuredResult rb tur) ''error''))"
  shows "recordSdkTaskToolResult env u rb tur s0 =
     (let s = s0\<lparr>tr_toolUses := ddel u (tr_toolUses s0)\<rparr>;
          x = (if failed then failed_effect e s r0 else ok_effect env e rb tur s r0)
      in (fst x)\<lparr>tr_rounds := dset (te_roundId e) (snd x) (tr_rounds (fst x))\<rparr>)"
  using assms(1,2) unfolding assms(3) by (simp add: recordSdkTaskToolResult_def Let_def case_prod_unfold)

text \<open>
  An update that the agent refuses is undone: after a \<^verbatim>\<open>TaskUpdate\<close> call and its failed result the task
  named by the call is again what the tracker knew of it before the call (nothing, if it knew
  nothing), every other canonical task is untouched and the call is no longer awaited.
\<close>

theorem failed_update_rolls_back:
  fixes s :: tracker
  assumes inv: "tracker_inv s"
    and block: "jget block ''name'' = JStr ''TaskUpdate''" "jget block ''id'' = JStr u" "u \<noteq> []"
    and input: "jget block ''input'' = input" "jget input ''taskId'' = JStr taskId" "taskId \<noteq> []"
    and failed: "truthy (jget rb ''is_error'')"
    and s': "s' = recordSdkTaskToolResult env u rb tur (recordSdkTaskToolUse now block req s)"
  shows "dget (tr_canonicalTasks s') k = (if k = taskId then current_task s taskId else dget (tr_canonicalTasks s) k)
    \<and> dget (tr_toolUses s') u = None"
proof -
  have "truthy input" using input(2) by (cases input) auto
  from use_eq [where req = req and now = now, OF inv block(1) _ block(2,3) input(1) this]
  obtain s1 rid r0 where s1: "s1 = fst (ensureRound now req s)" "rid = snd (ensureRound now req s)" "dget (tr_rounds s1) rid = Some r0"
    "rd_ok (r0\<lparr>rd_hasTaskEvents := True\<rparr>)" "rounds_ok s1" "canon_ok s1"
    and use: "recordSdkTaskToolUse now block req s =
       (let x = use_effect ''TaskUpdate'' u input s1 (r0\<lparr>rd_hasTaskEvents := True\<rparr>)
        in (fst x)\<lparr>tr_rounds := dset rid (fst (snd x)) (tr_rounds (fst x)),
          tr_composerRoundIds := push_new rid (tr_composerRoundIds (fst x)),
          tr_toolUses := dset u \<lparr>te_name = ''TaskUpdate'', te_input = input, te_roundId = rid,
            te_previousTask = fst (snd (snd x)), te_provisionalKey = snd (snd (snd x))\<rparr> (tr_toolUses (fst x))\<rparr>)"
    by (auto simp: SDK_TASK_TOOL_NAMES_def)
  have rok: "rounds_ok s" using inv by (simp add: tracker_inv_def tr_inv_def)
  note cur = current_task_ensure [OF rok, of now req, folded s1(1)]
  define p where "p = current_task s taskId"
  define t where "t = updated_task p taskId input"
  have p: "p = Some q \<Longrightarrow> keyed_task taskId q" for q using current_keyed [OF s1(5,6), of taskId q] by (simp add: p_def cur)
  have t: "t = Some q \<Longrightarrow> jget q ''id'' = JStr taskId" for q using updated_id [of p taskId input q] p input(3) by (simp add: t_def)
  define s2 where "s2 = recordSdkTaskToolUse now block req s"
  define e where "e = \<lparr>te_name = ''TaskUpdate'', te_input = input, te_roundId = rid, te_previousTask = p, te_provisionalKey = None\<rparr>"
  have s2: "tr_canonicalTasks s2 = tr_canonicalTasks (upsertCanonicalTask s1 t)" "dget (tr_toolUses s2) u = Some e"
    "dget (tr_rounds s2) rid \<noteq> None"
    using input by (simp_all add: s2_def use use_effect_def nonempty_asId Let_def cur p_def t_def e_def)
  then obtain r1 where r1: "dget (tr_rounds s2) rid = Some r1" by auto
  have res: "s' = (let s3 = s2\<lparr>tr_toolUses := ddel u (tr_toolUses s2)\<rparr>; x = failed_effect e s3 r1
      in (fst x)\<lparr>tr_rounds := dset rid (snd x) (tr_rounds (fst x))\<rparr>)"
    using result_eq [OF s2(2), of r1 True] r1 failed by (simp add: s' s2_def [symmetric] e_def)
  have other: "k \<noteq> taskId \<Longrightarrow> dget (tr_canonicalTasks s2) k = dget (tr_canonicalTasks s) k"
    using get_upsertCanonical [of t taskId k s1] t by (simp add: s2 cur)
  show ?thesis
  proof (cases p)
    case None
    then show ?thesis using other input
      by (simp add: res Let_def failed_effect_def e_def nonempty_asId get_removeCanonical p_def)
  next
    case (Some q)
    then have q: "keyed_task taskId q" by (rule p)
    show ?thesis using other input Some
      by (simp add: res Let_def failed_effect_def e_def nonempty_asId upsertCanonicalTask_def keyed_put [OF q]
          canonical.lookup_upsert p_def) (simp add: canonical_upsert_def)
  qed
qed

lemma provisional_row:
  assumes "k \<noteq> []"
  shows "\<exists>t. provisional_task k input = Some t \<and> jget t ''id'' = JStr k \<and> jget t ''_key'' = JUndef"
proof -
  have "\<exists>t. provisional_task k input = Some t \<and> jget t ''id'' = JStr k"
    unfolding provisional_task_def by (rule normalizeTask_with_id [OF _ assms]) simp
  then obtain t where t: "provisional_task k input = Some t" "jget t ''id'' = JStr k" by blast
  have "jget t ''_key'' = JUndef" using normalizeTask_fields(2) [OF t(1) [unfolded provisional_task_def]] by simp
  with t show ?thesis by blast
qed

text \<open>
  A task shows as a provisional row as soon as it is requested, and its successful result replaces that
  row: afterwards the round and the canonical list hold the created task under its own id, the
  provisional row is gone and the call is no longer awaited.
\<close>

theorem created_replaces_provisional:
  fixes s :: tracker
  assumes inv: "tracker_inv s"
    and block: "jget block ''name'' = JStr ''TaskCreate''" "jget block ''id'' = JStr u" "u \<noteq> []"
    and input: "jget block ''input'' = input" "truthy input"
    and succeeded: "\<not> truthy (jget rb ''is_error'')" "jget (structuredResult rb tur) ''success'' \<noteq> JBool False"
      "\<not> truthy (jget (structuredResult rb tur) ''error'')"
    and created: "parseCreatedTask env input rb tur = Some t" "jget t ''id'' = JStr i" "i \<noteq> ''pending:'' @ u"
    and rid: "rid = snd (ensureRound now req s)"
    and s1: "s1 = recordSdkTaskToolUse now block req s" and s2: "s2 = recordSdkTaskToolResult env u rb tur s1"
  shows "round_task s1 (''pending:'' @ u) rid \<noteq> None \<and> round_task s2 (''pending:'' @ u) rid = None
    \<and> round_task s2 i rid = Some (jset ''_key'' (JStr i) t)
    \<and> dget (tr_canonicalTasks s2) i = Some (jset ''_key'' (JStr i) t)
    \<and> dget (tr_toolUses s2) u = None"
proof -
  define pk where "pk = ''pending:'' @ u"
  have nm: "''TaskCreate'' \<in> set SDK_TASK_TOOL_NAMES" by (simp add: SDK_TASK_TOOL_NAMES_def)
  obtain s0 k r0 where k: "k = snd (ensureRound now req s)" and s0: "dget (tr_rounds s0) k = Some r0"
    "rd_ok (r0\<lparr>rd_hasTaskEvents := True\<rparr>)"
    and use': "recordSdkTaskToolUse now block req s =
       (let x = use_effect ''TaskCreate'' u input s0 (r0\<lparr>rd_hasTaskEvents := True\<rparr>)
        in (fst x)\<lparr>tr_rounds := dset k (fst (snd x)) (tr_rounds (fst x)),
          tr_composerRoundIds := push_new k (tr_composerRoundIds (fst x)),
          tr_toolUses := dset u \<lparr>te_name = ''TaskCreate'', te_input = input, te_roundId = k,
            te_previousTask = fst (snd (snd x)), te_provisionalKey = snd (snd (snd x))\<rparr> (tr_toolUses (fst x))\<rparr>)"
    by (rule use_eq [where req = req and now = now, OF inv block(1) nm block(2,3) input])
  note use = use' [folded s1, unfolded k [folded rid]]
  obtain q where q: "provisional_task pk input = Some q" "jget q ''id'' = JStr pk" "jget q ''_key'' = JUndef"
    using provisional_row [of pk input] by (auto simp: pk_def)
  define r1 where "r1 = upsertRoundTask (r0\<lparr>rd_hasTaskEvents := True\<rparr>) q None"
  define e where "e = \<lparr>te_name = ''TaskCreate'', te_input = input, te_roundId = rid, te_previousTask = None, te_provisionalKey = Some pk\<rparr>"
  have f: "dget (tr_rounds s1) rid = Some r1" "dget (tr_toolUses s1) u = Some e"
    by (simp_all add: use use_effect_def Let_def upsert_opt_def q(1) [unfolded pk_def, simplified] pk_def r1_def e_def)
  have pk: "pk \<noteq> []" by (simp add: pk_def)
  have qf: "fresh_task q" "task_key q = pk" using q pk by (auto simp: fresh_task_def task_key_def jor_def)
  have "r1 = put_round_task (task_key q) q (r0\<lparr>rd_hasTaskEvents := True\<rparr>)"
    using s0(2) by (simp add: r1_def upsertRoundTask_plain)
  then have r1: "rd_ok r1" "dget (rd_tasks r1) pk \<noteq> None"
    using put_round_task_ok [OF s0(2) qf(1)] qf(2) by (simp_all add: put_round_task_def round_tasks.lookup_upsert)
  define r2 where "r2 = drop_provisional e r1"
  have r2: "rd_ok r2" "pk \<notin> set (rd_taskOrder r2)" "dget (rd_tasks r2) pk = None"
    using pk r1 removed_not_in_order [OF r1(1), of pk] drop_provisional_ok [OF r1(1), of e]
    by (simp_all add: r2_def drop_provisional_def e_def removeRoundTask_def round_tasks.lookup_remove)
  have tf: "fresh_task t" using created_fresh [OF created(1)] .
  then have tk: "task_key t = i" "task_id t = i" using fresh_key_id [OF tf] created(2) by (simp_all add: task_id_def)
  have ok: "ok_effect env e rb tur s r1 = (upsertCanonicalTask s (Some t), put_round_task i t r2)" for s
    using created(1) upsertRoundTask_plain [where old = "Some pk" and r = r2 and t = t] r2(1,2) tk
    by (simp add: ok_effect_def e_def r2_def Let_def)
  have res: "s2 = (let s3 = s1\<lparr>tr_toolUses := ddel u (tr_toolUses s1)\<rparr>
      in (upsertCanonicalTask s3 (Some t))\<lparr>tr_rounds := dset rid (put_round_task i t r2) (tr_rounds s3)\<rparr>)"
    using result_eq [OF f(2), of r1 False rb tur env] f(1) succeeded by (simp add: s2 e_def [symmetric] ok Let_def) (simp add: e_def)
  show ?thesis using f(1) r1(2) r2(3) created(3) [folded pk_def] tk unfolding pk_def [symmetric]
    by (simp add: round_task_def res Let_def put_round_task_def round_tasks.lookup_upsert upsertCanonicalTask_def
        put_canonical_def canonical.lookup_upsert) (simp add: canonical_upsert_def)
qed

section \<open>The composer's list\<close>

text \<open>What identifies a row: its id and subject. Merging a placeholder's progress changes neither.\<close>

definition row_sig :: "jsval \<Rightarrow> jsval \<times> jsval" where
  "row_sig t = (jget t ''id'', jget t ''subject'')"

lemma sig_cong:
  assumes "row_sig t = row_sig u"
  shows "isGeneratedTaskPlaceholder t = isGeneratedTaskPlaceholder u" "taskSubjectOrdinal t = taskSubjectOrdinal u" "task_id t = task_id u"
  using assms by (simp_all add: row_sig_def isGeneratedTaskPlaceholder_def taskSubjectOrdinal_def subject_text_def task_id_def
      cong: option.case_cong)

lemma sig_merge: "row_sig (mergeDisplayTask p u) = row_sig p"
  by (simp add: row_sig_def mergeDisplayTask_def jget_jput)

lemma merge_done: "isSdkTaskDone (mergeDisplayTask p u) \<longleftrightarrow> isSdkTaskDone p \<or> isSdkTaskDone u"
proof -
  have "jget (mergeDisplayTask p u) ''status'' = (if isSdkTaskDone u
      \<or> \<not> isSdkTaskDone p \<and> sdk_normalizeStatus (jget u ''status'') \<noteq> ''pending'' then jget u ''status'' else jget p ''status'')"
    by (simp add: mergeDisplayTask_def jget_jput)
  then show ?thesis unfolding isSdkTaskDone_def by (simp split: if_splits)
qed

definition rich_rows :: "jsval list \<Rightarrow> (jsval \<times> jsval) list" where
  "rich_rows xs = map row_sig (filter (\<lambda>t. \<not> isGeneratedTaskPlaceholder t) xs)"

definition has_richer :: "jsval list \<Rightarrow> jsval \<Rightarrow> bool" where
  "has_richer xs t \<longleftrightarrow> (\<exists>u \<in> set xs. \<not> isGeneratedTaskPlaceholder u \<and> taskSubjectOrdinal u = Some (task_id t))"

lemma has_richer_cong: "rich_rows xs = rich_rows ys \<Longrightarrow> has_richer xs t = has_richer ys t"
proof -
  have "has_richer zs t \<longleftrightarrow> (\<exists>g \<in> set (rich_rows zs). \<exists>u. row_sig u = g \<and> \<not> isGeneratedTaskPlaceholder u
      \<and> taskSubjectOrdinal u = Some (task_id t))" for zs
    by (auto simp: has_richer_def rich_rows_def) (metis sig_cong(1,2))
  then show "rich_rows xs = rich_rows ys \<Longrightarrow> has_richer xs t = has_richer ys t" by simp
qed

lemma rich_rows_sig: "map row_sig xs = map row_sig ys \<Longrightarrow> rich_rows xs = rich_rows ys"
proof (induction xs ys rule: list_induct2')
  case (4 x xs y ys)
  then show ?case using sig_cong(1) [of x y] by (simp add: rich_rows_def)
qed (simp_all add: rich_rows_def)

lemma rich_rows_remove:
  "i < length xs \<Longrightarrow> isGeneratedTaskPlaceholder (xs ! i) \<Longrightarrow> rich_rows (remove_at i xs) = rich_rows xs"
  by (simp add: rich_rows_def remove_at_def) (metis (no_types, lifting) append_take_drop_id Cons_nth_drop_Suc filter.simps(2) filter_append map_append)

lemma richer_row_None:
  assumes ph: "isGeneratedTaskPlaceholder (xs ! index)" and none: "richer_row (task_id t) index xs = None"
  shows "\<not> has_richer xs t"
proof
  assume "has_richer xs t"
  then obtain j where j: "j < length xs" "\<not> isGeneratedTaskPlaceholder (xs ! j)" "taskSubjectOrdinal (xs ! j) = Some (task_id t)"
    by (auto simp: has_richer_def in_set_conv_nth)
  then have "(j, xs ! j) \<in> set (enumerate 0 xs)" by (simp add: in_set_enumerate_eq)
  moreover have "j \<noteq> index" using j(2) ph by auto
  ultimately show False using none j(2,3) by (auto simp: richer_row_def find_index_None)
qed

lemma richer_row_Some:
  assumes "richer_row o' index xs = Some p"
  shows "p < length xs \<and> p \<noteq> index \<and> \<not> isGeneratedTaskPlaceholder (xs ! p)"
  using find_index_Some [OF assms [unfolded richer_row_def]] by (auto simp: nth_enumerate_eq)

lemma remove_at_nth: "i < length xs \<Longrightarrow> j < length xs - 1 \<Longrightarrow> remove_at i xs ! j = (if j < i then xs ! j else xs ! Suc j)"
  by (simp add: remove_at_def nth_append min_def)

lemma remove_at_subseq: "subseq (map f (remove_at i xs)) (map f xs)"
proof (induction xs arbitrary: i)
  case (Cons x xs)
  show ?case
  proof (cases i)
    case (Suc j)
    with Cons [of j] show ?thesis by (simp add: remove_at_def)
  qed (simp add: remove_at_def list_emb_Cons)
qed (simp add: remove_at_def)

lemma coalesce_loop_spec:
  "n \<le> length xs \<Longrightarrow> (\<forall>i. n \<le> i \<longrightarrow> i < length xs \<longrightarrow> isGeneratedTaskPlaceholder (xs ! i) \<longrightarrow> \<not> has_richer xs (xs ! i)) \<Longrightarrow>
     rich_rows (coalesce_loop n xs) = rich_rows xs
     \<and> subseq (map row_sig (coalesce_loop n xs)) (map row_sig xs)
     \<and> (\<forall>t \<in> set (coalesce_loop n xs). isGeneratedTaskPlaceholder t \<longrightarrow> \<not> has_richer (coalesce_loop n xs) t)"
proof (induction n xs rule: coalesce_loop.induct)
  case (1 xs)
  then show ?case by (auto simp: in_set_conv_nth)
next
  case (2 index xs)
  show ?case
  proof (cases "isGeneratedTaskPlaceholder (xs ! index)")
    case False
    have "\<forall>i. index \<le> i \<longrightarrow> i < length xs \<longrightarrow> isGeneratedTaskPlaceholder (xs ! i) \<longrightarrow> \<not> has_richer xs (xs ! i)"
      using 2(5) False by (metis Suc_leI le_neq_implies_less)
    then show ?thesis using 2(1) [OF refl False] 2(4) False by simp
  next
    case ph: True
    show ?thesis
    proof (cases "richer_row (task_id (xs ! index)) index xs")
      case None
      have "\<not> has_richer xs (xs ! index)" using richer_row_None [OF ph None] .
      then have "\<forall>i. index \<le> i \<longrightarrow> i < length xs \<longrightarrow> isGeneratedTaskPlaceholder (xs ! i) \<longrightarrow> \<not> has_richer xs (xs ! i)"
        using 2(5) by (metis Suc_leI le_neq_implies_less)
      then show ?thesis using 2(2) [OF refl _ None] 2(4) ph None by simp
    next
      case (Some p)
      note p = richer_row_Some [OF Some]
      define ys where "ys = xs[p := mergeDisplayTask (xs ! p) (xs ! index)]"
      define zs where "zs = remove_at index ys"
      have sigs: "map row_sig ys = map row_sig xs" by (simp add: ys_def map_update sig_merge) (metis list_update_id map_update)
      have ylen: "length ys = length xs" by (simp add: ys_def)
      have yph: "isGeneratedTaskPlaceholder (ys ! index)" using p ph 2(4) by (simp add: ys_def)
      have rich: "rich_rows zs = rich_rows xs"
        using rich_rows_remove [OF _ yph] rich_rows_sig [OF sigs] 2(4) ylen by (simp add: zs_def)
      have zlen: "length zs = length xs - 1" using 2(4) ylen by (simp add: zs_def remove_at_def)
      have sub: "subseq (map row_sig zs) (map row_sig xs)" using remove_at_subseq [of row_sig index ys] by (simp add: zs_def sigs)
      have old: "row_sig (zs ! i) = row_sig (xs ! Suc i)" if "index \<le> i" "i < length zs" for i
      proof -
        have "zs ! i = ys ! Suc i" using that 2(4) zlen ylen remove_at_nth [of index ys i] by (simp add: zs_def)
        moreover have "row_sig (ys ! Suc i) = row_sig (xs ! Suc i)" using that zlen ylen sigs by (metis Suc_less_eq Suc_pred' less_diff_conv nth_map add.commute plus_1_eq_Suc)
        ultimately show ?thesis by simp
      qed
      have keep: "\<not> has_richer zs (zs ! i)" if "index \<le> i" "i < length zs" "isGeneratedTaskPlaceholder (zs ! i)" for i
      proof -
        have "\<not> has_richer xs (xs ! Suc i)"
          using 2(5) that sig_cong(1) [OF old [OF that(1,2)]] zlen by simp
        then show ?thesis using has_richer_cong [OF rich] sig_cong(3) [OF old [OF that(1,2)]] by (simp add: has_richer_def)
      qed
      have eq: "coalesce_loop (Suc index) xs = coalesce_loop index zs" using ph Some by (simp add: Let_def zs_def ys_def)
      have ih: "rich_rows (coalesce_loop index zs) = rich_rows zs \<and> subseq (map row_sig (coalesce_loop index zs)) (map row_sig zs)
          \<and> (\<forall>t \<in> set (coalesce_loop index zs). isGeneratedTaskPlaceholder t \<longrightarrow> \<not> has_richer (coalesce_loop index zs) t)"
        using 2(3) [OF refl _ Some, folded ys_def, folded zs_def] ph keep 2(4) zlen by simp
      show ?thesis unfolding eq using ih rich sub by (auto intro: subseq_order.trans)
    qed
  qed
qed

text \<open>
  Coalescing the composer's rows loses no real task and leaves no double: every row with a subject of its own
  keeps its place, id and subject, rows are only dropped, a generated \<^verbatim>\<open>Task #N\<close> row stays only when
  no other row is task \<^verbatim>\<open>N\<close>, and a merged row is finished exactly if one of the two was.
\<close>

theorem coalesce_keeps_tasks:
  "rich_rows (coalesceComposerTaskPlaceholders tasks) = rich_rows tasks
   \<and> subseq (map row_sig (coalesceComposerTaskPlaceholders tasks)) (map row_sig tasks)
   \<and> list_all (\<lambda>t. \<not> (isGeneratedTaskPlaceholder t \<and> has_richer (coalesceComposerTaskPlaceholders tasks) t))
       (coalesceComposerTaskPlaceholders tasks)
   \<and> isSdkTaskDone (mergeDisplayTask p u) = (isSdkTaskDone p \<or> isSdkTaskDone u)"
  using coalesce_loop_spec [of "length tasks" tasks]
  by (simp add: coalesceComposerTaskPlaceholders_def merge_done list_all_iff)

lemma sdk_status_range: "sdk_status_bucket t \<in> {''pending'', ''in_progress'', ''completed'', ''blocked'', ''deleted''}"
  by (simp add: sdk_status_bucket_def)

lemma sdk_status_fixed:
  "t \<in> {''pending'', ''in_progress'', ''completed'', ''blocked'', ''deleted''} \<Longrightarrow> sdk_normalizeStatus (JStr t) = t"
  by (elim insertE emptyE; hypsubst; code_simp)

text \<open>
  A round's title is never empty and never longer than 72 characters, whatever the prompt; a task's status is
  always one of the five the panel knows, and normalising it again changes nothing.
\<close>

theorem titles_and_statuses_bounded:
  "0 < length (summarizeSdkTaskRoundTitle v) \<and> length (summarizeSdkTaskRoundTitle v) \<le> 72
   \<and> sdk_normalizeStatus w \<in> {''pending'', ''in_progress'', ''completed'', ''blocked'', ''deleted''}
   \<and> sdk_normalizeStatus (JStr (sdk_normalizeStatus w)) = sdk_normalizeStatus w"
proof -
  have "sdk_normalizeStatus w \<in> {''pending'', ''in_progress'', ''completed'', ''blocked'', ''deleted''}"
    unfolding sdk_normalizeStatus_def by (rule sdk_status_range)
  then show ?thesis using sdk_status_fixed by (simp add: summarizeSdkTaskRoundTitle_def Let_def)
qed

section \<open>Sample runs\<close>

definition demo_block :: "string \<Rightarrow> string \<Rightarrow> jsval \<Rightarrow> jsval" where
  "demo_block i name input = JObj [(''id'', JStr i), (''name'', JStr name), (''input'', input)]"

definition demo_update :: jsval where
  "demo_update = JObj [(''taskId'', JStr ''1''), (''status'', JStr ''running'')]"

definition demo_create :: jsval where
  "demo_create = JObj [(''subject'', JStr ''Fix'')]"

definition demo_tracker :: tracker where
  "demo_tracker = foldl tr_step createSdkTaskTrackerState
     [TrBegin 5 (JObj [(''title'', JStr ''Go'')]), TrUse 6 (demo_block ''a'' ''TaskUpdate'' demo_update) None]"

lemma demo_tracker_inv: "tracker_inv demo_tracker"
  unfolding demo_tracker_def by (rule tracker_runs)

theorem failed_update_rolls_back_witness:
  "dget (tr_canonicalTasks (recordSdkTaskToolResult (demo_env 0) ''b'' (JObj [(''is_error'', JBool True)]) JUndef
     (recordSdkTaskToolUse 7 (demo_block ''b'' ''TaskUpdate'' demo_update) None demo_tracker))) ''1'' = current_task demo_tracker ''1''"
  using failed_update_rolls_back [OF demo_tracker_inv _ _ _ refl _ _ _ refl,
      of "demo_block ''b'' ''TaskUpdate'' demo_update" "''b''" "''1''" "JObj [(''is_error'', JBool True)]" "demo_env 0" JUndef 7 None "''1''"]
  by (simp add: demo_block_def demo_update_def)

definition demo_created :: jsval where
  "demo_created = JObj [(''content'', JStr ''Task #7 created'')]"

lemma demo_created_parse: "\<exists>t. parseCreatedTask (demo_env 0) demo_create demo_created JUndef = Some t \<and> jget t ''id'' = JStr ''7''"
proof -
  have "map_option (\<lambda>t. jget t ''id'') (parseCreatedTask (demo_env 0) demo_create demo_created JUndef) = Some (JStr ''7'')"
    by code_simp
  then show ?thesis by auto
qed

theorem created_replaces_provisional_witness:
  "\<exists>t. dget (tr_canonicalTasks (recordSdkTaskToolResult (demo_env 0) ''b'' demo_created JUndef
     (recordSdkTaskToolUse 7 (demo_block ''b'' ''TaskCreate'' demo_create) None demo_tracker))) ''7'' = Some t"
proof -
  obtain t where t: "parseCreatedTask (demo_env 0) demo_create demo_created JUndef = Some t" "jget t ''id'' = JStr ''7''"
    using demo_created_parse by blast
  have b: "jget (demo_block ''b'' ''TaskCreate'' demo_create) ''name'' = JStr ''TaskCreate''"
    "jget (demo_block ''b'' ''TaskCreate'' demo_create) ''id'' = JStr ''b''" "''b'' \<noteq> []"
    "jget (demo_block ''b'' ''TaskCreate'' demo_create) ''input'' = demo_create" "truthy demo_create"
    by (simp_all add: demo_block_def demo_create_def)
  have r: "\<not> truthy (jget demo_created ''is_error'')" "jget (structuredResult demo_created JUndef) ''success'' \<noteq> JBool False"
    "\<not> truthy (jget (structuredResult demo_created JUndef) ''error'')"
    by (simp_all add: demo_created_def structuredResult_def jor_def)
  show ?thesis using created_replaces_provisional [OF demo_tracker_inv b r t _ refl refl refl, of 7 None] by simp
qed

end
