(* ===== verification/WsClient.thy ===== *)
theory WsClient
  imports JsValue
begin

text \<open>
  The streaming client of an agent run (\<^verbatim>\<open>web/user/src/api/sse.js\<close>) with the connection banner's store
  (\<^verbatim>\<open>web/user/src/stores/connectionStore.js\<close>) and the socket's subprotocols (\<^verbatim>\<open>web/shared/api/wsAuth.js\<close>).
  The closure of \<^verbatim>\<open>openAgentWS\<close> is a record; the socket's callbacks, the reconnect timer and the four
  functions it returns are steps. What leaves the client (frames, callbacks, window events, new
  sockets) is recorded in the order it happens. A step reads the stored token and the answer of
  \<^verbatim>\<open>surfaceConnUi\<close> from its environment; debug logging is left out, and the callbacks are taken not to
  call back into the client while it runs them.
\<close>

section \<open>The connection banner\<close>

datatype conn_state = Connected | Reconnecting | Disconnected

record conn_store =
  cn_state :: conn_state
  cn_attempt :: nat
  cn_maxAttempts :: nat
  cn_delaySeconds :: nat
  cn_code :: "nat option"

definition createConnectionStore :: conn_store where
  "createConnectionStore =
     \<lparr>cn_state = Connected, cn_attempt = 0, cn_maxAttempts = 0, cn_delaySeconds = 0, cn_code = None\<rparr>"

definition markConnected :: "conn_store \<Rightarrow> conn_store" where
  "markConnected s = s\<lparr>cn_state := Connected, cn_attempt := 0, cn_maxAttempts := 0, cn_delaySeconds := 0, cn_code := None\<rparr>"

definition markReconnecting :: "nat \<Rightarrow> nat \<Rightarrow> nat \<Rightarrow> nat \<Rightarrow> conn_store \<Rightarrow> conn_store" where
  "markReconnecting attempt maxAttempts delaySeconds code s =
     s\<lparr>cn_state := Reconnecting, cn_attempt := attempt, cn_maxAttempts := maxAttempts, cn_delaySeconds := delaySeconds,
       cn_code := Some code\<rparr>"

definition markDisconnected :: "nat \<Rightarrow> conn_store \<Rightarrow> conn_store" where
  "markDisconnected code s = s\<lparr>cn_state := Disconnected, cn_delaySeconds := 0, cn_code := Some code\<rparr>"

definition tickDelay :: "conn_store \<Rightarrow> conn_store" where
  "tickDelay s = (if cn_state s = Reconnecting \<and> cn_delaySeconds s > 0 then s\<lparr>cn_delaySeconds := cn_delaySeconds s - 1\<rparr> else s)"

section \<open>Subprotocols\<close>

definition WS_SUBPROTOCOL :: string where
  "WS_SUBPROTOCOL = ''priva.ws.v1''"

text \<open>
  \<^verbatim>\<open>btoa(unescape(encodeURIComponent(s)))\<close>, the base64 text of the UTF-8 bytes, is the browser's and a
  parameter here.
\<close>

definition b64urlNoPad :: "(string \<Rightarrow> string) \<Rightarrow> string \<Rightarrow> string" where
  "b64urlNoPad btoa_utf8 s =
     (let t = map (\<lambda>c. if c = CHR ''+'' then CHR ''-'' else if c = CHR ''/'' then CHR ''_'' else c) (btoa_utf8 s)
      in rev (dropWhile (\<lambda>c. c = CHR ''='') (rev t)))"

definition wsProtocols :: "(string \<Rightarrow> string) \<Rightarrow> string \<Rightarrow> string \<Rightarrow> string list" where
  "wsProtocols btoa_utf8 token targetUsername =
     (if token \<noteq> [] then [WS_SUBPROTOCOL, ''priva.token.'' @ token] else [WS_SUBPROTOCOL])
     @ (if targetUsername \<noteq> [] then [''priva.target.'' @ b64urlNoPad btoa_utf8 targetUsername] else [])"

section \<open>State\<close>

definition RECONNECT_BACKOFF :: "nat list" where
  "RECONNECT_BACKOFF = [1, 2, 4, 8, 16]"

definition PROTOCOL_AUTH_CLOSE_CODES :: "nat list" where
  "PROTOCOL_AUTH_CLOSE_CODES = [4000, 4001]"

text \<open>The arguments of \<^verbatim>\<open>openAgentWS\<close> that the frames are built from.\<close>

record ws_conf =
  cf_attach :: bool
  cf_message :: jsval
  cf_permissionMode :: jsval
  cf_model :: jsval
  cf_attachments :: jsval
  cf_mcpServers :: jsval
  cf_images :: jsval
  cf_tabId :: jsval
  cf_enableFileCheckpointing :: bool
  cf_cwd :: jsval
  cf_addDirs :: jsval
  cf_runMode :: jsval
  cf_hasComplete :: bool

datatype ready = CONNECTING | OPEN | CLOSING | CLOSED

datatype ws_out =
    OSocket "string list"
  | OSend jsval
  | OEvent jsval jsval
  | OComplete
  | OReconcile
  | OUnauthorized

text \<open>\<open>wc_ready\<close> is the state of the current socket, \<open>wc_isReconnect\<close> what its handlers captured.\<close>

record ws_client =
  wc_conf :: ws_conf
  wc_ready :: ready
  wc_isReconnect :: bool
  wc_userAborted :: bool
  wc_completed :: bool
  wc_reconnectAttempt :: nat
  wc_reconnectTimer :: "nat option"
  wc_activeSessionId :: jsval
  wc_activeRunId :: jsval
  wc_lastSeq :: "int option"
  wc_conn :: conn_store
  wc_out :: "ws_out list"

definition emit_out :: "ws_out \<Rightarrow> ws_client \<Rightarrow> ws_client" where
  "emit_out x s = s\<lparr>wc_out := wc_out s @ [x]\<rparr>"

definition marks :: "bool \<Rightarrow> (conn_store \<Rightarrow> conn_store) \<Rightarrow> ws_client \<Rightarrow> ws_client" where
  "marks connUi f s = (if connUi then s\<lparr>wc_conn := f (wc_conn s)\<rparr> else s)"

definition wsSend :: "jsval \<Rightarrow> ws_client \<Rightarrow> ws_client" where
  "wsSend frame s = emit_out (OSend frame) s"

definition nonempty_arr :: "jsval \<Rightarrow> bool" where
  "nonempty_arr v \<longleftrightarrow> truthy v \<and> (case v of JArr xs \<Rightarrow> xs \<noteq> [] | JStr t \<Rightarrow> t \<noteq> [] | _ \<Rightarrow> False)"

section \<open>Frames\<close>

definition init_frame :: "string \<Rightarrow> ws_client \<Rightarrow> jsval" where
  "init_frame token s =
     (let cf = wc_conf s;
          f0 = JObj [(''type'', JStr ''init''), (''message'', cf_message cf)];
          f1 = jset ''run_mode'' (if cf_runMode cf = JStr ''code'' then JStr ''code'' else JStr ''agent'') f0;
          f2 = set_if (truthy (cf_tabId cf)) ''client_tab_id'' (cf_tabId cf) f1;
          f3 = set_if (token \<noteq> []) ''token'' (JStr token) f2;
          f4 = set_if (truthy (wc_activeSessionId s)) ''session_id'' (wc_activeSessionId s) f3;
          f5 = set_if (truthy (cf_permissionMode cf)) ''permission_mode'' (cf_permissionMode cf) f4;
          f6 = set_if (truthy (cf_model cf)) ''model'' (cf_model cf) f5;
          f7 = set_if (nonempty_arr (cf_attachments cf)) ''attachments'' (cf_attachments cf) f6;
          f8 = set_if (nonempty_arr (cf_images cf)) ''images'' (cf_images cf) f7;
          f9 = set_if (cf_mcpServers cf \<noteq> JUndef) ''mcp_servers'' (cf_mcpServers cf) f8;
          f10 = set_if (cf_enableFileCheckpointing cf) ''enable_file_checkpointing'' (JBool True) f9;
          f11 = set_if (truthy (cf_cwd cf)) ''cwd'' (cf_cwd cf) f10;
          f12 = set_if (nonempty_arr (cf_addDirs cf)) ''add_dirs'' (cf_addDirs cf) f11;
          f13 = jset ''enable_permission_feedback'' (JBool True) f12
      in jset ''include_partial_messages'' (JBool True) f13)"

definition sendInit :: "string \<Rightarrow> ws_client \<Rightarrow> ws_client" where
  "sendInit token s = wsSend (init_frame token s) s"

definition last_seq_num :: "ws_client \<Rightarrow> int" where
  "last_seq_num s = (case wc_lastSeq s of Some n \<Rightarrow> n | None \<Rightarrow> 0)"

definition attach_frame :: "string \<Rightarrow> ws_client \<Rightarrow> jsval" where
  "attach_frame token s =
     (let f0 = JObj [(''type'', JStr ''attach''), (''since_seq'', JNum (last_seq_num s))];
          f1 = set_if (token \<noteq> []) ''token'' (JStr token) f0;
          f2 = set_if (truthy (wc_activeSessionId s)) ''session_id'' (wc_activeSessionId s) f1;
          f3 = set_if (truthy (wc_activeRunId s)) ''run_id'' (wc_activeRunId s) f2
      in set_if (truthy (cf_tabId (wc_conf s))) ''client_tab_id'' (cf_tabId (wc_conf s)) f3)"

definition sendAttach :: "string \<Rightarrow> ws_client \<Rightarrow> ws_client" where
  "sendAttach token s = wsSend (attach_frame token s) s"

section \<open>Finishing and reconnecting\<close>

definition ws_finalize :: "ws_client \<Rightarrow> ws_client" where
  "ws_finalize s =
     (if wc_completed s then s
      else (let s1 = s\<lparr>wc_completed := True, wc_reconnectTimer := None\<rparr>
            in if cf_hasComplete (wc_conf s) then emit_out OComplete s1 else s1))"

definition registryRunConfirmed :: "ws_client \<Rightarrow> bool" where
  "registryRunConfirmed s \<longleftrightarrow> cf_attach (wc_conf s) \<or> truthy (wc_activeRunId s) \<or> wc_lastSeq s \<noteq> None"

definition stream_error :: "string \<Rightarrow> string \<Rightarrow> jsval" where
  "stream_error code message = JObj [(''code'', JStr code), (''message'', JStr message), (''fatal'', JBool True)]"

text \<open>\<^verbatim>\<open>i18n.t\<close> is a parameter, as are the other texts of the catalogue.\<close>

definition scheduleReconnect :: "(string \<Rightarrow> string) \<Rightarrow> bool \<Rightarrow> nat \<Rightarrow> ws_client \<Rightarrow> ws_client" where
  "scheduleReconnect i18n connUi closeCode s =
     (if wc_reconnectAttempt s \<ge> length RECONNECT_BACKOFF
      then (let s1 = marks connUi (markDisconnected closeCode) s;
                s2 = (if registryRunConfirmed s1 then s1
                      else emit_out (OEvent (JStr ''error'') (JObj [(''message'', JStr (i18n ''connection.lost''))])) s1)
            in emit_out OReconcile (ws_finalize s2))
      else (let attempt = wc_reconnectAttempt s + 1; delay = RECONNECT_BACKOFF ! (attempt - 1);
                s1 = s\<lparr>wc_reconnectAttempt := attempt\<rparr>;
                s2 = marks connUi (markReconnecting attempt (length RECONNECT_BACKOFF) delay closeCode) s1
            in s2\<lparr>wc_reconnectTimer := Some (delay * 1000)\<rparr>))"

text \<open>The call \<^verbatim>\<open>wsProtocols()\<close> names no target account, so nothing is encoded.\<close>

definition run_protocols :: "string \<Rightarrow> string list" where
  "run_protocols token = wsProtocols (\<lambda>s. s) token []"

definition ws_connect :: "string \<Rightarrow> ws_client \<Rightarrow> ws_client" where
  "ws_connect token s =
     emit_out (OSocket (run_protocols token))
       (s\<lparr>wc_reconnectTimer := None, wc_isReconnect := wc_reconnectAttempt s > 0, wc_ready := CONNECTING\<rparr>)"

definition onopen :: "bool \<Rightarrow> string \<Rightarrow> ws_client \<Rightarrow> ws_client" where
  "onopen connUi token s =
     (let s1 = (marks connUi markConnected (s\<lparr>wc_ready := OPEN\<rparr>))\<lparr>wc_reconnectAttempt := 0\<rparr>
      in if cf_attach (wc_conf s1) then sendAttach token s1
         else if wc_isReconnect s1 \<and> (wc_lastSeq s1 \<noteq> None \<or> truthy (wc_activeRunId s1)) then sendAttach token s1
         else sendInit token s1)"

text \<open>The session and run identity an event carries.\<close>

definition track_identity :: "jsval \<Rightarrow> jsval \<Rightarrow> ws_client \<Rightarrow> ws_client" where
  "track_identity event data s =
     (let s1 = (if event = JStr ''result'' \<and> truthy (jget data ''session_id'')
                then s\<lparr>wc_activeSessionId := jget data ''session_id''\<rparr> else s);
          sid = jget (jget data ''data'') ''session_id'';
          s2 = (if event = JStr ''system'' \<and> jget data ''subtype'' = JStr ''init'' \<and> truthy sid
                then s1\<lparr>wc_activeSessionId := sid\<rparr> else s1);
          s3 = (if event = JStr ''stream_init'' \<and> truthy (jget data ''stream_id'') \<and> \<not> truthy (wc_activeRunId s2)
                then s2\<lparr>wc_activeRunId := jget data ''stream_id''\<rparr> else s2)
      in if event = JStr ''attach_ok''
         then (let s4 = (if truthy (jget data ''session_id'') then s3\<lparr>wc_activeSessionId := jget data ''session_id''\<rparr> else s3)
               in if truthy (jget data ''run_id'') then s4\<lparr>wc_activeRunId := jget data ''run_id''\<rparr> else s4)
         else s3)"

definition note_seq :: "jsval \<Rightarrow> ws_client \<Rightarrow> ws_client" where
  "note_seq seq s =
     (case seq of JNum n \<Rightarrow> if n > last_seq_num s then s\<lparr>wc_lastSeq := Some n\<rparr> else s | _ \<Rightarrow> s)"

text \<open>Text that does not parse, and \<^verbatim>\<open>null\<close>, which cannot be destructured, are skipped.\<close>

definition onmessage :: "js_env \<Rightarrow> string \<Rightarrow> ws_client \<Rightarrow> ws_client" where
  "onmessage env text s =
     (case env_parse_json env text of
        None \<Rightarrow> s
      | Some v \<Rightarrow>
          if nullish v then s
          else (let event = jget v ''event''; data = jget v ''data''; s1 = note_seq (jget v ''seq'') s
                in if event = JStr ''keepalive'' then s1
                   else emit_out (OEvent event data) (track_identity event data s1)))"

definition onclose :: "(string \<Rightarrow> string) \<Rightarrow> bool \<Rightarrow> nat \<Rightarrow> ws_client \<Rightarrow> ws_client" where
  "onclose i18n connUi code s0 =
     (let s = s0\<lparr>wc_ready := CLOSED\<rparr>
      in if wc_userAborted s \<or> wc_completed s then ws_finalize s
         else if code = 4001 then ws_finalize (emit_out OUnauthorized s)
         else if code = 1000 then emit_out OReconcile (ws_finalize (marks connUi markConnected s))
         else if code \<in> set PROTOCOL_AUTH_CLOSE_CODES then ws_finalize (marks connUi markConnected s)
         else if code = 4500
           then ws_finalize (emit_out (OEvent (JStr ''stream_error'')
                  (stream_error ''ServerError'' (''Server error '' @ [CHR 0x97] @ '' please try again.'')))
                  (marks connUi (markDisconnected code) s))
         else if code = 1009
           then ws_finalize (emit_out (OEvent (JStr ''stream_error'')
                  (stream_error ''MessageTooLarge'' (i18n ''connection.messageTooLarge''))) s)
         else scheduleReconnect i18n connUi code s)"

section \<open>What the client returns\<close>

definition sendPermission :: "jsval \<Rightarrow> jsval \<Rightarrow> jsval \<Rightarrow> jsval \<Rightarrow> ws_client \<Rightarrow> bool \<times> ws_client" where
  "sendPermission requestId decision msg updatedInput s =
     (if wc_ready s = OPEN
      then (let f0 = JObj [(''type'', JStr ''permission_response''), (''request_id'', requestId), (''decision'', decision)];
                f1 = set_if (truthy msg) ''message'' msg f0
            in (True, wsSend (set_if (truthy updatedInput) ''updated_input'' updatedInput f1) s))
      else (False, s))"

definition sendQueue :: "jsval \<Rightarrow> jsval \<Rightarrow> jsval \<Rightarrow> jsval \<Rightarrow> ws_client \<Rightarrow> bool \<times> ws_client" where
  "sendQueue i text attachments images s =
     (if wc_ready s \<noteq> OPEN then (False, s)
      else (let f0 = JObj [(''type'', JStr ''queue''), (''id'', i), (''text'', text)];
                f1 = set_if (nonempty_arr attachments) ''attachments'' attachments f0
            in (True, wsSend (set_if (nonempty_arr images) ''images'' images f1) s)))"

definition sendQueueCancel :: "jsval \<Rightarrow> ws_client \<Rightarrow> bool \<times> ws_client" where
  "sendQueueCancel i s =
     (if wc_ready s \<noteq> OPEN then (False, s)
      else (True, wsSend (JObj [(''type'', JStr ''queue_cancel''), (''id'', i)]) s))"

definition socket_close :: "ready \<Rightarrow> ready" where
  "socket_close r = (case r of CLOSED \<Rightarrow> CLOSED | _ \<Rightarrow> CLOSING)"

definition abort :: "ws_client \<Rightarrow> ws_client" where
  "abort s =
     (let s1 = s\<lparr>wc_userAborted := True, wc_reconnectTimer := None\<rparr>;
          s2 = (if wc_ready s1 = OPEN then wsSend (JObj [(''type'', JStr ''abort'')]) s1 else s1)
      in ws_finalize (s2\<lparr>wc_ready := socket_close (wc_ready s2)\<rparr>))"

definition openAgentWS :: "ws_conf \<Rightarrow> jsval \<Rightarrow> jsval \<Rightarrow> int \<Rightarrow> string \<Rightarrow> conn_store \<Rightarrow> ws_client" where
  "openAgentWS cf sessionId runId sinceSeq token conn =
     ws_connect token
       \<lparr>wc_conf = cf, wc_ready = CLOSED, wc_isReconnect = False, wc_userAborted = False, wc_completed = False,
        wc_reconnectAttempt = 0, wc_reconnectTimer = None, wc_activeSessionId = sessionId,
        wc_activeRunId = jor runId JNull, wc_lastSeq = (if cf_attach cf then Some sinceSeq else None),
        wc_conn = conn, wc_out = []\<rparr>"

definition streamAgentRunWS :: "ws_conf \<Rightarrow> jsval \<Rightarrow> string \<Rightarrow> conn_store \<Rightarrow> ws_client" where
  "streamAgentRunWS cf sessionId token conn = openAgentWS (cf\<lparr>cf_attach := False\<rparr>) sessionId JUndef 0 token conn"

definition attachAgentRunWS :: "jsval \<Rightarrow> int \<Rightarrow> jsval \<Rightarrow> bool \<Rightarrow> string \<Rightarrow> conn_store \<Rightarrow> ws_client" where
  "attachAgentRunWS sessionId sinceSeq tabId hasComplete token conn =
     openAgentWS \<lparr>cf_attach = True, cf_message = JUndef, cf_permissionMode = JUndef, cf_model = JUndef,
       cf_attachments = JUndef, cf_mcpServers = JUndef, cf_images = JUndef, cf_tabId = tabId,
       cf_enableFileCheckpointing = False, cf_cwd = JNull, cf_addDirs = JNull, cf_runMode = JStr ''agent'',
       cf_hasComplete = hasComplete\<rparr> sessionId JUndef sinceSeq token conn"

section \<open>Answering a permission request over HTTP\<close>

record http_response =
  hr_ok :: bool
  hr_status :: int
  hr_text :: string
  hr_json :: jsval

definition permission_body :: "jsval \<Rightarrow> jsval \<Rightarrow> jsval \<Rightarrow> jsval \<Rightarrow> jsval \<Rightarrow> jsval" where
  "permission_body sessionId requestId decision message updatedInput =
     set_if (truthy updatedInput) ''updated_input'' updatedInput
       (set_if (truthy message) ''message'' message
         (JObj [(''session_id'', sessionId), (''request_id'', requestId), (''decision'', decision)]))"

text \<open>The outcome: a thrown message or the answer, with the window events raised.\<close>

definition respondPermission :: "http_response \<Rightarrow> (string + jsval) \<times> ws_out list" where
  "respondPermission res =
     (if hr_ok res then (Inr (hr_json res), [])
      else (Inl (''Permission respond error '' @ show_int (hr_status res) @ '': '' @ hr_text res),
            if hr_status res = 401 then [OUnauthorized] else []))"

section \<open>The machine\<close>

datatype ws_event =
    WOpen bool string
  | WMessage js_env string
  | WClose "string \<Rightarrow> string" bool nat
  | WTimer string
  | WTick
  | WPermission jsval jsval jsval jsval
  | WQueue jsval jsval jsval jsval
  | WQueueCancel jsval
  | WAbort

primrec wc_step :: "ws_client \<Rightarrow> ws_event \<Rightarrow> ws_client" where
  "wc_step s (WOpen connUi token) = onopen connUi token s"
| "wc_step s (WMessage env text) = onmessage env text s"
| "wc_step s (WClose i18n connUi code) = onclose i18n connUi code s"
| "wc_step s (WTimer token) = ws_connect token s"
| "wc_step s WTick = s\<lparr>wc_conn := tickDelay (wc_conn s)\<rparr>"
| "wc_step s (WPermission requestId decision msg updatedInput) = snd (sendPermission requestId decision msg updatedInput s)"
| "wc_step s (WQueue i text attachments images) = snd (sendQueue i text attachments images s)"
| "wc_step s (WQueueCancel i) = snd (sendQueueCancel i s)"
| "wc_step s WAbort = abort s"

text \<open>
  When the browser runs a callback: a socket opens only while connecting, delivers messages only while
  open and closes once; the timer fires only while armed.
\<close>

primrec wc_ok :: "ws_client \<Rightarrow> ws_event \<Rightarrow> bool" where
  "wc_ok s (WOpen connUi token) = (wc_ready s = CONNECTING)"
| "wc_ok s (WMessage env text) = (wc_ready s = OPEN)"
| "wc_ok s (WClose i18n connUi code) = (wc_ready s \<noteq> CLOSED)"
| "wc_ok s (WTimer token) = (wc_reconnectTimer s \<noteq> None)"
| "wc_ok s WTick = True"
| "wc_ok s (WPermission requestId decision msg updatedInput) = True"
| "wc_ok s (WQueue i text attachments images) = True"
| "wc_ok s (WQueueCancel i) = True"
| "wc_ok s WAbort = True"

text \<open>The states a client goes through.\<close>

inductive wc_steps :: "ws_client \<Rightarrow> ws_client \<Rightarrow> bool" where
  wc_start: "wc_steps s s"
| wc_more: "wc_steps s t \<Longrightarrow> wc_ok t e \<Longrightarrow> wc_steps s (wc_step t e)"

section \<open>The invariant\<close>

text \<open>
  A client is either finished, with its socket closing or closed and no timer; or it has a live socket; or
  its socket is closed and the timer of the current attempt is armed.
\<close>

definition phase_ok :: "ws_client \<Rightarrow> bool" where
  "phase_ok s \<longleftrightarrow>
     (if wc_completed s then wc_reconnectTimer s = None \<and> wc_ready s \<in> {CLOSING, CLOSED}
      else \<not> wc_userAborted s \<and> wc_ready s \<noteq> CLOSING
        \<and> (if wc_ready s = CLOSED
           then 1 \<le> wc_reconnectAttempt s \<and> wc_reconnectTimer s = Some (RECONNECT_BACKOFF ! (wc_reconnectAttempt s - 1) * 1000)
           else wc_reconnectTimer s = None))
     \<and> wc_reconnectAttempt s \<le> length RECONNECT_BACKOFF"

definition completions_ok :: "ws_client \<Rightarrow> bool" where
  "completions_ok s \<longleftrightarrow>
     count_list (wc_out s) OComplete = (if wc_completed s \<and> cf_hasComplete (wc_conf s) then 1 else 0)"

definition first_open_ok :: "ws_client \<Rightarrow> bool" where
  "first_open_ok s \<longleftrightarrow>
     cf_attach (wc_conf s) \<or> wc_isReconnect s \<or> wc_ready s \<noteq> CONNECTING \<or> \<not> registryRunConfirmed s"

definition wc_inv :: "ws_client \<Rightarrow> bool" where
  "wc_inv s \<longleftrightarrow> phase_ok s \<and> completions_ok s \<and> first_open_ok s"

lemmas wc_inv_defs = wc_inv_def phase_ok_def completions_ok_def first_open_ok_def registryRunConfirmed_def

lemma ws_emit_fields [simp]:
  "wc_conf (emit_out x s) = wc_conf s" "wc_ready (emit_out x s) = wc_ready s" "wc_isReconnect (emit_out x s) = wc_isReconnect s"
  "wc_userAborted (emit_out x s) = wc_userAborted s" "wc_completed (emit_out x s) = wc_completed s"
  "wc_reconnectAttempt (emit_out x s) = wc_reconnectAttempt s" "wc_reconnectTimer (emit_out x s) = wc_reconnectTimer s"
  "wc_activeSessionId (emit_out x s) = wc_activeSessionId s" "wc_activeRunId (emit_out x s) = wc_activeRunId s"
  "wc_lastSeq (emit_out x s) = wc_lastSeq s" "wc_conn (emit_out x s) = wc_conn s" "wc_out (emit_out x s) = wc_out s @ [x]"
  by (simp_all add: emit_out_def)

lemma marks_fields [simp]:
  "wc_conf (marks u f s) = wc_conf s" "wc_ready (marks u f s) = wc_ready s" "wc_isReconnect (marks u f s) = wc_isReconnect s"
  "wc_userAborted (marks u f s) = wc_userAborted s" "wc_completed (marks u f s) = wc_completed s"
  "wc_reconnectAttempt (marks u f s) = wc_reconnectAttempt s" "wc_reconnectTimer (marks u f s) = wc_reconnectTimer s"
  "wc_activeSessionId (marks u f s) = wc_activeSessionId s" "wc_activeRunId (marks u f s) = wc_activeRunId s"
  "wc_lastSeq (marks u f s) = wc_lastSeq s" "wc_out (marks u f s) = wc_out s"
  by (simp_all add: marks_def)

lemma finalize_fields [simp]:
  "wc_conf (ws_finalize s) = wc_conf s" "wc_ready (ws_finalize s) = wc_ready s" "wc_isReconnect (ws_finalize s) = wc_isReconnect s"
  "wc_userAborted (ws_finalize s) = wc_userAborted s" "wc_completed (ws_finalize s)"
  "wc_reconnectAttempt (ws_finalize s) = wc_reconnectAttempt s" "wc_activeRunId (ws_finalize s) = wc_activeRunId s"
  "wc_lastSeq (ws_finalize s) = wc_lastSeq s" "wc_conn (ws_finalize s) = wc_conn s"
  "wc_reconnectTimer (ws_finalize s) = (if wc_completed s then wc_reconnectTimer s else None)"
  "wc_out (ws_finalize s) = wc_out s @ (if wc_completed s \<or> \<not> cf_hasComplete (wc_conf s) then [] else [OComplete])"
  by (simp_all add: ws_finalize_def Let_def)

lemma count_snoc [simp]: "count_list (xs @ ys) x = count_list xs x + count_list ys x"
  by (induction xs) auto

text \<open>Finishing from a state whose socket is closing or closed.\<close>

lemma finalize_inv:
  assumes "completions_ok s" and "\<not> wc_completed s" and "wc_ready s \<in> {CLOSING, CLOSED}"
    and "wc_reconnectAttempt s \<le> length RECONNECT_BACKOFF"
  shows "wc_inv (ws_finalize s)"
  using assms by (auto simp: wc_inv_defs)

lemma emit_inv: "x \<noteq> OComplete \<Longrightarrow> wc_inv (emit_out x s) = wc_inv s"
  by (simp add: wc_inv_defs)

lemma completions_emit: "x \<noteq> OComplete \<Longrightarrow> completions_ok (emit_out x s) = completions_ok s"
  by (simp add: completions_ok_def)

lemma completions_marks: "completions_ok (marks u f s) = completions_ok s"
  by (simp add: completions_ok_def)

lemma connect_inv: "wc_inv s \<Longrightarrow> wc_reconnectTimer s \<noteq> None \<Longrightarrow> wc_inv (ws_connect token s)"
  by (auto simp: ws_connect_def wc_inv_defs split: if_splits)

lemma open_inv: "wc_inv (openAgentWS cf sid JUndef n token conn)"
  by (simp add: openAgentWS_def ws_connect_def wc_inv_defs jor_def)

lemma onopen_inv: "wc_inv s \<Longrightarrow> wc_ready s = CONNECTING \<Longrightarrow> wc_inv (onopen u token s)"
  by (auto simp: onopen_def Let_def sendAttach_def sendInit_def wsSend_def wc_inv_defs split: if_splits)

lemma note_seq_fields [simp]:
  "wc_conf (note_seq v s) = wc_conf s" "wc_ready (note_seq v s) = wc_ready s" "wc_userAborted (note_seq v s) = wc_userAborted s"
  "wc_completed (note_seq v s) = wc_completed s" "wc_reconnectAttempt (note_seq v s) = wc_reconnectAttempt s"
  "wc_reconnectTimer (note_seq v s) = wc_reconnectTimer s" "wc_activeRunId (note_seq v s) = wc_activeRunId s"
  "wc_out (note_seq v s) = wc_out s"
  by (simp_all add: note_seq_def split: jsval.split)

lemma track_fields [simp]:
  "wc_conf (track_identity e d s) = wc_conf s" "wc_ready (track_identity e d s) = wc_ready s"
  "wc_userAborted (track_identity e d s) = wc_userAborted s" "wc_completed (track_identity e d s) = wc_completed s"
  "wc_reconnectAttempt (track_identity e d s) = wc_reconnectAttempt s"
  "wc_reconnectTimer (track_identity e d s) = wc_reconnectTimer s" "wc_lastSeq (track_identity e d s) = wc_lastSeq s"
  "wc_out (track_identity e d s) = wc_out s"
  by (simp_all add: track_identity_def Let_def)

lemma onmessage_inv: "wc_inv s \<Longrightarrow> wc_ready s = OPEN \<Longrightarrow> wc_inv (onmessage env text s)"
  by (auto simp: onmessage_def Let_def wc_inv_defs split: option.split if_splits)

lemma schedule_inv:
  assumes "completions_ok s" and "\<not> wc_completed s" and "\<not> wc_userAborted s" and "wc_ready s = CLOSED"
    and "wc_reconnectAttempt s \<le> length RECONNECT_BACKOFF"
  shows "wc_inv (scheduleReconnect i18n u code s)"
proof (cases "wc_reconnectAttempt s < length RECONNECT_BACKOFF")
  case True
  then show ?thesis using assms by (auto simp: scheduleReconnect_def Let_def wc_inv_defs)
next
  case False
  then show ?thesis using assms
    by (simp add: scheduleReconnect_def Let_def emit_inv finalize_inv completions_emit completions_marks)
qed

lemma onclose_inv:
  assumes inv: "wc_inv s0" and live: "wc_ready s0 \<noteq> CLOSED"
  shows "wc_inv (onclose i18n u code s0)"
proof (cases "wc_completed s0")
  case True
  then have "ws_finalize (s0\<lparr>wc_ready := CLOSED\<rparr>) = s0\<lparr>wc_ready := CLOSED\<rparr>" by (simp add: ws_finalize_def)
  with True inv show ?thesis by (auto simp: onclose_def Let_def wc_inv_defs)
next
  case False
  let ?s = "s0\<lparr>wc_ready := CLOSED\<rparr>"
  have s: "completions_ok ?s" "\<not> wc_userAborted ?s" "wc_reconnectAttempt ?s \<le> length RECONNECT_BACKOFF"
    using inv False by (auto simp: wc_inv_defs)
  show ?thesis using s False
    by (simp add: onclose_def Let_def emit_inv finalize_inv completions_emit completions_marks schedule_inv)
qed

lemma send_inv:
  assumes "wc_inv s"
  shows "wc_inv (snd (sendPermission a b c d s))" "wc_inv (snd (sendQueue a b c d s))" "wc_inv (snd (sendQueueCancel a s))"
  using assms by (simp_all add: sendPermission_def sendQueue_def sendQueueCancel_def Let_def wsSend_def emit_inv)

lemma abort_inv: "wc_inv s \<Longrightarrow> wc_inv (abort s)"
  by (auto simp: abort_def Let_def wsSend_def socket_close_def wc_inv_defs split: ready.split if_splits)

lemma wc_step_inv: "wc_inv s \<Longrightarrow> wc_ok s e \<Longrightarrow> wc_inv (wc_step s e)"
proof (cases e)
  case WTick
  assume "wc_inv s"
  with WTick show ?thesis by (auto simp: wc_inv_defs)
qed (simp_all add: onopen_inv onmessage_inv onclose_inv connect_inv send_inv abort_inv)

section \<open>Runs\<close>

lemma steps_trans: "wc_steps t u \<Longrightarrow> wc_steps s t \<Longrightarrow> wc_steps s u"
  by (induction rule: wc_steps.induct) (auto intro: wc_more)

lemma steps_inv: "wc_steps s t \<Longrightarrow> wc_inv s \<Longrightarrow> wc_inv t"
  by (induction rule: wc_steps.induct) (simp_all add: wc_step_inv)

text \<open>A finished client has no timer, and its socket neither opens nor delivers anything.\<close>

lemma finished_step:
  assumes "wc_inv s" and "wc_completed s" and "wc_ok s e"
  shows "wc_completed (wc_step s e) \<and> wc_out (wc_step s e) = wc_out s"
  using assms by (cases e)
    (auto simp: wc_inv_def phase_ok_def onclose_def Let_def sendPermission_def sendQueue_def sendQueueCancel_def abort_def)

lemma finished_steps: "wc_steps s t \<Longrightarrow> wc_inv s \<Longrightarrow> wc_completed s \<Longrightarrow> wc_completed t \<and> wc_out t = wc_out s"
proof (induction rule: wc_steps.induct)
  case (wc_more s t e)
  then show ?case using finished_step [of t e] steps_inv [of s t] by simp
qed simp

definition sends_init :: "ws_out \<Rightarrow> bool" where
  "sends_init x = (case x of OSend f \<Rightarrow> jget f ''type'' = JStr ''init'' | _ \<Rightarrow> False)"

definition inits :: "ws_client \<Rightarrow> nat" where
  "inits s = length (filter sends_init (wc_out s))"

lemma confirmed_track: "registryRunConfirmed s \<Longrightarrow> registryRunConfirmed (track_identity e d s)"
  by (simp add: registryRunConfirmed_def track_identity_def Let_def)

lemma confirmed_note: "registryRunConfirmed s \<Longrightarrow> registryRunConfirmed (note_seq v s)"
  by (simp add: registryRunConfirmed_def note_seq_def split: jsval.split)

lemma note_seq_mono: "last_seq_num s \<le> last_seq_num (note_seq v s)"
  by (simp add: note_seq_def last_seq_num_def split: jsval.split)

text \<open>Frames other than the first one are not prompts.\<close>

lemma not_init [simp]:
  "\<not> sends_init (OSend (attach_frame token s))" "\<not> sends_init (OEvent ev d)" "\<not> sends_init OComplete"
  "\<not> sends_init OReconcile" "\<not> sends_init OUnauthorized" "\<not> sends_init (OSocket ps)"
  "sends_init (OSend (JObj ((''type'', v) # kvs))) = (v = JStr ''init'')"
  "k \<noteq> ''type'' \<Longrightarrow> sends_init (OSend (set_if b k v f)) = sends_init (OSend f)"
  by (simp_all add: sends_init_def attach_frame_def Let_def)

lemma filter_finalize [simp]: "filter sends_init (wc_out (ws_finalize s)) = filter sends_init (wc_out s)"
  by simp

lemma confirmed_step:
  assumes "wc_inv s" and "registryRunConfirmed s" and "wc_ok s e"
  shows "registryRunConfirmed (wc_step s e) \<and> inits (wc_step s e) = inits s \<and> last_seq_num s \<le> last_seq_num (wc_step s e)"
proof -
  have same: ?thesis if "wc_conf (wc_step s e) = wc_conf s" "wc_activeRunId (wc_step s e) = wc_activeRunId s"
    "wc_lastSeq (wc_step s e) = wc_lastSeq s" "filter sends_init (wc_out (wc_step s e)) = filter sends_init (wc_out s)"
    using that assms(2) by (simp add: registryRunConfirmed_def last_seq_num_def inits_def)
  show ?thesis
  proof (cases e)
    case (WOpen u token)
    have attach: "cf_attach (wc_conf s) \<or> wc_isReconnect s \<and> (wc_lastSeq s \<noteq> None \<or> truthy (wc_activeRunId s))"
      using assms WOpen by (auto simp: wc_inv_def first_open_ok_def registryRunConfirmed_def)
    then have "wc_step s e = sendAttach token ((marks u markConnected (s\<lparr>wc_ready := OPEN\<rparr>))\<lparr>wc_reconnectAttempt := 0\<rparr>)"
      using WOpen by (auto simp: onopen_def Let_def)
    then show ?thesis by (intro same) (simp_all add: sendAttach_def wsSend_def)
  next
    case (WMessage env raw)
    show ?thesis
    proof (cases "env_parse_json env raw")
      case None
      then show ?thesis using WMessage assms(2) by (simp add: onmessage_def)
    next
      case (Some v)
      have "registryRunConfirmed (onmessage env raw s) \<and> last_seq_num s \<le> last_seq_num (onmessage env raw s)"
        using assms(2) note_seq_mono [of s] confirmed_track [OF confirmed_note [OF assms(2)]] confirmed_note [OF assms(2)]
        by (simp add: onmessage_def Some Let_def registryRunConfirmed_def last_seq_num_def)
      then show ?thesis using WMessage by (simp add: inits_def onmessage_def Some Let_def)
    qed
  next
    case (WClose i18n u code)
    then show ?thesis by (intro same) (simp_all add: onclose_def scheduleReconnect_def Let_def)
  next
    case (WTimer token)
    then show ?thesis by (intro same) (simp_all add: ws_connect_def)
  next
    case WAbort
    then show ?thesis by (intro same) (simp_all add: abort_def Let_def wsSend_def)
  qed (intro same; simp add: sendPermission_def sendQueue_def sendQueueCancel_def Let_def wsSend_def)+
qed

lemma confirmed_steps:
  "wc_steps s t \<Longrightarrow> wc_inv s \<Longrightarrow> registryRunConfirmed s \<Longrightarrow>
     registryRunConfirmed t \<and> inits t = inits s \<and> last_seq_num s \<le> last_seq_num t"
proof (induction rule: wc_steps.induct)
  case (wc_more s t e)
  then show ?case using confirmed_step [of t e] steps_inv [of s t] by simp
qed simp

section \<open>Properties\<close>

definition retryable :: "nat \<Rightarrow> bool" where
  "retryable code \<longleftrightarrow> code \<notin> {1000, 1009, 4000, 4001, 4500}"

definition failed_attempts :: "(string \<Rightarrow> string) \<Rightarrow> bool \<Rightarrow> string \<Rightarrow> nat list \<Rightarrow> ws_event list" where
  "failed_attempts i18n u token codes = concat (map (\<lambda>c. [WClose i18n u c, WTimer token]) codes)"

lemma close_retryable:
  assumes "\<not> wc_completed s" and "\<not> wc_userAborted s" and "retryable c"
  shows "onclose i18n u c s = scheduleReconnect i18n u c (s\<lparr>wc_ready := CLOSED\<rparr>)"
  using assms by (simp add: onclose_def Let_def retryable_def PROTOCOL_AUTH_CLOSE_CODES_def)

lemma failed_attempts_run:
  assumes "\<not> wc_completed s" and "\<not> wc_userAborted s" and "list_all retryable codes"
    and "wc_reconnectAttempt s + length codes \<le> 5" and "t = foldl wc_step s (failed_attempts i18n u token codes)"
  shows "\<not> wc_completed t \<and> \<not> wc_userAborted t \<and> wc_reconnectAttempt t = wc_reconnectAttempt s + length codes
    \<and> registryRunConfirmed t = registryRunConfirmed s \<and> wc_conf t = wc_conf s
    \<and> wc_out t = wc_out s @ replicate (length codes) (OSocket (run_protocols token))"
  using assms
proof (induction codes arbitrary: s)
  case Nil
  then show ?case by (simp add: failed_attempts_def)
next
  case (Cons c codes)
  define s1 where "s1 = ws_connect token (onclose i18n u c s)"
  have lt: "\<not> length RECONNECT_BACKOFF \<le> wc_reconnectAttempt s" using Cons.prems(4) by (simp add: RECONNECT_BACKOFF_def)
  have s1: "\<not> wc_completed s1" "\<not> wc_userAborted s1" "wc_reconnectAttempt s1 = Suc (wc_reconnectAttempt s)"
    "registryRunConfirmed s1 = registryRunConfirmed s" "wc_conf s1 = wc_conf s"
    "wc_out s1 = wc_out s @ [OSocket (run_protocols token)]"
    using Cons.prems lt
    by (simp_all add: s1_def close_retryable scheduleReconnect_def Let_def ws_connect_def registryRunConfirmed_def)
  have t: "t = foldl wc_step s1 (failed_attempts i18n u token codes)"
    using Cons.prems(5) by (simp add: failed_attempts_def s1_def)
  show ?case using Cons.IH [OF s1(1,2) _ _ t] Cons.prems(3,4) s1 by simp
qed

text \<open>
  C33. The retries are bounded: a client whose socket closes five times in a row with a code that allows a retry is
  still trying, on its fifth new socket, and the next such close ends it, asks for the
  authoritative list of running sessions, and reports a lost connection only when no backend run was
  ever seen.
\<close>

theorem ws_retry_budget:
  assumes "\<not> wc_completed s" and "\<not> wc_userAborted s" and "wc_reconnectAttempt s = 0"
    and "length codes = 5" and "list_all retryable codes" and "retryable c"
    and t: "t = foldl wc_step s (failed_attempts i18n u token codes)"
  shows "\<not> wc_completed t \<and> wc_out t = wc_out s @ replicate 5 (OSocket (run_protocols token))
    \<and> wc_completed (wc_step t (WClose i18n u c)) \<and> wc_reconnectTimer (wc_step t (WClose i18n u c)) = None
    \<and> wc_out (wc_step t (WClose i18n u c)) = wc_out t
        @ (if registryRunConfirmed s then [] else [OEvent (JStr ''error'') (JObj [(''message'', JStr (i18n ''connection.lost''))])])
        @ (if cf_hasComplete (wc_conf s) then [OComplete] else []) @ [OReconcile]"
proof -
  have run: "\<not> wc_completed t" "\<not> wc_userAborted t" "wc_reconnectAttempt t = 5" "registryRunConfirmed t = registryRunConfirmed s"
    "wc_conf t = wc_conf s" "wc_out t = wc_out s @ replicate 5 (OSocket (run_protocols token))"
    using failed_attempts_run [OF assms(1,2,5) _ t] assms(3,4) by simp_all
  have "registryRunConfirmed (marks u f (t\<lparr>wc_ready := CLOSED\<rparr>)) = registryRunConfirmed s" for f
    using run(4) by (simp add: registryRunConfirmed_def)
  then show ?thesis using run(1,2,3,5,6) assms(6)
    by (simp add: close_retryable scheduleReconnect_def Let_def RECONNECT_BACKOFF_def)
qed

text \<open>
  C4. Whatever the browser and the user do, the completion callback runs at most once and exactly when the client has
  finished; an aborted client has finished; and a client that has not finished is never stuck: its
  socket is connecting or open, or the timer of one of the five attempts is armed.
\<close>

theorem ws_completes_once:
  assumes "wc_steps (openAgentWS cf sid JUndef n token conn) s"
  shows "count_list (wc_out s) OComplete = (if wc_completed s \<and> cf_hasComplete (wc_conf s) then 1 else 0)
    \<and> (wc_completed s \<or> \<not> wc_userAborted s)
    \<and> (wc_completed s \<or> wc_ready s \<in> {CONNECTING, OPEN}
       \<or> (\<exists>k < 5. wc_reconnectTimer s = Some (RECONNECT_BACKOFF ! k * 1000)))"
proof -
  have inv: "wc_inv s" using steps_inv [OF assms open_inv] .
  have "\<exists>k < 5. wc_reconnectTimer s = Some (RECONNECT_BACKOFF ! k * 1000)" if "\<not> wc_completed s" "wc_ready s = CLOSED"
    using inv that by (intro exI [of _ "wc_reconnectAttempt s - 1"]) (auto simp: wc_inv_def phase_ok_def RECONNECT_BACKOFF_def)
  moreover have "wc_completed s \<or> wc_ready s \<in> {CONNECTING, OPEN, CLOSED}"
    using inv by (cases "wc_ready s") (auto simp: wc_inv_def phase_ok_def split: if_splits)
  moreover have "wc_completed s \<or> \<not> wc_userAborted s" using inv by (auto simp: wc_inv_def phase_ok_def split: if_splits)
  ultimately show ?thesis using inv by (auto simp: wc_inv_def completions_ok_def)
qed

text \<open>
  A finished client is silent: whatever happens afterwards it opens no socket, sends no frame, delivers no event
  and raises no callback.
\<close>

theorem ws_silent_after_completion:
  assumes "wc_steps (openAgentWS cf sid JUndef n token conn) s" and "wc_completed s" and "wc_steps s t"
  shows "wc_completed t \<and> wc_out t = wc_out s"
  using finished_steps [OF assms(3) steps_inv [OF assms(1) open_inv] assms(2)] .

text \<open>
  C5. A run is submitted once: from the moment the backend run is known no prompt is ever sent again, the last seen
  sequence number only grows, and every socket that opens later sends one attach frame that resumes
  from it.
\<close>

theorem ws_resumes_losslessly:
  assumes "wc_steps (openAgentWS cf sid JUndef n token conn) s" and "registryRunConfirmed s" and "wc_steps s t"
    and "wc_ready t = CONNECTING"
  shows "inits t = inits s \<and> last_seq_num s \<le> last_seq_num t
    \<and> (\<exists>f. wc_out (onopen u tok t) = wc_out t @ [OSend f] \<and> jget f ''type'' = JStr ''attach''
          \<and> jget f ''since_seq'' = JNum (last_seq_num t))"
proof -
  have inv: "wc_inv s" using steps_inv [OF assms(1) open_inv] .
  have t: "registryRunConfirmed t" "inits t = inits s" "last_seq_num s \<le> last_seq_num t"
    using confirmed_steps [OF assms(3) inv assms(2)] by auto
  have "wc_inv t" using steps_inv [OF assms(3) inv] .
  then have "cf_attach (wc_conf t) \<or> wc_isReconnect t \<and> (wc_lastSeq t \<noteq> None \<or> truthy (wc_activeRunId t))"
    using t(1) assms(4) by (auto simp: wc_inv_def first_open_ok_def registryRunConfirmed_def)
  then show ?thesis using t
    by (auto simp: onopen_def Let_def sendAttach_def wsSend_def attach_frame_def last_seq_num_def)
qed

section \<open>Sample runs\<close>

definition demo_conf :: ws_conf where
  "demo_conf = \<lparr>cf_attach = False, cf_message = JStr ''hi'', cf_permissionMode = JUndef, cf_model = JUndef,
     cf_attachments = JUndef, cf_mcpServers = JUndef, cf_images = JUndef, cf_tabId = JUndef,
     cf_enableFileCheckpointing = False, cf_cwd = JNull, cf_addDirs = JNull, cf_runMode = JStr ''agent'', cf_hasComplete = True\<rparr>"

definition demo_client :: ws_client where
  "demo_client = openAgentWS demo_conf JNull JUndef 0 ''t'' createConnectionStore"

definition demo_wire :: js_env where
  "demo_wire = (demo_env 0)\<lparr>env_parse_json := (\<lambda>_. Some (JObj [(''event'', JStr ''keepalive''), (''seq'', JNum 7)]))\<rparr>"

definition demo_seen :: ws_client where
  "demo_seen = foldl wc_step demo_client [WOpen True ''t'', WMessage demo_wire []]"

definition demo_retry :: ws_client where
  "demo_retry = foldl wc_step demo_seen [WClose id True 1006, WTimer ''t'']"

lemma steps_two: "wc_ok s e \<Longrightarrow> wc_ok (wc_step s e) e' \<Longrightarrow> wc_steps s (foldl wc_step s [e, e'])"
  by (simp add: wc_more wc_start)

lemma demo_seen_steps: "wc_steps demo_client demo_seen"
  unfolding demo_seen_def by (rule steps_two) code_simp+

lemma demo_retry_steps: "wc_steps demo_seen demo_retry"
  unfolding demo_retry_def by (rule steps_two) code_simp+

theorem ws_retry_budget_witness:
  "wc_completed (wc_step (foldl wc_step demo_client (failed_attempts id True ''t'' [1006, 1006, 1006, 1006, 1006])) (WClose id True 1006))"
  using ws_retry_budget [OF _ _ _ _ _ _ refl, of demo_client "[1006, 1006, 1006, 1006, 1006]" 1006 id True "''t''"]
  by (simp add: demo_client_def openAgentWS_def ws_connect_def retryable_def)

theorem ws_completes_once_witness: "count_list (wc_out demo_seen) OComplete \<le> 1"
  using ws_completes_once [OF demo_seen_steps [unfolded demo_client_def]] by simp

theorem ws_silent_after_completion_witness:
  "wc_out (wc_step (abort demo_seen) (WClose id True 1000)) = wc_out (abort demo_seen)"
proof -
  have a: "wc_steps (openAgentWS demo_conf JNull JUndef 0 ''t'' createConnectionStore) (abort demo_seen)"
    using wc_more [OF demo_seen_steps, of WAbort] by (simp add: demo_client_def)
  have "wc_ok (abort demo_seen) (WClose id True 1000)" by code_simp
  then have "wc_steps (abort demo_seen) (wc_step (abort demo_seen) (WClose id True 1000))" by (rule wc_more [OF wc_start])
  then show ?thesis using ws_silent_after_completion [OF a] by (simp add: abort_def Let_def)
qed

theorem ws_resumes_losslessly_witness: "inits demo_retry = inits demo_seen \<and> last_seq_num demo_seen \<le> last_seq_num demo_retry"
proof -
  have "registryRunConfirmed demo_seen" "wc_ready demo_retry = CONNECTING" by code_simp+
  then show ?thesis using ws_resumes_losslessly [OF demo_seen_steps [unfolded demo_client_def] _ demo_retry_steps] by blast
qed

text \<open>
  The banner is not always taken down: a client aborted between two attempts finishes without marking the
  connection, so the store keeps showing the attempt that will never happen.
\<close>

lemma abort_keeps_banner:
  "cn_state (wc_conn (foldl wc_step demo_client [WClose id True 1006, WAbort])) = Reconnecting
   \<and> wc_completed (foldl wc_step demo_client [WClose id True 1006, WAbort])"
  by code_simp

end
