(* ===== verification/FileArtifacts.thy ===== *)
theory FileArtifacts
  imports JsRegex JsDict
begin

text \<open>
  The files a session touches: names and paths of generated files (\<^verbatim>\<open>web/user/src/utils/generatedTool.js\<close>),
  the tabs of the file browser (\<^verbatim>\<open>web/user/src/utils/fileArtifacts.js\<close>), and the matching of question
  cards with their permission requests (\<^verbatim>\<open>web/user/src/utils/askUserQuestion.js\<close>).
\<close>

section \<open>Generated files\<close>

definition GENERATED_TOOL_NAME :: string where
  "GENERATED_TOOL_NAME = ''mcp__FileCanvas__register_file''"

definition GENERATED_TOOL_METHOD :: string where
  "GENERATED_TOOL_METHOD = ''register_file''"

definition GENERATED_TOOL_LABEL :: string where
  "GENERATED_TOOL_LABEL = ''FileCanvas''"

definition isGeneratedToolName :: "jsval \<Rightarrow> bool" where
  "isGeneratedToolName name \<longleftrightarrow> name = JStr GENERATED_TOOL_NAME \<or> name = JStr GENERATED_TOOL_METHOD"

definition getToolDisplayName :: "jsval \<Rightarrow> jsval" where
  "getToolDisplayName name =
     (if isGeneratedToolName name then JStr GENERATED_TOOL_LABEL else if name = JStr ''TodoWrite'' then JStr ''TODO'' else name)"

definition add_path :: "string list \<Rightarrow> jsval \<Rightarrow> string list" where
  "add_path normalized v =
     (if \<not> is_str v then normalized
      else (let path = trim (str_of v)
            in if path = [] \<or> path \<in> set normalized then normalized else normalized @ [path]))"

definition getGeneratedInputPaths :: "jsval \<Rightarrow> string list" where
  "getGeneratedInputPaths input = foldl add_path [] (arr_of (jget input ''paths''))"

definition buildGeneratedFileOpId :: "jsval \<Rightarrow> nat \<Rightarrow> string" where
  "buildGeneratedFileOpId toolUseId index = to_str toolUseId @ ''::generated::'' @ show_nat index"

section \<open>Tabs\<close>

definition FILE_SOURCE_CURRENT :: jsval where
  "FILE_SOURCE_CURRENT = JStr ''current''"

definition FILE_SOURCE_PAST :: jsval where
  "FILE_SOURCE_PAST = JStr ''past''"

definition FILE_SOURCE_LABELS :: jsval where
  "FILE_SOURCE_LABELS =
     JObj [(''current'', JStr ''Current Agent session''), (''past'', JStr ''Past''), (''upload'', JStr ''Upload File'')]"

definition FILE_TOOL_NAMES :: "string list" where
  "FILE_TOOL_NAMES = [''Read'', ''Write'', ''Edit'']"

definition isFileToolName :: "jsval \<Rightarrow> bool" where
  "isFileToolName name \<longleftrightarrow> is_str name \<and> str_of name \<in> set FILE_TOOL_NAMES"

definition fileNameFromPath :: "jsval \<Rightarrow> jsval" where
  "fileNameFromPath filePath =
     (if \<not> truthy filePath then JStr ''(untitled)''
      else (let parts = filter (\<lambda>p. p \<noteq> []) (split_on (\<lambda>c. c = CHR ''/'') (to_str filePath))
            in if parts = [] then filePath else JStr (last parts)))"

definition browserSourceLabel :: "jsval \<Rightarrow> jsval" where
  "browserSourceLabel source = jor (jor (jget FILE_SOURCE_LABELS (to_str source)) source) (JStr [])"

definition fileTabFromToolUse :: "jsval \<Rightarrow> jsval \<Rightarrow> jsval option" where
  "fileTabFromToolUse block browserSource =
     (if \<not> truthy block \<or> \<not> isFileToolName (jget block ''name'') then None
      else (let filePath = jor (jor (jget (jget block ''input'') ''file_path'') (jget (jget block ''input'') ''path'')) (JStr [])
            in if \<not> truthy filePath then None
               else Some (JObj [(''filePath'', filePath), (''name'', fileNameFromPath filePath),
                 (''source'', browserSourceLabel browserSource), (''browserSource'', browserSource),
                 (''sourceTool'', jget block ''name''), (''toolUseId'', jor (jget block ''id'') JNull)])))"

definition resultPayloads :: "jsval \<Rightarrow> jsval \<Rightarrow> jsval list" where
  "resultPayloads result toolUseResult =
     filter (\<lambda>v. truthy v \<and> is_object v)
       [result, jget result ''tool_use_result'', jget result ''toolUseResult'', toolUseResult]"

definition errored_payload :: "jsval \<Rightarrow> bool" where
  "errored_payload payload \<longleftrightarrow>
     (let status = lower (to_str (jor (jor (jget payload ''status'') (jget payload ''toolStatus'')) (JStr [])))
      in jget payload ''is_error'' = JBool True \<or> jget payload ''isError'' = JBool True \<or> jget payload ''error'' = JBool True
         \<or> is_str (jget payload ''error'') \<and> trim (str_of (jget payload ''error'')) \<noteq> []
         \<or> status = ''error'' \<or> status = ''failed'')"

definition isErroredToolResult :: "jsval \<Rightarrow> jsval \<Rightarrow> bool" where
  "isErroredToolResult result toolUseResult \<longleftrightarrow> list_ex errored_payload (resultPayloads result toolUseResult)"

definition shouldOpenToolFileInBrowser :: "jsval \<Rightarrow> bool" where
  "shouldOpenToolFileInBrowser block \<longleftrightarrow> truthy block \<and> isFileToolName (jget block ''name'')"

definition generated_tab :: "jsval \<Rightarrow> jsval \<Rightarrow> jsval \<Rightarrow> jsval option" where
  "generated_tab browserSource toolUseId file =
     (let filePath = jor (jor (jget file ''path'') (jget file ''filePath'')) (JStr [])
      in if \<not> truthy filePath then None
         else Some (JObj [(''filePath'', filePath), (''name'', jor (jget file ''name'') (fileNameFromPath filePath)),
           (''mimeType'', jor (jor (jget file ''mime_type'') (jget file ''mimeType'')) JNull),
           (''size'', if is_num (jget file ''size'') then jget file ''size'' else JNull),
           (''extension'', jor (jget file ''extension'') JNull), (''source'', browserSourceLabel browserSource),
           (''browserSource'', browserSource), (''sourceTool'', JStr GENERATED_TOOL_LABEL), (''toolUseId'', toolUseId)]))"

definition fileTabsFromGeneratedFiles :: "jsval \<Rightarrow> jsval \<Rightarrow> jsval \<Rightarrow> jsval list" where
  "fileTabsFromGeneratedFiles files browserSource toolUseId =
     List.map_filter (generated_tab browserSource toolUseId) (arr_of files)"

section \<open>The files of a session\<close>

definition ends_with :: "string \<Rightarrow> string \<Rightarrow> bool" where
  "ends_with s e \<longleftrightarrow> suffix e s"

definition file_path :: "jsval \<Rightarrow> jsval" where
  "file_path file = jor (jor (jget file ''filePath'') (jget file ''path'')) (JStr [])"

definition isBrowserLoadableFile :: "jsval \<Rightarrow> bool" where
  "isBrowserLoadableFile file \<longleftrightarrow>
     (let mimeType = lower (to_str (jor (jor (jget file ''mimeType'') (jget file ''mime_type'')) (JStr [])));
          extension = lower (to_str (jor (jget file ''extension'') (JStr [])));
          lowerPath = lower (takeWhile (\<lambda>c. c \<noteq> CHR ''?'' \<and> c \<noteq> CHR ''#'') (to_str (file_path file)))
      in mimeType = ''text/html'' \<or> extension = ''.html'' \<or> extension = ''.htm''
         \<or> ends_with lowerPath ''.html'' \<or> ends_with lowerPath ''.htm'')"

definition absent :: "jsval \<Rightarrow> bool" where
  "absent v \<longleftrightarrow> nullish v \<or> v = JStr []"

definition merge_present :: "jsval \<Rightarrow> jsobj \<Rightarrow> jsval" where
  "merge_present existing kvs =
     foldl (\<lambda>merged (k, v). if absent v then merged else jset k v merged) (JObj (obj_of existing)) kvs"

definition addSessionFile :: "(jsval, jsval) dict \<Rightarrow> jsval \<Rightarrow> (jsval, jsval) dict" where
  "addSessionFile filesByPath file =
     (if \<not> truthy file \<or> \<not> isBrowserLoadableFile file then filesByPath
      else (let filePath = file_path file
            in if \<not> truthy filePath then filesByPath
               else (let existing = (case dget filesByPath filePath of Some f \<Rightarrow> f | None \<Rightarrow> JObj []);
                         merged = merge_present existing (obj_of (jput file [(''id'', filePath), (''filePath'', filePath)]))
                     in dset filePath merged (ddel filePath filesByPath))))"

definition result_files :: "jsval \<Rightarrow> jsval list" where
  "result_files result =
     (if is_arr (jget (jget result ''tool_use_result'') ''files'') then arr_of (jget (jget result ''tool_use_result'') ''files'')
      else arr_of (jget result ''files''))"

definition path_files :: "jsval \<Rightarrow> jsval" where
  "path_files input = JArr (map (\<lambda>p. JObj [(''path'', JStr p)]) (getGeneratedInputPaths input))"

definition generatedFilesFromBlock :: "jsval \<Rightarrow> jsval \<Rightarrow> jsval list" where
  "generatedFilesFromBlock block browserSource =
     (let resultFiles = result_files (jget block ''result'')
      in if resultFiles \<noteq> [] then fileTabsFromGeneratedFiles (JArr resultFiles) browserSource (jget block ''id'')
         else fileTabsFromGeneratedFiles (path_files (jget block ''input'')) browserSource (jor (jget block ''id'') JNull))"

definition file_ref_file :: "jsval \<Rightarrow> jsval \<Rightarrow> jsval" where
  "file_ref_file block browserSource =
     (let filePath = file_path block
      in JObj [(''filePath'', filePath), (''name'', fileNameFromPath filePath),
           (''mimeType'', jor (jor (jget block ''mimeType'') (jget block ''mime_type'')) JNull),
           (''extension'', jor (jget block ''extension'') JNull),
           (''size'', if is_num (jget block ''size'') then jget block ''size'' else JNull),
           (''source'', jor (jget block ''name'') (browserSourceLabel browserSource)),
           (''browserSource'', browserSource), (''sourceTool'', jor (jget block ''name'') JNull),
           (''toolUseId'', jor (jor (jor (jget block ''fileOpId'') (jget block ''toolUseId'')) (jget block ''id'')) JNull)])"

text \<open>The files a block hands to \<^verbatim>\<open>addSessionFile\<close>, in order.\<close>

definition block_files :: "jsval \<Rightarrow> jsval \<Rightarrow> jsval list" where
  "block_files browserSource block =
     (if \<not> truthy block \<or> \<not> is_object block then []
      else if jget block ''type'' = JStr ''tool_use''
      then (if isFileToolName (jget block ''name'')
            then (if shouldOpenToolFileInBrowser block
                  then (case fileTabFromToolUse block browserSource of None \<Rightarrow> [] | Some t \<Rightarrow> [t]) else [])
            else if isGeneratedToolName (jget block ''name'') then generatedFilesFromBlock block browserSource else [])
      else if jget block ''type'' = JStr ''file_ref'' then [file_ref_file block browserSource]
      else [])"

definition addSessionBlockFiles :: "jsval \<Rightarrow> (jsval, jsval) dict \<Rightarrow> jsval \<Rightarrow> (jsval, jsval) dict" where
  "addSessionBlockFiles browserSource filesByPath block = foldl addSessionFile filesByPath (block_files browserSource block)"

definition session_blocks :: "jsval list \<Rightarrow> (string, jsval) dict \<Rightarrow> jsval list" where
  "session_blocks messages subagentContent =
     concat (map (\<lambda>msg. arr_of (jget msg ''content'')) messages) @ concat (map arr_of (dvals subagentContent))"

definition collectBrowserFilesFromSession :: "jsval list \<Rightarrow> (string, jsval) dict \<Rightarrow> jsval \<Rightarrow> jsval list" where
  "collectBrowserFilesFromSession messages subagentContent browserSource =
     dvals (foldl (addSessionBlockFiles browserSource) dempty (session_blocks messages subagentContent))"

section \<open>Question cards\<close>

definition normalizedQuestions :: "jsval \<Rightarrow> jsval" where
  "normalizedQuestions questions = (if is_arr questions then questions else JArr [])"

definition sameAskUserQuestions :: "js_env \<Rightarrow> jsval \<Rightarrow> jsval \<Rightarrow> bool" where
  "sameAskUserQuestions env left right \<longleftrightarrow>
     env_stringify env (normalizedQuestions left) = env_stringify env (normalizedQuestions right)"

definition is_ask :: "jsval \<Rightarrow> bool" where
  "is_ask block \<longleftrightarrow> jget block ''type'' = JStr ''ask_user''"

definition findMatchingAskUserBlockIndex :: "js_env \<Rightarrow> jsval \<Rightarrow> jsval \<Rightarrow> jsval \<Rightarrow> nat option" where
  "findMatchingAskUserBlockIndex env blocks toolUseId questions =
     (let list = arr_of blocks;
          exact = (if truthy toolUseId
                   then find_index (\<lambda>b. is_ask b \<and> (jget b ''toolUseId'' = toolUseId \<or> jget b ''id'' = toolUseId)) list
                   else None)
      in case exact of
           Some i \<Rightarrow> Some i
         | None \<Rightarrow> find_last_index (\<lambda>b. is_ask b \<and> jget b ''status'' = JStr ''pending''
                     \<and> sameAskUserQuestions env (jget b ''questions'') questions) list)"

text \<open>The nested texts of a result; \<^verbatim>\<open>resultText('')\<close> is the empty string.\<close>

definition text_field :: "jsval \<Rightarrow> jsval" where
  "text_field v = jcoal (jcoal (jget v ''content'') (jget v ''text'')) (jget v ''message'')"

lemma jget_size: "jget (JObj kvs) k \<noteq> JUndef \<Longrightarrow> size (jget (JObj kvs) k) < size (JObj kvs)"
proof (induction kvs)
  case (Cons kv kvs)
  then show ?case by (cases kv) (auto split: if_splits option.splits)
qed simp

function ask_resultText :: "jsval \<Rightarrow> string" where
  "ask_resultText (JStr s) = s"
| "ask_resultText (JArr xs) = join '' '' (map ask_resultText xs)"
| "ask_resultText (JObj kvs) = (let w = text_field (JObj kvs) in if nullish w then [] else ask_resultText w)"
| "ask_resultText JUndef = []"
| "ask_resultText JNull = []"
| "ask_resultText (JBool b) = []"
| "ask_resultText (JNum n) = []"
| "ask_resultText JNaN = []"
| "ask_resultText (JFun f) = []"
  by pat_completeness auto

termination
proof (relation "measure size")
  fix xs :: "jsval list" and x :: jsval
  assume "x \<in> set xs"
  then show "(x, JArr xs) \<in> measure size" by (induction xs) auto
next
  fix kvs :: jsobj and w :: jsval
  assume w: "w = text_field (JObj kvs)" "\<not> nullish w"
  then have "\<exists>k. w = jget (JObj kvs) k \<and> w \<noteq> JUndef" unfolding text_field_def jcoal_def
    by (cases "nullish (jget (JObj kvs) ''content'')"; cases "nullish (jget (JObj kvs) ''text'')") (auto simp del: jget.simps)
  then show "(w, JObj kvs) \<in> measure size" using jget_size [of kvs] by (auto simp del: jget.simps)
qed simp

text \<open>\<^verbatim>\<open>/InputValidationError/i\<close>\<close>

definition isAskUserInputValidationError :: "jsval \<Rightarrow> jsval \<Rightarrow> bool" where
  "isAskUserInputValidationError result toolUseResult \<longleftrightarrow>
     (jget result ''is_error'' = JBool True \<or> jget result ''isError'' = JBool True)
     \<and> rtest (rlit_ci ''InputValidationError'') (ask_resultText result @ '' '' @ ask_resultText toolUseResult)"

section \<open>Merging\<close>

lemma jget_merge_from:
  "distinct (map fst kvs) \<Longrightarrow>
     jget (foldl (\<lambda>merged (k, v). if absent v then merged else jset k v merged) acc kvs) k =
     (if absent (jget (JObj kvs) k) then jget acc k else jget (JObj kvs) k)"
proof (induction kvs arbitrary: acc)
  case Nil
  then show ?case by (simp add: absent_def)
next
  case (Cons kv kvs)
  obtain k' v where kv: "kv = (k', v)" by (cases kv)
  have own: "jget (JObj kvs) k' = JUndef" using Cons.prems kv by (simp add: map_of_eq_None_iff [THEN iffD2] split: option.split)
  show ?case
  proof (cases "k = k'")
    case True
    then show ?thesis using Cons own kv by (simp add: absent_def)
  next
    case False
    then show ?thesis using Cons kv by simp
  qed
qed

lemma jget_merge_present:
  "distinct (map fst kvs) \<Longrightarrow>
     jget (merge_present existing kvs) k = (if absent (jget (JObj kvs) k) then jget existing k else jget (JObj kvs) k)"
  by (simp add: merge_present_def jget_merge_from jget_obj_of del: jget.simps)

lemma distinct_jput: "distinct (map fst (obj_of o')) \<Longrightarrow> distinct (map fst (obj_of (jput o' kvs)))"
proof (induction kvs rule: rev_induct)
  case (snoc kv kvs)
  obtain k v where kv: "kv = (k, v)" by (cases kv)
  obtain us where us: "jput o' kvs = JObj us" using jput_is_obj [of o' kvs] by blast
  show ?case using snoc distinct_update [of us k v] by (simp add: kv jput_snoc us)
qed (simp add: jput_def)

lemma jget_jput_entries: "jget (JObj (obj_of (jput o' kvs))) k = jget (jput o' kvs) k"
  by (rule jget_obj_of)

section \<open>The files that are collected\<close>

definition tab_ok :: "jsval \<Rightarrow> bool" where
  "tab_ok file \<longleftrightarrow> distinct (map fst (obj_of file)) \<and> jget file ''mime_type'' = JUndef"

definition files_ok :: "(jsval, jsval) dict \<Rightarrow> bool" where
  "files_ok m \<longleftrightarrow> dwf m \<and> (\<forall>k f. dget m k = Some f \<longrightarrow>
     jget f ''filePath'' = k \<and> isBrowserLoadableFile f \<and> jget f ''mime_type'' = JUndef)"

definition kept_file :: "jsval \<Rightarrow> bool" where
  "kept_file file \<longleftrightarrow> truthy file \<and> isBrowserLoadableFile file \<and> truthy (file_path file)"

lemma truthy_present: "truthy v \<Longrightarrow> \<not> absent v"
  by (auto simp: absent_def nullish_not_truthy)

lemma merged_loadable:
  assumes tab: "tab_ok file" and kept: "kept_file file" and ex: "jget existing ''mime_type'' = JUndef"
  defines "p \<equiv> file_path file"
  defines "merged \<equiv> merge_present existing (obj_of (jput file [(''id'', p), (''filePath'', p)]))"
  shows "jget merged ''filePath'' = p" and "isBrowserLoadableFile merged" and "jget merged ''mime_type'' = JUndef"
proof -
  have get: "jget merged k = (let v = jget (jput file [(''id'', p), (''filePath'', p)]) k in if absent v then jget existing k else v)" for k
    using distinct_jput [of "file"] tab
    by (simp add: merged_def jget_merge_present tab_ok_def jget_jput_entries Let_def del: jget.simps)
  have p: "truthy p" using kept by (simp add: p_def kept_file_def)
  then show path: "jget merged ''filePath'' = p" using truthy_present [OF p] by (simp add: get jget_jput Let_def)
  show mt: "jget merged ''mime_type'' = JUndef" using tab ex by (simp add: get jget_jput Let_def tab_ok_def absent_def)
  have keep: "truthy (jget file k) \<Longrightarrow> jget merged k = jget file k" if "k \<in> {''mimeType'', ''extension''}" for k
    using that truthy_present [of "jget file k"] by (auto simp: get jget_jput Let_def)
  have fp: "file_path merged = file_path file" using p path by (simp add: p_def) (simp add: file_path_def jor_def)
  have "isBrowserLoadableFile file" using kept by (simp add: kept_file_def)
  then show "isBrowserLoadableFile merged" unfolding isBrowserLoadableFile_def Let_def fp mt
    using keep [of "''mimeType''"] keep [of "''extension''"] tab
    by (auto simp: jor_def tab_ok_def lower_def split: if_splits)
qed

lemma addSessionFile_effect:
  assumes "files_ok m" and "tab_ok file"
  shows "files_ok (addSessionFile m file)"
    and "set (dkeys (addSessionFile m file)) = set (dkeys m) \<union> (if kept_file file then {file_path file} else {})"
proof -
  let ?ex = "case dget m (file_path file) of Some f \<Rightarrow> f | None \<Rightarrow> JObj []"
  have ex: "jget ?ex ''mime_type'' = JUndef" using assms(1) by (simp add: files_ok_def split: option.split)
  show "files_ok (addSessionFile m file)"
  proof (cases "kept_file file")
    case True
    note merged_loadable [OF assms(2) True ex]
    then show ?thesis using assms(1) True by (auto simp: addSessionFile_def kept_file_def Let_def files_ok_def)
  qed (use assms(1) in \<open>simp add: addSessionFile_def kept_file_def Let_def\<close>)
  show "set (dkeys (addSessionFile m file)) = set (dkeys m) \<union> (if kept_file file then {file_path file} else {})"
    by (auto simp: addSessionFile_def kept_file_def Let_def)
qed

lemma add_files_effect:
  "files_ok m \<Longrightarrow> list_all tab_ok fs \<Longrightarrow> files_ok (foldl addSessionFile m fs)
     \<and> set (dkeys (foldl addSessionFile m fs)) = set (dkeys m) \<union> file_path ` {f \<in> set fs. kept_file f}"
proof (induction fs arbitrary: m)
  case (Cons f fs)
  then have "files_ok (addSessionFile m f)" "list_all tab_ok fs" by (simp_all add: addSessionFile_effect(1))
  from Cons.IH [OF this] addSessionFile_effect(2) [of m f] Cons.prems show ?case by auto
qed simp

lemma generated_tabs_ok: "list_all tab_ok (fileTabsFromGeneratedFiles files src i)"
proof -
  have "tab_ok t" if "generated_tab src i f = Some t" for f t
    using that by (auto simp: generated_tab_def Let_def tab_ok_def split: if_splits)
  then show ?thesis by (auto simp: fileTabsFromGeneratedFiles_def list_all_iff List.map_filter_def)
qed

lemma block_files_ok: "list_all tab_ok (block_files src block)"
  using generated_tabs_ok
  by (auto simp: block_files_def generatedFilesFromBlock_def Let_def file_ref_file_def fileTabFromToolUse_def tab_ok_def
      split: option.split)

lemma collected_as_files:
  "foldl (addSessionBlockFiles src) m blocks = foldl addSessionFile m (concat (map (block_files src) blocks))"
  by (induction blocks arbitrary: m) (simp_all add: addSessionBlockFiles_def)

lemma files_by_path: "files_ok m \<Longrightarrow> map (\<lambda>f. jget f ''filePath'') (dvals m) = dkeys m"
proof -
  assume m: "files_ok m"
  have "jget f ''filePath'' = k" if "(k, f) \<in> set m" for k f using that m by (auto simp: files_ok_def dwf_dget)
  then show ?thesis by (auto simp: dvals_def dkeys_def)
qed

text \<open>
  The browser's list of a session's files names each file once, holds only files the browser can load, and names
  exactly the loadable files that the blocks of the transcript and of its subagents mention; what a
  later mention adds to an entry never makes it unloadable.
\<close>

theorem browser_files_unique:
  fixes messages :: "jsval list" and subagentContent :: "(string, jsval) dict" and src :: jsval
  defines "found \<equiv> collectBrowserFilesFromSession messages subagentContent src"
  defines "mentioned \<equiv> concat (map (block_files src) (session_blocks messages subagentContent))"
  shows "distinct (map (\<lambda>f. jget f ''filePath'') found) \<and> list_all isBrowserLoadableFile found
    \<and> set (map (\<lambda>f. jget f ''filePath'') found) = file_path ` {f \<in> set mentioned. kept_file f}"
proof -
  let ?m = "foldl addSessionFile dempty mentioned"
  have "files_ok dempty" by (simp add: files_ok_def)
  moreover have "list_all tab_ok mentioned" using block_files_ok by (auto simp: mentioned_def list_all_iff)
  ultimately have m: "files_ok ?m" "set (dkeys ?m) = file_path ` {f \<in> set mentioned. kept_file f}"
    using add_files_effect [of dempty mentioned] by auto
  have f: "found = dvals ?m"
    by (simp add: found_def mentioned_def collectBrowserFilesFromSession_def collected_as_files)
  have "distinct (dkeys ?m)" using m(1) by (simp add: files_ok_def dwf_def dkeys_def)
  moreover have "list_all isBrowserLoadableFile found"
    using m(1) by (auto simp: f list_all_iff dvals_def files_ok_def dest: dwf_dget)
  ultimately show ?thesis using m files_by_path [OF m(1)] by (simp add: f)
qed

lemma add_path_ok:
  "distinct ps \<Longrightarrow> distinct (foldl add_path ps vs)
     \<and> set (foldl add_path ps vs) = set ps \<union> {trim s | s. JStr s \<in> set vs \<and> trim s \<noteq> []}"
proof (induction vs arbitrary: ps)
  case (Cons v vs)
  have step: "distinct (add_path ps v)" "set (add_path ps v) = set ps \<union> {trim s | s. v = JStr s \<and> trim s \<noteq> []}"
    using Cons.prems by (cases v; auto simp: add_path_def Let_def)+
  show ?case using Cons.IH [OF step(1)] step(2) by auto
qed simp

lemma input_paths: "distinct (getGeneratedInputPaths input)
   \<and> set (getGeneratedInputPaths input) = {trim s | s. JStr s \<in> set (arr_of (jget input ''paths'')) \<and> trim s \<noteq> []}"
  using add_path_ok [of "[]"] by (simp add: getGeneratedInputPaths_def)

end
