(* ===== verification/SessionTransform.thy ===== *)
theory SessionTransform
  imports SdkTaskTracker FileArtifacts AgentLifecycle
begin

text \<open>
  The replay of a stored session (\<^verbatim>\<open>web/user/src/utils/sessionTransform.js\<close>): the messages of the SDK's history
  become the transcript of the chat, the file operations, browser tabs, tasks, the task tracker and
  the content of subagents. The two passes of \<^verbatim>\<open>transformSessionMessages\<close> are folds over the history; the
  second one updates a \<open>transcript\<close>, one definition per branch of the loop. Messages, content blocks and
  question objects are taken to be objects, as the history endpoint sends them.
\<close>

section \<open>Reading messages\<close>

definition text_block :: "jsval \<Rightarrow> jsval" where
  "text_block t = JObj [(''type'', JStr ''text''), (''text'', t)]"

definition getContentBlocks :: "jsval \<Rightarrow> jsval list" where
  "getContentBlocks msg =
     (let content = jget msg ''message''
      in if is_str content then [text_block content]
         else if is_arr content then arr_of content
         else if truthy content \<and> is_object content
         then (let inner = jget content ''content''
               in if is_str inner then [text_block inner] else if is_arr inner then arr_of inner else [])
         else [])"

text \<open>
  \<^verbatim>\<open>/<command-name>\s*(.*?)\s*<\/command-name>/\<close>, where the dot stops at line ends, and
  \<^verbatim>\<open>/<command-args>([\s\S]*?)<\/command-args>/\<close>
\<close>

definition command_name_rx :: rx where
  "command_name_rx =
     rseq [rlit ''<command-name>'', RStar True rws, RGrp 1 (RStar False (RChr (\<lambda>c. c \<noteq> newline \<and> c \<noteq> CHR 0x0D))),
       RStar True rws, rlit ''</command-name>'']"

definition command_args_rx :: rx where
  "command_args_rx = rseq [rlit ''<command-args>'', RGrp 1 (RStar False rany), rlit ''</command-args>'']"

definition drop_slash :: "string \<Rightarrow> string" where
  "drop_slash s = (case s of CHR ''/'' # r \<Rightarrow> r | _ \<Rightarrow> s)"

definition stripCommandEnvelope :: "jsval \<Rightarrow> jsval" where
  "stripCommandEnvelope v =
     (if \<not> truthy v then v
      else (let text = to_str v
            in if \<not> rtest (rlit ''<command-message>'') text \<and> \<not> rtest (rlit ''<command-name>'') text then v
               else (let name = (case rgroup command_name_rx 1 text of Some n \<Rightarrow> drop_slash n | None \<Rightarrow> []);
                         args = (case rgroup command_args_rx 1 text of Some a \<Rightarrow> trim a | None \<Rightarrow> [])
                     in if name \<noteq> [] then JStr (trim (''/'' @ name @ '' '' @ args)) else v)))"

definition has_type :: "string \<Rightarrow> jsval \<Rightarrow> bool" where
  "has_type t b \<longleftrightarrow> jget b ''type'' = JStr t"

definition joined :: "jsval \<Rightarrow> string" where
  "joined v = (if nullish v then [] else to_str v)"

definition extractUserText :: "jsval list \<Rightarrow> string" where
  "extractUserText blocks =
     join [newline] (map (\<lambda>b. joined (stripCommandEnvelope (jget b ''text''))) (filter (has_type ''text'') blocks))"

text \<open>\<^verbatim>\<open>Number(v)\<close>; \<open>None\<close> where it is not finite.\<close>

fun js_number :: "js_env \<Rightarrow> jsval \<Rightarrow> int option" where
  "js_number env (JNum n) = Some n"
| "js_number env (JStr s) = env_str_num env s"
| "js_number env (JBool b) = Some (if b then 1 else 0)"
| "js_number env JNull = Some 0"
| "js_number env (JArr xs) = env_str_num env (to_str (JArr xs))"
| "js_number env _ = None"

definition finiteNumber :: "js_env \<Rightarrow> jsval \<Rightarrow> int option" where
  "finiteNumber env v = (if nullish v \<or> v = JStr [] then None else js_number env v)"

definition replay_millis :: "js_env \<Rightarrow> jsval \<Rightarrow> int option" where
  "replay_millis env v =
     (if nullish v \<or> v = JStr [] then None
      else (case v of JNum n \<Rightarrow> Some n | _ \<Rightarrow> env_date_parse env (to_str v)))"

definition set_num :: "string \<Rightarrow> int option \<Rightarrow> jsval \<Rightarrow> jsval" where
  "set_num k n o' = (case n of Some x \<Rightarrow> jset k (JNum x) o' | None \<Rightarrow> o')"

definition set_object :: "string \<Rightarrow> jsval \<Rightarrow> jsval \<Rightarrow> jsval" where
  "set_object k v o' = (if truthy v \<and> is_object v then jset k v o' else o')"

definition getAssistantReplayMetadata :: "js_env \<Rightarrow> jsval \<Rightarrow> jsval" where
  "getAssistantReplayMetadata env msg =
     (let source = jor (jget msg ''metadata'') (JObj []);
          message = (if truthy (jget msg ''message'') \<and> is_object (jget msg ''message'') then jget msg ''message'' else JObj []);
          usage = jor (jor (jget source ''usage'') (jget message ''usage'')) (JObj []);
          inputTokens = finiteNumber env (jget usage ''input_tokens'');
          outputTokens = finiteNumber env (jget usage ''output_tokens'');
          duration = finiteNumber env (jcoal (jcoal (jget source ''duration_ms'') (jget source ''durationMs'')) (jget msg ''duration_ms''));
          agentLoops = finiteNumber env (jcoal (jcoal (jget source ''agent_loops'') (jget source ''agentLoops'')) (jget source ''num_turns''));
          timestamp = replay_millis env (jcoal (jget source ''timestamp'') (jget msg ''timestamp''))
      in set_object ''agentTaskNotifications'' (jget source ''agent_task_notifications'')
          (set_object ''agentToolResults'' (jget source ''agent_tool_results'')
           (set_num ''timestamp'' timestamp (set_num ''agentLoops'' agentLoops (set_num ''duration'' duration
             (set_num ''outputTokens'' outputTokens (set_num ''inputTokens'' inputTokens (JObj []))))))))"

section \<open>Replayed agents\<close>

definition replay_notification :: "string list \<Rightarrow> string \<Rightarrow> jsval \<Rightarrow> agent_notif option" where
  "replay_notification stoppedAgentIds agentId recorded =
     (case normalizeAgentTaskNotification recorded of
        Some n \<Rightarrow> Some n
      | None \<Rightarrow>
          if agentId \<noteq> [] \<and> agentId \<in> set stoppedAgentIds
          then Some \<lparr>an_toolUseId = JUndef, an_taskId = JStr agentId, an_status = ''killed'', an_summary = JStr [], an_timestamp = JNull\<rparr>
          else None)"

definition replay_lifecycle :: "agent_notif option \<Rightarrow> agent_result_info \<Rightarrow> jsval \<Rightarrow> lifecycle" where
  "replay_lifecycle notification info enrichedResult =
     (case agentLifecycleFromStatus (case notification of Some n \<Rightarrow> JStr (an_status n) | None \<Rightarrow> JUndef) of
        Some l \<Rightarrow> l
      | None \<Rightarrow>
          if ri_isError info then LC_failed
          else if ri_isAsync info then LC_running
          else if truthy enrichedResult then LC_completed else LC_running)"

definition or_undef :: "jsval \<Rightarrow> jsval" where
  "or_undef v = jor v JUndef"

definition buildReplayedAgentBlock :: "js_env \<Rightarrow> jsval \<Rightarrow> jsval \<Rightarrow> jsval \<Rightarrow> string list \<Rightarrow> jsval" where
  "buildReplayedAgentBlock env block result replayMetadata stoppedAgentIds =
     (let i = to_str (jget block ''id'');
          structured = jor (jget (jget replayMetadata ''agentToolResults'') i) JNull;
          enrichedResult = (if truthy result \<and> truthy structured \<and> \<not> truthy (jget result ''tool_use_result'')
            then jput result [(''tool_use_result'', structured)] else result);
          info = getAgentResultInfo enrichedResult structured;
          notification = replay_notification stoppedAgentIds (ri_agentId info)
            (jget (jget replayMetadata ''agentTaskNotifications'') i);
          lifecycle = replay_lifecycle notification info enrichedResult;
          notificationTime = replay_millis env (case notification of Some n \<Rightarrow> an_timestamp n | None \<Rightarrow> JUndef);
          startTime = (case jget replayMetadata ''timestamp'' of JNum n \<Rightarrow> if n = 0 then None else Some n | _ \<Rightarrow> None);
          b0 = jput block
            [(''status'', JStr (agentLifecycleToBlockStatus lifecycle)), (''result'', or_undef enrichedResult),
             (''toolUseResult'', or_undef structured),
             (''agentId'', jor (JStr (ri_agentId info)) (or_undef (case notification of Some n \<Rightarrow> an_taskId n | None \<Rightarrow> JUndef))),
             (''agentTaskStatus'', case notification of Some n \<Rightarrow> if an_status n \<noteq> [] then JStr (an_status n) else JStr (lifecycle_str lifecycle)
                | None \<Rightarrow> JStr (lifecycle_str lifecycle)),
             (''agentTaskSummary'', or_undef (case notification of Some n \<Rightarrow> an_summary n | None \<Rightarrow> JUndef))]
      in set_num ''duration'' (case notificationTime of None \<Rightarrow> None
             | Some e \<Rightarrow> (case startTime of None \<Rightarrow> None | Some b \<Rightarrow> Some (max 0 (e - b))))
          (set_num ''endTime'' notificationTime (set_num ''startTime'' startTime b0)))"

definition user_timestamp :: "js_env \<Rightarrow> jsval \<Rightarrow> int option" where
  "user_timestamp env msg = replay_millis env (jcoal (jget (jor (jget msg ''metadata'') (JObj [])) ''timestamp'') (jget msg ''timestamp''))"

definition getUserReplayMetadata :: "js_env \<Rightarrow> jsval \<Rightarrow> jsval" where
  "getUserReplayMetadata env msg = set_num ''timestamp'' (user_timestamp env msg) (JObj [])"

definition getReplayedAgentMessage :: "js_env \<Rightarrow> jsval \<Rightarrow> jsval option" where
  "getReplayedAgentMessage env msg =
     (let meta = jget msg ''metadata''; raw = jor (jget meta ''agent_message'') (jget meta ''agentMessage'')
      in if \<not> truthy raw \<or> \<not> is_object raw \<or> \<not> is_str (jget raw ''body'') \<or> trim (str_of (jget raw ''body'')) = [] then None
         else (let timestamp = replay_millis env (jcoal (jget meta ''timestamp'') (jget msg ''timestamp''));
                   sequence = finiteNumber env (jcoal (jget raw ''sequence'') (jget meta ''sequence''))
               in Some (set_num ''sequence'' sequence (set_num ''timestamp'' timestamp (JObj
                 [(''type'', JStr ''agent_message''), (''id'', JStr (''agent-message-'' @ to_str (jget msg ''uuid''))),
                  (''direction'', JStr ''received''), (''body'', JStr (trim (str_of (jget raw ''body'')))),
                  (''senderAgentId'', jor (jor (jget raw ''sender_agent_id'') (jget raw ''senderAgentId'')) JNull),
                  (''senderName'', jor (jor (jget raw ''sender_name'') (jget raw ''senderName'')) JNull),
                  (''recipientAgentId'', jor (jor (jget raw ''recipient_agent_id'') (jget raw ''recipientAgentId'')) JNull)])))))"

definition HIDDEN_TOOLS :: "string list" where
  "HIDDEN_TOOLS = [''Write'', ''Edit'', ''TaskOutput'', ''TaskStop'', ''BashOutput'', ''KillBash'', ''ExitPlanMode'',
     ''AskUserQuestion'', ''TaskCreate'', ''TaskUpdate'', ''TaskGet'', ''TaskList'']"

section \<open>Answered questions\<close>

definition extractResultText :: "jsval \<Rightarrow> string" where
  "extractResultText content =
     (if is_str content then str_of content
      else if is_arr content
      then join '' '' (map (\<lambda>b. to_str (if is_str b then b else jor (jor (jget b ''text'') (jget b ''content'')) (JStr []))) (arr_of content))
      else [])"

text \<open>\<^verbatim>\<open>/"([^"]+)"\s*=\s*"([^"]*)"/g\<close>\<close>

definition answer_pair_rx :: rx where
  "answer_pair_rx =
     (let q = CHR 0x22
      in rseq [rlit [q], RGrp 1 (rplus (RChr (\<lambda>c. c \<noteq> q))), rlit [q], RStar True rws, rlit ''='', RStar True rws,
           rlit [q], RGrp 2 (RStar True (RChr (\<lambda>c. c \<noteq> q))), rlit [q]])"

definition cap :: "nat \<Rightarrow> (nat \<times> string) list \<Rightarrow> string" where
  "cap i caps = (case map_of caps i of Some s \<Rightarrow> s | None \<Rightarrow> [])"

definition prose_answers :: "string \<Rightarrow> jsval" where
  "prose_answers text = foldl (\<lambda>pairs m. jset (cap 1 m) (JStr (cap 2 m)) pairs) (JObj []) (rmatches answer_pair_rx text)"

definition option_hit :: "string \<Rightarrow> jsval \<Rightarrow> bool" where
  "option_hit val opt \<longleftrightarrow>
     (let label = to_str (jor (jget opt ''label'') (JStr []));
          parts = filter (\<lambda>p. p \<noteq> []) (map trim (split_on (\<lambda>c. c = CHR '';'' \<or> c = CHR '','') val))
      in label \<noteq> [] \<and> (list_ex (\<lambda>p. p = label \<or> prefix (label @ '' '') p \<or> str_includes p label) parts \<or> str_includes val label))"

definition chosen_options :: "string \<Rightarrow> jsval \<Rightarrow> nat list" where
  "chosen_options val q = map fst (filter (\<lambda>(oi, opt). option_hit val opt) (enumerate 0 (arr_of (jget q ''options''))))"

record answered =
  as_selections :: jsval
  as_custom :: jsval
  as_lines :: "string list"

definition answer_question :: "jsval \<Rightarrow> answered \<Rightarrow> nat \<times> jsval \<Rightarrow> answered" where
  "answer_question answers acc qq =
     (let (qi, q) = qq; raw = jget answers (to_str (jget q ''question''))
      in if nullish raw \<or> raw = JStr [] then acc
         else (let val = to_str raw; chosen = chosen_options val q;
                   acc1 = (if chosen \<noteq> []
                     then acc\<lparr>as_selections := jset (show_nat qi) (JArr (map (\<lambda>n. JNum (int n)) chosen)) (as_selections acc)\<rparr>
                     else acc\<lparr>as_custom := jset (show_nat qi) (JObj [(''enabled'', JBool True), (''text'', JStr val)]) (as_custom acc)\<rparr>)
               in acc1\<lparr>as_lines := as_lines acc1
                    @ [''- '' @ to_str (jor (jget q ''header'') (jget q ''question'')) @ '' -> '' @ val]\<rparr>))"

definition buildAnsweredAskUserBlock :: "jsval \<Rightarrow> jsval \<Rightarrow> jsval option" where
  "buildAnsweredAskUserBlock block result =
     (let tur = jor (jor (jget result ''tool_use_result'') (jget result ''toolUseResult'')) (JObj []);
          questions = jor (jor (jget (jget block ''input'') ''questions'') (jget tur ''questions'')) (JArr []);
          answers0 = jor (jget tur ''answers'') (JObj []);
          answers = (if obj_of answers0 = [] then prose_answers (extractResultText (jget result ''content'')) else answers0)
      in if arr_of questions = [] \<or> obj_of answers = [] then None
         else (let acc = foldl (answer_question answers) \<lparr>as_selections = JObj [], as_custom = JObj [], as_lines = []\<rparr>
                           (enumerate 0 (arr_of questions))
               in if obj_of (as_selections acc) = [] \<and> obj_of (as_custom acc) = [] then None
                  else Some (JObj [(''type'', JStr ''ask_user''), (''id'', jget block ''id''), (''toolUseId'', jget block ''id''),
                    (''questions'', questions), (''status'', JStr ''answered''),
                    (''answeredText'', JStr (join [newline] (as_lines acc))),
                    (''answeredSelections'', as_selections acc), (''answeredCustomInputs'', as_custom acc)])))"

definition getGeneratedTabs :: "jsval \<Rightarrow> jsval \<Rightarrow> jsval list" where
  "getGeneratedTabs block result =
     (let resultFiles = result_files result
      in if resultFiles \<noteq> [] then fileTabsFromGeneratedFiles (JArr resultFiles) FILE_SOURCE_PAST (jget block ''id'')
         else fileTabsFromGeneratedFiles (path_files (jget block ''input'')) FILE_SOURCE_PAST (jget block ''id''))"

section \<open>The first pass\<close>

record replay_index =
  ix_results :: "(string, jsval) dict"
  ix_workflows :: "jsval list"
  ix_taskStops :: "jsval list"

definition index_block :: "replay_index \<Rightarrow> jsval \<Rightarrow> replay_index" where
  "index_block ix b =
     (if has_type ''tool_result'' b \<and> truthy (jget b ''tool_use_id'')
      then ix\<lparr>ix_results := dset (to_str (jget b ''tool_use_id'')) b (ix_results ix)\<rparr>
      else if has_type ''tool_use'' b \<and> jget b ''name'' = JStr ''Workflow'' \<and> truthy (jget b ''id'')
      then ix\<lparr>ix_workflows := push_new (jget b ''id'') (ix_workflows ix)\<rparr>
      else if has_type ''tool_use'' b \<and> jget b ''name'' = JStr ''TaskStop'' \<and> truthy (jget b ''id'')
      then ix\<lparr>ix_taskStops := ix_taskStops ix @ [b]\<rparr>
      else ix)"

definition index_messages :: "jsval list \<Rightarrow> replay_index" where
  "index_messages sdkMessages =
     foldl index_block \<lparr>ix_results = dempty, ix_workflows = [], ix_taskStops = []\<rparr> (concat (map getContentBlocks sdkMessages))"

definition result_of :: "replay_index \<Rightarrow> jsval \<Rightarrow> jsval" where
  "result_of ix block = (case dget (ix_results ix) (to_str (jget block ''id'')) of Some r \<Rightarrow> r | None \<Rightarrow> JUndef)"

definition stoppedAgentIds :: "replay_index \<Rightarrow> string list" where
  "stoppedAgentIds ix =
     map to_str (filter truthy (map (\<lambda>b. jor (jget (jget b ''input'') ''task_id'') (jget (jget b ''input'') ''taskId''))
       (filter (\<lambda>b. truthy (result_of ix b) \<and> jget (result_of ix b) ''is_error'' \<noteq> JBool True) (ix_taskStops ix))))"

section \<open>The second pass\<close>

record transcript =
  ts_messages :: "jsval list"
  ts_fileOps :: "jsval list"
  ts_fileBrowserTabs :: "jsval list"
  ts_tasks :: "jsval list"
  ts_tracker :: tracker
  ts_toolRounds :: "(string, string option) dict"
  ts_subagents :: "(string, jsval list) dict"

definition init_transcript :: transcript where
  "init_transcript =
     \<lparr>ts_messages = [], ts_fileOps = [], ts_fileBrowserTabs = [], ts_tasks = [], ts_tracker = createSdkTaskTrackerState,
      ts_toolRounds = dempty, ts_subagents = dempty\<rparr>"

definition sub_of :: "string \<Rightarrow> transcript \<Rightarrow> jsval list" where
  "sub_of parentId st = (case dget (ts_subagents st) parentId of Some bs \<Rightarrow> bs | None \<Rightarrow> [])"

definition push_sub :: "string \<Rightarrow> jsval list \<Rightarrow> transcript \<Rightarrow> transcript" where
  "push_sub parentId bs st = st\<lparr>ts_subagents := dset parentId (sub_of parentId st @ bs) (ts_subagents st)\<rparr>"

definition add_tabs :: "jsval list \<Rightarrow> transcript \<Rightarrow> transcript" where
  "add_tabs tabs st = st\<lparr>ts_fileBrowserTabs := ts_fileBrowserTabs st @ tabs\<rparr>"

definition tool_tabs :: "jsval \<Rightarrow> jsval list" where
  "tool_tabs block =
     (if shouldOpenToolFileInBrowser block
      then (case fileTabFromToolUse block FILE_SOURCE_PAST of Some t \<Rightarrow> [t] | None \<Rightarrow> []) else [])"

text \<open>A task tool's call and, when the history has it, its result.\<close>

definition record_task_tool :: "js_env \<Rightarrow> replay_index \<Rightarrow> string option \<Rightarrow> jsval \<Rightarrow> transcript \<Rightarrow> transcript" where
  "record_task_tool env ix roundId block st =
     (let result = result_of ix block;
          t1 = recordSdkTaskToolUse (env_now env) block roundId (ts_tracker st);
          t2 = (if truthy result
                then recordSdkTaskToolResult env (to_str (jget block ''id'')) result
                       (jor (jget result ''tool_use_result'') (jget result ''toolUseResult'')) t1
                else t1)
      in st\<lparr>ts_tracker := t2\<rparr>)"

definition tool_status :: "jsval \<Rightarrow> jsval" where
  "tool_status result = JStr (if truthy (jget result ''is_error'') then ''error'' else ''success'')"

definition tool_card :: "jsval \<Rightarrow> jsval \<Rightarrow> jsval \<Rightarrow> jsval" where
  "tool_card block result startTime =
     (let b = jput block [(''status'', tool_status result), (''result'', or_undef result)]
      in if nullish startTime then b else jset ''startTime'' startTime b)"

definition opt_num :: "int option \<Rightarrow> jsval" where
  "opt_num n = (case n of Some x \<Rightarrow> JNum x | None \<Rightarrow> JNull)"

definition sidechain_block ::
  "js_env \<Rightarrow> replay_index \<Rightarrow> string \<Rightarrow> int option \<Rightarrow> transcript \<Rightarrow> jsval \<Rightarrow> transcript" where
  "sidechain_block env ix parentId timestamp st block =
     (if has_type ''text'' block \<or> has_type ''thinking'' block then push_sub parentId [block] st
      else if has_type ''tool_use'' block
      then (let result = result_of ix block
            in if isSdkTaskToolName (jget block ''name'')
               then record_task_tool env ix
                      (case dget (ts_toolRounds st) parentId of
                         Some (Some r) \<Rightarrow> if r = [] then tr_currentRoundId (ts_tracker st) else Some r
                       | _ \<Rightarrow> tr_currentRoundId (ts_tracker st)) block st
               else (let st1 = add_tabs (tool_tabs block) st;
                         st2 = (if isGeneratedToolName (jget block ''name'') then add_tabs (getGeneratedTabs block result) st1 else st1)
                     in push_sub parentId [tool_card block result (opt_num timestamp)] st2))
      else st)"

definition parent_id :: "jsval \<Rightarrow> string" where
  "parent_id msg = to_str (jget msg ''parent_tool_use_id'')"

definition sidechain_message :: "js_env \<Rightarrow> replay_index \<Rightarrow> transcript \<Rightarrow> jsval \<Rightarrow> transcript" where
  "sidechain_message env ix st msg =
     foldl (sidechain_block env ix (parent_id msg)
         (replay_millis env (jcoal (jget (jget msg ''metadata'') ''timestamp'') (jget msg ''timestamp''))))
       (push_sub (parent_id msg) [] st) (getContentBlocks msg)"

definition notif_object :: "task_notif \<Rightarrow> string \<Rightarrow> jsval" where
  "notif_object n kind =
     JObj [(''taskId'', opt_id (tn_taskId n)), (''toolUseId'', opt_id (tn_toolUseId n)), (''status'', JStr (tn_status n)),
       (''summary'', JStr (tn_summary n)), (''outputFile'', opt_id (tn_outputFile n)), (''kind'', JStr kind)]"

definition user_message :: "js_env \<Rightarrow> replay_index \<Rightarrow> transcript \<Rightarrow> jsval \<Rightarrow> transcript" where
  "user_message env ix st msg =
     (let blocks = getContentBlocks msg; text = extractUserText blocks
      in case parseTaskNotification (JStr text) of
           Some notif \<Rightarrow>
             (let kind = (case tn_toolUseId notif of
                            Some i \<Rightarrow> if JStr i \<in> set (ix_workflows ix) then ''workflow'' else ''task''
                          | None \<Rightarrow> ''task'')
              in st\<lparr>ts_messages := ts_messages st @
                   [JObj [(''role'', JStr ''system''), (''type'', JStr ''task_notification''), (''notif'', notif_object notif kind),
                      (''uuid'', jget msg ''uuid'')]]\<rparr>)
         | None \<Rightarrow>
             (let imageBlocks = filter (has_type ''image'') blocks
              in if trim text = [] \<and> imageBlocks = [] then st
                 else (let content = imageBlocks @ (if trim text \<noteq> [] then [text_block (JStr text)] else []);
                           tracker = beginSdkTaskRound (env_now env)
                             (JObj [(''title'', if text \<noteq> [] then JStr text else JStr ''Image prompt''),
                                (''startedAt'', case user_timestamp env msg of Some t \<Rightarrow> JNum t | None \<Rightarrow> JUndef)]) (ts_tracker st)
                       in st\<lparr>ts_tracker := tracker, ts_messages := ts_messages st @
                            [jspread (JObj [(''role'', JStr ''user''), (''content'', JArr content), (''uuid'', jget msg ''uuid'')])
                               (getUserReplayMetadata env msg)]\<rparr>)))"

text \<open>The accumulators of the loop over an assistant message's blocks.\<close>

record block_acc =
  ba_st :: transcript
  ba_out :: "jsval list"
  ba_sdkActivity :: bool
  ba_hiddenQuestions :: nat

definition push_out :: "jsval list \<Rightarrow> block_acc \<Rightarrow> block_acc" where
  "push_out bs a = a\<lparr>ba_out := ba_out a @ bs\<rparr>"

definition on_st :: "(transcript \<Rightarrow> transcript) \<Rightarrow> block_acc \<Rightarrow> block_acc" where
  "on_st f a = a\<lparr>ba_st := f (ba_st a)\<rparr>"

definition edited_path :: "jsval \<Rightarrow> jsval" where
  "edited_path block = jor (jget (jget block ''input'') ''file_path'') (JStr [])"

definition file_op :: "jsval \<Rightarrow> jsval \<Rightarrow> jsval" where
  "file_op block result =
     JObj [(''id'', jget block ''id''), (''type'', JStr (lower (str_of (jget block ''name'')))), (''filePath'', edited_path block),
       (''status'', tool_status result), (''input'', jget block ''input''), (''content'', JNull), (''originalFile'', JNull),
       (''structuredPatch'', JNull), (''toolUseResult'', JNull),
       (''resultContent'', if is_str (jget result ''content'') then jget result ''content'' else JNull)]"

definition edit_ref :: "jsval \<Rightarrow> jsval" where
  "edit_ref block =
     JObj [(''type'', JStr ''file_ref''), (''id'', JStr (''file-ref-'' @ to_str (jget block ''id''))),
       (''fileOpId'', jget block ''id''), (''name'', jget block ''name''), (''filePath'', edited_path block)]"

definition generated_refs :: "jsval \<Rightarrow> jsval list \<Rightarrow> jsval list" where
  "generated_refs block files =
     map (\<lambda>(index, f). JObj [(''type'', JStr ''file_ref''),
         (''id'', JStr (''file-ref-'' @ buildGeneratedFileOpId (jget block ''id'') index)),
         (''name'', JStr GENERATED_TOOL_NAME), (''filePath'', jget f ''filePath'')]) (enumerate 0 files)"

definition isCanvasTracked :: "jsval \<Rightarrow> bool" where
  "isCanvasTracked block \<longleftrightarrow>
     jget (jget block ''input'') ''run_in_background'' = JBool True
     \<or> jget block ''name'' = JStr ''TaskOutput'' \<or> jget block ''name'' = JStr ''TaskStop''"

definition tracked_task :: "jsval \<Rightarrow> jsval \<Rightarrow> jsval" where
  "tracked_task block result =
     JObj [(''tool_use_id'', jget block ''id''), (''name'', jget block ''name''), (''input'', jget block ''input''),
       (''status'', tool_status result),
       (''description'', jor (jor (jget (jget block ''input'') ''description'') (jget (jget block ''input'') ''command''))
          (jget block ''name'')),
       (''result'', or_undef result)]"

definition question_count :: "jsval \<Rightarrow> nat" where
  "question_count block = (let qs = arr_of (jget (jget block ''input'') ''questions'') in if qs \<noteq> [] then length qs else 1)"

definition is_hidden :: "jsval \<Rightarrow> bool" where
  "is_hidden name \<longleftrightarrow> is_str name \<and> str_of name \<in> set HIDDEN_TOOLS"

text \<open>One tool call of the main thread, in the order of the source's tests.\<close>

definition main_tool :: "js_env \<Rightarrow> replay_index \<Rightarrow> jsval \<Rightarrow> block_acc \<Rightarrow> jsval \<Rightarrow> block_acc" where
  "main_tool env ix replayMetadata a0 block =
     (let name = jget block ''name''; result = result_of ix block; timestamp = jget replayMetadata ''timestamp'';
          a = on_st (\<lambda>st. st\<lparr>ts_toolRounds := dset (to_str (jget block ''id'')) (tr_currentRoundId (ts_tracker st)) (ts_toolRounds st)\<rparr>) a0
      in if isAgentToolName name
         then push_out [buildReplayedAgentBlock env block result replayMetadata (stoppedAgentIds ix)] a
         else if isSdkTaskToolName name
         then on_st (record_task_tool env ix None block) (a\<lparr>ba_sdkActivity := True\<rparr>)
         else (let a1 = on_st (add_tabs (tool_tabs block)) a
               in if name = JStr ''Write'' \<or> name = JStr ''Edit''
                  then push_out [edit_ref block] (on_st (\<lambda>st. st\<lparr>ts_fileOps := ts_fileOps st @ [file_op block result]\<rparr>) a1)
                  else if isGeneratedToolName name
                  then (let files = getGeneratedTabs block result in push_out (generated_refs block files) (on_st (add_tabs files) a1))
                  else if isCanvasTracked block
                  then push_out [tool_card block result timestamp]
                         (on_st (\<lambda>st. st\<lparr>ts_tasks := ts_tasks st @ [tracked_task block result]\<rparr>) a1)
                  else if name = JStr ''AskUserQuestion''
                  then (if isAskUserInputValidationError result JNull then a1
                        else (case buildAnsweredAskUserBlock block result of
                                Some answered \<Rightarrow> push_out [answered] a1
                              | None \<Rightarrow> a1\<lparr>ba_hiddenQuestions := ba_hiddenQuestions a1 + question_count block\<rparr>))
                  else if name = JStr ''ExitPlanMode'' then a1
                  else if is_hidden name then a1
                  else push_out [tool_card block result timestamp] a1))"

definition main_block :: "js_env \<Rightarrow> replay_index \<Rightarrow> jsval \<Rightarrow> block_acc \<Rightarrow> jsval \<Rightarrow> block_acc" where
  "main_block env ix replayMetadata a block =
     (if \<not> has_type ''tool_use'' block then push_out [block] a else main_tool env ix replayMetadata a block)"

definition has_role :: "string \<Rightarrow> jsval \<Rightarrow> bool" where
  "has_role r m \<longleftrightarrow> jget m ''role'' = JStr r"

definition msg_content :: "jsval \<Rightarrow> jsval list" where
  "msg_content m = arr_of (jget m ''content'')"

definition add_questions :: "js_env \<Rightarrow> nat \<Rightarrow> jsval \<Rightarrow> jsval" where
  "add_questions env n prev =
     (if n > 0
      then jset ''summaryQuestionCount''
             (JNum ((case js_number env (jget prev ''summaryQuestionCount'') of Some k \<Rightarrow> k | None \<Rightarrow> 0) + int n)) prev
      else prev)"

definition extend_assistant :: "js_env \<Rightarrow> jsval \<Rightarrow> block_acc \<Rightarrow> jsval \<Rightarrow> jsval" where
  "extend_assistant env metadata a prev =
     (let p1 = jset ''content'' (JArr (msg_content prev @ ba_out a)) prev;
          p2 = set_if (ba_sdkActivity a) ''hasSdkTaskActivity'' (JBool True) p1;
          p3 = add_questions env (ba_hiddenQuestions a) p2;
          p4 = jspread p3 (jdel ''timestamp'' metadata)
      in if nullish (jget p4 ''timestamp'') \<and> \<not> nullish (jget metadata ''timestamp'')
         then jset ''timestamp'' (jget metadata ''timestamp'') p4 else p4)"

definition new_assistant :: "jsval \<Rightarrow> block_acc \<Rightarrow> jsval" where
  "new_assistant metadata a =
     jspread (set_if (ba_hiddenQuestions a > 0) ''summaryQuestionCount'' (JNum (int (ba_hiddenQuestions a)))
       (set_if (ba_sdkActivity a) ''hasSdkTaskActivity'' (JBool True)
         (JObj [(''role'', JStr ''assistant''), (''content'', JArr (ba_out a))]))) metadata"

definition put_assistant :: "js_env \<Rightarrow> jsval \<Rightarrow> block_acc \<Rightarrow> transcript \<Rightarrow> transcript" where
  "put_assistant env metadata a st =
     st\<lparr>ts_messages :=
        (if ts_messages st \<noteq> [] \<and> has_role ''assistant'' (last (ts_messages st))
         then butlast (ts_messages st) @ [extend_assistant env metadata a (last (ts_messages st))]
         else ts_messages st @ [new_assistant metadata a])\<rparr>"

definition assistant_message :: "js_env \<Rightarrow> replay_index \<Rightarrow> transcript \<Rightarrow> jsval \<Rightarrow> transcript" where
  "assistant_message env ix st msg =
     (let replayMetadata = getAssistantReplayMetadata env msg;
          messageMetadata = jdel ''agentTaskNotifications'' (jdel ''agentToolResults'' replayMetadata);
          a = foldl (main_block env ix replayMetadata) \<lparr>ba_st = st, ba_out = [], ba_sdkActivity = False, ba_hiddenQuestions = 0\<rparr>
                (getContentBlocks msg)
      in put_assistant env messageMetadata a (ba_st a))"

definition replay_message :: "js_env \<Rightarrow> replay_index \<Rightarrow> transcript \<Rightarrow> jsval \<Rightarrow> transcript" where
  "replay_message env ix st msg =
     (let inner = truthy (jget msg ''parent_tool_use_id'')
      in if has_type ''user'' msg \<and> inner \<and> getReplayedAgentMessage env msg \<noteq> None
         then push_sub (parent_id msg) [the (getReplayedAgentMessage env msg)] st
         else if has_type ''assistant'' msg \<and> inner then sidechain_message env ix st msg
         else if has_type ''user'' msg then user_message env ix st msg
         else if has_type ''assistant'' msg then assistant_message env ix st msg
         else st)"

section \<open>Client ids\<close>

definition finish_message :: "nat \<Rightarrow> jsval \<Rightarrow> jsval \<times> nat" where
  "finish_message cidCounter m =
     (let m1 = (if has_role ''assistant'' m then jset ''replayComplete'' (JBool True) m else m)
      in if truthy (jget m1 ''_cid'') then (m1, cidCounter)
         else (jset ''_cid'' (JStr (''s-'' @ show_nat (Suc cidCounter))) m1, Suc cidCounter))"

fun finish_messages :: "nat \<Rightarrow> jsval list \<Rightarrow> jsval list \<times> nat" where
  "finish_messages cidCounter [] = ([], cidCounter)"
| "finish_messages cidCounter (m # ms) =
     (let (m', c) = finish_message cidCounter m; (ms', c') = finish_messages c ms in (m' # ms', c'))"

definition transformSessionMessages :: "js_env \<Rightarrow> nat \<Rightarrow> jsval list \<Rightarrow> transcript \<times> nat" where
  "transformSessionMessages env cidCounter sdkMessages =
     (let ix = index_messages sdkMessages;
          st = foldl (replay_message env ix) init_transcript sdkMessages;
          (messages, c) = finish_messages cidCounter (ts_messages st)
      in (st\<lparr>ts_messages := messages\<rparr>, c))"

definition inspector_block :: "jsval \<Rightarrow> bool" where
  "inspector_block block \<longleftrightarrow>
     has_type ''tool_use'' block \<and> jget block ''name'' \<in> {JStr ''Agent'', JStr ''Task'', JStr ''TodoWrite''}"

definition hasCanvasInspectorItems :: "jsval list \<Rightarrow> tracker \<Rightarrow> bool" where
  "hasCanvasInspectorItems messages sdkTaskTracker \<longleftrightarrow>
     hasSdkTaskTrackerRounds sdkTaskTracker
     \<or> list_ex (\<lambda>m. has_role ''assistant'' m \<and> list_ex inspector_block (msg_content m)) messages"

section \<open>What a block contributes\<close>

definition is_edit :: "jsval \<Rightarrow> bool" where
  "is_edit block \<longleftrightarrow> has_type ''tool_use'' block \<and> (jget block ''name'' = JStr ''Write'' \<or> jget block ''name'' = JStr ''Edit'')"

definition own_tracker :: "jsval \<Rightarrow> bool" where
  "own_tracker name \<longleftrightarrow> isAgentToolName name \<or> isSdkTaskToolName name \<or> name = JStr ''Write'' \<or> name = JStr ''Edit''
     \<or> isGeneratedToolName name"

definition is_tracked :: "jsval \<Rightarrow> bool" where
  "is_tracked block \<longleftrightarrow> has_type ''tool_use'' block \<and> \<not> own_tracker (jget block ''name'') \<and> isCanvasTracked block"

text \<open>A tool card that the transcript may show: the tools with a card of their own never appear, the hidden
  ones only when the canvas tracks them.\<close>

definition shown_tool :: "jsval \<Rightarrow> bool" where
  "shown_tool b \<longleftrightarrow>
     (if has_type ''tool_use'' b
      then isAgentToolName (jget b ''name'')
        \<or> \<not> own_tracker (jget b ''name'') \<and> (isCanvasTracked b \<or> \<not> is_hidden (jget b ''name''))
      else True)"

lemma tool_card_fields [simp]:
  "k \<notin> {''status'', ''result'', ''startTime''} \<Longrightarrow> jget (tool_card b r t) k = jget b k"
  by (auto simp: tool_card_def Let_def jget_jput_other)

lemma set_num_other [simp]: "k' \<noteq> k \<Longrightarrow> jget (set_num k n o') k' = jget o' k'"
  by (simp add: set_num_def split: option.split)

lemma replayed_agent_fields:
  "k \<in> {''type'', ''name'', ''input''} \<Longrightarrow> jget (buildReplayedAgentBlock env b r md stopped) k = jget b k"
  by (auto simp: buildReplayedAgentBlock_def Let_def jget_jput_other)

lemma shown_card: "\<not> own_tracker (jget b ''name'') \<Longrightarrow> isCanvasTracked b \<or> \<not> is_hidden (jget b ''name'') \<Longrightarrow> shown_tool (tool_card b r t)"
  by (simp add: shown_tool_def has_type_def isCanvasTracked_def)

lemma shown_agent: "isAgentToolName (jget b ''name'') \<Longrightarrow> shown_tool (buildReplayedAgentBlock env b r md stopped)"
  by (simp add: shown_tool_def has_type_def replayed_agent_fields)

lemma shown_ref: "shown_tool (edit_ref b)" "list_all shown_tool (generated_refs b fs)"
  by (auto simp: shown_tool_def has_type_def edit_ref_def generated_refs_def list_all_iff)

lemma shown_answer: "buildAnsweredAskUserBlock b r = Some x \<Longrightarrow> shown_tool x"
  by (auto simp: buildAnsweredAskUserBlock_def Let_def shown_tool_def has_type_def split: if_splits)

lemma record_tool_frame [simp]:
  "ts_messages (record_task_tool env ix r b st) = ts_messages st" "ts_fileOps (record_task_tool env ix r b st) = ts_fileOps st"
  "ts_tasks (record_task_tool env ix r b st) = ts_tasks st"
  by (simp_all add: record_task_tool_def Let_def)

lemma record_tool_tracker:
  "tracker_inv (ts_tracker st) \<Longrightarrow> tracker_inv (ts_tracker (record_task_tool env ix r b st))"
  by (simp add: record_task_tool_def Let_def use_inv result_inv)

lemma on_st_fields [simp]:
  "ba_st (on_st f a) = f (ba_st a)" "ba_out (on_st f a) = ba_out a" "ba_st (push_out bs a) = ba_st a"
  "ba_out (push_out bs a) = ba_out a @ bs"
  by (simp_all add: on_st_def push_out_def)

lemma add_tabs_fields [simp]:
  "ts_messages (add_tabs tabs st) = ts_messages st" "ts_fileOps (add_tabs tabs st) = ts_fileOps st"
  "ts_tasks (add_tabs tabs st) = ts_tasks st" "ts_tracker (add_tabs tabs st) = ts_tracker st"
  by (simp_all add: add_tabs_def)

lemma push_sub_fields [simp]:
  "ts_messages (push_sub p bs st) = ts_messages st" "ts_fileOps (push_sub p bs st) = ts_fileOps st"
  "ts_tasks (push_sub p bs st) = ts_tasks st" "ts_tracker (push_sub p bs st) = ts_tracker st"
  by (simp_all add: push_sub_def)

definition ops_of :: "replay_index \<Rightarrow> jsval list \<Rightarrow> jsval list" where
  "ops_of ix blocks = map (\<lambda>b. file_op b (result_of ix b)) (filter is_edit blocks)"

definition tasks_of :: "replay_index \<Rightarrow> jsval list \<Rightarrow> jsval list" where
  "tasks_of ix blocks = map (\<lambda>b. tracked_task b (result_of ix b)) (filter is_tracked blocks)"

text \<open>The invariant of the loop over a message's blocks, relative to the state before it.\<close>

definition acc_inv :: "replay_index \<Rightarrow> transcript \<Rightarrow> jsval list \<Rightarrow> block_acc \<Rightarrow> bool" where
  "acc_inv ix st blocks a \<longleftrightarrow>
     ts_messages (ba_st a) = ts_messages st \<and> ts_fileOps (ba_st a) = ts_fileOps st @ ops_of ix blocks
     \<and> ts_tasks (ba_st a) = ts_tasks st @ tasks_of ix blocks
     \<and> tracker_inv (ts_tracker (ba_st a)) \<and> list_all shown_tool (ba_out a)"

lemma not_own: "isAgentToolName name \<Longrightarrow> name \<noteq> JStr ''Write'' \<and> name \<noteq> JStr ''Edit''"
  "isSdkTaskToolName name \<Longrightarrow> name \<noteq> JStr ''Write'' \<and> name \<noteq> JStr ''Edit''"
  by (auto simp: isAgentToolName_def AGENT_TOOL_NAMES_def isSdkTaskToolName_def SDK_TASK_TOOL_NAMES_def)

lemmas main_tool_simps = main_block_def main_tool_def Let_def acc_inv_def ops_of_def tasks_of_def
  is_edit_def is_tracked_def

lemma main_block_inv:
  assumes "acc_inv ix st blocks a"
  shows "acc_inv ix st (blocks @ [b]) (main_block env ix md a b)"
proof (cases "has_type ''tool_use'' b")
  case False
  then show ?thesis using assms
    by (simp add: main_block_def acc_inv_def ops_of_def tasks_of_def is_edit_def is_tracked_def shown_tool_def)
next
  case tool: True
  define n where "n = jget b ''name''"
  consider "isAgentToolName n" | "\<not> isAgentToolName n" "isSdkTaskToolName n"
    | "\<not> isAgentToolName n" "\<not> isSdkTaskToolName n" "n = JStr ''Write'' \<or> n = JStr ''Edit''"
    | "\<not> isAgentToolName n" "\<not> isSdkTaskToolName n" "n \<noteq> JStr ''Write''" "n \<noteq> JStr ''Edit''" "isGeneratedToolName n"
    | "\<not> own_tracker n" "isCanvasTracked b" | "\<not> own_tracker n" "\<not> isCanvasTracked b"
    unfolding own_tracker_def by blast
  then show ?thesis
  proof cases
    case 1
    then show ?thesis using assms tool not_own(1) [OF 1] shown_agent [of b] unfolding n_def
      by (simp add: main_tool_simps own_tracker_def)
  next
    case 2
    then show ?thesis using assms tool not_own(2) [OF 2(2)] unfolding n_def
      by (simp add: main_tool_simps own_tracker_def record_tool_tracker)
  next
    case 3
    then show ?thesis using assms tool unfolding n_def
      by (simp add: main_tool_simps own_tracker_def shown_ref) blast
  next
    case 4
    then show ?thesis using assms tool unfolding n_def
      by (simp add: main_tool_simps own_tracker_def shown_ref)
  next
    case 5
    then show ?thesis using assms tool shown_card [of b] unfolding n_def
      by (simp add: main_tool_simps)
        (simp add: own_tracker_def)
  next
    case 6
    then show ?thesis using assms tool shown_card [of b] shown_answer [of b] unfolding n_def
      by (simp add: main_tool_simps own_tracker_def split: option.split)
  qed
qed

lemma main_blocks_inv:
  "acc_inv ix st bs a \<Longrightarrow> acc_inv ix st (bs @ blocks) (foldl (main_block env ix md) a blocks)"
proof (induction blocks arbitrary: bs a)
  case (Cons b blocks)
  then show ?case using Cons.IH [OF main_block_inv [OF Cons.prems, of b env md]] by simp
qed simp

section \<open>The transcript's messages\<close>

definition obj_keys :: "jsval \<Rightarrow> string set" where
  "obj_keys o' = fst ` set (obj_of o')"

lemma obj_keys_jset: "obj_keys (jset k v o') \<subseteq> insert k (obj_keys o')"
proof (cases o')
  case (JObj kvs)
  have "fst ` set (AList.update k v kvs) \<subseteq> insert k (fst ` set kvs)"
    by (induction kvs) auto
  then show ?thesis by (simp add: obj_keys_def JObj)
qed (simp_all add: obj_keys_def)

lemma obj_keys_jdel: "obj_keys (jdel k o') \<subseteq> obj_keys o'"
  using dom_delete_subset [of k] by (cases o') (simp_all add: obj_keys_def jdel_def)

lemma obj_keys_set: "obj_keys (set_num k n o') \<subseteq> insert k (obj_keys o')" "obj_keys (set_object k v o') \<subseteq> insert k (obj_keys o')"
  using obj_keys_jset [of k _ o'] by (auto simp: set_num_def set_object_def split: option.split)

lemma jget_spread_other: "k \<notin> obj_keys b \<Longrightarrow> jget (jspread a b) k = jget a k"
  by (simp add: jspread_def jget_jput_other obj_keys_def)

definition meta_keys :: "string set" where
  "meta_keys = {''inputTokens'', ''outputTokens'', ''duration'', ''agentLoops'', ''timestamp'', ''agentToolResults'', ''agentTaskNotifications''}"

lemma assistant_meta_keys: "obj_keys (getAssistantReplayMetadata env msg) \<subseteq> meta_keys"
proof -
  have "obj_keys (set_object a v1 (set_object b v2 (set_num c n1 (set_num d n2 (set_num e n3 (set_num f n4 (set_num g n5 (JObj []))))))))
      \<subseteq> {a, b, c, d, e, f, g}" for a b c d e f g v1 v2 n1 n2 n3 n4 n5
    using obj_keys_set by (intro subset_trans [OF obj_keys_set(2)] subset_trans [OF obj_keys_set(1)] insert_mono) (simp add: obj_keys_def)
  then show ?thesis unfolding getAssistantReplayMetadata_def Let_def meta_keys_def by (rule subset_trans) auto
qed

definition meta_ok :: "jsval \<Rightarrow> bool" where
  "meta_ok md \<longleftrightarrow> {''role'', ''content'', ''_cid''} \<inter> obj_keys md = {}"

lemma message_meta_ok: "meta_ok (jdel ''agentTaskNotifications'' (jdel ''agentToolResults'' (getAssistantReplayMetadata env msg)))"
  using subset_trans [OF obj_keys_jdel subset_trans [OF obj_keys_jdel assistant_meta_keys]]
  by (fastforce simp: meta_ok_def meta_keys_def)

text \<open>A message of the transcript before client ids are given.\<close>

definition shown_message :: "jsval \<Rightarrow> bool" where
  "shown_message m \<longleftrightarrow> (if has_role ''assistant'' m then list_all shown_tool (msg_content m) else True)"

definition raw_message :: "jsval \<Rightarrow> bool" where
  "raw_message m \<longleftrightarrow> jget m ''_cid'' = JUndef \<and> shown_message m"

definition two_replies :: "jsval \<Rightarrow> jsval \<Rightarrow> bool" where
  "two_replies m m' \<longleftrightarrow> has_role ''assistant'' m \<and> has_role ''assistant'' m'"

definition replies_merged :: "jsval list \<Rightarrow> bool" where
  "replies_merged ms \<longleftrightarrow> successively (\<lambda>m m'. \<not> two_replies m m') ms"

lemma replies_merged_snoc:
  "replies_merged ms \<Longrightarrow> ms = [] \<or> \<not> two_replies (last ms) m \<Longrightarrow> replies_merged (ms @ [m])"
  by (auto simp: replies_merged_def successively_append_iff)

lemma replies_merged_replace_last:
  "replies_merged (ms @ [m]) \<Longrightarrow> has_role ''assistant'' m' = has_role ''assistant'' m \<Longrightarrow> replies_merged (ms @ [m'])"
  by (auto simp: replies_merged_def successively_append_iff two_replies_def)

lemma extended_fields:
  assumes "meta_ok md"
  shows "jget (extend_assistant env md a prev) ''role'' = jget prev ''role''"
    and "jget (extend_assistant env md a prev) ''_cid'' = jget prev ''_cid''"
    and "msg_content (extend_assistant env md a prev) = msg_content prev @ ba_out a"
proof -
  have k: "k \<notin> obj_keys (jdel ''timestamp'' md)" if "k \<in> {''role'', ''content'', ''_cid''}" for k
    using that assms obj_keys_jdel [of "''timestamp''" md] by (auto simp: meta_ok_def)
  show "jget (extend_assistant env md a prev) ''role'' = jget prev ''role''"
    "jget (extend_assistant env md a prev) ''_cid'' = jget prev ''_cid''"
    "msg_content (extend_assistant env md a prev) = msg_content prev @ ba_out a"
    using k by (simp_all add: extend_assistant_def Let_def jget_spread_other add_questions_def msg_content_def)
qed

lemma new_fields:
  assumes "meta_ok md"
  shows "has_role ''assistant'' (new_assistant md a)" and "jget (new_assistant md a) ''_cid'' = JUndef"
    and "msg_content (new_assistant md a) = ba_out a"
  using assms by (simp_all add: new_assistant_def meta_ok_def jget_spread_other has_role_def msg_content_def)

definition msgs_ok :: "jsval list \<Rightarrow> bool" where
  "msgs_ok ms \<longleftrightarrow> replies_merged ms \<and> list_all raw_message ms"

lemma put_assistant_ok:
  assumes ms: "msgs_ok (ts_messages st)" and md: "meta_ok md" and out: "list_all shown_tool (ba_out a)"
  shows "msgs_ok (ts_messages (put_assistant env md a st))"
proof (cases "ts_messages st \<noteq> [] \<and> has_role ''assistant'' (last (ts_messages st))")
  case True
  define ms0 where "ms0 = butlast (ts_messages st)"
  define m where "m = last (ts_messages st)"
  have split: "ts_messages st = ms0 @ [m]" using True by (simp add: ms0_def m_def)
  have role: "has_role ''assistant'' (extend_assistant env md a m) = has_role ''assistant'' m"
    by (simp add: has_role_def extended_fields [OF md])
  have "raw_message (extend_assistant env md a m)"
    using ms out True by (auto simp: msgs_ok_def raw_message_def shown_message_def split role extended_fields [OF md])
  then show ?thesis using ms True replies_merged_replace_last [OF _ role, of ms0] split
    by (simp add: put_assistant_def msgs_ok_def)
next
  case False
  have "raw_message (new_assistant md a)" using out by (simp add: raw_message_def shown_message_def new_fields [OF md])
  then have "msgs_ok (ts_messages st @ [new_assistant md a])"
    using ms False replies_merged_snoc [of "ts_messages st" "new_assistant md a"] by (auto simp: msgs_ok_def two_replies_def)
  then show ?thesis using False by (auto simp: put_assistant_def)
qed

lemma add_plain_ok:
  "msgs_ok ms \<Longrightarrow> \<not> has_role ''assistant'' m \<Longrightarrow> jget m ''_cid'' = JUndef \<Longrightarrow> msgs_ok (ms @ [m])"
  by (simp add: msgs_ok_def raw_message_def shown_message_def replies_merged_snoc two_replies_def)

section \<open>The loop over the history\<close>

definition main_assistant :: "jsval \<Rightarrow> bool" where
  "main_assistant msg \<longleftrightarrow> has_type ''assistant'' msg \<and> \<not> truthy (jget msg ''parent_tool_use_id'')"

definition main_blocks :: "jsval list \<Rightarrow> jsval list" where
  "main_blocks msgs = concat (map getContentBlocks (filter main_assistant msgs))"

definition replay_inv :: "replay_index \<Rightarrow> jsval list \<Rightarrow> transcript \<Rightarrow> bool" where
  "replay_inv ix msgs st \<longleftrightarrow>
     msgs_ok (ts_messages st) \<and> tracker_inv (ts_tracker st)
     \<and> ts_fileOps st = ops_of ix (main_blocks msgs) \<and> ts_tasks st = tasks_of ix (main_blocks msgs)"

definition same_records :: "transcript \<Rightarrow> transcript \<Rightarrow> bool" where
  "same_records st st' \<longleftrightarrow>
     ts_messages st' = ts_messages st \<and> ts_fileOps st' = ts_fileOps st \<and> ts_tasks st' = ts_tasks st
     \<and> (tracker_inv (ts_tracker st) \<longrightarrow> tracker_inv (ts_tracker st'))"

lemma sidechain_block_same: "same_records st (sidechain_block env ix p ts st b)"
  by (simp add: same_records_def sidechain_block_def Let_def record_tool_tracker)

lemma sidechain_blocks_same: "same_records st st0 \<Longrightarrow> same_records st (foldl (sidechain_block env ix p ts) st0 bs)"
proof (induction bs arbitrary: st0)
  case (Cons b bs)
  have "same_records st (sidechain_block env ix p ts st0 b)"
    using Cons.prems sidechain_block_same [of st0 env ix p ts b] by (simp add: same_records_def)
  then show ?case using Cons.IH by simp
qed simp

lemma sidechain_same: "same_records st (sidechain_message env ix st msg)"
  unfolding sidechain_message_def by (rule sidechain_blocks_same) (simp add: same_records_def)

lemma begin_tracker: "tracker_inv t \<Longrightarrow> tracker_inv (beginSdkTaskRound now opts t)"
  using tr_step_inv [of t "TrBegin now opts"] by simp

lemma user_meta_keys: "obj_keys (getUserReplayMetadata env msg) \<subseteq> {''timestamp''}"
  using obj_keys_set(1) [of "''timestamp''" "user_timestamp env msg" "JObj []"] by (simp add: getUserReplayMetadata_def obj_keys_def)

lemma user_message_effect:
  "ts_fileOps (user_message env ix st msg) = ts_fileOps st \<and> ts_tasks (user_message env ix st msg) = ts_tasks st
   \<and> (tracker_inv (ts_tracker st) \<longrightarrow> tracker_inv (ts_tracker (user_message env ix st msg)))
   \<and> (msgs_ok (ts_messages st) \<longrightarrow> msgs_ok (ts_messages (user_message env ix st msg)))"
proof -
  have k: "k \<notin> obj_keys (getUserReplayMetadata env msg)" if "k \<in> {''role'', ''_cid''}" for k
    using that user_meta_keys [of env msg] by auto
  show ?thesis
    by (auto simp: user_message_def Let_def begin_tracker has_role_def jget_spread_other k intro!: add_plain_ok split: option.split)
qed

lemma ops_append: "ops_of ix (xs @ ys) = ops_of ix xs @ ops_of ix ys" "tasks_of ix (xs @ ys) = tasks_of ix xs @ tasks_of ix ys"
  by (simp_all add: ops_of_def tasks_of_def)

lemma assistant_message_effect:
  assumes "msgs_ok (ts_messages st)" and "tracker_inv (ts_tracker st)"
  shows "msgs_ok (ts_messages (assistant_message env ix st msg)) \<and> tracker_inv (ts_tracker (assistant_message env ix st msg))
    \<and> ts_fileOps (assistant_message env ix st msg) = ts_fileOps st @ ops_of ix (getContentBlocks msg)
    \<and> ts_tasks (assistant_message env ix st msg) = ts_tasks st @ tasks_of ix (getContentBlocks msg)"
proof -
  let ?md = "getAssistantReplayMetadata env msg"
  let ?a0 = "\<lparr>ba_st = st, ba_out = [], ba_sdkActivity = False, ba_hiddenQuestions = 0\<rparr>"
  define a where "a = foldl (main_block env ix ?md) ?a0 (getContentBlocks msg)"
  have "acc_inv ix st [] ?a0" using assms(2) by (simp add: acc_inv_def ops_of_def tasks_of_def)
  from main_blocks_inv [OF this, of "getContentBlocks msg" env ?md] have a: "acc_inv ix st (getContentBlocks msg) a"
    by (simp add: a_def)
  have eq: "assistant_message env ix st msg =
      put_assistant env (jdel ''agentTaskNotifications'' (jdel ''agentToolResults'' ?md)) a (ba_st a)"
    by (simp add: assistant_message_def Let_def a_def)
  have "msgs_ok (ts_messages (ba_st a))" using a assms(1) by (simp add: acc_inv_def)
  from put_assistant_ok [OF this message_meta_ok] a show ?thesis unfolding eq by (simp add: acc_inv_def) (simp add: put_assistant_def)
qed

lemma main_blocks_snoc: "main_blocks (msgs @ [m]) = main_blocks msgs @ (if main_assistant m then getContentBlocks m else [])"
  by (simp add: main_blocks_def)

lemma replay_message_inv:
  assumes "replay_inv ix msgs st"
  shows "replay_inv ix (msgs @ [m]) (replay_message env ix st m)"
proof -
  have one: "\<not> (has_type ''user'' m \<and> has_type ''assistant'' m)" by (auto simp: has_type_def)
  have same: "replay_inv ix (msgs @ [m]) st'" if "same_records st st'" "\<not> main_assistant m" for st'
    using assms that by (simp add: replay_inv_def same_records_def main_blocks_snoc)
  consider "has_type ''user'' m" "truthy (jget m ''parent_tool_use_id'')" "getReplayedAgentMessage env m \<noteq> None"
    | "has_type ''assistant'' m" "truthy (jget m ''parent_tool_use_id'')"
    | "has_type ''user'' m" "\<not> (truthy (jget m ''parent_tool_use_id'') \<and> getReplayedAgentMessage env m \<noteq> None)"
    | "main_assistant m" | "\<not> has_type ''user'' m" "\<not> has_type ''assistant'' m"
    unfolding main_assistant_def by blast
  then show ?thesis
  proof cases
    case 1
    then show ?thesis using one same [of "push_sub (parent_id m) [the (getReplayedAgentMessage env m)] st"]
      by (simp add: replay_message_def Let_def main_assistant_def same_records_def)
  next
    case 2
    then show ?thesis using one same [OF sidechain_same] by (simp add: replay_message_def Let_def main_assistant_def)
  next
    case 3
    then have "replay_message env ix st m = user_message env ix st m" using one by (auto simp: replay_message_def Let_def)
    then show ?thesis using 3 one assms user_message_effect [of env ix st m]
      by (simp add: replay_inv_def main_blocks_snoc main_assistant_def)
  next
    case 4
    then have "replay_message env ix st m = assistant_message env ix st m"
      using one by (simp add: replay_message_def Let_def main_assistant_def)
    then show ?thesis using 4 assms assistant_message_effect [of st env ix m]
      by (simp add: replay_inv_def main_blocks_snoc ops_append)
  next
    case 5
    then show ?thesis using same [of st] by (simp add: replay_message_def Let_def main_assistant_def same_records_def)
  qed
qed

lemma replay_inv_run: "replay_inv ix msgs (foldl (replay_message env ix) init_transcript msgs)"
proof (induction msgs rule: rev_induct)
  case Nil
  have "tracker_inv createSdkTaskTrackerState" using tracker_runs [of "[]"] by simp
  then show ?case by (simp add: replay_inv_def init_transcript_def msgs_ok_def replies_merged_def main_blocks_def ops_of_def tasks_of_def)
next
  case (snoc m msgs)
  then show ?case using replay_message_inv [OF snoc.IH] by simp
qed

section \<open>Client ids\<close>

definition replay_cid :: "nat \<Rightarrow> jsval" where
  "replay_cid k = JStr (''s-'' @ show_nat k)"

lemma finish_fields:
  assumes "jget m ''_cid'' = JUndef"
  shows "snd (finish_message c m) = Suc c" "jget (fst (finish_message c m)) ''_cid'' = replay_cid (Suc c)"
    "has_role r (fst (finish_message c m)) = has_role r m" "msg_content (fst (finish_message c m)) = msg_content m"
    "has_role ''assistant'' m \<Longrightarrow> jget (fst (finish_message c m)) ''replayComplete'' = JBool True"
  using assms by (simp_all add: finish_message_def Let_def replay_cid_def has_role_def msg_content_def)

lemma finish_all:
  assumes "list_all raw_message ms"
  shows "snd (finish_messages c ms) = c + length ms
    \<and> map (\<lambda>m. jget m ''_cid'') (fst (finish_messages c ms)) = map replay_cid [Suc c ..< Suc (c + length ms)]
    \<and> map (has_role ''assistant'') (fst (finish_messages c ms)) = map (has_role ''assistant'') ms
    \<and> list_all shown_message (fst (finish_messages c ms))
    \<and> list_all (\<lambda>m. if has_role ''assistant'' m then jget m ''replayComplete'' = JBool True else True) (fst (finish_messages c ms))"
  using assms
proof (induction ms arbitrary: c)
  case (Cons m ms)
  have cid: "jget m ''_cid'' = JUndef" using Cons.prems by (simp add: raw_message_def)
  note f = finish_fields [OF cid]
  have up: "[Suc c ..< Suc (c + length (m # ms))] = Suc c # [Suc (Suc c) ..< Suc (Suc c + length ms)]"
    by (subst upt_conv_Cons) (simp_all del: upt_Suc)
  have eq: "finish_messages c (m # ms) = (fst (finish_message c m) # fst (finish_messages (Suc c) ms), snd (finish_messages (Suc c) ms))"
    by (simp add: f(1) case_prod_unfold Let_def)
  have "shown_message (fst (finish_message c m))" using Cons.prems by (simp add: raw_message_def shown_message_def f(3,4))
  then show ?case unfolding eq up using Cons.IH [of "Suc c"] Cons.prems f(2,3,5) by simp
qed simp

lemma replies_merged_roles: "replies_merged ms \<longleftrightarrow> successively (\<lambda>a b. \<not> (a \<and> b)) (map (has_role ''assistant'') ms)"
  by (simp add: replies_merged_def successively_map two_replies_def)

lemma replay_cid_inj: "inj replay_cid"
  by (simp add: inj_def replay_cid_def)

section \<open>Properties\<close>

lemma transform_parts:
  assumes "r = transformSessionMessages env c msgs"
  obtains st where "replay_inv (index_messages msgs) msgs st"
    "fst r = st\<lparr>ts_messages := fst (finish_messages c (ts_messages st))\<rparr>" "snd r = snd (finish_messages c (ts_messages st))"
  using replay_inv_run [of "index_messages msgs" msgs env] that assms
  by (simp add: transformSessionMessages_def Let_def case_prod_unfold)

text \<open>
  C20. Replaying any history gives a well-formed transcript: the assistant's turns are merged, so no two of its
  messages are adjacent; every message has a client id of its own, taken in order from the counter,
  which ends past all of them; and every assistant message is marked complete.
\<close>

theorem replayed_transcript_well_formed:
  "replies_merged (ts_messages (fst (transformSessionMessages env c msgs)))
   \<and> map (\<lambda>m. jget m ''_cid'') (ts_messages (fst (transformSessionMessages env c msgs)))
       = map replay_cid [Suc c ..< Suc (snd (transformSessionMessages env c msgs))]
   \<and> distinct (map (\<lambda>m. jget m ''_cid'') (ts_messages (fst (transformSessionMessages env c msgs))))
   \<and> list_all (\<lambda>m. if has_role ''assistant'' m then jget m ''replayComplete'' = JBool True else True)
       (ts_messages (fst (transformSessionMessages env c msgs)))"
proof -
  obtain st where st: "replay_inv (index_messages msgs) msgs st"
    "fst (transformSessionMessages env c msgs) = st\<lparr>ts_messages := fst (finish_messages c (ts_messages st))\<rparr>"
    "snd (transformSessionMessages env c msgs) = snd (finish_messages c (ts_messages st))" by (rule transform_parts [OF refl])
  then have ok: "replies_merged (ts_messages st)" "list_all raw_message (ts_messages st)" by (simp_all add: replay_inv_def msgs_ok_def)
  note fin = finish_all [OF ok(2), of c]
  have "distinct (map replay_cid [Suc c ..< Suc (c + length (ts_messages st))])"
    by (simp add: distinct_map inj_on_subset [OF replay_cid_inj] del: upt_Suc)
  then show ?thesis using ok(1) fin unfolding st(2,3) replies_merged_roles by (simp del: upt_Suc)
qed

text \<open>
  A replayed transcript never shows a card for a tool that has another place: file edits, generated files and
  task tools appear only as references or in the tracker, and a hidden tool appears only if it runs
  in the background or manages a background task.
\<close>

theorem replay_hides_tools: "list_all shown_message (ts_messages (fst (transformSessionMessages env c msgs)))"
proof -
  obtain st where st: "replay_inv (index_messages msgs) msgs st"
    "fst (transformSessionMessages env c msgs) = st\<lparr>ts_messages := fst (finish_messages c (ts_messages st))\<rparr>"
    by (rule transform_parts [OF refl])
  then have "list_all raw_message (ts_messages st)" by (simp add: replay_inv_def msgs_ok_def)
  from finish_all [OF this, of c] show ?thesis by (simp add: st(2))
qed

text \<open>
  C19. The stateful replay loop records exactly what a filter over the history would: one file operation per
  \<^verbatim>\<open>Write\<close> or \<^verbatim>\<open>Edit\<close> call of the main thread and one task per canvas-tracked call, in order, each with the
  result found anywhere in the history; calls inside subagents add none.
\<close>

theorem replay_records_exactly:
  "ts_fileOps (fst (transformSessionMessages env c msgs))
     = map (\<lambda>b. file_op b (result_of (index_messages msgs) b)) (filter is_edit (main_blocks msgs))
   \<and> ts_tasks (fst (transformSessionMessages env c msgs))
     = map (\<lambda>b. tracked_task b (result_of (index_messages msgs) b)) (filter is_tracked (main_blocks msgs))"
proof -
  obtain st where "replay_inv (index_messages msgs) msgs st"
    "fst (transformSessionMessages env c msgs) = st\<lparr>ts_messages := fst (finish_messages c (ts_messages st))\<rparr>"
    by (rule transform_parts [OF refl])
  then show ?thesis by (simp add: replay_inv_def ops_of_def tasks_of_def)
qed

text \<open>
  The task tracker that a replay builds, from the rounds of user messages and the task tools of the main thread
  and of subagents, satisfies the tracker's invariant, as a live one does.
\<close>

theorem replayed_tracker_consistent: "tracker_inv (ts_tracker (fst (transformSessionMessages env c msgs)))"
proof -
  obtain st where "replay_inv (index_messages msgs) msgs st"
    "fst (transformSessionMessages env c msgs) = st\<lparr>ts_messages := fst (finish_messages c (ts_messages st))\<rparr>"
    by (rule transform_parts [OF refl])
  then show ?thesis by (simp add: replay_inv_def)
qed

text \<open>
  The selection read back from an answer is not always the one that was made: a label that is part of the chosen
  label counts as chosen too.
\<close>

lemma answer_selects_sublabel:
  "chosen_options ''JavaScript'' (JObj [(''options'', JArr [JObj [(''label'', JStr ''Java'')], JObj [(''label'', JStr ''JavaScript'')]])])
     = [0, 1]"
  by code_simp

end
