(* ===== verification/SessionStores.thy ===== *)
theory SessionStores
  imports SdkTaskTracker WorkflowStore SafeStorage FileArtifacts
begin

text \<open>
  The small stores around a session: its tasks (\<^verbatim>\<open>web/user/src/stores/taskStore.js\<close>), file operations
  (\<^verbatim>\<open>fileOpsStore.js\<close>), browser tabs (\<^verbatim>\<open>fileBrowserStore.js\<close>) and status dots (\<^verbatim>\<open>sessionStatusStore.js\<close>), the
  toasts (\<^verbatim>\<open>web/shared/stores/toastStore.js\<close>) and the canvas part of the interface's state
  (\<^verbatim>\<open>web/shared/stores/uiStore.js\<close>).
\<close>

section \<open>Tasks\<close>

record task_store =
  tk_tasks :: "(string, jsval) dict"
  tk_taskOrder :: "jsval list"
  tk_todos :: jsval
  tk_todoWriteInfo :: jsval
  tk_tracker :: tracker
  tk_activeTaskId :: jsval
  tk_activeTodoId :: jsval
  tk_activeSubagentId :: jsval
  tk_subagentFocusTargetId :: jsval
  tk_subagentFocusRevision :: nat
  tk_inspectorFocusTarget :: jsval
  tk_inspectorFocusRevision :: nat

definition createTaskStore :: task_store where
  "createTaskStore =
     \<lparr>tk_tasks = dempty, tk_taskOrder = [], tk_todos = JArr [], tk_todoWriteInfo = JNull,
      tk_tracker = createSdkTaskTrackerState, tk_activeTaskId = JNull, tk_activeTodoId = JNull,
      tk_activeSubagentId = JNull, tk_subagentFocusTargetId = JNull, tk_subagentFocusRevision = 0,
      tk_inspectorFocusTarget = JNull, tk_inspectorFocusRevision = 0\<rparr>"

definition setActiveTaskId :: "jsval \<Rightarrow> task_store \<Rightarrow> task_store" where
  "setActiveTaskId i s = s\<lparr>tk_activeTaskId := i, tk_activeSubagentId := JNull\<rparr>"

definition setActiveTodoId :: "jsval \<Rightarrow> task_store \<Rightarrow> task_store" where
  "setActiveTodoId i s = s\<lparr>tk_activeTodoId := i\<rparr>"

definition setActiveSubagentId :: "jsval \<Rightarrow> task_store \<Rightarrow> task_store" where
  "setActiveSubagentId i s = s\<lparr>tk_activeTaskId := i, tk_activeTodoId := JNull, tk_activeSubagentId := i\<rparr>"

definition focusSubagent :: "jsval \<Rightarrow> task_store \<Rightarrow> task_store" where
  "focusSubagent i s =
     s\<lparr>tk_activeTaskId := i, tk_activeTodoId := JNull, tk_activeSubagentId := i, tk_subagentFocusTargetId := i,
       tk_subagentFocusRevision := tk_subagentFocusRevision s + 1,
       tk_inspectorFocusTarget := JObj [(''type'', JStr ''subagent''), (''id'', i)],
       tk_inspectorFocusRevision := tk_inspectorFocusRevision s + 1\<rparr>"

definition focusTodoWrite :: "jsval \<Rightarrow> task_store \<Rightarrow> task_store" where
  "focusTodoWrite i s =
     s\<lparr>tk_activeTaskId := i, tk_activeTodoId := JNull, tk_activeSubagentId := JNull,
       tk_inspectorFocusTarget := JObj [(''type'', JStr ''todo''), (''id'', i)],
       tk_inspectorFocusRevision := tk_inspectorFocusRevision s + 1\<rparr>"

definition addTask :: "jsval \<Rightarrow> task_store \<Rightarrow> task_store" where
  "addTask task s =
     (let i = jget task ''tool_use_id''
      in s\<lparr>tk_tasks := dset (to_str i) task (tk_tasks s), tk_taskOrder := push_new i (tk_taskOrder s)\<rparr>)"

text \<open>An update of an unknown id creates the entry without listing it in the order.\<close>

definition task_of :: "task_store \<Rightarrow> string \<Rightarrow> jsval" where
  "task_of s i = (case dget (tk_tasks s) i of Some t \<Rightarrow> t | None \<Rightarrow> JUndef)"

definition updateTask :: "string \<Rightarrow> jsobj \<Rightarrow> task_store \<Rightarrow> task_store" where
  "updateTask i data s = s\<lparr>tk_tasks := dset i (jput (task_of s i) data) (tk_tasks s)\<rparr>"

definition setTodos :: "jsval \<Rightarrow> task_store \<Rightarrow> task_store" where
  "setTodos todos s = s\<lparr>tk_todos := todos\<rparr>"

definition setTodoWriteInfo :: "jsobj \<Rightarrow> task_store \<Rightarrow> task_store" where
  "setTodoWriteInfo info s = s\<lparr>tk_todoWriteInfo := jput (jor (tk_todoWriteInfo s) (JObj [])) info\<rparr>"

definition tk_beginRound :: "int \<Rightarrow> jsval \<Rightarrow> task_store \<Rightarrow> task_store" where
  "tk_beginRound now options s = s\<lparr>tk_tracker := beginSdkTaskRound now options (tk_tracker s)\<rparr>"

definition tk_toolUse :: "int \<Rightarrow> jsval \<Rightarrow> string option \<Rightarrow> task_store \<Rightarrow> task_store" where
  "tk_toolUse now block requested s = s\<lparr>tk_tracker := recordSdkTaskToolUse now block requested (tk_tracker s)\<rparr>"

definition tk_toolResult :: "js_env \<Rightarrow> string \<Rightarrow> jsval \<Rightarrow> jsval \<Rightarrow> task_store \<Rightarrow> task_store" where
  "tk_toolResult env i resultBlock toolUseResult s =
     s\<lparr>tk_tracker := recordSdkTaskToolResult env i resultBlock toolUseResult (tk_tracker s)\<rparr>"

definition hydrateSdkTaskTracker :: "tracker option \<Rightarrow> task_store \<Rightarrow> task_store" where
  "hydrateSdkTaskTracker t s =
     s\<lparr>tk_tracker := (case t of Some x \<Rightarrow> x | None \<Rightarrow> createSdkTaskTrackerState)\<rparr>"

definition tk_reset :: "task_store \<Rightarrow> task_store" where
  "tk_reset s = createTaskStore"

text \<open>\<^verbatim>\<open>clearTasks\<close> clears the sibling workflow slice too.\<close>

definition clearTasks :: "task_store \<times> workflow_store \<Rightarrow> task_store \<times> workflow_store" where
  "clearTasks = (\<lambda>(s, w). (createTaskStore, ws_clear w))"

definition aborted_task :: "int \<Rightarrow> jsval \<Rightarrow> jsval" where
  "aborted_task now task =
     (if jget task ''status'' = JStr ''running''
      then jput task [(''status'', JStr ''error''), (''endTime'', JNum now), (''interrupted'', JBool True)]
      else task)"

definition abortRunningTasks :: "int \<Rightarrow> task_store \<Rightarrow> task_store" where
  "abortRunningTasks now s = s\<lparr>tk_tasks := dmap (\<lambda>_. aborted_task now) (tk_tasks s)\<rparr>"

lemma task_of_updateTask [simp]:
  "task_of (updateTask i data s) k = (if k = i then jput (task_of s i) data else task_of s k)"
  by (simp add: task_of_def updateTask_def)

lemma task_of_addTask [simp]:
  "task_of (addTask t s) k = (if k = to_str (jget t ''tool_use_id'') then t else task_of s k)"
  by (simp add: task_of_def addTask_def Let_def)

lemma abort_none_running: "jget (task_of (abortRunningTasks now s) k) ''status'' \<noteq> JStr ''running''"
  by (simp add: task_of_def abortRunningTasks_def aborted_task_def jget_jput split: option.split)

lemma abort_keeps_finished:
  "jget (task_of s k) ''status'' \<noteq> JStr ''running'' \<Longrightarrow> task_of (abortRunningTasks now s) k = task_of s k"
  by (simp add: task_of_def abortRunningTasks_def aborted_task_def split: option.splits)

section \<open>File operations\<close>

record file_ops =
  fo_fileOps :: "jsval list"
  fo_selected :: jsval
  fo_round :: int

definition createFileOpsStore :: file_ops where
  "createFileOpsStore = \<lparr>fo_fileOps = [], fo_selected = JNull, fo_round = 0\<rparr>"

definition addFileOp :: "jsval \<Rightarrow> file_ops \<Rightarrow> file_ops" where
  "addFileOp op s = s\<lparr>fo_fileOps := fo_fileOps s @ [jput op [(''roundId'', JNum (fo_round s))]]\<rparr>"

definition updateFileOp :: "jsval \<Rightarrow> jsobj \<Rightarrow> file_ops \<Rightarrow> file_ops" where
  "updateFileOp i data s =
     s\<lparr>fo_fileOps := map (\<lambda>op. if jeq (jget op ''id'') i then jput op data else op) (fo_fileOps s)\<rparr>"

definition setSelectedFileOpId :: "jsval \<Rightarrow> file_ops \<Rightarrow> file_ops" where
  "setSelectedFileOpId i s = s\<lparr>fo_selected := i\<rparr>"

definition incrementRound :: "file_ops \<Rightarrow> file_ops" where
  "incrementRound s = s\<lparr>fo_round := fo_round s + 1\<rparr>"

definition clearFileOps :: "file_ops \<Rightarrow> file_ops" where
  "clearFileOps s = createFileOpsStore"

section \<open>Browser tabs\<close>

text \<open>Paths are strings; a tab's id is its path.\<close>

definition fb_fileName :: "jsval \<Rightarrow> jsval" where
  "fb_fileName filePath =
     (if \<not> truthy filePath then JStr ''(untitled)''
      else (let parts = filter (\<lambda>p. p \<noteq> []) (split_on (\<lambda>c. c = CHR ''/'') (str_of filePath))
            in if parts = [] then filePath else JStr (last parts)))"

definition or_null :: "jsval \<Rightarrow> jsval" where
  "or_null v = jor v JNull"

definition buildTab :: "int \<Rightarrow> jsval \<Rightarrow> jsval" where
  "buildTab now f =
     (let path = jor (jor (jget f ''filePath'') (jget f ''path'')) (JStr [])
      in set_if (case jget f ''missing'' of JBool _ \<Rightarrow> True | _ \<Rightarrow> False) ''missing'' (jget f ''missing'')
         (JObj [(''id'', path), (''filePath'', path), (''name'', jor (jget f ''name'') (fb_fileName path)),
           (''mimeType'', or_null (jor (jget f ''mimeType'') (jget f ''mime_type''))),
           (''extension'', or_null (jget f ''extension'')),
           (''size'', if is_num (jget f ''size'') \<or> jget f ''size'' = JNaN then jget f ''size'' else JNull),
           (''source'', or_null (jget f ''source'')),
           (''browserSource'', or_null (jor (jget f ''browserSource'') (jget f ''browser_source''))),
           (''sourceTool'', or_null (jor (jget f ''sourceTool'') (jget f ''source_tool''))),
           (''toolUseId'', or_null (jor (jget f ''toolUseId'') (jget f ''tool_use_id''))),
           (''mode'', jor (jget f ''mode'') (JStr ''preview'')),
           (''refreshKey'', JNum now)]))"

record file_browser =
  fb_tabs :: "jsval list"
  fb_active :: jsval

definition createFileBrowserStore :: file_browser where
  "createFileBrowserStore = \<lparr>fb_tabs = [], fb_active = JNull\<rparr>"

abbreviation tab_id :: "jsval \<Rightarrow> jsval" where
  "tab_id tab \<equiv> jget tab ''id''"

definition merged_tab :: "int \<Rightarrow> jsval \<Rightarrow> jsval \<Rightarrow> jsval \<Rightarrow> jsval" where
  "merged_tab now existing tab item =
     jput (jspread item tab)
       [(''id'', tab_id existing),
        (''source'', jor (jget tab ''source'') (jget item ''source'')),
        (''browserSource'', jor (jget tab ''browserSource'') (jget item ''browserSource'')),
        (''sourceTool'', jor (jget tab ''sourceTool'') (jget item ''sourceTool'')),
        (''toolUseId'', jor (jget tab ''toolUseId'') (jget item ''toolUseId'')),
        (''mode'', jor (jget item ''mode'') (jget tab ''mode'')),
        (''refreshKey'', JNum now)]"

definition map_tab :: "jsval \<Rightarrow> (jsval \<Rightarrow> jsval) \<Rightarrow> jsval list \<Rightarrow> jsval list" where
  "map_tab i f tabs = map (\<lambda>tab. if jeq (tab_id tab) i then f tab else tab) tabs"

definition openFile :: "int \<Rightarrow> jsval \<Rightarrow> file_browser \<Rightarrow> file_browser" where
  "openFile now f s =
     (let tab = buildTab now (jor f (JObj []))
      in if \<not> truthy (jget tab ''filePath'') then s
         else (case List.find (\<lambda>item. jeq (jget item ''filePath'') (jget tab ''filePath'')) (fb_tabs s) of
                 Some existing \<Rightarrow>
                   s\<lparr>fb_active := tab_id existing,
                     fb_tabs := map_tab (tab_id existing) (merged_tab now existing tab) (fb_tabs s)\<rparr>
               | None \<Rightarrow> s\<lparr>fb_active := tab_id tab, fb_tabs := fb_tabs s @ [tab]\<rparr>))"

text \<open>The tab that takes over: the one at the same place, or the one before it, or the first.\<close>

definition next_active :: "nat option \<Rightarrow> jsval list \<Rightarrow> jsval" where
  "next_active index tabs =
     (case index of
        Some i \<Rightarrow> if i < length tabs then or_null (tab_id (tabs ! i))
                  else if 0 < i \<and> i - 1 < length tabs then or_null (tab_id (tabs ! (i - 1)))
                  else if tabs \<noteq> [] then or_null (tab_id (hd tabs)) else JNull
      | None \<Rightarrow> if tabs \<noteq> [] then or_null (tab_id (hd tabs)) else JNull)"

definition closeFile :: "jsval \<Rightarrow> file_browser \<Rightarrow> file_browser" where
  "closeFile i s =
     (let index = find_index (\<lambda>tab. jeq (tab_id tab) i) (fb_tabs s);
          tabs = filter (\<lambda>tab. \<not> jeq (tab_id tab) i) (fb_tabs s)
      in if \<not> jeq (fb_active s) i then s\<lparr>fb_tabs := tabs\<rparr>
         else s\<lparr>fb_tabs := tabs, fb_active := next_active index tabs\<rparr>)"

definition closeAllFiles :: "file_browser \<Rightarrow> file_browser" where
  "closeAllFiles s = createFileBrowserStore"

definition setActiveTab :: "jsval \<Rightarrow> file_browser \<Rightarrow> file_browser" where
  "setActiveTab i s = s\<lparr>fb_active := i\<rparr>"

definition setMode :: "jsval \<Rightarrow> jsval \<Rightarrow> file_browser \<Rightarrow> file_browser" where
  "setMode i mode s = s\<lparr>fb_tabs := map_tab i (\<lambda>tab. jput tab [(''mode'', mode)]) (fb_tabs s)\<rparr>"

definition refreshFile :: "int \<Rightarrow> jsval \<Rightarrow> file_browser \<Rightarrow> file_browser" where
  "refreshFile now i s = s\<lparr>fb_tabs := map_tab i (\<lambda>tab. jput tab [(''refreshKey'', JNum now)]) (fb_tabs s)\<rparr>"

definition setFileMissing :: "jsval \<Rightarrow> jsval \<Rightarrow> file_browser \<Rightarrow> file_browser" where
  "setFileMissing i missing s =
     s\<lparr>fb_tabs := map_tab i (\<lambda>tab. if jget tab ''missing'' \<noteq> JBool (truthy missing)
          then jput tab [(''missing'', JBool (truthy missing))] else tab) (fb_tabs s)\<rparr>"

definition add_new_tab :: "int \<Rightarrow> jsval list \<Rightarrow> jsval \<Rightarrow> jsval list" where
  "add_new_tab now acc f =
     (let tab = buildTab now f
      in if \<not> truthy (jget tab ''filePath'') \<or> jget tab ''filePath'' \<in> (\<lambda>t. jget t ''filePath'') ` set acc then acc
         else acc @ [tab])"

definition setTabs :: "int \<Rightarrow> jsval \<Rightarrow> file_browser \<Rightarrow> file_browser" where
  "setTabs now tabs s =
     (let nextTabs = foldl (add_new_tab now) [] (arr_of tabs)
      in \<lparr>fb_tabs = nextTabs, fb_active = (if nextTabs = [] then JNull else or_null (tab_id (hd nextTabs)))\<rparr>)"

datatype fb_event =
    FbOpen int jsval
  | FbClose jsval
  | FbCloseAll
  | FbActivate jsval
  | FbMode jsval jsval
  | FbRefresh int jsval
  | FbMissing jsval jsval
  | FbSetTabs int jsval

primrec fb_step :: "file_browser \<Rightarrow> fb_event \<Rightarrow> file_browser" where
  "fb_step s (FbOpen now f) = openFile now f s"
| "fb_step s (FbClose i) = closeFile i s"
| "fb_step s FbCloseAll = closeAllFiles s"
| "fb_step s (FbActivate i) = setActiveTab i s"
| "fb_step s (FbMode i m) = setMode i m s"
| "fb_step s (FbRefresh now i) = refreshFile now i s"
| "fb_step s (FbMissing i m) = setFileMissing i m s"
| "fb_step s (FbSetTabs now tabs) = setTabs now tabs s"

text \<open>
  Each file has one tab, filed under its path, and the active tab is one of them whenever there is any.
  The tab bar activates only a tab it shows.
\<close>

definition tab_wf :: "jsval \<Rightarrow> bool" where
  "tab_wf tab \<longleftrightarrow> truthy (tab_id tab) \<and> jget tab ''filePath'' = tab_id tab"

definition fb_inv :: "file_browser \<Rightarrow> bool" where
  "fb_inv s \<longleftrightarrow> list_all tab_wf (fb_tabs s) \<and> distinct (map (\<lambda>t. tab_id t) (fb_tabs s))
     \<and> (if fb_tabs s = [] then fb_active s = JNull else fb_active s \<in> (\<lambda>t. tab_id t) ` set (fb_tabs s))"

fun fb_ok :: "file_browser \<Rightarrow> fb_event \<Rightarrow> bool" where
  "fb_ok s (FbActivate i) = (i \<in> (\<lambda>t. tab_id t) ` set (fb_tabs s))"
| "fb_ok s _ = True"

lemma buildTab_get:
  "tab_id (buildTab now f) = jor (jor (jget f ''filePath'') (jget f ''path'')) (JStr [])"
  "jget (buildTab now f) ''filePath'' = tab_id (buildTab now f)"
  by (simp_all add: buildTab_def Let_def)

lemma buildTab_wf: "truthy (jget (buildTab now f) ''filePath'') \<Longrightarrow> tab_wf (buildTab now f)"
  by (simp add: tab_wf_def buildTab_get)

lemma truthy_not_nan: "truthy v \<Longrightarrow> v \<noteq> JNaN"
  by auto

lemma map_tab_ids:
  assumes "\<And>t. t \<in> set tabs \<Longrightarrow> tab_id t = i \<Longrightarrow> tab_id (f t) = i \<and> (tab_wf t \<longrightarrow> tab_wf (f t))"
  shows "map (\<lambda>t. tab_id t) (map_tab i f tabs) = map (\<lambda>t. tab_id t) tabs"
    and "list_all tab_wf tabs \<Longrightarrow> list_all tab_wf (map_tab i f tabs)"
  using assms by (auto simp: map_tab_def jeq_def list_all_iff)

lemma fb_inv_map_tab:
  assumes inv: "fb_inv s"
    and f: "\<And>t. t \<in> set (fb_tabs s) \<Longrightarrow> tab_id t = i \<Longrightarrow> tab_id (f t) = i \<and> (tab_wf t \<longrightarrow> tab_wf (f t))"
    and act: "a = fb_active s \<or> a = i \<and> i \<in> (\<lambda>t. tab_id t) ` set (fb_tabs s)"
  shows "fb_inv (s\<lparr>fb_active := a, fb_tabs := map_tab i f (fb_tabs s)\<rparr>)"
proof -
  let ?tabs = "map_tab i f (fb_tabs s)"
  have ids: "map (\<lambda>t. tab_id t) ?tabs = map (\<lambda>t. tab_id t) (fb_tabs s)" and wf: "list_all tab_wf ?tabs"
    using map_tab_ids [of "fb_tabs s" i f] f inv by (auto simp: fb_inv_def)
  have set_ids: "(\<lambda>t. tab_id t) ` set ?tabs = (\<lambda>t. tab_id t) ` set (fb_tabs s)"
    using arg_cong [OF ids, of set] by simp
  have "?tabs = [] \<longleftrightarrow> fb_tabs s = []" by (simp add: map_tab_def)
  then show ?thesis using inv act ids wf set_ids by (auto simp: fb_inv_def)
qed

lemma merged_tab_id: "tab_id (merged_tab now existing tab item) = tab_id existing"
  by (simp add: merged_tab_def jget_jput)

lemma buildTab_keys: "distinct (map fst (obj_of (buildTab now f)))"
  by (simp add: buildTab_def Let_def set_if_def split: jsval.split)

lemma has_own_buildTab: "has_own (buildTab now f) ''filePath''"
  by (simp add: buildTab_def Let_def set_if_def split: jsval.split)

lemma merged_tab_path: "jget (merged_tab now existing (buildTab now f) item) ''filePath'' = tab_id (buildTab now f)"
  by (simp add: merged_tab_def jget_jput jget_jspread [OF buildTab_keys] has_own_buildTab buildTab_get)

lemma fb_inv_open: "fb_inv s \<Longrightarrow> fb_inv (openFile now f s)"
proof -
  assume inv: "fb_inv s"
  define tab where "tab = buildTab now (jor f (JObj []))"
  show ?thesis
  proof (cases "truthy (jget tab ''filePath'')")
    case False
    then show ?thesis using inv by (simp add: openFile_def Let_def tab_def)
  next
    case path: True
    then have wf: "tab_wf tab" by (simp add: tab_def buildTab_wf)
    show ?thesis
    proof (cases "List.find (\<lambda>item. jeq (jget item ''filePath'') (jget tab ''filePath'')) (fb_tabs s)")
      case None
      then have "\<forall>t \<in> set (fb_tabs s). \<not> jeq (jget t ''filePath'') (jget tab ''filePath'')"
        by (simp add: find_None_iff)
      moreover have "list_all tab_wf (fb_tabs s)" using inv by (simp add: fb_inv_def)
      ultimately have "tab_id tab \<notin> (\<lambda>t. tab_id t) ` set (fb_tabs s)"
        using wf by (auto simp: tab_wf_def list_all_iff jeq_def dest: truthy_not_nan)
      then show ?thesis
        using inv wf path None by (simp add: openFile_def Let_def tab_def [symmetric] fb_inv_def)
    next
      case (Some existing)
      then have ex: "existing \<in> set (fb_tabs s)" "jget existing ''filePath'' = jget tab ''filePath''"
        by (auto simp: find_Some_iff jeq_def)
      then have same: "tab_id existing = tab_id tab" and ok: "truthy (tab_id existing)"
        using inv wf by (auto simp: fb_inv_def list_all_iff tab_wf_def)
      have "fb_inv (s\<lparr>fb_active := tab_id existing,
               fb_tabs := map_tab (tab_id existing) (merged_tab now existing tab) (fb_tabs s)\<rparr>)"
      proof (rule fb_inv_map_tab [OF inv])
        fix t
        show "tab_id (merged_tab now existing tab t) = tab_id existing
          \<and> (tab_wf t \<longrightarrow> tab_wf (merged_tab now existing tab t))"
          using same ok merged_tab_path [of now existing "jor f (JObj [])" t]
          by (simp add: tab_def [symmetric] merged_tab_id tab_wf_def)
      qed (use ex in auto)
      then show ?thesis using path Some by (simp add: openFile_def Let_def tab_def [symmetric])
    qed
  qed
qed

lemma next_active_mem:
  assumes "list_all tab_wf tabs" and "tabs \<noteq> []"
  shows "next_active ix tabs \<in> (\<lambda>t. tab_id t) ` set tabs"
proof -
  have "\<exists>t \<in> set tabs. next_active ix tabs = or_null (tab_id t)"
    using assms(2) by (auto simp: next_active_def split: option.split intro: nth_mem)
  then show ?thesis using assms(1) by (auto simp: list_all_iff tab_wf_def or_null_def jor_def)
qed

lemma fb_inv_close: "fb_inv s \<Longrightarrow> fb_inv (closeFile i s)"
proof -
  assume inv: "fb_inv s"
  define tabs where "tabs = filter (\<lambda>tab. \<not> jeq (tab_id tab) i) (fb_tabs s)"
  define a where "a = (if jeq (fb_active s) i then next_active (find_index (\<lambda>tab. jeq (tab_id tab) i) (fb_tabs s)) tabs else fb_active s)"
  have wf: "list_all tab_wf tabs" "distinct (map (\<lambda>t. tab_id t) tabs)"
    using inv by (auto simp: tabs_def fb_inv_def list_all_iff distinct_map_filter)
  have "if tabs = [] then a = JNull else a \<in> (\<lambda>t. tab_id t) ` set tabs"
  proof (cases "jeq (fb_active s) i")
    case True
    then show ?thesis using next_active_mem [OF wf(1)] by (simp add: a_def next_active_def split: option.split)
  next
    case False
    show ?thesis
    proof (cases "fb_tabs s = []")
      case True
      then show ?thesis using inv False by (simp add: fb_inv_def a_def tabs_def)
    next
      case ne: False
      then obtain t where t: "t \<in> set (fb_tabs s)" "fb_active s = tab_id t" using inv by (auto simp: fb_inv_def)
      then have "t \<in> set tabs" using False by (simp add: tabs_def)
      then show ?thesis using t False by (auto simp: a_def)
    qed
  qed
  moreover have "closeFile i s = s\<lparr>fb_tabs := tabs, fb_active := a\<rparr>"
    by (simp add: closeFile_def Let_def tabs_def a_def)
  ultimately show ?thesis using wf by (simp add: fb_inv_def)
qed

lemma add_new_tab_ok:
  assumes "list_all tab_wf acc" and "distinct (map (\<lambda>t. tab_id t) acc)"
  shows "list_all tab_wf (add_new_tab now acc f) \<and> distinct (map (\<lambda>t. tab_id t) (add_new_tab now acc f))"
proof -
  have "(\<lambda>t. jget t ''filePath'') ` set acc = (\<lambda>t. tab_id t) ` set acc"
    using assms(1) by (auto simp: list_all_iff tab_wf_def image_iff)
  then show ?thesis using assms by (auto simp: add_new_tab_def Let_def buildTab_wf buildTab_get)
qed

lemma fold_new_tabs_ok:
  "list_all tab_wf acc \<Longrightarrow> distinct (map (\<lambda>t. tab_id t) acc) \<Longrightarrow>
     list_all tab_wf (foldl (add_new_tab now) acc fs) \<and> distinct (map (\<lambda>t. tab_id t) (foldl (add_new_tab now) acc fs))"
proof (induction fs arbitrary: acc)
  case Nil
  then show ?case by simp
next
  case (Cons f fs)
  then show ?case using add_new_tab_ok [of acc now f] by simp
qed

lemma fb_inv_setTabs: "fb_inv (setTabs now tabs s)"
proof -
  let ?n = "foldl (add_new_tab now) [] (arr_of tabs)"
  have "list_all tab_wf ?n \<and> distinct (map (\<lambda>t. tab_id t) ?n)" by (rule fold_new_tabs_ok) simp_all
  moreover have "?n \<noteq> [] \<Longrightarrow> list_all tab_wf ?n \<Longrightarrow> or_null (tab_id (hd ?n)) = tab_id (hd ?n) \<and> hd ?n \<in> set ?n"
    by (cases ?n) (auto simp: or_null_def jor_def tab_wf_def)
  ultimately show ?thesis by (auto simp: setTabs_def Let_def fb_inv_def)
qed

lemma fb_inv_init: "fb_inv createFileBrowserStore"
  by (simp add: createFileBrowserStore_def fb_inv_def)

lemma fb_inv_step: "fb_inv s \<Longrightarrow> fb_ok s e \<Longrightarrow> fb_inv (fb_step s e)"
proof (cases e)
  case (FbMode i m)
  assume inv: "fb_inv s"
  show ?thesis using fb_inv_map_tab [OF inv, of i "\<lambda>tab. jput tab [(''mode'', m)]" "fb_active s"]
    by (simp add: FbMode setMode_def tab_wf_def jget_jput)
next
  case (FbRefresh now i)
  assume inv: "fb_inv s"
  show ?thesis using fb_inv_map_tab [OF inv, of i "\<lambda>tab. jput tab [(''refreshKey'', JNum now)]" "fb_active s"]
    by (simp add: FbRefresh refreshFile_def tab_wf_def jget_jput)
next
  case (FbMissing i m)
  assume inv: "fb_inv s"
  show ?thesis
    using fb_inv_map_tab [OF inv, of i "\<lambda>tab. if jget tab ''missing'' \<noteq> JBool (truthy m)
          then jput tab [(''missing'', JBool (truthy m))] else tab" "fb_active s"]
    by (simp add: FbMissing setFileMissing_def tab_wf_def jget_jput)
next
  case (FbActivate i)
  assume "fb_inv s" "fb_ok s e"
  then show ?thesis by (auto simp: FbActivate setActiveTab_def fb_inv_def)
qed (simp_all add: fb_inv_open fb_inv_close fb_inv_setTabs closeAllFiles_def fb_inv_init)

interpretation fbm: machine createFileBrowserStore fb_step fb_ok fb_inv
  by unfold_locales (auto simp: fb_inv_init intro: fb_inv_step)

section \<open>Status dots\<close>

text \<open>
  A session's dot is \<^verbatim>\<open>running\<close>, \<^verbatim>\<open>attention\<close>, \<^verbatim>\<open>unseen\<close> or \<^verbatim>\<open>seen\<close>. The last two are written to the browser's
  storage, at most 300 of them, and read back when the page loads.
\<close>

definition STATUS_STORAGE_KEY :: string where
  "STATUS_STORAGE_KEY = ''priva-session-status''"

definition PERSISTED :: "string list" where
  "PERSISTED = [''unseen'', ''seen'']"

definition MAX_PERSISTED :: nat where
  "MAX_PERSISTED = 300"

type_synonym statuses = "(string, string) dict"

definition load_entry :: "statuses \<Rightarrow> string \<times> jsval \<Rightarrow> statuses" where
  "load_entry out kv = (if is_str (snd kv) \<and> str_of (snd kv) \<in> set PERSISTED then dset (fst kv) (str_of (snd kv)) out else out)"

definition loadPersisted :: "js_env \<Rightarrow> storage \<Rightarrow> statuses" where
  "loadPersisted env st =
     (let parsed = getJSON env st STATUS_STORAGE_KEY JNull
      in if \<not> truthy parsed \<or> \<not> is_object parsed then dempty else foldl load_entry dempty (obj_of parsed))"

definition persisted_entries :: "statuses \<Rightarrow> statuses" where
  "persisted_entries statuses =
     (let entries = filter (\<lambda>(k, v). v \<in> set PERSISTED) statuses in drop (length entries - MAX_PERSISTED) entries)"

definition statuses_json :: "statuses \<Rightarrow> jsval" where
  "statuses_json statuses = JObj (map (\<lambda>(k, v). (k, JStr v)) statuses)"

definition persist :: "js_env \<Rightarrow> statuses \<Rightarrow> storage \<Rightarrow> storage" where
  "persist env statuses st =
     snd (setItem STATUS_STORAGE_KEY (env_stringify env (statuses_json (persisted_entries statuses))) st)"

record status_store =
  ss_statuses :: statuses
  ss_storage :: storage

definition createStatusStore :: "js_env \<Rightarrow> storage \<Rightarrow> status_store" where
  "createStatusStore env st = \<lparr>ss_statuses = loadPersisted env st, ss_storage = st\<rparr>"

definition put_statuses :: "js_env \<Rightarrow> statuses \<Rightarrow> status_store \<Rightarrow> status_store" where
  "put_statuses env statuses s = s\<lparr>ss_statuses := statuses, ss_storage := persist env statuses (ss_storage s)\<rparr>"

definition setStatus :: "js_env \<Rightarrow> string \<Rightarrow> string \<Rightarrow> status_store \<Rightarrow> status_store" where
  "setStatus env key status s =
     (if key = [] \<or> dget (ss_statuses s) key = Some status then s
      else put_statuses env (dset key status (ss_statuses s)) s)"

definition status_rekey :: "js_env \<Rightarrow> string \<Rightarrow> string \<Rightarrow> status_store \<Rightarrow> status_store" where
  "status_rekey env oldKey newKey s =
     (if oldKey = [] \<or> newKey = [] \<or> oldKey = newKey then s
      else (case dget (ss_statuses s) oldKey of
              None \<Rightarrow> s
            | Some v \<Rightarrow> put_statuses env (ddel oldKey (dset newKey v (ss_statuses s))) s))"

definition markSeen :: "js_env \<Rightarrow> string \<Rightarrow> status_store \<Rightarrow> status_store" where
  "markSeen env key s =
     (if dget (ss_statuses s) key \<noteq> Some ''unseen'' then s
      else put_statuses env (dset key ''seen'' (ss_statuses s)) s)"

definition status_clear :: "js_env \<Rightarrow> string \<Rightarrow> status_store \<Rightarrow> status_store" where
  "status_clear env key s =
     (if dget (ss_statuses s) key = None then s else put_statuses env (ddel key (ss_statuses s)) s)"

definition status_reset :: "status_store \<Rightarrow> status_store" where
  "status_reset s = \<lparr>ss_statuses = dempty, ss_storage = snd (removeItem STATUS_STORAGE_KEY (ss_storage s))\<rparr>"

datatype status_event =
    StSet string string
  | StRekey string string
  | StSeen string
  | StClear string
  | StReset

primrec status_step :: "js_env \<Rightarrow> status_store \<Rightarrow> status_event \<Rightarrow> status_store" where
  "status_step env s (StSet k v) = setStatus env k v s"
| "status_step env s (StRekey a b) = status_rekey env a b s"
| "status_step env s (StSeen k) = markSeen env k s"
| "status_step env s (StClear k) = status_clear env k s"
| "status_step env s StReset = status_reset s"

lemma dwf_persisted: "dwf m \<Longrightarrow> dwf (persisted_entries m)"
  by (simp add: persisted_entries_def Let_def dwf_def drop_map [symmetric] distinct_map_filter)

lemma persisted_values: "(k, v) \<in> set (persisted_entries m) \<Longrightarrow> v \<in> set PERSISTED"
  by (auto simp: persisted_entries_def Let_def dest: in_set_dropD)

lemma dset_append: "k \<notin> set (dkeys acc) \<Longrightarrow> dset k v acc = acc @ [(k, v)]"
  by (induction acc) (auto simp: dset_def dkeys_def)

lemma fold_load_entries:
  "distinct (map fst (acc @ m)) \<Longrightarrow> (\<And>k v. (k, v) \<in> set m \<Longrightarrow> v \<in> set PERSISTED) \<Longrightarrow>
     foldl load_entry acc (map (\<lambda>(k, v). (k, JStr v)) m) = acc @ m"
proof (induction m arbitrary: acc)
  case Nil
  then show ?case by simp
next
  case (Cons p m)
  obtain k v where p: "p = (k, v)" by (cases p)
  have "v \<in> set PERSISTED" using Cons.prems(2) p by (meson list.set_intros(1))
  then have "load_entry acc (k, JStr v) = acc @ [(k, v)]"
    using Cons.prems(1) p by (simp add: load_entry_def dset_append dkeys_def)
  moreover have "foldl load_entry (acc @ [(k, v)]) (map (\<lambda>(k, v). (k, JStr v)) m) = (acc @ [(k, v)]) @ m"
    using Cons.prems p by (intro Cons.IH) auto
  ultimately show ?case by (simp add: p)
qed

text \<open>
  What the code relies on of \<^verbatim>\<open>JSON.parse\<close> and \<^verbatim>\<open>JSON.stringify\<close>: an object of strings is read back as it was written.
\<close>

definition json_ok :: "js_env \<Rightarrow> bool" where
  "json_ok env \<longleftrightarrow> (\<forall>m. dwf m \<longrightarrow> env_parse_json env (env_stringify env (statuses_json m)) = Some (statuses_json m))"

text \<open>What a page load reads back after a write.\<close>

lemma load_after_persist:
  assumes "dwf m" and "\<not> st_blocked st" and "\<not> st_full st" and json: "json_ok env"
  shows "loadPersisted env (persist env m st) = persisted_entries m"
proof -
  have "getJSON env (persist env m st) STATUS_STORAGE_KEY JNull = statuses_json (persisted_entries m)"
    unfolding persist_def using json dwf_persisted [OF assms(1)] by (intro getJSON_roundtrip) (simp_all add: setItem_def assms json_ok_def)
  moreover have "foldl load_entry dempty (obj_of (statuses_json (persisted_entries m))) = persisted_entries m"
    using fold_load_entries [of "[]" "persisted_entries m"] dwf_persisted [OF assms(1)]
    by (simp add: statuses_json_def dempty_def dwf_def persisted_values)
  ultimately show ?thesis by (simp add: loadPersisted_def Let_def statuses_json_def)
qed

definition status_inv :: "js_env \<Rightarrow> status_store \<Rightarrow> bool" where
  "status_inv env s \<longleftrightarrow> dwf (ss_statuses s) \<and> \<not> st_blocked (ss_storage s) \<and> \<not> st_full (ss_storage s)
     \<and> loadPersisted env (ss_storage s) = persisted_entries (ss_statuses s)"

lemma persist_storage: "st_blocked (persist env m st) = st_blocked st" "st_full (persist env m st) = st_full st"
  by (simp_all add: persist_def setItem_def)

lemma put_statuses_inv:
  assumes "status_inv env s" and "dwf m" and "json_ok env"
  shows "status_inv env (put_statuses env m s)"
  using assms by (simp add: status_inv_def put_statuses_def persist_storage load_after_persist)

lemma reset_loads_nothing: "\<not> st_blocked st \<Longrightarrow> loadPersisted env (snd (removeItem STATUS_STORAGE_KEY st)) = dempty"
  by (simp add: loadPersisted_def getJSON_def removeItem_def getItem_def Let_def)

lemma status_inv_step:
  assumes "status_inv env s" and "json_ok env"
  shows "status_inv env (status_step env s e)"
proof (cases e)
  case StReset
  have "persisted_entries dempty = dempty" by (simp add: persisted_entries_def dempty_def)
  then show ?thesis
    using assms(1) reset_loads_nothing [of "ss_storage s" env]
    by (simp add: StReset status_reset_def status_inv_def removeItem_def)
qed (use assms put_statuses_inv [OF assms(1) _ assms(2)] in
      \<open>auto simp: setStatus_def status_rekey_def markSeen_def status_clear_def status_inv_def split: option.split\<close>)

lemma status_inv_init: "\<not> st_blocked st \<Longrightarrow> \<not> st_full st \<Longrightarrow> dget (st_items st) STATUS_STORAGE_KEY = None \<Longrightarrow> status_inv env (createStatusStore env st)"
  by (simp add: status_inv_def createStatusStore_def loadPersisted_def getJSON_def getItem_def persisted_entries_def Let_def) (simp add: dempty_def)

lemma status_run_inv: "status_inv env s \<Longrightarrow> json_ok env \<Longrightarrow> status_inv env (foldl (status_step env) s es)"
  by (induction es arbitrary: s) (simp_all add: status_inv_step)

text \<open>
  A reload of the page restores the dots of finished sessions: in every run of the status store that begins
  without stored statuses and whose writes are not refused, the store created from the storage it leaves has
  exactly the last 300 entries with the status seen or unseen, in their order, and no running or waiting one.
\<close>

theorem statuses_survive_reload:
  assumes "json_ok env" and "\<not> st_blocked st" and "\<not> st_full st" and "dget (st_items st) STATUS_STORAGE_KEY = None"
  shows "ss_statuses (createStatusStore env (ss_storage (foldl (status_step env) (createStatusStore env st) es)))
    = persisted_entries (ss_statuses (foldl (status_step env) (createStatusStore env st) es))"
  using status_run_inv [OF status_inv_init [OF assms(2-4), of env] assms(1), of es]
  by (simp add: status_inv_def createStatusStore_def [of env "ss_storage _"])

text \<open>A serialization of objects of strings that can be read back.\<close>

definition enc_str :: "string \<Rightarrow> string" where
  "enc_str s = concat (map (\<lambda>c. [CHR ''+'', c]) s) @ ''.''"

fun dec_str :: "string \<Rightarrow> (string \<times> string) option" where
  "dec_str (p # r) =
     (if p = CHR ''.'' then Some ([], r)
      else case r of [] \<Rightarrow> None
        | c # r' \<Rightarrow> (case dec_str r' of None \<Rightarrow> None | Some (s, rest) \<Rightarrow> Some (c # s, rest)))"
| "dec_str [] = None"

lemma dec_enc [simp]: "dec_str (enc_str s @ r) = Some (s, r)"
  by (induction s) (simp_all add: enc_str_def)

lemma dec_str_shorter: "dec_str s = Some (x, r) \<Longrightarrow> length r < length s"
proof (induction s arbitrary: x r rule: dec_str.induct)
  case (1 p s)
  show ?case
  proof (cases s)
    case (Cons c s')
    with 1 show ?thesis by (fastforce split: if_splits option.splits intro: less_SucI)
  qed (use 1 in \<open>auto split: if_splits\<close>)
qed simp

function dec_pairs :: "string \<Rightarrow> (string \<times> string) list" where
  "dec_pairs s =
     (case dec_str s of None \<Rightarrow> []
      | Some (k, r) \<Rightarrow> (case dec_str r of None \<Rightarrow> [] | Some (v, r') \<Rightarrow> (k, v) # dec_pairs r'))"
  by pat_completeness auto
termination
  by (relation "measure length") (auto dest!: dec_str_shorter)

declare dec_pairs.simps [simp del]

definition enc_pairs :: "(string \<times> string) list \<Rightarrow> string" where
  "enc_pairs m = concat (map (\<lambda>(k, v). enc_str k @ enc_str v) m)"

lemma dec_enc_pairs: "dec_pairs (enc_pairs m) = m"
proof (induction m)
  case Nil
  then show ?case by (simp add: enc_pairs_def dec_pairs.simps [of "[]"])
next
  case (Cons p m)
  have "enc_pairs (p # m) = enc_str (fst p) @ enc_str (snd p) @ enc_pairs m" by (simp add: enc_pairs_def case_prod_unfold)
  then show ?case using Cons by (simp add: dec_pairs.simps [of "enc_str (fst p) @ enc_str (snd p) @ enc_pairs m"])
qed

definition string_env :: "int \<Rightarrow> js_env" where
  "string_env t = (demo_env t)\<lparr>env_stringify := (\<lambda>v. enc_pairs (map (\<lambda>(k, x). (k, str_of x)) (obj_of v))),
     env_parse_json := (\<lambda>s. Some (statuses_json (dec_pairs s)))\<rparr>"

lemma string_env_ok: "json_ok (string_env t)"
  by (simp add: json_ok_def string_env_def statuses_json_def dec_enc_pairs case_prod_unfold comp_def)

theorem statuses_survive_reload_witness:
  "ss_statuses (createStatusStore (string_env 1) (ss_storage (foldl (status_step (string_env 1))
     (createStatusStore (string_env 1) \<lparr>st_blocked = False, st_full = False, st_items = dempty\<rparr>)
     [StSet ''a'' ''running'', StSet ''b'' ''unseen'', StSeen ''b'']))) = [(''b'', ''seen'')]"
  using statuses_survive_reload [OF string_env_ok, of "\<lparr>st_blocked = False, st_full = False, st_items = dempty\<rparr>" 1
      "[StSet ''a'' ''running'', StSet ''b'' ''unseen'', StSeen ''b'']"]
  by (simp add: createStatusStore_def loadPersisted_def getJSON_def getItem_def setStatus_def markSeen_def put_statuses_def
      persisted_entries_def PERSISTED_def MAX_PERSISTED_def Let_def dset_def dget_def dempty_def)

section \<open>Toasts\<close>

text \<open>A dismiss timer is the pair of the toast's id and creation time that its callback closes over.\<close>

record toast_store =
  to_toasts :: "jsval list"
  to_nextId :: nat
  to_timers :: "(jsval \<times> int) list"

definition createToastStore :: toast_store where
  "createToastStore = \<lparr>to_toasts = [], to_nextId = 1, to_timers = []\<rparr>"

definition auto_dismiss_ms :: "jsval \<Rightarrow> jsval" where
  "auto_dismiss_ms level =
     (if level = JStr ''error'' then JNum 10000 else if level = JStr ''warning'' then JNum 8000
      else if level = JStr ''info'' \<or> level = JStr ''success'' then JNum 4000 else JUndef)"

definition remove_toast :: "jsval \<Rightarrow> jsval list \<Rightarrow> jsval list" where
  "remove_toast i ts = filter (\<lambda>t. \<not> jeq (jget t ''id'') i) ts"

definition pushToast :: "int \<Rightarrow> jsval \<Rightarrow> toast_store \<Rightarrow> toast_store" where
  "pushToast now toast s =
     (let given = truthy (jget toast ''id'');
          i = (if given then jget toast ''id'' else JStr (''t-'' @ show_nat (to_nextId s)));
          level = jor (jget toast ''level'') (JStr ''info'');
          dismissAfterMs = jcoal (jcoal (jget toast ''dismissAfterMs'') (auto_dismiss_ms level)) JNull;
          entry = JObj [(''id'', i), (''level'', level), (''title'', jor (jget toast ''title'') (JStr [])),
            (''body'', or_null (jget toast ''body'')), (''action'', or_null (jget toast ''action'')),
            (''dismissAfterMs'', dismissAfterMs), (''createdAt'', JNum now)]
      in s\<lparr>to_toasts := remove_toast i (to_toasts s) @ [entry],
           to_nextId := (if given then to_nextId s else Suc (to_nextId s)),
           to_timers := (if truthy dismissAfterMs then to_timers s @ [(i, now)] else to_timers s)\<rparr>)"

definition dismissToast :: "jsval \<Rightarrow> toast_store \<Rightarrow> toast_store" where
  "dismissToast i s = s\<lparr>to_toasts := remove_toast i (to_toasts s)\<rparr>"

definition toast_timer :: "jsval \<times> int \<Rightarrow> toast_store \<Rightarrow> toast_store" where
  "toast_timer timer s =
     (case List.find (\<lambda>t. jeq (jget t ''id'') (fst timer)) (to_toasts s) of
        Some cur \<Rightarrow> if jget cur ''createdAt'' = JNum (snd timer) then dismissToast (fst timer) s else s
      | None \<Rightarrow> s)"

definition clearToasts :: "toast_store \<Rightarrow> toast_store" where
  "clearToasts s = s\<lparr>to_toasts := []\<rparr>"

lemma toasts_distinct_push:
  assumes "distinct (map (\<lambda>t. jget t ''id'') (to_toasts s))"
  shows "distinct (map (\<lambda>t. jget t ''id'') (to_toasts (pushToast now toast s)))"
  using assms
  by (auto simp: pushToast_def remove_toast_def Let_def distinct_map_filter jeq_def dest: truthy_not_nan)

text \<open>A timer of an older toast with the same id does not dismiss the refreshed one.\<close>

lemma stale_toast_timer:
  assumes "now \<noteq> t0" and "truthy (jget toast ''id'')"
  shows "toast_timer (jget toast ''id'', t0) (pushToast now toast s) = pushToast now toast s"
proof -
  have "List.find (\<lambda>t. jeq (jget t ''id'') i) (remove_toast i ts @ [e]) =
      (if jeq (jget e ''id'') i then Some e else None)" for i ts e
    by (induction ts) (auto simp: remove_toast_def)
  then show ?thesis using assms by (auto simp: toast_timer_def pushToast_def Let_def)
qed

section \<open>The canvas\<close>

record ui_store =
  ui_canvasVisible :: jsval
  ui_sessionSummaryOpen :: jsval
  ui_canvasMinimized :: jsval
  ui_activeCanvasTab :: jsval
  ui_canvasOpenTabs :: "jsval list"
  ui_lastResult :: jsval
  ui_planContent :: jsval
  ui_planFilePath :: jsval

definition createUiStore :: ui_store where
  "createUiStore =
     \<lparr>ui_canvasVisible = JBool False, ui_sessionSummaryOpen = JBool False, ui_canvasMinimized = JBool False,
      ui_activeCanvasTab = JStr ''tasks'', ui_canvasOpenTabs = [], ui_lastResult = JNull, ui_planContent = JNull,
      ui_planFilePath = JNull\<rparr>"

definition CANVAS_TAB_IDS :: "string list" where
  "CANVAS_TAB_IDS = [''tasks'', ''file-browser'', ''changes'', ''plan'', ''browser'']"

definition is_canvas_tab :: "jsval \<Rightarrow> bool" where
  "is_canvas_tab tab \<longleftrightarrow> is_str tab \<and> str_of tab \<in> set CANVAS_TAB_IDS"

definition normalizeCanvasTab :: "jsval \<Rightarrow> jsval" where
  "normalizeCanvasTab tab = (if tab = JStr ''files'' then JStr ''changes'' else tab)"

definition appendCanvasTab :: "jsval list \<Rightarrow> jsval \<Rightarrow> jsval list" where
  "appendCanvasTab tabs tab = (if \<not> is_canvas_tab tab \<or> tab \<in> set tabs then tabs else tabs @ [tab])"

definition showCanvas :: "ui_store \<Rightarrow> ui_store" where
  "showCanvas s = s\<lparr>ui_canvasVisible := JBool True\<rparr>"

definition hideCanvas :: "ui_store \<Rightarrow> ui_store" where
  "hideCanvas s = s\<lparr>ui_canvasVisible := JBool False\<rparr>"

definition toggleCanvas :: "ui_store \<Rightarrow> ui_store" where
  "toggleCanvas s = s\<lparr>ui_canvasVisible := JBool (\<not> truthy (ui_canvasVisible s))\<rparr>"

definition showSessionSummary :: "ui_store \<Rightarrow> ui_store" where
  "showSessionSummary s = s\<lparr>ui_sessionSummaryOpen := JBool True\<rparr>"

definition hideSessionSummary :: "ui_store \<Rightarrow> ui_store" where
  "hideSessionSummary s = s\<lparr>ui_sessionSummaryOpen := JBool False\<rparr>"

definition toggleSessionSummary :: "ui_store \<Rightarrow> ui_store" where
  "toggleSessionSummary s = s\<lparr>ui_sessionSummaryOpen := JBool (\<not> truthy (ui_sessionSummaryOpen s))\<rparr>"

definition showCanvasMenu :: "ui_store \<Rightarrow> ui_store" where
  "showCanvasMenu s =
     s\<lparr>ui_canvasVisible := JBool True, ui_canvasMinimized := JBool False, ui_activeCanvasTab := JStr ''menu''\<rparr>"

definition openCanvasTab :: "jsval \<Rightarrow> ui_store \<Rightarrow> ui_store" where
  "openCanvasTab tab s =
     (let nextTab = normalizeCanvasTab tab
      in if \<not> is_canvas_tab nextTab then s
         else s\<lparr>ui_canvasVisible := JBool True, ui_canvasMinimized := JBool False, ui_activeCanvasTab := nextTab,
                ui_canvasOpenTabs := appendCanvasTab (ui_canvasOpenTabs s) nextTab\<rparr>)"

definition setCanvasMinimized :: "jsval \<Rightarrow> ui_store \<Rightarrow> ui_store" where
  "setCanvasMinimized v s = s\<lparr>ui_canvasMinimized := v\<rparr>"

definition setActiveCanvasTab :: "jsval \<Rightarrow> ui_store \<Rightarrow> ui_store" where
  "setActiveCanvasTab tab s =
     (let nextTab = normalizeCanvasTab tab
      in s\<lparr>ui_activeCanvasTab := nextTab, ui_canvasOpenTabs := appendCanvasTab (ui_canvasOpenTabs s) nextTab\<rparr>)"

definition setLastResult :: "jsval \<Rightarrow> ui_store \<Rightarrow> ui_store" where
  "setLastResult r s = s\<lparr>ui_lastResult := r\<rparr>"

definition setPlanContent :: "jsval \<Rightarrow> jsval \<Rightarrow> ui_store \<Rightarrow> ui_store" where
  "setPlanContent content filePath s = s\<lparr>ui_planContent := content, ui_planFilePath := filePath\<rparr>"

definition clearPlanContent :: "ui_store \<Rightarrow> ui_store" where
  "clearPlanContent s = s\<lparr>ui_planContent := JNull, ui_planFilePath := JNull\<rparr>"

definition ui_tabs_ok :: "ui_store \<Rightarrow> bool" where
  "ui_tabs_ok s \<longleftrightarrow> distinct (ui_canvasOpenTabs s) \<and> list_all is_canvas_tab (ui_canvasOpenTabs s)"

lemma canvas_tabs_ok:
  "ui_tabs_ok createUiStore"
  "ui_tabs_ok s \<Longrightarrow> ui_tabs_ok (openCanvasTab tab s)"
  "ui_tabs_ok s \<Longrightarrow> ui_tabs_ok (setActiveCanvasTab tab s)"
  by (auto simp: ui_tabs_ok_def createUiStore_def openCanvasTab_def setActiveCanvasTab_def appendCanvasTab_def Let_def)

end
