(* ===== verification/AgentMessages.thy ===== *)
theory AgentMessages
  imports AgentLifecycle StreamingBlocks
begin

text \<open>
  Messages between agents (\<^verbatim>\<open>web/user/src/utils/agentCommunication.js\<close>): the envelopes in which peer messages
  arrive, the results of \<^verbatim>\<open>SendMessage\<close> calls, and the index that resolves who sent what to whom.
\<close>

section \<open>Texts\<close>

definition COORDINATOR_PREFIX :: string where
  "COORDINATOR_PREFIX = ''The coordinator sent a message while you were working:'' @ [newline]"

definition COORDINATOR_SUFFIX :: string where
  "COORDINATOR_SUFFIX = [newline, newline] @ ''Address this before completing your current task.''"

definition comm_item_text :: "jsval \<Rightarrow> string" where
  "comm_item_text block =
     (if is_str block then str_of block
      else if jget block ''type'' = JStr ''text'' \<and> is_str (jget block ''text'') then str_of (jget block ''text'') else [])"

definition contentText :: "jsval \<Rightarrow> string" where
  "contentText content =
     (if is_str content then str_of content
      else if \<not> is_arr content then []
      else join [newline] (filter (\<lambda>s. s \<noteq> []) (map comm_item_text (arr_of content))))"

definition result_item_text :: "jsval \<Rightarrow> string" where
  "result_item_text block =
     (if is_str block then str_of block
      else if is_str (jget block ''text'') then str_of (jget block ''text'')
      else if is_str (jget block ''content'') then str_of (jget block ''content'') else [])"

definition comm_resultText :: "jsval \<Rightarrow> string" where
  "comm_resultText result =
     (let content = jget result ''content''
      in if is_str content then str_of content
         else if \<not> is_arr content then []
         else join [newline] (filter (\<lambda>s. s \<noteq> []) (map result_item_text (arr_of content))))"

definition normalizedMessageBody :: "jsval \<Rightarrow> string" where
  "normalizedMessageBody v = trim (rreplace (rlit [CHR 0x0D, newline]) [newline] (to_str (jor v (JStr []))))"

definition normalizedTarget :: "jsval \<Rightarrow> string" where
  "normalizedTarget v = trim (to_str (jor v (JStr [])))"

section \<open>Envelopes\<close>

text \<open>\<^verbatim>\<open>s.indexOf(p)\<close> and \<^verbatim>\<open>s.lastIndexOf(p)\<close>, as the text after the first and before the last occurrence.\<close>

fun after_first :: "string \<Rightarrow> string \<Rightarrow> string option" where
  "after_first p [] = (if p = [] then Some [] else None)"
| "after_first p (c # s) = (if prefix p (c # s) then Some (drop (length p) (c # s)) else after_first p s)"

definition before_last :: "string \<Rightarrow> string \<Rightarrow> string option" where
  "before_last p s = map_option rev (after_first (rev p) (rev s))"

text \<open>
  \<^verbatim>\<open>/<agent-message\b([^>]*)>([\s\S]*?)<\/agent-message>/i\<close> and
  \<^verbatim>\<open>/\bfrom\s*=\s*(?:"([^"]*)"|'([^']*)')/i\<close>
\<close>

definition agent_message_rx :: rx where
  "agent_message_rx = rseq [rlit_ci ''<agent-message'', RWordB, RGrp 1 (RStar True (RChr (\<lambda>c. c \<noteq> CHR ''>''))),
     rlit ''>'', RGrp 2 (RStar False rany), rlit_ci ''</agent-message>'']"

definition from_rx :: rx where
  "from_rx = rseq [RWordB, rlit_ci ''from'', RStar True rws, rlit ''='', RStar True rws,
     RAlt (rseq [rlit [CHR 0x22], RGrp 1 (RStar True (RChr (\<lambda>c. c \<noteq> CHR 0x22))), rlit [CHR 0x22]])
          (rseq [rlit [CHR 0x27], RGrp 2 (RStar True (RChr (\<lambda>c. c \<noteq> CHR 0x27))), rlit [CHR 0x27]])]"

definition opt_text :: "string option \<Rightarrow> string" where
  "opt_text s = (case s of Some x \<Rightarrow> x | None \<Rightarrow> [])"

record peer_message =
  pm_body :: string
  pm_senderName :: string

definition sender_of :: "string \<Rightarrow> string" where
  "sender_of attrs =
     (let one = opt_text (rgroup from_rx 1 attrs)
      in trim (if one \<noteq> [] then one else opt_text (rgroup from_rx 2 attrs)))"

definition parseAgentMessageEnvelope :: "jsval \<Rightarrow> peer_message option" where
  "parseAgentMessageEnvelope content =
     (let txt = contentText content
      in if txt = [] then None
         else case rgroup agent_message_rx 1 txt of
                Some attrs \<Rightarrow>
                  (let body = normalizedMessageBody (JStr (opt_text (rgroup agent_message_rx 2 txt)))
                   in if body = [] then None else Some \<lparr>pm_body = body, pm_senderName = sender_of attrs\<rparr>)
              | None \<Rightarrow>
                  (case after_first COORDINATOR_PREFIX txt of
                     None \<Rightarrow> None
                   | Some rest \<Rightarrow>
                       (let cut = (case before_last COORDINATOR_SUFFIX rest of Some b \<Rightarrow> b | None \<Rightarrow> rest);
                            body = normalizedMessageBody (JStr cut)
                        in if body = [] then None else Some \<lparr>pm_body = body, pm_senderName = ''main''\<rparr>)))"

section \<open>SendMessage calls\<close>

definition isSendMessageTool :: "jsval \<Rightarrow> bool" where
  "isSendMessageTool block \<longleftrightarrow> jget block ''type'' = JStr ''tool_use'' \<and> jget block ''name'' = JStr ''SendMessage''"

definition getSendMessageBody :: "jsval \<Rightarrow> string" where
  "getSendMessageBody block =
     normalizedMessageBody (jcoal (jget (jget block ''input'') ''message'') (jget (jget block ''input'') ''content''))"

definition getSendMessageTarget :: "jsval \<Rightarrow> string" where
  "getSendMessageTarget block =
     normalizedTarget (jcoal (jget (jget block ''input'') ''to'') (jget (jget block ''input'') ''recipient''))"

fun is_bool :: "jsval \<Rightarrow> bool" where
  "is_bool (JBool _) = True"
| "is_bool _ = False"

definition object_like :: "jsval \<Rightarrow> bool" where
  "object_like v \<longleftrightarrow> truthy v \<and> is_object v"

definition send_candidates :: "js_env \<Rightarrow> jsval \<Rightarrow> jsval list" where
  "send_candidates env block =
     (let result = jget block ''result''; txt = trim (comm_resultText result);
          base = filter object_like [jget block ''toolUseResult'', jget result ''tool_use_result'', jget result ''toolUseResult'']
      in if prefix ''{'' txt \<and> suffix ''}'' txt
         then (case env_parse_json env txt of Some p \<Rightarrow> if object_like p then base @ [p] else base | None \<Rightarrow> base)
         else base)"

definition parseSendMessageResult :: "js_env \<Rightarrow> jsval \<Rightarrow> string" where
  "parseSendMessageResult env block =
     (let result = jget block ''result'';
          explicitSuccess = List.find is_bool (map (\<lambda>v. jget v ''success'') (send_candidates env block));
          failed = (jget result ''is_error'' = JBool True \<or> jget block ''status'' = JStr ''error''
            \<or> explicitSuccess = Some (JBool False))
      in if \<not> truthy result \<and> (\<not> truthy (jget block ''status'') \<or> jget block ''status'' = JStr ''running'')
         then ''running'' else if failed then ''error'' else ''success'')"

section \<open>The index\<close>

record agent_identity =
  ai_toolUseId :: jsval
  ai_agentId :: string
  ai_name :: jsval

record sent_entry =
  se_block :: jsval
  se_body :: string
  se_target :: string
  se_source :: "agent_identity option"
  se_fromMain :: bool
  se_timestamp :: jsval

record comm_index =
  ci_byToolUseId :: "(jsval, agent_identity) dict"
  ci_byAgentId :: "(string, agent_identity) dict"
  ci_sent :: "sent_entry list"

definition registerAgent :: "comm_index \<Rightarrow> jsval \<Rightarrow> comm_index" where
  "registerAgent index block =
     (if \<not> truthy (jget block ''id'') \<or> \<not> isAgentToolName (jget block ''name'') then index
      else (let agentId = getAgentDisplayId block;
                identity = \<lparr>ai_toolUseId = jget block ''id'', ai_agentId = agentId, ai_name = getAgentDisplayName block\<rparr>;
                i1 = index\<lparr>ci_byToolUseId := dset (jget block ''id'') identity (ci_byToolUseId index)\<rparr>
            in if agentId = [] then i1 else i1\<lparr>ci_byAgentId := dset agentId identity (ci_byAgentId i1)\<rparr>))"

definition assistant_blocks :: "jsval \<Rightarrow> jsval list" where
  "assistant_blocks message =
     (if jget message ''role'' = JStr ''assistant'' then arr_of (jget message ''content'') else [])"

definition main_sent :: "jsval \<Rightarrow> jsval \<Rightarrow> sent_entry" where
  "main_sent message block =
     \<lparr>se_block = block, se_body = getSendMessageBody block, se_target = getSendMessageTarget block, se_source = None,
      se_fromMain = True,
      se_timestamp = jor (jor (jor (jget block ''endTime'') (jget block ''startTime'')) (jget message ''timestamp'')) JNull\<rparr>"

definition side_sent :: "comm_index \<Rightarrow> string \<Rightarrow> jsval \<Rightarrow> sent_entry" where
  "side_sent index owner block =
     \<lparr>se_block = block, se_body = getSendMessageBody block, se_target = getSendMessageTarget block,
      se_source = dget (ci_byToolUseId index) (JStr owner), se_fromMain = False,
      se_timestamp = jor (jor (jget block ''endTime'') (jget block ''startTime'')) JNull\<rparr>"

definition buildAgentCommunicationIndex :: "jsval list \<Rightarrow> (string, jsval) dict \<Rightarrow> comm_index" where
  "buildAgentCommunicationIndex messages subagentContent =
     (let i0 = \<lparr>ci_byToolUseId = dempty, ci_byAgentId = dempty, ci_sent = []\<rparr>;
          i1 = foldl registerAgent i0 (concat (map assistant_blocks messages) @ concat (map arr_of (dvals subagentContent)))
      in i1\<lparr>ci_sent :=
           concat (map (\<lambda>m. map (main_sent m) (filter isSendMessageTool (assistant_blocks m))) messages)
           @ concat (map (\<lambda>(owner, blocks). map (side_sent i1 owner) (filter isSendMessageTool (arr_of blocks))) subagentContent)\<rparr>)"

datatype comm_party = Main | Known agent_identity | Named string string

definition find_identity :: "comm_index \<Rightarrow> string \<Rightarrow> agent_identity option" where
  "find_identity index i =
     (case dget (ci_byAgentId index) i of Some a \<Rightarrow> Some a | None \<Rightarrow> dget (ci_byToolUseId index) (JStr i))"

definition resolveSentTarget :: "comm_index \<Rightarrow> jsval \<Rightarrow> comm_party" where
  "resolveSentTarget index target =
     (let normalized = normalizedTarget target
      in if normalized = [] \<or> lower normalized = ''main'' then Main
         else (case find_identity index normalized of Some a \<Rightarrow> Known a | None \<Rightarrow> Named normalized []))"

definition receiver_ids :: "comm_index \<Rightarrow> jsval \<Rightarrow> string list" where
  "receiver_ids index owner =
     (case dget (ci_byToolUseId index) owner of
        None \<Rightarrow> []
      | Some a \<Rightarrow> map to_str (filter truthy [JStr (ai_agentId a), ai_toolUseId a]))"

definition matching_send :: "comm_index \<Rightarrow> string \<Rightarrow> string list \<Rightarrow> sent_entry option" where
  "matching_send index body ids =
     List.find (\<lambda>e. se_body e = body \<and> (ids = [] \<or> se_target e \<in> set ids)) (rev (ci_sent index))"

definition resolveReceivedSource :: "comm_index \<Rightarrow> jsval \<Rightarrow> jsval \<Rightarrow> comm_party" where
  "resolveReceivedSource index messageBlock owner =
     (let senderAgentId = normalizedTarget (jcoal (jget messageBlock ''senderAgentId'') (jget messageBlock ''sender_agent_id''));
          senderName = normalizedTarget (jcoal (jget messageBlock ''senderName'') (jget messageBlock ''sender_name''));
          byId = (if senderAgentId = [] then None else find_identity index senderAgentId)
      in if lower senderAgentId = ''main'' then Main
         else case byId of
                Some a \<Rightarrow> Known a
              | None \<Rightarrow>
                  (case matching_send index (normalizedMessageBody (jget messageBlock ''body'')) (receiver_ids index owner) of
                     Some e \<Rightarrow> (case se_source e of Some a \<Rightarrow> Known a | None \<Rightarrow> Main)
                   | None \<Rightarrow> if lower senderName = ''main'' then Main else Named senderAgentId senderName))"

end
