(* ===== verification/ModelSelection.thy ===== *)
theory ModelSelection
  imports JsValue
begin

text \<open>
  The run mode of a conversation (\<^verbatim>\<open>web/user/src/utils/runMode.js\<close>) and the model reference a request carries
  (\<^verbatim>\<open>web/user/src/utils/modelSelection.js\<close>). A model context is the string \<^verbatim>\<open>1m\<close> or absent.
\<close>

section \<open>Run modes\<close>

definition RUN_MODES :: "jsval list" where
  "RUN_MODES = [JStr ''agent'', JStr ''code'']"

definition normalizeRunMode :: "jsval \<Rightarrow> jsval \<Rightarrow> jsval" where
  "normalizeRunMode v fallback =
     (if v \<in> set RUN_MODES then v else if fallback \<in> set RUN_MODES then fallback else JStr ''agent'')"

definition effectiveRunMode :: "jsval \<Rightarrow> jsval \<Rightarrow> jsval" where
  "effectiveRunMode chatState draftRunMode =
     normalizeRunMode (jget chatState ''runMode'') (normalizeRunMode draftRunMode (JStr ''agent''))"

definition isRunModeLocked :: "jsval \<Rightarrow> bool" where
  "isRunModeLocked chatState \<longleftrightarrow> jget chatState ''runModeLocked'' = JBool True \<or> truthy (jget chatState ''sessionId'')"

lemma normalizeRunMode_mode: "normalizeRunMode v f \<in> set RUN_MODES"
  by (simp add: normalizeRunMode_def RUN_MODES_def)

section \<open>Model references\<close>

definition MODEL_CONTEXT_1M :: string where
  "MODEL_CONTEXT_1M = ''1m''"

definition MODEL_CONTEXT_1M_SUFFIX :: string where
  "MODEL_CONTEXT_1M_SUFFIX = ''[1m]''"

record model_ref =
  mr_id :: "string option"
  mr_context :: "string option"

definition nonblank :: "string \<Rightarrow> string option" where
  "nonblank s = (if s = [] then None else Some s)"

definition splitModelContext :: "jsval \<Rightarrow> model_ref" where
  "splitModelContext v =
     (let model = trim (str_of v)
      in if \<not> is_str v \<or> model = [] then \<lparr>mr_id = None, mr_context = None\<rparr>
         else if suffix MODEL_CONTEXT_1M_SUFFIX (lower model)
         then (let i = trim (take (length model - length MODEL_CONTEXT_1M_SUFFIX) model)
               in \<lparr>mr_id = nonblank i, mr_context = (if i = [] then None else Some MODEL_CONTEXT_1M)\<rparr>)
         else \<lparr>mr_id = Some model, mr_context = None\<rparr>)"

definition normalizeModelCapabilities :: "jsval \<Rightarrow> string option \<Rightarrow> string option" where
  "normalizeModelCapabilities capabilities fallbackContext =
     (if jget capabilities ''context'' = JStr MODEL_CONTEXT_1M then Some MODEL_CONTEXT_1M
      else if fallbackContext = Some MODEL_CONTEXT_1M then Some MODEL_CONTEXT_1M else None)"

record response_model =
  rm_profileId :: jsval
  rm_id :: string
  rm_context :: "string option"
  rm_observedAt :: jsval

definition normalizeLastResponseModel :: "jsval \<Rightarrow> response_model option" where
  "normalizeLastResponseModel responseModel =
     (if \<not> truthy responseModel \<or> \<not> is_object responseModel then None
      else (let nestedModel = jget responseModel ''model'';
                nested = (truthy nestedModel \<and> is_object nestedModel);
                rawModelId = (if nested then jget nestedModel ''id''
                  else jcoal (jget responseModel ''model_id'') (jget responseModel ''modelId''));
                parsed = splitModelContext rawModelId;
                rawObservedAt = jcoal (jget responseModel ''observed_at'') (jget responseModel ''observedAt'')
            in case mr_id parsed of
                 None \<Rightarrow> None
               | Some i \<Rightarrow> Some
                   \<lparr>rm_profileId = jcoal (jcoal (jget responseModel ''profile_id'') (jget responseModel ''profileId'')) JNull,
                    rm_id = i,
                    rm_context = normalizeModelCapabilities (if nested then jget nestedModel ''capabilities'' else JNull)
                      (mr_context parsed),
                    rm_observedAt = (if is_num rawObservedAt then rawObservedAt else JNull)\<rparr>))"

definition find_profile :: "jsval \<Rightarrow> jsval list \<Rightarrow> jsval" where
  "find_profile i profiles = (case List.find (\<lambda>p. jeq (jget p ''id'') i) profiles of Some p \<Rightarrow> p | None \<Rightarrow> JUndef)"

definition modelSelectionFromResponse :: "jsval \<Rightarrow> jsval \<Rightarrow> jsval \<Rightarrow> string option" where
  "modelSelectionFromResponse responseModel profiles defaultProfileId =
     (case normalizeLastResponseModel responseModel of
        None \<Rightarrow> None
      | Some n \<Rightarrow>
          (let available = arr_of profiles; profileId = rm_profileId n; modelId = rm_id n
           in if \<not> truthy profileId
              then (if jget (find_profile defaultProfileId available) ''default_model'' = JStr modelId then None else Some modelId)
              else if available \<noteq> [] \<and> \<not> list_ex (\<lambda>p. jeq (jget p ''id'') profileId) available then None
              else if jeq profileId defaultProfileId
                \<and> jget (find_profile profileId available) ''default_model'' = JStr modelId then None
              else Some (to_str profileId @ '':'' @ modelId)))"

definition modelCapabilitiesFromResponse :: "jsval \<Rightarrow> string option" where
  "modelCapabilitiesFromResponse responseModel =
     (case normalizeLastResponseModel responseModel of
        None \<Rightarrow> None
      | Some n \<Rightarrow> normalizeModelCapabilities
          (JObj [(''context'', case rm_context n of Some c \<Rightarrow> JStr c | None \<Rightarrow> JNull)]) None)"

definition default_reference :: "jsval list \<Rightarrow> jsval \<Rightarrow> string option" where
  "default_reference available defaultProfileId =
     (let effective = jor (jor defaultProfileId (case available of p # _ \<Rightarrow> jget p ''id'' | [] \<Rightarrow> JUndef)) JNull;
          model = jget (find_profile effective available) ''default_model'';
          modelId = (if is_str model then trim (str_of model) else [])
      in if modelId = [] then None
         else Some (if truthy effective then to_str effective @ '':'' @ modelId else modelId))"

definition modelReferenceForRequest :: "jsval \<Rightarrow> jsval \<Rightarrow> jsval \<Rightarrow> jsval \<Rightarrow> string option" where
  "modelReferenceForRequest selection capabilities profiles defaultProfileId =
     (let reference = (case mr_id (splitModelContext selection) of Some i \<Rightarrow> i | None \<Rightarrow> [])
      in if jget capabilities ''context'' \<noteq> JStr MODEL_CONTEXT_1M then nonblank reference
         else if reference \<noteq> [] then Some (reference @ MODEL_CONTEXT_1M_SUFFIX)
         else map_option (\<lambda>r. r @ MODEL_CONTEXT_1M_SUFFIX) (default_reference (arr_of profiles) defaultProfileId))"

text \<open>Whatever a request carries reads back as the model and the context that were chosen.\<close>

lemma hd_trim:
  assumes "trim s \<noteq> []"
  shows "\<not> is_ws (hd (trim s))"
proof -
  define t where "t = trim_start s"
  have "t = rev (dropWhile is_ws (rev t)) @ rev (takeWhile is_ws (rev t))"
    by (metis rev_append rev_rev_ident takeWhile_dropWhile_id)
  then have t: "t = trim s @ rev (takeWhile is_ws (rev t))" by (simp add: trim_def t_def)
  then have "t \<noteq> []" and "hd t = hd (trim s)" using assms by (auto, metis hd_append2)
  then show ?thesis using hd_dropWhile [of is_ws s] by (simp add: t_def trim_start_def)
qed

lemma trim_append_keeps:
  assumes "trim s = s" and "s \<noteq> []" and "t \<noteq> []" and "\<not> is_ws (last t)"
  shows "trim (s @ t) = s @ t"
proof -
  have "trim_start (s @ t) = s @ t"
    using assms hd_trim [of s] unfolding trim_start_def by (intro dropWhile_id) simp
  moreover have "dropWhile is_ws (rev (s @ t)) = rev (s @ t)"
    using assms(3,4) by (intro dropWhile_id) (simp add: hd_rev)
  ultimately show ?thesis by (simp add: trim_def)
qed

lemma split_id_trimmed: "mr_id (splitModelContext v) = Some i \<Longrightarrow> trim i = i \<and> i \<noteq> []"
  by (auto simp: splitModelContext_def Let_def nonblank_def split: if_splits)

lemma long_reference_reads_back:
  assumes "mr_id (splitModelContext selection) = Some i" and "jget capabilities ''context'' = JStr MODEL_CONTEXT_1M"
  shows "modelReferenceForRequest selection capabilities profiles d = Some (i @ MODEL_CONTEXT_1M_SUFFIX)"
    and "splitModelContext (JStr (i @ MODEL_CONTEXT_1M_SUFFIX)) = \<lparr>mr_id = Some i, mr_context = Some MODEL_CONTEXT_1M\<rparr>"
proof -
  have i: "trim i = i" "i \<noteq> []" using split_id_trimmed [OF assms(1)] by auto
  then show "modelReferenceForRequest selection capabilities profiles d = Some (i @ MODEL_CONTEXT_1M_SUFFIX)"
    using assms by (simp add: modelReferenceForRequest_def)
  have "trim (i @ MODEL_CONTEXT_1M_SUFFIX) = i @ MODEL_CONTEXT_1M_SUFFIX"
    by (rule trim_append_keeps [OF i]) (simp_all add: MODEL_CONTEXT_1M_SUFFIX_def is_ws_def)
  moreover have "lower MODEL_CONTEXT_1M_SUFFIX = MODEL_CONTEXT_1M_SUFFIX"
    by (simp add: MODEL_CONTEXT_1M_SUFFIX_def lower_def lower_char_def)
  then have "suffix MODEL_CONTEXT_1M_SUFFIX (lower (i @ MODEL_CONTEXT_1M_SUFFIX))"
    by (simp add: lower_def suffix_def)
  ultimately show "splitModelContext (JStr (i @ MODEL_CONTEXT_1M_SUFFIX)) = \<lparr>mr_id = Some i, mr_context = Some MODEL_CONTEXT_1M\<rparr>"
    using i by (simp add: splitModelContext_def Let_def nonblank_def)
qed

end
