(* ===== verification/Panes.thy ===== *)
theory Panes
  imports JsDict JsValue
begin

text \<open>
  The split view (\<^verbatim>\<open>web/user/src/stores/splitStore.js\<close>): up to four panes, each showing a session, and the
  active one. A new pane's id comes from the clock and the random generator; it is an argument of the
  operations, and \<open>pane_ok\<close> asks that it is not one of the present ids.
\<close>

record pane =
  pn_id :: string
  pn_sessionId :: "string option"
  pn_local :: bool

record split_store =
  sp_panes :: "pane list"
  sp_layout :: jsval
  sp_activePaneId :: "string option"
  sp_dragging :: jsval

definition split_empty :: split_store where
  "split_empty = \<lparr>sp_panes = [], sp_layout = JStr ''single'', sp_activePaneId = None, sp_dragging = JNull\<rparr>"

definition has_text :: "string option \<Rightarrow> bool" where
  "has_text s \<longleftrightarrow> s \<noteq> None \<and> s \<noteq> Some []"

definition normalizePanes :: "pane list \<Rightarrow> pane list" where
  "normalizePanes panes = take 4 (filter (\<lambda>p. has_text (pn_sessionId p) \<or> pn_local p) panes)"

definition layoutForCount :: "nat \<Rightarrow> jsval \<Rightarrow> jsval" where
  "layoutForCount count previous =
     (if count \<le> 1 then JStr ''single''
      else if count = 2 then JStr (if previous = JStr ''two-rows'' \<or> previous = JStr ''two-rows-top'' then ''two-rows'' else ''two-columns'')
      else if count = 3 then JStr (if previous = JStr ''three-right'' then ''three-right'' else ''three-left'')
      else JStr ''four'')"

definition normalizeRequestedLayout :: "jsval \<Rightarrow> jsval" where
  "normalizeRequestedLayout layout =
     (if layout = JStr ''two-columns-left'' then JStr ''two-columns''
      else if layout = JStr ''two-rows-top'' then JStr ''two-rows'' else layout)"

definition split_reset :: "split_store \<Rightarrow> split_store" where
  "split_reset s = split_empty"

definition setActivePane :: "string \<Rightarrow> split_store \<Rightarrow> split_store" where
  "setActivePane paneId s =
     s\<lparr>sp_activePaneId := (if list_ex (\<lambda>p. pn_id p = paneId) (sp_panes s) then Some paneId else sp_activePaneId s)\<rparr>"

definition setLayout :: "jsval \<Rightarrow> split_store \<Rightarrow> split_store" where
  "setLayout layout s = s\<lparr>sp_layout := layoutForCount (length (normalizePanes (sp_panes s))) layout\<rparr>"

definition beginSessionDrag :: "jsval \<Rightarrow> split_store \<Rightarrow> split_store" where
  "beginSessionDrag session s = s\<lparr>sp_dragging := jor session JNull\<rparr>"

definition endSessionDrag :: "split_store \<Rightarrow> split_store" where
  "endSessionDrag s = s\<lparr>sp_dragging := JNull\<rparr>"

definition single_view :: "string \<Rightarrow> string \<Rightarrow> split_store \<Rightarrow> split_store" where
  "single_view newId sessionId s =
     s\<lparr>sp_panes := [\<lparr>pn_id = newId, pn_sessionId = Some sessionId, pn_local = True\<rparr>], sp_layout := JStr ''single'',
       sp_activePaneId := Some newId\<rparr>"

definition ensureSessionView :: "string \<Rightarrow> string \<Rightarrow> split_store \<Rightarrow> split_store" where
  "ensureSessionView newId sessionId s =
     (if sessionId = [] \<or> normalizePanes (sp_panes s) \<noteq> [] then s else single_view newId sessionId s)"

definition show_in :: "string \<Rightarrow> string \<Rightarrow> pane list \<Rightarrow> pane list" where
  "show_in paneId sessionId panes = map (\<lambda>p. if pn_id p = paneId then p\<lparr>pn_sessionId := Some sessionId\<rparr> else p) panes"

definition active_or_first :: "split_store \<Rightarrow> pane list \<Rightarrow> string" where
  "active_or_first s panes = (if has_text (sp_activePaneId s) then the (sp_activePaneId s) else pn_id (hd panes))"

definition openSessionInActivePane :: "string \<Rightarrow> string \<Rightarrow> split_store \<Rightarrow> split_store" where
  "openSessionInActivePane newId sessionId s =
     (if sessionId = [] then s
      else (let panes = normalizePanes (sp_panes s)
            in if panes = [] then single_view newId sessionId s
               else (let a = active_or_first s panes
                     in s\<lparr>sp_panes := show_in a sessionId panes, sp_activePaneId := Some a\<rparr>)))"

definition insert_before :: "jsval \<Rightarrow> bool" where
  "insert_before layout \<longleftrightarrow> layout = JStr ''two-columns-left'' \<or> layout = JStr ''two-rows-top''"

text \<open>\<open>id1\<close> is the id of the pane for the present session (or the empty main pane), \<open>id2\<close> of the added pane.\<close>

definition addSessionWithLayout ::
  "string \<Rightarrow> string \<Rightarrow> string \<Rightarrow> jsval \<Rightarrow> string option \<Rightarrow> split_store \<Rightarrow> split_store" where
  "addSessionWithLayout id1 id2 sessionId layout currentSessionId s =
     (if sessionId = [] then s
      else
        (let panes0 = normalizePanes (sp_panes s);
             panes = (if panes0 = [] \<and> has_text currentSessionId
                      then [\<lparr>pn_id = id1, pn_sessionId = currentSessionId, pn_local = True\<rparr>] else panes0);
             new = \<lparr>pn_id = id2, pn_sessionId = Some sessionId, pn_local = False\<rparr>
         in if panes = []
            then (let main = \<lparr>pn_id = id1, pn_sessionId = None, pn_local = True\<rparr>
                  in s\<lparr>sp_panes := (if insert_before layout then [new, main] else [main, new]),
                       sp_layout := JStr (if normalizeRequestedLayout layout = JStr ''two-rows'' then ''two-rows'' else ''two-columns''),
                       sp_activePaneId := Some id2\<rparr>)
            else if length panes \<ge> 4
            then (let a = active_or_first s panes
                  in s\<lparr>sp_panes := show_in a sessionId panes, sp_activePaneId := Some a, sp_layout := JStr ''four''\<rparr>)
            else (let nextPanes = (if insert_before layout \<and> length panes = 1 then new # panes else panes @ [new])
                  in s\<lparr>sp_panes := nextPanes,
                       sp_layout := jor (normalizeRequestedLayout layout) (layoutForCount (length nextPanes) (sp_layout s)),
                       sp_activePaneId := Some id2\<rparr>)))"

definition closePane :: "string \<Rightarrow> split_store \<Rightarrow> split_store" where
  "closePane paneId s =
     (let panes = filter (\<lambda>p. pn_id p \<noteq> paneId) (normalizePanes (sp_panes s))
      in s\<lparr>sp_panes := panes,
           sp_activePaneId := (if list_ex (\<lambda>p. Some (pn_id p) = sp_activePaneId s) panes then sp_activePaneId s
             else case panes of p # _ \<Rightarrow> (if pn_id p = [] then None else Some (pn_id p)) | [] \<Rightarrow> None),
           sp_layout := layoutForCount (length panes) (sp_layout s)\<rparr>)"

definition replacePaneSession :: "string \<Rightarrow> string \<Rightarrow> split_store \<Rightarrow> split_store" where
  "replacePaneSession paneId sessionId s =
     (if paneId = [] \<or> sessionId = [] then s
      else s\<lparr>sp_panes := show_in paneId sessionId (normalizePanes (sp_panes s)), sp_activePaneId := Some paneId\<rparr>)"

definition getActivePane :: "split_store \<Rightarrow> pane option" where
  "getActivePane s =
     (let panes = normalizePanes (sp_panes s)
      in case List.find (\<lambda>p. Some (pn_id p) = sp_activePaneId s) panes of
           Some p \<Rightarrow> Some p
         | None \<Rightarrow> (case panes of p # _ \<Rightarrow> Some p | [] \<Rightarrow> None))"

section \<open>The machine\<close>

datatype pane_event =
    PnReset
  | PnActivate string
  | PnLayout jsval
  | PnDrag jsval
  | PnEndDrag
  | PnEnsure string string
  | PnOpen string string
  | PnAdd string string string jsval "string option"
  | PnClose string
  | PnReplace string string

primrec pane_step :: "split_store \<Rightarrow> pane_event \<Rightarrow> split_store" where
  "pane_step s PnReset = split_reset s"
| "pane_step s (PnActivate p) = setActivePane p s"
| "pane_step s (PnLayout l) = setLayout l s"
| "pane_step s (PnDrag d) = beginSessionDrag d s"
| "pane_step s PnEndDrag = endSessionDrag s"
| "pane_step s (PnEnsure n i) = ensureSessionView n i s"
| "pane_step s (PnOpen n i) = openSessionInActivePane n i s"
| "pane_step s (PnAdd n m i l c) = addSessionWithLayout n m i l c s"
| "pane_step s (PnClose p) = closePane p s"
| "pane_step s (PnReplace p i) = replacePaneSession p i s"

definition fresh_pane :: "split_store \<Rightarrow> string \<Rightarrow> bool" where
  "fresh_pane s i \<longleftrightarrow> i \<noteq> [] \<and> i \<notin> pn_id ` set (sp_panes s)"

fun pane_ok :: "split_store \<Rightarrow> pane_event \<Rightarrow> bool" where
  "pane_ok s (PnEnsure n i) = fresh_pane s n"
| "pane_ok s (PnOpen n i) = fresh_pane s n"
| "pane_ok s (PnAdd n m i l c) = (fresh_pane s n \<and> fresh_pane s m \<and> n \<noteq> m)"
| "pane_ok s (PnReplace p i) = (p \<in> pn_id ` set (sp_panes s))"
| "pane_ok s _ = True"

definition shows_something :: "pane \<Rightarrow> bool" where
  "shows_something p \<longleftrightarrow> pn_id p \<noteq> [] \<and> (has_text (pn_sessionId p) \<or> pn_local p)"

definition pane_inv :: "split_store \<Rightarrow> bool" where
  "pane_inv s \<longleftrightarrow> length (sp_panes s) \<le> 4 \<and> distinct (map pn_id (sp_panes s)) \<and> list_all shows_something (sp_panes s)
     \<and> (if sp_panes s = [] then sp_activePaneId s = None
        else sp_activePaneId s \<in> (\<lambda>p. Some (pn_id p)) ` set (sp_panes s))"

lemma normalize_id: "pane_inv s \<Longrightarrow> normalizePanes (sp_panes s) = sp_panes s"
proof -
  assume inv: "pane_inv s"
  then have "filter (\<lambda>p. has_text (pn_sessionId p) \<or> pn_local p) (sp_panes s) = sp_panes s"
    by (auto simp: pane_inv_def list_all_iff shows_something_def intro!: filter_True)
  then show ?thesis using inv by (simp add: normalizePanes_def pane_inv_def)
qed

lemma normalize_Nil [simp]: "normalizePanes [] = []"
  by (simp add: normalizePanes_def)

lemma show_in_ids [simp]: "map pn_id (show_in a i panes) = map pn_id panes" "show_in a i panes = [] \<longleftrightarrow> panes = []"
  "length (show_in a i panes) = length panes"
  by (auto simp: show_in_def)

lemma show_in_some: "i \<noteq> [] \<Longrightarrow> list_all shows_something panes \<Longrightarrow> list_all shows_something (show_in a i panes)"
  by (auto simp: show_in_def list_all_iff shows_something_def has_text_def)

lemma show_in_inv:
  assumes "pane_inv s" and "i \<noteq> []" and "a \<in> pn_id ` set (sp_panes s)"
  shows "pane_inv (s\<lparr>sp_panes := show_in a i (sp_panes s), sp_activePaneId := Some a\<rparr>)"
proof -
  have "pn_id ` set (show_in a i (sp_panes s)) = pn_id ` set (sp_panes s)"
    by (metis list.set_map show_in_ids(1))
  then have "Some a \<in> (\<lambda>p. Some (pn_id p)) ` set (show_in a i (sp_panes s))"
    using assms(3) by (metis (no_types, lifting) image_iff)
  then show ?thesis using assms show_in_some [OF assms(2)] by (auto simp: pane_inv_def)
qed

lemma pane_inv_layout [simp]: "pane_inv (s\<lparr>sp_layout := l\<rparr>) = pane_inv s" "pane_inv (s\<lparr>sp_dragging := d\<rparr>) = pane_inv s"
  by (simp_all add: pane_inv_def)

lemma active_or_first_mem:
  assumes "pane_inv s" and "sp_panes s \<noteq> []"
  shows "active_or_first s (sp_panes s) \<in> pn_id ` set (sp_panes s)"
  using assms by (auto simp: active_or_first_def pane_inv_def has_text_def list_all_iff shows_something_def)

lemma single_view_inv: "n \<noteq> [] \<Longrightarrow> i \<noteq> [] \<Longrightarrow> pane_inv (single_view n i s)"
  by (simp add: single_view_def pane_inv_def shows_something_def has_text_def)

lemma pane_inv_open:
  assumes inv: "pane_inv s" and n: "fresh_pane s n"
  shows "pane_inv (openSessionInActivePane n i s)"
proof (cases "i = [] \<or> sp_panes s = []")
  case True
  then show ?thesis using assms by (auto simp: openSessionInActivePane_def normalize_id single_view_inv fresh_pane_def)
next
  case False
  then show ?thesis
    using show_in_inv [OF inv, of i] active_or_first_mem [OF inv]
    by (simp add: openSessionInActivePane_def normalize_id [OF inv] Let_def)
qed

lemma pane_inv_close: "pane_inv s \<Longrightarrow> pane_inv (closePane p s)"
proof -
  assume inv: "pane_inv s"
  define panes where "panes = filter (\<lambda>q. pn_id q \<noteq> p) (sp_panes s)"
  have len: "length panes \<le> 4" using inv by (auto simp: panes_def pane_inv_def intro: le_trans [OF length_filter_le])
  have ok: "list_all shows_something panes" "distinct (map pn_id panes)"
    using inv by (auto simp: panes_def pane_inv_def list_all_iff distinct_map_filter)
  have "if panes = [] then a = None else a \<in> (\<lambda>q. Some (pn_id q)) ` set panes"
    if "a = (if list_ex (\<lambda>q. Some (pn_id q) = sp_activePaneId s) panes then sp_activePaneId s
             else case panes of q # _ \<Rightarrow> (if pn_id q = [] then None else Some (pn_id q)) | [] \<Rightarrow> None)" for a
  proof (cases "list_ex (\<lambda>q. Some (pn_id q) = sp_activePaneId s) panes")
    case True
    then have "panes \<noteq> []" and "a \<in> (\<lambda>q. Some (pn_id q)) ` set panes" using that by (auto simp: list_ex_iff intro: rev_image_eqI)
    then show ?thesis by simp
  next
    case False
    then show ?thesis using ok(1) that by (cases panes) (auto simp: shows_something_def)
  qed
  then show ?thesis
    using len ok by (simp add: closePane_def Let_def normalize_id [OF inv] panes_def [symmetric] pane_inv_def)
qed

lemma pane_inv_add:
  assumes inv: "pane_inv s" and n: "fresh_pane s n" "fresh_pane s m" "n \<noteq> m"
  shows "pane_inv (addSessionWithLayout n m i l c s)"
proof -
  consider (none) "i = []" | (empty) "i \<noteq> []" "sp_panes s = []" | (full) "i \<noteq> []" "length (sp_panes s) \<ge> 4"
    | (add) "i \<noteq> []" "sp_panes s \<noteq> []" "length (sp_panes s) < 4" by linarith
  then show ?thesis
  proof cases
    case none
    then show ?thesis using inv by (simp add: addSessionWithLayout_def)
  next
    case empty
    then show ?thesis
      using n by (auto simp: addSessionWithLayout_def Let_def normalize_id [OF inv] pane_inv_def shows_something_def
          has_text_def fresh_pane_def)
  next
    case full
    then have "sp_panes s \<noteq> []" by auto
    then show ?thesis
      using full show_in_inv [OF inv full(1) active_or_first_mem [OF inv]]
      by (simp add: addSessionWithLayout_def Let_def normalize_id [OF inv])
  next
    case add
    then show ?thesis
      using inv n by (auto simp: addSessionWithLayout_def Let_def normalize_id [OF inv] pane_inv_def shows_something_def
          has_text_def fresh_pane_def)
  qed
qed

lemma split_empty_inv: "pane_inv split_empty"
  by (simp add: split_empty_def pane_inv_def)

lemma pane_inv_step: "pane_inv s \<Longrightarrow> pane_ok s e \<Longrightarrow> pane_inv (pane_step s e)"
proof (cases e)
  case (PnReplace p i)
  assume "pane_inv s" "pane_ok s e"
  then show ?thesis using show_in_inv [of s i p] by (simp add: PnReplace replacePaneSession_def normalize_id)
next
  case (PnActivate p)
  assume "pane_inv s"
  then show ?thesis by (auto simp: PnActivate setActivePane_def pane_inv_def list_ex_iff)
qed (auto simp: split_reset_def split_empty_inv setLayout_def beginSessionDrag_def
      endSessionDrag_def ensureSessionView_def fresh_pane_def
      intro: pane_inv_open pane_inv_close pane_inv_add single_view_inv)

interpretation panes: machine split_empty pane_step pane_ok pane_inv
  by unfold_locales (auto intro: split_empty_inv pane_inv_step)

lemma active_pane_shown:
  "pane_inv s \<Longrightarrow> sp_panes s \<noteq> [] \<Longrightarrow> \<exists>p \<in> set (sp_panes s). getActivePane s = Some p \<and> sp_activePaneId s = Some (pn_id p)"
  unfolding getActivePane_def Let_def
  by (subst normalize_id, assumption)
     (auto simp: pane_inv_def find_None_iff find_Some_iff split: option.split list.split dest: nth_mem)

text \<open>
  Every sequence of operations of the split view leaves at most four panes with distinct ids, each with a
  session or the local conversation, and, when there are panes, an active one that is among them.
\<close>

theorem panes_invariant:
  assumes "panes.ok_run split_empty es" and "s = panes.run split_empty es"
  shows "length (sp_panes s) \<le> 4 \<and> distinct (map pn_id (sp_panes s)) \<and> list_all shows_something (sp_panes s)
    \<and> (sp_panes s = [] \<or> (\<exists>p. p \<in> set (sp_panes s) \<and> getActivePane s = Some p \<and> sp_activePaneId s = Some (pn_id p)))"
proof -
  have inv: "pane_inv s" using panes.run_inv [OF assms(1)] assms(2) by simp
  then show ?thesis using active_pane_shown [OF inv] by (auto simp: pane_inv_def)
qed

theorem panes_invariant_witness:
  "length (sp_panes (panes.run split_empty [PnAdd ''p1'' ''p2'' ''s1'' (JStr ''two-columns'') (Some ''s0''), PnClose ''p1''])) \<le> 4"
  by (rule conjunct1 [OF panes_invariant [OF _ refl]]) (simp add: fresh_pane_def split_empty_def)

end
