(* ===== verification/Dispatcher.thy ===== *)
theory Dispatcher
  imports ChatStore SessionStores AgentMessages ModelSelection
begin

text \<open>
  The stream dispatcher (\<^verbatim>\<open>web/user/src/hooks/useSSE.js\<close>): what \<^verbatim>\<open>startStream\<close> binds to one session runtime, and
  the handler \<^verbatim>\<open>onEvent\<close> that routes every stream event to the runtime's slices. The variables of the
  closure are the record \<open>stream\<close>; the slices of the bound runtime, the stores all sessions share and the
  registry are the record \<open>disp\<close>. The slices are those of the runtime object \<open>d_rt\<close>, which a change of its
  key does not replace. What leaves the browser client's state (requests, sidebar updates) is recorded in
  order in \<open>d_out\<close>. Console output is left out.
\<close>

section \<open>State\<close>

record stream =
  sm_gen :: nat
  sm_groupSeq :: nat
  sm_activeMsg :: jsval
  sm_hidden :: "jsval list"
  sm_askUser :: "jsval list"
  sm_generated :: "jsval list"
  sm_pendingTabs :: "(jsval, jsval) dict"
  sm_todoWrite :: "jsval list"
  sm_pendingHooks :: "(jsval, jsval list) dict"
  sm_groups :: "(string, string) dict"
  sm_seen :: "string list"
  sm_finalized :: "jsval list"
  sm_asm :: assembler
  sm_announced :: bool
  sm_sessionIdAtSend :: jsval
  sm_runModeAtSend :: jsval
  sm_startTime :: int
  sm_attach :: bool
  sm_retryTimers :: nat

datatype fx =
    FxSidebarActive string
  | FxAnnounceRow string
  | FxSidebarUpdate jsval jsval
  | FxFetchSessions
  | FxRekeyModel string string
  | FxSetAddDirs jsval "jsval list"
  | FxRefreshRecap jsval int
  | FxBroadcastStop string
  | FxOpenRun jsval
  | FxAttachRun string
  | FxAbortTransport

record disp =
  d_w :: chat_world
  d_tasks :: task_store
  d_ops :: file_ops
  d_fb :: file_browser
  d_wf :: workflow_store
  d_status :: status_store
  d_ui :: ui_store
  d_toasts :: toast_store
  d_sidebar :: "jsval list"
  d_reg :: registry
  d_rt :: nat
  d_out :: "fx list"
  d_sm :: stream

abbreviation chat_of :: "disp \<Rightarrow> chat" where
  "chat_of d \<equiv> w_chat (d_w d)"

definition on_w :: "(chat_world \<Rightarrow> chat_world) \<Rightarrow> disp \<Rightarrow> disp" where
  "on_w f d = d\<lparr>d_w := f (d_w d)\<rparr>"

definition on_ch :: "(chat \<Rightarrow> chat) \<Rightarrow> disp \<Rightarrow> disp" where
  "on_ch f = on_w (on_chat f)"

definition on_tasks :: "(task_store \<Rightarrow> task_store) \<Rightarrow> disp \<Rightarrow> disp" where
  "on_tasks f d = d\<lparr>d_tasks := f (d_tasks d)\<rparr>"

definition on_ops :: "(file_ops \<Rightarrow> file_ops) \<Rightarrow> disp \<Rightarrow> disp" where
  "on_ops f d = d\<lparr>d_ops := f (d_ops d)\<rparr>"

definition on_fb :: "(file_browser \<Rightarrow> file_browser) \<Rightarrow> disp \<Rightarrow> disp" where
  "on_fb f d = d\<lparr>d_fb := f (d_fb d)\<rparr>"

definition on_wf :: "(workflow_store \<Rightarrow> workflow_store) \<Rightarrow> disp \<Rightarrow> disp" where
  "on_wf f d = d\<lparr>d_wf := f (d_wf d)\<rparr>"

definition on_sm :: "(stream \<Rightarrow> stream) \<Rightarrow> disp \<Rightarrow> disp" where
  "on_sm f d = d\<lparr>d_sm := f (d_sm d)\<rparr>"

definition out_fx :: "fx \<Rightarrow> disp \<Rightarrow> disp" where
  "out_fx x d = d\<lparr>d_out := d_out d @ [x]\<rparr>"

definition set_messages :: "jsval list \<Rightarrow> disp \<Rightarrow> disp" where
  "set_messages ms = on_ch (\<lambda>c. c\<lparr>c_messages := ms\<rparr>)"

lemmas disp_ops = on_w_def on_ch_def on_tasks_def on_ops_def on_fb_def on_wf_def on_sm_def out_fx_def
  set_messages_def on_chat_def

text \<open>An id as a key: \<^verbatim>\<open>undefined\<close> and the other falsy values are no key.\<close>

definition key_of :: "jsval \<Rightarrow> string" where
  "key_of v = (if truthy v then to_str v else [])"

section \<open>Effects on the interface\<close>

abbreviation rt_of :: "disp \<Rightarrow> runtime" where
  "rt_of d \<equiv> rg_objs (d_reg d) ! d_rt d"

abbreviation rt_key_of :: "disp \<Rightarrow> string" where
  "rt_key_of d \<equiv> rt_key (rt_of d)"

definition isActive :: "disp \<Rightarrow> bool" where
  "isActive d \<longleftrightarrow> rg_activeKey (d_reg d) = rt_key_of d"

definition DEFAULT_UI_SNAPSHOT :: jsval where
  "DEFAULT_UI_SNAPSHOT =
     JObj [(''canvasVisible'', JBool False), (''sessionSummaryOpen'', JBool False), (''canvasMinimized'', JBool False),
       (''activeCanvasTab'', JStr ''tasks''), (''canvasOpenTabs'', JArr []), (''planContent'', JNull), (''planFilePath'', JNull)]"

definition uiFx :: "(ui_store \<Rightarrow> ui_store) \<Rightarrow> jsobj \<Rightarrow> disp \<Rightarrow> disp" where
  "uiFx apply_ui mergeUi d =
     (if isActive d then d\<lparr>d_ui := apply_ui (d_ui d)\<rparr>
      else d\<lparr>d_reg := put_obj (d_rt d)
               ((rt_of d)\<lparr>rt_ui := jput (jspread DEFAULT_UI_SNAPSHOT (jor (rt_ui (rt_of d)) (JObj []))) mergeUi\<rparr>) (d_reg d)\<rparr>)"

definition uiRead_planFilePath :: "disp \<Rightarrow> jsval" where
  "uiRead_planFilePath d =
     (if isActive d then ui_planFilePath (d_ui d) else jget (jor (rt_ui (rt_of d)) (JObj [])) ''planFilePath'')"

definition fxShowCanvas :: "string option \<Rightarrow> disp \<Rightarrow> disp" where
  "fxShowCanvas tab =
     uiFx (\<lambda>ui. case tab of None \<Rightarrow> showCanvas ui | Some t \<Rightarrow> setActiveCanvasTab (JStr t) (showCanvas ui))
       ((''canvasVisible'', JBool True) # (case tab of None \<Rightarrow> [] | Some t \<Rightarrow> [(''activeCanvasTab'', JStr t)]))"

definition fxShowSummary :: "disp \<Rightarrow> disp" where
  "fxShowSummary = uiFx showSessionSummary [(''sessionSummaryOpen'', JBool True)]"

definition show_plan :: "bool \<Rightarrow> jsval \<Rightarrow> jsval \<Rightarrow> disp \<Rightarrow> disp" where
  "show_plan set_plan planContent planFilePath =
     uiFx (\<lambda>ui. setActiveCanvasTab (JStr ''plan'') (showCanvas (if set_plan then setPlanContent planContent planFilePath ui else ui)))
       ((if set_plan then [(''planContent'', planContent), (''planFilePath'', planFilePath)] else [])
        @ [(''canvasVisible'', JBool True), (''activeCanvasTab'', JStr ''plan'')])"

definition set_status :: "js_env \<Rightarrow> string \<Rightarrow> disp \<Rightarrow> disp" where
  "set_status env status d = d\<lparr>d_status := setStatus env (rt_key_of d) status (d_status d)\<rparr>"

definition row_session :: "jsval \<Rightarrow> jsval" where
  "row_session x = jor (jget x ''sessionId'') (jget x ''id'')"

definition sessionLabel :: "disp \<Rightarrow> string option" where
  "sessionLabel d =
     (let sid = jor (case rt_sessionId (rt_of d) of Some i \<Rightarrow> JStr i | None \<Rightarrow> JNull) (c_sessionId (chat_of d))
      in if \<not> truthy sid then None
         else (let row = (case List.find (\<lambda>x. jeq (row_session x) sid) (d_sidebar d) of Some r \<Rightarrow> r | None \<Rightarrow> JUndef);
                   name = str_of (jor (jget row ''name'') (JStr (take 8 (to_str sid))))
               in Some (if length name > 40 then take 40 name @ [ellipsis] else name)))"

definition push_toast :: "js_env \<Rightarrow> string \<Rightarrow> string \<Rightarrow> jsval \<Rightarrow> disp \<Rightarrow> disp" where
  "push_toast env level title body d =
     (let pre = (if isActive d then None else sessionLabel d);
          full = (case pre of Some p \<Rightarrow> if p = [] then title else ''['' @ p @ ''] '' @ title | None \<Rightarrow> title)
      in d\<lparr>d_toasts := pushToast (env_now env)
             (JObj [(''level'', JStr level), (''title'', JStr full), (''body'', body)]) (d_toasts d)\<rparr>)"

section \<open>Pending questions and the dot\<close>

definition any_pending :: "chat \<Rightarrow> bool" where
  "any_pending c \<longleftrightarrow> truthy (c_pendingAskUser c) \<or> truthy (c_pendingPermission c) \<or> truthy (c_pendingPlanApproval c)
     \<or> c_permissionQueue c \<noteq> []"

definition terminalStatusFor :: "disp \<Rightarrow> string" where
  "terminalStatusFor d =
     (if any_pending (chat_of d) then ''attention'' else if isActive d then ''seen'' else ''unseen'')"

definition recomputeActiveStatus :: "js_env \<Rightarrow> disp \<Rightarrow> disp" where
  "recomputeActiveStatus env d =
     (if dget (ss_statuses (d_status d)) (rt_key_of d) = None then d
      else set_status env (if any_pending (chat_of d) then ''attention''
             else if truthy (c_isStreaming (chat_of d)) then ''running'' else ''seen'') d)"

section \<open>Messages and process groups\<close>

definition interrupted_from :: "nat \<Rightarrow> jsval list \<Rightarrow> jsval list" where
  "interrupted_from n ms =
     take n ms @ map (\<lambda>m. if is_assistant m \<and> \<not> truthy (jget m ''responseInterrupted'')
        then jput m [(''responseInterrupted'', JBool True)] else m) (drop n ms)"

definition markCurrentResponseInterrupted :: "chat \<Rightarrow> chat" where
  "markCurrentResponseInterrupted c =
     c\<lparr>c_messages := interrupted_from
         (case find_last_index (\<lambda>m. msg_role m = JStr ''user'') (c_messages c) of Some i \<Rightarrow> Suc i | None \<Rightarrow> 0) (c_messages c)\<rparr>"

definition group_id :: "stream \<Rightarrow> string" where
  "group_id s = show_nat (sm_gen s) @ ''-process-'' @ show_nat (Suc (sm_groupSeq s))"

definition bump_group :: "stream \<Rightarrow> stream" where
  "bump_group s = s\<lparr>sm_groupSeq := Suc (sm_groupSeq s)\<rparr>"

definition provider_reset :: "jsval \<Rightarrow> jsobj" where
  "provider_reset messageId =
     [(''_activeProviderMessageId'', messageId), (''_resultProviderMessageId'', JNull), (''resultReceived'', JBool False),
      (''resultText'', JNull), (''resultIsError'', JNull), (''resultSubtype'', JNull), (''duration'', JNull),
      (''inputTokens'', JNull), (''outputTokens'', JNull), (''agentLoops'', JNull), (''replayComplete'', JBool False)]"

definition upd_last_assistant :: "(jsval \<Rightarrow> jsval) \<Rightarrow> jsval list \<Rightarrow> jsval list" where
  "upd_last_assistant f ms =
     (case find_last_index is_assistant ms of None \<Rightarrow> ms | Some i \<Rightarrow> ms[i := f (ms ! i)])"

definition beginMainProviderMessage :: "jsval \<Rightarrow> disp \<Rightarrow> disp" where
  "beginMainProviderMessage messageId d =
     (if \<not> truthy messageId \<or> jeq messageId (sm_activeMsg (d_sm d)) then d
      else set_messages (upd_last_assistant (\<lambda>m. jput m (provider_reset messageId)) (c_messages (chat_of d)))
             (on_sm (\<lambda>s. s\<lparr>sm_activeMsg := messageId\<rparr>) d))"

section \<open>The assembler's output\<close>

definition enrich_patch :: "sb_patch list \<times> stream \<Rightarrow> sb_patch \<Rightarrow> sb_patch list \<times> stream" where
  "enrich_patch acc patch =
     (let s = snd acc;
          (g, s1) = (case dget (sm_groups s) (pt_streamKey patch) of
                       Some g \<Rightarrow> if g = [] then (group_id s, (bump_group s)\<lparr>sm_groups := dset (pt_streamKey patch) (group_id s) (sm_groups s)\<rparr>)
                                 else (g, s)
                     | None \<Rightarrow> (group_id s, (bump_group s)\<lparr>sm_groups := dset (pt_streamKey patch) (group_id s) (sm_groups s)\<rparr>))
      in (fst acc @ [patch\<lparr>pt_block := jput (pt_block patch) [(''processGroupId'', JStr g)]\<rparr>], s1))"

definition onFlush :: "disp \<Rightarrow> sb_flush \<Rightarrow> disp" where
  "onFlush d out =
     (if c_streamGeneration (chat_of d) \<noteq> sm_gen (d_sm d) \<or> fl_patches out = [] then d
      else (let (enriched, s) = foldl enrich_patch ([], d_sm d) (fl_patches out)
            in on_ch (applyStreamBlockPatches enriched) (d\<lparr>d_sm := s\<rparr>)))"

text \<open>An operation of the assembler, with the calls of \<^verbatim>\<open>onFlush\<close> it makes.\<close>

definition with_asm :: "assembler \<Rightarrow> disp \<Rightarrow> disp" where
  "with_asm a d =
     (let n = length (sb_flushed (sm_asm (d_sm d)))
      in foldl onFlush (on_sm (\<lambda>s. s\<lparr>sm_asm := a\<rparr>) d) (drop n (sb_flushed a)))"

section \<open>Authoritative narrative blocks\<close>

definition is_narrative :: "jsval \<Rightarrow> bool" where
  "is_narrative block \<longleftrightarrow>
     (if jget block ''type'' = JStr ''thinking'' then trim (str_of (jget block ''thinking'')) \<noteq> []
      else jget block ''type'' = JStr ''text'' \<and> trim (str_of (jget block ''text'')) \<noteq> [])"

definition entry_identities :: "jsval \<Rightarrow> sb_reconciled \<Rightarrow> nat \<Rightarrow> string list" where
  "entry_identities data entry ordinal =
     (case rc_streamKey entry of Some k \<Rightarrow> if k = [] then [] else [k] | None \<Rightarrow> [])
     @ (if truthy (jget data ''uuid'')
        then [to_str (jget data ''uuid'') @ '':'' @ to_str (jget (rc_block entry) ''type'') @ '':'' @ show_nat ordinal] else [])"

definition unseen_entry :: "jsval \<Rightarrow> sb_reconciled list \<times> string list \<Rightarrow> sb_reconciled \<times> nat \<Rightarrow> sb_reconciled list \<times> string list" where
  "unseen_entry data acc eo =
     (let ids = entry_identities data (fst eo) (snd eo)
      in if list_ex (\<lambda>i. i \<in> set (snd acc)) ids then acc
         else (fst acc @ [fst eo], foldl (\<lambda>seen i. push_new i seen) (snd acc) ids))"

definition narrative_entries :: "jsval \<Rightarrow> sb_reconciled list \<Rightarrow> string list \<Rightarrow> sb_reconciled list \<times> string list" where
  "narrative_entries data entries seen =
     foldl (unseen_entry data) ([], seen)
       (filter (\<lambda>(e, _). is_narrative (rc_block e)) (zip entries [0..<length entries]))"

definition opt_key :: "string option \<Rightarrow> jsval" where
  "opt_key k = (case k of Some s \<Rightarrow> JStr s | None \<Rightarrow> JNull)"

definition group_of :: "(string, string) dict \<Rightarrow> jsval \<Rightarrow> jsval" where
  "group_of groups k = (case dget groups (str_of k) of Some g \<Rightarrow> if is_str k then JStr g else JUndef | None \<Rightarrow> JUndef)"

definition finishBlock :: "(string, string) dict \<Rightarrow> string \<Rightarrow> sb_reconciled \<Rightarrow> jsval \<Rightarrow> jsval" where
  "finishBlock groups eventGroupId entry existing =
     (let resolved = jor (jor (jget existing ''_streamKey'') (opt_key (rc_streamKey entry))) JNull
      in jput (jspread (JObj (obj_of existing)) (jdel ''signature'' (rc_block entry)))
           ((if truthy resolved then [(''_streamKey'', resolved)] else [])
            @ [(''_streamState'', JStr ''complete''),
               (''startTime'', jor (jget existing ''startTime'') (rc_startTime entry)),
               (''endTime'', JNum (rc_endTime entry)),
               (''processGroupId'', jor (jor (jget existing ''processGroupId'') (group_of groups resolved)) (JStr eventGroupId))]))"

definition uniqueCompatibleUnfinishedIndex :: "jsval list \<Rightarrow> jsval \<Rightarrow> nat option" where
  "uniqueCompatibleUnfinishedIndex blocks authoritative =
     (case filter (\<lambda>i. truthy (jget (blocks ! i) ''_streamKey'') \<and> truthy (jget (blocks ! i) ''_streamState'')
              \<and> jget (blocks ! i) ''_streamState'' \<noteq> JStr ''complete''
              \<and> areStreamBlocksCompatible (blocks ! i) authoritative) [0..<length blocks] of
        [i] \<Rightarrow> Some i
      | _ \<Rightarrow> None)"

definition merge_target :: "jsval list \<Rightarrow> sb_reconciled \<Rightarrow> nat option" where
  "merge_target blocks entry =
     (case (case rc_streamKey entry of
              Some k \<Rightarrow> if k = [] then None else find_index (\<lambda>b. jget b ''_streamKey'' = JStr k) blocks
            | None \<Rightarrow> None) of
        Some i \<Rightarrow> Some i
      | None \<Rightarrow> if rc_allowCompatibleFallback entry then uniqueCompatibleUnfinishedIndex blocks (rc_block entry) else None)"

definition merge_entry :: "(string, string) dict \<Rightarrow> string \<Rightarrow> jsval list \<Rightarrow> sb_reconciled \<Rightarrow> jsval list" where
  "merge_entry groups eventGroupId blocks entry =
     (case merge_target blocks entry of
        Some i \<Rightarrow> blocks[i := finishBlock groups eventGroupId entry (blocks ! i)]
      | None \<Rightarrow> blocks @ [finishBlock groups eventGroupId entry JNull])"

definition merge_narrative :: "(string, string) dict \<Rightarrow> string \<Rightarrow> sb_reconciled list \<Rightarrow> jsval list \<Rightarrow> jsval list" where
  "merge_narrative groups eventGroupId narrative content = foldl (merge_entry groups eventGroupId) content narrative"

definition reconcileNarrativeBlocks :: "jsval \<Rightarrow> sb_reconciled list \<Rightarrow> disp \<Rightarrow> disp" where
  "reconcileNarrativeBlocks data entries d0 =
     (let eventGroupId = group_id (d_sm d0);
          (narrative, seen) = narrative_entries data entries (sm_seen (d_sm d0));
          d = on_sm (\<lambda>s. (bump_group s)\<lparr>sm_seen := seen\<rparr>) d0;
          merge = merge_narrative (sm_groups (d_sm d)) eventGroupId narrative;
          parentId = key_of (jget data ''parent_tool_use_id'')
      in if narrative = [] then d
         else if parentId \<noteq> []
         then on_ch (\<lambda>c. c\<lparr>c_subagentContent := dset parentId (merge (sub_blocks (c_subagentContent c) parentId)) (c_subagentContent c)\<rparr>) d
         else on_ch (\<lambda>c. c\<lparr>c_messages := upd_last_assistant (\<lambda>m. set_content (merge (content_of m)) m) (c_messages c)\<rparr>) d)"

section \<open>Sessions\<close>

definition adoptSessionId :: "js_env \<Rightarrow> string \<Rightarrow> disp \<Rightarrow> disp" where
  "adoptSessionId env sid d0 =
     (if sid = [] then d0
      else
        (let d1 = on_ch (setSessionId (JStr sid)) d0; oldKey = rt_key_of d1;
             d2 = (if oldKey \<noteq> sid
                   then (out_fx (FxRekeyModel oldKey sid) d1)
                          \<lparr>d_reg := snd (rekeyRuntime oldKey sid (d_reg d1)), d_status := status_rekey env oldKey sid (d_status d1)\<rparr>
                   else d1);
             d3 = d2\<lparr>d_reg := put_obj (d_rt d2)
                       ((rt_of d2)\<lparr>rt_sidebarRowId := jor (rt_sidebarRowId (rt_of d2)) (JStr sid)\<rparr>) (d_reg d2)\<rparr>
         in if sm_announced (d_sm d3) then d3
            else out_fx (FxAnnounceRow sid)
                   ((if isActive d3 then out_fx (FxSidebarActive sid) else id)
                     (on_sm (\<lambda>s. s\<lparr>sm_announced := True\<rparr>) d3))))"

section \<open>Hook events\<close>

definition hook_events :: "jsval list \<Rightarrow> jsval \<Rightarrow> jsval list" where
  "hook_events prev hookEvent =
     (let evtKey = jor (jget hookEvent ''uuid'')
            (JStr (to_str (jget hookEvent ''hook_event_name'') @ ''-'' @ to_str (jget hookEvent ''subtype'') @ ''-'' @ show_nat (length prev)));
          same = jor (jget hookEvent ''uuid'') (JStr ''___none'')
      in filter (\<lambda>e. \<not> jeq (jor (jget e ''uuid'') (JStr [])) same) prev @ [jput hookEvent [(''_key'', evtKey)]])"

definition hooked_block :: "jsval \<Rightarrow> jsval \<Rightarrow> jsval" where
  "hooked_block hookEvent b =
     (let prev = arr_of (jget (jget b ''metadata'') ''hookEvents'')
      in jput b [(''metadata'', jput (jor (jget b ''metadata'') (JObj [])) [(''hookEvents'', JArr (hook_events prev hookEvent))])])"

definition mergeHookEventIntoBlock :: "jsval \<Rightarrow> jsval \<Rightarrow> disp \<Rightarrow> bool \<times> disp" where
  "mergeHookEventIntoBlock toolUseId hookEvent d =
     (if \<not> truthy toolUseId then (False, d)
      else
        (let ms = c_messages (chat_of d)
         in case find_last_index (\<lambda>m. is_arr (jget m ''content'') \<and> list_ex (is_tool toolUseId) (content_of m)) ms of
              None \<Rightarrow> (False, d)
            | Some i \<Rightarrow>
                (True, set_messages (ms[i := set_content
                   (map (\<lambda>b. if is_tool toolUseId b then hooked_block hookEvent b else b) (content_of (ms ! i))) (ms ! i)]) d)))"

definition h_hook_event :: "jsval \<Rightarrow> disp \<Rightarrow> disp" where
  "h_hook_event data d =
     (let payload = jor (jget data ''data'') (JObj []);
          toolUseId = jor (jget payload ''tool_use_id'') (jget payload ''toolUseId'')
      in if \<not> truthy toolUseId then d
         else (let (merged, d1) = mergeHookEventIntoBlock toolUseId data d
               in if merged then d1
                  else on_sm (\<lambda>s. s\<lparr>sm_pendingHooks :=
                         (let buf = (case dget (sm_pendingHooks s) toolUseId of Some b \<Rightarrow> b | None \<Rightarrow> [])
                          in dset toolUseId (hook_events buf data) (sm_pendingHooks s))\<rparr>) d1))"

section \<open>Todos\<close>

definition todo_items :: "jsval \<Rightarrow> jsval" where
  "todo_items v = jor (jor (jget v ''newTodos'') (jget v ''todos'')) (jget v ''new_todos'')"

definition extractTodos :: "js_env \<Rightarrow> jsval \<Rightarrow> jsval \<Rightarrow> jsval option" where
  "extractTodos env resultBlock toolUseResult =
     (if truthy toolUseResult \<and> is_arr (todo_items toolUseResult) then Some (todo_items toolUseResult)
      else if is_str (jget resultBlock ''content'') \<and> trim (str_of (jget resultBlock ''content'')) \<noteq> []
      then (case env_parse_json env (str_of (jget resultBlock ''content'')) of
              None \<Rightarrow> None
            | Some parsed \<Rightarrow> if is_arr parsed then Some parsed
                else if is_arr (todo_items parsed) then Some (todo_items parsed) else None)
      else None)"

section \<open>Handlers: handshake\<close>

definition lock_mode :: "jsval \<Rightarrow> jsval \<Rightarrow> disp \<Rightarrow> disp" where
  "lock_mode mode fallback d = (if truthy mode then on_ch (lockRunMode (normalizeRunMode mode fallback)) d else d)"

definition h_stream_init :: "jsval \<Rightarrow> disp \<Rightarrow> disp" where
  "h_stream_init data d =
     lock_mode (jget data ''run_mode'') (sm_runModeAtSend (d_sm d))
       (if truthy (jget data ''stream_id'') then on_ch (set_field F_streamId (jget data ''stream_id'')) d else d)"

definition restored_queue :: "jsval list \<Rightarrow> jsval list" where
  "restored_queue queued =
     map (\<lambda>q. JObj [(''id'', jget q ''id''), (''text'', jget q ''text''), (''status'', JStr ''pending'')]) queued"

definition h_attach_ok :: "js_env \<Rightarrow> jsval \<Rightarrow> disp \<Rightarrow> disp" where
  "h_attach_ok env data d =
     (let queued = arr_of (jget data ''queued'');
          d1 = (if queued \<noteq> [] then on_ch (\<lambda>c. c\<lparr>c_queuedUserMessages := restored_queue queued\<rparr>) d else d)
      in lock_mode (jget data ''run_mode'') (JStr ''code'') (adoptSessionId env (key_of (jget data ''session_id'')) d1))"

definition h_attach_error :: "js_env \<Rightarrow> disp \<Rightarrow> disp" where
  "h_attach_error env d =
     (let d1 = on_ch (\<lambda>c. set_field F_streamAbort JNull (set_field F_isStreaming (JBool False) c)) d
      in set_status env (terminalStatusFor d1) d1)"

section \<open>Handlers: user messages\<close>

definition is_text_block :: "jsval \<Rightarrow> bool" where
  "is_text_block b \<longleftrightarrow> jget b ''type'' = JStr ''text''"

text \<open>\<^verbatim>\<open>join\<close> writes \<^verbatim>\<open>null\<close> and \<^verbatim>\<open>undefined\<close> as the empty string.\<close>

definition joined_text :: "string \<Rightarrow> jsval \<Rightarrow> string" where
  "joined_text sep content =
     (if is_arr content
      then join sep (map (\<lambda>b. if nullish (jget b ''text'') then [] else to_str (jget b ''text'')) (filter is_text_block (arr_of content)))
      else str_of content)"

definition opt_js :: "string option \<Rightarrow> jsval" where
  "opt_js s = (case s of Some x \<Rightarrow> JStr x | None \<Rightarrow> JNull)"

definition notif_obj :: "task_notif \<Rightarrow> jsobj" where
  "notif_obj n =
     [(''taskId'', opt_js (tn_taskId n)), (''toolUseId'', opt_js (tn_toolUseId n)), (''status'', JStr (tn_status n)),
      (''summary'', JStr (tn_summary n)), (''outputFile'', opt_js (tn_outputFile n))]"

definition same_notif :: "task_notif \<Rightarrow> jsval \<Rightarrow> bool" where
  "same_notif n m \<longleftrightarrow> msg_role m = JStr ''system'' \<and> jget m ''type'' = JStr ''task_notification''
     \<and> (tn_taskId n \<noteq> None \<and> jget (jget m ''notif'') ''taskId'' = opt_js (tn_taskId n)
        \<or> tn_toolUseId n \<noteq> None \<and> jget (jget m ''notif'') ''toolUseId'' = opt_js (tn_toolUseId n))"

definition fresh_assistant :: "js_env \<Rightarrow> jsval" where
  "fresh_assistant env = JObj [(''role'', JStr ''assistant''), (''content'', JArr []), (''timestamp'', JNum (env_now env))]"

definition notif_message :: "js_env \<Rightarrow> jsval \<Rightarrow> task_notif \<Rightarrow> disp \<Rightarrow> jsval" where
  "notif_message env data n d =
     (let kind = (case tn_toolUseId n of
                    Some i \<Rightarrow> if dget (ws_workflows (d_wf d)) i \<noteq> None then ''workflow'' else ''task''
                  | None \<Rightarrow> ''task'')
      in JObj [(''role'', JStr ''system''), (''type'', JStr ''task_notification''),
           (''notif'', JObj (notif_obj n @ [(''kind'', JStr kind)])), (''uuid'', jget data ''uuid''),
           (''timestamp'', JNum (env_now env))])"

definition user_notification :: "js_env \<Rightarrow> jsval \<Rightarrow> task_notif \<Rightarrow> disp \<Rightarrow> disp" where
  "user_notification env data n d0 =
     (let d = on_ch (applyAgentTaskNotification env (JObj (notif_obj n))) d0;
          ms = c_messages (chat_of d)
      in if list_ex (same_notif n) (drop (length ms - 4) ms) then d
         else on_w (addMessage (fresh_assistant env)) (on_w (addMessage (notif_message env data n d)) d))"

text \<open>The last user message without an id, or one that has it already.\<close>

definition is_user :: "jsval \<Rightarrow> bool" where
  "is_user m \<longleftrightarrow> msg_role m = JStr ''user''"

definition attach_uuid :: "jsval \<Rightarrow> jsval list \<Rightarrow> bool \<times> jsval list" where
  "attach_uuid uuid ms =
     (case find_last_index (\<lambda>m. is_user m \<and> (\<not> truthy (jget m ''uuid'') \<or> jeq (jget m ''uuid'') uuid)) ms of
        None \<Rightarrow> (False, ms)
      | Some i \<Rightarrow> (True, if truthy (jget (ms ! i) ''uuid'') then ms else ms[i := jput (ms ! i) [(''uuid'', uuid)]]))"

definition replay_block :: "jsval \<Rightarrow> jsval list" where
  "replay_block b =
     (if jget b ''type'' = JStr ''image'' then [b]
      else if is_text_block b \<and> is_str (jget b ''text'') then [JObj [(''type'', JStr ''text''), (''text'', jget b ''text'')]] else [])"

definition replay_content :: "jsval \<Rightarrow> jsval list" where
  "replay_content content =
     (if is_arr content then concat (map replay_block (arr_of content))
      else if is_str content \<and> trim (str_of content) \<noteq> [] then [JObj [(''type'', JStr ''text''), (''text'', content)]]
      else [])"

definition meaningful :: "jsval \<Rightarrow> bool" where
  "meaningful b \<longleftrightarrow> jget b ''type'' = JStr ''image''
     \<or> is_text_block b \<and> trim (str_of (jget b ''text'')) \<noteq> [] \<and> \<not> str_includes (str_of (jget b ''text'')) ''<local-command-stdout>''"

definition round_options :: "js_env \<Rightarrow> string \<Rightarrow> jsval" where
  "round_options env title = JObj [(''title'', JStr title), (''startedAt'', JNum (env_now env))]"

definition or_text :: "string \<Rightarrow> string \<Rightarrow> string" where
  "or_text s t = (if s = [] then t else s)"

definition replay_prompt :: "js_env \<Rightarrow> jsval \<Rightarrow> disp \<Rightarrow> disp" where
  "replay_prompt env data d =
     (let content = replay_content (jget data ''content'')
      in if \<not> list_ex meaningful content then d
         else on_w (addMessage (fresh_assistant env))
                (on_w (addMessage (JObj [(''role'', JStr ''user''), (''content'', JArr content), (''uuid'', jget data ''uuid''),
                    (''timestamp'', JNum (env_now env))]))
                  (on_tasks (tk_beginRound (env_now env)
                    (round_options env (or_text (joined_text '' '' (JArr content)) ''Image prompt''))) d)))"

definition user_frame :: "js_env \<Rightarrow> jsval \<Rightarrow> disp \<Rightarrow> disp" where
  "user_frame env data d =
     (if \<not> truthy (jget data ''uuid'') then d
      else
        (let (matched, ms) = attach_uuid (jget data ''uuid'') (c_messages (chat_of d));
             d1 = set_messages ms d;
             d2 = (if \<not> matched \<and> sm_attach (d_sm d) then replay_prompt env data d1 else d1);
             preview = take 80 (trim (joined_text '' '' (jget data ''content'')))
         in on_ch (recordCheckpoint env (jget data ''uuid'') (JNum (int (length (c_messages (chat_of d2))))) (JStr preview)) d2))"

definition h_user_message :: "js_env \<Rightarrow> jsval \<Rightarrow> disp \<Rightarrow> disp" where
  "h_user_message env data d =
     (case parseTaskNotification (JStr (joined_text [newline] (jget data ''content''))) of
        Some n \<Rightarrow> user_notification env data n d
      | None \<Rightarrow> user_frame env data d)"

section \<open>Handlers: permissions\<close>

definition req_id :: "jsval \<Rightarrow> jsval" where
  "req_id v = jget v ''request_id''"

definition plan_request :: "js_env \<Rightarrow> jsval \<Rightarrow> disp \<Rightarrow> disp" where
  "plan_request env data d =
     (if jeq (jget (c_pendingPlanApproval (chat_of d)) ''requestId'') (req_id data) then d
      else
        (let input = jget data ''input'';
             planContent = jor (jor (jget input ''plan'') (jget input ''content'')) (JStr []);
             planFilePath = uiRead_planFilePath d
         in set_status env ''attention''
              (show_plan (truthy planContent) planContent planFilePath
                (on_ch (set_field F_pendingPlanApproval (JObj [(''requestId'', req_id data), (''planContent'', planContent),
                   (''planFilePath'', planFilePath)])) d))))"

definition ask_block :: "jsval \<Rightarrow> jsval \<Rightarrow> string \<Rightarrow> jsval \<Rightarrow> jsval" where
  "ask_block data toolUseId groupId existing =
     jput (JObj (obj_of existing))
       [(''type'', JStr ''ask_user''), (''id'', jor (jget existing ''id'') toolUseId), (''toolUseId'', toolUseId),
        (''questions'', jget (jget data ''input'') ''questions''), (''_permissionRequestId'', req_id data),
        (''status'', jor (jget existing ''status'') (JStr ''pending'')),
        (''processGroupId'', jor (jget existing ''processGroupId'') (JStr groupId))]"

text \<open>\<open>ms\<close> are the messages at the start of the event; \<open>lastMsg\<close> is its last one.\<close>

definition last_msg :: "jsval list \<Rightarrow> jsval" where
  "last_msg ms = (if ms = [] then JUndef else last ms)"

definition put_ask :: "nat option \<Rightarrow> jsval \<Rightarrow> jsval list \<Rightarrow> jsval list" where
  "put_ask i blk content = (case i of Some k \<Rightarrow> content[k := blk] | None \<Rightarrow> content @ [blk])"

definition ask_request :: "js_env \<Rightarrow> jsval list \<Rightarrow> jsval \<Rightarrow> disp \<Rightarrow> disp" where
  "ask_request env ms data d =
     (if jeq (jget (c_pendingAskUser (chat_of d)) ''_permissionRequestId'') (req_id data) then d
      else
        (let groupId = group_id (d_sm d); d1 = on_sm bump_group d; lastMsg = last_msg ms;
             toolUseId = jor (jget data ''tool_use_id'') (req_id data);
             existingIndex = (if is_assistant lastMsg
               then findMatchingAskUserBlockIndex env (jget lastMsg ''content'') toolUseId (jget (jget data ''input'') ''questions'')
               else None);
             existing = (case existingIndex of Some i \<Rightarrow> content_of lastMsg ! i | None \<Rightarrow> JNull);
             blk = ask_block data toolUseId groupId existing;
             d2 = on_ch (set_field F_pendingAskUser blk) d1;
             d3 = (if is_assistant lastMsg
                   then set_messages (butlast ms @ [set_content (put_ask existingIndex blk (content_of lastMsg)) lastMsg]) d2 else d2)
         in set_status env ''attention'' d3))"

definition tool_request :: "js_env \<Rightarrow> jsval \<Rightarrow> disp \<Rightarrow> disp" where
  "tool_request env data d =
     (let c = chat_of d
      in if jeq (req_id (c_pendingPermission c)) (req_id data)
            \<or> list_ex (\<lambda>p. jeq (req_id p) (req_id data)) (c_permissionQueue c) then d
         else set_status env ''attention''
                (on_ch (if truthy (c_pendingPermission c) then queuePermission data else set_field F_pendingPermission data) d))"

definition h_permission_request :: "js_env \<Rightarrow> jsval list \<Rightarrow> jsval \<Rightarrow> disp \<Rightarrow> disp" where
  "h_permission_request env ms data d =
     (if jget data ''tool_name'' = JStr ''ExitPlanMode'' then plan_request env data d
      else if jget data ''tool_name'' = JStr ''AskUserQuestion'' \<and> truthy (jget (jget data ''input'') ''questions'')
      then ask_request env ms data d
      else tool_request env data d)"

definition settled_ask :: "jsval \<Rightarrow> jsval \<Rightarrow> jsval \<Rightarrow> jsval \<Rightarrow> jsval" where
  "settled_ask rid data submitted block =
     (if \<not> jeq (jget block ''_permissionRequestId'') rid then block
      else if jget data ''decision'' = JStr ''allow''
      then jput block [(''status'', JStr ''answered''),
             (''answeredText'', jor (jor (jget (jget data ''updated_input'') ''answer'') (jget submitted ''answerText'')) (JStr [])),
             (''answeredSelections'', jor (jget submitted ''selections'') (JObj [])),
             (''answeredCustomInputs'', jor (jget submitted ''customInputs'') (JObj []))]
      else jput block [(''status'', JStr ''declined'')])"

definition settle_messages :: "jsval \<Rightarrow> jsval \<Rightarrow> jsval \<Rightarrow> chat \<Rightarrow> chat" where
  "settle_messages rid data submitted c =
     c\<lparr>c_messages := map (on_assistant (map (settled_ask rid data submitted))) (c_messages c)\<rparr>"

text \<open>\<open>c\<close> is the state read before the first update, as in the source.\<close>

definition settle_request :: "jsval \<Rightarrow> jsval \<Rightarrow> chat \<Rightarrow> chat" where
  "settle_request rid data c =
     (let asked = jeq (jget (c_pendingAskUser c) ''_permissionRequestId'') rid;
          c1 = (if asked then settle_messages rid data (jget (c_pendingAskUser c) ''_submittedAnswer'') c else c);
          c2 = (if jeq (jget (c_pendingPlanApproval c) ''requestId'') rid then set_field F_pendingPlanApproval JNull c1 else c1);
          c3 = (if asked then set_field F_pendingAskUser JNull c2 else c2)
      in if jeq (req_id (c_pendingPermission c)) rid then resolvePermission c3
         else c3\<lparr>c_permissionQueue := filter (\<lambda>p. \<not> jeq (req_id p) rid) (c_permissionQueue c)\<rparr>)"

definition h_permission_settled :: "js_env \<Rightarrow> jsval \<Rightarrow> disp \<Rightarrow> disp" where
  "h_permission_settled env data d =
     (let rid = req_id data
      in if \<not> truthy rid then d
         else (let d1 = on_ch (settle_request rid data) d
               in if truthy (c_isStreaming (chat_of d1))
                  then set_status env (if any_pending (chat_of d1) then ''attention'' else ''running'') d1 else d1))"

section \<open>Handlers: assistant messages\<close>

definition h_assistant :: "js_env \<Rightarrow> sb_reconciled list \<Rightarrow> jsval \<Rightarrow> disp \<Rightarrow> disp" where
  "h_assistant env entries data d =
     (let retry = c_retryState (chat_of d);
          d1 = (if truthy retry \<and> \<not> truthy (jget retry ''succeeded'')
                then on_sm (\<lambda>s. s\<lparr>sm_retryTimers := Suc (sm_retryTimers s)\<rparr>) (on_ch markRetrySucceeded d) else d);
          d2 = (if \<not> any_pending (chat_of d1) \<and> truthy (c_isStreaming (chat_of d1)) then set_status env ''running'' d1 else d1);
          d3 = on_ops incrementRound d2
      in if truthy (jget data ''content'') then reconcileNarrativeBlocks data entries d3 else d3)"

text \<open>The timer that clears the "reconnected" notice.\<close>

definition retry_timer :: "disp \<Rightarrow> disp" where
  "retry_timer d =
     (if sm_retryTimers (d_sm d) = 0 then d
      else (let d1 = on_sm (\<lambda>s. s\<lparr>sm_retryTimers := sm_retryTimers s - 1\<rparr>) d
            in if truthy (jget (c_retryState (chat_of d1)) ''succeeded'') then on_ch (set_field F_retryState JNull) d1 else d1))"

section \<open>Handlers: tool calls\<close>

definition tool_entries :: "sb_reconciled list \<Rightarrow> (jsval, sb_reconciled) dict" where
  "tool_entries entries =
     foldl (\<lambda>m e. dset (jget (rc_block e) ''id'') e m) dempty
       (filter (\<lambda>e. jget (rc_block e) ''type'' = JStr ''tool_use'' \<and> truthy (jget (rc_block e) ''id'')) entries)"

definition last_assistant :: "jsval list \<Rightarrow> jsval" where
  "last_assistant ms = (case find_last_index is_assistant ms of Some i \<Rightarrow> ms ! i | None \<Rightarrow> JUndef)"

definition parent_blocks :: "jsval \<Rightarrow> chat \<Rightarrow> jsval list" where
  "parent_blocks data c =
     (let p = key_of (jget data ''parent_tool_use_id'')
      in if p \<noteq> [] then sub_blocks (c_subagentContent c) p else content_of (last_assistant (c_messages c)))"

definition entry_key :: "sb_reconciled option \<Rightarrow> jsval" where
  "entry_key e = (case e of Some x \<Rightarrow> opt_key (rc_streamKey x) | None \<Rightarrow> JUndef)"

definition is_provisional :: "jsval \<Rightarrow> jsval \<Rightarrow> jsval \<Rightarrow> bool" where
  "is_provisional streamKey i block \<longleftrightarrow>
     truthy streamKey \<and> jeq (jget block ''_streamKey'') streamKey
     \<or> is_tool i block \<and> jget block ''_streamState'' \<noteq> JStr ''complete''"

definition tool_base :: "js_env \<Rightarrow> stream \<Rightarrow> string \<Rightarrow> sb_reconciled option \<Rightarrow> jsval \<Rightarrow> jsval \<Rightarrow> jsval" where
  "tool_base env s groupId entry existing b =
     jput (jspread (JObj (obj_of existing)) b)
       ([(''status'', jor (jget existing ''status'') (JStr ''running'')),
         (''startTime'', jor (jor (jget existing ''startTime'') (case entry of Some e \<Rightarrow> rc_startTime e | None \<Rightarrow> JUndef)) (JNum (env_now env))),
         (''processGroupId'', jor (jor (jget existing ''processGroupId'') (group_of (sm_groups s) (entry_key entry))) (JStr groupId))]
        @ (if truthy (entry_key entry) then [(''_streamKey'', entry_key entry)] else [])
        @ [(''_streamState'', JStr ''complete'')])"

definition with_hooks :: "jsval list \<Rightarrow> jsval \<Rightarrow> jsval" where
  "with_hooks buffered base =
     (if buffered = [] then base
      else jput base [(''metadata'', jput (jor (jget base ''metadata'') (JObj [])) [(''hookEvents'', JArr buffered)])])"

text \<open>One \<^verbatim>\<open>tool_use\<close> block of the envelope becomes a tool card; its id is final from here on.\<close>

definition build_tool ::
  "js_env \<Rightarrow> (jsval, sb_reconciled) dict \<Rightarrow> jsval list \<Rightarrow> string \<Rightarrow> jsval list \<times> stream \<Rightarrow> jsval \<Rightarrow> jsval list \<times> stream" where
  "build_tool env ents parents groupId acc b =
     (let s = snd acc; i = jget b ''id''; entry = dget ents i;
          existing = (case List.find (is_provisional (entry_key entry) i) parents of Some x \<Rightarrow> x | None \<Rightarrow> JUndef);
          buffered = (case dget (sm_pendingHooks s) i of Some x \<Rightarrow> x | None \<Rightarrow> []);
          base = with_hooks buffered (tool_base env s groupId entry existing b)
      in (fst acc @ [base],
          s\<lparr>sm_pendingHooks := (if buffered = [] then sm_pendingHooks s else ddel i (sm_pendingHooks s)),
            sm_finalized := push_new i (sm_finalized s)\<rparr>))"

definition new_tool_uses :: "stream \<Rightarrow> jsval \<Rightarrow> jsval list" where
  "new_tool_uses s data =
     filter (\<lambda>b. jget b ''type'' = JStr ''tool_use'' \<and> jget b ''id'' \<notin> set (sm_finalized s)) (arr_of (jget data ''content''))"

definition build_tools :: "js_env \<Rightarrow> jsval \<Rightarrow> sb_reconciled list \<Rightarrow> disp \<Rightarrow> jsval list \<times> disp" where
  "build_tools env data entries d0 =
     (let groupId = group_id (d_sm d0); d = on_sm bump_group d0;
          (blocks, s) = foldl (build_tool env (tool_entries entries) (parent_blocks data (chat_of d)) groupId) ([], d_sm d)
            (new_tool_uses (d_sm d) data)
      in (blocks, d\<lparr>d_sm := s\<rparr>))"

definition block_name :: "jsval \<Rightarrow> jsval" where
  "block_name b = jget b ''name''"

definition block_input :: "jsval \<Rightarrow> jsval" where
  "block_input b = jget b ''input''"

definition isPlanWriteTool :: "jsval \<Rightarrow> bool" where
  "isPlanWriteTool block \<longleftrightarrow>
     (let p = jget (block_input block) ''file_path''
      in block_name block = JStr ''Write'' \<and> truthy p \<and> suffix ''.md'' (str_of p) \<and> str_includes (str_of p) ''/plans/'')"

definition hide_tool :: "jsval \<Rightarrow> stream \<Rightarrow> stream" where
  "hide_tool i s = s\<lparr>sm_hidden := push_new i (sm_hidden s)\<rparr>"

definition record_sdk_task :: "js_env \<Rightarrow> disp \<Rightarrow> jsval \<Rightarrow> disp" where
  "record_sdk_task env d block =
     on_tasks (tk_toolUse (env_now env) block None) (on_sm (hide_tool (jget block ''id'')) d)"

definition is_sdk_task :: "jsval \<Rightarrow> bool" where
  "is_sdk_task block \<longleftrightarrow> isSdkTaskToolName (block_name block)"

definition is_agent_call :: "jsval \<Rightarrow> bool" where
  "is_agent_call block \<longleftrightarrow> block_name block = JStr ''Agent'' \<or> block_name block = JStr ''Task''"

definition openToolFileInBrowser :: "js_env \<Rightarrow> bool \<Rightarrow> jsval \<Rightarrow> disp \<Rightarrow> disp" where
  "openToolFileInBrowser env activate block d =
     (case fileTabFromToolUse block FILE_SOURCE_CURRENT of
        None \<Rightarrow> d
      | Some tab \<Rightarrow> fxShowCanvas (if activate then Some ''file-browser'' else None) (on_fb (openFile (env_now env) tab) d))"

definition route_file :: "js_env \<Rightarrow> jsval \<Rightarrow> disp \<Rightarrow> jsval \<Rightarrow> disp" where
  "route_file env data d block =
     (let d1 = (if isGeneratedToolName (block_name block)
                then on_sm (\<lambda>s. s\<lparr>sm_generated := push_new (jget block ''id'') (sm_generated s)\<rparr>) d else d)
      in if isFileToolName (block_name block)
         then (if isPlanWriteTool block then d1
               else case fileTabFromToolUse block FILE_SOURCE_CURRENT of
                      None \<Rightarrow> d1
                    | Some tab \<Rightarrow> on_sm (\<lambda>s. s\<lparr>sm_pendingTabs := dset (jget block ''id'') tab (sm_pendingTabs s)\<rparr>) d1)
         else openToolFileInBrowser env (block_name block = JStr ''Read'' \<or> truthy (jget data ''parent_tool_use_id'')) block d1)"

text \<open>The blocks a finished tool call replaces.\<close>

definition stream_keys :: "jsval list \<Rightarrow> jsval list" where
  "stream_keys tools = filter truthy (map (\<lambda>b. jget b ''_streamKey'') tools)"

definition is_replaced :: "jsval list \<Rightarrow> jsval \<Rightarrow> bool" where
  "is_replaced tools block \<longleftrightarrow>
     truthy (jget block ''_streamKey'') \<and> jget block ''_streamKey'' \<in> set (stream_keys tools)
     \<or> jget block ''type'' = JStr ''tool_use'' \<and> jget block ''id'' \<in> (\<lambda>b. jget b ''id'') ` set tools
       \<and> jget block ''_streamState'' \<noteq> JStr ''complete''"

definition subagent_tools :: "string \<Rightarrow> jsval list \<Rightarrow> chat \<Rightarrow> chat" where
  "subagent_tools p tools c =
     c\<lparr>c_subagentContent := dset p
        (filter (\<lambda>b. \<not> is_replaced tools b) (sub_blocks (c_subagentContent c) p) @ filter (\<lambda>b. \<not> is_sdk_task b) tools)
        (c_subagentContent c)\<rparr>"

text \<open>The state of the loop over the tool blocks of a main message.\<close>

record tool_acc =
  ta_d :: disp
  ta_blocks :: "jsval list"
  ta_content :: "jsval list"

definition ta_push :: "jsval \<Rightarrow> tool_acc \<Rightarrow> tool_acc" where
  "ta_push b a = a\<lparr>ta_blocks := ta_blocks a @ [b]\<rparr>"

definition ta_on :: "(disp \<Rightarrow> disp) \<Rightarrow> tool_acc \<Rightarrow> tool_acc" where
  "ta_on f a = a\<lparr>ta_d := f (ta_d a)\<rparr>"

definition ta_hide :: "jsval \<Rightarrow> tool_acc \<Rightarrow> tool_acc" where
  "ta_hide block = ta_on (on_sm (hide_tool (jget block ''id'')))"

definition tool_workflow :: "jsval \<Rightarrow> tool_acc \<Rightarrow> tool_acc" where
  "tool_workflow block a =
     ta_push block (ta_on (\<lambda>d. fxShowCanvas (Some ''tasks'')
       (on_wf (ensureWorkflow (key_of (jget block ''id'')) (JObj [(''script'', jget (block_input block) ''script''),
          (''workflowName'', jget (block_input block) ''name''), (''status'', JStr ''pending'')])) d)) a)"

definition tool_ask :: "js_env \<Rightarrow> jsval \<Rightarrow> tool_acc \<Rightarrow> tool_acc" where
  "tool_ask env block a0 =
     (let i = jget block ''id''; questions = jget (block_input block) ''questions'';
          a = ta_on (on_sm (\<lambda>s. s\<lparr>sm_askUser := push_new i (sm_askUser s)\<rparr>)) (ta_hide block a0);
          existingIndex = findMatchingAskUserBlockIndex env (JArr (ta_content a)) i questions;
          existing = (case existingIndex of Some k \<Rightarrow> ta_content a ! k | None \<Rightarrow> JNull);
          blk = jput (JObj (obj_of existing))
            [(''type'', JStr ''ask_user''), (''id'', i), (''toolUseId'', i), (''questions'', questions),
             (''status'', jor (jget existing ''status'') (JStr ''pending'')),
             (''processGroupId'', jor (jget existing ''processGroupId'') (jget block ''processGroupId''))];
          a1 = (case existingIndex of
                  Some k \<Rightarrow> a\<lparr>ta_content := (ta_content a)[k := blk]\<rparr>
                | None \<Rightarrow> ta_push blk a);
          pending = JObj ([(''toolUseId'', i), (''questions'', questions)]
            @ (if truthy (jget existing ''_permissionRequestId'')
               then [(''_permissionRequestId'', jget existing ''_permissionRequestId'')] else []))
      in ta_on (\<lambda>d. set_status env ''attention'' (on_ch (set_field F_pendingAskUser pending) d)) a1)"

definition find_shell :: "jsval \<Rightarrow> task_store \<Rightarrow> string option" where
  "find_shell shell s = map_option fst (List.find (\<lambda>(k, t). jeq (jget t ''shellId'') shell) (tk_tasks s))"

definition tool_bash_output :: "jsval \<Rightarrow> tool_acc \<Rightarrow> tool_acc" where
  "tool_bash_output block a0 =
     (let a = ta_hide block a0; shell = jget (block_input block) ''bash_id''
      in if block_name block = JStr ''BashOutput'' \<and> truthy shell
         then (case find_shell shell (d_tasks (ta_d a)) of
                 None \<Rightarrow> a
               | Some k \<Rightarrow> if k = [] then a
                   else ta_on (on_tasks (updateTask k [(''lastBashOutputId'', jget block ''id'')])) a)
         else a)"

definition tool_todo :: "js_env \<Rightarrow> jsval \<Rightarrow> tool_acc \<Rightarrow> tool_acc" where
  "tool_todo env block a =
     ta_push block (ta_on (\<lambda>d. on_tasks (setTodoWriteInfo
        [(''tool_use_id'', jget block ''id''), (''name'', block_name block), (''input'', block_input block),
         (''status'', JStr ''running''), (''startTime'', JNum (env_now env))])
       (on_sm (\<lambda>s. s\<lparr>sm_todoWrite := push_new (jget block ''id'') (sm_todoWrite s)\<rparr>) d)) a)"

definition tool_plan :: "jsval \<Rightarrow> tool_acc \<Rightarrow> tool_acc" where
  "tool_plan block a =
     ta_on (show_plan True (jget (block_input block) ''content'') (jget (block_input block) ''file_path'')) (ta_hide block a)"

definition new_file_op :: "js_env \<Rightarrow> jsval \<Rightarrow> jsval" where
  "new_file_op env block =
     JObj [(''id'', jget block ''id''), (''type'', JStr (lower (str_of (block_name block)))),
       (''filePath'', jor (jget (block_input block) ''file_path'') (JStr [])), (''status'', JStr ''running''),
       (''startTime'', JNum (env_now env)), (''input'', block_input block), (''content'', JNull), (''originalFile'', JNull),
       (''structuredPatch'', JNull), (''toolUseResult'', JNull)]"

definition file_ref_block :: "jsval \<Rightarrow> jsval" where
  "file_ref_block block =
     JObj [(''type'', JStr ''file_ref''), (''id'', JStr (''file-ref-'' @ to_str (jget block ''id''))),
       (''fileOpId'', jget block ''id''), (''name'', block_name block),
       (''filePath'', jor (jget (block_input block) ''file_path'') (JStr [])), (''processGroupId'', jget block ''processGroupId'')]"

definition tool_file :: "js_env \<Rightarrow> jsval \<Rightarrow> tool_acc \<Rightarrow> tool_acc" where
  "tool_file env block a =
     ta_push (file_ref_block block) (ta_on (\<lambda>d. fxShowSummary (on_ops (addFileOp (new_file_op env block)) d)) (ta_hide block a))"

definition generated_file_tab :: "jsval \<Rightarrow> string \<Rightarrow> jsval" where
  "generated_file_tab block path =
     JObj [(''filePath'', JStr path), (''name'', fileNameFromPath (JStr path)), (''source'', JStr GENERATED_TOOL_LABEL),
       (''browserSource'', FILE_SOURCE_CURRENT), (''sourceTool'', JStr GENERATED_TOOL_LABEL), (''toolUseId'', jget block ''id'')]"

definition tool_generated :: "js_env \<Rightarrow> jsval \<Rightarrow> tool_acc \<Rightarrow> tool_acc" where
  "tool_generated env block a =
     ta_on (\<lambda>d. fxShowSummary
        (foldl (\<lambda>x path. on_fb (openFile (env_now env) (generated_file_tab block path)) x)
          (on_sm (\<lambda>s. s\<lparr>sm_generated := push_new (jget block ''id'') (sm_generated s)\<rparr>) d)
          (getGeneratedInputPaths (block_input block))))
       (ta_hide block a)"

definition OPENCLAW_TOOLS :: "string list" where
  "OPENCLAW_TOOLS = [''delegate_to_openclaw'', ''mcp__priva_openclaw__delegate_to_openclaw'']"

definition TASK_TOOLS :: "string list" where
  "TASK_TOOLS = [''TaskOutput'', ''TaskStop''] @ OPENCLAW_TOOLS"

definition named :: "string list \<Rightarrow> jsval \<Rightarrow> bool" where
  "named names block \<longleftrightarrow> is_str (block_name block) \<and> str_of (block_name block) \<in> set names"

text \<open>The arrow of the description is a code unit above 255 and is written with two characters.\<close>

definition arrow :: string where
  "arrow = ''->''"

definition task_description :: "jsval \<Rightarrow> jsval" where
  "task_description block =
     (let input = block_input block
      in if named OPENCLAW_TOOLS block
         then JStr (''OpenClaw '' @ arrow @ '' '' @ to_str (jor (jget input ''agent_id'') (JStr ''default'')) @ '': ''
                @ to_str (jor (jget input ''task'') (JStr [])))
         else jor (jor (jget input ''description'') (jget input ''command'')) (block_name block))"

definition tool_plain :: "js_env \<Rightarrow> jsval \<Rightarrow> tool_acc \<Rightarrow> tool_acc" where
  "tool_plain env block a =
     ta_push block
       (if jget (block_input block) ''run_in_background'' = JBool True \<or> named TASK_TOOLS block
        then ta_on (on_tasks (addTask (JObj [(''tool_use_id'', jget block ''id''), (''name'', block_name block),
               (''input'', block_input block), (''status'', JStr ''running''), (''startTime'', JNum (env_now env)),
               (''description'', task_description block)]))) a
        else a)"

text \<open>The body of the loop: the branches in the order of the source.\<close>

definition tool_step :: "js_env \<Rightarrow> tool_acc \<Rightarrow> jsval \<Rightarrow> tool_acc" where
  "tool_step env a block =
     (if is_sdk_task block then a
      else if block_name block = JStr ''Workflow'' then tool_workflow block a
      else if is_agent_call block then ta_push block a
      else if block_name block = JStr ''AskUserQuestion'' \<and> truthy (jget (block_input block) ''questions'') then tool_ask env block a
      else if named [''BashOutput'', ''TaskOutput''] block then tool_bash_output block a
      else if block_name block = JStr ''KillBash'' then ta_hide block a
      else if block_name block = JStr ''TodoWrite'' then tool_todo env block a
      else if isPlanWriteTool block then tool_plan block a
      else if block_name block = JStr ''ExitPlanMode'' then ta_hide block a
      else if named [''Write'', ''Edit''] block then tool_file env block a
      else if isGeneratedToolName (block_name block) then tool_generated env block a
      else tool_plain env block a)"

definition main_tools :: "js_env \<Rightarrow> jsval list \<Rightarrow> disp \<Rightarrow> disp" where
  "main_tools env tools d =
     (let ms = c_messages (chat_of d)
      in case find_last_index is_assistant ms of
           None \<Rightarrow> d
         | Some i \<Rightarrow>
             (let m = ms ! i; sdk = list_ex is_sdk_task tools;
                  a = foldl (tool_step env)
                        \<lparr>ta_d = d, ta_blocks = [], ta_content = filter (\<lambda>b. \<not> is_replaced tools b) (content_of m)\<rparr> tools
              in if ta_blocks a \<noteq> [] \<or> sdk \<or> length (ta_content a) \<noteq> length (content_of m)
                 then set_messages (ms[i := jput m ((''content'', JArr (ta_content a @ ta_blocks a))
                        # (if sdk then [(''hasSdkTaskActivity'', JBool True)] else []))]) (ta_d a)
                 else ta_d a))"

definition h_tool_use :: "js_env \<Rightarrow> sb_reconciled list \<Rightarrow> jsval \<Rightarrow> disp \<Rightarrow> disp" where
  "h_tool_use env entries data d0 =
     (if \<not> truthy (jget data ''content'') then d0
      else
        (let (tools, d1) = build_tools env data entries (reconcileNarrativeBlocks data entries d0);
             sdk = filter is_sdk_task tools;
             d2 = foldl (record_sdk_task env) d1 sdk;
             d3 = (if sdk \<noteq> [] then fxShowCanvas (Some ''tasks'') d2 else d2);
             d4 = (if list_ex is_agent_call tools then fxShowSummary d3 else d3);
             d5 = foldl (route_file env data) d4 tools;
             p = key_of (jget data ''parent_tool_use_id'')
         in if tools = [] then d1
            else if p \<noteq> [] then on_ch (subagent_tools p tools) d5
            else main_tools env tools d5))"

section \<open>Handlers: tool results\<close>

definition peer_event_id :: "jsval \<Rightarrow> peer_message \<Rightarrow> string" where
  "peer_event_id data pm =
     (if truthy (jget data ''uuid'') then ''agent-message-'' @ to_str (jget data ''uuid'')
      else ''agent-message-'' @ to_str (jget data ''parent_tool_use_id'') @ ''-'' @ pm_senderName pm @ ''-'' @ pm_body pm)"

definition peer_block :: "js_env \<Rightarrow> string \<Rightarrow> peer_message \<Rightarrow> jsval" where
  "peer_block env i pm =
     JObj [(''type'', JStr ''agent_message''), (''id'', JStr i), (''direction'', JStr ''received''), (''body'', JStr (pm_body pm)),
       (''senderName'', jor (JStr (pm_senderName pm)) JNull), (''timestamp'', JNum (env_now env))]"

definition peer_delivery :: "js_env \<Rightarrow> jsval \<Rightarrow> peer_message \<Rightarrow> disp \<Rightarrow> disp" where
  "peer_delivery env data pm d =
     (let p = to_str (jget data ''parent_tool_use_id''); i = peer_event_id data pm
      in if list_ex (\<lambda>b. jget b ''id'' = JStr i) (sub_blocks (c_subagentContent (chat_of d)) p) then d
         else on_ch (appendToSubagentContent p [peer_block env i pm]) d)"

definition compact_text :: "jsval \<Rightarrow> string" where
  "compact_text content =
     (if is_str content then str_of content
      else (case List.find (\<lambda>rb. is_str (jget rb ''content'') \<and> \<not> truthy (jget rb ''tool_use_id'')) (arr_of content) of
              Some rb \<Rightarrow> str_of (jget rb ''content'')
            | None \<Rightarrow> []))"

definition is_compact_result :: "jsval \<Rightarrow> bool" where
  "is_compact_result data \<longleftrightarrow>
     nullish (jget data ''parent_tool_use_id'')
     \<or> \<not> truthy (jget data ''tool_use_id'')
       \<and> \<not> list_ex (\<lambda>rb. truthy (jget rb ''tool_use_id'')) (arr_of (jget data ''content''))"

definition is_compact_msg :: "jsval \<Rightarrow> bool" where
  "is_compact_msg m \<longleftrightarrow> msg_role m = JStr ''system'' \<and> jget m ''type'' = JStr ''compact''"

definition compact_result :: "string \<Rightarrow> disp \<Rightarrow> disp" where
  "compact_result txt d =
     (if str_includes txt ''<local-command-stdout>'' then on_ch (set_field F_isCompacting (JBool False)) d
      else (let ms = c_messages (chat_of d)
            in case find_last_index is_compact_msg ms of
                 None \<Rightarrow> d
               | Some i \<Rightarrow> set_messages (ms[i := jput (ms ! i) [(''summary'', JStr txt)]]) d))"

definition result_blocks :: "jsval \<Rightarrow> jsval list" where
  "result_blocks data =
     (let content = jget data ''content''
      in if \<not> truthy content then []
         else filter (\<lambda>rb. truthy rb \<and> jget rb ''type'' = JStr ''tool_result'' \<and> truthy (jget rb ''tool_use_id''))
                (if is_arr content then arr_of content else [content]))"

definition drop_ask :: "jsval \<Rightarrow> chat \<Rightarrow> chat" where
  "drop_ask i c =
     (let c1 = c\<lparr>c_messages := map (on_assistant (filter (\<lambda>b. \<not> (is_ask b \<and> jeq (jget b ''toolUseId'') i)))) (c_messages c)\<rparr>
      in if jeq (jget (c_pendingAskUser c) ''toolUseId'') i then set_field F_pendingAskUser JNull c1 else c1)"

definition r_invalid_ask :: "jsval \<Rightarrow> jsval \<Rightarrow> disp \<Rightarrow> disp" where
  "r_invalid_ask tur rb d =
     (if jget rb ''tool_use_id'' \<in> set (sm_askUser (d_sm d)) \<and> isAskUserInputValidationError rb tur
      then on_ch (drop_ask (jget rb ''tool_use_id'')) d else d)"

definition r_pending_file :: "js_env \<Rightarrow> jsval \<Rightarrow> disp \<Rightarrow> bool \<times> disp" where
  "r_pending_file env rb d =
     (let i = jget rb ''tool_use_id''
      in case dget (sm_pendingTabs (d_sm d)) i of
           None \<Rightarrow> (False, d)
         | Some tab \<Rightarrow>
             (let d1 = on_fb (openFile (env_now env) tab) d;
                  d2 = (if isFileToolName (jget tab ''sourceTool'') then fxShowSummary d1 else d1)
              in (True, on_sm (\<lambda>s. s\<lparr>sm_pendingTabs := ddel i (sm_pendingTabs s)\<rparr>) d2)))"

definition finished_status :: "jsval \<Rightarrow> jsval" where
  "finished_status rb = (if truthy (jget rb ''is_error'') then JStr ''error'' else JStr ''success'')"

definition task_result_data :: "js_env \<Rightarrow> jsval \<Rightarrow> jsval \<Rightarrow> jsval \<Rightarrow> jsobj" where
  "task_result_data env tur rb entry =
     (let shell = jor (jget tur ''shellId'') (jget tur ''shell_id'')
      in if block_name entry = JStr ''Bash'' \<and> truthy (jget (block_input entry) ''run_in_background'') \<and> truthy shell
         then [(''status'', JStr ''running''), (''result'', rb), (''toolUseResult'', tur), (''shellId'', shell),
               (''shellStatus'', JStr ''running''), (''liveOutput'', JStr [])]
         else [(''status'', finished_status rb), (''endTime'', JNum (env_now env)), (''result'', rb), (''toolUseResult'', tur)])"

definition stopped_agent :: "js_env \<Rightarrow> jsval \<Rightarrow> jsval \<Rightarrow> jsval" where
  "stopped_agent env tur entry =
     JObj [(''taskId'', jor (jor (jget tur ''task_id'') (jget tur ''taskId'')) (jget (block_input entry) ''task_id'')),
       (''status'', JStr ''killed''), (''summary'', jor (jget tur ''message'') (JStr [])), (''timestamp'', JNum (env_now env))]"

text \<open>\<open>tasks\<close> is the task map read before the loop over the result blocks.\<close>

definition r_task :: "js_env \<Rightarrow> (string, jsval) dict \<Rightarrow> jsval \<Rightarrow> jsval \<Rightarrow> disp \<Rightarrow> disp" where
  "r_task env tasks tur rb d =
     (let i = to_str (jget rb ''tool_use_id'')
      in case dget tasks i of
           None \<Rightarrow> d
         | Some entry \<Rightarrow>
             on_tasks (updateTask i (task_result_data env tur rb entry))
               (if block_name entry = JStr ''TaskStop'' \<and> \<not> isErroredToolResult rb tur
                   \<and> jor (jget tur ''task_type'') (jget tur ''taskType'') = JStr ''local_agent''
                then on_ch (applyAgentTaskNotification env (stopped_agent env tur entry)) d else d))"

definition MAX_LIVE_OUTPUT :: nat where
  "MAX_LIVE_OUTPUT = 200000"

definition truncation_mark :: string where
  "truncation_mark = [ellipsis] @ ''[truncated]'' @ [newline]"

definition capped_output :: "string \<Rightarrow> string" where
  "capped_output s = (if length s > MAX_LIVE_OUTPUT then truncation_mark @ drop (length s - MAX_LIVE_OUTPUT) s else s)"

definition shell_done :: "jsval \<Rightarrow> bool" where
  "shell_done status \<longleftrightarrow> status = JStr ''completed'' \<or> status = JStr ''done''"

definition bash_output_update :: "js_env \<Rightarrow> jsval \<Rightarrow> jsval \<Rightarrow> string \<Rightarrow> task_store \<Rightarrow> task_store" where
  "bash_output_update env tur rb k s =
     (let prevOutput = str_of (jor (jget (task_of s k) ''liveOutput'') (JStr []));
          newOutput = str_of (jget rb ''content'');
          status = jor (jor (jget tur ''status'') (jget tur ''shellStatus'')) (JStr ''running'');
          s1 = updateTask k [(''liveOutput'', JStr (capped_output (prevOutput @ newOutput))),
                 (''shellStatus'', JStr (if shell_done status then ''completed'' else if status = JStr ''failed'' then ''failed'' else ''running''))] s
      in if shell_done status then updateTask k [(''status'', JStr ''success''), (''endTime'', JNum (env_now env))] s1 else s1)"

definition r_bash_output :: "js_env \<Rightarrow> jsval \<Rightarrow> jsval \<Rightarrow> task_store \<Rightarrow> task_store" where
  "r_bash_output env tur rb s =
     (let shell = jor (jget tur ''bash_id'') (jget tur ''bashId'')
      in if \<not> truthy shell then s
         else case find_shell shell s of None \<Rightarrow> s | Some k \<Rightarrow> if k = [] then s else bash_output_update env tur rb k s)"

definition r_kill_bash :: "js_env \<Rightarrow> jsval \<Rightarrow> task_store \<Rightarrow> task_store" where
  "r_kill_bash env tur s =
     (let shell = jor (jget tur ''shell_id'') (jget tur ''shellId'')
      in if \<not> truthy shell then s
         else case find_shell shell s of
                None \<Rightarrow> s
              | Some k \<Rightarrow> if k = [] then s
                  else updateTask k [(''shellStatus'', JStr ''killed''), (''status'', JStr ''error''), (''endTime'', JNum (env_now env))] s)"

definition op_matches :: "jsval \<Rightarrow> jsval \<Rightarrow> bool" where
  "op_matches i op \<longleftrightarrow> jeq (jget op ''id'') i \<or> jget op ''type'' = JStr ''generated'' \<and> jeq (jget op ''toolUseId'') i"

definition op_result :: "js_env \<Rightarrow> jsval \<Rightarrow> jsval \<Rightarrow> jsobj" where
  "op_result env tur rb =
     [(''status'', if isErroredToolResult rb tur then JStr ''error'' else JStr ''success''), (''endTime'', JNum (env_now env)),
      (''content'', or_null (jor (jget tur ''content'') (jget tur ''new_content''))),
      (''originalFile'', or_null (jor (jget tur ''original_file'') (jget tur ''originalFile''))),
      (''structuredPatch'', or_null (jor (jget tur ''structured_patch'') (jget tur ''structuredPatch''))),
      (''resultContent'', if is_str (jget rb ''content'') then jget rb ''content'' else JNull), (''toolUseResult'', tur)]"

definition op_tab :: "jsval \<Rightarrow> jsval" where
  "op_tab op =
     JObj [(''filePath'', jget op ''filePath''), (''name'', fileNameFromPath (jget op ''filePath'')),
       (''source'', browserSourceLabel FILE_SOURCE_CURRENT), (''browserSource'', FILE_SOURCE_CURRENT),
       (''sourceTool'', JStr (if jget op ''type'' = JStr ''edit'' then ''Edit'' else ''Write'')), (''toolUseId'', jget op ''id'')]"

definition complete_op :: "js_env \<Rightarrow> jsval \<Rightarrow> jsval \<Rightarrow> bool \<Rightarrow> disp \<Rightarrow> jsval \<Rightarrow> disp" where
  "complete_op env tur rb handled d op =
     (let d1 = on_ops (updateFileOp (jget op ''id'') (op_result env tur rb)) d
      in if (jget op ''type'' = JStr ''write'' \<or> jget op ''type'' = JStr ''edit'') \<and> \<not> handled \<and> truthy (jget op ''filePath'')
         then on_fb (openFile (env_now env) (op_tab op)) d1 else d1)"

definition generated_detail :: "file_ops \<Rightarrow> jsval \<times> jsval \<Rightarrow> file_ops" where
  "generated_detail s p =
     (let (op, f) = p
      in if \<not> truthy f then s
         else updateFileOp (jget op ''id'')
           [(''filePath'', jor (jget f ''path'') (jget op ''filePath'')), (''relativePath'', or_null (jget f ''relative_path'')),
            (''mimeType'', or_null (jget f ''mime_type'')),
            (''size'', if is_num (jget f ''size'') \<or> jget f ''size'' = JNaN then jget f ''size'' else JNull),
            (''extension'', or_null (jget f ''extension''))] s)"

definition r_file_ops :: "js_env \<Rightarrow> jsval \<Rightarrow> jsval \<Rightarrow> bool \<Rightarrow> disp \<Rightarrow> disp" where
  "r_file_ops env tur0 rb handled d =
     (let ops = filter (op_matches (jget rb ''tool_use_id'')) (fo_fileOps (d_ops d)); tur = jor tur0 (JObj []);
          d1 = foldl (complete_op env tur rb handled) d ops;
          generated = sort_key (\<lambda>op. num_of (jor (jget op ''sourceIndex'') (JNum 0)))
            (filter (\<lambda>op. jget op ''type'' = JStr ''generated'') ops)
      in if ops = [] then d else on_ops (\<lambda>s. foldl generated_detail s (zip generated (arr_of (jget tur ''files'')))) d1)"

definition r_generated :: "js_env \<Rightarrow> jsval \<Rightarrow> jsval \<Rightarrow> disp \<Rightarrow> disp" where
  "r_generated env tur rb d =
     (let i = jget rb ''tool_use_id''; files = arr_of (jget (jor tur (JObj [])) ''files'')
      in if i \<notin> set (sm_generated (d_sm d)) then d
         else (let d1 = foldl (\<lambda>x f. on_fb (openFile (env_now env) f) x) d
                      (fileTabsFromGeneratedFiles (JArr files) FILE_SOURCE_CURRENT i)
               in if files \<noteq> [] then fxShowSummary d1 else d1))"

definition r_todo :: "js_env \<Rightarrow> jsval \<Rightarrow> jsval \<Rightarrow> disp \<Rightarrow> disp" where
  "r_todo env tur rb d =
     (if jget rb ''tool_use_id'' \<notin> set (sm_todoWrite (d_sm d)) then d
      else
        (let d1 = on_tasks (setTodoWriteInfo [(''status'', finished_status rb), (''endTime'', JNum (env_now env)), (''result'', rb)]) d
         in case extractTodos env rb tur of
              None \<Rightarrow> d1
            | Some todos \<Rightarrow> fxShowCanvas None (on_tasks (setTodos todos) d1)))"

definition result_step :: "js_env \<Rightarrow> (string, jsval) dict \<Rightarrow> jsval \<Rightarrow> disp \<Rightarrow> jsval \<Rightarrow> disp" where
  "result_step env tasks tur d rb =
     (let i = jget rb ''tool_use_id'';
          d1 = r_invalid_ask tur rb (on_tasks (tk_toolResult env (to_str i) rb tur) d);
          (handled, d2) = r_pending_file env rb d1;
          d3 = (if i \<in> set (sm_hidden (d_sm d2)) then d2 else on_ch (updateToolResult env i rb tur) d2);
          d4 = r_task env tasks tur rb d3;
          d5 = on_tasks (\<lambda>s. r_kill_bash env (jor tur (JObj [])) (r_bash_output env (jor tur (JObj [])) rb s)) d4
      in r_todo env tur rb (r_generated env tur rb (r_file_ops env tur rb handled d5)))"

definition todo_fallback :: "jsval \<Rightarrow> disp \<Rightarrow> disp" where
  "todo_fallback tur d =
     (if truthy tur \<and> is_arr (todo_items tur) \<and> arr_of (tk_todos (d_tasks d)) = []
      then fxShowCanvas None (on_tasks (setTodos (todo_items tur)) d) else d)"

definition plain_results :: "js_env \<Rightarrow> jsval \<Rightarrow> disp \<Rightarrow> disp" where
  "plain_results env data d =
     (let tur = jget data ''tool_use_result''
      in todo_fallback tur (foldl (result_step env (tk_tasks (d_tasks d)) tur) d (result_blocks data)))"

definition h_tool_result :: "js_env \<Rightarrow> jsval \<Rightarrow> disp \<Rightarrow> disp" where
  "h_tool_result env data d =
     (case (if truthy (jget data ''parent_tool_use_id'') then parseAgentMessageEnvelope (jget data ''content'') else None) of
        Some pm \<Rightarrow> peer_delivery env data pm d
      | None \<Rightarrow>
          (let txt = compact_text (jget data ''content'')
           in if truthy (c_isCompacting (chat_of d)) \<and> txt \<noteq> [] \<and> is_compact_result data then compact_result txt d
              else plain_results env data d))"

section \<open>Handlers: the result of a run\<close>

text \<open>\<^verbatim>\<open>Number(v)\<close> for a duration: numbers, and strings through the environment's conversion.\<close>

definition to_number :: "js_env \<Rightarrow> jsval \<Rightarrow> int option" where
  "to_number env v =
     (case v of JNum n \<Rightarrow> Some n | JNull \<Rightarrow> Some 0 | JBool b \<Rightarrow> Some (if b then 1 else 0)
      | JStr s \<Rightarrow> env_str_num env s | _ \<Rightarrow> None)"

definition result_duration :: "js_env \<Rightarrow> stream \<Rightarrow> jsval \<Rightarrow> jsval" where
  "result_duration env s data =
     (case to_number env (jget data ''duration_ms'') of
        Some n \<Rightarrow> if n \<ge> 0 then JNum n else JNum (env_now env - sm_startTime s)
      | None \<Rightarrow> JNum (env_now env - sm_startTime s))"

definition result_message :: "js_env \<Rightarrow> stream \<Rightarrow> jsval \<Rightarrow> jsval \<Rightarrow> jsval" where
  "result_message env s data m =
     (let provider = or_null (jor (sm_activeMsg s) (jget m ''_activeProviderMessageId''))
      in jput m
           [(''_activeProviderMessageId'', provider), (''_resultProviderMessageId'', provider),
            (''duration'', result_duration env s data),
            (''inputTokens'', jget (jget data ''usage'') ''input_tokens''), (''outputTokens'', jget (jget data ''usage'') ''output_tokens''),
            (''agentLoops'', jget data ''num_turns''), (''resultReceived'', JBool True),
            (''resultText'', if is_str (jget data ''result'') then jget data ''result'' else JNull),
            (''resultIsError'', JBool (jget data ''is_error'' = JBool True)), (''resultSubtype'', or_null (jget data ''subtype''))])"

definition upd_last :: "(jsval \<Rightarrow> jsval) \<Rightarrow> jsval list \<Rightarrow> jsval list" where
  "upd_last f ms = (if ms = [] then ms else butlast ms @ [f (last ms)])"

definition h_result :: "js_env \<Rightarrow> jsval \<Rightarrow> disp \<Rightarrow> disp" where
  "h_result env data d0 =
     (let d1 = lock_mode (jget data ''run_mode'') (sm_runModeAtSend (d_sm d0)) d0;
          d2 = (if is_assistant (last_msg (c_messages (chat_of d1)))
                then set_messages (upd_last (result_message env (d_sm d1) data) (c_messages (chat_of d1))) d1 else d1);
          sid = jget data ''session_id'';
          d3 = adoptSessionId env (key_of sid) d2;
          d4 = (if truthy sid \<and> \<not> truthy (sm_sessionIdAtSend (d_sm d3)) \<and> c_addDirs (chat_of d3) \<noteq> []
                then out_fx (FxSetAddDirs sid (c_addDirs (chat_of d3))) d3 else d3);
          d5 = on_ch (set_field F_isCompacting (JBool False)) d4;
          d6 = d5\<lparr>d_ui := setLastResult data (d_ui d5)\<rparr>
      in if truthy sid
         then out_fx (FxSidebarUpdate (jor (rt_sidebarRowId (rt_of d6)) sid)
                (JObj [(''sessionId'', sid), (''cost'', jget data ''total_cost_usd''), (''duration'', jget data ''duration_ms'')])) d6
         else d6)"

section \<open>Handlers: background tasks\<close>

text \<open>
  The task events arrive flat or nested under \<^verbatim>\<open>data.data\<close> of a system message; the source has the same code
  twice, with \<open>t\<close> the event's own object.
\<close>

definition start_fields :: "jsval \<Rightarrow> jsval" where
  "start_fields t =
     (let inner = jor (jget t ''data'') (JObj [])
      in JObj [(''taskId'', jget t ''task_id''), (''description'', jcoal (jget t ''description'') (jget inner ''description'')),
           (''workflowName'', jcoal (jget inner ''workflow_name'') (jget t ''workflow_name'')),
           (''script'', jcoal (jget inner ''prompt'') (jget t ''prompt''))])"

definition known_task :: "task_store \<Rightarrow> jsval \<Rightarrow> bool" where
  "known_task s i \<longleftrightarrow> truthy i \<and> truthy (task_of s (to_str i))"

definition started_task :: "js_env \<Rightarrow> jsval \<Rightarrow> jsval \<Rightarrow> jsval" where
  "started_task env t i =
     JObj [(''tool_use_id'', i), (''name'', JStr ''Task''), (''description'', jor (jget t ''description'') (JStr ''Task'')),
       (''status'', JStr ''running''), (''startTime'', JNum (env_now env)), (''task_id'', jget t ''task_id''),
       (''task_type'', jget t ''task_type'')]"

definition t_task_started :: "js_env \<Rightarrow> jsval \<Rightarrow> disp \<Rightarrow> disp" where
  "t_task_started env t d =
     (let toolUseId = jget t ''tool_use_id''; typ = jget t ''task_type''
      in if typ = JStr ''local_workflow''
         then fxShowCanvas (Some ''tasks'') (on_wf (applyStart (env_now env) (key_of toolUseId) (start_fields t)) d)
         else if known_task (d_tasks d) toolUseId
         then on_tasks (\<lambda>s. updateTask (to_str toolUseId)
                [(''task_id'', jget t ''task_id''),
                 (''description'', jor (jget t ''description'') (jget (task_of s (to_str toolUseId)) ''description'')),
                 (''task_type'', typ), (''status'', JStr ''running'')] s) d
         else (let i = jor toolUseId (jget t ''task_id'')
               in if truthy i \<and> typ \<noteq> JStr ''local_bash''
                  then (if typ = JStr ''local_agent'' then fxShowSummary else fxShowCanvas None)
                         (on_tasks (addTask (started_task env t i)) d)
                  else d))"

definition find_task :: "jsval \<Rightarrow> jsval \<Rightarrow> task_store \<Rightarrow> string option" where
  "find_task toolUseId taskId s =
     (if known_task s toolUseId then Some (to_str toolUseId)
      else case List.find (\<lambda>(k, t). jeq (jget t ''task_id'') taskId) (tk_tasks s) of
             Some (k, _) \<Rightarrow> if k = [] then None else Some k
           | None \<Rightarrow> None)"

definition progress_list :: "jsval \<Rightarrow> jsval option" where
  "progress_list t =
     (let inner = jor (jget t ''data'') (JObj [])
      in if is_arr (jget inner ''workflow_progress'') then Some (jget inner ''workflow_progress'')
         else if is_arr (jget t ''workflow_progress'') then Some (jget t ''workflow_progress'') else None)"

definition progress_fields :: "jsval \<Rightarrow> jsval \<Rightarrow> jsval" where
  "progress_fields t wp =
     (let inner = jor (jget t ''data'') (JObj [])
      in JObj [(''taskId'', jget t ''task_id''), (''usage'', jcoal (jget t ''usage'') (jget inner ''usage'')),
           (''summary'', jcoal (jget inner ''summary'') (jget t ''summary'')),
           (''lastToolName'', jcoal (jget t ''last_tool_name'') (jget inner ''last_tool_name'')), (''workflowProgress'', wp)])"

definition t_task_progress :: "js_env \<Rightarrow> jsval \<Rightarrow> disp \<Rightarrow> disp" where
  "t_task_progress env t d =
     (case progress_list t of
        Some wp \<Rightarrow> fxShowCanvas None (on_wf (applyProgress (key_of (jget t ''tool_use_id'')) (progress_fields t wp)) d)
      | None \<Rightarrow>
          (case find_task (jget t ''tool_use_id'') (jget t ''task_id'') (d_tasks d) of
             None \<Rightarrow> d
           | Some k \<Rightarrow> on_tasks (\<lambda>s. updateTask k
               [(''progress'', jget t ''data''), (''description'', jor (jget t ''description'') (jget (task_of s k) ''description'')),
                (''last_tool_name'', jget t ''last_tool_name'')] s) d))"

definition t_task_notification :: "js_env \<Rightarrow> jsval \<Rightarrow> disp \<Rightarrow> disp" where
  "t_task_notification env t d0 =
     (let toolUseId = jget t ''tool_use_id''; taskId = jget t ''task_id'';
          d = on_ch (applyAgentTaskNotification env (JObj [(''toolUseId'', toolUseId), (''taskId'', taskId),
                (''status'', jget t ''status''), (''summary'', jget t ''summary''), (''timestamp'', JNum (env_now env))])) d0
      in case resolveId (d_wf d) (key_of toolUseId) (key_of taskId) of
           Some wfId \<Rightarrow> on_wf (\<lambda>w. snd (markCompletion (env_now env) wfId (JObj [(''rawStatus'', jget t ''status''),
                (''source'', JStr ''task_notification''), (''summary'', jget t ''summary'')]) w)) d
         | None \<Rightarrow>
             (case find_task toolUseId taskId (d_tasks d) of
                None \<Rightarrow> d
              | Some k \<Rightarrow>
                  (let status = jor (jget t ''status'') (JStr ''success'')
                   in on_tasks (updateTask k [(''status'', if status = JStr ''completed'' then JStr ''success'' else status),
                        (''summary'', jget t ''summary''), (''endTime'', JNum (env_now env))]) d)))"

definition t_task_updated :: "js_env \<Rightarrow> jsval \<Rightarrow> disp \<Rightarrow> disp" where
  "t_task_updated env data d0 =
     (let nst = jor (jget data ''data'') (JObj []);
          patch = jor (jor (jget nst ''patch'') (jget data ''patch'')) (JObj []);
          taskId = jor (jget nst ''task_id'') (jget data ''task_id''); status = jget patch ''status'';
          endTime = jor (jget patch ''end_time'') (JNum (env_now env));
          d = (if isTerminalRawStatus status
               then on_ch (applyAgentTaskNotification env (JObj [(''taskId'', taskId), (''status'', status), (''timestamp'', endTime)])) d0
               else d0)
      in case resolveId (d_wf d) [] (key_of taskId) of
           Some wfId \<Rightarrow> on_wf (\<lambda>w. snd (markCompletion (env_now env) wfId (JObj [(''rawStatus'', status),
                (''source'', JStr ''task_updated''), (''endedAt'', jget patch ''end_time'')]) w)) d
         | None \<Rightarrow>
             (case find_task JUndef taskId (d_tasks d) of
                Some k \<Rightarrow> if isTerminalRawStatus status
                  then on_tasks (updateTask k [(''status'', JStr (rawToTaskStatus status)), (''endTime'', endTime)]) d else d
              | None \<Rightarrow> d))"

section \<open>Handlers: system messages\<close>

definition compacting_message :: "js_env \<Rightarrow> jsval" where
  "compacting_message env =
     JObj [(''role'', JStr ''system''), (''type'', JStr ''compact''), (''status'', JStr ''compacting''), (''timestamp'', JNum (env_now env))]"

definition compact_boundary :: "jsval \<Rightarrow> disp \<Rightarrow> disp" where
  "compact_boundary nst d =
     (let metadata = jor (jget nst ''compact_metadata'') (JObj []); ms = c_messages (chat_of d)
      in case find_index (\<lambda>m. is_compact_msg m \<and> jget m ''status'' = JStr ''compacting'') ms of
           None \<Rightarrow> d
         | Some i \<Rightarrow> set_messages (ms[i := jput (ms ! i) [(''status'', JStr ''complete''),
             (''compactMetadata'', JObj [(''trigger'', jor (jget metadata ''trigger'') (JStr ''manual'')),
                (''preTokens'', jor (jget metadata ''pre_tokens'') (JNum 0))])]]) d)"

definition h_system :: "js_env \<Rightarrow> jsval \<Rightarrow> disp \<Rightarrow> disp" where
  "h_system env data d =
     (let subtype = jget data ''subtype''; nst = jor (jget data ''data'') (JObj [])
      in if subtype = JStr ''task_started'' then t_task_started env nst d
         else if subtype = JStr ''task_progress'' then t_task_progress env nst d
         else if subtype = JStr ''task_notification'' then t_task_notification env nst d
         else if subtype = JStr ''task_updated'' then t_task_updated env data d
         else if subtype = JStr ''status''
         then (if jget nst ''status'' = JStr ''compacting''
               then on_w (addMessage (compacting_message env)) (on_ch (set_field F_isCompacting (JBool True)) d) else d)
         else if subtype = JStr ''compact_boundary'' then compact_boundary nst d
         else if subtype = JStr ''init'' then adoptSessionId env (key_of (jget nst ''session_id'')) d
         else d)"

section \<open>Handlers: queued messages\<close>

definition image_block :: "jsval \<Rightarrow> jsval" where
  "image_block img =
     JObj [(''type'', JStr ''image''),
       (''source'', JObj [(''type'', JStr ''base64''), (''media_type'', jget img ''media_type''), (''data'', jget img ''data'')]),
       (''filename'', jget img ''filename'')]"

definition prompt_message :: "js_env \<Rightarrow> jsval list \<Rightarrow> jsval list \<Rightarrow> jsval \<Rightarrow> jsval" where
  "prompt_message env images texts attachmentsMeta =
     set_if (arr_of attachmentsMeta \<noteq> []) ''attachments'' attachmentsMeta
       (JObj [(''role'', JStr ''user''), (''content'', JArr (map image_block images @ texts)), (''timestamp'', JNum (env_now env))])"

definition h_queue_flush :: "js_env \<Rightarrow> jsval \<Rightarrow> disp \<Rightarrow> disp" where
  "h_queue_flush env data d =
     (let qid = jget data ''id'';
          queued = (case List.find (\<lambda>m. jeq (jget m ''id'') qid) (c_queuedUserMessages (chat_of d)) of Some m \<Rightarrow> m | None \<Rightarrow> JUndef);
          txt = jor (jor (jget data ''text'') (jget queued ''text'')) (JStr []);
          texts = (if truthy txt then [JObj [(''type'', JStr ''text''), (''text'', txt)]] else []);
          userMsg = prompt_message env (arr_of (jget queued ''images'')) texts (jor (jget queued ''attachmentsMeta'') JNull);
          d1 = on_tasks (tk_beginRound (env_now env)
                 (JObj [(''title'', jor txt (JStr ''Image prompt'')), (''startedAt'', JNum (env_now env))])) d
      in on_ch (removeQueuedMessage qid) (on_w (addMessage (fresh_assistant env)) (on_w (addMessage userMsg) d1)))"

definition remove_queued :: "jsval \<Rightarrow> disp \<Rightarrow> disp" where
  "remove_queued data d = (if truthy (jget data ''id'') then on_ch (removeQueuedMessage (jget data ''id'')) d else d)"

section \<open>Handlers: errors\<close>

definition retry_info :: "jsval \<Rightarrow> jsval" where
  "retry_info data =
     JObj [(''attempt'', jget data ''attempt''), (''max'', jget data ''max_attempts''),
       (''delaySeconds'', jor (jget data ''delay_seconds'') (JNum 0)), (''errorCode'', or_null (jget data ''error_code'')),
       (''message'', or_null (jget data ''message''))]"

text \<open>
  The common part of the three terminal errors. \<open>ms\<close> are the messages read at the start of the event, before
  the running tools are aborted.
\<close>

definition failed_message :: "jsval \<Rightarrow> jsval \<Rightarrow> jsval" where
  "failed_message errorInfo m = jput m [(''is_synthetic'', JBool True), (''error'', JBool True), (''errorInfo'', errorInfo)]"

definition fail_stream :: "js_env \<Rightarrow> jsval list \<Rightarrow> jsval \<Rightarrow> disp \<Rightarrow> disp" where
  "fail_stream env ms errorInfo d =
     (let d1 = on_ch (\<lambda>c. abortRunningTools env (JStr ''failed'') (set_field F_streamAbort JNull (set_field F_isStreaming (JBool False) c))) d;
          d2 = on_wf (ws_abortRunning (env_now env)) (on_tasks (abortRunningTasks (env_now env)) d1);
          d3 = (if is_assistant (last_msg ms) then set_messages (upd_last (failed_message errorInfo) ms) d2 else d2);
          d4 = on_ch markCurrentResponseInterrupted d3
      in set_status env (terminalStatusFor d4) d4)"

definition error_level :: "jsval \<Rightarrow> string" where
  "error_level data = (if jget data ''api_error_status'' = JNum 429 then ''warning'' else ''error'')"

definition h_retry_exhausted :: "(string \<Rightarrow> jsval \<Rightarrow> string) \<Rightarrow> js_env \<Rightarrow> jsval list \<Rightarrow> jsval \<Rightarrow> disp \<Rightarrow> disp" where
  "h_retry_exhausted t env ms data d =
     push_toast env (error_level data) (t ''chat.upstreamErrorTitle'' JUndef)
       (jor (jget data ''message'') (JStr (t ''chat.retriesExhausted'' JUndef)))
       (fail_stream env ms (JObj [(''code'', jor (jget data ''error_code'') (JStr ''unknown'')), (''attempts'', jget data ''attempts''),
          (''message'', jget data ''message''), (''raw_detail'', or_null (jget data ''raw_detail'')),
          (''api_error_status'', jcoal (jget data ''api_error_status'') JNull)])
         (on_ch (set_field F_retryState JNull) d))"

definition h_stream_error :: "(string \<Rightarrow> jsval \<Rightarrow> string) \<Rightarrow> js_env \<Rightarrow> jsval list \<Rightarrow> jsval \<Rightarrow> disp \<Rightarrow> disp" where
  "h_stream_error t env ms data d =
     push_toast env (error_level data)
       (t ''chat.streamErrorTitle'' JUndef @ (if truthy (jget data ''code'') then '' ('' @ to_str (jget data ''code'') @ '')'' else []))
       (jor (jget data ''message'') (JStr (t ''chat.streamEnded'' JUndef)))
       (fail_stream env ms (JObj [(''code'', jor (jget data ''code'') (JStr ''unknown'')), (''attempts'', JNum 1),
          (''message'', jor (jget data ''message'') (JStr ''Stream error'')),
          (''api_error_status'', jcoal (jget data ''api_error_status'') JNull)])
         (on_ch (set_field F_retryState JNull) d))"

definition h_error :: "(string \<Rightarrow> jsval \<Rightarrow> string) \<Rightarrow> js_env \<Rightarrow> jsval list \<Rightarrow> jsval \<Rightarrow> disp \<Rightarrow> disp" where
  "h_error t env ms data d =
     push_toast env ''error'' (t ''connection.errorTitle'' JUndef) (jor (jget data ''message'') (JStr (t ''connection.lost'' JUndef)))
       (fail_stream env ms (JObj [(''code'', JStr ''transport''), (''attempts'', JNum 1), (''message'', jget data ''message'')]) d)"

definition h_rate_limit :: "(string \<Rightarrow> jsval \<Rightarrow> string) \<Rightarrow> js_env \<Rightarrow> jsval \<Rightarrow> disp \<Rightarrow> disp" where
  "h_rate_limit t env data d =
     (if jget data ''status'' = JStr ''allowed'' \<or> jget data ''status'' = JStr ''allowed_warning''
      then push_toast env ''warning'' (t ''chat.rateLimitedTitle'' JUndef)
             (if truthy (jget data ''resets_at'') then JStr (t ''chat.rateLimitResets'' (jget data ''resets_at'')) else JUndef) d
      else d)"

end
