(* ===== verification/StreamRun.thy ===== *)
theory StreamRun
  imports Dispatcher
begin

text \<open>
  The life of a stream in \<^verbatim>\<open>web/user/src/hooks/useSSE.js\<close>: \<^verbatim>\<open>startStream\<close>, the event handler \<^verbatim>\<open>onEvent\<close> over the
  handlers of the theory \<open>Dispatcher\<close>, \<^verbatim>\<open>onComplete\<close>, stopping a stream, and the answers to questions and
  permission requests. \<open>t\<close> is the text catalogue (\<^verbatim>\<open>i18n.t\<close> with its parameter). The functions a
  transport returns are references, given to \<open>startStream\<close>.
\<close>

section \<open>Starting a stream\<close>

record send_request =
  rq_message :: jsval
  rq_permissionMode :: jsval
  rq_attachments :: jsval
  rq_attachmentsMeta :: jsval
  rq_images :: jsval
  rq_displayImages :: jsval

record transport =
  tp_abort :: nat
  tp_sendPermission :: nat
  tp_queueSender :: jsval

definition new_stream :: "nat \<Rightarrow> jsval \<Rightarrow> jsval \<Rightarrow> jsval \<Rightarrow> bool \<Rightarrow> int \<Rightarrow> stream" where
  "new_stream gen activeMsg sessionIdAtSend runModeAtSend attach now =
     \<lparr>sm_gen = gen, sm_groupSeq = 0, sm_activeMsg = activeMsg, sm_hidden = [], sm_askUser = [], sm_generated = [],
      sm_pendingTabs = dempty, sm_todoWrite = [], sm_pendingHooks = dempty, sm_groups = dempty, sm_seen = [],
      sm_finalized = [], sm_asm = createStreamingBlockAssembler True, sm_announced = truthy sessionIdAtSend,
      sm_sessionIdAtSend = sessionIdAtSend, sm_runModeAtSend = runModeAtSend, sm_startTime = now, sm_attach = attach,
      sm_retryTimers = 0\<rparr>"

definition run_mode_at_send :: "jsval \<Rightarrow> jsval \<Rightarrow> chat \<Rightarrow> jsval" where
  "run_mode_at_send settings sessionIdAtSend c =
     (if truthy sessionIdAtSend then normalizeRunMode (c_runMode c) (JStr ''code'')
      else normalizeRunMode (c_runMode c) (jget settings ''draftRunMode''))"

definition last_prompt :: "send_request \<Rightarrow> jsval" where
  "last_prompt rq =
     JObj [(''message'', rq_message rq), (''permissionMode'', rq_permissionMode rq), (''attachments'', rq_attachments rq),
       (''attachmentsMeta'', rq_attachmentsMeta rq), (''images'', rq_images rq), (''displayImages'', rq_displayImages rq)]"

definition send_prompt :: "js_env \<Rightarrow> send_request \<Rightarrow> disp \<Rightarrow> disp" where
  "send_prompt env rq d =
     (let d1 = on_ch (\<lambda>c. set_field F_retryState JNull (set_field F_lastUserPrompt (last_prompt rq) c)) d;
          d2 = on_tasks (tk_beginRound (env_now env)
                 (JObj [(''title'', rq_message rq), (''startedAt'', JNum (env_now env))])) d1;
          userMsg = prompt_message env (arr_of (jcoal (rq_displayImages rq) (rq_images rq)))
            [JObj [(''type'', JStr ''text''), (''text'', rq_message rq)]] (rq_attachmentsMeta rq)
      in on_w (addMessage (fresh_assistant env)) (on_w (addMessage userMsg) d2))"

definition bind_transport :: "transport \<Rightarrow> chat \<Rightarrow> chat" where
  "bind_transport tp c =
     set_field F_queueSender (tp_queueSender tp)
       (set_field F_wsSendPermission (JFun (tp_sendPermission tp)) (set_field F_streamAbort (JFun (tp_abort tp)) c))"

definition begin_stream :: "js_env \<Rightarrow> jsval \<Rightarrow> jsval \<Rightarrow> bool \<Rightarrow> disp \<Rightarrow> disp" where
  "begin_stream env sessionIdAtSend runModeAtSend attach d =
     (let d1 = set_status env ''running'' (on_ch (set_field F_isStreaming (JBool True)) d)
      in d1\<lparr>d_sm := (new_stream (c_streamGeneration (chat_of d1))
             (or_null (jget (last_assistant (c_messages (chat_of d1))) ''_activeProviderMessageId''))
             sessionIdAtSend runModeAtSend attach (env_now env))\<lparr>sm_retryTimers := sm_retryTimers (d_sm d)\<rparr>\<rparr>)"

text \<open>The parameters of \<^verbatim>\<open>streamAgentRunWS\<close>.\<close>

definition run_request :: "jsval \<Rightarrow> send_request \<Rightarrow> jsval \<Rightarrow> jsval \<Rightarrow> chat \<Rightarrow> jsval" where
  "run_request settings rq sessionIdAtSend runModeAtSend c =
     JObj [(''message'', rq_message rq), (''sessionId'', sessionIdAtSend), (''permissionMode'', rq_permissionMode rq),
       (''model'', case modelReferenceForRequest (jget settings ''selectedModel'') (jget settings ''selectedModelCapabilities'')
            (jget settings ''profiles'') (jget settings ''defaultProfileId'') of Some r \<Rightarrow> JStr r | None \<Rightarrow> JNull),
       (''attachments'', rq_attachments rq), (''mcpServers'', c_mcpServers c), (''images'', rq_images rq),
       (''enableFileCheckpointing'', c_enableFileCheckpointing c),
       (''cwd'', if truthy sessionIdAtSend then JNull else jor (c_cwdDraft c) JNull), (''addDirs'', JArr (c_addDirs c)),
       (''runMode'', runModeAtSend)]"

definition startStream :: "js_env \<Rightarrow> jsval \<Rightarrow> transport \<Rightarrow> send_request \<Rightarrow> disp \<Rightarrow> bool \<times> disp" where
  "startStream env settings tp rq d =
     (let c = chat_of d
      in if truthy (c_isStreaming c) \<and> truthy (c_streamAbort c) then (False, d)
         else (let sid = c_sessionId c; mode = run_mode_at_send settings sid c;
                   d1 = on_ch (\<lambda>c. clearPromptSuggestion (lockRunMode mode c)) d;
                   d2 = begin_stream env sid mode False (send_prompt env rq d1)
               in (True, on_ch (bind_transport tp) (out_fx (FxOpenRun (run_request settings rq sid mode (chat_of d2))) d2))))"

definition attachStream :: "js_env \<Rightarrow> jsval \<Rightarrow> transport \<Rightarrow> string \<Rightarrow> disp \<Rightarrow> disp" where
  "attachStream env settings tp sessionId d =
     (let c = chat_of d; sid = jor (JStr sessionId) (c_sessionId c)
      in on_ch (bind_transport tp) (out_fx (FxAttachRun sessionId) (begin_stream env sid (run_mode_at_send settings sid c) True d)))"

definition attachToRunningSession :: "js_env \<Rightarrow> jsval \<Rightarrow> transport \<Rightarrow> string \<Rightarrow> disp \<Rightarrow> disp" where
  "attachToRunningSession env settings tp sessionId d =
     (if sessionId = [] \<or> truthy (c_isStreaming (chat_of d)) then d else attachStream env settings tp sessionId d)"

section \<open>Events\<close>

definition STREAM_FLUSH_BOUNDARY_EVENTS :: "string list" where
  "STREAM_FLUSH_BOUNDARY_EVENTS =
     [''user_message'', ''assistant'', ''tool_use'', ''tool_result'', ''result'', ''queue_flush'', ''retry_exhausted'',
      ''stream_error'', ''error'']"

definition is_stale :: "disp \<Rightarrow> bool" where
  "is_stale d \<longleftrightarrow> c_streamGeneration (chat_of d) \<noteq> sm_gen (d_sm d)"

definition dispose_quietly :: "disp \<Rightarrow> disp" where
  "dispose_quietly d = on_sm (\<lambda>s. s\<lparr>sm_asm := dispose False (sm_asm s)\<rparr>) d"

definition ev_stream_event :: "js_env \<Rightarrow> jsval \<Rightarrow> disp \<Rightarrow> disp" where
  "ev_stream_event env data d =
     (let d1 = (if jget (jget data ''event'') ''type'' = JStr ''message_start'' \<and> \<not> truthy (jget data ''parent_tool_use_id'')
                then beginMainProviderMessage (jget (jget (jget data ''event'') ''message'') ''id'') d else d)
      in with_asm (snd (accept (env_now env) (env_parse_json env) data (sm_asm (d_sm d1)))) d1)"

definition replay_gap :: "string \<Rightarrow> jsval \<Rightarrow> disp \<Rightarrow> disp" where
  "replay_gap event data d =
     (if event = ''attach_ok'' \<and> truthy (jget data ''replay_gap'')
      then on_ch clearUnfinishedStreamBlocks (on_sm (\<lambda>s. s\<lparr>sm_asm := resetForReplayGap (sm_asm s)\<rparr>) d) else d)"

definition flush_boundary :: "string \<Rightarrow> disp \<Rightarrow> disp" where
  "flush_boundary event d =
     (if event \<in> set STREAM_FLUSH_BOUNDARY_EVENTS then with_asm (snd (flush (sm_asm (d_sm d)))) d else d)"

definition is_envelope :: "string \<Rightarrow> bool" where
  "is_envelope event \<longleftrightarrow> event = ''assistant'' \<or> event = ''tool_use''"

definition restore_provider :: "string \<Rightarrow> jsval \<Rightarrow> disp \<Rightarrow> disp" where
  "restore_provider event data d =
     (if is_envelope event \<and> \<not> truthy (jget data ''parent_tool_use_id'') \<and> truthy (jget data ''message_id'')
      then beginMainProviderMessage (jget data ''message_id'') d else d)"

definition reconcile_envelope :: "js_env \<Rightarrow> string \<Rightarrow> jsval \<Rightarrow> disp \<Rightarrow> sb_reconciled list \<times> disp" where
  "reconcile_envelope env event data d =
     (if is_envelope event
      then (let (entries, a) = reconcileAssistant (env_now env) data (sm_asm (d_sm d)) in (entries, with_asm a d))
      else ([], d))"

definition handle ::
  "(string \<Rightarrow> jsval \<Rightarrow> string) \<Rightarrow> js_env \<Rightarrow> sb_reconciled list \<Rightarrow> jsval list \<Rightarrow> string \<Rightarrow> jsval \<Rightarrow> disp \<Rightarrow> disp" where
  "handle t env entries ms event data =
     (if event = ''stream_init'' then h_stream_init data
      else if event = ''attach_ok'' then h_attach_ok env data
      else if event = ''attach_error'' then h_attach_error env
      else if event = ''user_message'' then h_user_message env data
      else if event = ''permission_request'' then h_permission_request env ms data
      else if event = ''permission_timeout'' \<or> event = ''permission_resolved'' then h_permission_settled env data
      else if event = ''assistant'' then h_assistant env entries data
      else if event = ''tool_use'' then h_tool_use env entries data
      else if event = ''tool_result'' then h_tool_result env data
      else if event = ''result'' then h_result env data
      else if event = ''prompt_suggestion'' then on_ch (setPromptSuggestion (jget data ''suggestion''))
      else if event = ''task_started'' then t_task_started env data
      else if event = ''task_progress'' then t_task_progress env data
      else if event = ''task_notification'' then t_task_notification env data
      else if event = ''hook_event'' then h_hook_event data
      else if event = ''system'' then h_system env data
      else if event = ''queue_flush'' then h_queue_flush env data
      else if event = ''queue_cancelled'' then remove_queued data
      else if event = ''queue_rejected''
      then (\<lambda>d. push_toast env ''warning'' (t ''chat.queueRejectedTitle'' JUndef) (jget data ''message'') (remove_queued data d))
      else if event = ''command_error'' then push_toast env ''error'' (t ''connection.errorTitle'' JUndef) (jget data ''message'')
      else if event = ''retry_attempt'' then on_ch (set_field F_retryState (retry_info data))
      else if event = ''retry_exhausted'' then h_retry_exhausted t env ms data
      else if event = ''stream_error'' then h_stream_error t env ms data
      else if event = ''rate_limit_status'' then h_rate_limit t env data
      else if event = ''error'' then h_error t env ms data
      else (\<lambda>d. d))"

definition onEvent :: "(string \<Rightarrow> jsval \<Rightarrow> string) \<Rightarrow> js_env \<Rightarrow> string \<Rightarrow> jsval \<Rightarrow> disp \<Rightarrow> disp" where
  "onEvent t env event data d =
     (if is_stale d then dispose_quietly d
      else if event = ''stream_event'' then ev_stream_event env data d
      else (let (entries, d1) = reconcile_envelope env event data
                  (restore_provider event data (flush_boundary event (replay_gap event data d)))
            in handle t env entries (c_messages (chat_of d1)) event data d1))"

section \<open>The end of a stream\<close>

definition release_prompt :: "jsval list \<Rightarrow> chat \<Rightarrow> chat" where
  "release_prompt doneMsgs c =
     (let lastAssistant = last_assistant doneMsgs
      in if truthy lastAssistant \<and> \<not> truthy (jget lastAssistant ''error'') then set_field F_lastUserPrompt JNull c else c)"

definition end_chat :: "chat \<Rightarrow> chat" where
  "end_chat c =
     unlockUnclaimedRunMode (clearQueuedMessages (set_field F_queueSender JNull (set_field F_wsSendPermission JNull
       (set_field F_streamAbort JNull (set_field F_isStreaming (JBool False) c)))))"

definition onComplete :: "js_env \<Rightarrow> disp \<Rightarrow> disp" where
  "onComplete env d =
     (if is_stale d then dispose_quietly d
      else
        (let d1 = on_ch (finalizeStreamBlocks env) (with_asm (dispose True (sm_asm (d_sm d))) d);
             doneMsgs = c_messages (chat_of d1);
             d2 = on_wf (finalizeRunning (env_now env)) (on_ch end_chat d1);
             d3 = on_ch (release_prompt doneMsgs) d2
         in out_fx (FxRefreshRecap (c_sessionId (chat_of d3)) (c_recapTurns (chat_of d3)))
              (out_fx FxFetchSessions (set_status env (terminalStatusFor d3) d3))))"

text \<open>
  The abort handle: it flushes, then aborts the transport, which reports its completion unless it had
  completed before.
\<close>

definition stream_abort :: "js_env \<Rightarrow> bool \<Rightarrow> disp \<Rightarrow> disp" where
  "stream_abort env live d =
     (let d1 = out_fx FxAbortTransport (with_asm (dispose True (sm_asm (d_sm d))) d)
      in if live then onComplete env d1 else d1)"

text \<open>
  The runtime that hosts a session id: through the aliases, then by the session id of a runtime's chat
  (\<open>chat_session\<close> of the runtime object).
\<close>

definition resolveRuntimeKey :: "(nat \<Rightarrow> jsval) \<Rightarrow> registry \<Rightarrow> string \<Rightarrow> string option" where
  "resolveRuntimeKey chat_session g sessionIdOrKey =
     (if sessionIdOrKey = [] then None
      else (let canonical = resolveKey g sessionIdOrKey
            in if hasRuntime g canonical then Some canonical
               else map_option (\<lambda>r. rt_key (rg_objs g ! r)) (List.find (\<lambda>r. chat_session r = JStr sessionIdOrKey) (listRuntimes g))))"

definition stopSessionStream :: "js_env \<Rightarrow> bool \<Rightarrow> bool \<Rightarrow> disp \<Rightarrow> disp" where
  "stopSessionStream env broadcast live d0 =
     (let sid = key_of (c_sessionId (chat_of d0));
          d = (if broadcast \<and> sid \<noteq> [] then out_fx (FxBroadcastStop sid) d0 else d0)
      in if truthy (c_streamAbort (chat_of d))
         then (let d1 = stream_abort env live d;
                   d2 = on_ch (\<lambda>c. markCurrentResponseInterrupted (abortRunningTools env (JStr ''aborted'')
                          (finalizeStreamBlocks env (bumpStreamGeneration c)))) d1;
                   d3 = on_wf (ws_abortRunning (env_now env)) (on_tasks (abortRunningTasks (env_now env)) d2);
                   d4 = on_ch (\<lambda>c. clearPermissions (set_field F_wsSendPermission JNull (set_field F_streamAbort JNull
                          (set_field F_isStreaming (JBool False) c)))) d3
               in if dget (ss_statuses (d_status d4)) (rt_key_of d4) \<noteq> None
                  then set_status env (terminalStatusFor d4) d4 else d4)
         else on_ch bumpStreamGeneration d)"

section \<open>Answers\<close>

text \<open>The functions of the hook act on the session on screen: \<open>d_rt\<close> is the active runtime.\<close>

definition mark_ask :: "jsval \<Rightarrow> jsobj \<Rightarrow> chat \<Rightarrow> chat" where
  "mark_ask toolUseId data c =
     (case find_last_index (\<lambda>m. is_assistant m \<and> list_ex (\<lambda>b. is_ask b \<and> jeq (jget b ''toolUseId'') toolUseId) (content_of m)) (c_messages c) of
        None \<Rightarrow> c
      | Some i \<Rightarrow> c\<lparr>c_messages := (c_messages c)[i := set_content
           (map (\<lambda>b. if is_ask b \<and> jeq (jget b ''toolUseId'') toolUseId then jput b data else b) (content_of (c_messages c ! i)))
           (c_messages c ! i)]\<rparr>)"

definition answer_data :: "jsval \<Rightarrow> jsval \<Rightarrow> jsobj" where
  "answer_data answerText answerData =
     [(''status'', JStr ''answered''), (''answeredText'', answerText),
      (''answeredSelections'', jor (jget answerData ''selections'') (JObj [])),
      (''answeredCustomInputs'', jor (jget answerData ''customInputs'') (JObj []))]"

definition submitted_answer :: "jsval \<Rightarrow> jsval \<Rightarrow> jsval" where
  "submitted_answer answerText answerData =
     JObj [(''answerText'', answerText), (''selections'', jor (jget answerData ''selections'') (JObj [])),
       (''customInputs'', jor (jget answerData ''customInputs'') (JObj []))]"

text \<open>
  How a decision reaches the backend: over the socket (\<open>ws\<close> says that a sender is bound and accepted
  the frame), or by the HTTP call, whose outcome is \<open>http\<close> (\<open>Some e\<close> an error text) and which is taken to return before the
  next event.
\<close>

datatype delivery = ByWs | ByHttp "string option" | NoRoute

definition delivery_of :: "bool \<Rightarrow> string option \<Rightarrow> chat \<Rightarrow> delivery" where
  "delivery_of ws http c =
     (if truthy (c_wsSendPermission c) \<and> ws then ByWs else if truthy (c_streamId c) then ByHttp http else NoRoute)"

definition deliver ::
  "(string \<Rightarrow> jsval \<Rightarrow> string) \<Rightarrow> js_env \<Rightarrow> string \<Rightarrow> delivery \<Rightarrow> (chat \<Rightarrow> chat) \<Rightarrow> (chat \<Rightarrow> chat) \<Rightarrow> disp \<Rightarrow> disp" where
  "deliver t env title route sent confirmed d =
     (case route of
        ByWs \<Rightarrow> on_ch sent d
      | ByHttp None \<Rightarrow> on_ch confirmed d
      | ByHttp (Some e) \<Rightarrow> push_toast env ''error'' (t title JUndef) (JStr e) d
      | NoRoute \<Rightarrow> push_toast env ''error'' (t title JUndef) (JStr (t ''connection.lost'' JUndef)) d)"

definition sendAnswer ::
  "(string \<Rightarrow> jsval \<Rightarrow> string) \<Rightarrow> js_env \<Rightarrow> jsval \<Rightarrow> transport \<Rightarrow> bool \<Rightarrow> string option \<Rightarrow> jsval \<Rightarrow> jsval \<Rightarrow> jsval \<Rightarrow> disp \<Rightarrow> disp" where
  "sendAnswer t env settings tp ws http answerText toolUseId answerData d =
     (let asked = c_pendingAskUser (chat_of d);
          answered = (\<lambda>c. set_field F_pendingAskUser JNull (mark_ask toolUseId (answer_data answerText answerData) c))
      in if truthy (jget asked ''_permissionRequestId'')
         then recomputeActiveStatus env (deliver t env ''chat.permissionRespondFailed'' (delivery_of ws http (chat_of d))
                (set_field F_pendingAskUser (jput asked [(''_submittedAnswer'', submitted_answer answerText answerData)])) answered d)
         else snd (startStream env settings tp
                \<lparr>rq_message = answerText, rq_permissionMode = JUndef, rq_attachments = JUndef, rq_attachmentsMeta = JUndef,
                 rq_images = JUndef, rq_displayImages = JUndef\<rparr> (on_ch answered d)))"

definition declineAskUser :: "(string \<Rightarrow> jsval \<Rightarrow> string) \<Rightarrow> js_env \<Rightarrow> bool \<Rightarrow> string option \<Rightarrow> disp \<Rightarrow> disp" where
  "declineAskUser t env ws http d =
     (let asked = c_pendingAskUser (chat_of d); toolUseId = jget asked ''toolUseId'';
          declined = (\<lambda>c. set_field F_pendingAskUser JNull (mark_ask toolUseId [(''status'', JStr ''declined'')] c))
      in if \<not> truthy asked then d
         else recomputeActiveStatus env
           (if truthy (jget asked ''_permissionRequestId'')
            then deliver t env ''chat.permissionDeclineFailed'' (delivery_of ws http (chat_of d))
                   (set_field F_pendingAskUser (jput asked [(''_submittedAnswer'', JObj [(''declined'', JBool True)])])) declined d
            else on_ch declined d))"

definition respondPermission :: "(string \<Rightarrow> jsval \<Rightarrow> string) \<Rightarrow> js_env \<Rightarrow> bool \<Rightarrow> string option \<Rightarrow> disp \<Rightarrow> disp" where
  "respondPermission t env ws http d =
     (case delivery_of ws http (chat_of d) of
        ByWs \<Rightarrow> d
      | ByHttp None \<Rightarrow> recomputeActiveStatus env (on_ch resolvePermission d)
      | r \<Rightarrow> deliver t env ''chat.permissionRespondFailed'' r id id d)"

section \<open>Runs\<close>

text \<open>
  What can happen to the runtime of a stream. A start replaces the closure of the stream before it, of which
  only the timers of the "reconnected" notice still act on the session.
\<close>

datatype stream_input =
    SiEvent js_env string jsval
  | SiComplete js_env
  | SiFlushTimer
  | SiRetryTimer
  | SiStop js_env bool bool
  | SiDecline js_env bool "string option"
  | SiRespond js_env bool "string option"
  | SiSend js_env jsval transport send_request
  | SiAttach js_env jsval transport string
  | SiAnswer js_env jsval transport bool "string option" jsval jsval jsval

primrec sr_step :: "(string \<Rightarrow> jsval \<Rightarrow> string) \<Rightarrow> disp \<Rightarrow> stream_input \<Rightarrow> disp" where
  "sr_step t d (SiEvent env event data) = onEvent t env event data d"
| "sr_step t d (SiComplete env) = onComplete env d"
| "sr_step t d SiFlushTimer = with_asm (timer_fire (sm_asm (d_sm d))) d"
| "sr_step t d SiRetryTimer = retry_timer d"
| "sr_step t d (SiStop env broadcast live) = stopSessionStream env broadcast live d"
| "sr_step t d (SiDecline env ws http) = declineAskUser t env ws http d"
| "sr_step t d (SiRespond env ws http) = respondPermission t env ws http d"
| "sr_step t d (SiSend env settings tp rq) = snd (startStream env settings tp rq d)"
| "sr_step t d (SiAttach env settings tp sid) = attachToRunningSession env settings tp sid d"
| "sr_step t d (SiAnswer env settings tp ws http answerText toolUseId answerData) =
     sendAnswer t env settings tp ws http answerText toolUseId answerData d"

end
