(* ===== verification/StreamProps.thy ===== *)
theory StreamProps
  imports StreamRun
begin

text \<open>
  What a stream leaves behind: a stopped stream has no further effect but for one timer, a stop leaves nothing running, and the
  terminal errors settle the session but not the cards of the transcript. The first section holds what the
  effects of the dispatcher leave alone; the theories on the invariant and on tool calls use it too.
\<close>

section \<open>Frames\<close>

text \<open>What the effects on the interface leave alone.\<close>

lemma uiFx_keeps [simp]:
  "d_w (uiFx f m d) = d_w d" "d_tasks (uiFx f m d) = d_tasks d" "d_ops (uiFx f m d) = d_ops d" "d_fb (uiFx f m d) = d_fb d"
  "d_wf (uiFx f m d) = d_wf d" "d_sm (uiFx f m d) = d_sm d" "d_rt (uiFx f m d) = d_rt d" "d_status (uiFx f m d) = d_status d"
  by (simp_all add: uiFx_def)

lemma show_keeps [simp]:
  "d_w (fxShowCanvas c d) = d_w d" "d_tasks (fxShowCanvas c d) = d_tasks d" "d_fb (fxShowCanvas c d) = d_fb d"
  "d_wf (fxShowCanvas c d) = d_wf d" "d_sm (fxShowCanvas c d) = d_sm d" "d_rt (fxShowCanvas c d) = d_rt d"
  "d_w (fxShowSummary d) = d_w d" "d_tasks (fxShowSummary d) = d_tasks d" "d_fb (fxShowSummary d) = d_fb d"
  "d_wf (fxShowSummary d) = d_wf d" "d_sm (fxShowSummary d) = d_sm d" "d_rt (fxShowSummary d) = d_rt d"
  "d_w (show_plan b p q d) = d_w d" "d_tasks (show_plan b p q d) = d_tasks d" "d_fb (show_plan b p q d) = d_fb d"
  "d_wf (show_plan b p q d) = d_wf d" "d_sm (show_plan b p q d) = d_sm d" "d_rt (show_plan b p q d) = d_rt d"
  by (simp_all add: fxShowCanvas_def fxShowSummary_def show_plan_def)

lemma set_status_keeps [simp]:
  "d_w (set_status env s d) = d_w d" "d_tasks (set_status env s d) = d_tasks d" "d_fb (set_status env s d) = d_fb d"
  "d_wf (set_status env s d) = d_wf d" "d_sm (set_status env s d) = d_sm d" "d_rt (set_status env s d) = d_rt d"
  "d_reg (set_status env s d) = d_reg d"
  by (simp_all add: set_status_def)

lemma push_toast_keeps [simp]:
  "d_w (push_toast env l t b d) = d_w d" "d_tasks (push_toast env l t b d) = d_tasks d" "d_fb (push_toast env l t b d) = d_fb d"
  "d_wf (push_toast env l t b d) = d_wf d" "d_sm (push_toast env l t b d) = d_sm d" "d_rt (push_toast env l t b d) = d_rt d"
  "d_reg (push_toast env l t b d) = d_reg d" "d_status (push_toast env l t b d) = d_status d"
  by (simp_all add: push_toast_def Let_def)

lemma on_keeps [simp]:
  "d_tasks (on_w g d) = d_tasks d" "d_fb (on_w g d) = d_fb d" "d_wf (on_w g d) = d_wf d" "d_sm (on_w g d) = d_sm d"
  "d_rt (on_w g d) = d_rt d" "d_reg (on_w g d) = d_reg d" "d_status (on_w g d) = d_status d" "d_w (on_w g d) = g (d_w d)"
  "d_tasks (on_ch f d) = d_tasks d" "d_fb (on_ch f d) = d_fb d" "d_wf (on_ch f d) = d_wf d" "d_sm (on_ch f d) = d_sm d"
  "d_rt (on_ch f d) = d_rt d" "d_reg (on_ch f d) = d_reg d" "d_status (on_ch f d) = d_status d"
  "d_w (on_ch f d) = on_chat f (d_w d)"
  by (simp_all add: disp_ops)

lemma on_store_keeps [simp]:
  "d_w (on_tasks p d) = d_w d" "d_fb (on_tasks p d) = d_fb d" "d_wf (on_tasks p d) = d_wf d" "d_sm (on_tasks p d) = d_sm d"
  "d_rt (on_tasks p d) = d_rt d" "d_reg (on_tasks p d) = d_reg d" "d_tasks (on_tasks p d) = p (d_tasks d)"
  "d_w (on_ops q d) = d_w d" "d_fb (on_ops q d) = d_fb d" "d_wf (on_ops q d) = d_wf d" "d_sm (on_ops q d) = d_sm d"
  "d_rt (on_ops q d) = d_rt d" "d_reg (on_ops q d) = d_reg d" "d_tasks (on_ops q d) = d_tasks d"
  "d_w (on_fb r d) = d_w d" "d_fb (on_fb r d) = r (d_fb d)" "d_wf (on_fb r d) = d_wf d" "d_sm (on_fb r d) = d_sm d"
  "d_rt (on_fb r d) = d_rt d" "d_reg (on_fb r d) = d_reg d" "d_tasks (on_fb r d) = d_tasks d"
  "d_w (on_wf s d) = d_w d" "d_fb (on_wf s d) = d_fb d" "d_wf (on_wf s d) = s (d_wf d)" "d_sm (on_wf s d) = d_sm d"
  "d_rt (on_wf s d) = d_rt d" "d_reg (on_wf s d) = d_reg d" "d_tasks (on_wf s d) = d_tasks d"
  "d_w (on_sm u d) = d_w d" "d_fb (on_sm u d) = d_fb d" "d_wf (on_sm u d) = d_wf d" "d_sm (on_sm u d) = u (d_sm d)"
  "d_rt (on_sm u d) = d_rt d" "d_reg (on_sm u d) = d_reg d" "d_tasks (on_sm u d) = d_tasks d"
  "d_w (out_fx x d) = d_w d" "d_fb (out_fx x d) = d_fb d" "d_wf (out_fx x d) = d_wf d" "d_sm (out_fx x d) = d_sm d"
  "d_rt (out_fx x d) = d_rt d" "d_reg (out_fx x d) = d_reg d" "d_tasks (out_fx x d) = d_tasks d"
  by (simp_all add: disp_ops)

lemma w_chat_on_chat [simp]: "w_chat (on_chat f w) = f (w_chat w)" "w_cid (on_chat f w) = w_cid w"
  by (simp_all add: on_chat_def)

lemma set_messages_keeps [simp]:
  "d_tasks (set_messages ms d) = d_tasks d" "d_fb (set_messages ms d) = d_fb d" "d_wf (set_messages ms d) = d_wf d"
  "d_sm (set_messages ms d) = d_sm d" "d_rt (set_messages ms d) = d_rt d" "d_reg (set_messages ms d) = d_reg d"
  "d_w (set_messages ms d) = on_chat (\<lambda>c. c\<lparr>c_messages := ms\<rparr>) (d_w d)"
  by (simp_all add: set_messages_def)

section \<open>A stale stream\<close>

lemma with_asm_stale: "is_stale d \<Longrightarrow> with_asm a d = on_sm (\<lambda>s. s\<lparr>sm_asm := a\<rparr>) d"
proof -
  assume stale: "is_stale d"
  let ?d = "on_sm (\<lambda>s. s\<lparr>sm_asm := a\<rparr>) d"
  have "onFlush ?d out = ?d" for out using stale by (simp add: onFlush_def is_stale_def)
  then have "foldl onFlush ?d outs = ?d" for outs by (induction outs) simp_all
  then show ?thesis by (simp add: with_asm_def Let_def)
qed

text \<open>What can still come from a stream: its events, its completion and its two timers.\<close>

fun from_stream :: "stream_input \<Rightarrow> bool" where
  "from_stream (SiEvent env event data) = True"
| "from_stream (SiComplete env) = True"
| "from_stream SiFlushTimer = True"
| "from_stream SiRetryTimer = True"
| "from_stream _ = False"

text \<open>The session after the timer of the retry notice has fired, which does not look at the generation.\<close>

definition notice_cleared :: "disp \<Rightarrow> disp" where
  "notice_cleared d =
     (if truthy (jget (c_retryState (chat_of d)) ''succeeded'') then on_ch (set_field F_retryState JNull) d else d)"

text \<open>\<open>apart d d'\<close>: \<open>d'\<close> is \<open>d\<close> up to the closure of the stream, which keeps its generation.\<close>

definition apart :: "disp \<Rightarrow> disp \<Rightarrow> bool" where
  "apart d d' \<longleftrightarrow> d'\<lparr>d_sm := d_sm d\<rparr> = d \<and> sm_gen (d_sm d') = sm_gen (d_sm d)"

lemma apart_eq: "apart d d' \<longleftrightarrow> (\<exists>sm. d' = d\<lparr>d_sm := sm\<rparr> \<and> sm_gen sm = sm_gen (d_sm d))"
  by (auto simp: apart_def intro: exI [of _ "d_sm d'"])
    (metis (mono_tags) disp.surjective disp.update_convs(13))

lemma stale_step:
  assumes "is_stale d" and "from_stream i" and "i \<noteq> SiRetryTimer"
  shows "apart d (sr_step t d i)" "sm_retryTimers (d_sm (sr_step t d i)) = sm_retryTimers (d_sm d)"
  using assms by (cases i; simp add: onEvent_def onComplete_def dispose_quietly_def with_asm_stale apart_def on_sm_def)+

lemma timer_step:
  "sr_step t d SiRetryTimer =
     (if sm_retryTimers (d_sm d) = 0 then d
      else notice_cleared (on_sm (\<lambda>s. s\<lparr>sm_retryTimers := sm_retryTimers s - 1\<rparr>) d))"
  by (simp add: retry_timer_def notice_cleared_def Let_def)

definition late_state :: "stream_input list \<Rightarrow> disp \<Rightarrow> disp" where
  "late_state is d = (if SiRetryTimer \<in> set is \<and> 0 < sm_retryTimers (d_sm d) then notice_cleared d else d)"

lemma late_frame [simp]: "d_sm (late_state is d) = d_sm d" "is_stale ((late_state is d)\<lparr>d_sm := sm\<rparr>) = is_stale (d\<lparr>d_sm := sm\<rparr>)"
  by (simp_all add: late_state_def notice_cleared_def is_stale_def)

lemma late_timer:
  "late_state (is @ [SiRetryTimer]) d = (if 0 < sm_retryTimers (d_sm d) then notice_cleared d else d)"
  "0 < sm_retryTimers (d_sm d) \<Longrightarrow> notice_cleared ((late_state is d)\<lparr>d_sm := sm\<rparr>) = (notice_cleared d)\<lparr>d_sm := sm\<rparr>"
  by (simp_all add: late_state_def notice_cleared_def on_ch_def on_w_def on_chat_def)

lemma stale_run:
  assumes "is_stale d" and "list_all from_stream is"
  shows "apart (late_state is d) (foldl (sr_step t) d is) \<and>
    sm_retryTimers (d_sm (foldl (sr_step t) d is)) \<le> sm_retryTimers (d_sm d) \<and>
    (SiRetryTimer \<notin> set is \<longrightarrow> sm_retryTimers (d_sm (foldl (sr_step t) d is)) = sm_retryTimers (d_sm d))"
  using assms(2)
proof (induction "is" rule: rev_induct)
  case Nil
  then show ?case by (simp add: late_state_def apart_def)
next
  case (snoc i "is")
  let ?d = "foldl (sr_step t) d is"
  have IH: "apart (late_state is d) ?d" "sm_retryTimers (d_sm ?d) \<le> sm_retryTimers (d_sm d)"
    "SiRetryTimer \<notin> set is \<longrightarrow> sm_retryTimers (d_sm ?d) = sm_retryTimers (d_sm d)" using snoc by simp_all
  then obtain sm where sm: "?d = (late_state is d)\<lparr>d_sm := sm\<rparr>" "sm_gen sm = sm_gen (d_sm d)"
    unfolding apart_eq late_frame by blast
  have "d_sm ?d = sm" unfolding sm(1) by simp
  then have timers: "sm_retryTimers sm \<le> sm_retryTimers (d_sm d)" "SiRetryTimer \<notin> set is \<longrightarrow> sm_retryTimers sm = sm_retryTimers (d_sm d)"
    using IH by simp_all
  have stale: "is_stale ?d" using assms(1) unfolding sm(1) late_frame by (simp add: is_stale_def sm(2))
  show ?case
  proof (cases "i = SiRetryTimer")
    case False
    then have "apart ?d (sr_step t ?d i)" "sm_retryTimers (d_sm (sr_step t ?d i)) = sm_retryTimers (d_sm ?d)"
      using stale_step [OF stale _ False] snoc.prems by simp_all
    moreover have "late_state (is @ [i]) d = late_state is d" using False by (simp add: late_state_def)
    ultimately obtain sm' where "sr_step t ?d i = (late_state (is @ [i]) d)\<lparr>d_sm := sm'\<rparr>" "sm_gen sm' = sm_gen sm"
      "sm_retryTimers sm' = sm_retryTimers sm" unfolding apart_eq sm(1) by auto
    then show ?thesis using sm(2) timers False by (simp add: apart_def)
  next
    case True
    show ?thesis
    proof (cases "sm_retryTimers sm = 0")
      case none: True
      have "sr_step t ?d i = (late_state is d)\<lparr>d_sm := sm\<rparr>" unfolding True timer_step sm(1) by (simp add: none)
      moreover have "late_state (is @ [i]) d = late_state is d" using timers none by (auto simp: late_state_def True)
      ultimately show ?thesis using sm(2) timers True by (simp add: apart_def)
    next
      case False
      let ?sm = "sm\<lparr>sm_retryTimers := sm_retryTimers sm - 1\<rparr>"
      have pos: "0 < sm_retryTimers (d_sm d)" using False timers(1) by simp
      have "sr_step t ?d i = notice_cleared ((late_state is d)\<lparr>d_sm := ?sm\<rparr>)"
        unfolding True timer_step sm(1) by (simp add: False on_sm_def)
      then have "sr_step t ?d i = (late_state (is @ [i]) d)\<lparr>d_sm := ?sm\<rparr>" using pos by (simp add: late_timer True)
      then show ?thesis using sm(2) timers True by (simp add: apart_def)
    qed
  qed
qed

section \<open>The generation of a stream\<close>

text \<open>Patches and the operations on blocks change the transcript and nothing else of the chat.\<close>

lemma patches_core [simp]:
  "c_streamGeneration (applyStreamBlockPatches ps c) = c_streamGeneration c"
  "c_pendingPermission (applyStreamBlockPatches ps c) = c_pendingPermission c"
  "c_permissionQueue (applyStreamBlockPatches ps c) = c_permissionQueue c"
  "c_isStreaming (applyStreamBlockPatches ps c) = c_isStreaming c"
  "c_sessionId (applyStreamBlockPatches ps c) = c_sessionId c"
  "c_runModeLocked (applyStreamBlockPatches ps c) = c_runModeLocked c"
  "c_checkpoints (applyStreamBlockPatches ps c) = c_checkpoints c"
  by (simp_all add: applyStreamBlockPatches_def)

lemma map_all_core [simp]:
  "c_streamGeneration (map_all_blocks f c) = c_streamGeneration c"
  "c_pendingPermission (map_all_blocks f c) = c_pendingPermission c"
  "c_permissionQueue (map_all_blocks f c) = c_permissionQueue c"
  "c_isStreaming (map_all_blocks f c) = c_isStreaming c"
  "c_streamAbort (map_all_blocks f c) = c_streamAbort c"
  "c_sessionId (map_all_blocks f c) = c_sessionId c"
  "c_runModeLocked (map_all_blocks f c) = c_runModeLocked c"
  "c_checkpoints (map_all_blocks f c) = c_checkpoints c"
  by (simp_all add: map_all_blocks_def)

lemmas stream_op_defs = finalizeStreamBlocks_def clearUnfinishedStreamBlocks_def abortRunningTools_def
  updateToolResult_def applyAgentTaskNotification_def

definition same_run :: "disp \<Rightarrow> disp \<Rightarrow> bool" where
  "same_run d d' \<longleftrightarrow> c_streamGeneration (chat_of d') = c_streamGeneration (chat_of d) \<and> sm_gen (d_sm d') = sm_gen (d_sm d)"

lemma enrich_gen: "sm_gen (snd (foldl enrich_patch acc ps)) = sm_gen (snd acc)"
proof (induction ps arbitrary: acc)
  case (Cons p ps)
  have "sm_gen (snd (enrich_patch acc p)) = sm_gen (snd acc)"
    by (simp add: enrich_patch_def Let_def bump_group_def split: option.split)
  then show ?case using Cons by simp
qed simp

lemma onFlush_same: "same_run d (onFlush d out)"
  using enrich_gen [of "([], d_sm d)" "fl_patches out"]
  by (auto simp: onFlush_def same_run_def Let_def split: prod.split)

lemma same_run_trans: "same_run a b \<Longrightarrow> same_run b c \<Longrightarrow> same_run a c"
  by (simp add: same_run_def)

lemma fold_flush_same: "same_run d (foldl onFlush d outs)"
proof (induction outs arbitrary: d)
  case (Cons out outs)
  then show ?case using onFlush_same [of d out] by (auto intro: same_run_trans)
qed (simp add: same_run_def)

lemma with_asm_same: "same_run d (with_asm a d)"
proof -
  have "same_run d (on_sm (\<lambda>s. s\<lparr>sm_asm := a\<rparr>) d)" by (simp add: same_run_def)
  then show ?thesis unfolding with_asm_def Let_def using fold_flush_same same_run_trans by blast
qed

lemma end_chat_core [simp]:
  "c_streamGeneration (end_chat c) = c_streamGeneration c" "c_isStreaming (end_chat c) = JBool False"
  "c_streamAbort (end_chat c) = JNull" "c_messages (end_chat c) = c_messages c"
  "c_subagentContent (end_chat c) = c_subagentContent c"
  by (simp_all add: end_chat_def unlockUnclaimedRunMode_def clearQueuedMessages_def)

lemma release_prompt_core [simp]:
  "c_streamGeneration (release_prompt ms c) = c_streamGeneration c" "c_isStreaming (release_prompt ms c) = c_isStreaming c"
  "c_streamAbort (release_prompt ms c) = c_streamAbort c" "c_messages (release_prompt ms c) = c_messages c"
  "c_subagentContent (release_prompt ms c) = c_subagentContent c"
  by (simp_all add: release_prompt_def Let_def)

lemma onComplete_same: "same_run d (onComplete env d)"
proof (cases "is_stale d")
  case True
  then show ?thesis by (simp add: onComplete_def dispose_quietly_def same_run_def)
next
  case False
  then show ?thesis
    using with_asm_same [of d "dispose True (sm_asm (d_sm d))"]
    by (simp add: onComplete_def Let_def same_run_def stream_op_defs)
qed

lemma stream_abort_same: "same_run d (stream_abort env live d)"
proof -
  let ?d = "out_fx FxAbortTransport (with_asm (dispose True (sm_asm (d_sm d))) d)"
  have "same_run d ?d" using with_asm_same [of d "dispose True (sm_asm (d_sm d))"] by (simp add: same_run_def)
  then show ?thesis using onComplete_same [of ?d env] by (auto simp: stream_abort_def Let_def intro: same_run_trans)
qed

lemma interrupted_core [simp]:
  "c_streamGeneration (markCurrentResponseInterrupted c) = c_streamGeneration c"
  "c_isStreaming (markCurrentResponseInterrupted c) = c_isStreaming c"
  "c_streamAbort (markCurrentResponseInterrupted c) = c_streamAbort c"
  "c_pendingPermission (markCurrentResponseInterrupted c) = c_pendingPermission c"
  "c_permissionQueue (markCurrentResponseInterrupted c) = c_permissionQueue c"
  "c_subagentContent (markCurrentResponseInterrupted c) = c_subagentContent c"
  by (simp_all add: markCurrentResponseInterrupted_def)

lemma stop_generation:
  "c_streamGeneration (chat_of (stopSessionStream env b live d)) = Suc (c_streamGeneration (chat_of d))"
  "sm_gen (d_sm (stopSessionStream env b live d)) = sm_gen (d_sm d)"
proof -
  define d0 where "d0 = (if b \<and> key_of (c_sessionId (chat_of d)) \<noteq> [] then out_fx (FxBroadcastStop (key_of (c_sessionId (chat_of d)))) d else d)"
  have d0: "d_w d0 = d_w d" "d_sm d0 = d_sm d" by (simp_all add: d0_def)
  have same: "same_run d0 (stream_abort env live d0)" by (rule stream_abort_same)
  show "c_streamGeneration (chat_of (stopSessionStream env b live d)) = Suc (c_streamGeneration (chat_of d))"
    and "sm_gen (d_sm (stopSessionStream env b live d)) = sm_gen (d_sm d)"
    using same unfolding stopSessionStream_def Let_def d0_def [symmetric]
    by (simp_all add: same_run_def d0 stream_op_defs bumpStreamGeneration_def clearPermissions_def)
qed

text \<open>
  C12. Once a stream has been stopped, nothing that still arrives for it changes the session, one thing
  apart: whatever sequence of events, completions, flush timers and retry timers follows, every slice, the
  shared stores and the registry stay as the stop left them, and only the closure of the dead stream
  changes; but if the stream had set the timer that clears the notice of a successful reconnection, and
  that notice is still up, the timer clears it, since it does not check the generation.
\<close>

theorem stopped_stream_is_inert:
  assumes "sm_gen (d_sm d) \<le> c_streamGeneration (chat_of d)" and "list_all from_stream is"
    and "s = stopSessionStream env broadcast live d" and "s' = foldl (sr_step t) s is"
  shows "s'\<lparr>d_sm := d_sm s\<rparr> =
    (if SiRetryTimer \<in> set is \<and> 0 < sm_retryTimers (d_sm s) \<and> truthy (jget (c_retryState (chat_of s)) ''succeeded'')
     then on_ch (set_field F_retryState JNull) s else s)"
proof -
  have "is_stale s" using assms(1) by (simp add: assms(3) is_stale_def stop_generation)
  from stale_run [OF this assms(2), of t] show ?thesis
    by (auto simp: assms(4) apart_def) (simp_all add: late_state_def notice_cleared_def)
qed

lemma begin_stream_fresh:
  "sm_gen (d_sm (begin_stream env sid mode att d)) = c_streamGeneration (chat_of (begin_stream env sid mode att d))"
  by (simp add: begin_stream_def Let_def new_stream_def)

lemma bind_transport_gen [simp]: "c_streamGeneration (bind_transport tp c) = c_streamGeneration c"
  by (simp add: bind_transport_def)

lemma started_not_stale: "fst (startStream env settings tp rq d) \<Longrightarrow> \<not> is_stale (snd (startStream env settings tp rq d))"
  by (auto simp: startStream_def Let_def is_stale_def begin_stream_fresh split: if_splits)

lemma started_has_handle:
  "fst (startStream env settings tp rq d) \<Longrightarrow> c_streamAbort (chat_of (snd (startStream env settings tp rq d))) = JFun (tp_abort tp)"
  by (auto simp: startStream_def Let_def bind_transport_def split: if_splits)

text \<open>A session on screen with nothing in it, bound to a stream that has just been opened.\<close>

definition init_disp :: "js_env \<Rightarrow> storage \<Rightarrow> disp" where
  "init_disp env st =
     \<lparr>d_w = init_chat_world st, d_tasks = createTaskStore, d_ops = createFileOpsStore, d_fb = createFileBrowserStore,
      d_wf = createWorkflowStore, d_status = createStatusStore env st, d_ui = createUiStore, d_toasts = createToastStore,
      d_sidebar = [], d_reg = init_registry (env_now env), d_rt = 0, d_out = [],
      d_sm = new_stream 0 JNull JNull (JStr ''agent'') False (env_now env)\<rparr>"

definition demo_request :: "string \<Rightarrow> send_request" where
  "demo_request m =
     \<lparr>rq_message = JStr m, rq_permissionMode = JStr ''default'', rq_attachments = JNull, rq_attachmentsMeta = JNull,
      rq_images = JNull, rq_displayImages = JNull\<rparr>"

definition demo_transport :: transport where
  "demo_transport = \<lparr>tp_abort = 1, tp_sendPermission = 2, tp_queueSender = JFun 3\<rparr>"

definition demo_started :: disp where
  "demo_started = snd (startStream (demo_env 5) JNull demo_transport (demo_request ''hello'') (init_disp (demo_env 5) demo_storage))"

definition demo_text :: "string \<Rightarrow> jsval \<Rightarrow> string" where
  "demo_text k v = k"

lemma demo_started_ok:
  "fst (startStream (demo_env 5) JNull demo_transport (demo_request ''hello'') (init_disp (demo_env 5) demo_storage))"
  by (simp add: startStream_def Let_def init_disp_def init_chat_world_def createChatStore_def)

lemma demo_not_stale: "\<not> is_stale demo_started"
  unfolding demo_started_def by (rule started_not_stale [OF demo_started_ok])

text \<open>A stream that has reconnected a moment ago: the notice is up and its timer is set.\<close>

definition demo_reconnected :: disp where
  "demo_reconnected = on_sm (\<lambda>s. s\<lparr>sm_retryTimers := 1\<rparr>)
     (on_ch (set_field F_retryState (JObj [(''succeeded'', JBool True)])) demo_started)"

lemma demo_reconnected_stopped:
  "sm_retryTimers (d_sm (stopSessionStream (demo_env 6) True True demo_reconnected)) = 1"
  "c_retryState (chat_of (stopSessionStream (demo_env 6) True True demo_reconnected)) = JObj [(''succeeded'', JBool True)]"
  by code_simp+

theorem stopped_stream_is_inert_witness:
  "let s = stopSessionStream (demo_env 6) True True demo_reconnected
   in (foldl (sr_step demo_text) s [SiEvent (demo_env 7) ''error'' (JObj []), SiComplete (demo_env 8)])\<lparr>d_sm := d_sm s\<rparr> = s \<and>
      (foldl (sr_step demo_text) s [SiEvent (demo_env 7) ''error'' (JObj []), SiRetryTimer, SiComplete (demo_env 8)])\<lparr>d_sm := d_sm s\<rparr>
        = on_ch (set_field F_retryState JNull) s"
proof -
  have gen: "sm_gen (d_sm demo_reconnected) \<le> c_streamGeneration (chat_of demo_reconnected)"
    using demo_not_stale by (simp add: is_stale_def demo_reconnected_def)
  note th = stopped_stream_is_inert [OF gen _ refl refl, where env = "demo_env 6" and broadcast = True and live = True and t = demo_text]
  show ?thesis unfolding Let_def
    using th [of "[SiEvent (demo_env 7) ''error'' (JObj []), SiComplete (demo_env 8)]"]
      th [of "[SiEvent (demo_env 7) ''error'' (JObj []), SiRetryTimer, SiComplete (demo_env 8)]"] demo_reconnected_stopped
    by (simp del: foldl.simps)
qed

section \<open>Nothing is left running\<close>

definition shown :: "jsval \<Rightarrow> bool" where
  "shown m \<longleftrightarrow> is_assistant m \<and> is_arr (jget m ''content'')"

lemma shown_map:
  assumes "\<And>m. shown (f m) = shown m" and "\<And>m. content_of (f m) = content_of m"
  shows "map content_of (filter shown (map f ms)) = map content_of (filter shown ms)"
  by (induction ms) (simp_all add: assms)

definition interrupt :: "jsval \<Rightarrow> jsval" where
  "interrupt m =
     (if is_assistant m \<and> \<not> truthy (jget m ''responseInterrupted'') then jput m [(''responseInterrupted'', JBool True)] else m)"

lemma interrupt_keeps: "shown (interrupt m) = shown m" "content_of (interrupt m) = content_of m" "msg_cid (interrupt m) = msg_cid m"
  by (simp_all add: interrupt_def shown_def is_assistant_def msg_role_def content_of_def msg_cid_def jget_jput)

lemma interrupted_from_map: "interrupted_from n ms = take n ms @ map interrupt (drop n ms)"
  by (simp add: interrupted_from_def interrupt_def)

lemma interrupted_contents: "map content_of (filter shown (interrupted_from n ms)) = map content_of (filter shown ms)"
proof -
  have "map content_of (filter shown (interrupted_from n ms)) =
      map content_of (filter shown (take n ms)) @ map content_of (filter shown (drop n ms))"
    by (simp add: interrupted_from_map shown_map interrupt_keeps)
  also have "\<dots> = map content_of (filter shown (take n ms @ drop n ms))" by (simp only: filter_append map_append)
  finally show ?thesis by simp
qed

lemma block_lists_shown: "block_lists c = map content_of (filter shown (c_messages c)) @ dvals (c_subagentContent c)"
  by (simp add: block_lists_def shown_def [abs_def])

lemma visible_interrupted [simp]: "visible_blocks (markCurrentResponseInterrupted c) = visible_blocks c"
  by (simp add: visible_blocks_def block_lists_shown markCurrentResponseInterrupted_def interrupted_contents)

lemma visible_cong: "c_messages c' = c_messages c \<Longrightarrow> c_subagentContent c' = c_subagentContent c \<Longrightarrow> visible_blocks c' = visible_blocks c"
  by (simp add: visible_blocks_def block_lists_def)

definition no_running_workflow :: "workflow_store \<Rightarrow> bool" where
  "no_running_workflow w \<longleftrightarrow> (\<forall>k v. dget (ws_workflows w) k = Some v \<longrightarrow> wf_status v \<noteq> JStr ''running'' \<and> wf_status v \<noteq> JStr ''pending'')"

lemma ws_abort_none: "no_running_workflow (ws_abortRunning now w)"
proof -
  define g where "g v = (if wf_status v = JStr ''running'' \<or> wf_status v = JStr ''pending''
      then end_workflow now ''stopped'' ''abort'' v else v)" for v
  have "wf_status (g v) \<noteq> JStr ''running'' \<and> wf_status (g v) \<noteq> JStr ''pending''" for v
    by (simp add: g_def end_workflow_def wf_status_def jget_jput)
  then show ?thesis unfolding no_running_workflow_def ws_abortRunning_def g_def [symmetric] by auto
qed

definition no_running_task :: "task_store \<Rightarrow> bool" where
  "no_running_task s \<longleftrightarrow> (\<forall>k. jget (task_of s k) ''status'' \<noteq> JStr ''running'')"

lemma abort_tasks_none: "no_running_task (abortRunningTasks now s)"
  by (simp add: no_running_task_def abort_none_running)

lemma visible_abort: "visible_blocks (abortRunningTools env s c) = map (abortRunningBlock env s) (visible_blocks c)"
  by (simp add: abortRunningTools_def visible_map)

lemma abort_keeps_stream_state: "jget (abortRunningBlock env s b) ''_streamState'' = jget b ''_streamState''"
  by (simp add: abortRunningBlock_def Let_def jget_jput)

lemma visible_finalize: "b \<in> set (visible_blocks (finalizeStreamBlocks env c)) \<Longrightarrow> \<not> isUnfinishedStreamBlock b"
  by (auto simp: finalizeStreamBlocks_def visible_stream mapStreamBlocks_def finish_not_unfinished split: if_splits)

lemma aborted_not_running: "agentLifecycleFromStatus (JStr ''aborted'') \<noteq> Some LC_running" "agentLifecycleFromStatus (JStr ''failed'') \<noteq> Some LC_running"
  by code_simp+

definition settled :: "disp \<Rightarrow> bool" where
  "settled d \<longleftrightarrow> c_isStreaming (chat_of d) = JBool False \<and> c_streamAbort (chat_of d) = JNull
     \<and> no_running_task (d_tasks d) \<and> no_running_workflow (d_wf d)"

text \<open>
  C35. Stopping a session's stream leaves nothing running: no tool card in the transcript or in a subagent's
  bucket is running or unfinished, no task or workflow is running, no permission request is pending, the
  session is not streaming and has no abort handle.
\<close>

theorem stop_leaves_nothing_running:
  assumes "truthy (c_streamAbort (chat_of d))"
  shows "settled (stopSessionStream env broadcast live d)
    \<and> filter (\<lambda>b. tool_running b \<or> isUnfinishedStreamBlock b) (visible_blocks (chat_of (stopSessionStream env broadcast live d))) = []
    \<and> c_pendingPermission (chat_of (stopSessionStream env broadcast live d)) = JNull
    \<and> c_permissionQueue (chat_of (stopSessionStream env broadcast live d)) = []"
proof -
  define sid where "sid = key_of (c_sessionId (chat_of d))"
  define d0 where "d0 = (if broadcast \<and> sid \<noteq> [] then out_fx (FxBroadcastStop sid) d else d)"
  have handle: "truthy (c_streamAbort (chat_of d0))" using assms by (simp add: d0_def)
  define d1 where "d1 = stream_abort env live d0"
  define c where "c = abortRunningTools env (JStr ''aborted'') (finalizeStreamBlocks env (bumpStreamGeneration (chat_of d1)))"
  define d' where "d' = stopSessionStream env broadcast live d"
  have chat: "chat_of d' = clearPermissions (set_field F_wsSendPermission JNull (set_field F_streamAbort JNull
      (set_field F_isStreaming (JBool False) (markCurrentResponseInterrupted c))))"
    and tasks: "d_tasks d' = abortRunningTasks (env_now env) (d_tasks d1)"
    and wf: "d_wf d' = ws_abortRunning (env_now env) (d_wf d1)"
    using handle unfolding d'_def stopSessionStream_def Let_def sid_def [symmetric] d0_def [symmetric] d1_def [symmetric]
    by (simp_all add: c_def)
  have "visible_blocks (chat_of d') = visible_blocks c"
    unfolding chat by (rule trans [OF visible_cong visible_interrupted]) (simp_all add: clearPermissions_def)
  then have "\<forall>b \<in> set (visible_blocks (chat_of d')). \<not> tool_running b \<and> \<not> isUnfinishedStreamBlock b"
    using abort_not_running [OF aborted_not_running(1)] visible_finalize
    by (auto simp: c_def visible_abort isUnfinishedStreamBlock_def abort_keeps_stream_state)
  then show ?thesis unfolding d'_def [symmetric]
    by (simp add: settled_def chat tasks wf abort_tasks_none ws_abort_none clearPermissions_def filter_empty_conv)
qed

theorem stop_leaves_nothing_running_witness:
  "settled (stopSessionStream (demo_env 6) True True demo_started)"
proof -
  have "c_streamAbort (chat_of demo_started) = JFun (tp_abort demo_transport)"
    unfolding demo_started_def by (rule started_has_handle [OF demo_started_ok])
  then have "truthy (c_streamAbort (chat_of demo_started))" by simp
  from stop_leaves_nothing_running [OF this] show ?thesis by blast
qed

section \<open>Errors\<close>

definition error_events :: "string list" where
  "error_events = [''error'', ''stream_error'', ''retry_exhausted'']"

text \<open>A terminal error is the common part \<open>fail_stream\<close>, after the flush that every boundary event makes.\<close>

lemma error_is_fail_stream:
  assumes "\<not> is_stale d" and "event \<in> set error_events"
  obtains info e where "d_w e = d_w (flush_boundary event d) \<or> d_w e = on_chat (set_field F_retryState JNull) (d_w (flush_boundary event d))"
    and "d_w (onEvent t env event data d) = d_w (fail_stream env (c_messages (chat_of (flush_boundary event d))) info e)"
    and "d_tasks (onEvent t env event data d) = d_tasks (fail_stream env (c_messages (chat_of (flush_boundary event d))) info e)"
    and "d_wf (onEvent t env event data d) = d_wf (fail_stream env (c_messages (chat_of (flush_boundary event d))) info e)"
proof -
  have pre: "replay_gap event data d = d" "restore_provider event data e = e" "reconcile_envelope env event data e = ([], e)" for e
    using assms(2) by (auto simp: error_events_def replay_gap_def restore_provider_def reconcile_envelope_def is_envelope_def)
  let ?ms = "c_messages (chat_of (flush_boundary event d))"
  have step: "onEvent t env event data d = handle t env [] ?ms event data (flush_boundary event d)"
    using assms pre by (auto simp: onEvent_def error_events_def)
  consider "event = ''error''" | "event = ''stream_error''" | "event = ''retry_exhausted''"
    using assms(2) by (auto simp: error_events_def)
  then show ?thesis
  proof cases
    case 1
    then have "handle t env [] ?ms event data = h_error t env ?ms data" by (simp add: handle_def)
    then show ?thesis by (intro that [of "flush_boundary event d"]) (simp_all add: step h_error_def)
  next
    case 2
    then have "handle t env [] ?ms event data = h_stream_error t env ?ms data" by (simp add: handle_def)
    then show ?thesis
      by (intro that [of "on_ch (set_field F_retryState JNull) (flush_boundary event d)"]) (simp_all add: step h_stream_error_def)
  next
    case 3
    then have "handle t env [] ?ms event data = h_retry_exhausted t env ?ms data" by (simp add: handle_def)
    then show ?thesis
      by (intro that [of "on_ch (set_field F_retryState JNull) (flush_boundary event d)"]) (simp_all add: step h_retry_exhausted_def)
  qed
qed

lemma fail_stream_settled: "settled (fail_stream env ms info e)"
  by (simp add: fail_stream_def Let_def settled_def stream_op_defs abort_tasks_none ws_abort_none)

lemma fail_stream_subagents:
  "c_subagentContent (chat_of (fail_stream env ms info e)) =
     dmap (\<lambda>_. map (abortRunningBlock env (JStr ''failed''))) (c_subagentContent (chat_of e))"
  by (simp add: fail_stream_def Let_def abortRunningTools_def map_all_blocks_def)

lemma failed_keeps: "shown (failed_message info m) = shown m" "content_of (failed_message info m) = content_of m"
  "msg_cid (failed_message info m) = msg_cid m"
  by (simp_all add: failed_message_def shown_def is_assistant_def msg_role_def content_of_def msg_cid_def jget_jput)

lemma upd_last_contents:
  assumes "\<And>m. shown (f m) = shown m" and "\<And>m. content_of (f m) = content_of m"
  shows "map content_of (filter shown (upd_last f ms)) = map content_of (filter shown ms)"
  by (cases ms rule: rev_cases) (simp_all add: upd_last_def assms)

lemma fail_stream_messages:
  assumes "is_assistant (last_msg ms)"
  shows "map content_of (filter shown (c_messages (chat_of (fail_stream env ms info e)))) = map content_of (filter shown ms)"
  using assms
  by (simp add: fail_stream_def Let_def markCurrentResponseInterrupted_def interrupted_contents upd_last_contents failed_keeps)

text \<open>
  C18. A transport error, a stream error and exhausted retries settle the session: it is not streaming, has no
  abort handle, and no task, no workflow and no tool call of a subagent is running.
\<close>

theorem errors_settle:
  assumes "\<not> is_stale d" and "event \<in> set error_events"
  shows "settled (onEvent t env event data d)
    \<and> filter tool_running (concat (dvals (c_subagentContent (chat_of (onEvent t env event data d))))) = []"
proof -
  obtain info e where w: "d_w (onEvent t env event data d) = d_w (fail_stream env (c_messages (chat_of (flush_boundary event d))) info e)"
    and tk: "d_tasks (onEvent t env event data d) = d_tasks (fail_stream env (c_messages (chat_of (flush_boundary event d))) info e)"
    and wf: "d_wf (onEvent t env event data d) = d_wf (fail_stream env (c_messages (chat_of (flush_boundary event d))) info e)"
    using error_is_fail_stream [OF assms] by metis
  have "filter tool_running (concat (dvals (dmap (\<lambda>_. map (abortRunningBlock env (JStr ''failed''))) m))) = []"
    for m :: "(string, jsval list) dict"
    using abort_not_running [OF aborted_not_running(2)] by (auto simp: dvals_def dmap_def filter_empty_conv)
  then show ?thesis
    using fail_stream_settled [of env "c_messages (chat_of (flush_boundary event d))" info e]
    by (simp add: settled_def w tk wf fail_stream_subagents)
qed

theorem errors_settle_witness: "settled (onEvent demo_text (demo_env 9) ''error'' (JObj []) demo_started)"
  using errors_settle [OF demo_not_stale, of "''error''" demo_text "demo_env 9" "JObj []"] by (simp add: error_events_def)

text \<open>
  The same errors do not settle the transcript: when the last message is an assistant's, the blocks of all
  messages are those from before the abort, because the handler writes back the messages it read at its
  start. A tool card that was running is still running after the error.
\<close>

theorem error_restores_running_cards:
  assumes "\<not> is_stale d" and "event \<in> set error_events"
    and "is_assistant (last_msg (c_messages (chat_of (flush_boundary event d))))"
  shows "map content_of (filter shown (c_messages (chat_of (onEvent t env event data d))))
    = map content_of (filter shown (c_messages (chat_of (flush_boundary event d))))"
proof -
  obtain info e where "d_w (onEvent t env event data d) = d_w (fail_stream env (c_messages (chat_of (flush_boundary event d))) info e)"
    using error_is_fail_stream [OF assms(1,2)] by metis
  then show ?thesis using fail_stream_messages [OF assms(3)] by simp
qed

lemma flush_clean: "sb_dirty a = dempty \<Longrightarrow> snd (flush a) = a\<lparr>sb_timer := False\<rparr>"
  by (simp add: flush_def Let_def)

lemma clean_boundary:
  assumes "sb_dirty (sm_asm (d_sm d)) = dempty"
  shows "d_w (flush_boundary event d) = d_w d"
  using assms by (simp add: flush_boundary_def flush_clean with_asm_def Let_def)

definition demo_card :: jsval where
  "demo_card = JObj [(''type'', JStr ''tool_use''), (''id'', JStr ''t1''), (''name'', JStr ''Bash''), (''status'', JStr ''running'')]"

definition demo_running :: disp where
  "demo_running = set_messages [JObj [(''role'', JStr ''assistant''), (''content'', JArr [demo_card])]] demo_started"

lemma demo_running_facts:
  "\<not> is_stale demo_running" "d_w (flush_boundary event demo_running) = d_w demo_running"
  "c_messages (chat_of demo_running) = [JObj [(''role'', JStr ''assistant''), (''content'', JArr [demo_card])]]"
proof -
  show "\<not> is_stale demo_running" using demo_not_stale by (simp add: demo_running_def is_stale_def)
  have "sm_asm (d_sm demo_running) = createStreamingBlockAssembler True"
    using demo_started_ok by (auto simp: demo_running_def demo_started_def startStream_def Let_def begin_stream_def new_stream_def split: if_splits)
  then show "d_w (flush_boundary event demo_running) = d_w demo_running"
    by (intro clean_boundary) (simp add: createStreamingBlockAssembler_def)
qed (simp add: demo_running_def)

theorem error_restores_running_cards_witness:
  "map content_of (filter shown (c_messages (chat_of (onEvent demo_text (demo_env 9) ''error'' (JObj []) demo_running)))) = [[demo_card]]
    \<and> tool_running demo_card"
proof -
  have "map content_of (filter shown (c_messages (chat_of (onEvent demo_text (demo_env 9) ''error'' (JObj []) demo_running))))
      = map content_of (filter shown (c_messages (chat_of (flush_boundary ''error'' demo_running))))"
    by (rule error_restores_running_cards [OF demo_running_facts(1)])
      (simp_all add: error_events_def demo_running_facts last_msg_def is_assistant_def msg_role_def)
  then show ?thesis
    by (simp add: demo_running_facts shown_def is_assistant_def msg_role_def content_of_def tool_running_def demo_card_def)
qed

end
