(* ===== verification/StreamInvariant.thy ===== *)
theory StreamInvariant
  imports StreamProps
begin

text \<open>
  The invariant of the stream dispatcher: the invariants of the chat, the task tracker, the file browser, the
  workflows, the assembler and the registry, with the facts that tie them together (the stream stays bound to a
  live runtime, permission requests are distinct, the output kept of a shell is bounded). Each handler keeps it;
  the operations of the slices are used through the laws their own theories prove. The last section shows
  that the permission requests of a session refine a first-in-first-out list.
\<close>

section \<open>The invariant\<close>

definition perms_ok :: "chat \<Rightarrow> bool" where
  "perms_ok c \<longleftrightarrow> perm_ok c \<and> distinct (map req_id (perm_abs c)) \<and> JNaN \<notin> req_id ` set (perm_abs c)"

definition LIVE_OUTPUT_BOUND :: nat where
  "LIVE_OUTPUT_BOUND = MAX_LIVE_OUTPUT + length truncation_mark"

definition live_ok :: "task_store \<Rightarrow> bool" where
  "live_ok s \<longleftrightarrow> (\<forall>k. length (str_of (jget (task_of s k) ''liveOutput'')) \<le> LIVE_OUTPUT_BOUND)"

definition tasks_ok :: "task_store \<Rightarrow> bool" where
  "tasks_ok s \<longleftrightarrow> tracker_inv (tk_tracker s) \<and> live_ok s"

definition bound_ok :: "disp \<Rightarrow> bool" where
  "bound_ok d \<longleftrightarrow> rg_inv (d_reg d) \<and> dget (rg_runtimes (d_reg d)) (rt_key_of d) = Some (d_rt d)"

definition sr_inv :: "disp \<Rightarrow> bool" where
  "sr_inv d \<longleftrightarrow> chat_inv (d_w d) \<and> perms_ok (chat_of d) \<and> tasks_ok (d_tasks d) \<and> fb_inv (d_fb d) \<and> ws_inv (d_wf d)
     \<and> sb_inv (sm_asm (d_sm d)) \<and> bound_ok d"

section \<open>The chat\<close>

text \<open>An operation on the chat that keeps its invariant and does not touch the permission requests.\<close>

definition safe_chat :: "(chat \<Rightarrow> chat) \<Rightarrow> bool" where
  "safe_chat f \<longleftrightarrow> (\<forall>w. chat_inv w \<longrightarrow> chat_inv (on_chat f w))
     \<and> (\<forall>c. c_pendingPermission (f c) = c_pendingPermission c \<and> c_permissionQueue (f c) = c_permissionQueue c)"

named_theorems safe_ops \<open>operations that keep the invariant\<close>

lemma perms_ok_cong:
  "c_pendingPermission c' = c_pendingPermission c \<Longrightarrow> c_permissionQueue c' = c_permissionQueue c \<Longrightarrow> perms_ok c' = perms_ok c"
  by (simp add: perms_ok_def perm_ok_def perm_abs_def)

lemma bound_ok_cong: "d_reg d' = d_reg d \<Longrightarrow> d_rt d' = d_rt d \<Longrightarrow> bound_ok d' = bound_ok d"
  by (simp add: bound_ok_def)

lemma sr_on_ch: "safe_chat f \<Longrightarrow> sr_inv d \<Longrightarrow> sr_inv (on_ch f d)"
  using perms_ok_cong [of "f (chat_of d)" "chat_of d"] bound_ok_cong [of "on_ch f d" d]
  by (simp add: sr_inv_def safe_chat_def)

lemma safe_comp: "safe_chat f \<Longrightarrow> safe_chat g \<Longrightarrow> safe_chat (\<lambda>c. f (g c))"
  unfolding safe_chat_def by (simp add: on_chat_def) (metis chat_world.select_convs(1) chat_world.surjective chat_world.update_convs(1))

lemma safe_frame:
  assumes "\<And>c. c_sessionId (f c) = c_sessionId c" "\<And>c. c_runModeLocked (f c) = c_runModeLocked c"
    and "\<And>c. c_checkpoints (f c) = c_checkpoints c" "\<And>c. map msg_cid (c_messages (f c)) = map msg_cid (c_messages c)"
    and "\<And>c. c_pendingPermission (f c) = c_pendingPermission c" "\<And>c. c_permissionQueue (f c) = c_permissionQueue c"
  shows "safe_chat f"
  using assms cids_ok_same [OF assms(4)] by (simp add: safe_chat_def chat_inv_def on_chat_def)

lemma set_field_perms: "fl \<noteq> F_pendingPermission \<Longrightarrow> c_pendingPermission (set_field fl v c) = c_pendingPermission c"
  "c_permissionQueue (set_field fl v c) = c_permissionQueue c"
  by (cases fl; simp)+

lemma safe_set_field [safe_ops]: "fl \<noteq> F_pendingPermission \<Longrightarrow> safe_chat (set_field fl v)"
  by (rule safe_frame) (simp_all add: set_field_perms)

lemma safe_map_all [safe_ops]: "safe_chat (map_all_blocks f)"
  by (rule safe_frame) (simp_all add: map_all_cids)

lemma safe_blocks [safe_ops]:
  "safe_chat (finalizeStreamBlocks env)" "safe_chat clearUnfinishedStreamBlocks" "safe_chat (abortRunningTools env s)"
  "safe_chat (updateToolResult env i r u)" "safe_chat (applyAgentTaskNotification env n)"
  by (simp_all add: stream_op_defs safe_map_all)

lemma safe_patches [safe_ops]: "safe_chat (applyStreamBlockPatches ps)"
  by (rule safe_frame) (simp_all add: applyStreamBlockPatches_def main_patches_cids)

lemma safe_subagents [safe_ops]: "safe_chat (\<lambda>c. c\<lparr>c_subagentContent := g c\<rparr>)"
  by (rule safe_frame) simp_all

lemma safe_queued [safe_ops]: "safe_chat (\<lambda>c. c\<lparr>c_queuedUserMessages := g c\<rparr>)"
  by (rule safe_frame) simp_all

lemma safe_simple [safe_ops]:
  "safe_chat markRetrySucceeded" "safe_chat (setPromptSuggestion v)" "safe_chat clearPromptSuggestion" "safe_chat (removeQueuedMessage q)"
  "safe_chat clearQueuedMessages" "safe_chat (appendToSubagentContent p bs)" "safe_chat (subagent_tools p tools)"
  "safe_chat bumpStreamGeneration" "safe_chat (release_prompt ms)"
  by (rule safe_frame; simp add: markRetrySucceeded_def setPromptSuggestion_def clearPromptSuggestion_def removeQueuedMessage_def
      clearQueuedMessages_def appendToSubagentContent_def subagent_tools_def bumpStreamGeneration_def release_prompt_def Let_def)+

lemma safe_sessions [safe_ops]:
  "safe_chat (lockRunMode m)" "safe_chat (setSessionId v)" "safe_chat unlockUnclaimedRunMode"
  by (simp_all add: safe_chat_def chat_inv_def on_chat_def lockRunMode_def setSessionId_def unlockUnclaimedRunMode_def)

lemma safe_checkpoint [safe_ops]: "safe_chat (recordCheckpoint env u i p)"
  using session_step_inv [of _ "EvRecordCheckpoint env u i p"] by (simp add: safe_chat_def recordCheckpoint_def)

lemma safe_messages:
  assumes "\<And>ms. map msg_cid (g ms) = map msg_cid ms"
  shows "safe_chat (\<lambda>c. c\<lparr>c_messages := g (c_messages c)\<rparr>)"
  by (rule safe_frame) (simp_all add: assms)

lemma cids_upd_last_assistant:
  "(\<And>m. msg_cid (f m) = msg_cid m) \<Longrightarrow> map msg_cid (upd_last_assistant f ms) = map msg_cid ms"
  by (auto simp: upd_last_assistant_def map_update intro!: nth_equalityI simp: nth_upd split: option.split)

lemma cids_update: "i < length ms \<Longrightarrow> msg_cid m = msg_cid (ms ! i) \<Longrightarrow> map msg_cid (ms[i := m]) = map msg_cid ms"
  by (auto simp: map_update intro!: nth_equalityI simp: nth_upd)

lemma cids_interrupted: "map msg_cid (interrupted_from n ms) = map msg_cid ms"
proof -
  have "map msg_cid (interrupted_from n ms) = map msg_cid (take n ms @ drop n ms)"
    by (simp only: interrupted_from_map map_append map_map comp_def interrupt_keeps)
  then show ?thesis by simp
qed

lemma safe_interrupted [safe_ops]: "safe_chat markCurrentResponseInterrupted"
  by (rule safe_frame) (simp_all add: markCurrentResponseInterrupted_def cids_interrupted)

lemma sr_set_messages:
  assumes "sr_inv d" and "map msg_cid ms = map msg_cid (c_messages (chat_of d))"
  shows "sr_inv (set_messages ms d)"
proof -
  have "chat_inv (d_w (set_messages ms d))"
    using assms cids_ok_same [OF assms(2)] by (simp add: sr_inv_def chat_inv_def set_messages_def)
  moreover have "perms_ok (chat_of (set_messages ms d)) = perms_ok (chat_of d)" by (rule perms_ok_cong) simp_all
  moreover have "bound_ok (set_messages ms d) = bound_ok d" by (rule bound_ok_cong) simp_all
  ultimately show ?thesis using assms(1) by (simp add: sr_inv_def)
qed

lemma sr_addMessage:
  assumes "sr_inv d" and "truthy m" and "\<not> truthy (msg_cid m)"
  shows "sr_inv (on_w (addMessage m) d)"
proof -
  have "chat_inv (addMessage m (d_w d))"
    using assms stored_step_inv [of "d_w d" "EvAddMessage m"] by (simp add: sr_inv_def chat_ok_def)
  moreover have "perms_ok (w_chat (addMessage m (d_w d))) = perms_ok (chat_of d)"
    by (rule perms_ok_cong) (simp_all add: addMessage_def Let_def case_prod_unfold)
  moreover have "bound_ok (on_w (addMessage m) d) = bound_ok d" by (rule bound_ok_cong) simp_all
  ultimately show ?thesis using assms(1) by (simp add: sr_inv_def)
qed

section \<open>The other slices\<close>

lemma sr_on_tasks: "sr_inv d \<Longrightarrow> tasks_ok (p (d_tasks d)) \<Longrightarrow> sr_inv (on_tasks p d)"
  using bound_ok_cong [of "on_tasks p d" d] by (simp add: sr_inv_def)

lemma sr_on_ops [simp]: "sr_inv (on_ops q d) = sr_inv d"
  using bound_ok_cong [of "on_ops q d" d] by (simp add: sr_inv_def)

lemma sr_on_fb: "sr_inv d \<Longrightarrow> fb_inv (r (d_fb d)) \<Longrightarrow> sr_inv (on_fb r d)"
  using bound_ok_cong [of "on_fb r d" d] by (simp add: sr_inv_def)

lemma sr_open [safe_ops]: "sr_inv d \<Longrightarrow> sr_inv (on_fb (openFile now f) d)"
  by (rule sr_on_fb) (simp_all add: sr_inv_def fb_inv_open)

lemma sr_on_wf: "sr_inv d \<Longrightarrow> ws_inv (g (d_wf d)) \<Longrightarrow> sr_inv (on_wf g d)"
  using bound_ok_cong [of "on_wf g d" d] by (simp add: sr_inv_def)

lemma sr_on_sm: "sr_inv d \<Longrightarrow> sb_inv (sm_asm (u (d_sm d))) \<Longrightarrow> sr_inv (on_sm u d)"
  using bound_ok_cong [of "on_sm u d" d] by (simp add: sr_inv_def)

lemma sr_asm: "sr_inv d \<Longrightarrow> sb_inv (sm_asm (d_sm d))"
  by (simp add: sr_inv_def)

lemma sr_out [simp]: "sr_inv (out_fx x d) = sr_inv d"
  using bound_ok_cong [of "out_fx x d" d] by (simp add: sr_inv_def)

lemma sr_status [simp]: "sr_inv (set_status env s d) = sr_inv d"
  using bound_ok_cong [of "set_status env s d" d] by (simp add: sr_inv_def)

lemma sr_toast [simp]: "sr_inv (push_toast env l t b d) = sr_inv d"
  using bound_ok_cong [of "push_toast env l t b d" d] by (simp add: sr_inv_def)

text \<open>The registry: what the interface effects and the adoption of an id do to the bound runtime.\<close>

lemma bound_live: "bound_ok d \<Longrightarrow> d_rt d < length (rg_objs (d_reg d))"
  using live_runtime by (auto simp: bound_ok_def rg_inv_iff)

lemma bound_put_obj:
  assumes "bound_ok d" and "rt_key x = rt_key_of d" and "rt_sessionId x = rt_sessionId (rt_of d)"
  shows "bound_ok (d\<lparr>d_reg := put_obj (d_rt d) x (d_reg d)\<rparr>)"
proof -
  have "rg_inv0 (put_obj (d_rt d) x (d_reg d))" using assms by (intro put_obj_inv0) (auto simp: bound_ok_def rg_inv_iff)
  then show ?thesis using assms bound_live [OF assms(1)] by (simp add: bound_ok_def rg_inv_iff)
qed

lemma sr_uiFx: "sr_inv d \<Longrightarrow> sr_inv (uiFx f m d)"
proof -
  assume inv: "sr_inv d"
  then have "bound_ok (uiFx f m d)"
    using bound_put_obj [of d "(rt_of d)\<lparr>rt_ui := jput (jspread DEFAULT_UI_SNAPSHOT (jor (rt_ui (rt_of d)) (JObj []))) m\<rparr>"]
    by (simp add: sr_inv_def uiFx_def bound_ok_def)
  with inv show ?thesis by (simp add: sr_inv_def)
qed

lemma sr_show [safe_ops]:
  "sr_inv d \<Longrightarrow> sr_inv (fxShowCanvas c d)" "sr_inv d \<Longrightarrow> sr_inv (fxShowSummary d)" "sr_inv d \<Longrightarrow> sr_inv (show_plan b p q d)"
  by (simp_all add: fxShowCanvas_def fxShowSummary_def show_plan_def sr_uiFx)

lemma rekey_bound:
  assumes "bound_ok d" and "\<not> prefix ''draft-'' sid" and "sid \<noteq> []"
  shows "bound_ok (d\<lparr>d_reg := snd (rekeyRuntime (rt_key_of d) sid (d_reg d))\<rparr>)"
proof -
  have live: "dget (rg_runtimes (d_reg d)) (rt_key_of d) = Some (d_rt d)" and inv: "rg_inv (d_reg d)"
    using assms(1) by (simp_all add: bound_ok_def)
  then have "dget (rg_aliases (d_reg d)) (rt_key_of d) = None" using alias_dead by (simp add: rg_inv_iff)
  then have res: "resolveKey (d_reg d) (rt_key_of d) = rt_key_of d"
    using inv resolve_one_hop [of "d_reg d"] by (simp add: rg_inv_iff)
  have "rg_inv (snd (rekeyRuntime (rt_key_of d) sid (d_reg d)))" using rekey_inv [OF inv assms(2)] .
  then show ?thesis
    using live res assms(3) bound_live [OF assms(1)] by (auto simp: bound_ok_def rekeyRuntime_def Let_def)
qed

lemma bound_row:
  assumes "bound_ok d"
  shows "bound_ok (d\<lparr>d_reg := put_obj (d_rt d) ((rt_of d)\<lparr>rt_sidebarRowId := v\<rparr>) (d_reg d)\<rparr>)"
  by (rule bound_put_obj [OF assms]) simp_all

text \<open>A session id is not of the form of a draft's key.\<close>

definition sid_ok :: "string \<Rightarrow> bool" where
  "sid_ok sid \<longleftrightarrow> \<not> prefix ''draft-'' sid"

lemma sr_reg: "sr_inv d \<Longrightarrow> bound_ok (d\<lparr>d_reg := g\<rparr>) \<Longrightarrow> sr_inv (d\<lparr>d_reg := g\<rparr>)"
  by (simp add: sr_inv_def)

lemma sr_status_field [simp]: "sr_inv (d\<lparr>d_status := v\<rparr>) = sr_inv d"
  using bound_ok_cong [of "d\<lparr>d_status := v\<rparr>" d] by (simp add: sr_inv_def)

lemma sr_ui_field [simp]: "sr_inv (d\<lparr>d_ui := v\<rparr>) = sr_inv d"
  using bound_ok_cong [of "d\<lparr>d_ui := v\<rparr>" d] by (simp add: sr_inv_def)

lemma sr_bound: "sr_inv d \<Longrightarrow> bound_ok d"
  by (simp add: sr_inv_def)

lemma sr_adopt:
  assumes inv: "sr_inv d" and sid: "sid_ok sid"
  shows "sr_inv (adoptSessionId env sid d)"
proof (cases "sid = []")
  case False
  define d1 where "d1 = on_ch (setSessionId (JStr sid)) d"
  define d2 where "d2 = (if rt_key_of d1 \<noteq> sid then (out_fx (FxRekeyModel (rt_key_of d1) sid) d1)
      \<lparr>d_reg := snd (rekeyRuntime (rt_key_of d1) sid (d_reg d1)), d_status := status_rekey env (rt_key_of d1) sid (d_status d1)\<rparr> else d1)"
  define d3 where "d3 = d2\<lparr>d_reg := put_obj (d_rt d2) ((rt_of d2)\<lparr>rt_sidebarRowId := jor (rt_sidebarRowId (rt_of d2)) (JStr sid)\<rparr>) (d_reg d2)\<rparr>"
  have inv1: "sr_inv d1" unfolding d1_def by (rule sr_on_ch [OF _ inv]) (simp add: safe_ops)
  have "sr_inv (out_fx (FxRekeyModel (rt_key_of d1) sid) d1)" using inv1 by simp
  from rekey_bound [OF sr_bound [OF this]] sid False
  have "bound_ok (d1\<lparr>d_reg := snd (rekeyRuntime (rt_key_of d1) sid (d_reg d1))\<rparr>)"
    by (simp add: sid_ok_def bound_ok_def)
  from sr_reg [OF inv1 this] have inv2: "sr_inv d2"
    using inv1 by (auto simp: d2_def sr_inv_def bound_ok_def)
  have "sr_inv d3" unfolding d3_def by (rule sr_reg [OF inv2 bound_row [OF sr_bound [OF inv2]]])
  then have "sr_inv (on_sm (\<lambda>s. s\<lparr>sm_announced := True\<rparr>) d3)" and "sr_inv d3"
    by (auto intro!: sr_on_sm simp: sr_asm)
  then show ?thesis
    using False unfolding adoptSessionId_def Let_def d1_def [symmetric] d2_def [symmetric] d3_def [symmetric] by simp
qed (simp add: adoptSessionId_def inv)

section \<open>The assembler\<close>

lemma enrich_asm: "sm_asm (snd (foldl enrich_patch acc ps)) = sm_asm (snd acc)"
proof (induction ps arbitrary: acc)
  case (Cons p ps)
  have "sm_asm (snd (enrich_patch acc p)) = sm_asm (snd acc)"
    by (simp add: enrich_patch_def Let_def bump_group_def split: option.split)
  then show ?case using Cons by simp
qed simp

lemma sr_sm: "sr_inv d \<Longrightarrow> sb_inv (sm_asm s) \<Longrightarrow> sr_inv (d\<lparr>d_sm := s\<rparr>)"
  using bound_ok_cong [of "d\<lparr>d_sm := s\<rparr>" d] by (simp add: sr_inv_def)

lemma sr_onFlush: "sr_inv d \<Longrightarrow> sr_inv (onFlush d out)"
  using enrich_asm [of "([], d_sm d)" "fl_patches out"]
  by (auto simp: onFlush_def Let_def split: prod.split intro!: sr_on_ch sr_sm safe_ops simp: sr_asm)

lemma foldl_keeps: "P s \<Longrightarrow> (\<And>x e. e \<in> set es \<Longrightarrow> P x \<Longrightarrow> P (f x e)) \<Longrightarrow> P (foldl f s es)"
  by (induction es arbitrary: s) simp_all

lemma sr_with_asm: "sr_inv d \<Longrightarrow> sb_inv a \<Longrightarrow> sr_inv (with_asm a d)"
  unfolding with_asm_def Let_def by (intro foldl_keeps [of sr_inv]) (simp_all add: sr_on_sm sr_onFlush)

lemma sr_asm_step: "sr_inv d \<Longrightarrow> sr_inv (with_asm (sb_step (sm_asm (d_sm d)) e) d)"
  by (simp add: sr_with_asm sb_step_inv sr_asm)

lemma sr_asm_only: "sr_inv d \<Longrightarrow> sr_inv (on_sm (\<lambda>s. s\<lparr>sm_asm := sb_step (sm_asm s) e\<rparr>) d)"
  by (rule sr_on_sm) (simp_all add: sb_step_inv sr_asm)

text \<open>The closure's other variables do not matter to the invariant.\<close>

lemma sr_closure: "sr_inv d \<Longrightarrow> (\<And>s. sm_asm (u s) = sm_asm s) \<Longrightarrow> sr_inv (on_sm u d)"
  by (rule sr_on_sm) (simp_all add: sr_asm)

section \<open>Tasks and workflows\<close>

lemma updateTask_tracker [simp]: "tk_tracker (updateTask k data s) = tk_tracker s"
  by (simp add: updateTask_def)

lemma live_update:
  "tasks_ok s \<Longrightarrow> length (str_of (jget (jput (task_of s k) data) ''liveOutput'')) \<le> LIVE_OUTPUT_BOUND \<Longrightarrow> tasks_ok (updateTask k data s)"
  by (simp add: tasks_ok_def live_ok_def)

lemma live_bound: "tasks_ok s \<Longrightarrow> length (str_of (jget (task_of s k) ''liveOutput'')) \<le> LIVE_OUTPUT_BOUND"
  by (simp add: tasks_ok_def live_ok_def)

lemma tasks_update: "tasks_ok s \<Longrightarrow> ''liveOutput'' \<notin> fst ` set data \<Longrightarrow> tasks_ok (updateTask k data s)"
  by (rule live_update) (simp_all add: jget_jput_other live_bound)

lemma tasks_add: "tasks_ok s \<Longrightarrow> jget t ''liveOutput'' = JUndef \<Longrightarrow> tasks_ok (addTask t s)"
  by (simp add: tasks_ok_def live_ok_def addTask_def Let_def task_of_def)

lemma tasks_tracker:
  "tasks_ok s \<Longrightarrow> tasks_ok (tk_beginRound now r s)" "tasks_ok s \<Longrightarrow> tasks_ok (tk_toolUse now b q s)"
  "tasks_ok s \<Longrightarrow> tasks_ok (tk_toolResult env i rb tur s)"
proof -
  have live: "live_ok (s\<lparr>tk_tracker := x\<rparr>) = live_ok s" for x by (simp add: live_ok_def task_of_def)
  show "tasks_ok s \<Longrightarrow> tasks_ok (tk_beginRound now r s)" "tasks_ok s \<Longrightarrow> tasks_ok (tk_toolUse now b q s)"
    "tasks_ok s \<Longrightarrow> tasks_ok (tk_toolResult env i rb tur s)"
    using tr_step_inv [of "tk_tracker s" "TrBegin now r"] tr_step_inv [of "tk_tracker s" "TrUse now b q"]
      tr_step_inv [of "tk_tracker s" "TrResult env i rb tur"]
    by (simp_all add: tasks_ok_def live tk_beginRound_def tk_toolUse_def tk_toolResult_def)
qed

lemma tasks_todos: "tasks_ok (setTodos v s) = tasks_ok s" "tasks_ok (setTodoWriteInfo i s) = tasks_ok s"
  by (simp_all add: tasks_ok_def live_ok_def task_of_def setTodos_def setTodoWriteInfo_def)

lemma tasks_abort: "tasks_ok s \<Longrightarrow> tasks_ok (abortRunningTasks now s)"
proof -
  have "jget (task_of (abortRunningTasks now s) k) ''liveOutput'' = jget (task_of s k) ''liveOutput''" for k
    by (simp add: task_of_def abortRunningTasks_def aborted_task_def jget_jput split: option.split)
  then show "tasks_ok s \<Longrightarrow> ?thesis" by (simp add: tasks_ok_def live_ok_def abortRunningTasks_def)
qed

lemma capped_bound: "length (capped_output s) \<le> LIVE_OUTPUT_BOUND"
  by (simp add: capped_output_def LIVE_OUTPUT_BOUND_def)

lemma tasks_bash: "tasks_ok s \<Longrightarrow> tasks_ok (r_bash_output env tur rb s)"
proof -
  assume ok: "tasks_ok s"
  have "tasks_ok (updateTask k [(''liveOutput'', JStr (capped_output o')), (''shellStatus'', v)] s)" for k o' v
    using ok by (rule live_update) (simp add: jget_jput capped_bound)
  then have "tasks_ok (bash_output_update env tur rb k s)" for k
    by (simp add: bash_output_update_def Let_def tasks_update)
  with ok show ?thesis by (simp add: r_bash_output_def Let_def split: option.split)
qed

lemma tasks_kill: "tasks_ok s \<Longrightarrow> tasks_ok (r_kill_bash env tur s)"
  by (simp add: r_kill_bash_def Let_def tasks_update split: option.split)

lemma tasks_result: "tasks_ok s \<Longrightarrow> tasks_ok (updateTask k (task_result_data env tur rb entry) s)"
  by (rule live_update) (simp_all add: task_result_data_def Let_def jget_jput live_bound)

lemmas tasks_rules = tasks_update tasks_add tasks_tracker tasks_todos tasks_abort tasks_bash tasks_kill tasks_result

lemma sr_tasks: "sr_inv d \<Longrightarrow> tasks_ok (d_tasks d)" and sr_wf: "sr_inv d \<Longrightarrow> ws_inv (d_wf d)"
  by (simp_all add: sr_inv_def)

lemma sr_wf_step: "sr_inv d \<Longrightarrow> ws_ok e \<Longrightarrow> sr_inv (on_wf (\<lambda>w. ws_step w e) d)"
  by (rule sr_on_wf) (simp_all add: ws_step_inv sr_wf)

section \<open>Handshake and user messages\<close>

lemma sr_lock_mode: "sr_inv d \<Longrightarrow> sr_inv (lock_mode m f d)"
  by (simp add: lock_mode_def sr_on_ch safe_ops)

lemma sr_stream_init: "sr_inv d \<Longrightarrow> sr_inv (h_stream_init data d)"
  by (simp add: h_stream_init_def sr_lock_mode sr_on_ch safe_ops)

lemma sr_attach_ok: "sr_inv d \<Longrightarrow> sid_ok (key_of (jget data ''session_id'')) \<Longrightarrow> sr_inv (h_attach_ok env data d)"
  unfolding h_attach_ok_def Let_def by (intro sr_lock_mode sr_adopt) (simp_all add: sr_on_ch safe_ops)

lemma safe_idle [safe_ops]: "safe_chat (\<lambda>c. c\<lparr>c_isStreaming := v, c_streamAbort := a\<rparr>)"
  by (rule safe_frame) simp_all

lemma sr_attach_error: "sr_inv d \<Longrightarrow> sr_inv (h_attach_error env d)"
  by (simp add: h_attach_error_def Let_def sr_on_ch safe_ops)

lemma plain_messages [simp]:
  "truthy (fresh_assistant env)" "msg_cid (fresh_assistant env) = JUndef"
  "truthy (notif_message env data n d)" "msg_cid (notif_message env data n d) = JUndef"
  "truthy (compacting_message env)" "msg_cid (compacting_message env) = JUndef"
  by (simp_all add: fresh_assistant_def notif_message_def compacting_message_def msg_cid_def Let_def)

lemma prompt_plain [simp]: "truthy (prompt_message env imgs txts meta)" "msg_cid (prompt_message env imgs txts meta) = JUndef"
  by (simp_all add: prompt_message_def set_if_def msg_cid_def jget_jput)

lemma sr_fresh: "sr_inv d \<Longrightarrow> sr_inv (on_w (addMessage (fresh_assistant env)) d)"
  by (rule sr_addMessage) simp_all

lemma sr_user_notification: "sr_inv d \<Longrightarrow> sr_inv (user_notification env data n d)"
  by (simp add: user_notification_def Let_def sr_fresh sr_addMessage sr_on_ch safe_ops)

lemma sr_replay_prompt: "sr_inv d \<Longrightarrow> sr_inv (replay_prompt env data d)"
  unfolding replay_prompt_def Let_def
  by (auto intro!: sr_fresh sr_addMessage sr_on_tasks simp: tasks_rules sr_tasks msg_cid_def)

lemma attach_uuid_cids: "map msg_cid (snd (attach_uuid u ms)) = map msg_cid ms"
proof (cases "find_last_index (\<lambda>m. is_user m \<and> (\<not> truthy (jget m ''uuid'') \<or> jeq (jget m ''uuid'') u)) ms")
  case (Some i)
  then have "i < length ms" by (simp add: find_last_index_Some)
  then show ?thesis using Some by (simp add: attach_uuid_def cids_update msg_cid_def jget_jput)
qed (simp add: attach_uuid_def)

lemma sr_user_frame: "sr_inv d \<Longrightarrow> sr_inv (user_frame env data d)"
proof -
  assume inv: "sr_inv d"
  let ?ms = "snd (attach_uuid (jget data ''uuid'') (c_messages (chat_of d)))"
  have "sr_inv (set_messages ?ms d)" by (rule sr_set_messages [OF inv attach_uuid_cids])
  then show ?thesis
    using inv by (auto simp: user_frame_def Let_def case_prod_unfold intro!: sr_on_ch sr_replay_prompt safe_ops)
qed

lemma sr_user_message: "sr_inv d \<Longrightarrow> sr_inv (h_user_message env data d)"
  by (simp add: h_user_message_def sr_user_notification sr_user_frame split: option.split)

section \<open>Permissions\<close>

lemma sr_on_chat:
  assumes "sr_inv d" and "c_sessionId (f (chat_of d)) = c_sessionId (chat_of d)"
    and "c_runModeLocked (f (chat_of d)) = c_runModeLocked (chat_of d)" and "c_checkpoints (f (chat_of d)) = c_checkpoints (chat_of d)"
    and cids: "map msg_cid (c_messages (f (chat_of d))) = map msg_cid (c_messages (chat_of d))" and "perms_ok (f (chat_of d))"
  shows "sr_inv (on_ch f d)"
  using assms cids_ok_same [OF cids] bound_ok_cong [of "on_ch f d" d] by (simp add: sr_inv_def chat_inv_def)

lemma sr_plan_request: "sr_inv d \<Longrightarrow> sr_inv (plan_request env data d)"
  by (simp add: plan_request_def Let_def sr_on_ch safe_ops)

lemma sr_ask_request:
  assumes inv: "sr_inv d" and ms: "ms = c_messages (chat_of d)"
  shows "sr_inv (ask_request env ms data d)"
proof -
  have "sr_inv (on_ch (set_field F_pendingAskUser b) (on_sm bump_group d))" for b
    by (intro sr_on_ch sr_closure inv) (simp_all add: safe_ops bump_group_def)
  moreover have "map msg_cid (butlast ms @ [set_content b (last_msg ms)]) = map msg_cid ms" if "is_assistant (last_msg ms)" for b
    using that by (cases ms rule: rev_cases) (simp_all add: last_msg_def is_assistant_def msg_role_def msg_cid_def set_content_def jget_jput)
  ultimately show ?thesis using inv by (simp add: ask_request_def Let_def sr_set_messages ms)
qed

lemma list_ex_jeq: "v \<noteq> JNaN \<Longrightarrow> list_ex (\<lambda>p. jeq (req_id p) v) q \<longleftrightarrow> v \<in> req_id ` set q"
  by (auto simp: list_ex_iff jeq_def)

lemma sr_tool_request:
  assumes inv: "sr_inv d" and "truthy data" and "req_id data \<noteq> JNaN"
  shows "sr_inv (tool_request env data d)"
proof (cases "jeq (req_id (c_pendingPermission (chat_of d))) (req_id data) \<or> list_ex (\<lambda>p. jeq (req_id p) (req_id data)) (c_permissionQueue (chat_of d))")
  case False
  then have new: "req_id data \<notin> req_id ` set (perm_abs (chat_of d))"
    using assms(3) list_ex_jeq by (auto simp: perm_abs_def jeq_def)
  have "perms_ok (chat_of d)" using inv by (simp add: sr_inv_def)
  with new assms(2,3) have "perms_ok ((if truthy (c_pendingPermission (chat_of d)) then queuePermission data else set_field F_pendingPermission data) (chat_of d))"
    by (cases "truthy (c_pendingPermission (chat_of d))") (auto simp: perms_ok_def perm_ok_def perm_abs_def queuePermission_def image_iff)
  with inv show ?thesis using False by (simp add: tool_request_def Let_def) (auto intro!: sr_on_chat simp: queuePermission_def)
qed (auto simp: tool_request_def inv)

lemma sr_permission_request:
  assumes "sr_inv d" and "ms = c_messages (chat_of d)" and "truthy data" and "req_id data \<noteq> JNaN"
  shows "sr_inv (h_permission_request env ms data d)"
  using assms by (simp add: h_permission_request_def sr_plan_request sr_ask_request sr_tool_request)

lemma perms_resolve: "perms_ok c \<Longrightarrow> perms_ok (resolvePermission c)"
  by (cases "c_permissionQueue c") (auto simp: perms_ok_def perm_ok_def perm_abs_def resolvePermission_def jor_def)

lemma perms_filter:
  assumes "perms_ok c" and "c_pendingPermission c' = c_pendingPermission c" and "c_permissionQueue c' = filter P (c_permissionQueue c)"
  shows "perms_ok c'"
  using assms by (auto simp: perms_ok_def perm_ok_def perm_abs_def list_all_iff distinct_map_filter)

lemma cids_on_assistant: "map msg_cid (map (on_assistant f) ms) = map msg_cid ms"
  by (simp add: on_assistant_def msg_cid_def set_content_def jget_jput)

lemma settle_frame:
  "c_sessionId (settle_request rid data c) = c_sessionId c" "c_runModeLocked (settle_request rid data c) = c_runModeLocked c"
  "c_checkpoints (settle_request rid data c) = c_checkpoints c"
  "map msg_cid (c_messages (settle_request rid data c)) = map msg_cid (c_messages c)"
  using cids_on_assistant
  by (simp_all add: settle_request_def Let_def settle_messages_def resolvePermission_def split: list.split)

lemma settle_perms: "perms_ok c \<Longrightarrow> perms_ok (settle_request rid data c)"
proof -
  assume ok: "perms_ok c"
  let ?asked = "jeq (jget (c_pendingAskUser c) ''_permissionRequestId'') rid"
  define c1 where "c1 = (if ?asked then settle_messages rid data (jget (c_pendingAskUser c) ''_submittedAnswer'') c else c)"
  define c2 where "c2 = (if jeq (jget (c_pendingPlanApproval c) ''requestId'') rid then set_field F_pendingPlanApproval JNull c1 else c1)"
  define c3 where "c3 = (if ?asked then set_field F_pendingAskUser JNull c2 else c2)"
  have same: "c_pendingPermission c3 = c_pendingPermission c" "c_permissionQueue c3 = c_permissionQueue c"
    by (simp_all add: c3_def c2_def c1_def settle_messages_def)
  then have "perms_ok c3" using ok perms_ok_cong [of c3 c] by simp
  then have "perms_ok (resolvePermission c3)" by (rule perms_resolve)
  moreover have "perms_ok (c3\<lparr>c_permissionQueue := filter (\<lambda>p. \<not> jeq (req_id p) rid) (c_permissionQueue c)\<rparr>)"
    by (rule perms_filter [OF ok]) (simp_all add: same)
  ultimately show ?thesis
    unfolding settle_request_def Let_def c1_def [symmetric] c2_def [symmetric] c3_def [symmetric] by simp
qed

lemma sr_perms: "sr_inv d \<Longrightarrow> perms_ok (chat_of d)"
  by (simp add: sr_inv_def)

lemma sr_permission_settled: "sr_inv d \<Longrightarrow> sr_inv (h_permission_settled env data d)"
proof -
  assume inv: "sr_inv d"
  have "sr_inv (on_ch (settle_request (req_id data) data) d)"
    by (rule sr_on_chat [OF inv]) (simp_all add: settle_frame settle_perms sr_perms inv)
  with inv show ?thesis by (simp add: h_permission_settled_def Let_def)
qed

section \<open>Assistant messages and tool calls\<close>

lemma set_content_cid [simp]: "msg_cid (set_content b m) = msg_cid m"
  by (simp add: set_content_def msg_cid_def jget_jput)

lemma sr_narrative: "sr_inv d \<Longrightarrow> sr_inv (reconcileNarrativeBlocks data entries d)"
proof -
  assume inv: "sr_inv d"
  have sm: "sr_inv (on_sm (\<lambda>s. (bump_group s)\<lparr>sm_seen := seen\<rparr>) d)" for seen
    by (rule sr_closure [OF inv]) (simp add: bump_group_def)
  have "safe_chat (\<lambda>c. c\<lparr>c_messages := upd_last_assistant (\<lambda>m. set_content (f m) m) (c_messages c)\<rparr>)" for f
    by (rule safe_messages, rule cids_upd_last_assistant) simp
  then show ?thesis
    using sm by (auto simp: reconcileNarrativeBlocks_def Let_def case_prod_unfold intro!: sr_on_ch safe_subagents)
qed

lemma sr_assistant: "sr_inv d \<Longrightarrow> sr_inv (h_assistant env entries data d)"
proof -
  assume inv: "sr_inv d"
  have "sr_inv (on_sm (\<lambda>s. s\<lparr>sm_retryTimers := Suc (sm_retryTimers s)\<rparr>) (on_ch markRetrySucceeded d))"
    by (intro sr_closure sr_on_ch inv) (simp_all add: safe_ops)
  with inv show ?thesis by (simp add: h_assistant_def Let_def sr_narrative)
qed

lemma sr_retry_timer: "sr_inv d \<Longrightarrow> sr_inv (retry_timer d)"
  by (simp add: retry_timer_def Let_def sr_closure sr_on_ch safe_ops)

lemma sr_provider: "sr_inv d \<Longrightarrow> sr_inv (beginMainProviderMessage i d)"
  by (auto simp: beginMainProviderMessage_def intro!: sr_set_messages sr_closure cids_upd_last_assistant)
    (simp add: msg_cid_def provider_reset_def jget_jput)

lemma build_asm: "sm_asm (snd (foldl (build_tool env ents ps g) acc bs)) = sm_asm (snd acc)"
  by (induction bs arbitrary: acc) (simp_all add: build_tool_def Let_def)

lemma sr_build: "sr_inv d \<Longrightarrow> sr_inv (snd (build_tools env data entries d))"
  unfolding build_tools_def Let_def case_prod_unfold snd_conv
  by (intro sr_sm sr_closure) (simp_all add: build_asm bump_group_def sr_asm)

lemma sr_record_sdk: "sr_inv d \<Longrightarrow> sr_inv (record_sdk_task env d b)"
  unfolding record_sdk_task_def
  by (intro sr_on_tasks sr_closure) (simp_all add: hide_tool_def tasks_rules sr_tasks)

lemma sr_route: "sr_inv d \<Longrightarrow> sr_inv (route_file env data d b)"
  by (auto simp: route_file_def Let_def openToolFileInBrowser_def split: option.split intro!: sr_closure safe_ops)

text \<open>The loop over the tools of a main message does not touch the messages before its end.\<close>

definition loop_ok :: "jsval list \<Rightarrow> tool_acc \<Rightarrow> bool" where
  "loop_ok ms a \<longleftrightarrow> sr_inv (ta_d a) \<and> c_messages (chat_of (ta_d a)) = ms"

lemma loop_push [simp]: "loop_ok ms (ta_push b a) = loop_ok ms a"
  by (simp add: loop_ok_def ta_push_def)

lemma loop_content [simp]: "loop_ok ms (a\<lparr>ta_content := x\<rparr>) = loop_ok ms a"
  by (simp add: loop_ok_def)

lemma loop_on: "loop_ok ms a \<Longrightarrow> sr_inv (f (ta_d a)) \<Longrightarrow> c_messages (chat_of (f (ta_d a))) = c_messages (chat_of (ta_d a)) \<Longrightarrow> loop_ok ms (ta_on f a)"
  by (simp add: loop_ok_def ta_on_def)

lemma loop_inv: "loop_ok ms a \<Longrightarrow> sr_inv (ta_d a)"
  by (simp add: loop_ok_def)

lemma loop_hide: "loop_ok ms a \<Longrightarrow> loop_ok ms (ta_hide b a)"
  unfolding ta_hide_def by (rule loop_on) (simp_all add: sr_closure loop_inv hide_tool_def)

lemma loop_hide_inv: "loop_ok ms a \<Longrightarrow> sr_inv (ta_d (ta_hide b a))"
  by (rule loop_inv [OF loop_hide])

lemma loop_workflow: "loop_ok ms a \<Longrightarrow> loop_ok ms (tool_workflow b a)"
proof -
  assume ok: "loop_ok ms a"
  let ?seed = "JObj [(''script'', jget (block_input b) ''script''), (''workflowName'', jget (block_input b) ''name''), (''status'', JStr ''pending'')]"
  have "seed_ok ?seed" by (simp add: seed_ok_def obj_wf_def)
  then have "sr_inv (on_wf (ensureWorkflow i ?seed) (ta_d a))" for i
    using sr_wf_step [OF loop_inv [OF ok], of "WsEnsure i ?seed"] by simp
  then show ?thesis unfolding tool_workflow_def loop_push by (intro loop_on ok) (simp_all add: safe_ops)
qed

lemma loop_ask: "loop_ok ms a \<Longrightarrow> loop_ok ms (tool_ask env b a)"
proof -
  assume "loop_ok ms a"
  then have ok: "loop_ok ms (ta_on (on_sm (\<lambda>s. s\<lparr>sm_askUser := push_new i (sm_askUser s)\<rparr>)) (ta_hide b a))" for i
    by (intro loop_on loop_hide) (simp_all add: sr_closure loop_hide_inv)
  have last: "loop_ok ms x \<Longrightarrow> loop_ok ms (ta_on (\<lambda>d. set_status env ''attention'' (on_ch (set_field F_pendingAskUser p) d)) x)" for x p
    by (rule loop_on) (simp_all add: sr_on_ch safe_ops loop_inv)
  show ?thesis unfolding tool_ask_def Let_def by (rule last) (simp add: ok split: option.split)
qed

lemma loop_tasks: "loop_ok ms a \<Longrightarrow> tasks_ok (f (d_tasks (ta_d a))) \<Longrightarrow> loop_ok ms (ta_on (on_tasks f) a)"
  by (rule loop_on) (simp_all add: sr_on_tasks loop_inv)

lemma loop_tasks_ok: "loop_ok ms a \<Longrightarrow> tasks_ok (d_tasks (ta_d a))"
  by (simp add: loop_inv sr_tasks)

lemma loop_bash: "loop_ok ms a \<Longrightarrow> loop_ok ms (tool_bash_output b a)"
  using loop_tasks [OF loop_hide, of ms a] loop_tasks_ok [OF loop_hide, of ms a b]
  by (simp add: tool_bash_output_def Let_def loop_hide tasks_update split: option.split)

lemma loop_todo: "loop_ok ms a \<Longrightarrow> loop_ok ms (tool_todo env b a)"
  unfolding tool_todo_def loop_push
  by (rule loop_on) (auto intro!: sr_on_tasks sr_closure simp: loop_inv tasks_rules sr_tasks)

lemma loop_plan: "loop_ok ms a \<Longrightarrow> loop_ok ms (tool_plan b a)"
  unfolding tool_plan_def by (rule loop_on) (simp_all add: loop_hide loop_hide_inv safe_ops)

lemma loop_file: "loop_ok ms a \<Longrightarrow> loop_ok ms (tool_file env b a)"
  unfolding tool_file_def loop_push by (rule loop_on) (simp_all add: loop_hide loop_hide_inv safe_ops)

lemma sr_open_all:
  "sr_inv d \<Longrightarrow> sr_inv (foldl (\<lambda>x p. on_fb (openFile now (g p)) x) d ps)"
  "d_w (foldl (\<lambda>x p. on_fb (openFile now (g p)) x) d ps) = d_w d"
  by (induction ps arbitrary: d) (simp_all add: safe_ops)

lemma loop_generated: "loop_ok ms a \<Longrightarrow> loop_ok ms (tool_generated env b a)"
  unfolding tool_generated_def
  by (rule loop_on) (simp_all add: loop_hide loop_hide_inv safe_ops sr_open_all sr_closure)

lemma loop_plain: "loop_ok ms a \<Longrightarrow> loop_ok ms (tool_plain env b a)"
  using loop_tasks_ok [of ms a] by (simp add: tool_plain_def loop_tasks tasks_add)

lemma loop_step: "loop_ok ms a \<Longrightarrow> loop_ok ms (tool_step env a b)"
  by (simp add: tool_step_def loop_workflow loop_ask loop_bash loop_hide loop_todo loop_plan loop_file loop_generated loop_plain)

lemma sr_main_tools: "sr_inv d \<Longrightarrow> sr_inv (main_tools env tools d)"
proof (cases "find_last_index is_assistant (c_messages (chat_of d))")
  case (Some i)
  assume inv: "sr_inv d"
  let ?ms = "c_messages (chat_of d)"
  define a where "a = foldl (tool_step env) \<lparr>ta_d = d, ta_blocks = [],
      ta_content = filter (\<lambda>b. \<not> is_replaced tools b) (content_of (?ms ! i))\<rparr> tools"
  have "loop_ok ?ms a" unfolding a_def by (rule foldl_keeps [where P = "loop_ok ?ms"]) (simp_all add: loop_ok_def inv loop_step [unfolded loop_ok_def])
  moreover have "i < length ?ms" using Some by (simp add: find_last_index_Some)
  ultimately have "sr_inv (set_messages (?ms[i := m]) (ta_d a))" if "msg_cid m = msg_cid (?ms ! i)" for m
    using that by (auto intro!: sr_set_messages cids_update simp: loop_ok_def)
  moreover have "sr_inv (ta_d a)" using \<open>loop_ok ?ms a\<close> by (rule loop_inv)
  ultimately show ?thesis using Some by (simp add: main_tools_def Let_def a_def [symmetric] msg_cid_def jget_jput)
qed (simp add: main_tools_def)

lemma sr_tool_use: "sr_inv d \<Longrightarrow> sr_inv (h_tool_use env entries data d)"
proof -
  assume inv: "sr_inv d"
  define r where "r = build_tools env data entries (reconcileNarrativeBlocks data entries d)"
  have r: "sr_inv (snd r)" unfolding r_def by (intro sr_build sr_narrative inv)
  define d2 where "d2 = foldl (record_sdk_task env) (snd r) (filter is_sdk_task (fst r))"
  define d3 where "d3 = (if filter is_sdk_task (fst r) \<noteq> [] then fxShowCanvas (Some ''tasks'') d2 else d2)"
  define d4 where "d4 = (if list_ex is_agent_call (fst r) then fxShowSummary d3 else d3)"
  define d5 where "d5 = foldl (route_file env data) d4 (fst r)"
  have "sr_inv d2" unfolding d2_def by (rule foldl_keeps [of sr_inv, OF r]) (rule sr_record_sdk)
  then have "sr_inv d4" by (simp add: d4_def d3_def safe_ops)
  then have "sr_inv d5" unfolding d5_def by (rule foldl_keeps [of sr_inv]) (rule sr_route)
  then show ?thesis
    using inv r unfolding h_tool_use_def Let_def case_prod_unfold r_def [symmetric] d2_def [symmetric] d3_def [symmetric]
      d4_def [symmetric] d5_def [symmetric]
    by (simp add: sr_on_ch safe_ops sr_main_tools)
qed

section \<open>Tool results\<close>

lemma safe_drop_ask [safe_ops]: "safe_chat (drop_ask i)"
  using cids_on_assistant by (intro safe_frame) (simp_all add: drop_ask_def Let_def)

lemma sr_compact: "sr_inv d \<Longrightarrow> sr_inv (compact_result txt d)"
proof -
  assume inv: "sr_inv d"
  have "sr_inv (set_messages ((c_messages (chat_of d))[i := jput (c_messages (chat_of d) ! i) [(''summary'', v)]]) d)"
    if "find_last_index is_compact_msg (c_messages (chat_of d)) = Some i" for i v
    using that by (intro sr_set_messages inv cids_update) (simp_all add: find_last_index_Some msg_cid_def jget_jput)
  with inv show ?thesis by (simp add: compact_result_def Let_def sr_on_ch safe_ops split: option.split)
qed

lemma sr_peer: "sr_inv d \<Longrightarrow> sr_inv (peer_delivery env data pm d)"
  by (simp add: peer_delivery_def Let_def sr_on_ch safe_ops)

lemma sr_pending_file: "sr_inv d \<Longrightarrow> sr_inv (snd (r_pending_file env rb d))"
  by (auto simp: r_pending_file_def Let_def split: option.split intro!: sr_closure safe_ops)

lemma sr_r_task: "sr_inv d \<Longrightarrow> sr_inv (r_task env tasks tur rb d)"
  unfolding r_task_def Let_def
  by (cases "dget tasks (to_str (jget rb ''tool_use_id''))") (auto intro!: sr_on_tasks sr_on_ch safe_ops simp: tasks_rules sr_tasks)

lemma sr_complete_op: "sr_inv d \<Longrightarrow> sr_inv (complete_op env tur rb handled d op)"
  by (simp add: complete_op_def Let_def safe_ops)

lemma sr_r_files: "sr_inv d \<Longrightarrow> sr_inv (r_file_ops env tur rb handled d)"
  unfolding r_file_ops_def Let_def by (auto intro!: foldl_keeps [of sr_inv] sr_complete_op)

lemma sr_r_generated: "sr_inv d \<Longrightarrow> sr_inv (r_generated env tur rb d)"
  by (simp add: r_generated_def Let_def safe_ops sr_open_all(1) [where g = "\<lambda>f. f"])

lemma sr_r_todo: "sr_inv d \<Longrightarrow> sr_inv (r_todo env tur rb d)"
  unfolding r_todo_def Let_def
  by (auto split: option.split intro!: safe_ops sr_on_tasks simp: tasks_rules sr_tasks)

lemma sr_result_step: "sr_inv d \<Longrightarrow> sr_inv (result_step env tasks tur d rb)"
proof -
  assume inv: "sr_inv d"
  define d1 where "d1 = r_invalid_ask tur rb (on_tasks (tk_toolResult env (to_str (jget rb ''tool_use_id'')) rb tur) d)"
  have d0: "sr_inv (on_tasks (tk_toolResult env (to_str (jget rb ''tool_use_id'')) rb tur) d)"
    by (rule sr_on_tasks [OF inv]) (simp add: tasks_rules sr_tasks inv)
  then have "sr_inv d1" by (simp add: d1_def r_invalid_ask_def sr_on_ch safe_ops)
  then have d2: "sr_inv (snd (r_pending_file env rb d1))" by (rule sr_pending_file)
  define d4 where "d4 = r_task env tasks tur rb
      (if jget rb ''tool_use_id'' \<in> set (sm_hidden (d_sm (snd (r_pending_file env rb d1)))) then snd (r_pending_file env rb d1)
       else on_ch (updateToolResult env (jget rb ''tool_use_id'') rb tur) (snd (r_pending_file env rb d1)))"
  have "sr_inv d4" unfolding d4_def by (rule sr_r_task) (simp add: d2 sr_on_ch safe_ops)
  then have "sr_inv (on_tasks (\<lambda>s. r_kill_bash env (jor tur (JObj [])) (r_bash_output env (jor tur (JObj [])) rb s)) d4)"
    by (rule sr_on_tasks) (simp add: tasks_rules sr_tasks \<open>sr_inv d4\<close>)
  then show ?thesis
    unfolding result_step_def Let_def case_prod_unfold d1_def [symmetric] d4_def [symmetric]
    by (intro sr_r_todo sr_r_generated sr_r_files)
qed

lemma sr_plain_results: "sr_inv d \<Longrightarrow> sr_inv (plain_results env data d)"
proof -
  assume "sr_inv d"
  then have "sr_inv (foldl (result_step env tasks tur) d bs)" for tasks tur bs
    by (rule foldl_keeps [of sr_inv]) (rule sr_result_step)
  then show ?thesis
    by (auto simp: plain_results_def Let_def todo_fallback_def tasks_rules sr_tasks intro!: safe_ops sr_on_tasks)
qed

lemma sr_tool_result: "sr_inv d \<Longrightarrow> sr_inv (h_tool_result env data d)"
  by (simp add: h_tool_result_def Let_def sr_peer sr_compact sr_plain_results split: option.split)

section \<open>The result of a run\<close>

lemma result_message_cid: "msg_cid (result_message env s data m) = msg_cid m"
  by (simp add: result_message_def Let_def msg_cid_def jget_jput)

lemma cids_upd_last: "(\<And>m. msg_cid (f m) = msg_cid m) \<Longrightarrow> map msg_cid (upd_last f ms) = map msg_cid ms"
  by (cases ms rule: rev_cases) (simp_all add: upd_last_def)

lemma sr_result: "sr_inv d \<Longrightarrow> sid_ok (key_of (jget data ''session_id'')) \<Longrightarrow> sr_inv (h_result env data d)"
proof -
  assume inv: "sr_inv d" and sid: "sid_ok (key_of (jget data ''session_id''))"
  define d1 where "d1 = lock_mode (jget data ''run_mode'') (sm_runModeAtSend (d_sm d)) d"
  define d2 where "d2 = (if is_assistant (last_msg (c_messages (chat_of d1)))
      then set_messages (upd_last (result_message env (d_sm d1) data) (c_messages (chat_of d1))) d1 else d1)"
  have d1: "sr_inv d1" unfolding d1_def by (rule sr_lock_mode [OF inv])
  have "sr_inv (set_messages (upd_last (result_message env (d_sm d1) data) (c_messages (chat_of d1))) d1)"
    by (intro sr_set_messages [OF d1] cids_upd_last result_message_cid)
  with d1 have "sr_inv d2" by (simp add: d2_def)
  from sr_adopt [OF this sid] show ?thesis
    unfolding h_result_def Let_def d1_def [symmetric] d2_def [symmetric] by (simp add: sr_on_ch safe_ops)
qed

section \<open>Tasks, system messages and the queue\<close>

definition progress_ok :: "jsval \<Rightarrow> bool" where
  "progress_ok t \<longleftrightarrow> (case progress_list t of Some wp \<Rightarrow> list_all item_ok (arr_of wp) | None \<Rightarrow> True)"

lemma sr_update: "sr_inv d \<Longrightarrow> ''liveOutput'' \<notin> fst ` set data \<Longrightarrow> sr_inv (on_tasks (updateTask k data) d)"
  by (rule sr_on_tasks) (simp_all add: tasks_update sr_tasks)

lemma sr_task_started: "sr_inv d \<Longrightarrow> sr_inv (t_task_started env t d)"
proof -
  assume inv: "sr_inv d"
  have "seed_ok (start_fields t)" by (simp add: seed_ok_def obj_wf_def start_fields_def Let_def)
  then have "sr_inv (on_wf (applyStart now i (start_fields t)) d)" for now i
    using sr_wf_step [OF inv, of "WsStart now i (start_fields t)"] by simp
  moreover have "sr_inv (on_tasks (addTask (started_task env t i)) d)" for i
    by (rule sr_on_tasks [OF inv]) (simp add: started_task_def tasks_add sr_tasks inv)
  moreover have "sr_inv (on_tasks (\<lambda>s. updateTask k [(''task_id'', a), (''description'', f s), (''task_type'', b), (''status'', c)] s) d)" for k a b c f
    by (rule sr_on_tasks [OF inv]) (simp add: tasks_update sr_tasks inv)
  ultimately show ?thesis using inv by (simp add: t_task_started_def Let_def safe_ops)
qed

lemma sr_task_progress: "sr_inv d \<Longrightarrow> progress_ok t \<Longrightarrow> sr_inv (t_task_progress env t d)"
proof -
  assume inv: "sr_inv d" and ok: "progress_ok t"
  have "sr_inv (on_wf (applyProgress i (progress_fields t wp)) d)" if "progress_list t = Some wp" for i wp
    using sr_wf_step [OF inv, of "WsProgress i (progress_fields t wp)"] ok that
    by (simp add: progress_ok_def items_ok_def progress_fields_def Let_def)
  moreover have "sr_inv (on_tasks (\<lambda>s. updateTask k [(''progress'', a), (''description'', f s), (''last_tool_name'', b)] s) d)" for k a b f
    by (rule sr_on_tasks [OF inv]) (simp add: tasks_update sr_tasks inv)
  ultimately show ?thesis using inv by (simp add: t_task_progress_def safe_ops split: option.split)
qed

lemma sr_completion: "sr_inv d \<Longrightarrow> sr_inv (on_wf (\<lambda>w. snd (markCompletion now i flds w)) d)"
  using sr_wf_step [of d "WsComplete now i flds"] by simp

lemma sr_task_notification: "sr_inv d \<Longrightarrow> sr_inv (t_task_notification env t d)"
  unfolding t_task_notification_def Let_def
  by (auto split: option.split intro!: sr_completion sr_update sr_on_ch safe_ops)

lemma sr_task_updated: "sr_inv d \<Longrightarrow> sr_inv (t_task_updated env data d)"
  unfolding t_task_updated_def Let_def
  by (auto split: option.split intro!: sr_completion sr_update sr_on_ch safe_ops)

lemma sr_hook_event: "sr_inv d \<Longrightarrow> sr_inv (h_hook_event data d)"
proof -
  assume inv: "sr_inv d"
  have "sr_inv (snd (mergeHookEventIntoBlock i e d))" for i e
    using inv
    by (auto simp: mergeHookEventIntoBlock_def Let_def split: option.split intro!: sr_set_messages cids_update simp: find_last_index_Some)
  with inv show ?thesis by (simp add: h_hook_event_def Let_def case_prod_unfold sr_closure)
qed

lemma sr_compact_boundary: "sr_inv d \<Longrightarrow> sr_inv (compact_boundary nst d)"
proof -
  assume inv: "sr_inv d"
  let ?ms = "c_messages (chat_of d)"
  have "sr_inv (set_messages (?ms[i := jput (?ms ! i) [(''status'', a), (''compactMetadata'', b)]]) d)"
    if "find_index P ?ms = Some i" for i a b P
    using that by (intro sr_set_messages inv cids_update) (simp_all add: find_index_Some msg_cid_def jget_jput)
  with inv show ?thesis by (simp add: compact_boundary_def Let_def split: option.split)
qed

text \<open>What the events of a stream carry: JSON values, so no NaN, and session ids that are not keys of drafts.\<close>

definition ev_ok :: "jsval \<Rightarrow> bool" where
  "ev_ok data \<longleftrightarrow> truthy data \<and> req_id data \<noteq> JNaN \<and> sid_ok (key_of (jget data ''session_id''))
     \<and> sid_ok (key_of (jget (jor (jget data ''data'') (JObj [])) ''session_id''))
     \<and> progress_ok data \<and> progress_ok (jor (jget data ''data'') (JObj []))"

lemma sr_system: "sr_inv d \<Longrightarrow> ev_ok data \<Longrightarrow> sr_inv (h_system env data d)"
  by (simp add: h_system_def Let_def ev_ok_def sr_task_started sr_task_progress sr_task_notification sr_task_updated
      sr_compact_boundary sr_adopt sr_addMessage sr_on_ch safe_ops)

lemma sr_round: "sr_inv d \<Longrightarrow> sr_inv (on_tasks (tk_beginRound now r) d)"
  by (rule sr_on_tasks) (simp_all add: tasks_rules sr_tasks)

lemma sr_queue_flush: "sr_inv d \<Longrightarrow> sr_inv (h_queue_flush env data d)"
  by (simp add: h_queue_flush_def Let_def sr_on_ch safe_ops sr_fresh sr_addMessage sr_round)

lemma sr_remove_queued: "sr_inv d \<Longrightarrow> sr_inv (remove_queued data d)"
  by (simp add: remove_queued_def sr_on_ch safe_ops)

section \<open>Errors and the end of a stream\<close>

lemma sr_abort_tasks: "sr_inv d \<Longrightarrow> sr_inv (on_tasks (abortRunningTasks now) d)"
  by (rule sr_on_tasks) (simp_all add: tasks_rules sr_tasks)

lemma sr_abort_wf: "sr_inv d \<Longrightarrow> sr_inv (on_wf (ws_abortRunning now) d)"
  using sr_wf_step [of d "WsAbort now"] by simp

lemma safe_fail: "safe_chat (\<lambda>c. abortRunningTools env s (set_field F_streamAbort JNull (set_field F_isStreaming (JBool False) c)))"
  by (rule safe_frame) (simp_all add: stream_op_defs map_all_cids)

lemma sr_fail_stream:
  assumes inv: "sr_inv d" and ms: "map msg_cid ms = map msg_cid (c_messages (chat_of d))"
  shows "sr_inv (fail_stream env ms info d)"
proof -
  define d2 where "d2 = on_wf (ws_abortRunning (env_now env)) (on_tasks (abortRunningTasks (env_now env))
      (on_ch (\<lambda>c. abortRunningTools env (JStr ''failed'') (set_field F_streamAbort JNull (set_field F_isStreaming (JBool False) c))) d))"
  have d2: "sr_inv d2" unfolding d2_def by (intro sr_abort_wf sr_abort_tasks sr_on_ch safe_fail inv)
  have "map msg_cid (c_messages (chat_of d2)) = map msg_cid ms"
    by (simp add: d2_def ms stream_op_defs map_all_cids)
  then have "sr_inv (set_messages (upd_last (failed_message info) ms) d2)"
    by (intro sr_set_messages d2) (simp add: cids_upd_last failed_keeps)
  with d2 show ?thesis unfolding fail_stream_def Let_def d2_def [symmetric] by (simp add: sr_on_ch safe_ops)
qed

lemma sr_errors:
  assumes "sr_inv d" and "ms = c_messages (chat_of d)"
  shows "sr_inv (h_retry_exhausted t env ms data d)" "sr_inv (h_stream_error t env ms data d)" "sr_inv (h_error t env ms data d)"
  using assms by (simp_all add: h_retry_exhausted_def h_stream_error_def h_error_def sr_fail_stream sr_on_ch safe_ops)

lemma sr_rate_limit: "sr_inv d \<Longrightarrow> sr_inv (h_rate_limit t env data d)"
  by (simp add: h_rate_limit_def)

lemma safe_end [safe_ops]: "safe_chat end_chat"
  unfolding safe_chat_def
  by (simp add: chat_inv_def on_chat_def end_chat_def unlockUnclaimedRunMode_def clearQueuedMessages_def)

lemma sr_dispose_quietly: "sr_inv d \<Longrightarrow> sr_inv (dispose_quietly d)"
  using sr_asm_only [of d "Dispose False"] by (simp add: dispose_quietly_def)

lemma sr_finalize_wf: "sr_inv d \<Longrightarrow> sr_inv (on_wf (finalizeRunning now) d)"
  using sr_wf_step [of d "WsFinalize now"] by simp

lemma sr_dispose_flush: "sr_inv d \<Longrightarrow> sr_inv (with_asm (dispose True (sm_asm (d_sm d))) d)"
  using sr_asm_step [of d "Dispose True"] by simp

lemma sr_complete: "sr_inv d \<Longrightarrow> sr_inv (onComplete env d)"
  by (simp add: onComplete_def Let_def sr_dispose_quietly sr_on_ch safe_ops sr_finalize_wf sr_dispose_flush)

lemma sr_stream_abort: "sr_inv d \<Longrightarrow> sr_inv (stream_abort env live d)"
  by (simp add: stream_abort_def Let_def sr_complete sr_dispose_flush)

lemma safe_stop: "safe_chat (\<lambda>c. markCurrentResponseInterrupted (abortRunningTools env s (finalizeStreamBlocks env (bumpStreamGeneration c))))"
  by (rule safe_comp [OF safe_interrupted]) (rule safe_comp [OF safe_blocks(3)], rule safe_comp [OF safe_blocks(1)], rule safe_simple(8))

lemma perms_clear: "perms_ok (clearPermissions c)"
  by (simp add: perms_ok_def perm_ok_def perm_abs_def clearPermissions_def)

lemma sr_stop: "sr_inv d \<Longrightarrow> sr_inv (stopSessionStream env broadcast live d)"
proof -
  assume inv: "sr_inv d"
  define d0 where "d0 = (if broadcast \<and> key_of (c_sessionId (chat_of d)) \<noteq> [] then out_fx (FxBroadcastStop (key_of (c_sessionId (chat_of d)))) d else d)"
  define d3 where "d3 = on_wf (ws_abortRunning (env_now env)) (on_tasks (abortRunningTasks (env_now env))
      (on_ch (\<lambda>c. markCurrentResponseInterrupted (abortRunningTools env (JStr ''aborted'')
        (finalizeStreamBlocks env (bumpStreamGeneration c)))) (stream_abort env live d0)))"
  define d4 where "d4 = on_ch (\<lambda>c. clearPermissions (set_field F_wsSendPermission JNull (set_field F_streamAbort JNull
      (set_field F_isStreaming (JBool False) c)))) d3"
  have d0: "sr_inv d0" using inv by (simp add: d0_def)
  have d3: "sr_inv d3" unfolding d3_def by (intro sr_abort_wf sr_abort_tasks sr_on_ch safe_stop sr_stream_abort d0)
  have "sr_inv d4" unfolding d4_def by (rule sr_on_chat [OF d3]) (simp_all add: perms_clear, simp_all add: clearPermissions_def)
  then show ?thesis
    using sr_on_ch [OF _ d0, of bumpStreamGeneration] safe_simple(8)
    unfolding stopSessionStream_def Let_def d0_def [symmetric] d3_def [symmetric] d4_def [symmetric] by simp
qed

section \<open>Starts and answers\<close>

lemma sr_begin: "sr_inv d \<Longrightarrow> sr_inv (begin_stream env sid mode att d)"
  unfolding begin_stream_def Let_def
  by (intro sr_sm) (simp_all add: sr_on_ch safe_ops new_stream_def sb_inv_create)

lemma safe_bind [safe_ops]: "safe_chat (bind_transport tp)"
  by (rule safe_frame) (simp_all add: bind_transport_def)

lemma safe_start: "safe_chat (\<lambda>c. clearPromptSuggestion (lockRunMode m c))"
  by (rule safe_comp) (simp_all add: safe_ops)

lemma safe_prompt: "safe_chat (\<lambda>c. set_field F_retryState JNull (set_field F_lastUserPrompt p c))"
  by (rule safe_frame) simp_all

lemma sr_send_prompt: "sr_inv d \<Longrightarrow> sr_inv (send_prompt env rq d)"
  unfolding send_prompt_def Let_def
  by (intro sr_fresh sr_addMessage sr_round sr_on_ch safe_prompt) simp_all

lemma sr_start: "sr_inv d \<Longrightarrow> sr_inv (snd (startStream env settings tp rq d))"
  by (simp add: startStream_def Let_def sr_on_ch safe_ops sr_begin sr_send_prompt safe_start)

lemma sr_attach: "sr_inv d \<Longrightarrow> sr_inv (attachToRunningSession env settings tp sid d)"
  by (simp add: attachToRunningSession_def attachStream_def Let_def sr_on_ch safe_ops sr_begin)

lemma mark_ask_frame [simp]:
  "c_sessionId (mark_ask i data c) = c_sessionId c" "c_runModeLocked (mark_ask i data c) = c_runModeLocked c"
  "c_checkpoints (mark_ask i data c) = c_checkpoints c" "c_pendingPermission (mark_ask i data c) = c_pendingPermission c"
  "c_permissionQueue (mark_ask i data c) = c_permissionQueue c"
  by (simp_all add: mark_ask_def split: option.split)

lemma mark_ask_cids: "map msg_cid (c_messages (mark_ask i data c)) = map msg_cid (c_messages c)"
  by (auto simp: mark_ask_def split: option.split intro!: cids_update simp: find_last_index_Some)

lemma safe_answered [safe_ops]: "safe_chat (\<lambda>c. (mark_ask i data c)\<lparr>c_pendingAskUser := v\<rparr>)"
  by (rule safe_frame) (simp_all add: mark_ask_cids)

lemma sr_recompute [simp]: "sr_inv (recomputeActiveStatus env d) = sr_inv d"
  by (simp add: recomputeActiveStatus_def)

lemma sr_deliver: "sr_inv d \<Longrightarrow> safe_chat f \<Longrightarrow> safe_chat g \<Longrightarrow> sr_inv (deliver t env title route f g d)"
  by (simp add: deliver_def sr_on_ch split: delivery.split option.split)

lemma sr_answer: "sr_inv d \<Longrightarrow> sr_inv (sendAnswer t env settings tp ws http txt i a d)"
  by (simp add: sendAnswer_def Let_def sr_deliver sr_start sr_on_ch safe_ops)

lemma sr_decline: "sr_inv d \<Longrightarrow> sr_inv (declineAskUser t env ws http d)"
  by (simp add: declineAskUser_def Let_def sr_deliver sr_on_ch safe_ops)

lemma safe_id: "safe_chat id"
  by (rule safe_frame) simp_all

lemma sr_respond: "sr_inv d \<Longrightarrow> sr_inv (respondPermission t env ws http d)"
proof -
  assume inv: "sr_inv d"
  have "c_sessionId (resolvePermission c) = c_sessionId c" "c_runModeLocked (resolvePermission c) = c_runModeLocked c"
    "c_checkpoints (resolvePermission c) = c_checkpoints c" "c_messages (resolvePermission c) = c_messages c" for c
    by (simp_all add: resolvePermission_def split: list.split)
  then have "sr_inv (on_ch resolvePermission d)"
    by (intro sr_on_chat [OF inv]) (simp_all add: perms_resolve sr_perms inv)
  with inv show ?thesis
    by (simp add: respondPermission_def sr_deliver safe_id split: delivery.split option.split)
qed

section \<open>Every event\<close>

lemma sr_stream_event: "sr_inv d \<Longrightarrow> sr_inv (ev_stream_event env data d)"
proof -
  assume "sr_inv d"
  then have "sr_inv (if b then beginMainProviderMessage i d else d)" for b i by (simp add: sr_provider)
  then show ?thesis unfolding ev_stream_event_def Let_def by (metis sr_asm_step sb_step.simps(1))
qed

lemma sr_before_handler:
  assumes "sr_inv d"
  shows "sr_inv (restore_provider event data (flush_boundary event (replay_gap event data d)))"
proof -
  have "sr_inv (replay_gap event data d)"
    using assms sr_asm_only [OF assms, of ResetGap] by (simp add: replay_gap_def sr_on_ch safe_ops)
  then have "sr_inv (flush_boundary event (replay_gap event data d))"
    using sr_asm_step [of "replay_gap event data d" Flush] by (simp add: flush_boundary_def)
  then show ?thesis by (simp add: restore_provider_def sr_provider)
qed

lemma sr_reconcile: "sr_inv d \<Longrightarrow> sr_inv (snd (reconcile_envelope env event data d))"
  using sr_asm_step [of d "Reconcile (env_now env) data"] by (simp add: reconcile_envelope_def case_prod_unfold Let_def)

lemma sr_handle:
  assumes "sr_inv d" and "ev_ok data" and "ms = c_messages (chat_of d)"
  shows "sr_inv (handle t env entries ms event data d)"
proof -
  have ok: "truthy data" "req_id data \<noteq> JNaN" "sid_ok (key_of (jget data ''session_id''))" "progress_ok data"
    using assms(2) by (simp_all add: ev_ok_def)
  show ?thesis
    using assms(1,3) ok
    by (simp add: handle_def sr_stream_init sr_attach_ok sr_attach_error sr_user_message sr_permission_request sr_permission_settled
        sr_assistant sr_tool_use sr_tool_result sr_result sr_on_ch safe_ops sr_task_started sr_task_progress sr_task_notification
        sr_hook_event sr_system assms(2) sr_queue_flush sr_remove_queued sr_errors sr_rate_limit)
qed

lemma sr_event: "sr_inv d \<Longrightarrow> ev_ok data \<Longrightarrow> sr_inv (onEvent t env event data d)"
  by (simp add: onEvent_def Let_def case_prod_unfold sr_dispose_quietly sr_stream_event sr_handle sr_reconcile sr_before_handler)

primrec input_ok :: "stream_input \<Rightarrow> bool" where
  "input_ok (SiEvent env event data) = ev_ok data"
| "input_ok (SiComplete env) = True"
| "input_ok SiFlushTimer = True"
| "input_ok SiRetryTimer = True"
| "input_ok (SiStop env broadcast live) = True"
| "input_ok (SiDecline env ws http) = True"
| "input_ok (SiRespond env ws http) = True"
| "input_ok (SiSend env settings tp rq) = True"
| "input_ok (SiAttach env settings tp sid) = True"
| "input_ok (SiAnswer env settings tp ws http a i v) = True"

lemma sr_step_inv: "sr_inv d \<Longrightarrow> input_ok i \<Longrightarrow> sr_inv (sr_step t d i)"
  using sr_asm_step [of d TimerFire]
  by (cases i) (simp_all add: sr_event sr_complete sr_retry_timer sr_stop sr_decline sr_respond sr_start sr_attach sr_answer)

lemma sr_init: "sr_inv (init_disp env st)"
proof -
  have "chat_inv (init_chat_world st)" by (rule chat.inv_init)
  moreover have "rg_inv (init_registry (env_now env))" by (rule rg.inv_init)
  moreover have "tracker_inv createSdkTaskTrackerState" by (rule tracker.inv_init)
  ultimately show ?thesis
    using fbm.inv_init workflows.inv_init sb_inv_create
    by (simp add: sr_inv_def init_disp_def perms_ok_def perm_ok_def perm_abs_def tasks_ok_def live_ok_def bound_ok_def new_stream_def
        init_chat_world_def createChatStore_def createTaskStore_def task_of_def init_registry_def)
qed

interpretation streams: machine "init_disp env st" "sr_step t" "\<lambda>_ i. input_ok i" sr_inv for env st t
  by unfold_locales (simp_all add: sr_init sr_step_inv)

section \<open>Properties\<close>

lemma session_run_inv: "list_all input_ok is \<Longrightarrow> sr_inv (foldl (sr_step t) (init_disp env st) is)"
proof -
  assume "list_all input_ok is"
  then have "streams.ok_run t s is" for s by (intro streams.all_ok_run) (auto simp: list_all_iff)
  then show ?thesis using streams.run_inv [of t env st "is"] by (simp add: streams.run_foldl)
qed

text \<open>
  C1. Whatever a session goes through (sends, attachments, events in any order and number, stops, answers and
  timers), the dispatcher keeps the invariants of all the slices it writes to: list keys and checkpoints of
  the chat are distinct and a durable session is locked, the tracker, the file tabs, the workflows and the
  assembler are consistent, the permission requests on screen and in the queue are distinct and none waits
  behind an empty slot, and the stream stays bound to a live runtime filed under its own key.
\<close>

theorem dispatcher_invariant:
  assumes "list_all input_ok is" and "d = foldl (sr_step t) (init_disp env st) is"
  shows "chat_inv (d_w d) \<and> tracker_inv (tk_tracker (d_tasks d)) \<and> fb_inv (d_fb d) \<and> ws_inv (d_wf d) \<and> sb_inv (sm_asm (d_sm d))
    \<and> perm_ok (chat_of d) \<and> distinct (map req_id (perm_abs (chat_of d)))
    \<and> rg_inv (d_reg d) \<and> dget (rg_runtimes (d_reg d)) (rt_key_of d) = Some (d_rt d)"
  using session_run_inv [OF assms(1), of t env st] assms(2)
  by (simp add: sr_inv_def perms_ok_def tasks_ok_def bound_ok_def)

definition demo_session :: "stream_input list" where
  "demo_session =
     [SiSend (demo_env 5) JNull demo_transport (demo_request ''hello''),
      SiEvent (demo_env 6) ''system'' (JObj [(''subtype'', JStr ''init''), (''data'', JObj [(''session_id'', JStr ''s1'')])]),
      SiEvent (demo_env 7) ''permission_request'' (JObj [(''request_id'', JStr ''r1''), (''tool_name'', JStr ''Bash'')]),
      SiEvent (demo_env 8) ''permission_request'' (JObj [(''request_id'', JStr ''r2''), (''tool_name'', JStr ''Bash'')]),
      SiEvent (demo_env 9) ''permission_resolved'' (JObj [(''request_id'', JStr ''r1'')]),
      SiComplete (demo_env 10)]"

lemma demo_session_ok: "list_all input_ok demo_session"
  by (simp add: demo_session_def ev_ok_def sid_ok_def key_of_def req_id_def progress_ok_def progress_list_def Let_def jor_def)

theorem dispatcher_invariant_witness:
  "let d = foldl (sr_step demo_text) (init_disp (demo_env 5) demo_storage) demo_session
   in distinct (map req_id (perm_abs (chat_of d))) \<and> dget (rg_runtimes (d_reg d)) (rt_key_of d) = Some (d_rt d)"
  unfolding Let_def using dispatcher_invariant [OF demo_session_ok refl] by blast

text \<open>
  C34. The output kept of a background shell is bounded: in every run, however much output the shell reports, a
  task keeps at most 200000 characters of it and the mark of the truncation.
\<close>

theorem live_output_bounded:
  assumes "list_all input_ok is"
  shows "length (str_of (jget (task_of (d_tasks (foldl (sr_step t) (init_disp env st) is)) k) ''liveOutput''))
    \<le> MAX_LIVE_OUTPUT + length truncation_mark"
  using live_bound [OF sr_tasks [OF session_run_inv [OF assms, of t env st]], of k] by (simp add: LIVE_OUTPUT_BOUND_def)

theorem live_output_bounded_witness:
  "length (str_of (jget (task_of (d_tasks (foldl (sr_step demo_text) (init_disp (demo_env 5) demo_storage) demo_session)) ''b1'') ''liveOutput''))
    \<le> MAX_LIVE_OUTPUT + length truncation_mark"
  by (rule live_output_bounded [OF demo_session_ok])

section \<open>Permission requests\<close>

text \<open>
  The requests for permission to use a tool: one arrives with an event, another event says that one is
  settled, and the user answers the pending one.
\<close>

datatype perm_input =
    PermAsk js_env jsval
  | PermSettled js_env jsval
  | PermRespond js_env bool "string option"

fun perm_step :: "(string \<Rightarrow> jsval \<Rightarrow> string) \<Rightarrow> disp \<Rightarrow> perm_input \<Rightarrow> disp" where
  "perm_step t d (PermAsk env data) = tool_request env data d"
| "perm_step t d (PermSettled env data) = h_permission_settled env data d"
| "perm_step t d (PermRespond env ws http) = respondPermission t env ws http d"

text \<open>The specification is a list of requests; \<open>confirmed ws http\<close>: the answer was delivered by HTTP and succeeded.\<close>

fun fifo_step :: "(bool \<Rightarrow> string option \<Rightarrow> bool) \<Rightarrow> jsval list \<Rightarrow> perm_input \<Rightarrow> jsval list" where
  "fifo_step confirmed q (PermAsk env data) = (if req_id data \<in> req_id ` set q then q else q @ [data])"
| "fifo_step confirmed q (PermSettled env data) =
     (if truthy (req_id data) then filter (\<lambda>p. req_id p \<noteq> req_id data) q else q)"
| "fifo_step confirmed q (PermRespond env ws http) = (if confirmed ws http then tl q else q)"

fun perm_input_ok :: "perm_input \<Rightarrow> bool" where
  "perm_input_ok (PermAsk env data) = truthy (req_id data)"
| "perm_input_ok _ = True"

definition http_confirmed :: "disp \<Rightarrow> bool \<Rightarrow> string option \<Rightarrow> bool" where
  "http_confirmed d ws http \<longleftrightarrow> delivery_of ws http (chat_of d) = ByHttp None"

lemma req_id_truthy: "truthy (req_id data) \<Longrightarrow> truthy data"
  by (cases data) (auto simp: req_id_def)

lemma ask_fifo:
  assumes "perms_ok (chat_of d)" and "truthy (req_id data)"
  shows "perm_abs (chat_of (tool_request env data d)) = fifo_step confirmed (perm_abs (chat_of d)) (PermAsk env data)"
    and "perms_ok (chat_of (tool_request env data d))"
proof -
  have pend: "\<not> truthy (c_pendingPermission (chat_of d)) \<Longrightarrow> \<not> jeq (req_id (c_pendingPermission (chat_of d))) (req_id data)"
    using assms(2) by (cases "c_pendingPermission (chat_of d)") (auto simp: req_id_def jeq_def)
  have known: "jeq (req_id (c_pendingPermission (chat_of d))) (req_id data)
      \<or> list_ex (\<lambda>p. jeq (req_id p) (req_id data)) (c_permissionQueue (chat_of d))
    \<longleftrightarrow> req_id data \<in> req_id ` set (perm_abs (chat_of d))"
  proof (cases "truthy (c_pendingPermission (chat_of d))")
    case True
    then show ?thesis using truthy_not_nan [OF assms(2)] 
      by (simp add: perm_abs_def list_ex_jeq) (auto simp: jeq_def)
  next
    case False
    then show ?thesis using pend assms(1) by (simp add: perm_abs_def perms_ok_def perm_ok_def)
  qed
  show "perm_abs (chat_of (tool_request env data d)) = fifo_step confirmed (perm_abs (chat_of d)) (PermAsk env data)"
    using assms known req_id_truthy [OF assms(2)]
    by (simp add: tool_request_def Let_def) (auto simp: perm_abs_def perms_ok_def perm_ok_def queuePermission_def)
  show "perms_ok (chat_of (tool_request env data d))"
    using assms known req_id_truthy [OF assms(2)] truthy_not_nan [OF assms(2)]
    by (simp add: tool_request_def Let_def) (auto simp: perm_abs_def perms_ok_def perm_ok_def queuePermission_def)
qed

text \<open>What settles a request leaves the others in their order.\<close>

lemma settle_fifo:
  assumes "perms_ok c" and "truthy rid"
  shows "perm_abs (settle_request rid data c) = filter (\<lambda>p. req_id p \<noteq> rid) (perm_abs c)"
proof (cases "truthy (c_pendingPermission c)")
  case True
  have ok: "list_all truthy (c_permissionQueue c)" "distinct (map req_id (c_pendingPermission c # c_permissionQueue c))"
    using assms(1) True by (simp_all add: perms_ok_def perm_ok_def perm_abs_def)
  have rest: "filter (\<lambda>p. req_id p \<noteq> rid) (c_permissionQueue c) = c_permissionQueue c" if "req_id (c_pendingPermission c) = rid"
    using ok(2) that by (auto simp: filter_id_conv image_iff)
  have jeq: "jeq v rid \<longleftrightarrow> v = rid" for v using truthy_not_nan [OF assms(2)] by (auto simp: jeq_def)
  show ?thesis using True ok(1) rest
    by (cases "c_permissionQueue c") (auto simp: settle_request_def Let_def settle_messages_def perm_abs_def resolvePermission_def jeq jor_def)
next
  case False
  then have "c_permissionQueue c = []" using assms(1) by (auto simp: perms_ok_def perm_ok_def)
  with False show ?thesis
    by (simp add: settle_request_def Let_def settle_messages_def perm_abs_def resolvePermission_def)
qed

lemma settle_route:
  "c_wsSendPermission (settle_request rid data c) = c_wsSendPermission c" "c_streamId (settle_request rid data c) = c_streamId c"
  by (simp_all add: settle_request_def Let_def settle_messages_def resolvePermission_def split: list.split)

lemma resolve_fifo: "perm_ok c \<Longrightarrow> perm_abs (resolvePermission c) = tl (perm_abs c)"
  by (cases "c_permissionQueue c") (auto simp: perm_abs_def perm_ok_def resolvePermission_def jor_def)

lemma resolve_route [simp]:
  "c_wsSendPermission (resolvePermission c) = c_wsSendPermission c" "c_streamId (resolvePermission c) = c_streamId c"
  by (simp_all add: resolvePermission_def split: list.split)

lemma recompute_chat [simp]: "chat_of (recomputeActiveStatus env d) = chat_of d"
  by (simp add: recomputeActiveStatus_def)

lemma confirmed_cong:
  assumes "c_wsSendPermission (chat_of d') = c_wsSendPermission (chat_of d)" "c_streamId (chat_of d') = c_streamId (chat_of d)"
  shows "http_confirmed d' = http_confirmed d"
  unfolding http_confirmed_def delivery_of_def assms ..

lemma perm_step_refines:
  assumes "perms_ok (chat_of d)" and "perm_input_ok i"
  shows "perm_abs (chat_of (perm_step t d i)) = fifo_step (http_confirmed d) (perm_abs (chat_of d)) i \<and>
    perms_ok (chat_of (perm_step t d i)) \<and> http_confirmed (perm_step t d i) = http_confirmed d"
proof (cases i)
  case (PermAsk env data)
  have "http_confirmed (tool_request env data d) = http_confirmed d"
    by (rule confirmed_cong) (simp_all add: tool_request_def Let_def queuePermission_def)
  then show ?thesis using ask_fifo [OF assms(1), of data] assms(2) by (simp add: PermAsk)
next
  case (PermSettled env data)
  have chat: "chat_of (h_permission_settled env data d) =
      (if truthy (req_id data) then settle_request (req_id data) data (chat_of d) else chat_of d)"
    by (simp add: h_permission_settled_def Let_def)
  then have "http_confirmed (h_permission_settled env data d) = http_confirmed d" by (intro confirmed_cong) (simp_all add: settle_route)
  with chat show ?thesis using settle_fifo [OF assms(1)] settle_perms [OF assms(1)] assms(1) by (simp add: PermSettled)
next
  case (PermRespond env ws http)
  have ok: "perm_ok (chat_of d)" using assms(1) by (simp add: perms_ok_def)
  have chat: "chat_of (respondPermission t env ws http d) = (if http_confirmed d ws http then resolvePermission (chat_of d) else chat_of d)"
    by (auto simp: respondPermission_def http_confirmed_def deliver_def on_ch_def on_w_def on_chat_def split: delivery.split option.split)
  then have "http_confirmed (respondPermission t env ws http d) = http_confirmed d" by (intro confirmed_cong) simp_all
  with chat show ?thesis using resolve_fifo [OF ok] perms_resolve [OF assms(1)] assms(1) by (simp add: PermRespond)
qed

lemma perm_run_refines:
  assumes "perms_ok (chat_of d)" and "list_all perm_input_ok is"
  shows "perm_abs (chat_of (foldl (perm_step t) d is)) = foldl (fifo_step (http_confirmed d)) (perm_abs (chat_of d)) is \<and>
    perms_ok (chat_of (foldl (perm_step t) d is))"
  using assms
proof (induction "is" arbitrary: d)
  case (Cons i "is")
  have "perm_input_ok i" using Cons.prems(2) by simp
  note p = perm_step_refines [OF Cons.prems(1) this, of t]
  show ?case using Cons.IH [of "perm_step t d i"] Cons.prems(2) p by simp
qed simp

text \<open>
  C31. Permission requests are answered first come, first served. Whatever sequence of requests, settlements
  and answers of the user follows, the pending request and the queue behind it are the list that a FIFO
  queue holds after the same sequence: a request becomes the pending one when nothing is pending and goes
  to the end otherwise, unless a request with its id is there already; a confirmed answer takes the first
  one away and the next becomes pending; a settlement takes away the request it names, wherever it is,
  and leaves the others in their order. Requests carry an id.
\<close>

theorem permissions_fifo:
  assumes "perms_ok (chat_of d)" and "list_all perm_input_ok is" and "d' = foldl (perm_step t) d is"
    and "q = foldl (fifo_step (http_confirmed d)) (perm_abs (chat_of d)) is"
  shows "(if q = [] then \<not> truthy (c_pendingPermission (chat_of d')) \<and> c_permissionQueue (chat_of d') = []
    else c_pendingPermission (chat_of d') = hd q \<and> c_permissionQueue (chat_of d') = tl q)"
proof -
  have "perm_abs (chat_of d') = q" "perm_ok (chat_of d')"
    using perm_run_refines [OF assms(1,2), of t] by (simp_all add: assms(3,4) perms_ok_def)
  then show ?thesis by (auto simp: perm_abs_def perm_ok_def split: if_splits)
qed

definition demo_perm :: "string \<Rightarrow> jsval" where
  "demo_perm i = JObj [(''request_id'', JStr i), (''tool_name'', JStr ''Bash'')]"

text \<open>A stream over HTTP with nothing pending.\<close>

definition demo_http_stream :: disp where
  "demo_http_stream = on_ch (set_field F_streamId (JStr ''s'')) (init_disp (demo_env 0) demo_storage)"

definition demo_perms :: "perm_input list" where
  "demo_perms = [PermAsk (demo_env 1) (demo_perm ''p''), PermAsk (demo_env 2) (demo_perm ''q''), PermAsk (demo_env 3) (demo_perm ''q''),
     PermAsk (demo_env 4) (demo_perm ''r''), PermAsk (demo_env 5) (demo_perm ''s''), PermRespond (demo_env 6) False None,
     PermSettled (demo_env 7) (demo_perm ''r'')]"

theorem permissions_fifo_witness:
  "let c = chat_of (foldl (perm_step demo_text) demo_http_stream demo_perms)
   in c_pendingPermission c = demo_perm ''q'' \<and> c_permissionQueue c = [demo_perm ''s'']"
proof -
  have "c_pendingPermission (chat_of demo_http_stream) = JNull" "c_permissionQueue (chat_of demo_http_stream) = []"
    "http_confirmed demo_http_stream False None"
    by (simp_all add: demo_http_stream_def init_disp_def init_chat_world_def createChatStore_def http_confirmed_def delivery_of_def)
  then have d: "perms_ok (chat_of demo_http_stream)" "perm_abs (chat_of demo_http_stream) = []" "http_confirmed demo_http_stream False None"
    by (simp_all add: perms_ok_def perm_ok_def perm_abs_def)
  have "foldl (fifo_step (http_confirmed demo_http_stream)) [] demo_perms = [demo_perm ''q'', demo_perm ''s'']"
    using d(3) by (simp add: demo_perms_def demo_perm_def req_id_def)
  moreover have "list_all perm_input_ok demo_perms" by (simp add: demo_perms_def demo_perm_def req_id_def)
  ultimately show ?thesis using permissions_fifo [OF d(1) _ refl refl, of demo_perms demo_text] by (simp add: d(2))
qed

end
