(* ===== verification/StreamCalls.thy ===== *)
theory StreamCalls
  imports StreamProps
begin

text \<open>
  Two behaviours of tool calls in the stream dispatcher: an envelope that arrives again (a reconnected stream
  replays its tail) adds no second card, file operation or task, and the launch of a background shell is
  recorded as killed.
\<close>

section \<open>The finalized calls\<close>

abbreviation finals :: "disp \<Rightarrow> jsval list" where
  "finals d \<equiv> sm_finalized (d_sm d)"

lemma finals_record: "finals (record_sdk_task env d b) = finals d"
  by (simp add: record_sdk_task_def hide_tool_def)

lemma finals_route: "finals (route_file env data d b) = finals d"
  by (simp add: route_file_def Let_def openToolFileInBrowser_def split: option.split)

lemma finals_foldl: "(\<And>x e. finals (f x e) = finals x) \<Longrightarrow> finals (foldl f d es) = finals d"
  by (induction es arbitrary: d) simp_all

lemma finals_on: "(\<And>d. finals (f d) = finals d) \<Longrightarrow> finals (ta_d (ta_on f a)) = finals (ta_d a)"
  by (simp add: ta_on_def)

lemma finals_push [simp]: "finals (ta_d (ta_push b a)) = finals (ta_d a)"
  by (simp add: ta_push_def)

lemma finals_hide [simp]: "finals (ta_d (ta_hide b a)) = finals (ta_d a)"
  by (simp add: ta_hide_def finals_on hide_tool_def)

lemma finals_tool_step: "finals (ta_d (tool_step env a b)) = finals (ta_d a)"
  by (simp add: tool_step_def tool_workflow_def tool_ask_def tool_bash_output_def tool_todo_def tool_plan_def tool_file_def
      tool_generated_def tool_plain_def Let_def finals_on finals_foldl split: option.split)

lemma finals_tool_steps: "finals (ta_d (foldl (tool_step env) a bs)) = finals (ta_d a)"
  by (induction bs arbitrary: a) (simp_all add: finals_tool_step)

lemma finals_main: "finals (main_tools env tools d) = finals d"
  by (simp add: main_tools_def Let_def finals_tool_steps split: option.split)

lemma finals_narrative: "finals (reconcileNarrativeBlocks data entries d) = finals d"
  by (simp add: reconcileNarrativeBlocks_def Let_def case_prod_unfold bump_group_def)

text \<open>Building the cards of an envelope finalizes the ids of all its calls.\<close>

lemma build_finals:
  "set (sm_finalized (snd (foldl (build_tool env ents ps g) acc bs))) = set (sm_finalized (snd acc)) \<union> (\<lambda>b. jget b ''id'') ` set bs"
  by (induction bs arbitrary: acc) (auto simp: build_tool_def Let_def)

lemma build_tools_finals:
  "set (finals (snd (build_tools env data entries d))) = set (finals d) \<union> (\<lambda>b. jget b ''id'') ` set (new_tool_uses (d_sm d) data)"
  by (simp add: build_tools_def Let_def case_prod_unfold build_finals bump_group_def new_tool_uses_def)

lemma h_tool_use_finals:
  assumes "truthy (jget data ''content'')"
  shows "set (finals (h_tool_use env entries data d)) = set (finals d) \<union> (\<lambda>b. jget b ''id'') ` set (new_tool_uses (d_sm d) data)"
proof -
  define r where "r = build_tools env data entries (reconcileNarrativeBlocks data entries d)"
  have r: "set (finals (snd r)) = set (finals d) \<union> (\<lambda>b. jget b ''id'') ` set (new_tool_uses (d_sm d) data)"
    by (simp add: r_def build_tools_finals finals_narrative new_tool_uses_def)
  have "finals (h_tool_use env entries data d) = finals (snd r)"
    using assms unfolding h_tool_use_def Let_def case_prod_unfold r_def [symmetric]
    by (simp add: finals_main finals_foldl finals_record finals_route)
  with r show ?thesis by simp
qed

lemma no_new_uses: "truthy (jget data ''content'') \<Longrightarrow> new_tool_uses (d_sm (h_tool_use env entries data d)) data = []"
  by (auto simp: new_tool_uses_def [of "d_sm (h_tool_use env entries data d)"] h_tool_use_finals filter_empty_conv new_tool_uses_def)

lemma no_tools: "new_tool_uses (d_sm d) data = [] \<Longrightarrow> build_tools env data entries d = ([], on_sm bump_group d)"
  by (simp add: build_tools_def Let_def new_tool_uses_def bump_group_def on_sm_def)

lemma narrative_new_uses: "new_tool_uses (d_sm (reconcileNarrativeBlocks data entries d)) data' = new_tool_uses (d_sm d) data'"
  by (simp add: new_tool_uses_def finals_narrative)

text \<open>
  C14. A tool envelope counts once: after it has been handled, the same envelope (in a replay of the stream's
  tail, with whatever blocks the assembler reconciled) only merges its text and thinking blocks and takes a
  group number. It adds no card, task, file operation, file tab, question or workflow.
\<close>

theorem tool_calls_count_once:
  assumes "truthy (jget data ''content'')"
  shows "h_tool_use env' entries' data (h_tool_use env entries data d)
    = on_sm bump_group (reconcileNarrativeBlocks data entries' (h_tool_use env entries data d))"
proof -
  let ?d = "reconcileNarrativeBlocks data entries' (h_tool_use env entries data d)"
  have "new_tool_uses (d_sm ?d) data = []" using no_new_uses [OF assms] by (simp add: narrative_new_uses)
  from no_tools [OF this] show ?thesis using assms by (simp add: h_tool_use_def [of env' entries'] Let_def)
qed

definition demo_envelope :: jsval where
  "demo_envelope = JObj [(''content'', JArr [JObj [(''type'', JStr ''tool_use''), (''id'', JStr ''t1''), (''name'', JStr ''Bash''),
     (''input'', JObj [(''command'', JStr ''ls'')])]])]"

theorem tool_calls_count_once_witness:
  "h_tool_use (demo_env 8) [] demo_envelope (h_tool_use (demo_env 7) [] demo_envelope demo_started)
    = on_sm bump_group (reconcileNarrativeBlocks demo_envelope [] (h_tool_use (demo_env 7) [] demo_envelope demo_started))"
  by (rule tool_calls_count_once) (simp add: demo_envelope_def)

section \<open>The launch of a background shell\<close>

definition is_launch :: "jsval \<Rightarrow> jsval \<Rightarrow> bool" where
  "is_launch tur entry \<longleftrightarrow> block_name entry = JStr ''Bash'' \<and> truthy (jget (block_input entry) ''run_in_background'')
     \<and> truthy (jget tur ''shellId'') \<and> jget tur ''shell_id'' = JUndef \<and> jget tur ''bash_id'' = JUndef \<and> jget tur ''bashId'' = JUndef"

definition new_shell :: "jsval \<Rightarrow> task_store \<Rightarrow> bool" where
  "new_shell shell s \<longleftrightarrow> list_all (\<lambda>(k, t). jget t ''shellId'' \<noteq> shell) (tk_tasks s)"

lemma tasks_after:
  "tk_tasks (d_tasks (r_todo env tur rb d)) = tk_tasks (d_tasks d)" "d_tasks (r_generated env tur rb d) = d_tasks d"
  "d_tasks (r_file_ops env tur rb handled d) = d_tasks d" "d_tasks (r_invalid_ask tur rb d) = d_tasks d"
  "d_tasks (snd (r_pending_file env rb d)) = d_tasks d"
proof -
  have fold: "(\<And>x e. d_tasks (f x e) = d_tasks x) \<Longrightarrow> d_tasks (foldl f s es) = d_tasks s" for f :: "disp \<Rightarrow> jsval \<Rightarrow> disp" and s es
    by (induction es arbitrary: s) simp_all
  show "tk_tasks (d_tasks (r_todo env tur rb d)) = tk_tasks (d_tasks d)"
    by (simp add: r_todo_def Let_def setTodos_def setTodoWriteInfo_def split: option.split)
  show "d_tasks (r_generated env tur rb d) = d_tasks d" by (simp add: r_generated_def Let_def fold)
  show "d_tasks (r_file_ops env tur rb handled d) = d_tasks d"
    by (simp add: r_file_ops_def Let_def fold complete_op_def)
  show "d_tasks (r_invalid_ask tur rb d) = d_tasks d" by (simp add: r_invalid_ask_def)
  show "d_tasks (snd (r_pending_file env rb d)) = d_tasks d"
    by (simp add: r_pending_file_def Let_def split: option.split)
qed

lemma find_updated:
  "list_all (\<lambda>(k, t). jget t ''shellId'' \<noteq> shell) m \<Longrightarrow> jget v ''shellId'' = shell \<Longrightarrow> shell \<noteq> JNaN
    \<Longrightarrow> List.find (\<lambda>(k, t). jeq (jget t ''shellId'') shell) (AList.update i v m) = Some (i, v)"
  by (induction m) (auto simp: jeq_def)

lemma killed_after_launch:
  assumes "new_shell shell s" and "jget (jput (task_of s i) data) ''shellId'' = shell" and "truthy shell" and "i \<noteq> []"
    and "jget tur ''shell_id'' = JUndef" and "jget tur ''shellId'' = shell"
  shows "r_kill_bash env tur (updateTask i data s)
    = updateTask i [(''shellStatus'', JStr ''killed''), (''status'', JStr ''error''), (''endTime'', JNum (env_now env))] (updateTask i data s)"
proof -
  have "shell \<noteq> JNaN" using assms(3) by auto
  then have "find_shell shell (updateTask i data s) = Some i"
    using assms(1,2) by (simp add: find_shell_def updateTask_def dset_def new_shell_def find_updated)
  then show ?thesis using assms(3-6) by (simp add: r_kill_bash_def Let_def jor_def)
qed

text \<open>
  The result that launches a background shell marks its own task as killed: the branch for results of
  \<^verbatim>\<open>KillBash\<close> runs for every result with a shell id, finds the task in which the launch has just stored that id,
  and sets it to the status of an error.
\<close>

theorem launched_shell_marked_killed:
  assumes "dget (tk_tasks (d_tasks d)) i = Some entry" and "i \<noteq> []" and "jget rb ''tool_use_id'' = JStr i"
    and "is_launch tur entry" and "new_shell (jget tur ''shellId'') (d_tasks d)"
  shows "jget (task_of (d_tasks (result_step env (tk_tasks (d_tasks d)) tur d rb)) i) ''shellStatus'' = JStr ''killed''
    \<and> jget (task_of (d_tasks (result_step env (tk_tasks (d_tasks d)) tur d rb)) i) ''status'' = JStr ''error''"
proof -
  let ?tasks = "tk_tasks (d_tasks d)" and ?data = "task_result_data env tur rb entry"
  define s where "s = tk_toolResult env i rb tur (d_tasks d)"
  have s: "tk_tasks s = ?tasks" by (simp add: s_def tk_toolResult_def)
  have tur: "truthy tur" using assms(4) by (cases tur) (auto simp: is_launch_def)
  have data: "jget (jput x ?data) ''shellId'' = jget tur ''shellId''" for x
    using assms(4) by (simp add: is_launch_def task_result_data_def Let_def jor_def jget_jput)
  have kill: "r_kill_bash env tur (updateTask i ?data s) = updateTask i
      [(''shellStatus'', JStr ''killed''), (''status'', JStr ''error''), (''endTime'', JNum (env_now env))] (updateTask i ?data s)"
    using assms(2,4,5) data by (intro killed_after_launch) (simp_all add: is_launch_def new_shell_def s)
  have "task_of (d_tasks (result_step env ?tasks tur d rb)) i = task_of (r_kill_bash env tur (updateTask i ?data s)) i"
    using assms(1,3,4) tur
    by (simp add: result_step_def Let_def case_prod_unfold task_of_def tasks_after r_task_def r_bash_output_def is_launch_def jor_def s_def)
  then show ?thesis by (simp add: kill jget_jput)
qed

definition demo_launch :: disp where
  "demo_launch = on_tasks (addTask (JObj [(''tool_use_id'', JStr ''b1''), (''name'', JStr ''Bash''),
     (''input'', JObj [(''run_in_background'', JBool True)]), (''status'', JStr ''running'')])) (init_disp (demo_env 5) demo_storage)"

theorem launched_shell_marked_killed_witness:
  "jget (task_of (d_tasks (result_step (demo_env 6) (tk_tasks (d_tasks demo_launch)) (JObj [(''shellId'', JStr ''sh1'')]) demo_launch
     (JObj [(''type'', JStr ''tool_result''), (''tool_use_id'', JStr ''b1'')]))) ''b1'') ''status'' = JStr ''error''"
proof (rule conjunct2 [OF launched_shell_marked_killed])
  show "dget (tk_tasks (d_tasks demo_launch)) ''b1'' = Some (JObj [(''tool_use_id'', JStr ''b1''), (''name'', JStr ''Bash''),
     (''input'', JObj [(''run_in_background'', JBool True)]), (''status'', JStr ''running'')])"
    by (simp add: demo_launch_def addTask_def Let_def)
qed (simp_all add: is_launch_def block_name_def block_input_def new_shell_def demo_launch_def addTask_def Let_def init_disp_def
    createTaskStore_def dset_def dempty_def)

end
