(* ===== verification/ToolRuns.thy ===== *)
theory ToolRuns
  imports FileArtifacts "HOL-Library.Multiset"
begin

text \<open>
  The summaries of what an answer did: the runs of tool blocks that are folded into one line
  (\<^verbatim>\<open>web/user/src/utils/toolRunGrouping.js\<close>), the line itself with its counts and line deltas
  (\<^verbatim>\<open>web/user/src/utils/toolRunSummary.js\<close>), and the overview of a session: its files, sources,
  agents and changes (\<^verbatim>\<open>web/user/src/utils/sessionSummary.js\<close>).

  The translation function \<open>t\<close> of the line is a parameter: the text of a phrase comes from the
  message catalogue. A \<^verbatim>\<open>count\<close> of a canvas block is a number where it is present. The elements of a
  list of operations are objects.
\<close>

text \<open>The elements a \<^verbatim>\<open>for ... of\<close> loop visits: of an array its items, of a string its characters.\<close>

fun iter_of :: "jsval \<Rightarrow> jsval list" where
  "iter_of (JArr xs) = xs"
| "iter_of (JStr s) = map (\<lambda>c. JStr [c]) s"
| "iter_of _ = []"

section \<open>Runs of tool blocks\<close>

record 'a tool_run =
  tr_run :: "'a list"
  toolIndexes :: "nat list"
  endIndex :: nat
  lastToolIndex :: nat

function collect_from :: "'a list \<Rightarrow> ('a \<Rightarrow> bool) \<Rightarrow> ('a \<Rightarrow> bool) \<Rightarrow> 'a tool_run \<Rightarrow> 'a tool_run" where
  "collect_from blocks isToolBlock isTransparentBlock r =
     (if Suc (endIndex r) < length blocks
      then (let next = blocks ! Suc (endIndex r); i = Suc (endIndex r)
            in if isToolBlock next
               then collect_from blocks isToolBlock isTransparentBlock
                      \<lparr>tr_run = tr_run r @ [next], toolIndexes = toolIndexes r @ [i], endIndex = i, lastToolIndex = i\<rparr>
               else if isTransparentBlock next
               then collect_from blocks isToolBlock isTransparentBlock (r\<lparr>endIndex := i\<rparr>)
               else r)
      else r)"
  by pat_completeness auto
termination
  by (relation "measure (\<lambda>(blocks, _, _, r). length blocks - endIndex r)") (auto simp: Let_def)

declare collect_from.simps [simp del]

definition collectToolRun :: "'a list \<Rightarrow> nat \<Rightarrow> ('a \<Rightarrow> bool) \<Rightarrow> ('a \<Rightarrow> bool) \<Rightarrow> 'a tool_run" where
  "collectToolRun blocks startIndex isToolBlock isTransparentBlock =
     collect_from blocks isToolBlock isTransparentBlock
       \<lparr>tr_run = [blocks ! startIndex], toolIndexes = [startIndex], endIndex = startIndex, lastToolIndex = startIndex\<rparr>"

section \<open>Counting lines\<close>

definition count_line :: "nat \<times> nat \<Rightarrow> jsval \<Rightarrow> nat \<times> nat" where
  "count_line acc line =
     (if \<not> is_str line \<or> str_of line = [] then acc
      else if prefix ''+++'' (str_of line) then acc
      else if prefix ''---'' (str_of line) then acc
      else if hd (str_of line) = CHR ''+'' then (fst acc + 1, snd acc)
      else if hd (str_of line) = CHR ''-'' then (fst acc, snd acc + 1)
      else acc)"

definition countPatchLines :: "jsval \<Rightarrow> nat \<times> nat" where
  "countPatchLines patch =
     (if \<not> truthy patch \<or> \<not> is_arr (jget patch ''hunks'') then (0, 0)
      else foldl (\<lambda>acc hunk. foldl count_line acc (iter_of (jor (jget hunk ''lines'') (JArr []))))
             (0, 0) (arr_of (jget patch ''hunks'')))"

definition countContentLines :: "jsval \<Rightarrow> nat" where
  "countContentLines v =
     (if \<not> is_str v \<or> str_of v = [] then 0
      else (let str = str_of v; normalized = (if last str = newline then butlast str else str)
            in if normalized = [] then 0 else length (split_on (\<lambda>c. c = newline) normalized)))"

section \<open>The summary line of a run\<close>

definition findFileOp :: "jsval list \<Rightarrow> jsval \<Rightarrow> jsval" where
  "findFileOp fileOps block =
     (if \<not> truthy block then JNull
      else (case List.find (\<lambda>op. jeq (jget op ''id'') (jget block ''fileOpId'')
                   \<or> jeq (jget op ''id'') (jget block ''id'')
                   \<or> (truthy (jget block ''fileOpId'') \<and> jeq (jget op ''toolUseId'') (jget block ''fileOpId''))
                   \<or> (truthy (jget block ''id'') \<and> jeq (jget op ''toolUseId'') (jget block ''id''))) fileOps of
              Some op \<Rightarrow> op | None \<Rightarrow> JNull))"

definition isSuccessfulFileMutation :: "jsval \<Rightarrow> jsval \<Rightarrow> bool" where
  "isSuccessfulFileMutation block op =
     (let status = jor (jget op ''status'') (jget block ''status'');
          isError = status = JStr ''error'' \<or> truthy (jget (jget block ''result'') ''is_error'')
                    \<or> truthy (jget (jget op ''result'') ''is_error'')
      in if isError then False
         else if status = JStr ''running'' \<or> status = JStr ''pending'' then False
         else status = JStr ''success'' \<or> (\<not> truthy status \<and> \<not> truthy op))"

fun lowercaseFirst :: "string \<Rightarrow> string" where
  "lowercaseFirst [] = []"
| "lowercaseFirst (c # s) = lower_char c # s"

datatype group_key = Edited | Wrote | Generated | Reads | Search | Bash | WebFetch | WebSearch | Canvas | Other

definition GROUP_ORDER :: "group_key list" where
  "GROUP_ORDER = [Edited, Wrote, Generated, Reads, Search, Bash, WebFetch, WebSearch, Canvas, Other]"

fun group_name :: "group_key \<Rightarrow> string" where
  "group_name Edited = ''edited''"
| "group_name Wrote = ''wrote''"
| "group_name Generated = ''generated''"
| "group_name Reads = ''read''"
| "group_name Search = ''search''"
| "group_name Bash = ''bash''"
| "group_name WebFetch = ''webFetch''"
| "group_name WebSearch = ''webSearch''"
| "group_name Canvas = ''canvas''"
| "group_name Other = ''other''"

record run_totals =
  tr_groups :: "group_key \<Rightarrow> int"
  totalAdded :: nat
  totalRemoved :: nat

definition bump :: "group_key \<Rightarrow> int \<Rightarrow> run_totals \<Rightarrow> run_totals" where
  "bump k n s = s\<lparr>tr_groups := (tr_groups s)(k := tr_groups s k + n)\<rparr>"

definition add_lines :: "nat \<Rightarrow> nat \<Rightarrow> run_totals \<Rightarrow> run_totals" where
  "add_lines a r s = s\<lparr>totalAdded := totalAdded s + a, totalRemoved := totalRemoved s + r\<rparr>"

text \<open>A \<^verbatim>\<open>file_ref\<close> block: an edit without a patch counts its strings only when the operation has one.\<close>

definition count_file_ref :: "jsval \<Rightarrow> jsval \<Rightarrow> run_totals \<Rightarrow> run_totals" where
  "count_file_ref block op s =
     (let name = jget block ''name''; input = jget op ''input''
      in if name = JStr ''Edit'' \<or> name = JStr ''Write''
         then (if \<not> isSuccessfulFileMutation block op then s
               else (let s1 = bump (if name = JStr ''Edit'' then Edited else Wrote) 1 s;
                         (added, removed) = countPatchLines (jget op ''structuredPatch'')
                     in if added > 0 \<or> removed > 0 then add_lines added removed s1
                        else if name = JStr ''Write''
                        then add_lines (countContentLines (jor (jget op ''content'') (jget input ''content''))) 0 s1
                        else if \<not> nullish (jget input ''old_string'') \<or> \<not> nullish (jget input ''new_string'')
                        then add_lines (countContentLines (jget input ''new_string''))
                               (countContentLines (jget input ''old_string'')) s1
                        else s1))
         else if getToolDisplayName name = JStr GENERATED_TOOL_LABEL then bump Generated 1 s
         else s)"

definition count_tool_use :: "jsval \<Rightarrow> jsval \<Rightarrow> run_totals \<Rightarrow> run_totals" where
  "count_tool_use block op s =
     (let name = jget block ''name''
      in if name = JStr ''Write'' \<or> name = JStr ''Edit''
         then (if \<not> isSuccessfulFileMutation block op then s
               else (let s1 = bump (if name = JStr ''Edit'' then Edited else Wrote) 1 s;
                         input = jor (jor (jget op ''input'') (jget block ''input'')) (JObj []);
                         (added, removed) = countPatchLines (jget op ''structuredPatch'')
                     in if added > 0 \<or> removed > 0 then add_lines added removed s1
                        else if name = JStr ''Write''
                        then add_lines (countContentLines (jor (jget op ''content'') (jget input ''content''))) 0 s1
                        else add_lines (countContentLines (jget input ''new_string''))
                               (countContentLines (jget input ''old_string'')) s1))
         else if getToolDisplayName name = JStr GENERATED_TOOL_LABEL then bump Generated 1 s
         else if name = JStr ''Bash'' then bump Bash 1 s
         else if name = JStr ''Read'' then bump Reads 1 s
         else if name = JStr ''Grep'' \<or> name = JStr ''Glob'' then bump Search 1 s
         else if name = JStr ''WebFetch'' then bump WebFetch 1 s
         else if name = JStr ''WebSearch'' then bump WebSearch 1 s
         else bump Other 1 s)"

definition count_block :: "jsval list \<Rightarrow> run_totals \<Rightarrow> jsval \<Rightarrow> run_totals" where
  "count_block fileOps s block =
     (if \<not> truthy block then s
      else (let op = findFileOp fileOps block; type = jget block ''type''
            in if type = JStr ''file_ref'' then count_file_ref block op s
               else if type = JStr ''tool_use'' then count_tool_use block op s
               else if type = JStr ''canvas_ref''
               then bump Canvas (case jor (jget block ''count'') (JNum 1) of JNum n \<Rightarrow> n | _ \<Rightarrow> 1) s
               else s))"

record token =
  tk_text :: string
  tk_color :: "string option"

definition plain :: "string \<Rightarrow> token" where
  "plain s = \<lparr>tk_text = s, tk_color = None\<rparr>"

definition lastFileOpKey :: "run_totals \<Rightarrow> group_key option" where
  "lastFileOpKey s = (if tr_groups s Wrote > 0 then Some Wrote else if tr_groups s Edited > 0 then Some Edited else None)"

definition delta_tokens :: "run_totals \<Rightarrow> token list" where
  "delta_tokens s =
     [plain '' ''] @
     (if totalAdded s > 0 then [\<lparr>tk_text = ''+'' @ show_nat (totalAdded s), tk_color = Some ''var(--green)''\<rparr>] else []) @
     (if totalAdded s > 0 \<and> totalRemoved s > 0 then [plain '' ''] else []) @
     (if totalRemoved s > 0 then [\<lparr>tk_text = ''-'' @ show_nat (totalRemoved s), tk_color = Some ''var(--red)''\<rparr>] else [])"

text \<open>One round of the loop over \<^verbatim>\<open>GROUP_ORDER\<close>; the pair is the tokens so far and \<^verbatim>\<open>partIndex\<close>.\<close>

definition add_part :: "(string \<Rightarrow> int \<Rightarrow> string) \<Rightarrow> run_totals \<Rightarrow> token list \<times> nat \<Rightarrow> group_key \<Rightarrow> token list \<times> nat" where
  "add_part t s acc key =
     (case acc of (tokens, partIndex) \<Rightarrow>
        if tr_groups s key = 0 then acc
        else (let phrase = t (''toolCall.summary.'' @ group_name key) (tr_groups s key);
                  display = (if partIndex = 0 then phrase else lowercaseFirst phrase)
              in (tokens @ (if partIndex > 0 then [plain '', ''] else []) @ [plain display] @
                    (if lastFileOpKey s = Some key \<and> (totalAdded s > 0 \<or> totalRemoved s > 0) then delta_tokens s else []),
                  partIndex + 1)))"

definition no_totals :: run_totals where
  "no_totals = \<lparr>tr_groups = (\<lambda>_. 0), totalAdded = 0, totalRemoved = 0\<rparr>"

definition run_totals_of :: "jsval list \<Rightarrow> jsval list \<Rightarrow> run_totals" where
  "run_totals_of blocks fileOps = foldl (count_block fileOps) no_totals blocks"

definition summarizeRun :: "jsval list \<Rightarrow> jsval list \<Rightarrow> (string \<Rightarrow> int \<Rightarrow> string) \<Rightarrow> token list" where
  "summarizeRun blocks fileOps t = fst (foldl (add_part t (run_totals_of blocks fileOps)) ([], 0) GROUP_ORDER)"

section \<open>The files and sources of a session\<close>

text \<open>\<^verbatim>\<open>typeof v === 'string' ? v.trim() : ''\<close>\<close>

definition trimmed :: "jsval \<Rightarrow> string" where
  "trimmed v = (if is_str v then trim (str_of v) else [])"

definition canvas_path :: "jsval \<Rightarrow> string" where
  "canvas_path tab = trimmed (jget tab ''filePath'')"

definition canvas_step :: "jsval list \<times> string list \<Rightarrow> jsval \<Rightarrow> jsval list \<times> string list" where
  "canvas_step acc tab =
     (case acc of (kept, seen) \<Rightarrow>
        (let sourceTool = lower (to_str (jor (jor (jget tab ''sourceTool'') (jget tab ''source_tool'')) (JStr [])));
             filePath = canvas_path tab
         in if sourceTool = ''write'' \<or> sourceTool = ''edit'' then acc
            else if filePath = [] \<or> filePath \<in> set seen then acc
            else (kept @ [tab], seen @ [filePath])))"

definition uniqueCanvasFiles :: "jsval list \<Rightarrow> jsval list" where
  "uniqueCanvasFiles tabs = fst (foldl canvas_step ([], []) tabs)"

record source_entry =
  se_key :: string
  se_label :: string
  se_path :: string
  se_kind :: string
  se_src :: jsval

record source_index =
  sources :: "source_entry list"
  indexByIdentity :: "(string, nat) dict"
  indexByLabel :: "(string, nat) dict"

definition no_sources :: source_index where
  "no_sources = \<lparr>sources = [], indexByIdentity = dempty, indexByLabel = dempty\<rparr>"

text \<open>\<^verbatim>\<open>path.split('/').filter(Boolean).pop()\<close>, empty where it is undefined.\<close>

definition base_name :: "string \<Rightarrow> string" where
  "base_name path = (case rev (filter (\<lambda>w. w \<noteq> []) (split_on (\<lambda>c. c = CHR ''/'') path)) of [] \<Rightarrow> [] | w # _ \<Rightarrow> w)"

definition label_identity :: "source_entry \<Rightarrow> string" where
  "label_identity e = se_kind e @ '':'' @ se_label e"

definition enter_source :: "source_entry \<Rightarrow> source_index \<Rightarrow> source_index" where
  "enter_source e s =
     (case (case dget (indexByIdentity s) (se_key e) of Some i \<Rightarrow> Some i | None \<Rightarrow> dget (indexByLabel s) (label_identity e)) of
        Some i \<Rightarrow>
          (if truthy (se_src e) \<and> \<not> truthy (se_src (sources s ! i))
           then s\<lparr>sources := (sources s)[i := (sources s ! i)\<lparr>se_src := se_src e\<rparr>]\<rparr> else s)
      | None \<Rightarrow>
          \<lparr>sources = sources s @ [e],
           indexByIdentity = dset (se_key e) (length (sources s)) (indexByIdentity s),
           indexByLabel = dset (label_identity e) (length (sources s)) (indexByLabel s)\<rparr>)"

definition addSource :: "jsval \<Rightarrow> jsval \<Rightarrow> string \<Rightarrow> string \<Rightarrow> jsval \<Rightarrow> source_index \<Rightarrow> source_index" where
  "addSource label path kind key src s =
     (let normalizedLabel = trimmed label; normalizedPath = trimmed path
      in if normalizedLabel = [] \<and> normalizedPath = [] then s
         else (let resolvedLabel = (if normalizedLabel \<noteq> [] then normalizedLabel
                                    else if base_name normalizedPath \<noteq> [] then base_name normalizedPath
                                    else normalizedPath);
                   identity = (if normalizedPath \<noteq> [] then normalizedPath else if key \<noteq> [] then key
                               else kind @ '':'' @ resolvedLabel)
               in enter_source \<lparr>se_key = identity, se_label = resolvedLabel, se_path = normalizedPath,
                    se_kind = kind, se_src = src\<rparr> s))"

definition add_attachment :: "source_index \<Rightarrow> jsval \<Rightarrow> source_index" where
  "add_attachment s attachment =
     addSource (jor (jget attachment ''originalName'') (jget attachment ''name'')) (jget attachment ''path'')
       (if truthy (jget attachment ''isImage'') then ''image'' else ''file'') [] (JStr []) s"

definition add_image :: "jsval \<Rightarrow> source_index \<Rightarrow> nat \<times> jsval \<Rightarrow> source_index" where
  "add_image message s ib =
     (case ib of (index, block) \<Rightarrow>
        if jget block ''type'' \<noteq> JStr ''image'' then s
        else (let source = jget block ''source'';
                  mediaType = jor (jor (jget source ''media_type'') (jget source ''mediaType'')) (JStr ''image/png'');
                  data = jget source ''data''
              in addSource (jor (jget block ''filename'') (JStr (''Image '' @ show_nat (length (sources s) + 1)))) (JStr [])
                   ''image''
                   (to_str (jor (jor (jget message ''uuid'') (jget message ''_cid'')) (JStr ''message'')) @ '':image:'' @ show_nat index)
                   (if truthy data then JStr (''data:'' @ to_str mediaType @ '';base64,'' @ to_str data)
                    else jor (jor (jget block ''src'') (jget block ''url'')) (JStr [])) s))"

definition add_message_sources :: "source_index \<Rightarrow> jsval \<Rightarrow> source_index" where
  "add_message_sources s message =
     (if jget message ''role'' \<noteq> JStr ''user'' then s
      else foldl (add_image message)
             (foldl add_attachment s (iter_of (jor (jget message ''attachments'') (JArr []))))
             (enumerate 0 (arr_of (jget message ''content''))))"

definition uniqueConversationSources :: "jsval list \<Rightarrow> source_entry list" where
  "uniqueConversationSources messages = sources (foldl add_message_sources no_sources messages)"

section \<open>The agents of a session\<close>

definition is_agent_block :: "jsval \<Rightarrow> bool" where
  "is_agent_block block \<longleftrightarrow>
     jget block ''type'' = JStr ''tool_use'' \<and> (jget block ''name'' = JStr ''Agent'' \<or> jget block ''name'' = JStr ''Task'')"

definition agent_key :: "string \<Rightarrow> nat \<Rightarrow> jsval \<Rightarrow> jsval" where
  "agent_key parentKey index block =
     jor (jget block ''id'') (JStr (parentKey @ '':'' @ to_str (jget block ''name'') @ '':'' @ show_nat index))"

text \<open>
  The recursion \<^verbatim>\<open>visit\<close> with its call stack written out: a frame is the parent key of a list, the
  index of the next block and the blocks that remain. A new agent with an id opens a frame for its
  own content before the frame it stands in goes on. Every frame is finite and an id is entered only
  once, so the walk ends even where the content of an agent leads back to it.
\<close>

type_synonym frame = "string \<times> nat \<times> jsval list"

definition block_ids :: "jsval list \<Rightarrow> jsval set" where
  "block_ids bs = (\<lambda>b. jget b ''id'') ` set bs"

definition pending_ids :: "jsval \<Rightarrow> frame list \<Rightarrow> jsval set" where
  "pending_ids sub stk = (\<Union>(_, _, bs) \<in> set stk. block_ids bs) \<union> (\<Union>(k, v) \<in> set (obj_of sub). block_ids (arr_of v))"

lemma finite_pending [simp]: "finite (pending_ids sub stk)"
  by (auto simp: pending_ids_def block_ids_def)

lemma arr_of_jget_ids: "block_ids (arr_of (jget sub k)) \<subseteq> (\<Union>(k, v) \<in> set (obj_of sub). block_ids (arr_of v))"
proof (cases sub)
  case (JObj kvs)
  show ?thesis
  proof (cases "map_of kvs k")
    case None
    with JObj show ?thesis by (simp add: block_ids_def)
  next
    case (Some v)
    then have "(k, v) \<in> set kvs" by (rule map_of_SomeD)
    with JObj Some show ?thesis by auto
  qed
qed (simp_all add: block_ids_def)

lemma pending_rest: "pending_ids sub ((p, Suc i, bs) # stk) \<subseteq> pending_ids sub ((p, i, b # bs) # stk)"
  by (auto simp: pending_ids_def block_ids_def)

lemma pending_open:
  "pending_ids sub ((k, j, arr_of (jget sub aid)) # (p, Suc i, bs) # stk) \<subseteq> pending_ids sub ((p, i, b # bs) # stk)"
  using arr_of_jget_ids [of sub aid] by (auto simp: pending_ids_def block_ids_def)

lemma pending_skip:
  "S \<subseteq> S' \<Longrightarrow> card (pending_ids sub ((p, Suc i, bs) # stk) - S') \<le> card (pending_ids sub ((p, i, b # bs) # stk) - S)"
  using pending_rest [of sub p i bs stk b] by (intro card_mono) auto

lemma pending_enter:
  assumes "truthy (jget b ''id'')" and "agent_key p i b \<notin> S"
  shows "card (pending_ids sub ((k, j, arr_of (jget sub aid)) # (p, Suc i, bs) # stk) - insert (agent_key p i b) S)
    < card (pending_ids sub ((p, i, b # bs) # stk) - S)"
proof (rule psubset_card_mono)
  have "agent_key p i b \<in> pending_ids sub ((p, i, b # bs) # stk)"
    using assms(1) by (simp add: agent_key_def jor_truthy pending_ids_def block_ids_def)
  with assms(2) pending_open [of sub k j aid p i bs stk b]
  show "pending_ids sub ((k, j, arr_of (jget sub aid)) # (p, Suc i, bs) # stk) - insert (agent_key p i b) S
    \<subset> pending_ids sub ((p, i, b # bs) # stk) - S" by blast
qed simp

function visit :: "jsval \<Rightarrow> frame list \<Rightarrow> jsval list \<Rightarrow> jsval list \<Rightarrow> jsval list \<times> jsval list" where
  "visit sub [] agents seen = (agents, seen)"
| "visit sub ((parentKey, index, []) # stk) agents seen = visit sub stk agents seen"
| "visit sub ((parentKey, index, block # bs) # stk) agents seen =
     (let rest = (parentKey, Suc index, bs) # stk
      in if \<not> is_agent_block block then visit sub rest agents seen
         else (let key = agent_key parentKey index block
               in if key \<in> set seen then visit sub rest agents seen
                  else visit sub
                         (if truthy (jget block ''id'')
                          then (to_str key, 0, arr_of (jget sub (to_str (jget block ''id'')))) # rest else rest)
                         (agents @ [block]) (seen @ [key])))"
  by pat_completeness auto
termination
proof (relation "measures [\<lambda>(sub, stk, agents, seen). card (pending_ids sub stk - set seen),
    \<lambda>(sub, stk, agents, seen). sum_list (map (\<lambda>(_, _, bs). Suc (length bs)) stk)]", goal_cases)
  case 1
  then show ?case by simp
next
  case (2 sub parentKey index stk agents seen)
  have "pending_ids sub stk = pending_ids sub ((parentKey, index, []) # stk)"
    by (auto simp: pending_ids_def block_ids_def)
  then show ?case by simp
next
  case (3 sub parentKey index block bs stk agents seen)
  then show ?case using pending_skip [of "set seen" "set seen"] by (simp add: le_less)
next
  case (4 sub parentKey index block bs stk agents seen)
  then show ?case using pending_skip [of "set seen" "set seen"] by (simp add: le_less)
next
  case (5 sub parentKey index block bs stk agents seen)
  then show ?case
    using pending_enter [of block parentKey index "set seen"]
      pending_skip [of "set seen" "insert (agent_key parentKey index block) (set seen)" sub parentKey index bs stk block]
    by (auto simp: le_less)
qed

definition visit_message :: "jsval \<Rightarrow> jsval list \<times> jsval list \<Rightarrow> nat \<times> jsval \<Rightarrow> jsval list \<times> jsval list" where
  "visit_message sub acc im =
     (case im of (index, message) \<Rightarrow>
        visit sub
          [(''message:'' @ to_str (jor (jor (jget message ''uuid'') (jget message ''_cid'')) (JNum (int index))),
            0, arr_of (jget message ''content''))] (fst acc) (snd acc))"

definition uniqueConversationAgents :: "jsval list \<Rightarrow> jsval \<Rightarrow> jsval list" where
  "uniqueConversationAgents messages subagentContent =
     fst (foldl (visit_message subagentContent) ([], []) (enumerate 0 messages))"

definition hasSessionSummaryActivity :: "jsval list \<Rightarrow> jsval list \<Rightarrow> jsval list \<Rightarrow> jsval \<Rightarrow> bool" where
  "hasSessionSummaryActivity fileBrowserTabs fileOps messages subagentContent \<longleftrightarrow>
     length fileBrowserTabs > 0 \<or> length fileOps > 0 \<or> length (uniqueConversationAgents messages subagentContent) > 0"

section \<open>The changes of a session\<close>

definition isCanvasChangeOp :: "jsval \<Rightarrow> bool" where
  "isCanvasChangeOp op \<longleftrightarrow> lower (to_str (jor (jget op ''type'') (JStr []))) \<in> {''write'', ''edit''}"

definition fileOpLineStats :: "jsval \<Rightarrow> nat \<times> nat" where
  "fileOpLineStats op =
     (if \<not> isCanvasChangeOp op then (0, 0)
      else (let patchStats = countPatchLines (jget op ''structuredPatch'')
            in if fst patchStats > 0 \<or> snd patchStats > 0 then patchStats
               else (let input = jor (jget op ''input'') (JObj [])
                     in if lower (to_str (jget op ''type'')) = ''write''
                        then (countContentLines (jcoal (jget op ''content'') (jget input ''content'')), 0)
                        else (countContentLines (jget input ''new_string''), countContentLines (jget input ''old_string'')))))"

record canvas_changes =
  operations :: "jsval list"
  filePaths :: "string set"
  cc_added :: nat
  cc_removed :: nat

definition change_step :: "jsval list \<Rightarrow> canvas_changes \<Rightarrow> jsval \<Rightarrow> canvas_changes" where
  "change_step revertedIds c op =
     (let filePath = trimmed (jget op ''filePath'');
          c1 = (if filePath \<noteq> [] then c\<lparr>filePaths := insert filePath (filePaths c)\<rparr> else c)
      in if jget op ''status'' \<noteq> JStr ''success'' \<or> jget op ''id'' \<in> set revertedIds then c1
         else (let stats = fileOpLineStats op
               in c1\<lparr>cc_added := cc_added c1 + fst stats, cc_removed := cc_removed c1 + snd stats\<rparr>))"

text \<open>The source returns the size of \<open>filePaths\<close> as \<^verbatim>\<open>fileCount\<close>.\<close>

definition summarizeCanvasChanges :: "jsval list \<Rightarrow> jsval list \<Rightarrow> canvas_changes" where
  "summarizeCanvasChanges fileOps revertedToolUseIds =
     (let ops = filter isCanvasChangeOp fileOps
      in foldl (change_step revertedToolUseIds) \<lparr>operations = ops, filePaths = {}, cc_added = 0, cc_removed = 0\<rparr> ops)"

definition fileCount :: "canvas_changes \<Rightarrow> nat" where
  "fileCount c = card (filePaths c)"

section \<open>What a run holds\<close>

definition collecting :: "'a list \<Rightarrow> nat \<Rightarrow> ('a \<Rightarrow> bool) \<Rightarrow> ('a \<Rightarrow> bool) \<Rightarrow> 'a tool_run \<Rightarrow> bool" where
  "collecting blocks start isTool isTransparent r \<longleftrightarrow>
     start \<le> endIndex r \<and> endIndex r < length blocks \<and>
     toolIndexes r = start # filter (\<lambda>i. isTool (blocks ! i)) [Suc start..<Suc (endIndex r)] \<and>
     tr_run r = map ((!) blocks) (toolIndexes r) \<and> lastToolIndex r = last (toolIndexes r) \<and>
     (\<forall>i. start < i \<and> i \<le> endIndex r \<longrightarrow> isTool (blocks ! i) \<or> isTransparent (blocks ! i))"

lemma collect_from_spec:
  assumes "collecting blocks start isTool isTransparent r"
  shows "collecting blocks start isTool isTransparent (collect_from blocks isTool isTransparent r) \<and>
    (let e = endIndex (collect_from blocks isTool isTransparent r)
     in Suc e < length blocks \<longrightarrow> \<not> isTool (blocks ! Suc e) \<and> \<not> isTransparent (blocks ! Suc e))"
  using assms
proof (induction blocks isTool isTransparent r rule: collect_from.induct)
  case (1 blocks isTool isTransparent r)
  define i where "i = Suc (endIndex r)"
  consider (stop) "\<not> i < length blocks \<or> (\<not> isTool (blocks ! i) \<and> \<not> isTransparent (blocks ! i))"
    | (tool) "i < length blocks" "isTool (blocks ! i)"
    | (skip) "i < length blocks" "\<not> isTool (blocks ! i)" "isTransparent (blocks ! i)" by blast
  then show ?case
  proof cases
    case stop
    then have "collect_from blocks isTool isTransparent r = r"
      by (auto simp: collect_from.simps [of blocks isTool isTransparent r] i_def)
    with stop 1(3) show ?thesis by (auto simp: i_def Let_def)
  next
    case tool
    let ?r = "\<lparr>tr_run = tr_run r @ [blocks ! i], toolIndexes = toolIndexes r @ [i], endIndex = i, lastToolIndex = i\<rparr>"
    have eq: "collect_from blocks isTool isTransparent r = collect_from blocks isTool isTransparent ?r"
      using tool by (simp add: collect_from.simps [of blocks isTool isTransparent r] i_def)
    have "collecting blocks start isTool isTransparent ?r"
      using 1(3) tool by (auto simp: collecting_def i_def le_Suc_eq)
    from 1(1) [OF tool(1) [unfolded i_def] refl refl tool(2) [unfolded i_def]] this
    show ?thesis unfolding eq i_def by simp
  next
    case skip
    have eq: "collect_from blocks isTool isTransparent r = collect_from blocks isTool isTransparent (r\<lparr>endIndex := i\<rparr>)"
      using skip by (simp add: collect_from.simps [of blocks isTool isTransparent r] i_def)
    have "collecting blocks start isTool isTransparent (r\<lparr>endIndex := i\<rparr>)"
      using 1(3) skip by (auto simp: collecting_def i_def le_Suc_eq)
    from 1(2) [OF skip(1) [unfolded i_def] refl refl skip(2,3) [unfolded i_def]] this
    show ?thesis unfolding eq i_def by simp
  qed
qed

text \<open>The run collected from a tool block is the longest one: it holds the block it starts at and
  every tool block up to its end, in order and at the recorded indexes; only transparent blocks are
  skipped; and the block after its end, if there is one, is neither a tool block nor transparent.\<close>

theorem tool_run_is_maximal:
  assumes "start < length blocks" and "r = collectToolRun blocks start isTool isTransparent"
  shows "toolIndexes r = start # filter (\<lambda>i. isTool (blocks ! i)) [Suc start..<Suc (endIndex r)] \<and>
    tr_run r = map ((!) blocks) (toolIndexes r) \<and> lastToolIndex r = last (toolIndexes r) \<and>
    (\<forall>i. start < i \<and> i \<le> endIndex r \<longrightarrow> isTool (blocks ! i) \<or> isTransparent (blocks ! i)) \<and>
    (Suc (endIndex r) < length blocks \<longrightarrow>
      \<not> isTool (blocks ! Suc (endIndex r)) \<and> \<not> isTransparent (blocks ! Suc (endIndex r)))"
proof -
  let ?r0 = "\<lparr>tr_run = [blocks ! start], toolIndexes = [start], endIndex = start, lastToolIndex = start\<rparr>"
  have "collecting blocks start isTool isTransparent ?r0" using assms(1) by (auto simp: collecting_def)
  from collect_from_spec [OF this] show ?thesis
    unfolding assms(2) collectToolRun_def collecting_def Let_def by blast
qed

theorem tool_run_is_maximal_witness:
  "toolIndexes (collectToolRun [1, 0, 3, 0, 2, 5 :: nat] 0 odd (\<lambda>n. n = 0)) =
     0 # filter (\<lambda>i. odd ([1, 0, 3, 0, 2, 5 :: nat] ! i))
           [1..<Suc (endIndex (collectToolRun [1, 0, 3, 0, 2, 5 :: nat] 0 odd (\<lambda>n. n = 0)))]"
  using tool_run_is_maximal [of 0 "[1, 0, 3, 0, 2, 5 :: nat]" "collectToolRun [1, 0, 3, 0, 2, 5] 0 odd (\<lambda>n. n = 0)"
    odd "\<lambda>n. n = 0"] by simp

section \<open>The order of the blocks does not change the totals\<close>

lemma bump_add_lines [simp]: "bump k n (add_lines a r s) = add_lines a r (bump k n s)"
  by (simp add: bump_def add_lines_def)

lemma bump_zero [simp]: "bump k 0 s = s"
  by (simp add: bump_def)

lemma add_lines_zero [simp]: "add_lines 0 0 s = s"
  by (simp add: add_lines_def)

lemma bump_comm: "bump k n (bump k' n' s) = bump k' n' (bump k n s)"
  by (auto simp: bump_def fun_eq_iff)

lemma add_lines_comm: "add_lines a r (add_lines a' r' s) = add_lines a' r' (add_lines a r s)"
  by (simp add: add_lines_def)

definition delta_fun :: "(run_totals \<Rightarrow> run_totals) \<Rightarrow> bool" where
  "delta_fun f \<longleftrightarrow> (\<exists>k n a r. \<forall>s. f s = add_lines a r (bump k n s))"

lemma delta_both: "delta_fun (\<lambda>s. add_lines a r (bump k n s))"
  by (auto simp: delta_fun_def)

lemma delta_bump: "delta_fun (bump k n)"
  using delta_both [of 0 0 k n] by simp

lemma delta_id: "delta_fun (\<lambda>s. s)"
  using delta_both [of 0 0 Edited 0] by simp

lemma delta_if: "delta_fun f \<Longrightarrow> delta_fun g \<Longrightarrow> delta_fun (\<lambda>s. if b then f s else g s)"
  by (cases b) simp_all

lemmas delta_intros = delta_both delta_bump delta_id delta_if

lemma count_block_delta: "delta_fun (\<lambda>s. count_block fileOps s block)"
proof -
  obtain a r where p: "countPatchLines (jget (findFileOp fileOps block) ''structuredPatch'') = (a, r)" by fastforce
  show ?thesis
    unfolding count_block_def count_file_ref_def count_tool_use_def Let_def p prod.case
    by (intro delta_intros)
qed

lemma delta_comm: "delta_fun f \<Longrightarrow> delta_fun g \<Longrightarrow> f (g s) = g (f s)"
  by (auto simp: delta_fun_def bump_comm add_lines_comm)

definition demo_tool :: "string \<Rightarrow> jsval" where
  "demo_tool name = JObj [(''type'', JStr ''tool_use''), (''name'', JStr name)]"

text \<open>The counts and line deltas of a summary depend only on which blocks the run holds, not on
  the order in which the stream delivered them.\<close>

theorem run_totals_order_irrelevant:
  assumes "mset blocks = mset blocks'"
  shows "run_totals_of blocks fileOps = run_totals_of blocks' fileOps"
proof -
  have "fold (\<lambda>b s. count_block fileOps s b) blocks = fold (\<lambda>b s. count_block fileOps s b) blocks'"
    using assms by (intro fold_multiset_equiv) (auto simp: fun_eq_iff intro: delta_comm count_block_delta)
  then show ?thesis by (simp add: run_totals_of_def foldl_conv_fold)
qed

theorem run_totals_order_irrelevant_witness:
  "run_totals_of [demo_tool ''Read'', demo_tool ''Bash'', demo_tool ''Read''] [] =
     run_totals_of [demo_tool ''Bash'', demo_tool ''Read'', demo_tool ''Read''] []"
  by (rule run_totals_order_irrelevant) simp

section \<open>The text of the line\<close>

text \<open>The line as a grammar: the first phrase as it is, every further one lower-cased after a comma.\<close>

definition phrase_of :: "(string \<Rightarrow> int \<Rightarrow> string) \<Rightarrow> run_totals \<Rightarrow> group_key \<Rightarrow> string" where
  "phrase_of t s k = t (''toolCall.summary.'' @ group_name k) (tr_groups s k)"

definition delta_of :: "run_totals \<Rightarrow> group_key \<Rightarrow> token list" where
  "delta_of s k = (if lastFileOpKey s = Some k \<and> (totalAdded s > 0 \<or> totalRemoved s > 0) then delta_tokens s else [])"

fun line_of :: "(string \<Rightarrow> int \<Rightarrow> string) \<Rightarrow> run_totals \<Rightarrow> group_key list \<Rightarrow> token list" where
  "line_of t s [] = []"
| "line_of t s (k # ks) =
     plain (phrase_of t s k) # delta_of s k @
     concat (map (\<lambda>k'. [plain '', '', plain (lowercaseFirst (phrase_of t s k'))] @ delta_of s k') ks)"

lemma add_part_eq:
  "add_part t s (tokens, n) k =
     (if tr_groups s k = 0 then (tokens, n)
      else (tokens @ (if n > 0 then [plain '', ''] else []) @
              [plain (if n = 0 then phrase_of t s k else lowercaseFirst (phrase_of t s k))] @ delta_of s k, n + 1))"
  by (simp add: add_part_def phrase_of_def delta_of_def Let_def)

lemma add_part_later:
  "n > 0 \<Longrightarrow> fst (foldl (add_part t s) (acc, n) ks) =
     acc @ concat (map (\<lambda>k'. [plain '', '', plain (lowercaseFirst (phrase_of t s k'))] @ delta_of s k')
       (filter (\<lambda>k. tr_groups s k \<noteq> 0) ks))"
  by (induction ks arbitrary: acc n) (simp_all add: add_part_eq)

lemma add_part_first: "fst (foldl (add_part t s) ([], 0) ks) = line_of t s (filter (\<lambda>k. tr_groups s k \<noteq> 0) ks)"
  by (induction ks) (simp_all add: add_part_eq add_part_later)

lemma summarizeRun_line:
  "summarizeRun blocks fileOps t =
     (let s = run_totals_of blocks fileOps in line_of t s (filter (\<lambda>k. tr_groups s k \<noteq> 0) GROUP_ORDER))"
  by (simp add: summarizeRun_def add_part_first Let_def)

section \<open>Files\<close>

lemma foldl_invariant: "P a \<Longrightarrow> (\<And>a x. P a \<Longrightarrow> P (f a x)) \<Longrightarrow> P (foldl f a xs)"
  by (induction xs arbitrary: a) auto

definition canvas_ok :: "jsval list \<times> string list \<Rightarrow> bool" where
  "canvas_ok acc \<longleftrightarrow> snd acc = map canvas_path (fst acc) \<and> distinct (snd acc) \<and> [] \<notin> set (snd acc)"

lemma canvas_ok_step: "canvas_ok acc \<Longrightarrow> canvas_ok (canvas_step acc tab)"
  by (auto simp: canvas_ok_def canvas_step_def Let_def split: prod.splits)

lemma uniqueCanvasFiles_distinct: "distinct (map canvas_path (uniqueCanvasFiles tabs)) \<and> [] \<notin> canvas_path ` set (uniqueCanvasFiles tabs)"
proof -
  have "canvas_ok (foldl canvas_step ([], []) tabs)"
    by (rule foldl_invariant) (simp_all add: canvas_ok_step, simp add: canvas_ok_def)
  then show ?thesis by (auto simp: uniqueCanvasFiles_def canvas_ok_def)
qed

section \<open>Sources\<close>

text \<open>The two indexes agree with the list: every entry is found under its key and under its label.\<close>

definition sources_ok :: "source_index \<Rightarrow> bool" where
  "sources_ok s \<longleftrightarrow>
     (\<forall>k i. dget (indexByIdentity s) k = Some i \<longleftrightarrow> i < length (sources s) \<and> se_key (sources s ! i) = k) \<and>
     (\<forall>k i. dget (indexByLabel s) k = Some i \<longleftrightarrow> i < length (sources s) \<and> label_identity (sources s ! i) = k)"

lemma sources_ok_init: "sources_ok no_sources"
  by (simp add: sources_ok_def no_sources_def dempty_def)

lemma index_append:
  assumes d: "\<forall>k i. dget d k = Some i \<longleftrightarrow> i < length es \<and> f (es ! i) = k" and new: "dget d (f e) = None"
  shows "dget (dset (f e) (length es) d) k = Some i \<longleftrightarrow> i < length (es @ [e]) \<and> f ((es @ [e]) ! i) = k"
proof (cases "k = f e")
  case True
  have "f (es ! j) \<noteq> f e" if "j < length es" for j
  proof
    assume "f (es ! j) = f e"
    with d that have "dget d (f e) = Some j" by blast
    with new show False by simp
  qed
  with True show ?thesis by (auto simp: nth_append)
next
  case False
  with d show ?thesis by (auto simp: nth_append less_Suc_eq)
qed

lemma sources_ok_enter:
  assumes ok: "sources_ok s"
  shows "sources_ok (enter_source e s)"
proof (cases "dget (indexByIdentity s) (se_key e) = None \<and> dget (indexByLabel s) (label_identity e) = None")
  case True
  with ok index_append [of "indexByIdentity s" "sources s" se_key e]
    index_append [of "indexByLabel s" "sources s" label_identity e]
  show ?thesis by (simp add: enter_source_def sources_ok_def)
next
  case False
  have "sources_ok (s\<lparr>sources := (sources s)[i := (sources s ! i)\<lparr>se_src := v\<rparr>]\<rparr>)" for i v
    using ok by (cases "i < length (sources s)")
      (simp_all add: sources_ok_def nth_upd label_identity_def list_update_beyond)
  with False ok show ?thesis by (auto simp: enter_source_def split: option.splits)
qed

lemma sources_ok_addSource: "sources_ok s \<Longrightarrow> sources_ok (addSource label path kind key src s)"
  by (simp add: addSource_def Let_def sources_ok_enter)

lemma sources_ok_attachments: "sources_ok s \<Longrightarrow> sources_ok (foldl add_attachment s xs)"
  by (rule foldl_invariant [where P = sources_ok]) (simp_all add: add_attachment_def sources_ok_addSource)

lemma sources_ok_images: "sources_ok s \<Longrightarrow> sources_ok (foldl (add_image m) s xs)"
  by (rule foldl_invariant [where P = sources_ok])
    (simp_all add: add_image_def Let_def sources_ok_addSource split: prod.splits)

lemma sources_ok_message: "sources_ok s \<Longrightarrow> sources_ok (add_message_sources s m)"
  by (simp add: add_message_sources_def sources_ok_images sources_ok_attachments)

text \<open>The overview lists a source once: after any conversation the entries have distinct keys, and
  no two of them share both kind and label, however often a file or an image was attached.\<close>

theorem sources_are_unique:
  "distinct (map se_key (uniqueConversationSources messages)) \<and>
   distinct (map label_identity (uniqueConversationSources messages))"
proof -
  have "sources_ok (foldl add_message_sources no_sources messages)"
    by (rule foldl_invariant) (simp_all add: sources_ok_init sources_ok_message)
  then show ?thesis
    unfolding sources_ok_def uniqueConversationSources_def distinct_conv_nth by (auto, (metis option.inject)+)
qed

section \<open>Agents\<close>

text \<open>The agent blocks of a conversation: those of its messages, and those of the content of such an agent.\<close>

inductive agent_reach :: "jsval list \<Rightarrow> jsval \<Rightarrow> jsval \<Rightarrow> bool" for messages sub where
  root: "m \<in> set messages \<Longrightarrow> b \<in> set (arr_of (jget m ''content'')) \<Longrightarrow> is_agent_block b \<Longrightarrow> agent_reach messages sub b"
| child: "agent_reach messages sub a \<Longrightarrow> truthy (jget a ''id'') \<Longrightarrow>
    b \<in> set (arr_of (jget sub (to_str (jget a ''id'')))) \<Longrightarrow> is_agent_block b \<Longrightarrow> agent_reach messages sub b"

abbreviation bid :: "jsval \<Rightarrow> jsval" where
  "bid b \<equiv> jget b ''id''"

definition kids :: "jsval \<Rightarrow> jsval \<Rightarrow> jsval set" where
  "kids sub a = {b \<in> set (arr_of (jget sub (to_str (bid a)))). is_agent_block b}"

definition framed :: "frame list \<Rightarrow> jsval set" where
  "framed stk = {b. is_agent_block b \<and> (\<exists>(_, _, bs) \<in> set stk. b \<in> set bs)}"

text \<open>The state of the walk: its keys are the ids of the agents found, all of which lie in \<open>R\<close>, and
  what their content leads to has been found or waits on the stack.\<close>

definition visiting :: "jsval set \<Rightarrow> jsval \<Rightarrow> frame list \<Rightarrow> jsval list \<Rightarrow> jsval list \<Rightarrow> bool" where
  "visiting R sub stk agents seen \<longleftrightarrow>
     seen = map bid agents \<and> distinct seen \<and> set agents \<subseteq> R \<and> framed stk \<subseteq> R \<and>
     (\<forall>a \<in> set agents. \<forall>b \<in> kids sub a. bid b \<in> set seen \<or> b \<in> framed stk)"

lemma framed_simps [simp]:
  "framed [] = {}"
  "framed ((p, i, bs) # stk) = {b \<in> set bs. is_agent_block b} \<union> framed stk"
  by (auto simp: framed_def)

lemma framed_kids: "{b \<in> set (arr_of (jget sub (to_str (bid a)))). is_agent_block b} = kids sub a"
  by (simp add: kids_def)

lemma visiting_drop: "visiting R sub ((p, i, []) # stk) agents seen = visiting R sub stk agents seen"
  by (simp add: visiting_def)

lemma visiting_mono:
  "visiting R sub stk agents seen \<Longrightarrow> framed stk' \<subseteq> framed stk \<Longrightarrow> bid ` (framed stk - framed stk') \<subseteq> set seen \<Longrightarrow>
   visiting R sub stk' agents seen"
  unfolding visiting_def by blast

lemma visiting_skip:
  "visiting R sub ((p, i, b # bs) # stk) agents seen \<Longrightarrow> \<not> is_agent_block b \<or> bid b \<in> set seen \<Longrightarrow>
   visiting R sub ((p, j, bs) # stk) agents seen"
  by (rule visiting_mono) auto

lemma visiting_enter:
  assumes v: "visiting R sub ((p, i, b # bs) # stk) agents seen" and b: "is_agent_block b" "bid b \<notin> set seen"
    and R: "\<forall>a \<in> R. kids sub a \<subseteq> R"
  shows "visiting R sub ((q, k, arr_of (jget sub (to_str (bid b)))) # (p, j, bs) # stk) (agents @ [b]) (seen @ [bid b])"
proof -
  let ?old = "(p, i, b # bs) # stk" and ?new = "(q, k, arr_of (jget sub (to_str (bid b)))) # (p, j, bs) # stk"
  have new: "framed ?new = kids sub b \<union> framed ((p, j, bs) # stk)" by (simp add: framed_kids)
  have old: "framed ?old = insert b (framed ((p, j, bs) # stk))" using b by auto
  from v have "b \<in> R" and sub: "framed ((p, j, bs) # stk) \<subseteq> R" unfolding visiting_def old by blast+
  then have "framed ?new \<subseteq> R" unfolding new using R by blast
  moreover have "bid c \<in> set (seen @ [bid b]) \<or> c \<in> framed ?new" if "a \<in> set (agents @ [b])" "c \<in> kids sub a" for a c
  proof (cases "a \<in> set agents")
    case True
    with v that have "bid c \<in> set seen \<or> c = b \<or> c \<in> framed ((p, j, bs) # stk)" unfolding visiting_def old by blast
    then show ?thesis unfolding new by auto
  next
    case False
    with that show ?thesis unfolding new by simp
  qed
  ultimately show ?thesis using v b \<open>b \<in> R\<close> unfolding visiting_def by auto
qed

lemma visit_visiting:
  "\<forall>a \<in> R. kids sub a \<subseteq> R \<Longrightarrow> \<forall>b \<in> R. truthy (bid b) \<Longrightarrow>
   visiting R sub stk agents seen \<Longrightarrow> visit sub stk agents seen = (agents', seen') \<Longrightarrow>
   visiting R sub [] agents' seen' \<and> set seen \<subseteq> set seen' \<and> bid ` framed stk \<subseteq> set seen'"
proof (induction sub stk agents seen rule: visit.induct)
  case (1 sub agents seen)
  then show ?case by simp
next
  case (2 sub p i stk agents seen)
  then show ?case by (simp add: visiting_drop)
next
  case (3 sub p i b bs stk agents seen)
  show ?case
  proof (cases "is_agent_block b")
    case False
    with 3(1) [OF refl False 3(4,5) visiting_skip [OF 3(6)]] 3(7) show ?thesis by auto
  next
    case True
    then have "truthy (bid b)" using 3(5,6) by (auto simp: visiting_def)
    then have key: "agent_key p i b = bid b" by (simp add: agent_key_def jor_truthy)
    show ?thesis
    proof (cases "bid b \<in> set seen")
      case known: True
      with 3(2) [OF refl _ refl _ 3(4,5) visiting_skip [OF 3(6)]] 3(7) True key show ?thesis by auto
    next
      case new: False
      have "visit sub ((to_str (bid b), 0, arr_of (jget sub (to_str (bid b)))) # (p, Suc i, bs) # stk) (agents @ [b])
          (seen @ [bid b]) = (agents', seen')"
        using 3(7) True new key \<open>truthy (bid b)\<close> by (simp add: Let_def)
      moreover note visiting_enter [OF 3(6) True new 3(4)]
      ultimately show ?thesis
        using 3(3) [OF refl _ refl] True new key \<open>truthy (bid b)\<close> 3(4,5) by (auto simp: framed_kids)
    qed
  qed
qed

definition agent_roots :: "jsval list \<Rightarrow> jsval set" where
  "agent_roots messages = {b. is_agent_block b \<and> (\<exists>m \<in> set messages. b \<in> set (arr_of (jget m ''content'')))}"

lemma visit_messages:
  assumes R: "\<forall>a \<in> R. kids sub a \<subseteq> R" "\<forall>b \<in> R. truthy (bid b)"
  shows "visiting R sub [] (fst acc) (snd acc) \<Longrightarrow> agent_roots ms \<subseteq> R \<Longrightarrow>
    (let acc' = foldl (visit_message sub) acc (enumerate n ms)
     in visiting R sub [] (fst acc') (snd acc') \<and> set (snd acc) \<subseteq> set (snd acc') \<and> bid ` agent_roots ms \<subseteq> set (snd acc'))"
proof (induction ms arbitrary: acc n)
  case Nil
  then show ?case by (simp add: agent_roots_def)
next
  case (Cons m ms)
  obtain ags se where v: "visit_message sub acc (n, m) = (ags, se)" by fastforce
  let ?bs = "{b \<in> set (arr_of (jget m ''content'')). is_agent_block b}"
  have roots: "agent_roots (m # ms) = ?bs \<union> agent_roots ms" by (auto simp: agent_roots_def)
  have "visiting R sub [(p, i, arr_of (jget m ''content''))] (fst acc) (snd acc)" for p i
    using Cons.prems unfolding visiting_def roots by auto
  from visit_visiting [OF R this] v
  have "visiting R sub [] ags se" "set (snd acc) \<subseteq> set se" "bid ` ?bs \<subseteq> set se"
    by (simp_all add: visit_message_def)
  with Cons.IH [of "(ags, se)" "Suc n"] Cons.prems show ?case unfolding roots Let_def by (simp add: v) blast
qed

text \<open>Every agent block of the conversation carries an id.\<close>

definition agents_have_ids :: "jsval list \<Rightarrow> jsval \<Rightarrow> bool" where
  "agents_have_ids messages sub \<longleftrightarrow>
     list_all (\<lambda>m. list_all (\<lambda>b. is_agent_block b \<longrightarrow> truthy (bid b)) (arr_of (jget m ''content''))) messages \<and>
     list_all (\<lambda>(k, v). list_all (\<lambda>b. is_agent_block b \<longrightarrow> truthy (bid b)) (arr_of v)) (obj_of sub)"

lemma kids_in_obj: "b \<in> kids sub a \<Longrightarrow> is_agent_block b \<and> (\<exists>(k, v) \<in> set (obj_of sub). b \<in> set (arr_of v))"
proof -
  assume b: "b \<in> kids sub a"
  then have "jget sub (to_str (bid a)) \<noteq> JUndef" by (auto simp: kids_def)
  then obtain kvs v where "sub = JObj kvs" "map_of kvs (to_str (bid a)) = Some v"
    by (cases sub) (auto split: option.splits)
  with b map_of_SomeD [of kvs] show ?thesis by (force simp: kids_def)
qed

lemma reach_has_id: "agents_have_ids messages sub \<Longrightarrow> agent_reach messages sub b \<Longrightarrow> truthy (bid b)"
proof (erule agent_reach.cases, goal_cases)
  case (1 m b)
  then show ?case by (auto simp: agents_have_ids_def list_all_iff)
next
  case (2 a b)
  with kids_in_obj [of b sub a] show ?case by (auto simp: agents_have_ids_def list_all_iff kids_def)
qed

text \<open>C37. The overview lists every agent of a conversation exactly once, however deep agents start
  agents, also where the content of an agent leads back to an agent already listed: the ids listed
  are pairwise different and are those of the agent blocks reachable from the messages.\<close>

theorem agents_listed_once:
  assumes "agents_have_ids messages sub"
  shows "distinct (map bid (uniqueConversationAgents messages sub)) \<and>
    bid ` set (uniqueConversationAgents messages sub) = bid ` {b. agent_reach messages sub b}"
proof -
  define R where "R = {b. agent_reach messages sub b}"
  have R: "\<forall>a \<in> R. kids sub a \<subseteq> R" "\<forall>b \<in> R. truthy (bid b)"
    using reach_has_id [OF assms] by (auto simp: R_def kids_def intro: agent_reach.child)
  have roots: "agent_roots messages \<subseteq> R" by (auto simp: R_def agent_roots_def intro: agent_reach.root)
  obtain ags se where f: "foldl (visit_message sub) ([], []) (enumerate 0 messages) = (ags, se)" by fastforce
  have "visiting R sub [] [] []" by (simp add: visiting_def)
  with visit_messages [OF R, of "([], [])" messages 0] roots f
  have v: "visiting R sub [] ags se" and r: "bid ` agent_roots messages \<subseteq> set se" by (simp_all add: Let_def)
  have "bid b \<in> bid ` set ags" if "agent_reach messages sub b" for b
    using that
  proof induction
    case (root m b)
    then have "b \<in> agent_roots messages" by (auto simp: agent_roots_def)
    with r v show ?case by (auto simp: visiting_def)
  next
    case (child a b)
    then obtain a' where "a' \<in> set ags" "bid a = bid a'" by auto
    with child v show ?case by (auto simp: visiting_def kids_def)
  qed
  with v f show ?thesis by (auto simp: visiting_def uniqueConversationAgents_def R_def)
qed

definition demo_agent :: "string \<Rightarrow> jsval" where
  "demo_agent i = JObj [(''type'', JStr ''tool_use''), (''name'', JStr ''Agent''), (''id'', JStr i)]"

definition demo_messages :: "jsval list" where
  "demo_messages = [JObj [(''content'', JArr [demo_agent ''a''])]]"

definition demo_content :: jsval where
  "demo_content = JObj [(''a'', JArr [demo_agent ''b'']), (''b'', JArr [demo_agent ''a''])]"

theorem agents_listed_once_witness:
  "map bid (uniqueConversationAgents demo_messages demo_content) = [JStr ''a'', JStr ''b''] \<and>
   bid ` set (uniqueConversationAgents demo_messages demo_content) =
     bid ` {b. agent_reach demo_messages demo_content b}"
proof -
  have "agents_have_ids demo_messages demo_content"
    by (simp add: agents_have_ids_def demo_messages_def demo_content_def demo_agent_def)
  from agents_listed_once [OF this]
  have "bid ` set (uniqueConversationAgents demo_messages demo_content) =
     bid ` {b. agent_reach demo_messages demo_content b}" ..
  moreover have "map bid (uniqueConversationAgents demo_messages demo_content) = [JStr ''a'', JStr ''b'']"
    by (simp add: uniqueConversationAgents_def visit_message_def demo_messages_def demo_content_def demo_agent_def
        is_agent_block_def agent_key_def jor_def Let_def)
  ultimately show ?thesis by simp
qed

section \<open>Changes\<close>

definition counted_change :: "jsval list \<Rightarrow> jsval \<Rightarrow> bool" where
  "counted_change revertedIds op \<longleftrightarrow>
     isCanvasChangeOp op \<and> jget op ''status'' = JStr ''success'' \<and> jget op ''id'' \<notin> set revertedIds"

lemma change_steps:
  "list_all isCanvasChangeOp ops \<Longrightarrow>
   foldl (change_step rv) c ops =
     c\<lparr>filePaths := filePaths c \<union> ((\<lambda>op. trimmed (jget op ''filePath'')) ` set ops - {[]}),
       cc_added := cc_added c + (\<Sum>op\<leftarrow>filter (counted_change rv) ops. fst (fileOpLineStats op)),
       cc_removed := cc_removed c + (\<Sum>op\<leftarrow>filter (counted_change rv) ops. snd (fileOpLineStats op))\<rparr>"
proof (induction ops arbitrary: c)
  case (Cons op ops)
  then show ?case
    by (cases "trimmed (jget op ''filePath'') = []") (auto simp: change_step_def counted_change_def Let_def insert_Diff_if Un_insert_left)
qed simp

text \<open>The change overview of a session adds up exactly the line counts of the writes and edits that
  succeeded and were not reverted, and counts every file path they or the others name once.\<close>

theorem canvas_changes_add_up:
  "cc_added (summarizeCanvasChanges ops reverted) =
     (\<Sum>op\<leftarrow>filter (counted_change reverted) ops. fst (fileOpLineStats op)) \<and>
   cc_removed (summarizeCanvasChanges ops reverted) =
     (\<Sum>op\<leftarrow>filter (counted_change reverted) ops. snd (fileOpLineStats op)) \<and>
   fileCount (summarizeCanvasChanges ops reverted) =
     card ((\<lambda>op. trimmed (jget op ''filePath'')) ` set (filter isCanvasChangeOp ops) - {[]})"
proof -
  have "filter (counted_change reverted) (filter isCanvasChangeOp ops) = filter (counted_change reverted) ops"
    by (auto simp: counted_change_def intro: filter_cong)
  moreover have "list_all isCanvasChangeOp (filter isCanvasChangeOp ops)" by (simp add: list_all_iff)
  ultimately show ?thesis
    by (simp add: summarizeCanvasChanges_def Let_def fileCount_def change_steps)
qed

lemma count_lines_total: "fst (foldl count_line acc ls) + snd (foldl count_line acc ls) \<le> fst acc + snd acc + length ls"
proof (induction ls arbitrary: acc)
  case (Cons l ls)
  have "fst (count_line acc l) + snd (count_line acc l) \<le> fst acc + snd acc + 1" by (simp add: count_line_def)
  with Cons [of "count_line acc l"] show ?case by simp
qed simp

lemma split_on_length: "length (split_on P s) = Suc (length (filter P s))"
  by (induction s) (auto split: list.splits)

lemma countContentLines_newlines:
  "s \<noteq> [] \<Longrightarrow> last s \<noteq> newline \<Longrightarrow> countContentLines (JStr s) = Suc (length (filter (\<lambda>c. c = newline) s))"
  "s \<noteq> [] \<Longrightarrow> countContentLines (JStr (s @ [newline])) = Suc (length (filter (\<lambda>c. c = newline) s))"
  by (simp_all add: countContentLines_def split_on_length)

end
