(* ===== verification/ResponseSummary.thy ===== *)
theory ResponseSummary
  imports ToolRuns SessionTransform
begin

text \<open>
  The summary of one answer (\<^verbatim>\<open>web/user/src/utils/responseSummary.js\<close>): which text blocks are the
  final result that the SDK repeats in its result message, the duration, and the counts of files
  read and edited, commands, agents, workflows, tasks and questions.
\<close>

section \<open>Text\<close>

definition think_rx :: rx where
  "think_rx = rseq [rlit ''<think>'', RStar False rany, rlit ''</think>'']"

definition line_end_rx :: rx where
  "line_end_rx = rseq [RChr (\<lambda>c. c = CHR 0x0D), ropt (RChr (\<lambda>c. c = newline))]"

definition blanks_rx :: rx where
  "blanks_rx = rseq [rplus (RChr (\<lambda>c. c = CHR '' '' \<or> c = CHR 0x09)), RChr (\<lambda>c. c = newline)]"

definition normalizedText :: "jsval \<Rightarrow> string" where
  "normalizedText v =
     trim (rreplace blanks_rx [newline] (rreplace line_end_rx [newline] (rreplace think_rx [] (to_str (jor v (JStr []))))))"

definition toolFilePath :: "jsval \<Rightarrow> jsval" where
  "toolFilePath block =
     (let input = jor (jget block ''input'') (JObj [])
      in jor (jor (jor (jget input ''file_path'') (jget input ''notebook_path'')) (jget input ''path'')) JNull)"

definition isFailed :: "jsval \<Rightarrow> bool" where
  "isFailed block \<longleftrightarrow>
     jget block ''status'' = JStr ''error'' \<or> jget (jget block ''result'') ''is_error'' = JBool True
     \<or> jget (jget block ''result'') ''isError'' = JBool True"

definition isCompleted :: "jsval \<Rightarrow> bool" where
  "isCompleted block \<longleftrightarrow> jget block ''status'' \<noteq> JStr ''running'' \<and> jget block ''status'' \<noteq> JStr ''pending''"

definition questionCount :: "jsval \<Rightarrow> int" where
  "questionCount questions = (if is_arr questions \<and> arr_of questions \<noteq> [] then int (length (arr_of questions)) else 1)"

section \<open>The final result\<close>

definition is_result_text :: "jsval \<Rightarrow> bool" where
  "is_result_text block \<longleftrightarrow> jget block ''type'' = JStr ''text'' \<and> normalizedText (jget block ''text'') \<noteq> []"

text \<open>Between two text blocks only blank text may stand.\<close>

definition hasMeaningfulGap :: "jsval list \<Rightarrow> nat \<Rightarrow> nat \<Rightarrow> bool" where
  "hasMeaningfulGap blocks index nextIndex \<longleftrightarrow>
     list_ex (\<lambda>block. jget block ''type'' \<noteq> JStr ''text'' \<or> normalizedText (jget block ''text'') \<noteq> [])
       (drop (Suc index) (take nextIndex blocks))"

fun match_back :: "jsval list \<Rightarrow> string \<Rightarrow> nat list \<Rightarrow> string \<Rightarrow> nat list \<Rightarrow> nat list option" where
  "match_back blocks expected [] combined matched = None"
| "match_back blocks expected (index # earlier) combined matched =
     (if matched \<noteq> [] \<and> hasMeaningfulGap blocks index (hd matched) then None
      else (let t = normalizedText (jget (blocks ! index) ''text'');
                combined' = (if combined \<noteq> [] then t @ [newline] @ combined else t)
            in if normalizedText (JStr combined') = expected then Some (index # matched)
               else if \<not> suffix (normalizedText (JStr combined')) expected then None
               else match_back blocks expected earlier combined' (index # matched)))"

definition textIndexes :: "jsval list \<Rightarrow> nat list" where
  "textIndexes blocks = filter (\<lambda>i. is_result_text (blocks ! i)) [0..<length blocks]"

definition findFinalResultBlockIndexes :: "jsval list \<Rightarrow> jsval \<Rightarrow> nat list" where
  "findFinalResultBlockIndexes blocks resultText =
     (let tis = textIndexes blocks
      in if tis = [] then []
         else (let expected = normalizedText resultText
               in if expected = [] then [last tis]
                  else (case match_back blocks expected (rev tis) [] [] of Some matched \<Rightarrow> matched | None \<Rightarrow> [last tis])))"

definition resultTextFromBlocks :: "jsval list \<Rightarrow> nat list \<Rightarrow> string" where
  "resultTextFromBlocks blocks resultIndexes =
     trim (join [newline]
       (filter (\<lambda>s. s \<noteq> [])
         (map (\<lambda>(i, block). normalizedText (jget block ''text''))
           (filter (\<lambda>(i, block). i \<in> set resultIndexes \<and> jget block ''type'' = JStr ''text'') (enumerate 0 blocks)))))"

section \<open>Duration and counts\<close>

definition formatExecutionDuration :: "js_env \<Rightarrow> jsval \<Rightarrow> string" where
  "formatExecutionDuration env durationMs =
     (case js_number env durationMs of
        None \<Rightarrow> ''0s''
      | Some numeric \<Rightarrow>
          if numeric \<le> 0 then ''0s''
          else (let total = max 1 ((numeric + 500) div 1000);
                    hours = total div 3600; s1 = total - hours * 3600;
                    minutes = s1 div 60; seconds = s1 - minutes * 60;
                    parts = (if hours > 0 then [show_int hours @ ''h''] else []) @
                            (if minutes > 0 then [show_int minutes @ ''m''] else [])
                in join '' '' (parts @ (if seconds > 0 \<or> parts = [] then [show_int seconds @ ''s''] else []))))"

definition visibleExecutionSummaryItems :: "js_env \<Rightarrow> jsval \<Rightarrow> (string \<times> jsval) list" where
  "visibleExecutionSummaryItems env summary =
     (let duration = jget summary ''duration''
      in (if truthy duration \<and> duration \<noteq> JStr ''0s'' then [(''duration'', duration)] else []) @
         concat (map (\<lambda>key. case js_number env (jget summary key) of
                              Some n \<Rightarrow> if n > 0 then [(key, JNum n)] else []
                            | None \<Rightarrow> [])
           [''agents'', ''workflows'', ''tasks'', ''readFiles'', ''editedFiles'', ''commands'', ''questions'']))"

record exec_counts =
  readFiles :: "string set"
  editedFiles :: "string set"
  visitedToolIds :: "jsval set"
  visitedQuestionIds :: "jsval set"
  agents :: nat
  workflows :: nat
  ec_tasks :: nat
  commands :: nat
  questions :: int

definition addPath :: "string set \<Rightarrow> jsval \<Rightarrow> string set" where
  "addPath target v = (let path = trimmed v in if path \<noteq> [] then insert path target else target)"

definition READ_TOOL_NAMES :: "jsval list" where
  "READ_TOOL_NAMES = [JStr ''Read'', JStr ''NotebookRead'']"

definition EDIT_TOOL_NAMES :: "jsval list" where
  "EDIT_TOOL_NAMES = [JStr ''Write'', JStr ''Edit'', JStr ''MultiEdit'', JStr ''NotebookEdit'']"

definition ops_by_id :: "jsval list \<Rightarrow> (jsval, jsval) dict" where
  "ops_by_id fileOps = foldl (\<lambda>m op. dset (jget op ''id'') op m) dempty fileOps"

definition count_question :: "jsval \<Rightarrow> exec_counts \<Rightarrow> exec_counts" where
  "count_question block s =
     (if jget block ''status'' = JStr ''error'' \<or> jget block ''invalid'' = JBool True then s
      else (let questionKey = jor (jget block ''id'') (jget block ''toolUseId'')
            in if truthy questionKey \<and> questionKey \<in> visitedQuestionIds s then s
               else s\<lparr>visitedQuestionIds := (if truthy questionKey then insert questionKey (visitedQuestionIds s)
                                              else visitedQuestionIds s),
                      questions := questions s + questionCount (jget block ''questions'')\<rparr>))"

definition count_ref :: "jsval list \<Rightarrow> jsval \<Rightarrow> exec_counts \<Rightarrow> exec_counts" where
  "count_ref fileOps block s =
     (if jget block ''name'' \<notin> set EDIT_TOOL_NAMES then s
      else (let op = (if truthy (jget block ''fileOpId'')
                      then (case dget (ops_by_id fileOps) (jget block ''fileOpId'') of Some op \<Rightarrow> op | None \<Rightarrow> JUndef)
                      else JNull)
            in if truthy op \<and> jget op ''status'' \<in> {JStr ''running'', JStr ''pending'', JStr ''error''} then s
               else s\<lparr>editedFiles := addPath (editedFiles s) (jor (jget block ''filePath'') (jget op ''filePath''))\<rparr>))"

definition tool_key :: "nat \<Rightarrow> jsval \<Rightarrow> jsval" where
  "tool_key blockIndex block =
     jor (jget block ''id'')
       (JStr (to_str (jor (jget block ''name'') (JStr ''tool'')) @ '':'' @ show_nat blockIndex @ '':'' @
              to_str (jor (toolFilePath block) (JStr []))))"

definition count_tool :: "nat \<Rightarrow> jsval \<Rightarrow> exec_counts \<Rightarrow> exec_counts" where
  "count_tool blockIndex block s =
     (let toolKey = tool_key blockIndex block; name = jget block ''name''; completed = isCompleted block
      in if toolKey \<in> visitedToolIds s then s
         else (let s1 = s\<lparr>visitedToolIds := insert toolKey (visitedToolIds s),
                         readFiles := (if name \<in> set READ_TOOL_NAMES \<and> completed \<and> \<not> isFailed block
                                       then addPath (readFiles s) (toolFilePath block) else readFiles s),
                         editedFiles := (if name \<in> set EDIT_TOOL_NAMES \<and> completed \<and> \<not> isFailed block
                                         then addPath (editedFiles s) (toolFilePath block) else editedFiles s),
                         agents := agents s + (if name = JStr ''Agent'' \<and> completed then 1 else 0),
                         workflows := workflows s + (if name = JStr ''Workflow'' \<and> completed then 1 else 0),
                         ec_tasks := ec_tasks s + (if name = JStr ''Task'' \<and> completed then 1 else 0),
                         commands := commands s + (if name = JStr ''Bash'' \<and> completed then 1 else 0)\<rparr>
               in if name = JStr ''AskUserQuestion'' \<and> \<not> isFailed block
                  then (if truthy (jget block ''id'') \<and> jget block ''id'' \<in> visitedQuestionIds s1 then s1
                        else s1\<lparr>visitedQuestionIds := (if truthy (jget block ''id'')
                                   then insert (jget block ''id'') (visitedQuestionIds s1) else visitedQuestionIds s1),
                                questions := questions s1 + questionCount (jget (jget block ''input'') ''questions'')\<rparr>)
                  else s1))"

definition count_exec :: "jsval list \<Rightarrow> exec_counts \<Rightarrow> nat \<times> jsval \<Rightarrow> exec_counts" where
  "count_exec fileOps s ib =
     (case ib of (blockIndex, block) \<Rightarrow>
        if \<not> truthy block then s
        else if jget block ''type'' = JStr ''ask_user'' then count_question block s
        else if jget block ''type'' = JStr ''file_ref'' then count_ref fileOps block s
        else if jget block ''type'' \<noteq> JStr ''tool_use'' then s
        else count_tool blockIndex block s)"

definition exec_counts_of :: "js_env \<Rightarrow> jsval list \<Rightarrow> jsval list \<Rightarrow> jsval \<Rightarrow> exec_counts" where
  "exec_counts_of env contentBlocks fileOps additionalQuestionCount =
     foldl (count_exec fileOps)
       \<lparr>readFiles = {}, editedFiles = {}, visitedToolIds = {}, visitedQuestionIds = {}, agents = 0, workflows = 0,
        ec_tasks = 0, commands = 0,
        questions = max 0 (case js_number env additionalQuestionCount of Some n \<Rightarrow> n | None \<Rightarrow> 0)\<rparr>
       (enumerate 0 contentBlocks)"

definition summarizeResponseExecution :: "js_env \<Rightarrow> jsval list \<Rightarrow> jsval list \<Rightarrow> jsval \<Rightarrow> jsval \<Rightarrow> jsval" where
  "summarizeResponseExecution env contentBlocks fileOps durationMs additionalQuestionCount =
     (let s = exec_counts_of env contentBlocks fileOps additionalQuestionCount
      in JObj [(''duration'', JStr (formatExecutionDuration env durationMs)), (''agents'', JNum (int (agents s))),
               (''workflows'', JNum (int (workflows s))), (''tasks'', JNum (int (ec_tasks s))),
               (''readFiles'', JNum (int (card (readFiles s)))), (''editedFiles'', JNum (int (card (editedFiles s)))),
               (''commands'', JNum (int (commands s))), (''questions'', JNum (questions s))])"

section \<open>The final result is the tail of the answer\<close>

lemma textIndexes_sorted: "sorted_wrt (<) (textIndexes blocks)"
  by (simp add: textIndexes_def sorted_wrt_filter)

lemma match_back_suffix:
  "match_back blocks expected is combined matched = Some r \<Longrightarrow> \<exists>k > 0. k \<le> length is \<and> r = rev (take k is) @ matched"
proof (induction blocks expected "is" combined matched rule: match_back.induct)
  case (2 blocks expected index earlier combined matched)
  from 2(2) consider "r = index # matched" |
    "\<exists>k > 0. k \<le> length earlier \<and> r = rev (take k earlier) @ index # matched"
    using 2(1) by (auto simp: Let_def split: if_splits)
  then show ?case
  proof cases
    case 1
    then show ?thesis by (intro exI [of _ 1]) simp
  next
    case 2
    then obtain k where "k > 0" "k \<le> length earlier" "r = rev (take k earlier) @ index # matched" by blast
    then show ?thesis by (intro exI [of _ "Suc k"]) simp
  qed
qed simp

text \<open>The final result of an answer is a tail of its text: the indexes found are ascending, all
  are non-blank text blocks, none of the text blocks after the first of them is left out, and the
  last one is the last non-blank text block of the answer. It is found whenever there is such a block.\<close>

theorem final_result_is_tail:
  "\<exists>k. findFinalResultBlockIndexes blocks resultText = drop k (textIndexes blocks) \<and>
    (textIndexes blocks = [] \<or> k < length (textIndexes blocks))"
proof (cases "textIndexes blocks = []")
  case True
  then show ?thesis by (simp add: findFinalResultBlockIndexes_def)
next
  case False
  let ?t = "textIndexes blocks"
  have last: "[last ?t] = drop (length ?t - 1) ?t" using False by (cases ?t rule: rev_cases) simp_all
  show ?thesis
  proof (cases "findFinalResultBlockIndexes blocks resultText = [last ?t]")
    case True
    with last False show ?thesis by (intro exI [of _ "length ?t - 1"]) simp
  next
    case neq: False
    with False obtain r where m: "match_back blocks (normalizedText resultText) (rev ?t) [] [] = Some r"
      and f: "findFinalResultBlockIndexes blocks resultText = r"
      by (auto simp: findFinalResultBlockIndexes_def Let_def split: if_splits option.splits)
    from match_back_suffix [OF m] obtain k where k: "k > 0" "k \<le> length ?t" "r = rev (take k (rev ?t))" by auto
    then have "r = drop (length ?t - k) ?t" by (simp add: rev_take)
    with f k False show ?thesis by (intro exI [of _ "length ?t - k"]) auto
  qed
qed

section \<open>A replayed block counts once\<close>

text \<open>A block carries the key by which it is recognised again: its id, or that of its tool call.\<close>

definition keyed :: "jsval \<Rightarrow> bool" where
  "keyed block \<longleftrightarrow>
     (jget block ''type'' = JStr ''tool_use'' \<longrightarrow> truthy (jget block ''id'')) \<and>
     (jget block ''type'' = JStr ''ask_user'' \<longrightarrow> truthy (jor (jget block ''id'') (jget block ''toolUseId'')))"

definition grown :: "exec_counts \<Rightarrow> exec_counts \<Rightarrow> bool" where
  "grown s s' \<longleftrightarrow> editedFiles s \<subseteq> editedFiles s' \<and> visitedToolIds s \<subseteq> visitedToolIds s' \<and>
     visitedQuestionIds s \<subseteq> visitedQuestionIds s'"

lemma grown_refl [simp]: "grown s s"
  by (simp add: grown_def)

lemma grown_trans: "grown s t \<Longrightarrow> grown t u \<Longrightarrow> grown s u"
  by (auto simp: grown_def)

lemma addPath_mono: "A \<subseteq> addPath A v"
  by (auto simp: addPath_def Let_def)

lemma grown_question: "grown s (count_question block s)"
  by (simp add: count_question_def grown_def Let_def subset_insertI)

lemma grown_ref: "grown s (count_ref fileOps block s)"
  by (simp add: count_ref_def grown_def Let_def addPath_mono)

lemma count_tool_edited: "editedFiles s \<subseteq> editedFiles (count_tool i block s)"
  by (simp add: count_tool_def Let_def addPath_mono)

lemma count_tool_visited: "visitedToolIds (count_tool i block s) = insert (tool_key i block) (visitedToolIds s)"
  by (simp add: count_tool_def Let_def insert_absorb)

lemma count_tool_questions: "visitedQuestionIds s \<subseteq> visitedQuestionIds (count_tool i block s)"
  by (simp add: count_tool_def Let_def subset_insertI)

lemma grown_tool: "grown s (count_tool i block s)"
  by (simp add: grown_def count_tool_edited count_tool_visited count_tool_questions subset_insertI)

lemma grown_count: "grown s (count_exec fileOps s ib)"
  by (simp add: count_exec_def grown_question grown_ref grown_tool split: prod.splits)

lemma grown_foldl: "grown s (foldl (count_exec fileOps) s ibs)"
  by (induction ibs arbitrary: s) (auto intro: grown_trans grown_count)

text \<open>What a state must hold for a block to leave it unchanged.\<close>

definition counted :: "jsval list \<Rightarrow> jsval \<Rightarrow> exec_counts \<Rightarrow> bool" where
  "counted fileOps block s \<longleftrightarrow> (\<forall>s' i. grown s s' \<longrightarrow> count_exec fileOps s' (i, block) = s')"

lemma addPath_absorb: "addPath A v \<subseteq> B \<Longrightarrow> addPath B v = B"
  by (auto simp: addPath_def Let_def split: if_splits)

lemma counted_question:
  assumes "truthy (jor (jget block ''id'') (jget block ''toolUseId''))" and "grown (count_question block s) s'"
  shows "count_question block s' = s'"
proof (cases "jget block ''status'' = JStr ''error'' \<or> jget block ''invalid'' = JBool True")
  case True
  then show ?thesis unfolding count_question_def by (rule if_P)
next
  case False
  let ?k = "jor (jget block ''id'') (jget block ''toolUseId'')"
  have "?k \<in> visitedQuestionIds (count_question block s)"
    unfolding count_question_def if_not_P [OF False] Let_def using assms(1) by simp
  with assms(2) have "?k \<in> visitedQuestionIds s'" by (auto simp: grown_def)
  with assms(1) show ?thesis unfolding count_question_def if_not_P [OF False] Let_def by simp
qed

lemma counted_ref:
  assumes "grown (count_ref fileOps block s) s'"
  shows "count_ref fileOps block s' = s'"
proof -
  obtain b v where f: "count_ref fileOps block x = (if b then x else x\<lparr>editedFiles := addPath (editedFiles x) v\<rparr>)" for x
    unfolding count_ref_def Let_def by metis
  show ?thesis
  proof (cases b)
    case False
    with assms have "addPath (editedFiles s) v \<subseteq> editedFiles s'" by (simp add: f grown_def)
    with False show ?thesis by (simp add: f addPath_absorb)
  qed (simp add: f)
qed

lemma counted_tool:
  assumes "truthy (jget block ''id'')" and "grown (count_tool i block s) s'"
  shows "count_tool j block s' = s'"
proof -
  have key: "tool_key k block = jget block ''id''" for k using assms(1) by (simp add: tool_key_def jor_truthy)
  from assms(2) have "jget block ''id'' \<in> visitedToolIds s'" by (auto simp: grown_def count_tool_visited key)
  then show ?thesis by (simp add: count_tool_def key)
qed

lemma counted_after:
  assumes "keyed block"
  shows "counted fileOps block (count_exec fileOps s (i, block))"
proof -
  let ?t = "jget block ''type''"
  consider (none) "\<And>s i. count_exec fileOps s (i, block) = s"
    | (ask) "\<And>s i. count_exec fileOps s (i, block) = count_question block s" "?t = JStr ''ask_user''"
    | (ref) "\<And>s i. count_exec fileOps s (i, block) = count_ref fileOps block s"
    | (tool) "\<And>s i. count_exec fileOps s (i, block) = count_tool i block s" "?t = JStr ''tool_use''"
  proof (cases "truthy block")
    case False
    then show ?thesis by (intro none) (simp add: count_exec_def)
  next
    case True
    then show ?thesis
      by (cases "?t = JStr ''ask_user''"; cases "?t = JStr ''file_ref''"; cases "?t = JStr ''tool_use''")
        (rule ask none ref tool; simp add: count_exec_def)+
  qed
  then show ?thesis
  proof cases
    case ask
    with assms show ?thesis by (simp add: counted_def keyed_def counted_question)
  next
    case tool
    with assms have "truthy (jget block ''id'')" by (simp add: keyed_def)
    with tool show ?thesis by (auto simp: counted_def intro: counted_tool)
  qed (simp_all add: counted_def counted_ref)
qed

lemma counted_mono: "counted fileOps block s \<Longrightarrow> grown s s' \<Longrightarrow> counted fileOps block s'"
  by (auto simp: counted_def intro: grown_trans)

lemma all_counted:
  "list_all keyed bs \<Longrightarrow> block \<in> set bs \<Longrightarrow> counted fileOps block (foldl (count_exec fileOps) s (enumerate n bs))"
proof (induction bs arbitrary: s n)
  case (Cons b bs)
  show ?case
  proof (cases "block \<in> set bs")
    case True
    with Cons show ?thesis by simp
  next
    case False
    with Cons.prems have "keyed b" "block = b" by auto
    with counted_mono [OF counted_after grown_foldl] show ?thesis by simp
  qed
qed simp

lemma counted_foldl: "(\<And>b. b \<in> set bs \<Longrightarrow> counted fileOps b s) \<Longrightarrow> foldl (count_exec fileOps) s (enumerate n bs) = s"
proof (induction bs arbitrary: n)
  case (Cons b bs)
  then have "count_exec fileOps s (n, b) = s" by (simp add: counted_def)
  with Cons show ?case by simp
qed simp

text \<open>A summary counts a block once however often the stream repeats it: when tool calls and
  questions carry their ids, appending blocks that the answer already holds (a replay after a
  reconnect) changes neither the counts nor the sets of files.\<close>

theorem replayed_blocks_count_once:
  assumes "list_all keyed blocks" and "set again \<subseteq> set blocks"
  shows "summarizeResponseExecution env (blocks @ again) fileOps durationMs extra =
    summarizeResponseExecution env blocks fileOps durationMs extra"
proof -
  have "exec_counts_of env (blocks @ again) fileOps extra = exec_counts_of env blocks fileOps extra"
    unfolding exec_counts_of_def enumerate_append_eq foldl_append
    using all_counted [OF assms(1)] assms(2) by (intro counted_foldl) blast
  then show ?thesis by (simp add: summarizeResponseExecution_def)
qed

definition demo_edit :: jsval where
  "demo_edit = JObj [(''type'', JStr ''tool_use''), (''name'', JStr ''Edit''), (''id'', JStr ''t1''),
     (''input'', JObj [(''file_path'', JStr ''a.txt'')])]"

theorem replayed_blocks_count_once_witness:
  "summarizeResponseExecution (demo_env 0) ([demo_edit, demo_agent ''x''] @ [demo_edit]) [] (JNum 0) JUndef =
     summarizeResponseExecution (demo_env 0) [demo_edit, demo_agent ''x''] [] (JNum 0) JUndef"
  by (rule replayed_blocks_count_once) (simp_all add: keyed_def demo_edit_def demo_agent_def)

section \<open>Durations\<close>

lemma formatExecutionDuration_parts:
  assumes "js_number env v = Some n" "n > 0"
  shows "\<exists>h m s. formatExecutionDuration env v =
      join '' '' ((if h > 0 then [show_int h @ ''h''] else []) @ (if m > 0 then [show_int m @ ''m''] else []) @
        (if s > 0 \<or> h = 0 \<and> m = 0 then [show_int s @ ''s''] else [])) \<and>
    h * 3600 + m * 60 + s = max 1 ((n + 500) div 1000) \<and> 0 \<le> h \<and> 0 \<le> m \<and> m < 60 \<and> 0 \<le> s \<and> s < 60"
proof -
  define t where "t = max 1 ((n + 500) div 1000)"
  define h where "h = t div 3600"
  define m where "m = (t - h * 3600) div 60"
  define s where "s = t - h * 3600 - m * 60"
  have "t \<ge> 1" by (simp add: t_def)
  then have bounds: "0 \<le> h" "0 \<le> m" "m < 60" "0 \<le> s" "s < 60" "h * 3600 + m * 60 + s = t"
    unfolding s_def m_def h_def by linarith+
  have parts: "((if h > 0 then [x] else []) @ (if m > 0 then [y] else []) = []) \<longleftrightarrow> h = 0 \<and> m = 0" for x y :: string
    using bounds by auto
  have "formatExecutionDuration env v =
      join '' '' (((if h > 0 then [show_int h @ ''h''] else []) @ (if m > 0 then [show_int m @ ''m''] else [])) @
        (if s > 0 \<or> (if h > 0 then [show_int h @ ''h''] else []) @ (if m > 0 then [show_int m @ ''m''] else []) = []
         then [show_int s @ ''s''] else []))"
    unfolding formatExecutionDuration_def assms(1) option.case s_def m_def h_def t_def Let_def
    using assms(2) by (simp only: not_le [symmetric] if_False)
  then have "formatExecutionDuration env v =
      join '' '' ((if h > 0 then [show_int h @ ''h''] else []) @ (if m > 0 then [show_int m @ ''m''] else []) @
        (if s > 0 \<or> h = 0 \<and> m = 0 then [show_int s @ ''s''] else []))" unfolding parts append_assoc .
  with bounds show ?thesis unfolding t_def by blast
qed

end
