(* ===== verification/Toasts.thy ===== *)
theory Toasts
  imports SessionStores
begin

text \<open>
  The notices in the corner of the screen (\<^verbatim>\<open>web/shared/stores/toastStore.js\<close>). The state holds the
  notices, the pending timers and the counter of fresh ids; the clock is explicit, and a timer fires
  when the clock passes its due time. A timer carries the creation time of the notice it belongs to
  and dismisses only that one.
\<close>

record toast =
  to_id :: string
  to_level :: string
  to_title :: string
  to_body :: "string option"
  to_action :: jsval
  to_dismissAfterMs :: "int option"
  to_createdAt :: int

record due_timer =
  tm_id :: string
  tm_createdAt :: int
  tm_due :: int

record timed_toasts =
  toasts :: "toast list"
  timers :: "due_timer list"
  nextId :: nat

text \<open>What a caller passes: an absent field is \<open>None\<close>.\<close>

record toast_request =
  tq_id :: "string option"
  tq_level :: "string option"
  tq_title :: string
  tq_body :: "string option"
  tq_action :: jsval
  tq_dismissAfterMs :: "int option"

definition no_toasts :: timed_toasts where
  "no_toasts = \<lparr>toasts = [], timers = [], nextId = 1\<rparr>"

definition AUTO_DISMISS_MS :: "string \<Rightarrow> int option" where
  "AUTO_DISMISS_MS level =
     (if level = ''error'' then Some 10000 else if level = ''warning'' then Some 8000
      else if level = ''info'' then Some 4000 else if level = ''success'' then Some 4000 else None)"

definition dismiss_timed :: "string \<Rightarrow> timed_toasts \<Rightarrow> timed_toasts" where
  "dismiss_timed i s = s\<lparr>toasts := filter (\<lambda>t. to_id t \<noteq> i) (toasts s)\<rparr>"

definition clear_timed :: "timed_toasts \<Rightarrow> timed_toasts" where
  "clear_timed s = s\<lparr>toasts := []\<rparr>"

definition toast_entry :: "int \<Rightarrow> toast_request \<Rightarrow> nat \<Rightarrow> toast" where
  "toast_entry now q n =
     (let level = (case tq_level q of Some l \<Rightarrow> if l = [] then ''info'' else l | None \<Rightarrow> ''info'')
      in \<lparr>to_id = (case tq_id q of Some i \<Rightarrow> if i = [] then ''t-'' @ show_nat n else i | None \<Rightarrow> ''t-'' @ show_nat n),
          to_level = level, to_title = tq_title q,
          to_body = (case tq_body q of Some b \<Rightarrow> if b = [] then None else Some b | None \<Rightarrow> None),
          to_action = jor (tq_action q) JNull,
          to_dismissAfterMs = (case tq_dismissAfterMs q of Some d \<Rightarrow> Some d | None \<Rightarrow> AUTO_DISMISS_MS level),
          to_createdAt = now\<rparr>)"

definition timed :: "toast \<Rightarrow> bool" where
  "timed t \<longleftrightarrow> (case to_dismissAfterMs t of Some d \<Rightarrow> d \<noteq> 0 | None \<Rightarrow> False)"

definition due_of :: "toast \<Rightarrow> int" where
  "due_of t = to_createdAt t + max 0 (case to_dismissAfterMs t of Some d \<Rightarrow> d | None \<Rightarrow> 0)"

definition push_timed :: "int \<Rightarrow> toast_request \<Rightarrow> timed_toasts \<Rightarrow> timed_toasts" where
  "push_timed now q s =
     (let fresh = (case tq_id q of Some i \<Rightarrow> i = [] | None \<Rightarrow> True);
          entry = toast_entry now q (nextId s);
          s1 = s\<lparr>toasts := filter (\<lambda>t. to_id t \<noteq> to_id entry) (toasts s) @ [entry],
                nextId := (if fresh then Suc (nextId s) else nextId s)\<rparr>
      in if timed entry
         then s1\<lparr>timers := timers s1 @ [\<lparr>tm_id = to_id entry, tm_createdAt = now, tm_due = due_of entry\<rparr>]\<rparr>
         else s1)"

definition fire_timer :: "timed_toasts \<Rightarrow> due_timer \<Rightarrow> timed_toasts" where
  "fire_timer s tm =
     (case List.find (\<lambda>t. to_id t = tm_id tm) (toasts s) of
        Some cur \<Rightarrow> if to_createdAt cur = tm_createdAt tm then dismiss_timed (tm_id tm) s else s
      | None \<Rightarrow> s)"

text \<open>The clock reaches \<open>now\<close>: every timer that is due fires once.\<close>

definition toast_tick :: "int \<Rightarrow> timed_toasts \<Rightarrow> timed_toasts" where
  "toast_tick now s =
     foldl fire_timer (s\<lparr>timers := filter (\<lambda>tm. now < tm_due tm) (timers s)\<rparr>)
       (filter (\<lambda>tm. tm_due tm \<le> now) (timers s))"

section \<open>Every timed notice goes\<close>

datatype toast_event =
    TPush toast_request
  | TDismiss string
  | TClear
  | TTick nat

record toast_world =
  tw_store :: timed_toasts
  tw_clock :: int

fun toast_step :: "toast_world \<Rightarrow> toast_event \<Rightarrow> toast_world" where
  "toast_step w (TPush q) = w\<lparr>tw_store := push_timed (tw_clock w) q (tw_store w)\<rparr>"
| "toast_step w (TDismiss i) = w\<lparr>tw_store := dismiss_timed i (tw_store w)\<rparr>"
| "toast_step w TClear = w\<lparr>tw_store := clear_timed (tw_store w)\<rparr>"
| "toast_step w (TTick dt) =
     w\<lparr>tw_clock := tw_clock w + int dt, tw_store := toast_tick (tw_clock w + int dt) (tw_store w)\<rparr>"

definition timer_of :: "toast \<Rightarrow> due_timer" where
  "timer_of t = \<lparr>tm_id = to_id t, tm_createdAt = to_createdAt t, tm_due = due_of t\<rparr>"

definition toasts_ok :: "toast_world \<Rightarrow> bool" where
  "toasts_ok w \<longleftrightarrow>
     distinct (map to_id (toasts (tw_store w))) \<and>
     (\<forall>t \<in> set (toasts (tw_store w)). timed t \<longrightarrow> timer_of t \<in> set (timers (tw_store w)) \<and>
        (tw_clock w < due_of t \<or> to_createdAt t = tw_clock w))"

definition toast_start :: "int \<Rightarrow> toast_world" where
  "toast_start now = \<lparr>tw_store = no_toasts, tw_clock = now\<rparr>"

lemma due_after_creation: "to_createdAt t \<le> due_of t"
  by (simp add: due_of_def)

lemma fire_timer_filter:
  assumes "distinct (map to_id (toasts s))"
  shows "toasts (fire_timer s tm) = filter (\<lambda>t. \<not> (to_id t = tm_id tm \<and> to_createdAt t = tm_createdAt tm)) (toasts s)"
proof (cases "List.find (\<lambda>t. to_id t = tm_id tm) (toasts s)")
  case None
  then have "\<forall>t \<in> set (toasts s). to_id t \<noteq> tm_id tm" by (simp add: find_None_iff')
  with None show ?thesis by (simp add: fire_timer_def)
next
  case (Some cur)
  then have cur: "cur \<in> set (toasts s)" "to_id cur = tm_id tm" using find_Some_mem [OF Some] by auto
  have "t = cur" if "t \<in> set (toasts s)" "to_id t = tm_id tm" for t
    using assms that cur by (auto simp: distinct_map inj_on_def)
  then have "filter (\<lambda>t. \<not> (to_id t = tm_id tm \<and> to_createdAt t = tm_createdAt tm)) (toasts s) =
      (if to_createdAt cur = tm_createdAt tm then filter (\<lambda>t. to_id t \<noteq> tm_id tm) (toasts s) else toasts s)"
    by (auto simp: filter_id_conv intro!: filter_cong)
  with Some show ?thesis by (simp add: fire_timer_def dismiss_timed_def)
qed

lemma fire_timer_rest [simp]: "timers (fire_timer s tm) = timers s" "nextId (fire_timer s tm) = nextId s"
  by (simp_all add: fire_timer_def dismiss_timed_def split: option.splits)

lemma distinct_to_id_filter: "distinct (map to_id xs) \<Longrightarrow> distinct (map to_id (filter P xs))"
  by (induction xs) auto

lemma fire_timers:
  "distinct (map to_id (toasts s)) \<Longrightarrow>
   toasts (foldl fire_timer s tms) =
     filter (\<lambda>t. \<forall>tm \<in> set tms. \<not> (to_id t = tm_id tm \<and> to_createdAt t = tm_createdAt tm)) (toasts s)
   \<and> timers (foldl fire_timer s tms) = timers s"
proof (induction tms arbitrary: s)
  case (Cons tm tms)
  then have "distinct (map to_id (toasts (fire_timer s tm)))"
    by (simp add: fire_timer_filter distinct_to_id_filter)
  from Cons.IH [OF this] Cons.prems show ?case by (auto simp: fire_timer_filter intro!: filter_cong)
qed simp

lemma toasts_ok_push: "toasts_ok w \<Longrightarrow> toasts_ok (toast_step w (TPush q))"
  by (auto simp: toasts_ok_def push_timed_def Let_def timer_of_def distinct_to_id_filter toast_entry_def)

lemma toasts_ok_tick: "toasts_ok w \<Longrightarrow> toasts_ok (toast_step w (TTick dt))"
  unfolding toasts_ok_def toast_step.simps toast_tick_def
  by (auto simp: fire_timers distinct_to_id_filter timer_of_def)

lemma toasts_ok_step: "toasts_ok w \<Longrightarrow> toasts_ok (toast_step w e)"
proof (cases e)
  case (TPush q)
  then show "toasts_ok w \<Longrightarrow> ?thesis" by (simp only: toasts_ok_push)
next
  case (TTick dt)
  then show "toasts_ok w \<Longrightarrow> ?thesis" by (simp only: toasts_ok_tick)
qed (auto simp: toasts_ok_def dismiss_timed_def clear_timed_def distinct_to_id_filter)

interpretation toast_machine: machine "toast_start now" toast_step "\<lambda>_ _. True" toasts_ok
  by unfold_locales (simp add: toasts_ok_def toast_start_def no_toasts_def, rule toasts_ok_step)

text \<open>C32. No notice lingers: after any sequence of pushes, dismissals and passing time, a notice with a
  dismissal time that is still on screen has not reached it (or was pushed at this very instant), its
  timer is pending, and no two notices on screen share an id.\<close>

theorem toasts_expire:
  "let w = foldl toast_step (toast_start now) es
   in distinct (map to_id (toasts (tw_store w))) \<and>
      filter (\<lambda>t. timed t \<and> due_of t \<le> tw_clock w \<and> to_createdAt t < tw_clock w) (toasts (tw_store w)) = [] \<and>
      filter (\<lambda>t. timed t \<and> timer_of t \<notin> set (timers (tw_store w))) (toasts (tw_store w)) = []"
  using toast_machine.run_inv [of now es] toast_machine.all_ok_run [of es]
  by (auto simp: toast_machine.run_foldl toasts_ok_def Let_def filter_empty_conv)

text \<open>An error notice always carries a dismissal time.\<close>

lemma error_toast_timed: "tq_level q = Some ''error'' \<Longrightarrow> tq_dismissAfterMs q = None \<Longrightarrow> timed (toast_entry now q n)"
  by (simp add: timed_def toast_entry_def AUTO_DISMISS_MS_def)

section \<open>Refinement\<close>

text \<open>
  The dispatcher keeps its notices untimed, as JavaScript objects (\<open>toast_store\<close>). The timed store
  implements it: an entry stands for its object, a timer for the pair its callback closes over.
\<close>

definition opt_val :: "('a \<Rightarrow> jsval) \<Rightarrow> 'a option \<Rightarrow> jsval \<Rightarrow> jsval" where
  "opt_val f o' d = (case o' of Some x \<Rightarrow> f x | None \<Rightarrow> d)"

definition toast_val :: "toast \<Rightarrow> jsval" where
  "toast_val t =
     JObj [(''id'', JStr (to_id t)), (''level'', JStr (to_level t)), (''title'', JStr (to_title t)),
       (''body'', opt_val JStr (to_body t) JNull), (''action'', to_action t),
       (''dismissAfterMs'', opt_val JNum (to_dismissAfterMs t) JNull), (''createdAt'', JNum (to_createdAt t))]"

definition abs_toasts :: "timed_toasts \<Rightarrow> toast_store" where
  "abs_toasts s =
     \<lparr>to_toasts = map toast_val (toasts s), to_nextId = nextId s,
      to_timers = map (\<lambda>tm. (JStr (tm_id tm), tm_createdAt tm)) (timers s)\<rparr>"

definition request_val :: "toast_request \<Rightarrow> jsval" where
  "request_val q =
     JObj [(''id'', opt_val JStr (tq_id q) JUndef), (''level'', opt_val JStr (tq_level q) JUndef), (''title'', JStr (tq_title q)),
       (''body'', opt_val JStr (tq_body q) JUndef), (''action'', tq_action q),
       (''dismissAfterMs'', opt_val JNum (tq_dismissAfterMs q) JUndef)]"

lemma remove_toast_val: "remove_toast (JStr i) (map toast_val ts) = map toast_val (filter (\<lambda>t. to_id t \<noteq> i) ts)"
  by (induction ts) (simp_all add: remove_toast_def toast_val_def jeq_def)

lemma entry_val:
  "toast_val (toast_entry now q n) =
     JObj [(''id'', if truthy (jget (request_val q) ''id'') then jget (request_val q) ''id'' else JStr (''t-'' @ show_nat n)),
       (''level'', jor (jget (request_val q) ''level'') (JStr ''info'')),
       (''title'', jor (jget (request_val q) ''title'') (JStr [])),
       (''body'', or_null (jget (request_val q) ''body'')), (''action'', or_null (jget (request_val q) ''action'')),
       (''dismissAfterMs'', jcoal (jcoal (jget (request_val q) ''dismissAfterMs'')
          (auto_dismiss_ms (jor (jget (request_val q) ''level'') (JStr ''info'')))) JNull), (''createdAt'', JNum now)]"
  by (auto simp: toast_val_def toast_entry_def request_val_def opt_val_def Let_def jor_def jcoal_def or_null_def
      AUTO_DISMISS_MS_def auto_dismiss_ms_def split: option.split)

text \<open>The timed store implements the untimed one: pushing, dismissing, clearing and the firing of a
  timer commute with forgetting the due times.\<close>

theorem toasts_refine:
  "abs_toasts (push_timed now q s) = pushToast now (request_val q) (abs_toasts s) \<and>
   abs_toasts (dismiss_timed i s) = dismissToast (JStr i) (abs_toasts s) \<and>
   abs_toasts (clear_timed s) = clearToasts (abs_toasts s) \<and>
   abs_toasts (fire_timer s tm) = toast_timer (JStr (tm_id tm), tm_createdAt tm) (abs_toasts s)"
proof (intro conjI)
  let ?e = "toast_entry now q (nextId s)"
  have i: "JStr (to_id ?e) = (if truthy (jget (request_val q) ''id'') then jget (request_val q) ''id'' else JStr (''t-'' @ show_nat (nextId s)))"
    using entry_val [of now q "nextId s"] by (simp add: toast_val_def)
  have d: "opt_val JNum (to_dismissAfterMs ?e) JNull = jcoal (jcoal (jget (request_val q) ''dismissAfterMs'')
          (auto_dismiss_ms (jor (jget (request_val q) ''level'') (JStr ''info'')))) JNull"
    using entry_val [of now q "nextId s"] by (simp add: toast_val_def)
  have t: "timed ?e = truthy (opt_val JNum (to_dismissAfterMs ?e) JNull)"
    by (simp add: timed_def opt_val_def split: option.split)
  have g: "(case tq_id q of Some i \<Rightarrow> i = [] | None \<Rightarrow> True) = (\<not> truthy (jget (request_val q) ''id''))"
    by (simp add: request_val_def opt_val_def split: option.split)
  have nx: "to_nextId (abs_toasts s) = nextId s" by (simp add: abs_toasts_def)
  have "pushToast now (request_val q) (abs_toasts s) =
      (abs_toasts s)\<lparr>to_toasts := remove_toast (JStr (to_id ?e)) (to_toasts (abs_toasts s)) @ [toast_val ?e],
        to_nextId := (if truthy (jget (request_val q) ''id'') then nextId s else Suc (nextId s)),
        to_timers := (if timed ?e then to_timers (abs_toasts s) @ [(JStr (to_id ?e), now)] else to_timers (abs_toasts s))\<rparr>"
    unfolding pushToast_def Let_def nx i entry_val t d by simp
  then show "abs_toasts (push_timed now q s) = pushToast now (request_val q) (abs_toasts s)"
    unfolding push_timed_def Let_def g by (simp add: abs_toasts_def remove_toast_val)
  show "abs_toasts (dismiss_timed i s) = dismissToast (JStr i) (abs_toasts s)" for i
    by (simp add: abs_toasts_def dismiss_timed_def dismissToast_def remove_toast_val)
  show "abs_toasts (clear_timed s) = clearToasts (abs_toasts s)"
    by (simp add: abs_toasts_def clear_timed_def clearToasts_def)
  have "List.find (\<lambda>t. jeq (jget t ''id'') (JStr (tm_id tm))) (map toast_val ts) =
      map_option toast_val (List.find (\<lambda>t. to_id t = tm_id tm) ts)" for ts
    by (induction ts) (simp_all add: toast_val_def jeq_def)
  then show "abs_toasts (fire_timer s tm) = toast_timer (JStr (tm_id tm), tm_createdAt tm) (abs_toasts s)"
    by (auto simp: fire_timer_def toast_timer_def dismiss_timed_def dismissToast_def abs_toasts_def remove_toast_val
        toast_val_def [of "the _"] split: option.split) (simp_all add: toast_val_def)
qed

end
