(* ===== verification/ApiClient.thy ===== *)
theory ApiClient
  imports Toasts SafeStorage
begin

text \<open>
  The HTTP client both web applications share (\<^verbatim>\<open>web/shared/api/client.js\<close>), the token and auth stores
  behind it (\<^verbatim>\<open>web/shared/api/tokenStore.js\<close>, \<^verbatim>\<open>web/shared/stores/authStore.js\<close>) and the login calls
  (\<^verbatim>\<open>web/shared/api/auth.js\<close>).

  The network is a parameter: what a request gets at its \<open>n\<close>-th attempt (\<open>None\<close> when \<^verbatim>\<open>fetch\<close>
  rejects), and where, if at all, the timer for slow answers fires: while an attempt is pending or some
  way into the pause after it. The event
  \<^verbatim>\<open>auth:unauthorized\<close> is delivered at once to its listener, the logout of the application. The state
  records every request sent and the clock, which the pauses between attempts advance.
\<close>

section \<open>State\<close>

record auth_store =
  au_user :: jsval
  au_token :: "string option"
  au_needsSetup :: "bool option"
  au_loading :: bool
  au_logoutReason :: "string option"

record request =
  rq_method :: string
  rq_url :: string
  rq_headers :: "(string \<times> string) list"
  rq_body :: "string option"

record http =
  ht_status :: int
  ht_text :: string
  ht_json :: "jsval option"

definition ht_ok :: "http \<Rightarrow> bool" where
  "ht_ok res \<longleftrightarrow> 200 \<le> ht_status res \<and> ht_status res < 300"

datatype slow_point = SlowFetch nat | SlowPause nat nat

record network =
  nw_fetch :: "request \<Rightarrow> nat \<Rightarrow> http option"
  nw_slow :: "request \<Rightarrow> slow_point option"

record client =
  cl_storage :: storage
  cl_tokenKey :: string
  cl_toasts :: timed_toasts
  cl_auth :: auth_store
  cl_resets :: nat
  cl_now :: int
  cl_sent :: "request list"

datatype api_error = UnauthorizedError string | APIError int string | NetworkError | PlainError string

type_synonym 'a api_result = "(api_error + 'a) \<times> client"

section \<open>Token and session\<close>

definition getToken :: "client \<Rightarrow> string option" where
  "getToken c = getItem (cl_storage c) (cl_tokenKey c)"

definition setToken :: "string option \<Rightarrow> client \<Rightarrow> client" where
  "setToken token c =
     c\<lparr>cl_storage := snd (case token of
         Some t \<Rightarrow> (if t = [] then removeItem (cl_tokenKey c) (cl_storage c) else setItem (cl_tokenKey c) t (cl_storage c))
       | None \<Rightarrow> removeItem (cl_tokenKey c) (cl_storage c))\<rparr>"

definition clearToken :: "client \<Rightarrow> client" where
  "clearToken c = c\<lparr>cl_storage := snd (removeItem (cl_tokenKey c) (cl_storage c))\<rparr>"

definition setLogoutReason :: "string option \<Rightarrow> client \<Rightarrow> client" where
  "setLogoutReason reason c = c\<lparr>cl_auth := (cl_auth c)\<lparr>au_logoutReason := reason\<rparr>\<rparr>"

definition auth_setToken :: "string option \<Rightarrow> client \<Rightarrow> client" where
  "auth_setToken token c = (let c1 = setToken token c in c1\<lparr>cl_auth := (cl_auth c1)\<lparr>au_token := token\<rparr>\<rparr>)"

definition setUser :: "jsval \<Rightarrow> client \<Rightarrow> client" where
  "setUser user c = c\<lparr>cl_auth := (cl_auth c)\<lparr>au_user := user\<rparr>\<rparr>"

text \<open>The feature stores that are reset belong to the application; their reset is counted.\<close>

definition logout :: "client \<Rightarrow> client" where
  "logout c =
     (let c1 = clearToken c
      in c1\<lparr>cl_auth := (cl_auth c1)\<lparr>au_user := JNull, au_token := None, au_logoutReason := None\<rparr>,
           cl_resets := Suc (cl_resets c1)\<rparr>)"

definition getAuthHeaders :: "client \<Rightarrow> (string \<times> string) list" where
  "getAuthHeaders c =
     (case getToken c of Some t \<Rightarrow> if t = [] then [] else [(''Authorization'', ''Bearer '' @ t)] | None \<Rightarrow> [])"

section \<open>Notices\<close>

definition api_toast :: "string option \<Rightarrow> string \<Rightarrow> string \<Rightarrow> string option \<Rightarrow> int option \<Rightarrow> toast_request" where
  "api_toast i level title body ms =
     \<lparr>tq_id = i, tq_level = Some level, tq_title = title, tq_body = body, tq_action = JUndef, tq_dismissAfterMs = ms\<rparr>"

definition push :: "toast_request \<Rightarrow> client \<Rightarrow> client" where
  "push q c = c\<lparr>cl_toasts := push_timed (cl_now c) q (cl_toasts c)\<rparr>"

definition pushApiToast :: "int \<Rightarrow> string \<Rightarrow> client \<Rightarrow> client" where
  "pushApiToast status body =
     push (api_toast None ''error'' (''API error '' @ show_int status) (if body = [] then None else Some (take 400 body)) None)"

definition WAKE_TOAST_ID :: string where
  "WAKE_TOAST_ID = ''agent-sandbox-waking''"

definition READY_TOAST_ID :: string where
  "READY_TOAST_ID = ''agent-sandbox-ready''"

definition notifyWaking :: "client \<Rightarrow> client" where
  "notifyWaking =
     push (api_toast (Some WAKE_TOAST_ID) ''info'' (''Agent sandbox is waking'' @ [CHR 0x85]) None (Some 8000))"

definition clearWaking :: "client \<Rightarrow> client" where
  "clearWaking c = c\<lparr>cl_toasts := dismiss_timed WAKE_TOAST_ID (cl_toasts c)\<rparr>"

definition notifyReady :: "client \<Rightarrow> client" where
  "notifyReady = push (api_toast (Some READY_TOAST_ID) ''success'' ''Agent is ready'' None None)"

section \<open>Waking a sandbox\<close>

definition WAKE_RETRY_MAX :: nat where
  "WAKE_RETRY_MAX = 6"

definition WAKE_RETRY_BASE_MS :: nat where
  "WAKE_RETRY_BASE_MS = 800"

definition sleep :: "nat \<Rightarrow> client \<Rightarrow> client" where
  "sleep ms c = c\<lparr>cl_now := cl_now c + int ms, cl_toasts := toast_tick (cl_now c + int ms) (cl_toasts c)\<rparr>"

definition send :: "request \<Rightarrow> client \<Rightarrow> client" where
  "send rq c = c\<lparr>cl_sent := cl_sent c @ [rq]\<rparr>"

definition markWaking :: "bool \<Rightarrow> client \<Rightarrow> client" where
  "markWaking surfaceLifecycle c = (if surfaceLifecycle then notifyWaking c else c)"

text \<open>The pause after an attempt; the timer for slow answers may fire in the middle of it.\<close>

definition wake_pause :: "network \<Rightarrow> request \<Rightarrow> bool \<Rightarrow> nat \<Rightarrow> client \<Rightarrow> client" where
  "wake_pause net rq surfaceLifecycle attempt c =
     (let ms = WAKE_RETRY_BASE_MS * min (attempt + 1) 5
      in case nw_slow net rq of
           Some (SlowPause a t) \<Rightarrow>
             if a = attempt \<and> t \<le> ms then sleep (ms - t) (markWaking surfaceLifecycle (sleep t c)) else sleep ms c
         | _ \<Rightarrow> sleep ms c)"

text \<open>The loop over the attempts, with the flag \<^verbatim>\<open>waited\<close>; \<open>None\<close> where \<^verbatim>\<open>fetch\<close> rejects.\<close>

function wake_loop :: "network \<Rightarrow> request \<Rightarrow> bool \<Rightarrow> nat \<Rightarrow> bool \<Rightarrow> client \<Rightarrow> http option \<times> bool \<times> client" where
  "wake_loop net rq surfaceLifecycle attempt waited c =
     (let slow = (nw_slow net rq = Some (SlowFetch attempt));
          c1 = send rq c;
          c2 = (if slow then markWaking surfaceLifecycle c1 else c1);
          waited1 = (waited \<or> slow)
      in case nw_fetch net rq attempt of
           None \<Rightarrow> (None, waited1, c2)
         | Some res \<Rightarrow>
             if ht_status res \<noteq> 503 \<or> attempt \<ge> WAKE_RETRY_MAX then (Some res, waited1, c2)
             else wake_loop net rq surfaceLifecycle (Suc attempt) True
                    (wake_pause net rq surfaceLifecycle attempt (markWaking surfaceLifecycle c2)))"
  by pat_completeness auto
termination
  by (relation "measure (\<lambda>(net, rq, sl, attempt, w, c). Suc WAKE_RETRY_MAX - attempt)") (auto simp: WAKE_RETRY_MAX_def)

declare wake_loop.simps [simp del]

definition fetchWithWake :: "network \<Rightarrow> request \<Rightarrow> bool \<Rightarrow> client \<Rightarrow> http option \<times> client" where
  "fetchWithWake net rq surfaceLifecycle c =
     (case wake_loop net rq surfaceLifecycle 0 False c of
        (None, _, c1) \<Rightarrow> (None, c1)
      | (Some res, waited, c1) \<Rightarrow>
          if waited \<and> surfaceLifecycle
          then (let c2 = clearWaking c1 in (Some res, if ht_status res \<noteq> 503 then notifyReady c2 else c2))
          else (Some res, c1))"

section \<open>Answers\<close>

definition REVOKED_DETAIL :: string where
  "REVOKED_DETAIL = ''account access revoked''"

definition isAccountRevoked :: "js_env \<Rightarrow> string \<Rightarrow> bool" where
  "isAccountRevoked env body =
     (if body = [] then False
      else (let detail = (case env_parse_json env body of
                            Some parsed \<Rightarrow> if is_str (jget parsed ''detail'') then str_of (jget parsed ''detail'') else body
                          | None \<Rightarrow> body)
            in lower (trim detail) = REVOKED_DETAIL))"

definition markAccessRevoked :: "client \<Rightarrow> client" where
  "markAccessRevoked = setLogoutReason (Some ''revoked'')"

record response_options =
  ro_silent :: bool
  ro_silentStatuses :: "int list"

definition no_options :: response_options where
  "no_options = \<lparr>ro_silent = False, ro_silentStatuses = []\<rparr>"

definition handleAPIResponse :: "js_env \<Rightarrow> response_options \<Rightarrow> http \<Rightarrow> client \<Rightarrow> jsval api_result" where
  "handleAPIResponse env opts res c =
     (let status = ht_status res; txt = ht_text res; message = ''API error '' @ show_int status @ '': '' @ txt
      in if status = 401
         then (let c1 = logout c
               in (Inl (UnauthorizedError message), if ro_silent opts then c1 else pushApiToast status txt c1))
         else if \<not> ht_ok res
         then (if status = 403 \<and> isAccountRevoked env txt
               then (Inl (UnauthorizedError message), markAccessRevoked (logout c))
               else (Inl (APIError status txt),
                     if \<not> ro_silent opts \<and> status \<noteq> 400 \<and> status \<noteq> 503 \<and> status \<notin> set (ro_silentStatuses opts)
                     then pushApiToast status txt c else c))
         else (case ht_json res of Some data \<Rightarrow> (Inr data, c) | None \<Rightarrow> (Inl (PlainError ''json''), c)))"

definition finish :: "js_env \<Rightarrow> response_options \<Rightarrow> http option \<times> client \<Rightarrow> jsval api_result" where
  "finish env opts rc =
     (case rc of (None, c) \<Rightarrow> (Inl NetworkError, c) | (Some res, c) \<Rightarrow> handleAPIResponse env opts res c)"

section \<open>The calls\<close>

definition BASE_URL :: string where
  "BASE_URL = ''/api''"

definition SANDBOX_BASE :: string where
  "SANDBOX_BASE = ''/api/sandbox''"

definition json_type :: "(string \<times> string) list" where
  "json_type = [(''Content-Type'', ''application/json'')]"

definition with_body :: "js_env \<Rightarrow> string \<Rightarrow> string \<Rightarrow> jsval \<Rightarrow> client \<Rightarrow> request" where
  "with_body env method url body c =
     \<lparr>rq_method = method, rq_url = url, rq_headers = json_type @ getAuthHeaders c, rq_body = Some (env_stringify env body)\<rparr>"

definition without_body :: "string \<Rightarrow> string \<Rightarrow> client \<Rightarrow> request" where
  "without_body method url c = \<lparr>rq_method = method, rq_url = url, rq_headers = getAuthHeaders c, rq_body = None\<rparr>"

definition postJSON :: "js_env \<Rightarrow> network \<Rightarrow> string \<Rightarrow> jsval \<Rightarrow> client \<Rightarrow> jsval api_result" where
  "postJSON env net path body c =
     finish env no_options (fetchWithWake net (with_body env ''POST'' (BASE_URL @ path) body c) True c)"

definition getJSON_api :: "js_env \<Rightarrow> network \<Rightarrow> string \<Rightarrow> client \<Rightarrow> jsval api_result" where
  "getJSON_api env net path c = finish env no_options (fetchWithWake net (without_body ''GET'' (BASE_URL @ path) c) True c)"

text \<open>One attempt, no waking: for the endpoints of the control plane.\<close>

definition plain_fetch :: "network \<Rightarrow> request \<Rightarrow> client \<Rightarrow> http option \<times> client" where
  "plain_fetch net rq c = (nw_fetch net rq 0, send rq c)"

definition controlPlaneGet :: "js_env \<Rightarrow> network \<Rightarrow> string \<Rightarrow> client \<Rightarrow> jsval api_result" where
  "controlPlaneGet env net path c = finish env no_options (plain_fetch net (without_body ''GET'' (BASE_URL @ path) c) c)"

definition putJSON :: "js_env \<Rightarrow> network \<Rightarrow> string \<Rightarrow> jsval \<Rightarrow> client \<Rightarrow> jsval api_result" where
  "putJSON env net path body c =
     finish env no_options (fetchWithWake net (with_body env ''PUT'' (BASE_URL @ path) body c) True c)"

definition deleteJSON :: "js_env \<Rightarrow> network \<Rightarrow> string \<Rightarrow> client \<Rightarrow> jsval api_result" where
  "deleteJSON env net path c =
     finish env no_options (fetchWithWake net (without_body ''DELETE'' (BASE_URL @ path) c) True c)"

definition sandboxPost :: "js_env \<Rightarrow> network \<Rightarrow> string \<Rightarrow> jsval \<Rightarrow> client \<Rightarrow> jsval api_result" where
  "sandboxPost env net path body c =
     finish env no_options (fetchWithWake net (with_body env ''POST'' (SANDBOX_BASE @ path) body c) True c)"

definition sandboxPatch :: "js_env \<Rightarrow> network \<Rightarrow> string \<Rightarrow> jsval \<Rightarrow> client \<Rightarrow> jsval api_result" where
  "sandboxPatch env net path body c =
     finish env no_options (fetchWithWake net (with_body env ''PATCH'' (SANDBOX_BASE @ path) body c) True c)"

definition sandboxGet :: "js_env \<Rightarrow> network \<Rightarrow> string \<Rightarrow> client \<Rightarrow> jsval api_result" where
  "sandboxGet env net path c =
     finish env no_options (fetchWithWake net (without_body ''GET'' (SANDBOX_BASE @ path) c) True c)"

definition sandboxPut :: "js_env \<Rightarrow> network \<Rightarrow> string \<Rightarrow> jsval \<Rightarrow> client \<Rightarrow> jsval api_result" where
  "sandboxPut env net path body c =
     finish env no_options (fetchWithWake net (with_body env ''PUT'' (SANDBOX_BASE @ path) body c) True c)"

definition sandboxDelete :: "js_env \<Rightarrow> network \<Rightarrow> string \<Rightarrow> client \<Rightarrow> jsval api_result" where
  "sandboxDelete env net path c =
     finish env no_options (fetchWithWake net (without_body ''DELETE'' (SANDBOX_BASE @ path) c) True c)"

text \<open>
  The two lanes of a large read. The answer of the first lane is returned without \<^verbatim>\<open>await\<close>, so its
  rejection passes the surrounding \<^verbatim>\<open>catch\<close>: only a rejected \<^verbatim>\<open>fetch\<close> and a 404 fall back.
\<close>

definition sandboxRead :: "js_env \<Rightarrow> network \<Rightarrow> string \<Rightarrow> response_options \<Rightarrow> client \<Rightarrow> jsval api_result" where
  "sandboxRead env net path opts c =
     (case fetchWithWake net (without_body ''GET'' (''/api/cp-proxy'' @ path) c) True c of
        (Some res, c1) \<Rightarrow>
          if ht_status res \<noteq> 404 then handleAPIResponse env opts res c1
          else finish env opts (fetchWithWake net (without_body ''GET'' (SANDBOX_BASE @ path) c1) True c1)
      | (None, c1) \<Rightarrow> finish env opts (fetchWithWake net (without_body ''GET'' (SANDBOX_BASE @ path) c1) True c1))"

definition sandboxReadPost :: "js_env \<Rightarrow> network \<Rightarrow> string \<Rightarrow> jsval \<Rightarrow> client \<Rightarrow> jsval api_result" where
  "sandboxReadPost env net path body c =
     (let init = with_body env ''POST'' [] body c
      in case fetchWithWake net (init\<lparr>rq_url := ''/api/cp-proxy'' @ path\<rparr>) True c of
           (Some res, c1) \<Rightarrow>
             if ht_status res \<noteq> 404 then handleAPIResponse env no_options res c1
             else finish env no_options (fetchWithWake net (init\<lparr>rq_url := SANDBOX_BASE @ path\<rparr>) True c1)
         | (None, c1) \<Rightarrow> finish env no_options (fetchWithWake net (init\<lparr>rq_url := SANDBOX_BASE @ path\<rparr>) True c1))"

definition agentRun :: "js_env \<Rightarrow> network \<Rightarrow> jsval \<Rightarrow> jsval \<Rightarrow> jsval \<Rightarrow> client \<Rightarrow> jsval api_result" where
  "agentRun env net message sessionId runMode c =
     sandboxPost env net ''/agent/run''
       (set_if (runMode = JStr ''agent'' \<or> runMode = JStr ''code'') ''run_mode'' runMode
         (JObj [(''message'', message), (''session_id'', sessionId)])) c"

section \<open>Login calls\<close>

text \<open>The calls of \<^verbatim>\<open>auth.js\<close> make one attempt; a failed answer becomes an error with the status or the text.\<close>

definition auth_finish :: "bool \<Rightarrow> http option \<times> client \<Rightarrow> jsval api_result" where
  "auth_finish with_text rc =
     (case rc of
        (None, c) \<Rightarrow> (Inl NetworkError, c)
      | (Some res, c) \<Rightarrow>
          if \<not> ht_ok res
          then (Inl (PlainError (if with_text then ht_text res else ''API error '' @ show_int (ht_status res))), c)
          else (case ht_json res of Some data \<Rightarrow> (Inr data, c) | None \<Rightarrow> (Inl (PlainError ''json''), c)))"

definition bearer :: "string option \<Rightarrow> (string \<times> string) list" where
  "bearer token = [(''Authorization'', ''Bearer '' @ (case token of Some t \<Rightarrow> t | None \<Rightarrow> ''null''))]"

definition checkSetup :: "network \<Rightarrow> client \<Rightarrow> jsval api_result" where
  "checkSetup net c =
     auth_finish False (plain_fetch net \<lparr>rq_method = ''GET'', rq_url = BASE_URL @ ''/auth/setup'', rq_headers = [], rq_body = None\<rparr> c)"

definition getMe :: "network \<Rightarrow> string option \<Rightarrow> client \<Rightarrow> jsval api_result" where
  "getMe net token c =
     auth_finish False
       (plain_fetch net \<lparr>rq_method = ''GET'', rq_url = BASE_URL @ ''/auth/me'', rq_headers = bearer token, rq_body = None\<rparr> c)"

definition hydrateLoginResponse :: "network \<Rightarrow> jsval \<Rightarrow> client \<Rightarrow> jsval \<times> client" where
  "hydrateLoginResponse net payload c =
     (let token = jget payload ''access_token''
      in if \<not> truthy token then (payload, c)
         else (case getMe net (Some (to_str token)) c of
                 (Inr user, c1) \<Rightarrow> (jset ''user'' user payload, c1)
               | (Inl _, c1) \<Rightarrow> (payload, c1)))"

definition hydrated :: "network \<Rightarrow> jsval api_result \<Rightarrow> jsval api_result" where
  "hydrated net r =
     (case r of (Inl e, c) \<Rightarrow> (Inl e, c)
      | (Inr payload, c) \<Rightarrow> (let (data, c1) = hydrateLoginResponse net payload c in (Inr data, c1)))"

definition json_post :: "js_env \<Rightarrow> string \<Rightarrow> jsval \<Rightarrow> request" where
  "json_post env path body =
     \<lparr>rq_method = ''POST'', rq_url = BASE_URL @ path, rq_headers = json_type, rq_body = Some (env_stringify env body)\<rparr>"

definition login :: "js_env \<Rightarrow> network \<Rightarrow> string \<Rightarrow> string \<Rightarrow> client \<Rightarrow> jsval api_result" where
  "login env net username password c =
     hydrated net (auth_finish True (plain_fetch net
       (json_post env ''/auth/login'' (JObj [(''username'', JStr username), (''password'', JStr password)])) c))"

definition setupAdmin :: "js_env \<Rightarrow> network \<Rightarrow> string \<Rightarrow> string \<Rightarrow> jsval \<Rightarrow> client \<Rightarrow> jsval api_result" where
  "setupAdmin env net username password envData c =
     hydrated net (auth_finish True (plain_fetch net
       (json_post env ''/auth/setup''
         (set_if (truthy envData) ''env'' envData (JObj [(''username'', JStr username), (''password'', JStr password)]))) c))"

definition submitRegistration :: "js_env \<Rightarrow> network \<Rightarrow> jsval \<Rightarrow> client \<Rightarrow> jsval api_result" where
  "submitRegistration env net payload c = auth_finish True (plain_fetch net (json_post env ''/auth/register'' payload) c)"

definition api_key_call :: "network \<Rightarrow> string \<Rightarrow> client \<Rightarrow> jsval api_result" where
  "api_key_call net method c =
     auth_finish False (plain_fetch net
       \<lparr>rq_method = method, rq_url = BASE_URL @ ''/auth/me/apikey'', rq_headers = bearer (getToken c), rq_body = None\<rparr> c)"

definition getMyApiKey :: "network \<Rightarrow> client \<Rightarrow> jsval api_result" where
  "getMyApiKey net = api_key_call net ''GET''"

definition generateMyApiKey :: "network \<Rightarrow> client \<Rightarrow> jsval api_result" where
  "generateMyApiKey net = api_key_call net ''POST''"

definition revokeMyApiKey :: "network \<Rightarrow> client \<Rightarrow> jsval api_result" where
  "revokeMyApiKey net = api_key_call net ''DELETE''"

definition changeMyPassword :: "js_env \<Rightarrow> network \<Rightarrow> string \<Rightarrow> string \<Rightarrow> client \<Rightarrow> jsval api_result" where
  "changeMyPassword env net currentPassword newPassword c =
     auth_finish True (plain_fetch net
       \<lparr>rq_method = ''PUT'', rq_url = BASE_URL @ ''/auth/me/password'', rq_headers = json_type @ bearer (getToken c),
        rq_body = Some (env_stringify env
          (JObj [(''current_password'', JStr currentPassword), (''new_password'', JStr newPassword)]))\<rparr> c)"

definition set_loading :: "bool \<Rightarrow> client \<Rightarrow> client" where
  "set_loading b c = c\<lparr>cl_auth := (cl_auth c)\<lparr>au_loading := b\<rparr>\<rparr>"

text \<open>The boot of the application: setup, then the validation of a stored token.\<close>

definition validate_token :: "network \<Rightarrow> client \<Rightarrow> client" where
  "validate_token net c =
     (case au_token (cl_auth c) of
        None \<Rightarrow> set_loading False c
      | Some t \<Rightarrow>
          if t = [] then set_loading False c
          else (case getMe net (Some t) c of
                  (Inr user, c1) \<Rightarrow> set_loading False (setUser user c1)
                | (Inl _, c1) \<Rightarrow>
                    set_loading False (let c2 = clearToken c1 in c2\<lparr>cl_auth := (cl_auth c2)\<lparr>au_token := None\<rparr>\<rparr>)))"

definition initialize :: "network \<Rightarrow> client \<Rightarrow> client" where
  "initialize net c =
     (case checkSetup net (set_loading True c) of
        (Inl _, c1) \<Rightarrow> set_loading False c1
      | (Inr setupStatus, c1) \<Rightarrow>
          if truthy (jget setupStatus ''needs_setup'')
          then set_loading False (c1\<lparr>cl_auth := (cl_auth c1)\<lparr>au_needsSetup := Some True\<rparr>\<rparr>)
          else validate_token net (c1\<lparr>cl_auth := (cl_auth c1)\<lparr>au_needsSetup := Some False\<rparr>\<rparr>))"

section \<open>Retries\<close>

lemma push_simps [simp]:
  "cl_now (push q c) = cl_now c" "cl_sent (push q c) = cl_sent c" "cl_auth (push q c) = cl_auth c"
  "cl_storage (push q c) = cl_storage c" "cl_resets (push q c) = cl_resets c" "cl_tokenKey (push q c) = cl_tokenKey c"
  by (simp_all add: push_def)

lemmas notice_defs = markWaking_def notifyWaking_def notifyReady_def clearWaking_def pushApiToast_def

lemma wake_simps [simp]:
  "cl_sent (markWaking sl c) = cl_sent c" "cl_now (markWaking sl c) = cl_now c"
  "cl_sent (sleep ms c) = cl_sent c" "cl_now (sleep ms c) = cl_now c + int ms"
  "cl_sent (send rq c) = cl_sent c @ [rq]" "cl_now (send rq c) = cl_now c"
  by (simp_all add: notice_defs sleep_def send_def)

lemma wake_pause_simps [simp]:
  "cl_sent (wake_pause net rq sl a c) = cl_sent c"
  "cl_now (wake_pause net rq sl a c) = cl_now c + int (WAKE_RETRY_BASE_MS * min (a + 1) 5)"
  by (simp_all add: wake_pause_def Let_def split: option.split slow_point.split)

text \<open>The pauses that attempts from \<open>a\<close> on can still take.\<close>

definition pauses :: "nat \<Rightarrow> nat" where
  "pauses a = (\<Sum>i\<leftarrow>[a..<WAKE_RETRY_MAX]. WAKE_RETRY_BASE_MS * min (i + 1) 5)"

lemma pauses_Suc: "a < WAKE_RETRY_MAX \<Longrightarrow> pauses a = WAKE_RETRY_BASE_MS * min (a + 1) 5 + pauses (Suc a)"
  by (simp add: pauses_def upt_conv_Cons)

lemma wake_loop_bound:
  "a \<le> WAKE_RETRY_MAX \<Longrightarrow> wake_loop net rq sl a w c = (r, w', c') \<Longrightarrow>
   \<exists>n \<le> Suc WAKE_RETRY_MAX - a. cl_sent c' = cl_sent c @ replicate n rq \<and> cl_now c' \<le> cl_now c + int (pauses a)"
proof (induction "WAKE_RETRY_MAX - a" arbitrary: a w c rule: less_induct)
  case less
  define c2 where "c2 = (if nw_slow net rq = Some (SlowFetch a) then markWaking sl (send rq c) else send rq c)"
  have c2: "cl_sent c2 = cl_sent c @ [rq]" "cl_now c2 = cl_now c" by (simp_all add: c2_def)
  consider (stop) "c' = c2"
    | (more) res where "nw_fetch net rq a = Some res" "ht_status res = 503" "a < WAKE_RETRY_MAX"
      "wake_loop net rq sl (Suc a) True (wake_pause net rq sl a (markWaking sl c2)) = (r, w', c')"
    using less.prems(2) unfolding wake_loop.simps [of net rq sl a w c] c2_def
    by (auto simp: Let_def split: option.splits if_splits)
  then show ?case
  proof cases
    case stop
    with c2 less.prems(1) show ?thesis by (intro exI [of _ 1]) auto
  next
    case more
    have "WAKE_RETRY_MAX - Suc a < WAKE_RETRY_MAX - a" using more(3) by simp
    from less.hyps [OF this _ more(4)] more(3) obtain n where
      "n \<le> WAKE_RETRY_MAX - a" "cl_sent c' = cl_sent c2 @ replicate n rq"
      "cl_now c' \<le> cl_now c2 + int (WAKE_RETRY_BASE_MS * min (a + 1) 5) + int (pauses (Suc a))"
      by auto
    with c2 more(3) show ?thesis
      by (intro exI [of _ "Suc n"]) (auto simp: pauses_Suc replicate_append_same [symmetric] Suc_diff_le)
  qed
qed

lemma wake_bound:
  "\<exists>n \<le> 7. cl_sent (snd (fetchWithWake net rq surface c)) = cl_sent c @ replicate n rq \<and>
    cl_now (snd (fetchWithWake net rq surface c)) \<le> cl_now c + 16000"
proof -
  obtain r w c' where l: "wake_loop net rq surface 0 False c = (r, w, c')" using prod_cases3 by blast
  from wake_loop_bound [OF _ l] obtain n where
    "n \<le> 7" "cl_sent c' = cl_sent c @ replicate n rq" "cl_now c' \<le> cl_now c + int (pauses 0)"
    by (auto simp: WAKE_RETRY_MAX_def)
  moreover have "pauses 0 = 16000"
    by (simp add: pauses_def WAKE_RETRY_MAX_def WAKE_RETRY_BASE_MS_def upt_conv_Cons)
  ultimately show ?thesis
    by (intro exI [of _ n]) (simp add: fetchWithWake_def l notice_defs Let_def split: option.splits)
qed

text \<open>Waking a sandbox is bounded: a call sends its request at most seven times, always the same
  request, pauses sixteen seconds at most in all, and then returns.\<close>

theorem wake_is_bounded:
  "\<exists>n \<le> 7. cl_sent (snd (fetchWithWake net rq surface c)) = cl_sent c @ replicate n rq \<and>
    cl_now (snd (fetchWithWake net rq surface c)) \<le> cl_now c + 16000"
  by (rule wake_bound)


definition shown :: "string \<Rightarrow> client \<Rightarrow> bool" where
  "shown i c \<longleftrightarrow> i \<in> to_id ` set (toasts (cl_toasts c))"





definition demo_client :: client where
  "demo_client = \<lparr>cl_storage = \<lparr>st_blocked = False, st_full = False, st_items = [(''k'', ''tok'')]\<rparr>, cl_tokenKey = ''k'',
     cl_toasts = no_toasts,
     cl_auth = \<lparr>au_user = JNull, au_token = Some ''tok'', au_needsSetup = None, au_loading = True, au_logoutReason = None\<rparr>,
     cl_resets = 0, cl_now = 0, cl_sent = []\<rparr>"

definition demo_http :: "int \<Rightarrow> string \<Rightarrow> http" where
  "demo_http status txt = \<lparr>ht_status = status, ht_text = txt, ht_json = Some (JBool True)\<rparr>"




section \<open>Answers\<close>


lemma logout_auth [simp]:
  "au_token (cl_auth (logout c)) = None" "au_user (cl_auth (logout c)) = JNull" "cl_resets (logout c) = Suc (cl_resets c)"
  "au_logoutReason (cl_auth (logout c)) = None"
  by (simp_all add: logout_def clearToken_def Let_def)

lemma logout_token: "\<not> st_blocked (cl_storage c) \<Longrightarrow> getToken (logout c) = None"
  by (simp add: logout_def clearToken_def Let_def getToken_def removeItem_def getItem_def)



text \<open>The proxy lane of a large read is final unless it is missing or unreachable.\<close>

lemma read_falls_back:
  assumes "fetchWithWake net (without_body ''GET'' (''/api/cp-proxy'' @ path) c) True c = (r, c1)"
  shows "sandboxRead env net path opts c =
    (if r = None \<or> map_option ht_status r = Some 404
     then finish env opts (fetchWithWake net (without_body ''GET'' (SANDBOX_BASE @ path) c1) True c1)
     else finish env opts (r, c1))"
  using assms by (auto simp: sandboxRead_def finish_def split: option.splits)

lemma finish_sent: "cl_sent (snd (finish env opts rc)) = cl_sent (snd rc)"
  by (auto simp: finish_def handleAPIResponse_def Let_def pushApiToast_def markAccessRevoked_def setLogoutReason_def
      logout_def clearToken_def split: prod.splits option.splits)

text \<open>A large read never loops between its lanes: it sends at most seven requests on the proxy lane
  and seven on the direct lane, and none on the direct lane when the proxy lane gives any answer but a 404.\<close>

theorem read_requests_bounded:
  "\<exists>m \<le> 7. \<exists>n \<le> 7. \<exists>direct.
     cl_sent (snd (sandboxRead env net path opts c)) =
       cl_sent c @ replicate m (without_body ''GET'' (''/api/cp-proxy'' @ path) c) @ replicate n direct \<and>
     rq_url direct = SANDBOX_BASE @ path \<and>
     (case fst (fetchWithWake net (without_body ''GET'' (''/api/cp-proxy'' @ path) c) True c) of
        Some res \<Rightarrow> ht_status res = 404 \<or> n = 0 | None \<Rightarrow> True)"
proof -
  let ?p = "without_body ''GET'' (''/api/cp-proxy'' @ path) c"
  obtain r c1 where f: "fetchWithWake net ?p True c = (r, c1)" by fastforce
  let ?d = "without_body ''GET'' (SANDBOX_BASE @ path) c1"
  from wake_bound [of net ?p True c] f obtain m where m: "m \<le> 7" "cl_sent c1 = cl_sent c @ replicate m ?p" by auto
  from wake_bound [of net ?d True c1] obtain n where
    n: "n \<le> 7" "cl_sent (snd (fetchWithWake net ?d True c1)) = cl_sent c1 @ replicate n ?d" by auto
  have url: "rq_url ?d = SANDBOX_BASE @ path" by (simp add: without_body_def)
  show ?thesis
  proof (cases "r = None \<or> map_option ht_status r = Some 404")
    case True
    with m n url f show ?thesis
      by (intro exI [of _ m] conjI exI [of _ n] exI [of _ ?d]) (auto simp: read_falls_back [OF f] finish_sent split: option.splits)
  next
    case False
    with m url f show ?thesis
      by (intro exI [of _ m] conjI exI [of _ 0] exI [of _ ?d]) (auto simp: read_falls_back [OF f] finish_sent)
  qed
qed

section \<open>Boot\<close>

lemma plain_fetch_state: "plain_fetch net rq c = (r, c') \<Longrightarrow> c' = send rq c"
  by (simp add: plain_fetch_def)

lemma auth_finish_state: "auth_finish b (r, c) = (x, c') \<Longrightarrow> c' = c"
  by (auto simp: auth_finish_def split: option.splits if_splits)

lemma auth_call_auth:
  "auth_finish b (plain_fetch net rq c) = (x, c') \<Longrightarrow>
   cl_auth c' = cl_auth c \<and> cl_storage c' = cl_storage c \<and> cl_tokenKey c' = cl_tokenKey c \<and> cl_toasts c' = cl_toasts c"
  by (auto simp: plain_fetch_def send_def dest: auth_finish_state)

lemma set_loading_simps [simp]:
  "au_loading (cl_auth (set_loading b c)) = b" "au_user (cl_auth (set_loading b c)) = au_user (cl_auth c)"
  "au_token (cl_auth (set_loading b c)) = au_token (cl_auth c)" "cl_storage (set_loading b c) = cl_storage c"
  by (simp_all add: set_loading_def)

definition settled_from :: "network \<Rightarrow> client \<Rightarrow> client \<Rightarrow> bool" where
  "settled_from net c c' \<longleftrightarrow>
     \<not> au_loading (cl_auth c') \<and>
     (au_user (cl_auth c') = au_user (cl_auth c) \<or>
       (\<exists>t c1 c2. au_token (cl_auth c) = Some t \<and> t \<noteq> [] \<and> getMe net (Some t) c1 = (Inr (au_user (cl_auth c')), c2) \<and>
          au_token (cl_auth c') = Some t)) \<and>
     (au_token (cl_auth c') = au_token (cl_auth c) \<or> au_token (cl_auth c') = None)"

lemma validate_settles: "settled_from net c (validate_token net c)"
proof (cases "au_token (cl_auth c)")
  case None
  then show ?thesis by (simp add: validate_token_def settled_from_def)
next
  case (Some t)
  obtain r c1 where g: "getMe net (Some t) c = (r, c1)" by fastforce
  then have "cl_auth c1 = cl_auth c" unfolding getMe_def by (simp add: auth_call_auth)
  with g Some show ?thesis
    by (cases r) (auto simp: validate_token_def settled_from_def setUser_def clearToken_def Let_def)
qed

text \<open>Booting always ends: the loading flag is cleared whatever the network does; a user is signed in
  by it only if the stored token was presented to the server and accepted, and then the token is
  kept; otherwise the token is as before or dropped.\<close>

theorem boot_settles: "settled_from net c (initialize net c)"
proof -
  obtain r c1 where s: "checkSetup net (set_loading True c) = (r, c1)" by fastforce
  then have a: "cl_auth c1 = cl_auth (set_loading True c)" unfolding checkSetup_def by (simp add: auth_call_auth)
  have "settled_from net c (validate_token net (c1\<lparr>cl_auth := (cl_auth c1)\<lparr>au_needsSetup := Some False\<rparr>\<rparr>))"
    using validate_settles [of net "c1\<lparr>cl_auth := (cl_auth c1)\<lparr>au_needsSetup := Some False\<rparr>\<rparr>"] a
    by (simp add: settled_from_def)
  with s a show ?thesis by (cases r) (auto simp: initialize_def, auto simp: settled_from_def)
qed

text \<open>
  A comment of the source says that the waking notice is cleared on ready or failure. A request that
  is rejected after a 503 leaves it: only its own timer removes it.
\<close>

definition demo_lost_net :: network where
  "demo_lost_net = \<lparr>nw_fetch = (\<lambda>_ i. if i = 0 then Some (demo_http 503 []) else None), nw_slow = (\<lambda>_. None)\<rparr>"

lemma waking_notice_left:
  "fst (fetchWithWake demo_lost_net (without_body ''GET'' ''/api/x'' demo_client) True demo_client) = None \<and>
   shown WAKE_TOAST_ID (snd (fetchWithWake demo_lost_net (without_body ''GET'' ''/api/x'' demo_client) True demo_client))"
  by code_simp

end
