(* ===== verification/Settings.thy ===== *)
theory Settings
  imports ApiClient ModelSelection
begin

text \<open>
  The settings store (\<^verbatim>\<open>web/user/src/stores/settingsStore.js\<close>): LLM profiles and their models, runtime
  settings with optimistic saves, the model chosen per conversation, quick actions, the API key and
  the switches kept in browser storage.

  As in the sidebar, an asynchronous operation is a call that sends a request and an answer that may
  come in any order; a request keeps what the closure of the operation captured, and an answer may
  send the next request of the same operation. Values returned to callers are not part of the state.
\<close>

section \<open>State\<close>

text \<open>What follows the reload of the profiles in the operation that asked for it.\<close>

datatype sg_cont = KNone | KDropModels string | KVision | KSaveDefault jsval

datatype sg_toggle = TgExtraEnv | TgPromptSuggestion | TgAgentTeams | TgCrossSession

datatype sg_request =
    QProfiles sg_cont
  | QSaveDefault jsval bool jsval
  | QRuntime
  | QSaveEnv jsval bool
  | QSaveToggle sg_toggle bool
  | QModels string
  | QModelsFor string
  | QCreate
  | QUpdate string
  | QSetDefault string
  | QDelete string
  | QTest string
  | QTestDraft jsval
  | QProbe
  | QQuick
  | QSaveQuick
  | QVision
  | QSaveVision jsval jsval
  | QRecap
  | QSaveRecap bool
  | QApiKey
  | QGenerateKey
  | QRevokeKey

record settings =
  sg_env :: jsval
  sg_extraEnvEnabled :: bool
  sg_promptSuggestionEnabled :: bool
  sg_agentTeamsEnabled :: bool
  sg_crossSessionInteractionEnabled :: bool
  sg_runtimeSettingsLoaded :: bool
  sg_runtimeSettingsLoading :: bool
  sg_runtimeSettingsSaving :: bool
  sg_runtimeSettingsError :: "string option"
  sg_draftRunMode :: string
  sg_hasEnv :: "bool option"
  sg_profiles :: "jsval list"
  sg_defaultProfileId :: jsval
  sg_profilesLoaded :: bool
  sg_profilesLoading :: bool
  sg_profileError :: "string option"
  sg_modelsByProfile :: "(string, jsval) dict"
  sg_activeSettingsProfileId :: jsval
  sg_models :: jsval
  sg_modelsLoading :: bool
  sg_modelsLoaded :: bool
  sg_modelsError :: "string option"
  sg_quickActions :: jsval
  sg_quickActionsLoaded :: bool
  sg_selectedModel :: jsval
  sg_selectedModelCapabilities :: "string option"
  sg_activeModelSessionKey :: "string option"
  sg_selectedModelBySession :: "(string, jsval) dict"
  sg_selectedModelCapabilitiesBySession :: "(string, string option) dict"
  sg_selectedModelSourceBySession :: "(string, string) dict"
  sg_defaultModel :: jsval
  sg_apiKey :: jsval
  sg_apiKeyLoading :: bool
  sg_visionModel :: jsval
  sg_recapEnabled :: bool
  sg_developerMode :: bool
  sg_debugMode :: bool
  sg_storage :: storage
  sg_broadcasts :: "string list"
  sg_inflight :: "sg_request list"

definition SESSION_MODEL_DRAFT_KEY :: string where
  "SESSION_MODEL_DRAFT_KEY = ''__draft__''"

definition DEVELOPER_MODE_KEY :: string where
  "DEVELOPER_MODE_KEY = ''priva-developer-mode''"

definition DEBUG_LOGGING_KEY :: string where
  "DEBUG_LOGGING_KEY = ''priva-debug-mode''"

definition stored_run_mode :: "storage \<Rightarrow> string" where
  "stored_run_mode st = (if getItem st ''priva-run-mode'' = Some ''code'' then ''code'' else ''agent'')"

text \<open>The message of an error; that of a rejected \<^verbatim>\<open>fetch\<close> is the browser's.\<close>

fun err_message :: "api_error \<Rightarrow> string" where
  "err_message (UnauthorizedError m) = m"
| "err_message (APIError status body) = ''API error '' @ show_int status @ '': '' @ body"
| "err_message NetworkError = ''Failed to fetch''"
| "err_message (PlainError m) = m"

definition sg_reset :: "settings \<Rightarrow> settings" where
  "sg_reset s =
     s\<lparr>sg_env := JObj [], sg_extraEnvEnabled := False, sg_promptSuggestionEnabled := False, sg_agentTeamsEnabled := False,
       sg_crossSessionInteractionEnabled := False, sg_runtimeSettingsLoaded := False, sg_runtimeSettingsLoading := False,
       sg_runtimeSettingsSaving := False, sg_runtimeSettingsError := None, sg_draftRunMode := stored_run_mode (sg_storage s),
       sg_hasEnv := None, sg_profiles := [], sg_defaultProfileId := JNull, sg_profilesLoaded := False,
       sg_profilesLoading := False, sg_profileError := None, sg_modelsByProfile := dempty,
       sg_activeSettingsProfileId := JNull, sg_models := JArr [], sg_modelsLoading := False, sg_modelsLoaded := False,
       sg_modelsError := None, sg_quickActions := JArr [], sg_quickActionsLoaded := False, sg_selectedModel := JNull,
       sg_selectedModelCapabilities := None, sg_activeModelSessionKey := None, sg_selectedModelBySession := dempty,
       sg_selectedModelCapabilitiesBySession := dempty, sg_selectedModelSourceBySession := dempty,
       sg_defaultModel := JNull, sg_apiKey := JNull, sg_apiKeyLoading := False, sg_visionModel := JNull,
       sg_recapEnabled := True, sg_developerMode := (getItem (sg_storage s) DEVELOPER_MODE_KEY = Some ''1''),
       sg_debugMode := (getItem (sg_storage s) DEBUG_LOGGING_KEY = Some ''1'')\<rparr>"

definition sg_blank :: "storage \<Rightarrow> settings" where
  "sg_blank st =
     \<lparr>sg_env = JObj [], sg_extraEnvEnabled = False, sg_promptSuggestionEnabled = False, sg_agentTeamsEnabled = False,
      sg_crossSessionInteractionEnabled = False, sg_runtimeSettingsLoaded = False, sg_runtimeSettingsLoading = False,
      sg_runtimeSettingsSaving = False, sg_runtimeSettingsError = None, sg_draftRunMode = stored_run_mode st,
      sg_hasEnv = None, sg_profiles = [], sg_defaultProfileId = JNull, sg_profilesLoaded = False,
      sg_profilesLoading = False, sg_profileError = None, sg_modelsByProfile = dempty,
      sg_activeSettingsProfileId = JNull, sg_models = JArr [], sg_modelsLoading = False, sg_modelsLoaded = False,
      sg_modelsError = None, sg_quickActions = JArr [], sg_quickActionsLoaded = False, sg_selectedModel = JNull,
      sg_selectedModelCapabilities = None, sg_activeModelSessionKey = None, sg_selectedModelBySession = dempty,
      sg_selectedModelCapabilitiesBySession = dempty, sg_selectedModelSourceBySession = dempty,
      sg_defaultModel = JNull, sg_apiKey = JNull, sg_apiKeyLoading = False, sg_visionModel = JNull,
      sg_recapEnabled = True, sg_developerMode = (getItem st DEVELOPER_MODE_KEY = Some ''1''),
      sg_debugMode = (getItem st DEBUG_LOGGING_KEY = Some ''1''), sg_storage = st, sg_broadcasts = [], sg_inflight = []\<rparr>"

definition ask_sg :: "sg_request \<Rightarrow> settings \<Rightarrow> settings" where
  "ask_sg rq s = s\<lparr>sg_inflight := sg_inflight s @ [rq]\<rparr>"

section \<open>Profiles\<close>

definition start_profiles :: "sg_cont \<Rightarrow> settings \<Rightarrow> settings" where
  "start_profiles k s = ask_sg (QProfiles k) (s\<lparr>sg_profilesLoading := True, sg_profileError := None\<rparr>)"

definition fetchProfiles :: "settings \<Rightarrow> settings" where
  "fetchProfiles = start_profiles KNone"

definition first_id :: "jsval list \<Rightarrow> jsval" where
  "first_id profiles = (case profiles of p # _ \<Rightarrow> jget p ''id'' | [] \<Rightarrow> JUndef)"

definition got_profiles :: "jsval \<Rightarrow> settings \<Rightarrow> settings" where
  "got_profiles data s =
     (let profiles = arr_of (jor (jget data ''profiles'') (JArr []));
          defaultProfileId = jor (jget data ''default_profile_id'') JNull;
          defaultProfile = (case List.find (\<lambda>p. jeq (jget p ''id'') defaultProfileId) profiles of
                              Some p \<Rightarrow> p | None \<Rightarrow> (case profiles of p # _ \<Rightarrow> p | [] \<Rightarrow> JUndef));
          s1 = s\<lparr>sg_profiles := profiles, sg_defaultProfileId := defaultProfileId, sg_profilesLoaded := True,
                sg_profilesLoading := False, sg_hasEnv := Some (profiles \<noteq> []),
                sg_visionModel := jor (jget defaultProfile ''vision_model'') JNull\<rparr>
      in if \<not> truthy (sg_activeSettingsProfileId s1) \<and> profiles \<noteq> []
         then s1\<lparr>sg_activeSettingsProfileId := jor defaultProfileId (first_id profiles)\<rparr> else s1)"

definition failed_profiles :: "api_error \<Rightarrow> settings \<Rightarrow> settings" where
  "failed_profiles e s =
     s\<lparr>sg_profilesLoaded := True, sg_profilesLoading := False, sg_hasEnv := Some False, sg_profileError := Some (err_message e)\<rparr>"

definition pick_model :: "jsval \<Rightarrow> string \<Rightarrow> jsval \<Rightarrow> string \<Rightarrow> jsval" where
  "pick_model envData k existing field = jcoal (jcoal (jget envData k) (jget existing field)) JNull"

definition default_payload :: "jsval \<Rightarrow> jsval \<Rightarrow> jsval \<Rightarrow> jsval" where
  "default_payload envData i existing =
     JObj [(''id'', i), (''label'', jor (jget existing ''label'') (JStr ''Default'')),
       (''base_url'', jor (jor (jget envData ''ANTHROPIC_BASE_URL'') (jget existing ''base_url'')) (JStr [])),
       (''auth_token'', jor (jor (jget envData ''ANTHROPIC_AUTH_TOKEN'') (jget existing ''auth_token'')) (JStr [])),
       (''default_model'', pick_model envData ''ANTHROPIC_MODEL'' existing ''default_model''),
       (''opus_model'', pick_model envData ''ANTHROPIC_DEFAULT_OPUS_MODEL'' existing ''opus_model''),
       (''sonnet_model'', pick_model envData ''ANTHROPIC_DEFAULT_SONNET_MODEL'' existing ''sonnet_model''),
       (''haiku_model'', pick_model envData ''ANTHROPIC_DEFAULT_HAIKU_MODEL'' existing ''haiku_model''),
       (''vision_model'', jor (jget existing ''vision_model'') JNull)]"

text \<open>The write of \<^verbatim>\<open>saveDefaultProfile\<close> once the profiles are known: an update or a creation.\<close>

definition write_default :: "jsval \<Rightarrow> settings \<Rightarrow> settings" where
  "write_default envData s =
     (let i = jor (sg_defaultProfileId s) (JStr ''default'')
      in case List.find (\<lambda>p. jeq (jget p ''id'') i) (sg_profiles s) of
           Some existing \<Rightarrow> ask_sg (QSaveDefault i True (default_payload envData i existing)) s
         | None \<Rightarrow> ask_sg (QSaveDefault i False (default_payload envData i JUndef)) s)"

definition saveDefaultProfile :: "jsval \<Rightarrow> settings \<Rightarrow> settings" where
  "saveDefaultProfile envData s = (if sg_profiles s = [] then start_profiles (KSaveDefault envData) s else write_default envData s)"

definition saved_default :: "jsval \<Rightarrow> bool \<Rightarrow> jsval \<Rightarrow> settings \<Rightarrow> settings" where
  "saved_default i existing profile s =
     (let s1 = (if existing then s else s\<lparr>sg_defaultProfileId := i\<rparr>)
      in s1\<lparr>sg_hasEnv := Some True,
            sg_profiles := (if existing
              then map (\<lambda>p. if jeq (jget p ''id'') i then jspread p profile else p) (sg_profiles s1)
              else sg_profiles s1 @ [profile])\<rparr>)"

section \<open>Runtime settings\<close>

definition runtimeFeatureState :: "jsval \<Rightarrow> settings \<Rightarrow> settings" where
  "runtimeFeatureState data s =
     s\<lparr>sg_env := jor (jget data ''extra_env'') (JObj []),
       sg_extraEnvEnabled := (jget data ''extra_env_enabled'' = JBool True),
       sg_promptSuggestionEnabled := (jget data ''prompt_suggestion_enabled'' = JBool True),
       sg_agentTeamsEnabled := (jget data ''agent_teams_enabled'' = JBool True),
       sg_crossSessionInteractionEnabled := (jget data ''cross_session_interaction_enabled'' = JBool True)\<rparr>"

definition fetchRuntimeSettings :: "settings \<Rightarrow> settings" where
  "fetchRuntimeSettings s = ask_sg QRuntime (s\<lparr>sg_runtimeSettingsLoading := True, sg_runtimeSettingsError := None\<rparr>)"

definition got_runtime :: "jsval \<Rightarrow> settings \<Rightarrow> settings" where
  "got_runtime data s = (runtimeFeatureState data s)\<lparr>sg_runtimeSettingsLoaded := True, sg_runtimeSettingsLoading := False\<rparr>"

definition failed_runtime :: "api_error \<Rightarrow> settings \<Rightarrow> settings" where
  "failed_runtime e s =
     s\<lparr>sg_runtimeSettingsLoaded := True, sg_runtimeSettingsLoading := False, sg_runtimeSettingsError := Some (err_message e)\<rparr>"

definition saveRuntimeEnv :: "jsval \<Rightarrow> bool \<Rightarrow> settings \<Rightarrow> settings" where
  "saveRuntimeEnv envData enabled s =
     ask_sg (QSaveEnv (sg_env s) (sg_extraEnvEnabled s))
       (s\<lparr>sg_env := jspread (JObj []) envData, sg_extraEnvEnabled := enabled, sg_runtimeSettingsSaving := True,
          sg_runtimeSettingsError := None\<rparr>)"

definition saved_env :: "jsval \<Rightarrow> settings \<Rightarrow> settings" where
  "saved_env data s = (runtimeFeatureState data s)\<lparr>sg_runtimeSettingsSaving := False, sg_runtimeSettingsLoaded := True\<rparr>"

definition failed_env :: "jsval \<Rightarrow> bool \<Rightarrow> api_error \<Rightarrow> settings \<Rightarrow> settings" where
  "failed_env prevEnv prevEnabled e s =
     s\<lparr>sg_env := prevEnv, sg_extraEnvEnabled := prevEnabled, sg_runtimeSettingsSaving := False,
       sg_runtimeSettingsError := Some (err_message e)\<rparr>"

fun read_toggle :: "sg_toggle \<Rightarrow> settings \<Rightarrow> bool" where
  "read_toggle TgExtraEnv s = sg_extraEnvEnabled s"
| "read_toggle TgPromptSuggestion s = sg_promptSuggestionEnabled s"
| "read_toggle TgAgentTeams s = sg_agentTeamsEnabled s"
| "read_toggle TgCrossSession s = sg_crossSessionInteractionEnabled s"

fun write_toggle :: "sg_toggle \<Rightarrow> bool \<Rightarrow> settings \<Rightarrow> settings" where
  "write_toggle TgExtraEnv b s = s\<lparr>sg_extraEnvEnabled := b\<rparr>"
| "write_toggle TgPromptSuggestion b s = s\<lparr>sg_promptSuggestionEnabled := b\<rparr>"
| "write_toggle TgAgentTeams b s = s\<lparr>sg_agentTeamsEnabled := b\<rparr>"
| "write_toggle TgCrossSession b s = s\<lparr>sg_crossSessionInteractionEnabled := b\<rparr>"

text \<open>
  \<^verbatim>\<open>setRuntimeEnvEnabled\<close>, \<^verbatim>\<open>setPromptSuggestionEnabled\<close>, \<^verbatim>\<open>setAgentTeamsEnabled\<close> and
  \<^verbatim>\<open>setCrossSessionInteractionEnabled\<close>: one optimistic save each; the last one also marks saving.
\<close>

definition set_toggle :: "sg_toggle \<Rightarrow> bool \<Rightarrow> settings \<Rightarrow> settings" where
  "set_toggle t enabled s =
     ask_sg (QSaveToggle t (read_toggle t s))
       ((write_toggle t enabled s)\<lparr>sg_runtimeSettingsError := None,
          sg_runtimeSettingsSaving := (if t = TgCrossSession then True else sg_runtimeSettingsSaving s)\<rparr>)"

definition setRuntimeEnvEnabled :: "bool \<Rightarrow> settings \<Rightarrow> settings" where
  "setRuntimeEnvEnabled = set_toggle TgExtraEnv"

definition setPromptSuggestionEnabled :: "bool \<Rightarrow> settings \<Rightarrow> settings" where
  "setPromptSuggestionEnabled = set_toggle TgPromptSuggestion"

definition setAgentTeamsEnabled :: "bool \<Rightarrow> settings \<Rightarrow> settings" where
  "setAgentTeamsEnabled = set_toggle TgAgentTeams"

definition setCrossSessionInteractionEnabled :: "bool \<Rightarrow> settings \<Rightarrow> settings" where
  "setCrossSessionInteractionEnabled = set_toggle TgCrossSession"

definition unless_cross :: "sg_toggle \<Rightarrow> settings \<Rightarrow> settings" where
  "unless_cross t s = (if t = TgCrossSession then s\<lparr>sg_runtimeSettingsSaving := False\<rparr> else s)"

definition saved_toggle :: "sg_toggle \<Rightarrow> jsval \<Rightarrow> settings \<Rightarrow> settings" where
  "saved_toggle t data s = (unless_cross t (runtimeFeatureState data s))\<lparr>sg_runtimeSettingsLoaded := True\<rparr>"

definition failed_toggle :: "sg_toggle \<Rightarrow> bool \<Rightarrow> api_error \<Rightarrow> settings \<Rightarrow> settings" where
  "failed_toggle t prev e s = (unless_cross t (write_toggle t prev s))\<lparr>sg_runtimeSettingsError := Some (err_message e)\<rparr>"

definition setDraftRunMode :: "string \<Rightarrow> bool \<Rightarrow> settings \<Rightarrow> settings" where
  "setDraftRunMode mode broadcast s =
     (let next = (if mode = ''code'' then ''code'' else ''agent'')
      in s\<lparr>sg_storage := snd (setItem ''priva-run-mode'' next (sg_storage s)), sg_draftRunMode := next,
           sg_broadcasts := (if broadcast then sg_broadcasts s @ [next] else sg_broadcasts s)\<rparr>)"

section \<open>Models\<close>

definition models_entry :: "jsval \<Rightarrow> jsval" where
  "models_entry models =
     JObj [(''models'', models), (''loading'', JBool False), (''loaded'', JBool True), (''error'', JNull)]"

definition models_of :: "jsval \<Rightarrow> jsval" where
  "models_of data = jor (jget data ''models'') (JArr [])"

definition put_models :: "string \<Rightarrow> jsval \<Rightarrow> settings \<Rightarrow> settings" where
  "put_models pid entry s = s\<lparr>sg_modelsByProfile := dset pid entry (sg_modelsByProfile s)\<rparr>"

definition fetchModels :: "settings \<Rightarrow> settings" where
  "fetchModels s =
     (let s1 = s\<lparr>sg_modelsLoading := True, sg_modelsError := None\<rparr>;
          profileId = jor (sg_defaultProfileId s1) (first_id (sg_profiles s1))
      in if truthy profileId then ask_sg (QModels (to_str profileId)) s1
         else s1\<lparr>sg_modelsLoading := False, sg_modelsLoaded := True, sg_modelsError := Some ''No LLM profile configured''\<rparr>)"

definition got_models :: "string \<Rightarrow> jsval \<Rightarrow> settings \<Rightarrow> settings" where
  "got_models pid data s =
     put_models pid (models_entry (models_of data))
       (s\<lparr>sg_models := models_of data, sg_modelsLoading := False, sg_modelsLoaded := True\<rparr>)"

definition failed_models :: "api_error \<Rightarrow> settings \<Rightarrow> settings" where
  "failed_models e s = s\<lparr>sg_modelsLoading := False, sg_modelsLoaded := True, sg_modelsError := Some (err_message e)\<rparr>"

definition cached_models :: "string \<Rightarrow> settings \<Rightarrow> jsval" where
  "cached_models pid s = (case dget (sg_modelsByProfile s) pid of Some e \<Rightarrow> e | None \<Rightarrow> JUndef)"

definition fetchModelsForProfile :: "string \<Rightarrow> bool \<Rightarrow> settings \<Rightarrow> settings" where
  "fetchModelsForProfile pid force s =
     (let cached = cached_models pid s
      in if truthy (jget cached ''loaded'') \<and> \<not> force then s
         else ask_sg (QModelsFor pid)
                (put_models pid (jput cached [(''loading'', JBool True), (''error'', JNull)]) s))"

definition failed_models_for :: "string \<Rightarrow> api_error \<Rightarrow> settings \<Rightarrow> settings" where
  "failed_models_for pid e s =
     put_models pid (jput (cached_models pid s)
       [(''loading'', JBool False), (''loaded'', JBool True), (''error'', JStr (err_message e))]) s"

definition drop_models :: "string \<Rightarrow> settings \<Rightarrow> settings" where
  "drop_models pid s = s\<lparr>sg_modelsByProfile := ddel pid (sg_modelsByProfile s)\<rparr>"

text \<open>The vision model: the profile is read once the profiles are known.\<close>

definition vision_profile :: "settings \<Rightarrow> settings" where
  "vision_profile s =
     (if truthy (jor (sg_defaultProfileId s) (first_id (sg_profiles s))) then ask_sg QVision s
      else s\<lparr>sg_visionModel := JNull\<rparr>)"

definition fetchVisionModel :: "settings \<Rightarrow> settings" where
  "fetchVisionModel s = (if sg_profiles s = [] then start_profiles KVision s else vision_profile s)"

definition saved_vision :: "jsval \<Rightarrow> jsval \<Rightarrow> settings \<Rightarrow> settings" where
  "saved_vision i model s =
     s\<lparr>sg_visionModel := jor model JNull,
       sg_profiles := map (\<lambda>p. if jeq (jget p ''id'') i then jset ''vision_model'' (jor model JNull) p else p) (sg_profiles s)\<rparr>"

definition saveVisionModel :: "jsval \<Rightarrow> settings \<Rightarrow> settings" where
  "saveVisionModel model s =
     (let i = jor (sg_defaultProfileId s) (first_id (sg_profiles s))
      in if truthy i then ask_sg (QSaveVision i model) s else saved_vision i model s)"

section \<open>Other switches\<close>

definition saveRecapEnabled :: "bool \<Rightarrow> settings \<Rightarrow> settings" where
  "saveRecapEnabled enabled s = ask_sg (QSaveRecap (sg_recapEnabled s)) (s\<lparr>sg_recapEnabled := enabled\<rparr>)"

definition setDeveloperMode :: "bool \<Rightarrow> settings \<Rightarrow> settings" where
  "setDeveloperMode on s =
     s\<lparr>sg_storage := snd (setItem DEVELOPER_MODE_KEY (if on then ''1'' else ''0'') (sg_storage s)), sg_developerMode := on\<rparr>"

definition setDebugMode :: "bool \<Rightarrow> settings \<Rightarrow> settings" where
  "setDebugMode on s =
     s\<lparr>sg_storage := snd (setItem DEBUG_LOGGING_KEY (if on then ''1'' else ''0'') (sg_storage s)), sg_debugMode := on\<rparr>"

definition start_key :: "sg_request \<Rightarrow> settings \<Rightarrow> settings" where
  "start_key rq s = ask_sg rq (s\<lparr>sg_apiKeyLoading := True\<rparr>)"

definition fetchApiKey :: "settings \<Rightarrow> settings" where
  "fetchApiKey = start_key QApiKey"

definition generateApiKey :: "settings \<Rightarrow> settings" where
  "generateApiKey = start_key QGenerateKey"

definition revokeApiKey :: "settings \<Rightarrow> settings" where
  "revokeApiKey = start_key QRevokeKey"

section \<open>The model of a conversation\<close>

definition stored_capabilities :: "string \<Rightarrow> settings \<Rightarrow> string option" where
  "stored_capabilities key s =
     normalizeModelCapabilities
       (case dget (sg_selectedModelCapabilitiesBySession s) key of
          Some c \<Rightarrow> JObj [(''context'', case c of Some x \<Rightarrow> JStr x | None \<Rightarrow> JNull)] | None \<Rightarrow> JUndef) None"

definition store_model :: "string \<Rightarrow> jsval \<Rightarrow> string option \<Rightarrow> string \<Rightarrow> settings \<Rightarrow> settings" where
  "store_model key model capabilities source s =
     s\<lparr>sg_selectedModel := model, sg_selectedModelCapabilities := capabilities,
       sg_selectedModelBySession := dset key model (sg_selectedModelBySession s),
       sg_selectedModelCapabilitiesBySession := dset key capabilities (sg_selectedModelCapabilitiesBySession s),
       sg_selectedModelSourceBySession := dset key source (sg_selectedModelSourceBySession s)\<rparr>"

definition session_key :: "string option \<Rightarrow> string" where
  "session_key k = (case k of Some x \<Rightarrow> if x = [] then SESSION_MODEL_DRAFT_KEY else x | None \<Rightarrow> SESSION_MODEL_DRAFT_KEY)"

definition seed_session_model :: "string \<Rightarrow> jsval \<Rightarrow> bool \<Rightarrow> settings \<Rightarrow> settings" where
  "seed_session_model key lastResponseModel preserveCurrent s =
     (store_model key
        (if preserveCurrent then sg_selectedModel s
         else (case modelSelectionFromResponse lastResponseModel (JArr (sg_profiles s)) (sg_defaultProfileId s) of
                 Some m \<Rightarrow> JStr m | None \<Rightarrow> JNull))
        (if preserveCurrent
         then normalizeModelCapabilities
                (JObj [(''context'', case sg_selectedModelCapabilities s of Some x \<Rightarrow> JStr x | None \<Rightarrow> JNull)]) None
         else modelCapabilitiesFromResponse lastResponseModel)
        ''server'' s)\<lparr>sg_activeModelSessionKey := Some key\<rparr>"

definition activateSessionModel :: "string option \<Rightarrow> jsval \<Rightarrow> bool \<Rightarrow> settings \<Rightarrow> settings" where
  "activateSessionModel sessionKey lastResponseModel preserveCurrent s =
     (let key = session_key sessionKey
      in case dget (sg_selectedModelBySession s) key of
           Some model \<Rightarrow>
             if dget (sg_selectedModelSourceBySession s) key = Some ''explicit''
             then s\<lparr>sg_activeModelSessionKey := Some key, sg_selectedModel := model,
                    sg_selectedModelCapabilities := stored_capabilities key s\<rparr>
             else seed_session_model key lastResponseModel preserveCurrent s
         | None \<Rightarrow> seed_session_model key lastResponseModel preserveCurrent s)"

definition rekeySessionModel :: "string \<Rightarrow> string \<Rightarrow> settings \<Rightarrow> settings" where
  "rekeySessionModel oldKey newKey s =
     (if oldKey = [] \<or> newKey = [] \<or> oldKey = newKey then s
      else (case dget (sg_selectedModelBySession s) oldKey of
              None \<Rightarrow> (if sg_activeModelSessionKey s = Some oldKey then s\<lparr>sg_activeModelSessionKey := Some newKey\<rparr> else s)
            | Some model \<Rightarrow>
                s\<lparr>sg_activeModelSessionKey :=
                    (if sg_activeModelSessionKey s = Some oldKey then Some newKey else sg_activeModelSessionKey s),
                  sg_selectedModelBySession := ddel oldKey (dset newKey model (sg_selectedModelBySession s)),
                  sg_selectedModelCapabilitiesBySession :=
                    ddel oldKey (dset newKey (stored_capabilities oldKey s) (sg_selectedModelCapabilitiesBySession s)),
                  sg_selectedModelSourceBySession :=
                    ddel oldKey (dset newKey
                      (case dget (sg_selectedModelSourceBySession s) oldKey of
                         Some x \<Rightarrow> if x = [] then ''server'' else x | None \<Rightarrow> ''server'')
                      (sg_selectedModelSourceBySession s))\<rparr>))"

definition setSelectedModel :: "jsval \<Rightarrow> settings \<Rightarrow> settings" where
  "setSelectedModel model s = store_model (session_key (sg_activeModelSessionKey s)) model None ''explicit'' s"

definition setSelectedModelContext :: "string option \<Rightarrow> settings \<Rightarrow> settings" where
  "setSelectedModelContext context s =
     store_model (session_key (sg_activeModelSessionKey s)) (sg_selectedModel s)
       (if context = Some MODEL_CONTEXT_1M then Some MODEL_CONTEXT_1M else None) ''explicit'' s"

section \<open>Operations that only send a request\<close>

definition createProfile :: "settings \<Rightarrow> settings" where
  "createProfile = ask_sg QCreate"

definition updateProfile :: "string \<Rightarrow> settings \<Rightarrow> settings" where
  "updateProfile pid = ask_sg (QUpdate pid)"

definition setDefaultProfile :: "string \<Rightarrow> settings \<Rightarrow> settings" where
  "setDefaultProfile pid = ask_sg (QSetDefault pid)"

definition deleteProfile :: "string \<Rightarrow> settings \<Rightarrow> settings" where
  "deleteProfile pid = ask_sg (QDelete pid)"

definition testProfile :: "string \<Rightarrow> settings \<Rightarrow> settings" where
  "testProfile pid = ask_sg (QTest pid)"

definition testProfileDraft :: "jsval \<Rightarrow> settings \<Rightarrow> settings" where
  "testProfileDraft profile = ask_sg (QTestDraft (jget profile ''id''))"

definition probeImageCapability :: "settings \<Rightarrow> settings" where
  "probeImageCapability = ask_sg QProbe"

definition fetchQuickActions :: "settings \<Rightarrow> settings" where
  "fetchQuickActions = ask_sg QQuick"

definition saveQuickActions :: "settings \<Rightarrow> settings" where
  "saveQuickActions = ask_sg QSaveQuick"

definition fetchRecapEnabled :: "settings \<Rightarrow> settings" where
  "fetchRecapEnabled = ask_sg QRecap"

section \<open>Answers\<close>

definition continue_profiles :: "sg_cont \<Rightarrow> settings \<Rightarrow> settings" where
  "continue_profiles k s =
     (case k of
        KNone \<Rightarrow> s
      | KDropModels pid \<Rightarrow> put_models pid JUndef s
      | KVision \<Rightarrow> vision_profile s
      | KSaveDefault envData \<Rightarrow> write_default envData s)"

text \<open>A successful answer; \<open>data\<close> is what the call resolves to.\<close>

definition sg_success :: "sg_request \<Rightarrow> jsval \<Rightarrow> settings \<Rightarrow> settings" where
  "sg_success rq data s =
     (case rq of
        QProfiles k \<Rightarrow> continue_profiles k (got_profiles data s)
      | QSaveDefault i existing _ \<Rightarrow> saved_default i existing data s
      | QRuntime \<Rightarrow> got_runtime data s
      | QSaveEnv _ _ \<Rightarrow> saved_env data s
      | QSaveToggle t _ \<Rightarrow> saved_toggle t data s
      | QModels pid \<Rightarrow> got_models pid data s
      | QModelsFor pid \<Rightarrow> put_models pid (models_entry (models_of data)) s
      | QCreate \<Rightarrow> start_profiles KNone s
      | QUpdate pid \<Rightarrow> start_profiles (KDropModels pid) s
      | QSetDefault pid \<Rightarrow> start_profiles KNone (s\<lparr>sg_defaultProfileId := JStr pid\<rparr>)
      | QDelete pid \<Rightarrow> start_profiles KNone (drop_models pid s)
      | QTest pid \<Rightarrow> put_models pid (models_entry (models_of data)) s
      | QTestDraft i \<Rightarrow> (if truthy i then put_models (to_str i) (models_entry (models_of data)) s else s)
      | QProbe \<Rightarrow> start_profiles KNone s
      | QQuick \<Rightarrow> s\<lparr>sg_quickActions := jor (jget data ''quickactions'') (JArr []), sg_quickActionsLoaded := True\<rparr>
      | QSaveQuick \<Rightarrow> s\<lparr>sg_quickActions := jor (jget data ''quickactions'') (JArr []), sg_quickActionsLoaded := True\<rparr>
      | QVision \<Rightarrow> s\<lparr>sg_visionModel := jor (jget data ''vision_model'') JNull\<rparr>
      | QSaveVision i model \<Rightarrow> saved_vision i model s
      | QRecap \<Rightarrow> s\<lparr>sg_recapEnabled := (jget data ''recap_enabled'' \<noteq> JBool False)\<rparr>
      | QSaveRecap _ \<Rightarrow> s
      | QApiKey \<Rightarrow> s\<lparr>sg_apiKey := data, sg_apiKeyLoading := False\<rparr>
      | QGenerateKey \<Rightarrow> s\<lparr>sg_apiKey := data, sg_apiKeyLoading := False\<rparr>
      | QRevokeKey \<Rightarrow> s\<lparr>sg_apiKey := data, sg_apiKeyLoading := False\<rparr>)"

text \<open>A failed answer. The saves restore what they replaced; the plain writes leave the state alone.\<close>

definition sg_failure :: "sg_request \<Rightarrow> api_error \<Rightarrow> settings \<Rightarrow> settings" where
  "sg_failure rq e s =
     (case rq of
        QProfiles k \<Rightarrow> continue_profiles k (failed_profiles e s)
      | QRuntime \<Rightarrow> failed_runtime e s
      | QSaveEnv prevEnv prevEnabled \<Rightarrow> failed_env prevEnv prevEnabled e s
      | QSaveToggle t prev \<Rightarrow> failed_toggle t prev e s
      | QModels _ \<Rightarrow> failed_models e s
      | QModelsFor pid \<Rightarrow> failed_models_for pid e s
      | QQuick \<Rightarrow> s\<lparr>sg_quickActions := JArr [], sg_quickActionsLoaded := True\<rparr>
      | QSaveRecap prev \<Rightarrow> s\<lparr>sg_recapEnabled := prev\<rparr>
      | QApiKey \<Rightarrow> s\<lparr>sg_apiKey := JNull, sg_apiKeyLoading := False\<rparr>
      | QGenerateKey \<Rightarrow> s\<lparr>sg_apiKeyLoading := False\<rparr>
      | QRevokeKey \<Rightarrow> s\<lparr>sg_apiKeyLoading := False\<rparr>
      | _ \<Rightarrow> s)"

definition sg_answer :: "nat \<Rightarrow> api_error + jsval \<Rightarrow> settings \<Rightarrow> settings" where
  "sg_answer n r s =
     (if n < length (sg_inflight s)
      then (let rq = sg_inflight s ! n;
                s1 = s\<lparr>sg_inflight := take n (sg_inflight s) @ drop (Suc n) (sg_inflight s)\<rparr>
            in case r of Inl e \<Rightarrow> sg_failure rq e s1 | Inr data \<Rightarrow> sg_success rq data s1)
      else s)"

section \<open>Runs\<close>

datatype sg_event =
    SgFetchProfiles
  | SgSaveDefaultProfile jsval
  | SgFetchRuntime
  | SgSaveRuntimeEnv jsval bool
  | SgSetToggle sg_toggle bool
  | SgSetDraftRunMode string bool
  | SgFetchModels
  | SgFetchModelsFor string bool
  | SgCreateProfile
  | SgUpdateProfile string
  | SgSetDefaultProfile string
  | SgDeleteProfile string
  | SgTestProfile string
  | SgTestProfileDraft jsval
  | SgProbeImage
  | SgFetchQuickActions
  | SgSaveQuickActions
  | SgFetchRecap
  | SgFetchVision
  | SgSaveVision jsval
  | SgSaveRecap bool
  | SgSetDeveloperMode bool
  | SgSetDebugMode bool
  | SgActivate "string option" jsval bool
  | SgRekey string string
  | SgSelect jsval
  | SgSelectContext "string option"
  | SgFetchApiKey
  | SgGenerateApiKey
  | SgRevokeApiKey
  | SgReset
  | SgAnswer nat "api_error + jsval"

fun sg_step :: "settings \<Rightarrow> sg_event \<Rightarrow> settings" where
  "sg_step s SgFetchProfiles = fetchProfiles s"
| "sg_step s (SgSaveDefaultProfile envData) = saveDefaultProfile envData s"
| "sg_step s SgFetchRuntime = fetchRuntimeSettings s"
| "sg_step s (SgSaveRuntimeEnv envData b) = saveRuntimeEnv envData b s"
| "sg_step s (SgSetToggle t b) = set_toggle t b s"
| "sg_step s (SgSetDraftRunMode m b) = setDraftRunMode m b s"
| "sg_step s SgFetchModels = fetchModels s"
| "sg_step s (SgFetchModelsFor pid force) = fetchModelsForProfile pid force s"
| "sg_step s SgCreateProfile = createProfile s"
| "sg_step s (SgUpdateProfile pid) = updateProfile pid s"
| "sg_step s (SgSetDefaultProfile pid) = setDefaultProfile pid s"
| "sg_step s (SgDeleteProfile pid) = deleteProfile pid s"
| "sg_step s (SgTestProfile pid) = testProfile pid s"
| "sg_step s (SgTestProfileDraft profile) = testProfileDraft profile s"
| "sg_step s SgProbeImage = probeImageCapability s"
| "sg_step s SgFetchQuickActions = fetchQuickActions s"
| "sg_step s SgSaveQuickActions = saveQuickActions s"
| "sg_step s SgFetchRecap = fetchRecapEnabled s"
| "sg_step s SgFetchVision = fetchVisionModel s"
| "sg_step s (SgSaveVision m) = saveVisionModel m s"
| "sg_step s (SgSaveRecap b) = saveRecapEnabled b s"
| "sg_step s (SgSetDeveloperMode b) = setDeveloperMode b s"
| "sg_step s (SgSetDebugMode b) = setDebugMode b s"
| "sg_step s (SgActivate k m preserve) = activateSessionModel k m preserve s"
| "sg_step s (SgRekey a b) = rekeySessionModel a b s"
| "sg_step s (SgSelect m) = setSelectedModel m s"
| "sg_step s (SgSelectContext c) = setSelectedModelContext c s"
| "sg_step s SgFetchApiKey = fetchApiKey s"
| "sg_step s SgGenerateApiKey = generateApiKey s"
| "sg_step s SgRevokeApiKey = revokeApiKey s"
| "sg_step s SgReset = sg_reset s"
| "sg_step s (SgAnswer n r) = sg_answer n r s"

section \<open>The model shown is the model of the conversation\<close>

text \<open>
  The three tables have the same keys, hold normalised contexts and known sources, and the selection
  that the picker shows is the one stored for the conversation that is active.
\<close>

definition known_context :: "string option \<Rightarrow> bool" where
  "known_context c \<longleftrightarrow> c = None \<or> c = Some MODEL_CONTEXT_1M"

definition same_keys :: "('k, 'v) dict \<Rightarrow> ('k, 'w) dict \<Rightarrow> bool" where
  "same_keys d d' \<longleftrightarrow> (\<forall>k. dget d k = None \<longleftrightarrow> dget d' k = None)"

lemma same_keys_simps [simp]:
  "same_keys dempty dempty"
  "same_keys d d' \<Longrightarrow> same_keys (dset k v d) (dset k v' d')"
  "same_keys d d' \<Longrightarrow> same_keys (ddel k d) (ddel k d')"
  by (simp_all add: same_keys_def dempty_def)

lemma same_keysD: "same_keys d d' \<Longrightarrow> dget d k = Some v \<Longrightarrow> \<exists>v'. dget d' k = Some v'"
  unfolding same_keys_def by (metis option.exhaust option.distinct(1))

definition model_tables :: "settings \<Rightarrow> bool" where
  "model_tables s \<longleftrightarrow>
     same_keys (sg_selectedModelBySession s) (sg_selectedModelCapabilitiesBySession s) \<and>
     same_keys (sg_selectedModelBySession s) (sg_selectedModelSourceBySession s) \<and>
     (\<forall>k c. dget (sg_selectedModelCapabilitiesBySession s) k = Some c \<longrightarrow> known_context c) \<and>
     (\<forall>k x. dget (sg_selectedModelSourceBySession s) k = Some x \<longrightarrow> x = ''explicit'' \<or> x = ''server'') \<and>
     known_context (sg_selectedModelCapabilities s) \<and> sg_activeModelSessionKey s \<noteq> Some []"

definition model_shown :: "settings \<Rightarrow> bool" where
  "model_shown s \<longleftrightarrow>
     (let k = session_key (sg_activeModelSessionKey s)
      in \<forall>m. dget (sg_selectedModelBySession s) k = Some m \<longrightarrow>
           sg_selectedModel s = m \<and> dget (sg_selectedModelCapabilitiesBySession s) k = Some (sg_selectedModelCapabilities s))"

definition model_fields :: "settings \<Rightarrow> jsval \<times> string option \<times> string option \<times> (string, jsval) dict \<times>
    (string, string option) dict \<times> (string, string) dict" where
  "model_fields s = (sg_selectedModel s, sg_selectedModelCapabilities s, sg_activeModelSessionKey s,
     sg_selectedModelBySession s, sg_selectedModelCapabilitiesBySession s, sg_selectedModelSourceBySession s)"

lemma model_fields_inv:
  "model_fields s' = model_fields s \<Longrightarrow> model_tables s' = model_tables s \<and> model_shown s' = model_shown s"
  by (simp add: model_fields_def model_tables_def model_shown_def)

lemmas sg_profile_defs = ask_sg_def start_profiles_def fetchProfiles_def got_profiles_def failed_profiles_def write_default_def
  saveDefaultProfile_def saved_default_def Let_def

lemmas sg_runtime_defs = runtimeFeatureState_def fetchRuntimeSettings_def got_runtime_def failed_runtime_def
  saveRuntimeEnv_def saved_env_def failed_env_def set_toggle_def unless_cross_def saved_toggle_def failed_toggle_def
  setDraftRunMode_def

lemmas sg_model_defs = put_models_def fetchModels_def got_models_def failed_models_def fetchModelsForProfile_def
  failed_models_for_def drop_models_def vision_profile_def fetchVisionModel_def saveVisionModel_def saved_vision_def

lemmas sg_other_defs = saveRecapEnabled_def setDeveloperMode_def setDebugMode_def start_key_def fetchApiKey_def
  generateApiKey_def revokeApiKey_def createProfile_def updateProfile_def setDefaultProfile_def deleteProfile_def testProfile_def testProfileDraft_def probeImageCapability_def fetchQuickActions_def saveQuickActions_def fetchRecapEnabled_def

lemma write_toggle_model [simp]: "model_fields (write_toggle t b s) = model_fields s"
  by (cases t) (simp_all add: model_fields_def)

lemma model_fields_success: "model_fields (sg_success rq data s) = model_fields s"
  by (cases rq) (simp_all add: sg_success_def continue_profiles_def model_fields_def sg_profile_defs sg_runtime_defs
      sg_model_defs split: sg_cont.split option.split)

lemma model_fields_failure: "model_fields (sg_failure rq e s) = model_fields s"
proof (cases rq)
  case (QSaveToggle t prev)
  then show ?thesis using write_toggle_model [of t prev s]
    by (simp add: sg_failure_def failed_toggle_def unless_cross_def model_fields_def)
qed (simp_all add: sg_failure_def continue_profiles_def model_fields_def sg_profile_defs sg_runtime_defs
      sg_model_defs split: sg_cont.split option.split)

lemma model_fields_answer: "model_fields (sg_answer n r s) = model_fields s"
  by (simp add: sg_answer_def Let_def model_fields_success model_fields_failure split: sum.split) (simp add: model_fields_def)

fun model_event :: "sg_event \<Rightarrow> bool" where
  "model_event (SgActivate _ _ _) = True"
| "model_event (SgRekey _ _) = True"
| "model_event (SgSelect _) = True"
| "model_event (SgSelectContext _) = True"
| "model_event SgReset = True"
| "model_event _ = False"

lemma model_fields_step: "\<not> model_event e \<Longrightarrow> model_fields (sg_step s e) = model_fields s"
proof (cases e)
  case (SgSetToggle t b)
  then show ?thesis using write_toggle_model [of t b s] by (simp add: set_toggle_def ask_sg_def model_fields_def)
next
  case (SgAnswer n r)
  then show ?thesis by (simp add: model_fields_answer)
qed (simp_all add: model_fields_def sg_profile_defs sg_runtime_defs sg_model_defs sg_other_defs split: option.split)
lemma known_simps [simp]: "known_context None" "known_context (Some MODEL_CONTEXT_1M)"
  by (simp_all add: known_context_def)

lemma known_normal: "known_context (normalizeModelCapabilities c f)"
  by (simp add: normalizeModelCapabilities_def known_context_def)

lemma known_response: "known_context (modelCapabilitiesFromResponse r)"
  by (simp add: modelCapabilitiesFromResponse_def known_normal split: option.split)

lemma known_stored: "known_context (stored_capabilities k s)"
  by (simp add: stored_capabilities_def known_normal)

lemma session_key_nonempty [simp]: "session_key k \<noteq> []"
  by (simp add: session_key_def SESSION_MODEL_DRAFT_KEY_def split: option.split)

lemma session_key_key [simp]: "session_key (Some (session_key k)) = session_key k"
  by (simp add: session_key_def SESSION_MODEL_DRAFT_KEY_def split: option.split)

lemma store_model_tables:
  "model_tables s \<Longrightarrow> known_context c \<Longrightarrow> x = ''explicit'' \<or> x = ''server'' \<Longrightarrow> model_tables (store_model k m c x s)"
  unfolding model_tables_def store_model_def by auto

lemma store_model_shown: "session_key (sg_activeModelSessionKey s) = k \<Longrightarrow> model_shown (store_model k m c x s)"
  by (simp add: model_shown_def store_model_def)

lemma active_tables: "model_tables s \<Longrightarrow> k \<noteq> [] \<Longrightarrow> model_tables (s\<lparr>sg_activeModelSessionKey := Some k\<rparr>)"
  by (simp add: model_tables_def)

lemma seed_tables: "model_tables s \<Longrightarrow> model_tables (seed_session_model (session_key k) r p s)"
  by (simp add: seed_session_model_def active_tables store_model_tables known_normal known_response)

lemma seed_shown: "model_shown (seed_session_model (session_key k) r p s)"
  by (simp add: seed_session_model_def model_shown_def store_model_def)

lemma stored_known: "dget (sg_selectedModelCapabilitiesBySession s) k = Some c \<Longrightarrow> known_context c \<Longrightarrow> stored_capabilities k s = c"
  by (auto simp: stored_capabilities_def normalizeModelCapabilities_def known_context_def)

lemma activate_ok:
  assumes "model_tables s"
  shows "model_tables (activateSessionModel k r p s) \<and> model_shown (activateSessionModel k r p s)"
proof (cases "\<exists>m. dget (sg_selectedModelBySession s) (session_key k) = Some m
    \<and> dget (sg_selectedModelSourceBySession s) (session_key k) = Some ''explicit''")
  case True
  then obtain m where m: "dget (sg_selectedModelBySession s) (session_key k) = Some m"
    "dget (sg_selectedModelSourceBySession s) (session_key k) = Some ''explicit''" by blast
  with assms obtain c where c: "dget (sg_selectedModelCapabilitiesBySession s) (session_key k) = Some c" "known_context c"
    unfolding model_tables_def by (blast dest: same_keysD)
  with m stored_known [OF c] assms show ?thesis
    by (simp add: activateSessionModel_def model_tables_def model_shown_def)
next
  case False
  then have "activateSessionModel k r p s = seed_session_model (session_key k) r p s"
    by (auto simp: activateSessionModel_def Let_def split: option.split)
  with assms show ?thesis by (simp add: seed_tables seed_shown)
qed

lemma rekey_tables:
  assumes "model_tables s"
  shows "model_tables (rekeySessionModel a b s)"
proof (cases "a = [] \<or> b = [] \<or> a = b")
  case True
  with assms show ?thesis by (simp add: rekeySessionModel_def)
next
  case False
  show ?thesis
  proof (cases "dget (sg_selectedModelBySession s) a")
    case None
    with False assms show ?thesis by (simp add: rekeySessionModel_def model_tables_def)
  next
    case (Some m)
    with assms obtain x where "dget (sg_selectedModelSourceBySession s) a = Some x" "x = ''explicit'' \<or> x = ''server''"
      unfolding model_tables_def by (blast dest: same_keysD)
    with False Some assms show ?thesis
      by (auto simp: rekeySessionModel_def model_tables_def known_stored split: if_splits)
  qed
qed

text \<open>A conversation gets a new key that no conversation has yet.\<close>

fun sg_ok :: "settings \<Rightarrow> sg_event \<Rightarrow> bool" where
  "sg_ok s (SgRekey a b) =
     (dget (sg_selectedModelBySession s) b = None \<and> session_key (sg_activeModelSessionKey s) \<noteq> b)"
| "sg_ok s _ = True"

lemma rekey_shown:
  assumes "model_tables s" "model_shown s" "sg_ok s (SgRekey a b)"
  shows "model_shown (rekeySessionModel a b s)"
proof (cases "a = [] \<or> b = [] \<or> a = b")
  case True
  with assms show ?thesis by (simp add: rekeySessionModel_def)
next
  case False
  then have b: "session_key (Some b) = b" "session_key (Some a) = a" by (simp_all add: session_key_def)
  show ?thesis
  proof (cases "dget (sg_selectedModelBySession s) a")
    case None
    with False assms b show ?thesis by (auto simp: rekeySessionModel_def model_shown_def)
  next
    case (Some m)
    with assms(1) obtain c where c: "dget (sg_selectedModelCapabilitiesBySession s) a = Some c" "known_context c"
      unfolding model_tables_def by (blast dest: same_keysD)
    show ?thesis
      using False Some assms b stored_known [OF c] c by (auto simp: rekeySessionModel_def model_shown_def Let_def)
  qed
qed

lemma model_tables_step: "model_tables s \<Longrightarrow> model_tables (sg_step s e)"
proof (cases "model_event e")
  case False
  assume "model_tables s"
  with model_fields_inv [OF model_fields_step [OF False, of s]] show ?thesis by simp
next
  case True
  assume t: "model_tables s"
  show ?thesis
  proof (cases e)
    case (SgActivate k r p)
    with t activate_ok show ?thesis by simp
  next
    case (SgRekey a b)
    with t show ?thesis by (simp add: rekey_tables)
  next
    case SgReset
    then show ?thesis by (simp add: sg_reset_def model_tables_def)
  qed (use t True in \<open>simp_all add: setSelectedModel_def setSelectedModelContext_def store_model_tables known_simps\<close>)
qed

definition sg_inv :: "settings \<Rightarrow> bool" where
  "sg_inv s \<longleftrightarrow> model_tables s \<and> model_shown s"

lemma sg_inv_step:
  assumes "sg_inv s" "sg_ok s e"
  shows "sg_inv (sg_step s e)"
proof -
  have "model_shown (sg_step s e)"
  proof (cases "model_event e")
    case False
    with model_fields_inv [OF model_fields_step [OF False, of s]] assms(1) show ?thesis by (simp add: sg_inv_def)
  next
    case True
    then show ?thesis
    proof (cases e)
      case (SgActivate k r p)
      with assms(1) activate_ok show ?thesis by (simp add: sg_inv_def)
    next
      case (SgRekey a b)
      with assms rekey_shown show ?thesis by (simp add: sg_inv_def)
    next
      case SgReset
      then show ?thesis by (simp add: sg_reset_def model_shown_def)
    qed (simp_all add: setSelectedModel_def setSelectedModelContext_def store_model_shown)
  qed
  with assms(1) model_tables_step show ?thesis by (simp add: sg_inv_def)
qed

lemma sg_inv_blank: "sg_inv (sg_blank st)"
  by (simp add: sg_inv_def model_tables_def model_shown_def sg_blank_def)

interpretation settings_runs: machine "sg_blank st" sg_step sg_ok sg_inv
  by unfold_locales (rule sg_inv_blank, rule sg_inv_step)

interpretation settings_types: machine "sg_blank st" sg_step "\<lambda>_ _. True" model_tables
  by unfold_locales (use sg_inv_blank in \<open>simp add: sg_inv_def\<close>, rule model_tables_step)

text \<open>C26. The tables of chosen models are well typed after every run of the store: model, context and
  source are recorded for the same conversations; a context is absent or the long one, whatever the
  server sent; and a source is the user's choice or the server's.\<close>

theorem model_tables_typed:
  "model_tables (foldl sg_step (sg_blank st) es)"
  using settings_types.run_inv [of st es] settings_types.all_ok_run [of es] by (simp add: settings_types.run_foldl)

fun sg_ok_run :: "settings \<Rightarrow> sg_event list \<Rightarrow> bool" where
  "sg_ok_run s [] = True"
| "sg_ok_run s (e # es) = (sg_ok s e \<and> sg_ok_run (sg_step s e) es)"

lemma sg_ok_run_eq: "sg_ok_run s es = settings_runs.ok_run s es"
  by (induction es arbitrary: s) simp_all

text \<open>The picker shows the model of the conversation: after any run in which a conversation is only
  renamed to a key that is new, the model and the context shown are those recorded for the active
  conversation, if it has a record.\<close>

theorem picker_shows_session_model:
  assumes "sg_ok_run (sg_blank st) es" and "s = foldl sg_step (sg_blank st) es"
    and "dget (sg_selectedModelBySession s) (session_key (sg_activeModelSessionKey s)) = Some m"
  shows "sg_selectedModel s = m \<and>
    dget (sg_selectedModelCapabilitiesBySession s) (session_key (sg_activeModelSessionKey s)) = Some (sg_selectedModelCapabilities s)"
proof -
  have "sg_inv s" using settings_runs.run_inv [of st es] assms(1,2) by (simp add: settings_runs.run_foldl sg_ok_run_eq)
  with assms(3) show ?thesis by (simp add: sg_inv_def model_shown_def Let_def)
qed
definition demo_pick :: "sg_event list" where
  "demo_pick = [SgActivate (Some ''a'') JNull False, SgSelect (JStr ''opus''), SgActivate (Some ''b'') JNull False,
     SgRekey ''a'' ''c'', SgActivate (Some ''c'') JNull False]"

definition blank_storage :: storage where
  "blank_storage = \<lparr>st_blocked = False, st_full = False, st_items = dempty\<rparr>"

theorem picker_shows_session_model_witness:
  "sg_selectedModel (foldl sg_step (sg_blank blank_storage) demo_pick) = JStr ''opus'' \<and>
   sg_activeModelSessionKey (foldl sg_step (sg_blank blank_storage) demo_pick) = Some ''c''"
proof -
  have ok: "sg_ok_run (sg_blank blank_storage) demo_pick" by code_simp
  have rec: "dget (sg_selectedModelBySession (foldl sg_step (sg_blank blank_storage) demo_pick))
      (session_key (sg_activeModelSessionKey (foldl sg_step (sg_blank blank_storage) demo_pick))) = Some (JStr ''opus'')"
    by code_simp
  have "sg_activeModelSessionKey (foldl sg_step (sg_blank blank_storage) demo_pick) = Some ''c''" by code_simp
  with picker_shows_session_model [OF ok refl rec] show ?thesis by simp
qed

section \<open>An explicit choice stays\<close>

fun leaves_choice :: "string \<Rightarrow> sg_event \<Rightarrow> bool" where
  "leaves_choice k (SgSelect _) = False"
| "leaves_choice k (SgSelectContext _) = False"
| "leaves_choice k (SgRekey a b) = (a \<noteq> k \<and> b \<noteq> k)"
| "leaves_choice k SgReset = False"
| "leaves_choice k _ = True"

definition chosen :: "string \<Rightarrow> jsval \<Rightarrow> settings \<Rightarrow> bool" where
  "chosen k m s \<longleftrightarrow> dget (sg_selectedModelBySession s) k = Some m \<and> dget (sg_selectedModelSourceBySession s) k = Some ''explicit''"

lemma chosen_fields: "model_fields s' = model_fields s \<Longrightarrow> chosen k m s' = chosen k m s"
  by (simp add: model_fields_def chosen_def)

lemma chosen_activate: "chosen k m s \<Longrightarrow> chosen k m (activateSessionModel j r p s)"
  by (auto simp: activateSessionModel_def chosen_def seed_session_model_def store_model_def Let_def split: option.split)

lemma chosen_step: "chosen k m s \<Longrightarrow> leaves_choice k e \<Longrightarrow> chosen k m (sg_step s e)"
proof (cases "model_event e")
  case False
  assume "chosen k m s"
  with chosen_fields [OF model_fields_step [OF False, of s]] show ?thesis by simp
next
  case True
  assume c: "chosen k m s" and l: "leaves_choice k e"
  show ?thesis
  proof (cases e)
    case (SgActivate j r p)
    with c chosen_activate show ?thesis by simp
  next
    case (SgRekey a b)
    with c l show ?thesis by (auto simp: rekeySessionModel_def chosen_def split: option.split)
  qed (use l True in simp_all)
qed

lemma chosen_run: "chosen k m s \<Longrightarrow> list_all (leaves_choice k) es \<Longrightarrow> chosen k m (foldl sg_step s es)"
  by (induction es arbitrary: s) (auto intro: chosen_step)

text \<open>C27. A model the user picked for a conversation stays picked: after switching between conversations,
  reloading profiles, saving settings and any answers of the server, returning to the conversation
  selects that model again, whatever model the server reports for its last response.\<close>

theorem explicit_model_survives:
  assumes "sg_activeModelSessionKey s = Some k" and "k \<noteq> []" and "list_all (leaves_choice k) es"
  shows "sg_selectedModel (activateSessionModel (Some k) response preserve (foldl sg_step (setSelectedModel m s) es)) = m"
proof -
  have k: "session_key (Some k) = k" using assms(2) by (simp add: session_key_def)
  have "chosen k m (setSelectedModel m s)" using assms(1) k by (simp add: setSelectedModel_def chosen_def store_model_def)
  from chosen_run [OF this assms(3)] k show ?thesis by (simp add: activateSessionModel_def chosen_def)
qed

theorem explicit_model_survives_witness:
  "sg_selectedModel (activateSessionModel (Some ''a'') (JObj [(''model_id'', JStr ''haiku'')]) False
     (foldl sg_step (setSelectedModel (JStr ''opus'') (activateSessionModel (Some ''a'') JNull False (sg_blank blank_storage)))
       [SgActivate (Some ''b'') JNull False, SgFetchProfiles])) = JStr ''opus''"
  by (rule explicit_model_survives) (code_simp, simp_all)

section \<open>Failed saves\<close>

lemma read_write_toggle [simp]: "read_toggle t (write_toggle t b s) = b"
  by (cases t) simp_all

lemma write_toggle_back: "write_toggle t (read_toggle t s) (write_toggle t b s) = s"
  by (cases t) simp_all

text \<open>A switch whose save fails goes back: the state after the failure is the state before the user
  touched the switch, except that the error is recorded and saving has ended.\<close>

theorem failed_toggle_restores:
  "sg_answer (length (sg_inflight s)) (Inl e) (set_toggle t enabled s) =
     s\<lparr>sg_runtimeSettingsError := Some (err_message e),
       sg_runtimeSettingsSaving := (t \<noteq> TgCrossSession \<and> sg_runtimeSettingsSaving s)\<rparr>"
  by (cases t) (simp_all add: sg_answer_def set_toggle_def ask_sg_def sg_failure_def failed_toggle_def unless_cross_def Let_def)

lemma failed_env_restores:
  "sg_answer (length (sg_inflight s)) (Inl e) (saveRuntimeEnv envData b s) =
     s\<lparr>sg_runtimeSettingsError := Some (err_message e), sg_runtimeSettingsSaving := False\<rparr>"
  by (simp add: sg_answer_def saveRuntimeEnv_def ask_sg_def sg_failure_def failed_env_def Let_def)

text \<open>
  The guarantee is per save. When saves of the same switch overlap, the failure of an earlier one
  overwrites the result of a later one: the recap switch is turned off, on and off again, the last
  save succeeds, then the first one fails, and the switch shows on although the server has it off.
\<close>

lemma overlapping_saves:
  "sg_recapEnabled (foldl sg_step (sg_blank st)
     [SgSaveRecap False, SgSaveRecap True, SgSaveRecap False, SgAnswer 2 (Inr JNull), SgAnswer 1 (Inr JNull),
      SgAnswer 0 (Inl NetworkError)]) = True"
  by (simp add: sg_blank_def saveRecapEnabled_def ask_sg_def sg_answer_def sg_success_def sg_failure_def Let_def)

section \<open>Loading ends\<close>

definition is_profiles :: "sg_request \<Rightarrow> bool" where
  "is_profiles rq = (case rq of QProfiles _ \<Rightarrow> True | _ \<Rightarrow> False)"

definition is_saving :: "sg_request \<Rightarrow> bool" where
  "is_saving rq = (case rq of QSaveEnv _ _ \<Rightarrow> True | QSaveToggle t _ \<Rightarrow> t = TgCrossSession | _ \<Rightarrow> False)"

definition is_models :: "sg_request \<Rightarrow> bool" where
  "is_models rq = (case rq of QModels _ \<Rightarrow> True | _ \<Rightarrow> False)"

definition is_key :: "sg_request \<Rightarrow> bool" where
  "is_key rq = (case rq of QApiKey \<Rightarrow> True | QGenerateKey \<Rightarrow> True | QRevokeKey \<Rightarrow> True | _ \<Rightarrow> False)"

lemmas kind_defs = is_profiles_def is_saving_def is_models_def is_key_def

text \<open>A flag that shows activity is backed by a request on its way.\<close>

definition backed :: "settings \<Rightarrow> sg_request list \<Rightarrow> bool" where
  "backed s rqs \<longleftrightarrow>
     (sg_profilesLoading s \<longrightarrow> list_ex is_profiles rqs) \<and>
     (sg_runtimeSettingsLoading s \<longrightarrow> QRuntime \<in> set rqs) \<and>
     (sg_runtimeSettingsSaving s \<longrightarrow> list_ex is_saving rqs) \<and>
     (sg_modelsLoading s \<longrightarrow> list_ex is_models rqs) \<and>
     (sg_apiKeyLoading s \<longrightarrow> list_ex is_key rqs)"

lemma backed_mono: "backed s rqs \<Longrightarrow> set rqs \<subseteq> set rqs' \<Longrightarrow> backed s rqs'"
  unfolding backed_def list_ex_iff by blast

lemma write_toggle_frame [simp]:
  "sg_profilesLoading (write_toggle t b s) = sg_profilesLoading s" "sg_inflight (write_toggle t b s) = sg_inflight s"
  "sg_runtimeSettingsLoading (write_toggle t b s) = sg_runtimeSettingsLoading s"
  "sg_runtimeSettingsSaving (write_toggle t b s) = sg_runtimeSettingsSaving s"
  "sg_modelsLoading (write_toggle t b s) = sg_modelsLoading s" "sg_apiKeyLoading (write_toggle t b s) = sg_apiKeyLoading s"
  by (cases t; simp)+

lemma backed_answer_success:
  "backed s (rq # sg_inflight s) \<Longrightarrow> backed (sg_success rq data s) (sg_inflight (sg_success rq data s))"
  by (cases rq) (auto simp: backed_def kind_defs sg_success_def continue_profiles_def sg_profile_defs sg_runtime_defs
      sg_model_defs split: sg_cont.split option.split)

lemma backed_answer_failure:
  "backed s (rq # sg_inflight s) \<Longrightarrow> backed (sg_failure rq e s) (sg_inflight (sg_failure rq e s))"
  by (cases rq) (auto simp: backed_def kind_defs sg_failure_def continue_profiles_def sg_profile_defs sg_runtime_defs
      sg_model_defs split: sg_cont.split option.split)
lemma set_split_nth: "n < length xs \<Longrightarrow> set xs = insert (xs ! n) (set (take n xs @ drop (Suc n) xs))"
  by (metis (no_types, lifting) Un_insert_right append_Cons id_take_nth_drop list.simps(15) set_append)

lemma backed_answer:
  assumes "backed s (sg_inflight s)"
  shows "backed (sg_answer n r s) (sg_inflight (sg_answer n r s))"
proof (cases "n < length (sg_inflight s)")
  case False
  with assms show ?thesis by (simp add: sg_answer_def)
next
  case True
  let ?rest = "take n (sg_inflight s) @ drop (Suc n) (sg_inflight s)"
  have "backed (s\<lparr>sg_inflight := ?rest\<rparr>) ((sg_inflight s ! n) # ?rest)"
    using backed_mono [OF assms, of "(sg_inflight s ! n) # ?rest"] set_split_nth [OF True] by (simp add: backed_def)
  then show ?thesis
    using True backed_answer_success [of "s\<lparr>sg_inflight := ?rest\<rparr>"] backed_answer_failure [of "s\<lparr>sg_inflight := ?rest\<rparr>"]
    by (simp add: sg_answer_def Let_def split: sum.split)
qed

lemma backed_step: "backed s (sg_inflight s) \<Longrightarrow> backed (sg_step s e) (sg_inflight (sg_step s e))"
proof (cases e)
  case (SgAnswer n r)
  then show "backed s (sg_inflight s) \<Longrightarrow> ?thesis" using backed_answer by simp
qed (auto simp: backed_def kind_defs sg_profile_defs sg_runtime_defs sg_model_defs sg_other_defs activateSessionModel_def
    seed_session_model_def store_model_def rekeySessionModel_def setSelectedModel_def setSelectedModelContext_def sg_reset_def
    split: option.split)

interpretation settings_busy: machine "sg_blank st" sg_step "\<lambda>_ _. True" "\<lambda>s. backed s (sg_inflight s)"
  by unfold_locales (simp add: backed_def sg_blank_def, rule backed_step)

text \<open>The settings never show activity that has ended: after any run, when no request is on its way,
  profiles, runtime settings, models and the API key are not marked as loading, nor a save as pending.\<close>

theorem settings_loading_ends:
  assumes "s = foldl sg_step (sg_blank st) es" and "sg_inflight s = []"
  shows "\<not> sg_profilesLoading s \<and> \<not> sg_runtimeSettingsLoading s \<and> \<not> sg_runtimeSettingsSaving s \<and>
    \<not> sg_modelsLoading s \<and> \<not> sg_apiKeyLoading s"
  using settings_busy.run_inv [of st es] settings_busy.all_ok_run [of es] assms
  by (auto simp: settings_busy.run_foldl backed_def)

theorem settings_loading_ends_witness:
  "\<not> sg_profilesLoading (foldl sg_step (sg_blank blank_storage) [SgFetchProfiles, SgAnswer 0 (Inl NetworkError)])"
  using settings_loading_ends [OF refl, of blank_storage "[SgFetchProfiles, SgAnswer 0 (Inl NetworkError)]"]
  by (simp add: sg_answer_def sg_failure_def continue_profiles_def sg_profile_defs sg_blank_def)

end
