(* ===== verification/SessionTags.thy ===== *)
theory SessionTags
  imports SessionTransform "HOL-Library.Word"
begin

unbundle bit_operations_syntax

text \<open>
  The tags of a session and the slot of their colour (\<^verbatim>\<open>web/user/src/utils/sessionTags.js\<close>). A tag
  without a stored colour gets a slot from the FNV-1a hash of its UTF-8 bytes in 32-bit arithmetic.
  The conversion of a slot to a hue and lightness is floating-point and not modelled.
\<close>

definition MAX_SESSION_TAGS :: nat where
  "MAX_SESSION_TAGS = 3"

definition TAG_COLOR_SLOTS :: nat where
  "TAG_COLOR_SLOTS = 100"

text \<open>The loop over the raw values: the keys seen, and the tags kept; it stops at the third tag.\<close>

fun collect_tags :: "string list \<Rightarrow> string list \<Rightarrow> jsval list \<Rightarrow> string list" where
  "collect_tags seen tags [] = tags"
| "collect_tags seen tags (v # vs) =
     (if \<not> is_str v then collect_tags seen tags vs
      else (let tag = trim (str_of v); key = lower tag
            in if tag = [] \<or> key \<in> set seen then collect_tags seen tags vs
               else if Suc (length tags) = MAX_SESSION_TAGS then tags @ [tag]
               else collect_tags (key # seen) (tags @ [tag]) vs))"

definition normalizeSessionTags :: "jsval \<Rightarrow> string list" where
  "normalizeSessionTags raw = collect_tags [] [] (if is_str raw then [raw] else arr_of raw)"

definition sessionTags :: "jsval \<Rightarrow> string list" where
  "sessionTags session =
     (if is_arr (jget session ''tags'') then normalizeSessionTags (jget session ''tags'')
      else normalizeSessionTags (jget session ''tag''))"

text \<open>The UTF-8 bytes of a code unit below 256.\<close>

definition utf8_bytes :: "char \<Rightarrow> 32 word list" where
  "utf8_bytes c =
     (let n = (of_char c :: nat)
      in if n < 128 then [of_nat n] else [of_nat (192 + n div 64), of_nat (128 + n mod 64)])"

definition fnv_step :: "32 word \<Rightarrow> 32 word \<Rightarrow> 32 word" where
  "fnv_step hash byte = (hash XOR byte) * 16777619"

definition fallbackTagColorIndex :: "jsval \<Rightarrow> int" where
  "fallbackTagColorIndex tag =
     (let bytes = concat (map utf8_bytes (lower (trim (to_str (jor tag (JStr []))))))
      in int (unat (foldl fnv_step 2166136261 bytes) mod TAG_COLOR_SLOTS))"

definition valid_slot :: "int \<Rightarrow> bool" where
  "valid_slot n \<longleftrightarrow> 0 \<le> n \<and> n < int TAG_COLOR_SLOTS"

definition resolveTagColorIndex :: "js_env \<Rightarrow> jsval \<Rightarrow> jsval \<Rightarrow> int" where
  "resolveTagColorIndex env tag colorIndex =
     (case js_number env colorIndex of
        Some parsed \<Rightarrow> if valid_slot parsed then parsed else fallbackTagColorIndex tag
      | None \<Rightarrow> fallbackTagColorIndex tag)"

definition normalizeTagColorMap :: "js_env \<Rightarrow> jsval \<Rightarrow> jsval" where
  "normalizeTagColorMap env raw =
     (case raw of
        JObj kvs \<Rightarrow>
          foldl (\<lambda>colors (tag, v). case js_number env v of
                   Some index \<Rightarrow> if tag \<noteq> [] \<and> valid_slot index then jset tag (JNum index) colors else colors
                 | None \<Rightarrow> colors) (JObj []) kvs
      | _ \<Rightarrow> JObj [])"

definition findTagColorIndex :: "js_env \<Rightarrow> string \<Rightarrow> jsval \<Rightarrow> int" where
  "findTagColorIndex env tag colorMap =
     (if \<not> truthy colorMap \<or> \<not> is_object colorMap then fallbackTagColorIndex (JStr tag)
      else if has_own colorMap tag then resolveTagColorIndex env (JStr tag) (jget colorMap tag)
      else resolveTagColorIndex env (JStr tag)
             (case List.find (\<lambda>(candidate, _). lower candidate = lower tag) (obj_of colorMap) of
                Some (_, v) \<Rightarrow> v | None \<Rightarrow> JUndef))"

section \<open>Properties\<close>

lemma collect_tags_spec:
  "distinct (map lower tags) \<Longrightarrow> set seen = lower ` set tags \<Longrightarrow> [] \<notin> set tags \<Longrightarrow> length tags < MAX_SESSION_TAGS \<Longrightarrow>
   distinct (map lower (collect_tags seen tags vs)) \<and> [] \<notin> set (collect_tags seen tags vs) \<and>
   length (collect_tags seen tags vs) \<le> MAX_SESSION_TAGS \<and> (\<forall>t \<in> set (collect_tags seen tags vs). t \<in> set tags \<or> trim t = t)"
proof (induction seen tags vs rule: collect_tags.induct)
  case (2 seen tags v vs)
  show ?case
  proof (cases "\<not> is_str v \<or> trim (str_of v) = [] \<or> lower (trim (str_of v)) \<in> set seen")
    case True
    with 2 show ?thesis by (auto simp: Let_def)
  next
    case False
    let ?t = "trim (str_of v)"
    show ?thesis
    proof (cases "Suc (length tags) = MAX_SESSION_TAGS")
      case True
      with False 2(4-) show ?thesis by (auto simp: Let_def)
    next
      case more: False
      have "distinct (map lower (collect_tags (lower ?t # seen) (tags @ [?t]) vs)) \<and>
        [] \<notin> set (collect_tags (lower ?t # seen) (tags @ [?t]) vs) \<and>
        length (collect_tags (lower ?t # seen) (tags @ [?t]) vs) \<le> MAX_SESSION_TAGS \<and>
        (\<forall>t \<in> set (collect_tags (lower ?t # seen) (tags @ [?t]) vs). t \<in> set (tags @ [?t]) \<or> trim t = t)"
        using False more 2(4-) by (intro 2(3)) auto
      with False more show ?thesis by (auto simp: Let_def)
    qed
  qed
qed simp

lemma normal_tags_fixed:
  "distinct (map lower tags @ seen) \<Longrightarrow> (\<forall>t \<in> set tags. t \<noteq> [] \<and> trim t = t) \<Longrightarrow>
   length acc + length tags \<le> MAX_SESSION_TAGS \<Longrightarrow> length acc < MAX_SESSION_TAGS \<or> tags = [] \<Longrightarrow>
   collect_tags seen acc (map JStr tags) = acc @ tags"
proof (induction tags arbitrary: seen acc)
  case (Cons t tags)
  show ?case
  proof (cases "Suc (length acc) = MAX_SESSION_TAGS")
    case True
    with Cons.prems(3) have "length acc + Suc (length tags) \<le> Suc (length acc)" by simp
    then have "tags = []" by simp
    with True Cons.prems show ?thesis by (simp add: Let_def)
  next
    case False
    have "collect_tags (lower t # seen) (acc @ [t]) (map JStr tags) = (acc @ [t]) @ tags"
      using Cons.prems False by (intro Cons.IH) auto
    with False Cons.prems show ?thesis by (simp add: Let_def)
  qed
qed simp

text \<open>The tags of a session are at most three, none is blank, no two differ only in case, and
  normalising them again (when they come back from the server) changes nothing.\<close>

theorem session_tags_normal:
  "length (normalizeSessionTags raw) \<le> 3 \<and> [] \<notin> set (normalizeSessionTags raw) \<and>
   distinct (map lower (normalizeSessionTags raw)) \<and>
   normalizeSessionTags (JArr (map JStr (normalizeSessionTags raw))) = normalizeSessionTags raw"
proof -
  let ?t = "normalizeSessionTags raw"
  have t: "distinct (map lower ?t)" "[] \<notin> set ?t" "length ?t \<le> MAX_SESSION_TAGS" "\<forall>t \<in> set ?t. trim t = t"
    using collect_tags_spec [of "[]" "[]"] by (simp_all add: normalizeSessionTags_def MAX_SESSION_TAGS_def)
  then have "collect_tags [] [] (map JStr ?t) = [] @ ?t"
    by (intro normal_tags_fixed) (auto simp: MAX_SESSION_TAGS_def)
  then have "normalizeSessionTags (JArr (map JStr ?t)) = ?t" by (simp add: normalizeSessionTags_def [of "JArr _"])
  with t show ?thesis by (simp add: MAX_SESSION_TAGS_def)
qed

lemma fnv_of_a: "foldl fnv_step 2166136261 (utf8_bytes CHR ''a'') = 3826002220"
  by (simp add: utf8_bytes_def fnv_step_def)

lemma fallback_slot: "valid_slot (fallbackTagColorIndex tag)"
  by (simp add: fallbackTagColorIndex_def valid_slot_def TAG_COLOR_SLOTS_def Let_def)

lemma resolve_slot: "valid_slot (resolveTagColorIndex env tag v)"
  by (auto simp: resolveTagColorIndex_def fallback_slot split: option.splits)

text \<open>Whatever a session carries as colours, the slot of a tag lies below one hundred, so the table
  of colours is never read out of range; and a slot stored for the tag is the one used.\<close>

theorem tag_slot_in_range:
  "0 \<le> findTagColorIndex env tag colorMap \<and> findTagColorIndex env tag colorMap < 100 \<and>
   (has_own colorMap tag \<and> jget colorMap tag = JNum n \<and> 0 \<le> n \<and> n < 100 \<longrightarrow> findTagColorIndex env tag colorMap = n)"
proof -
  have "valid_slot (findTagColorIndex env tag colorMap)"
    by (simp add: findTagColorIndex_def fallback_slot resolve_slot)
  moreover have "findTagColorIndex env tag colorMap = n"
    if "has_own colorMap tag" "jget colorMap tag = JNum n" "0 \<le> n" "n < 100"
    using that by (cases colorMap)
      (auto simp: findTagColorIndex_def resolveTagColorIndex_def valid_slot_def TAG_COLOR_SLOTS_def)
  ultimately show ?thesis by (auto simp: valid_slot_def TAG_COLOR_SLOTS_def)
qed

theorem tag_slot_in_range_witness:
  "findTagColorIndex (demo_env 0) ''ui'' (JObj [(''ui'', JNum 42)]) = 42"
  using tag_slot_in_range [of "demo_env 0" "''ui''" "JObj [(''ui'', JNum 42)]" 42] by simp

end
