(* ===== verification/Sidebar.thy ===== *)
theory Sidebar
  imports SessionTags ApiClient ModelSelection ToolRuns
begin

text \<open>
  The sidebar store (\<^verbatim>\<open>web/user/src/stores/sidebarStore.js\<close>): the loaded sessions of all working
  directories, the groups they belong to, expansion and tag filters. An asynchronous operation is two
  steps: the call, which may change the state and sends a request with what its closure keeps, and
  the answer, which may come in any order relative to other calls and answers.
\<close>

section \<open>State\<close>

record group =
  gr_cwd :: jsval
  gr_total :: jsval
  gr_pinned :: jsval

datatype sb_request =
    RqDismiss jsval
  | RqPin jsval bool
  | RqArchive jsval jsval
  | RqPinDir jsval bool
  | RqArchiveDir jsval
  | RqFetch
  | RqMore jsval nat

record sidebar =
  sb_width :: int
  sb_collapsed :: bool
  sb_sessions :: "jsval list"
  sb_groups :: "group list"
  sb_activeCwd :: jsval
  sb_recentActivities :: "jsval list"
  sb_expandedCwds :: "(string, bool) dict"
  sb_expandedScheduledCwds :: "(string, bool) dict"
  sb_activeSessionId :: jsval
  sb_sessionsLoading :: bool
  sb_groupLoadingCwd :: jsval
  sb_activeTags :: "string list"
  sb_storage :: storage
  sb_widthTimer :: "int option"
  sb_inflight :: "sb_request list"

definition STORAGE_KEY_WIDTH :: string where
  "STORAGE_KEY_WIDTH = ''sidebar-width''"

definition STORAGE_KEY_COLLAPSED :: string where
  "STORAGE_KEY_COLLAPSED = ''sidebar-collapsed''"

definition STORAGE_KEY_SCHEDULED_GROUPS :: string where
  "STORAGE_KEY_SCHEDULED_GROUPS = ''sidebar-scheduled-groups''"

definition getStoredWidth :: "js_env \<Rightarrow> storage \<Rightarrow> int" where
  "getStoredWidth env st = getNumber env st STORAGE_KEY_WIDTH 240 (Some 180) (Some 480)"

definition getStoredCollapsed :: "storage \<Rightarrow> bool" where
  "getStoredCollapsed st = getBoolean st STORAGE_KEY_COLLAPSED False"

fun bool_entry :: "string \<times> jsval \<Rightarrow> (string \<times> bool) list" where
  "bool_entry (k, JBool b) = [(k, b)]"
| "bool_entry _ = []"

definition getStoredScheduledGroups :: "js_env \<Rightarrow> storage \<Rightarrow> (string, bool) dict" where
  "getStoredScheduledGroups env st =
     concat (map bool_entry (obj_of (getJSON env st STORAGE_KEY_SCHEDULED_GROUPS JNull)))"

definition persistScheduledGroups :: "js_env \<Rightarrow> (string, bool) dict \<Rightarrow> sidebar \<Rightarrow> sidebar" where
  "persistScheduledGroups env groups s =
     s\<lparr>sb_storage := snd (setItem STORAGE_KEY_SCHEDULED_GROUPS
         (env_stringify env (JObj (map (\<lambda>(k, b). (k, JBool b)) groups))) (sb_storage s))\<rparr>"

definition add_active_tag :: "string list \<Rightarrow> jsval \<Rightarrow> string list" where
  "add_active_tag normalized v =
     (if \<not> is_str v then normalized
      else (let tag = trim (str_of v)
            in if tag = [] \<or> lower tag \<in> lower ` set normalized then normalized else normalized @ [tag]))"

definition normalizeActiveTags :: "jsval \<Rightarrow> string list" where
  "normalizeActiveTags tags = foldl add_active_tag [] (arr_of tags)"

definition opt_str :: "string option \<Rightarrow> jsval" where
  "opt_str o' = (case o' of Some s \<Rightarrow> JStr s | None \<Rightarrow> JNull)"

definition response_model_val :: "response_model option \<Rightarrow> jsval" where
  "response_model_val m =
     (case m of None \<Rightarrow> JNull
      | Some r \<Rightarrow> JObj [(''profileId'', rm_profileId r),
          (''model'', JObj [(''id'', JStr (rm_id r)), (''capabilities'', JObj [(''context'', opt_str (rm_context r))])]),
          (''observedAt'', rm_observedAt r)])"

definition mapSession :: "js_env \<Rightarrow> jsval \<Rightarrow> jsval" where
  "mapSession env s =
     (let tags = normalizeSessionTags (if is_arr (jget s ''tags'') then jget s ''tags'' else jget s ''tag'')
      in JObj [(''id'', jget s ''session_id''), (''sessionId'', jget s ''session_id''),
          (''name'', jor (jor (jor (jget s ''custom_title'') (jget s ''first_prompt'')) (jget s ''summary'')) (jget s ''session_id'')),
          (''customTitle'', jor (jget s ''custom_title'') JNull), (''createdAt'', jget s ''last_modified''),
          (''summary'', jget s ''summary''), (''firstPrompt'', jget s ''first_prompt''), (''gitBranch'', jget s ''git_branch''),
          (''cwd'', jget s ''cwd''), (''fileSize'', jget s ''file_size''),
          (''sessionSource'', jor (jget s ''session_source'') (JStr ''project'')),
          (''tag'', (case tags of t # _ \<Rightarrow> JStr t | [] \<Rightarrow> JNull)), (''tags'', JArr (map JStr tags)),
          (''tagColors'', normalizeTagColorMap env (jget s ''tag_colors'')),
          (''pinned'', jor (jget s ''pinned'') (JBool False)), (''archived'', jor (jget s ''archived'') (JBool False)),
          (''parentSessionId'', jor (jget s ''parent_session_id'') JNull),
          (''parentMessageUuid'', jor (jget s ''parent_message_uuid'') JNull),
          (''forkCount'', jor (jget s ''fork_count'') (JNum 0)), (''origin'', jor (jget s ''origin'') JNull),
          (''schedulerJobName'', jor (jget s ''scheduler_job_name'') JNull),
          (''runMode'', if jget s ''run_mode'' = JStr ''agent'' then JStr ''agent'' else JStr ''code''),
          (''lastResponseModel'', response_model_val (normalizeLastResponseModel (jget s ''last_response_model'')))])"

text \<open>A session without a directory takes that of the group it was delivered in.\<close>

definition mapped_in :: "js_env \<Rightarrow> jsval \<Rightarrow> jsval \<Rightarrow> jsval" where
  "mapped_in env cwd s = (let m = mapSession env s in if truthy (jget m ''cwd'') then m else jset ''cwd'' cwd m)"

section \<open>Synchronous operations\<close>

definition setActiveTags :: "jsval \<Rightarrow> sidebar \<Rightarrow> sidebar" where
  "setActiveTags tags s = s\<lparr>sb_activeTags := normalizeActiveTags tags\<rparr>"

definition toggleActiveTag :: "jsval \<Rightarrow> sidebar \<Rightarrow> sidebar" where
  "toggleActiveTag tag s =
     (let key = lower (trim (to_str (jor tag (JStr []))))
      in if key = [] then s
         else if list_ex (\<lambda>item. lower item = key) (sb_activeTags s)
         then s\<lparr>sb_activeTags := filter (\<lambda>item. lower item \<noteq> key) (sb_activeTags s)\<rparr>
         else s\<lparr>sb_activeTags := sb_activeTags s @ [trim (to_str tag)]\<rparr>)"

definition clearActiveTags :: "sidebar \<Rightarrow> sidebar" where
  "clearActiveTags s = s\<lparr>sb_activeTags := []\<rparr>"

definition setWidth :: "int \<Rightarrow> sidebar \<Rightarrow> sidebar" where
  "setWidth width s = s\<lparr>sb_width := width, sb_widthTimer := Some width\<rparr>"

text \<open>The debounced write, 200 ms after the last change of the width.\<close>

definition width_timer :: "sidebar \<Rightarrow> sidebar" where
  "width_timer s =
     (case sb_widthTimer s of
        Some width \<Rightarrow> s\<lparr>sb_storage := snd (setItem STORAGE_KEY_WIDTH (show_int width) (sb_storage s)), sb_widthTimer := None\<rparr>
      | None \<Rightarrow> s)"

definition bool_str :: "bool \<Rightarrow> string" where
  "bool_str b = (if b then ''true'' else ''false'')"

definition setCollapsed :: "bool \<Rightarrow> sidebar \<Rightarrow> sidebar" where
  "setCollapsed collapsed s =
     s\<lparr>sb_storage := snd (setItem STORAGE_KEY_COLLAPSED (bool_str collapsed) (sb_storage s)), sb_collapsed := collapsed\<rparr>"

definition toggleCollapsed :: "sidebar \<Rightarrow> sidebar" where
  "toggleCollapsed s = setCollapsed (\<not> sb_collapsed s) s"

definition setActiveSessionId :: "jsval \<Rightarrow> sidebar \<Rightarrow> sidebar" where
  "setActiveSessionId i s = s\<lparr>sb_activeSessionId := i\<rparr>"

definition is_open :: "(string, bool) dict \<Rightarrow> string \<Rightarrow> bool" where
  "is_open d k = (case dget d k of Some b \<Rightarrow> b | None \<Rightarrow> False)"

definition toggleGroup :: "string \<Rightarrow> sidebar \<Rightarrow> sidebar" where
  "toggleGroup cwd s = s\<lparr>sb_expandedCwds := dset cwd (\<not> is_open (sb_expandedCwds s) cwd) (sb_expandedCwds s)\<rparr>"

definition toggleScheduledGroup :: "js_env \<Rightarrow> string \<Rightarrow> sidebar \<Rightarrow> sidebar" where
  "toggleScheduledGroup env cwd s =
     (let d = dset cwd (\<not> is_open (sb_expandedScheduledCwds s) cwd) (sb_expandedScheduledCwds s)
      in (persistScheduledGroups env d s)\<lparr>sb_expandedScheduledCwds := d\<rparr>)"

definition set_keys :: "bool \<Rightarrow> string list \<Rightarrow> (string, bool) dict \<Rightarrow> (string, bool) dict" where
  "set_keys b ks d = foldl (\<lambda>d k. dset k b d) d ks"

definition setAllGroupsExpanded :: "js_env \<Rightarrow> bool \<Rightarrow> sidebar \<Rightarrow> sidebar" where
  "setAllGroupsExpanded env expanded s =
     (let cwds = map (\<lambda>g. to_str (gr_cwd g)) (sb_groups s);
          next1 = set_keys expanded cwds dempty;
          scheduled1 = set_keys expanded cwds (sb_expandedScheduledCwds s);
          next2 = set_keys expanded (filter (\<lambda>k. dget next1 k = None) (dkeys (sb_expandedCwds s))) next1;
          scheduled2 = set_keys expanded (filter (\<lambda>k. dget next2 k = None) (dkeys scheduled1)) scheduled1
      in (persistScheduledGroups env scheduled2 s)\<lparr>sb_expandedCwds := next2, sb_expandedScheduledCwds := scheduled2\<rparr>)"

definition has_id :: "jsval \<Rightarrow> jsval \<Rightarrow> bool" where
  "has_id i sess = jeq (jget sess ''id'') i"

definition patch_session :: "jsval \<Rightarrow> (jsval \<Rightarrow> jsval) \<Rightarrow> sidebar \<Rightarrow> sidebar" where
  "patch_session i f s = s\<lparr>sb_sessions := map (\<lambda>sess. if has_id i sess then f sess else sess) (sb_sessions s)\<rparr>"

definition updateSession :: "jsval \<Rightarrow> jsval \<Rightarrow> sidebar \<Rightarrow> sidebar" where
  "updateSession i data s = patch_session i (\<lambda>sess. jspread sess data) s"

section \<open>Asynchronous operations\<close>

definition ask :: "sb_request \<Rightarrow> sidebar \<Rightarrow> sidebar" where
  "ask rq s = s\<lparr>sb_inflight := sb_inflight s @ [rq]\<rparr>"

definition dismissRecentActivity :: "jsval \<Rightarrow> sidebar \<Rightarrow> sidebar" where
  "dismissRecentActivity sessionId s = (if \<not> truthy sessionId then s else ask (RqDismiss sessionId) s)"

definition dismissed :: "jsval \<Rightarrow> sidebar \<Rightarrow> sidebar" where
  "dismissed sessionId s =
     s\<lparr>sb_recentActivities := filter (\<lambda>a. \<not> jeq (jor (jget a ''session_id'') (jget a ''sessionId'')) sessionId)
         (sb_recentActivities s)\<rparr>"

definition togglePinSession :: "jsval \<Rightarrow> sidebar \<Rightarrow> sidebar" where
  "togglePinSession i s =
     (case List.find (has_id i) (sb_sessions s) of
        None \<Rightarrow> s
      | Some sess \<Rightarrow> ask (RqPin i (\<not> truthy (jget sess ''pinned''))) s)"

definition pinned_session :: "jsval \<Rightarrow> bool \<Rightarrow> sidebar \<Rightarrow> sidebar" where
  "pinned_session i pinned s = patch_session i (jset ''pinned'' (JBool pinned)) s"

definition archiveSessionLocal :: "jsval \<Rightarrow> sidebar \<Rightarrow> sidebar" where
  "archiveSessionLocal i s =
     (case List.find (has_id i) (sb_sessions s) of None \<Rightarrow> s | Some sess \<Rightarrow> ask (RqArchive i (jget sess ''cwd'')) s)"

fun dec_total :: "jsval \<Rightarrow> jsval" where
  "dec_total (JNum n) = JNum (max 0 (n - 1))"
| "dec_total _ = JNaN"

definition archived_session :: "jsval \<Rightarrow> jsval \<Rightarrow> sidebar \<Rightarrow> sidebar" where
  "archived_session i cwd s =
     (let sessions = filter (\<lambda>x. \<not> has_id i x) (sb_sessions s);
          groups = filter (\<lambda>g. list_ex (\<lambda>x. jeq (jget x ''cwd'') (gr_cwd g)) sessions)
            (map (\<lambda>g. if jeq (gr_cwd g) cwd then g\<lparr>gr_total := dec_total (gr_total g)\<rparr> else g) (sb_groups s))
      in s\<lparr>sb_sessions := sessions, sb_groups := groups\<rparr>)"

definition togglePinWorkdir :: "jsval \<Rightarrow> sidebar \<Rightarrow> sidebar" where
  "togglePinWorkdir cwd s =
     (case List.find (\<lambda>g. jeq (gr_cwd g) cwd) (sb_groups s) of
        None \<Rightarrow> s
      | Some g \<Rightarrow> ask (RqPinDir cwd (\<not> truthy (gr_pinned g))) s)"

definition pinned_dir :: "jsval \<Rightarrow> bool \<Rightarrow> sidebar \<Rightarrow> sidebar" where
  "pinned_dir cwd pinned s =
     s\<lparr>sb_groups := map (\<lambda>g. if jeq (gr_cwd g) cwd then g\<lparr>gr_pinned := JBool pinned\<rparr> else g) (sb_groups s)\<rparr>"

definition archiveWorkdirLocal :: "jsval \<Rightarrow> sidebar \<Rightarrow> sidebar" where
  "archiveWorkdirLocal cwd s = ask (RqArchiveDir cwd) s"

definition archived_dir :: "jsval \<Rightarrow> sidebar \<Rightarrow> sidebar" where
  "archived_dir cwd s =
     s\<lparr>sb_sessions := filter (\<lambda>x. \<not> jeq (jget x ''cwd'') cwd) (sb_sessions s),
       sb_groups := filter (\<lambda>g. \<not> jeq (gr_cwd g) cwd) (sb_groups s)\<rparr>"

definition fetchSessions :: "sidebar \<Rightarrow> sidebar" where
  "fetchSessions s = ask RqFetch (s\<lparr>sb_sessionsLoading := True\<rparr>)"

definition flat_step :: "js_env \<Rightarrow> jsval \<Rightarrow> jsval list \<times> jsval list \<Rightarrow> jsval \<Rightarrow> jsval list \<times> jsval list" where
  "flat_step env cwd acc s =
     (case acc of (flat, seen) \<Rightarrow>
        if jget s ''session_id'' \<in> set seen then acc
        else (flat @ [mapped_in env cwd s], seen @ [jget s ''session_id'']))"

definition flatten_groups :: "js_env \<Rightarrow> jsval list \<Rightarrow> jsval list" where
  "flatten_groups env rawGroups =
     fst (foldl (\<lambda>acc g. foldl (flat_step env (jget g ''cwd'')) acc (arr_of (jor (jget g ''sessions'') (JArr []))))
       ([], []) rawGroups)"

definition expand_step :: "jsval \<Rightarrow> (string, bool) dict \<Rightarrow> (string, bool) dict \<Rightarrow> group \<Rightarrow> (string, bool) dict" where
  "expand_step activeCwd old d g =
     (let k = to_str (gr_cwd g)
      in dset k (case dget old k of Some b \<Rightarrow> b | None \<Rightarrow> jeq (gr_cwd g) activeCwd) d)"

definition fetched_sessions :: "js_env \<Rightarrow> jsval \<Rightarrow> sidebar \<Rightarrow> sidebar" where
  "fetched_sessions env data s =
     (let rawGroups = arr_of (jor (jget data ''groups'') (JArr []));
          groups = map (\<lambda>g. \<lparr>gr_cwd = jget g ''cwd'', gr_total = jget g ''total'', gr_pinned = jor (jget g ''pinned'') (JBool False)\<rparr>)
            rawGroups;
          activeCwd = jor (jget data ''active_cwd'') JNull
      in s\<lparr>sb_sessions := flatten_groups env rawGroups, sb_groups := groups, sb_activeCwd := activeCwd,
           sb_expandedCwds := foldl (expand_step activeCwd (sb_expandedCwds s)) dempty groups\<rparr>)"

definition GROUP_PAGE_SIZE :: nat where
  "GROUP_PAGE_SIZE = 20"

text \<open>The request carries the number of sessions already loaded as its offset.\<close>

definition fetchMoreInGroup :: "jsval \<Rightarrow> sidebar \<Rightarrow> sidebar" where
  "fetchMoreInGroup cwd s =
     (if truthy (sb_groupLoadingCwd s) then s
      else (let loaded = length (filter (\<lambda>x. jeq (jget x ''cwd'') cwd) (sb_sessions s))
            in ask (RqMore cwd loaded) (s\<lparr>sb_groupLoadingCwd := cwd\<rparr>)))"

definition fetched_more :: "js_env \<Rightarrow> jsval \<Rightarrow> jsval \<Rightarrow> sidebar \<Rightarrow> sidebar" where
  "fetched_more env cwd data s =
     (let incoming = map (mapped_in env cwd) (arr_of (jor (jget data ''sessions'') (JArr [])));
          have' = map (\<lambda>x. jget x ''id'') (sb_sessions s)
      in s\<lparr>sb_sessions := sb_sessions s @ filter (\<lambda>x. jget x ''id'' \<notin> set have') incoming,
           sb_groups := map (\<lambda>g. if jeq (gr_cwd g) cwd then g\<lparr>gr_total := jcoal (jget data ''total'') (gr_total g)\<rparr> else g)
             (sb_groups s)\<rparr>)"

definition sb_reset :: "js_env \<Rightarrow> sidebar \<Rightarrow> sidebar" where
  "sb_reset env s =
     s\<lparr>sb_sessions := [], sb_groups := [], sb_activeCwd := JNull, sb_recentActivities := [], sb_expandedCwds := dempty,
       sb_expandedScheduledCwds := getStoredScheduledGroups env (sb_storage s), sb_activeSessionId := JNull,
       sb_sessionsLoading := False, sb_groupLoadingCwd := JNull, sb_activeTags := []\<rparr>"

text \<open>The answer to a request: what follows the \<^verbatim>\<open>await\<close>, the \<^verbatim>\<open>catch\<close> and the \<^verbatim>\<open>finally\<close>.\<close>

definition apply_answer :: "js_env \<Rightarrow> sb_request \<Rightarrow> jsval \<Rightarrow> sidebar \<Rightarrow> sidebar" where
  "apply_answer env rq data s =
     (case rq of
        RqDismiss i \<Rightarrow> dismissed i s
      | RqPin i pinned \<Rightarrow> pinned_session i pinned s
      | RqArchive i cwd \<Rightarrow> archived_session i cwd s
      | RqPinDir cwd pinned \<Rightarrow> pinned_dir cwd pinned s
      | RqArchiveDir cwd \<Rightarrow> archived_dir cwd s
      | RqFetch \<Rightarrow> fetched_sessions env data s
      | RqMore cwd _ \<Rightarrow> fetched_more env cwd data s)"

definition after_answer :: "sb_request \<Rightarrow> sidebar \<Rightarrow> sidebar" where
  "after_answer rq s =
     (case rq of
        RqFetch \<Rightarrow> s\<lparr>sb_sessionsLoading := False\<rparr>
      | RqMore _ _ \<Rightarrow> s\<lparr>sb_groupLoadingCwd := JNull\<rparr>
      | _ \<Rightarrow> s)"

definition answer :: "js_env \<Rightarrow> nat \<Rightarrow> api_error + jsval \<Rightarrow> sidebar \<Rightarrow> sidebar" where
  "answer env n r s =
     (if n < length (sb_inflight s)
      then (let rq = sb_inflight s ! n;
                s1 = s\<lparr>sb_inflight := take n (sb_inflight s) @ drop (Suc n) (sb_inflight s)\<rparr>
            in after_answer rq (case r of Inl _ \<Rightarrow> s1 | Inr data \<Rightarrow> apply_answer env rq data s1))
      else s)"

section \<open>Runs\<close>

datatype sb_event =
    SbSetActiveTags jsval
  | SbToggleActiveTag jsval
  | SbClearActiveTags
  | SbSetWidth int
  | SbWidthTimer
  | SbSetCollapsed bool
  | SbToggleCollapsed
  | SbSetActiveSessionId jsval
  | SbToggleGroup string
  | SbToggleScheduledGroup string
  | SbSetAllGroupsExpanded bool
  | SbUpdateSession jsval jsval
  | SbDismissRecentActivity jsval
  | SbTogglePinSession jsval
  | SbArchiveSession jsval
  | SbTogglePinWorkdir jsval
  | SbArchiveWorkdir jsval
  | SbFetchSessions
  | SbFetchMore jsval
  | SbReset
  | SbAnswer nat "api_error + jsval"

fun sidebar_step :: "js_env \<Rightarrow> sidebar \<Rightarrow> sb_event \<Rightarrow> sidebar" where
  "sidebar_step env s (SbSetActiveTags tags) = setActiveTags tags s"
| "sidebar_step env s (SbToggleActiveTag tag) = toggleActiveTag tag s"
| "sidebar_step env s SbClearActiveTags = clearActiveTags s"
| "sidebar_step env s (SbSetWidth w) = setWidth w s"
| "sidebar_step env s SbWidthTimer = width_timer s"
| "sidebar_step env s (SbSetCollapsed b) = setCollapsed b s"
| "sidebar_step env s SbToggleCollapsed = toggleCollapsed s"
| "sidebar_step env s (SbSetActiveSessionId i) = setActiveSessionId i s"
| "sidebar_step env s (SbToggleGroup cwd) = toggleGroup cwd s"
| "sidebar_step env s (SbToggleScheduledGroup cwd) = toggleScheduledGroup env cwd s"
| "sidebar_step env s (SbSetAllGroupsExpanded b) = setAllGroupsExpanded env b s"
| "sidebar_step env s (SbUpdateSession i data) = updateSession i data s"
| "sidebar_step env s (SbDismissRecentActivity i) = dismissRecentActivity i s"
| "sidebar_step env s (SbTogglePinSession i) = togglePinSession i s"
| "sidebar_step env s (SbArchiveSession i) = archiveSessionLocal i s"
| "sidebar_step env s (SbTogglePinWorkdir cwd) = togglePinWorkdir cwd s"
| "sidebar_step env s (SbArchiveWorkdir cwd) = archiveWorkdirLocal cwd s"
| "sidebar_step env s SbFetchSessions = fetchSessions s"
| "sidebar_step env s (SbFetchMore cwd) = fetchMoreInGroup cwd s"
| "sidebar_step env s SbReset = sb_reset env s"
| "sidebar_step env s (SbAnswer n r) = answer env n r s"

text \<open>
  What the store relies on: a patch of a session does not change its id, and the page of a directory
  lists a session once.
\<close>

definition page_distinct :: "jsval \<Rightarrow> bool" where
  "page_distinct data \<longleftrightarrow>
     distinct (map (\<lambda>s. jget s ''session_id'') (arr_of (jor (jget data ''sessions'') (JArr []))))"

fun sb_ok :: "sb_event \<Rightarrow> bool" where
  "sb_ok (SbUpdateSession i data) = (\<not> list_ex (\<lambda>(k, _). k = ''id'') (obj_of data))"
| "sb_ok (SbAnswer n (Inr data)) = page_distinct data"
| "sb_ok _ = True"

definition sb_initial :: "js_env \<Rightarrow> storage \<Rightarrow> sidebar" where
  "sb_initial env st =
     \<lparr>sb_width = getStoredWidth env st, sb_collapsed = getStoredCollapsed st, sb_sessions = [], sb_groups = [],
      sb_activeCwd = JNull, sb_recentActivities = [], sb_expandedCwds = dempty,
      sb_expandedScheduledCwds = getStoredScheduledGroups env st, sb_activeSessionId = JNull, sb_sessionsLoading = False,
      sb_groupLoadingCwd = JNull, sb_activeTags = [], sb_storage = st, sb_widthTimer = None, sb_inflight = []\<rparr>"

abbreviation session_ids :: "sidebar \<Rightarrow> jsval list" where
  "session_ids s \<equiv> map (\<lambda>x. jget x ''id'') (sb_sessions s)"

definition is_more :: "sb_request \<Rightarrow> bool" where
  "is_more rq = (case rq of RqMore _ _ \<Rightarrow> True | _ \<Rightarrow> False)"

definition tags_ok :: "string list \<Rightarrow> bool" where
  "tags_ok tags \<longleftrightarrow> distinct (map lower tags) \<and> [] \<notin> set tags"

definition sb_inv :: "sidebar \<Rightarrow> bool" where
  "sb_inv s \<longleftrightarrow> distinct (session_ids s) \<and> tags_ok (sb_activeTags s) \<and>
     (sb_sessionsLoading s \<longrightarrow> RqFetch \<in> set (sb_inflight s)) \<and>
     (truthy (sb_groupLoadingCwd s) \<longrightarrow> list_ex is_more (sb_inflight s))"

lemma mapped_in_id [simp]: "jget (mapped_in env cwd s) ''id'' = jget s ''session_id''"
  by (simp add: mapped_in_def mapSession_def Let_def)

lemma tags_ok_add: "tags_ok tags \<Longrightarrow> tags_ok (add_active_tag tags v)"
  by (auto simp: tags_ok_def add_active_tag_def Let_def)

lemma tags_ok_normalize: "tags_ok (normalizeActiveTags v)"
  unfolding normalizeActiveTags_def
  by (rule foldl_invariant [where P = tags_ok]) (simp_all add: tags_ok_add, simp add: tags_ok_def)

lemma distinct_lower_filter: "distinct (map lower tags) \<Longrightarrow> distinct (map lower (filter P tags))"
  by (induction tags) auto

lemma lower_Nil [simp]: "lower s = [] \<longleftrightarrow> s = []"
  by (simp add: lower_def)

lemma tags_ok_toggle: "tags_ok (sb_activeTags s) \<Longrightarrow> tags_ok (sb_activeTags (toggleActiveTag tag s))"
proof -
  assume ok: "tags_ok (sb_activeTags s)"
  let ?key = "lower (trim (to_str (jor tag (JStr []))))"
  show ?thesis
  proof (cases "?key = []")
    case True
    with ok show ?thesis by (simp add: toggleActiveTag_def)
  next
    case False
    then have "truthy tag" by (cases "truthy tag") (auto simp: jor_def)
    then have key: "?key = lower (trim (to_str tag))" by (simp add: jor_truthy)
    with False ok show ?thesis
      by (auto simp: toggleActiveTag_def Let_def tags_ok_def distinct_lower_filter list_ex_iff)
  qed
qed

definition flat_ok :: "jsval list \<times> jsval list \<Rightarrow> bool" where
  "flat_ok acc \<longleftrightarrow> map (\<lambda>x. jget x ''id'') (fst acc) = snd acc \<and> distinct (snd acc)"

lemma flat_ok_step: "flat_ok acc \<Longrightarrow> flat_ok (flat_step env cwd acc s)"
  by (auto simp: flat_ok_def flat_step_def split: prod.splits)

lemma flat_ok_group: "flat_ok acc \<Longrightarrow> flat_ok (foldl (flat_step env cwd) acc ss)"
  by (rule foldl_invariant [where P = flat_ok]) (simp_all add: flat_ok_step)

lemma flatten_distinct: "distinct (map (\<lambda>x. jget x ''id'') (flatten_groups env gs))"
proof -
  have "flat_ok (foldl (\<lambda>acc g. foldl (flat_step env (jget g ''cwd'')) acc (arr_of (jor (jget g ''sessions'') (JArr []))))
    ([], []) gs)"
    by (rule foldl_invariant [where P = flat_ok]) (simp add: flat_ok_def, rule flat_ok_group)
  then show ?thesis by (simp add: flatten_groups_def flat_ok_def)
qed

lemma distinct_ids_filter: "distinct (map f xs) \<Longrightarrow> distinct (map f (filter P xs))"
  by (induction xs) auto

lemma patch_ids: "(\<And>x. jget (f x) ''id'' = jget x ''id'') \<Longrightarrow> session_ids (patch_session i f s) = session_ids s"
  by (simp add: patch_session_def comp_def)

lemma more_distinct:
  assumes "distinct (session_ids s)" and "page_distinct data"
  shows "distinct (session_ids (fetched_more env cwd data s))"
  using assms unfolding fetched_more_def page_distinct_def Let_def
  by (auto simp: distinct_ids_filter comp_def) (metis image_eqI)

lemma apply_answer_frame:
  "sb_activeTags (apply_answer env rq data s) = sb_activeTags s"
  "sb_sessionsLoading (apply_answer env rq data s) = sb_sessionsLoading s"
  "sb_groupLoadingCwd (apply_answer env rq data s) = sb_groupLoadingCwd s"
  "sb_inflight (apply_answer env rq data s) = sb_inflight s"
  by (simp_all add: apply_answer_def dismissed_def pinned_session_def patch_session_def archived_session_def pinned_dir_def
      archived_dir_def fetched_sessions_def fetched_more_def Let_def split: sb_request.split)

lemma apply_answer_ids:
  assumes "distinct (session_ids s)" and "page_distinct data"
  shows "distinct (session_ids (apply_answer env rq data s))"
proof (cases rq)
  case (RqPin i pinned)
  then show ?thesis using assms(1) by (simp add: apply_answer_def pinned_session_def patch_ids)
next
  case (RqMore cwd n)
  then show ?thesis using more_distinct [OF assms] by (simp add: apply_answer_def)
qed (use assms in \<open>simp_all add: apply_answer_def dismissed_def archived_session_def pinned_dir_def archived_dir_def
  fetched_sessions_def flatten_distinct distinct_ids_filter Let_def\<close>)

lemma mem_remove_nth: "x \<in> set xs \<Longrightarrow> n < length xs \<Longrightarrow> x \<noteq> xs ! n \<Longrightarrow> x \<in> set (take n xs @ drop (Suc n) xs)"
  by (metis (no_types, lifting) Un_iff id_take_nth_drop insert_iff list.simps(15) set_append)

lemma sb_inv_answer:
  assumes inv: "sb_inv s" and ok: "sb_ok (SbAnswer n r)"
  shows "sb_inv (answer env n r s)"
proof (cases "n < length (sb_inflight s)")
  case False
  with inv show ?thesis by (simp add: answer_def)
next
  case True
  let ?rq = "sb_inflight s ! n" and ?rest = "take n (sb_inflight s) @ drop (Suc n) (sb_inflight s)"
  define s1 where "s1 = (case r of Inl _ \<Rightarrow> s\<lparr>sb_inflight := ?rest\<rparr> | Inr data \<Rightarrow> apply_answer env ?rq data (s\<lparr>sb_inflight := ?rest\<rparr>))"
  have a: "answer env n r s = after_answer ?rq s1" using True by (simp add: answer_def s1_def Let_def)
  have ids: "distinct (session_ids s1)"
    using inv ok by (cases r) (auto simp: s1_def sb_inv_def intro: apply_answer_ids)
  have fr: "sb_activeTags s1 = sb_activeTags s" "sb_sessionsLoading s1 = sb_sessionsLoading s"
    "sb_groupLoadingCwd s1 = sb_groupLoadingCwd s" "sb_inflight s1 = ?rest"
    by (simp_all add: s1_def apply_answer_frame split: sum.split)
  have fetch: "RqFetch \<in> set ?rest" if "sb_sessionsLoading s" "?rq \<noteq> RqFetch"
    using inv that mem_remove_nth [OF _ True, of RqFetch] by (auto simp: sb_inv_def)
  have more: "list_ex is_more ?rest" if "truthy (sb_groupLoadingCwd s)" "\<not> is_more ?rq"
  proof -
    from inv that obtain x where "x \<in> set (sb_inflight s)" "is_more x" by (auto simp: sb_inv_def list_ex_iff)
    with that mem_remove_nth [OF _ True, of x] show ?thesis by (auto simp: list_ex_iff)
  qed
  show ?thesis
    using inv ids fr fetch more unfolding a
    by (cases ?rq) (simp_all add: sb_inv_def after_answer_def is_more_def)
qed

lemma toggleActiveTag_frame:
  "sb_sessions (toggleActiveTag tag s) = sb_sessions s" "sb_sessionsLoading (toggleActiveTag tag s) = sb_sessionsLoading s"
  "sb_groupLoadingCwd (toggleActiveTag tag s) = sb_groupLoadingCwd s" "sb_inflight (toggleActiveTag tag s) = sb_inflight s"
  by (simp_all add: toggleActiveTag_def Let_def)

lemma jspread_keeps: "\<not> list_ex (\<lambda>(k, _). k = key) (obj_of data) \<Longrightarrow> jget (jspread o' data) key = jget o' key"
  unfolding jspread_def by (rule jget_jput_other) (auto simp: list_ex_iff)

lemma sb_inv_update: "sb_inv s \<Longrightarrow> sb_ok (SbUpdateSession i data) \<Longrightarrow> sb_inv (updateSession i data s)"
  using patch_ids [of "\<lambda>x. jspread x data" i s] jspread_keeps [of "''id''" data]
  by (simp add: sb_inv_def updateSession_def) (simp add: patch_session_def)

lemmas sb_sync_defs = setActiveTags_def clearActiveTags_def setWidth_def width_timer_def toggleCollapsed_def
  setCollapsed_def setActiveSessionId_def toggleGroup_def toggleScheduledGroup_def setAllGroupsExpanded_def
  persistScheduledGroups_def sb_reset_def

lemmas sb_async_defs = ask_def dismissRecentActivity_def togglePinSession_def archiveSessionLocal_def togglePinWorkdir_def
  archiveWorkdirLocal_def fetchSessions_def fetchMoreInGroup_def

lemma sb_inv_step:
  assumes "sb_inv s" and "sb_ok e"
  shows "sb_inv (sidebar_step env s e)"
proof (cases e)
  case (SbAnswer n r)
  with assms sb_inv_answer show ?thesis by simp
next
  case (SbToggleActiveTag tag)
  with assms(1) show ?thesis by (simp add: sb_inv_def toggleActiveTag_frame tags_ok_toggle)
next
  case (SbUpdateSession i data)
  with assms sb_inv_update show ?thesis by simp
qed (use assms(1) in \<open>auto simp: sb_inv_def sb_sync_defs sb_async_defs Let_def tags_ok_normalize is_more_def
  split: option.split\<close>, simp_all add: tags_ok_def)

interpretation sidebars: machine "sb_initial env st" "sidebar_step env" "\<lambda>_. sb_ok" sb_inv
  by unfold_locales (simp add: sb_inv_def sb_initial_def tags_ok_def, rule sb_inv_step)

lemma sb_run_inv: "list_all sb_ok es \<Longrightarrow> sb_inv (foldl (sidebar_step env) (sb_initial env st) es)"
  using sidebars.run_inv [of env st es] sidebars.all_ok_run [of es]
  by (simp add: sidebars.run_foldl list_all_iff)

text \<open>C24. The sidebar lists a session once: after any sequence of its operations and of answers to its
  requests, in whatever order the answers come and whether they fail or not, the ids of the loaded
  sessions are pairwise different; and the tag filter holds no blank and no two tags that differ only
  in case.\<close>

theorem sidebar_invariant:
  assumes "list_all sb_ok es" and "s = foldl (sidebar_step env) (sb_initial env st) es"
  shows "distinct (session_ids s) \<and> distinct (map lower (sb_activeTags s)) \<and> [] \<notin> set (sb_activeTags s)"
  using sb_run_inv [OF assms(1), of env st] assms(2) by (simp add: sb_inv_def tags_ok_def)

definition demo_page :: jsval where
  "demo_page = JObj [(''groups'', JArr [JObj [(''cwd'', JStr ''/w''), (''total'', JNum 1),
     (''sessions'', JArr [JObj [(''session_id'', JStr ''a'')]])]]),
     (''sessions'', JArr [JObj [(''session_id'', JStr ''a'')], JObj [(''session_id'', JStr ''b'')]])]"

definition demo_sb_events :: "sb_event list" where
  "demo_sb_events = [SbFetchSessions, SbFetchMore (JStr ''/w''), SbAnswer 0 (Inr demo_page), SbAnswer 0 (Inr demo_page)]"

definition demo_storage :: storage where
  "demo_storage = \<lparr>st_blocked = False, st_full = False, st_items = dempty\<rparr>"

lemma demo_sb_ok: "list_all sb_ok demo_sb_events"
  by (simp add: demo_sb_events_def page_distinct_def demo_page_def jor_def)

theorem sidebar_invariant_witness:
  "session_ids (foldl (sidebar_step (demo_env 0)) (sb_initial (demo_env 0) demo_storage) demo_sb_events) = [JStr ''a'', JStr ''b''] \<and>
   distinct (session_ids (foldl (sidebar_step (demo_env 0)) (sb_initial (demo_env 0) demo_storage) demo_sb_events))"
  using sidebar_invariant [OF demo_sb_ok refl, of "demo_env 0" demo_storage] by code_simp

section \<open>Loading ends\<close>

lemma answer_inflight: "sb_inflight (answer env 0 r s) = tl (sb_inflight s)"
  by (cases "sb_inflight s")
    (auto simp: answer_def after_answer_def Let_def apply_answer_frame split: sum.split sb_request.split)

lemma answer_all_inflight: "sb_inflight (foldl (\<lambda>s r. answer env 0 r s) s rs) = drop (length rs) (sb_inflight s)"
  by (induction rs arbitrary: s) (simp_all add: answer_inflight drop_Suc)

lemma answer_all_inv:
  "sb_inv s \<Longrightarrow> list_all (\<lambda>r. sb_ok (SbAnswer 0 r)) rs \<Longrightarrow> sb_inv (foldl (\<lambda>s r. answer env 0 r s) s rs)"
  by (induction rs arbitrary: s) (auto intro: sb_inv_answer)

text \<open>C25. No spinner is left: whatever the user did, once every outstanding request has been answered,
  with success or with an error, the sidebar neither shows that sessions are loading nor blocks the
  loading of further pages.\<close>

theorem sidebar_loading_ends:
  assumes "list_all sb_ok es" and "s = foldl (sidebar_step env) (sb_initial env st) es"
    and "length rs = length (sb_inflight s)" and "list_all (\<lambda>r. sb_ok (SbAnswer 0 r)) rs"
  shows "\<not> sb_sessionsLoading (foldl (\<lambda>s r. answer env 0 r s) s rs) \<and>
    \<not> truthy (sb_groupLoadingCwd (foldl (\<lambda>s r. answer env 0 r s) s rs))"
  using answer_all_inv [OF sb_run_inv [OF assms(1), of env st] assms(4), of env] answer_all_inflight [of env s rs] assms(2,3)
  by (simp add: sb_inv_def)

theorem sidebar_loading_ends_witness:
  "\<not> sb_sessionsLoading (answer (demo_env 0) 0 (Inl NetworkError)
       (foldl (sidebar_step (demo_env 0)) (sb_initial (demo_env 0) demo_storage) [SbFetchSessions]))"
  using sidebar_loading_ends [of "[SbFetchSessions]" _ "demo_env 0" demo_storage "[Inl NetworkError]"]
  by (simp add: fetchSessions_def ask_def sb_initial_def)

section \<open>What an answer changes\<close>

lemma failed_answer:
  "sb_sessions (answer env n (Inl e) s) = sb_sessions s" "sb_groups (answer env n (Inl e) s) = sb_groups s"
  "sb_recentActivities (answer env n (Inl e) s) = sb_recentActivities s"
  "sb_expandedCwds (answer env n (Inl e) s) = sb_expandedCwds s"
  by (simp_all add: answer_def after_answer_def Let_def split: sb_request.split)

lemma get_expand_fold:
  "g \<in> set gs \<Longrightarrow> dget old (to_str (gr_cwd g)) = Some b \<Longrightarrow>
   dget (foldl (expand_step activeCwd old) d gs) (to_str (gr_cwd g)) = Some b"
  by (induction gs rule: rev_induct) (auto simp: expand_step_def Let_def)

text \<open>Reloading the list keeps what the user did to it: a directory whose group was open or closed
  before, and that is still listed, is so afterwards, whatever the server names as the active one.\<close>

theorem reload_keeps_expansion:
  assumes "g \<in> set (sb_groups (fetched_sessions env data s))" and "dget (sb_expandedCwds s) (to_str (gr_cwd g)) = Some b"
  shows "dget (sb_expandedCwds (fetched_sessions env data s)) (to_str (gr_cwd g)) = Some b"
proof -
  have "dget (sb_expandedCwds (fetched_sessions env data s)) (to_str (gr_cwd g)) =
      dget (foldl (expand_step (sb_activeCwd (fetched_sessions env data s)) (sb_expandedCwds s)) dempty
        (sb_groups (fetched_sessions env data s))) (to_str (gr_cwd g))"
    by (simp add: fetched_sessions_def Let_def)
  with get_expand_fold [OF assms] show ?thesis by simp
qed

theorem reload_keeps_expansion_witness:
  "dget (sb_expandedCwds (fetched_sessions (demo_env 0) demo_page (toggleGroup ''/w'' (sb_initial (demo_env 0) demo_storage))))
     ''/w'' = Some True"
  using reload_keeps_expansion [of "\<lparr>gr_cwd = JStr ''/w'', gr_total = JNum 1, gr_pinned = JBool False\<rparr>" "demo_env 0" demo_page
    "toggleGroup ''/w'' (sb_initial (demo_env 0) demo_storage)" True]
  by (simp add: fetched_sessions_def demo_page_def jor_def Let_def toggleGroup_def sb_initial_def is_open_def)

end
