(* ===== verification/SessionOpen.thy ===== *)
theory SessionOpen
  imports Settings Sidebar StreamRun
begin

text \<open>
  Opening and switching sessions (\<^verbatim>\<open>web/user/src/session/openSession.js\<close>), the recap of a session
  (\<^verbatim>\<open>web/user/src/utils/sessionRecap.js\<close>) and the state a session publishes to other panes
  (\<^verbatim>\<open>web/user/src/utils/sessionSnapshot.js\<close>).

  The record \<open>client_app\<close> composes the stores: the registry's runtimes own slices by reference, and the
  slices of one kind are a function of the reference. A cold open is two steps, the call that sends a
  request and the answer, which may come after any other operation; a request keeps what the closure
  of \<^verbatim>\<open>openSession\<close> captured. Every store sees its own keys of the browser's storage. The text
  catalogue \<open>t\<close> is a parameter.
\<close>

section \<open>State\<close>

record open_request =
  oq_token :: nat
  oq_sessionId :: string
  oq_rowId :: jsval
  oq_responseModel :: jsval
  oq_target :: jsval
  oq_forkParentId :: jsval
  oq_navigate :: bool

text \<open>A poll for a recap, between two requests (\<open>Sleeping\<close>) or waiting for an answer.\<close>

datatype recap_phase = Sleeping int | Asking

record recap_poll =
  rp_sessionId :: string
  rp_slice :: nat
  rp_generation :: nat
  rp_knownTurns :: int
  rp_phase :: recap_phase
  rp_delays :: "int list"

record client_app =
  a_reg :: registry
  a_chat :: "nat \<Rightarrow> chat"
  a_tasks :: "nat \<Rightarrow> task_store"
  a_ops :: "nat \<Rightarrow> file_ops"
  a_fb :: "nat \<Rightarrow> file_browser"
  a_wf :: "nat \<Rightarrow> workflow_store"
  a_storage :: storage
  a_cid :: nat
  a_replayCid :: nat
  a_lastResponseModel :: "nat \<Rightarrow> jsval"
  a_ui :: ui_store
  a_navTab :: string
  a_settings :: settings
  a_sidebar :: sidebar
  a_status :: status_store
  a_toasts :: timed_toasts
  a_selectToken :: nat
  a_opens :: "open_request list"
  a_generations :: "(string, nat) dict"
  a_polls :: "recap_poll list"

definition slice_names :: "string list" where
  "slice_names = [''chat'', ''tasks'', ''fileOps'', ''fileBrowser'', ''workflow'']"

text \<open>The factories of the five store modules.\<close>

definition fresh_slice :: "string \<Rightarrow> nat \<Rightarrow> client_app \<Rightarrow> client_app" where
  "fresh_slice name r a =
     (if name = ''chat'' then a\<lparr>a_chat := (a_chat a)(r := createChatStore)\<rparr>
      else if name = ''tasks'' then a\<lparr>a_tasks := (a_tasks a)(r := createTaskStore)\<rparr>
      else if name = ''fileOps'' then a\<lparr>a_ops := (a_ops a)(r := createFileOpsStore)\<rparr>
      else if name = ''fileBrowser'' then a\<lparr>a_fb := (a_fb a)(r := createFileBrowserStore)\<rparr>
      else if name = ''workflow'' then a\<lparr>a_wf := (a_wf a)(r := createWorkflowStore)\<rparr>
      else a)"

text \<open>
  \<^verbatim>\<open>getSlice\<close>. All five factories are registered when the modules load, so it does not throw (lemma
  \<open>slice_available\<close>).
\<close>

definition slice_of :: "int \<Rightarrow> string \<Rightarrow> string \<Rightarrow> client_app \<Rightarrow> nat \<times> client_app" where
  "slice_of now key name a =
     (case getSlice now key name (a_reg a) of
        (Inr r, g) \<Rightarrow> (r, (if rg_slices g = rg_slices (a_reg a) then a else fresh_slice name r a)\<lparr>a_reg := g\<rparr>)
      | (Inl e, g) \<Rightarrow> (0, a\<lparr>a_reg := g\<rparr>))"

definition ensure_runtime :: "int \<Rightarrow> string \<Rightarrow> client_app \<Rightarrow> nat \<times> client_app" where
  "ensure_runtime now key a =
     (let (r, g) = ensureRuntime now key (a_reg a)
      in (r, a\<lparr>a_reg := g,
            a_lastResponseModel := (if hasRuntime (a_reg a) key then a_lastResponseModel a
                                    else (a_lastResponseModel a)(r := JUndef))\<rparr>))"

definition set_runtime :: "nat \<Rightarrow> (runtime \<Rightarrow> runtime) \<Rightarrow> client_app \<Rightarrow> client_app" where
  "set_runtime r f a = a\<lparr>a_reg := put_obj r (f (rg_objs (a_reg a) ! r)) (a_reg a)\<rparr>"

definition chat_view_of :: "client_app \<Rightarrow> nat \<Rightarrow> chat_view" where
  "chat_view_of a r =
     (let c = a_chat a r
      in \<lparr>cv_isStreaming = truthy (c_isStreaming c), cv_pendingPermission = truthy (c_pendingPermission c),
          cv_pendingAskUser = truthy (c_pendingAskUser c), cv_pendingPlanApproval = truthy (c_pendingPlanApproval c),
          cv_permissionQueue = length (c_permissionQueue c)\<rparr>)"

definition evict :: "client_app \<Rightarrow> client_app" where
  "evict a = a\<lparr>a_reg := evictIfNeeded RETAINED_RUNTIME_CAP (chat_view_of a) (a_reg a)\<rparr>"

section \<open>The interface of a session\<close>

definition pickUiSnapshot :: "ui_store \<Rightarrow> jsval" where
  "pickUiSnapshot s =
     JObj [(''canvasVisible'', ui_canvasVisible s), (''sessionSummaryOpen'', ui_sessionSummaryOpen s),
       (''canvasMinimized'', ui_canvasMinimized s), (''activeCanvasTab'', ui_activeCanvasTab s),
       (''canvasOpenTabs'', JArr (ui_canvasOpenTabs s)), (''planContent'', ui_planContent s),
       (''planFilePath'', ui_planFilePath s)]"

definition snapshotActiveUi :: "client_app \<Rightarrow> client_app" where
  "snapshotActiveUi a =
     (case getRuntime (a_reg a) (rg_activeKey (a_reg a)) of
        Some r \<Rightarrow> set_runtime r (\<lambda>rt. rt\<lparr>rt_ui := pickUiSnapshot (a_ui a)\<rparr>) a
      | None \<Rightarrow> a)"

definition set_ui_fields :: "jsval \<Rightarrow> ui_store \<Rightarrow> ui_store" where
  "set_ui_fields next s =
     s\<lparr>ui_canvasVisible := jget next ''canvasVisible'', ui_sessionSummaryOpen := jget next ''sessionSummaryOpen'',
       ui_canvasMinimized := jget next ''canvasMinimized'', ui_activeCanvasTab := jget next ''activeCanvasTab'',
       ui_canvasOpenTabs := arr_of (jget next ''canvasOpenTabs''), ui_planContent := jget next ''planContent'',
       ui_planFilePath := jget next ''planFilePath''\<rparr>"

definition show_active_tab :: "jsval \<Rightarrow> ui_store \<Rightarrow> ui_store" where
  "show_active_tab next s =
     (if truthy (jget next ''canvasVisible'') \<and> jget next ''activeCanvasTab'' \<noteq> JStr ''menu''
      then setActiveCanvasTab (jget next ''activeCanvasTab'') s else s)"

definition applyUiSnapshot :: "jsval \<Rightarrow> ui_store \<Rightarrow> ui_store" where
  "applyUiSnapshot ui s =
     (let next = jspread DEFAULT_UI_SNAPSHOT (jor ui (JObj [])) in show_active_tab next (set_ui_fields next s))"

definition sub_val :: "(string, jsval list) dict \<Rightarrow> jsval" where
  "sub_val m = JObj (map (\<lambda>(k, bs). (k, JArr bs)) m)"

definition initialUiFor :: "transcript \<Rightarrow> jsval" where
  "initialUiFor ts =
     (if hasSessionSummaryActivity (ts_fileBrowserTabs ts) (ts_fileOps ts) (ts_messages ts) (sub_val (ts_subagents ts))
      then JObj [(''sessionSummaryOpen'', JBool True)]
      else if hasCanvasInspectorItems (ts_messages ts) (ts_tracker ts) then JStr ''tasks''
      else JNull)"

definition initial_snapshot :: "jsval \<Rightarrow> jsval" where
  "initial_snapshot ui =
     (if is_str ui
      then JObj [(''canvasVisible'', JBool True), (''activeCanvasTab'', ui), (''canvasOpenTabs'', JArr [ui])]
      else ui)"

section \<open>The recap\<close>

definition ATTEMPT_DELAYS_MS :: "int list" where
  "ATTEMPT_DELAYS_MS = [0, 3000, 8000]"

definition generation_of :: "string \<Rightarrow> client_app \<Rightarrow> nat option" where
  "generation_of sid a = dget (a_generations a) sid"

text \<open>The call; the first delay is zero, so the first request is sent at once.\<close>

definition refreshSessionRecap :: "string \<Rightarrow> nat \<Rightarrow> int \<Rightarrow> bool \<Rightarrow> client_app \<Rightarrow> client_app" where
  "refreshSessionRecap sid chatRef knownTurns poll a =
     (if sid = [] then a
      else (let generation = (case generation_of sid a of Some n \<Rightarrow> n | None \<Rightarrow> 0) + 1
            in a\<lparr>a_generations := dset sid generation (a_generations a),
                 a_polls := a_polls a @ [\<lparr>rp_sessionId = sid, rp_slice = chatRef, rp_generation = generation,
                   rp_knownTurns = knownTurns, rp_phase = Asking,
                   rp_delays = (if poll then tl ATTEMPT_DELAYS_MS else [])\<rparr>]\<rparr>))"

definition current :: "recap_poll \<Rightarrow> client_app \<Rightarrow> bool" where
  "current p a \<longleftrightarrow> generation_of (rp_sessionId p) a = Some (rp_generation p)"

definition drop_nth :: "nat \<Rightarrow> 'a list \<Rightarrow> 'a list" where
  "drop_nth i xs = take i xs @ drop (Suc i) xs"

text \<open>The sleep of poll \<open>i\<close> is over.\<close>

definition recap_wake :: "nat \<Rightarrow> client_app \<Rightarrow> client_app" where
  "recap_wake i a =
     (if i < length (a_polls a)
      then (let p = a_polls a ! i
            in case rp_phase p of
                 Asking \<Rightarrow> a
               | Sleeping d \<Rightarrow>
                   if current p a then a\<lparr>a_polls := (a_polls a)[i := p\<lparr>rp_phase := Asking\<rparr>]\<rparr>
                   else a\<lparr>a_polls := drop_nth i (a_polls a)\<rparr>)
      else a)"

definition recap_done :: "nat \<Rightarrow> recap_poll \<Rightarrow> client_app \<Rightarrow> client_app" where
  "recap_done i p a = a\<lparr>a_polls := drop_nth i (a_polls a), a_generations := ddel (rp_sessionId p) (a_generations a)\<rparr>"

definition recap_turns :: "jsval \<Rightarrow> int" where
  "recap_turns data = (case jor (jget data ''turns'') (JNum 0) of JNum n \<Rightarrow> n | _ \<Rightarrow> 0)"

definition recap_next :: "nat \<Rightarrow> recap_poll \<Rightarrow> client_app \<Rightarrow> client_app" where
  "recap_next i p a =
     (case rp_delays p of
        [] \<Rightarrow> recap_done i p a
      | d # ds \<Rightarrow> a\<lparr>a_polls := (a_polls a)[i := p\<lparr>rp_phase := Sleeping d, rp_delays := ds\<rparr>]\<rparr>)"

text \<open>The answer to the request of poll \<open>i\<close>; \<open>None\<close> is a failed request.\<close>

definition recap_answer :: "nat \<Rightarrow> jsval option \<Rightarrow> client_app \<Rightarrow> client_app" where
  "recap_answer i response a =
     (if i < length (a_polls a) \<and> rp_phase (a_polls a ! i) = Asking
      then (let p = a_polls a ! i
            in case response of
                 None \<Rightarrow> a\<lparr>a_polls := drop_nth i (a_polls a)\<rparr>
               | Some data \<Rightarrow>
                   if \<not> current p a then a\<lparr>a_polls := drop_nth i (a_polls a)\<rparr>
                   else if truthy (jget data ''recap'')
                   then (let a1 = a\<lparr>a_chat := (a_chat a)(rp_slice p :=
                                     setRecap (jget data ''recap'') (recap_turns data) (a_chat a (rp_slice p)))\<rparr>
                         in if recap_turns data > rp_knownTurns p then recap_done i p a1 else recap_next i p a1)
                   else recap_next i p a)
      else a)"

section \<open>Loading a session into its runtime\<close>

text \<open>
  The part that \<^verbatim>\<open>openSession\<close> and \<^verbatim>\<open>hydrateRuntime\<close> share. \<^verbatim>\<open>clearTasks\<close> and \<^verbatim>\<open>loadSession\<close> clear the
  sibling workflow slice, which they look up under the runtime's present key.
\<close>

definition load_slices :: "js_env \<Rightarrow> string \<Rightarrow> jsval \<Rightarrow> jsval \<Rightarrow> jsval \<Rightarrow> transcript \<Rightarrow> client_app \<Rightarrow> nat \<times> client_app" where
  "load_slices env sid parentId addDirs runMode ts a0 =
     (let now = env_now env;
          (chat, a1) = slice_of now sid ''chat'' a0;
          (taskSlice, a2) = slice_of now sid ''tasks'' a1;
          (fileOpsSlice, a3) = slice_of now sid ''fileOps'' a2;
          (fileBrowserSlice, a4) = slice_of now sid ''fileBrowser'' a3;
          (workflow, a5) = slice_of now sid ''workflow'' a4;
          (tasks, wf) = clearTasks (a_tasks a5 taskSlice, a_wf a5 workflow);
          w = loadSession env (JStr sid) (ts_messages ts) parentId (ts_subagents ts) addDirs runMode
                \<lparr>w_chat = a_chat a5 chat, w_storage = a_storage a5, w_cid = a_cid a5\<rparr>
      in (chat,
          a5\<lparr>a_chat := (a_chat a5)(chat := w_chat w), a_storage := w_storage w, a_cid := w_cid w,
             a_wf := (a_wf a5)(workflow := ws_clear wf),
             a_ops := (a_ops a5)(fileOpsSlice := foldl (\<lambda>s op. addFileOp op s) (clearFileOps (a_ops a5 fileOpsSlice)) (ts_fileOps ts)),
             a_fb := (a_fb a5)(fileBrowserSlice := setTabs now (JArr (ts_fileBrowserTabs ts)) (a_fb a5 fileBrowserSlice)),
             a_tasks := (a_tasks a5)(taskSlice :=
               hydrateSdkTaskTracker (Some (ts_tracker ts)) (foldl (\<lambda>s task. addTask task s) tasks (ts_tasks ts)))\<rparr>))"

definition transform_rows :: "js_env \<Rightarrow> jsval list \<Rightarrow> client_app \<Rightarrow> transcript \<times> client_app" where
  "transform_rows env rows a =
     (let (ts, c) = transformSessionMessages env (a_replayCid a) rows in (ts, a\<lparr>a_replayCid := c\<rparr>))"

section \<open>Opening a session\<close>

definition target_row :: "jsval \<Rightarrow> jsval" where
  "target_row target = (if truthy target \<and> is_object target then target else JNull)"

definition raw_session_id :: "jsval \<Rightarrow> jsval" where
  "raw_session_id target = (if truthy (target_row target) then row_session target else target)"

definition known_row :: "jsval \<Rightarrow> client_app \<Rightarrow> jsval" where
  "known_row raw a =
     (case List.find (\<lambda>item. jeq (row_session item) raw) (sb_sessions (a_sidebar a)) of Some row \<Rightarrow> row | None \<Rightarrow> JUndef)"

definition has_row_model :: "jsval \<Rightarrow> client_app \<Rightarrow> bool" where
  "has_row_model target a \<longleftrightarrow>
     has_own (target_row target) ''lastResponseModel'' \<or> has_own (known_row (raw_session_id target) a) ''lastResponseModel''"

definition row_response_model :: "jsval \<Rightarrow> client_app \<Rightarrow> jsval" where
  "row_response_model target a =
     (if has_own (target_row target) ''lastResponseModel'' then jget target ''lastResponseModel''
      else if has_own (known_row (raw_session_id target) a) ''lastResponseModel''
      then jget (known_row (raw_session_id target) a) ''lastResponseModel'' else JNull)"

definition activate_model :: "string \<Rightarrow> jsval \<Rightarrow> client_app \<Rightarrow> client_app" where
  "activate_model key model a = a\<lparr>a_settings := activateSessionModel (Some key) model False (a_settings a)\<rparr>"

definition show_row :: "js_env \<Rightarrow> string \<Rightarrow> jsval \<Rightarrow> client_app \<Rightarrow> client_app" where
  "show_row env sid rowId a =
     a\<lparr>a_sidebar := setActiveSessionId rowId (a_sidebar a), a_status := markSeen env sid (a_status a)\<rparr>"

definition reopen_active :: "js_env \<Rightarrow> string \<Rightarrow> jsval \<Rightarrow> bool \<Rightarrow> jsval \<Rightarrow> client_app \<Rightarrow> client_app" where
  "reopen_active env sid rowId hasModel model a =
     show_row env sid rowId
       (case getRuntime (a_reg a) sid of
          Some r \<Rightarrow> if \<not> hasModel \<and> a_lastResponseModel a r \<noteq> JUndef then activate_model sid (a_lastResponseModel a r) a
                   else activate_model sid model a
        | None \<Rightarrow> activate_model sid model a)"

definition switch_to :: "js_env \<Rightarrow> string \<Rightarrow> nat \<Rightarrow> jsval \<Rightarrow> bool \<Rightarrow> jsval \<Rightarrow> client_app \<Rightarrow> client_app" where
  "switch_to env sid r rowId hasModel model a =
     (let a1 = set_runtime r (\<lambda>rt. rt\<lparr>rt_sidebarRowId := rowId\<rparr>) (snapshotActiveUi a);
          a2 = (if hasModel \<or> a_lastResponseModel a1 r = JUndef
                then a1\<lparr>a_lastResponseModel := (a_lastResponseModel a1)(r := model)\<rparr> else a1);
          a3 = activate_model sid (a_lastResponseModel a2 r) (a2\<lparr>a_reg := setActiveKey (env_now env) sid (a_reg a2)\<rparr>)
      in show_row env sid rowId (a3\<lparr>a_ui := applyUiSnapshot (rt_ui (rg_objs (a_reg a3) ! r)) (a_ui a3)\<rparr>))"

text \<open>The result is \<open>None\<close> while the promise is pending.\<close>

definition openSession :: "js_env \<Rightarrow> jsval \<Rightarrow> jsval \<Rightarrow> bool \<Rightarrow> client_app \<Rightarrow> bool option \<times> client_app" where
  "openSession env target forkParentId navigate a0 =
     (let raw = raw_session_id target
      in if \<not> truthy raw then (Some False, a0)
         else (let sid = resolveKey (a_reg a0) (to_str raw);
                   rowId = (if truthy (target_row target) then jget target ''id'' else raw);
                   hasModel = has_row_model target a0; model = row_response_model target a0;
                   a = (if navigate then a0\<lparr>a_navTab := ''priva''\<rparr> else a0)
               in if sid = rg_activeKey (a_reg a) then (Some True, reopen_active env sid rowId hasModel model a)
                  else (case getRuntime (a_reg a) sid of
                          Some r \<Rightarrow> (Some True, switch_to env sid r rowId hasModel model a)
                        | None \<Rightarrow>
                            (let token = Suc (a_selectToken a)
                             in (None, a\<lparr>a_selectToken := token,
                                  a_opens := a_opens a @ [\<lparr>oq_token = token, oq_sessionId = sid, oq_rowId = rowId,
                                    oq_responseModel = model, oq_target = target, oq_forkParentId = forkParentId,
                                    oq_navigate = navigate\<rparr>]\<rparr>)))))"

definition show_opened :: "js_env \<Rightarrow> open_request \<Rightarrow> nat \<Rightarrow> transcript \<Rightarrow> client_app \<Rightarrow> client_app" where
  "show_opened env q r ts a =
     (let sid = oq_sessionId q; a1 = snapshotActiveUi a;
          a2 = activate_model sid (a_lastResponseModel a1 r) (a1\<lparr>a_reg := setActiveKey (env_now env) sid (a_reg a1)\<rparr>)
      in evict (show_row env sid (oq_rowId q)
           (a2\<lparr>a_ui := applyUiSnapshot (initial_snapshot (initialUiFor ts)) (a_ui a2)\<rparr>)))"

definition opened :: "js_env \<Rightarrow> open_request \<Rightarrow> jsval \<Rightarrow> client_app \<Rightarrow> bool \<times> client_app" where
  "opened env q data a =
     (if oq_token q \<noteq> a_selectToken a then (False, a)
      else (let sid = oq_sessionId q;
                (ts, a1) = transform_rows env (arr_of (jor (jget data ''messages'') (JArr []))) a;
                (r, a2) = ensure_runtime (env_now env) sid a1;
                a3 = set_runtime r (\<lambda>rt. rt\<lparr>rt_sidebarRowId := oq_rowId q\<rparr>) a2;
                a4 = a3\<lparr>a_lastResponseModel := (a_lastResponseModel a3)(r := oq_responseModel q)\<rparr>;
                (chat, a5) = load_slices env sid (oq_forkParentId q) (jor (jget data ''add_dirs'') (JArr []))
                               (jget data ''run_mode'') ts a4
            in (True, show_opened env q r ts (refreshSessionRecap sid chat 0 False a5))))"

definition retry_action :: "(string \<Rightarrow> string) \<Rightarrow> open_request \<Rightarrow> jsval" where
  "retry_action t q =
     JObj [(''label'', JStr (t ''sidebar.loadFailedRetry'')),
       (''onClick'', JArr [oq_target q, oq_forkParentId q, JBool (oq_navigate q)])]"

text \<open>The retry of the notice calls \<^verbatim>\<open>openSession\<close> again; it is kept as the arguments of that call.\<close>

definition open_failed :: "(string \<Rightarrow> string) \<Rightarrow> int \<Rightarrow> open_request \<Rightarrow> api_error \<Rightarrow> client_app \<Rightarrow> client_app" where
  "open_failed t now q e a =
     (case e of
        UnauthorizedError m \<Rightarrow> a
      | _ \<Rightarrow> a\<lparr>a_toasts := push_timed now \<lparr>tq_id = None, tq_level = Some ''error'',
               tq_title = t ''sidebar.loadFailedTitle'', tq_body = Some (err_message e),
               tq_action = retry_action t q, tq_dismissAfterMs = None\<rparr> (a_toasts a)\<rparr>)"

datatype open_answer = Loaded jsval | LoadFailed api_error

text \<open>The answer to the \<open>i\<close>-th request that is under way.\<close>

definition open_answered :: "(string \<Rightarrow> string) \<Rightarrow> js_env \<Rightarrow> nat \<Rightarrow> open_answer \<Rightarrow> client_app \<Rightarrow> client_app" where
  "open_answered t env i response a =
     (if i < length (a_opens a)
      then (let q = a_opens a ! i; a1 = a\<lparr>a_opens := drop_nth i (a_opens a)\<rparr>
            in case response of
                 Loaded data \<Rightarrow> snd (opened env q data a1)
               | LoadFailed e \<Rightarrow> open_failed t (env_now env) q e a1)
      else a)"

definition newDraftSession :: "js_env \<Rightarrow> jsval \<Rightarrow> jsval \<Rightarrow> client_app \<Rightarrow> string \<times> client_app" where
  "newDraftSession env cwd pendingComposerSend a =
     (let now = env_now env; a1 = snapshotActiveUi a;
          (key, g) = newDraftRuntime now (a_reg a1);
          a2 = activate_model key JNull (a1\<lparr>a_reg := g,
                 a_lastResponseModel := (a_lastResponseModel a1)(length (rg_objs (a_reg a1)) := JUndef)\<rparr>);
          a3 = a2\<lparr>a_ui := applyUiSnapshot JNull (a_ui a2), a_sidebar := setActiveSessionId JNull (a_sidebar a2)\<rparr>;
          (chat, a4) = slice_of now key ''chat'' a3;
          c1 = (if truthy cwd then setCwdDraft cwd (a_chat a4 chat) else a_chat a4 chat);
          c2 = (if truthy pendingComposerSend then set_field F_pendingComposerSend pendingComposerSend c1 else c1)
      in (key, evict (a4\<lparr>a_chat := (a_chat a4)(chat := c2)\<rparr>)))"

section \<open>The runtimes own their slices\<close>

text \<open>
  Every slice has one owner: a runtime object and a name. So the state of a session, the contents of
  the slices its runtime holds, can only change through that runtime.
\<close>

definition slices_ok :: "registry \<Rightarrow> bool" where
  "slices_ok g \<longleftrightarrow>
     (\<forall>r < length (rg_objs g). \<forall>n s. dget (rt_slices (rg_objs g ! r)) n = Some s \<longrightarrow> s < rg_slices g
        \<and> (\<forall>r' < length (rg_objs g). \<forall>n'. dget (rt_slices (rg_objs g ! r')) n' = Some s \<longrightarrow> r' = r \<and> n' = n))"

definition app_ok :: "client_app \<Rightarrow> bool" where
  "app_ok a \<longleftrightarrow> rg_inv (a_reg a) \<and> slices_ok (a_reg a) \<and> set slice_names \<subseteq> set (rg_factories (a_reg a))"

record session_state =
  st_chat :: "chat option"
  st_tasks :: "task_store option"
  st_ops :: "file_ops option"
  st_fb :: "file_browser option"
  st_wf :: "workflow_store option"

definition owned :: "client_app \<Rightarrow> nat \<Rightarrow> string \<Rightarrow> nat option" where
  "owned a r name = dget (rt_slices (rg_objs (a_reg a) ! r)) name"

definition session_state :: "client_app \<Rightarrow> nat \<Rightarrow> session_state" where
  "session_state a r =
     \<lparr>st_chat = map_option (a_chat a) (owned a r ''chat''), st_tasks = map_option (a_tasks a) (owned a r ''tasks''),
      st_ops = map_option (a_ops a) (owned a r ''fileOps''), st_fb = map_option (a_fb a) (owned a r ''fileBrowser''),
      st_wf = map_option (a_wf a) (owned a r ''workflow'')\<rparr>"

lemma slices_ok_cong:
  assumes "slices_ok g" and "length (rg_objs g') = length (rg_objs g)" and "rg_slices g' = rg_slices g"
    and "\<And>r. r < length (rg_objs g) \<Longrightarrow> rt_slices (rg_objs g' ! r) = rt_slices (rg_objs g ! r)"
  shows "slices_ok g'"
  using assms unfolding slices_ok_def by simp

lemma slices_ok_put [intro]:
  assumes "slices_ok g" and "rt_slices rt = rt_slices (rg_objs g ! r)"
  shows "slices_ok (put_obj r rt g)"
  by (rule slices_ok_cong [OF assms(1)]) (simp_all add: assms(2) put_obj_def nth_upd)

lemma slices_ok_add [intro]:
  assumes "slices_ok g"
  shows "slices_ok (add_runtime now k g)"
  using assms by (auto simp: slices_ok_def nth_append less_Suc_eq createRuntimeObject_def)

lemma slices_ok_ensure: "slices_ok g \<Longrightarrow> slices_ok (snd (ensureRuntime now k g))"
  by (auto simp: ensureRuntime_def Let_def split: option.split)

lemma slices_ok_active [simp]: "slices_ok (g\<lparr>rg_activeKey := k\<rparr>) = slices_ok g"
  "slices_ok (g\<lparr>rg_drafts := n\<rparr>) = slices_ok g"
  by (simp_all add: slices_ok_def)

lemma slices_ok_setActive: "slices_ok g \<Longrightarrow> slices_ok (setActiveKey now k g)"
  by (auto simp: setActiveKey_def Let_def case_prod_unfold intro!: slices_ok_put slices_ok_ensure)

lemma slices_ok_draft: "slices_ok g \<Longrightarrow> slices_ok (snd (newDraftRuntime now g))"
  by (auto simp: newDraftRuntime_def Let_def intro!: slices_ok_setActive)

lemma evict_loop_rest [simp]:
  "rg_slices (evict_loop lim rts g) = rg_slices g"
  "rg_factories (evict_loop lim rts g) = rg_factories g"
  by (induction rts arbitrary: g) (simp_all add: forget_runtime_def)

lemma evict_objs [simp]:
  "rg_objs (evictIfNeeded lim cv g) = rg_objs g" "rg_slices (evictIfNeeded lim cv g) = rg_slices g"
  "rg_factories (evictIfNeeded lim cv g) = rg_factories g"
  by (simp_all add: evictIfNeeded_def)

lemma evict_active [simp]: "rg_activeKey (evictIfNeeded lim cv g) = rg_activeKey g"
  by (simp add: evictIfNeeded_def)

lemma slices_ok_evict: "slices_ok g \<Longrightarrow> slices_ok (evictIfNeeded lim cv g)"
  by (erule slices_ok_cong) simp_all

lemma ensure_factories [simp]:
  "rg_factories (snd (ensureRuntime now k g)) = rg_factories g" "rg_slices (snd (ensureRuntime now k g)) = rg_slices g"
  by (simp_all add: ensureRuntime_def Let_def split: option.split)

lemma put_obj_slices [simp]: "rg_slices (put_obj r rt g) = rg_slices g"
  by (simp add: put_obj_def)

lemma setActive_factories [simp]:
  "rg_factories (setActiveKey now k g) = rg_factories g" "rg_slices (setActiveKey now k g) = rg_slices g"
  by (simp_all add: setActiveKey_def Let_def case_prod_unfold)

lemma draft_factories [simp]: "rg_factories (snd (newDraftRuntime now g)) = rg_factories g"
  "rg_slices (snd (newDraftRuntime now g)) = rg_slices g"
  by (simp_all add: newDraftRuntime_def Let_def)

text \<open>Creating a slice gives it a fresh reference, so no other runtime sees it.\<close>

lemma slices_ok_new:
  assumes "slices_ok g" and "r < length (rg_objs g)" and "dget (rt_slices (rg_objs g ! r)) name = None"
  shows "slices_ok ((put_obj r ((rg_objs g ! r)\<lparr>rt_slices := dset name (rg_slices g) (rt_slices (rg_objs g ! r))\<rparr>) g)
           \<lparr>rg_slices := Suc (rg_slices g)\<rparr>)"
  using assms unfolding slices_ok_def put_obj_def
  by (auto simp: nth_upd less_Suc_eq split: if_splits)

text \<open>What follows is about a runtime that exists, so \<open>ensureRuntime\<close> finds it.\<close>

lemma ensure_live: "getRuntime g key = Some r \<Longrightarrow> ensureRuntime now key g = (r, g)"
  by (simp add: ensureRuntime_def getRuntime_def)

lemma live_known:
  assumes "rg_inv g" and "getRuntime g key = Some r"
  shows "known_key (rg_drafts g) key" and "r < length (rg_objs g)" and "rt_key (rg_objs g ! r) = resolveKey g key"
proof -
  from assms have inv: "rg_inv0 g" by (simp add: rg_inv_iff)
  from assms(2) have d: "dget (rg_runtimes g) (resolveKey g key) = Some r" by (simp add: getRuntime_def)
  with inv have "dget (rg_runtimes g) key \<noteq> None \<or> dget (rg_aliases g) key \<noteq> None"
    by (auto simp: resolve_one_hop split: option.splits)
  with inv show "known_key (rg_drafts g) key" by (rule used_known)
  from live_runtime [OF inv d] show "r < length (rg_objs g)" "rt_key (rg_objs g ! r) = resolveKey g key" by simp_all
qed

lemma getSlice_cases:
  assumes "getRuntime g key = Some r" and "name \<in> set (rg_factories g)"
  obtains (old) s where "getSlice now key name g = (Inr s, g)" "dget (rt_slices (rg_objs g ! r)) name = Some s"
    | (new) "dget (rt_slices (rg_objs g ! r)) name = None"
        "getSlice now key name g = (Inr (rg_slices g), (put_obj r ((rg_objs g ! r)\<lparr>rt_slices :=
           dset name (rg_slices g) (rt_slices (rg_objs g ! r))\<rparr>) g)\<lparr>rg_slices := Suc (rg_slices g)\<rparr>)"
proof (cases "dget (rt_slices (rg_objs g ! r)) name")
  case (Some s)
  then show thesis using assms by (intro old [of s]) (simp_all add: getSlice_def ensure_live)
next
  case None
  then show thesis using assms by (intro new) (simp_all add: getSlice_def ensure_live Let_def)
qed

lemma slice_available:
  assumes "app_ok a" and "getRuntime (a_reg a) key = Some r" and "name \<in> set slice_names"
  shows "\<exists>s g. getSlice now key name (a_reg a) = (Inr s, g)"
  using assms by (auto simp: app_ok_def subset_iff elim!: getSlice_cases [where now = now])

lemma resolve_cong: "rg_aliases g' = rg_aliases g \<Longrightarrow> resolveKey g' key = resolveKey g key"
  by (simp add: resolveKey_def)

lemma fresh_slice_more [simp]:
  "a_reg (fresh_slice n s a) = a_reg a" "a_storage (fresh_slice n s a) = a_storage a" "a_cid (fresh_slice n s a) = a_cid a"
  "a_ui (fresh_slice n s a) = a_ui a" "a_settings (fresh_slice n s a) = a_settings a"
  "a_sidebar (fresh_slice n s a) = a_sidebar a" "a_status (fresh_slice n s a) = a_status a"
  "a_toasts (fresh_slice n s a) = a_toasts a" "a_selectToken (fresh_slice n s a) = a_selectToken a"
  "a_opens (fresh_slice n s a) = a_opens a" "a_lastResponseModel (fresh_slice n s a) = a_lastResponseModel a"
  "a_generations (fresh_slice n s a) = a_generations a" "a_polls (fresh_slice n s a) = a_polls a"
  "a_navTab (fresh_slice n s a) = a_navTab a" "a_replayCid (fresh_slice n s a) = a_replayCid a"
  by (simp_all add: fresh_slice_def)

lemma fresh_slice_other:
  "x \<noteq> s \<Longrightarrow> a_chat (fresh_slice n s a) x = a_chat a x" "x \<noteq> s \<Longrightarrow> a_tasks (fresh_slice n s a) x = a_tasks a x"
  "x \<noteq> s \<Longrightarrow> a_ops (fresh_slice n s a) x = a_ops a x" "x \<noteq> s \<Longrightarrow> a_fb (fresh_slice n s a) x = a_fb a x"
  "x \<noteq> s \<Longrightarrow> a_wf (fresh_slice n s a) x = a_wf a x"
  by (simp_all add: fresh_slice_def)

text \<open>
  \<open>grows key r a a'\<close>: slices of the runtime \<open>r\<close> were created and nothing else happened.
\<close>

definition bare :: "client_app \<Rightarrow> client_app" where
  "bare a = a\<lparr>a_reg := init_registry 0, a_chat := (\<lambda>_. createChatStore), a_tasks := (\<lambda>_. createTaskStore),
     a_ops := (\<lambda>_. createFileOpsStore), a_fb := (\<lambda>_. createFileBrowserStore), a_wf := (\<lambda>_. createWorkflowStore)\<rparr>"

definition bare_registry :: "registry \<Rightarrow> registry" where
  "bare_registry g = g\<lparr>rg_objs := map (\<lambda>rt. rt\<lparr>rt_slices := dempty\<rparr>) (rg_objs g), rg_slices := 0\<rparr>"

definition same_slices :: "nat \<Rightarrow> client_app \<Rightarrow> client_app \<Rightarrow> bool" where
  "same_slices x a a' \<longleftrightarrow> a_chat a' x = a_chat a x \<and> a_tasks a' x = a_tasks a x \<and> a_ops a' x = a_ops a x
     \<and> a_fb a' x = a_fb a x \<and> a_wf a' x = a_wf a x"

definition grows :: "string \<Rightarrow> nat \<Rightarrow> client_app \<Rightarrow> client_app \<Rightarrow> bool" where
  "grows key r a a' \<longleftrightarrow> app_ok a' \<and> getRuntime (a_reg a') key = Some r \<and> bare a' = bare a
     \<and> bare_registry (a_reg a') = bare_registry (a_reg a) \<and> rg_slices (a_reg a) \<le> rg_slices (a_reg a')
     \<and> (\<forall>q n x. owned a q n = Some x \<longrightarrow> owned a' q n = Some x)
     \<and> (\<forall>q n. q \<noteq> r \<longrightarrow> owned a' q n = owned a q n)
     \<and> (\<forall>x < rg_slices (a_reg a). same_slices x a a')"

lemma grows_refl: "app_ok a \<Longrightarrow> getRuntime (a_reg a) key = Some r \<Longrightarrow> grows key r a a"
  by (simp add: grows_def same_slices_def)

lemma grows_trans: "grows key r a b \<Longrightarrow> grows key r b c \<Longrightarrow> grows key r a c"
  by (simp add: grows_def same_slices_def)

lemma owned_bound:
  assumes "app_ok a" and "q < length (rg_objs (a_reg a))" and "owned a q n = Some x"
  shows "x < rg_slices (a_reg a)"
  using assms by (auto simp: app_ok_def slices_ok_def owned_def)

lemma owner_unique:
  assumes "app_ok a" and "q < length (rg_objs (a_reg a))" and "owned a q n = Some x"
    and "q' < length (rg_objs (a_reg a))" and "owned a q' n' = Some x"
  shows "q' = q \<and> n' = n"
  using assms unfolding app_ok_def slices_ok_def owned_def by blast

lemma slice_of_spec:
  assumes ok: "app_ok a" and live: "getRuntime (a_reg a) key = Some r" and name: "name \<in> set slice_names"
  obtains s a' where "slice_of now key name a = (s, a')" "grows key r a a'" "owned a' r name = Some s"
    "owned a r name = None \<longrightarrow> same_slices s (fresh_slice name s a) a'"
proof -
  from ok name have fac: "name \<in> set (rg_factories (a_reg a))" and inv: "rg_inv (a_reg a)" and sl: "slices_ok (a_reg a)"
    by (auto simp: app_ok_def)
  note lk = live_known [OF inv live]
  from live fac show thesis
  proof (cases rule: getSlice_cases [where now = now])
    case (old s)
    then have "slice_of now key name a = (s, a)" by (simp add: slice_of_def)
    with ok live old show thesis by (intro that [of s a]) (simp_all add: owned_def grows_refl)
  next
    case new
    let ?s = "rg_slices (a_reg a)" and ?rt = "rg_objs (a_reg a) ! r"
    let ?g = "(put_obj r (?rt\<lparr>rt_slices := dset name ?s (rt_slices ?rt)\<rparr>) (a_reg a))\<lparr>rg_slices := Suc ?s\<rparr>"
    let ?a = "(fresh_slice name ?s a)\<lparr>a_reg := ?g\<rparr>"
    have eq: "slice_of now key name a = (?s, ?a)" using new by (simp add: slice_of_def)
    have "rg_inv ?g" using getSlice_inv [OF inv lk(1), of now name] new by simp
    moreover have "slices_ok ?g" using slices_ok_new [OF sl lk(2) new(1)] .
    ultimately have "app_ok ?a" using ok by (simp add: app_ok_def)
    moreover have "getRuntime ?g key = Some r" using live by (simp add: getRuntime_def resolveKey_def)
    moreover have own: "owned ?a q n = (if q = r \<and> n = name then Some ?s else owned a q n)" for q n
      using lk(2) by (auto simp: owned_def nth_upd)
    moreover have "same_slices x a ?a" if "x < ?s" for x
      using that by (simp add: same_slices_def fresh_slice_other)
    moreover have "bare ?a = bare a" by (simp add: bare_def fresh_slice_def)
    moreover have "bare_registry ?g = bare_registry (a_reg a)"
      using lk(2) by (simp add: bare_registry_def put_obj_def map_update list_update_same_conv)
    ultimately have "grows key r a ?a" using new(1) by (auto simp: grows_def owned_def)
    then show thesis using eq own by (intro that [of ?s ?a]) (simp_all add: same_slices_def)
  qed
qed

lemma grows_other:
  assumes "app_ok a" and "grows key r a a'" and "q < length (rg_objs (a_reg a))" and "q \<noteq> r"
  shows "session_state a' q = session_state a q"
proof -
  have "same_slices x a a'" if "owned a q n = Some x" for n x
    using owned_bound [OF assms(1,3) that] assms(2) by (simp add: grows_def)
  moreover have "owned a' q n = owned a q n" for n using assms(2,4) by (simp add: grows_def)
  ultimately show ?thesis by (auto simp: session_state_def same_slices_def intro!: map_option_cong)
qed

section \<open>What loading a session does\<close>

text \<open>The slices of a session after a load, as a function of what they were before.\<close>

definition loaded_state :: "js_env \<Rightarrow> string \<Rightarrow> jsval \<Rightarrow> jsval \<Rightarrow> jsval \<Rightarrow> transcript \<Rightarrow> storage \<Rightarrow> nat \<Rightarrow> session_state \<Rightarrow> session_state" where
  "loaded_state env sid parentId addDirs runMode ts st cid s =
     \<lparr>st_chat = Some (w_chat (loadSession env (JStr sid) (ts_messages ts) parentId (ts_subagents ts) addDirs runMode
        \<lparr>w_chat = (case st_chat s of Some c \<Rightarrow> c | None \<Rightarrow> createChatStore), w_storage = st, w_cid = cid\<rparr>)),
      st_tasks = Some (hydrateSdkTaskTracker (Some (ts_tracker ts)) (foldl (\<lambda>s task. addTask task s) createTaskStore (ts_tasks ts))),
      st_ops = Some (foldl (\<lambda>s op. addFileOp op s) createFileOpsStore (ts_fileOps ts)),
      st_fb = Some (setTabs (env_now env) (JArr (ts_fileBrowserTabs ts)) createFileBrowserStore),
      st_wf = Some createWorkflowStore\<rparr>"

lemma bareD:
  assumes "bare a' = bare a"
  shows "a_storage a' = a_storage a" "a_cid a' = a_cid a" "a_ui a' = a_ui a" "a_settings a' = a_settings a"
    "a_sidebar a' = a_sidebar a" "a_status a' = a_status a" "a_toasts a' = a_toasts a" "a_selectToken a' = a_selectToken a"
    "a_opens a' = a_opens a" "a_lastResponseModel a' = a_lastResponseModel a" "a_generations a' = a_generations a"
    "a_polls a' = a_polls a" "a_navTab a' = a_navTab a" "a_replayCid a' = a_replayCid a"
  using arg_cong [OF assms, of a_storage] arg_cong [OF assms, of a_cid] arg_cong [OF assms, of a_ui]
    arg_cong [OF assms, of a_settings] arg_cong [OF assms, of a_sidebar] arg_cong [OF assms, of a_status]
    arg_cong [OF assms, of a_toasts] arg_cong [OF assms, of a_selectToken] arg_cong [OF assms, of a_opens]
    arg_cong [OF assms, of a_lastResponseModel] arg_cong [OF assms, of a_generations] arg_cong [OF assms, of a_polls]
    arg_cong [OF assms, of a_navTab] arg_cong [OF assms, of a_replayCid]
  by (simp_all add: bare_def)

lemma bare_registryD:
  assumes "bare_registry g' = bare_registry g"
  shows "rg_runtimes g' = rg_runtimes g" "rg_aliases g' = rg_aliases g" "rg_drafts g' = rg_drafts g"
    "rg_activeKey g' = rg_activeKey g" "rg_factories g' = rg_factories g" "length (rg_objs g') = length (rg_objs g)"
    "r < length (rg_objs g) \<Longrightarrow> rt_ui (rg_objs g' ! r) = rt_ui (rg_objs g ! r)"
proof -
  have objs: "map (\<lambda>rt. rt\<lparr>rt_slices := dempty\<rparr>) (rg_objs g') = map (\<lambda>rt. rt\<lparr>rt_slices := dempty\<rparr>) (rg_objs g)"
    using arg_cong [OF assms, of rg_objs] by (simp add: bare_registry_def)
  from arg_cong [OF this, of length] show len: "length (rg_objs g') = length (rg_objs g)" by simp
  show "r < length (rg_objs g) \<Longrightarrow> rt_ui (rg_objs g' ! r) = rt_ui (rg_objs g ! r)"
    using arg_cong [OF objs, of "\<lambda>l. rt_ui (l ! r)"] len by simp
qed (use arg_cong [OF assms, of rg_runtimes] arg_cong [OF assms, of rg_aliases] arg_cong [OF assms, of rg_drafts]
  arg_cong [OF assms, of rg_activeKey] arg_cong [OF assms, of rg_factories] in \<open>simp_all add: bare_registry_def\<close>)

lemma app_ok_cong: "a_reg a' = a_reg a \<Longrightarrow> app_ok a' = app_ok a"
  by (simp add: app_ok_def)

lemma growsD:
  assumes "grows key r a a'"
  shows "app_ok a'" "getRuntime (a_reg a') key = Some r"
    and "\<And>n x. owned a r n = Some x \<Longrightarrow> owned a' r n = Some x" "\<And>x. x < rg_slices (a_reg a) \<Longrightarrow> same_slices x a a'"
  using assms by (simp_all add: grows_def)

lemma slice_names_mem:
  "''chat'' \<in> set slice_names" "''tasks'' \<in> set slice_names" "''fileOps'' \<in> set slice_names"
  "''fileBrowser'' \<in> set slice_names" "''workflow'' \<in> set slice_names"
  by (simp_all add: slice_names_def)

lemma load_spec:
  fixes sid :: string and a :: client_app
  assumes ok: "app_ok a" and live: "getRuntime (a_reg a) sid = Some r"
  obtains chat a' where "load_slices env sid parentId addDirs runMode ts a = (chat, a')"
    "app_ok a'" "getRuntime (a_reg a') sid = Some r" "bare a' = bare a" "bare_registry (a_reg a') = bare_registry (a_reg a)"
    "owned a' r ''chat'' = Some chat"
    "session_state a' r = loaded_state env sid parentId addDirs runMode ts (a_storage a) (a_cid a) (session_state a r)"
    "\<And>q. q < length (rg_objs (a_reg a)) \<Longrightarrow> q \<noteq> r \<Longrightarrow> session_state a' q = session_state a q"
proof -
  let ?now = "env_now env"
  obtain c a1 where 1: "slice_of ?now sid ''chat'' a = (c, a1)" "grows sid r a a1" "owned a1 r ''chat'' = Some c"
    and fresh: "owned a r ''chat'' = None \<longrightarrow> same_slices c (fresh_slice ''chat'' c a) a1"
    by (rule slice_of_spec [where now = "env_now env", OF ok live slice_names_mem(1)]) (rule that)
  obtain t a2 where 2: "slice_of ?now sid ''tasks'' a1 = (t, a2)" "grows sid r a1 a2" "owned a2 r ''tasks'' = Some t"
    by (rule slice_of_spec [where now = "env_now env", OF growsD(1,2) [OF 1(2)] slice_names_mem(2)]) (rule that)
  obtain f a3 where 3: "slice_of ?now sid ''fileOps'' a2 = (f, a3)" "grows sid r a2 a3" "owned a3 r ''fileOps'' = Some f"
    by (rule slice_of_spec [where now = "env_now env", OF growsD(1,2) [OF 2(2)] slice_names_mem(3)]) (rule that)
  obtain b a4 where 4: "slice_of ?now sid ''fileBrowser'' a3 = (b, a4)" "grows sid r a3 a4" "owned a4 r ''fileBrowser'' = Some b"
    by (rule slice_of_spec [where now = "env_now env", OF growsD(1,2) [OF 3(2)] slice_names_mem(4)]) (rule that)
  obtain w a5 where 5: "slice_of ?now sid ''workflow'' a4 = (w, a5)" "grows sid r a4 a5" "owned a5 r ''workflow'' = Some w"
    by (rule slice_of_spec [where now = "env_now env", OF growsD(1,2) [OF 4(2)] slice_names_mem(5)]) (rule that)
  note g35 = grows_trans [OF 4(2) 5(2)]
  note g25 = grows_trans [OF 3(2) g35]
  note g15 = grows_trans [OF 2(2) g25]
  note g05 = grows_trans [OF 1(2) g15]
  have own: "owned a5 r ''chat'' = Some c" "owned a5 r ''tasks'' = Some t" "owned a5 r ''fileOps'' = Some f"
    "owned a5 r ''fileBrowser'' = Some b" "owned a5 r ''workflow'' = Some w"
    using growsD(3) [OF g15 1(3)] growsD(3) [OF g25 2(3)] growsD(3) [OF g35 3(3)] growsD(3) [OF 5(2) 4(3)] 5(3) by simp_all
  from ok have inv: "rg_inv (a_reg a)" by (simp add: app_ok_def)
  note r = live_known(2) [OF inv live]
  have bare5: "bare a5 = bare a" "bare_registry (a_reg a5) = bare_registry (a_reg a)" using g05 by (simp_all add: grows_def)
  note r5 = r [folded bare_registryD(6) [OF bare5(2)]] and r1 = live_known(2) [of "a_reg a1" sid r]
  have r1: "r < length (rg_objs (a_reg a1))" using growsD(1,2) [OF 1(2)] by (auto simp: app_ok_def intro: live_known)
  have prev: "a_chat a5 c = (case st_chat (session_state a r) of Some x \<Rightarrow> x | None \<Rightarrow> createChatStore)"
  proof (cases "owned a r ''chat''")
    case None
    have "same_slices c a1 a5" using growsD(4) [OF g15] owned_bound [OF growsD(1) [OF 1(2)] r1 1(3)] by blast
    with fresh None show ?thesis by (simp add: same_slices_def session_state_def fresh_slice_def)
  next
    case (Some s)
    with growsD(3) [OF 1(2)] 1(3) have "s = c" by simp
    with Some growsD(4) [OF g05 owned_bound [OF ok r]] show ?thesis by (simp add: same_slices_def session_state_def)
  qed
  define a' where "a' = snd (load_slices env sid parentId addDirs runMode ts a)"
  have eq: "load_slices env sid parentId addDirs runMode ts a = (c, a')" and reg: "a_reg a' = a_reg a5"
    by (simp_all add: a'_def load_slices_def Let_def 1(1) 2(1) 3(1) 4(1) 5(1) case_prod_unfold)
  have own': "owned a' q n = owned a5 q n" for q n by (simp add: owned_def reg)
  have bare': "bare a' = bare a5"
    by (simp add: a'_def load_slices_def Let_def 1(1) 2(1) 3(1) 4(1) 5(1) case_prod_unfold bare_def loadSession_def)
  have "session_state a' r = loaded_state env sid parentId addDirs runMode ts (a_storage a) (a_cid a) (session_state a r)"
    unfolding session_state_def [of a'] loaded_state_def own' own prev [symmetric] bareD(1,2) [OF bare5(1), symmetric]
    by (simp add: a'_def load_slices_def Let_def 1(1) 2(1) 3(1) 4(1) 5(1) case_prod_unfold clearTasks_def clearFileOps_def
        ws_clear_def setTabs_def createFileBrowserStore_def)
  moreover have others: "same_slices x a5 a'" if "x \<notin> {c, t, f, b, w}" for x
    using that by (simp add: same_slices_def a'_def load_slices_def Let_def 1(1) 2(1) 3(1) 4(1) 5(1) case_prod_unfold)
  have "session_state a' q = session_state a q" if q: "q < length (rg_objs (a_reg a))" "q \<noteq> r" for q
  proof -
    from q(1) have q5: "q < length (rg_objs (a_reg a5))" by (simp add: bare_registryD(6) [OF bare5(2)])
    have "x \<notin> {c, t, f, b, w}" if "owned a5 q n = Some x" for n x
      using owner_unique [OF growsD(1) [OF g05] q5 that r5] own q(2) by auto
    with others have "same_slices x a5 a'" if "owned a5 q n = Some x" for n x using that by blast
    then have "session_state a' q = session_state a5 q"
      by (auto simp: session_state_def own' same_slices_def intro!: map_option_cong)
    with grows_other [OF ok g05 q] show ?thesis by simp
  qed
  ultimately show thesis using eq reg own own' bare' bare5 growsD(1,2) [OF g05]
    by (intro that [of c a']) (simp_all add: app_ok_def)
qed

section \<open>Operations that leave the slices alone\<close>

definition keeps_sessions :: "client_app \<Rightarrow> client_app \<Rightarrow> bool" where
  "keeps_sessions a a' \<longleftrightarrow> app_ok a' \<and> session_state a' = session_state a"

lemma keeps_trans: "keeps_sessions a b \<Longrightarrow> keeps_sessions b c \<Longrightarrow> keeps_sessions a c"
  by (simp add: keeps_sessions_def)

lemma session_state_cong:
  assumes "\<And>q. rt_slices (rg_objs (a_reg a') ! q) = rt_slices (rg_objs (a_reg a) ! q)" and "\<And>x. same_slices x a a'"
  shows "session_state a' = session_state a"
  using assms by (auto simp: session_state_def owned_def same_slices_def fun_eq_iff intro!: map_option_cong)

lemma set_runtime_keeps:
  assumes "app_ok a" and "\<And>rt. rt_key (f rt) = rt_key rt" "\<And>rt. rt_sessionId (f rt) = rt_sessionId rt"
    "\<And>rt. rt_slices (f rt) = rt_slices rt"
  shows "keeps_sessions a (set_runtime r f a)"
proof -
  have "rg_inv (put_obj r (f (rg_objs (a_reg a) ! r)) (a_reg a))"
    using assms put_obj_inv0 [of "a_reg a"] by (simp add: app_ok_def rg_inv_iff)
  moreover have "slices_ok (put_obj r (f (rg_objs (a_reg a) ! r)) (a_reg a))"
    using assms by (auto simp: app_ok_def)
  moreover have "session_state (set_runtime r f a) = session_state a"
    by (rule session_state_cong) (simp_all add: set_runtime_def nth_upd assms(4) same_slices_def)
  ultimately show ?thesis using assms(1) by (simp add: keeps_sessions_def set_runtime_def app_ok_def)
qed

lemma snapshot_keeps: "app_ok a \<Longrightarrow> keeps_sessions a (snapshotActiveUi a)"
  by (auto simp: snapshotActiveUi_def keeps_sessions_def split: option.split
      intro: set_runtime_keeps [unfolded keeps_sessions_def, THEN conjunct1]
        set_runtime_keeps [unfolded keeps_sessions_def, THEN conjunct2])

lemma setActive_live:
  assumes "getRuntime g key = Some r"
  shows "setActiveKey now key g =
    (put_obj r ((rg_objs g ! r)\<lparr>rt_lastActiveAt := now\<rparr>) g)\<lparr>rg_activeKey := rt_key (rg_objs g ! r)\<rparr>"
  by (simp add: setActiveKey_def ensure_live [OF assms])

lemma setActive_keeps:
  assumes "app_ok a" and "getRuntime (a_reg a) key = Some r"
  shows "keeps_sessions a (a\<lparr>a_reg := setActiveKey now key (a_reg a)\<rparr>)"
proof -
  have inv: "rg_inv (a_reg a)" using assms(1) by (simp add: app_ok_def)
  have "rg_inv (setActiveKey now key (a_reg a))"
    using setActiveKey_inv [OF _ live_known(1) [OF inv assms(2)], of now] inv rg_inv_iff by blast
  moreover have "session_state (a\<lparr>a_reg := setActiveKey now key (a_reg a)\<rparr>) = session_state a"
    by (rule session_state_cong) (simp_all add: setActive_live [OF assms(2)] nth_upd same_slices_def)
  ultimately show ?thesis using assms(1) by (simp add: keeps_sessions_def app_ok_def slices_ok_setActive)
qed

lemma evict_keeps: "app_ok a \<Longrightarrow> keeps_sessions a (evict a)"
  by (simp add: keeps_sessions_def evict_def app_ok_def evict_inv slices_ok_evict)
     (rule session_state_cong; simp add: same_slices_def)

lemma frame_keeps:
  "app_ok a \<Longrightarrow> keeps_sessions a (activate_model k m a)" "app_ok a \<Longrightarrow> keeps_sessions a (show_row env sid row a)"
  "app_ok a \<Longrightarrow> keeps_sessions a (a\<lparr>a_ui := u\<rparr>)" "app_ok a \<Longrightarrow> keeps_sessions a (a\<lparr>a_lastResponseModel := l\<rparr>)"
  "app_ok a \<Longrightarrow> keeps_sessions a (a\<lparr>a_navTab := v\<rparr>)" "app_ok a \<Longrightarrow> keeps_sessions a (a\<lparr>a_opens := os\<rparr>)"
  "app_ok a \<Longrightarrow> keeps_sessions a (refreshSessionRecap sid s n b a)"
  by (auto simp: keeps_sessions_def app_ok_def activate_model_def show_row_def refreshSessionRecap_def Let_def
      session_state_def owned_def fun_eq_iff)

lemma evict_keeps_active: "dget (rg_runtimes (evictIfNeeded lim cv g)) (rg_activeKey g) = dget (rg_runtimes g) (rg_activeKey g)"
  by (simp add: evictIfNeeded_def) (metis evict_loop_frame evict_candidates_mem)

end
