(* ===== verification/SessionSwitch.thy ===== *)
theory SessionSwitch
  imports SessionOpen
begin

text \<open>
  What opening and switching sessions does: a cold open loads one runtime and no other, a switch to a
  retained session touches no slice and restores its canvas, an answer that is out of date or an error
  leaves the view, and what happens when a slow answer meets another switch or a live stream.
\<close>

section \<open>The runtime a cold open loads\<close>

definition no_slices :: session_state where
  "no_slices = \<lparr>st_chat = None, st_tasks = None, st_ops = None, st_fb = None, st_wf = None\<rparr>"

definition state_before :: "client_app \<Rightarrow> string \<Rightarrow> session_state" where
  "state_before a key = (case getRuntime (a_reg a) key of Some r \<Rightarrow> session_state a r | None \<Rightarrow> no_slices)"

lemma resolve_add [simp]: "resolveKey (add_runtime now k g) key = resolveKey g key"
  by (simp add: resolveKey_def)

lemma ensure_spec:
  assumes ok: "app_ok a" and known: "known_key (rg_drafts (a_reg a)) key"
  obtains r g l where "ensure_runtime now key a = (r, a\<lparr>a_reg := g, a_lastResponseModel := l\<rparr>)"
    "app_ok (a\<lparr>a_reg := g\<rparr>)" "getRuntime g key = Some r" "rg_activeKey g = rg_activeKey (a_reg a)"
    "resolveKey g key = resolveKey (a_reg a) key" "length (rg_objs (a_reg a)) \<le> length (rg_objs g)"
    "session_state (a\<lparr>a_reg := g\<rparr>) r = state_before a key"
    "\<forall>q < length (rg_objs (a_reg a)). session_state (a\<lparr>a_reg := g\<rparr>) q = session_state a q"
    "\<forall>r0. getRuntime (a_reg a) key = Some r0 \<longrightarrow> r = r0"
    "getRuntime (a_reg a) key = None \<longrightarrow> r = length (rg_objs (a_reg a))"
proof (cases "getRuntime (a_reg a) key")
  case (Some r)
  then show thesis using ok
    by (intro that [where r = r and g = "a_reg a" and l = "a_lastResponseModel a"])
      (auto simp: ensure_runtime_def ensure_live hasRuntime_def getRuntime_def state_before_def)
next
  case None
  let ?g = "add_runtime now (resolveKey (a_reg a) key) (a_reg a)" and ?r = "length (rg_objs (a_reg a))"
  from ok have inv: "rg_inv (a_reg a)" "rg_inv0 (a_reg a)" by (auto simp: app_ok_def rg_inv_iff)
  have "rg_inv0 ?g"
    using add_runtime_inv0 [OF inv(2) resolve_known [OF inv(2) known] resolve_not_alias [OF inv(2)]] .
  then have "rg_inv ?g" using inv(1) by (auto simp: rg_inv_iff)
  then have "app_ok (a\<lparr>a_reg := ?g\<rparr>)" using ok by (auto simp: app_ok_def)
  moreover have "session_state (a\<lparr>a_reg := ?g\<rparr>) q = session_state a q" if "q < ?r" for q
    using that by (simp add: session_state_def owned_def nth_append)
  moreover have "session_state (a\<lparr>a_reg := ?g\<rparr>) ?r = no_slices"
    by (simp add: session_state_def owned_def createRuntimeObject_def no_slices_def)
  ultimately show thesis using None
    by (intro that [where r = ?r and g = ?g and l = "(a_lastResponseModel a)(?r := JUndef)"])
      (simp_all add: ensure_runtime_def ensureRuntime_def getRuntime_def hasRuntime_def state_before_def Let_def)
qed

lemma set_runtime_reg [simp]:
  "rg_runtimes (a_reg (set_runtime r f a)) = rg_runtimes (a_reg a)"
  "rg_aliases (a_reg (set_runtime r f a)) = rg_aliases (a_reg a)"
  "rg_activeKey (a_reg (set_runtime r f a)) = rg_activeKey (a_reg a)"
  "length (rg_objs (a_reg (set_runtime r f a))) = length (rg_objs (a_reg a))"
  by (simp_all add: set_runtime_def)

lemma snapshot_reg [simp]:
  "rg_runtimes (a_reg (snapshotActiveUi a)) = rg_runtimes (a_reg a)"
  "rg_aliases (a_reg (snapshotActiveUi a)) = rg_aliases (a_reg a)"
  "rg_activeKey (a_reg (snapshotActiveUi a)) = rg_activeKey (a_reg a)"
  "length (rg_objs (a_reg (snapshotActiveUi a))) = length (rg_objs (a_reg a))"
  by (simp_all add: snapshotActiveUi_def split: option.split)

lemma getRuntime_cong:
  "rg_runtimes g' = rg_runtimes g \<Longrightarrow> rg_aliases g' = rg_aliases g \<Longrightarrow> getRuntime g' key = getRuntime g key"
  by (simp add: getRuntime_def resolveKey_def)

lemma setActive_reg:
  assumes "rg_inv g" and "getRuntime g key = Some r"
  shows "rg_activeKey (setActiveKey now key g) = resolveKey g key" "rg_runtimes (setActiveKey now key g) = rg_runtimes g"
    "rg_aliases (setActiveKey now key g) = rg_aliases g"
  using live_known(3) [OF assms] by (simp_all add: setActive_live [OF assms(2)])

lemma activate_reg [simp]: "a_reg (activate_model k m a) = a_reg a" "a_reg (show_row env sid row a) = a_reg a"
  "a_reg (refreshSessionRecap sid s n b a) = a_reg a"
  by (simp_all add: activate_model_def show_row_def refreshSessionRecap_def Let_def)

lemma show_opened_spec:
  assumes ok: "app_ok a" and live: "getRuntime (a_reg a) (oq_sessionId q) = Some r"
  shows "keeps_sessions a (show_opened env q r ts a)"
    and "rg_activeKey (a_reg (show_opened env q r ts a)) = resolveKey (a_reg a) (oq_sessionId q)"
    and "dget (rg_runtimes (a_reg (show_opened env q r ts a))) (resolveKey (a_reg a) (oq_sessionId q)) = Some r"
proof -
  let ?sid = "oq_sessionId q"
  define a1 where "a1 = snapshotActiveUi a"
  define a2 where "a2 = a1\<lparr>a_reg := setActiveKey (env_now env) ?sid (a_reg a1)\<rparr>"
  define a3 where "a3 = show_row env ?sid (oq_rowId q) ((activate_model ?sid (a_lastResponseModel a1 r) a2)
    \<lparr>a_ui := applyUiSnapshot (initial_snapshot (initialUiFor ts)) (a_ui (activate_model ?sid (a_lastResponseModel a1 r) a2))\<rparr>)"
  have eq: "show_opened env q r ts a = evict a3" by (simp add: show_opened_def a1_def a2_def a3_def Let_def)
  have k1: "keeps_sessions a a1" unfolding a1_def by (rule snapshot_keeps [OF ok])
  then have ok1: "app_ok a1" by (simp add: keeps_sessions_def)
  have live1: "getRuntime (a_reg a1) ?sid = Some r" using live by (simp add: a1_def getRuntime_def resolveKey_def)
  have k2: "keeps_sessions a1 a2" unfolding a2_def by (rule setActive_keeps [OF ok1 live1])
  have reg3: "a_reg a3 = a_reg a2" by (simp add: a3_def)
  have "session_state a3 = session_state a2"
    by (simp add: a3_def show_row_def activate_model_def session_state_def owned_def fun_eq_iff)
  with k2 reg3 have "keeps_sessions a1 a3" by (simp add: keeps_sessions_def app_ok_def)
  with k1 have k3: "keeps_sessions a a3" by (rule keeps_trans)
  then have "keeps_sessions a3 (evict a3)" by (intro evict_keeps) (simp add: keeps_sessions_def)
  with k3 show "keeps_sessions a (show_opened env q r ts a)" unfolding eq by (rule keeps_trans)
  have inv1: "rg_inv (a_reg a1)" using ok1 by (simp add: app_ok_def)
  have res: "resolveKey (a_reg a1) ?sid = resolveKey (a_reg a) ?sid" by (simp add: a1_def resolveKey_def)
  have act: "rg_activeKey (a_reg a3) = resolveKey (a_reg a) ?sid" "rg_runtimes (a_reg a3) = rg_runtimes (a_reg a)"
    using setActive_reg [OF inv1 live1, of "env_now env"] res by (simp_all add: reg3 a2_def) (simp add: a1_def)
  then show "rg_activeKey (a_reg (show_opened env q r ts a)) = resolveKey (a_reg a) ?sid"
    by (simp add: eq evict_def)
  have "dget (rg_runtimes (a_reg (evict a3))) (rg_activeKey (a_reg a3)) = dget (rg_runtimes (a_reg a3)) (rg_activeKey (a_reg a3))"
    unfolding evict_def by (simp add: evict_keeps_active)
  with act live show "dget (rg_runtimes (a_reg (show_opened env q r ts a))) (resolveKey (a_reg a) ?sid) = Some r"
    by (simp add: eq getRuntime_def)
qed

definition rows_of :: "jsval \<Rightarrow> jsval list" where
  "rows_of data = arr_of (jor (jget data ''messages'') (JArr []))"

definition loaded_from :: "js_env \<Rightarrow> open_request \<Rightarrow> jsval \<Rightarrow> client_app \<Rightarrow> session_state" where
  "loaded_from env q data a =
     loaded_state env (oq_sessionId q) (oq_forkParentId q) (jor (jget data ''add_dirs'') (JArr [])) (jget data ''run_mode'')
       (fst (transformSessionMessages env (a_replayCid a) (rows_of data))) (a_storage a) (a_cid a)
       (state_before a (oq_sessionId q))"

lemma opened_spec:
  assumes ok: "app_ok a" and known: "known_key (rg_drafts (a_reg a)) (oq_sessionId q)" and tok: "oq_token q = a_selectToken a"
  obtains r a' where "opened env q data a = (True, a')" "app_ok a'"
    "rg_activeKey (a_reg a') = resolveKey (a_reg a) (oq_sessionId q)"
    "dget (rg_runtimes (a_reg a')) (rg_activeKey (a_reg a')) = Some r"
    "session_state a' r = loaded_from env q data a"
    "\<forall>p < length (rg_objs (a_reg a)). p \<noteq> r \<longrightarrow> session_state a' p = session_state a p"
    "\<forall>r0. getRuntime (a_reg a) (oq_sessionId q) = Some r0 \<longrightarrow> r = r0"
    "getRuntime (a_reg a) (oq_sessionId q) = None \<longrightarrow> r = length (rg_objs (a_reg a))"
proof -
  let ?sid = "oq_sessionId q"
  obtain ts c where ts: "transformSessionMessages env (a_replayCid a) (rows_of data) = (ts, c)" by fastforce
  define a1 where "a1 = a\<lparr>a_replayCid := c\<rparr>"
  have ok1: "app_ok a1" and k1: "known_key (rg_drafts (a_reg a1)) ?sid" using ok known by (simp_all add: a1_def app_ok_def)
  have s1: "session_state a1 = session_state a" by (simp add: a1_def session_state_def owned_def fun_eq_iff)
  obtain r g l where e: "ensure_runtime (env_now env) ?sid a1 = (r, a1\<lparr>a_reg := g, a_lastResponseModel := l\<rparr>)"
    "app_ok (a1\<lparr>a_reg := g\<rparr>)" "getRuntime g ?sid = Some r" "rg_activeKey g = rg_activeKey (a_reg a1)"
    "resolveKey g ?sid = resolveKey (a_reg a1) ?sid" "length (rg_objs (a_reg a1)) \<le> length (rg_objs g)"
    "session_state (a1\<lparr>a_reg := g\<rparr>) r = state_before a1 ?sid"
    "\<forall>p < length (rg_objs (a_reg a1)). session_state (a1\<lparr>a_reg := g\<rparr>) p = session_state a1 p"
    "\<forall>r0. getRuntime (a_reg a1) ?sid = Some r0 \<longrightarrow> r = r0"
    "getRuntime (a_reg a1) ?sid = None \<longrightarrow> r = length (rg_objs (a_reg a1))"
    by (rule ensure_spec [OF ok1 k1, where now = "env_now env"])
  define a2 where "a2 = a1\<lparr>a_reg := g, a_lastResponseModel := l\<rparr>"
  have ok2: "app_ok a2" and s2: "session_state a2 = session_state (a1\<lparr>a_reg := g\<rparr>)"
    using e(2) by (simp_all add: a2_def app_ok_def session_state_def owned_def fun_eq_iff)
  define a3 where "a3 = set_runtime r (\<lambda>rt. rt\<lparr>rt_sidebarRowId := oq_rowId q\<rparr>) a2"
  have k3: "keeps_sessions a2 a3" unfolding a3_def by (rule set_runtime_keeps [OF ok2]) simp_all
  define a4 where "a4 = a3\<lparr>a_lastResponseModel := (a_lastResponseModel a3)(r := oq_responseModel q)\<rparr>"
  have k4: "keeps_sessions a2 a4" unfolding a4_def by (rule keeps_trans [OF k3 frame_keeps(4)]) (use k3 in \<open>simp add: keeps_sessions_def\<close>)
  then have ok4: "app_ok a4" and s4: "session_state a4 = session_state (a1\<lparr>a_reg := g\<rparr>)"
    by (simp_all add: keeps_sessions_def s2)
  have live4: "getRuntime (a_reg a4) ?sid = Some r"
    using e(3) by (simp add: a4_def a3_def a2_def getRuntime_def resolveKey_def)
  let ?dirs = "jor (jget data ''add_dirs'') (JArr [])" and ?mode = "jget data ''run_mode''"
  obtain chat a5 where l: "load_slices env ?sid (oq_forkParentId q) ?dirs ?mode ts a4 = (chat, a5)"
    "app_ok a5" "getRuntime (a_reg a5) ?sid = Some r" "bare a5 = bare a4" "bare_registry (a_reg a5) = bare_registry (a_reg a4)"
    "session_state a5 r = loaded_state env ?sid (oq_forkParentId q) ?dirs ?mode ts (a_storage a4) (a_cid a4) (session_state a4 r)"
    and l_other: "\<And>p. p < length (rg_objs (a_reg a4)) \<Longrightarrow> p \<noteq> r \<Longrightarrow> session_state a5 p = session_state a4 p"
    by (rule load_spec [OF ok4 live4]) blast
  define a6 where "a6 = refreshSessionRecap ?sid chat 0 False a5"
  have k6: "keeps_sessions a5 a6" unfolding a6_def by (rule frame_keeps(7) [OF l(2)])
  then have ok6: "app_ok a6" by (simp add: keeps_sessions_def)
  have live6: "getRuntime (a_reg a6) ?sid = Some r" using l(3) by (simp add: a6_def)
  define a' where "a' = show_opened env q r ts a6"
  note sh = show_opened_spec [OF ok6 live6, of env ts, folded a'_def]
  have eq: "opened env q data a = (True, a')"
    using tok ts e(1) l(1)
    by (simp add: opened_def transform_rows_def rows_of_def a1_def [symmetric] a2_def [symmetric] a3_def [symmetric]
        a4_def [symmetric] a6_def [symmetric] a'_def [symmetric] Let_def)
  have res: "resolveKey (a_reg a6) ?sid = resolveKey (a_reg a) ?sid"
    using bare_registryD(2) [OF l(5)] e(5)
    by (simp add: a6_def a4_def a3_def a2_def a1_def resolveKey_def)
  have fr: "a_storage a4 = a_storage a" "a_cid a4 = a_cid a" by (simp_all add: a4_def a3_def a2_def a1_def set_runtime_def)
  have len: "length (rg_objs (a_reg a4)) = length (rg_objs g)" by (simp add: a4_def a3_def a2_def)
  have len1: "length (rg_objs (a_reg a1)) = length (rg_objs (a_reg a))" by (simp add: a1_def)
  have before: "state_before a1 ?sid = state_before a ?sid" unfolding state_before_def s1 by (simp add: a1_def)
  have st: "session_state a' = session_state a5" using sh(1) k6 by (simp add: keeps_sessions_def)
  have "session_state a' r = loaded_from env q data a"
    by (simp add: st l(6) fr s4 e(7) before loaded_from_def ts)
  moreover have "session_state a' p = session_state a p" if "p < length (rg_objs (a_reg a))" "p \<noteq> r" for p
    using that e(6,8) l_other [of p] len1 by (simp add: st s4 len s1)
  ultimately show thesis using sh eq res e(9,10)
    by (intro that [where r = r and a' = a']) (simp_all add: keeps_sessions_def a1_def)
qed

section \<open>Cold opens\<close>

text \<open>C2. A cold open loads exactly one session: when the answer to the latest request arrives, its session
  is the active one and the slices of its runtime hold what the history replays to; the slices of every
  other runtime, streaming or not, are as they were; and the ownership of slices and the registry stay
  consistent.\<close>

theorem cold_open_loads:
  assumes "app_ok a" and "i < length (a_opens a)" and "oq_token (a_opens a ! i) = a_selectToken a"
    and "known_key (rg_drafts (a_reg a)) (oq_sessionId (a_opens a ! i))"
    and "a' = open_answered t env i (Loaded data) a"
  shows "app_ok a' \<and> rg_activeKey (a_reg a') = resolveKey (a_reg a) (oq_sessionId (a_opens a ! i)) \<and>
    (\<exists>r. dget (rg_runtimes (a_reg a')) (rg_activeKey (a_reg a')) = Some r \<and>
      session_state a' r = loaded_from env (a_opens a ! i) data a \<and>
      (\<forall>p < length (rg_objs (a_reg a)). p \<noteq> r \<longrightarrow> session_state a' p = session_state a p))"
proof -
  let ?q = "a_opens a ! i"
  define b where "b = a\<lparr>a_opens := drop_nth i (a_opens a)\<rparr>"
  have b: "app_ok b" "a_reg b = a_reg a" "a_selectToken b = a_selectToken a" "loaded_from env ?q data b = loaded_from env ?q data a"
    "session_state b = session_state a"
    using assms(1) by (simp_all add: b_def app_ok_def loaded_from_def state_before_def session_state_def owned_def fun_eq_iff
        split: option.split)
  have eq: "a' = snd (opened env ?q data b)" using assms(2,5) by (simp add: open_answered_def b_def Let_def)
  from assms(3,4) b have k: "known_key (rg_drafts (a_reg b)) (oq_sessionId ?q)" "oq_token ?q = a_selectToken b" by simp_all
  obtain r c where "opened env ?q data b = (True, c)" "app_ok c"
    "rg_activeKey (a_reg c) = resolveKey (a_reg b) (oq_sessionId ?q)"
    "dget (rg_runtimes (a_reg c)) (rg_activeKey (a_reg c)) = Some r" "session_state c r = loaded_from env ?q data b"
    "\<forall>p < length (rg_objs (a_reg b)). p \<noteq> r \<longrightarrow> session_state c p = session_state b p"
    by (rule opened_spec [OF b(1) k, where env = env and data = data]) (rule that)
  with eq b show ?thesis by auto
qed

text \<open>A failed open keeps the previous view: it changes nothing but the list of requests and the
  notices; an expired login adds no notice, since the login screen takes over; every other failure
  adds one error notice, which offers to open the same session again.\<close>

theorem failed_open_keeps_view:
  assumes "i < length (a_opens a)" and "a' = open_answered t env i (LoadFailed e) a"
  shows "a'\<lparr>a_opens := a_opens a, a_toasts := a_toasts a\<rparr> = a \<and>
    (case e of UnauthorizedError m \<Rightarrow> a_toasts a' = a_toasts a
     | _ \<Rightarrow> \<exists>n. toasts (a_toasts a') = filter (\<lambda>x. to_id x \<noteq> to_id n) (toasts (a_toasts a)) @ [n] \<and>
         to_level n = ''error'' \<and> to_action n = retry_action t (a_opens a ! i))"
  using assms by (cases e) (auto simp: open_answered_def open_failed_def push_timed_def toast_entry_def retry_action_def
      jor_def Let_def)

section \<open>Runs of opens and answers\<close>

datatype open_event =
    EvOpen js_env jsval jsval bool
  | EvAnswer js_env nat open_answer
  | EvDraft js_env jsval jsval
  | EvWake nat
  | EvRecap nat "jsval option"
  | EvChat nat "chat \<Rightarrow> chat"
  | EvRekey string string

fun open_step :: "(string \<Rightarrow> string) \<Rightarrow> client_app \<Rightarrow> open_event \<Rightarrow> client_app" where
  "open_step t a (EvOpen env target fork nav) = snd (openSession env target fork nav a)"
| "open_step t a (EvAnswer env i r) = open_answered t env i r a"
| "open_step t a (EvDraft env cwd pending) = snd (newDraftSession env cwd pending a)"
| "open_step t a (EvWake i) = recap_wake i a"
| "open_step t a (EvRecap i r) = recap_answer i r a"
| "open_step t a (EvChat s f) = a\<lparr>a_chat := (a_chat a)(s := f (a_chat a s))\<rparr>"
| "open_step t a (EvRekey old new) = a\<lparr>a_reg := snd (rekeyRuntime old new (a_reg a))\<rparr>"

text \<open>A session id is not of the form of a draft key, unless the registry has minted that key.\<close>

fun open_ok :: "client_app \<Rightarrow> open_event \<Rightarrow> bool" where
  "open_ok a (EvOpen env target fork nav) = known_key (rg_drafts (a_reg a)) (to_str (raw_session_id target))"
| "open_ok a (EvRekey old new) = (\<not> prefix ''draft-'' new)"
| "open_ok a _ = True"

text \<open>Between the answers streams change their chat slices and promote drafts to sessions.\<close>

definition init_app :: "js_env \<Rightarrow> storage \<Rightarrow> client_app" where
  "init_app env st =
     \<lparr>a_reg = foldl (\<lambda>g name. registerSliceFactory name g) (init_registry (env_now env)) slice_names,
      a_chat = (\<lambda>_. createChatStore), a_tasks = (\<lambda>_. createTaskStore), a_ops = (\<lambda>_. createFileOpsStore),
      a_fb = (\<lambda>_. createFileBrowserStore), a_wf = (\<lambda>_. createWorkflowStore), a_storage = st, a_cid = 0, a_replayCid = 0,
      a_lastResponseModel = (\<lambda>_. JUndef), a_ui = createUiStore, a_navTab = ''priva'', a_settings = sg_blank st,
      a_sidebar = sb_initial env st, a_status = createStatusStore env st, a_toasts = no_toasts, a_selectToken = 0,
      a_opens = [], a_generations = dempty, a_polls = []\<rparr>"

definition opens_ok :: "client_app \<Rightarrow> bool" where
  "opens_ok a \<longleftrightarrow> distinct (map oq_token (a_opens a))
     \<and> (\<forall>q \<in> set (a_opens a). oq_token q \<le> a_selectToken a \<and> known_key (rg_drafts (a_reg a)) (oq_sessionId q))"

definition app_inv :: "client_app \<Rightarrow> bool" where
  "app_inv a \<longleftrightarrow> app_ok a \<and> opens_ok a"

lemma drop_nth_set: "x \<in> set (drop_nth i xs) \<Longrightarrow> x \<in> set xs"
  by (auto simp: drop_nth_def dest: in_set_takeD in_set_dropD)

lemma drop_nth_distinct: "distinct (map f xs) \<Longrightarrow> distinct (map f (drop_nth i xs))"
  by (auto simp: drop_nth_def distinct_map_filter take_map [symmetric] drop_map [symmetric] set_take_disj_set_drop_if_distinct)

lemma getSlice_drafts [simp]: "rg_drafts (snd (getSlice now key name g)) = rg_drafts g"
  by (simp add: getSlice_def ensureRuntime_def Let_def case_prod_unfold split: option.split)

text \<open>What none of the steps below the level of \<^verbatim>\<open>openSession\<close> touches.\<close>

definition open_frame :: "client_app \<Rightarrow> open_request list \<times> nat \<times> nat" where
  "open_frame a = (a_opens a, a_selectToken a, rg_drafts (a_reg a))"

lemma slice_of_open_frame [simp]: "open_frame (snd (slice_of now key name a)) = open_frame a"
  using getSlice_drafts [of now key name "a_reg a"]
  by (auto simp: slice_of_def open_frame_def simp del: getSlice_drafts split: prod.split sum.split)

lemma load_open_frame [simp]: "open_frame (snd (load_slices env sid p d m ts a)) = open_frame a"
  by (simp add: load_slices_def Let_def case_prod_unfold open_frame_def slice_of_open_frame [unfolded open_frame_def prod.inject])

lemma ensure_drafts [simp]: "rg_drafts (snd (ensureRuntime now k g)) = rg_drafts g"
  by (simp add: ensureRuntime_def Let_def split: option.split)

lemma setActive_drafts [simp]: "rg_drafts (setActiveKey now k g) = rg_drafts g"
  by (simp add: setActiveKey_def Let_def case_prod_unfold)

lemma evict_loop_drafts [simp]: "rg_drafts (evict_loop lim rts g) = rg_drafts g"
  by (induction rts arbitrary: g) simp_all

lemma small_open_frames [simp]:
  "open_frame (snd (ensure_runtime now k a)) = open_frame a" "open_frame (set_runtime r f a) = open_frame a"
  "open_frame (snapshotActiveUi a) = open_frame a" "open_frame (evict a) = open_frame a"
  "open_frame (activate_model k m a) = open_frame a" "open_frame (show_row env sid row a) = open_frame a"
  "open_frame (refreshSessionRecap sid c n b a) = open_frame a" "open_frame (a\<lparr>a_ui := u\<rparr>) = open_frame a"
  "open_frame (a\<lparr>a_lastResponseModel := l\<rparr>) = open_frame a" "open_frame (a\<lparr>a_navTab := v\<rparr>) = open_frame a"
  "open_frame (a\<lparr>a_reg := setActiveKey now k (a_reg a)\<rparr>) = open_frame a" "open_frame (snd (transform_rows env rows a)) = open_frame a"
  by (simp_all add: open_frame_def ensure_runtime_def set_runtime_def snapshotActiveUi_def evict_def evictIfNeeded_def
      activate_model_def show_row_def refreshSessionRecap_def transform_rows_def Let_def case_prod_unfold split: option.split)

lemma opened_open_frame: "open_frame (snd (opened env q data a)) = open_frame a"
  by (simp add: opened_def show_opened_def Let_def case_prod_unfold)

lemma opens_ok_frame: "open_frame a' = open_frame a \<Longrightarrow> opens_ok a' = opens_ok a"
  by (simp add: opens_ok_def open_frame_def)

lemma app_ok_chat [simp]: "app_ok (a\<lparr>a_chat := c\<rparr>) = app_ok a"
  by (simp add: app_ok_def)

lemma open_app_inv:
  assumes inv: "app_inv a" and known: "known_key (rg_drafts (a_reg a)) (to_str (raw_session_id target))"
  shows "app_inv (snd (openSession env target fork nav a))"
proof -
  from inv have ok: "app_ok a" and op: "opens_ok a" by (simp_all add: app_inv_def)
  from ok have rg: "rg_inv0 (a_reg a)" by (simp add: app_ok_def rg_inv_iff)
  define sid where "sid = resolveKey (a_reg a) (to_str (raw_session_id target))"
  define b where "b = (if nav then a\<lparr>a_navTab := ''priva''\<rparr> else a)"
  have b: "app_ok b" "opens_ok b" "a_reg b = a_reg a" "a_opens b = a_opens a" "a_selectToken b = a_selectToken a"
    using ok op by (auto simp: b_def app_ok_def opens_ok_def)
  have ks: "known_key (rg_drafts (a_reg a)) sid" unfolding sid_def by (rule resolve_known [OF rg known])
  have re: "app_inv (reopen_active env sid row h m b)" for row h m
    using b by (auto simp: reopen_active_def app_inv_def show_row_def activate_model_def app_ok_def opens_ok_def split: option.split)
  have sw: "app_inv (switch_to env sid r row h m b)" if live: "getRuntime (a_reg b) sid = Some r" for r row h m
  proof -
    define c where "c = set_runtime r (\<lambda>rt. rt\<lparr>rt_sidebarRowId := row\<rparr>) (snapshotActiveUi b)"
    define l where "l = (if h \<or> a_lastResponseModel c r = JUndef then (a_lastResponseModel c)(r := m) else a_lastResponseModel c)"
    have kc: "keeps_sessions b c" unfolding c_def
      by (rule keeps_trans [OF snapshot_keeps [OF b(1)] set_runtime_keeps])
        (use snapshot_keeps [OF b(1)] in \<open>simp_all add: keeps_sessions_def\<close>)
    have lc: "getRuntime (a_reg (c\<lparr>a_lastResponseModel := l\<rparr>)) sid = Some r"
      using live by (simp add: c_def getRuntime_def resolveKey_def)
    have "app_ok (c\<lparr>a_lastResponseModel := l\<rparr>)" using kc by (simp add: keeps_sessions_def app_ok_def)
    from setActive_keeps [OF this lc, of "env_now env"]
    have "app_ok (switch_to env sid r row h m b)"
      by (auto simp: switch_to_def c_def [symmetric] l_def Let_def keeps_sessions_def app_ok_def show_row_def activate_model_def)
    moreover have "open_frame (switch_to env sid r row h m b) = open_frame b" by (simp add: switch_to_def Let_def)
    ultimately show ?thesis using b(2) opens_ok_frame [of "switch_to env sid r row h m b" b] by (simp add: app_inv_def)
  qed
  have cold: "app_inv (b\<lparr>a_selectToken := Suc (a_selectToken b), a_opens := a_opens b @ [q]\<rparr>)"
    if "oq_token q = Suc (a_selectToken b)" "oq_sessionId q = sid" for q
    using that b ks by (auto simp: app_inv_def opens_ok_def app_ok_def)
  show ?thesis using inv re sw cold
    by (auto simp: openSession_def Let_def sid_def [symmetric] b_def [symmetric] b(3) split: option.split)
qed

lemma draft_app_inv:
  assumes inv: "app_inv a"
  shows "app_inv (snd (newDraftSession env cwd pending a))"
proof -
  let ?now = "env_now env"
  define b where "b = snapshotActiveUi a"
  from inv have ok: "app_ok b" and op: "opens_ok b"
    using snapshot_keeps [of a] opens_ok_frame [of b a] by (simp_all add: app_inv_def b_def keeps_sessions_def)
  define key where "key = fst (newDraftRuntime ?now (a_reg b))"
  define g where "g = snd (newDraftRuntime ?now (a_reg b))"
  from ok have rg: "rg_inv0 (a_reg b)" by (simp add: app_ok_def rg_inv_iff)
  have act: "rg_inv g" "rg_activeKey g = key" unfolding g_def key_def by (rule newDraft_inv [OF rg])+
  then have live: "getRuntime g key \<noteq> None"
    using alias_dead [of g key] by (auto simp: rg_inv_iff getRuntime_def resolve_one_hop)
  define c where "c = (activate_model key JNull (b\<lparr>a_reg := g,
     a_lastResponseModel := (a_lastResponseModel b)(length (rg_objs (a_reg b)) := JUndef)\<rparr>))"
  define d where "d = c\<lparr>a_ui := applyUiSnapshot JNull (a_ui c), a_sidebar := setActiveSessionId JNull (a_sidebar c)\<rparr>"
  have d: "a_reg d = g" by (simp add: d_def c_def activate_model_def)
  have "slices_ok g" using ok slices_ok_draft by (simp add: g_def app_ok_def)
  moreover have "rg_factories g = rg_factories (a_reg b)" by (simp add: g_def)
  ultimately have okd: "app_ok d" using act(1) ok by (simp add: app_ok_def d)
  have "rg_drafts g = Suc (rg_drafts (a_reg b))" by (simp add: g_def newDraftRuntime_def Let_def)
  then have opd: "opens_ok d" using op known_key_mono [OF _ le_SucI [OF le_refl]]
    by (auto simp: opens_ok_def d) (auto simp: d_def c_def activate_model_def)
  obtain r where r: "getRuntime (a_reg d) key = Some r" using live d by auto
  obtain s e where e: "slice_of ?now key ''chat'' d = (s, e)" "grows key r d e"
    by (rule slice_of_spec [where now = ?now, OF okd r slice_names_mem(1)]) (rule that)
  have oke: "app_ok e" using e(2) by (rule growsD)
  have ope: "opens_ok e" using opd opens_ok_frame [of e d] slice_of_open_frame [of ?now key "''chat''" d] e(1) by simp
  let ?c = "if truthy pending then set_field F_pendingComposerSend pending
      (if truthy cwd then setCwdDraft cwd (a_chat e s) else a_chat e s)
    else if truthy cwd then setCwdDraft cwd (a_chat e s) else a_chat e s"
  have "snd (newDraftSession env cwd pending a) = evict (e\<lparr>a_chat := (a_chat e)(s := ?c)\<rparr>)"
    using e(1) by (simp add: newDraftSession_def Let_def case_prod_unfold b_def [symmetric] key_def [symmetric] g_def [symmetric]
        c_def [symmetric] d_def [symmetric])
  moreover have "app_ok (evict (e\<lparr>a_chat := f\<rparr>))" for f using evict_keeps [of "e\<lparr>a_chat := f\<rparr>"] oke by (simp add: keeps_sessions_def)
  moreover have "opens_ok (evict (e\<lparr>a_chat := f\<rparr>))" for f
    using ope by (subst opens_ok_frame [of _ e]) (simp_all, simp add: open_frame_def)
  ultimately show ?thesis by (simp add: app_inv_def)
qed

lemma rekey_slices_ok: "slices_ok g \<Longrightarrow> slices_ok (snd (rekeyRuntime old new g))"
  by (auto simp: rekeyRuntime_def Let_def split: option.split intro: slices_ok_cong [of g])
    (rule slices_ok_cong [of g], simp_all add: nth_upd)

lemma rekey_rest [simp]:
  "rg_drafts (snd (rekeyRuntime old new g)) = rg_drafts g" "rg_factories (snd (rekeyRuntime old new g)) = rg_factories g"
  by (simp_all add: rekeyRuntime_def Let_def split: option.split)

lemma answered_app_inv:
  assumes inv: "app_inv a"
  shows "app_inv (open_answered t env i response a)"
proof (cases "i < length (a_opens a)")
  case True
  define b where "b = a\<lparr>a_opens := drop_nth i (a_opens a)\<rparr>"
  let ?q = "a_opens a ! i"
  from inv have ok: "app_ok b" by (simp add: app_inv_def app_ok_def b_def)
  have op: "opens_ok b" using inv drop_nth_set [of _ i "a_opens a"] drop_nth_distinct [of oq_token "a_opens a" i]
    by (auto simp: app_inv_def opens_ok_def b_def)
  have known: "known_key (rg_drafts (a_reg b)) (oq_sessionId ?q)" using inv True by (simp add: app_inv_def opens_ok_def b_def)
  show ?thesis
  proof (cases response)
    case (Loaded data)
    have "app_ok (snd (opened env ?q data b))"
    proof (cases "oq_token ?q = a_selectToken b")
      case True
      then show ?thesis by (rule opened_spec [OF ok known, where env = env and data = data]) simp
    qed (simp add: opened_def ok)
    moreover have "opens_ok (snd (opened env ?q data b))"
      using op opens_ok_frame [OF opened_open_frame, of env ?q data b] by simp
    ultimately show ?thesis using True Loaded by (simp add: open_answered_def b_def app_inv_def Let_def)
  next
    case (LoadFailed e)
    moreover have "app_inv (open_failed t now ?q e b)" for now
      using ok op by (cases e) (simp_all add: open_failed_def app_inv_def app_ok_def opens_ok_def)
    ultimately show ?thesis using True by (simp add: open_answered_def b_def Let_def)
  qed
qed (use inv in \<open>simp add: open_answered_def\<close>)

lemma recap_app_inv:
  assumes "app_inv a"
  shows "app_inv (recap_wake i a)" "app_inv (recap_answer i response a)"
proof -
  have "app_inv b" if "a_reg b = a_reg a" "a_opens b = a_opens a" "a_selectToken b = a_selectToken a" for b
    using assms that by (simp add: app_inv_def app_ok_def opens_ok_def)
  then show "app_inv (recap_wake i a)" "app_inv (recap_answer i response a)"
    using assms by (simp_all add: recap_wake_def recap_answer_def recap_done_def recap_next_def Let_def
        split: recap_phase.split option.split list.split)
qed

lemma init_app_inv: "app_inv (init_app env st)"
  by (simp add: app_inv_def app_ok_def opens_ok_def init_app_def slice_names_def registerSliceFactory_def rg_inv_def
      slices_ok_def init_registry_def runtimes_ok_def push_new_def createRuntimeObject_def rt_session_ok_def)

lemma open_step_inv: "app_inv a \<Longrightarrow> open_ok a e \<Longrightarrow> app_inv (open_step t a e)"
proof (cases e)
  case (EvRekey old new)
  assume "app_inv a" "open_ok a e"
  then show ?thesis using EvRekey rekey_inv rekey_slices_ok by (simp add: app_inv_def app_ok_def opens_ok_def)
next
  case (EvChat s f)
  assume "app_inv a"
  then show ?thesis using EvChat by (simp add: app_inv_def opens_ok_def)
qed (simp_all add: open_app_inv answered_app_inv draft_app_inv recap_app_inv)

interpretation switching: machine "init_app env st" "open_step t" open_ok app_inv
  by unfold_locales (simp_all add: init_app_inv open_step_inv)

fun open_ok_run :: "(string \<Rightarrow> string) \<Rightarrow> client_app \<Rightarrow> open_event list \<Rightarrow> bool" where
  "open_ok_run t a [] = True"
| "open_ok_run t a (e # es) = (open_ok a e \<and> open_ok_run t (open_step t a e) es)"

lemma open_ok_run_eq: "open_ok_run t a es = switching.ok_run t a es"
  by (induction es arbitrary: a) simp_all

lemma open_run_inv: "open_ok_run t (init_app env st) es \<Longrightarrow> app_inv (foldl (open_step t) (init_app env st) es)"
  using switching.run_inv [of t env st es] by (simp add: open_ok_run_eq switching.run_foldl)

text \<open>C7. The last cold open wins: after any run of opens, drafts, promotions, stream activity and answers in
  any order, the registry and the ownership of slices are consistent, and of two requests that are still
  under way only the later one can take effect; the answer to the earlier one, however late it comes and
  whatever it holds, only removes the request.\<close>

theorem last_open_wins:
  assumes "open_ok_run t (init_app env0 st) es" and "a = foldl (open_step t) (init_app env0 st) es"
    and "i < length (a_opens a)" and "j < length (a_opens a)" and "i \<noteq> j"
  shows "app_ok a \<and> oq_token (a_opens a ! i) \<noteq> oq_token (a_opens a ! j) \<and>
    (oq_token (a_opens a ! i) < oq_token (a_opens a ! j) \<longrightarrow>
      open_answered t env i (Loaded data) a = a\<lparr>a_opens := drop_nth i (a_opens a)\<rparr>)"
proof -
  have inv: "app_ok a" "opens_ok a" using open_run_inv [OF assms(1)] assms(2) by (simp_all add: app_inv_def)
  from inv(2) assms(3-5) have "oq_token (a_opens a ! i) \<noteq> oq_token (a_opens a ! j)"
    by (auto simp: opens_ok_def distinct_conv_nth)
  moreover have "oq_token (a_opens a ! j) \<le> a_selectToken a" using inv(2) assms(4) by (simp add: opens_ok_def)
  ultimately show ?thesis using inv(1) assms(3) by (simp add: open_answered_def opened_def Let_def)
qed

definition demo_opens :: "open_event list" where
  "demo_opens = [EvOpen (demo_env 1) (JStr ''a'') JNull True, EvOpen (demo_env 2) (JStr ''b'') JNull True]"

theorem last_open_wins_witness:
  "open_answered id (demo_env 3) 0 (Loaded (JObj [])) (foldl (open_step id) (init_app (demo_env 0) demo_storage) demo_opens)
   = (foldl (open_step id) (init_app (demo_env 0) demo_storage) demo_opens)
       \<lparr>a_opens := drop_nth 0 (a_opens (foldl (open_step id) (init_app (demo_env 0) demo_storage) demo_opens))\<rparr>"
proof -
  have "open_ok_run id (init_app (demo_env 0) demo_storage) demo_opens" by code_simp
  moreover have "map oq_token (a_opens (foldl (open_step id) (init_app (demo_env 0) demo_storage) demo_opens)) = [1, 2]"
    by code_simp
  then have "length (a_opens (foldl (open_step id) (init_app (demo_env 0) demo_storage) demo_opens)) = 2"
    "oq_token (a_opens (foldl (open_step id) (init_app (demo_env 0) demo_storage) demo_opens) ! 0) = 1"
    "oq_token (a_opens (foldl (open_step id) (init_app (demo_env 0) demo_storage) demo_opens) ! 1) = 2"
    by (auto dest: map_eq_imp_length_eq simp: map_eq_Cons_conv)
  ultimately show ?thesis
    using last_open_wins [OF _ refl, of id "demo_env 0" demo_storage demo_opens 0 1 "demo_env 3" "JObj []"] by simp
qed

section \<open>Switching between retained sessions\<close>

text \<open>The contents of all slices, and the requests under way.\<close>

definition slice_contents where
  "slice_contents a = (a_chat a, a_tasks a, a_ops a, a_fb a, a_wf a, a_opens a)"

lemma switch_spec:
  assumes ok: "app_ok b" and live: "getRuntime (a_reg b) sid = Some r"
    and act: "getRuntime (a_reg b) (rg_activeKey (a_reg b)) = Some p" and ne: "p \<noteq> r"
    and b': "b' = switch_to env sid r row h m b"
  shows "keeps_sessions b b'" "slice_contents b' = slice_contents b"
    "a_ui b' = applyUiSnapshot (rt_ui (rg_objs (a_reg b) ! r)) (a_ui b)"
    "rt_ui (rg_objs (a_reg b') ! p) = pickUiSnapshot (a_ui b)"
    "rg_runtimes (a_reg b') = rg_runtimes (a_reg b)" "rg_aliases (a_reg b') = rg_aliases (a_reg b)"
    "rg_activeKey (a_reg b') = resolveKey (a_reg b) sid"
proof -
  have inv: "rg_inv (a_reg b)" using ok by (simp add: app_ok_def)
  define c where "c = set_runtime r (\<lambda>rt. rt\<lparr>rt_sidebarRowId := row\<rparr>) (snapshotActiveUi b)"
  define l where "l = (if h \<or> a_lastResponseModel c r = JUndef then (a_lastResponseModel c)(r := m) else a_lastResponseModel c)"
  define d where "d = c\<lparr>a_lastResponseModel := l\<rparr>"
  define e where "e = d\<lparr>a_reg := setActiveKey (env_now env) sid (a_reg d)\<rparr>"
  have kc: "keeps_sessions b c" unfolding c_def
    by (rule keeps_trans [OF snapshot_keeps [OF ok] set_runtime_keeps])
      (use snapshot_keeps [OF ok] in \<open>simp_all add: keeps_sessions_def\<close>)
  have kd: "keeps_sessions b d" unfolding d_def
    by (rule keeps_trans [OF kc frame_keeps(4)]) (use kc in \<open>simp add: keeps_sessions_def\<close>)
  have ld: "getRuntime (a_reg d) sid = Some r" using live by (simp add: d_def c_def getRuntime_def resolveKey_def)
  have okd: "app_ok d" using kd by (simp add: keeps_sessions_def)
  have ke: "keeps_sessions b e" unfolding e_def by (rule keeps_trans [OF kd setActive_keeps [OF okd ld]])
  have eq: "b' = show_row env sid row ((activate_model sid (l r) e)
      \<lparr>a_ui := applyUiSnapshot (rt_ui (rg_objs (a_reg e) ! r)) (a_ui (activate_model sid (l r) e))\<rparr>)"
    by (simp add: b' switch_to_def c_def [symmetric] e_def d_def l_def Let_def activate_model_def)
  have reg: "a_reg b' = a_reg e" by (simp add: eq)
  have "session_state b' = session_state e"
    by (simp add: eq show_row_def activate_model_def session_state_def owned_def fun_eq_iff)
  with ke reg show "keeps_sessions b b'" by (simp add: keeps_sessions_def app_ok_def)
  show "slice_contents b' = slice_contents b"
    by (simp add: slice_contents_def eq show_row_def activate_model_def e_def d_def c_def set_runtime_def snapshotActiveUi_def
        split: option.split)
  have len: "r < length (rg_objs (a_reg b))" "p < length (rg_objs (a_reg b))"
    using live_known(2) [OF inv live] live_known(2) [OF inv act] by simp_all
  have snap: "rg_objs (a_reg c) = (rg_objs (a_reg b))[p := (rg_objs (a_reg b) ! p)\<lparr>rt_ui := pickUiSnapshot (a_ui b)\<rparr>,
      r := (rg_objs (a_reg b) ! r)\<lparr>rt_sidebarRowId := row\<rparr>]"
    using ne by (simp add: c_def snapshotActiveUi_def act set_runtime_def)
  have objs: "rt_ui (rg_objs (a_reg e) ! q) = rt_ui (rg_objs (a_reg c) ! q)" for q
    by (simp add: e_def setActive_live [OF ld] nth_upd) (simp add: d_def)
  have ui: "a_ui e = a_ui b" by (simp add: e_def d_def c_def set_runtime_def snapshotActiveUi_def split: option.split)
  show "a_ui b' = applyUiSnapshot (rt_ui (rg_objs (a_reg b) ! r)) (a_ui b)"
    using len ne by (simp add: eq show_row_def activate_model_def objs snap ui)
  show "rt_ui (rg_objs (a_reg b') ! p) = pickUiSnapshot (a_ui b)" using len ne by (simp add: reg objs snap)
  have invd: "rg_inv (a_reg d)" using okd by (simp add: app_ok_def)
  have dr: "rg_runtimes (a_reg d) = rg_runtimes (a_reg b)" "rg_aliases (a_reg d) = rg_aliases (a_reg b)"
    by (simp_all add: d_def c_def)
  show "rg_runtimes (a_reg b') = rg_runtimes (a_reg b)" "rg_aliases (a_reg b') = rg_aliases (a_reg b)"
    "rg_activeKey (a_reg b') = resolveKey (a_reg b) sid"
    using setActive_reg [OF invd ld, of "env_now env"] dr by (simp_all add: reg e_def resolveKey_def)
qed

lemma resolve_idem: "rg_inv0 g \<Longrightarrow> resolveKey g (resolveKey g k) = resolveKey g k"
  using resolve_not_alias [of g k] by (simp add: resolve_one_hop [of g "resolveKey g k"])

lemma active_live:
  assumes "app_ok a"
  obtains p where "getRuntime (a_reg a) (rg_activeKey (a_reg a)) = Some p" "resolveKey (a_reg a) (rg_activeKey (a_reg a)) = rg_activeKey (a_reg a)"
proof -
  from assms have inv: "rg_inv0 (a_reg a)" and act: "dget (rg_runtimes (a_reg a)) (rg_activeKey (a_reg a)) \<noteq> None"
    by (simp_all add: app_ok_def rg_inv_iff)
  then have "resolveKey (a_reg a) (rg_activeKey (a_reg a)) = rg_activeKey (a_reg a)"
    using alias_dead [OF inv act] by (simp add: resolve_one_hop)
  then show thesis using act that by (auto simp: getRuntime_def)
qed

text \<open>Opening a retained session by its id, or by a former id of it, is one switch.\<close>

lemma open_retained:
  assumes ok: "app_ok a" and k: "k \<noteq> []" and live: "getRuntime (a_reg a) k = Some r"
    and other: "resolveKey (a_reg a) k \<noteq> rg_activeKey (a_reg a)"
  obtains p b h m where "openSession env (JStr k) fork nav a = (Some True, switch_to env (resolveKey (a_reg a) k) r (JStr k) h m b)"
    "b = a \<or> b = a\<lparr>a_navTab := ''priva''\<rparr>" "p \<noteq> r" "getRuntime (a_reg a) (rg_activeKey (a_reg a)) = Some p"
    "getRuntime (a_reg a) (resolveKey (a_reg a) k) = Some r"
proof -
  from ok have inv: "rg_inv (a_reg a)" "rg_inv0 (a_reg a)" by (simp_all add: app_ok_def rg_inv_iff)
  obtain p where p: "getRuntime (a_reg a) (rg_activeKey (a_reg a)) = Some p"
    "resolveKey (a_reg a) (rg_activeKey (a_reg a)) = rg_activeKey (a_reg a)" by (rule active_live [OF ok])
  have live': "getRuntime (a_reg a) (resolveKey (a_reg a) k) = Some r"
    using live by (simp add: getRuntime_def resolve_idem [OF inv(2)])
  have ne: "p \<noteq> r" using live_known(3) [OF inv(1) live] live_known(3) [OF inv(1) p(1)] other p(2) by auto
  show thesis using k other ne p(1) live'
    by (intro that [where p = p and b = "if nav then a\<lparr>a_navTab := ''priva''\<rparr> else a" and
          h = "has_row_model (JStr k) a" and m = "row_response_model (JStr k) a"])
      (auto simp: openSession_def raw_session_id_def target_row_def Let_def)
qed

lemma apply_pick:
  "applyUiSnapshot (pickUiSnapshot u) v =
     (if truthy (ui_canvasVisible u) \<and> ui_activeCanvasTab u \<noteq> JStr ''menu''
      then setActiveCanvasTab (ui_activeCanvasTab u) (u\<lparr>ui_lastResult := ui_lastResult v\<rparr>)
      else u\<lparr>ui_lastResult := ui_lastResult v\<rparr>)"
  by (simp add: applyUiSnapshot_def pickUiSnapshot_def DEFAULT_UI_SNAPSHOT_def jspread_def jput_def jor_def
      show_active_tab_def set_ui_fields_def setActiveCanvasTab_def Let_def)

lemma apply_lastResult: "ui_lastResult (applyUiSnapshot s v) = ui_lastResult v"
  by (simp add: applyUiSnapshot_def show_active_tab_def set_ui_fields_def setActiveCanvasTab_def Let_def)

text \<open>C10. Switching away and back restores a session: opening another session that is retained changes the
  contents of no slice and sends no request, so live streams go on; and opening the first session again
  brings its canvas, plan and summary back as they were, except that the tab shown on a visible canvas
  is then among the open tabs.\<close>

theorem switching_back_restores:
  assumes "app_ok a" and "k \<noteq> []" and "rg_activeKey (a_reg a) \<noteq> []" and "getRuntime (a_reg a) k = Some r"
    and "resolveKey (a_reg a) k \<noteq> rg_activeKey (a_reg a)"
    and "a1 = snd (openSession env (JStr k) fork nav a)"
    and "a2 = snd (openSession env' (JStr (rg_activeKey (a_reg a))) fork' nav' a1)"
  shows "rg_activeKey (a_reg a1) = resolveKey (a_reg a) k \<and> rg_activeKey (a_reg a2) = rg_activeKey (a_reg a) \<and>
    slice_contents a1 = slice_contents a \<and> slice_contents a2 = slice_contents a \<and>
    a_ui a2 = (if truthy (ui_canvasVisible (a_ui a)) \<and> ui_activeCanvasTab (a_ui a) \<noteq> JStr ''menu''
               then setActiveCanvasTab (ui_activeCanvasTab (a_ui a)) (a_ui a) else a_ui a)"
proof -
  let ?A = "rg_activeKey (a_reg a)"
  obtain p b h m where o1: "openSession env (JStr k) fork nav a = (Some True, switch_to env (resolveKey (a_reg a) k) r (JStr k) h m b)"
    and b: "b = a \<or> b = a\<lparr>a_navTab := ''priva''\<rparr>" and ne: "p \<noteq> r" and p: "getRuntime (a_reg a) ?A = Some p"
    and live: "getRuntime (a_reg a) (resolveKey (a_reg a) k) = Some r"
    by (rule open_retained [OF assms(1,2,4,5)])
  have bs: "app_ok b" "a_reg b = a_reg a" "a_ui b = a_ui a" "slice_contents b = slice_contents a"
    using assms(1) b by (auto simp: app_ok_def slice_contents_def)
  have inv0: "rg_inv0 (a_reg a)" using assms(1) by (simp add: app_ok_def rg_inv_iff)
  have a1: "a1 = switch_to env (resolveKey (a_reg a) k) r (JStr k) h m b" using assms(6) o1 by simp
  note s1 = switch_spec [OF bs(1) live [folded bs(2)] p [folded bs(2)] ne a1 [folded bs(2)], unfolded bs(2)]
  have ok1: "app_ok a1" using s1(1) by (simp add: keeps_sessions_def)
  have act1: "rg_activeKey (a_reg a1) = resolveKey (a_reg a) k" by (simp add: s1(7) resolve_idem [OF inv0])
  have res: "resolveKey (a_reg a1) x = resolveKey (a_reg a) x" for x by (rule resolve_cong [OF s1(6)])
  have get: "getRuntime (a_reg a1) x = getRuntime (a_reg a) x" for x by (rule getRuntime_cong [OF s1(5,6)])
  have A: "resolveKey (a_reg a) ?A = ?A" by (rule active_live [OF assms(1)])
  have p1: "getRuntime (a_reg a1) ?A = Some p" by (simp add: get p)
  have ne1: "resolveKey (a_reg a1) ?A \<noteq> rg_activeKey (a_reg a1)" using assms(5) by (simp add: res A act1)
  obtain p' b' h' m' where o2: "openSession env' (JStr ?A) fork' nav' a1 =
      (Some True, switch_to env' (resolveKey (a_reg a1) ?A) p (JStr ?A) h' m' b')"
    and b': "b' = a1 \<or> b' = a1\<lparr>a_navTab := ''priva''\<rparr>" and ne': "p' \<noteq> p"
    and p': "getRuntime (a_reg a1) (rg_activeKey (a_reg a1)) = Some p'"
    and live': "getRuntime (a_reg a1) (resolveKey (a_reg a1) ?A) = Some p"
    by (rule open_retained [OF ok1 assms(3) p1 ne1])
  have bs': "app_ok b'" "a_reg b' = a_reg a1" "a_ui b' = a_ui a1" "slice_contents b' = slice_contents a1"
    using ok1 b' by (auto simp: app_ok_def slice_contents_def)
  have a2: "a2 = switch_to env' (resolveKey (a_reg a1) ?A) p (JStr ?A) h' m' b'" using assms(7) o2 by simp
  note s2 = switch_spec [OF bs'(1) live' [folded bs'(2)] p' [folded bs'(2)] ne' a2 [folded bs'(2)], unfolded bs'(2)]
  have "a_ui a2 = applyUiSnapshot (pickUiSnapshot (a_ui a)) (a_ui a1)" using s2(3) s1(4) by (simp add: bs' bs(3))
  moreover have "ui_lastResult (a_ui a1) = ui_lastResult (a_ui a)" using s1(3) by (simp add: apply_lastResult bs(3))
  ultimately show ?thesis using s1(2) s2(2,7) act1 A by (simp add: apply_pick bs(4) bs'(4) res)
qed

definition demo_pending :: client_app where
  "demo_pending = open_step id (init_app (demo_env 0) demo_storage) (EvOpen (demo_env 1) (JStr ''a'') JNull True)"

definition demo_drafted :: client_app where
  "demo_drafted = open_step id demo_pending (EvDraft (demo_env 2) JNull JNull)"

lemma demo_apps_ok: "app_inv demo_pending" "app_inv demo_drafted"
proof -
  show "app_inv demo_pending" unfolding demo_pending_def by (rule open_step_inv [OF init_app_inv]) code_simp
  then show "app_inv demo_drafted" unfolding demo_drafted_def by (rule open_step_inv) simp
qed

lemma demo_pending_facts:
  "length (a_opens demo_pending) = 1" "map oq_token (a_opens demo_pending) = [a_selectToken demo_pending]"
  "map oq_sessionId (a_opens demo_pending) = [''a'']" "rg_activeKey (a_reg demo_pending) = ''draft-1''"
  by code_simp+

lemma demo_drafted_facts:
  "rg_activeKey (a_reg demo_drafted) = ''draft-2''" "getRuntime (a_reg demo_drafted) ''draft-1'' = Some 0"
  "resolveKey (a_reg demo_drafted) ''draft-1'' = ''draft-1''"
  by code_simp+

lemma demo_request:
  "oq_token (a_opens demo_pending ! 0) = a_selectToken demo_pending" "oq_sessionId (a_opens demo_pending ! 0) = ''a''"
  using demo_pending_facts by (simp_all add: map_eq_Cons_conv) auto

theorem cold_open_loads_witness:
  "\<exists>r. dget (rg_runtimes (a_reg (open_answered id (demo_env 2) 0 (Loaded (JObj [])) demo_pending))) ''a'' = Some r \<and>
     session_state (open_answered id (demo_env 2) 0 (Loaded (JObj [])) demo_pending) r =
       loaded_from (demo_env 2) (a_opens demo_pending ! 0) (JObj []) demo_pending"
proof -
  have "resolveKey (a_reg demo_pending) ''a'' = ''a''" by code_simp
  then show ?thesis
    using cold_open_loads [OF _ _ demo_request(1) _ refl, of id "demo_env 2" "JObj []"] demo_apps_ok(1) demo_pending_facts(1)
      demo_request(2) by (auto simp: app_inv_def known_key_def)
qed

theorem failed_open_keeps_view_witness:
  "a_chat (open_answered id (demo_env 2) 0 (LoadFailed NetworkError) demo_pending) = a_chat demo_pending \<and>
   toasts (a_toasts (open_answered id (demo_env 2) 0 (LoadFailed NetworkError) demo_pending)) \<noteq> []"
proof -
  define a' where "a' = open_answered id (demo_env 2) 0 (LoadFailed NetworkError) demo_pending"
  have "0 < length (a_opens demo_pending)" using demo_pending_facts(1) by simp
  note f = failed_open_keeps_view [OF this a'_def]
  from arg_cong [OF conjunct1 [OF f], of a_chat] have "a_chat a' = a_chat demo_pending" by simp
  with f show ?thesis unfolding a'_def [symmetric] by auto
qed

theorem switching_back_restores_witness:
  "rg_activeKey (a_reg (snd (openSession (demo_env 4) (JStr ''draft-2'') JNull True
     (snd (openSession (demo_env 3) (JStr ''draft-1'') JNull True demo_drafted))))) = ''draft-2''"
  using switching_back_restores [OF _ _ _ demo_drafted_facts(2) _ refl refl, of "demo_env 3" JNull True "demo_env 4" JNull True]
    demo_apps_ok(2) demo_drafted_facts by (simp add: app_inv_def)

section \<open>When a slow answer arrives\<close>

lemma answered_reg:
  assumes "app_ok a" and "i < length (a_opens a)" and "oq_token (a_opens a ! i) = a_selectToken a"
    and "known_key (rg_drafts (a_reg a)) (oq_sessionId (a_opens a ! i))"
  shows "rg_activeKey (a_reg (open_answered t env i (Loaded data) a)) = resolveKey (a_reg a) (oq_sessionId (a_opens a ! i))"
    and "getRuntime (a_reg a) (oq_sessionId (a_opens a ! i)) = Some r \<Longrightarrow>
      session_state (open_answered t env i (Loaded data) a) r = loaded_from env (a_opens a ! i) data a"
proof -
  let ?q = "a_opens a ! i"
  define b where "b = a\<lparr>a_opens := drop_nth i (a_opens a)\<rparr>"
  have b: "app_ok b" "a_reg b = a_reg a" "loaded_from env ?q data b = loaded_from env ?q data a"
    "known_key (rg_drafts (a_reg b)) (oq_sessionId ?q)" "oq_token ?q = a_selectToken b"
    using assms by (simp_all add: b_def app_ok_def loaded_from_def state_before_def session_state_def owned_def split: option.split)
  have eq: "open_answered t env i (Loaded data) a = snd (opened env ?q data b)" using assms(2) by (simp add: open_answered_def b_def Let_def)
  obtain s c where "opened env ?q data b = (True, c)" "rg_activeKey (a_reg c) = resolveKey (a_reg b) (oq_sessionId ?q)"
    "session_state c s = loaded_from env ?q data b" "\<forall>r0. getRuntime (a_reg b) (oq_sessionId ?q) = Some r0 \<longrightarrow> s = r0"
    by (rule opened_spec [OF b(1,4,5), where env = env and data = data]) (rule that)
  with eq b show "rg_activeKey (a_reg (open_answered t env i (Loaded data) a)) = resolveKey (a_reg a) (oq_sessionId ?q)"
    "getRuntime (a_reg a) (oq_sessionId ?q) = Some r \<Longrightarrow>
      session_state (open_answered t env i (Loaded data) a) r = loaded_from env ?q data a" by auto
qed

text \<open>C38. Only cold opens are ordered by the select token: when the user opens a session that has to be
  fetched and, before the answer comes, switches to a retained one, the late answer takes the view away
  from the session chosen last.\<close>

theorem slow_open_overrides_switch:
  assumes "app_ok a" and "i < length (a_opens a)" and "oq_token (a_opens a ! i) = a_selectToken a"
    and "known_key (rg_drafts (a_reg a)) (oq_sessionId (a_opens a ! i))"
    and "k \<noteq> []" and "getRuntime (a_reg a) k = Some r" and "resolveKey (a_reg a) k \<noteq> rg_activeKey (a_reg a)"
    and "a1 = snd (openSession env (JStr k) fork nav a)"
  shows "rg_activeKey (a_reg a1) = resolveKey (a_reg a) k \<and>
    rg_activeKey (a_reg (open_answered t env' i (Loaded data) a1)) = resolveKey (a_reg a) (oq_sessionId (a_opens a ! i))"
proof -
  obtain p b h m where o1: "openSession env (JStr k) fork nav a = (Some True, switch_to env (resolveKey (a_reg a) k) r (JStr k) h m b)"
    and b: "b = a \<or> b = a\<lparr>a_navTab := ''priva''\<rparr>" and ne: "p \<noteq> r" and p: "getRuntime (a_reg a) (rg_activeKey (a_reg a)) = Some p"
    and live: "getRuntime (a_reg a) (resolveKey (a_reg a) k) = Some r"
    by (rule open_retained [OF assms(1,5,6,7)])
  have bs: "app_ok b" "a_reg b = a_reg a" "open_frame b = open_frame a" using assms(1) b by (auto simp: app_ok_def)
  have a1: "a1 = switch_to env (resolveKey (a_reg a) k) r (JStr k) h m b" using assms(8) o1 by simp
  note s1 = switch_spec [OF bs(1) live [folded bs(2)] p [folded bs(2)] ne a1 [folded bs(2)], unfolded bs(2)]
  have inv0: "rg_inv0 (a_reg a)" using assms(1) by (simp add: app_ok_def rg_inv_iff)
  have "open_frame a1 = open_frame a" using bs(3) by (simp add: a1 switch_to_def Let_def)
  then have f: "a_opens a1 = a_opens a" "a_selectToken a1 = a_selectToken a" "rg_drafts (a_reg a1) = rg_drafts (a_reg a)"
    by (simp_all add: open_frame_def)
  have "app_ok a1" using s1(1) by (simp add: keeps_sessions_def)
  with answered_reg(1) [of a1 i] f assms(2-4)
  have "rg_activeKey (a_reg (open_answered t env' i (Loaded data) a1)) = resolveKey (a_reg a1) (oq_sessionId (a_opens a ! i))" by simp
  then show ?thesis using s1(7) by (simp add: resolve_cong [OF s1(6)] resolve_idem [OF inv0])
qed

text \<open>C39. A cold open does not look whether its session has come alive in the meantime: when a stream was
  attached to the runtime while the history was on its way, the load clears the streaming mark and moves
  the generation on, so the stream is stale from then on and its events are dropped.\<close>

theorem late_open_orphans_stream:
  assumes "app_ok a" and "i < length (a_opens a)" and "oq_token (a_opens a ! i) = a_selectToken a"
    and "known_key (rg_drafts (a_reg a)) (oq_sessionId (a_opens a ! i))"
    and "getRuntime (a_reg a) (oq_sessionId (a_opens a ! i)) = Some r" and "st_chat (session_state a r) = Some c"
    and "c_isStreaming c = JBool True"
  shows "\<exists>c'. st_chat (session_state (open_answered t env i (Loaded data) a) r) = Some c' \<and> c_isStreaming c' = JBool False \<and>
    (\<forall>d. sm_gen (d_sm d) = c_streamGeneration c \<and> chat_of d = c' \<longrightarrow> is_stale d)"
  using answered_reg(2) [OF assms(1-5), of t env data] assms(5,6)
  by (simp add: loaded_from_def loaded_state_def state_before_def loadSession_def is_stale_def Let_def)

lemma demo_drafted_request:
  "length (a_opens demo_drafted) = 1" "oq_token (a_opens demo_drafted ! 0) = a_selectToken demo_drafted"
  "oq_sessionId (a_opens demo_drafted ! 0) = ''a''" "resolveKey (a_reg demo_drafted) ''a'' = ''a''"
  by code_simp+

theorem slow_open_overrides_switch_witness:
  "rg_activeKey (a_reg (open_answered id (demo_env 4) 0 (Loaded (JObj []))
     (snd (openSession (demo_env 3) (JStr ''draft-1'') JNull True demo_drafted)))) = ''a''"
  using slow_open_overrides_switch [OF _ _ demo_drafted_request(2) _ _ demo_drafted_facts(2) _ refl, of "demo_env 3" JNull True id
      "demo_env 4" "JObj []"] demo_apps_ok(2) demo_drafted_facts demo_drafted_request
  by (simp add: app_inv_def known_key_def)

definition demo_live :: client_app where
  "demo_live = open_step id (open_step id demo_drafted (EvChat 0 (set_field F_isStreaming (JBool True)))) (EvRekey ''draft-2'' ''a'')"

lemma demo_live_facts:
  "length (a_opens demo_live) = 1" "oq_token (a_opens demo_live ! 0) = a_selectToken demo_live"
  "oq_sessionId (a_opens demo_live ! 0) = ''a''" "getRuntime (a_reg demo_live) ''a'' = Some 1"
  "owned demo_live 1 ''chat'' = Some 0" "c_isStreaming (a_chat demo_live 0) = JBool True"
  by code_simp+

lemma demo_live_ok: "app_ok demo_live"
proof -
  have "app_inv demo_live" unfolding demo_live_def by (intro open_step_inv demo_apps_ok(2)) (simp, code_simp)
  then show ?thesis by (simp add: app_inv_def)
qed

theorem late_open_orphans_stream_witness:
  "\<exists>c'. st_chat (session_state (open_answered id (demo_env 5) 0 (Loaded (JObj [])) demo_live) 1) = Some c' \<and>
     c_isStreaming c' = JBool False"
  using late_open_orphans_stream [OF demo_live_ok _ demo_live_facts(2), of 1 "a_chat demo_live 0" id "demo_env 5" "JObj []"]
    demo_live_facts by (auto simp: known_key_def session_state_def)

section \<open>Polls for a recap\<close>

text \<open>A poll that is not the current one of its session writes nothing, whatever it is answered.\<close>

lemma superseded_poll_silent:
  assumes "i < length (a_polls a)" and "\<not> current (a_polls a ! i) a"
  shows "a_chat (recap_answer i response a) = a_chat a \<and> a_generations (recap_answer i response a) = a_generations a"
  using assms by (auto simp: recap_answer_def Let_def split: option.split)

text \<open>Every poll asks three times at most: each answer removes it or uses up one of its pauses.\<close>

definition asks_left :: "recap_poll \<Rightarrow> nat" where
  "asks_left p = Suc (length (rp_delays p))"

lemma poll_asks_bounded:
  assumes "i < length (a_polls a)" and "rp_phase (a_polls a ! i) = Asking"
  shows "a_polls (recap_answer i response a) = drop_nth i (a_polls a) \<or>
    (\<exists>p. a_polls (recap_answer i response a) = (a_polls a)[i := p] \<and> Suc (asks_left p) = asks_left (a_polls a ! i))"
  using assms by (auto simp: recap_answer_def recap_next_def recap_done_def asks_left_def Let_def split: option.split list.split)

text \<open>
  The generation of a session starts over once a poll has finished, so a poll that was superseded can
  become the current one again: the first poll sleeps, a second one supersedes it and finishes, and a
  third one gets the number of the first.
\<close>

definition recap_scenario :: "string \<Rightarrow> client_app \<Rightarrow> client_app" where
  "recap_scenario sid a =
     (let a1 = recap_answer 0 (Some (JObj [])) (refreshSessionRecap sid 0 0 True a);
          a2 = refreshSessionRecap sid 0 0 True a1;
          a3 = recap_answer 1 (Some (JObj [(''recap'', JStr ''r''), (''turns'', JNum 2)])) a2
      in refreshSessionRecap sid 0 0 True a3)"

lemma superseded_poll_revives:
  assumes "sid \<noteq> []" and "a_polls a = []" and "generation_of sid a = None"
  shows "length (a_polls (recap_scenario sid a)) = 2 \<and>
    current (a_polls (recap_scenario sid a) ! 0) (recap_scenario sid a) \<and>
    current (a_polls (recap_scenario sid a) ! 1) (recap_scenario sid a)"
  using assms
  by (simp add: recap_scenario_def refreshSessionRecap_def recap_answer_def recap_next_def recap_done_def current_def
      generation_of_def ATTEMPT_DELAYS_MS_def drop_nth_def recap_turns_def jor_def Let_def)

end
