(* ===== verification/Reconcile.thy ===== *)
theory Reconcile
  imports SessionSwitch
begin

text \<open>
  Rejoining the runs of the backend (\<^verbatim>\<open>web/user/src/session/attachBoot.js\<close>): a pass asks for the
  running sessions, loads the history of each one that has no live stream, cut where the run began, and
  attaches a stream; a pass that missed one is repeated after a growing pause.

  A pass is a state machine over its requests: waiting for the list, waiting for the history of a run
  (with the chat slice the loop captured, the runs still to do and the outcome so far), or idle. Attaching
  goes through \<open>attachToRunningSession\<close> of the dispatcher, on the slices of the runtime. The functions a
  transport returns are references, as there.
\<close>

section \<open>State\<close>

datatype rc_phase = Idle | AskList | AskMessages jsval nat "jsval list" bool

record reconciler =
  rc_app :: client_app
  rc_streams :: "nat \<Rightarrow> stream"
  rc_attached :: "(string \<times> int) list"
  rc_token :: bool
  rc_pane :: bool
  rc_visible :: bool
  rc_listeners :: bool
  rc_retryTimer :: "int option"
  rc_retryAttempt :: nat
  rc_phase :: rc_phase

definition RECONCILE_BACKOFF_MS :: "int list" where
  "RECONCILE_BACKOFF_MS = [1000, 2000, 4000, 8000, 16000, 30000]"

definition clearRetry :: "reconciler \<Rightarrow> reconciler" where
  "clearRetry s = s\<lparr>rc_retryTimer := None, rc_retryAttempt := 0\<rparr>"

definition scheduleRetry :: "reconciler \<Rightarrow> reconciler" where
  "scheduleRetry s =
     (if rc_retryTimer s \<noteq> None \<or> \<not> rc_token s then s
      else (let index = min (rc_retryAttempt s) (length RECONCILE_BACKOFF_MS - 1)
            in s\<lparr>rc_retryTimer := Some (RECONCILE_BACKOFF_MS ! index), rc_retryAttempt := Suc (rc_retryAttempt s)\<rparr>))"

section \<open>Loading the history before a run\<close>

text \<open>A row of a subagent that was written after the run began.\<close>

definition in_run :: "js_env \<Rightarrow> int \<Rightarrow> jsval \<Rightarrow> bool" where
  "in_run env startMs message \<longleftrightarrow>
     truthy (jget message ''parent_tool_use_id'') \<and>
     (case env_date_parse env (to_str (jor (jor (jget (jget message ''metadata'') ''timestamp'') (jget message ''timestamp'')) (JStr [])))
      of Some timestamp \<Rightarrow> timestamp \<ge> startMs | None \<Rightarrow> False)"

definition start_ms :: "js_env \<Rightarrow> jsval \<Rightarrow> int option" where
  "start_ms env run =
     (if truthy (jget run ''started_at'')
      then (case js_number env (jget run ''started_at'') of Some n \<Rightarrow> (if n = 0 then None else Some (n * 1000)) | None \<Rightarrow> None)
      else None)"

definition history_rows :: "js_env \<Rightarrow> bool \<Rightarrow> jsval \<Rightarrow> jsval list \<Rightarrow> jsval list" where
  "history_rows env includeCurrentRun run rows =
     (if \<not> includeCurrentRun \<and> truthy (jget run ''first_user_uuid'')
      then (case find_index (\<lambda>message. jeq (jget message ''uuid'') (jget run ''first_user_uuid'')) rows of
              None \<Rightarrow> rows
            | Some first \<Rightarrow>
                (case start_ms env run of
                   Some startMs \<Rightarrow> filter (\<lambda>message. \<not> in_run env startMs message) (take first rows)
                 | None \<Rightarrow> take first rows))
      else rows)"

definition prefer_summary :: "transcript \<Rightarrow> bool" where
  "prefer_summary ts \<longleftrightarrow>
     hasSessionSummaryActivity (ts_fileBrowserTabs ts) (ts_fileOps ts) (ts_messages ts) (sub_val (ts_subagents ts))"

definition parked_ui :: "transcript \<Rightarrow> runtime \<Rightarrow> runtime" where
  "parked_ui ts rt =
     (let ui = jor (rt_ui rt) (JObj [])
      in if prefer_summary ts
         then rt\<lparr>rt_ui := jput ui [(''canvasVisible'', JBool False), (''sessionSummaryOpen'', JBool True)]\<rparr>
         else if hasCanvasInspectorItems (ts_messages ts) (ts_tracker ts)
         then rt\<lparr>rt_ui := jput ui [(''canvasVisible'', JBool True), (''canvasMinimized'', JBool False),
                (''activeCanvasTab'', JStr ''tasks''), (''canvasOpenTabs'', JArr [JStr ''tasks''])]\<rparr>
         else rt)"

definition hydrateRuntime :: "js_env \<Rightarrow> string \<Rightarrow> jsval \<Rightarrow> jsval \<Rightarrow> bool \<Rightarrow> client_app \<Rightarrow> client_app" where
  "hydrateRuntime env sid run data includeCurrentRun a =
     (let rows = history_rows env includeCurrentRun run (arr_of (jor (jget data ''messages'') (JArr [])));
          (ts, a1) = transform_rows env rows a;
          (r, a2) = ensure_runtime (env_now env) sid a1;
          a3 = set_runtime r (\<lambda>rt. rt\<lparr>rt_sidebarRowId := JStr sid\<rparr>) a2;
          (chat, a4) = load_slices env sid JNull (jor (jget data ''add_dirs'') (JArr []))
                         (jor (jget data ''run_mode'') (jget run ''run_mode'')) ts a3
      in set_runtime r (parked_ui ts) a4)"

section \<open>Attaching\<close>

definition or_fresh :: "(nat \<Rightarrow> 'a) \<Rightarrow> 'a \<Rightarrow> nat option \<Rightarrow> 'a" where
  "or_fresh f d ref = (case ref of Some s \<Rightarrow> f s | None \<Rightarrow> d)"

text \<open>The slices of a runtime as the dispatcher sees them.\<close>

definition disp_of :: "client_app \<Rightarrow> nat \<Rightarrow> nat \<Rightarrow> stream \<Rightarrow> disp" where
  "disp_of a r chat sm =
     \<lparr>d_w = \<lparr>w_chat = a_chat a chat, w_storage = a_storage a, w_cid = a_cid a\<rparr>,
      d_tasks = or_fresh (a_tasks a) createTaskStore (owned a r ''tasks''),
      d_ops = or_fresh (a_ops a) createFileOpsStore (owned a r ''fileOps''),
      d_fb = or_fresh (a_fb a) createFileBrowserStore (owned a r ''fileBrowser''),
      d_wf = or_fresh (a_wf a) createWorkflowStore (owned a r ''workflow''),
      d_status = a_status a, d_ui = a_ui a, d_toasts = abs_toasts (a_toasts a), d_sidebar = sb_sessions (a_sidebar a),
      d_reg = a_reg a, d_rt = r, d_out = [], d_sm = sm\<rparr>"

definition settings_view :: "settings \<Rightarrow> jsval" where
  "settings_view s = JObj [(''draftRunMode'', JStr (sg_draftRunMode s))]"

text \<open>
  An attach writes the chat slice, the status of the session and its stream (lemma \<open>attach_writes\<close>), so
  these are what comes back; the call of the transport is recorded with the sequence number it starts at.
\<close>

definition attach_run :: "js_env \<Rightarrow> transport \<Rightarrow> string \<Rightarrow> int \<Rightarrow> reconciler \<Rightarrow> reconciler" where
  "attach_run env tp sid sinceSeq s =
     (let (r, a1) = ensure_runtime (env_now env) (resolveKey (a_reg (rc_app s)) sid) (rc_app s);
          (chat, a2) = slice_of (env_now env) (rt_key (rg_objs (a_reg a1) ! r)) ''chat'' a1;
          d = attachToRunningSession env (settings_view (a_settings a2)) tp sid (disp_of a2 r chat (rc_streams s r))
      in s\<lparr>rc_app := a2\<lparr>a_chat := (a_chat a2)(chat := chat_of d), a_status := d_status d\<rparr>,
           rc_streams := (rc_streams s)(r := d_sm d),
           rc_attached := (if d_out d = [] then rc_attached s else rc_attached s @ [(sid, sinceSeq)])\<rparr>)"

section \<open>A pass\<close>

definition finish_pass :: "bool \<Rightarrow> reconciler \<Rightarrow> reconciler" where
  "finish_pass succeeded s = (if succeeded then clearRetry s else scheduleRetry s)\<lparr>rc_phase := Idle\<rparr>"

text \<open>The loop up to its next request.\<close>

fun next_run :: "js_env \<Rightarrow> jsval list \<Rightarrow> bool \<Rightarrow> reconciler \<Rightarrow> reconciler" where
  "next_run env [] allAttached s = finish_pass allAttached s"
| "next_run env (run # runs) allAttached s =
     (if \<not> truthy (jget run ''session_id'') then next_run env runs False s
      else (let (r, a1) = ensure_runtime (env_now env) (to_str (jget run ''session_id'')) (rc_app s);
                (chat, a2) = slice_of (env_now env) (rt_key (rg_objs (a_reg a1) ! r)) ''chat'' a1;
                s1 = s\<lparr>rc_app := a2\<rparr>
            in if truthy (c_isStreaming (a_chat a2 chat)) then next_run env runs allAttached s1
               else s1\<lparr>rc_phase := AskMessages run chat runs allAttached\<rparr>))"

definition list_answered :: "js_env \<Rightarrow> jsval option \<Rightarrow> reconciler \<Rightarrow> reconciler" where
  "list_answered env response s =
     (case rc_phase s of
        AskList \<Rightarrow>
          (case response of
             None \<Rightarrow> finish_pass False s
           | Some data \<Rightarrow> next_run env (arr_of (jget data ''running'')) True s)
      | _ \<Rightarrow> s)"

definition join_run :: "js_env \<Rightarrow> transport \<Rightarrow> jsval \<Rightarrow> jsval \<Rightarrow> reconciler \<Rightarrow> bool \<times> reconciler" where
  "join_run env tp run data s =
     (let sid = to_str (jget run ''session_id'');
          replayGap = (case js_number env (jget data ''live_first_seq'') of Some n \<Rightarrow> n > 1 | None \<Rightarrow> False);
          barrierSeq = js_number env (jget data ''live_seq'')
      in if \<not> jeq (jget data ''live_run_id'') (jget run ''run_id'') then (False, s)
         else if replayGap \<and> barrierSeq = None then (False, s)
         else (True, attach_run env tp sid (case barrierSeq of Some n \<Rightarrow> if replayGap then n else 0 | None \<Rightarrow> 0)
                (s\<lparr>rc_app := hydrateRuntime env sid run data replayGap (rc_app s)\<rparr>)))"

definition messages_answered :: "js_env \<Rightarrow> transport \<Rightarrow> jsval option \<Rightarrow> reconciler \<Rightarrow> reconciler" where
  "messages_answered env tp response s =
     (case rc_phase s of
        AskMessages run chat runs allAttached \<Rightarrow>
          (case response of
             None \<Rightarrow> next_run env runs False s
           | Some data \<Rightarrow>
               if truthy (c_isStreaming (a_chat (rc_app s) chat)) then next_run env runs allAttached s
               else (let (joined, s1) = join_run env tp run data s in next_run env runs (allAttached \<and> joined) s1))
      | _ \<Rightarrow> s)"

definition restoreRunningSessions :: "reconciler \<Rightarrow> reconciler" where
  "restoreRunningSessions s =
     (if rc_pane s \<or> \<not> rc_token s then s
      else (let s1 = s\<lparr>rc_listeners := True\<rparr> in if rc_phase s1 \<noteq> Idle then s1 else s1\<lparr>rc_phase := AskList\<rparr>))"

definition retry_fires :: "reconciler \<Rightarrow> reconciler" where
  "retry_fires s = (if rc_retryTimer s = None then s else restoreRunningSessions (s\<lparr>rc_retryTimer := None\<rparr>))"

definition reconcile :: "reconciler \<Rightarrow> reconciler" where
  "reconcile s = (if rc_listeners s \<and> rc_token s then restoreRunningSessions s else s)"

definition reconcileWhenVisible :: "reconciler \<Rightarrow> reconciler" where
  "reconcileWhenVisible s = (if rc_visible s then reconcile s else s)"

section \<open>A pass ends, and a failed one is repeated\<close>

text \<open>Requests a pass may still send before it is over, and what is true once it is.\<close>

definition requests_left :: "reconciler \<Rightarrow> nat" where
  "requests_left s = (case rc_phase s of AskMessages run chat runs ok \<Rightarrow> Suc (length runs) | _ \<Rightarrow> 0)"

definition pass_settled :: "reconciler \<Rightarrow> bool" where
  "pass_settled s \<longleftrightarrow> rc_retryTimer s = None \<and> rc_retryAttempt s = 0
     \<or> (\<exists>d \<in> set RECONCILE_BACKOFF_MS. rc_retryTimer s = Some d)"

definition timer_ok :: "reconciler \<Rightarrow> bool" where
  "timer_ok s \<longleftrightarrow> (case rc_retryTimer s of Some d \<Rightarrow> d \<in> set RECONCILE_BACKOFF_MS | None \<Rightarrow> True)"

lemma backoff_nth: "RECONCILE_BACKOFF_MS ! min n (length RECONCILE_BACKOFF_MS - 1) \<in> set RECONCILE_BACKOFF_MS"
  by (rule nth_mem) (simp add: RECONCILE_BACKOFF_MS_def)

lemma backoff_bound: "d \<in> set RECONCILE_BACKOFF_MS \<Longrightarrow> 1000 \<le> d \<and> d \<le> 30000"
  by (auto simp: RECONCILE_BACKOFF_MS_def)

lemma finish_settled:
  assumes "rc_token s" and "timer_ok s"
  shows "pass_settled (finish_pass ok s)" "timer_ok (finish_pass ok s)" "rc_phase (finish_pass ok s) = Idle"
    "rc_token (finish_pass ok s) = rc_token s" "rc_pane (finish_pass ok s) = rc_pane s"
  using assms backoff_nth
  by (auto simp: finish_pass_def clearRetry_def scheduleRetry_def pass_settled_def timer_ok_def Let_def split: option.split_asm)

definition run_ended :: "reconciler \<Rightarrow> jsval list \<Rightarrow> reconciler \<Rightarrow> bool" where
  "run_ended s runs s' \<longleftrightarrow> rc_token s' \<and> timer_ok s' \<and> rc_pane s' = rc_pane s \<and> rc_phase s' \<noteq> AskList
     \<and> requests_left s' \<le> length runs \<and> (rc_phase s' = Idle \<longrightarrow> pass_settled s')"

lemma next_run_ends: "rc_token s \<Longrightarrow> timer_ok s \<Longrightarrow> run_ended s runs (next_run env runs ok s)"
proof (induction runs arbitrary: ok s)
  case Nil
  then show ?case using finish_settled [OF Nil] by (simp add: run_ended_def requests_left_def)
next
  case (Cons run runs)
  have keep: "rc_token (s\<lparr>rc_app := a\<rparr>)" "timer_ok (s\<lparr>rc_app := a\<rparr>)" for a using Cons.prems by (simp_all add: timer_ok_def)
  note IH = Cons.IH [OF Cons.prems] and IH' = Cons.IH [OF keep]
  have stop: "timer_ok (s\<lparr>rc_app := a, rc_phase := p\<rparr>)" for a p using Cons.prems by (simp add: timer_ok_def)
  show ?case using IH [of False] IH' [of _ ok] stop Cons.prems
    by (auto simp: run_ended_def Let_def case_prod_unfold requests_left_def le_Suc_eq)
qed

lemma join_run_rest [simp]:
  "rc_token (snd (join_run env tp run data s)) = rc_token s" "rc_retryTimer (snd (join_run env tp run data s)) = rc_retryTimer s"
  "rc_pane (snd (join_run env tp run data s)) = rc_pane s" "rc_phase (snd (join_run env tp run data s)) = rc_phase s"
  "rc_retryAttempt (snd (join_run env tp run data s)) = rc_retryAttempt s"
  by (simp_all add: join_run_def attach_run_def Let_def case_prod_unfold)

definition passing :: "reconciler \<Rightarrow> bool" where
  "passing s \<longleftrightarrow> rc_token s \<and> timer_ok s \<and> rc_phase s \<noteq> AskList \<and> (rc_phase s = Idle \<longrightarrow> pass_settled s)"

lemma next_run_passing:
  assumes "rc_token s" and "timer_ok s"
  shows "passing (next_run env runs ok s)" "requests_left (next_run env runs ok s) \<le> length runs"
    "rc_pane (next_run env runs ok s) = rc_pane s"
  using next_run_ends [OF assms, of runs env ok] by (simp_all add: run_ended_def passing_def)

lemma messages_passing:
  assumes "passing s"
  shows "passing (messages_answered env tp response s)
    \<and> requests_left (messages_answered env tp response s) \<le> requests_left s - 1
    \<and> rc_pane (messages_answered env tp response s) = rc_pane s"
proof (cases "rc_phase s")
  case (AskMessages run chat runs ok)
  have left: "requests_left s = Suc (length runs)" by (simp add: requests_left_def AskMessages)
  have t: "rc_token s" "timer_ok s" using assms by (simp_all add: passing_def)
  have j: "rc_token (snd (join_run env tp run data s))" "timer_ok (snd (join_run env tp run data s))" for data
    using t by (simp_all add: timer_ok_def)
  show ?thesis using next_run_passing [OF t] next_run_passing [OF j]
    by (simp add: left messages_answered_def AskMessages Let_def case_prod_unfold split: option.split)
qed (use assms in \<open>simp_all add: messages_answered_def passing_def requests_left_def\<close>)

type_synonym run_answer = "js_env \<times> transport \<times> jsval option"

definition answer_run :: "reconciler \<Rightarrow> run_answer \<Rightarrow> reconciler" where
  "answer_run s x = (case x of (env, tp, response) \<Rightarrow> messages_answered env tp response s)"

lemma answers_end:
  "passing s \<Longrightarrow> passing (foldl answer_run s rs) \<and> requests_left (foldl answer_run s rs) \<le> requests_left s - length rs
     \<and> rc_pane (foldl answer_run s rs) = rc_pane s"
proof (induction rs arbitrary: s)
  case (Cons x rs)
  obtain env tp response where x: "x = (env, tp, response)" by (cases x)
  note m = messages_passing [OF Cons.prems, of env tp response]
  have x': "answer_run s x = messages_answered env tp response s" by (simp add: x answer_run_def)
  from Cons.IH [OF conjunct1 [OF m]] m show ?case unfolding foldl.simps x' list.size by auto
qed simp

section \<open>Runs\<close>

datatype rc_event =
    RcRestore
  | RcReconcile
  | RcVisibility bool
  | RcTimer
  | RcList js_env "jsval option"
  | RcMessages js_env transport "jsval option"
  | RcLogout
  | RcApp "client_app \<Rightarrow> client_app"

fun rc_step :: "reconciler \<Rightarrow> rc_event \<Rightarrow> reconciler" where
  "rc_step s RcRestore = restoreRunningSessions s"
| "rc_step s RcReconcile = reconcile s"
| "rc_step s (RcVisibility v) = reconcileWhenVisible (s\<lparr>rc_visible := v\<rparr>)"
| "rc_step s RcTimer = retry_fires s"
| "rc_step s (RcList env response) = list_answered env response s"
| "rc_step s (RcMessages env tp response) = messages_answered env tp response s"
| "rc_step s RcLogout = s\<lparr>rc_token := False\<rparr>"
| "rc_step s (RcApp f) = s\<lparr>rc_app := f (rc_app s)\<rparr>"

definition rc_init :: "client_app \<Rightarrow> (nat \<Rightarrow> stream) \<Rightarrow> reconciler" where
  "rc_init a sm = \<lparr>rc_app = a, rc_streams = sm, rc_attached = [], rc_token = True, rc_pane = False, rc_visible = True,
     rc_listeners = False, rc_retryTimer = None, rc_retryAttempt = 0, rc_phase = Idle\<rparr>"

text \<open>While the user is logged in, a failed pass has its retry armed or a new pass under way.\<close>

definition rc_inv :: "reconciler \<Rightarrow> bool" where
  "rc_inv s \<longleftrightarrow> timer_ok s \<and> \<not> rc_pane s \<and> (rc_token s \<and> rc_phase s = Idle \<longrightarrow> pass_settled s)"

lemma timer_ok_frame [simp]:
  "timer_ok (s\<lparr>rc_phase := p\<rparr>) = timer_ok s" "timer_ok (s\<lparr>rc_listeners := b\<rparr>) = timer_ok s"
  "timer_ok (s\<lparr>rc_visible := v\<rparr>) = timer_ok s" "timer_ok (s\<lparr>rc_token := t\<rparr>) = timer_ok s"
  "timer_ok (s\<lparr>rc_app := a\<rparr>) = timer_ok s" "timer_ok (s\<lparr>rc_retryTimer := None\<rparr>)"
  by (simp_all add: timer_ok_def)

lemma pass_settled_frame [simp]:
  "pass_settled (s\<lparr>rc_listeners := b\<rparr>) = pass_settled s" "pass_settled (s\<lparr>rc_visible := v\<rparr>) = pass_settled s"
  "pass_settled (s\<lparr>rc_app := a\<rparr>) = pass_settled s"
  by (simp_all add: pass_settled_def)

lemma restore_inv: "rc_inv s \<Longrightarrow> rc_inv (restoreRunningSessions s)"
  by (auto simp: rc_inv_def restoreRunningSessions_def Let_def)

text \<open>Without a token nothing is scheduled, so only the timer's value matters.\<close>

lemma next_run_logged_out:
  assumes "timer_ok s" and "\<not> rc_token s"
  shows "timer_ok (next_run env runs ok s) \<and> \<not> rc_token (next_run env runs ok s) \<and> rc_pane (next_run env runs ok s) = rc_pane s"
  using assms
proof (induction runs arbitrary: ok s)
  case Nil
  then show ?case by (auto simp: finish_pass_def clearRetry_def scheduleRetry_def timer_ok_def)
qed (simp add: Let_def case_prod_unfold)

lemma next_run_inv: "timer_ok s \<Longrightarrow> \<not> rc_pane s \<Longrightarrow> rc_inv (next_run env runs ok s)"
  using next_run_ends [of s runs env ok] next_run_logged_out [of s env runs ok]
  by (cases "rc_token s") (auto simp: run_ended_def rc_inv_def)

lemma finish_inv: "timer_ok s \<Longrightarrow> \<not> rc_pane s \<Longrightarrow> rc_inv (finish_pass ok s)"
  using next_run_inv [of s undefined "[]" ok] by simp

lemma rc_step_inv: "rc_inv s \<Longrightarrow> rc_inv (rc_step s e)"
proof (cases e)
  case (RcMessages env tp response)
  assume inv: "rc_inv s"
  have j: "timer_ok (snd (join_run env tp run data s))" "\<not> rc_pane (snd (join_run env tp run data s))" for run data
    using inv by (simp_all add: rc_inv_def timer_ok_def)
  with inv show ?thesis
    by (auto simp: RcMessages messages_answered_def Let_def case_prod_unfold rc_inv_def [of s] intro!: next_run_inv
        split: rc_phase.split option.split)
next
  case (RcList env response)
  assume inv: "rc_inv s"
  then show ?thesis
    by (auto simp: RcList list_answered_def rc_inv_def [of s] intro!: next_run_inv finish_inv split: rc_phase.split option.split)
next
  case RcTimer
  assume inv: "rc_inv s"
  then show ?thesis by (auto simp: RcTimer retry_fires_def rc_inv_def restoreRunningSessions_def Let_def)
qed (auto simp: restore_inv reconcile_def reconcileWhenVisible_def, auto simp: rc_inv_def restoreRunningSessions_def Let_def)

interpretation reconciling: machine "rc_init a sm" rc_step "\<lambda>_ _. True" rc_inv
  by unfold_locales (simp_all add: rc_step_inv, simp add: rc_init_def rc_inv_def timer_ok_def pass_settled_def)

section \<open>A live session is never replaced\<close>

text \<open>What an attach writes: the chat, the status, its stream and the recorded call.\<close>

lemma attach_writes:
  "d_tasks (attachToRunningSession env settings tp sid d) = d_tasks d"
  "d_ops (attachToRunningSession env settings tp sid d) = d_ops d"
  "d_fb (attachToRunningSession env settings tp sid d) = d_fb d"
  "d_wf (attachToRunningSession env settings tp sid d) = d_wf d"
  "d_ui (attachToRunningSession env settings tp sid d) = d_ui d"
  "d_toasts (attachToRunningSession env settings tp sid d) = d_toasts d"
  "d_sidebar (attachToRunningSession env settings tp sid d) = d_sidebar d"
  "d_reg (attachToRunningSession env settings tp sid d) = d_reg d"
  "w_storage (d_w (attachToRunningSession env settings tp sid d)) = w_storage (d_w d)"
  "w_cid (d_w (attachToRunningSession env settings tp sid d)) = w_cid (d_w d)"
  by (simp_all add: attachToRunningSession_def attachStream_def begin_stream_def on_ch_def on_w_def on_chat_def out_fx_def
      set_status_def Let_def)

lemma attach_streams: "sid \<noteq> [] \<Longrightarrow> truthy (c_isStreaming (chat_of (attachToRunningSession env settings tp sid d)))"
  by (simp add: attachToRunningSession_def attachStream_def begin_stream_def on_ch_def on_w_def on_chat_def out_fx_def
      set_status_def bind_transport_def Let_def)

lemma ensure_live_app:
  assumes "getRuntime (a_reg a) key = Some r"
  shows "ensure_runtime now key a = (r, a)"
  using assms by (simp add: ensure_runtime_def ensure_live hasRuntime_def getRuntime_def)

text \<open>\<open>only_runtime r a a'\<close>: nothing but the runtime \<open>r\<close> may have changed among the sessions.\<close>

definition only_runtime :: "nat \<Rightarrow> client_app \<Rightarrow> client_app \<Rightarrow> bool" where
  "only_runtime r a a' \<longleftrightarrow> app_ok a' \<and> rg_drafts (a_reg a') = rg_drafts (a_reg a)
     \<and> length (rg_objs (a_reg a)) \<le> length (rg_objs (a_reg a'))
     \<and> (\<forall>p < length (rg_objs (a_reg a)). p \<noteq> r \<longrightarrow> session_state a' p = session_state a p)"

lemma only_runtime_trans: "only_runtime r a b \<Longrightarrow> only_runtime r b c \<Longrightarrow> only_runtime r a c"
  by (simp add: only_runtime_def)

lemma hydrate_spec:
  assumes ok: "app_ok a" and live: "getRuntime (a_reg a) sid = Some r"
  shows "only_runtime r a (hydrateRuntime env sid run data gap a)"
    and "getRuntime (a_reg (hydrateRuntime env sid run data gap a)) key = getRuntime (a_reg a) key"
proof -
  define rows where "rows = history_rows env gap run (arr_of (jor (jget data ''messages'') (JArr [])))"
  obtain ts c where ts: "transformSessionMessages env (a_replayCid a) rows = (ts, c)" by fastforce
  define a1 where "a1 = a\<lparr>a_replayCid := c\<rparr>"
  have ok1: "app_ok a1" and s1: "session_state a1 = session_state a" and live1: "getRuntime (a_reg a1) sid = Some r"
    using ok live by (simp_all add: a1_def app_ok_def session_state_def owned_def fun_eq_iff)
  define a3 where "a3 = set_runtime r (\<lambda>rt. rt\<lparr>rt_sidebarRowId := JStr sid\<rparr>) a1"
  have k3: "keeps_sessions a1 a3" unfolding a3_def by (rule set_runtime_keeps [OF ok1]) simp_all
  then have ok3: "app_ok a3" by (simp add: keeps_sessions_def)
  have live3: "getRuntime (a_reg a3) sid = Some r" using live1 by (simp add: a3_def getRuntime_def resolveKey_def)
  let ?dirs = "jor (jget data ''add_dirs'') (JArr [])" and ?mode = "jor (jget data ''run_mode'') (jget run ''run_mode'')"
  obtain chat a4 where l: "load_slices env sid JNull ?dirs ?mode ts a3 = (chat, a4)" "app_ok a4" "getRuntime (a_reg a4) sid = Some r"
    "bare_registry (a_reg a4) = bare_registry (a_reg a3)"
    and other: "\<And>p. p < length (rg_objs (a_reg a3)) \<Longrightarrow> p \<noteq> r \<Longrightarrow> session_state a4 p = session_state a3 p"
    by (rule load_spec [OF ok3 live3]) blast
  define a5 where "a5 = set_runtime r (parked_ui ts) a4"
  have k5: "keeps_sessions a4 a5" unfolding a5_def
    by (rule set_runtime_keeps [OF l(2)]) (simp_all add: parked_ui_def Let_def)
  have eq: "hydrateRuntime env sid run data gap a = a5"
    using l(1) ts by (simp add: hydrateRuntime_def transform_rows_def rows_def [symmetric] a1_def [symmetric]
        ensure_live_app [OF live1] a3_def [symmetric] a5_def [symmetric] Let_def)
  have len: "length (rg_objs (a_reg a5)) = length (rg_objs (a_reg a))" "length (rg_objs (a_reg a3)) = length (rg_objs (a_reg a))"
    using bare_registryD(6) [OF l(4)] by (simp_all add: a5_def a3_def a1_def)
  have "rg_drafts (a_reg a5) = rg_drafts (a_reg a)"
    using bare_registryD(3) [OF l(4)] by (simp add: a5_def a3_def a1_def set_runtime_def)
  then show "only_runtime r a (hydrateRuntime env sid run data gap a)"
    using k5 k3 other len s1 by (simp add: eq only_runtime_def keeps_sessions_def)
  show "getRuntime (a_reg (hydrateRuntime env sid run data gap a)) key = getRuntime (a_reg a) key"
    using bare_registryD(1,2) [OF l(4)] by (simp add: eq a5_def a3_def a1_def getRuntime_def resolveKey_def)
qed

lemma attach_spec:
  assumes ok: "app_ok (rc_app s)" and live: "getRuntime (a_reg (rc_app s)) sid = Some r"
  shows "only_runtime r (rc_app s) (rc_app (attach_run env tp sid n s))"
    and "getRuntime (a_reg (rc_app (attach_run env tp sid n s))) key = getRuntime (a_reg (rc_app s)) key"
    and "sid \<noteq> [] \<Longrightarrow> \<exists>c. st_chat (session_state (rc_app (attach_run env tp sid n s)) r) = Some c \<and> truthy (c_isStreaming c)"
proof -
  let ?a = "rc_app s" and ?k = "resolveKey (a_reg (rc_app s)) sid"
  from ok have inv: "rg_inv (a_reg ?a)" "rg_inv0 (a_reg ?a)" by (simp_all add: app_ok_def rg_inv_iff)
  have lk: "getRuntime (a_reg ?a) ?k = Some r" using live by (simp add: getRuntime_def resolve_idem [OF inv(2)])
  have key: "rt_key (rg_objs (a_reg ?a) ! r) = ?k" by (rule live_known(3) [OF inv(1) live])
  obtain c b where b: "slice_of (env_now env) ?k ''chat'' ?a = (c, b)" "grows ?k r ?a b" "owned b r ''chat'' = Some c"
    by (rule slice_of_spec [where now = "env_now env", OF ok lk slice_names_mem(1)]) (rule that)
  define d where "d = attachToRunningSession env (settings_view (a_settings b)) tp sid (disp_of b r c (rc_streams s r))"
  define e where "e = b\<lparr>a_chat := (a_chat b)(c := chat_of d), a_status := d_status d\<rparr>"
  have eq: "rc_app (attach_run env tp sid n s) = e"
    by (simp add: attach_run_def ensure_live_app [OF lk] key b(1) d_def [symmetric] e_def Let_def)
  have okb: "app_ok b" by (rule growsD(1) [OF b(2)])
  have bare: "bare_registry (a_reg b) = bare_registry (a_reg ?a)" using b(2) by (simp add: grows_def)
  have rb: "r < length (rg_objs (a_reg b))" using live_known(2) [OF _ growsD(2) [OF b(2)]] okb by (simp add: app_ok_def)
  have "session_state e p = session_state ?a p" if p: "p < length (rg_objs (a_reg ?a))" "p \<noteq> r" for p
  proof -
    have pb: "p < length (rg_objs (a_reg b))" using p bare_registryD(6) [OF bare] by simp
    have "x \<noteq> c" if "owned b p m = Some x" for m x using owner_unique [OF okb pb that rb] b(3) p(2) by auto
    moreover have "owned e p m = owned b p m" for m by (simp add: e_def owned_def)
    ultimately have "session_state e p = session_state b p"
      by (auto simp: session_state_def) (auto simp: e_def intro!: map_option_cong)
    with grows_other [OF ok b(2) p] show ?thesis by simp
  qed
  then show "only_runtime r ?a (rc_app (attach_run env tp sid n s))"
    using okb bare_registryD(3,6) [OF bare] by (simp add: eq only_runtime_def e_def app_ok_def)
  show "getRuntime (a_reg (rc_app (attach_run env tp sid n s))) key = getRuntime (a_reg ?a) key"
    using bare_registryD(1,2) [OF bare] by (simp add: eq e_def getRuntime_def resolveKey_def)
  assume "sid \<noteq> []"
  then have "truthy (c_isStreaming (chat_of d))" unfolding d_def by (rule attach_streams)
  then show "\<exists>c. st_chat (session_state (rc_app (attach_run env tp sid n s)) r) = Some c \<and> truthy (c_isStreaming c)"
    using b(3) by (simp add: eq e_def session_state_def owned_def)
qed

text \<open>Looking up the runtime and the chat of a run creates them where they are missing, and no more.\<close>

lemma chat_slice_keeps:
  assumes ok: "app_ok a" and live: "getRuntime (a_reg a) key = Some r" and p: "p < length (rg_objs (a_reg a))"
    and chat: "owned a p ''chat'' \<noteq> None"
  shows "session_state (snd (slice_of now key ''chat'' a)) p = session_state a p"
proof (cases "p = r")
  case True
  with chat obtain s where "dget (rt_slices (rg_objs (a_reg a) ! r)) ''chat'' = Some s" by (auto simp: owned_def)
  then have "slice_of now key ''chat'' a = (s, a)" by (simp add: slice_of_def getSlice_def ensure_live [OF live])
  then show ?thesis by simp
next
  case False
  obtain s b where "slice_of now key ''chat'' a = (s, b)" "grows key r a b"
    by (rule slice_of_spec [where now = now, OF ok live slice_names_mem(1)]) (rule that)
  with grows_other [OF ok _ p False] show ?thesis by simp
qed

definition lookup_chat :: "js_env \<Rightarrow> string \<Rightarrow> client_app \<Rightarrow> nat \<times> client_app" where
  "lookup_chat env sid a =
     (let (r, a1) = ensure_runtime (env_now env) sid a
      in slice_of (env_now env) (rt_key (rg_objs (a_reg a1) ! r)) ''chat'' a1)"

lemma lookup_chat_spec:
  assumes ok: "app_ok a" and known: "known_key (rg_drafts (a_reg a)) sid"
  shows "app_ok (snd (lookup_chat env sid a))" "rg_drafts (a_reg (snd (lookup_chat env sid a))) = rg_drafts (a_reg a)"
    "length (rg_objs (a_reg a)) \<le> length (rg_objs (a_reg (snd (lookup_chat env sid a))))"
    and "p < length (rg_objs (a_reg a)) \<Longrightarrow> owned a p ''chat'' \<noteq> None \<Longrightarrow>
      session_state (snd (lookup_chat env sid a)) p = session_state a p"
proof -
  obtain r g l where e: "ensure_runtime (env_now env) sid a = (r, a\<lparr>a_reg := g, a_lastResponseModel := l\<rparr>)"
    "app_ok (a\<lparr>a_reg := g\<rparr>)" "getRuntime g sid = Some r" "length (rg_objs (a_reg a)) \<le> length (rg_objs g)"
    "\<forall>q < length (rg_objs (a_reg a)). session_state (a\<lparr>a_reg := g\<rparr>) q = session_state a q"
    by (rule ensure_spec [OF ok known, where now = "env_now env"]) (rule that)
  define b where "b = a\<lparr>a_reg := g, a_lastResponseModel := l\<rparr>"
  have okb: "app_ok b" using e(2) by (simp add: b_def app_ok_def)
  then have inv: "rg_inv g" "rg_inv0 g" by (simp_all add: b_def app_ok_def rg_inv_iff)
  have key: "rt_key (rg_objs g ! r) = resolveKey g sid" by (rule live_known(3) [OF inv(1) e(3)])
  have live: "getRuntime (a_reg b) (resolveKey g sid) = Some r" using e(3) by (simp add: b_def getRuntime_def resolve_idem [OF inv(2)])
  have eq: "lookup_chat env sid a = slice_of (env_now env) (resolveKey g sid) ''chat'' b"
    by (simp add: lookup_chat_def e(1) key b_def)
  obtain s c where c: "slice_of (env_now env) (resolveKey g sid) ''chat'' b = (s, c)" "grows (resolveKey g sid) r b c"
    by (rule slice_of_spec [where now = "env_now env", OF okb live slice_names_mem(1)]) (rule that)
  have bare: "bare_registry (a_reg c) = bare_registry g" using c(2) by (simp add: grows_def b_def)
  show "app_ok (snd (lookup_chat env sid a))" using c growsD(1) by (simp add: eq)
  have "rg_drafts g = rg_drafts (a_reg a)"
    using small_open_frames(1) [of "env_now env" sid a] e(1) by (simp add: open_frame_def)
  then show "rg_drafts (a_reg (snd (lookup_chat env sid a))) = rg_drafts (a_reg a)"
    using bare_registryD(3) [OF bare] c by (simp add: eq)
  show "length (rg_objs (a_reg a)) \<le> length (rg_objs (a_reg (snd (lookup_chat env sid a))))"
    using bare_registryD(6) [OF bare] c e(4) by (simp add: eq)
  have sb: "session_state b = session_state (a\<lparr>a_reg := g\<rparr>)" by (simp add: b_def session_state_def owned_def fun_eq_iff)
  assume p: "p < length (rg_objs (a_reg a))" "owned a p ''chat'' \<noteq> None"
  from arg_cong [of _ _ st_chat, OF e(5) [rule_format, OF p(1)]] p(2) have "owned b p ''chat'' \<noteq> None"
    by (auto simp: session_state_def owned_def b_def)
  then show "session_state (snd (lookup_chat env sid a)) p = session_state a p"
    using chat_slice_keeps [OF okb live, of p "env_now env"] p e(4,5) by (simp add: eq sb) (simp add: b_def)
qed

definition runs_known :: "client_app \<Rightarrow> jsval list \<Rightarrow> bool" where
  "runs_known a runs \<longleftrightarrow> list_all (\<lambda>run. known_key (rg_drafts (a_reg a)) (to_str (jget run ''session_id''))) runs"

lemma next_run_cons:
  "next_run env (run # runs) ok s =
     (if \<not> truthy (jget run ''session_id'') then next_run env runs False s
      else (let (chat, a) = lookup_chat env (to_str (jget run ''session_id'')) (rc_app s)
            in if truthy (c_isStreaming (a_chat a chat)) then next_run env runs ok (s\<lparr>rc_app := a\<rparr>)
               else s\<lparr>rc_app := a, rc_phase := AskMessages run chat runs ok\<rparr>))"
  by (simp add: lookup_chat_def Let_def case_prod_unfold)

lemma next_run_keeps:
  assumes "app_ok (rc_app s)" and "runs_known (rc_app s) runs" and "p < length (rg_objs (a_reg (rc_app s)))"
    and "owned (rc_app s) p ''chat'' \<noteq> None"
  shows "session_state (rc_app (next_run env runs ok s)) p = session_state (rc_app s) p"
  using assms
proof (induction runs arbitrary: ok s)
  case Nil
  then show ?case by (simp add: finish_pass_def clearRetry_def scheduleRetry_def Let_def)
next
  case (Cons run runs)
  let ?sid = "to_str (jget run ''session_id'')"
  from Cons.prems(2) have k: "known_key (rg_drafts (a_reg (rc_app s))) ?sid" "runs_known (rc_app s) runs" by (simp_all add: runs_known_def)
  note l = lookup_chat_spec [OF Cons.prems(1) k(1), where env = env]
  obtain c a where ca: "lookup_chat env ?sid (rc_app s) = (c, a)" by fastforce
  have same: "session_state a p = session_state (rc_app s) p" using l(4) [OF Cons.prems(3,4)] ca by simp
  from arg_cong [OF same, of st_chat] Cons.prems(4) have own: "owned a p ''chat'' \<noteq> None" by (auto simp: session_state_def)
  have IH: "session_state (rc_app (next_run env runs ok (s\<lparr>rc_app := a\<rparr>))) p = session_state a p"
    using Cons.IH [of "s\<lparr>rc_app := a\<rparr>" ok] l(1-3) ca k(2) Cons.prems(3) own by (simp add: runs_known_def)
  show ?case using IH same Cons.IH [OF Cons.prems(1) k(2) Cons.prems(3,4)]
    by (simp add: next_run_cons ca del: next_run.simps(2))
qed

text \<open>C13. Rejoining never replaces a live session: when the history of a run arrives, and the runtime it was
  asked for has not been evicted meanwhile, every session that is streaming at that moment, the
  run's own included, keeps its slices exactly as they are, whatever the answer holds.\<close>

theorem reconcile_spares_live:
  assumes "app_ok (rc_app s)" and "rc_phase s = AskMessages run chat runs ok"
    and "getRuntime (a_reg (rc_app s)) (to_str (jget run ''session_id'')) = Some r" and "owned (rc_app s) r ''chat'' = Some chat"
    and "runs_known (rc_app s) runs" and "p < length (rg_objs (a_reg (rc_app s)))"
    and "st_chat (session_state (rc_app s) p) = Some c" and "truthy (c_isStreaming c)"
  shows "session_state (rc_app (messages_answered env tp response s)) p = session_state (rc_app s) p"
proof -
  let ?a = "rc_app s" and ?sid = "to_str (jget run ''session_id'')"
  have own: "owned b p ''chat'' \<noteq> None" if "session_state b p = session_state ?a p" for b
    using arg_cong [OF that, of st_chat] assms(7) by (auto simp: session_state_def)
  note plain = next_run_keeps [OF assms(1,5,6) own [OF refl]]
  have joined: "session_state (rc_app (next_run env runs ok' (snd (join_run env tp run data s)))) p = session_state ?a p"
    if "\<not> truthy (c_isStreaming (a_chat ?a chat))" for ok' data
  proof -
    have pr: "p \<noteq> r" using that assms(4,7,8) by (auto simp: session_state_def)
    have "only_runtime r ?a (rc_app (snd (join_run env tp run data s)))"
    proof -
      have h: "only_runtime r ?a (hydrateRuntime env ?sid run data gap ?a)" for gap by (rule hydrate_spec [OF assms(1,3)])
      have "only_runtime r ?a (rc_app (attach_run env tp ?sid n (s\<lparr>rc_app := hydrateRuntime env ?sid run data gap ?a\<rparr>)))" for gap n
        using attach_spec [of "s\<lparr>rc_app := hydrateRuntime env ?sid run data gap ?a\<rparr>" ?sid r env tp n]
          hydrate_spec [OF assms(1,3), of env run data gap] assms(3) by (auto simp: only_runtime_def intro: only_runtime_trans)
      moreover have "only_runtime r ?a ?a" using assms(1) by (simp add: only_runtime_def)
      ultimately show ?thesis by (simp add: join_run_def Let_def)
    qed
    then have o: "app_ok (rc_app (snd (join_run env tp run data s)))"
      "rg_drafts (a_reg (rc_app (snd (join_run env tp run data s)))) = rg_drafts (a_reg ?a)"
      "p < length (rg_objs (a_reg (rc_app (snd (join_run env tp run data s)))))"
      "session_state (rc_app (snd (join_run env tp run data s))) p = session_state ?a p"
      using assms(6) pr by (auto simp: only_runtime_def)
    have "runs_known (rc_app (snd (join_run env tp run data s))) runs" using assms(5) o(2) by (simp add: runs_known_def)
    from next_run_keeps [OF o(1) this o(3) own [OF o(4)]] o(4) show ?thesis by simp
  qed
  show ?thesis using plain joined
    by (simp add: messages_answered_def assms(2) Let_def case_prod_unfold split: option.split)
qed

definition demo_pass :: reconciler where
  "demo_pass = (rc_init demo_live (\<lambda>_. new_stream 0 JNull JNull JNull False 0))
     \<lparr>rc_phase := AskMessages (JObj [(''session_id'', JStr ''a'')]) 0 [] True\<rparr>"

theorem reconcile_spares_live_witness:
  "session_state (rc_app (messages_answered (demo_env 6) \<lparr>tp_abort = 1, tp_sendPermission = 2, tp_queueSender = JNull\<rparr>
     (Some (JObj [])) demo_pass)) 1 = session_state demo_live 1"
proof -
  have app: "rc_app demo_pass = demo_live" by (simp add: demo_pass_def rc_init_def)
  have "1 < length (rg_objs (a_reg demo_live))"
    using live_known(2) [OF _ demo_live_facts(4)] demo_live_ok by (simp add: app_ok_def)
  moreover have "st_chat (session_state demo_live 1) = Some (a_chat demo_live 0)"
    using demo_live_facts(5) by (simp add: session_state_def)
  ultimately show ?thesis
    using reconcile_spares_live [of demo_pass "JObj [(''session_id'', JStr ''a'')]" 0 "[]" True 1 1 "a_chat demo_live 0" "demo_env 6"
        "\<lparr>tp_abort = 1, tp_sendPermission = 2, tp_queueSender = JNull\<rparr>" "Some (JObj [])"] demo_live_ok demo_live_facts
    unfolding app by (simp add: demo_pass_def rc_init_def runs_known_def)
qed

text \<open>The history that is loaded stops where the run began: it is what comes before the first row of the
  run, without the rows of subagents written since the run started; the attach replays the rest.\<close>

lemma history_stops_before_run:
  assumes "truthy (jget run ''first_user_uuid'')"
    and "\<exists>m \<in> set rows. jeq (jget m ''uuid'') (jget run ''first_user_uuid'')"
  shows "history_rows env False run rows =
    filter (\<lambda>m. case start_ms env run of Some t \<Rightarrow> \<not> in_run env t m | None \<Rightarrow> True)
      (takeWhile (\<lambda>m. \<not> jeq (jget m ''uuid'') (jget run ''first_user_uuid'')) rows)"
proof -
  obtain i where i: "find_index (\<lambda>m. jeq (jget m ''uuid'') (jget run ''first_user_uuid'')) rows = Some i"
    using assms(2) find_index_None by (metis not_None_eq)
  from find_index_Some [OF this]
  have "takeWhile (\<lambda>m. \<not> jeq (jget m ''uuid'') (jget run ''first_user_uuid'')) rows = take i rows"
    by (intro takeWhile_eq_take_P_nth) auto
  with i assms(1) show ?thesis by (simp add: history_rows_def split: option.split)
qed

section \<open>No running session is stranded\<close>

text \<open>A session is live when its runtime is filed and the chat of the runtime is streaming.\<close>

definition session_live :: "client_app \<Rightarrow> string \<Rightarrow> bool" where
  "session_live a sid =
     (case getRuntime (a_reg a) sid of
        None \<Rightarrow> False
      | Some r \<Rightarrow> (case owned a r ''chat'' of Some c \<Rightarrow> truthy (c_isStreaming (a_chat a c)) | None \<Rightarrow> False))"

definition run_live :: "client_app \<Rightarrow> jsval \<Rightarrow> bool" where
  "run_live a run \<longleftrightarrow> truthy (jget run ''session_id'') \<and> session_live a (to_str (jget run ''session_id''))"

text \<open>The session ids of the server's list: a string, which no draft has, or nothing.\<close>

definition listed_ok :: "nat \<Rightarrow> jsval \<Rightarrow> bool" where
  "listed_ok drafts run \<longleftrightarrow> truthy (jget run ''session_id'') \<longrightarrow>
     is_str (jget run ''session_id'') \<and> known_key drafts (to_str (jget run ''session_id''))"

text \<open>Runtimes stay filed and live sessions live.\<close>

definition keeps_live :: "client_app \<Rightarrow> client_app \<Rightarrow> bool" where
  "keeps_live a a' \<longleftrightarrow> app_ok a' \<and> rg_drafts (a_reg a') = rg_drafts (a_reg a)
     \<and> (\<forall>k r. getRuntime (a_reg a) k = Some r \<longrightarrow> getRuntime (a_reg a') k = Some r)
     \<and> (\<forall>k. session_live a k \<longrightarrow> session_live a' k)"

lemma session_live_iff:
  "session_live a sid \<longleftrightarrow>
     (\<exists>r c. getRuntime (a_reg a) sid = Some r \<and> st_chat (session_state a r) = Some c \<and> truthy (c_isStreaming c))"
  by (auto simp: session_live_def session_state_def split: option.splits)

lemma live_owned: "app_ok a \<Longrightarrow> getRuntime (a_reg a) k = Some r \<Longrightarrow> r < length (rg_objs (a_reg a))"
  using live_known(2) by (simp add: app_ok_def)

lemma keeps_liveI:
  assumes "app_ok a" "app_ok a'" "rg_drafts (a_reg a') = rg_drafts (a_reg a)"
    and "\<And>k r. getRuntime (a_reg a) k = Some r \<Longrightarrow> getRuntime (a_reg a') k = Some r"
    and "\<And>p c. p < length (rg_objs (a_reg a)) \<Longrightarrow> st_chat (session_state a p) = Some c \<Longrightarrow> truthy (c_isStreaming c) \<Longrightarrow>
      \<exists>c'. st_chat (session_state a' p) = Some c' \<and> truthy (c_isStreaming c')"
  shows "keeps_live a a'"
  unfolding keeps_live_def session_live_iff using assms live_owned by metis

lemma lookup_chat_live:
  assumes ok: "app_ok a" and known: "known_key (rg_drafts (a_reg a)) sid"
  shows "keeps_live a (snd (lookup_chat env sid a))" "\<exists>r. getRuntime (a_reg (snd (lookup_chat env sid a))) sid = Some r
        \<and> owned (snd (lookup_chat env sid a)) r ''chat'' = Some (fst (lookup_chat env sid a))"
    and "session_live (snd (lookup_chat env sid a)) sid =
      truthy (c_isStreaming (a_chat (snd (lookup_chat env sid a)) (fst (lookup_chat env sid a))))"
proof -
  obtain r g l where e: "ensure_runtime (env_now env) sid a = (r, a\<lparr>a_reg := g, a_lastResponseModel := l\<rparr>)"
    "app_ok (a\<lparr>a_reg := g\<rparr>)" "getRuntime g sid = Some r"
    by (rule ensure_spec [OF ok known, where now = "env_now env"]) (rule that)
  define b where "b = a\<lparr>a_reg := g, a_lastResponseModel := l\<rparr>"
  have okb: "app_ok b" using e(2) by (simp add: b_def app_ok_def)
  then have inv: "rg_inv g" "rg_inv0 g" by (simp_all add: b_def app_ok_def rg_inv_iff)
  have inva: "rg_inv0 (a_reg a)" using ok by (simp add: app_ok_def rg_inv_iff)
  have g: "g = snd (ensureRuntime (env_now env) sid (a_reg a))"
    using arg_cong [OF e(1), of "\<lambda>x. a_reg (snd x)"] by (simp add: ensure_runtime_def Let_def case_prod_unfold)
  have filed: "getRuntime g k = Some q" if "getRuntime (a_reg a) k = Some q" for k q
    using ensure_slices [OF inva that [unfolded getRuntime_def], of "env_now env" sid]
    by (simp add: g getRuntime_def resolveKey_def ensureRuntime_def Let_def split: option.split_asm)
  have key: "rt_key (rg_objs g ! r) = resolveKey g sid" by (rule live_known(3) [OF inv(1) e(3)])
  have live: "getRuntime (a_reg b) (resolveKey g sid) = Some r" using e(3) by (simp add: b_def getRuntime_def resolve_idem [OF inv(2)])
  obtain s c where c: "slice_of (env_now env) (resolveKey g sid) ''chat'' b = (s, c)" "grows (resolveKey g sid) r b c"
    "owned c r ''chat'' = Some s"
    by (rule slice_of_spec [where now = "env_now env", OF okb live slice_names_mem(1)]) (rule that)
  have eq: "lookup_chat env sid a = (s, c)" using c(1) by (simp add: lookup_chat_def e(1) key b_def)
  have bare: "bare_registry (a_reg c) = bare_registry g" using c(2) by (simp add: grows_def b_def)
  have same: "getRuntime (a_reg c) k = getRuntime g k" for k
    using bare_registryD(1,2) [OF bare] by (simp add: getRuntime_def resolveKey_def)
  show "\<exists>r. getRuntime (a_reg (snd (lookup_chat env sid a))) sid = Some r
      \<and> owned (snd (lookup_chat env sid a)) r ''chat'' = Some (fst (lookup_chat env sid a))" using e(3) c(3) by (simp add: eq same)
  show "session_live (snd (lookup_chat env sid a)) sid =
      truthy (c_isStreaming (a_chat (snd (lookup_chat env sid a)) (fst (lookup_chat env sid a))))"
    using e(3) c(3) by (simp add: eq session_live_def same)
  note l = lookup_chat_spec [OF ok known, where env = env, unfolded eq snd_conv]
  show "keeps_live a (snd (lookup_chat env sid a))" unfolding eq snd_conv
  proof (rule keeps_liveI [OF ok l(1,2)])
    fix p d
    assume p: "p < length (rg_objs (a_reg a))" "st_chat (session_state a p) = Some d" "truthy (c_isStreaming d)"
    then have "owned a p ''chat'' \<noteq> None" by (auto simp: session_state_def)
    with l(4) [OF p(1)] p show "\<exists>c'. st_chat (session_state c p) = Some c' \<and> truthy (c_isStreaming c')" by simp
  qed (simp add: same filed)
qed

lemma join_live:
  assumes ok: "app_ok (rc_app s)" and live: "getRuntime (a_reg (rc_app s)) sid = Some r"
    and sid: "sid = to_str (jget run ''session_id'')" "sid \<noteq> []"
  shows "keeps_live (rc_app s) (rc_app (snd (join_run env tp run data s)))"
    and "fst (join_run env tp run data s) \<Longrightarrow> session_live (rc_app (snd (join_run env tp run data s))) sid"
proof -
  define s1 where "s1 gap = s\<lparr>rc_app := hydrateRuntime env sid run data gap (rc_app s)\<rparr>" for gap
  note h = hydrate_spec [OF ok live, of env run data]
  have ok1: "app_ok (rc_app (s1 gap))" and live1: "getRuntime (a_reg (rc_app (s1 gap))) sid = Some r" for gap
    using h(1) [of gap] h(2) [of gap sid] live by (simp_all add: s1_def only_runtime_def)
  have att: "keeps_live (rc_app s) (rc_app (attach_run env tp sid n (s1 gap)))
      \<and> session_live (rc_app (attach_run env tp sid n (s1 gap))) sid" for gap n
  proof -
    let ?b = "rc_app (attach_run env tp sid n (s1 gap))"
    note t = attach_spec [OF ok1 [of gap] live1 [of gap], where env = env and tp = tp and n = n]
    have o: "only_runtime r (rc_app s) ?b"
      using h(1) [of gap] t(1) by (auto simp: s1_def intro: only_runtime_trans)
    have k: "getRuntime (a_reg ?b) key = getRuntime (a_reg (rc_app s)) key" for key
      using t(2) [of key] h(2) [of gap key] by (simp add: s1_def)
    have r: "\<exists>c. st_chat (session_state ?b r) = Some c \<and> truthy (c_isStreaming c)" by (rule t(3) [OF sid(2)])
    have "keeps_live (rc_app s) ?b"
    proof (rule keeps_liveI [OF ok])
      fix p c assume p: "p < length (rg_objs (a_reg (rc_app s)))" "st_chat (session_state (rc_app s) p) = Some c" "truthy (c_isStreaming c)"
      then show "\<exists>c'. st_chat (session_state ?b p) = Some c' \<and> truthy (c_isStreaming c')"
        using r o by (cases "p = r") (auto simp: only_runtime_def)
    qed (use o k in \<open>simp_all add: only_runtime_def\<close>)
    then show ?thesis using r k live by (auto simp: session_live_iff)
  qed
  have refl: "keeps_live (rc_app s) (rc_app s)" using ok by (simp add: keeps_live_def)
  show "keeps_live (rc_app s) (rc_app (snd (join_run env tp run data s)))"
    using att refl by (simp add: join_run_def Let_def sid(1) [symmetric] s1_def)
  show "fst (join_run env tp run data s) \<Longrightarrow> session_live (rc_app (snd (join_run env tp run data s))) sid"
    using att by (auto simp: join_run_def Let_def sid(1) [symmetric] s1_def split: if_splits)
qed

lemma keeps_run_live: "keeps_live a a' \<Longrightarrow> run_live a run \<Longrightarrow> run_live a' run"
  by (simp add: keeps_live_def run_live_def)

text \<open>\<open>all\<close> are the runs of the pass, \<open>todo\<close> those that are left: while nothing has been missed, the others are live.\<close>

definition runs_covered :: "jsval list \<Rightarrow> jsval list \<Rightarrow> bool \<Rightarrow> client_app \<Rightarrow> bool" where
  "runs_covered all todo attached a \<longleftrightarrow> app_ok a \<and> list_all (listed_ok (rg_drafts (a_reg a))) todo
     \<and> (attached \<longrightarrow> (\<forall>run \<in> set all. run \<in> set todo \<or> run_live a run))"

definition pass_covers :: "jsval list \<Rightarrow> reconciler \<Rightarrow> bool" where
  "pass_covers all s \<longleftrightarrow> rc_token s \<and>
     (case rc_phase s of
        AskMessages run chat runs attached \<Rightarrow>
          runs_covered all (run # runs) attached (rc_app s) \<and> truthy (jget run ''session_id'')
          \<and> (\<exists>r. getRuntime (a_reg (rc_app s)) (to_str (jget run ''session_id'')) = Some r
               \<and> owned (rc_app s) r ''chat'' = Some chat)
      | Idle \<Rightarrow> rc_retryTimer s = None \<longrightarrow> (\<forall>run \<in> set all. run_live (rc_app s) run)
      | AskList \<Rightarrow> False)"

lemma covered_keeps:
  assumes "runs_covered all todo attached a" "keeps_live a a'"
  shows "runs_covered all todo attached a'"
  using assms keeps_run_live [OF assms(2)] by (auto simp: runs_covered_def keeps_live_def)

lemma covered_skip:
  assumes "runs_covered all (run # todo) attached a" "ok \<longrightarrow> attached \<and> run_live a run"
  shows "runs_covered all todo ok a"
  using assms by (auto simp: runs_covered_def)

lemma finish_covers:
  assumes "rc_token s" "runs_covered all [] ok (rc_app s)"
  shows "pass_covers all (finish_pass ok s)"
  using assms by (auto simp: pass_covers_def runs_covered_def finish_pass_def clearRetry_def scheduleRetry_def Let_def)

lemma next_run_covers: "rc_token s \<Longrightarrow> runs_covered all runs ok (rc_app s) \<Longrightarrow> pass_covers all (next_run env runs ok s)"
proof (induction runs arbitrary: ok s)
  case Nil
  then show ?case by (simp add: finish_covers)
next
  case (Cons run runs)
  let ?sid = "to_str (jget run ''session_id'')"
  obtain chat a where ca: "lookup_chat env ?sid (rc_app s) = (chat, a)" by fastforce
  show ?case
  proof (cases "truthy (jget run ''session_id'')")
    case False
    then have "next_run env (run # runs) ok s = next_run env runs False s" by simp
    then show ?thesis using Cons.IH [OF Cons.prems(1)] covered_skip [OF Cons.prems(2), of False] by simp
  next
    case True
    have known: "known_key (rg_drafts (a_reg (rc_app s))) ?sid" and ok: "app_ok (rc_app s)"
      using Cons.prems(2) True by (simp_all add: runs_covered_def listed_ok_def)
    note l = lookup_chat_live [OF ok known, of env, unfolded ca fst_conv snd_conv]
    note c = covered_keeps [OF Cons.prems(2) l(1)]
    show ?thesis
    proof (cases "truthy (c_isStreaming (a_chat a chat))")
      case live: True
      then have "runs_covered all runs ok a" using l(3) True by (intro covered_skip [OF c]) (simp add: run_live_def)
      then show ?thesis using Cons.IH [of "s\<lparr>rc_app := a\<rparr>" ok] Cons.prems(1) live True
        by (simp add: next_run_cons ca del: next_run.simps(2))
    next
      case False
      then show ?thesis using Cons.prems(1) c l(2) True by (simp add: next_run_cons ca pass_covers_def del: next_run.simps(2))
    qed
  qed
qed

lemma messages_covers:
  assumes "pass_covers all s"
  shows "pass_covers all (messages_answered env tp response s)"
proof (cases "rc_phase s")
  case (AskMessages run chat runs ok)
  let ?sid = "to_str (jget run ''session_id'')"
  obtain r where c: "rc_token s" "runs_covered all (run # runs) ok (rc_app s)" "truthy (jget run ''session_id'')"
    and live: "getRuntime (a_reg (rc_app s)) ?sid = Some r" "owned (rc_app s) r ''chat'' = Some chat"
    using assms by (auto simp: pass_covers_def AskMessages)
  have "?sid \<noteq> []" using c(2,3) by (cases "jget run ''session_id''") (auto simp: runs_covered_def listed_ok_def)
  note j = join_live [OF _ live(1) refl this, where env = env and tp = tp]
  have ok: "app_ok (rc_app s)" using c(2) by (simp add: runs_covered_def)
  have failed: "pass_covers all (next_run env runs False s)"
    using c(1) covered_skip [OF c(2), of False] by (intro next_run_covers) simp_all
  have joined: "pass_covers all (next_run env runs (ok \<and> fst (join_run env tp run data s)) (snd (join_run env tp run data s)))" for data
    using c(1,3) j(2) [OF ok, of data] by (intro next_run_covers covered_skip [OF covered_keeps [OF c(2) j(1) [OF ok, of data]]])
      (simp_all add: run_live_def)
  have started: "pass_covers all (next_run env runs ok s)" if "truthy (c_isStreaming (a_chat (rc_app s) chat))"
    using c(1,3) live that by (intro next_run_covers covered_skip [OF c(2)]) (simp_all add: run_live_def session_live_def)
  show ?thesis using failed joined started
    by (auto simp: messages_answered_def AskMessages case_prod_unfold Let_def split: option.split)
qed (use assms in \<open>simp_all add: messages_answered_def\<close>)


lemma answers_cover: "pass_covers all s \<Longrightarrow> pass_covers all (foldl answer_run s rs)"
  by (induction rs arbitrary: s) (auto simp: answer_run_def messages_covers split: prod.split)

text \<open>C3. No running session is stranded: after any run of the reconciler, and with the client in a consistent
  state, a pass that has its list of running sessions ends as soon as one answer or error per session has
  come, whatever the answers are. Then either every run of the list has a session whose chat is streaming,
  and no retry is pending; or a retry is armed, one to thirty seconds ahead, and when it fires the next
  pass begins. A run without a session id, a history that fails to load, one that belongs to another run
  and one with a gap and no sequence number all lead to the second case.\<close>

theorem reconcile_never_strands:
  assumes "s = foldl rc_step (rc_init a sm) es" and "rc_token s" and "rc_phase s = AskList" and "app_ok (rc_app s)"
    and "runs = arr_of (jget data ''running'')" and "list_all (listed_ok (rg_drafts (a_reg (rc_app s)))) runs"
    and "length rs = length runs" and "s' = foldl answer_run (list_answered env (Some data) s) rs"
  shows "rc_phase s' = Idle \<and>
    (list_all (run_live (rc_app s')) runs \<and> rc_retryTimer s' = None \<and> rc_retryAttempt s' = 0 \<or>
     (\<exists>d. rc_retryTimer s' = Some d \<and> 1000 \<le> d \<and> d \<le> 30000 \<and> rc_phase (retry_fires s') = AskList))"
proof -
  have inv: "rc_inv s" using reconciling.run_inv [of a sm es] reconciling.all_ok_run assms(1) by (simp add: reconciling.run_foldl)
  have eq: "list_answered env (Some data) s = next_run env runs True s"
    using assms(3,5) by (simp add: list_answered_def)
  have t: "timer_ok s" "\<not> rc_pane s" using inv by (simp_all add: rc_inv_def)
  note n = next_run_passing [OF assms(2) t(1), of env runs True, folded eq]
  from answers_end [OF n(1), of rs] n(2,3) assms(7,8) t(2)
  have p: "passing s'" "requests_left s' = 0" "\<not> rc_pane s'" by auto
  have "runs_covered runs runs True (rc_app s)" using assms(4,6) by (simp add: runs_covered_def)
  then have "pass_covers runs s'" unfolding assms(8) eq by (intro answers_cover next_run_covers assms(2))
  moreover from p have idle: "rc_phase s' = Idle" by (cases "rc_phase s'") (simp_all add: passing_def requests_left_def)
  ultimately have "rc_retryTimer s' = None \<Longrightarrow> list_all (run_live (rc_app s')) runs" by (simp add: pass_covers_def list_all_iff)
  moreover from idle p have "rc_token s'" "pass_settled s'" by (simp_all add: passing_def)
  ultimately show ?thesis using idle p(3) backoff_bound
    by (auto simp: pass_settled_def retry_fires_def restoreRunningSessions_def Let_def)
qed

text \<open>A list with a session that answers with the history of its run, and perhaps a run that has no session id.\<close>

definition demo_runs :: "bool \<Rightarrow> jsval list" where
  "demo_runs unnamed = JObj [(''session_id'', JStr ''a''), (''run_id'', JStr ''1'')] # (if unnamed then [JObj []] else [])"

definition demo_link :: transport where
  "demo_link = \<lparr>tp_abort = 1, tp_sendPermission = 2, tp_queueSender = JNull\<rparr>"

definition demo_answers :: "bool \<Rightarrow> run_answer list" where
  "demo_answers unnamed = replicate (length (demo_runs unnamed)) (demo_env 2, demo_link, Some (JObj [(''live_run_id'', JStr ''1'')]))"

definition demo_asking :: reconciler where
  "demo_asking = restoreRunningSessions (rc_init demo_pending (\<lambda>_. new_stream 0 JNull JNull JNull False 0))"

definition demo_pass_end :: "bool \<Rightarrow> reconciler" where
  "demo_pass_end unnamed =
     foldl answer_run (list_answered (demo_env 1) (Some (JObj [(''running'', JArr (demo_runs unnamed))])) demo_asking) (demo_answers unnamed)"

lemma demo_asking_facts:
  "rc_token demo_asking" "rc_phase demo_asking = AskList" "rc_app demo_asking = demo_pending" "rc_retryTimer demo_asking = None"
  by (simp_all add: demo_asking_def restoreRunningSessions_def rc_init_def)

lemma demo_joins: "fst (join_run (demo_env 2) demo_link (JObj [(''session_id'', JStr ''a''), (''run_id'', JStr ''1'')])
    (JObj [(''live_run_id'', JStr ''1'')]) s)"
  by (simp add: join_run_def Let_def jeq_def)

lemma demo_pass_timers: "rc_retryTimer (demo_pass_end False) = None" "rc_retryTimer (demo_pass_end True) \<noteq> None"
  by (simp_all add: demo_pass_end_def demo_runs_def demo_answers_def answer_run_def list_answered_def demo_asking_facts messages_answered_def
      demo_joins Let_def case_prod_unfold finish_pass_def clearRetry_def scheduleRetry_def)

theorem reconcile_never_strands_witness:
  "list_all (run_live (rc_app (demo_pass_end False))) (demo_runs False) \<and> rc_phase (retry_fires (demo_pass_end True)) = AskList"
proof -
  have app: "app_ok (rc_app demo_asking)" using demo_apps_ok(1) by (simp add: demo_asking_facts app_inv_def)
  have run: "demo_asking = foldl rc_step (rc_init demo_pending (\<lambda>_. new_stream 0 JNull JNull JNull False 0)) [RcRestore]"
    by (simp add: demo_asking_def)
  have r: "demo_runs u = arr_of (jget (JObj [(''running'', JArr (demo_runs u))]) ''running'')" for u by simp
  have l: "list_all (listed_ok (rg_drafts (a_reg (rc_app demo_asking)))) (demo_runs u)" for u
    by (simp add: demo_runs_def listed_ok_def known_key_def)
  have n: "length (demo_answers u) = length (demo_runs u)" for u by (simp add: demo_answers_def)
  note th = reconcile_never_strands [OF run demo_asking_facts(1,2) app r l n demo_pass_end_def]
  show ?thesis using th [of False] th [of True] demo_pass_timers by auto
qed

end
