(* ===== verification/PaneSync.thy ===== *)
theory PaneSync
  imports SessionOpen
begin

text \<open>
  What a session shown in several panes sends between them
  (\<^verbatim>\<open>web/user/src/utils/sessionSnapshot.js\<close>): the publishing side reads the active slices, the receiving
  side writes them. The snapshot of the chat is a record of its own, since it leaves out what belongs to
  one window: the functions of a live stream, the stream generation and the recap. The other slices are
  sent whole. A part that is missing in the message is \<open>None\<close>.
\<close>

section \<open>Snapshots\<close>

record chat_pick =
  cp_messages :: "jsval list"
  cp_subagentContent :: "(string, jsval list) dict"
  cp_sessionId :: jsval
  cp_runMode :: jsval
  cp_runModeLocked :: bool
  cp_promptSuggestion :: jsval
  cp_inputText :: jsval
  cp_isStreaming :: jsval
  cp_isCompacting :: jsval
  cp_pendingAskUser :: jsval
  cp_streamId :: jsval
  cp_pendingPermission :: jsval
  cp_permissionQueue :: "jsval list"
  cp_permissionMode :: jsval
  cp_mcpServers :: jsval
  cp_cwdDraft :: jsval
  cp_addDirs :: "jsval list"
  cp_pendingPlanApproval :: jsval
  cp_queuedUserMessages :: "jsval list"
  cp_attachments :: "jsval list"
  cp_quotedText :: jsval
  cp_fileReference :: jsval
  cp_fileReferenceTemplate :: jsval
  cp_selectedXlsxReference :: jsval
  cp_selectedFileReference :: jsval
  cp_enableFileCheckpointing :: jsval
  cp_checkpoints :: "jsval list"
  cp_forkParentId :: jsval
  cp_rewindMarker :: jsval
  cp_retryState :: jsval
  cp_lastUserPrompt :: jsval


text \<open>\<^verbatim>\<open>useChatStore.setState(data.chat)\<close>\<close>

definition put_chat :: "chat_pick \<Rightarrow> chat \<Rightarrow> chat" where
  "put_chat p s =
     s\<lparr>c_messages := cp_messages p, c_subagentContent := cp_subagentContent p,
       c_sessionId := cp_sessionId p, c_runMode := cp_runMode p, c_runModeLocked := cp_runModeLocked p,
       c_promptSuggestion := cp_promptSuggestion p, c_inputText := cp_inputText p,
       c_isStreaming := cp_isStreaming p, c_isCompacting := cp_isCompacting p,
       c_pendingAskUser := cp_pendingAskUser p, c_streamId := cp_streamId p,
       c_pendingPermission := cp_pendingPermission p, c_permissionQueue := cp_permissionQueue p,
       c_permissionMode := cp_permissionMode p, c_mcpServers := cp_mcpServers p,
       c_cwdDraft := cp_cwdDraft p, c_addDirs := cp_addDirs p,
       c_pendingPlanApproval := cp_pendingPlanApproval p, c_queuedUserMessages := cp_queuedUserMessages p,
       c_attachments := cp_attachments p, c_quotedText := cp_quotedText p,
       c_fileReference := cp_fileReference p, c_fileReferenceTemplate := cp_fileReferenceTemplate p,
       c_selectedXlsxReference := cp_selectedXlsxReference p,
       c_selectedFileReference := cp_selectedFileReference p,
       c_enableFileCheckpointing := cp_enableFileCheckpointing p, c_checkpoints := cp_checkpoints p,
       c_forkParentId := cp_forkParentId p, c_rewindMarker := cp_rewindMarker p,
       c_retryState := cp_retryState p, c_lastUserPrompt := cp_lastUserPrompt p\<rparr>"

definition pickTaskState :: "task_store \<Rightarrow> task_store" where
  "pickTaskState s =
     \<lparr>tk_tasks = tk_tasks s, tk_taskOrder = tk_taskOrder s, tk_todos = tk_todos s, tk_todoWriteInfo = tk_todoWriteInfo s,
      tk_tracker = tk_tracker s, tk_activeTaskId = tk_activeTaskId s, tk_activeTodoId = tk_activeTodoId s,
      tk_activeSubagentId = tk_activeSubagentId s, tk_subagentFocusTargetId = tk_subagentFocusTargetId s,
      tk_subagentFocusRevision = tk_subagentFocusRevision s, tk_inspectorFocusTarget = tk_inspectorFocusTarget s,
      tk_inspectorFocusRevision = tk_inspectorFocusRevision s\<rparr>"


record pane_stores =
  pn_chat :: chat
  pn_tasks :: task_store
  pn_ops :: file_ops
  pn_fb :: file_browser
  pn_wf :: workflow_store
  pn_ui :: ui_store

record snapshot =
  sn_chat :: "chat_pick option"
  sn_task :: "task_store option"
  sn_fileOps :: "file_ops option"
  sn_fileBrowser :: "file_browser option"
  sn_workflow :: "workflow_store option"
  sn_ui :: jsval


text \<open>\<^verbatim>\<open>useUiStore.setState({ canvasOpenTabs: [], ...data.ui })\<close>: a field that is absent is kept.\<close>

definition if_own :: "jsval \<Rightarrow> string \<Rightarrow> jsval \<Rightarrow> jsval" where
  "if_own ui k old = (if has_own ui k then jget ui k else old)"

definition put_ui :: "jsval \<Rightarrow> ui_store \<Rightarrow> ui_store" where
  "put_ui ui s =
     s\<lparr>ui_canvasVisible := if_own ui ''canvasVisible'' (ui_canvasVisible s),
       ui_sessionSummaryOpen := if_own ui ''sessionSummaryOpen'' (ui_sessionSummaryOpen s),
       ui_canvasMinimized := if_own ui ''canvasMinimized'' (ui_canvasMinimized s),
       ui_activeCanvasTab := if_own ui ''activeCanvasTab'' (ui_activeCanvasTab s),
       ui_canvasOpenTabs := arr_of (if_own ui ''canvasOpenTabs'' (JArr [])),
       ui_planContent := if_own ui ''planContent'' (ui_planContent s),
       ui_planFilePath := if_own ui ''planFilePath'' (ui_planFilePath s)\<rparr>"

definition apply_ui_part :: "jsval \<Rightarrow> ui_store \<Rightarrow> ui_store" where
  "apply_ui_part ui s = (if \<not> truthy ui then s else show_active_tab ui (put_ui ui s))"

definition or_else :: "'a option \<Rightarrow> 'a \<Rightarrow> 'a" where
  "or_else x d = (case x of Some v \<Rightarrow> v | None \<Rightarrow> d)"

definition applySessionSnapshot :: "snapshot option \<Rightarrow> pane_stores \<Rightarrow> pane_stores" where
  "applySessionSnapshot data p =
     (case data of
        None \<Rightarrow> p
      | Some d \<Rightarrow>
          \<lparr>pn_chat = (case sn_chat d of Some c \<Rightarrow> put_chat c (pn_chat p) | None \<Rightarrow> pn_chat p),
           pn_tasks = or_else (sn_task d) (pn_tasks p), pn_ops = or_else (sn_fileOps d) (pn_ops p),
           pn_fb = or_else (sn_fileBrowser d) (pn_fb p), pn_wf = or_else (sn_workflow d) (pn_wf p),
           pn_ui = apply_ui_part (sn_ui d) (pn_ui p)\<rparr>)"

section \<open>Mirroring\<close>


text \<open>
  What the chat of a pane is to be once it mirrors another, written down without the snapshot: the other's
  chat, except the ten fields that belong to the window.
\<close>

definition mirrored_chat :: "chat \<Rightarrow> chat \<Rightarrow> chat" where
  "mirrored_chat other own =
     other\<lparr>c_streamAbort := c_streamAbort own, c_wsSendPermission := c_wsSendPermission own, c_queueSender := c_queueSender own,
       c_streamGeneration := c_streamGeneration own, c_recap := c_recap own, c_recapTurns := c_recapTurns own,
       c_recapDismissed := c_recapDismissed own, c_quickActionVariableMode := c_quickActionVariableMode own,
       c_pendingOptimize := c_pendingOptimize own, c_pendingComposerSend := c_pendingComposerSend own\<rparr>"


lemma mirrored_again [simp]: "mirrored_chat other (mirrored_chat other own) = mirrored_chat other own"
  by (simp add: mirrored_chat_def)




lemma pickTask_id [simp]: "pickTaskState s = s"
  by (simp add: pickTaskState_def)


lemma foreign_part_missing: "applySessionSnapshot None q = q"
  by (simp add: applySessionSnapshot_def)

end
