(* ===== verification/HooksStore.thy ===== *)
theory HooksStore
  imports Settings
begin

text \<open>
  The hooks page (\<^verbatim>\<open>web/user/src/stores/hooksStore.js\<close>): the hooks of every settings scope, the handlers
  of the active one, the catalog, test runs and the paged log. As in the settings, an asynchronous
  operation is a call that sends a request with what its closure keeps, and an answer in any order;
  console output is left out.
\<close>

section \<open>State\<close>

datatype hk_request =
    HkConfig
  | HkSave jsval jsval jsval
  | HkCatalog
  | HkTest string jsval jsval
  | HkLogs jsval int jsval

record hooks_store =
  hk_selectedHookId :: jsval
  hk_activeDetailTab :: string
  hk_configuredHooks :: jsval
  hk_configuredScopes :: "jsval list"
  hk_adminHooks :: jsval
  hk_activeScope :: jsval
  hk_activeCwd :: jsval
  hk_detailWidth :: int
  hk_listWidth :: int
  hk_configLoading :: bool
  hk_savingConfig :: bool
  hk_catalog :: "jsval list"
  hk_catalogLoading :: bool
  hk_testResult :: jsval
  hk_testRunning :: bool
  hk_logs :: jsval
  hk_logsTotal :: jsval
  hk_logsLoading :: bool
  hk_logsFilter :: jsval
  hk_logsCursorStack :: "jsval list"
  hk_logsNextCursor :: jsval
  hk_handlerFormOpen :: bool
  hk_editingHandler :: jsval
  hk_configLoaded :: bool
  hk_catalogLoaded :: bool
  hk_storage :: storage
  hk_inflight :: "hk_request list"

definition is_scope :: "jsval \<Rightarrow> jsval \<Rightarrow> jsval \<Rightarrow> bool" where
  "is_scope scope cwd s \<longleftrightarrow> jeq (jget s ''scope'') scope \<and> jeq (jor (jget s ''cwd'') JNull) (jor cwd JNull)"

definition hooksForScope :: "jsval list \<Rightarrow> jsval \<Rightarrow> jsval \<Rightarrow> jsval" where
  "hooksForScope scopes scope cwd =
     (case List.find (is_scope scope cwd) scopes of Some m \<Rightarrow> jor (jget m ''hooks'') (JObj []) | None \<Rightarrow> JObj [])"

definition hk_reset :: "hooks_store \<Rightarrow> hooks_store" where
  "hk_reset s =
     s\<lparr>hk_selectedHookId := JNull, hk_activeDetailTab := ''config'', hk_configuredHooks := JObj [], hk_configuredScopes := [],
       hk_adminHooks := JObj [], hk_activeScope := JStr ''user'', hk_activeCwd := JNull, hk_configLoading := False,
       hk_savingConfig := False, hk_catalog := [], hk_catalogLoading := False, hk_testResult := JNull,
       hk_testRunning := False, hk_logs := JArr [], hk_logsTotal := JNull, hk_logsLoading := False, hk_logsFilter := JNull,
       hk_logsCursorStack := [JNull], hk_logsNextCursor := JNull, hk_handlerFormOpen := False, hk_editingHandler := JNull,
       hk_configLoaded := False, hk_catalogLoaded := False\<rparr>"

definition hk_initial :: "js_env \<Rightarrow> storage \<Rightarrow> hooks_store" where
  "hk_initial env st =
     \<lparr>hk_selectedHookId = JNull, hk_activeDetailTab = ''config'', hk_configuredHooks = JObj [], hk_configuredScopes = [],
      hk_adminHooks = JObj [], hk_activeScope = JStr ''user'', hk_activeCwd = JNull,
      hk_detailWidth = getNumber env st ''hooks-detail-width'' 380 (Some 280) (Some 600),
      hk_listWidth = getNumber env st ''hooks-list-width'' 240 (Some 220) (Some 420),
      hk_configLoading = False, hk_savingConfig = False, hk_catalog = [], hk_catalogLoading = False,
      hk_testResult = JNull, hk_testRunning = False, hk_logs = JArr [], hk_logsTotal = JNull, hk_logsLoading = False,
      hk_logsFilter = JNull, hk_logsCursorStack = [JNull], hk_logsNextCursor = JNull, hk_handlerFormOpen = False,
      hk_editingHandler = JNull, hk_configLoaded = False, hk_catalogLoaded = False, hk_storage = st, hk_inflight = []\<rparr>"

definition ask_hk :: "hk_request \<Rightarrow> hooks_store \<Rightarrow> hooks_store" where
  "ask_hk q s = s\<lparr>hk_inflight := hk_inflight s @ [q]\<rparr>"

section \<open>Operations\<close>

definition hk_loadConfig :: "hooks_store \<Rightarrow> hooks_store" where
  "hk_loadConfig s = ask_hk HkConfig (s\<lparr>hk_configLoading := True\<rparr>)"

definition hk_loadCatalog :: "hooks_store \<Rightarrow> hooks_store" where
  "hk_loadCatalog s = ask_hk HkCatalog (s\<lparr>hk_catalogLoading := True\<rparr>)"

definition selectHook :: "jsval \<Rightarrow> hooks_store \<Rightarrow> hooks_store" where
  "selectHook i s =
     (let s1 = s\<lparr>hk_selectedHookId := i, hk_activeDetailTab := ''config''\<rparr>;
          s2 = (if hk_configLoaded s1 then s1 else hk_loadConfig s1)
      in if hk_catalogLoaded s1 then s2 else hk_loadCatalog s2)"

definition hk_clearSelection :: "hooks_store \<Rightarrow> hooks_store" where
  "hk_clearSelection s = s\<lparr>hk_selectedHookId := JNull\<rparr>"

definition setDetailTab :: "string \<Rightarrow> hooks_store \<Rightarrow> hooks_store" where
  "setDetailTab tab s = s\<lparr>hk_activeDetailTab := tab\<rparr>"

definition setDetailWidth :: "int \<Rightarrow> hooks_store \<Rightarrow> hooks_store" where
  "setDetailWidth w s = s\<lparr>hk_storage := snd (setItem ''hooks-detail-width'' (show_int w) (hk_storage s)), hk_detailWidth := w\<rparr>"

definition hk_setListWidth :: "int \<Rightarrow> hooks_store \<Rightarrow> hooks_store" where
  "hk_setListWidth w s = s\<lparr>hk_storage := snd (setItem ''hooks-list-width'' (show_int w) (hk_storage s)), hk_listWidth := w\<rparr>"

definition user_scope :: jsval where
  "user_scope = JObj [(''scope'', JStr ''user''), (''cwd'', JNull)]"

definition has_hooks :: "jsval \<Rightarrow> bool" where
  "has_hooks s \<longleftrightarrow> obj_of (jor (jget s ''hooks'') (JObj [])) \<noteq> []"

definition first_scope :: "jsval list \<Rightarrow> jsval" where
  "first_scope scopes =
     (case List.find has_hooks scopes of
        Some s \<Rightarrow> s
      | None \<Rightarrow> (case List.find (\<lambda>s. jeq (jget s ''scope'') (JStr ''user'')) scopes of Some s \<Rightarrow> s | None \<Rightarrow> user_scope))"

definition got_config :: "jsval \<Rightarrow> hooks_store \<Rightarrow> hooks_store" where
  "got_config data s =
     (let scopes = arr_of (jget data ''scopes''); active = first_scope scopes; cwd = jor (jget active ''cwd'') JNull
      in s\<lparr>hk_configuredScopes := scopes, hk_adminHooks := jor (jget data ''admin'') (JObj []),
           hk_activeScope := jget active ''scope'', hk_activeCwd := cwd,
           hk_configuredHooks := hooksForScope scopes (jget active ''scope'') cwd, hk_configLoaded := True\<rparr>)"

definition setActiveScope :: "jsval \<Rightarrow> jsval \<Rightarrow> hooks_store \<Rightarrow> hooks_store" where
  "setActiveScope scope cwd s =
     s\<lparr>hk_activeScope := scope, hk_activeCwd := jor cwd JNull,
       hk_configuredHooks := hooksForScope (hk_configuredScopes s) scope (jor cwd JNull)\<rparr>"

definition saveConfig :: "jsval \<Rightarrow> hooks_store \<Rightarrow> hooks_store" where
  "saveConfig hooks s = ask_hk (HkSave hooks (hk_activeScope s) (hk_activeCwd s)) (s\<lparr>hk_savingConfig := True\<rparr>)"

definition put_scope :: "jsval \<Rightarrow> jsval \<Rightarrow> jsval \<Rightarrow> jsval list \<Rightarrow> jsval list" where
  "put_scope scope cwd entry scopes =
     (case find_index (is_scope scope cwd) scopes of Some i \<Rightarrow> scopes[i := entry] | None \<Rightarrow> scopes @ [entry])"

definition saved_config :: "jsval \<Rightarrow> jsval \<Rightarrow> jsval \<Rightarrow> jsval \<Rightarrow> hooks_store \<Rightarrow> hooks_store" where
  "saved_config hooks scope cwd data s =
     (let savedHooks = jor (jget data ''hooks'') hooks;
          entry = JObj [(''scope'', scope), (''cwd'', jor cwd JNull), (''hooks'', savedHooks)]
      in s\<lparr>hk_configuredHooks := savedHooks, hk_configuredScopes := put_scope scope cwd entry (hk_configuredScopes s)\<rparr>)"

definition handlers :: "jsval \<Rightarrow> string \<Rightarrow> jsval list" where
  "handlers hooks eventType = arr_of (jor (jget hooks eventType) (JArr []))"

definition add_to :: "string \<Rightarrow> jsval \<Rightarrow> jsval \<Rightarrow> jsval" where
  "add_to eventType entry hooks = jset eventType (JArr (handlers hooks eventType @ [entry])) hooks"

text \<open>\<^verbatim>\<open>list[idx] = entry\<close> with an index past the end leaves holes, which read as \<^verbatim>\<open>undefined\<close>.\<close>

definition array_set :: "nat \<Rightarrow> jsval \<Rightarrow> jsval list \<Rightarrow> jsval list" where
  "array_set i v xs = (xs @ replicate (Suc i - length xs) JUndef)[i := v]"

definition update_in :: "string \<Rightarrow> nat \<Rightarrow> jsval \<Rightarrow> jsval \<Rightarrow> jsval" where
  "update_in eventType i entry hooks = jset eventType (JArr (array_set i entry (handlers hooks eventType))) hooks"

definition remove_from :: "string \<Rightarrow> nat \<Rightarrow> jsval \<Rightarrow> jsval" where
  "remove_from eventType i hooks =
     (let l = take i (handlers hooks eventType) @ drop (Suc i) (handlers hooks eventType)
      in if l = [] then jdel eventType hooks else jset eventType (JArr l) hooks)"

definition addHandler :: "string \<Rightarrow> jsval \<Rightarrow> hooks_store \<Rightarrow> hooks_store" where
  "addHandler eventType entry s = saveConfig (add_to eventType entry (hk_configuredHooks s)) s"

definition updateHandler :: "string \<Rightarrow> nat \<Rightarrow> jsval \<Rightarrow> hooks_store \<Rightarrow> hooks_store" where
  "updateHandler eventType i entry s = saveConfig (update_in eventType i entry (hk_configuredHooks s)) s"

definition removeHandler :: "string \<Rightarrow> nat \<Rightarrow> hooks_store \<Rightarrow> hooks_store" where
  "removeHandler eventType i s = saveConfig (remove_from eventType i (hk_configuredHooks s)) s"

definition hk_runTest :: "string \<Rightarrow> jsval \<Rightarrow> jsval \<Rightarrow> hooks_store \<Rightarrow> hooks_store" where
  "hk_runTest eventType handler inputJson s = ask_hk (HkTest eventType handler inputJson) (s\<lparr>hk_testRunning := True, hk_testResult := JNull\<rparr>)"

definition clearTestResult :: "hooks_store \<Rightarrow> hooks_store" where
  "clearTestResult s = s\<lparr>hk_testResult := JNull\<rparr>"

definition loadLogs :: "jsval \<Rightarrow> int \<Rightarrow> hooks_store \<Rightarrow> hooks_store" where
  "loadLogs eventType limit s =
     ask_hk (HkLogs eventType limit (if hk_logsCursorStack s = [] then JUndef else last (hk_logsCursorStack s))) (s\<lparr>hk_logsLoading := True\<rparr>)"

definition got_logs :: "jsval \<Rightarrow> jsval \<Rightarrow> hooks_store \<Rightarrow> hooks_store" where
  "got_logs eventType data s =
     s\<lparr>hk_logs := jor (jget data ''entries'') (JArr []), hk_logsTotal := jcoal (jget data ''total'') JNull,
       hk_logsFilter := jor eventType JNull, hk_logsNextCursor := jor (jget data ''next_cursor'') JNull\<rparr>"

definition setLogsFilter :: "jsval \<Rightarrow> hooks_store \<Rightarrow> hooks_store" where
  "setLogsFilter eventType s = s\<lparr>hk_logsFilter := jor eventType JNull, hk_logsCursorStack := [JNull], hk_logsNextCursor := JNull\<rparr>"

definition logsNext :: "hooks_store \<Rightarrow> hooks_store" where
  "logsNext s =
     (if \<not> truthy (hk_logsNextCursor s) then s
      else s\<lparr>hk_logsCursorStack := hk_logsCursorStack s @ [hk_logsNextCursor s]\<rparr>)"

definition logsPrev :: "hooks_store \<Rightarrow> hooks_store" where
  "logsPrev s =
     (if length (hk_logsCursorStack s) \<le> 1 then s else s\<lparr>hk_logsCursorStack := butlast (hk_logsCursorStack s)\<rparr>)"

definition openHandlerForm :: "jsval \<Rightarrow> hooks_store \<Rightarrow> hooks_store" where
  "openHandlerForm handler s = s\<lparr>hk_handlerFormOpen := True, hk_editingHandler := jor handler JNull\<rparr>"

definition closeHandlerForm :: "hooks_store \<Rightarrow> hooks_store" where
  "closeHandlerForm s = s\<lparr>hk_handlerFormOpen := False, hk_editingHandler := JNull\<rparr>"

definition failed_test :: "api_error \<Rightarrow> jsval" where
  "failed_test e = JObj [(''exit_code'', JNum (-1)), (''stdout'', JStr []), (''stderr'', JStr (err_message e)), (''duration_ms'', JNum 0)]"

text \<open>Reading a field of a body that is \<^verbatim>\<open>null\<close> or \<^verbatim>\<open>undefined\<close> throws inside the \<^verbatim>\<open>try\<close> block.\<close>

definition reads_body :: "api_error + jsval \<Rightarrow> (jsval \<Rightarrow> hooks_store \<Rightarrow> hooks_store) \<Rightarrow> hooks_store \<Rightarrow> hooks_store" where
  "reads_body response f s = (case response of Inr data \<Rightarrow> if nullish data then s else f data s | Inl e \<Rightarrow> s)"

definition hk_settle :: "hk_request \<Rightarrow> api_error + jsval \<Rightarrow> hooks_store \<Rightarrow> hooks_store" where
  "hk_settle q response s =
     (case q of
        HkConfig \<Rightarrow> (reads_body response got_config s)\<lparr>hk_configLoading := False\<rparr>
      | HkSave hooks scope cwd \<Rightarrow> (reads_body response (saved_config hooks scope cwd) s)\<lparr>hk_savingConfig := False\<rparr>
      | HkCatalog \<Rightarrow>
          (case response of Inr data \<Rightarrow> s\<lparr>hk_catalog := arr_of data, hk_catalogLoaded := True\<rparr> | Inl e \<Rightarrow> s)
            \<lparr>hk_catalogLoading := False\<rparr>
      | HkTest eventType handler inputJson \<Rightarrow>
          s\<lparr>hk_testResult := (case response of Inr data \<Rightarrow> data | Inl e \<Rightarrow> failed_test e), hk_testRunning := False\<rparr>
      | HkLogs eventType limit cursor \<Rightarrow> (reads_body response (got_logs eventType) s)\<lparr>hk_logsLoading := False\<rparr>)"

text \<open>The answer to the \<open>i\<close>-th request that is under way.\<close>

definition hk_answer :: "nat \<Rightarrow> api_error + jsval \<Rightarrow> hooks_store \<Rightarrow> hooks_store" where
  "hk_answer i response s =
     (if i < length (hk_inflight s)
      then hk_settle (hk_inflight s ! i) response (s\<lparr>hk_inflight := take i (hk_inflight s) @ drop (Suc i) (hk_inflight s)\<rparr>)
      else s)"

section \<open>Runs\<close>

datatype hk_event =
    EvSelectHook jsval
  | EvClearHook
  | EvDetailTab string
  | EvDetailWidth int
  | EvHookListWidth int
  | EvLoadConfig
  | EvScope jsval jsval
  | EvAdd string jsval
  | EvUpdate string nat jsval
  | EvRemove string nat
  | EvLoadCatalog
  | EvTest string jsval jsval
  | EvClearTest
  | EvLogs jsval int
  | EvLogsFilter jsval
  | EvLogsNext
  | EvLogsPrev
  | EvOpenForm jsval
  | EvCloseForm
  | EvHookAnswer nat "api_error + jsval"
  | EvHookReset

fun hk_step :: "hooks_store \<Rightarrow> hk_event \<Rightarrow> hooks_store" where
  "hk_step s (EvSelectHook i) = selectHook i s"
| "hk_step s EvClearHook = hk_clearSelection s"
| "hk_step s (EvDetailTab t) = setDetailTab t s"
| "hk_step s (EvDetailWidth w) = setDetailWidth w s"
| "hk_step s (EvHookListWidth w) = hk_setListWidth w s"
| "hk_step s EvLoadConfig = hk_loadConfig s"
| "hk_step s (EvScope scope cwd) = setActiveScope scope cwd s"
| "hk_step s (EvAdd e x) = addHandler e x s"
| "hk_step s (EvUpdate e i x) = updateHandler e i x s"
| "hk_step s (EvRemove e i) = removeHandler e i s"
| "hk_step s EvLoadCatalog = hk_loadCatalog s"
| "hk_step s (EvTest e h j) = hk_runTest e h j s"
| "hk_step s EvClearTest = clearTestResult s"
| "hk_step s (EvLogs e n) = loadLogs e n s"
| "hk_step s (EvLogsFilter e) = setLogsFilter e s"
| "hk_step s EvLogsNext = logsNext s"
| "hk_step s EvLogsPrev = logsPrev s"
| "hk_step s (EvOpenForm h) = openHandlerForm h s"
| "hk_step s EvCloseForm = closeHandlerForm s"
| "hk_step s (EvHookAnswer i r) = hk_answer i r s"
| "hk_step s EvHookReset = hk_reset s"

fun is_save :: "hk_request \<Rightarrow> bool" where
  "is_save (HkSave _ _ _) = True"
| "is_save _ = False"

definition saving :: "hooks_store \<Rightarrow> bool" where
  "saving s \<longleftrightarrow> (\<exists>q \<in> set (hk_inflight s). is_save q)"

text \<open>
  The runs in which the scope changes only while no save is on its way: by the picker, by a
  configuration that arrives, or by a reset. The answer carries JSON, in which no scope is NaN.
\<close>

definition json_scopes :: "jsval \<Rightarrow> bool" where
  "json_scopes data \<longleftrightarrow> (\<forall>s \<in> set (arr_of (jget data ''scopes'')). jget s ''scope'' \<noteq> JNaN)"

fun hk_ok :: "hooks_store \<Rightarrow> hk_event \<Rightarrow> bool" where
  "hk_ok s (EvScope scope cwd) \<longleftrightarrow> \<not> saving s \<and> scope \<noteq> JNaN"
| "hk_ok s (EvHookAnswer i (Inr data)) \<longleftrightarrow>
     i < length (hk_inflight s) \<and> hk_inflight s ! i = HkConfig \<longrightarrow> \<not> saving s \<and> json_scopes data"
| "hk_ok s EvHookReset \<longleftrightarrow> \<not> saving s"
| "hk_ok s _ \<longleftrightarrow> True"

definition shows_scope :: "hooks_store \<Rightarrow> bool" where
  "shows_scope s \<longleftrightarrow> hk_configuredHooks s = hooksForScope (hk_configuredScopes s) (hk_activeScope s) (hk_activeCwd s)"

definition cursors_ok :: "jsval list \<Rightarrow> bool" where
  "cursors_ok cs \<longleftrightarrow> cs \<noteq> [] \<and> hd cs = JNull \<and> list_all truthy (tl cs)"

definition saves_active :: "hooks_store \<Rightarrow> bool" where
  "saves_active s \<longleftrightarrow> (\<forall>h scope cwd. HkSave h scope cwd \<in> set (hk_inflight s) \<longrightarrow>
     scope = hk_activeScope s \<and> cwd = hk_activeCwd s \<and> truthy h)"

definition hk_inv :: "hooks_store \<Rightarrow> bool" where
  "hk_inv s \<longleftrightarrow> shows_scope s \<and> hk_activeScope s \<noteq> JNaN \<and> saves_active s \<and> cursors_ok (hk_logsCursorStack s)"

section \<open>The shown hooks are those of the active scope\<close>

lemma hooksForScope_put:
  assumes "is_scope scope cwd entry"
  shows "hooksForScope (put_scope scope cwd entry scopes) scope cwd = jor (jget entry ''hooks'') (JObj [])"
proof -
  have "List.find (is_scope scope cwd) (put_scope scope cwd entry scopes) = Some entry"
    using assms by (induction scopes) (auto simp: put_scope_def split: option.splits)
  then show ?thesis by (simp add: hooksForScope_def)
qed

lemma hooksForScope_put_other:
  assumes "\<not> (jeq scope' scope \<and> jeq (jor cwd' JNull) (jor cwd JNull))" and "is_scope scope cwd entry"
  shows "hooksForScope (put_scope scope cwd entry scopes) scope' cwd' = hooksForScope scopes scope' cwd'"
proof -
  have no: "\<not> is_scope scope' cwd' s" if "is_scope scope cwd s" for s
    using that assms(1) by (auto simp: is_scope_def jeq_def)
  have "List.find (is_scope scope' cwd') (put_scope scope cwd entry scopes) = List.find (is_scope scope' cwd') scopes"
    using no assms(2) by (induction scopes) (auto simp: put_scope_def split: option.splits)
  then show ?thesis by (simp add: hooksForScope_def)
qed

lemma is_scope_entry: "scope \<noteq> JNaN \<Longrightarrow> is_scope scope cwd (JObj [(''scope'', scope), (''cwd'', jor cwd JNull), (''hooks'', h)])"
  by (auto simp: is_scope_def jeq_def jor_def)

lemma jor_idem [simp]: "jor (jor cwd JNull) JNull = jor cwd JNull"
  by (simp add: jor_def)

lemma truthy_hooksForScope [simp]: "truthy (hooksForScope scopes scope cwd)"
  by (simp add: hooksForScope_def split: option.split)

lemma hooksForScope_jor [simp]: "hooksForScope scopes scope (jor cwd JNull) = hooksForScope scopes scope cwd"
  by (simp add: hooksForScope_def is_scope_def [abs_def])

lemma truthy_jdel: "truthy h \<Longrightarrow> truthy (jdel k h)"
  by (cases h) (auto simp: jdel_def)

lemma truthy_handler_edits: "truthy h \<Longrightarrow> truthy (add_to e x h) \<and> truthy (update_in e i x h) \<and> truthy (remove_from e i h)"
  by (simp add: add_to_def update_in_def remove_from_def Let_def truthy_jdel)

lemma not_saving_saves_active: "\<not> saving s \<Longrightarrow> saves_active s'" if "hk_inflight s' = hk_inflight s"
  using that by (force simp: saving_def saves_active_def)

lemmas hk_inv_defs = hk_inv_def shows_scope_def saves_active_def ask_hk_def

lemma hk_inv_saveConfig: "hk_inv s \<Longrightarrow> truthy h \<Longrightarrow> hk_inv (saveConfig h s)"
  by (auto simp: hk_inv_defs saveConfig_def)

lemma hk_inv_ask: "hk_inv s \<Longrightarrow> \<not> is_save q \<Longrightarrow> hk_inv (ask_hk q s)"
  by (auto simp: hk_inv_defs)

lemma hk_inv_drop:
  assumes "hk_inv s"
  shows "hk_inv (s\<lparr>hk_inflight := take i (hk_inflight s) @ drop (Suc i) (hk_inflight s)\<rparr>)"
  using assms by (auto simp: hk_inv_defs dest: in_set_takeD in_set_dropD)

lemma shows_saved:
  assumes "truthy h" "scope \<noteq> JNaN"
  shows "hooksForScope (put_scope scope cwd (JObj [(''scope'', scope), (''cwd'', jor cwd JNull), (''hooks'', h)]) scopes) scope cwd = h"
  using assms by (simp add: hooksForScope_put is_scope_entry jor_truthy)

lemma hk_inv_saved:
  assumes "hk_inv s" "truthy h"
  shows "hk_inv (saved_config h (hk_activeScope s) (hk_activeCwd s) data s)"
  using assms by (auto simp: hk_inv_defs saved_config_def Let_def shows_saved)

lemma first_scope_not_NaN: "\<forall>s \<in> set scopes. jget s ''scope'' \<noteq> JNaN \<Longrightarrow> jget (first_scope scopes) ''scope'' \<noteq> JNaN"
  by (auto simp: first_scope_def user_scope_def find_Some_iff split: option.split)

lemma hk_inv_got_config: "hk_inv s \<Longrightarrow> \<not> saving s \<Longrightarrow> json_scopes data \<Longrightarrow> hk_inv (got_config data s)"
  using first_scope_not_NaN [of "arr_of (jget data ''scopes'')"]
  by (auto simp: hk_inv_def shows_scope_def got_config_def Let_def json_scopes_def intro: not_saving_saves_active)

lemma hk_inv_scope: "hk_inv s \<Longrightarrow> \<not> saving s \<Longrightarrow> scope \<noteq> JNaN \<Longrightarrow> hk_inv (setActiveScope scope cwd s)"
  by (auto simp: hk_inv_def shows_scope_def setActiveScope_def intro: not_saving_saves_active)

lemma hk_inv_reset: "\<not> saving s \<Longrightarrow> hk_inv (hk_reset s)"
  by (auto simp: hk_inv_def shows_scope_def hk_reset_def hooksForScope_def cursors_ok_def intro: not_saving_saves_active)

lemma hk_inv_cong:
  assumes "hk_inv s" "hk_configuredHooks s' = hk_configuredHooks s" "hk_configuredScopes s' = hk_configuredScopes s"
    "hk_activeScope s' = hk_activeScope s" "hk_activeCwd s' = hk_activeCwd s" "hk_inflight s' = hk_inflight s"
    "cursors_ok (hk_logsCursorStack s')"
  shows "hk_inv s'"
  using assms by (simp add: hk_inv_defs)

lemma hk_inv_cursors: "hk_inv s \<Longrightarrow> cursors_ok (hk_logsCursorStack s)"
  by (simp add: hk_inv_def)

lemma cursors_next: "cursors_ok cs \<Longrightarrow> truthy c \<Longrightarrow> cursors_ok (cs @ [c])"
  by (cases cs) (auto simp: cursors_ok_def)

lemma cursors_prev: "cursors_ok cs \<Longrightarrow> \<not> length cs \<le> 1 \<Longrightarrow> cursors_ok (butlast cs)"
  by (cases cs) (auto simp: cursors_ok_def list_all_iff dest: in_set_butlastD)

lemma hk_inv_settle:
  assumes inv: "hk_inv s"
    and save: "\<And>h scope cwd. q = HkSave h scope cwd \<Longrightarrow> scope = hk_activeScope s \<and> cwd = hk_activeCwd s \<and> truthy h"
    and config: "\<And>data. q = HkConfig \<Longrightarrow> r = Inr data \<Longrightarrow> \<not> saving s \<and> json_scopes data"
  shows "hk_inv (hk_settle q r s)"
proof (cases q)
  case HkConfig
  then have "hk_inv (reads_body r got_config s)"
    using inv config hk_inv_got_config by (cases r) (auto simp: reads_body_def)
  then show ?thesis by (rule hk_inv_cong) (simp_all add: hk_settle_def HkConfig hk_inv_cursors [OF \<open>hk_inv (reads_body r got_config s)\<close>])
next
  case (HkSave h scope cwd)
  then have ok: "hk_inv (reads_body r (saved_config h scope cwd) s)"
    using inv save [OF HkSave] hk_inv_saved by (cases r) (auto simp: reads_body_def)
  then show ?thesis by (rule hk_inv_cong) (simp_all add: hk_settle_def HkSave hk_inv_cursors [OF ok])
qed (use inv in \<open>auto intro!: hk_inv_cong [OF inv] simp: hk_settle_def reads_body_def got_logs_def hk_inv_cursors split: sum.split\<close>)

lemma hk_inv_answer:
  assumes "hk_inv s" "hk_ok s (EvHookAnswer i r)"
  shows "hk_inv (hk_answer i r s)"
proof (cases "i < length (hk_inflight s)")
  case True
  let ?s = "s\<lparr>hk_inflight := take i (hk_inflight s) @ drop (Suc i) (hk_inflight s)\<rparr>"
  have "saving s" if "saving ?s" using that by (auto simp: saving_def dest: in_set_takeD in_set_dropD)
  moreover have "hk_inflight s ! i \<in> set (hk_inflight s)" using True by simp
  ultimately show ?thesis
    using True assms hk_inv_drop [of s i] unfolding hk_answer_def
    by (simp, intro hk_inv_settle) (auto simp: hk_inv_def saves_active_def)
qed (use assms in \<open>simp add: hk_answer_def\<close>)

lemma hk_inv_load: "hk_inv s \<Longrightarrow> hk_inv (hk_loadConfig s) \<and> hk_inv (hk_loadCatalog s)"
  unfolding hk_loadConfig_def hk_loadCatalog_def
  by (intro conjI hk_inv_ask; (simp add: hk_inv_defs)?)

lemma hk_inv_select: "hk_inv s \<Longrightarrow> hk_inv (selectHook i s)"
proof -
  assume inv: "hk_inv s"
  have "hk_inv (s\<lparr>hk_selectedHookId := i, hk_activeDetailTab := ''config''\<rparr>)"
    by (rule hk_inv_cong [OF inv]) (simp_all add: hk_inv_cursors [OF inv])
  then show ?thesis by (simp add: selectHook_def Let_def hk_inv_load)
qed

lemma hk_inv_init: "hk_inv (hk_initial env st)"
  by (simp add: hk_inv_defs hk_initial_def hooksForScope_def cursors_ok_def)

lemma hk_inv_step:
  assumes inv: "hk_inv s" and ok: "hk_ok s e"
  shows "hk_inv (hk_step s e)"
proof -
  note c = hk_inv_cursors [OF inv]
  have h: "truthy (hk_configuredHooks s)" using inv by (simp add: hk_inv_def shows_scope_def)
  note edits = truthy_handler_edits [OF h]
  show ?thesis
  proof (cases e)
    case (EvTest ev h j)
    have "hk_inv (s\<lparr>hk_testRunning := True, hk_testResult := JNull\<rparr>)" by (rule hk_inv_cong [OF inv]) (simp_all add: c)
    then show ?thesis by (simp add: EvTest hk_runTest_def hk_inv_ask)
  next
    case (EvLogs ev n)
    have "hk_inv (s\<lparr>hk_logsLoading := True\<rparr>)" by (rule hk_inv_cong [OF inv]) (simp_all add: c)
    then show ?thesis by (simp add: EvLogs loadLogs_def hk_inv_ask)
  next
    case (EvHookAnswer i r)
    then show ?thesis using hk_inv_answer [OF inv] ok by simp
  qed (use inv ok c edits in \<open>auto simp: addHandler_def updateHandler_def removeHandler_def hk_inv_saveConfig hk_inv_load
        hk_inv_select hk_inv_scope hk_inv_reset hk_clearSelection_def setDetailTab_def setDetailWidth_def hk_setListWidth_def
        clearTestResult_def setLogsFilter_def logsNext_def logsPrev_def openHandlerForm_def closeHandlerForm_def
        cursors_next cursors_prev intro!: hk_inv_cong [OF inv]\<close>, (simp add: cursors_ok_def)+)
qed

interpretation hk: machine "hk_initial env st" hk_step hk_ok hk_inv for env st
  by unfold_locales (rule hk_inv_init, rule hk_inv_step)

text \<open>
  While the scope is changed only when no save is on its way, the hooks the page shows are those the
  configuration has for the active scope, and the log pages start at the newest.
\<close>

theorem hooks_page_shows_scope:
  assumes "hk.ok_run (hk_initial env st) es"
  shows "let s = hk.run (hk_initial env st) es in
           hk_configuredHooks s = hooksForScope (hk_configuredScopes s) (hk_activeScope s) (hk_activeCwd s) \<and>
           hd (hk_logsCursorStack s) = JNull \<and> hk_logsCursorStack s \<noteq> []"
  using hk.run_inv [OF assms] by (simp add: Let_def hk_inv_def shows_scope_def cursors_ok_def)

text \<open>A handler that was added and then removed leaves the hooks as they were.\<close>

lemma handlers_add_to [simp]: "handlers (add_to e x hooks) e = handlers hooks e @ [x]"
  by (simp add: handlers_def add_to_def jor_def)

lemma update_same: "map_of kvs k = Some v \<Longrightarrow> AList.update k v kvs = kvs"
  by (induction kvs) (auto split: if_splits)

lemma delete_absent: "map_of kvs k = None \<Longrightarrow> AList.delete k (AList.update k v kvs) = kvs"
  by (induction kvs) (auto split: if_splits)

lemma add_then_remove:
  assumes "has_own (JObj kvs) e \<longrightarrow> (\<exists>hs. jget (JObj kvs) e = JArr hs \<and> hs \<noteq> [])"
  shows "remove_from e (length (handlers (JObj kvs) e)) (add_to e entry (JObj kvs)) = JObj kvs"
proof (cases "map_of kvs e")
  case None
  then have "handlers (JObj kvs) e = []" by (simp add: handlers_def jor_def)
  then show ?thesis using None
    by (simp add: remove_from_def Let_def) (simp add: add_to_def jdel_def delete_absent)
next
  case (Some v)
  then obtain hs where v: "v = JArr hs" "hs \<noteq> []" using assms by auto
  with Some have "handlers (JObj kvs) e = hs" by (simp add: handlers_def jor_def)
  then show ?thesis using Some v
    by (simp add: remove_from_def Let_def) (simp add: add_to_def update_same)
qed

definition echo :: "jsval \<Rightarrow> api_error + jsval" where
  "echo hooks = Inr (JObj [(''hooks'', hooks)])"

lemma saved_echo:
  assumes "hk_inflight s = []" "truthy h"
  shows "hk_configuredHooks (hk_answer 0 (echo h) (saveConfig h s)) = h"
    and "hk_inflight (hk_answer 0 (echo h) (saveConfig h s)) = []"
    and "hk_activeScope (hk_answer 0 (echo h) (saveConfig h s)) = hk_activeScope s"
    and "hk_activeCwd (hk_answer 0 (echo h) (saveConfig h s)) = hk_activeCwd s"
    and "hk_configuredScopes (hk_answer 0 (echo h) (saveConfig h s)) =
           put_scope (hk_activeScope s) (hk_activeCwd s)
             (JObj [(''scope'', hk_activeScope s), (''cwd'', jor (hk_activeCwd s) JNull), (''hooks'', h)]) (hk_configuredScopes s)"
  using assms
  by (simp_all add: hk_answer_def saveConfig_def ask_hk_def hk_settle_def reads_body_def saved_config_def echo_def jor_truthy Let_def)

text \<open>A save changes the stored hooks of its own scope only.\<close>

lemma save_touches_one_scope:
  assumes "scope \<noteq> JNaN" "\<not> (jeq scope' scope \<and> jeq (jor cwd' JNull) (jor cwd JNull))"
  shows "hooksForScope (hk_configuredScopes (saved_config h scope cwd data s)) scope' cwd' = hooksForScope (hk_configuredScopes s) scope' cwd'"
  using assms by (simp add: saved_config_def Let_def hooksForScope_put_other is_scope_entry)

text \<open>
  Adding a handler and removing it again, each saved by the server, gives back the hooks of the active
  scope.
\<close>

theorem handler_round_trip:
  assumes "hk_inflight s = []" "hk_configuredHooks s = JObj kvs"
    and "has_own (JObj kvs) e \<longrightarrow> (\<exists>hs. jget (JObj kvs) e = JArr hs \<and> hs \<noteq> [])"
  shows "let n = length (handlers (JObj kvs) e); more = add_to e x (JObj kvs);
             s1 = hk_answer 0 (echo more) (addHandler e x s);
             s2 = hk_answer 0 (echo (remove_from e n more)) (removeHandler e n s1)
         in handlers (hk_configuredHooks s1) e = handlers (JObj kvs) e @ [x] \<and>
            hk_configuredHooks s2 = hk_configuredHooks s"
proof -
  have t: "truthy (add_to e x (JObj kvs))" by (simp add: add_to_def)
  note one = saved_echo [OF assms(1) t]
  note undone = add_then_remove [OF assms(3), of x]
  let ?s1 = "hk_answer 0 (echo (add_to e x (JObj kvs))) (saveConfig (add_to e x (JObj kvs)) s)"
  have "hk_configuredHooks (hk_answer 0 (echo (JObj kvs)) (saveConfig (JObj kvs) ?s1)) = JObj kvs"
    by (rule saved_echo(1)) (simp_all add: one(2))
  then show ?thesis
    by (simp add: Let_def addHandler_def removeHandler_def assms(2) one(1) undone)
qed

text \<open>
  When the scope is switched while a save is on its way, the answer shows the hooks of the scope that
  was left under the scope that was chosen, and the next edit writes them there.
\<close>

theorem scope_switch_misdirects_save:
  assumes "hk_inflight s = []" "truthy h"
  shows "let s1 = setActiveScope scope cwd (saveConfig h s);
             s2 = hk_answer 0 (echo h) s1
         in hk_activeScope s2 = scope \<and> hk_configuredHooks s2 = h \<and>
            last (hk_inflight (addHandler e x s2)) = HkSave (add_to e x h) scope (jor cwd JNull)"
  using assms
  by (simp add: Let_def setActiveScope_def hk_answer_def saveConfig_def ask_hk_def hk_settle_def reads_body_def saved_config_def
      echo_def jor_truthy addHandler_def)

end
