(* ===== verification/SkillsStore.thy ===== *)
theory SkillsStore
  imports Settings
begin

text \<open>
  The skills page (\<^verbatim>\<open>web/user/src/stores/skillsStore.js\<close>): the skills of the user and of every workdir,
  the list of excluded skills, and the selected skill with its detail and the file in the viewer. An
  asynchronous operation is a call that sends a request with what its closure keeps, and an answer in
  any order; the two counters of the module decide whether an answer is still wanted. The download,
  which only drives the browser, is left out.

  Shown: what is on screen always belongs to the selected skill, and its loading state ends.
\<close>

section \<open>State\<close>

datatype skill_ref = SkillRef (sr_scope: string) (sr_cwd: jsval) (sr_name: string)

datatype sk_request =
    SkList
  | SkConfig
  | SkToggle "jsval list"
  | SkDetail skill_ref nat nat
  | SkMd skill_ref nat nat
  | SkFile skill_ref string nat
  | SkCache skill_ref string nat
  | SkUpload string jsval jsval
  | SkDelete skill_ref

record skills_store =
  sk_personal :: "jsval list"
  sk_groups :: "jsval list"
  sk_skillsLoading :: bool
  sk_skillsLoaded :: bool
  sk_searchQuery :: string
  sk_skillExclude :: "jsval list"
  sk_configLoaded :: bool
  sk_selectedSkill :: "skill_ref option"
  sk_skillDetail :: jsval
  sk_detailLoading :: bool
  sk_detailError :: "string option"
  sk_selectedFile :: "string option"
  sk_fileContent :: jsval
  sk_fileLoading :: bool
  sk_viewerMode :: string
  sk_listWidth :: int
  sk_viewMode :: string
  sk_uploading :: bool
  sk_selectionRequestId :: nat
  sk_fileRequestId :: nat
  sk_storage :: storage
  sk_inflight :: "sk_request list"

definition skillKey :: "jsval \<Rightarrow> string" where
  "skillKey s =
     (if truthy s
      then to_str (jget s ''scope'') @ '':'' @ to_str (jor (jget s ''cwd'') (JStr [])) @ '':'' @ to_str (jget s ''name'')
      else [])"

definition picked_group :: "jsval \<Rightarrow> jsval list" where
  "picked_group g =
     map (\<lambda>skill. jput skill [(''cwd'', jcoal (jcoal (jget skill ''cwd'') (jget g ''cwd'')) JNull), (''level'', JStr ''project'')])
       (arr_of (jor (jget g ''skills'') (JArr [])))"

definition flattenSkillsForPicker :: "jsval \<Rightarrow> jsval \<Rightarrow> jsval list" where
  "flattenSkillsForPicker personal groups =
     concat (map picked_group (arr_of groups)) @ map (\<lambda>skill. jput skill [(''level'', JStr ''global'')]) (arr_of personal)"

text \<open>The identity of a selection; a missing workdir counts as \<^verbatim>\<open>null\<close>.\<close>

definition matchesSelection :: "skills_store \<Rightarrow> skill_ref \<Rightarrow> bool" where
  "matchesSelection s k =
     (case sk_selectedSkill s of
        None \<Rightarrow> False
      | Some sel \<Rightarrow> sr_scope sel = sr_scope k \<and> jeq (sr_cwd sel) (jcoal (sr_cwd k) JNull) \<and> sr_name sel = sr_name k)"

definition normal_ref :: "skill_ref \<Rightarrow> skill_ref" where
  "normal_ref k = SkillRef (sr_scope k) (jcoal (sr_cwd k) JNull) (sr_name k)"

definition sk_initial :: "js_env \<Rightarrow> storage \<Rightarrow> skills_store" where
  "sk_initial env st =
     \<lparr>sk_personal = [], sk_groups = [], sk_skillsLoading = False, sk_skillsLoaded = False, sk_searchQuery = [],
      sk_skillExclude = [], sk_configLoaded = False, sk_selectedSkill = None, sk_skillDetail = JNull,
      sk_detailLoading = False, sk_detailError = None, sk_selectedFile = None, sk_fileContent = JNull, sk_fileLoading = False,
      sk_viewerMode = ''skill'', sk_listWidth = getNumber env st ''skill-list-width'' 300 (Some 220) (Some 560),
      sk_viewMode = ''preview'', sk_uploading = False, sk_selectionRequestId = 0, sk_fileRequestId = 0, sk_storage = st,
      sk_inflight = []\<rparr>"

definition ask_sk :: "sk_request \<Rightarrow> skills_store \<Rightarrow> skills_store" where
  "ask_sk q s = s\<lparr>sk_inflight := sk_inflight s @ [q]\<rparr>"

section \<open>Lists and exclusion\<close>

definition fetchSkills :: "skills_store \<Rightarrow> skills_store" where
  "fetchSkills s = ask_sk SkList (s\<lparr>sk_skillsLoading := True\<rparr>)"

definition got_skills :: "api_error + jsval \<Rightarrow> skills_store \<Rightarrow> skills_store" where
  "got_skills response s =
     (case response of
        Inr data \<Rightarrow>
          s\<lparr>sk_personal := arr_of (jget data ''personal''), sk_groups := arr_of (jget data ''groups''),
            sk_skillsLoading := False, sk_skillsLoaded := True\<rparr>
      | Inl e \<Rightarrow> s\<lparr>sk_skillsLoading := False, sk_skillsLoaded := False\<rparr>)"

definition ensureSkillsLoaded :: "skills_store \<Rightarrow> skills_store" where
  "ensureSkillsLoaded s = (if sk_skillsLoaded s \<or> sk_skillsLoading s then s else fetchSkills s)"

definition fetchSkillsConfig :: "skills_store \<Rightarrow> skills_store" where
  "fetchSkillsConfig s = (if sk_configLoaded s then s else ask_sk SkConfig s)"

definition got_skills_config :: "api_error + jsval \<Rightarrow> skills_store \<Rightarrow> skills_store" where
  "got_skills_config response s =
     (case response of
        Inr data \<Rightarrow> s\<lparr>sk_skillExclude := arr_of (jget data ''skill_exclude''), sk_configLoaded := True\<rparr>
      | Inl e \<Rightarrow> s\<lparr>sk_configLoaded := True\<rparr>)"

definition toggled :: "string \<Rightarrow> jsval list \<Rightarrow> jsval list" where
  "toggled skillName prev =
     (if JStr skillName \<in> set prev then filter (\<lambda>n. n \<noteq> JStr skillName) prev else prev @ [JStr skillName])"

definition mark_skills :: "string \<Rightarrow> jsval list \<Rightarrow> jsval list \<Rightarrow> jsval list" where
  "mark_skills skillName excluded =
     map (\<lambda>s. if jget s ''name'' = JStr skillName then jput s [(''enabled'', JBool (jget s ''name'' \<notin> set excluded))] else s)"

definition mark_group :: "string \<Rightarrow> jsval list \<Rightarrow> jsval \<Rightarrow> jsval" where
  "mark_group skillName excluded g =
     jput g [(''skills'', JArr (mark_skills skillName excluded (arr_of (jget g ''skills''))))]"

definition toggleSkill :: "string \<Rightarrow> skills_store \<Rightarrow> skills_store" where
  "toggleSkill skillName s =
     (let prev = sk_skillExclude s; excluded = toggled skillName prev
      in ask_sk (SkToggle prev)
           (s\<lparr>sk_skillExclude := excluded, sk_personal := mark_skills skillName excluded (sk_personal s),
              sk_groups := map (mark_group skillName excluded) (sk_groups s)\<rparr>))"

definition toggle_answered :: "jsval list \<Rightarrow> api_error + jsval \<Rightarrow> skills_store \<Rightarrow> skills_store" where
  "toggle_answered prev response s =
     (case response of Inr _ \<Rightarrow> s | Inl e \<Rightarrow> fetchSkills (s\<lparr>sk_skillExclude := prev\<rparr>))"

section \<open>Selection\<close>

definition sk_clearSelection :: "skills_store \<Rightarrow> skills_store" where
  "sk_clearSelection s =
     s\<lparr>sk_selectedSkill := None, sk_skillDetail := JNull, sk_detailError := None, sk_selectedFile := None,
       sk_fileContent := JNull, sk_viewerMode := ''skill''\<rparr>"

definition selectSkill :: "skill_ref \<Rightarrow> skills_store \<Rightarrow> skills_store" where
  "selectSkill k s =
     (let s1 = s\<lparr>sk_selectionRequestId := Suc (sk_selectionRequestId s), sk_fileRequestId := Suc (sk_fileRequestId s)\<rparr>
      in if matchesSelection s k then sk_clearSelection s1
         else ask_sk (SkDetail k (sk_selectionRequestId s1) (sk_fileRequestId s1))
                (s1\<lparr>sk_selectedSkill := Some (normal_ref k), sk_detailLoading := True, sk_detailError := None,
                    sk_skillDetail := JNull, sk_selectedFile := None, sk_fileContent := JNull, sk_fileLoading := False,
                    sk_viewerMode := ''skill'', sk_viewMode := ''preview''\<rparr>))"

definition hasSkillMd :: "jsval \<Rightarrow> bool" where
  "hasSkillMd detail \<longleftrightarrow>
     (\<exists>n \<in> set (arr_of (jor (jget detail ''tree'') (JArr []))). jget n ''type'' = JStr ''file'' \<and> jget n ''name'' = JStr ''SKILL.md'')"

definition detailSkillMd :: "jsval \<Rightarrow> jsval" where
  "detailSkillMd detail =
     (if is_str (jget detail ''skill_md_content'')
      then JObj [(''path'', JStr ''SKILL.md''), (''content'', jget detail ''skill_md_content''), (''language'', JStr ''markdown''),
                 (''is_binary'', JBool False)]
      else JNull)"

definition detail_answered :: "skill_ref \<Rightarrow> nat \<Rightarrow> nat \<Rightarrow> api_error + jsval \<Rightarrow> skills_store \<Rightarrow> skills_store" where
  "detail_answered k requestId skillFileRequestId response s =
     (if requestId \<noteq> sk_selectionRequestId s \<or> \<not> matchesSelection s k then s
      else case response of
        Inr detail \<Rightarrow>
          (let md = detailSkillMd detail; missing = hasSkillMd detail \<and> md = JNull;
               s1 = s\<lparr>sk_skillDetail := detail, sk_detailLoading := False, sk_detailError := None, sk_selectedFile := None,
                      sk_fileContent := md, sk_fileLoading := missing, sk_viewerMode := ''skill''\<rparr>
           in if missing then ask_sk (SkMd k requestId skillFileRequestId) s1 else s1)
      | Inl e \<Rightarrow>
          s\<lparr>sk_detailLoading := False, sk_fileLoading := False,
            sk_detailError := Some (if err_message e = [] then ''Failed to load skill detail'' else err_message e)\<rparr>)"

definition md_answered :: "skill_ref \<Rightarrow> nat \<Rightarrow> nat \<Rightarrow> api_error + jsval \<Rightarrow> skills_store \<Rightarrow> skills_store" where
  "md_answered k requestId skillFileRequestId response s =
     (if requestId \<noteq> sk_selectionRequestId s \<or> skillFileRequestId \<noteq> sk_fileRequestId s \<or> \<not> matchesSelection s k then s
      else case response of
        Inr skillMd \<Rightarrow> s\<lparr>sk_fileContent := skillMd, sk_fileLoading := False, sk_viewerMode := ''skill''\<rparr>
      | Inl e \<Rightarrow> s\<lparr>sk_fileLoading := False\<rparr>)"

definition selectFile :: "string \<Rightarrow> string \<Rightarrow> skills_store \<Rightarrow> skills_store" where
  "selectFile path viewerMode s =
     (case sk_selectedSkill s of
        None \<Rightarrow> s
      | Some k \<Rightarrow>
          ask_sk (SkFile k path (Suc (sk_fileRequestId s)))
            (s\<lparr>sk_fileRequestId := Suc (sk_fileRequestId s), sk_selectedFile := Some path, sk_fileLoading := True,
               sk_viewerMode := viewerMode, sk_viewMode := ''preview''\<rparr>))"

definition file_answered :: "skill_ref \<Rightarrow> nat \<Rightarrow> api_error + jsval \<Rightarrow> skills_store \<Rightarrow> skills_store" where
  "file_answered k requestId response s =
     (if requestId \<noteq> sk_fileRequestId s \<or> \<not> matchesSelection s k then s
      else case response of
        Inr data \<Rightarrow> s\<lparr>sk_fileContent := data, sk_fileLoading := False\<rparr>
      | Inl e \<Rightarrow> s\<lparr>sk_fileLoading := False\<rparr>)"

definition cacheSkillFile :: "string \<Rightarrow> skills_store \<Rightarrow> skills_store" where
  "cacheSkillFile path s =
     (case sk_selectedSkill s of
        None \<Rightarrow> s
      | Some k \<Rightarrow>
          ask_sk (SkCache k path (Suc (sk_fileRequestId s)))
            (s\<lparr>sk_fileRequestId := Suc (sk_fileRequestId s), sk_fileLoading := True, sk_viewerMode := ''skill'',
               sk_viewMode := ''preview''\<rparr>))"

definition cache_answered :: "skill_ref \<Rightarrow> nat \<Rightarrow> api_error + jsval \<Rightarrow> skills_store \<Rightarrow> skills_store" where
  "cache_answered k requestId response s =
     (if requestId \<noteq> sk_fileRequestId s \<or> \<not> matchesSelection s k then s
      else case response of
        Inr data \<Rightarrow> s\<lparr>sk_fileContent := data, sk_fileLoading := False, sk_viewerMode := ''skill''\<rparr>
      | Inl e \<Rightarrow> s\<lparr>sk_fileLoading := False\<rparr>)"

section \<open>Upload, deletion and the rest\<close>

definition uploadSkill :: "string \<Rightarrow> jsval \<Rightarrow> jsval \<Rightarrow> skills_store \<Rightarrow> skills_store" where
  "uploadSkill scope cwd file s = ask_sk (SkUpload scope cwd file) (s\<lparr>sk_uploading := True\<rparr>)"

definition upload_answered :: "api_error + jsval \<Rightarrow> skills_store \<Rightarrow> skills_store" where
  "upload_answered response s =
     (let s1 = s\<lparr>sk_uploading := False\<rparr> in case response of Inr _ \<Rightarrow> fetchSkills s1 | Inl e \<Rightarrow> s1)"

definition deleteSkill :: "skill_ref \<Rightarrow> skills_store \<Rightarrow> skills_store" where
  "deleteSkill k s = ask_sk (SkDelete k) s"

definition delete_answered :: "skill_ref \<Rightarrow> api_error + jsval \<Rightarrow> skills_store \<Rightarrow> skills_store" where
  "delete_answered k response s =
     (case response of
        Inr _ \<Rightarrow> fetchSkills (if matchesSelection s k then sk_clearSelection s else s)
      | Inl e \<Rightarrow> s)"

definition sk_setSearchQuery :: "string \<Rightarrow> skills_store \<Rightarrow> skills_store" where
  "sk_setSearchQuery query s = s\<lparr>sk_searchQuery := query\<rparr>"

definition sk_setViewMode :: "string \<Rightarrow> skills_store \<Rightarrow> skills_store" where
  "sk_setViewMode mode s = s\<lparr>sk_viewMode := mode\<rparr>"

definition sk_setListWidth :: "int \<Rightarrow> skills_store \<Rightarrow> skills_store" where
  "sk_setListWidth w s = s\<lparr>sk_storage := snd (setItem ''skill-list-width'' (show_int w) (sk_storage s)), sk_listWidth := w\<rparr>"

definition sk_reset :: "skills_store \<Rightarrow> skills_store" where
  "sk_reset s =
     s\<lparr>sk_personal := [], sk_groups := [], sk_skillsLoading := False, sk_skillsLoaded := False, sk_searchQuery := [],
       sk_selectedSkill := None, sk_skillDetail := JNull, sk_detailLoading := False, sk_detailError := None,
       sk_selectedFile := None, sk_fileContent := JNull, sk_fileLoading := False, sk_viewerMode := ''skill'',
       sk_viewMode := ''preview'', sk_uploading := False, sk_skillExclude := [], sk_configLoaded := False\<rparr>"

definition sk_settle :: "sk_request \<Rightarrow> api_error + jsval \<Rightarrow> skills_store \<Rightarrow> skills_store" where
  "sk_settle q response s =
     (case q of
        SkList \<Rightarrow> got_skills response s
      | SkConfig \<Rightarrow> got_skills_config response s
      | SkToggle prev \<Rightarrow> toggle_answered prev response s
      | SkDetail k i j \<Rightarrow> detail_answered k i j response s
      | SkMd k i j \<Rightarrow> md_answered k i j response s
      | SkFile k path i \<Rightarrow> file_answered k i response s
      | SkCache k path i \<Rightarrow> cache_answered k i response s
      | SkUpload scope cwd file \<Rightarrow> upload_answered response s
      | SkDelete k \<Rightarrow> delete_answered k response s)"

definition sk_answer :: "nat \<Rightarrow> api_error + jsval \<Rightarrow> skills_store \<Rightarrow> skills_store" where
  "sk_answer i response s =
     (if i < length (sk_inflight s)
      then sk_settle (sk_inflight s ! i) response (s\<lparr>sk_inflight := take i (sk_inflight s) @ drop (Suc i) (sk_inflight s)\<rparr>)
      else s)"

section \<open>Runs\<close>

datatype sk_event =
    EvFetchSkills
  | EvEnsureSkills
  | EvFetchConfig
  | EvToggle string
  | EvSelectSkill skill_ref
  | EvSelectFile string string
  | EvCacheFile string
  | EvUpload string jsval jsval
  | EvDelete skill_ref
  | EvSearch string
  | EvViewMode string
  | EvSkillWidth int
  | EvClear
  | EvReset
  | EvAnswer nat "api_error + jsval"

fun sk_step :: "skills_store \<Rightarrow> sk_event \<Rightarrow> skills_store" where
  "sk_step s EvFetchSkills = fetchSkills s"
| "sk_step s EvEnsureSkills = ensureSkillsLoaded s"
| "sk_step s EvFetchConfig = fetchSkillsConfig s"
| "sk_step s (EvToggle n) = toggleSkill n s"
| "sk_step s (EvSelectSkill k) = selectSkill k s"
| "sk_step s (EvSelectFile p m) = selectFile p m s"
| "sk_step s (EvCacheFile p) = cacheSkillFile p s"
| "sk_step s (EvUpload scope cwd file) = uploadSkill scope cwd file s"
| "sk_step s (EvDelete k) = deleteSkill k s"
| "sk_step s (EvSearch q) = sk_setSearchQuery q s"
| "sk_step s (EvViewMode m) = sk_setViewMode m s"
| "sk_step s (EvSkillWidth w) = sk_setListWidth w s"
| "sk_step s EvClear = sk_clearSelection s"
| "sk_step s EvReset = sk_reset s"
| "sk_step s (EvAnswer i r) = sk_answer i r s"

text \<open>
  What the server may answer: \<open>D k d\<close>, the detail \<open>d\<close> of the skill \<open>k\<close>, and \<open>F k p c\<close>, the content \<open>c\<close> of
  its file \<open>p\<close>. The page offers files only once the detail is there.
\<close>

fun answers_truly :: "(skill_ref \<Rightarrow> jsval \<Rightarrow> bool) \<Rightarrow> (skill_ref \<Rightarrow> string \<Rightarrow> jsval \<Rightarrow> bool) \<Rightarrow> sk_request \<Rightarrow> jsval \<Rightarrow> bool" where
  "answers_truly D F (SkDetail k _ _) d = D (normal_ref k) d"
| "answers_truly D F (SkMd k _ _) d = F (normal_ref k) ''SKILL.md'' d"
| "answers_truly D F (SkFile k p _) d = F (normal_ref k) p d"
| "answers_truly D F (SkCache k p _) d = F (normal_ref k) p d"
| "answers_truly D F _ d = True"

fun sk_ok :: "(skill_ref \<Rightarrow> jsval \<Rightarrow> bool) \<Rightarrow> (skill_ref \<Rightarrow> string \<Rightarrow> jsval \<Rightarrow> bool) \<Rightarrow> skills_store \<Rightarrow> sk_event \<Rightarrow> bool" where
  "sk_ok D F s (EvAnswer i (Inr d)) \<longleftrightarrow> i < length (sk_inflight s) \<longrightarrow> answers_truly D F (sk_inflight s ! i) d"
| "sk_ok D F s (EvSelectSkill k) \<longleftrightarrow> sr_cwd k \<noteq> JNaN"
| "sk_ok D F s (EvSelectFile _ _) \<longleftrightarrow> sk_selectedSkill s \<noteq> None \<longrightarrow> \<not> sk_detailLoading s"
| "sk_ok D F s (EvCacheFile _) \<longleftrightarrow> sk_selectedSkill s \<noteq> None \<longrightarrow> \<not> sk_detailLoading s"
| "sk_ok D F s _ \<longleftrightarrow> True"

definition shows_skill :: "(skill_ref \<Rightarrow> jsval \<Rightarrow> bool) \<Rightarrow> (skill_ref \<Rightarrow> string \<Rightarrow> jsval \<Rightarrow> bool) \<Rightarrow> skills_store \<Rightarrow> bool" where
  "shows_skill D F s \<longleftrightarrow>
     (sk_skillDetail s = JNull \<or> (\<exists>k. sk_selectedSkill s = Some k \<and> D k (sk_skillDetail s))) \<and>
     (sk_fileContent s = JNull \<or>
      (\<exists>k. sk_selectedSkill s = Some k \<and> ((\<exists>p. F k p (sk_fileContent s)) \<or> sk_fileContent s = detailSkillMd (sk_skillDetail s))))"

definition detail_backed :: "skills_store \<Rightarrow> bool" where
  "detail_backed s \<longleftrightarrow> (\<forall>k. sk_selectedSkill s = Some k \<and> sk_detailLoading s \<longrightarrow>
     (\<exists>k'. normal_ref k' = k \<and> SkDetail k' (sk_selectionRequestId s) (sk_fileRequestId s) \<in> set (sk_inflight s)))"

definition file_request :: "skills_store \<Rightarrow> skill_ref \<Rightarrow> sk_request \<Rightarrow> bool" where
  "file_request s k q \<longleftrightarrow>
     (case q of
        SkMd k' i j \<Rightarrow> normal_ref k' = k \<and> i = sk_selectionRequestId s \<and> j = sk_fileRequestId s
      | SkFile k' p i \<Rightarrow> normal_ref k' = k \<and> i = sk_fileRequestId s
      | SkCache k' p i \<Rightarrow> normal_ref k' = k \<and> i = sk_fileRequestId s
      | _ \<Rightarrow> False)"

definition file_backed :: "skills_store \<Rightarrow> bool" where
  "file_backed s \<longleftrightarrow> (\<forall>k. sk_selectedSkill s = Some k \<and> sk_fileLoading s \<longrightarrow> (\<exists>q \<in> set (sk_inflight s). file_request s k q))"

definition normal_selection :: "skills_store \<Rightarrow> bool" where
  "normal_selection s \<longleftrightarrow> (\<forall>k. sk_selectedSkill s = Some k \<longrightarrow> normal_ref k = k \<and> sr_cwd k \<noteq> JNaN)"

definition detail_ids :: "sk_request list \<Rightarrow> nat list" where
  "detail_ids qs = concat (map (\<lambda>q. case q of SkDetail k i j \<Rightarrow> [i] | _ \<Rightarrow> []) qs)"

definition one_detail :: "skills_store \<Rightarrow> bool" where
  "one_detail s \<longleftrightarrow>
     distinct (detail_ids (sk_inflight s)) \<and> (\<forall>i \<in> set (detail_ids (sk_inflight s)). i \<le> sk_selectionRequestId s) \<and>
     (\<forall>k j. SkDetail k (sk_selectionRequestId s) j \<in> set (sk_inflight s) \<and> sk_selectedSkill s \<noteq> None \<longrightarrow>
        sk_detailLoading s \<and> j = sk_fileRequestId s)"

definition sk_inv :: "(skill_ref \<Rightarrow> jsval \<Rightarrow> bool) \<Rightarrow> (skill_ref \<Rightarrow> string \<Rightarrow> jsval \<Rightarrow> bool) \<Rightarrow> skills_store \<Rightarrow> bool" where
  "sk_inv D F s \<longleftrightarrow> shows_skill D F s \<and> normal_selection s \<and> detail_backed s \<and> file_backed s \<and> one_detail s"

section \<open>What is shown belongs to the selected skill\<close>

lemma normal_ref_idem [simp]: "normal_ref (normal_ref k) = normal_ref k"
  by (simp add: normal_ref_def jcoal_def)

lemma detail_ids_simps [simp]:
  "detail_ids [] = []"
  "detail_ids (q # qs) = (case q of SkDetail k i j \<Rightarrow> [i] | _ \<Rightarrow> []) @ detail_ids qs"
  "detail_ids (qs @ qs') = detail_ids qs @ detail_ids qs'"
  by (simp_all add: detail_ids_def)

lemma in_detail_ids: "SkDetail k i j \<in> set qs \<Longrightarrow> i \<in> set (detail_ids qs)"
  by (induction qs) (auto split: sk_request.splits)

lemma matches_selected: "matchesSelection s k \<Longrightarrow> sk_selectedSkill s = Some (normal_ref k)"
  by (auto simp: matchesSelection_def normal_ref_def jeq_def split: option.splits) (metis skill_ref.collapse)

lemma selected_matches:
  "normal_selection s \<Longrightarrow> sk_selectedSkill s = Some (normal_ref k) \<Longrightarrow> matchesSelection s k"
  by (auto simp: matchesSelection_def normal_selection_def normal_ref_def jeq_def jcoal_def)

text \<open>The fields the invariant reads; a request that is no detail or file request does not disturb it.\<close>

definition same_view :: "skills_store \<Rightarrow> skills_store \<Rightarrow> bool" where
  "same_view s s' \<longleftrightarrow>
     sk_selectedSkill s' = sk_selectedSkill s \<and> sk_skillDetail s' = sk_skillDetail s \<and> sk_fileContent s' = sk_fileContent s \<and>
     sk_detailLoading s' = sk_detailLoading s \<and> sk_fileLoading s' = sk_fileLoading s \<and>
     sk_selectionRequestId s' = sk_selectionRequestId s \<and> sk_fileRequestId s' = sk_fileRequestId s"

lemmas sk_inv_defs = sk_inv_def shows_skill_def normal_selection_def detail_backed_def file_backed_def one_detail_def

fun plain_request :: "sk_request \<Rightarrow> bool" where
  "plain_request (SkDetail _ _ _) = False"
| "plain_request (SkMd _ _ _) = False"
| "plain_request (SkFile _ _ _) = False"
| "plain_request (SkCache _ _ _) = False"
| "plain_request _ = True"

lemma file_request_cong: "same_view s s' \<Longrightarrow> file_request s' = file_request s"
  by (simp add: same_view_def file_request_def [abs_def] fun_eq_iff split: sk_request.split)

lemma sk_inv_same:
  assumes "sk_inv D F s" "same_view s s'" "sk_inflight s' = sk_inflight s"
  shows "sk_inv D F s'"
proof -
  note eqs = assms(2) [unfolded same_view_def] assms(3) file_request_cong [OF assms(2)]
  have "sk_inv D F s' = sk_inv D F s" by (simp only: sk_inv_defs eqs)
  then show ?thesis using assms(1) by simp
qed

lemma detail_ids_plain: "plain_request q \<Longrightarrow> detail_ids [q] = []"
  by (cases q) auto

lemma sk_inv_ask_plain:
  assumes "sk_inv D F s" "same_view s s'" "sk_inflight s' = sk_inflight s @ [q]" "plain_request q"
  shows "sk_inv D F s'"
proof -
  note eqs = assms(2) [unfolded same_view_def]
  have ids: "detail_ids (sk_inflight s') = detail_ids (sk_inflight s)"
    using detail_ids_plain [OF assms(4)] by (simp add: assms(3))
  have "q \<noteq> SkDetail k i j" for k i j using assms(4) by auto
  then have mem: "SkDetail k i j \<in> set (sk_inflight s') \<longleftrightarrow> SkDetail k i j \<in> set (sk_inflight s)" for k i j
    by (auto simp: assms(3))
  have "shows_skill D F s' = shows_skill D F s" by (simp only: shows_skill_def eqs)
  moreover have "normal_selection s' = normal_selection s" by (simp only: normal_selection_def eqs)
  moreover have "detail_backed s' = detail_backed s" by (simp only: detail_backed_def eqs mem)
  moreover have "one_detail s' = one_detail s" by (simp only: one_detail_def eqs mem ids)
  moreover have "file_backed s \<Longrightarrow> file_backed s'"
    using eqs by (auto simp: file_backed_def file_request_cong [OF assms(2)] assms(3))
  ultimately show ?thesis using assms(1) by (simp add: sk_inv_def)
qed

lemma sk_inv_fetch: "sk_inv D F s \<Longrightarrow> sk_inv D F (fetchSkills s)"
  by (erule sk_inv_ask_plain [where q = SkList]) (simp_all add: fetchSkills_def ask_sk_def same_view_def)

text \<open>Without a selection nothing is shown.\<close>

lemma sk_inv_unselected:
  assumes "sk_selectedSkill s = None" "sk_skillDetail s = JNull" "sk_fileContent s = JNull"
    "distinct (detail_ids (sk_inflight s))" "\<forall>i \<in> set (detail_ids (sk_inflight s)). i \<le> sk_selectionRequestId s"
  shows "sk_inv D F s"
  using assms by (simp add: sk_inv_defs)

lemma sk_inv_ids:
  "sk_inv D F s \<Longrightarrow> distinct (detail_ids (sk_inflight s)) \<and> (\<forall>i \<in> set (detail_ids (sk_inflight s)). i \<le> sk_selectionRequestId s)"
  by (simp add: sk_inv_def one_detail_def)

lemma sk_inv_select:
  assumes "sk_inv D F s" "sr_cwd k \<noteq> JNaN"
  shows "sk_inv D F (selectSkill k s)"
proof (cases "matchesSelection s k")
  case True
  then show ?thesis using sk_inv_ids [OF assms(1)]
    by (auto intro!: sk_inv_unselected simp: selectSkill_def Let_def sk_clearSelection_def le_SucI)
next
  case False
  have fresh: "Suc (sk_selectionRequestId s) \<notin> set (detail_ids (sk_inflight s))"
    using sk_inv_ids [OF assms(1)] by (metis Suc_n_not_le_n)
  then have "SkDetail k' (Suc (sk_selectionRequestId s)) j \<notin> set (sk_inflight s)" for k' j
    using in_detail_ids by blast
  then show ?thesis using False fresh sk_inv_ids [OF assms(1)] assms(2)
    by (auto simp: sk_inv_defs selectSkill_def Let_def ask_sk_def normal_ref_def jcoal_def le_SucI)
qed

lemma sk_inv_file:
  assumes inv: "sk_inv D F s" and sel: "sk_selectedSkill s = Some k" and ready: "\<not> sk_detailLoading s"
    and q: "q = SkFile k p (Suc (sk_fileRequestId s)) \<or> q = SkCache k p (Suc (sk_fileRequestId s))"
    and s': "sk_selectedSkill s' = Some k" "sk_skillDetail s' = sk_skillDetail s" "sk_fileContent s' = sk_fileContent s"
      "sk_detailLoading s' = sk_detailLoading s" "sk_selectionRequestId s' = sk_selectionRequestId s"
      "sk_fileRequestId s' = Suc (sk_fileRequestId s)" "sk_inflight s' = sk_inflight s @ [q]"
  shows "sk_inv D F s'"
proof -
  have k: "normal_ref k = k" using inv sel by (simp add: sk_inv_def normal_selection_def)
  have ids: "detail_ids (sk_inflight s') = detail_ids (sk_inflight s)" using q by (auto simp: s')
  have "SkDetail k' (sk_selectionRequestId s) j \<notin> set (sk_inflight s')" for k' j
    using inv sel ready q by (auto simp: s' sk_inv_def one_detail_def)
  then have "one_detail s'" using sk_inv_ids [OF inv] by (simp add: one_detail_def ids s'(1-6))
  moreover have "file_backed s'" using q k by (auto simp: file_backed_def file_request_def s')
  moreover have "shows_skill D F s'" "normal_selection s'" "detail_backed s'"
    using inv sel ready by (simp_all add: sk_inv_def shows_skill_def normal_selection_def detail_backed_def s'(1-6))
  ultimately show ?thesis by (simp add: sk_inv_def)
qed

text \<open>Answers: the request that is answered has left the list.\<close>

definition without :: "nat \<Rightarrow> skills_store \<Rightarrow> skills_store" where
  "without i s = s\<lparr>sk_inflight := take i (sk_inflight s) @ drop (Suc i) (sk_inflight s)\<rparr>"

lemma without_fields [simp]:
  "sk_selectedSkill (without i s) = sk_selectedSkill s" "sk_skillDetail (without i s) = sk_skillDetail s"
  "sk_fileContent (without i s) = sk_fileContent s" "sk_detailLoading (without i s) = sk_detailLoading s"
  "sk_fileLoading (without i s) = sk_fileLoading s" "sk_selectionRequestId (without i s) = sk_selectionRequestId s"
  "sk_fileRequestId (without i s) = sk_fileRequestId s" "matchesSelection (without i s) = matchesSelection s"
  "file_request (without i s) = file_request s"
  by (simp_all add: without_def matchesSelection_def [abs_def] file_request_def [abs_def] cong: sk_request.case_cong)

lemma set_without:
  assumes "i < length (sk_inflight s)"
  shows "set (sk_inflight s) = insert (sk_inflight s ! i) (set (sk_inflight (without i s)))"
proof -
  have "sk_inflight s = take i (sk_inflight s) @ sk_inflight s ! i # drop (Suc i) (sk_inflight s)"
    using assms by (simp add: id_take_nth_drop)
  then have "set (sk_inflight s) = set (take i (sk_inflight s) @ sk_inflight s ! i # drop (Suc i) (sk_inflight s))"
    by simp
  then show ?thesis by (simp add: without_def)
qed

lemma detail_ids_without:
  assumes "i < length (sk_inflight s)"
  shows "set (detail_ids (sk_inflight (without i s))) \<subseteq> set (detail_ids (sk_inflight s))"
    and "distinct (detail_ids (sk_inflight s)) \<Longrightarrow> distinct (detail_ids (sk_inflight (without i s)))"
    and "distinct (detail_ids (sk_inflight s)) \<Longrightarrow> sk_inflight s ! i = SkDetail k n j \<Longrightarrow> n \<notin> set (detail_ids (sk_inflight (without i s)))"
proof -
  have "detail_ids (sk_inflight s) =
      detail_ids (take i (sk_inflight s)) @ detail_ids [sk_inflight s ! i] @ detail_ids (drop (Suc i) (sk_inflight s))"
    using assms by (metis Cons_eq_appendI append_Nil detail_ids_simps(3) id_take_nth_drop)
  then show "set (detail_ids (sk_inflight (without i s))) \<subseteq> set (detail_ids (sk_inflight s))"
    "distinct (detail_ids (sk_inflight s)) \<Longrightarrow> distinct (detail_ids (sk_inflight (without i s)))"
    "distinct (detail_ids (sk_inflight s)) \<Longrightarrow> sk_inflight s ! i = SkDetail k n j \<Longrightarrow> n \<notin> set (detail_ids (sk_inflight (without i s)))"
    by (auto simp: without_def)
qed

definition current_request :: "skills_store \<Rightarrow> sk_request \<Rightarrow> bool" where
  "current_request s q \<longleftrightarrow> (\<exists>k. sk_selectedSkill s = Some k \<and>
     (file_request s k q \<or> (\<exists>k' j. q = SkDetail k' (sk_selectionRequestId s) j \<and> normal_ref k' = k)))"

lemma one_detail_without:
  assumes "one_detail s" "i < length (sk_inflight s)"
  shows "one_detail (without i s)"
  using assms detail_ids_without [OF assms(2)] set_without [OF assms(2)] unfolding one_detail_def without_fields
  by (metis insertCI subsetD)

lemma sk_inv_without:
  assumes inv: "sk_inv D F s" and i: "i < length (sk_inflight s)" and stale: "\<not> current_request s (sk_inflight s ! i)"
  shows "sk_inv D F (without i s)"
proof -
  note inv' = inv [unfolded sk_inv_def]
  have "detail_backed (without i s)"
    using inv' stale set_without [OF i] unfolding detail_backed_def current_request_def without_fields
    by (metis insertE)
  moreover have "file_backed (without i s)"
    using inv' stale set_without [OF i] unfolding file_backed_def current_request_def without_fields
    by (metis insertE)
  moreover have "shows_skill D F (without i s) = shows_skill D F s" "normal_selection (without i s) = normal_selection s"
    by (simp_all only: shows_skill_def normal_selection_def without_fields)
  ultimately show ?thesis using one_detail_without [OF _ i] inv' by (simp add: sk_inv_def)
qed

lemma plain_not_current: "plain_request q \<Longrightarrow> \<not> current_request s q"
  by (cases q) (auto simp: current_request_def file_request_def)

text \<open>The answer to a file request.\<close>

lemma sk_inv_file_answer:
  assumes inv: "sk_inv D F s" and i: "i < length (sk_inflight s)" and q: "file_request s k (sk_inflight s ! i)"
    and sel: "sk_selectedSkill s = Some k"
    and s': "sk_selectedSkill s' = Some k" "sk_skillDetail s' = sk_skillDetail s" "\<not> sk_fileLoading s'"
      "sk_detailLoading s' = sk_detailLoading s" "sk_selectionRequestId s' = sk_selectionRequestId s"
      "sk_fileRequestId s' = sk_fileRequestId s" "sk_inflight s' = sk_inflight (without i s)"
    and content: "sk_fileContent s' = sk_fileContent s \<or> (\<exists>p. F k p (sk_fileContent s'))"
  shows "sk_inv D F s'"
proof -
  note inv' = inv [unfolded sk_inv_def]
  have "sk_inflight s ! i \<noteq> SkDetail k' n j" for k' n j using q by (auto simp: file_request_def)
  then have "detail_backed s'"
    using inv' sel set_without [OF i] unfolding detail_backed_def s' by (metis insertE)
  moreover have "one_detail s'"
    using one_detail_without [of s i] inv' i sel unfolding one_detail_def s' without_fields by simp
  moreover have "shows_skill D F s'" using inv' sel content by (auto simp: shows_skill_def s'(1-6))
  moreover have "normal_selection s'" "file_backed s'" using inv' sel by (simp_all add: normal_selection_def file_backed_def s'(1-6))
  ultimately show ?thesis by (simp add: sk_inv_def)
qed

text \<open>The answer to the detail request of the selected skill.\<close>

lemma sk_inv_detail_answer:
  assumes inv: "sk_inv D F s" and i: "i < length (sk_inflight s)"
    and q: "sk_inflight s ! i = SkDetail k (sk_selectionRequestId s) j" and sel: "sk_selectedSkill s = Some (normal_ref k)"
    and truly: "\<And>d. r = Inr d \<Longrightarrow> D (normal_ref k) d"
  shows "sk_inv D F (detail_answered k (sk_selectionRequestId s) j r (without i s))"
proof -
  note inv' = inv [unfolded sk_inv_def]
  have m: "matchesSelection s k" by (rule selected_matches) (simp_all add: inv' sel)
  have "SkDetail k (sk_selectionRequestId s) j \<in> set (sk_inflight s)" using q i by (metis nth_mem)
  then have j: "j = sk_fileRequestId s" using inv' sel by (auto simp: one_detail_def)
  have none: "SkDetail k' (sk_selectionRequestId s) j' \<notin> set (sk_inflight (without i s))" for k' j'
    using detail_ids_without(3) [OF i conjunct1 [OF sk_inv_ids [OF inv]] q] in_detail_ids by blast
  have ids: "distinct (detail_ids (sk_inflight (without i s)))" "\<forall>n \<in> set (detail_ids (sk_inflight (without i s))). n \<le> sk_selectionRequestId s"
    using sk_inv_ids [OF inv] detail_ids_without(1,2) [OF i] by blast+
  let ?s = "detail_answered k (sk_selectionRequestId s) j r (without i s)"
  have same: "sk_selectedSkill ?s = sk_selectedSkill s" "sk_selectionRequestId ?s = sk_selectionRequestId s"
    "sk_fileRequestId ?s = sk_fileRequestId s" "\<not> sk_detailLoading ?s"
    by (simp_all add: detail_answered_def m Let_def ask_sk_def split: sum.split)
  have flight: "sk_inflight ?s = sk_inflight (without i s) \<and> \<not> sk_fileLoading ?s \<or>
      sk_inflight ?s = sk_inflight (without i s) @ [SkMd k (sk_selectionRequestId s) j]"
    by (simp add: detail_answered_def m Let_def ask_sk_def split: sum.split)
  have "file_request ?s (normal_ref k) (SkMd k (sk_selectionRequestId s) j)"
    unfolding file_request_def same by (simp add: j)
  then have "file_backed ?s" using flight sel by (auto simp: file_backed_def same)
  moreover have "detail_backed ?s" by (simp add: detail_backed_def same)
  moreover have "normal_selection ?s" using inv' by (simp add: normal_selection_def same)
  moreover have "one_detail ?s" using flight none ids by (auto simp: one_detail_def same)
  moreover have "shows_skill D F ?s"
  proof (cases r)
    case (Inl e)
    then show ?thesis using inv' by (simp add: shows_skill_def detail_answered_def m)
  next
    case (Inr d)
    then show ?thesis using truly [OF Inr] sel by (simp add: shows_skill_def detail_answered_def m Let_def ask_sk_def)
  qed
  ultimately show ?thesis by (simp add: sk_inv_def)
qed

lemma sk_inv_file_settled:
  assumes inv: "sk_inv D F s" and i: "i < length (sk_inflight s)"
    and now: "g \<Longrightarrow> matchesSelection s k \<and> file_request s (normal_ref k) (sk_inflight s ! i)"
    and stale: "\<not> g \<Longrightarrow> \<not> current_request s (sk_inflight s ! i) \<and> s' = without i s"
    and fields: "g \<Longrightarrow> same_view ((without i s)\<lparr>sk_fileLoading := False, sk_fileContent := sk_fileContent s'\<rparr>) s' \<and>
      sk_inflight s' = sk_inflight (without i s)"
    and content: "g \<Longrightarrow> sk_fileContent s' = sk_fileContent s \<or> (\<exists>p. F (normal_ref k) p (sk_fileContent s'))"
  shows "sk_inv D F s'"
proof (cases g)
  case True
  then show ?thesis
    using now fields content sk_inv_file_answer [OF inv i, of "normal_ref k" s'] matches_selected [of s k]
    by (simp add: same_view_def)
next
  case False
  then show ?thesis using stale sk_inv_without [OF inv i] by simp
qed

text \<open>What the handlers of the three file requests have in common.\<close>

lemma file_answers:
  "same_view ((without i s)\<lparr>sk_fileLoading := False, sk_fileContent := sk_fileContent (f (without i s))\<rparr>) (f (without i s)) \<and>
   sk_inflight (f (without i s)) = sk_inflight (without i s) \<and>
   (sk_fileContent (f (without i s)) = sk_fileContent s \<or> r = Inr (sk_fileContent (f (without i s))))"
  if "matchesSelection s k" "(f = md_answered k a b r \<and> a = sk_selectionRequestId s \<and> b = sk_fileRequestId s) \<or>
      (f = file_answered k a r \<and> a = sk_fileRequestId s) \<or> (f = cache_answered k a r \<and> a = sk_fileRequestId s)"
  using that
  by (elim disjE conjE; simp add: md_answered_def file_answered_def cache_answered_def same_view_def split: sum.split)

lemma sk_inv_answer:
  assumes inv: "sk_inv D F s" and ok: "sk_ok D F s (EvAnswer i r)"
  shows "sk_inv D F (sk_answer i r s)"
proof (cases "i < length (sk_inflight s)")
  case i: True
  let ?q = "sk_inflight s ! i"
  have normal: "normal_selection s" using inv by (simp add: sk_inv_def)
  have truly: "answers_truly D F ?q d" if "r = Inr d" for d using ok i that by simp
  have ans: "sk_answer i r s = sk_settle ?q r (without i s)" using i by (simp add: sk_answer_def without_def)
  note stale = sk_inv_without [OF inv i]
  show ?thesis
  proof (cases "plain_request ?q")
    case True
    have t: "sk_inv D F (without i s)" by (rule stale) (rule plain_not_current [OF True])
    have u: "sk_inv D F (sk_clearSelection (without i s))"
      using sk_inv_ids [OF t] by (auto intro!: sk_inv_unselected simp: sk_clearSelection_def)
    have "sk_inv D F s'" if "same_view (without i s) s'" "sk_inflight s' = sk_inflight (without i s)" for s'
      using sk_inv_same [OF t that] .
    then show ?thesis using True t u
      by (cases ?q) (auto simp: ans sk_settle_def got_skills_def got_skills_config_def toggle_answered_def upload_answered_def
          delete_answered_def Let_def same_view_def intro!: sk_inv_fetch split: sum.split)
  next
    case False
    then show ?thesis
    proof (cases ?q)
      case (SkDetail k n j)
      show ?thesis
      proof (cases "n = sk_selectionRequestId s \<and> matchesSelection s k")
        case True
        then show ?thesis
          using sk_inv_detail_answer [OF inv i, of k j r] SkDetail matches_selected truly by (simp add: ans sk_settle_def)
      next
        case False
        then have "\<not> current_request s ?q"
          using selected_matches [OF normal] by (auto simp: current_request_def SkDetail file_request_def)
        then show ?thesis using False stale by (simp add: ans sk_settle_def SkDetail detail_answered_def)
      qed
    next
      case (SkMd k n j)
      let ?g = "n = sk_selectionRequestId s \<and> j = sk_fileRequestId s \<and> matchesSelection s k" and ?f = "md_answered k n j r"
      show ?thesis
      proof (rule sk_inv_file_settled [OF inv i, where g = ?g and k = k])
        assume ?g
        then show "matchesSelection s k \<and> file_request s (normal_ref k) ?q" by (simp add: file_request_def SkMd)
      next
        assume "\<not> ?g"
        then show "\<not> current_request s ?q \<and> sk_answer i r s = without i s"
          using selected_matches [OF normal]
          by (auto simp: current_request_def SkMd file_request_def ans sk_settle_def md_answered_def)
      qed (use file_answers [of s k ?f _ _ r i] truly SkMd in \<open>auto simp: ans sk_settle_def\<close>)
    next
      case (SkFile k p n)
      let ?g = "n = sk_fileRequestId s \<and> matchesSelection s k" and ?f = "file_answered k n r"
      show ?thesis
      proof (rule sk_inv_file_settled [OF inv i, where g = ?g and k = k])
        assume ?g
        then show "matchesSelection s k \<and> file_request s (normal_ref k) ?q" by (simp add: file_request_def SkFile)
      next
        assume "\<not> ?g"
        then show "\<not> current_request s ?q \<and> sk_answer i r s = without i s"
          using selected_matches [OF normal]
          by (auto simp: current_request_def SkFile file_request_def ans sk_settle_def file_answered_def)
      qed (use file_answers [of s k ?f _ _ r i] truly SkFile in \<open>auto simp: ans sk_settle_def\<close>)
    next
      case (SkCache k p n)
      let ?g = "n = sk_fileRequestId s \<and> matchesSelection s k" and ?f = "cache_answered k n r"
      show ?thesis
      proof (rule sk_inv_file_settled [OF inv i, where g = ?g and k = k])
        assume ?g
        then show "matchesSelection s k \<and> file_request s (normal_ref k) ?q" by (simp add: file_request_def SkCache)
      next
        assume "\<not> ?g"
        then show "\<not> current_request s ?q \<and> sk_answer i r s = without i s"
          using selected_matches [OF normal]
          by (auto simp: current_request_def SkCache file_request_def ans sk_settle_def cache_answered_def)
      qed (use file_answers [of s k ?f _ _ r i] truly SkCache in \<open>auto simp: ans sk_settle_def\<close>)
    qed simp_all
  qed
qed (use inv in \<open>simp add: sk_answer_def\<close>)

lemma sk_inv_init: "sk_inv D F (sk_initial env st)"
  by (rule sk_inv_unselected) (simp_all add: sk_initial_def)

lemma sk_inv_cleared: "sk_inv D F s \<Longrightarrow> sk_inv D F (sk_clearSelection s) \<and> sk_inv D F (sk_reset s)"
  using sk_inv_ids [of D F s] by (auto intro!: sk_inv_unselected simp: sk_clearSelection_def sk_reset_def)

lemma sk_inv_files:
  assumes "sk_inv D F s" "sk_selectedSkill s \<noteq> None \<longrightarrow> \<not> sk_detailLoading s"
  shows "sk_inv D F (selectFile p m s) \<and> sk_inv D F (cacheSkillFile p s)"
proof (cases "sk_selectedSkill s")
  case (Some k)
  then show ?thesis using assms(2)
    by (intro conjI; intro sk_inv_file [OF assms(1) Some, where p = p]) (auto simp: selectFile_def cacheSkillFile_def ask_sk_def)
qed (use assms in \<open>simp add: selectFile_def cacheSkillFile_def\<close>)

lemma sk_inv_step:
  assumes inv: "sk_inv D F s" and ok: "sk_ok D F s e"
  shows "sk_inv D F (sk_step s e)"
proof (cases e)
  case (EvToggle n)
  show ?thesis by (rule sk_inv_ask_plain [OF inv, where q = "SkToggle (sk_skillExclude s)"]) (simp_all add: EvToggle toggleSkill_def Let_def ask_sk_def same_view_def)
next
  case EvFetchConfig
  then show ?thesis using inv
    by (auto simp: fetchSkillsConfig_def ask_sk_def same_view_def intro!: sk_inv_ask_plain [OF inv, where q = SkConfig])
next
  case (EvUpload a b c)
  show ?thesis by (rule sk_inv_ask_plain [OF inv, where q = "SkUpload a b c"]) (simp_all add: EvUpload uploadSkill_def ask_sk_def same_view_def)
next
  case (EvDelete k)
  show ?thesis by (rule sk_inv_ask_plain [OF inv, where q = "SkDelete k"]) (simp_all add: EvDelete deleteSkill_def ask_sk_def same_view_def)
next
  case (EvSearch q)
  show ?thesis by (rule sk_inv_same [OF inv]) (simp_all add: EvSearch sk_setSearchQuery_def same_view_def)
next
  case (EvViewMode m)
  show ?thesis by (rule sk_inv_same [OF inv]) (simp_all add: EvViewMode sk_setViewMode_def same_view_def)
next
  case (EvSkillWidth w)
  show ?thesis by (rule sk_inv_same [OF inv]) (simp_all add: EvSkillWidth sk_setListWidth_def same_view_def)
next
  case (EvAnswer i r)
  then show ?thesis using sk_inv_answer [OF inv] ok by simp
qed (use inv ok sk_inv_cleared [OF inv] sk_inv_files [OF inv] in
    \<open>simp_all add: ensureSkillsLoaded_def sk_inv_fetch sk_inv_select\<close>)

interpretation sk: machine "sk_initial env st" sk_step "sk_ok D F" "sk_inv D F" for env st D F
  by unfold_locales (rule sk_inv_init, rule sk_inv_step)

text \<open>
  C28. In every run, whatever the order of the answers, the detail on screen is the selected skill's and the
  content in the viewer is one of its files; once every request was answered nothing shows as loading.
\<close>

theorem skills_page_consistent:
  assumes "sk.ok_run D F (sk_initial env st) es"
  shows "let s = sk.run (sk_initial env st) es in
     (sk_skillDetail s \<noteq> JNull \<longrightarrow> (\<exists>k. sk_selectedSkill s = Some k \<and> D k (sk_skillDetail s))) \<and>
     (sk_fileContent s \<noteq> JNull \<longrightarrow>
        (\<exists>k. sk_selectedSkill s = Some k \<and>
           ((\<exists>p. F k p (sk_fileContent s)) \<or> sk_fileContent s = detailSkillMd (sk_skillDetail s)))) \<and>
     (sk_selectedSkill s \<noteq> None \<and> sk_inflight s = [] \<longrightarrow> \<not> sk_detailLoading s \<and> \<not> sk_fileLoading s)"
proof -
  let ?s = "sk.run (sk_initial env st) es"
  have "sk_inv D F ?s" by (rule sk.run_inv [OF assms])
  then have "shows_skill D F ?s" "detail_backed ?s" "file_backed ?s" by (simp_all add: sk_inv_def)
  then show ?thesis by (auto simp: Let_def shows_skill_def detail_backed_def file_backed_def)
qed

definition demo_skill :: "string \<Rightarrow> skill_ref" where
  "demo_skill n = SkillRef ''user'' JNull n"

definition demo_detail :: "skill_ref \<Rightarrow> jsval" where
  "demo_detail k = JObj [(''name'', JStr (sr_name k)), (''skill_md_content'', JStr ''text'')]"

definition demo_file :: "skill_ref \<Rightarrow> string \<Rightarrow> jsval" where
  "demo_file k p = JObj [(''path'', JStr p), (''content'', JStr (sr_name k))]"

text \<open>Two skills selected in a row, the answers in the opposite order, then a file of the second.\<close>

definition demo_sk_events :: "sk_event list" where
  "demo_sk_events =
     [EvSelectSkill (demo_skill ''a''), EvSelectSkill (demo_skill ''b''), EvAnswer 1 (Inr (demo_detail (demo_skill ''b''))),
      EvAnswer 0 (Inr (demo_detail (demo_skill ''a''))), EvSelectFile ''x.py'' ''file'',
      EvAnswer 0 (Inr (demo_file (demo_skill ''b'') ''x.py''))]"

lemmas demo_sk_defs = demo_sk_events_def demo_skill_def demo_detail_def demo_file_def sk_initial_def selectSkill_def sk_clearSelection_def
  matchesSelection_def normal_ref_def jcoal_def jeq_def ask_sk_def sk_answer_def sk_settle_def detail_answered_def detailSkillMd_def
  hasSkillMd_def selectFile_def file_answered_def

lemma demo_sk_ok:
  "sk.ok_run (\<lambda>k d. d = demo_detail k) (\<lambda>k p c. c = demo_file k p) (sk_initial (demo_env 0) blank_storage) demo_sk_events"
  by (simp add: demo_sk_defs Let_def jor_def)

lemma demo_sk_end:
  "sk_selectedSkill (sk.run (sk_initial (demo_env 0) blank_storage) demo_sk_events) = Some (demo_skill ''b'')"
  "sk_skillDetail (sk.run (sk_initial (demo_env 0) blank_storage) demo_sk_events) \<noteq> JNull"
  "sk_fileContent (sk.run (sk_initial (demo_env 0) blank_storage) demo_sk_events) \<noteq> JNull"
  "sk_inflight (sk.run (sk_initial (demo_env 0) blank_storage) demo_sk_events) = []"
  by (simp_all add: demo_sk_defs Let_def jor_def)

theorem skills_page_consistent_witness:
  "let s = sk.run (sk_initial (demo_env 0) blank_storage) demo_sk_events in
     sk_skillDetail s = demo_detail (demo_skill ''b'') \<and> \<not> sk_detailLoading s \<and> \<not> sk_fileLoading s \<and>
     ((\<exists>p. sk_fileContent s = demo_file (demo_skill ''b'') p) \<or> sk_fileContent s = detailSkillMd (sk_skillDetail s))"
  using skills_page_consistent [OF demo_sk_ok] unfolding Let_def demo_sk_end(1) using demo_sk_end(2-) by auto

text \<open>
  A toggle marks every skill of the name alike, as the new list of exclusions says, and a second one
  restores a list in which the skill occurred at most once, up to its place.
\<close>

theorem toggle_marks_skill:
  assumes "x \<in> set (sk_personal (toggleSkill n s)) \<or> (\<exists>g \<in> set (sk_groups (toggleSkill n s)). x \<in> set (arr_of (jget g ''skills'')))"
    and "jget x ''name'' = JStr n"
  shows "jget x ''enabled'' = JBool (JStr n \<notin> set (sk_skillExclude (toggleSkill n s)))"
    and "JStr n \<in> set (sk_skillExclude (toggleSkill n s)) \<longleftrightarrow> JStr n \<notin> set (sk_skillExclude s)"
  using assms by (auto simp: toggleSkill_def Let_def ask_sk_def mark_skills_def mark_group_def toggled_def jget_jput split: if_splits)

lemma toggled_twice: "JStr n \<notin> set xs \<Longrightarrow> toggled n (toggled n xs) = xs"
  by (auto simp: toggled_def filter_id_conv)

text \<open>A file that cannot be loaded leaves the content of the file shown before under its path.\<close>

lemma failed_file_keeps_content:
  assumes "sk_selectedSkill s = Some k" "normal_selection s" "sk_inflight s = []"
  shows "let s' = sk_answer 0 (Inl e) (selectFile p m s)
         in sk_selectedFile s' = Some p \<and> sk_fileContent s' = sk_fileContent s \<and> \<not> sk_fileLoading s'"
proof -
  have "matchesSelection s k" using assms(1,2) by (intro selected_matches) (auto simp: normal_selection_def)
  then show ?thesis using assms(1,3)
    by (simp add: Let_def selectFile_def sk_answer_def ask_sk_def sk_settle_def file_answered_def matchesSelection_def)
qed

end
