(* ===== verification/Selections.thy ===== *)
theory Selections
  imports Settings
begin

text \<open>
  The pattern the management pages share: selecting an item sends a request for its detail, and the answer
  is shown. The locale states what such a page promises when it does not check whether an answer is still
  wanted; the pages that work this way interpret it in their own theories.
\<close>

locale detail_view =
  fixes pick :: "'k \<Rightarrow> 's \<Rightarrow> 's"
    and settle :: "nat \<Rightarrow> 'r \<Rightarrow> 's \<Rightarrow> 's"
    and asked :: "'s \<Rightarrow> 'q list"
    and request_for :: "'k \<Rightarrow> 'q"
    and chosen :: "'s \<Rightarrow> 'x"
    and ident :: "'k \<Rightarrow> 'x"
    and shown :: "'s \<Rightarrow> 'v"
    and content :: "'r \<Rightarrow> 'v"
    and fresh :: "'k \<Rightarrow> 's \<Rightarrow> bool"
    and good :: "'r \<Rightarrow> bool"
  assumes pick_asks: "fresh k s \<Longrightarrow> asked (pick k s) = asked s @ [request_for k]"
    and pick_chosen: "fresh k s \<Longrightarrow> chosen (pick k s) = ident k"
    and settle_shows: "i < length (asked s) \<Longrightarrow> asked s ! i = request_for k \<Longrightarrow> good r \<Longrightarrow>
      shown (settle i r s) = content r \<and> chosen (settle i r s) = chosen s"
    and settle_rest: "i < length (asked s) \<Longrightarrow> asked s ! i = request_for k \<Longrightarrow> good r \<Longrightarrow>
      \<exists>later. asked (settle i r s) = take i (asked s) @ drop (Suc i) (asked s) @ later"
begin

text \<open>One selection and its answer.\<close>

lemma settled_shows:
  assumes "asked s = []" "fresh k s" "good r"
  shows "shown (settle 0 r (pick k s)) = content r \<and> chosen (settle 0 r (pick k s)) = ident k"
  using assms pick_asks [of k s] pick_chosen [of k s] settle_shows [of 0 "pick k s" k r] by simp

text \<open>Two selections; with the answers in order the second is shown, crossed the first.\<close>

lemma both_asked:
  assumes "asked s = []" "fresh a s" "fresh b (pick a s)"
  shows "asked (pick b (pick a s)) = [request_for a, request_for b]"
  using assms pick_asks by simp

lemma in_order:
  assumes "asked s = []" "fresh a s" "fresh b (pick a s)" "good ra" "good rb"
  shows "shown (settle 0 rb (settle 0 ra (pick b (pick a s)))) = content rb \<and>
         chosen (settle 0 rb (settle 0 ra (pick b (pick a s)))) = ident b"
proof -
  let ?s = "pick b (pick a s)"
  note q = both_asked [OF assms(1-3)]
  obtain later where "asked (settle 0 ra ?s) = request_for b # later" using settle_rest [of 0 ?s a ra] q assms(4) by auto
  then show ?thesis
    using settle_shows [of 0 "settle 0 ra ?s" b rb] settle_shows [of 0 ?s a ra] q assms pick_chosen by simp
qed

lemma crossed:
  assumes "asked s = []" "fresh a s" "fresh b (pick a s)" "good ra" "good rb"
  shows "shown (settle 0 ra (settle 1 rb (pick b (pick a s)))) = content ra \<and>
         chosen (settle 0 ra (settle 1 rb (pick b (pick a s)))) = ident b"
proof -
  let ?s = "pick b (pick a s)"
  note q = both_asked [OF assms(1-3)]
  obtain later where "asked (settle 1 rb ?s) = request_for a # later" using settle_rest [of 1 ?s b rb] q assms(5) by auto
  then show ?thesis
    using settle_shows [of 0 "settle 1 rb ?s" a ra] settle_shows [of 1 ?s b rb] q assms pick_chosen by simp
qed

end

end
