(* ===== verification/SchedulerStore.thy ===== *)
theory SchedulerStore
  imports Selections
begin

text \<open>
  The scheduler page (\<^verbatim>\<open>web/user/src/stores/schedulerStore.js\<close>): the jobs, the selected one (or all runs),
  the pages of its runs, the drawer, and the overview of live and last runs. As in the other stores an
  asynchronous operation is a call that sends a request with what its closure keeps, and an answer in
  any order; an answer may send the next request of the same operation. The delayed refresh after a
  triggered or aborted run is a timer that may fire at any later time. An operation that throws leaves
  the state as it is, and console output is left out.

  Shown: loading page after page gives the whole list; the overview has the newest run of each job;
  the runs on screen belong to the selection as long as it does not change while a page is on its way,
  and what happens when it does.
\<close>

section \<open>State\<close>

definition ALL_RUNS :: jsval where
  "ALL_RUNS = JStr ''__all_runs__''"

text \<open>What follows an awaited reload of the jobs.\<close>

datatype sd_cont = ScDone | ScSelect jsval

datatype sd_request =
    SdJobs bool sd_cont
  | SdOverview
  | SdRuns bool "jsval list" jsval jsval jsval
  | SdRefreshJobs
  | SdRefreshRuns jsval jsval
  | SdSave jsval jsval
  | SdRemove jsval
  | SdPause bool jsval
  | SdTrigger jsval
  | SdAbort jsval

record scheduler =
  sd_jobs :: "jsval list"
  sd_jobsLoading :: bool
  sd_jobsLoaded :: bool
  sd_selectedId :: jsval
  sd_runs :: "jsval list"
  sd_runsLoading :: bool
  sd_runsNextCursor :: jsval
  sd_runsTotal :: jsval
  sd_runStatusFilter :: jsval
  sd_runJobFilter :: jsval
  sd_drawerOpen :: bool
  sd_editingJob :: jsval
  sd_liveByJob :: "(string, jsval) dict"
  sd_lastByJob :: "(string, jsval) dict"
  sd_timers :: nat
  sd_inflight :: "sd_request list"

definition sd_initial :: scheduler where
  "sd_initial =
     \<lparr>sd_jobs = [], sd_jobsLoading = False, sd_jobsLoaded = False, sd_selectedId = JNull, sd_runs = [], sd_runsLoading = False,
      sd_runsNextCursor = JNull, sd_runsTotal = JNull, sd_runStatusFilter = JNull, sd_runJobFilter = JNull,
      sd_drawerOpen = False, sd_editingJob = JNull, sd_liveByJob = dempty, sd_lastByJob = dempty, sd_timers = 0, sd_inflight = []\<rparr>"

definition ask_sd :: "sd_request \<Rightarrow> scheduler \<Rightarrow> scheduler" where
  "ask_sd q s = s\<lparr>sd_inflight := sd_inflight s @ [q]\<rparr>"

section \<open>Overview\<close>

definition first_for :: "string \<Rightarrow> jsval \<Rightarrow> (string, jsval) dict \<Rightarrow> (string, jsval) dict" where
  "first_for job run m = (case dget m job of Some r \<Rightarrow> if truthy r then m else dset job run m | None \<Rightarrow> dset job run m)"

definition note_run :: "(string, jsval) dict \<times> (string, jsval) dict \<Rightarrow> jsval \<Rightarrow> (string, jsval) dict \<times> (string, jsval) dict" where
  "note_run ms run =
     (if \<not> truthy (jget run ''job_id'') then ms
      else if jget run ''status'' = JStr ''running'' then (first_for (to_str (jget run ''job_id'')) run (fst ms), snd ms)
      else (fst ms, first_for (to_str (jget run ''job_id'')) run (snd ms)))"

definition runs_of :: "jsval \<Rightarrow> jsval list" where
  "runs_of page = arr_of (jor (jget page ''runs'') (JArr []))"

definition got_overview :: "jsval \<Rightarrow> scheduler \<Rightarrow> scheduler" where
  "got_overview page s =
     (let ms = foldl note_run (dempty, dempty) (runs_of page) in s\<lparr>sd_liveByJob := fst ms, sd_lastByJob := snd ms\<rparr>)"

section \<open>Selection and runs\<close>

definition view_job :: "scheduler \<Rightarrow> jsval" where
  "view_job s = (if sd_selectedId s = ALL_RUNS then sd_runJobFilter s else sd_selectedId s)"

definition loadRuns :: "bool \<Rightarrow> scheduler \<Rightarrow> scheduler" where
  "loadRuns forward s =
     (if \<not> truthy (sd_selectedId s) then s
      else ask_sd (SdRuns forward (sd_runs s) (view_job s) (sd_runStatusFilter s) (if forward then sd_runsNextCursor s else JNull))
             (s\<lparr>sd_runsLoading := True\<rparr>))"

definition put_page :: "jsval list \<Rightarrow> jsval \<Rightarrow> scheduler \<Rightarrow> scheduler" where
  "put_page before page s =
     s\<lparr>sd_runs := before @ runs_of page, sd_runsNextCursor := jor (jget page ''next_cursor'') JNull,
       sd_runsTotal := jcoal (jget page ''total'') JNull\<rparr>"

definition got_runs :: "bool \<Rightarrow> jsval list \<Rightarrow> jsval \<Rightarrow> scheduler \<Rightarrow> scheduler" where
  "got_runs forward runs page s = (put_page (if forward then runs else []) page s)\<lparr>sd_runsLoading := False\<rparr>"

definition sd_select :: "jsval \<Rightarrow> scheduler \<Rightarrow> scheduler" where
  "sd_select i s =
     (if jeq i (sd_selectedId s) then s
      else loadRuns False
             (s\<lparr>sd_selectedId := i, sd_runs := [], sd_runsNextCursor := JNull, sd_runsTotal := JNull,
                sd_runStatusFilter := JNull, sd_runJobFilter := JNull\<rparr>))"

definition setRunStatusFilter :: "jsval \<Rightarrow> scheduler \<Rightarrow> scheduler" where
  "setRunStatusFilter status s =
     loadRuns False (s\<lparr>sd_runStatusFilter := status, sd_runs := [], sd_runsNextCursor := JNull, sd_runsTotal := JNull\<rparr>)"

definition setRunJobFilter :: "jsval \<Rightarrow> scheduler \<Rightarrow> scheduler" where
  "setRunJobFilter jobId s =
     loadRuns False (s\<lparr>sd_runJobFilter := jobId, sd_runs := [], sd_runsNextCursor := JNull, sd_runsTotal := JNull\<rparr>)"

section \<open>Jobs\<close>

definition loadJobs_then :: "bool \<Rightarrow> sd_cont \<Rightarrow> scheduler \<Rightarrow> scheduler" where
  "loadJobs_then keep k s = ask_sd (SdJobs keep k) (s\<lparr>sd_jobsLoading := \<not> sd_jobsLoaded s\<rparr>)"

definition loadJobs :: "bool \<Rightarrow> scheduler \<Rightarrow> scheduler" where
  "loadJobs keep = loadJobs_then keep ScDone"

definition jobs_of :: "jsval \<Rightarrow> jsval list" where
  "jobs_of data = arr_of (jor (jget data ''jobs'') (JArr []))"

definition has_job :: "jsval \<Rightarrow> jsval list \<Rightarrow> bool" where
  "has_job i jobs \<longleftrightarrow> (\<exists>j \<in> set jobs. jeq (jget j ''id'') i)"

definition next_selection :: "bool \<Rightarrow> jsval list \<Rightarrow> jsval \<Rightarrow> jsval" where
  "next_selection keep jobs selectedId =
     (let chosen = (if keep then selectedId else JNull)
      in if \<not> truthy chosen \<or> \<not> (chosen = ALL_RUNS \<or> has_job chosen jobs)
         then (case jobs of [] \<Rightarrow> ALL_RUNS | j # _ \<Rightarrow> jget j ''id'')
         else chosen)"

definition got_jobs :: "bool \<Rightarrow> jsval \<Rightarrow> scheduler \<Rightarrow> scheduler" where
  "got_jobs keep data s =
     (let chosen = next_selection keep (jobs_of data) (sd_selectedId s);
          s1 = ask_sd SdOverview (s\<lparr>sd_jobs := jobs_of data, sd_jobsLoading := False, sd_jobsLoaded := True\<rparr>)
      in if jeq chosen (sd_selectedId s) then s1 else sd_select chosen s1)"

definition jobs_failed :: "scheduler \<Rightarrow> scheduler" where
  "jobs_failed s = s\<lparr>sd_jobsLoading := False, sd_jobsLoaded := True\<rparr>"

fun sd_after :: "sd_cont \<Rightarrow> scheduler \<Rightarrow> scheduler" where
  "sd_after ScDone s = s"
| "sd_after (ScSelect i) s = sd_select i s"

text \<open>
  \<^verbatim>\<open>refresh\<close>: the jobs first; then, whether that succeeded or not, the overview and the first page of
  the selection as it is at that moment.
\<close>

definition sd_refresh :: "scheduler \<Rightarrow> scheduler" where
  "sd_refresh s = ask_sd SdRefreshJobs s"

definition refreshed_jobs :: "api_error + jsval \<Rightarrow> scheduler \<Rightarrow> scheduler" where
  "refreshed_jobs response s =
     (let s1 = (case response of
                  Inr data \<Rightarrow> if nullish data then s else s\<lparr>sd_jobs := jobs_of data, sd_jobsLoaded := True\<rparr>
                | Inl e \<Rightarrow> s);
          s2 = ask_sd SdOverview s1
      in if truthy (sd_selectedId s2) then ask_sd (SdRefreshRuns (view_job s2) (sd_runStatusFilter s2)) s2 else s2)"

definition openCreateDrawer :: "scheduler \<Rightarrow> scheduler" where
  "openCreateDrawer s = s\<lparr>sd_drawerOpen := True, sd_editingJob := JNull\<rparr>"

definition openEditDrawer :: "jsval \<Rightarrow> scheduler \<Rightarrow> scheduler" where
  "openEditDrawer job s = s\<lparr>sd_drawerOpen := True, sd_editingJob := job\<rparr>"

definition closeDrawer :: "scheduler \<Rightarrow> scheduler" where
  "closeDrawer s = s\<lparr>sd_drawerOpen := False, sd_editingJob := JNull\<rparr>"

definition saveJob :: "jsval \<Rightarrow> scheduler \<Rightarrow> scheduler" where
  "saveJob payload s = ask_sd (SdSave (sd_editingJob s) payload) s"

definition saved_job :: "jsval \<Rightarrow> jsval \<Rightarrow> scheduler \<Rightarrow> scheduler" where
  "saved_job editingJob saved s =
     loadJobs_then True (if \<not> truthy editingJob \<and> truthy (jget saved ''id'') then ScSelect (jget saved ''id'') else ScDone)
       (closeDrawer s)"

definition removeJob :: "jsval \<Rightarrow> scheduler \<Rightarrow> scheduler" where
  "removeJob jobId s = ask_sd (SdRemove jobId) s"

definition removed_job :: "jsval \<Rightarrow> scheduler \<Rightarrow> scheduler" where
  "removed_job jobId s = loadJobs False (if jeq (sd_selectedId s) jobId then s\<lparr>sd_selectedId := JNull\<rparr> else s)"

definition pauseResume :: "jsval \<Rightarrow> scheduler \<Rightarrow> scheduler" where
  "pauseResume job s = ask_sd (SdPause (jget job ''status'' = JStr ''paused'') (jget job ''id'')) s"

definition paused_job :: "jsval \<Rightarrow> jsval \<Rightarrow> scheduler \<Rightarrow> scheduler" where
  "paused_job i saved s = s\<lparr>sd_jobs := map (\<lambda>j. if jeq (jget j ''id'') i then saved else j) (sd_jobs s)\<rparr>"

definition sd_runNow :: "jsval \<Rightarrow> scheduler \<Rightarrow> scheduler" where
  "sd_runNow jobId s = ask_sd (SdTrigger jobId) s"

definition stopRun :: "jsval \<Rightarrow> scheduler \<Rightarrow> scheduler" where
  "stopRun runId s = ask_sd (SdAbort runId) s"

definition arm_refresh :: "scheduler \<Rightarrow> scheduler" where
  "arm_refresh s = s\<lparr>sd_timers := Suc (sd_timers s)\<rparr>"

definition refresh_timer :: "scheduler \<Rightarrow> scheduler" where
  "refresh_timer s = (if sd_timers s = 0 then s else sd_refresh (s\<lparr>sd_timers := sd_timers s - 1\<rparr>))"

text \<open>A body that is \<^verbatim>\<open>null\<close> throws where the code reads a field of it without \<^verbatim>\<open>?.\<close>.\<close>

definition body_of :: "api_error + jsval \<Rightarrow> jsval option" where
  "body_of response = (case response of Inr data \<Rightarrow> if nullish data then None else Some data | Inl e \<Rightarrow> None)"

fun sd_settle :: "sd_request \<Rightarrow> api_error + jsval \<Rightarrow> scheduler \<Rightarrow> scheduler" where
  "sd_settle (SdJobs keep k) r s = sd_after k (case body_of r of Some data \<Rightarrow> got_jobs keep data s | None \<Rightarrow> jobs_failed s)"
| "sd_settle SdOverview r s = (case body_of r of Some page \<Rightarrow> got_overview page s | None \<Rightarrow> s)"
| "sd_settle (SdRuns forward runs jobId status before) r s =
     (case body_of r of Some page \<Rightarrow> got_runs forward runs page s | None \<Rightarrow> s\<lparr>sd_runsLoading := False\<rparr>)"
| "sd_settle SdRefreshJobs r s = refreshed_jobs r s"
| "sd_settle (SdRefreshRuns jobId status) r s = (case body_of r of Some page \<Rightarrow> put_page [] page s | None \<Rightarrow> s)"
| "sd_settle (SdSave editingJob payload) r s = (case r of Inr saved \<Rightarrow> saved_job editingJob saved s | Inl e \<Rightarrow> s)"
| "sd_settle (SdRemove jobId) r s = (case r of Inr _ \<Rightarrow> removed_job jobId s | Inl e \<Rightarrow> s)"
| "sd_settle (SdPause resume i) r s = (case r of Inr saved \<Rightarrow> paused_job i saved s | Inl e \<Rightarrow> s)"
| "sd_settle (SdTrigger i) r s = (case r of Inr _ \<Rightarrow> arm_refresh s | Inl e \<Rightarrow> s)"
| "sd_settle (SdAbort i) r s = (case r of Inr _ \<Rightarrow> arm_refresh s | Inl e \<Rightarrow> s)"

definition sd_answer :: "nat \<Rightarrow> api_error + jsval \<Rightarrow> scheduler \<Rightarrow> scheduler" where
  "sd_answer i r s =
     (if i < length (sd_inflight s)
      then sd_settle (sd_inflight s ! i) r (s\<lparr>sd_inflight := take i (sd_inflight s) @ drop (Suc i) (sd_inflight s)\<rparr>)
      else s)"

section \<open>The overview\<close>

definition live_run :: "string \<Rightarrow> jsval \<Rightarrow> bool" where
  "live_run job run \<longleftrightarrow> truthy (jget run ''job_id'') \<and> to_str (jget run ''job_id'') = job \<and> jget run ''status'' = JStr ''running''"

definition done_run :: "string \<Rightarrow> jsval \<Rightarrow> bool" where
  "done_run job run \<longleftrightarrow> truthy (jget run ''job_id'') \<and> to_str (jget run ''job_id'') = job \<and> jget run ''status'' \<noteq> JStr ''running''"

lemma truthy_with_field: "truthy (jget run f) \<Longrightarrow> truthy run"
  by (cases run) auto

lemma dget_first_for: "truthy run \<Longrightarrow> pred_option truthy (dget m job) \<Longrightarrow>
   dget (first_for job run m) k = (if k = job then (case dget m job of None \<Rightarrow> Some run | r \<Rightarrow> r) else dget m k)"
  by (auto simp: first_for_def split: option.split)

lemma overview_fold:
  assumes "\<And>job. pred_option truthy (dget (fst ms) job) \<and> pred_option truthy (dget (snd ms) job)"
  shows "dget (fst (foldl note_run ms runs)) job =
           (case dget (fst ms) job of None \<Rightarrow> List.find (live_run job) runs | r \<Rightarrow> r) \<and>
         dget (snd (foldl note_run ms runs)) job =
           (case dget (snd ms) job of None \<Rightarrow> List.find (done_run job) runs | r \<Rightarrow> r)"
  using assms
proof (induction runs arbitrary: ms)
  case (Cons run runs)
  have ok: "pred_option truthy (dget (fst (note_run ms run)) k) \<and> pred_option truthy (dget (snd (note_run ms run)) k)" for k
    using Cons.prems [of k] Cons.prems [of "to_str (jget run ''job_id'')"] truthy_with_field [of run "''job_id''"]
    by (auto simp: note_run_def dget_first_for split: option.split)
  show ?case
    using Cons.IH [OF ok] Cons.prems [of job] Cons.prems [of "to_str (jget run ''job_id'')"] truthy_with_field [of run "''job_id''"]
    by (auto simp: note_run_def dget_first_for live_run_def done_run_def split: option.split)
qed (simp split: option.split)

text \<open>The overview has, for each job, the first running and the first finished run of the page.\<close>

theorem overview_first_runs:
  "dget (sd_liveByJob (got_overview page s)) job = List.find (live_run job) (runs_of page) \<and>
   dget (sd_lastByJob (got_overview page s)) job = List.find (done_run job) (runs_of page)"
  using overview_fold [of "(dempty, dempty)" "runs_of page" job] by (simp add: got_overview_def Let_def dempty_def)

section \<open>Paging\<close>

text \<open>
  A server that cuts a list of runs into pages: the answer to a page carries its runs and, unless it is
  the last, the cursor of the next one.
\<close>

definition page_body :: "jsval list list \<Rightarrow> (nat \<Rightarrow> jsval) \<Rightarrow> nat \<Rightarrow> jsval" where
  "page_body pages cursor n =
     JObj [(''runs'', JArr (pages ! n)), (''next_cursor'', if Suc n < length pages then cursor n else JNull)]"

definition answer_last :: "api_error + jsval \<Rightarrow> scheduler \<Rightarrow> scheduler" where
  "answer_last r s = sd_answer (length (sd_inflight s) - 1) r s"

text \<open>The first page and \<open>n\<close> times \<^verbatim>\<open>[Load more]\<close>, each answered before the next.\<close>

fun load_pages :: "jsval list list \<Rightarrow> (nat \<Rightarrow> jsval) \<Rightarrow> nat \<Rightarrow> scheduler \<Rightarrow> scheduler" where
  "load_pages pages cursor 0 s = answer_last (Inr (page_body pages cursor 0)) (loadRuns False s)"
| "load_pages pages cursor (Suc n) s =
     answer_last (Inr (page_body pages cursor (Suc n))) (loadRuns True (load_pages pages cursor n s))"

lemma answer_last_runs:
  assumes "truthy (sd_selectedId s)"
  shows "answer_last (Inr (page_body pages cursor n)) (loadRuns forward s) =
           got_runs forward (sd_runs s) (page_body pages cursor n) s"
  using assms by (simp add: answer_last_def sd_answer_def loadRuns_def ask_sd_def body_of_def page_body_def got_runs_def put_page_def)

lemma page_body_parts [simp]:
  "runs_of (page_body pages cursor n) = pages ! n"
  "jget (page_body pages cursor n) ''next_cursor'' = (if Suc n < length pages then cursor n else JNull)"
  by (simp_all add: runs_of_def page_body_def jor_def)

lemma got_runs_fields [simp]:
  "sd_selectedId (got_runs forward runs page s) = sd_selectedId s"
  "sd_runs (got_runs forward runs page s) = (if forward then runs else []) @ runs_of page"
  "sd_runsNextCursor (got_runs forward runs page s) = jor (jget page ''next_cursor'') JNull"
  "sd_runStatusFilter (got_runs forward runs page s) = sd_runStatusFilter s"
  "sd_runJobFilter (got_runs forward runs page s) = sd_runJobFilter s"
  "sd_inflight (got_runs forward runs page s) = sd_inflight s"
  by (simp_all add: got_runs_def put_page_def)

lemma load_pages_state:
  assumes "truthy (sd_selectedId s)" "n < length pages" "\<And>i. truthy (cursor i)"
  shows "let s' = load_pages pages cursor n s in
           sd_runs s' = concat (take (Suc n) pages) \<and> sd_inflight s' = sd_inflight s \<and> sd_selectedId s' = sd_selectedId s \<and>
           sd_runsNextCursor s' = (if Suc n < length pages then cursor n else JNull) \<and> view_job s' = view_job s \<and>
           sd_runStatusFilter s' = sd_runStatusFilter s"
  using assms
proof (induction n)
  case 0
  then show ?case by (cases pages) (auto simp: Let_def answer_last_runs view_job_def jor_def)
next
  case (Suc n)
  then show ?case by (auto simp: Let_def answer_last_runs view_job_def jor_def take_Suc_conv_app_nth split: if_splits)
qed

text \<open>
  Loading page after page shows every run of the job once, in the order of the server, and leaves no
  cursor; each further request names the cursor of the page before.
\<close>

theorem paging_gives_all_runs:
  assumes "truthy (sd_selectedId s)" "pages \<noteq> []" "\<And>i. truthy (cursor i)"
  shows "sd_runs (load_pages pages cursor (length pages - 1) s) = concat pages"
    and "sd_runsNextCursor (load_pages pages cursor (length pages - 1) s) = JNull"
    and "Suc n < length pages \<Longrightarrow>
         last (sd_inflight (loadRuns True (load_pages pages cursor n s))) =
           SdRuns True (concat (take (Suc n) pages)) (view_job s) (sd_runStatusFilter s) (cursor n)"
  using load_pages_state [OF assms(1), of "length pages - 1" pages cursor] load_pages_state [OF assms(1), of n pages cursor] assms
  by (auto simp: Let_def loadRuns_def ask_sd_def)

section \<open>The runs shown belong to the selection\<close>

datatype sd_event =
    EvJobs bool
  | EvPick jsval
  | EvStatusFilter jsval
  | EvJobFilter jsval
  | EvRuns bool
  | EvRefresh
  | EvCreateDrawer
  | EvEditDrawer jsval
  | EvCloseDrawer
  | EvSaveJob jsval
  | EvRemoveJob jsval
  | EvPauseResume jsval
  | EvRunNow jsval
  | EvStopRun jsval
  | EvRefreshTimer
  | EvReply nat "api_error + jsval"

fun sd_step :: "scheduler \<Rightarrow> sd_event \<Rightarrow> scheduler" where
  "sd_step s (EvJobs keep) = loadJobs keep s"
| "sd_step s (EvPick i) = sd_select i s"
| "sd_step s (EvStatusFilter x) = setRunStatusFilter x s"
| "sd_step s (EvJobFilter x) = setRunJobFilter x s"
| "sd_step s (EvRuns forward) = loadRuns forward s"
| "sd_step s EvRefresh = sd_refresh s"
| "sd_step s EvCreateDrawer = openCreateDrawer s"
| "sd_step s (EvEditDrawer j) = openEditDrawer j s"
| "sd_step s EvCloseDrawer = closeDrawer s"
| "sd_step s (EvSaveJob p) = saveJob p s"
| "sd_step s (EvRemoveJob i) = removeJob i s"
| "sd_step s (EvPauseResume j) = pauseResume j s"
| "sd_step s (EvRunNow i) = sd_runNow i s"
| "sd_step s (EvStopRun i) = stopRun i s"
| "sd_step s EvRefreshTimer = refresh_timer s"
| "sd_step s (EvReply i r) = sd_answer i r s"

fun is_runs :: "sd_request \<Rightarrow> bool" where
  "is_runs (SdRuns _ _ _ _ _) = True"
| "is_runs (SdRefreshRuns _ _) = True"
| "is_runs _ = False"

definition page_coming :: "scheduler \<Rightarrow> bool" where
  "page_coming s \<longleftrightarrow> (\<exists>q \<in> set (sd_inflight s). is_runs q)"

text \<open>
  \<open>R jobId status run\<close>: the server lists \<open>run\<close> under the job and the filter. The runs considered change
  the view only while no page is on its way, and the reload after a new job was saved keeps the
  selection until the new job is selected.
\<close>

definition same_selection :: "scheduler \<Rightarrow> scheduler \<Rightarrow> bool" where
  "same_selection s s' \<longleftrightarrow>
     sd_selectedId s' = sd_selectedId s \<and> sd_runStatusFilter s' = sd_runStatusFilter s \<and> sd_runJobFilter s' = sd_runJobFilter s"

fun reply_ok :: "(jsval \<Rightarrow> jsval \<Rightarrow> jsval \<Rightarrow> bool) \<Rightarrow> scheduler \<Rightarrow> sd_request \<Rightarrow> jsval \<Rightarrow> bool" where
  "reply_ok R s (SdRuns _ _ jobId status _) page \<longleftrightarrow> list_all (R jobId status) (runs_of page)"
| "reply_ok R s (SdRefreshRuns jobId status) page \<longleftrightarrow> list_all (R jobId status) (runs_of page)"
| "reply_ok R s (SdJobs keep (ScSelect i)) data \<longleftrightarrow> jeq (next_selection keep (jobs_of data) (sd_selectedId s)) (sd_selectedId s)"
| "reply_ok R s _ data \<longleftrightarrow> True"

definition sd_ok :: "(jsval \<Rightarrow> jsval \<Rightarrow> jsval \<Rightarrow> bool) \<Rightarrow> scheduler \<Rightarrow> sd_event \<Rightarrow> bool" where
  "sd_ok R s e \<longleftrightarrow>
     (page_coming s \<longrightarrow> same_selection s (sd_step s e)) \<and>
     (case e of EvReply i (Inr page) \<Rightarrow> i < length (sd_inflight s) \<longrightarrow> reply_ok R s (sd_inflight s ! i) page | _ \<Rightarrow> True)"

fun for_view :: "(jsval \<Rightarrow> jsval \<Rightarrow> jsval \<Rightarrow> bool) \<Rightarrow> scheduler \<Rightarrow> sd_request \<Rightarrow> bool" where
  "for_view R s (SdRuns _ runs jobId status _) \<longleftrightarrow>
     jobId = view_job s \<and> status = sd_runStatusFilter s \<and> list_all (R jobId status) runs"
| "for_view R s (SdRefreshRuns jobId status) \<longleftrightarrow> jobId = view_job s \<and> status = sd_runStatusFilter s"
| "for_view R s _ \<longleftrightarrow> True"

definition sd_inv :: "(jsval \<Rightarrow> jsval \<Rightarrow> jsval \<Rightarrow> bool) \<Rightarrow> scheduler \<Rightarrow> bool" where
  "sd_inv R s \<longleftrightarrow>
     (truthy (sd_selectedId s) \<longrightarrow> list_all (R (view_job s) (sd_runStatusFilter s)) (sd_runs s)) \<and>
     list_all (for_view R s) (sd_inflight s)"

lemma for_view_cong: "view_job s' = view_job s \<Longrightarrow> sd_runStatusFilter s' = sd_runStatusFilter s \<Longrightarrow> for_view R s' = for_view R s"
  by (rule ext, rename_tac q, case_tac q) auto

lemma same_selection_view: "same_selection s s' \<Longrightarrow> view_job s' = view_job s \<and> sd_runStatusFilter s' = sd_runStatusFilter s"
  by (simp add: same_selection_def view_job_def)

lemma sd_inv_same:
  assumes "sd_inv R s" "same_selection s s'" "set (sd_inflight s') \<subseteq> set (sd_inflight s)"
    "sd_runs s' = sd_runs s \<or> list_all (R (view_job s) (sd_runStatusFilter s)) (sd_runs s')"
  shows "sd_inv R s'"
  using assms same_selection_view [OF assms(2)] for_view_cong [of s' s R]
  by (auto simp: sd_inv_def same_selection_def list_all_iff)

lemma ask_sd_fields [simp]:
  "sd_selectedId (ask_sd q s) = sd_selectedId s" "sd_runs (ask_sd q s) = sd_runs s" "view_job (ask_sd q s) = view_job s"
  "sd_runStatusFilter (ask_sd q s) = sd_runStatusFilter s" "sd_inflight (ask_sd q s) = sd_inflight s @ [q]"
  by (simp_all add: ask_sd_def view_job_def)

lemma sd_inv_ask: "sd_inv R s \<Longrightarrow> for_view R s q \<Longrightarrow> sd_inv R (ask_sd q s)"
  using for_view_cong [of "ask_sd q s" s R] by (simp add: sd_inv_def)

lemma not_runs_for_view: "\<not> is_runs q \<Longrightarrow> for_view R s q"
  by (cases q) auto

lemma sd_inv_loadRuns: "sd_inv R s \<Longrightarrow> sd_inv R (loadRuns forward s)"
proof -
  assume inv: "sd_inv R s"
  let ?s = "s\<lparr>sd_runsLoading := True\<rparr>"
  have "sd_inv R ?s" by (rule sd_inv_same [OF inv]) (simp_all add: same_selection_def)
  moreover have "view_job ?s = view_job s" by (simp add: view_job_def)
  ultimately show ?thesis using inv by (simp add: loadRuns_def sd_inv_ask sd_inv_def [of R s])
qed

text \<open>A change of the view empties the list.\<close>

lemma sd_inv_new_view:
  assumes "sd_inv R s" "page_coming s \<longrightarrow> same_selection s s'" "sd_inflight s' = sd_inflight s"
    "sd_runs s' = [] \<or> \<not> truthy (sd_selectedId s')"
  shows "sd_inv R s'"
proof (cases "page_coming s")
  case True
  then show ?thesis using assms sd_inv_same [OF assms(1), of s'] same_selection_view [of s s'] for_view_cong [of s' s R]
    by (auto simp: sd_inv_def list_all_iff)
next
  case False
  then have "list_all (for_view R s') (sd_inflight s')"
    using not_runs_for_view by (auto simp: assms(3) page_coming_def list_all_iff)
  then show ?thesis using assms(4) by (auto simp: sd_inv_def)
qed

lemma loadRuns_selection [simp]: "same_selection s (loadRuns forward s')  = same_selection s s'"
  by (simp add: loadRuns_def same_selection_def ask_sd_def)

lemma sd_inv_select:
  assumes "sd_inv R s" "page_coming s \<longrightarrow> same_selection s (sd_select i s)"
  shows "sd_inv R (sd_select i s)"
  using assms by (auto simp: sd_select_def split: if_splits intro!: sd_inv_loadRuns sd_inv_new_view [OF assms(1)])

lemma sd_inv_filters:
  assumes "sd_inv R s"
  shows "page_coming s \<longrightarrow> same_selection s (setRunStatusFilter x s) \<Longrightarrow> sd_inv R (setRunStatusFilter x s)"
    and "page_coming s \<longrightarrow> same_selection s (setRunJobFilter x s) \<Longrightarrow> sd_inv R (setRunJobFilter x s)"
  by (auto simp: setRunStatusFilter_def setRunJobFilter_def intro!: sd_inv_loadRuns sd_inv_new_view [OF assms])

lemma sd_inv_loadJobs: "sd_inv R s \<Longrightarrow> sd_inv R (loadJobs_then keep k s)"
  unfolding loadJobs_then_def by (rule sd_inv_ask) (auto intro: sd_inv_same simp: same_selection_def)

lemma page_coming_cong: "sd_inflight s' = sd_inflight s \<Longrightarrow> page_coming s' = page_coming s"
  by (simp add: page_coming_def)

lemma sd_inv_got_jobs:
  assumes "sd_inv R s" "page_coming s \<longrightarrow> same_selection s (got_jobs keep data s)"
  shows "sd_inv R (got_jobs keep data s)"
proof -
  let ?s = "ask_sd SdOverview (s\<lparr>sd_jobs := jobs_of data, sd_jobsLoading := False, sd_jobsLoaded := True\<rparr>)"
  have "sd_inv R ?s" by (intro sd_inv_ask sd_inv_same [OF assms(1)]) (simp_all add: same_selection_def)
  moreover have "page_coming ?s = page_coming s" by (simp add: page_coming_def ask_sd_def)
  moreover have "same_selection ?s = same_selection s" by (simp add: same_selection_def [abs_def] ask_sd_def)
  ultimately show ?thesis using assms(2) by (simp add: got_jobs_def Let_def sd_inv_select split: if_splits)
qed

lemma got_jobs_same:
  "jeq (next_selection keep (jobs_of data) (sd_selectedId s)) (sd_selectedId s) \<Longrightarrow>
   same_selection s (got_jobs keep data s) \<and> page_coming (got_jobs keep data s) = page_coming s"
  by (simp add: got_jobs_def Let_def same_selection_def ask_sd_def page_coming_def)

lemma sd_inv_put_page:
  "sd_inv R s \<Longrightarrow> list_all (R (view_job s) (sd_runStatusFilter s)) (runs @ runs_of page) \<Longrightarrow> sd_inv R (put_page runs page s)"
  by (erule sd_inv_same) (auto simp: put_page_def same_selection_def)

lemma refreshed_selection: "same_selection s (refreshed_jobs r s)"
  by (simp add: refreshed_jobs_def Let_def same_selection_def ask_sd_def split: sum.split)

lemma sd_inv_refreshed: "sd_inv R s \<Longrightarrow> sd_inv R (refreshed_jobs r s)"
proof -
  assume inv: "sd_inv R s"
  let ?s = "case r of Inr data \<Rightarrow> if nullish data then s else s\<lparr>sd_jobs := jobs_of data, sd_jobsLoaded := True\<rparr> | Inl e \<Rightarrow> s"
  have "sd_inv R ?s"
    by (rule sd_inv_same [OF inv]) (auto simp: same_selection_def split: sum.split)
  then show ?thesis by (simp add: refreshed_jobs_def Let_def sd_inv_ask)
qed

definition lacking :: "nat \<Rightarrow> scheduler \<Rightarrow> scheduler" where
  "lacking i s = s\<lparr>sd_inflight := take i (sd_inflight s) @ drop (Suc i) (sd_inflight s)\<rparr>"

lemma lacking_facts:
  "sd_inv R s \<Longrightarrow> sd_inv R (lacking i s)" "view_job (lacking i s) = view_job s" "sd_selectedId (lacking i s) = sd_selectedId s"
  "sd_runStatusFilter (lacking i s) = sd_runStatusFilter s"
  "page_coming (lacking i s) \<Longrightarrow> page_coming s" "same_selection (lacking i s) = same_selection s"
proof -
  have sub: "set (sd_inflight (lacking i s)) \<subseteq> set (sd_inflight s)"
    using set_take_subset set_drop_subset by (fastforce simp: lacking_def)
  then show "page_coming (lacking i s) \<Longrightarrow> page_coming s" by (auto simp: page_coming_def)
  show "sd_inv R s \<Longrightarrow> sd_inv R (lacking i s)"
    by (erule sd_inv_same) (use sub in \<open>auto simp: same_selection_def lacking_def\<close>)
qed (simp_all add: lacking_def view_job_def same_selection_def [abs_def])

lemma sd_inv_jobs_reply:
  assumes inv: "sd_inv R s" and sel: "page_coming s \<longrightarrow> same_selection s (sd_settle (SdJobs keep k) r s)"
    and ok: "\<And>data. r = Inr data \<Longrightarrow> reply_ok R s (SdJobs keep k) data"
  shows "sd_inv R (sd_settle (SdJobs keep k) r s)"
proof (cases "body_of r")
  case None
  have f: "sd_inv R (jobs_failed s)" by (rule sd_inv_same [OF inv]) (simp_all add: jobs_failed_def same_selection_def)
  have "page_coming (jobs_failed s) = page_coming s" "same_selection (jobs_failed s) = same_selection s"
    by (simp_all add: jobs_failed_def page_coming_def same_selection_def [abs_def])
  then show ?thesis using f sel None by (cases k) (simp_all add: sd_inv_select)
next
  case (Some data)
  then have r: "r = Inr data" by (auto simp: body_of_def split: sum.splits if_splits)
  show ?thesis
  proof (cases k)
    case ScDone
    then show ?thesis using sd_inv_got_jobs [OF inv] sel Some by simp
  next
    case (ScSelect i)
    then have same: "same_selection s (got_jobs keep data s)" "page_coming (got_jobs keep data s) = page_coming s"
      using ok [OF r] got_jobs_same by auto
    then have "same_selection (got_jobs keep data s) = same_selection s" by (simp add: same_selection_def [abs_def])
    then show ?thesis using sd_inv_got_jobs [OF inv] same sel Some ScSelect by (simp add: sd_inv_select)
  qed
qed

lemma reply_ok_cong: "sd_selectedId s' = sd_selectedId s \<Longrightarrow> reply_ok R s' q data = reply_ok R s q data"
  by (cases "(R, s, q, data)" rule: reply_ok.cases) simp_all

lemma sd_inv_settle:
  assumes inv: "sd_inv R s" and q: "for_view R s q" and sel: "page_coming s \<longrightarrow> same_selection s (sd_settle q r s)"
    and ok: "\<And>data. r = Inr data \<Longrightarrow> reply_ok R s q data"
  shows "sd_inv R (sd_settle q r s)"
proof (cases q)
  case (SdJobs keep k)
  then show ?thesis using sd_inv_jobs_reply [OF inv] sel ok by simp
next
  case (SdRuns forward runs jobId status before)
  have idle: "sd_inv R (s'\<lparr>sd_runsLoading := False\<rparr>)" if "sd_inv R s'" for s'
    by (rule sd_inv_same [OF that]) (simp_all add: same_selection_def)
  show ?thesis using inv q ok SdRuns
    by (auto simp: got_runs_def body_of_def split: option.split sum.splits if_splits intro!: idle sd_inv_put_page)
next
  case (SdRefreshRuns jobId status)
  then show ?thesis using inv q ok by (auto simp: body_of_def split: option.split sum.splits if_splits intro!: sd_inv_put_page)
next
  case (SdRemove jobId)
  let ?s = "if jeq (sd_selectedId s) jobId then s\<lparr>sd_selectedId := JNull\<rparr> else s"
  have "page_coming s \<longrightarrow> same_selection s ?s" if "r = Inr x" for x
    using sel that by (auto simp: SdRemove removed_job_def loadJobs_def loadJobs_then_def same_selection_def ask_sd_def)
  then have "sd_inv R ?s" if "r = Inr x" for x
    using that by (auto intro: inv sd_inv_new_view [OF inv])
  then show ?thesis using inv by (cases r) (simp_all add: SdRemove removed_job_def loadJobs_def sd_inv_loadJobs)
next
  case (SdSave editingJob payload)
  have "sd_inv R (closeDrawer s)" by (rule sd_inv_same [OF inv]) (simp_all add: closeDrawer_def same_selection_def)
  then show ?thesis using inv SdSave by (cases r) (simp_all add: saved_job_def sd_inv_loadJobs)
next
  case SdRefreshJobs
  then show ?thesis using sd_inv_refreshed [OF inv] by simp
qed (auto intro!: sd_inv_same [OF inv] simp: got_overview_def Let_def paused_job_def arm_refresh_def same_selection_def
    split: option.split sum.split)

lemma sd_inv_reply:
  assumes inv: "sd_inv R s" and ok: "sd_ok R s (EvReply i r)"
  shows "sd_inv R (sd_answer i r s)"
proof (cases "i < length (sd_inflight s)")
  case True
  note facts = lacking_facts
  have "sd_answer i r s = sd_settle (sd_inflight s ! i) r (lacking i s)" using True by (simp add: sd_answer_def lacking_def)
  moreover have "for_view R s (sd_inflight s ! i)" using inv True by (simp add: sd_inv_def list_all_length)
  moreover have "for_view R (lacking i s) = for_view R s" by (rule for_view_cong) (simp_all add: lacking_facts)
  moreover have "reply_ok R (lacking i s) = reply_ok R s" using reply_ok_cong [of "lacking i s" s R] facts by (simp add: fun_eq_iff)
  moreover have "reply_ok R s (sd_inflight s ! i) data" if "r = Inr data" for data using ok True that by (simp add: sd_ok_def)
  ultimately show ?thesis
    using ok facts inv by (auto simp: sd_ok_def intro!: sd_inv_settle)
qed (use inv in \<open>simp add: sd_answer_def\<close>)

lemma sd_inv_step: "sd_inv R s \<Longrightarrow> sd_ok R s e \<Longrightarrow> sd_inv R (sd_step s e)"
proof -
  assume inv: "sd_inv R s" and ok: "sd_ok R s e"
  then have sel: "page_coming s \<longrightarrow> same_selection s (sd_step s e)" by (simp add: sd_ok_def)
  show ?thesis
  proof (cases e)
    case EvRefreshTimer
    have "sd_inv R (s\<lparr>sd_timers := n\<rparr>)" for n by (rule sd_inv_same [OF inv]) (simp_all add: same_selection_def)
    then show ?thesis using inv by (simp add: EvRefreshTimer refresh_timer_def sd_refresh_def sd_inv_ask)
  next
    case (EvReply i r)
    then show ?thesis using sd_inv_reply [OF inv] ok by simp
  qed (use inv sel in \<open>auto simp: loadJobs_def sd_refresh_def saveJob_def removeJob_def pauseResume_def sd_runNow_def stopRun_def
      openCreateDrawer_def openEditDrawer_def closeDrawer_def same_selection_def
      intro: sd_inv_same [OF inv] sd_inv_ask sd_inv_select sd_inv_loadJobs sd_inv_loadRuns sd_inv_filters\<close>)
qed

interpretation sd: machine sd_initial sd_step "sd_ok R" "sd_inv R" for R
  by unfold_locales (simp add: sd_initial_def sd_inv_def, rule sd_inv_step)

text \<open>
  As long as the view changes only while no page is on its way, every run on screen is one the server
  lists for the selected job and filter.
\<close>

theorem runs_belong_to_selection:
  assumes "sd.ok_run R sd_initial es" "s = sd.run sd_initial es" "truthy (sd_selectedId s)" "run \<in> set (sd_runs s)"
  shows "R (view_job s) (sd_runStatusFilter s) run"
  using sd.run_inv [OF assms(1)] assms(2-) by (auto simp: sd_inv_def list_all_iff)

definition demo_job :: "string \<Rightarrow> jsval" where
  "demo_job i = JObj [(''id'', JStr i)]"

definition demo_run :: "string \<Rightarrow> string \<Rightarrow> jsval" where
  "demo_run job i = JObj [(''id'', JStr i), (''job_id'', JStr job), (''status'', JStr ''ok'')]"

definition demo_runs :: "jsval list \<Rightarrow> jsval" where
  "demo_runs rs = JObj [(''runs'', JArr rs)]"

text \<open>The jobs are loaded, the first is selected and its runs arrive; then the second is selected.\<close>

definition demo_sd_events :: "sd_event list" where
  "demo_sd_events =
     [EvJobs True, EvReply 0 (Inr (JObj [(''jobs'', JArr [demo_job ''a'', demo_job ''b''])])),
      EvReply 1 (Inr (demo_runs [demo_run ''a'' ''1''])), EvPick (JStr ''b''), EvReply 1 (Inr (demo_runs [demo_run ''b'' ''2'']))]"

definition of_job :: "jsval \<Rightarrow> jsval \<Rightarrow> jsval \<Rightarrow> bool" where
  "of_job jobId status run \<longleftrightarrow> jget run ''job_id'' = jobId"

lemmas demo_sd_defs = demo_sd_events_def demo_job_def demo_run_def demo_runs_def of_job_def sd_initial_def loadJobs_def loadJobs_then_def
  ask_sd_def sd_answer_def body_of_def got_jobs_def next_selection_def jobs_of_def sd_select_def loadRuns_def view_job_def
  got_runs_def put_page_def runs_of_def ALL_RUNS_def jeq_def jor_def jcoal_def

lemma demo_sd_ok: "sd.ok_run of_job sd_initial demo_sd_events"
  by (simp add: demo_sd_defs Let_def sd_ok_def page_coming_def same_selection_def)

theorem runs_belong_to_selection_witness:
  "let s = sd.run sd_initial demo_sd_events in
     sd_runs s = [demo_run ''b'' ''2''] \<and> of_job (view_job s) (sd_runStatusFilter s) (demo_run ''b'' ''2'')"
proof -
  have "sd_runs (sd.run sd_initial demo_sd_events) = [demo_run ''b'' ''2'']" "truthy (sd_selectedId (sd.run sd_initial demo_sd_events))"
    by (simp_all add: demo_sd_defs Let_def)
  then show ?thesis using runs_belong_to_selection [OF demo_sd_ok refl, of "demo_run ''b'' ''2''"] by simp
qed

definition first_page :: "jsval \<Rightarrow> sd_request" where
  "first_page i = SdRuns False [] (if i = ALL_RUNS then JNull else i) JNull JNull"

interpretation sdv: detail_view sd_select sd_answer sd_inflight first_page sd_selectedId "\<lambda>i. i" sd_runs "\<lambda>r. runs_of (projr r)"
  "\<lambda>i s. truthy i \<and> \<not> jeq i (sd_selectedId s)" "\<lambda>r. \<not> isl r \<and> \<not> nullish (projr r)"
  by unfold_locales
    (auto simp: sd_select_def loadRuns_def ask_sd_def view_job_def first_page_def sd_answer_def body_of_def split: sum.splits)

text \<open>
  A page that was asked for before the selection changed replaces the runs of the new selection when it
  arrives last.
\<close>

theorem late_page_shows_other_job:
  assumes "sd_inflight s = []" "truthy a" "truthy b" "a \<noteq> b" "a \<noteq> sd_selectedId s" "\<not> nullish pa" "\<not> nullish pb"
  shows "let s2 = sd_answer 0 (Inr pa) (sd_answer 1 (Inr pb) (sd_select b (sd_select a s)))
         in sd_selectedId s2 = b \<and> sd_runs s2 = runs_of pa"
proof -
  have "sd_selectedId (sd_select a s) = a" using sdv.pick_chosen [of a s] assms by (simp add: jeq_def)
  then show ?thesis using sdv.crossed [where s = s and a = a and b = b and ra = "Inr pa" and rb = "Inr pb"] assms by (simp add: Let_def jeq_def)
qed

theorem late_page_shows_other_job_witness:
  "let s2 = sd_answer 0 (Inr (demo_runs [demo_run ''a'' ''1''])) (sd_answer 1 (Inr (demo_runs [demo_run ''b'' ''2'']))
       (sd_select (JStr ''b'') (sd_select (JStr ''a'') sd_initial)))
   in sd_selectedId s2 = JStr ''b'' \<and> sd_runs s2 = [demo_run ''a'' ''1'']"
  using late_page_shows_other_job [of sd_initial "JStr ''a''" "JStr ''b''" "demo_runs [demo_run ''a'' ''1'']" "demo_runs [demo_run ''b'' ''2'']"]
  by (simp add: Let_def sd_initial_def demo_runs_def runs_of_def jor_def)

end
