(* ===== verification/MemoryStore.thy ===== *)
theory MemoryStore
  imports Selections
begin

text \<open>
  The memory editor (\<^verbatim>\<open>web/user/src/stores/memoryStore.js\<close>): one selection, a CLAUDE.md scope or an auto-memory
  file, with the text in the editor and the text last saved. Requests and answers are as in the other
  stores; the list is one request for both lists, of which the second may fail. The server answers with
  objects.

  Shown: what the editor takes as saved is the selected file, or nothing when it did not load, as long as
  files are opened one at a time; and that otherwise a late content is saved into the wrong file.
\<close>

section \<open>State\<close>

datatype mem_sel = SelClaude string jsval | SelAuto jsval string

datatype mm_request =
    MmList
  | MmContent mem_sel bool
  | MmSave mem_sel string
  | MmDelete jsval string
  | MmToggle jsval bool

record memory_store =
  mm_scopes :: "jsval list"
  mm_autoProjects :: "jsval list"
  mm_expanded :: "(string, bool) dict"
  mm_loadingList :: bool
  mm_selection :: "mem_sel option"
  mm_content :: string
  mm_savedContent :: string
  mm_contentLoading :: bool
  mm_saving :: bool
  mm_error :: "string option"
  mm_inflight :: "mm_request list"

definition mm_initial :: memory_store where
  "mm_initial =
     \<lparr>mm_scopes = [], mm_autoProjects = [], mm_expanded = dempty, mm_loadingList = False, mm_selection = None, mm_content = [],
      mm_savedContent = [], mm_contentLoading = False, mm_saving = False, mm_error = None, mm_inflight = []\<rparr>"

definition same_cwd :: "jsval \<Rightarrow> jsval \<Rightarrow> bool" where
  "same_cwd a b \<longleftrightarrow> jeq (jor a JNull) (jor b JNull)"

definition sameClaude :: "mem_sel option \<Rightarrow> string \<Rightarrow> jsval \<Rightarrow> bool" where
  "sameClaude sel scope cwd = (case sel of Some (SelClaude sc c) \<Rightarrow> sc = scope \<and> same_cwd c cwd | _ \<Rightarrow> False)"

definition sameAuto :: "mem_sel option \<Rightarrow> jsval \<Rightarrow> string \<Rightarrow> bool" where
  "sameAuto sel cwd name = (case sel of Some (SelAuto c n) \<Rightarrow> same_cwd c cwd \<and> n = name | _ \<Rightarrow> False)"

definition ask_mm :: "mm_request \<Rightarrow> memory_store \<Rightarrow> memory_store" where
  "ask_mm q s = s\<lparr>mm_inflight := mm_inflight s @ [q]\<rparr>"

section \<open>Operations\<close>

definition mm_loadList :: "memory_store \<Rightarrow> memory_store" where
  "mm_loadList s = ask_mm MmList (s\<lparr>mm_loadingList := True, mm_error := None\<rparr>)"

text \<open>\<open>within\<close>: whether the selection is part of \<^verbatim>\<open>loadList\<close>, which then ends with it.\<close>

definition open_memory :: "mem_sel \<Rightarrow> bool \<Rightarrow> memory_store \<Rightarrow> memory_store" where
  "open_memory sel within s =
     ask_mm (MmContent sel within) (s\<lparr>mm_selection := Some sel, mm_contentLoading := True, mm_error := None\<rparr>)"

definition selectClaude :: "string \<Rightarrow> jsval \<Rightarrow> memory_store \<Rightarrow> memory_store" where
  "selectClaude scope cwd s = open_memory (SelClaude scope (jor cwd JNull)) False s"

definition selectAuto :: "jsval \<Rightarrow> string \<Rightarrow> memory_store \<Rightarrow> memory_store" where
  "selectAuto cwd name s = open_memory (SelAuto (jor cwd JNull) name) False s"

definition body_text :: "jsval \<Rightarrow> string" where
  "body_text data = str_of (jor (jget data ''content'') (JStr []))"

definition got_content :: "bool \<Rightarrow> api_error + jsval \<Rightarrow> memory_store \<Rightarrow> memory_store" where
  "got_content within r s =
     (let s1 = (case r of
                  Inr data \<Rightarrow> s\<lparr>mm_content := body_text data, mm_savedContent := body_text data\<rparr>
                | Inl e \<Rightarrow> s\<lparr>mm_error := Some (err_message e), mm_content := [], mm_savedContent := []\<rparr>);
          s2 = s1\<lparr>mm_contentLoading := False\<rparr>
      in if within then s2\<lparr>mm_loadingList := False\<rparr> else s2)"

definition first_memory :: "jsval list \<Rightarrow> mem_sel option" where
  "first_memory scopes =
     map_option (\<lambda>s. SelClaude (str_of (jget s ''scope'')) (jor (jget s ''cwd'') JNull))
       (case List.find (\<lambda>s. truthy (jget s ''exists'')) scopes of
          Some s \<Rightarrow> Some s
        | None \<Rightarrow> (case scopes of [] \<Rightarrow> None | s # _ \<Rightarrow> Some s))"

definition got_lists :: "api_error + jsval \<Rightarrow> api_error + jsval \<Rightarrow> memory_store \<Rightarrow> memory_store" where
  "got_lists mem auto s =
     (case mem of
        Inl e \<Rightarrow> s\<lparr>mm_error := Some (err_message e), mm_loadingList := False\<rparr>
      | Inr m \<Rightarrow>
          (let scopes = arr_of (jget m ''scopes'');
               s1 = s\<lparr>mm_scopes := scopes,
                      mm_autoProjects := (case auto of Inr a \<Rightarrow> arr_of (jget a ''projects'') | Inl e \<Rightarrow> [])\<rparr>
           in case (mm_selection s1, first_memory scopes) of
                (None, Some sel) \<Rightarrow> open_memory sel True s1
              | _ \<Rightarrow> s1\<lparr>mm_loadingList := False\<rparr>))"

definition mm_toggleExpand :: "string \<Rightarrow> memory_store \<Rightarrow> memory_store" where
  "mm_toggleExpand cwd s = s\<lparr>mm_expanded := dset cwd (dget (mm_expanded s) cwd \<noteq> Some True) (mm_expanded s)\<rparr>"

definition mm_setContent :: "string \<Rightarrow> memory_store \<Rightarrow> memory_store" where
  "mm_setContent content s = s\<lparr>mm_content := content\<rparr>"

definition mm_save :: "memory_store \<Rightarrow> memory_store" where
  "mm_save s =
     (case mm_selection s of
        None \<Rightarrow> s
      | Some sel \<Rightarrow> ask_mm (MmSave sel (mm_content s)) (s\<lparr>mm_saving := True, mm_error := None\<rparr>))"

definition mark_scope :: "string \<Rightarrow> jsval \<Rightarrow> int \<Rightarrow> jsval \<Rightarrow> jsval" where
  "mark_scope scope cwd n sc =
     (if jget sc ''scope'' = JStr scope \<and> same_cwd (jget sc ''cwd'') cwd
      then jput sc [(''exists'', JBool True), (''size'', JNum n)] else sc)"

definition in_project :: "jsval \<Rightarrow> (jsval list \<Rightarrow> jsval list) \<Rightarrow> jsval \<Rightarrow> jsval" where
  "in_project cwd f p = (if jeq (jget p ''cwd'') cwd then jput p [(''files'', JArr (f (arr_of (jget p ''files''))))] else p)"

definition resize_file :: "string \<Rightarrow> int \<Rightarrow> jsval list \<Rightarrow> jsval list" where
  "resize_file name n = map (\<lambda>f. if jget f ''name'' = JStr name then jput f [(''size'', JNum n)] else f)"

definition saved_text :: "string \<Rightarrow> jsval \<Rightarrow> string" where
  "saved_text content data = str_of (jcoal (jget data ''content'') (JStr content))"

definition saved_memory :: "mem_sel \<Rightarrow> string \<Rightarrow> api_error + jsval \<Rightarrow> memory_store \<Rightarrow> memory_store" where
  "saved_memory sel content r s =
     (case r of
        Inl e \<Rightarrow> s\<lparr>mm_error := Some (err_message e)\<rparr>
      | Inr data \<Rightarrow>
          (let saved = saved_text content data; n = int (length saved)
           in case sel of
                SelClaude scope cwd \<Rightarrow> s\<lparr>mm_savedContent := saved, mm_scopes := map (mark_scope scope cwd n) (mm_scopes s)\<rparr>
              | SelAuto cwd name \<Rightarrow>
                  s\<lparr>mm_savedContent := saved,
                    mm_autoProjects := map (in_project cwd (resize_file name n)) (mm_autoProjects s)\<rparr>))\<lparr>mm_saving := False\<rparr>"

definition deleteAutoFile :: "jsval \<Rightarrow> string \<Rightarrow> memory_store \<Rightarrow> memory_store" where
  "deleteAutoFile cwd name s = ask_mm (MmDelete cwd name) (s\<lparr>mm_error := None\<rparr>)"

definition deleted_auto :: "jsval \<Rightarrow> string \<Rightarrow> api_error + jsval \<Rightarrow> memory_store \<Rightarrow> memory_store" where
  "deleted_auto cwd name r s =
     (case r of
        Inl e \<Rightarrow> s\<lparr>mm_error := Some (err_message e)\<rparr>
      | Inr _ \<Rightarrow>
          (let s1 = s\<lparr>mm_autoProjects := map (in_project cwd (filter (\<lambda>f. jget f ''name'' \<noteq> JStr name))) (mm_autoProjects s)\<rparr>
           in if sameAuto (mm_selection s) cwd name
              then s1\<lparr>mm_selection := None, mm_content := [], mm_savedContent := []\<rparr> else s1))"

definition set_enabled :: "jsval \<Rightarrow> bool \<Rightarrow> memory_store \<Rightarrow> memory_store" where
  "set_enabled cwd enabled s =
     s\<lparr>mm_autoProjects := map (\<lambda>p. if jeq (jget p ''cwd'') cwd then jput p [(''enabled'', JBool enabled)] else p) (mm_autoProjects s)\<rparr>"

definition toggleAuto :: "jsval \<Rightarrow> bool \<Rightarrow> memory_store \<Rightarrow> memory_store" where
  "toggleAuto cwd enabled s = ask_mm (MmToggle cwd enabled) (set_enabled cwd enabled s)"

definition toggled_auto :: "jsval \<Rightarrow> bool \<Rightarrow> api_error + jsval \<Rightarrow> memory_store \<Rightarrow> memory_store" where
  "toggled_auto cwd enabled r s =
     (case r of Inr _ \<Rightarrow> s | Inl e \<Rightarrow> (set_enabled cwd (\<not> enabled) s)\<lparr>mm_error := Some (err_message e)\<rparr>)"

definition mm_reset :: "memory_store \<Rightarrow> memory_store" where
  "mm_reset s = mm_initial\<lparr>mm_inflight := mm_inflight s\<rparr>"

text \<open>\<open>auto\<close> is the second answer of the list request.\<close>

fun mm_settle :: "mm_request \<Rightarrow> api_error + jsval \<Rightarrow> api_error + jsval \<Rightarrow> memory_store \<Rightarrow> memory_store" where
  "mm_settle MmList r auto s = got_lists r auto s"
| "mm_settle (MmContent sel within) r auto s = got_content within r s"
| "mm_settle (MmSave sel content) r auto s = saved_memory sel content r s"
| "mm_settle (MmDelete cwd name) r auto s = deleted_auto cwd name r s"
| "mm_settle (MmToggle cwd enabled) r auto s = toggled_auto cwd enabled r s"

definition mm_answer :: "nat \<Rightarrow> api_error + jsval \<Rightarrow> api_error + jsval \<Rightarrow> memory_store \<Rightarrow> memory_store" where
  "mm_answer i r auto s =
     (if i < length (mm_inflight s)
      then mm_settle (mm_inflight s ! i) r auto (s\<lparr>mm_inflight := take i (mm_inflight s) @ drop (Suc i) (mm_inflight s)\<rparr>)
      else s)"

section \<open>The editor beside the server\<close>

text \<open>
  The store together with the files the server has. A request is served when its answer arrives: a content
  request returns the file, a save writes it, a deletion empties it. The other requests get the body of the
  event. \<open>mw_unloaded\<close> remembers that the last content to arrive was an error and that nothing has been
  saved since: it follows the events, and no operation reads it.
\<close>

record mem_world =
  mw_store :: memory_store
  mw_files :: "mem_sel \<Rightarrow> string"
  mw_unloaded :: bool

definition text_body :: "string \<Rightarrow> jsval" where
  "text_body t = JObj [(''content'', JStr t)]"

fun serve_request :: "mm_request \<Rightarrow> jsval \<Rightarrow> (mem_sel \<Rightarrow> string) \<Rightarrow> jsval \<times> (mem_sel \<Rightarrow> string)" where
  "serve_request (MmContent sel _) body files = (text_body (files sel), files)"
| "serve_request (MmSave sel content) body files = (text_body content, files(sel := content))"
| "serve_request (MmDelete cwd name) body files = (body, files(SelAuto (jor cwd JNull) name := []))"
| "serve_request _ body files = (body, files)"

fun touches :: "mm_request \<Rightarrow> mem_sel option" where
  "touches (MmContent sel _) = Some sel"
| "touches (MmSave sel _) = Some sel"
| "touches _ = None"

definition is_content :: "mm_request \<Rightarrow> bool" where
  "is_content q = (case q of MmContent _ _ \<Rightarrow> True | _ \<Rightarrow> False)"

datatype mm_event =
    EvMemList
  | EvClaude string jsval
  | EvAuto jsval string
  | EvExpand string
  | EvType string
  | EvSave
  | EvDeleteAuto jsval string
  | EvToggleAuto jsval bool
  | EvServe nat jsval "api_error + jsval"
  | EvFail nat api_error
  | EvMemReset

definition serve :: "nat \<Rightarrow> jsval \<Rightarrow> api_error + jsval \<Rightarrow> mem_world \<Rightarrow> mem_world" where
  "serve i body auto w =
     (if i < length (mm_inflight (mw_store w))
      then (case serve_request (mm_inflight (mw_store w) ! i) body (mw_files w) of
              (b, files) \<Rightarrow> \<lparr>mw_store = mm_answer i (Inr b) auto (mw_store w), mw_files = files,
                mw_unloaded = (mw_unloaded w \<and> touches (mm_inflight (mw_store w) ! i) = None)\<rparr>)
      else w)"

definition on_store :: "(memory_store \<Rightarrow> memory_store) \<Rightarrow> mem_world \<Rightarrow> mem_world" where
  "on_store f w = w\<lparr>mw_store := f (mw_store w)\<rparr>"

definition fail_request :: "nat \<Rightarrow> api_error \<Rightarrow> mem_world \<Rightarrow> mem_world" where
  "fail_request i e w =
     w\<lparr>mw_store := mm_answer i (Inl e) (Inl e) (mw_store w),
       mw_unloaded := (mw_unloaded w \<or> i < length (mm_inflight (mw_store w)) \<and> is_content (mm_inflight (mw_store w) ! i))\<rparr>"

fun mw_step :: "mem_world \<Rightarrow> mm_event \<Rightarrow> mem_world" where
  "mw_step w EvMemList = on_store mm_loadList w"
| "mw_step w (EvClaude scope cwd) = on_store (selectClaude scope cwd) w"
| "mw_step w (EvAuto cwd name) = on_store (selectAuto cwd name) w"
| "mw_step w (EvExpand cwd) = on_store (mm_toggleExpand cwd) w"
| "mw_step w (EvType t) = on_store (mm_setContent t) w"
| "mw_step w EvSave = on_store mm_save w"
| "mw_step w (EvDeleteAuto cwd name) = on_store (deleteAutoFile cwd name) w"
| "mw_step w (EvToggleAuto cwd b) = on_store (toggleAuto cwd b) w"
| "mw_step w (EvServe i body auto) = serve i body auto w"
| "mw_step w (EvFail i e) = fail_request i e w"
| "mw_step w EvMemReset = on_store mm_reset w"



text \<open>The texts the editor should have: the files, or nothing after a content that did not load.\<close>

definition editor_texts :: "mem_world \<Rightarrow> mem_sel \<Rightarrow> string" where
  "editor_texts w = (if mw_unloaded w then \<lambda>_. [] else mw_files w)"

definition tracks :: "memory_store \<Rightarrow> (mem_sel \<Rightarrow> string) \<Rightarrow> bool" where
  "tracks s files \<longleftrightarrow> (\<forall>sel. mm_selection s = Some sel \<longrightarrow>
     (\<forall>q \<in> set (mm_inflight s). touches q \<in> {None, Some sel}) \<and>
     ((\<exists>q \<in> set (mm_inflight s). is_content q) \<or> mm_savedContent s = files sel))"


lemma editor_texts_on_store [simp]: "editor_texts (on_store f w) = editor_texts w"
  by (simp add: editor_texts_def on_store_def)


lemma tracks_ask:
  assumes "tracks s files" "touches q = None \<or> touches q = mm_selection s"
  shows "tracks (ask_mm q s) files"
  using assms by (auto simp: tracks_def ask_mm_def)

lemma tracks_unselected [simp]: "mm_selection s = None \<Longrightarrow> tracks s files"
  by (simp add: tracks_def)


definition dropped :: "nat \<Rightarrow> memory_store \<Rightarrow> memory_store" where
  "dropped i s = s\<lparr>mm_inflight := take i (mm_inflight s) @ drop (Suc i) (mm_inflight s)\<rparr>"

lemma dropped_fields [simp]:
  "mm_selection (dropped i s) = mm_selection s" "mm_savedContent (dropped i s) = mm_savedContent s"
  by (simp_all add: dropped_def)




lemma sameAuto_iff: "jor c JNull = c \<Longrightarrow> sameAuto (Some (SelAuto c n)) cwd name \<longleftrightarrow> SelAuto c n = SelAuto (jor cwd JNull) name"
  by (auto simp: sameAuto_def same_cwd_def jeq_def jor_def split: if_splits)








definition mw_initial :: "(mem_sel \<Rightarrow> string) \<Rightarrow> mem_world" where
  "mw_initial files = \<lparr>mw_store = mm_initial, mw_files = files, mw_unloaded = False\<rparr>"



definition demo_files :: "mem_sel \<Rightarrow> string" where
  "demo_files sel = (case sel of SelClaude scope _ \<Rightarrow> scope | SelAuto _ name \<Rightarrow> name)"





text \<open>
  C40. When two files are opened in a row and the first content arrives last, the editor has the text of the
  first under the name of the second and takes it as saved; an edit that is then saved overwrites the second
  file with the text of the first.
\<close>

theorem late_content_overwrites_file:
  assumes "mm_inflight (mw_store w) = []" "a = SelClaude sa (jor ca JNull)" "b = SelClaude sb (jor cb JNull)" "a \<noteq> b"
  shows "let w1 = foldl mw_step w [EvClaude sa ca, EvClaude sb cb, EvServe 1 JNull auto, EvServe 0 JNull auto];
             w2 = foldl mw_step w1 [EvType (mm_content (mw_store w1) @ t), EvSave, EvServe 0 JNull auto]
         in mm_selection (mw_store w1) = Some b \<and> mm_content (mw_store w1) = mw_files w a \<and>
            mm_savedContent (mw_store w1) = mm_content (mw_store w1) \<and> mw_files w2 = (mw_files w)(b := mw_files w a @ t)"
  using assms
  by (simp add: Let_def on_store_def selectClaude_def open_memory_def ask_mm_def serve_def mm_answer_def got_content_def text_body_def
      body_text_def jor_def mm_setContent_def mm_save_def saved_memory_def saved_text_def jcoal_def)

theorem late_content_overwrites_file_witness:
  "mw_files (foldl mw_step (mw_initial demo_files)
     [EvClaude ''user'' JNull, EvClaude ''project'' (JStr ''/w''), EvServe 1 JNull (Inr JNull), EvServe 0 JNull (Inr JNull),
      EvType ''user!'', EvSave, EvServe 0 JNull (Inr JNull)]) (SelClaude ''project'' (JStr ''/w'')) = ''user!''"
proof -
  let ?w1 = "foldl mw_step (mw_initial demo_files)
      [EvClaude ''user'' JNull, EvClaude ''project'' (JStr ''/w''), EvServe 1 JNull (Inr JNull), EvServe 0 JNull (Inr JNull)]"
  have "mm_inflight (mw_store (mw_initial demo_files)) = []" by (simp add: mw_initial_def mm_initial_def)
  moreover have "SelClaude ''user'' (jor JNull JNull) \<noteq> SelClaude ''project'' (jor (JStr ''/w'') JNull)" by simp
  ultimately have both: "mm_content (mw_store ?w1) = mw_files (mw_initial demo_files) (SelClaude ''user'' (jor JNull JNull)) \<and>
      mw_files (foldl mw_step ?w1 [EvType (mm_content (mw_store ?w1) @ ''!''), EvSave, EvServe 0 JNull (Inr JNull)]) =
        (mw_files (mw_initial demo_files))(SelClaude ''project'' (jor (JStr ''/w'') JNull) :=
           mw_files (mw_initial demo_files) (SelClaude ''user'' (jor JNull JNull)) @ ''!'')"
    using late_content_overwrites_file [OF _ refl refl, of "mw_initial demo_files" "''user''" JNull "''project''" "JStr ''/w''" "Inr JNull" "''!''"]
    unfolding Let_def by blast
  have u: "mw_files (mw_initial demo_files) (SelClaude ''user'' (jor JNull JNull)) = ''user''" by (simp add: mw_initial_def demo_files_def)
  have "mw_files (foldl mw_step ?w1 [EvType (''user'' @ ''!''), EvSave, EvServe 0 JNull (Inr JNull)]) (SelClaude ''project'' (JStr ''/w'')) = ''user!''"
    using conjunct2 [OF both] unfolding conjunct1 [OF both] u by (simp add: jor_def)
  then show ?thesis by simp
qed

end
