(* ===== verification/SubagentsStore.thy ===== *)
theory SubagentsStore
  imports Selections SessionTransform
begin

text \<open>
  The subagents page (\<^verbatim>\<open>web/user/src/stores/subagentsStore.js\<close>) and the reader of the test stream
  (\<^verbatim>\<open>streamAgentTest\<close> of \<^verbatim>\<open>web/user/src/api/subagents.js\<close>). A draft of the editor is an object; requests and
  answers are as in the other stores. Every test that was started is a stream of its own, whose events and
  completion reach the store also after it was aborted; the store keeps the number of the one it would
  abort. Refused requests that throw leave the state as it is, and console output is left out.

  Shown: the reader gives the same events however the bytes are cut; an unchanged draft saves what was
  loaded; allowed and disallowed tools stay disjoint; what a late detail and a restarted test do.
\<close>

section \<open>Drafts\<close>

definition DEFAULT_ALLOWED_TOOLS :: "jsval list" where
  "DEFAULT_ALLOWED_TOOLS =
     map JStr [''Read'', ''Write'', ''Edit'', ''Bash'', ''TaskCreate'', ''TaskGet'', ''TaskList'', ''TaskUpdate'', ''SendMessage'']"

definition emptyDraft :: jsval where
  "emptyDraft =
     JObj [(''__mode'', JStr ''create''), (''__originalName'', JNull), (''scope'', JStr ''project''), (''cwd'', JNull),
       (''name'', JStr []), (''description'', JStr []), (''prompt'', JStr []), (''tools'', JArr DEFAULT_ALLOWED_TOOLS),
       (''disallowedTools'', JArr []), (''model'', JStr []), (''permissionMode'', JStr []), (''maxTurns'', JNull),
       (''skills'', JArr []), (''mcpServers'', JArr []), (''memory'', JStr []), (''background'', JBool False)]"

definition detailToDraft :: "jsval \<Rightarrow> jsval" where
  "detailToDraft detail =
     JObj [(''__mode'', JStr ''edit''), (''__originalName'', jget detail ''name''),
       (''scope'', jor (jget detail ''scope'') (JStr ''project'')), (''cwd'', jcoal (jget detail ''cwd'') JNull),
       (''name'', jget detail ''name''), (''description'', jor (jget detail ''description'') (JStr [])),
       (''prompt'', jor (jget detail ''prompt'') (JStr [])), (''tools'', JArr (arr_of (jget detail ''tools''))),
       (''disallowedTools'', JArr (arr_of (jget detail ''disallowedTools''))), (''model'', jor (jget detail ''model'') (JStr [])),
       (''permissionMode'', jor (jget detail ''permissionMode'') (JStr [])), (''maxTurns'', jcoal (jget detail ''maxTurns'') JNull),
       (''skills'', JArr (arr_of (jget detail ''skills''))), (''mcpServers'', JArr (arr_of (jget detail ''mcpServers''))),
       (''memory'', jor (jget detail ''memory'') (JStr [])), (''background'', JBool (truthy (jget detail ''background'')))]"

definition js_num :: "js_env \<Rightarrow> jsval \<Rightarrow> jsval" where
  "js_num env v = (case js_number env v of Some n \<Rightarrow> JNum n | None \<Rightarrow> JNaN)"

definition draftToBody :: "js_env \<Rightarrow> jsval \<Rightarrow> jsval" where
  "draftToBody env draft =
     (let f = jget draft;
          body = JObj [(''name'', f ''name''), (''description'', f ''description''), (''prompt'', f ''prompt''), (''tools'', f ''tools''),
                   (''disallowedTools'', f ''disallowedTools''), (''skills'', f ''skills''), (''mcpServers'', f ''mcpServers'')];
          b1 = set_if (truthy (f ''model'')) ''model'' (f ''model'') body;
          b2 = set_if (truthy (f ''permissionMode'')) ''permissionMode'' (f ''permissionMode'') b1;
          b3 = set_if (\<not> nullish (f ''maxTurns'') \<and> f ''maxTurns'' \<noteq> JStr []) ''maxTurns'' (js_num env (f ''maxTurns'')) b2;
          b4 = set_if (truthy (f ''memory'')) ''memory'' (f ''memory'') b3
      in set_if (case f ''background'' of JBool _ \<Rightarrow> True | _ \<Rightarrow> False) ''background'' (f ''background'') b4)"

section \<open>State\<close>

datatype sa_request =
    SaList
  | SaCatalog
  | SaDetail jsval jsval jsval
  | SaCreate jsval jsval
  | SaUpdate jsval jsval jsval jsval
  | SaDelete jsval jsval jsval

record subagents =
  sa_list :: jsval
  sa_listLoading :: bool
  sa_selectedName :: jsval
  sa_selectedScope :: jsval
  sa_selectedCwd :: jsval
  sa_detail :: jsval
  sa_detailLoading :: bool
  sa_formDraft :: jsval
  sa_dirty :: bool
  sa_scopePickerOpen :: bool
  sa_scopePickerTemplate :: jsval
  sa_catalog :: jsval
  sa_catalogLoaded :: bool
  sa_listWidth :: int
  sa_testWidth :: int
  sa_testRunning :: bool
  sa_testEvents :: "(string \<times> jsval \<times> int) list"
  sa_testAbort :: "nat option"
  sa_tests :: nat
  sa_aborted :: "nat list"
  sa_storage :: storage
  sa_inflight :: "sa_request list"

definition sa_initial :: "js_env \<Rightarrow> storage \<Rightarrow> subagents" where
  "sa_initial env st =
     \<lparr>sa_list = JArr [], sa_listLoading = False, sa_selectedName = JNull, sa_selectedScope = JNull, sa_selectedCwd = JNull,
      sa_detail = JNull, sa_detailLoading = False, sa_formDraft = JNull, sa_dirty = False, sa_scopePickerOpen = False,
      sa_scopePickerTemplate = JNull,
      sa_catalog = JObj [(''tools'', JArr []), (''skills'', JArr []), (''mcp_servers'', JArr []), (''reserved_names'', JArr [])],
      sa_catalogLoaded = False, sa_listWidth = getNumber env st ''subagents-list-width'' 260 (Some 220) (Some 420),
      sa_testWidth = getNumber env st ''subagents-test-width'' 480 (Some 320) (Some 720), sa_testRunning = False,
      sa_testEvents = [], sa_testAbort = None, sa_tests = 0, sa_aborted = [], sa_storage = st, sa_inflight = []\<rparr>"

definition ask_sa :: "sa_request \<Rightarrow> subagents \<Rightarrow> subagents" where
  "ask_sa q s = s\<lparr>sa_inflight := sa_inflight s @ [q]\<rparr>"

definition sa_setListWidth :: "int \<Rightarrow> subagents \<Rightarrow> subagents" where
  "sa_setListWidth w s = s\<lparr>sa_storage := snd (setItem ''subagents-list-width'' (show_int w) (sa_storage s)), sa_listWidth := w\<rparr>"

definition setTestWidth :: "int \<Rightarrow> subagents \<Rightarrow> subagents" where
  "setTestWidth w s = s\<lparr>sa_storage := snd (setItem ''subagents-test-width'' (show_int w) (sa_storage s)), sa_testWidth := w\<rparr>"

definition loadList :: "subagents \<Rightarrow> subagents" where
  "loadList s = ask_sa SaList (s\<lparr>sa_listLoading := True\<rparr>)"

definition sa_loadCatalog :: "subagents \<Rightarrow> subagents" where
  "sa_loadCatalog s = (if sa_catalogLoaded s then s else ask_sa SaCatalog s)"

definition selectAgent :: "jsval \<Rightarrow> jsval \<Rightarrow> jsval \<Rightarrow> subagents \<Rightarrow> subagents" where
  "selectAgent scope cwd name s =
     ask_sa (SaDetail scope cwd name)
       (s\<lparr>sa_selectedName := name, sa_selectedScope := scope, sa_selectedCwd := jcoal cwd JNull, sa_detailLoading := True,
          sa_dirty := False\<rparr>)"

text \<open>\<^verbatim>\<open>detailToDraft\<close> of a detail that is \<^verbatim>\<open>null\<close> throws into the handler that clears both.\<close>

definition detail_arrived :: "api_error + jsval \<Rightarrow> subagents \<Rightarrow> subagents" where
  "detail_arrived response s =
     (case response of
        Inr detail \<Rightarrow>
          if nullish detail then s\<lparr>sa_detail := JNull, sa_formDraft := JNull, sa_detailLoading := False\<rparr>
          else s\<lparr>sa_detail := detail, sa_formDraft := detailToDraft detail, sa_detailLoading := False\<rparr>
      | Inl e \<Rightarrow> s\<lparr>sa_detail := JNull, sa_formDraft := JNull, sa_detailLoading := False\<rparr>)"

definition deselect :: "subagents \<Rightarrow> subagents" where
  "deselect s =
     s\<lparr>sa_selectedName := JNull, sa_selectedScope := JNull, sa_selectedCwd := JNull, sa_detail := JNull, sa_formDraft := JNull,
       sa_dirty := False\<rparr>"

definition sa_clearSelection :: "subagents \<Rightarrow> subagents" where
  "sa_clearSelection s = (deselect s)\<lparr>sa_testEvents := []\<rparr>"

section \<open>The editor\<close>

definition openScopePicker :: "jsval \<Rightarrow> subagents \<Rightarrow> subagents" where
  "openScopePicker template s = s\<lparr>sa_scopePickerOpen := True, sa_scopePickerTemplate := template\<rparr>"

definition closeScopePicker :: "subagents \<Rightarrow> subagents" where
  "closeScopePicker s = s\<lparr>sa_scopePickerOpen := False, sa_scopePickerTemplate := JNull\<rparr>"

definition draft_cwd :: "jsval \<Rightarrow> jsval \<Rightarrow> jsval" where
  "draft_cwd scope cwd = (if scope = JStr ''project'' then jcoal cwd JNull else JNull)"

definition startNewAgent :: "jsval \<Rightarrow> jsval \<Rightarrow> subagents \<Rightarrow> subagents" where
  "startNewAgent scope cwd s = (deselect s)\<lparr>sa_formDraft := jput emptyDraft [(''scope'', scope), (''cwd'', draft_cwd scope cwd)]\<rparr>"

definition startFromTemplate :: "jsval \<Rightarrow> jsval \<Rightarrow> jsval \<Rightarrow> subagents \<Rightarrow> subagents" where
  "startFromTemplate template scope cwd s =
     (deselect s)\<lparr>sa_formDraft := jput (jspread emptyDraft template)
          [(''scope'', scope), (''cwd'', draft_cwd scope cwd), (''__mode'', JStr ''create''), (''__originalName'', JNull)],
        sa_dirty := True\<rparr>"

definition chooseScope :: "jsval \<Rightarrow> jsval \<Rightarrow> subagents \<Rightarrow> subagents" where
  "chooseScope scope cwd s =
     (let template = sa_scopePickerTemplate s
      in if truthy template then startFromTemplate template scope cwd (closeScopePicker s)
         else startNewAgent scope cwd (closeScopePicker s))"

definition drop_tools :: "jsval \<Rightarrow> jsval \<Rightarrow> jsval" where
  "drop_tools taken tools = JArr (filter (\<lambda>t. t \<notin> set (arr_of taken)) (arr_of (jor tools (JArr []))))"

definition put_field :: "string \<Rightarrow> jsval \<Rightarrow> jsval \<Rightarrow> jsval" where
  "put_field key v draft =
     (let d = jput draft [(key, v)]
      in if key = ''tools'' then jset ''disallowedTools'' (drop_tools v (jget d ''disallowedTools'')) d
         else if key = ''disallowedTools'' then jset ''tools'' (drop_tools v (jget d ''tools'')) d
         else d)"

definition setFormField :: "string \<Rightarrow> jsval \<Rightarrow> subagents \<Rightarrow> subagents" where
  "setFormField key v s =
     (if \<not> truthy (sa_formDraft s) then s else s\<lparr>sa_formDraft := put_field key v (sa_formDraft s), sa_dirty := True\<rparr>)"

definition discardDraft :: "subagents \<Rightarrow> subagents" where
  "discardDraft s =
     s\<lparr>sa_formDraft := (if truthy (sa_detail s) then detailToDraft (sa_detail s) else JNull), sa_dirty := False\<rparr>"

definition draft_scope :: "jsval \<Rightarrow> jsval" where
  "draft_scope draft = jor (jget draft ''scope'') (JStr ''project'')"

definition saveDraft :: "js_env \<Rightarrow> subagents \<Rightarrow> subagents" where
  "saveDraft env s =
     (let draft = sa_formDraft s
      in if \<not> truthy draft then s
         else let body = draftToBody env draft; scope = draft_scope draft; cwd = draft_cwd scope (jget draft ''cwd'')
           in if jget draft ''__mode'' = JStr ''create'' then ask_sa (SaCreate (jput body [(''scope'', scope), (''cwd'', cwd)]) scope) s
              else ask_sa (SaUpdate scope cwd (jget draft ''__originalName'')
                     (set_if (\<not> jeq (jget draft ''name'') (jget draft ''__originalName'')) ''new_name'' (jget draft ''name'') body)) s)"

definition draft_saved :: "jsval \<Rightarrow> api_error + jsval \<Rightarrow> subagents \<Rightarrow> subagents" where
  "draft_saved scope response s =
     (case response of
        Inr detail \<Rightarrow>
          if nullish detail then s
          else loadList (s\<lparr>sa_detail := detail, sa_selectedName := jget detail ''name'',
                 sa_selectedScope := jor (jget detail ''scope'') scope, sa_selectedCwd := jcoal (jget detail ''cwd'') JNull,
                 sa_formDraft := detailToDraft detail, sa_dirty := False\<rparr>)
      | Inl e \<Rightarrow> s)"

definition deleteSelected :: "subagents \<Rightarrow> subagents" where
  "deleteSelected s =
     (if truthy (sa_selectedName s) then ask_sa (SaDelete (sa_selectedScope s) (sa_selectedCwd s) (sa_selectedName s)) s else s)"

definition agent_deleted :: "api_error + jsval \<Rightarrow> subagents \<Rightarrow> subagents" where
  "agent_deleted response s = (case response of Inr _ \<Rightarrow> loadList (deselect s) | Inl e \<Rightarrow> s)"

section \<open>Tests\<close>

definition abort_test :: "subagents \<Rightarrow> subagents" where
  "abort_test s = (case sa_testAbort s of None \<Rightarrow> s | Some n \<Rightarrow> s\<lparr>sa_aborted := n # sa_aborted s\<rparr>)"

definition sa_runTest :: "subagents \<Rightarrow> subagents" where
  "sa_runTest s =
     (if truthy (sa_selectedName s)
      then (abort_test s)\<lparr>sa_testRunning := True, sa_testEvents := [], sa_testAbort := Some (sa_tests s), sa_tests := Suc (sa_tests s)\<rparr>
      else s)"

definition test_event :: "string \<Rightarrow> jsval \<Rightarrow> int \<Rightarrow> subagents \<Rightarrow> subagents" where
  "test_event event data now s = s\<lparr>sa_testEvents := sa_testEvents s @ [(event, data, now)]\<rparr>"

definition test_complete :: "subagents \<Rightarrow> subagents" where
  "test_complete s = s\<lparr>sa_testRunning := False, sa_testAbort := None\<rparr>"

definition stopTest :: "subagents \<Rightarrow> subagents" where
  "stopTest s = (abort_test s)\<lparr>sa_testAbort := None, sa_testRunning := False\<rparr>"

definition clearTestEvents :: "subagents \<Rightarrow> subagents" where
  "clearTestEvents s = s\<lparr>sa_testEvents := []\<rparr>"

definition sa_reset :: "subagents \<Rightarrow> subagents" where
  "sa_reset s =
     (deselect s)\<lparr>sa_list := JArr [], sa_listLoading := False, sa_scopePickerOpen := False, sa_scopePickerTemplate := JNull,
        sa_testRunning := False, sa_testEvents := [], sa_testAbort := None\<rparr>"

fun sa_settle :: "sa_request \<Rightarrow> api_error + jsval \<Rightarrow> subagents \<Rightarrow> subagents" where
  "sa_settle SaList r s =
     (case r of
        Inr data \<Rightarrow> if nullish data then s else s\<lparr>sa_list := jor (jget data ''agents'') (JArr [])\<rparr>
      | Inl e \<Rightarrow> s)\<lparr>sa_listLoading := False\<rparr>"
| "sa_settle SaCatalog r s = (case r of Inr data \<Rightarrow> s\<lparr>sa_catalog := data, sa_catalogLoaded := True\<rparr> | Inl e \<Rightarrow> s)"
| "sa_settle (SaDetail scope cwd name) r s = detail_arrived r s"
| "sa_settle (SaCreate body scope) r s = draft_saved scope r s"
| "sa_settle (SaUpdate scope cwd name body) r s = draft_saved scope r s"
| "sa_settle (SaDelete scope cwd name) r s = agent_deleted r s"

definition sa_answer :: "nat \<Rightarrow> api_error + jsval \<Rightarrow> subagents \<Rightarrow> subagents" where
  "sa_answer i r s =
     (if i < length (sa_inflight s)
      then sa_settle (sa_inflight s ! i) r (s\<lparr>sa_inflight := take i (sa_inflight s) @ drop (Suc i) (sa_inflight s)\<rparr>)
      else s)"

section \<open>The test stream\<close>

text \<open>
  The loop of \<^verbatim>\<open>streamAgentTest\<close>: the text not yet ended by a newline, the event name of the last \<^verbatim>\<open>event:\<close>
  line, and the events handed on.
\<close>

record test_reader =
  tr_buffer :: string
  tr_currentEvent :: "string option"
  tr_out :: "(string \<times> jsval) list"

definition read_line :: "js_env \<Rightarrow> test_reader \<Rightarrow> string \<Rightarrow> test_reader" where
  "read_line env r line =
     (if prefix ''event: '' line then r\<lparr>tr_currentEvent := Some (trim (drop 7 line))\<rparr>
      else case (prefix ''data: '' line, tr_currentEvent r) of
        (True, Some (c # name)) \<Rightarrow>
          r\<lparr>tr_out := tr_out r @ (case env_parse_json env (drop 6 line) of Some data \<Rightarrow> [(c # name, data)] | None \<Rightarrow> []),
            tr_currentEvent := None\<rparr>
      | _ \<Rightarrow> if line = [] then r\<lparr>tr_currentEvent := None\<rparr> else r)"

definition read_chunk :: "js_env \<Rightarrow> test_reader \<Rightarrow> string \<Rightarrow> test_reader" where
  "read_chunk env r chunk =
     (let ls = split_on (\<lambda>c. c = newline) (tr_buffer r @ chunk)
      in (foldl (read_line env) r (butlast ls))\<lparr>tr_buffer := last ls\<rparr>)"

definition reader_start :: test_reader where
  "reader_start = \<lparr>tr_buffer = [], tr_currentEvent = None, tr_out = []\<rparr>"

lemma split_on_nonempty [simp]: "split_on P s \<noteq> []"
  by (induction s) (auto split: list.split)

lemma split_on_append:
  "split_on P (a @ b) = butlast (split_on P a) @ split_on P (last (split_on P a) @ b)"
proof (induction a)
  case (Cons c a)
  obtain w ws where s: "split_on P a = w # ws" by (meson neq_Nil_conv split_on_nonempty)
  show ?case
  proof (cases ws)
    case Nil
    then show ?thesis using Cons s by simp
  next
    case (Cons v vs)
    then show ?thesis using Cons.IH s by simp
  qed
qed simp

lemma read_line_buffer [simp]: "tr_buffer (read_line env r l) = tr_buffer r"
  by (auto simp: read_line_def split: option.split list.split bool.split)

lemma read_line_update: "read_line env (r\<lparr>tr_buffer := b\<rparr>) l = (read_line env r l)\<lparr>tr_buffer := b\<rparr>"
  by (auto simp: read_line_def split: option.split list.split bool.split)

lemma read_lines_update: "foldl (read_line env) (r\<lparr>tr_buffer := b\<rparr>) ls = (foldl (read_line env) r ls)\<lparr>tr_buffer := b\<rparr>"
  by (induction ls arbitrary: r) (simp_all add: read_line_update)

lemma read_chunk_append: "read_chunk env (read_chunk env r a) b = read_chunk env r (a @ b)"
proof -
  let ?P = "\<lambda>c. c = newline"
  let ?s = "split_on ?P (tr_buffer r @ a)"
  have "split_on ?P (tr_buffer r @ a @ b) = butlast ?s @ split_on ?P (last ?s @ b)"
    using split_on_append [of ?P "tr_buffer r @ a" b] by simp
  then show ?thesis by (simp add: read_chunk_def Let_def butlast_append read_lines_update)
qed

lemma read_chunks: "chunks \<noteq> [] \<Longrightarrow> foldl (read_chunk env) r chunks = read_chunk env r (concat chunks)"
proof (induction chunks arbitrary: r)
  case (Cons c cs)
  show ?case using Cons.IH [of "read_chunk env r c"] by (cases "cs = []") (simp_all add: read_chunk_append)
qed simp

text \<open>One event as the server writes it.\<close>

definition render_event :: "string \<times> string \<Rightarrow> string" where
  "render_event e = ''event: '' @ fst e @ [newline] @ ''data: '' @ snd e @ [newline, newline]"

definition sendable :: "js_env \<Rightarrow> string \<times> string \<Rightarrow> bool" where
  "sendable env e \<longleftrightarrow> fst e \<noteq> [] \<and> trim (fst e) = fst e \<and> newline \<notin> set (fst e) \<and> newline \<notin> set (snd e) \<and> env_parse_json env (snd e) \<noteq> None"

lemma split_on_line: "\<forall>c \<in> set l. \<not> P c \<Longrightarrow> P n \<Longrightarrow> split_on P (l @ n # s) = l # split_on P s"
  by (induction l) auto

lemma split_two_lines:
  assumes "\<forall>c \<in> set p \<union> set a \<union> set q \<union> set b. \<not> P c" "P n"
  shows "split_on P (p @ a @ [n] @ q @ b @ [n, n]) = [p @ a, q @ b, [], []]"
  using assms split_on_line [of "p @ a" P n "q @ b @ [n, n]"] split_on_line [of "q @ b" P n "[n]"] by auto

lemma read_rendered:
  assumes "sendable env e" "tr_buffer r = []" "tr_currentEvent r = None"
  shows "read_chunk env r (render_event e) = r\<lparr>tr_out := tr_out r @ [(fst e, the (env_parse_json env (snd e)))]\<rparr>"
proof -
  have "split_on (\<lambda>c. c = newline) (render_event e) = [''event: '' @ fst e, ''data: '' @ snd e, [], []]"
    using assms(1) split_two_lines [of "''event: ''" "fst e" "''data: ''" "snd e" "\<lambda>c. c = newline" newline]
    by (simp only: render_event_def sendable_def) auto
  moreover obtain c name where "fst e = c # name" using assms(1) by (cases "fst e") (auto simp: sendable_def)
  ultimately show ?thesis using assms
    by (auto simp: read_chunk_def read_line_def sendable_def)
qed

lemma read_rendered_all:
  "list_all (sendable env) es \<Longrightarrow> tr_buffer r = [] \<Longrightarrow> tr_currentEvent r = None \<Longrightarrow>
   read_chunk env r (concat (map render_event es)) =
     r\<lparr>tr_out := tr_out r @ map (\<lambda>e. (fst e, the (env_parse_json env (snd e)))) es\<rparr>"
proof (induction es arbitrary: r)
  case Nil
  then show ?case by (simp add: read_chunk_def)
next
  case (Cons e es)
  then show ?case by (simp add: read_chunk_append [symmetric] read_rendered)
qed

text \<open>
  C30. However the network cuts the stream, the events handed on are exactly those the server wrote, in their
  order.
\<close>

theorem test_stream_roundtrip:
  assumes "list_all (sendable env) es" "concat chunks = concat (map render_event es)"
  shows "tr_out (foldl (read_chunk env) reader_start chunks) = map (\<lambda>e. (fst e, the (env_parse_json env (snd e)))) es"
proof (cases "chunks = []")
  case True
  then show ?thesis using assms by (cases es) (auto simp: reader_start_def render_event_def)
next
  case False
  then show ?thesis using assms by (simp add: read_chunks read_rendered_all reader_start_def)
qed

definition demo_parse :: js_env where
  "demo_parse = (demo_env 0)\<lparr>env_parse_json := (\<lambda>s. Some (JStr s))\<rparr>"

theorem test_stream_roundtrip_witness:
  "tr_out (foldl (read_chunk demo_parse) reader_start
     [''event: text'' @ [newline] @ ''dat'', ''a: 1'' @ [newline], [newline] @ ''event: result'' @ [newline] @ ''data: 2'' @ [newline, newline]]) =
   [(''text'', JStr ''1''), (''result'', JStr ''2'')]"
  using test_stream_roundtrip [of demo_parse "[(''text'', ''1''), (''result'', ''2'')]"
      "[''event: text'' @ [newline] @ ''dat'', ''a: 1'' @ [newline], [newline] @ ''event: result'' @ [newline] @ ''data: 2'' @ [newline, newline]]"]
  by (simp add: sendable_def render_event_def demo_parse_def trim_def trim_start_def is_ws_def)

section \<open>Saving an unchanged draft\<close>

text \<open>A detail as the server describes an agent.\<close>

definition agent_detail :: "jsval \<Rightarrow> bool" where
  "agent_detail d \<longleftrightarrow>
     is_str (jget d ''name'') \<and> is_str (jget d ''description'') \<and> is_str (jget d ''prompt'') \<and>
     is_arr (jget d ''tools'') \<and> is_arr (jget d ''disallowedTools'') \<and> is_arr (jget d ''skills'') \<and> is_arr (jget d ''mcpServers'') \<and>
     (nullish (jget d ''maxTurns'') \<or> (\<exists>n. jget d ''maxTurns'' = JNum n)) \<and> (\<exists>b. jget d ''background'' = JBool b)"

lemma is_str_jor: "is_str v \<Longrightarrow> jor v (JStr []) = v"
  by (cases v) (auto simp: jor_def)

lemma is_arr_of: "is_arr v \<Longrightarrow> JArr (arr_of v) = v"
  by (cases v) auto

definition saved_field :: "jsval \<Rightarrow> string \<Rightarrow> jsval" where
  "saved_field d f =
     (if f \<in> {''model'', ''permissionMode'', ''memory''} \<and> \<not> truthy (jget d f) \<or> f = ''maxTurns'' \<and> nullish (jget d f) then JUndef
      else jget d f)"

lemma draftToBody_fields:
  "jget (draftToBody env dr) ''name'' = jget dr ''name''"
  "jget (draftToBody env dr) ''description'' = jget dr ''description''"
  "jget (draftToBody env dr) ''prompt'' = jget dr ''prompt''"
  "jget (draftToBody env dr) ''tools'' = jget dr ''tools''"
  "jget (draftToBody env dr) ''disallowedTools'' = jget dr ''disallowedTools''"
  "jget (draftToBody env dr) ''skills'' = jget dr ''skills''"
  "jget (draftToBody env dr) ''mcpServers'' = jget dr ''mcpServers''"
  "jget (draftToBody env dr) ''model'' = (if truthy (jget dr ''model'') then jget dr ''model'' else JUndef)"
  "jget (draftToBody env dr) ''permissionMode'' = (if truthy (jget dr ''permissionMode'') then jget dr ''permissionMode'' else JUndef)"
  "jget (draftToBody env dr) ''memory'' = (if truthy (jget dr ''memory'') then jget dr ''memory'' else JUndef)"
  "jget (draftToBody env dr) ''maxTurns'' =
     (if \<not> nullish (jget dr ''maxTurns'') \<and> jget dr ''maxTurns'' \<noteq> JStr [] then js_num env (jget dr ''maxTurns'') else JUndef)"
  "jget (draftToBody env dr) ''background'' = (case jget dr ''background'' of JBool b \<Rightarrow> JBool b | _ \<Rightarrow> JUndef)"
  "jget (draftToBody env dr) ''new_name'' = JUndef"
  by (simp_all add: draftToBody_def Let_def jget_set_if split: jsval.split)

lemma detailToDraft_fields:
  assumes "agent_detail d"
  shows
    "jget (detailToDraft d) ''name'' = jget d ''name''"
    "jget (detailToDraft d) ''description'' = jget d ''description''"
    "jget (detailToDraft d) ''prompt'' = jget d ''prompt''"
    "jget (detailToDraft d) ''tools'' = jget d ''tools''"
    "jget (detailToDraft d) ''disallowedTools'' = jget d ''disallowedTools''"
    "jget (detailToDraft d) ''skills'' = jget d ''skills''"
    "jget (detailToDraft d) ''mcpServers'' = jget d ''mcpServers''"
    "jget (detailToDraft d) ''model'' = jor (jget d ''model'') (JStr [])"
    "jget (detailToDraft d) ''permissionMode'' = jor (jget d ''permissionMode'') (JStr [])"
    "jget (detailToDraft d) ''memory'' = jor (jget d ''memory'') (JStr [])"
    "jget (detailToDraft d) ''maxTurns'' = jcoal (jget d ''maxTurns'') JNull" "jget (detailToDraft d) ''background'' = jget d ''background''"
  using assms by (auto simp: agent_detail_def detailToDraft_def is_str_jor is_arr_of)

lemma draft_body_fields:
  assumes "agent_detail d"
    and "f \<in> {''name'', ''description'', ''prompt'', ''tools'', ''disallowedTools'', ''skills'', ''mcpServers'', ''model'', ''permissionMode'',
      ''maxTurns'', ''memory'', ''background''}"
  shows "jget (draftToBody env (detailToDraft d)) f = saved_field d f"
proof -
  have "nullish (jget d ''maxTurns'') \<or> (\<exists>n. jget d ''maxTurns'' = JNum n)" "\<exists>b. jget d ''background'' = JBool b"
    using assms(1) by (simp_all add: agent_detail_def)
  then show ?thesis using assms(2)
    by (elim insertE emptyE exE disjE)
      (simp_all add: draftToBody_fields detailToDraft_fields [OF assms(1)] saved_field_def jor_def jcoal_def js_num_def)
qed

text \<open>
  An agent that was loaded and saved again without a change is written under its own scope and name, with
  every field as it was loaded; fields the server left out are left out.
\<close>

theorem unchanged_draft_saves_detail:
  assumes "agent_detail d" "sa_formDraft s = detailToDraft d"
    and "f \<in> {''name'', ''description'', ''prompt'', ''tools'', ''disallowedTools'', ''skills'', ''mcpServers'', ''model'', ''permissionMode'',
      ''maxTurns'', ''memory'', ''background''}"
  shows "\<exists>cwd body. sa_inflight (saveDraft env s) = sa_inflight s @ [SaUpdate (draft_scope d) cwd (jget d ''name'') body] \<and>
           jget body f = saved_field d f \<and> jget body ''new_name'' = JUndef"
proof -
  have "jget d ''name'' \<noteq> JNaN" using assms(1) by (auto simp: agent_detail_def)
  moreover have "jget (draftToBody env (detailToDraft d)) ''new_name'' = JUndef"
    by (rule draftToBody_fields)
  moreover have "truthy (detailToDraft d)" "jget (detailToDraft d) ''__mode'' = JStr ''edit''"
    "jget (detailToDraft d) ''__originalName'' = jget d ''name''" "jget (detailToDraft d) ''name'' = jget d ''name''"
    "draft_scope (detailToDraft d) = draft_scope d"
    by (simp_all add: detailToDraft_def draft_scope_def jor_def)
  ultimately show ?thesis
    using draft_body_fields [OF assms(1,3), of env] by (simp add: saveDraft_def Let_def assms(2) ask_sa_def jget_set_if jeq_def set_if_def)
qed

section \<open>Allowed and disallowed tools\<close>

datatype sa_event =
    EvAgentListWidth int
  | EvTestWidth int
  | EvLoadList
  | EvAgentCatalog
  | EvAgent jsval jsval jsval
  | EvDeselect
  | EvOpenPicker jsval
  | EvClosePicker
  | EvChooseScope jsval jsval
  | EvNewAgent jsval jsval
  | EvTemplate jsval jsval jsval
  | EvField string jsval
  | EvDiscard
  | EvSaveDraft
  | EvDeleteAgent
  | EvRunTest
  | EvTestEvent string jsval int
  | EvTestComplete
  | EvStopTest
  | EvClearTests
  | EvAgentReset
  | EvAgentAnswer nat "api_error + jsval"

fun sa_step :: "js_env \<Rightarrow> subagents \<Rightarrow> sa_event \<Rightarrow> subagents" where
  "sa_step env s (EvAgentListWidth w) = sa_setListWidth w s"
| "sa_step env s (EvTestWidth w) = setTestWidth w s"
| "sa_step env s EvLoadList = loadList s"
| "sa_step env s EvAgentCatalog = sa_loadCatalog s"
| "sa_step env s (EvAgent scope cwd name) = selectAgent scope cwd name s"
| "sa_step env s EvDeselect = sa_clearSelection s"
| "sa_step env s (EvOpenPicker template) = openScopePicker template s"
| "sa_step env s EvClosePicker = closeScopePicker s"
| "sa_step env s (EvChooseScope scope cwd) = chooseScope scope cwd s"
| "sa_step env s (EvNewAgent scope cwd) = startNewAgent scope cwd s"
| "sa_step env s (EvTemplate template scope cwd) = startFromTemplate template scope cwd s"
| "sa_step env s (EvField key v) = setFormField key v s"
| "sa_step env s EvDiscard = discardDraft s"
| "sa_step env s EvSaveDraft = saveDraft env s"
| "sa_step env s EvDeleteAgent = deleteSelected s"
| "sa_step env s EvRunTest = sa_runTest s"
| "sa_step env s (EvTestEvent e d now) = test_event e d now s"
| "sa_step env s EvTestComplete = test_complete s"
| "sa_step env s EvStopTest = stopTest s"
| "sa_step env s EvClearTests = clearTestEvents s"
| "sa_step env s EvAgentReset = sa_reset s"
| "sa_step env s (EvAgentAnswer i r) = sa_answer i r s"

definition tools_apart :: "jsval \<Rightarrow> bool" where
  "tools_apart v \<longleftrightarrow> set (arr_of (jget v ''tools'')) \<inter> set (arr_of (jget v ''disallowedTools'')) = {}"

text \<open>Agents of the server and templates do not name a tool in both lists.\<close>

fun sa_ok :: "subagents \<Rightarrow> sa_event \<Rightarrow> bool" where
  "sa_ok s (EvOpenPicker template) \<longleftrightarrow> tools_apart (jspread emptyDraft template)"
| "sa_ok s (EvTemplate template scope cwd) \<longleftrightarrow> tools_apart (jspread emptyDraft template)"
| "sa_ok s (EvAgentAnswer i (Inr detail)) \<longleftrightarrow> tools_apart detail"
| "sa_ok s _ \<longleftrightarrow> True"

definition sa_inv :: "subagents \<Rightarrow> bool" where
  "sa_inv s \<longleftrightarrow> tools_apart (sa_formDraft s) \<and> tools_apart (sa_detail s) \<and> tools_apart (jspread emptyDraft (sa_scopePickerTemplate s))"

lemma tools_apart_emptyDraft [simp]: "tools_apart emptyDraft"
  by (simp add: tools_apart_def emptyDraft_def)

lemma tools_apart_JNull [simp]: "tools_apart JNull"
  by (simp add: tools_apart_def)

lemma tools_apart_detail [simp]: "tools_apart (detailToDraft d) = tools_apart d"
  by (simp add: tools_apart_def detailToDraft_def)

lemma tools_apart_jput: "''tools'' \<notin> fst ` set kvs \<Longrightarrow> ''disallowedTools'' \<notin> fst ` set kvs \<Longrightarrow> tools_apart (jput d kvs) = tools_apart d"
  by (simp add: tools_apart_def jget_jput_other)

lemma spread_JNull [simp]: "jspread emptyDraft JNull = emptyDraft"
  by (simp add: jspread_def jput_def emptyDraft_def)

lemma put_field_apart: "tools_apart d \<Longrightarrow> tools_apart (put_field key v d)"
  by (auto simp: put_field_def Let_def tools_apart_def drop_tools_def jget_jput)

lemma sa_inv_same:
  assumes "sa_inv s" "sa_formDraft s' = sa_formDraft s" "sa_detail s' = sa_detail s" "sa_scopePickerTemplate s' = sa_scopePickerTemplate s"
  shows "sa_inv s'"
  using assms by (simp add: sa_inv_def)

lemma sa_inv_settle:
  assumes "sa_inv s" "\<And>d. r = Inr d \<Longrightarrow> tools_apart d"
  shows "sa_inv (sa_settle q r s)"
  using assms
  by (cases q; cases r) (auto simp: sa_inv_def detail_arrived_def draft_saved_def agent_deleted_def loadList_def ask_sa_def deselect_def)

lemma sa_inv_start:
  assumes "sa_inv s"
  shows "sa_inv (startNewAgent scope cwd s)" "tools_apart (jspread emptyDraft template) \<Longrightarrow> sa_inv (startFromTemplate template scope cwd s)"
  using assms by (auto simp: sa_inv_def startNewAgent_def startFromTemplate_def deselect_def tools_apart_jput)

lemma sa_inv_choose: "sa_inv s \<Longrightarrow> sa_inv (chooseScope scope cwd s)"
proof -
  assume inv: "sa_inv s"
  then have "sa_inv (closeScopePicker s)" by (simp add: sa_inv_def closeScopePicker_def)
  then show ?thesis using inv by (simp add: chooseScope_def Let_def sa_inv_start sa_inv_def [of s])
qed

lemma sa_inv_step: "sa_inv s \<Longrightarrow> sa_ok s e \<Longrightarrow> sa_inv (sa_step env s e)"
proof -
  assume inv: "sa_inv s" and ok: "sa_ok s e"
  show ?thesis
  proof (cases e)
    case (EvAgentAnswer i r)
    have "sa_inv (s\<lparr>sa_inflight := qs\<rparr>)" for qs by (rule sa_inv_same [OF inv]) simp_all
    then show ?thesis using inv ok by (cases r) (auto simp: EvAgentAnswer sa_answer_def intro!: sa_inv_settle)
  next
    case (EvChooseScope scope cwd)
    then show ?thesis using inv by (simp add: sa_inv_choose)
  next
    case (EvNewAgent scope cwd)
    then show ?thesis using inv by (simp add: sa_inv_start)
  next
    case (EvTemplate template scope cwd)
    then show ?thesis using inv ok by (simp add: sa_inv_start)
  qed (use inv ok in \<open>auto simp: sa_inv_def sa_setListWidth_def setTestWidth_def loadList_def sa_loadCatalog_def selectAgent_def
      sa_clearSelection_def deselect_def openScopePicker_def closeScopePicker_def setFormField_def put_field_apart discardDraft_def
      saveDraft_def Let_def deleteSelected_def sa_runTest_def abort_test_def test_event_def test_complete_def stopTest_def
      clearTestEvents_def sa_reset_def ask_sa_def split: option.split\<close>)
qed

interpretation sa: machine "sa_initial env st" "sa_step env" sa_ok sa_inv for env st
  by unfold_locales (simp add: sa_inv_def sa_initial_def, rule sa_inv_step)

text \<open>The editor never has a tool both allowed and disallowed.\<close>

theorem draft_tools_disjoint:
  assumes "sa.ok_run env (sa_initial env st) es"
  shows "set (arr_of (jget (sa_formDraft (sa.run env (sa_initial env st) es)) ''tools'')) \<inter>
         set (arr_of (jget (sa_formDraft (sa.run env (sa_initial env st) es)) ''disallowedTools'')) = {}"
  using sa.run_inv [OF assms] by (simp add: sa_inv_def tools_apart_def)

section \<open>Late answers\<close>

interpretation sv: detail_view "\<lambda>(scope, cwd, name). selectAgent scope cwd name" sa_answer sa_inflight
  "\<lambda>(scope, cwd, name). SaDetail scope cwd name" "\<lambda>s. (sa_selectedScope s, sa_selectedCwd s, sa_selectedName s)"
  "\<lambda>(scope, cwd, name). (scope, jcoal cwd JNull, name)" sa_formDraft "\<lambda>r. detailToDraft (projr r)" "\<lambda>_ _. True"
  "\<lambda>r. \<not> isl r \<and> \<not> nullish (projr r)"
  by unfold_locales (auto simp: selectAgent_def ask_sa_def sa_answer_def detail_arrived_def split: sum.splits prod.splits)

text \<open>
  When two agents are selected in a row and the first detail arrives last, the editor shows the first while
  the second is selected: a save writes the first, a deletion removes the second.
\<close>

theorem late_detail_shows_other_agent:
  assumes "sa_inflight s = []" "\<not> nullish da" "\<not> nullish db" "truthy b"
  shows "let s1 = selectAgent scope cwd b (selectAgent scope cwd a s);
             s2 = sa_answer 0 (Inr da) (sa_answer 1 (Inr db) s1)
         in sa_formDraft s2 = detailToDraft da \<and> last (sa_inflight (deleteSelected s2)) = SaDelete scope (jcoal cwd JNull) b"
  using sv.crossed [where s = s and a = "(scope, cwd, a)" and b = "(scope, cwd, b)" and ra = "Inr da" and rb = "Inr db"] assms
  by (simp add: Let_def deleteSelected_def ask_sa_def)

text \<open>
  A test that is started while another one runs aborts the other, whose completion then ends the display of
  the new one and drops its handle: the page shows no test, and a stop aborts none.
\<close>

theorem restarted_test_escapes_stop:
  assumes "truthy (sa_selectedName s)" "sa_testAbort s = Some n" "n < sa_tests s"
  shows "let s1 = test_complete (sa_runTest s)
         in \<not> sa_testRunning s1 \<and> sa_tests s1 = Suc (sa_tests s) \<and> sa_aborted (stopTest s1) = n # sa_aborted s \<and> n \<noteq> sa_tests s"
  using assms by (simp add: Let_def sa_runTest_def abort_test_def test_complete_def stopTest_def)

end
