(* ===== verification/CommandsStore.thy ===== *)
theory CommandsStore
  imports SubagentsStore Selections
begin

text \<open>
  The slash-command editor (\<^verbatim>\<open>web/user/src/stores/commandsStore.js\<close>). Its drafts have the shape of the
  subagents' with the allowed tools as one text; requests and answers are as in the other stores. The server
  answers with objects, and console output is left out.

  Shown: an unchanged draft saves what was loaded, provided no tool has a comma; what crossed answers show.
\<close>

section \<open>Drafts\<close>

definition cm_emptyDraft :: jsval where
  "cm_emptyDraft =
     JObj [(''__mode'', JStr ''create''), (''__originalName'', JNull), (''scope'', JStr ''project''), (''cwd'', JNull), (''name'', JStr []),
       (''description'', JStr []), (''argumentHint'', JStr []), (''allowedToolsText'', JStr []), (''model'', JStr []), (''prompt'', JStr [])]"

definition tools_text :: "jsval list \<Rightarrow> string" where
  "tools_text tools = join '', '' (map (\<lambda>t. if nullish t then [] else to_str t) tools)"

definition cm_detailToDraft :: "jsval \<Rightarrow> jsval" where
  "cm_detailToDraft d =
     JObj [(''__mode'', JStr ''edit''), (''__originalName'', jget d ''name''), (''scope'', jor (jget d ''scope'') (JStr ''project'')),
       (''cwd'', jcoal (jget d ''cwd'') JNull), (''name'', jget d ''name''), (''description'', jor (jget d ''description'') (JStr [])),
       (''argumentHint'', jor (jget d ''argument_hint'') (JStr [])),
       (''allowedToolsText'', JStr (tools_text (arr_of (jor (jget d ''allowed_tools'') (JArr []))))),
       (''model'', jor (jget d ''model'') (JStr [])), (''prompt'', jor (jget d ''prompt'') (JStr []))]"

definition split_tools :: "string \<Rightarrow> string list" where
  "split_tools text = filter (\<lambda>t. t \<noteq> []) (map trim (split_on (\<lambda>c. c = CHR '','') text))"

definition cm_draftToBody :: "jsval \<Rightarrow> jsval" where
  "cm_draftToBody draft =
     set_if (truthy (jget draft ''model'')) ''model'' (jget draft ''model'')
       (JObj [(''name'', jget draft ''name''), (''description'', jget draft ''description''), (''argument_hint'', jget draft ''argumentHint''),
         (''allowed_tools'', JArr (map JStr (split_tools (str_of (jget draft ''allowedToolsText''))))), (''prompt'', jget draft ''prompt'')])"

section \<open>State and operations\<close>

datatype cm_request =
    CmList
  | CmDetail jsval jsval jsval
  | CmCreate jsval jsval
  | CmUpdate jsval jsval jsval jsval
  | CmDelete jsval jsval jsval

record commands_store =
  cm_list :: jsval
  cm_listLoading :: bool
  cm_selectedName :: jsval
  cm_selectedScope :: jsval
  cm_selectedCwd :: jsval
  cm_formDraft :: jsval
  cm_dirty :: bool
  cm_saving :: bool
  cm_error :: "string option"
  cm_scopePickerOpen :: bool
  cm_listWidth :: int
  cm_storage :: storage
  cm_inflight :: "(cm_request \<times> bool) list"

definition cm_initial :: "js_env \<Rightarrow> storage \<Rightarrow> commands_store" where
  "cm_initial env st =
     \<lparr>cm_list = JArr [], cm_listLoading = False, cm_selectedName = JNull, cm_selectedScope = JNull, cm_selectedCwd = JNull,
      cm_formDraft = JNull, cm_dirty = False, cm_saving = False, cm_error = None, cm_scopePickerOpen = False,
      cm_listWidth = getNumber env st ''commands-list-width'' 260 (Some 220) (Some 420), cm_storage = st, cm_inflight = []\<rparr>"

text \<open>A request and whether a save awaits it: the reload of the list ends the save that asked for it.\<close>

definition ask_cm :: "cm_request \<Rightarrow> bool \<Rightarrow> commands_store \<Rightarrow> commands_store" where
  "ask_cm q awaited s = s\<lparr>cm_inflight := cm_inflight s @ [(q, awaited)]\<rparr>"

definition cm_setListWidth :: "int \<Rightarrow> commands_store \<Rightarrow> commands_store" where
  "cm_setListWidth w s = s\<lparr>cm_storage := snd (setItem ''commands-list-width'' (show_int w) (cm_storage s)), cm_listWidth := w\<rparr>"

definition cm_loadList :: "bool \<Rightarrow> commands_store \<Rightarrow> commands_store" where
  "cm_loadList awaited s = ask_cm CmList awaited (s\<lparr>cm_listLoading := True\<rparr>)"

definition selectCommand :: "jsval \<Rightarrow> jsval \<Rightarrow> jsval \<Rightarrow> commands_store \<Rightarrow> commands_store" where
  "selectCommand scope cwd name s =
     ask_cm (CmDetail scope cwd name) False
       (s\<lparr>cm_selectedName := name, cm_selectedScope := scope, cm_selectedCwd := jcoal cwd JNull, cm_dirty := False, cm_error := None\<rparr>)"

definition cm_clearSelection :: "commands_store \<Rightarrow> commands_store" where
  "cm_clearSelection s =
     s\<lparr>cm_selectedName := JNull, cm_selectedScope := JNull, cm_selectedCwd := JNull, cm_formDraft := JNull, cm_dirty := False\<rparr>"

definition cm_openScopePicker :: "commands_store \<Rightarrow> commands_store" where
  "cm_openScopePicker s = s\<lparr>cm_scopePickerOpen := True\<rparr>"

definition cm_closeScopePicker :: "commands_store \<Rightarrow> commands_store" where
  "cm_closeScopePicker s = s\<lparr>cm_scopePickerOpen := False\<rparr>"

definition startNew :: "jsval \<Rightarrow> jsval \<Rightarrow> commands_store \<Rightarrow> commands_store" where
  "startNew scope cwd s =
     (cm_clearSelection s)\<lparr>cm_formDraft := jput cm_emptyDraft [(''scope'', scope), (''cwd'', draft_cwd scope cwd)], cm_error := None\<rparr>"

definition cm_chooseScope :: "jsval \<Rightarrow> jsval \<Rightarrow> commands_store \<Rightarrow> commands_store" where
  "cm_chooseScope scope cwd s = startNew scope cwd (cm_closeScopePicker s)"

definition cm_setFormField :: "string \<Rightarrow> jsval \<Rightarrow> commands_store \<Rightarrow> commands_store" where
  "cm_setFormField key v s =
     (if \<not> truthy (cm_formDraft s) then s else s\<lparr>cm_formDraft := jput (cm_formDraft s) [(key, v)], cm_dirty := True\<rparr>)"

definition cm_discardDraft :: "commands_store \<Rightarrow> commands_store" where
  "cm_discardDraft s =
     (if truthy (cm_selectedName s) then selectCommand (cm_selectedScope s) (cm_selectedCwd s) (cm_selectedName s) s
      else s\<lparr>cm_formDraft := JNull, cm_dirty := False\<rparr>)"

definition cm_saveDraft :: "commands_store \<Rightarrow> commands_store" where
  "cm_saveDraft s =
     (let draft = cm_formDraft s
      in if \<not> truthy draft then s
         else let body = cm_draftToBody draft; scope = draft_scope draft; cwd = draft_cwd scope (jget draft ''cwd'');
                  s1 = s\<lparr>cm_saving := True, cm_error := None\<rparr>
           in if jget draft ''__mode'' = JStr ''create'' then ask_cm (CmCreate (jput body [(''scope'', scope), (''cwd'', cwd)]) scope) False s1
              else ask_cm (CmUpdate scope cwd (jget draft ''__originalName'')
                     (set_if (\<not> jeq (jget draft ''name'') (jget draft ''__originalName'')) ''new_name'' (jget draft ''name'') body)) False s1)"

definition cm_saved :: "jsval \<Rightarrow> api_error + jsval \<Rightarrow> commands_store \<Rightarrow> commands_store" where
  "cm_saved scope r s =
     (case r of
        Inr detail \<Rightarrow>
          cm_loadList True (s\<lparr>cm_selectedName := jget detail ''name'', cm_selectedScope := jor (jget detail ''scope'') scope,
            cm_selectedCwd := jcoal (jget detail ''cwd'') JNull, cm_formDraft := cm_detailToDraft detail, cm_dirty := False\<rparr>)
      | Inl e \<Rightarrow> s\<lparr>cm_error := Some (err_message e), cm_saving := False\<rparr>)"

definition cm_deleteSelected :: "commands_store \<Rightarrow> commands_store" where
  "cm_deleteSelected s =
     (if truthy (cm_selectedName s) then ask_cm (CmDelete (cm_selectedScope s) (cm_selectedCwd s) (cm_selectedName s)) False s else s)"

definition cm_reset :: "commands_store \<Rightarrow> commands_store" where
  "cm_reset s =
     (cm_clearSelection s)\<lparr>cm_list := JArr [], cm_listLoading := False, cm_saving := False, cm_error := None, cm_scopePickerOpen := False\<rparr>"

definition cm_got_list :: "bool \<Rightarrow> api_error + jsval \<Rightarrow> commands_store \<Rightarrow> commands_store" where
  "cm_got_list awaited r s =
     (let s1 = (case r of Inr data \<Rightarrow> s\<lparr>cm_list := jor (jget data ''commands'') (JArr [])\<rparr> | Inl e \<Rightarrow> s)\<lparr>cm_listLoading := False\<rparr>
      in if awaited then s1\<lparr>cm_saving := False\<rparr> else s1)"

fun cm_settle :: "cm_request \<Rightarrow> bool \<Rightarrow> api_error + jsval \<Rightarrow> commands_store \<Rightarrow> commands_store" where
  "cm_settle CmList awaited r s = cm_got_list awaited r s"
| "cm_settle (CmDetail scope cwd name) awaited r s =
     (case r of Inr detail \<Rightarrow> s\<lparr>cm_formDraft := cm_detailToDraft detail\<rparr>
      | Inl e \<Rightarrow> s\<lparr>cm_formDraft := JNull, cm_error := Some (err_message e)\<rparr>)"
| "cm_settle (CmCreate body scope) awaited r s = cm_saved scope r s"
| "cm_settle (CmUpdate scope cwd name body) awaited r s = cm_saved scope r s"
| "cm_settle (CmDelete scope cwd name) awaited r s = (case r of Inr _ \<Rightarrow> cm_loadList False (cm_clearSelection s) | Inl e \<Rightarrow> s)"

definition cm_answer :: "nat \<Rightarrow> api_error + jsval \<Rightarrow> commands_store \<Rightarrow> commands_store" where
  "cm_answer i r s =
     (if i < length (cm_inflight s)
      then (case cm_inflight s ! i of
              (q, awaited) \<Rightarrow> cm_settle q awaited r (s\<lparr>cm_inflight := take i (cm_inflight s) @ drop (Suc i) (cm_inflight s)\<rparr>))
      else s)"

section \<open>The tools as text\<close>

lemma split_on_none: "\<forall>c \<in> set s. \<not> P c \<Longrightarrow> split_on P s = [s]"
  by (induction s) auto

lemma trim_space: "trim (CHR '' '' # s) = trim s"
  by (simp add: trim_def trim_start_def is_ws_def)

definition tool_name :: "string \<Rightarrow> bool" where
  "tool_name t \<longleftrightarrow> t \<noteq> [] \<and> trim t = t \<and> CHR '','' \<notin> set t"

lemma trim_split_join:
  "list_all tool_name ts \<Longrightarrow> ts \<noteq> [] \<Longrightarrow> map trim (split_on (\<lambda>c. c = CHR '','') (join '', '' ts)) = ts"
proof (induction ts)
  case (Cons x ts)
  note IH = Cons.IH and prems = Cons.prems
  have x: "\<forall>c \<in> set x. \<not> c = CHR '',''" "trim x = x" using Cons.prems by (auto simp: tool_name_def)
  show ?case
  proof (cases ts)
    case Nil
    then show ?thesis using x split_on_none [OF x(1)] by simp
  next
    case (Cons y ys)
    obtain w ws where w: "split_on (\<lambda>c. c = CHR '','') (join '', '' (y # ys)) = w # ws" by (meson neq_Nil_conv split_on_nonempty)
    have "split_on (\<lambda>c. c = CHR '','') (x @ CHR '','' # CHR '' '' # join '', '' (y # ys)) =
        x # split_on (\<lambda>c. c = CHR '','') (CHR '' '' # join '', '' (y # ys))"
      by (rule split_on_line [OF x(1)]) simp
    then show ?thesis using IH prems x w by (simp add: Cons trim_space)
  qed
qed simp

text \<open>The text of a list of tools gives back the list.\<close>

theorem tools_text_roundtrip:
  assumes "list_all tool_name ts"
  shows "split_tools (tools_text (map JStr ts)) = ts"
proof (cases "ts = []")
  case True
  then show ?thesis by (simp add: split_tools_def tools_text_def trim_def trim_start_def)
next
  case False
  have "filter (\<lambda>t. t \<noteq> []) ts = ts" using assms by (simp add: filter_id_conv tool_name_def list_all_iff)
  then show ?thesis using trim_split_join [OF assms False] by (simp add: split_tools_def tools_text_def comp_def)
qed

text \<open>A tool with a comma, such as a permission rule with two patterns, is cut in two.\<close>

lemma comma_tool_is_cut: "split_tools (tools_text [JStr ''Bash(a, b)'']) = [''Bash(a'', ''b)'']"
  by code_simp

section \<open>Crossed answers\<close>

interpretation cm: detail_view "\<lambda>(scope, cwd, name). selectCommand scope cwd name" cm_answer cm_inflight
  "\<lambda>(scope, cwd, name). (CmDetail scope cwd name, False)" "\<lambda>s. (cm_selectedScope s, cm_selectedCwd s, cm_selectedName s)"
  "\<lambda>(scope, cwd, name). (scope, jcoal cwd JNull, name)" cm_formDraft "\<lambda>r. cm_detailToDraft (projr r)" "\<lambda>_ _. True"
  "\<lambda>r. \<not> isl r"
  by unfold_locales (auto simp: selectCommand_def ask_cm_def cm_answer_def split: sum.splits prod.splits)

text \<open>Commands selected in a row: with crossed answers the editor has the draft of the one left.\<close>

theorem late_command_shows_other:
  assumes "cm_inflight s = []"
  shows "let s2 = cm_answer 0 (Inr da) (cm_answer 1 (Inr db) (selectCommand scope cwd b (selectCommand scope cwd a s)))
         in cm_formDraft s2 = cm_detailToDraft da \<and> cm_selectedName s2 = b"
  using cm.crossed [where s = s and a = "(scope, cwd, a)" and b = "(scope, cwd, b)" and ra = "Inr da" and rb = "Inr db"] assms by (simp add: Let_def)

end
