(* ===== verification/Spec2Isabelle.thy ===== *)
theory Spec2Isabelle
  imports AgentLifecycle StreamingBlocks Registry ChatStore WorkflowStore SdkTaskTracker WsClient SessionTransform SessionStores AgentMessages ModelSelection Panes StreamInvariant StreamCalls ResponseSummary Reconcile PaneSync HooksStore SkillsStore SchedulerStore MemoryStore CommandsStore
begin

text \<open>
  A verification development for the browser client of priva-cloud, the part of the system under
  \<^verbatim>\<open>src/web/user\<close> and \<^verbatim>\<open>src/web/shared\<close> that a user of the agent service runs.

  \<^bold>\<open>The program.\<close> A user submits a prompt; the agent runner executes it and streams events over a
  WebSocket. The streaming client (\<^verbatim>\<open>api/sse.js\<close>) opens the socket, resumes it after a loss, and hands
  each event to the dispatcher, which routes it to the slices of one session's runtime: the block
  assembler batches text, thinking and tool-input deltas into patches (\<^verbatim>\<open>utils/streamingBlocks.js\<close>), the
  chat slice keeps the transcript and applies them (\<^verbatim>\<open>stores/chatStore.js\<close>), the workflow slice keeps
  the background workflows and their agents (\<^verbatim>\<open>stores/workflowStore.js\<close>, which reads the workflow's script
  with \<^verbatim>\<open>utils/workflowScript.js\<close>), and the task tracker keeps the agent's task list
  (\<^verbatim>\<open>utils/sdkTaskTracker.js\<close>). The runtime registry (\<^verbatim>\<open>stores/runtime/registry.js\<close>) holds one runtime per
  open session, so that several streams run at once, and exposes the active one through facades. When
  a stored session is opened, \<^verbatim>\<open>utils/sessionTransform.js\<close> rebuilds the same state from the history.
  \<^verbatim>\<open>session/openSession.js\<close> fetches and shows sessions and switches between retained ones;
  \<^verbatim>\<open>session/attachBoot.js\<close> attaches, after a reload, to the runs the server still executes; panes of a split
  window mirror the state of their session (\<^verbatim>\<open>utils/sessionSnapshot.js\<close>). Around the conversation stand the
  sidebar, the settings, the authenticated HTTP client with its notices, and the pages that manage hooks,
  skills, scheduled jobs, subagents, memory files and commands.

  \<^bold>\<open>The library.\<close>
    \<^item> \<open>JsPrelude\<close>: theorem collections, list lemmas and the locales \<open>machine\<close> (an initial state, a
      step function, an invariant), \<open>monotone_machine\<close> (with a counter that never decreases) and
      \<open>terminal_machine\<close> (with a flag that stays set). \<open>Selections\<close>: the locale \<open>detail_view\<close> of a page that
      shows the answer to a selection, with what it shows when answers come in order and crossed.
    \<^item> \<open>JsValue\<close>: JavaScript values and the part of the language the code uses. \<open>JsRegex\<close>: the pattern
      literals of the source as data, with ECMAScript's backtracking. \<open>JsDict\<close>: ordered dictionaries
      behind the locales \<open>keyed_store\<close> and \<open>indexed_store\<close> (a dictionary beside its order list).

  \<^bold>\<open>The components.\<close>
    \<^item> \<open>AgentLifecycle\<close>: \<^verbatim>\<open>utils/agentToolLifecycle.js\<close> and \<^verbatim>\<open>utils/taskNotification.js\<close>; the statuses of Agent
      tool calls and the parser of notification envelopes, shown to invert the rendering of one.
    \<^item> \<open>StreamingBlocks\<close>: \<^verbatim>\<open>createStreamingBlockAssembler\<close> as a record \<open>assembler\<close> with \<open>accept\<close>, \<open>flush\<close>,
      \<open>reconcileAssistant\<close>, \<open>completeAll\<close> and \<open>dispose\<close>. The state objects live in a heap, since two maps share
      them. Shown: the invariant over every run, the accumulation of deltas, what a flush emits, that
      reconciliation claims a block once, and that a disposed assembler is silent.
    \<^item> \<open>Registry\<close>: runtimes in an object list, the maps \<^verbatim>\<open>runtimes\<close> and \<^verbatim>\<open>aliases\<close> holding references and
      keys. Shown: the invariant over every run, the identity of a runtime under promotion, the safety
      of eviction, and that facade subscriptions follow the active runtime.
    \<^item> \<open>SafeStorage\<close> (\<^verbatim>\<open>shared/utils/safeStorage.js\<close>): storage that may refuse access or writes.
    \<^item> \<open>ChatStore\<close>: the record \<open>chat\<close> with every operation of the slice, inside \<open>chat_world\<close> which adds what
      the slices share (storage, id counter). Shown: the invariant over every run, the immutability of
      a durable session's run mode, finality of agent notifications, what aborting, a replay gap and the
      end of a stream do to blocks, and that the last patch of a key wins.
    \<^item> \<open>WorkflowScript\<close> and \<open>WorkflowStore\<close>: the bracket scan, the meta parser, the agent tokenizer, and
      the slice with its events. Shown: the invariant over every run, the completeness of the phase
      rail, gated completion, the status a stream's end gives, the meaning of a balanced slice, and the
      numbering of parsed phases.
    \<^item> \<open>SdkTaskTracker\<close>: rounds, canonical tasks and awaited tool results. Shown: the invariant over
      every run, the rollback of a failed update, the replacement of a provisional task by the created
      one, and that coalescing for display loses no task.
    \<^item> \<open>WsClient\<close>: \<^verbatim>\<open>openAgentWS\<close> as a record \<open>ws_client\<close>, its socket callbacks, timer and functions as the
      step relation \<open>wc_steps\<close>; \<^verbatim>\<open>stores/connectionStore.js\<close> and \<^verbatim>\<open>shared/api/wsAuth.js\<close> with it. Shown over
      reachable states: one completion, a prompt submitted at most once per run, resumption from the last
      sequence number, the retry budget, and silence after completion.
    \<^item> \<open>FileArtifacts\<close> (\<^verbatim>\<open>utils/generatedTool.js\<close>, \<^verbatim>\<open>utils/fileArtifacts.js\<close>, \<^verbatim>\<open>utils/askUserQuestion.js\<close>) and
      \<open>SessionTransform\<close>: both passes of the replay. Shown: the replayed transcript is well formed, the
      single loop records exactly what a filter over the history gives, hidden tools have no card, and
      the tracker it builds satisfies the tracker's invariant.
    \<^item> \<open>SessionStores\<close>: \<^verbatim>\<open>stores/taskStore.js\<close>, \<^verbatim>\<open>stores/fileOpsStore.js\<close>, \<^verbatim>\<open>stores/fileBrowserStore.js\<close>,
      \<^verbatim>\<open>stores/sessionStatusStore.js\<close>, the notices without their timers and the canvas part of
      \<^verbatim>\<open>shared/stores/uiStore.js\<close>, one record each. Shown: the tabs stay distinct with a valid active one,
      the dots of finished sessions survive a reload, aborting leaves no task running. \<open>Panes\<close>:
      \<^verbatim>\<open>stores/splitStore.js\<close>, with its invariant over every run.
    \<^item> \<open>AgentMessages\<close> (\<^verbatim>\<open>utils/agentCommunication.js\<close>) and \<open>ModelSelection\<close> (\<^verbatim>\<open>utils/runMode.js\<close>,
      \<^verbatim>\<open>utils/modelSelection.js\<close>): the envelopes and routing of messages between agents, and the reference
      of the model a request names.
    \<^item> \<open>Dispatcher\<close>: the handlers of \<^verbatim>\<open>hooks/useSSE.js\<close>, one definition per case of \<^verbatim>\<open>onEvent\<close>, over the
      record \<open>disp\<close> of the slices, the shared stores, the registry and the closure \<open>stream\<close>. \<open>StreamRun\<close>:
      \<^verbatim>\<open>startStream\<close>, \<^verbatim>\<open>onEvent\<close>, \<^verbatim>\<open>onComplete\<close>, \<^verbatim>\<open>stopSessionStream\<close>, the answers, and the runs \<open>sr_step\<close> of a
      session. \<open>StreamProps\<close>: a stopped stream is inert but for one timer, a stop leaves nothing running,
      what terminal errors settle and what they do not. \<open>StreamInvariant\<close>: every run keeps the invariants of
      all slices, the binding to the runtime, distinct permission requests and the bound on shell output;
      the permission requests refine a first-in-first-out list.
      \<open>StreamCalls\<close>: a replayed tool envelope adds nothing; the launch of a background shell is recorded
      as killed.
    \<^item> \<open>SessionOpen\<close>: \<^verbatim>\<open>session/openSession.js\<close> and \<^verbatim>\<open>utils/sessionRecap.js\<close> over the record \<open>client_app\<close> of the
      registry, the slices of every runtime and the shared stores. \<open>SessionSwitch\<close>: what a cold open loads
      and a failed one keeps, that of two pending opens the later wins, that switching to a session and back
      restores it, and two interleavings in which a late answer takes the view or orphans a stream.
      \<open>Reconcile\<close>: \<^verbatim>\<open>session/attachBoot.js\<close>; a pass leaves every listed session streaming or a retry armed,
      and never touches a live one. \<open>PaneSync\<close>: \<^verbatim>\<open>utils/sessionSnapshot.js\<close>; a pane that applies a snapshot has
      the state it was taken from, in every field that does not belong to the window.
    \<^item> \<open>Toasts\<close> (\<^verbatim>\<open>shared/stores/toastStore.js\<close> with its timers) and \<open>ApiClient\<close> (\<^verbatim>\<open>shared/api/client.js\<close>,
      \<^verbatim>\<open>tokenStore.js\<close>, \<^verbatim>\<open>auth.js\<close> and \<^verbatim>\<open>authStore.js\<close>, over a network that is a parameter): notices expire, a
      call wakes a sleeping sandbox within bounds, and an answer ends the session exactly when it must.
    \<^item> \<open>Sidebar\<close> (\<^verbatim>\<open>stores/sidebarStore.js\<close>), \<open>SessionTags\<close> (\<^verbatim>\<open>utils/sessionTags.js\<close>) and \<open>Settings\<close>
      (\<^verbatim>\<open>stores/settingsStore.js\<close>): sessions are listed once, loading ends, a chosen model stays chosen.
    \<^item> \<open>ToolRuns\<close> and \<open>ResponseSummary\<close> (\<^verbatim>\<open>utils/toolRunGrouping.js\<close>, \<^verbatim>\<open>toolRunSummary.js\<close>,
      \<^verbatim>\<open>sessionSummary.js\<close>, \<^verbatim>\<open>responseSummary.js\<close>): the summaries of an answer; every reachable agent is
      listed once and repeated blocks count once.
    \<^item> \<open>HooksStore\<close>, \<open>SkillsStore\<close>, \<open>SchedulerStore\<close>, \<open>SubagentsStore\<close> (with the reader of
      \<^verbatim>\<open>api/subagents.js\<close>), \<open>MemoryStore\<close> and \<open>CommandsStore\<close>: the management pages, one record each, their
      requests answered in any order. Shown: what is on screen belongs to the selection, for the skills page
      in every run and for the others as long as nothing is on its way when the selection changes, and what
      happens otherwise; pages of runs add up to the whole list; the reader gives the events the server wrote
      however the stream is cut; unchanged drafts save what was loaded; an edit of the memory editor reaches
      the selected file.

  \<^bold>\<open>The dispatcher's environment.\<close> Requests, sidebar updates and the two polls (for the sidebar row of a new
  session and for the recap) are recorded outputs. The HTTP call of an answer returns before the next
  event. The text catalogue, the settings and the functions a transport returns are arguments.

  \<^bold>\<open>Bounds.\<close> Numbers are integers or NaN; characters have eight bits (see \<open>JsValue\<close>). The matcher of
  \<open>JsRegex\<close> takes fuel for repetitions, always one more than the characters that remain, and an
  iteration that consumes nothing ends a repetition, so the fuel never decides a match. All other
  loops of the source are structural or have a termination proof. A clock reading is an argument of
  the operation that takes it; an operation that reads the clock twice gets the same value.

  \<^bold>\<open>Asynchronous operations\<close> of the stores are a call that sends a request, which keeps what the closure of the
  operation captured, and an answer; a run interleaves calls and answers in any order.

  \<^bold>\<open>Not modelled.\<close> The theme, language, settings and terminal fields of \<^verbatim>\<open>uiStore.js\<close>, the colours of tags
  (floating point), the labels of \<^verbatim>\<open>toolPresentation.js\<close>, the remaining management stores (skill hub, skill
  synchronisation, MCP servers, user data, sandbox health, page inspector), which repeat the pattern of the
  modelled ones, the modules with one HTTP call per function, and the helpers that depend on the browser's
  layout. The React components render the state that is modelled, and the administration console is a
  second application of such components. The control panel, the agent runner, the operator and the terminal
  daemon are Python and Go programs at the other end of the modelled interfaces.
\<close>

end
